(* ===== verification/Prelude.thy ===== *)
theory Prelude
  imports "HOL-Library.Word" "HOL-Library.State_Monad"
begin

unbundle bit_operations_syntax

text \<open>
  What every component of the development shares: the C scalar types and return codes of
  \<^verbatim>\<open>multiocp/include.ocp/estd.h\<close>, pointers as natural numbers with 0 for NULL, the
  state monad in which the C statements are written, and a small calculus of preserved
  predicates (\<open>keeps\<close>) and of postconditions (\<open>triple\<close>) for such programs.
\<close>

section \<open>Scalars\<close>

text \<open>
  \<^verbatim>\<open>Int\<close> is modelled by \<^typ>\<open>int\<close>, \<^verbatim>\<open>Byte\<close> and \<^verbatim>\<open>OS_Uint32\<close> by words of their
  width. \<^verbatim>\<open>SUCCESS\<close> is \<^verbatim>\<open>Success\<close> = 0, \<^verbatim>\<open>FAIL\<close> is \<^verbatim>\<open>OldFail\<close> = -1.
\<close>

type_synonym u8 = "8 word"
type_synonym u32 = "32 word"
type_synonym ptr = nat

abbreviation (input) NULL :: ptr where "NULL \<equiv> 0"
abbreviation (input) SUCCESS :: int where "SUCCESS \<equiv> 0"
abbreviation (input) FAIL :: int where "FAIL \<equiv> - 1"

text \<open>The conversion to \<^verbatim>\<open>short\<close> and to \<^verbatim>\<open>unsigned char\<close>.\<close>

definition to_short :: "int \<Rightarrow> int" where
  "to_short x = sint (word_of_int x :: 16 word)"

definition to_byte :: "int \<Rightarrow> u8" where
  "to_byte x = word_of_int x"

lemma to_short_small: "0 \<le> x \<Longrightarrow> x < 32768 \<Longrightarrow> to_short x = x"
  by (simp add: to_short_def sint_sbintrunc' signed_take_bit_int_eq_self)

lemma uint_to_byte: "uint (to_byte x) = x mod 256"
  by (simp add: to_byte_def uint_word_of_int)

lemma to_byte_uint [simp]: "to_byte (uint b) = b"
  by (simp add: to_byte_def)


section \<open>Statements as state monad programs\<close>

abbreviation return :: "'a \<Rightarrow> ('s, 'a) state" where
  "return \<equiv> State_Monad.return"

definition gets :: "('s \<Rightarrow> 'a) \<Rightarrow> ('s, 'a) state" where
  "gets f = State (\<lambda>s. (f s, s))"

definition modify :: "('s \<Rightarrow> 's) \<Rightarrow> ('s, unit) state" where
  "modify f = State (\<lambda>s. ((), f s))"

definition skip :: "('s, unit) state" where
  "skip = State_Monad.return ()"

definition exec :: "('s, 'a) state \<Rightarrow> 's \<Rightarrow> 's" where
  "exec m s = snd (run_state m s)"

definition result :: "('s, 'a) state \<Rightarrow> 's \<Rightarrow> 'a" where
  "result m s = fst (run_state m s)"

lemma run_state_gets [simp]: "run_state (gets f) s = (f s, s)"
  by (simp add: gets_def)

lemma run_state_modify [simp]: "run_state (modify f) s = ((), f s)"
  by (simp add: modify_def)

lemma run_state_skip [simp]: "run_state skip s = ((), s)"
  by (simp add: skip_def)

lemma run_state_if: "run_state (if b then m else n) s = (if b then run_state m s else run_state n s)"
  by simp

lemma exec_result: "run_state m s = (result m s, exec m s)"
  by (simp add: exec_def result_def)

text \<open>
  Sequencing in terms of \<open>exec\<close> and \<open>result\<close>: with these rules a program is run
  statement by statement, and a call whose effect is known by a lemma about its \<open>exec\<close>
  and \<open>result\<close> is not unfolded.
\<close>

lemma exec_bind: "exec (m \<bind> f) s = exec (f (result m s)) (exec m s)"
  by (simp add: exec_def result_def split: prod.split)

lemma result_bind: "result (m \<bind> f) s = result (f (result m s)) (exec m s)"
  by (simp add: exec_def result_def split: prod.split)

lemma exec_result_basic:
  "exec (return x) s = s" "result (return x) s = x"
  "exec (gets f) s = s" "result (gets f) s = f s"
  "exec (modify h) s = h s" "result (modify h) s = ()"
  "exec skip s = s"
  by (simp_all add: exec_def result_def)

lemma exec_if: "exec (if b then m else n) s = (if b then exec m s else exec n s)"
  by simp

lemma result_if: "result (if b then m else n) s = (if b then result m s else result n s)"
  by simp

lemmas run_simps = exec_bind result_bind exec_result_basic exec_if result_if


section \<open>Preserved predicates\<close>

text \<open>
  \<open>keeps P m\<close>: the program \<open>m\<close> preserves \<open>P\<close>. The collection \<open>keeps_intros\<close> holds
  the rules that take a program apart; each component adds the rule of its operations.
\<close>

named_theorems keeps_intros

definition keeps :: "('s \<Rightarrow> bool) \<Rightarrow> ('s, 'a) state \<Rightarrow> bool" where
  "keeps P m \<longleftrightarrow> (\<forall>s. P s \<longrightarrow> P (exec m s))"

lemma keepsI: "(\<And>s. P s \<Longrightarrow> P (exec m s)) \<Longrightarrow> keeps P m"
  by (simp add: keeps_def)

lemma keepsD: "keeps P m \<Longrightarrow> P s \<Longrightarrow> P (exec m s)"
  by (simp add: keeps_def)

lemma keeps_return [keeps_intros]: "keeps P (return x)"
  by (simp add: keeps_def run_simps)

lemma keeps_gets [keeps_intros]: "keeps P (gets f)"
  by (simp add: keeps_def run_simps)

lemma keeps_skip [keeps_intros]: "keeps P skip"
  by (simp add: keeps_def run_simps)

lemma keeps_bind [keeps_intros]:
  "keeps P m \<Longrightarrow> (\<And>x. keeps P (f x)) \<Longrightarrow> keeps P (m \<bind> f)"
  by (simp add: keeps_def run_simps)

lemma keeps_if [keeps_intros]:
  "(b \<Longrightarrow> keeps P m) \<Longrightarrow> (\<not> b \<Longrightarrow> keeps P n) \<Longrightarrow> keeps P (if b then m else n)"
  by simp

lemma keeps_case_option [keeps_intros]:
  "keeps P m \<Longrightarrow> (\<And>x. keeps P (f x)) \<Longrightarrow> keeps P (case y of None \<Rightarrow> m | Some x \<Rightarrow> f x)"
  by (cases y) simp_all

lemma keeps_case_list [keeps_intros]:
  "keeps P m \<Longrightarrow> (\<And>x xs. keeps P (f x xs)) \<Longrightarrow>
    keeps P (case y of [] \<Rightarrow> m | x # xs \<Rightarrow> f x xs)"
  by (cases y) simp_all

lemma keeps_case_prod [keeps_intros]:
  "(\<And>a b. keeps P (f a b)) \<Longrightarrow> keeps P (case y of (a, b) \<Rightarrow> f a b)"
  by (cases y) simp

lemma keeps_let [keeps_intros]:
  "(\<And>x. keeps P (f x)) \<Longrightarrow> keeps P (let x = e in f x)"
  by (simp add: Let_def)

lemma keeps_conj: "keeps P m \<Longrightarrow> keeps Q m \<Longrightarrow> keeps (\<lambda>s. P s \<and> Q s) m"
  by (simp add: keeps_def)

lemma keeps_all: "(\<And>x. keeps (P x) m) \<Longrightarrow> keeps (\<lambda>s. \<forall>x. P x s) m"
  by (simp add: keeps_def)


section \<open>Postconditions\<close>

definition triple :: "('s \<Rightarrow> bool) \<Rightarrow> ('s, 'a) state \<Rightarrow> ('a \<Rightarrow> 's \<Rightarrow> bool) \<Rightarrow> bool" where
  "triple P m Q \<longleftrightarrow> (\<forall>s. P s \<longrightarrow> Q (result m s) (exec m s))"

lemma tripleI: "(\<And>s. P s \<Longrightarrow> Q (result m s) (exec m s)) \<Longrightarrow> triple P m Q"
  by (simp add: triple_def)

lemma tripleD: "triple P m Q \<Longrightarrow> P s \<Longrightarrow> Q (result m s) (exec m s)"
  by (simp add: triple_def)

lemma triple_bind: "triple P m R \<Longrightarrow> (\<And>x. triple (R x) (f x) Q) \<Longrightarrow> triple P (m \<bind> f) Q"
  by (simp add: triple_def run_simps)

lemma triple_if: "(b \<Longrightarrow> triple P m Q) \<Longrightarrow> (\<not> b \<Longrightarrow> triple P n Q) \<Longrightarrow> triple P (if b then m else n) Q"
  by simp

lemma triple_conseq:
  "triple P' m Q' \<Longrightarrow> (\<And>s. P s \<Longrightarrow> P' s) \<Longrightarrow> (\<And>x s. Q' x s \<Longrightarrow> Q x s) \<Longrightarrow> triple P m Q"
  by (simp add: triple_def)


section \<open>Lists\<close>

lemma distinct_remove1_set: "distinct xs \<Longrightarrow> set (remove1 x xs) = set xs - {x}"
  by (rule set_remove1_eq)

end
