(* ===== verification/Qu.thy ===== *)
theory Qu
  imports Prelude
begin

text \<open>
  The intrusive doubly linked queues of \<^verbatim>\<open>base.ocp/qu_/portable/queue.c\<close>: a heap of
  \<^verbatim>\<open>QU_Element\<close> (fields \<^verbatim>\<open>pNext\<close>, \<^verbatim>\<open>pPrev\<close>), the operations with their pointer
  assignments in the order of the source, and the refinement to lists: a queue head and its
  elements form a ring, \<^verbatim>\<open>QU_insert\<close> splices two rings (so it appends at the tail
  whichever of its two arguments is the stand-alone element), \<^verbatim>\<open>QU_remove\<close> takes one
  element out and leaves it stand-alone. The locale \<open>queue_impl\<close> is the interface the other
  components use: there a queue is the list of its elements.
\<close>

section \<open>The operations\<close>

record qu_heap =
  pNext :: "ptr \<Rightarrow> ptr"
  pPrev :: "ptr \<Rightarrow> ptr"

definition QU_init :: "ptr \<Rightarrow> qu_heap \<Rightarrow> qu_heap" where
  "QU_init p h = h\<lparr>pNext := (pNext h)(p := p), pPrev := (pPrev h)(p := p)\<rparr>"

definition QU_insert :: "ptr \<Rightarrow> ptr \<Rightarrow> qu_heap \<Rightarrow> qu_heap" where
  "QU_insert pInsert pBefore h =
     (if pPrev h pInsert = pBefore \<or> pNext h pInsert = pBefore
         \<or> pPrev h pBefore = pInsert \<or> pNext h pBefore = pInsert
      then h
      else
        let h1 = h\<lparr>pNext := (pNext h)(pPrev h pBefore := pInsert)\<rparr>;
            pTemp = pPrev h1 pInsert;
            h2 = h1\<lparr>pNext := (pNext h1)(pTemp := pBefore)\<rparr>;
            h3 = h2\<lparr>pPrev := (pPrev h2)(pInsert := pPrev h2 pBefore)\<rparr>
        in h3\<lparr>pPrev := (pPrev h3)(pBefore := pTemp)\<rparr>)"

definition QU_remove :: "ptr \<Rightarrow> qu_heap \<Rightarrow> qu_heap" where
  "QU_remove p h =
     (let h1 = h\<lparr>pPrev := (pPrev h)(pNext h p := pPrev h p)\<rparr>;
          h2 = h1\<lparr>pNext := (pNext h1)(pPrev h1 p := pNext h1 p)\<rparr>
      in QU_init p h2)"

definition QU_MOVE :: "ptr \<Rightarrow> ptr \<Rightarrow> qu_heap \<Rightarrow> qu_heap" where
  "QU_MOVE p before h = QU_insert p before (QU_remove p h)"

definition QU_PREPEND :: "ptr \<Rightarrow> ptr \<Rightarrow> qu_heap \<Rightarrow> qu_heap" where
  "QU_PREPEND p q h = QU_insert p (pNext h q) h"

definition QU_FIRST :: "ptr \<Rightarrow> qu_heap \<Rightarrow> ptr" where
  "QU_FIRST p h = pNext h p"

definition QU_LAST :: "ptr \<Rightarrow> qu_heap \<Rightarrow> ptr" where
  "QU_LAST p h = pPrev h p"


section \<open>Rings\<close>

definition linked :: "qu_heap \<Rightarrow> ptr \<Rightarrow> ptr \<Rightarrow> bool" where
  "linked h a b \<longleftrightarrow> pNext h a = b \<and> pPrev h b = a"

fun links :: "qu_heap \<Rightarrow> ptr list \<Rightarrow> bool" where
  "links h [] = True"
| "links h [x] = True"
| "links h (x # y # zs) = (linked h x y \<and> links h (y # zs))"

definition ring :: "qu_heap \<Rightarrow> ptr list \<Rightarrow> bool" where
  "ring h xs \<longleftrightarrow> xs \<noteq> [] \<and> distinct xs \<and> links h xs \<and> linked h (last xs) (hd xs)"

text \<open>A queue: its head followed by its elements, first to last.\<close>

definition queue :: "qu_heap \<Rightarrow> ptr \<Rightarrow> ptr list \<Rightarrow> bool" where
  "queue h q xs \<longleftrightarrow> ring h (q # xs)"

text \<open>A stand-alone element, as \<^verbatim>\<open>QU_init\<close> and \<^verbatim>\<open>QU_remove\<close> leave it.\<close>

definition alone :: "qu_heap \<Rightarrow> ptr \<Rightarrow> bool" where
  "alone h p \<longleftrightarrow> ring h [p]"

lemma links_append:
  "xs \<noteq> [] \<Longrightarrow> ys \<noteq> [] \<Longrightarrow>
    links h (xs @ ys) \<longleftrightarrow> links h xs \<and> linked h (last xs) (hd ys) \<and> links h ys"
proof (induction xs rule: induct_list012)
  case (2 x)
  then show ?case by (cases ys) simp_all
qed auto

lemma links_cong:
  assumes "\<And>x. x \<in> set (butlast xs) \<Longrightarrow> pNext h' x = pNext h x"
    and "\<And>x. x \<in> set (tl xs) \<Longrightarrow> pPrev h' x = pPrev h x"
  shows "links h' xs = links h xs"
  using assms
proof (induction xs rule: induct_list012)
  case (3 x y zs)
  have "links h' (y # zs) = links h (y # zs)"
    by (rule "3.IH"(2)) (use "3.prems" in \<open>auto split: if_splits\<close>)
  moreover have "pNext h' x = pNext h x" "pPrev h' y = pPrev h y"
    using "3.prems" by simp_all
  ultimately show ?case by (simp add: linked_def)
qed simp_all

lemma ring_cong:
  "(\<And>x. x \<in> set xs \<Longrightarrow> pNext h' x = pNext h x \<and> pPrev h' x = pPrev h x) \<Longrightarrow>
    ring h' xs = ring h xs"
  unfolding ring_def linked_def
  by (metis hd_in_set in_set_butlastD last_in_set links_cong list.set_sel(2) tl_Nil)

lemma butlast_not_last: "distinct zs \<Longrightarrow> x \<in> set (butlast zs) \<Longrightarrow> x \<noteq> last zs"
  by (cases zs rule: rev_cases) auto

lemma ring_rotate: "ring h (xs @ ys) \<Longrightarrow> ring h (ys @ xs)"
  by (cases "xs = []"; cases "ys = []") (auto simp: ring_def links_append)

lemma ring_prev_hd: "ring h (x # xs) \<Longrightarrow> pPrev h x = last (x # xs)"
  by (simp add: ring_def linked_def)

lemma ring_next_last: "ring h (x # xs) \<Longrightarrow> pNext h (last (x # xs)) = x"
  by (simp add: ring_def linked_def)

lemma ring_next_hd: "ring h (x # xs) \<Longrightarrow> pNext h x = (case xs of [] \<Rightarrow> x | y # ys \<Rightarrow> y)"
  by (cases xs) (simp_all add: ring_def linked_def)

lemma ring_closed:
  assumes "ring h xs" and "p \<in> set xs"
  shows "pNext h p \<in> set xs \<and> pPrev h p \<in> set xs"
proof -
  from assms(2) obtain as bs where "xs = as @ p # bs"
    by (meson split_list)
  then have r: "ring h (p # bs @ as)"
    using ring_rotate [of h as "p # bs"] assms(1) by simp
  have "pPrev h p \<in> set (p # bs @ as)"
    unfolding ring_prev_hd [OF r] by (rule last_in_set) simp
  moreover have "pNext h p \<in> set (p # bs @ as)"
    using ring_next_hd [OF r] by (cases "bs @ as") (simp, metis list.set_intros list.simps(5))
  ultimately show ?thesis using \<open>xs = as @ p # bs\<close> by auto
qed

lemma alone_init: "alone (QU_init p h) p"
  by (simp add: alone_def ring_def linked_def QU_init_def)

lemma alone_iff: "alone h p \<longleftrightarrow> pNext h p = p \<and> pPrev h p = p"
  by (auto simp: alone_def ring_def linked_def)

lemma init_ring_other: "p \<notin> set xs \<Longrightarrow> ring (QU_init p h) xs = ring h xs"
  by (rule ring_cong) (auto simp: QU_init_def)


section \<open>Insertion splices two rings\<close>

lemma QU_insert_heap:
  assumes a: "ring h (a # xs)" and b: "ring h (b # ys)"
    and disj: "set (a # xs) \<inter> set (b # ys) = {}"
  shows "QU_insert a b h =
    h\<lparr>pNext := (pNext h)(last (b # ys) := a, last (a # xs) := b),
      pPrev := (pPrev h)(a := last (b # ys), b := last (a # xs))\<rparr>"
proof -
  have "pNext h a \<in> set (a # xs)" "pPrev h a \<in> set (a # xs)"
    "pNext h b \<in> set (b # ys)" "pPrev h b \<in> set (b # ys)"
    using ring_closed [OF a, of a] ring_closed [OF b, of b] by auto
  with disj have "\<not> (pPrev h a = b \<or> pNext h a = b \<or> pPrev h b = a \<or> pNext h b = a)"
    by auto
  then show ?thesis
    using ring_prev_hd [OF a] ring_prev_hd [OF b] disj
    by (auto simp: QU_insert_def Let_def)
qed

lemma QU_insert_splice:
  assumes a: "ring h (a # xs)" and b: "ring h (b # ys)"
    and disj: "set (a # xs) \<inter> set (b # ys) = {}"
  shows "ring (QU_insert a b h) (b # ys @ a # xs)"
proof -
  let ?h = "QU_insert a b h"
  have la: "last (a # xs) \<in> set (a # xs)" and lb: "last (b # ys) \<in> set (b # ys)"
    by (rule last_in_set, simp)+
  have da: "distinct (a # xs)" and db: "distinct (b # ys)"
    using a b by (simp_all add: ring_def)
  have eq: "?h = h\<lparr>pNext := (pNext h)(last (b # ys) := a, last (a # xs) := b),
      pPrev := (pPrev h)(a := last (b # ys), b := last (a # xs))\<rparr>"
    by (rule QU_insert_heap [OF assms])
  have "x \<in> set (butlast (b # ys)) \<Longrightarrow> x \<noteq> last (b # ys) \<and> x \<noteq> last (a # xs)" for x
    using butlast_not_last [OF db] in_set_butlastD [of x "b # ys"] la disj by blast
  then have "links ?h (b # ys) = links h (b # ys)"
    using db disj by (intro links_cong) (auto simp: eq simp del: last.simps butlast.simps)
  moreover have "x \<in> set (butlast (a # xs)) \<Longrightarrow> x \<noteq> last (b # ys) \<and> x \<noteq> last (a # xs)" for x
    using butlast_not_last [OF da] in_set_butlastD [of x "a # xs"] lb disj by blast
  then have "links ?h (a # xs) = links h (a # xs)"
    using da disj by (intro links_cong) (auto simp: eq simp del: last.simps butlast.simps)
  moreover have "linked ?h (last (b # ys)) a" "linked ?h (last (a # xs)) b"
    using la lb disj by (auto simp: eq linked_def)
  ultimately have "links ?h ((b # ys) @ (a # xs))"
    using a b by (subst links_append) (simp_all add: ring_def)
  then show ?thesis
    using a b disj \<open>linked ?h (last (a # xs)) b\<close> by (auto simp: ring_def)
qed

lemma QU_insert_frame:
  assumes "ring h (a # xs)" "ring h (b # ys)" "set (a # xs) \<inter> set (b # ys) = {}"
    and "set zs \<inter> set (a # xs) = {}" "set zs \<inter> set (b # ys) = {}"
  shows "ring (QU_insert a b h) zs = ring h zs"
proof -
  have "last (a # xs) \<in> set (a # xs)" "last (b # ys) \<in> set (b # ys)"
    by (rule last_in_set, simp)+
  with assms(4,5) have "last (a # xs) \<notin> set zs" "last (b # ys) \<notin> set zs" "a \<notin> set zs" "b \<notin> set zs"
    by auto
  then show ?thesis
    by (subst QU_insert_heap [OF assms(1-3)], intro ring_cong) auto
qed


section \<open>Removal\<close>

lemma QU_remove_heap:
  assumes "ring h (p # xs)" and "xs \<noteq> []"
  shows "QU_remove p h =
    h\<lparr>pNext := (pNext h)(last xs := hd xs, p := p), pPrev := (pPrev h)(hd xs := last xs, p := p)\<rparr>"
proof -
  have "pNext h p = hd xs" "pPrev h p = last xs" "hd xs \<noteq> p" "last xs \<noteq> p"
    using assms ring_next_hd [OF assms(1)] ring_prev_hd [OF assms(1)] hd_in_set last_in_set
    by (auto simp: ring_def split: list.splits)
  then show ?thesis
    by (simp add: QU_remove_def QU_init_def Let_def)
qed

lemma QU_remove_ring:
  assumes r: "ring h (p # xs)" and ne: "xs \<noteq> []"
  shows "ring (QU_remove p h) xs" and "alone (QU_remove p h) p"
proof -
  have d: "distinct xs" "p \<notin> set xs" "links h xs"
    using r ne by (auto simp: ring_def neq_Nil_conv)
  have "p \<noteq> hd xs" "p \<noteq> last xs"
    using d ne hd_in_set last_in_set by metis+
  moreover have "links (QU_remove p h) xs = links h xs"
  proof (rule links_cong)
    fix x assume "x \<in> set (butlast xs)"
    then show "pNext (QU_remove p h) x = pNext h x"
      using butlast_not_last [OF d(1)] in_set_butlastD [of x xs] d
      by (auto simp: QU_remove_heap [OF assms])
  next
    fix x assume "x \<in> set (tl xs)"
    then show "pPrev (QU_remove p h) x = pPrev h x"
      using d ne by (cases xs) (auto simp: QU_remove_heap [OF assms])
  qed
  ultimately show "ring (QU_remove p h) xs"
    using d ne by (simp add: ring_def linked_def QU_remove_heap [OF assms])
  show "alone (QU_remove p h) p"
    by (simp add: alone_iff QU_remove_heap [OF assms])
qed

lemma QU_remove_frame:
  assumes "ring h (p # xs)" "xs \<noteq> []" "set zs \<inter> set (p # xs) = {}"
  shows "ring (QU_remove p h) zs = ring h zs"
proof (rule ring_cong)
  fix x assume "x \<in> set zs"
  with assms have "x \<notin> set xs" "x \<noteq> p" by auto
  then have "x \<noteq> hd xs" "x \<noteq> last xs" using assms(2) by auto
  with \<open>x \<noteq> p\<close>
  show "pNext (QU_remove p h) x = pNext h x \<and> pPrev (QU_remove p h) x = pPrev h x"
    by (simp add: QU_remove_heap [OF assms(1,2)])
qed


section \<open>Queues as lists\<close>

lemma queue_init: "queue (QU_init q h) q []"
  using alone_init by (simp add: queue_def alone_def)

lemma queue_insert_tail:
  assumes "queue h q xs" "alone h p" "p \<notin> set (q # xs)"
  shows "queue (QU_insert p q h) q (xs @ [p])" "queue (QU_insert q p h) q (xs @ [p])"
proof -
  have "ring (QU_insert p q h) (q # xs @ [p])" "ring (QU_insert q p h) ([p] @ q # xs)"
    using QU_insert_splice [of h p "[]" q xs] QU_insert_splice [of h q xs p "[]"] assms
    by (auto simp: queue_def alone_def)
  then show "queue (QU_insert p q h) q (xs @ [p])" "queue (QU_insert q p h) q (xs @ [p])"
    using ring_rotate [of _ "[p]" "q # xs"] by (simp_all add: queue_def)
qed

lemma queue_insert_before:
  assumes "queue h q (xs @ y # ys)" "alone h p" "p \<notin> set (q # xs @ y # ys)"
  shows "queue (QU_insert p y h) q (xs @ p # y # ys)"
proof -
  have "ring h (y # ys @ q # xs)"
    using ring_rotate [of h "q # xs" "y # ys"] assms(1) by (simp add: queue_def)
  then have "ring (QU_insert p y h) ((y # ys) @ q # xs @ [p])"
    using QU_insert_splice [of h p "[]" y "ys @ q # xs"] assms(2,3) by (auto simp: alone_def)
  then show ?thesis
    using ring_rotate [of _ "y # ys" "q # xs @ [p]"] by (simp add: queue_def)
qed

lemma queue_remove:
  assumes "queue h q (xs @ p # ys)"
  shows "queue (QU_remove p h) q (xs @ ys)" "alone (QU_remove p h) p"
proof -
  have r: "ring h (p # ys @ q # xs)"
    using ring_rotate [of h "q # xs" "p # ys"] assms by (simp add: queue_def)
  show "alone (QU_remove p h) p"
    using QU_remove_ring(2) [OF r] by simp
  have "ring (QU_remove p h) (ys @ q # xs)"
    using QU_remove_ring(1) [OF r] by simp
  then show "queue (QU_remove p h) q (xs @ ys)"
    using ring_rotate [of _ ys "q # xs"] by (simp add: queue_def)
qed

lemma queue_first: "queue h q xs \<Longrightarrow> QU_FIRST q h = (case xs of [] \<Rightarrow> q | x # _ \<Rightarrow> x)"
  using ring_next_hd by (simp add: queue_def QU_FIRST_def)

lemma queue_last: "queue h q xs \<Longrightarrow> QU_LAST q h = last (q # xs)"
  using ring_prev_hd by (simp add: queue_def QU_LAST_def)

lemma queue_move:
  assumes "queue h q (xs @ p # ys)"
  shows "queue (QU_MOVE p q h) q (xs @ ys @ [p])"
proof -
  have "p \<notin> set (q # xs @ ys)"
    using assms by (auto simp: queue_def ring_def)
  then show ?thesis
    using queue_insert_tail(1) [OF queue_remove [OF assms]] by (simp add: QU_MOVE_def)
qed


section \<open>The interface of the queue\<close>

text \<open>
  What the clients of \<^verbatim>\<open>queue.h\<close> rely on (\<^verbatim>\<open>seq.c\<close>, \<^verbatim>\<open>schsel.c\<close>,
  \<^verbatim>\<open>udp_if.c\<close>, the sequences of \<^verbatim>\<open>erop.h\<close>): a queue holds a list of elements,
  insertion appends, removal takes out, and the first element is the head of the list. Whatever
  provides this is a first-in first-out buffer (\<open>fifo\<close>).
\<close>

locale queue_impl =
  fixes elems :: "'h \<Rightarrow> 'p \<Rightarrow> 'p list \<Rightarrow> bool"
    and solo :: "'h \<Rightarrow> 'p \<Rightarrow> bool"
    and init :: "'p \<Rightarrow> 'h \<Rightarrow> 'h"
    and ins :: "'p \<Rightarrow> 'p \<Rightarrow> 'h \<Rightarrow> 'h"
    and rem :: "'p \<Rightarrow> 'h \<Rightarrow> 'h"
    and first :: "'p \<Rightarrow> 'h \<Rightarrow> 'p"
  assumes init_elems: "elems (init q h) q []"
    and ins_elems: "elems h q xs \<Longrightarrow> solo h p \<Longrightarrow> p \<notin> set (q # xs) \<Longrightarrow> elems (ins p q h) q (xs @ [p])"
    and ins_solo: "elems h q xs \<Longrightarrow> solo h p \<Longrightarrow> p \<notin> set (q # xs) \<Longrightarrow>
      solo h r \<Longrightarrow> r \<notin> set (q # p # xs) \<Longrightarrow> solo (ins p q h) r"
    and rem_elems: "elems h q (xs @ p # ys) \<Longrightarrow> elems (rem p h) q (xs @ ys)"
    and rem_solo: "elems h q (xs @ p # ys) \<Longrightarrow> solo (rem p h) p"
    and first_elems: "elems h q xs \<Longrightarrow> first q h = (case xs of [] \<Rightarrow> q | x # _ \<Rightarrow> x)"
begin

primrec drain :: "nat \<Rightarrow> 'p \<Rightarrow> 'h \<Rightarrow> 'p list" where
  "drain 0 q h = []"
| "drain (Suc n) q h = first q h # drain n q (rem (first q h) h)"

lemma fill:
  "elems h q xs \<Longrightarrow> distinct (q # xs @ ps) \<Longrightarrow> (\<forall>p\<in>set ps. solo h p) \<Longrightarrow>
    elems (fold (\<lambda>p. ins p q) ps h) q (xs @ ps)"
proof (induction ps arbitrary: h xs)
  case (Cons p ps)
  have "elems (ins p q h) q (xs @ [p])"
    using Cons.prems by (intro ins_elems) auto
  moreover have "\<forall>r\<in>set ps. solo (ins p q h) r"
    using Cons.prems by (intro ballI ins_solo [of h q xs]) auto
  ultimately show ?case
    using Cons.IH [of "ins p q h" "xs @ [p]"] Cons.prems(2) by auto
qed simp

lemma drain_elems: "elems h q xs \<Longrightarrow> drain (length xs) q h = xs"
proof (induction xs arbitrary: h)
  case (Cons x xs)
  have "first q h = x"
    using first_elems [OF Cons.prems] by simp
  moreover have "elems (rem x h) q xs"
    using rem_elems [of h q "[]" x xs] Cons.prems by simp
  ultimately show ?case using Cons.IH by simp
qed simp

lemma fifo:
  assumes "distinct (q # ps)" and "\<forall>p\<in>set ps. solo (init q h) p"
  shows "drain (length ps) q (fold (\<lambda>p. ins p q) ps (init q h)) = ps"
proof -
  have "elems (fold (\<lambda>p. ins p q) ps (init q h)) q ([] @ ps)"
    by (rule fill [OF init_elems]) (use assms in auto)
  then show ?thesis using drain_elems by simp
qed

end

lemma alone_insert:
  assumes "queue h q xs" "alone h p" "p \<notin> set (q # xs)" "alone h r" "r \<notin> set (q # p # xs)"
  shows "alone (QU_insert p q h) r"
  using QU_insert_frame [of h p "[]" q xs "[r]"] assms by (auto simp: queue_def alone_def)

interpretation qu: queue_impl queue alone QU_init QU_insert QU_remove QU_FIRST
  by unfold_locales
    (assumption | rule queue_init queue_insert_tail(1) alone_insert queue_remove queue_first)+

text \<open>\<^verbatim>\<open>QU_INSERT(q, elem)\<close>, with the head first, is a provider as well.\<close>

lemma alone_insert':
  assumes "queue h q xs" "alone h p" "p \<notin> set (q # xs)" "alone h r" "r \<notin> set (q # p # xs)"
  shows "alone (QU_insert q p h) r"
  using QU_insert_frame [of h q xs p "[]" "[r]"] assms by (auto simp: queue_def alone_def)

interpretation qu': queue_impl queue alone QU_init "\<lambda>p q. QU_insert q p" QU_remove QU_FIRST
  by unfold_locales
    (assumption | rule queue_init queue_insert_tail(2) alone_insert' queue_remove queue_first)+



section \<open>The protected operations of \<^verbatim>\<open>sf_qu.c\<close>\<close>

definition SF_quInsert :: "ptr \<Rightarrow> ptr \<Rightarrow> qu_heap \<Rightarrow> int \<times> qu_heap" where
  "SF_quInsert head elem h =
     (if elem = NULL \<or> pNext h head = NULL then (- 2, h) else (0, QU_insert elem head h))"

definition SF_quRemove :: "ptr \<Rightarrow> qu_heap \<Rightarrow> int \<times> ptr \<times> qu_heap" where
  "SF_quRemove head h =
     (if QU_FIRST head h = head then (- 1, NULL, h)
      else if QU_FIRST head h = NULL then (- 2, NULL, h)
      else (0, QU_FIRST head h, QU_remove (QU_FIRST head h) h))"

definition SF_quMove :: "ptr \<Rightarrow> ptr \<Rightarrow> qu_heap \<Rightarrow> int \<times> qu_heap" where
  "SF_quMove head elem h =
     (if head = NULL \<or> elem = NULL then (- 1, h) else (0, QU_insert elem head (QU_remove elem h)))"

lemma SF_quInsert_queue:
  assumes "queue h q xs" "alone h p" "p \<notin> set (q # xs)" "NULL \<notin> set (q # p # xs)"
  shows "fst (SF_quInsert q p h) = 0" "queue (snd (SF_quInsert q p h)) q (xs @ [p])"
proof -
  have "pNext h q \<noteq> NULL"
    using queue_first [OF assms(1)] assms(4) by (cases xs) (auto simp: QU_FIRST_def)
  then show "fst (SF_quInsert q p h) = 0" "queue (snd (SF_quInsert q p h)) q (xs @ [p])"
    using assms queue_insert_tail(1) [OF assms(1-3)] by (auto simp: SF_quInsert_def)
qed

lemma SF_quRemove_empty: "queue h q [] \<Longrightarrow> SF_quRemove q h = (- 1, NULL, h)"
  using queue_first [of h q "[]"] by (simp add: SF_quRemove_def)

lemma SF_quRemove_queue:
  assumes "queue h q (x # xs)" "NULL \<notin> set (x # xs)"
  shows "SF_quRemove q h = (0, x, QU_remove x h)" "queue (QU_remove x h) q xs" "alone (QU_remove x h) x"
proof -
  have "x \<noteq> q"
    using assms(1) by (auto simp: queue_def ring_def)
  then show "SF_quRemove q h = (0, x, QU_remove x h)"
    using queue_first [OF assms(1)] assms(2) by (simp add: SF_quRemove_def)
  show "queue (QU_remove x h) q xs" "alone (QU_remove x h) x"
    using queue_remove [of h q "[]" x xs] assms(1) by simp_all
qed

lemma SF_quMove_queues:
  assumes q: "queue h q (xs @ p # ys)" and r: "queue h r zs"
    and disj: "set (q # xs @ p # ys) \<inter> set (r # zs) = {}" and "r \<noteq> NULL" "p \<noteq> NULL"
  shows "fst (SF_quMove r p h) = 0" "queue (snd (SF_quMove r p h)) r (zs @ [p])"
    "queue (snd (SF_quMove r p h)) q (xs @ ys)"
proof -
  have ring: "ring h (p # ys @ q # xs)"
    using ring_rotate [of h "q # xs" "p # ys"] q by (simp add: queue_def)
  let ?h = "QU_remove p h"
  have r': "queue ?h r zs"
    using QU_remove_frame [OF ring, of "r # zs"] r disj by (auto simp: queue_def)
  have q': "queue ?h q (xs @ ys)" "alone ?h p"
    using queue_remove [OF q] by simp_all
  have "p \<notin> set (q # xs @ ys)"
    using ring by (auto simp: ring_def)
  then have "ring (QU_insert p r ?h) (q # xs @ ys) = ring ?h (q # xs @ ys)"
    using QU_insert_frame [of ?h p "[]" r zs "q # xs @ ys"] r' q' disj by (auto simp: queue_def alone_def)
  moreover have "queue (QU_insert p r ?h) r (zs @ [p])"
    using queue_insert_tail(1) [OF r' q'(2)] disj by auto
  ultimately show "fst (SF_quMove r p h) = 0" "queue (snd (SF_quMove r p h)) r (zs @ [p])"
    "queue (snd (SF_quMove r p h)) q (xs @ ys)"
    using assms(4,5) q' by (simp_all add: SF_quMove_def queue_def)
qed

end
