(* ===== verification/Du.thy ===== *)
theory Du
  imports Prelude
begin

text \<open>
  Data units, \<^verbatim>\<open>net.ocp/du_/unhosted/du.c\<close>: a pool of reference counted buffers and the
  views that look into them. Buffers and views are kept on free lists threaded through
  \<^verbatim>\<open>un.next\<close> and \<^verbatim>\<open>next\<close>; they are modelled at that level, as heaps of records.
  \<open>du_wf\<close> is the invariant of the module: the lists of free buffers and free views, and, for
  every buffer in use, a reference count equal to the number of views in use that refer to it.
  The lemmas show what each operation does to that invariant on every branch, and what a second
  \<^verbatim>\<open>DU_free\<close> of the same view does.
\<close>

section \<open>State\<close>

text \<open>
  Addresses inside a buffer are offsets from its first octet (\<^verbatim>\<open>(Byte *) bufInfo +
  sizeof(*bufInfo)\<close>), and \<open>b_mem\<close> is the octets of the buffer by offset. The union
  \<^verbatim>\<open>un\<close> is one pointer: the next free buffer or the pool. The user fields \<^verbatim>\<open>uInfo\<close>
  are used by no code modelled here.
\<close>

record du_buf =
  b_un :: ptr
  b_end :: int
  b_refcnt :: int
  b_mem :: "int \<Rightarrow> u8"

record du_view =
  v_next :: ptr
  v_prev :: ptr
  v_bufInfo :: ptr
  v_addr :: int

record du_pool =
  p_bufFreeList :: ptr
  p_size :: int
  p_count :: int

record du_state =
  bufs :: "ptr \<Rightarrow> du_buf"
  views :: "ptr \<Rightarrow> du_view"
  pools :: "ptr \<Rightarrow> du_pool"
  viewFreeList :: ptr
  du_virgin :: bool

definition upd_buf :: "ptr \<Rightarrow> (du_buf \<Rightarrow> du_buf) \<Rightarrow> du_state \<Rightarrow> du_state" where
  "upd_buf b f s = s\<lparr>bufs := (bufs s)(b := f (bufs s b))\<rparr>"

definition upd_view :: "ptr \<Rightarrow> (du_view \<Rightarrow> du_view) \<Rightarrow> du_state \<Rightarrow> du_state" where
  "upd_view v f s = s\<lparr>views := (views s)(v := f (views s v))\<rparr>"

definition upd_pool :: "ptr \<Rightarrow> (du_pool \<Rightarrow> du_pool) \<Rightarrow> du_state \<Rightarrow> du_state" where
  "upd_pool p f s = s\<lparr>pools := (pools s)(p := f (pools s p))\<rparr>"

lemmas du_upd_defs = upd_buf_def upd_view_def upd_pool_def


section \<open>Operations\<close>

definition DU_alloc :: "ptr \<Rightarrow> int \<Rightarrow> du_state \<Rightarrow> ptr \<times> du_state" where
  "DU_alloc pool nuOfBytes s =
     (if nuOfBytes > p_size (pools s pool) then (NULL, s)
      else
        let bufInfo = p_bufFreeList (pools s pool) in
        if bufInfo \<noteq> NULL then
          let view = viewFreeList s in
          if view \<noteq> NULL then
            let s1 = s\<lparr>viewFreeList := v_next (views s view)\<rparr>;
                s2 = upd_view view (\<lambda>v. v\<lparr>v_next := view, v_prev := view\<rparr>) s1;
                s3 = upd_pool pool (\<lambda>p. p\<lparr>p_count := p_count p - 1\<rparr>) s2;
                s4 = upd_pool pool (\<lambda>p. p\<lparr>p_bufFreeList := b_un (bufs s3 bufInfo)\<rparr>) s3;
                s5 = upd_buf bufInfo (\<lambda>b. b\<lparr>b_refcnt := 1, b_un := pool,
                       b_end := p_size (pools s4 pool)\<rparr>) s4;
                s6 = upd_view view (\<lambda>v. v\<lparr>v_addr := b_end (bufs s5 bufInfo) - nuOfBytes,
                       v_bufInfo := bufInfo\<rparr>) s5
            in (view, s6)
          else (NULL, s)
        else (NULL, s))"

definition DU_free :: "ptr \<Rightarrow> du_state \<Rightarrow> du_state" where
  "DU_free view s =
     (if view = NULL then s
      else if v_bufInfo (views s view) = NULL then s
      else if b_un (bufs s (v_bufInfo (views s view))) = NULL then s
      else
        let bufInfo = v_bufInfo (views s view) in
        if b_refcnt (bufs s bufInfo) \<le> 0 then upd_buf bufInfo (\<lambda>b. b\<lparr>b_refcnt := 0\<rparr>) s
        else
          let pool = b_un (bufs s bufInfo);
              s1 = upd_buf bufInfo (\<lambda>b. b\<lparr>b_refcnt := to_short (b_refcnt b - 1)\<rparr>) s;
              s2 = (if b_refcnt (bufs s1 bufInfo) = 0 then
                      let t1 = upd_buf bufInfo (\<lambda>b. b\<lparr>b_un := p_bufFreeList (pools s1 pool)\<rparr>) s1;
                          t2 = upd_pool pool (\<lambda>p. p\<lparr>p_bufFreeList := bufInfo\<rparr>) t1
                      in upd_pool pool (\<lambda>p. p\<lparr>p_count := p_count p + 1\<rparr>) t2
                    else s1);
              s3 = upd_view view (\<lambda>v. v\<lparr>v_next := viewFreeList s2\<rparr>) s2
          in s3\<lparr>viewFreeList := view\<rparr>)"

definition DU_freeLast :: "ptr \<Rightarrow> du_state \<Rightarrow> int \<times> du_state" where
  "DU_freeLast view s =
     (let bufInfo = v_bufInfo (views s view) in
      if b_refcnt (bufs s bufInfo) > 1
      then (FAIL, DU_free view (upd_buf bufInfo (\<lambda>b. b\<lparr>b_refcnt := 1\<rparr>) s))
      else (SUCCESS, DU_free view s))"

definition DU_link :: "ptr \<Rightarrow> du_state \<Rightarrow> ptr \<times> du_state" where
  "DU_link view s =
     (if view = NULL then (NULL, s)
      else
        let newView = viewFreeList s in
        if newView \<noteq> NULL then
          let s1 = s\<lparr>viewFreeList := v_next (views s newView)\<rparr>;
              s2 = upd_view newView (\<lambda>v. v\<lparr>v_next := newView, v_prev := newView\<rparr>) s1;
              s3 = upd_view newView (\<lambda>v. v\<lparr>v_addr := v_addr (views s2 view),
                     v_bufInfo := v_bufInfo (views s2 view)\<rparr>) s2;
              s4 = upd_buf (v_bufInfo (views s3 newView))
                     (\<lambda>b. b\<lparr>b_refcnt := to_short (b_refcnt b + 1)\<rparr>) s3
          in (newView, s4)
        else (NULL, s))"

text \<open>
  \<^verbatim>\<open>DU_buildPool\<close>: \<open>mem i\<close> is what the i-th \<^verbatim>\<open>SF_memGet\<close> returns. The result
  is \<^term>\<open>None\<close> where the code calls \<^verbatim>\<open>EH_fatal\<close>, which aborts.
\<close>

primrec buildBufs :: "(nat \<Rightarrow> ptr) \<Rightarrow> ptr \<Rightarrow> nat \<Rightarrow> nat \<Rightarrow> du_state \<Rightarrow> du_state option" where
  "buildBufs mem pool i 0 s = Some s"
| "buildBufs mem pool i (Suc n) s =
     (let bufInfo = mem i in
      if bufInfo = NULL then None
      else
        let s1 = upd_buf bufInfo (\<lambda>b. b\<lparr>b_refcnt := 0\<rparr>) s;
            s2 = upd_buf bufInfo (\<lambda>b. b\<lparr>b_un := p_bufFreeList (pools s1 pool)\<rparr>) s1;
            s3 = upd_pool pool (\<lambda>p. p\<lparr>p_bufFreeList := bufInfo\<rparr>) s2;
            s4 = upd_pool pool (\<lambda>p. p\<lparr>p_count := p_count p + 1\<rparr>) s3
        in buildBufs mem pool (Suc i) n s4)"

primrec buildViews :: "(nat \<Rightarrow> ptr) \<Rightarrow> nat \<Rightarrow> nat \<Rightarrow> du_state \<Rightarrow> du_state option" where
  "buildViews mem i 0 s = Some s"
| "buildViews mem i (Suc n) s =
     (let view = mem i in
      if view = NULL then None
      else
        let s1 = upd_view view (\<lambda>v. v\<lparr>v_next := viewFreeList s\<rparr>) s
        in buildViews mem (Suc i) n (s1\<lparr>viewFreeList := view\<rparr>))"

definition DU_buildPool ::
  "(nat \<Rightarrow> ptr) \<Rightarrow> int \<Rightarrow> int \<Rightarrow> int \<Rightarrow> du_state \<Rightarrow> (ptr \<times> du_state) option" where
  "DU_buildPool mem bufSize nuOfBufs nuOfViews s =
     (if \<not> du_virgin s then Some (NULL, s)
      else
        let pool = mem 0 in
        if pool = NULL then None
        else
          let s1 = s\<lparr>du_virgin := False\<rparr>;
              s2 = upd_pool pool
                     (\<lambda>p. p\<lparr>p_count := 0, p_size := bufSize, p_bufFreeList := NULL\<rparr>) s1;
              s3 = s2\<lparr>viewFreeList := NULL\<rparr>
          in case buildBufs mem pool 1 (nat nuOfBufs) s3 of
               None \<Rightarrow> None
             | Some s4 \<Rightarrow>
                (case buildViews mem (1 + nat nuOfBufs) (nat nuOfViews) s4 of
                   None \<Rightarrow> None
                 | Some s5 \<Rightarrow> Some (pool, s5)))"

text \<open>The macros of \<^verbatim>\<open>du.h\<close>.\<close>

definition DU_prepend :: "ptr \<Rightarrow> int \<Rightarrow> du_state \<Rightarrow> du_state" where
  "DU_prepend v n s = upd_view v (\<lambda>w. w\<lparr>v_addr := v_addr w - n\<rparr>) s"

definition DU_strip :: "ptr \<Rightarrow> int \<Rightarrow> du_state \<Rightarrow> du_state" where
  "DU_strip v n s = upd_view v (\<lambda>w. w\<lparr>v_addr := v_addr w + n\<rparr>) s"

definition DU_adjust :: "ptr \<Rightarrow> int \<Rightarrow> du_state \<Rightarrow> du_state" where
  "DU_adjust v n s = upd_buf (v_bufInfo (views s v)) (\<lambda>b. b\<lparr>b_end := b_end b - n\<rparr>) s"

definition DU_data :: "ptr \<Rightarrow> du_state \<Rightarrow> int" where
  "DU_data v s = v_addr (views s v)"

definition DU_size :: "ptr \<Rightarrow> du_state \<Rightarrow> int" where
  "DU_size v s = (if v \<noteq> NULL then b_end (bufs s (v_bufInfo (views s v))) - v_addr (views s v) else 0)"

text \<open>Reading and writing the octet at an offset of the buffer a view looks into.\<close>

definition DU_get :: "ptr \<Rightarrow> int \<Rightarrow> du_state \<Rightarrow> u8" where
  "DU_get v a s = b_mem (bufs s (v_bufInfo (views s v))) a"

definition DU_put :: "ptr \<Rightarrow> int \<Rightarrow> u8 \<Rightarrow> du_state \<Rightarrow> du_state" where
  "DU_put v a x s = upd_buf (v_bufInfo (views s v)) (\<lambda>b. b\<lparr>b_mem := (b_mem b)(a := x)\<rparr>) s"

text \<open>The octets a view delivers.\<close>

definition DU_bytes :: "ptr \<Rightarrow> du_state \<Rightarrow> u8 list" where
  "DU_bytes v s = map (\<lambda>i. DU_get v (DU_data v s + int i) s) [0 ..< nat (DU_size v s)]"



section \<open>The invariant\<close>

text \<open>\<open>chain nx p xs\<close>: the nodes \<open>xs\<close> are the NULL terminated list that starts at \<open>p\<close>.\<close>

fun chain :: "(ptr \<Rightarrow> ptr) \<Rightarrow> ptr \<Rightarrow> ptr list \<Rightarrow> bool" where
  "chain nx p [] = (p = NULL)"
| "chain nx p (x # xs) = (p = x \<and> x \<noteq> NULL \<and> chain nx (nx x) xs)"

lemma chain_cong:
  "(\<And>x. x \<in> set xs \<Longrightarrow> nx x = nx' x) \<Longrightarrow> chain nx p xs = chain nx' p xs"
  by (induction xs arbitrary: p) auto

lemma chain_upd [simp]: "x \<notin> set xs \<Longrightarrow> chain (nx(x := y)) p xs = chain nx p xs"
  by (rule chain_cong) auto

lemma chain_upd_if [simp]:
  "x \<notin> set xs \<Longrightarrow> chain (\<lambda>y. b_un (if y = x then z else h y)) p xs = chain (\<lambda>y. b_un (h y)) p xs"
  "x \<notin> set xs \<Longrightarrow>
    chain (\<lambda>y. v_next (if y = x then w else g y)) p xs = chain (\<lambda>y. v_next (g y)) p xs"
  by (rule chain_cong; auto)+

lemma chain_NULL: "chain nx p xs \<Longrightarrow> (p = NULL \<longleftrightarrow> xs = [])"
  by (cases xs) auto

abbreviation nextBuf :: "du_state \<Rightarrow> ptr \<Rightarrow> ptr" where
  "nextBuf s \<equiv> \<lambda>b. b_un (bufs s b)"

abbreviation nextView :: "du_state \<Rightarrow> ptr \<Rightarrow> ptr" where
  "nextView s \<equiv> \<lambda>v. v_next (views s v)"

text \<open>
  \<open>refs V fv s b\<close>: the views in use that refer to the buffer \<open>b\<close>. \<open>du_wf p B V fb fv s\<close>:
  the pool \<open>p\<close> has the buffers \<open>B\<close> and the views \<open>V\<close>, of which \<open>fb\<close> and \<open>fv\<close> are the
  free ones, in the order of the free lists.
\<close>

definition refs :: "ptr set \<Rightarrow> ptr list \<Rightarrow> du_state \<Rightarrow> ptr \<Rightarrow> ptr set" where
  "refs V fv s b = {v \<in> V - set fv. v_bufInfo (views s v) = b}"

definition du_wf ::
  "ptr \<Rightarrow> ptr set \<Rightarrow> ptr set \<Rightarrow> ptr list \<Rightarrow> ptr list \<Rightarrow> du_state \<Rightarrow> bool" where
  "du_wf p B V fb fv s \<longleftrightarrow>
     p \<noteq> NULL \<and> NULL \<notin> B \<and> NULL \<notin> V \<and> finite V \<and> card V < 32768 \<and>
     chain (nextBuf s) (p_bufFreeList (pools s p)) fb \<and> distinct fb \<and> set fb \<subseteq> B \<and>
     chain (nextView s) (viewFreeList s) fv \<and> distinct fv \<and> set fv \<subseteq> V \<and>
     p_count (pools s p) = int (length fb) \<and>
     (\<forall>b\<in>set fb. b_refcnt (bufs s b) = 0) \<and>
     (\<forall>v\<in>V - set fv. v_bufInfo (views s v) \<in> B - set fb) \<and>
     (\<forall>b\<in>B - set fb. nextBuf s b = p \<and> refs V fv s b \<noteq> {} \<and>
        b_refcnt (bufs s b) = int (card (refs V fv s b)))"

lemma finite_refs [simp]: "finite V \<Longrightarrow> finite (refs V fv s b)"
  by (simp add: refs_def)

lemma card_refs: "finite V \<Longrightarrow> card (refs V fv s b) \<le> card V"
  by (rule card_mono) (auto simp: refs_def)

lemma du_wf_free_lists:
  "du_wf p B V fb fv s \<Longrightarrow>
    p_bufFreeList (pools s p) = (case fb of [] \<Rightarrow> NULL | b # _ \<Rightarrow> b) \<and>
    viewFreeList s = (case fv of [] \<Rightarrow> NULL | v # _ \<Rightarrow> v)"
  by (auto simp: du_wf_def split: list.splits)

text \<open>\<^verbatim>\<open>DU_alloc\<close>: every branch.\<close>

lemma DU_alloc_too_big: "p_size (pools s p) < n \<Longrightarrow> DU_alloc p n s = (NULL, s)"
  by (simp add: DU_alloc_def)

lemma DU_alloc_exhausted:
  "du_wf p B V fb fv s \<Longrightarrow> fb = [] \<or> fv = [] \<Longrightarrow> DU_alloc p n s = (NULL, s)"
  using du_wf_free_lists by (auto simp: DU_alloc_def Let_def)

lemma DU_alloc_state:
  assumes "du_wf p B V (b # fb) (v # fv) s" and "n \<le> p_size (pools s p)"
  shows "DU_alloc p n s = (v, s
    \<lparr>viewFreeList := nextView s v,
     pools := (pools s)(p := (pools s p)\<lparr>p_count := int (length fb),
       p_bufFreeList := nextBuf s b\<rparr>),
     bufs := (bufs s)(b := (bufs s b)\<lparr>b_refcnt := 1, b_un := p, b_end := p_size (pools s p)\<rparr>),
     views := (views s)(v := (views s v)\<lparr>v_next := v, v_prev := v,
       v_addr := p_size (pools s p) - n, v_bufInfo := b\<rparr>)\<rparr>)"
  using assms by (simp add: DU_alloc_def Let_def du_upd_defs du_wf_def)

lemma refs_alloc:
  assumes "du_wf p B V (b # fb) (v # fv) s"
  shows "refs V fv (snd (DU_alloc p n s)) c =
    (if n \<le> p_size (pools s p) then (if c = b then {v} else refs V (v # fv) s c)
     else refs V fv s c)"
proof (cases "n \<le> p_size (pools s p)")
  case True
  have "v \<in> V" "v \<notin> set fv" "\<forall>w\<in>V - set (v # fv). v_bufInfo (views s w) \<noteq> b"
    using assms by (auto simp: du_wf_def)
  then show ?thesis
    using True by (auto simp: DU_alloc_state [OF assms] refs_def)
qed (simp add: DU_alloc_too_big)

lemma DU_alloc_wf:
  assumes wf: "du_wf p B V (b # fb) (v # fv) s" and n: "n \<le> p_size (pools s p)"
  shows "du_wf p B V fb fv (snd (DU_alloc p n s))"
proof -
  let ?s = "snd (DU_alloc p n s)"
  have refs: "refs V fv ?s c = (if c = b then {v} else refs V (v # fv) s c)" for c
    using refs_alloc [OF wf] n by simp
  have "b_refcnt (bufs ?s c) = int (card (refs V fv ?s c))" "refs V fv ?s c \<noteq> {}"
    "nextBuf ?s c = p" if "c \<in> B - set fb" for c
    using that wf unfolding refs by (auto simp: du_wf_def DU_alloc_state [OF wf n])
  moreover have "v_bufInfo (views ?s w) \<in> B - set fb" if "w \<in> V - set fv" for w
    using that wf by (auto simp: du_wf_def DU_alloc_state [OF wf n])
  moreover have "b \<notin> set fb" "v \<notin> set fv"
    "chain (nextBuf s) (nextBuf s b) fb" "chain (nextView s) (nextView s v) fv"
    using wf by (auto simp: du_wf_def)
  moreover from this have "chain (nextBuf ?s) (p_bufFreeList (pools ?s p)) fb"
    "chain (nextView ?s) (viewFreeList ?s) fv"
    by (simp_all add: DU_alloc_state [OF wf n])
  moreover have "p_count (pools ?s p) = int (length fb)" "\<forall>c\<in>set fb. b_refcnt (bufs ?s c) = 0"
    using wf by (auto simp: DU_alloc_state [OF wf n] du_wf_def)
  ultimately show ?thesis
    using wf unfolding du_wf_def by auto
qed

text \<open>
  \<^verbatim>\<open>DU_free\<close> of a view in use: the view goes back to its free list, and the buffer does
  when this was its last view.
\<close>

lemma du_wf_in_use:
  assumes "du_wf p B V fb fv s" and "v \<in> V - set fv" and "b = v_bufInfo (views s v)"
  shows "v \<noteq> NULL" "b \<in> B - set fb" "b \<noteq> NULL" "nextBuf s b = p" "p \<noteq> NULL"
    "b_refcnt (bufs s b) = int (card (refs V fv s b))" "v \<in> refs V fv s b"
    "0 < b_refcnt (bufs s b)" "b_refcnt (bufs s b) < 32768"
proof -
  show b: "b \<in> B - set fb"
    using assms by (auto simp: du_wf_def)
  then show "b \<noteq> NULL" "v \<noteq> NULL" "nextBuf s b = p" "p \<noteq> NULL"
    and eq: "b_refcnt (bufs s b) = int (card (refs V fv s b))"
    using assms(1,2) by (auto simp: du_wf_def)
  show v: "v \<in> refs V fv s b"
    using assms(2,3) by (simp add: refs_def)
  have "finite V" "card V < 32768"
    using assms(1) by (simp_all add: du_wf_def)
  then show "0 < b_refcnt (bufs s b)" "b_refcnt (bufs s b) < 32768"
    unfolding eq using v card_refs [of V fv s b] finite_refs [of V fv s b]
    by (auto simp: card_gt_0_iff)
qed

definition freed :: "du_state \<Rightarrow> ptr \<Rightarrow> bool" where
  "freed s v \<longleftrightarrow> b_refcnt (bufs s (v_bufInfo (views s v))) = 1"

lemma DU_free_state:
  assumes "du_wf p B V fb fv s" and "v \<in> V - set fv" and "b = v_bufInfo (views s v)"
  shows "DU_free v s =
    (if freed s v
     then s\<lparr>bufs := (bufs s)(b := (bufs s b)\<lparr>b_refcnt := 0, b_un := p_bufFreeList (pools s p)\<rparr>),
            pools := (pools s)(p := (pools s p)\<lparr>p_bufFreeList := b, p_count := p_count (pools s p) + 1\<rparr>),
            views := (views s)(v := (views s v)\<lparr>v_next := viewFreeList s\<rparr>), viewFreeList := v\<rparr>
     else s\<lparr>bufs := (bufs s)(b := (bufs s b)\<lparr>b_refcnt := b_refcnt (bufs s b) - 1\<rparr>),
            views := (views s)(v := (views s v)\<lparr>v_next := viewFreeList s\<rparr>), viewFreeList := v\<rparr>)"
proof -
  note u = du_wf_in_use [OF assms]
  have "to_short (b_refcnt (bufs s b) - 1) = b_refcnt (bufs s b) - 1"
    using u(8,9) by (intro to_short_small) auto
  then show ?thesis
    using u assms(3) by (auto simp: DU_free_def Let_def du_upd_defs freed_def)
qed

lemma DU_free_wf:
  assumes wf: "du_wf p B V fb fv s" and v: "v \<in> V - set fv"
  shows "du_wf p B V (if freed s v then v_bufInfo (views s v) # fb else fb) (v # fv) (DU_free v s)"
proof -
  define b where "b = v_bufInfo (views s v)"
  let ?s = "DU_free v s"
  note u = du_wf_in_use [OF wf v b_def] and st = DU_free_state [OF wf v b_def]
  have fin: "finite V" using wf by (simp add: du_wf_def)
  have refs: "refs V (v # fv) ?s c = (if c = b then refs V fv s b - {v} else refs V fv s c)" for c
    using b_def by (auto simp: st refs_def)
  have one: "freed s v \<longleftrightarrow> refs V fv s b = {v}"
    using u(6,7) by (auto simp: freed_def b_def [symmetric] card_1_singleton_iff)
  have card: "card (refs V fv s b - {v}) = card (refs V fv s b) - 1"
    using u(7) fin by simp
  let ?fb = "if freed s v then b # fb else fb"
  have use: "\<forall>c\<in>B - set ?fb. nextBuf ?s c = p \<and> refs V (v # fv) ?s c \<noteq> {} \<and>
      b_refcnt (bufs ?s c) = int (card (refs V (v # fv) ?s c))"
    using wf u one card unfolding refs by (auto simp: st du_wf_def of_nat_diff)
  have "\<forall>w\<in>V - set (v # fv). v_bufInfo (views ?s w) \<in> B - set ?fb"
    using wf one by (auto simp: st du_wf_def refs_def b_def [symmetric])
  moreover have "chain (nextBuf s) (p_bufFreeList (pools s p)) fb"
    "chain (nextView s) (viewFreeList s) fv" "b \<notin> set fb" "v \<notin> set fv"
    using wf u(2) v by (simp_all add: du_wf_def)
  then have "chain (nextBuf ?s) (p_bufFreeList (pools ?s p)) ?fb"
    "chain (nextView ?s) (viewFreeList ?s) (v # fv)"
    using u(1,3) by (simp_all add: st)
  moreover have "p_count (pools ?s p) = int (length ?fb)" "\<forall>c\<in>set ?fb. b_refcnt (bufs ?s c) = 0"
    "distinct ?fb" "set ?fb \<subseteq> B"
    using wf u(2) by (auto simp: st du_wf_def)
  ultimately show ?thesis
    using wf v use unfolding b_def [symmetric] du_wf_def by auto
qed

text \<open>\<^verbatim>\<open>DU_link\<close>: a second view of the same octets.\<close>

lemma DU_link_exhausted: "du_wf p B V fb [] s \<Longrightarrow> DU_link w s = (NULL, s)"
  using du_wf_free_lists [of p B V fb "[]" s] by (simp add: DU_link_def Let_def)

lemma DU_link_state:
  assumes wf: "du_wf p B V fb (v # fv) s" and w: "w \<in> V - set (v # fv)"
    and b: "b = v_bufInfo (views s w)"
  shows "DU_link w s = (v, s
    \<lparr>viewFreeList := nextView s v,
     views := (views s)(v := (views s v)\<lparr>v_next := v, v_prev := v,
       v_addr := v_addr (views s w), v_bufInfo := b\<rparr>),
     bufs := (bufs s)(b := (bufs s b)\<lparr>b_refcnt := b_refcnt (bufs s b) + 1\<rparr>)\<rparr>)"
proof -
  note u = du_wf_in_use [OF wf w b]
  have f: "finite V" "v \<in> V" "card V < 32768"
    using wf by (auto simp: du_wf_def)
  have "refs V (v # fv) s b \<subseteq> V - {v}"
    by (auto simp: refs_def)
  then have "card (refs V (v # fv) s b) \<le> card V - 1"
    using f card_mono [of "V - {v}" "refs V (v # fv) s b"] by simp
  then have "b_refcnt (bufs s b) + 1 < 32768"
    using u(6) f by (auto simp: card_gt_0_iff)
  then have "to_short (b_refcnt (bufs s b) + 1) = b_refcnt (bufs s b) + 1"
    using u(8) by (intro to_short_small) auto
  moreover have "v \<noteq> NULL" "v \<noteq> w" "viewFreeList s = v"
    using wf w by (auto simp: du_wf_def)
  ultimately show ?thesis
    using u(1) b by (simp add: DU_link_def Let_def du_upd_defs)
qed

lemma DU_link_wf:
  assumes wf: "du_wf p B V fb (v # fv) s" and w: "w \<in> V - set (v # fv)"
  shows "du_wf p B V fb fv (snd (DU_link w s))"
proof -
  define b where "b = v_bufInfo (views s w)"
  let ?s = "snd (DU_link w s)"
  note u = du_wf_in_use [OF wf w b_def] and st = DU_link_state [OF wf w b_def]
  have v: "v \<in> V" "v \<notin> set fv" "finite V"
    using wf by (auto simp: du_wf_def)
  have refs: "refs V fv ?s c = (if c = b then insert v (refs V (v # fv) s b) else refs V (v # fv) s c)" for c
    using v w by (auto simp: st refs_def b_def)
  have "v \<notin> refs V (v # fv) s b"
    by (simp add: refs_def)
  then have "card (insert v (refs V (v # fv) s b)) = card (refs V (v # fv) s b) + 1"
    using v(3) by simp
  then have use: "\<forall>c\<in>B - set fb. nextBuf ?s c = p \<and> refs V fv ?s c \<noteq> {} \<and>
      b_refcnt (bufs ?s c) = int (card (refs V fv ?s c))"
    using wf u unfolding refs by (auto simp: st du_wf_def)
  have "\<forall>w\<in>V - set fv. v_bufInfo (views ?s w) \<in> B - set fb"
    using wf u(2) by (auto simp: st du_wf_def)
  moreover have "chain (nextBuf s) (p_bufFreeList (pools s p)) fb" "b \<notin> set fb"
    "chain (nextView s) (nextView s v) fv"
    using wf u(2) by (simp_all add: du_wf_def)
  then have "chain (nextBuf ?s) (p_bufFreeList (pools ?s p)) fb"
    "chain (nextView ?s) (viewFreeList ?s) fv"
    using v(2) by (simp_all add: st)
  moreover have "p_count (pools ?s p) = int (length fb)" "\<forall>c\<in>set fb. b_refcnt (bufs ?s c) = 0"
    using wf u(2) by (auto simp: st du_wf_def)
  ultimately show ?thesis
    using wf use unfolding du_wf_def by auto
qed

text \<open>
  A second \<^verbatim>\<open>DU_free\<close> of the same view. When the first one released the buffer it has
  no effect, because the reference count is 0; when another view still holds the buffer, the view
  enters its free list twice and the list becomes a cycle, so that two later allocations deliver
  the same view.
\<close>

lemma DU_free_idle:
  assumes "b_refcnt (bufs s (v_bufInfo (views s v))) = 0"
  shows "DU_free v s = s"
proof -
  have "r\<lparr>b_refcnt := 0\<rparr> = r" if "b_refcnt r = 0" for r :: du_buf
    using that by (cases r) simp
  then show ?thesis
    using assms by (simp add: DU_free_def Let_def upd_buf_def fun_upd_idem)
qed

lemma DU_free_free:
  assumes wf: "du_wf p B V fb fv s" and v: "v \<in> V - set fv" and "freed s v"
  shows "DU_free v (DU_free v s) = DU_free v s"
  by (rule DU_free_idle) (use assms(3) in \<open>simp add: DU_free_state [OF wf v refl]\<close>)

lemma DU_free_free_shared:
  assumes wf: "du_wf p B V fb fv s" and v: "v \<in> V - set fv" and "\<not> freed s v"
  shows "viewFreeList (DU_free v (DU_free v s)) = v" "nextView (DU_free v (DU_free v s)) v = v"
proof -
  note u = du_wf_in_use [OF wf v refl]
  have "b_refcnt (bufs s (v_bufInfo (views s v))) \<noteq> 1"
    using assms(3) by (simp add: freed_def)
  moreover have "viewFreeList (DU_free v s) = v"
    by (simp add: DU_free_state [OF wf v refl])
  ultimately show "viewFreeList (DU_free v (DU_free v s)) = v"
      "nextView (DU_free v (DU_free v s)) v = v"
    using u assms(3)
    by (simp_all add: DU_free_state [OF wf v refl] DU_free_def [of v "_\<lparr>viewFreeList := v\<rparr>"]
        Let_def du_upd_defs del: of_nat_0_less_iff)
qed

text \<open>
  \<^verbatim>\<open>DU_freeLast\<close>: for a view that is the only one of its buffer it is \<^verbatim>\<open>DU_free\<close>.
\<close>

lemma DU_freeLast_last:
  assumes "du_wf p B V fb fv s" "v \<in> V - set fv" "freed s v"
  shows "DU_freeLast v s = (SUCCESS, DU_free v s)"
  using assms(3) by (simp add: DU_freeLast_def freed_def Let_def)

lemma DU_freeLast_shared:
  "b_refcnt (bufs s (v_bufInfo (views s v))) > 1 \<Longrightarrow> fst (DU_freeLast v s) = FAIL"
  by (simp add: DU_freeLast_def Let_def)

text \<open>\<^verbatim>\<open>DU_buildPool\<close>: the two loops, then the pool it leaves.\<close>

lemma buildBufs_ok:
  assumes "NULL \<notin> mem ` {i ..< i + n}" "inj_on mem {i ..< i + n}"
    "set fb \<inter> mem ` {i ..< i + n} = {}"
    "chain (nextBuf s) (p_bufFreeList (pools s p)) fb" "p_count (pools s p) = int (length fb)"
    "\<forall>b\<in>set fb. b_refcnt (bufs s b) = 0"
  shows "\<exists>s'. buildBufs mem p i n s = Some s' \<and> views s' = views s \<and>
    viewFreeList s' = viewFreeList s \<and> p_size (pools s' p) = p_size (pools s p) \<and>
    chain (nextBuf s') (p_bufFreeList (pools s' p)) (rev (map mem [i ..< i + n]) @ fb) \<and>
    p_count (pools s' p) = int (length fb + n) \<and>
    (\<forall>b\<in>set fb \<union> mem ` {i ..< i + n}. b_refcnt (bufs s' b) = 0)"
  using assms
proof (induction n arbitrary: i s fb)
  case (Suc n)
  have split: "{i ..< i + Suc n} = insert i {Suc i ..< Suc i + n}"
    by auto
  have i: "mem i \<noteq> NULL" "mem i \<notin> set fb" "mem i \<notin> mem ` {Suc i ..< Suc i + n}"
    using Suc.prems(1-3) unfolding split by (auto simp: inj_on_def)
  define s1 where "s1 = upd_pool p (\<lambda>q. q\<lparr>p_bufFreeList := mem i, p_count := p_count q + 1\<rparr>)
    (upd_buf (mem i) (\<lambda>b. b\<lparr>b_refcnt := 0, b_un := p_bufFreeList (pools s p)\<rparr>) s)"
  have step: "buildBufs mem p i (Suc n) s = buildBufs mem p (Suc i) n s1"
    using i(1) by (simp add: s1_def Let_def du_upd_defs)
  have "NULL \<notin> mem ` {Suc i ..< Suc i + n}" "inj_on mem {Suc i ..< Suc i + n}"
    "set (mem i # fb) \<inter> mem ` {Suc i ..< Suc i + n} = {}"
    using Suc.prems(1-3) i unfolding split by auto
  moreover have "chain (nextBuf s1) (p_bufFreeList (pools s1 p)) (mem i # fb)"
    "p_count (pools s1 p) = int (length (mem i # fb))" "\<forall>b\<in>set (mem i # fb). b_refcnt (bufs s1 b) = 0"
    using i Suc.prems(4-) by (auto simp: s1_def du_upd_defs)
  ultimately
  have "\<exists>s'. buildBufs mem p (Suc i) n s1 = Some s' \<and> views s' = views s1 \<and>
    viewFreeList s' = viewFreeList s1 \<and> p_size (pools s' p) = p_size (pools s1 p) \<and>
    chain (nextBuf s') (p_bufFreeList (pools s' p)) (rev (map mem [Suc i ..< Suc i + n]) @ mem i # fb) \<and>
    p_count (pools s' p) = int (length (mem i # fb) + n) \<and>
    (\<forall>b\<in>set (mem i # fb) \<union> mem ` {Suc i ..< Suc i + n}. b_refcnt (bufs s' b) = 0)"
    by (rule Suc.IH)
  then obtain s' where s': "buildBufs mem p (Suc i) n s1 = Some s'" "views s' = views s1"
    "viewFreeList s' = viewFreeList s1" "p_size (pools s' p) = p_size (pools s1 p)"
    "chain (nextBuf s') (p_bufFreeList (pools s' p)) (rev (map mem [Suc i ..< Suc i + n]) @ mem i # fb)"
    "p_count (pools s' p) = int (length (mem i # fb) + n)"
    "\<forall>b\<in>set (mem i # fb) \<union> mem ` {Suc i ..< Suc i + n}. b_refcnt (bufs s' b) = 0"
    by blast
  have s1: "views s1 = views s" "viewFreeList s1 = viewFreeList s" "p_size (pools s1 p) = p_size (pools s p)"
    by (simp_all add: s1_def du_upd_defs)
  have "rev (map mem [i ..< i + Suc n]) @ fb = rev (map mem [Suc i ..< Suc i + n]) @ mem i # fb"
    by (simp add: upt_rec [of i] del: upt_Suc)
  then show ?case
    unfolding step split using s' unfolding s1 by (intro exI [of _ s'] conjI) auto
qed simp

lemma buildViews_ok:
  assumes "NULL \<notin> mem ` {i ..< i + n}" "inj_on mem {i ..< i + n}"
    "set fv \<inter> mem ` {i ..< i + n} = {}" "chain (nextView s) (viewFreeList s) fv"
  shows "\<exists>s'. buildViews mem i n s = Some s' \<and> bufs s' = bufs s \<and> pools s' = pools s \<and>
    chain (nextView s') (viewFreeList s') (rev (map mem [i ..< i + n]) @ fv)"
  using assms
proof (induction n arbitrary: i s fv)
  case (Suc n)
  have split: "{i ..< i + Suc n} = insert i {Suc i ..< Suc i + n}"
    by auto
  have i: "mem i \<noteq> NULL" "mem i \<notin> set fv" "mem i \<notin> mem ` {Suc i ..< Suc i + n}"
    using Suc.prems(1-3) unfolding split by (auto simp: inj_on_def)
  define s1 where "s1 = (upd_view (mem i) (\<lambda>v. v\<lparr>v_next := viewFreeList s\<rparr>) s)\<lparr>viewFreeList := mem i\<rparr>"
  have "NULL \<notin> mem ` {Suc i ..< Suc i + n}" "inj_on mem {Suc i ..< Suc i + n}"
    "set (mem i # fv) \<inter> mem ` {Suc i ..< Suc i + n} = {}"
    using Suc.prems(1-3) i unfolding split by auto
  moreover have "chain (nextView s1) (viewFreeList s1) (mem i # fv)"
    using i Suc.prems(4-) by (auto simp: s1_def du_upd_defs)
  ultimately
  have "\<exists>s'. buildViews mem (Suc i) n s1 = Some s' \<and> bufs s' = bufs s1 \<and> pools s' = pools s1 \<and>
    chain (nextView s') (viewFreeList s') (rev (map mem [Suc i ..< Suc i + n]) @ mem i # fv)"
    by (rule Suc.IH)
  then obtain s' where s': "buildViews mem (Suc i) n s1 = Some s'" "bufs s' = bufs s1"
    "pools s' = pools s1"
    "chain (nextView s') (viewFreeList s') (rev (map mem [Suc i ..< Suc i + n]) @ mem i # fv)"
    by blast
  have s1: "bufs s1 = bufs s" "pools s1 = pools s"
    by (simp_all add: s1_def du_upd_defs)
  have step: "buildViews mem i (Suc n) s = buildViews mem (Suc i) n s1"
    using i(1) by (simp add: s1_def Let_def)
  have "rev (map mem [i ..< i + Suc n]) @ fv = rev (map mem [Suc i ..< Suc i + n]) @ mem i # fv"
    by (simp add: upt_rec [of i] del: upt_Suc)
  then show ?case
    unfolding step using s' unfolding s1 by (intro exI [of _ s'] conjI) auto
qed simp

lemma DU_buildPool_wf:
  assumes "du_virgin s" and n: "0 \<le> nb" "0 \<le> nv" "nv < 32768"
    and mem: "NULL \<notin> mem ` {0 ..< 1 + nat nb + nat nv}" "inj_on mem {0 ..< 1 + nat nb + nat nv}"
  shows "\<exists>s' fb fv. DU_buildPool mem sz nb nv s = Some (mem 0, s') \<and>
    du_wf (mem 0) (set fb) (set fv) fb fv s' \<and> p_size (pools s' (mem 0)) = sz \<and>
    length fb = nat nb \<and> length fv = nat nv \<and>
    fb = rev (map mem [1 ..< 1 + nat nb]) \<and> fv = rev (map mem [1 + nat nb ..< 1 + nat nb + nat nv])"
proof -
  let ?fb = "rev (map mem [1 ..< 1 + nat nb])"
  let ?fv = "rev (map mem [1 + nat nb ..< 1 + nat nb + nat nv])"
  define s1 where "s1 = (upd_pool (mem 0) (\<lambda>p. p\<lparr>p_count := 0, p_size := sz, p_bufFreeList := NULL\<rparr>)
    (s\<lparr>du_virgin := False\<rparr>))\<lparr>viewFreeList := NULL\<rparr>"
  have inj: "inj_on mem {1 ..< 1 + nat nb}" "inj_on mem {1 + nat nb ..< 1 + nat nb + nat nv}"
    using mem(2) by (rule inj_on_subset; force)+
  have "\<exists>s'. buildBufs mem (mem 0) 1 (nat nb) s1 = Some s' \<and> views s' = views s1 \<and>
    viewFreeList s' = viewFreeList s1 \<and> p_size (pools s' (mem 0)) = p_size (pools s1 (mem 0)) \<and>
    chain (nextBuf s') (p_bufFreeList (pools s' (mem 0))) (?fb @ []) \<and>
    p_count (pools s' (mem 0)) = int (length ([] :: ptr list) + nat nb) \<and>
    (\<forall>b\<in>set [] \<union> mem ` {1 ..< 1 + nat nb}. b_refcnt (bufs s' b) = 0)"
    by (rule buildBufs_ok) (use mem(1) inj in \<open>auto simp: s1_def du_upd_defs\<close>)
  then obtain s2 where s2: "buildBufs mem (mem 0) 1 (nat nb) s1 = Some s2" "viewFreeList s2 = NULL"
    "p_size (pools s2 (mem 0)) = sz" "chain (nextBuf s2) (p_bufFreeList (pools s2 (mem 0))) ?fb"
    "p_count (pools s2 (mem 0)) = int (nat nb)" "\<forall>b\<in>mem ` {1 ..< 1 + nat nb}. b_refcnt (bufs s2 b) = 0"
    by (auto simp: s1_def du_upd_defs)
  have "\<exists>s'. buildViews mem (1 + nat nb) (nat nv) s2 = Some s' \<and> bufs s' = bufs s2 \<and>
    pools s' = pools s2 \<and> chain (nextView s') (viewFreeList s') (?fv @ [])"
    by (rule buildViews_ok) (use mem(1) inj s2(2) in auto)
  then obtain s3 where s3: "buildViews mem (1 + nat nb) (nat nv) s2 = Some s3" "bufs s3 = bufs s2"
    "pools s3 = pools s2" "chain (nextView s3) (viewFreeList s3) ?fv"
    by auto
  have b: "DU_buildPool mem sz nb nv s = Some (mem 0, s3)"
    using assms(1) mem(1) s2(1) s3(1) by (auto simp: DU_buildPool_def Let_def s1_def)
  have "length ?fv = nat nv"
    by (simp del: upt_Suc)
  then have "card (set ?fv) < 32768"
    using card_length [of ?fv] n by linarith
  moreover have "distinct ?fb" "distinct ?fv"
    using inj by (simp_all add: distinct_map del: upt_Suc)
  moreover have "set ?fb = mem ` {1 ..< 1 + nat nb}" "set ?fv = mem ` {1 + nat nb ..< 1 + nat nb + nat nv}"
    by (simp_all del: upt_Suc)
  then have "mem 0 \<noteq> NULL" "NULL \<notin> set ?fb" "NULL \<notin> set ?fv" "\<forall>b\<in>set ?fb. b_refcnt (bufs s2 b) = 0"
    using mem(1) s2(6) by auto
  moreover have "length ?fb = nat nb"
    by (simp del: upt_Suc)
  ultimately have "du_wf (mem 0) (set ?fb) (set ?fv) ?fb ?fv s3"
    unfolding du_wf_def using s2(4,5) s3 by (simp del: upt_Suc set_rev set_map set_upt)
  with b s2(3) s3(3) show ?thesis
    by (intro exI [of _ s3] exI [of _ ?fb] exI [of _ ?fv] conjI) (simp_all del: upt_Suc)
qed
end
