(* ===== verification/Fsm.thy ===== *)
theory Fsm
  imports Prelude
begin

text \<open>
  The finite state machine interpreter, \<^verbatim>\<open>base.ocp/fsm_/portable/fsm.c\<close> and
  \<^verbatim>\<open>trnsdgrm.c\<close>. It is generic in the type \<open>'q\<close> of state names (the addresses of the
  \<^verbatim>\<open>FSM_State\<close> structures), in the state \<open>'s\<close> the actions work on, and in how a machine is
  stored there (the first fields of the user's structure). The locale \<open>fsm_engine\<close> is the
  contract of a user of the interpreter: every table ends in a row for any event.
\<close>

section \<open>Tables\<close>

abbreviation (input) FSM_EvtDefault :: int where "FSM_EvtDefault \<equiv> 0"
abbreviation (input) FSM_EvtInternal :: int where "FSM_EvtInternal \<equiv> 1"

type_synonym 's fsm_func = "ptr \<Rightarrow> int \<Rightarrow> ('s, int) state"
type_synonym 's fsm_pred = "ptr \<Rightarrow> int \<Rightarrow> ('s, bool) state"

record ('q, 's) fsm_trans =
  t_evtId :: int
  t_predicate :: "'s fsm_pred option"
  t_action :: "'s fsm_func option"
  t_nextState :: "'q option"
  t_name :: string

record ('q, 's) fsm_state =
  s_entry :: "'s fsm_func option"
  s_exit :: "'s fsm_func option"
  s_trans :: "('q, 's) fsm_trans list"
  s_name :: string

record 'q fsm_transDiagram =
  d_state :: "'q"
  d_name :: string

definition fsm_evtsMatch :: "int \<Rightarrow> int \<Rightarrow> bool" where
  "fsm_evtsMatch stateEvt evt \<longleftrightarrow> stateEvt = FSM_EvtDefault \<or> stateEvt = evt"

text \<open>
  The search loop of \<^verbatim>\<open>FSM_runMachine\<close>. A predicate may change the state, also when it does
  not hold and the loop goes on. A row whose \<^verbatim>\<open>nextStatePtr\<close> is NULL ends the table. The loop
  would run past a table that has no such row and no matching row; that is \<^term>\<open>None\<close> here too,
  and does not happen for tables that end in a row for any event.
\<close>

primrec fsm_scan ::
  "('q, 's) fsm_trans list \<Rightarrow> ptr \<Rightarrow> int \<Rightarrow> ('s, ('q, 's) fsm_trans option) state" where
  "fsm_scan [] m e = return None"
| "fsm_scan (t # ts) m e =
     (if t_nextState t = None then return None
      else if fsm_evtsMatch (t_evtId t) e then
        (case t_predicate t of
           None \<Rightarrow> return (Some t)
         | Some p \<Rightarrow> do { b \<leftarrow> p m e; if b then return (Some t) else fsm_scan ts m e })
      else fsm_scan ts m e)"

text \<open>A call through a function pointer that may be NULL; its return value is not used.\<close>

definition fsm_call :: "'s fsm_func option \<Rightarrow> ptr \<Rightarrow> int \<Rightarrow> ('s, unit) state" where
  "fsm_call f m e = (case f of None \<Rightarrow> skip | Some g \<Rightarrow> do { _ \<leftarrow> g m e; skip })"

definition FSM_runMachine ::
  "('q \<Rightarrow> ('q, 's) fsm_state) \<Rightarrow> (ptr \<Rightarrow> 's \<Rightarrow> 'q option) \<Rightarrow>
   (ptr \<Rightarrow> 'q option \<Rightarrow> ('s, unit) state) \<Rightarrow> ptr \<Rightarrow> int \<Rightarrow> ('s, int) state" where
  "FSM_runMachine tbl getCur setCur machine evtId =
     (if machine = NULL then return FAIL
      else do {
        cur \<leftarrow> gets (getCur machine);
        case cur of
          None \<Rightarrow> return FAIL
        | Some q \<Rightarrow> do {
            found \<leftarrow> fsm_scan (s_trans (tbl q)) machine evtId;
            case found of
              None \<Rightarrow> return FAIL
            | Some t \<Rightarrow> do {
                fsm_call (s_exit (tbl q)) machine evtId;
                fsm_call (t_action t) machine evtId;
                setCur machine (t_nextState t);
                fsm_call (s_entry (tbl (the (t_nextState t)))) machine evtId;
                return SUCCESS
              }
          }
      })"

text \<open>\<^verbatim>\<open>trnsdgrm.c\<close>: loading a diagram into a machine and resetting the machine.\<close>

definition FSM_TRANSDIAG_load ::
  "(ptr \<Rightarrow> 'd option \<Rightarrow> ('s, unit) state) \<Rightarrow> ptr \<Rightarrow> 'd option \<Rightarrow> ('s, int) state" where
  "FSM_TRANSDIAG_load setDiag machine transDiag =
     (if machine = NULL \<or> transDiag = None then return FAIL
      else do { setDiag machine transDiag; return SUCCESS })"

definition FSM_TRANSDIAG_resetMachine ::
  "(ptr \<Rightarrow> 's \<Rightarrow> 'd option) \<Rightarrow> ('d \<Rightarrow> 'q fsm_transDiagram) \<Rightarrow>
   (ptr \<Rightarrow> 'q option \<Rightarrow> ('s, unit) state) \<Rightarrow> ptr \<Rightarrow> ('s, int) state" where
  "FSM_TRANSDIAG_resetMachine getDiag diag setCur machine =
     (if machine = NULL then return FAIL
      else do {
        d \<leftarrow> gets (getDiag machine);
        setCur machine (Some (d_state (diag (the d))));
        return SUCCESS
      })"


section \<open>The interpreter\<close>

lemma fsm_scan_first:
  "\<forall>t\<in>set ts. t_nextState t \<noteq> None \<and> t_predicate t = None \<Longrightarrow>
    result (fsm_scan ts m e) s = find (\<lambda>t. fsm_evtsMatch (t_evtId t) e) ts \<and>
    exec (fsm_scan ts m e) s = s"
  by (induction ts) (auto simp: run_simps)

lemma fsm_scan_default:
  assumes "\<forall>t\<in>set ts. t_nextState t \<noteq> None" "ts \<noteq> []"
    "t_evtId (last ts) = FSM_EvtDefault" "t_predicate (last ts) = None"
  shows "\<exists>t\<in>set ts. result (fsm_scan ts m e) s = Some t"
  using assms
  by (induction ts arbitrary: s) (auto simp: run_simps fsm_evtsMatch_def split: option.splits if_splits)

lemma fsm_call_None [simp]: "fsm_call None m e = skip"
  by (simp add: fsm_call_def)

lemma exec_fsm_call: "exec (fsm_call (Some g) m e) s = exec (g m e) s"
  by (simp add: fsm_call_def run_simps)

lemma keeps_fsm_call [keeps_intros]:
  "(\<And>g. f = Some g \<Longrightarrow> keeps P (g m e)) \<Longrightarrow> keeps P (fsm_call f m e)"
  by (cases f) (auto simp: fsm_call_def intro!: keeps_intros)

text \<open>
  \<open>fsm_engine\<close>: the tables are total (each ends in a row for any event, without predicate),
  entry and exit functions do nothing, and a machine's current state is what was last stored
  unless the process is dead (\<open>dead\<close>: it has called \<^verbatim>\<open>abort\<close>).
\<close>

locale fsm_engine =
  fixes tbl :: "'q \<Rightarrow> ('q, 's) fsm_state"
    and getCur :: "ptr \<Rightarrow> 's \<Rightarrow> 'q option"
    and setCur :: "ptr \<Rightarrow> 'q option \<Rightarrow> ('s, unit) state"
    and dead :: "'s \<Rightarrow> bool"
  assumes next_state: "t \<in> set (s_trans (tbl q)) \<Longrightarrow> t_nextState t \<noteq> None"
    and default_row: "s_trans (tbl q) \<noteq> []"
      "t_evtId (last (s_trans (tbl q))) = FSM_EvtDefault"
    and no_predicate: "t \<in> set (s_trans (tbl q)) \<Longrightarrow> t_predicate t = None"
    and entry_pass: "s_entry (tbl q) = Some f \<Longrightarrow> exec (f m e) s = s"
    and exit_pass: "s_exit (tbl q) = Some f \<Longrightarrow> exec (f m e) s = s"
    and get_set: "\<not> dead s \<Longrightarrow> getCur m (exec (setCur m q') s) = q'"
begin

definition row :: "'q \<Rightarrow> int \<Rightarrow> ('q, 's) fsm_trans" where
  "row q e = the (find (\<lambda>t. fsm_evtsMatch (t_evtId t) e) (s_trans (tbl q)))"

lemma scan_row:
  "result (fsm_scan (s_trans (tbl q)) m e) s = Some (row q e)"
  "exec (fsm_scan (s_trans (tbl q)) m e) s = s"
  "row q e \<in> set (s_trans (tbl q))"
proof -
  have eq: "result (fsm_scan (s_trans (tbl q)) m' e) s' = find (\<lambda>t. fsm_evtsMatch (t_evtId t) e) (s_trans (tbl q))"
    "exec (fsm_scan (s_trans (tbl q)) m' e) s' = s'" for m' s'
    using fsm_scan_first [of "s_trans (tbl q)" m' e s'] by (simp_all add: next_state no_predicate)
  have "\<exists>t\<in>set (s_trans (tbl q)). result (fsm_scan (s_trans (tbl q)) m e) s = Some t"
    using next_state default_row no_predicate [OF last_in_set [OF default_row(1)]]
    by (intro fsm_scan_default) blast+
  then show "result (fsm_scan (s_trans (tbl q)) m e) s = Some (row q e)"
    "exec (fsm_scan (s_trans (tbl q)) m e) s = s" "row q e \<in> set (s_trans (tbl q))"
    unfolding eq row_def by auto
qed

lemma exec_pass:
  "exec (fsm_call (s_entry (tbl q)) m e) s = s" "exec (fsm_call (s_exit (tbl q)) m e) s = s"
  by (cases "s_entry (tbl q)"; simp add: exec_fsm_call run_simps entry_pass)
    (cases "s_exit (tbl q)"; simp add: exec_fsm_call run_simps exit_pass)

lemma run:
  assumes "m \<noteq> NULL" "getCur m s = Some q"
  shows "result (FSM_runMachine tbl getCur setCur m e) s = SUCCESS"
    and "exec (FSM_runMachine tbl getCur setCur m e) s =
      exec (setCur m (t_nextState (row q e))) (exec (fsm_call (t_action (row q e)) m e) s)"
  using assms
  by (simp_all add: FSM_runMachine_def run_simps scan_row exec_pass)

lemma run_no_machine:
  assumes "m = NULL \<or> getCur m s = None"
  shows "result (FSM_runMachine tbl getCur setCur m e) s = FAIL"
    and "exec (FSM_runMachine tbl getCur setCur m e) s = s"
  using assms by (auto simp: FSM_runMachine_def run_simps)

lemma run_state:
  assumes "m \<noteq> NULL" "getCur m s = Some q"
    and "\<not> dead (exec (fsm_call (t_action (row q e)) m e) s)"
  shows "getCur m (exec (FSM_runMachine tbl getCur setCur m e) s) = t_nextState (row q e)"
  by (simp add: run(2) [OF assms(1,2)] get_set [OF assms(3)])

end

lemma fsm_scan_in: "result (fsm_scan ts m e) s = Some t \<Longrightarrow> t \<in> set ts"
  by (induction ts arbitrary: s) (auto simp: run_simps split: if_splits option.splits)

lemma keeps_fsm_scan:
  assumes "\<And>t p. t \<in> set ts \<Longrightarrow> t_predicate t = Some p \<Longrightarrow> keeps P (p m e)"
  shows "keeps P (fsm_scan ts m e)"
  using assms
proof (induction ts)
  case (Cons t ts)
  have "keeps P (fsm_scan ts m e)"
    using Cons.prems by (intro Cons.IH) auto
  with Cons.prems show ?case
    by (auto split: option.split intro!: keeps_intros)
qed (auto intro: keeps_intros)

lemma keeps_FSM_runMachine:
  assumes "\<And>q. keeps P (setCur m q)"
    and "\<And>q t p. t \<in> set (s_trans (tbl q)) \<Longrightarrow> t_predicate t = Some p \<Longrightarrow> keeps P (p m e)"
    and "\<And>q t f. t \<in> set (s_trans (tbl q)) \<Longrightarrow> t_action t = Some f \<Longrightarrow> keeps P (f m e)"
    and "\<And>q f. s_entry (tbl q) = Some f \<Longrightarrow> keeps P (f m e)"
    and "\<And>q f. s_exit (tbl q) = Some f \<Longrightarrow> keeps P (f m e)"
  shows "keeps P (FSM_runMachine tbl getCur setCur m e)"
proof -
  have "keeps P (do {
          fsm_call (s_exit (tbl q)) m e;
          fsm_call (t_action t) m e;
          setCur m (t_nextState t);
          fsm_call (s_entry (tbl (the (t_nextState t)))) m e;
          return SUCCESS
        })" if "t \<in> set (s_trans (tbl q))" for q t
    using that assms by (intro keeps_intros) blast+
  moreover have "keeps P (fsm_scan (s_trans (tbl q)) m e)" for q
    using assms(2) by (rule keeps_fsm_scan)
  ultimately show ?thesis
    unfolding FSM_runMachine_def keeps_def
    by (auto simp: run_simps split: option.splits dest: fsm_scan_in)
qed

end
