(* ===== verification/Sch.thy ===== *)
theory Sch
  imports Prelude
begin

text \<open>
  The scheduler, \<^verbatim>\<open>sysif.ocp/sch_/unix/schsel.c\<close>. A task is a function with its
  argument (the type \<open>'t\<close>) and an event: \<^verbatim>\<open>SCH_PSEUDO_EVENT\<close> for an internal task, a
  socket descriptor otherwise. The three queues of the module are lists here (the operations of
  \<^verbatim>\<open>sf_qu.c\<close> on the heap refine them, theory Qu); of \<^verbatim>\<open>availSchInfo\<close>, whose elements
  carry nothing, only the length matters. The locale \<open>task_runner\<close> is what \<^verbatim>\<open>SCH_run\<close>
  needs of the tasks it runs, and what it guarantees.
\<close>

abbreviation (input) SCH_PSEUDO_EVENT :: int where "SCH_PSEUDO_EVENT \<equiv> - 1"
abbreviation (input) SCH_INVALID_MAX_SCH_INFO :: int where "SCH_INVALID_MAX_SCH_INFO \<equiv> - 1"
abbreviation (input) SCH_NOT_VIRGIN :: int where "SCH_NOT_VIRGIN \<equiv> 13"

record 't schInfo =
  si_task :: 't
  si_event :: int

record 't sch =
  availSchInfo :: nat
  sch_active :: "'t schInfo list"
  sch_runq :: "'t schInfo list"
  sch_virgin :: bool

text \<open>\<open>siz\<close> is the size of a \<^verbatim>\<open>SchInfo\<close> structure.\<close>

definition SCH_init :: "int \<Rightarrow> int \<Rightarrow> 't sch \<Rightarrow> int \<times> 't sch" where
  "SCH_init siz maxSchInfo s =
     (if maxSchInfo \<le> 0 \<or> maxSchInfo > 65535 div siz then (SCH_INVALID_MAX_SCH_INFO, s)
      else if \<not> sch_virgin s then (SCH_NOT_VIRGIN, s)
      else (0, s\<lparr>sch_virgin := False, sch_active := [], sch_runq := [],
              availSchInfo := nat maxSchInfo\<rparr>))"

text \<open>The result is \<^term>\<open>None\<close> where the code calls \<^verbatim>\<open>abort\<close>.\<close>

definition SCH_submit :: "'t \<Rightarrow> int \<Rightarrow> 't sch \<Rightarrow> 't sch option" where
  "SCH_submit task event s =
     (if availSchInfo s = 0 then None
      else Some (s\<lparr>availSchInfo := availSchInfo s - 1,
             sch_active := sch_active s @ [\<lparr>si_task = task, si_event = event\<rparr>]\<rparr>))"

text \<open>
  \<^verbatim>\<open>SCH_block\<close>. What \<^verbatim>\<open>select\<close> delivers is the parameter: the number of ready
  descriptors with the set of them, or an error. (The recovery from \<^verbatim>\<open>EBADF\<close> is not
  modelled.) After a successful \<^verbatim>\<open>select\<close> the loop moves internal tasks, and the first task
  of every ready descriptor, whose bit it then clears.
\<close>

datatype sel = SelReady int "int set" | SelEINTR | SelError

fun sch_move :: "int set \<Rightarrow> 't schInfo list \<Rightarrow> 't schInfo list \<times> 't schInfo list" where
  "sch_move rd [] = ([], [])"
| "sch_move rd (x # xs) =
     (if si_event x = SCH_PSEUDO_EVENT then
        (let (a, r) = sch_move rd xs in (a, x # r))
      else if si_event x \<in> rd then
        (let (a, r) = sch_move (rd - {si_event x}) xs in (a, x # r))
      else
        (let (a, r) = sch_move rd xs in (x # a, r)))"

definition internTask :: "'t schInfo \<Rightarrow> bool" where
  "internTask x \<longleftrightarrow> si_event x = SCH_PSEUDO_EVENT"

definition SCH_block :: "sel \<Rightarrow> 't sch \<Rightarrow> int \<times> 't sch" where
  "SCH_block sel s =
     (if sch_active s = [] then (0, s)
      else
        let s1 = s\<lparr>sch_active := filter (\<lambda>x. \<not> internTask x) (sch_active s),
                   sch_runq := sch_runq s @ filter internTask (sch_active s)\<rparr>
        in
        if \<exists>x\<in>set (sch_active s). internTask x then (0, s1)
        else
          case sel of
            SelEINTR \<Rightarrow> (0, s1)
          | SelError \<Rightarrow> (- 3, s1)
          | SelReady n rd \<Rightarrow>
              if n = 0 then (0, s1)
              else
                let (a, r) = sch_move rd (sch_active s1)
                in (n, s1\<lparr>sch_active := a, sch_runq := sch_runq s1 @ r\<rparr>))"

fun sch_delete :: "('t schInfo \<Rightarrow> bool) \<Rightarrow> 't schInfo list \<Rightarrow> 't schInfo list option" where
  "sch_delete P [] = None"
| "sch_delete P (x # xs) = (if P x then Some xs else map_option ((#) x) (sch_delete P xs))"

definition SCH_taskDelete :: "int \<Rightarrow> 't \<Rightarrow> 't sch \<Rightarrow> int \<times> 't sch" where
  "SCH_taskDelete event task s =
     (case sch_delete (\<lambda>x. (event \<noteq> SCH_PSEUDO_EVENT \<or> task = si_task x) \<and> event = si_event x)
             (sch_active s) of
        None \<Rightarrow> (FAIL, s)
      | Some xs \<Rightarrow> (SUCCESS, s\<lparr>sch_active := xs, availSchInfo := availSchInfo s + 1\<rparr>))"

lemma sch_delete_length: "sch_delete P xs = Some ys \<Longrightarrow> length xs = Suc (length ys)"
  by (induction xs arbitrary: ys) (auto split: if_splits)

function (sequential) SCH_allTaskDelete_from :: "int \<Rightarrow> 't \<Rightarrow> int \<Rightarrow> 't sch \<Rightarrow> int \<times> 't sch" where
  "SCH_allTaskDelete_from event task retVal s =
     (let (rc, s') = SCH_taskDelete event task s in
      if rc = SUCCESS then SCH_allTaskDelete_from event task SUCCESS s' else (retVal, s'))"
  by pat_completeness auto
termination
  by (relation "measure (\<lambda>(_, _, _, s). length (sch_active s))")
    (auto simp: SCH_taskDelete_def dest!: sch_delete_length split: option.splits)

declare SCH_allTaskDelete_from.simps [simp del]

definition SCH_allTaskDelete :: "int \<Rightarrow> 't \<Rightarrow> 't sch \<Rightarrow> int \<times> 't sch" where
  "SCH_allTaskDelete event task s = SCH_allTaskDelete_from event task FAIL s"

text \<open>
  \<^verbatim>\<open>SCH_run\<close>. The first argument counts the tasks still allowed: 201 less the
  \<^verbatim>\<open>sanityCounter\<close>. When it is exhausted the loop has already taken one more task off the
  queue, and leaves it neither run nor returned to \<^verbatim>\<open>availSchInfo\<close>. \<open>get\<close> and
  \<open>upd\<close> give access to the scheduler's part of the state.
\<close>

primrec SCH_run_from ::
  "('s \<Rightarrow> 't sch) \<Rightarrow> (('t sch \<Rightarrow> 't sch) \<Rightarrow> ('s, unit) state) \<Rightarrow> ('t \<Rightarrow> ('s, unit) state) \<Rightarrow>
   nat \<Rightarrow> ('s, int) state" where
  "SCH_run_from get upd dispatch 0 = do {
     q \<leftarrow> gets (\<lambda>s. sch_runq (get s));
     case q of
       [] \<Rightarrow> return SUCCESS
     | x # xs \<Rightarrow> do { upd (\<lambda>s. s\<lparr>sch_runq := tl (sch_runq s)\<rparr>); return SUCCESS }
   }"
| "SCH_run_from get upd dispatch (Suc n) = do {
     q \<leftarrow> gets (\<lambda>s. sch_runq (get s));
     case q of
       [] \<Rightarrow> return SUCCESS
     | x # xs \<Rightarrow> do {
         upd (\<lambda>s. s\<lparr>sch_runq := tl (sch_runq s)\<rparr>);
         dispatch (si_task x);
         upd (\<lambda>s. s\<lparr>availSchInfo := availSchInfo s + 1\<rparr>);
         SCH_run_from get upd dispatch n
       }
   }"

definition SCH_run ::
  "('s \<Rightarrow> 't sch) \<Rightarrow> (('t sch \<Rightarrow> 't sch) \<Rightarrow> ('s, unit) state) \<Rightarrow> ('t \<Rightarrow> ('s, unit) state) \<Rightarrow>
   ('s, int) state" where
  "SCH_run get upd dispatch = SCH_run_from get upd dispatch 201"


section \<open>Submission and blocking\<close>

lemma SCH_submit_fifo:
  "availSchInfo s > 0 \<Longrightarrow> \<exists>s'. SCH_submit t e s = Some s' \<and>
     sch_active s' = sch_active s @ [\<lparr>si_task = t, si_event = e\<rparr>] \<and>
     sch_runq s' = sch_runq s \<and> availSchInfo s' = availSchInfo s - 1"
  by (simp add: SCH_submit_def)

lemma SCH_submit_abort: "SCH_submit t e s = None \<longleftrightarrow> availSchInfo s = 0"
  by (simp add: SCH_submit_def)

text \<open>The number of \<^verbatim>\<open>SchInfo\<close> structures, free or queued.\<close>

definition sch_total :: "'t sch \<Rightarrow> nat" where
  "sch_total s = availSchInfo s + length (sch_active s) + length (sch_runq s)"

lemma sch_move_length: "length (fst (sch_move rd xs)) + length (snd (sch_move rd xs)) = length xs"
  by (induction rd xs rule: sch_move.induct) (auto simp: case_prod_beta)

lemma sch_move_set: "set (fst (sch_move rd xs)) \<union> set (snd (sch_move rd xs)) = set xs"
  by (induction rd xs rule: sch_move.induct) (auto simp: case_prod_beta)

lemma SCH_submit_total: "SCH_submit t e s = Some s' \<Longrightarrow> sch_total s' = sch_total s"
  by (auto simp: SCH_submit_def sch_total_def split: if_splits)

lemma SCH_block_total: "sch_total (snd (SCH_block sel s)) = sch_total s"
  using sum_length_filter_compl [of internTask "sch_active s"] sch_move_length
  by (auto simp: SCH_block_def sch_total_def Let_def case_prod_beta add.commute add.left_commute
      split: sel.split)

lemma SCH_taskDelete_total: "sch_total (snd (SCH_taskDelete e t s)) = sch_total s"
  by (auto simp: SCH_taskDelete_def sch_total_def dest!: sch_delete_length split: option.split)

text \<open>
  \<^verbatim>\<open>SCH_block\<close> returns before \<^verbatim>\<open>select\<close> while an internal task is queued: no
  socket is looked at, and the internal tasks are appended to the run queue in their order.
\<close>

lemma SCH_block_internal_first:
  assumes "x \<in> set (sch_active s)" "internTask x"
  shows "SCH_block sel s = (0, s\<lparr>sch_active := filter (\<lambda>x. \<not> internTask x) (sch_active s),
    sch_runq := sch_runq s @ filter internTask (sch_active s)\<rparr>)"
proof -
  have "sch_active s \<noteq> []" "\<exists>x\<in>set (sch_active s). internTask x"
    using assms by auto
  then show ?thesis by (simp add: SCH_block_def Let_def)
qed

lemma SCH_block_idle:
  assumes "\<forall>x\<in>set (sch_active s). \<not> internTask x" "sch_active s \<noteq> []" "n \<noteq> 0"
  shows "SCH_block (SelReady n rd) s =
    (n, s\<lparr>sch_active := fst (sch_move rd (sch_active s)),
          sch_runq := sch_runq s @ snd (sch_move rd (sch_active s))\<rparr>)"
proof -
  have "filter (\<lambda>x. \<not> internTask x) (sch_active s) = sch_active s" "filter internTask (sch_active s) = []"
    using assms(1) by (auto simp: filter_empty_conv filter_id_conv)
  then show ?thesis
    using assms by (auto simp: SCH_block_def Let_def case_prod_beta)
qed


section \<open>Running\<close>

text \<open>
  A task may submit further tasks, but these go to the active queue: the run queue is the
  scheduler's own. Under that contract \<^verbatim>\<open>SCH_run\<close> runs exactly the tasks of the run queue,
  in their order.
\<close>

locale task_runner =
  fixes get :: "'s \<Rightarrow> 't sch"
    and upd :: "('t sch \<Rightarrow> 't sch) \<Rightarrow> ('s, unit) state"
    and dispatch :: "'t \<Rightarrow> ('s, unit) state"
    and dead :: "'s \<Rightarrow> bool"
  assumes get_upd: "\<not> dead s \<Longrightarrow> get (exec (upd f) s) = f (get s)"
    and upd_dead: "dead s \<Longrightarrow> exec (upd f) s = s"
    and dead_upd: "dead (exec (upd f) s) = dead s"
    and dispatch_dead: "dead s \<Longrightarrow> exec (dispatch t) s = s"
    and dispatch_runq: "sch_runq (get (exec (dispatch t) s)) = sch_runq (get s)"
begin

definition run_one :: "'t schInfo \<Rightarrow> 's \<Rightarrow> 's" where
  "run_one x s = exec (upd (\<lambda>q. q\<lparr>availSchInfo := availSchInfo q + 1\<rparr>))
     (exec (dispatch (si_task x)) (exec (upd (\<lambda>q. q\<lparr>sch_runq := tl (sch_runq q)\<rparr>)) s))"

lemma run_one_dead: "dead s \<Longrightarrow> run_one x s = s"
  by (simp add: run_one_def upd_dead dispatch_dead)

lemma fold_run_one_dead: "dead s \<Longrightarrow> fold run_one xs s = s"
  by (induction xs) (simp_all add: run_one_dead)

lemma exec_run_dead: "dead s \<Longrightarrow> exec (SCH_run_from get upd dispatch n) s = s"
  by (induction n) (auto simp: run_simps upd_dead dispatch_dead split: list.split)

lemma run_one_runq:
  assumes "\<not> dead (run_one x s)"
  shows "sch_runq (get (run_one x s)) = tl (sch_runq (get s))"
proof -
  let ?s1 = "exec (upd (\<lambda>q. q\<lparr>sch_runq := tl (sch_runq q)\<rparr>)) s"
  have d: "\<not> dead (exec (dispatch (si_task x)) ?s1)"
    using assms by (auto simp: run_one_def dead_upd)
  then have "\<not> dead ?s1"
    using dispatch_dead [of ?s1 "si_task x"] by auto
  then have "\<not> dead s"
    by (simp add: dead_upd)
  with d show ?thesis
    by (simp add: run_one_def get_upd dispatch_runq)
qed

lemma exec_run_from:
  assumes "length (sch_runq (get s)) \<le> n"
  shows "exec (SCH_run_from get upd dispatch n) s = fold run_one (sch_runq (get s)) s"
  using assms
proof (induction n arbitrary: s)
  case (Suc n)
  show ?case
  proof (cases "sch_runq (get s)")
    case (Cons x xs)
    have step: "exec (SCH_run_from get upd dispatch (Suc n)) s =
        exec (SCH_run_from get upd dispatch n) (run_one x s)"
      by (simp add: Cons run_simps run_one_def)
    show ?thesis
    proof (cases "dead (run_one x s)")
      case True
      then show ?thesis unfolding step by (simp add: Cons exec_run_dead fold_run_one_dead)
    next
      case False
      then have "sch_runq (get (run_one x s)) = xs"
        using run_one_runq Cons by simp
      then show ?thesis
        unfolding step using Suc by (simp add: Cons)
    qed
  qed (simp add: run_simps)
qed (simp add: run_simps)

lemma run_all:
  assumes "length (sch_runq (get s)) \<le> 201"
  shows "exec (SCH_run get upd dispatch) s = fold run_one (sch_runq (get s)) s"
  using exec_run_from [OF assms] by (simp add: SCH_run_def)

lemma fold_runq:
  "\<not> dead (fold run_one xs s) \<Longrightarrow> sch_runq (get (fold run_one xs s)) = drop (length xs) (sch_runq (get s))"
proof (induction xs arbitrary: s)
  case (Cons x xs)
  then have "\<not> dead (run_one x s)"
    using fold_run_one_dead by fastforce
  with Cons show ?case
    by (simp add: run_one_runq drop_Suc)
qed simp

lemma run_empties:
  assumes "length (sch_runq (get s)) \<le> 201" "\<not> dead (exec (SCH_run get upd dispatch) s)"
  shows "sch_runq (get (exec (SCH_run get upd dispatch) s)) = []"
  using assms fold_runq by (simp add: run_all)

lemma run_success: "result (SCH_run_from get upd dispatch n) s = SUCCESS"
  by (induction n arbitrary: s) (auto simp: run_simps split: list.split)

text \<open>
  With more than 201 tasks, 201 are run and one is taken off the queue without being run.
\<close>

lemma exec_run_from_overrun:
  assumes "n < length (sch_runq (get s))"
  shows "exec (SCH_run_from get upd dispatch n) s =
    exec (upd (\<lambda>q. q\<lparr>sch_runq := tl (sch_runq q)\<rparr>)) (fold run_one (take n (sch_runq (get s))) s)"
  using assms
proof (induction n arbitrary: s)
  case 0
  then show ?case by (auto simp: run_simps split: list.split)
next
  case (Suc n)
  then obtain x xs where q: "sch_runq (get s) = x # xs"
    by (cases "sch_runq (get s)") auto
  have step: "exec (SCH_run_from get upd dispatch (Suc n)) s =
      exec (SCH_run_from get upd dispatch n) (run_one x s)"
    by (simp add: q run_simps run_one_def)
  show ?case
  proof (cases "dead (run_one x s)")
    case True
    then show ?thesis unfolding step by (simp add: q exec_run_dead fold_run_one_dead upd_dead)
  next
    case False
    then have "sch_runq (get (run_one x s)) = xs"
      using run_one_runq q by simp
    then show ?thesis
      unfolding step using Suc q by simp
  qed
qed

end

lemma keeps_SCH_run:
  assumes "\<And>f. keeps P (upd (\<lambda>s. s\<lparr>sch_runq := tl (sch_runq s)\<rparr>))"
    and "keeps P (upd (\<lambda>s. s\<lparr>availSchInfo := availSchInfo s + 1\<rparr>))" and "\<And>t. keeps P (dispatch t)"
  shows "keeps P (SCH_run get upd dispatch)"
proof -
  have "keeps P (SCH_run_from get upd dispatch n)" for n
    by (induction n) (use assms in \<open>auto intro!: keeps_intros\<close>)
  then show ?thesis by (simp add: SCH_run_def)
qed

end
