(* ===== verification/Tmr.thy ===== *)
theory Tmr
  imports Prelude
begin

text \<open>
  Timers, \<^verbatim>\<open>sysif.ocp/tmr_/unix.djl/tmr.c\<close> with the portation \<^verbatim>\<open>tmrunix.h\<close>. The
  queue \<^verbatim>\<open>timerQHead\<close> is a list of timers; a timer has its address, its expiry time, a
  32-bit count of milliseconds that wraps, and the user's data (\<open>'h\<close>). The lemmas show that the
  queue is ordered by expiry time and first-in first-out among equal times, and that
  \<^verbatim>\<open>TMR_processQueue\<close> fires the timers that are due, in that order, and ends, for handlers
  that keep the contract stated by the locale \<open>timer_client\<close>.
\<close>

record 'h timer =
  tm_desc :: ptr
  expiryTime :: u32
  tm_data :: 'h

type_synonym 'h timerQ = "'h timer list"

text \<open>
  \<^verbatim>\<open>OS_currentDateTime\<close> delivers seconds, or fails (\<^term>\<open>None\<close>); the clock of this module
  counts milliseconds.
\<close>

definition tmr_currentTime :: "u32 option \<Rightarrow> u32 option" where
  "tmr_currentTime os = map_option (\<lambda>t. t * 1000) os"

text \<open>The search loop of \<^verbatim>\<open>TMR_start\<close>: before the first timer with a later time.\<close>

fun tmr_insert :: "'h timer \<Rightarrow> 'h timerQ \<Rightarrow> 'h timerQ" where
  "tmr_insert t [] = [t]"
| "tmr_insert t (x # xs) = (if expiryTime x > expiryTime t then t # x # xs else x # tmr_insert t xs)"

text \<open>
  \<open>mem\<close> is what \<^verbatim>\<open>tmr_obtain\<close> returns. The result \<^term>\<open>None\<close> is an error return of
  \<^verbatim>\<open>TMR_start\<close>, on which \<^verbatim>\<open>TMR_create\<close> calls \<^verbatim>\<open>EH_fatal\<close>.
\<close>

definition TMR_start ::
  "u32 option \<Rightarrow> ptr \<Rightarrow> u32 \<Rightarrow> 'h \<Rightarrow> 'h timerQ \<Rightarrow> (ptr \<times> 'h timerQ) option" where
  "TMR_start os mem milliseconds hUserData q =
     (case tmr_currentTime os of
        None \<Rightarrow> None
      | Some timeNow \<Rightarrow>
          if mem = NULL then None
          else Some (mem, tmr_insert \<lparr>tm_desc = mem, expiryTime = timeNow + milliseconds,
                                      tm_data = hUserData\<rparr> q))"

fun TMR_stop :: "ptr \<Rightarrow> 'h timerQ \<Rightarrow> 'h timerQ" where
  "TMR_stop hTimer [] = []"
| "TMR_stop hTimer (x # xs) = (if tm_desc x = hTimer then xs else x # TMR_stop hTimer xs)"

text \<open>
  \<^verbatim>\<open>TMR_processQueue\<close>. A handler returns whether it succeeded. The fuel bounds the number
  of timers handled in one call.
\<close>

datatype tmr_result = TmrSuccess | TmrNoClock | TmrHandlerError | TmrOutOfFuel

primrec TMR_processLoop ::
  "('s \<Rightarrow> 'h timerQ) \<Rightarrow> (('h timerQ \<Rightarrow> 'h timerQ) \<Rightarrow> ('s, unit) state) \<Rightarrow>
   ('h timer \<Rightarrow> ('s, bool) state) \<Rightarrow> u32 \<Rightarrow> nat \<Rightarrow> ('s, tmr_result) state" where
  "TMR_processLoop get upd handler timeNow 0 = return TmrOutOfFuel"
| "TMR_processLoop get upd handler timeNow (Suc n) = do {
     q \<leftarrow> gets get;
     case q of
       [] \<Rightarrow> return TmrSuccess
     | x # xs \<Rightarrow>
         if expiryTime x \<le> timeNow then do {
           upd tl;
           ok \<leftarrow> handler x;
           if ok then TMR_processLoop get upd handler timeNow n
           else return TmrHandlerError
         }
         else return TmrSuccess
   }"

definition TMR_processQueue ::
  "('s \<Rightarrow> 'h timerQ) \<Rightarrow> (('h timerQ \<Rightarrow> 'h timerQ) \<Rightarrow> ('s, unit) state) \<Rightarrow>
   ('h timer \<Rightarrow> ('s, bool) state) \<Rightarrow> ('s \<Rightarrow> u32 option) \<Rightarrow> nat \<Rightarrow> ('s, tmr_result) state" where
  "TMR_processQueue get upd handler clock n = do {
     now \<leftarrow> gets (\<lambda>s. tmr_currentTime (clock s));
     case now of
       None \<Rightarrow> return TmrNoClock
     | Some timeNow \<Rightarrow> TMR_processLoop get upd handler timeNow n
   }"


section \<open>The queue is ordered\<close>

definition tmr_sorted :: "'h timerQ \<Rightarrow> bool" where
  "tmr_sorted q \<longleftrightarrow> sorted (map expiryTime q)"

lemma tmr_insert_eq:
  "tmr_insert t q = takeWhile (\<lambda>x. expiryTime x \<le> expiryTime t) q @ t #
     dropWhile (\<lambda>x. expiryTime x \<le> expiryTime t) q"
  by (induction q) auto

lemma set_tmr_insert [simp]: "set (tmr_insert t q) = insert t (set q)"
  by (induction q) auto

lemma tmr_insert_sorted: "tmr_sorted q \<Longrightarrow> tmr_sorted (tmr_insert t q)"
  by (induction q) (auto simp: tmr_sorted_def)

text \<open>
  In an ordered queue the new timer comes after all that expire no later, so first-in first-out
  among equal times, and before all that expire later.
\<close>

lemma tmr_insert_filter:
  "tmr_sorted q \<Longrightarrow> tmr_insert t q =
     filter (\<lambda>x. expiryTime x \<le> expiryTime t) q @ t # filter (\<lambda>x. expiryTime x > expiryTime t) q"
proof (induction q)
  case (Cons x q)
  have "\<forall>y\<in>set q. expiryTime t < expiryTime y" if "expiryTime t < expiryTime x"
    using Cons.prems that by (auto simp: tmr_sorted_def)
  then show ?case
    using Cons by (auto simp: tmr_sorted_def filter_empty_conv filter_id_conv not_less not_le
        intro!: sym [OF filter_True] dest: less_le_trans)
qed simp

lemma TMR_stop_sorted: "tmr_sorted q \<Longrightarrow> tmr_sorted (TMR_stop d q)"
proof -
  have sub: "set (TMR_stop d q) \<subseteq> set q" for q :: "'a timerQ"
    by (induction q) auto
  show "tmr_sorted q \<Longrightarrow> tmr_sorted (TMR_stop d q)"
    by (induction q) (use sub in \<open>auto simp: tmr_sorted_def\<close>)
qed

lemma set_TMR_stop: "set (TMR_stop d q) \<subseteq> set q"
  by (induction q) auto

lemma TMR_stop_distinct:
  "distinct (map tm_desc q) \<Longrightarrow> TMR_stop d q = filter (\<lambda>t. tm_desc t \<noteq> d) q"
  by (induction q) (auto simp: filter_id_conv image_iff intro!: sym [OF filter_True])

text \<open>The 32-bit clock wraps: a timer started just before the wrap is due at once.\<close>

lemma TMR_start_wraps:
  "TMR_start (Some 4294967) 1 10000 h [] =
     Some (1, [\<lparr>tm_desc = 1, expiryTime = 9704, tm_data = h\<rparr>])"
  "(9704 :: u32) \<le> 4294967 * 1000"
  by (simp_all add: TMR_start_def tmr_currentTime_def)


section \<open>Processing\<close>

definition tmr_due :: "u32 \<Rightarrow> 'h timerQ \<Rightarrow> 'h timerQ" where
  "tmr_due now q = filter (\<lambda>t. expiryTime t \<le> now) q"

lemma tmr_due_Nil: "tmr_sorted (x # q) \<Longrightarrow> \<not> expiryTime x \<le> now \<Longrightarrow> tmr_due now (x # q) = []"
  by (auto simp: tmr_due_def tmr_sorted_def filter_empty_conv)

text \<open>
  \<open>timer_client\<close>: while the invariant \<open>I\<close> holds, the timers of the queue satisfy \<open>ok\<close>; the
  handler of such a timer succeeds, keeps the invariant, leaves the queue ordered and starts no
  timer that is due at once. Once the process is \<open>dead\<close> nothing changes.
\<close>

locale timer_client =
  fixes get :: "'s \<Rightarrow> 'h timerQ"
    and upd :: "('h timerQ \<Rightarrow> 'h timerQ) \<Rightarrow> ('s, unit) state"
    and handler :: "'h timer \<Rightarrow> ('s, bool) state"
    and now :: u32
    and I :: "'s \<Rightarrow> bool"
    and ok :: "'h timer \<Rightarrow> bool"
    and dead :: "'s \<Rightarrow> bool"
  assumes get_upd: "\<not> dead s \<Longrightarrow> get (exec (upd tl) s) = tl (get s)"
    and upd_dead: "dead s \<Longrightarrow> exec (upd tl) s = s"
    and upd_alive: "\<not> dead s \<Longrightarrow> \<not> dead (exec (upd tl) s)"
    and I_upd: "I s \<Longrightarrow> I (exec (upd tl) s)"
    and queue_ok: "I s \<Longrightarrow> t \<in> set (get s) \<Longrightarrow> ok t"
    and handler_dead: "dead s \<Longrightarrow> exec (handler t) s = s"
    and handler_inv: "I s \<Longrightarrow> ok t \<Longrightarrow> I (exec (handler t) s)"
    and handler_ok: "I s \<Longrightarrow> \<not> dead s \<Longrightarrow> ok t \<Longrightarrow> result (handler t) s"
    and handler_sorted: "tmr_sorted (get s) \<Longrightarrow> tmr_sorted (get (exec (handler t) s))"
    and handler_due: "I s \<Longrightarrow> ok t \<Longrightarrow>
      length (tmr_due now (get (exec (handler t) s))) \<le> length (tmr_due now (get s))"
begin

lemma loop_dead: "dead s \<Longrightarrow> exec (TMR_processLoop get upd handler now n) s = s"
  by (induction n) (auto simp: run_simps upd_dead handler_dead split: list.split)

lemma loop:
  assumes "I s" "tmr_sorted (get s)" "length (tmr_due now (get s)) < n"
  shows "dead (exec (TMR_processLoop get upd handler now n) s) \<or>
    result (TMR_processLoop get upd handler now n) s = TmrSuccess \<and>
    I (exec (TMR_processLoop get upd handler now n) s) \<and>
    tmr_sorted (get (exec (TMR_processLoop get upd handler now n) s)) \<and>
    tmr_due now (get (exec (TMR_processLoop get upd handler now n) s)) = []"
  using assms
proof (induction n arbitrary: s)
  case (Suc n)
  show ?case
  proof (cases "dead s")
    case True
    then show ?thesis by (simp only: loop_dead simp_thms)
  next
    case alive: False
    show ?thesis
    proof (cases "get s")
      case Nil
      then show ?thesis using Suc.prems by (simp add: run_simps tmr_due_def)
    next
      case (Cons x xs)
      show ?thesis
      proof (cases "expiryTime x \<le> now")
        case False
        then show ?thesis
          using Suc.prems Cons tmr_due_Nil [of x xs now] by (simp add: run_simps)
      next
        case True
        let ?s1 = "exec (upd tl) s"
        have s1: "I ?s1" "get ?s1 = xs" "tmr_sorted xs" "ok x"
          using Suc.prems Cons get_upd I_upd alive queue_ok [of s x] by (auto simp: tmr_sorted_def)
        have "length (tmr_due now xs) < n"
          using Suc.prems(3) True by (simp add: Cons tmr_due_def)
        then have "length (tmr_due now (get (exec (handler x) ?s1))) < n"
          using handler_due [OF s1(1,4)] s1(2) by simp
        moreover have "tmr_sorted (get (exec (handler x) ?s1))"
          using handler_sorted [of ?s1 x] s1(2,3) by simp
        ultimately show ?thesis
          using Suc.IH [OF handler_inv [OF s1(1,4)]]
          by (simp add: run_simps handler_ok [OF s1(1) upd_alive [OF alive] s1(4)] True Cons)
      qed
    qed
  qed
qed simp

end

end
