(* ===== verification/Sap.thy ===== *)
theory Sap
  imports Prelude
begin

text \<open>
  Addresses and SAP selectors, \<^verbatim>\<open>net.ocp/sap_/portable/addr.h\<close>, and their comparison,
  \<^verbatim>\<open>sapcmp.c\<close> and \<^verbatim>\<open>sap.c\<close>. All the structures have the form of \<^verbatim>\<open>SAP_Sel\<close>: a
  length and an array, here the list of its octets. The locale \<open>addr_cmp\<close> is what the reference
  number tables need of a comparison.
\<close>

record sap_sel =
  sel_len :: int
  sel_addr :: "u8 list"

type_synonym N_SapAddr = sap_sel
type_synonym T_SapSel = sap_sel

abbreviation (input) NSAPSZ :: int where "NSAPSZ \<equiv> 20"
abbreviation (input) TSAPSZ :: int where "TSAPSZ \<equiv> 32"

text \<open>
  The loop of \<^verbatim>\<open>BS_memCmp\<close>. It ends at the first difference. (An array shorter than the
  count would be read past its end; the model reads 0 there.)
\<close>

definition octet :: "u8 list \<Rightarrow> u8" where
  "octet xs = (case xs of [] \<Rightarrow> 0 | x # _ \<Rightarrow> x)"

primrec BS_memCmp_loop :: "nat \<Rightarrow> u8 list \<Rightarrow> u8 list \<Rightarrow> int" where
  "BS_memCmp_loop 0 src dst = 0"
| "BS_memCmp_loop (Suc n) src dst =
     (if octet src \<noteq> octet dst then (if octet src < octet dst then - 1 else 1)
      else BS_memCmp_loop n (tl src) (tl dst))"

definition BS_memCmp :: "u8 list \<Rightarrow> u8 list \<Rightarrow> int \<Rightarrow> int" where
  "BS_memCmp src dst nuOfBytes =
     (if nuOfBytes < 0 then - 1 else BS_memCmp_loop (nat nuOfBytes) src dst)"

text \<open>
  \<^verbatim>\<open>OS_memCmp\<close> is the library's \<^verbatim>\<open>memcmp\<close>: of its result the callers use only
  whether it is 0.
\<close>

definition OS_memCmp :: "u8 list \<Rightarrow> u8 list \<Rightarrow> int \<Rightarrow> int" where
  "OS_memCmp a b n = BS_memCmp_loop (nat n) a b"

definition N_sapAddrCmp :: "N_SapAddr \<Rightarrow> N_SapAddr \<Rightarrow> int" where
  "N_sapAddrCmp n1 n2 =
     (if sel_len n1 \<noteq> sel_len n2 \<or> sel_len n1 = 0 then - 1
      else OS_memCmp (sel_addr n1) (sel_addr n2) (sel_len n1))"

definition T_sapCmp :: "T_SapSel \<Rightarrow> T_SapSel \<Rightarrow> int" where
  "T_sapCmp t1 t2 =
     (if sel_len t1 \<noteq> sel_len t2 \<or> sel_len t1 = 0 then - 1
      else OS_memCmp (sel_addr t1) (sel_addr t2) (sel_len t1))"

definition SAP_selCmp :: "sap_sel \<Rightarrow> sap_sel \<Rightarrow> int" where
  "SAP_selCmp n1 n2 =
     (if sel_len n1 \<noteq> sel_len n2 \<or> sel_len n1 = 0 then - 1
      else BS_memCmp (sel_addr n1) (sel_addr n2) (sel_len n1))"

text \<open>The domain of a network address is all of it but its last octet.\<close>

definition SAP_nSapDomainCmp :: "N_SapAddr \<Rightarrow> N_SapAddr \<Rightarrow> int" where
  "SAP_nSapDomainCmp n1 n2 =
     (if sel_len n1 \<noteq> sel_len n2 \<or> sel_len n1 = 0 then - 1
      else BS_memCmp (sel_addr n1) (sel_addr n2) (sel_len n1 - 1))"


section \<open>Comparison\<close>

lemma BS_memCmp_loop_Suc:
  "BS_memCmp_loop (Suc n) a b = 0 \<longleftrightarrow> octet a = octet b \<and> BS_memCmp_loop n (tl a) (tl b) = 0"
  by simp

lemma BS_memCmp_loop_range: "BS_memCmp_loop n a b \<in> {- 1, 0, 1}"
proof (induction n arbitrary: a b)
  case (Suc n)
  then show ?case by (cases "octet a = octet b") simp_all
qed simp

lemma BS_memCmp_loop_eq:
  "n \<le> length a \<Longrightarrow> n \<le> length b \<Longrightarrow> BS_memCmp_loop n a b = 0 \<longleftrightarrow> take n a = take n b"
proof (induction n arbitrary: a b)
  case (Suc n)
  then obtain x a' y b' where ab: "a = x # a'" "b = y # b'"
    by (cases a; cases b) simp_all
  then have "BS_memCmp_loop n a' b' = 0 \<longleftrightarrow> take n a' = take n b'"
    using Suc by simp
  then show ?case
    unfolding BS_memCmp_loop_Suc ab by (simp add: octet_def)
qed simp

lemma BS_memCmp_loop_refl [simp]: "BS_memCmp_loop n a a = 0"
  by (induction n arbitrary: a) simp_all

lemma BS_memCmp_loop_sym: "BS_memCmp_loop n a b = 0 \<Longrightarrow> BS_memCmp_loop n b a = 0"
proof (induction n arbitrary: a b)
  case (Suc n)
  then show ?case unfolding BS_memCmp_loop_Suc by metis
qed simp

lemma BS_memCmp_loop_trans:
  "BS_memCmp_loop n a b = 0 \<Longrightarrow> BS_memCmp_loop n b c = 0 \<Longrightarrow> BS_memCmp_loop n a c = 0"
proof (induction n arbitrary: a b c)
  case (Suc n)
  then show ?case unfolding BS_memCmp_loop_Suc by metis
qed simp

lemma BS_memCmp_loop_antisym: "BS_memCmp_loop n a b = - BS_memCmp_loop n b a"
proof (induction n arbitrary: a b)
  case (Suc n)
  have "octet a = octet b \<or> octet a < octet b \<and> \<not> octet b < octet a \<or> octet b < octet a \<and> \<not> octet a < octet b"
    by (metis less_asym less_linear)
  then show ?case using Suc.IH [of "tl a" "tl b"] by (elim disjE) simp_all
qed simp

definition addr_wf :: "int \<Rightarrow> sap_sel \<Rightarrow> bool" where
  "addr_wf siz a \<longleftrightarrow> 0 < sel_len a \<and> sel_len a \<le> siz \<and> int (length (sel_addr a)) = siz"

lemma N_sapAddrCmp_eq:
  assumes "addr_wf NSAPSZ a" "addr_wf NSAPSZ b"
  shows "N_sapAddrCmp a b = 0 \<longleftrightarrow>
    sel_len a = sel_len b \<and> take (nat (sel_len a)) (sel_addr a) = take (nat (sel_len a)) (sel_addr b)"
proof -
  have "nat (sel_len a) \<le> length (sel_addr a)" "nat (sel_len b) \<le> length (sel_addr b)" "sel_len a \<noteq> 0"
    using assms by (auto simp: addr_wf_def)
  then show ?thesis
    by (auto simp: N_sapAddrCmp_def OS_memCmp_def BS_memCmp_loop_eq)
qed

lemma N_sapAddrCmp_refl: "N_sapAddrCmp a a = 0 \<longleftrightarrow> sel_len a \<noteq> 0"
  by (simp add: N_sapAddrCmp_def OS_memCmp_def)

text \<open>A comparison that says which addresses are the same.\<close>

locale addr_cmp =
  fixes cmp :: "'a \<Rightarrow> 'a \<Rightarrow> int"
  assumes cmp_sym: "cmp a b = 0 \<Longrightarrow> cmp b a = 0"
    and cmp_trans: "cmp a b = 0 \<Longrightarrow> cmp b c = 0 \<Longrightarrow> cmp a c = 0"
begin

text \<open>No two entries of a list have the same address.\<close>

definition apart :: "('b \<Rightarrow> 'a) \<Rightarrow> 'b list \<Rightarrow> bool" where
  "apart addr xs \<longleftrightarrow> sorted_wrt (\<lambda>x y. cmp (addr x) (addr y) \<noteq> 0) xs"

lemma apart_Nil [simp]: "apart addr []"
  by (simp add: apart_def)

lemma apart_snoc:
  "apart addr xs \<Longrightarrow> \<forall>x\<in>set xs. cmp (addr y) (addr x) \<noteq> 0 \<Longrightarrow> apart addr (xs @ [y])"
  using cmp_sym by (fastforce simp: apart_def sorted_wrt_append)

lemma apart_filter: "apart addr xs \<Longrightarrow> apart addr (filter P xs)"
  by (simp add: apart_def sorted_wrt_filter)

lemma apart_cong:
  "(\<And>x. x \<in> set xs \<Longrightarrow> addr x = addr' x) \<Longrightarrow> apart addr xs = apart addr' xs"
  unfolding apart_def by (induction xs) auto

text \<open>So a search by address finds the only entry that has it.\<close>

lemma find_apart:
  assumes "apart addr xs" "x \<in> set xs" "cmp (addr x) a = 0"
  shows "find (\<lambda>y. cmp (addr y) a = 0) xs = Some x"
  using assms
proof (induction xs)
  case (Cons y ys)
  show ?case
  proof (cases "x = y")
    case False
    then have "cmp (addr y) (addr x) \<noteq> 0" "x \<in> set ys"
      using Cons.prems by (auto simp: apart_def)
    then have "cmp (addr y) a \<noteq> 0"
      using Cons.prems(3) cmp_sym cmp_trans by blast
    then show ?thesis
      using Cons False by (simp add: apart_def)
  qed (use Cons.prems in simp)
qed simp

end

interpretation nsap: addr_cmp N_sapAddrCmp
proof
  fix a b c :: N_SapAddr
  assume "N_sapAddrCmp a b = 0"
  then show "N_sapAddrCmp b a = 0"
    by (auto simp: N_sapAddrCmp_def OS_memCmp_def BS_memCmp_loop_sym split: if_splits)
  assume "N_sapAddrCmp b c = 0"
  with \<open>N_sapAddrCmp a b = 0\<close> show "N_sapAddrCmp a c = 0"
    by (auto simp: N_sapAddrCmp_def OS_memCmp_def intro: BS_memCmp_loop_trans split: if_splits)
qed

lemma BS_OS_memCmp: "0 \<le> n \<Longrightarrow> BS_memCmp a b n = OS_memCmp a b n"
  by (simp add: BS_memCmp_def OS_memCmp_def)

end
