(* ===== verification/Erop_State.thy ===== *)
theory Erop_State
  imports Qu Du Fsm Sch Tmr Sap
begin

text \<open>
  The state of the ESROS engine (RFC 2188, \<^verbatim>\<open>src/esros/erop_eng\<close>): the structures of
  \<^verbatim>\<open>invoke.h\<close>, \<^verbatim>\<open>erop_sap.h\<close>, \<^verbatim>\<open>eropfsm.h\<close>, \<^verbatim>\<open>eropdu.h\<close> and
  \<^verbatim>\<open>tmr_if.h\<close>, the global variables, and the primitives in which the handlers are written.
  A handler is a program of the state monad over \<open>est\<close>. Every update goes through \<open>upd\<close>, which
  does nothing once the process has died (\<^verbatim>\<open>abort\<close>, \<^verbatim>\<open>EH_fatal\<close>): a dead state is
  frozen.
\<close>

section \<open>Data\<close>

text \<open>The states of the four machines and their diagrams.\<close>

datatype fsmst =
    lsfsm_sCLInvokerStart | lsfsm_sInvokePduSent | lsfsm_sAckPduSent | lsfsm_sInvokerRefWait
  | lsfsm_s2CLInvokerStart | lsfsm_s2InvokePduSent | lsfsm_s2InvokerRefWait
  | lsfsm_sCLPerformerStart | lsfsm_sInvokePduReceived | lsfsm_sAckPduWait | lsfsm_sPerformerRefWait
  | lsfsm_s2CLPerformerStart | lsfsm_s2InvokePduReceived | lsfsm_s2ResultPduRetrans
  | lsfsm_s2PerformerRefWait

datatype diagram =
    CLInvokerTransDiag | D2CLInvokerTransDiag | CLPerformerTransDiag | D2CLPerformerTransDiag

text \<open>\<^verbatim>\<open>InvokeInfo\<close>; the timer queue holds the timers' addresses with their names.\<close>

record invokeInfo =
  transDiag :: "diagram option"
  curState :: "fsmst option"
  performingNotInvoking :: bool
  locSap :: ptr
  userInvokeRef :: nat
  remEsroSapSel :: u8
  remTsapSel :: T_SapSel
  remNsapAddr :: N_SapAddr
  operationValue :: int
  encodingType :: int
  errorValue :: int
  failureReason :: int
  invokeRefNu :: int
  retransTimeout :: int
  refKeepTime :: int
  rwait :: int
  inactivityDelay :: int
  perfNoResponse :: int
  invokePduSeq :: "ptr list"
  resultPduSeq :: "ptr list"
  nuOfRetrans :: int
  isResultNotError :: bool
  tmrQu :: "(ptr \<times> int) list"

record sapInfo =
  sapSel :: u8
  functionalUnit :: int
  invokeSeq :: "ptr list"

record tmrData =
  td_invoke :: ptr
  td_name :: int
  td_data :: int

abbreviation (input) erop_allTimer :: int where "erop_allTimer \<equiv> - 1"
abbreviation (input) erop_invokePduRetranTimer :: int where "erop_invokePduRetranTimer \<equiv> 1"
abbreviation (input) erop_resultPduRetranTimer :: int where "erop_resultPduRetranTimer \<equiv> 2"
abbreviation (input) erop_lastTimer :: int where "erop_lastTimer \<equiv> 3"
abbreviation (input) erop_inactivityTimer :: int where "erop_inactivityTimer \<equiv> 4"
abbreviation (input) erop_refNuTimer :: int where "erop_refNuTimer \<equiv> 5"
abbreviation (input) erop_perfNoResponseTimer :: int where "erop_perfNoResponseTimer \<equiv> 7"

abbreviation (input) INVOKE_PDU :: int where "INVOKE_PDU \<equiv> 0"
abbreviation (input) RESULT_PDU :: int where "RESULT_PDU \<equiv> 1"
abbreviation (input) ERROR_PDU :: int where "ERROR_PDU \<equiv> 2"
abbreviation (input) ACK_PDU :: int where "ACK_PDU \<equiv> 3"
abbreviation (input) FAILURE_PDU :: int where "FAILURE_PDU \<equiv> 4"

abbreviation (input) ESRO_FailureTransmission :: int where "ESRO_FailureTransmission \<equiv> 0"
abbreviation (input) ESRO_FailureLocResource :: int where "ESRO_FailureLocResource \<equiv> 1"
abbreviation (input) ESRO_FailureUserNotResponding :: int where "ESRO_FailureUserNotResponding \<equiv> 2"

abbreviation (input) ESRO_2Way :: int where "ESRO_2Way \<equiv> 2"
abbreviation (input) ESRO_3Way :: int where "ESRO_3Way \<equiv> 3"
abbreviation (input) ESRO_MAX_SAP_NO :: u8 where "ESRO_MAX_SAP_NO \<equiv> 15"
abbreviation (input) NREFS :: int where "NREFS \<equiv> 256"

abbreviation (input) lsfsm_EvtInvokeReq :: int where "lsfsm_EvtInvokeReq \<equiv> 2"
abbreviation (input) lsfsm_EvtResultReq :: int where "lsfsm_EvtResultReq \<equiv> 4"
abbreviation (input) lsfsm_EvtPduInvoke :: int where "lsfsm_EvtPduInvoke \<equiv> 6"
abbreviation (input) lsfsm_EvtPduResult :: int where "lsfsm_EvtPduResult \<equiv> 7"
abbreviation (input) lsfsm_EvtPduAck :: int where "lsfsm_EvtPduAck \<equiv> 8"
abbreviation (input) lsfsm_EvtPduFailure :: int where "lsfsm_EvtPduFailure \<equiv> 9"
abbreviation (input) lsfsm_EvtInvokePduRetranTimer :: int where "lsfsm_EvtInvokePduRetranTimer \<equiv> 11"
abbreviation (input) lsfsm_EvtResultPduRetranTimer :: int where "lsfsm_EvtResultPduRetranTimer \<equiv> 12"
abbreviation (input) lsfsm_EvtRefNuTimer :: int where "lsfsm_EvtRefNuTimer \<equiv> 13"
abbreviation (input) lsfsm_EvtInactivityTimer :: int where "lsfsm_EvtInactivityTimer \<equiv> 14"
abbreviation (input) lsfsm_EvtLastTimer :: int where "lsfsm_EvtLastTimer \<equiv> 15"
abbreviation (input) lsfsm_EvtPerfNoResponseTimer :: int where "lsfsm_EvtPerfNoResponseTimer \<equiv> 16"

text \<open>
  \<^verbatim>\<open>FSM_evtInfo\<close>. The members of the union are separate here: every handler reads the member
  its event has written. \<^verbatim>\<open>resultReq\<close> and \<^verbatim>\<open>errorReq\<close> share their first three fields.
\<close>

record evtInfo =
  ir_userInvokeRef :: nat
  ir_remESROSap :: u8
  ir_remTsap :: T_SapSel
  ir_remNsap :: N_SapAddr
  ir_opValue :: int
  ir_encodingType :: int
  ir_parameter :: ptr
  rr_isResultNotError :: bool
  rr_userInvokeRef :: nat
  rr_encodingType :: int
  rr_parameter :: ptr
  er_errorValue :: int
  er_parameter :: ptr
  ti_name :: int
  ti_datum :: int

text \<open>The global \<^verbatim>\<open>erop_pdu\<close>: the PDU being received.\<close>

record pdu =
  pd_data :: ptr
  pd_pdutype :: int
  pd_badpdu :: bool
  pd_operationValue :: int
  pd_invokeRefNu :: int
  pd_encodingType :: int
  pd_fromESROSap :: u8
  pd_toESROSap :: u8
  pd_fromTsapSel :: T_SapSel
  pd_fromNsapAddr :: N_SapAddr
  pd_errorValue :: int
  pd_failureValue :: int

record erop_refs =
  totalRefNumbers :: int
  refBase :: int
  newRef :: int
  refToInvokerMap :: "int \<Rightarrow> ptr list"
  refToPerformerMap :: "int \<Rightarrow> ptr list"
  ref_virgin :: bool

text \<open>
  The functions that are scheduled, with their argument blocks. The addresses in the block of an
  invoke indication are those of fields of the invocation, read when the task runs.
\<close>

datatype task =
    erop_scheduledInvokeIndT ptr u8 u8 int int ptr
  | erop_scheduledResultIndT ptr nat int ptr
  | erop_scheduledErrorIndT ptr nat int int ptr
  | erop_scheduledResultCnfT ptr nat
  | erop_scheduledErrorCnfT ptr nat
  | erop_scheduledFailureIndT ptr nat int
  | erop_relInvokeT ptr
  | udp_receiveT

text \<open>The calls into the user's functions of \<^verbatim>\<open>SapInfo\<close>, with their arguments by position.\<close>

datatype upcall =
    UinvokeInd u8 u8 T_SapSel N_SapAddr ptr int int ptr
  | UresultInd ptr nat int ptr
  | UerrorInd ptr nat int int ptr
  | UresultCnf ptr nat
  | UerrorCnf ptr nat
  | UfailureInd ptr nat int

datatype nm_counter =
    erop_pduSentCounter | erop_completeOperationCounter | erop_invokePduRetranCounter
  | erop_pduRetranCounter | erop_opRefusedCounter | erop_badAddrCounter | erop_udpSduSentCounter

text \<open>
  What the outside decides: which calls of \<^verbatim>\<open>malloc\<close> and \<^verbatim>\<open>sendto\<close> fail, the clock,
  the contents of memory that \<^verbatim>\<open>malloc\<close> delivers, and what the calls of
  \<^verbatim>\<open>recvfrom\<close> deliver (\<^term>\<open>None\<close> for an error). What the outside sees: the datagrams
  passed to \<^verbatim>\<open>sendto\<close> (with whether it took them), the calls into the user, and the calls of
  \<^verbatim>\<open>erop_freeLopsInvoke\<close>.
\<close>

record env =
  memFail :: "nat \<Rightarrow> bool"
  memCount :: nat
  sendFail :: "nat \<Rightarrow> bool"
  sendCount :: nat
  osClock :: "u32 option"
  junk :: "nat \<Rightarrow> invokeInfo"
  inbox :: "(T_SapSel \<times> N_SapAddr \<times> u8 list) option list"
  sent :: "(T_SapSel \<times> N_SapAddr \<times> u8 list \<times> bool) list"
  upcalls :: "upcall list"
  lopsFreed :: "ptr list"

text \<open>
  The configuration: \<^verbatim>\<open>timerValue\<close>, \<^verbatim>\<open>retransmitCount\<close> and the variables of
  \<^verbatim>\<open>erop_cfg.c\<close>, and whether the engine is compiled with \<^verbatim>\<open>NO_UPSHELL\<close>.
\<close>

record cfg =
  udpSapSel :: int
  nuOfSaps :: int
  nuOfInvokes :: int
  invokePduSize :: int
  tv_acknowledgment :: int
  tv_roundtrip :: int
  tv_retransmit :: int
  tv_maxNSDULifeTime :: int
  retransmitCount :: int
  noUpshell :: bool
  dropResultConfirm :: bool

record est =
  e_du :: du_state
  e_pool :: ptr
  e_sch :: "task sch"
  e_timerQ :: "tmrData timerQ"
  e_invoke :: "ptr \<Rightarrow> invokeInfo"
  e_live :: "ptr set"
  e_sap :: "ptr \<Rightarrow> sapInfo"
  e_sapSeq :: "ptr list"
  e_refs :: erop_refs
  e_evt :: evtInfo
  e_pdu :: pdu
  e_next :: ptr
  e_nm :: "nm_counter \<Rightarrow> int"
  e_cfg :: cfg
  e_env :: env
  e_sock :: int
  e_aborted :: bool

type_synonym 'a eprog = "(est, 'a) state"


section \<open>Primitives\<close>

definition upd :: "(est \<Rightarrow> est) \<Rightarrow> unit eprog" where
  "upd f = modify (\<lambda>s. if e_aborted s then s else f s)"

definition upd_invoke :: "ptr \<Rightarrow> (invokeInfo \<Rightarrow> invokeInfo) \<Rightarrow> unit eprog" where
  "upd_invoke i f = upd (\<lambda>s. s\<lparr>e_invoke := (e_invoke s)(i := f (e_invoke s i))\<rparr>)"

definition upd_sap :: "ptr \<Rightarrow> (sapInfo \<Rightarrow> sapInfo) \<Rightarrow> unit eprog" where
  "upd_sap p f = upd (\<lambda>s. s\<lparr>e_sap := (e_sap s)(p := f (e_sap s p))\<rparr>)"

definition upd_du :: "(du_state \<Rightarrow> du_state) \<Rightarrow> unit eprog" where
  "upd_du f = upd (\<lambda>s. s\<lparr>e_du := f (e_du s)\<rparr>)"

definition upd_sch :: "(task sch \<Rightarrow> task sch) \<Rightarrow> unit eprog" where
  "upd_sch f = upd (\<lambda>s. s\<lparr>e_sch := f (e_sch s)\<rparr>)"

definition upd_timerQ :: "(tmrData timerQ \<Rightarrow> tmrData timerQ) \<Rightarrow> unit eprog" where
  "upd_timerQ f = upd (\<lambda>s. s\<lparr>e_timerQ := f (e_timerQ s)\<rparr>)"

definition upd_refs :: "(erop_refs \<Rightarrow> erop_refs) \<Rightarrow> unit eprog" where
  "upd_refs f = upd (\<lambda>s. s\<lparr>e_refs := f (e_refs s)\<rparr>)"

definition upd_evt :: "(evtInfo \<Rightarrow> evtInfo) \<Rightarrow> unit eprog" where
  "upd_evt f = upd (\<lambda>s. s\<lparr>e_evt := f (e_evt s)\<rparr>)"

definition upd_pdu :: "(pdu \<Rightarrow> pdu) \<Rightarrow> unit eprog" where
  "upd_pdu f = upd (\<lambda>s. s\<lparr>e_pdu := f (e_pdu s)\<rparr>)"

definition upd_env :: "(env \<Rightarrow> env) \<Rightarrow> unit eprog" where
  "upd_env f = upd (\<lambda>s. s\<lparr>e_env := f (e_env s)\<rparr>)"

definition die :: "unit eprog" where
  "die = upd (\<lambda>s. s\<lparr>e_aborted := True\<rparr>)"

definition getInvoke :: "ptr \<Rightarrow> (invokeInfo \<Rightarrow> 'a) \<Rightarrow> 'a eprog" where
  "getInvoke i f = gets (\<lambda>s. f (e_invoke s i))"

definition getEvt :: "(evtInfo \<Rightarrow> 'a) \<Rightarrow> 'a eprog" where
  "getEvt f = gets (\<lambda>s. f (e_evt s))"

definition getPdu :: "(pdu \<Rightarrow> 'a) \<Rightarrow> 'a eprog" where
  "getPdu f = gets (\<lambda>s. f (e_pdu s))"

definition getCfg :: "(cfg \<Rightarrow> 'a) \<Rightarrow> 'a eprog" where
  "getCfg f = gets (\<lambda>s. f (e_cfg s))"

text \<open>\<^verbatim>\<open>SF_memGet\<close> is \<^verbatim>\<open>malloc\<close>: whether it delivers memory.\<close>

definition SF_memGet :: "bool eprog" where
  "SF_memGet = do {
     ok \<leftarrow> gets (\<lambda>s. \<not> memFail (e_env s) (memCount (e_env s)));
     upd_env (\<lambda>e. e\<lparr>memCount := memCount e + 1\<rparr>);
     return ok
   }"

text \<open>A fresh address for a structure just allocated; addresses are not used again.\<close>

definition newPtr :: "ptr eprog" where
  "newPtr = do {
     p \<leftarrow> gets e_next;
     upd (\<lambda>s. s\<lparr>e_next := e_next s + 1\<rparr>);
     return p
   }"

text \<open>
  \<^verbatim>\<open>SEQ_elemObtain\<close> for the dynamic pools the engine uses: \<^verbatim>\<open>EH_fatal\<close> when
  \<^verbatim>\<open>malloc\<close> fails.
\<close>

definition SEQ_elemObtain :: "ptr eprog" where
  "SEQ_elemObtain = do {
     ok \<leftarrow> SF_memGet;
     if ok then newPtr else do { die; return NULL }
   }"

definition NM_incCounter :: "nm_counter \<Rightarrow> int \<Rightarrow> unit eprog" where
  "NM_incCounter c increment = upd (\<lambda>s. s\<lparr>e_nm := (e_nm s)(c := e_nm s c + increment)\<rparr>)"

text \<open>The operations of the data unit and scheduler modules on the engine's state.\<close>

definition du_alloc :: "int \<Rightarrow> ptr eprog" where
  "du_alloc n = do {
     v \<leftarrow> gets (\<lambda>s. fst (DU_alloc (e_pool s) n (e_du s)));
     upd (\<lambda>s. s\<lparr>e_du := snd (DU_alloc (e_pool s) n (e_du s))\<rparr>);
     return v
   }"

definition du_free :: "ptr \<Rightarrow> unit eprog" where
  "du_free v = upd_du (DU_free v)"

definition du_link :: "ptr \<Rightarrow> ptr eprog" where
  "du_link v = do {
     w \<leftarrow> gets (\<lambda>s. fst (DU_link v (e_du s)));
     upd_du (\<lambda>d. snd (DU_link v d));
     return w
   }"

definition du_size :: "ptr \<Rightarrow> int eprog" where
  "du_size v = gets (\<lambda>s. DU_size v (e_du s))"

definition sch_submit :: "task \<Rightarrow> int \<Rightarrow> int eprog" where
  "sch_submit t event = do {
     upd (\<lambda>s. case SCH_submit t event (e_sch s) of
                None \<Rightarrow> s\<lparr>e_aborted := True\<rparr>
              | Some q \<Rightarrow> s\<lparr>e_sch := q\<rparr>);
     return SUCCESS
   }"

text \<open>
  \<^verbatim>\<open>UDP_dataReq\<close> (\<^verbatim>\<open>udp_if.c\<close>) on the engine's socket: \<^verbatim>\<open>sendto\<close> with the
  octets of the view.
\<close>

definition UDP_dataReq :: "T_SapSel \<Rightarrow> N_SapAddr \<Rightarrow> ptr \<Rightarrow> int eprog" where
  "UDP_dataReq tsap nsap udpSdu =
     (if udpSdu = NULL then return FAIL
      else do {
        ok \<leftarrow> gets (\<lambda>s. \<not> sendFail (e_env s) (sendCount (e_env s)));
        upd (\<lambda>s. s\<lparr>e_env := (e_env s)\<lparr>sendCount := sendCount (e_env s) + 1,
                     sent := sent (e_env s) @
                       [(tsap, nsap, DU_bytes udpSdu (e_du s), ok)]\<rparr>\<rparr>);
        if \<not> ok then return FAIL
        else do {
          NM_incCounter erop_udpSduSentCounter 1;
          return SUCCESS
        }
      })"

lemmas upd_defs = upd_invoke_def upd_sap_def upd_du_def upd_sch_def upd_timerQ_def upd_refs_def
  upd_evt_def upd_pdu_def upd_env_def die_def

lemmas get_defs = getInvoke_def getEvt_def getPdu_def getCfg_def du_size_def

lemma exec_upd [simp]: "exec (upd f) s = (if e_aborted s then s else f s)"
  by (simp add: upd_def run_simps)

lemma result_upd [simp]: "result (upd f) s = ()"
  by simp

text \<open>Running a program in a state that is not dead.\<close>

lemmas est_run = run_simps upd_defs get_defs

lemma keeps_upd: "(\<And>s. \<not> e_aborted s \<Longrightarrow> P s \<Longrightarrow> P (f s)) \<Longrightarrow> keeps P (upd f)"
  by (simp add: keeps_def)

end
