(* ===== verification/Erop_Ref.thy ===== *)
theory Erop_Ref
  imports Erop_State
begin

text \<open>
  Invoke reference numbers, \<^verbatim>\<open>erop_refInit\<close> to \<^verbatim>\<open>erop_refFree\<close> of
  \<^verbatim>\<open>esros/erop_eng/invoke.c\<close>. For each number there is a queue of the invocations that use
  it, one table for the local invoker machines and one for the performers; within a queue the
  invocations differ in the network address of the peer. \<open>ref_table\<close> is the interface of such
  a table, interpreted on both.
\<close>

section \<open>The functions\<close>

text \<open>
  \<open>minSec\<close> is what \<^verbatim>\<open>OS_timeMinSec\<close> returns, \<open>m1\<close> and \<open>m2\<close> whether the tables could
  be allocated.
\<close>

definition erop_refInit :: "int \<Rightarrow> int \<Rightarrow> bool \<Rightarrow> bool \<Rightarrow> erop_refs \<Rightarrow> int \<times> erop_refs" where
  "erop_refInit totalRefs minSec m1 m2 t =
     (if \<not> ref_virgin t then (- 2, t)
      else
        let t1 = t\<lparr>ref_virgin := False\<rparr> in
        if totalRefs \<le> 0 then (FAIL, t1)
        else
          let t2 = t1\<lparr>totalRefNumbers := totalRefs\<rparr>;
              t3 = t2\<lparr>refBase := - totalRefs\<rparr>;
              t4 = t3\<lparr>newRef := minSec mod 65536\<rparr>;
              t5 = t4\<lparr>newRef := newRef t4 mod 900\<rparr>;
              t6 = t5\<lparr>newRef := newRef t5 div 4\<rparr>
          in if \<not> m1 \<or> \<not> m2 then (FAIL, t6)
             else (SUCCESS, t6\<lparr>refToInvokerMap := (\<lambda>_. []), refToPerformerMap := (\<lambda>_. []),
                               refBase := refBase t6 + totalRefs\<rparr>))"

text \<open>The walk along a queue of the table, for an entry with the given address.\<close>

definition refSearch :: "(ptr \<Rightarrow> N_SapAddr) \<Rightarrow> N_SapAddr \<Rightarrow> ptr list \<Rightarrow> ptr option" where
  "refSearch adr a q = find (\<lambda>y. N_sapAddrCmp (adr y) a = 0) q"

text \<open>\<^verbatim>\<open>newRef\<close> is an \<^verbatim>\<open>unsigned short\<close>.\<close>

definition refStep :: "erop_refs \<Rightarrow> int" where
  "refStep t = (let n = (newRef t + 1) mod 65536 in if n \<ge> totalRefNumbers t then 0 else n)"

primrec refNew_loop :: "nat \<Rightarrow> (ptr \<Rightarrow> N_SapAddr) \<Rightarrow> ptr \<Rightarrow> erop_refs \<Rightarrow> int \<times> erop_refs" where
  "refNew_loop 0 adr i t = (- 1, t)"
| "refNew_loop (Suc n) adr i t =
     (let r = refStep t; t1 = t\<lparr>newRef := r\<rparr> in
      case refSearch adr (adr i) (refToInvokerMap t1 r) of
        None \<Rightarrow> (to_short (r + refBase t1),
                 t1\<lparr>refToInvokerMap := (refToInvokerMap t1)(r := refToInvokerMap t1 r @ [i])\<rparr>)
      | Some _ \<Rightarrow> refNew_loop n adr i t1)"

definition refNew :: "(ptr \<Rightarrow> N_SapAddr) \<Rightarrow> ptr \<Rightarrow> erop_refs \<Rightarrow> int \<times> erop_refs" where
  "refNew adr i t = refNew_loop (nat (totalRefNumbers t)) adr i t"

definition erop_refNew :: "ptr \<Rightarrow> int eprog" where
  "erop_refNew invoke = do {
     performing \<leftarrow> getInvoke invoke performingNotInvoking;
     if performing then return FAIL
     else do {
       r \<leftarrow> gets (\<lambda>s. fst (refNew (\<lambda>j. remNsapAddr (e_invoke s j)) invoke (e_refs s)));
       upd (\<lambda>s. s\<lparr>e_refs := snd (refNew (\<lambda>j. remNsapAddr (e_invoke s j)) invoke (e_refs s))\<rparr>);
       return r
     }
   }"

definition refValid :: "erop_refs \<Rightarrow> int \<Rightarrow> bool" where
  "refValid t r \<longleftrightarrow> r \<ge> refBase t \<and> r < refBase t + totalRefNumbers t"

definition refKeep :: "(ptr \<Rightarrow> N_SapAddr) \<Rightarrow> int \<Rightarrow> ptr \<Rightarrow> erop_refs \<Rightarrow> int \<times> erop_refs" where
  "refKeep adr r i t =
     (if refValid t r then
        (case refSearch adr (adr i) (refToPerformerMap t r) of
           Some _ \<Rightarrow> (FAIL, t)
         | None \<Rightarrow> (SUCCESS,
             t\<lparr>refToPerformerMap := (refToPerformerMap t)(r := refToPerformerMap t r @ [i])\<rparr>))
      else (FAIL, t))"

definition erop_refKeep :: "int \<Rightarrow> ptr \<Rightarrow> int eprog" where
  "erop_refKeep refNu invoke = do {
     performing \<leftarrow> getInvoke invoke performingNotInvoking;
     if \<not> performing then return FAIL
     else do {
       rc \<leftarrow> gets (\<lambda>s. fst (refKeep (\<lambda>j. remNsapAddr (e_invoke s j)) refNu invoke (e_refs s)));
       upd (\<lambda>s. s\<lparr>e_refs := snd (refKeep (\<lambda>j. remNsapAddr (e_invoke s j)) refNu invoke (e_refs s))\<rparr>);
       return rc
     }
   }"

text \<open>The argument of the lookups is an \<^verbatim>\<open>unsigned short\<close>.\<close>

definition refToPerformer :: "(ptr \<Rightarrow> N_SapAddr) \<Rightarrow> erop_refs \<Rightarrow> int \<Rightarrow> N_SapAddr \<Rightarrow> ptr" where
  "refToPerformer adr t refNu nSapAddr =
     (let r = refNu mod 65536 in
      if refValid t r then
        (case refSearch adr nSapAddr (refToPerformerMap t r) of Some i \<Rightarrow> i | None \<Rightarrow> NULL)
      else NULL)"

definition refToInvoker :: "(ptr \<Rightarrow> N_SapAddr) \<Rightarrow> erop_refs \<Rightarrow> int \<Rightarrow> N_SapAddr \<Rightarrow> ptr" where
  "refToInvoker adr t refNu nSapAddr =
     (let r = refNu mod 65536 in
      if refValid t r then
        (case refSearch adr nSapAddr (refToInvokerMap t r) of Some i \<Rightarrow> i | None \<Rightarrow> NULL)
      else NULL)"

definition erop_refToPerformer :: "int \<Rightarrow> N_SapAddr \<Rightarrow> ptr eprog" where
  "erop_refToPerformer refNu nSapAddr =
     gets (\<lambda>s. refToPerformer (\<lambda>j. remNsapAddr (e_invoke s j)) (e_refs s) refNu nSapAddr)"

definition erop_refToInvoker :: "int \<Rightarrow> N_SapAddr \<Rightarrow> ptr eprog" where
  "erop_refToInvoker refNu nSapAddr =
     gets (\<lambda>s. refToInvoker (\<lambda>j. remNsapAddr (e_invoke s j)) (e_refs s) refNu nSapAddr)"

text \<open>\<^verbatim>\<open>QU_REMOVE(&invoke->refMap)\<close>: out of whichever queue it is on.\<close>

definition refFree :: "ptr \<Rightarrow> erop_refs \<Rightarrow> erop_refs" where
  "refFree i t = t\<lparr>refToInvokerMap := (\<lambda>r. removeAll i (refToInvokerMap t r)),
                  refToPerformerMap := (\<lambda>r. removeAll i (refToPerformerMap t r))\<rparr>"

definition erop_refFree :: "ptr \<Rightarrow> unit eprog" where
  "erop_refFree invoke = upd_refs (refFree invoke)"


section \<open>The interface of a table\<close>

locale ref_table =
  fixes slot :: "'t \<Rightarrow> int \<Rightarrow> ptr list"
    and enter :: "int \<Rightarrow> ptr \<Rightarrow> 't \<Rightarrow> 't"
    and lookup :: "(ptr \<Rightarrow> N_SapAddr) \<Rightarrow> 't \<Rightarrow> int \<Rightarrow> N_SapAddr \<Rightarrow> ptr"
    and release :: "ptr \<Rightarrow> 't \<Rightarrow> 't"
    and valid :: "'t \<Rightarrow> int \<Rightarrow> bool"
  assumes slot_enter: "slot (enter r i t) r' = (if r' = r then slot t r @ [i] else slot t r')"
    and slot_release: "slot (release i t) r = removeAll i (slot t r)"
    and valid_enter: "valid (enter r i t) = valid t"
    and valid_release: "valid (release i t) = valid t"
    and lookup: "valid t r \<Longrightarrow> lookup adr t r a =
      (case refSearch adr a (slot t r) of Some i \<Rightarrow> i | None \<Rightarrow> NULL)"
begin

text \<open>In every queue the peers' addresses are pairwise different.\<close>

definition unique :: "(ptr \<Rightarrow> N_SapAddr) \<Rightarrow> 't \<Rightarrow> bool" where
  "unique adr t \<longleftrightarrow> (\<forall>r. nsap.apart adr (slot t r))"

lemma unique_enter:
  assumes "unique adr t" "refSearch adr (adr i) (slot t r) = None"
  shows "unique adr (enter r i t)"
proof -
  have "\<forall>y\<in>set (slot t r). N_sapAddrCmp (adr i) (adr y) \<noteq> 0"
    using assms(2) nsap.cmp_sym by (fastforce simp: refSearch_def find_None_iff)
  then have "nsap.apart adr (slot t r @ [i])"
    using assms(1) by (intro nsap.apart_snoc) (auto simp: unique_def)
  then show ?thesis
    using assms(1) by (simp add: unique_def slot_enter)
qed

lemma unique_release: "unique adr t \<Longrightarrow> unique adr (release i t)"
  by (simp add: unique_def slot_release removeAll_filter_not_eq nsap.apart_filter)

lemma unique_cong:
  "(\<And>r i. i \<in> set (slot t r) \<Longrightarrow> adr i = adr' i) \<Longrightarrow> unique adr t = unique adr' t"
  unfolding unique_def using nsap.apart_cong by metis

lemma lookup_entered:
  assumes "unique adr t" "valid t r" "i \<in> set (slot t r)" "N_sapAddrCmp (adr i) a = 0"
  shows "lookup adr t r a = i"
  using nsap.find_apart [of adr "slot t r" i a] assms
  by (simp add: lookup unique_def refSearch_def)

lemma lookup_enter:
  assumes "unique adr t" "valid t r" "sel_len (adr i) \<noteq> 0"
    and "refSearch adr (adr i) (slot t r) = None"
  shows "lookup adr (enter r i t) r (adr i) = i"
  by (rule lookup_entered)
    (use assms unique_enter in \<open>auto simp: slot_enter valid_enter N_sapAddrCmp_refl\<close>)

lemma lookup_sound:
  assumes "valid t r" "lookup adr t r a = i" "i \<noteq> NULL"
  shows "i \<in> set (slot t r) \<and> N_sapAddrCmp (adr i) a = 0"
  using assms
  by (auto simp: lookup refSearch_def find_Some_iff split: option.splits)

lemma lookup_release:
  assumes "valid t r" "i \<noteq> NULL"
  shows "lookup adr (release i t) r a \<noteq> i"
  using assms lookup_sound [of "release i t" r adr a i] by (auto simp: valid_release slot_release)

end

lemma refSearch_cong:
  "(\<And>y. y \<in> set q \<Longrightarrow> adr y = adr' y) \<Longrightarrow> refSearch adr a q = refSearch adr' a q"
  unfolding refSearch_def by (induction q) auto

definition enterInvoker :: "int \<Rightarrow> ptr \<Rightarrow> erop_refs \<Rightarrow> erop_refs" where
  "enterInvoker r i t = t\<lparr>refToInvokerMap := (refToInvokerMap t)(r := refToInvokerMap t r @ [i])\<rparr>"

definition enterPerformer :: "int \<Rightarrow> ptr \<Rightarrow> erop_refs \<Rightarrow> erop_refs" where
  "enterPerformer r i t = t\<lparr>refToPerformerMap := (refToPerformerMap t)(r := refToPerformerMap t r @ [i])\<rparr>"

text \<open>The numbers a table can hold and a lookup can name.\<close>

definition refNu_ok :: "erop_refs \<Rightarrow> int \<Rightarrow> bool" where
  "refNu_ok t r \<longleftrightarrow> refValid t r \<and> 0 \<le> r \<and> r < 65536"

interpretation invoker: ref_table refToInvokerMap enterInvoker refToInvoker refFree refNu_ok
  by unfold_locales
    (auto simp: enterInvoker_def refFree_def refNu_ok_def refValid_def refToInvoker_def Let_def fun_eq_iff)

interpretation performer: ref_table refToPerformerMap enterPerformer refToPerformer refFree refNu_ok
  by unfold_locales
    (auto simp: enterPerformer_def refFree_def refNu_ok_def refValid_def refToPerformer_def Let_def fun_eq_iff)



section \<open>Allocation\<close>

text \<open>
  \<open>refs_wf\<close>: the tables have been initialised for between 1 and 32768 numbers, the base is 0 (as
  \<^verbatim>\<open>erop_refInit\<close> leaves it) and \<^verbatim>\<open>newRef\<close> is one of the numbers.
\<close>

definition refs_wf :: "erop_refs \<Rightarrow> bool" where
  "refs_wf t \<longleftrightarrow> 0 < totalRefNumbers t \<and> totalRefNumbers t \<le> 32768 \<and> refBase t = 0 \<and>
     0 \<le> newRef t \<and> newRef t < totalRefNumbers t"

lemma erop_refInit_wf:
  assumes "ref_virgin t" "225 \<le> n" "n \<le> 32768"
  shows "fst (erop_refInit n ms True True t) = SUCCESS" "refs_wf (snd (erop_refInit n ms True True t))"
    "refToInvokerMap (snd (erop_refInit n ms True True t)) = (\<lambda>_. [])"
    "refToPerformerMap (snd (erop_refInit n ms True True t)) = (\<lambda>_. [])"
proof -
  have "ms mod 65536 mod 900 div 4 < 225" "0 \<le> ms mod 65536 mod 900 div 4"
    by simp_all
  then show "fst (erop_refInit n ms True True t) = SUCCESS" "refs_wf (snd (erop_refInit n ms True True t))"
    "refToInvokerMap (snd (erop_refInit n ms True True t)) = (\<lambda>_. [])"
    "refToPerformerMap (snd (erop_refInit n ms True True t)) = (\<lambda>_. [])"
    using assms by (simp_all add: erop_refInit_def refs_wf_def Let_def)
qed

lemma refStep_mod:
  assumes "refs_wf t"
  shows "refStep t = (newRef t + 1) mod totalRefNumbers t"
proof (cases "newRef t + 1 < totalRefNumbers t")
  case True
  then show ?thesis using assms by (simp add: refStep_def refs_wf_def)
next
  case False
  then have "newRef t + 1 = totalRefNumbers t"
    using assms by (simp add: refs_wf_def)
  then show ?thesis using assms by (simp add: refStep_def refs_wf_def)
qed

text \<open>
  The numbers \<open>erop_refNew\<close> tries, in order: round robin from the one after \<^verbatim>\<open>newRef\<close>.
\<close>

definition refCands :: "erop_refs \<Rightarrow> nat \<Rightarrow> int list" where
  "refCands t n = map (\<lambda>k. (newRef t + int k) mod totalRefNumbers t) [1 ..< Suc n]"

lemma refCands_Suc:
  "refCands t (Suc n) = (newRef t + 1) mod totalRefNumbers t #
     refCands (t\<lparr>newRef := (newRef t + 1) mod totalRefNumbers t\<rparr>) n"
proof -
  have "[1 ..< Suc (Suc n)] = 1 # map Suc [1 ..< Suc n]"
    by (simp add: map_Suc_upt upt_conv_Cons del: upt_Suc)
  then show ?thesis
    by (simp add: refCands_def mod_simps add.assoc del: upt_Suc)
qed

definition refUnused :: "(ptr \<Rightarrow> N_SapAddr) \<Rightarrow> ptr \<Rightarrow> erop_refs \<Rightarrow> int \<Rightarrow> bool" where
  "refUnused adr i t r \<longleftrightarrow> refSearch adr (adr i) (refToInvokerMap t r) = None"

lemma refNew_loop_eq:
  assumes "refs_wf t"
  shows "refNew_loop n adr i t =
    (case find (refUnused adr i t) (refCands t n) of
       Some r \<Rightarrow> (to_short (r + refBase t), enterInvoker r i (t\<lparr>newRef := r\<rparr>))
     | None \<Rightarrow> (- 1, t\<lparr>newRef := (newRef t + int n) mod totalRefNumbers t\<rparr>))"
  using assms
proof (induction n arbitrary: t)
  case 0
  then show ?case by (simp add: refCands_def refs_wf_def)
next
  case (Suc n)
  define t1 where "t1 = t\<lparr>newRef := (newRef t + 1) mod totalRefNumbers t\<rparr>"
  have "refs_wf t1"
    using Suc.prems by (simp add: refs_wf_def t1_def)
  note IH = Suc.IH [OF this]
  have unused: "refUnused adr i t1 = refUnused adr i t"
    by (simp add: fun_eq_iff refUnused_def t1_def)
  have cands: "refCands t (Suc n) = newRef t1 # refCands t1 n"
    by (simp add: refCands_Suc t1_def)
  have shift: "(newRef t1 + int n) mod totalRefNumbers t1 = (newRef t + int (Suc n)) mod totalRefNumbers t"
    by (simp add: t1_def mod_simps add.assoc)
  show ?case
  proof (cases "refUnused adr i t (newRef t1)")
    case True
    then show ?thesis
      by (simp add: cands refStep_mod [OF Suc.prems] Let_def refUnused_def enterInvoker_def t1_def)
  next
    case False
    then have "refNew_loop (Suc n) adr i t = refNew_loop n adr i t1"
      by (auto simp: refStep_mod [OF Suc.prems] Let_def refUnused_def t1_def)
    then show ?thesis
      using False shift by (simp add: IH cands unused) (simp add: t1_def split: option.split)
  qed
qed

lemma set_refCands:
  assumes "refs_wf t"
  shows "set (refCands t (nat (totalRefNumbers t))) = {0 ..< totalRefNumbers t}"
proof -
  let ?T = "totalRefNumbers t"
  have T: "0 < ?T" using assms by (simp add: refs_wf_def)
  have "r \<in> set (refCands t (nat ?T))" if r: "0 \<le> r" "r < ?T" for r
  proof -
    define k where "k = (r - newRef t - 1) mod ?T + 1"
    have k: "1 \<le> k" "k \<le> ?T"
      using T by (simp_all add: k_def add1_zle_eq)
    have "(newRef t + k) mod ?T = ((newRef t + 1) + (r - newRef t - 1) mod ?T) mod ?T"
      by (simp add: k_def algebra_simps)
    also have "\<dots> = r"
      using r by (subst mod_add_right_eq) simp
    finally have "(newRef t + k) mod ?T = r" .
    then have "(newRef t + int (nat k)) mod ?T = r" "nat k \<in> set [1 ..< Suc (nat ?T)]"
      using k by auto
    then show ?thesis unfolding refCands_def by (metis (no_types, lifting) image_eqI list.set_map)
  qed
  then show ?thesis
    using T by (auto simp: refCands_def simp del: upt_Suc)
qed

lemma refNew_some:
  assumes wf: "refs_wf t" and r: "fst (refNew adr i t) \<noteq> - 1"
  shows "0 \<le> fst (refNew adr i t)" "fst (refNew adr i t) < totalRefNumbers t"
    "refUnused adr i t (fst (refNew adr i t))"
    "snd (refNew adr i t) =
      enterInvoker (fst (refNew adr i t)) i (t\<lparr>newRef := fst (refNew adr i t)\<rparr>)"
proof -
  obtain r where f: "find (refUnused adr i t) (refCands t (nat (totalRefNumbers t))) = Some r"
    using r refNew_loop_eq [OF wf] by (cases "find (refUnused adr i t) (refCands t (nat (totalRefNumbers t)))")
      (auto simp: refNew_def)
  have u: "refUnused adr i t r" "r \<in> set (refCands t (nat (totalRefNumbers t)))"
    using f unfolding find_Some_iff by auto
  then have b: "0 \<le> r" "r < totalRefNumbers t"
    using set_refCands [OF wf] by auto
  moreover have "to_short (r + refBase t) = r"
    using b wf by (simp add: refs_wf_def to_short_small)
  ultimately show "0 \<le> fst (refNew adr i t)" "fst (refNew adr i t) < totalRefNumbers t"
    "refUnused adr i t (fst (refNew adr i t))"
    "snd (refNew adr i t) =
      enterInvoker (fst (refNew adr i t)) i (t\<lparr>newRef := fst (refNew adr i t)\<rparr>)"
    using u by (simp_all add: refNew_def refNew_loop_eq [OF wf] f)
qed

lemma refNew_none_iff:
  assumes wf: "refs_wf t"
  shows "fst (refNew adr i t) = - 1 \<longleftrightarrow> (\<forall>r. 0 \<le> r \<and> r < totalRefNumbers t \<longrightarrow> \<not> refUnused adr i t r)"
proof (cases "fst (refNew adr i t) = - 1")
  case False
  then show ?thesis using refNew_some [OF wf False] by auto
next
  case True
  have "find (refUnused adr i t) (refCands t (nat (totalRefNumbers t))) = None"
  proof (rule ccontr)
    assume "find (refUnused adr i t) (refCands t (nat (totalRefNumbers t))) \<noteq> None"
    then obtain r where f: "find (refUnused adr i t) (refCands t (nat (totalRefNumbers t))) = Some r"
      by auto
    then have "r \<in> set (refCands t (nat (totalRefNumbers t)))"
      unfolding find_Some_iff by auto
    then have "0 \<le> r" "r < totalRefNumbers t"
      using set_refCands [OF wf] by auto
    then have "fst (refNew adr i t) \<ge> 0"
      using wf by (simp add: refNew_def refNew_loop_eq [OF wf] f refs_wf_def to_short_small)
    with True show False by simp
  qed
  then show ?thesis
    using True set_refCands [OF wf] unfolding find_None_iff by auto
qed

lemma refNew_wf: "refs_wf t \<Longrightarrow> refs_wf (snd (refNew adr i t))"
proof -
  assume wf: "refs_wf t"
  show ?thesis
  proof (cases "fst (refNew adr i t) = - 1")
    case False
    then show ?thesis
      using refNew_some [OF wf False] wf by (simp add: refs_wf_def enterInvoker_def)
  next
    case True
    then show ?thesis
      using wf to_short_small
      by (auto simp: refNew_def refNew_loop_eq [OF wf] refs_wf_def enterInvoker_def find_Some_iff refCands_def
          split: option.splits simp del: upt_Suc)
  qed
qed

lemma refKeep_cases:
  assumes "refValid t r"
  shows "refKeep adr r i t =
    (if refSearch adr (adr i) (refToPerformerMap t r) = None then (SUCCESS, enterPerformer r i t)
     else (FAIL, t))"
  using assms by (auto simp: refKeep_def enterPerformer_def split: option.split)

lemma refKeep_invalid: "\<not> refValid t r \<Longrightarrow> refKeep adr r i t = (FAIL, t)"
  by (simp add: refKeep_def)

end
