(* ===== verification/Erop_Keep.thy ===== *)
theory Erop_Keep
  imports Erop_Ref
begin

text \<open>
  The PDUs an invocation keeps for retransmission (\<^verbatim>\<open>keep.c\<close>), and the creation and
  release of an invocation (\<^verbatim>\<open>erop_invokeInfoCreate\<close>, \<^verbatim>\<open>erop_invokeInfoInit\<close>,
  \<^verbatim>\<open>erop_invokeInfoFree\<close>, \<^verbatim>\<open>erop_relInvoke\<close> of \<^verbatim>\<open>invoke.c\<close>). The lemmas give
  the effect of each operation, with the frame: what it leaves alone.
\<close>

section \<open>PDU sequences\<close>

text \<open>Which of the two sequences of an invocation a \<^verbatim>\<open>PduSeq\<close> pointer names.\<close>

datatype pduSel = InvokePduSeq | ResultPduSeq

fun pduSeq :: "pduSel \<Rightarrow> invokeInfo \<Rightarrow> ptr list" where
  "pduSeq InvokePduSeq i = invokePduSeq i"
| "pduSeq ResultPduSeq i = resultPduSeq i"

fun set_pduSeq :: "pduSel \<Rightarrow> ptr list \<Rightarrow> invokeInfo \<Rightarrow> invokeInfo" where
  "set_pduSeq InvokePduSeq q i = i\<lparr>invokePduSeq := q\<rparr>"
| "set_pduSeq ResultPduSeq q i = i\<lparr>resultPduSeq := q\<rparr>"

definition erop_pduSeqInit :: "ptr \<Rightarrow> pduSel \<Rightarrow> int eprog" where
  "erop_pduSeqInit invoke sel = do {
     upd_invoke invoke (set_pduSeq sel []);
     return SUCCESS
   }"

definition erop_relPdu :: "ptr \<Rightarrow> pduSel \<Rightarrow> int eprog" where
  "erop_relPdu invoke sel =
     (if invoke = NULL then return FAIL
      else do {
        q \<leftarrow> getInvoke invoke (pduSeq sel);
        case q of
          [] \<Rightarrow> return SUCCESS
        | sdu # rest \<Rightarrow> do {
            upd_invoke invoke (set_pduSeq sel rest);
            du_free sdu;
            return SUCCESS
          }
      })"

definition erop_relAllPdu :: "ptr \<Rightarrow> int eprog" where
  "erop_relAllPdu invoke =
     (if invoke = NULL then return FAIL
      else do {
        r1 \<leftarrow> erop_relPdu invoke InvokePduSeq;
        r2 \<leftarrow> erop_relPdu invoke ResultPduSeq;
        return (if r1 = FAIL \<or> r2 = FAIL then FAIL else SUCCESS)
      })"

definition erop_pduRetrieve :: "ptr \<Rightarrow> pduSel \<Rightarrow> ptr eprog" where
  "erop_pduRetrieve invoke sel = do {
     q \<leftarrow> getInvoke invoke (pduSeq sel);
     case q of
       [] \<Rightarrow> return NULL
     | sdu # _ \<Rightarrow> du_link sdu
   }"

definition erop_pduKeep :: "ptr \<Rightarrow> pduSel \<Rightarrow> ptr \<Rightarrow> unit eprog" where
  "erop_pduKeep invoke sel du = upd_invoke invoke (\<lambda>i. set_pduSeq sel (pduSeq sel i @ [du]) i)"


section \<open>Invocations\<close>

definition erop_invokeInfoInit :: "ptr \<Rightarrow> unit eprog" where
  "erop_invokeInfoInit invoke = do {
     upd_invoke invoke (\<lambda>i. i\<lparr>remNsapAddr := (remNsapAddr i)\<lparr>sel_len := 0\<rparr>\<rparr>);
     upd_invoke invoke (\<lambda>i. i\<lparr>remTsapSel := (remTsapSel i)\<lparr>sel_len := 0\<rparr>\<rparr>);
     upd_invoke invoke (\<lambda>i. i\<lparr>tmrQu := []\<rparr>);
     _ \<leftarrow> erop_pduSeqInit invoke InvokePduSeq;
     _ \<leftarrow> erop_pduSeqInit invoke ResultPduSeq;
     skip
   }"

text \<open>
  The memory of a new invocation holds whatever \<^verbatim>\<open>malloc\<close> left there. \<open>e_live\<close> is the set
  of the invocations that are allocated.
\<close>

definition erop_invokeInfoCreate :: "ptr \<Rightarrow> ptr eprog" where
  "erop_invokeInfoCreate sap = do {
     invoke \<leftarrow> SEQ_elemObtain;
     if invoke = NULL then return NULL
     else do {
       upd (\<lambda>s. s\<lparr>e_invoke := (e_invoke s)(invoke := junk (e_env s) invoke),
                  e_live := insert invoke (e_live s)\<rparr>);
       upd_sap sap (\<lambda>p. p\<lparr>invokeSeq := invokeSeq p @ [invoke]\<rparr>);
       upd_invoke invoke (\<lambda>i. i\<lparr>locSap := sap\<rparr>);
       erop_invokeInfoInit invoke;
       return invoke
     }
   }"

definition freeFirstPdu :: "ptr \<Rightarrow> pduSel \<Rightarrow> unit eprog" where
  "freeFirstPdu invoke sel = do {
     q \<leftarrow> getInvoke invoke (pduSeq sel);
     case q of
       [] \<Rightarrow> skip
     | du # rest \<Rightarrow> do {
         upd_invoke invoke (set_pduSeq sel rest);
         du_free du
       }
   }"

definition erop_invokeInfoFree :: "ptr \<Rightarrow> unit eprog" where
  "erop_invokeInfoFree invoke =
     (if invoke = NULL then skip
      else do {
        freeFirstPdu invoke InvokePduSeq;
        freeFirstPdu invoke ResultPduSeq;
        sap \<leftarrow> getInvoke invoke locSap;
        upd_sap sap (\<lambda>p. p\<lparr>invokeSeq := removeAll invoke (invokeSeq p)\<rparr>);
        upd (\<lambda>s. s\<lparr>e_live := e_live s - {invoke}\<rparr>)
      })"

definition erop_relInvoke :: "ptr \<Rightarrow> unit eprog" where
  "erop_relInvoke invoke = do {
     erop_refFree invoke;
     upd_env (\<lambda>e. e\<lparr>lopsFreed := lopsFreed e @ [invoke]\<rparr>);
     erop_invokeInfoFree invoke
   }"


section \<open>Effects\<close>

lemma pduSeq_set [simp]: "pduSeq sel (set_pduSeq sel q i) = q"
  by (cases sel) simp_all

lemma set_pduSeq_frame [simp]:
  "transDiag (set_pduSeq sel q i) = transDiag i" "curState (set_pduSeq sel q i) = curState i"
  "performingNotInvoking (set_pduSeq sel q i) = performingNotInvoking i"
  "locSap (set_pduSeq sel q i) = locSap i" "remNsapAddr (set_pduSeq sel q i) = remNsapAddr i"
  "invokeRefNu (set_pduSeq sel q i) = invokeRefNu i" "tmrQu (set_pduSeq sel q i) = tmrQu i"
  by (cases sel; simp)+

text \<open>Updates of one invocation, and of two parts in any order.\<close>

definition mod_invoke :: "ptr \<Rightarrow> (invokeInfo \<Rightarrow> invokeInfo) \<Rightarrow> est \<Rightarrow> est" where
  "mod_invoke i f s = s\<lparr>e_invoke := (e_invoke s)(i := f (e_invoke s i))\<rparr>"

lemma erop_relPdu_effect:
  assumes "\<not> e_aborted s" "invoke \<noteq> NULL"
  shows "result (erop_relPdu invoke sel) s = SUCCESS"
    and "exec (erop_relPdu invoke sel) s =
      (case pduSeq sel (e_invoke s invoke) of
         [] \<Rightarrow> s
       | sdu # rest \<Rightarrow> (mod_invoke invoke (set_pduSeq sel rest) s)\<lparr>e_du := DU_free sdu (e_du s)\<rparr>)"
  using assms
  by (auto simp: erop_relPdu_def est_run du_free_def mod_invoke_def split: list.split)

lemma erop_relPdu_null: "erop_relPdu NULL sel = return FAIL"
  by (simp add: erop_relPdu_def)

lemma erop_relAllPdu_result:
  "\<not> e_aborted s \<Longrightarrow> result (erop_relAllPdu invoke) s = (if invoke = NULL then FAIL else SUCCESS)"
proof -
  assume na: "\<not> e_aborted s"
  have "\<not> e_aborted (exec (erop_relPdu invoke InvokePduSeq) s)" if "invoke \<noteq> NULL"
    using na that by (auto simp: erop_relPdu_effect mod_invoke_def split: list.split)
  then show ?thesis
    using na by (auto simp: erop_relAllPdu_def run_simps erop_relPdu_effect)
qed

text \<open>
  A kept PDU stays at the head of its sequence while it is retransmitted: retrieving it gives a
  second view of the same octets.
\<close>

lemma erop_pduRetrieve_effect:
  assumes "\<not> e_aborted s"
  shows "result (erop_pduRetrieve invoke sel) s =
      (case pduSeq sel (e_invoke s invoke) of [] \<Rightarrow> NULL | sdu # _ \<Rightarrow> fst (DU_link sdu (e_du s)))"
    and "exec (erop_pduRetrieve invoke sel) s =
      (case pduSeq sel (e_invoke s invoke) of
         [] \<Rightarrow> s | sdu # _ \<Rightarrow> s\<lparr>e_du := snd (DU_link sdu (e_du s))\<rparr>)"
  using assms by (auto simp: erop_pduRetrieve_def est_run du_link_def split: list.split)

lemma erop_pduKeep_retrieve:
  assumes "\<not> e_aborted s" "pduSeq sel (e_invoke s invoke) = []"
  shows "result (erop_pduRetrieve invoke sel) (exec (erop_pduKeep invoke sel du) s) =
    fst (DU_link du (e_du s))"
  using assms by (simp add: erop_pduRetrieve_effect erop_pduKeep_def est_run)

lemma SEQ_elemObtain_effect:
  assumes "\<not> e_aborted s"
  shows "result SEQ_elemObtain s =
      (if memFail (e_env s) (memCount (e_env s)) then NULL else e_next s)"
    and "exec SEQ_elemObtain s =
      (let s1 = s\<lparr>e_env := (e_env s)\<lparr>memCount := memCount (e_env s) + 1\<rparr>\<rparr> in
       if memFail (e_env s) (memCount (e_env s)) then s1\<lparr>e_aborted := True\<rparr>
       else s1\<lparr>e_next := e_next s + 1\<rparr>)"
  using assms by (simp_all add: SEQ_elemObtain_def SF_memGet_def newPtr_def est_run Let_def)

lemma erop_invokeInfoCreate_effect:
  assumes "\<not> e_aborted s" "\<not> memFail (e_env s) (memCount (e_env s))" "e_next s \<noteq> NULL"
  shows "result (erop_invokeInfoCreate sap) s = e_next s"
    and "exec (erop_invokeInfoCreate sap) s =
      s\<lparr>e_env := (e_env s)\<lparr>memCount := memCount (e_env s) + 1\<rparr>,
        e_next := e_next s + 1,
        e_live := insert (e_next s) (e_live s),
        e_sap := (e_sap s)(sap := (e_sap s sap)\<lparr>invokeSeq := invokeSeq (e_sap s sap) @ [e_next s]\<rparr>),
        e_invoke := (e_invoke s)(e_next s :=
          (let i = junk (e_env s) (e_next s) in
           i\<lparr>locSap := sap, remNsapAddr := (remNsapAddr i)\<lparr>sel_len := 0\<rparr>,
             remTsapSel := (remTsapSel i)\<lparr>sel_len := 0\<rparr>, tmrQu := [],
             invokePduSeq := [], resultPduSeq := []\<rparr>))\<rparr>"
  using assms
  by (simp_all add: erop_invokeInfoCreate_def est_run SEQ_elemObtain_effect Let_def
      erop_invokeInfoInit_def erop_pduSeqInit_def)

end
