(* ===== verification/Erop_Tmr.thy ===== *)
theory Erop_Tmr
  imports Erop_Keep
begin

text \<open>
  The engine's interface to the timers (\<^verbatim>\<open>tmr_if.c\<close>). A timer of an invocation is in the
  queue of the timer module, with its \<^verbatim>\<open>TmrData\<close>, and in the invocation's own queue
  \<^verbatim>\<open>tmrQu\<close>, where it has its address and its name. The response to an expired timer,
  \<^verbatim>\<open>erop_timerRsp\<close>, runs the machine and is in theory Erop_Engine.
\<close>

section \<open>The functions\<close>

text \<open>The intervals; \<^verbatim>\<open>nuOfRetrans\<close> is a \<^verbatim>\<open>short\<close>.\<close>

definition erop_tmrSetValues :: "ptr \<Rightarrow> unit eprog" where
  "erop_tmrSetValues invoke = do {
     c \<leftarrow> getCfg id;
     upd_invoke invoke (\<lambda>i. i\<lparr>retransTimeout := tv_retransmit c + tv_roundtrip c\<rparr>);
     upd_invoke invoke (\<lambda>i. i\<lparr>rwait := 2 * (tv_acknowledgment c + tv_retransmit c)\<rparr>);
     upd_invoke invoke (\<lambda>i. i\<lparr>nuOfRetrans := to_short (retransmitCount c)\<rparr>);
     upd_invoke invoke (\<lambda>i. i\<lparr>refKeepTime := 2 * tv_maxNSDULifeTime c + nuOfRetrans i * tv_retransmit c\<rparr>);
     upd_invoke invoke (\<lambda>i. i\<lparr>inactivityDelay := 4 * tv_roundtrip c\<rparr>);
     upd_invoke invoke (\<lambda>i. i\<lparr>perfNoResponse := 2 * tv_maxNSDULifeTime c +
       (nuOfRetrans i + 1) * (tv_retransmit c + tv_roundtrip c)\<rparr>)
   }"

text \<open>
  \<^verbatim>\<open>tmr_obtain\<close> and \<^verbatim>\<open>TMR_create\<close> of the timer module, on the engine's state. The
  fields of the user's data are set together with the start.
\<close>

definition tmr_obtain :: "ptr eprog" where
  "tmr_obtain = do {
     ok \<leftarrow> SF_memGet;
     if ok then newPtr else return NULL
   }"

definition TMR_create :: "int \<Rightarrow> tmrData \<Rightarrow> ptr eprog" where
  "TMR_create milliseconds d = do {
     clock \<leftarrow> gets (\<lambda>s. osClock (e_env s));
     if clock = None then do { die; return NULL }
     else do {
       mem \<leftarrow> tmr_obtain;
       r \<leftarrow> gets (\<lambda>s. TMR_start clock mem (word_of_int milliseconds) d (e_timerQ s));
       case r of
         None \<Rightarrow> do { die; return NULL }
       | Some (p, q) \<Rightarrow> do { upd_timerQ (\<lambda>_. q); return p }
     }
   }"

definition erop_tmrCreate :: "ptr \<Rightarrow> int \<Rightarrow> int \<Rightarrow> int \<Rightarrow> int eprog" where
  "erop_tmrCreate invoke name time datum = do {
     desc \<leftarrow> TMR_create time \<lparr>td_invoke = invoke, td_name = name, td_data = datum\<rparr>;
     if desc = NULL then return FAIL
     else do {
       upd_invoke invoke (\<lambda>i. i\<lparr>tmrQu := tmrQu i @ [(desc, name)]\<rparr>);
       return SUCCESS
     }
   }"

text \<open>
  Both loops of \<^verbatim>\<open>erop_tmrCancel\<close>: the one over all timers, and the one over the timers of
  a name, whose \<^verbatim>\<open>next\<close> is read before the timer is removed.
\<close>

primrec tmrCancel_loop :: "ptr \<Rightarrow> int \<Rightarrow> (ptr \<times> int) list \<Rightarrow> unit eprog" where
  "tmrCancel_loop invoke name [] = skip"
| "tmrCancel_loop invoke name (t # next) = do {
     (if name = erop_allTimer \<or> snd t = name then do {
       upd_invoke invoke (\<lambda>i. i\<lparr>tmrQu := removeAll t (tmrQu i)\<rparr>);
       upd_timerQ (TMR_stop (fst t))
     } else skip);
     tmrCancel_loop invoke name next
   }"

definition erop_tmrCancel :: "ptr \<Rightarrow> int \<Rightarrow> unit eprog" where
  "erop_tmrCancel invoke name = do {
     q \<leftarrow> getInvoke invoke tmrQu;
     tmrCancel_loop invoke name q
   }"


section \<open>Effects\<close>

lemma TMR_start_Some:
  "osClock e = Some t \<Longrightarrow> p \<noteq> NULL \<Longrightarrow> TMR_start (osClock e) p ms d q =
     Some (p, tmr_insert \<lparr>tm_desc = p, expiryTime = t * 1000 + ms, tm_data = d\<rparr> q)"
  by (simp add: TMR_start_def tmr_currentTime_def)

text \<open>
  A timer that is created is queued at the current time plus the interval, and noted in the
  invocation; \<^verbatim>\<open>erop_tmrCreate\<close> does not return when there is no clock or no memory.
\<close>

lemma erop_tmrCreate_effect:
  assumes "\<not> e_aborted s" "osClock (e_env s) = Some t" "\<not> memFail (e_env s) (memCount (e_env s))"
    "e_next s \<noteq> NULL"
  shows "result (erop_tmrCreate invoke name time datum) s = SUCCESS"
    and "exec (erop_tmrCreate invoke name time datum) s =
      s\<lparr>e_timerQ := tmr_insert \<lparr>tm_desc = e_next s, expiryTime = t * 1000 + word_of_int time,
          tm_data = \<lparr>td_invoke = invoke, td_name = name, td_data = datum\<rparr>\<rparr> (e_timerQ s),
        e_invoke := (e_invoke s)(invoke :=
          (e_invoke s invoke)\<lparr>tmrQu := tmrQu (e_invoke s invoke) @ [(e_next s, name)]\<rparr>),
        e_next := e_next s + 1,
        e_env := (e_env s)\<lparr>memCount := memCount (e_env s) + 1\<rparr>\<rparr>"
  using assms
  by (simp_all add: erop_tmrCreate_def TMR_create_def tmr_obtain_def SF_memGet_def newPtr_def est_run
      TMR_start_def tmr_currentTime_def)

lemma erop_tmrCreate_dies:
  assumes "osClock (e_env s) = None \<or> memFail (e_env s) (memCount (e_env s))"
  shows "e_aborted (exec (erop_tmrCreate invoke name time datum) s)"
  using assms
  by (auto simp: erop_tmrCreate_def TMR_create_def tmr_obtain_def SF_memGet_def newPtr_def est_run
      TMR_start_def tmr_currentTime_def split: option.splits)

definition tmrSel :: "int \<Rightarrow> ptr \<times> int \<Rightarrow> bool" where
  "tmrSel name t \<longleftrightarrow> name = erop_allTimer \<or> snd t = name"

lemma tmrCancel_loop_effect:
  assumes "\<not> e_aborted s"
  shows "exec (tmrCancel_loop invoke name q) s =
    s\<lparr>e_timerQ := fold TMR_stop (map fst (filter (tmrSel name) q)) (e_timerQ s),
      e_invoke := (e_invoke s)(invoke := (e_invoke s invoke)
        \<lparr>tmrQu := filter (\<lambda>t. \<not> (t \<in> set q \<and> tmrSel name t)) (tmrQu (e_invoke s invoke))\<rparr>)\<rparr>"
  using assms
proof (induction q arbitrary: s)
  case (Cons t q)
  have "filter (\<lambda>x. \<not> (x \<in> set q \<and> tmrSel name x)) (removeAll t xs) =
      filter (\<lambda>x. \<not> (x \<in> set (t # q) \<and> tmrSel name x)) xs" if "tmrSel name t" for xs
    using that by (auto simp: removeAll_filter_not_eq intro: filter_cong)
  moreover have "filter (\<lambda>x. \<not> (x \<in> set q \<and> tmrSel name x)) xs =
      filter (\<lambda>x. \<not> (x \<in> set (t # q) \<and> tmrSel name x)) xs" if "\<not> tmrSel name t" for xs
    using that by (auto intro: filter_cong)
  moreover have "exec (tmrCancel_loop invoke name (t # q)) s = exec (tmrCancel_loop invoke name q)
      (s\<lparr>e_invoke := (e_invoke s)(invoke := (e_invoke s invoke)\<lparr>tmrQu := removeAll t (tmrQu (e_invoke s invoke))\<rparr>),
         e_timerQ := TMR_stop (fst t) (e_timerQ s)\<rparr>)" if "tmrSel name t"
    using that Cons.prems by (auto simp: est_run tmrSel_def)
  moreover have "exec (tmrCancel_loop invoke name (t # q)) s = exec (tmrCancel_loop invoke name q) s"
    if "\<not> tmrSel name t"
    using that by (simp add: est_run tmrSel_def)
  ultimately show ?case
    using Cons by (cases "tmrSel name t") (simp_all cong: if_cong)
qed (simp add: est_run)

lemma erop_tmrCancel_effect:
  assumes "\<not> e_aborted s"
  shows "exec (erop_tmrCancel invoke name) s =
    s\<lparr>e_timerQ := fold TMR_stop (map fst (filter (tmrSel name) (tmrQu (e_invoke s invoke)))) (e_timerQ s),
      e_invoke := (e_invoke s)(invoke := (e_invoke s invoke)
        \<lparr>tmrQu := filter (\<lambda>t. \<not> tmrSel name t) (tmrQu (e_invoke s invoke))\<rparr>)\<rparr>"
  using assms by (simp add: erop_tmrCancel_def est_run tmrCancel_loop_effect cong: filter_cong)

end
