(* ===== verification/Erop_Pdu.thy ===== *)
theory Erop_Pdu
  imports Erop_Tmr
begin

text \<open>
  Building PDUs (\<^verbatim>\<open>pduout.c\<close>, and \<^verbatim>\<open>erop_sendFailurePdu\<close> and
  \<^verbatim>\<open>erop_outOfInvokeId\<close> of \<^verbatim>\<open>pduin.c\<close>). A PDU is its protocol control information
  of two or three octets, written in front of the user's data in the same buffer. The lemmas give
  the octets of the PDUs.
\<close>

unbundle bit_operations_syntax

section \<open>The functions\<close>

text \<open>\<^verbatim>\<open>BO_put1(p, x)\<close> repeatedly: octets written through a pointer that advances.\<close>

primrec BO_puts :: "ptr \<Rightarrow> int \<Rightarrow> u8 list \<Rightarrow> du_state \<Rightarrow> du_state" where
  "BO_puts v p [] d = d"
| "BO_puts v p (x # xs) d = BO_puts v (p + 1) xs (DU_put v p x d)"

definition putPci :: "ptr \<Rightarrow> u8 list \<Rightarrow> unit eprog" where
  "putPci du xs = upd_du (\<lambda>d. BO_puts du (DU_data du d) xs d)"

text \<open>The protocol control information of each type of PDU.\<close>

definition invokePci :: "u8 \<Rightarrow> int \<Rightarrow> int \<Rightarrow> int \<Rightarrow> u8 list" where
  "invokePci remSapSel refNu opValue encType =
     [to_byte (push_bit 4 (uint remSapSel) OR INVOKE_PDU), to_byte refNu,
      to_byte (push_bit 6 encType OR opValue)]"

definition resultPci :: "int \<Rightarrow> int \<Rightarrow> u8 list" where
  "resultPci refNu encType = [to_byte (push_bit 6 encType OR RESULT_PDU), to_byte refNu]"

definition errorPci :: "int \<Rightarrow> int \<Rightarrow> int \<Rightarrow> u8 list" where
  "errorPci refNu encType errValue =
     [to_byte (push_bit 6 encType OR ERROR_PDU), to_byte refNu, to_byte errValue]"

definition failurePci :: "int \<Rightarrow> u8 \<Rightarrow> u8 list" where
  "failurePci refNu reason = [to_byte FAILURE_PDU, to_byte refNu, reason]"

definition ackPci :: "int \<Rightarrow> u8 list" where
  "ackPci refNu = [to_byte ACK_PDU, to_byte refNu]"

definition erop_invokePdu :: "u8 \<Rightarrow> int \<Rightarrow> int \<Rightarrow> int \<Rightarrow> ptr \<Rightarrow> ptr eprog" where
  "erop_invokePdu remSapSel refNu opValue encType data = do {
     du \<leftarrow> (if data = NULL then du_alloc 0 else return data);
     if du = NULL then return NULL
     else do {
       upd_du (DU_prepend du 3);
       putPci du (invokePci remSapSel refNu opValue encType);
       NM_incCounter erop_pduSentCounter 1;
       return du
     }
   }"

definition erop_resultPdu :: "int \<Rightarrow> int \<Rightarrow> ptr \<Rightarrow> ptr eprog" where
  "erop_resultPdu refNu encType data = do {
     du \<leftarrow> (if data = NULL then du_alloc 0 else return data);
     if du = NULL then return NULL
     else do {
       upd_du (DU_prepend du 2);
       putPci du (resultPci refNu encType);
       NM_incCounter erop_pduSentCounter 1;
       return du
     }
   }"

definition erop_errorPdu :: "int \<Rightarrow> int \<Rightarrow> int \<Rightarrow> ptr \<Rightarrow> ptr eprog" where
  "erop_errorPdu refNu encType errValue data = do {
     du \<leftarrow> (if data = NULL then du_alloc 0 else return data);
     if du = NULL then return NULL
     else do {
       upd_du (DU_prepend du 3);
       putPci du (errorPci refNu encType errValue);
       NM_incCounter erop_pduSentCounter 1;
       return du
     }
   }"

definition erop_failurePdu :: "int \<Rightarrow> u8 \<Rightarrow> ptr \<Rightarrow> ptr eprog" where
  "erop_failurePdu refNu reason data = do {
     du \<leftarrow> (if data = NULL then du_alloc 0 else return data);
     if du = NULL then return NULL
     else do {
       upd_du (DU_prepend du 3);
       putPci du (failurePci refNu reason);
       NM_incCounter erop_pduSentCounter 1;
       return du
     }
   }"

definition erop_ackPdu :: "int \<Rightarrow> ptr eprog" where
  "erop_ackPdu refNu = do {
     du \<leftarrow> du_alloc 2;
     if du = NULL then return NULL
     else do {
       putPci du (ackPci refNu);
       NM_incCounter erop_pduSentCounter 1;
       return du
     }
   }"

definition erop_sendFailurePdu :: "T_SapSel \<Rightarrow> N_SapAddr \<Rightarrow> int \<Rightarrow> u8 \<Rightarrow> int eprog" where
  "erop_sendFailurePdu tSapSel naddr refNu reason = do {
     du \<leftarrow> du_alloc 0;
     if du = NULL then return FAIL
     else do {
       upd_du (DU_prepend du 3);
       putPci du (failurePci refNu reason);
       rc \<leftarrow> UDP_dataReq tSapSel naddr du;
       du_free du;
       return (if rc = FAIL then FAIL else SUCCESS)
     }
   }"

definition erop_outOfInvokeId :: "ptr \<Rightarrow> T_SapSel \<Rightarrow> N_SapAddr \<Rightarrow> u8 \<Rightarrow> int eprog" where
  "erop_outOfInvokeId invoke tSapSel naddr reason = do {
     r \<leftarrow> getInvoke invoke invokeRefNu;
     erop_sendFailurePdu tSapSel naddr r reason
   }"


section \<open>The octets\<close>

lemma BO_puts_views [simp]: "views (BO_puts v p xs d) = views d"
  by (induction xs arbitrary: p d) (simp_all add: DU_put_def upd_buf_def)

lemma BO_puts_pools [simp]:
  "pools (BO_puts v p xs d) = pools d" "viewFreeList (BO_puts v p xs d) = viewFreeList d"
  "du_virgin (BO_puts v p xs d) = du_virgin d"
  by (induction xs arbitrary: p d) (simp_all add: DU_put_def upd_buf_def)

lemma BO_puts_buf_frame [simp]:
  "b_end (bufs (BO_puts v p xs d) b) = b_end (bufs d b)"
  "b_un (bufs (BO_puts v p xs d) b) = b_un (bufs d b)"
  "b_refcnt (bufs (BO_puts v p xs d) b) = b_refcnt (bufs d b)"
  by (induction xs arbitrary: p d) (simp_all add: DU_put_def upd_buf_def)

lemma DU_get_put [simp]: "DU_get v a (DU_put v p x d) = (if a = p then x else DU_get v a d)"
  by (simp add: DU_get_def DU_put_def upd_buf_def)

lemma BO_puts_other:
  "a < p \<or> p + int (length xs) \<le> a \<Longrightarrow> DU_get v a (BO_puts v p xs d) = DU_get v a d"
  by (induction xs arbitrary: p d) auto

lemma BO_puts_get:
  "i < length xs \<Longrightarrow> DU_get v (p + int i) (BO_puts v p xs d) = xs ! i"
proof (induction xs arbitrary: p d i)
  case (Cons x xs)
  show ?case
  proof (cases i)
    case 0
    then show ?thesis by (simp add: BO_puts_other)
  next
    case (Suc k)
    then show ?thesis
      using Cons.IH [of k "p + 1" "DU_put v p x d"] Cons.prems by (simp add: ac_simps)
  qed
qed simp

lemma DU_size_BO_puts [simp]: "DU_size v (BO_puts w p xs d) = DU_size v d"
  by (simp add: DU_size_def)

lemma DU_data_BO_puts [simp]: "DU_data v (BO_puts w p xs d) = DU_data v d"
  by (simp add: DU_data_def)

text \<open>
  Writing as many octets as were prepended puts them in front of the octets the view had.
\<close>

lemma DU_bytes_prepend:
  assumes "v \<noteq> NULL" "0 \<le> DU_size v d"
  shows "DU_bytes v (BO_puts v (DU_data v d - int (length xs)) xs (DU_prepend v (int (length xs)) d)) =
    xs @ DU_bytes v d"
proof (rule nth_equalityI)
  let ?d = "DU_prepend v (int (length xs)) d"
  have sz: "DU_size v ?d = DU_size v d + int (length xs)"
    using assms(1) by (simp add: DU_prepend_def DU_size_def upd_view_def)
  have dt: "DU_data v ?d = DU_data v d - int (length xs)"
    by (simp add: DU_prepend_def DU_data_def upd_view_def)
  have gt: "DU_get v a ?d = DU_get v a d" for a
    by (simp add: DU_prepend_def DU_get_def upd_view_def)
  have len: "nat (DU_size v d + int (length xs)) = length xs + nat (DU_size v d)"
    using assms(2) by simp
  show "length (DU_bytes v (BO_puts v (DU_data v d - int (length xs)) xs ?d)) = length (xs @ DU_bytes v d)"
    using assms(2) by (simp add: DU_bytes_def sz)
  fix i assume "i < length (DU_bytes v (BO_puts v (DU_data v d - int (length xs)) xs ?d))"
  then have i: "i < length xs + nat (DU_size v d)"
    by (simp add: DU_bytes_def sz len)
  have at: "DU_bytes v (BO_puts v (DU_data v d - int (length xs)) xs ?d) ! i =
      DU_get v (DU_data v d - int (length xs) + int i)
        (BO_puts v (DU_data v d - int (length xs)) xs ?d)"
    using i by (simp add: DU_bytes_def sz len dt)
  show "DU_bytes v (BO_puts v (DU_data v d - int (length xs)) xs ?d) ! i = (xs @ DU_bytes v d) ! i"
  proof (cases "i < length xs")
    case True
    then show ?thesis by (simp add: at BO_puts_get nth_append)
  next
    case False
    have "DU_bytes v d ! (i - length xs) = DU_get v (DU_data v d - int (length xs) + int i) d"
      using False i nth_upt [of 0 "i - length xs" "nat (DU_size v d)"]
      by (simp add: DU_bytes_def of_nat_diff algebra_simps)
    then show ?thesis
      using False by (simp add: at BO_puts_other gt nth_append)
  qed
qed

text \<open>
  The effect of each builder on the data unit it is given: the control information in front of
  the octets that were there, and the same view returned.
\<close>

lemma pci_length [simp]:
  "length (invokePci a b c d) = 3" "length (resultPci b d) = 2" "length (errorPci b d e) = 3"
  "length (failurePci b r) = 3" "length (ackPci b) = 2"
  by (simp_all add: invokePci_def resultPci_def errorPci_def failurePci_def ackPci_def)

lemma put_bytes:
  assumes "v \<noteq> NULL" "0 \<le> DU_size v d" "n = int (length xs)"
  shows "DU_bytes v (BO_puts v (DU_data v (DU_prepend v n d)) xs (DU_prepend v n d)) = xs @ DU_bytes v d"
proof -
  have "DU_data v (DU_prepend v n d) = DU_data v d - n"
    by (simp add: DU_prepend_def DU_data_def upd_view_def)
  then show ?thesis using DU_bytes_prepend [OF assms(1,2), of xs] assms(3) by simp
qed

lemma erop_invokePdu_bytes:
  assumes "\<not> e_aborted s" "du \<noteq> NULL" "0 \<le> DU_size du (e_du s)"
  shows "result (erop_invokePdu sel r opv enc du) s = du"
    and "DU_bytes du (e_du (exec (erop_invokePdu sel r opv enc du) s)) =
      invokePci sel r opv enc @ DU_bytes du (e_du s)"
  using assms
  by (simp_all add: erop_invokePdu_def putPci_def NM_incCounter_def est_run put_bytes)

lemma erop_resultPdu_bytes:
  assumes "\<not> e_aborted s" "du \<noteq> NULL" "0 \<le> DU_size du (e_du s)"
  shows "result (erop_resultPdu r enc du) s = du"
    and "DU_bytes du (e_du (exec (erop_resultPdu r enc du) s)) = resultPci r enc @ DU_bytes du (e_du s)"
  using assms
  by (simp_all add: erop_resultPdu_def putPci_def NM_incCounter_def est_run put_bytes)

lemma erop_errorPdu_bytes:
  assumes "\<not> e_aborted s" "du \<noteq> NULL" "0 \<le> DU_size du (e_du s)"
  shows "result (erop_errorPdu r enc err du) s = du"
    and "DU_bytes du (e_du (exec (erop_errorPdu r enc err du) s)) = errorPci r enc err @ DU_bytes du (e_du s)"
  using assms
  by (simp_all add: erop_errorPdu_def putPci_def NM_incCounter_def est_run put_bytes)

end
