(* ===== verification/Erop_UserOut.thy ===== *)
theory Erop_UserOut
  imports Erop_Pdu
begin

text \<open>
  The indications and confirmations to the user (\<^verbatim>\<open>userout.c\<close>). Each has a function that
  schedules it with a block of arguments, and a function that the scheduler calls later, which
  calls into the user and frees the data. The calls into the user are recorded in
  \<open>upcalls\<close>.
\<close>

section \<open>Scheduling\<close>

text \<open>
  The \<^verbatim>\<open>AUTHENTICATE_DOMAIN\<close> variant is not modelled; \<open>remTsap\<close> and \<open>remNsap\<close> are
  the addresses of the invocation's fields in the only caller, and read when the task runs.
\<close>

definition erop_invokeInd :: "ptr \<Rightarrow> u8 \<Rightarrow> u8 \<Rightarrow> int \<Rightarrow> int \<Rightarrow> ptr \<Rightarrow> int eprog" where
  "erop_invokeInd invoke locESROSap remESROSap opValue encType parameter = do {
     ok \<leftarrow> SF_memGet;
     if \<not> ok then return FAIL
     else sch_submit (erop_scheduledInvokeIndT invoke locESROSap remESROSap opValue encType parameter)
            SCH_PSEUDO_EVENT
   }"

definition erop_resultInd :: "ptr \<Rightarrow> nat \<Rightarrow> int \<Rightarrow> ptr \<Rightarrow> int eprog" where
  "erop_resultInd invoke userRef encType parameter = do {
     ok \<leftarrow> SF_memGet;
     if \<not> ok then return FAIL
     else sch_submit (erop_scheduledResultIndT invoke userRef encType parameter) SCH_PSEUDO_EVENT
   }"

definition erop_errorInd :: "ptr \<Rightarrow> nat \<Rightarrow> int \<Rightarrow> int \<Rightarrow> ptr \<Rightarrow> int eprog" where
  "erop_errorInd invoke userRef encType errValue parameter = do {
     ok \<leftarrow> SF_memGet;
     if \<not> ok then return FAIL
     else sch_submit (erop_scheduledErrorIndT invoke userRef encType errValue parameter)
            SCH_PSEUDO_EVENT
   }"

definition erop_resultCnf :: "ptr \<Rightarrow> nat \<Rightarrow> int eprog" where
  "erop_resultCnf invoke userRef = do {
     ok \<leftarrow> SF_memGet;
     if \<not> ok then return FAIL
     else sch_submit (erop_scheduledResultCnfT invoke userRef) SCH_PSEUDO_EVENT
   }"

definition erop_errorCnf :: "ptr \<Rightarrow> nat \<Rightarrow> int eprog" where
  "erop_errorCnf invoke userRef = do {
     ok \<leftarrow> SF_memGet;
     if \<not> ok then return FAIL
     else sch_submit (erop_scheduledErrorCnfT invoke userRef) SCH_PSEUDO_EVENT
   }"

definition erop_failureInd :: "ptr \<Rightarrow> nat \<Rightarrow> int \<Rightarrow> int eprog" where
  "erop_failureInd invoke userRef failValue = do {
     ok \<leftarrow> SF_memGet;
     if \<not> ok then return FAIL
     else sch_submit (erop_scheduledFailureIndT invoke userRef failValue) SCH_PSEUDO_EVENT
   }"


section \<open>The scheduled functions\<close>

definition upcall :: "upcall \<Rightarrow> unit eprog" where
  "upcall u = upd_env (\<lambda>e. e\<lparr>upcalls := upcalls e @ [u]\<rparr>)"

definition erop_scheduledInvokeInd :: "ptr \<Rightarrow> u8 \<Rightarrow> u8 \<Rightarrow> int \<Rightarrow> int \<Rightarrow> ptr \<Rightarrow> int eprog" where
  "erop_scheduledInvokeInd invoke locESROSap remESROSap opValue encType parameter = do {
     remTsap \<leftarrow> getInvoke invoke remTsapSel;
     remNsap \<leftarrow> getInvoke invoke remNsapAddr;
     upcall (UinvokeInd locESROSap remESROSap remTsap remNsap invoke opValue encType parameter);
     du_free parameter;
     return 0
   }"

definition erop_scheduledResultInd :: "ptr \<Rightarrow> nat \<Rightarrow> int \<Rightarrow> ptr \<Rightarrow> int eprog" where
  "erop_scheduledResultInd invoke userRef encType parameter = do {
     upcall (UresultInd invoke userRef encType parameter);
     du_free parameter;
     return 0
   }"

text \<open>The error value comes before the encoding type in this call.\<close>

definition erop_scheduledErrorInd :: "ptr \<Rightarrow> nat \<Rightarrow> int \<Rightarrow> int \<Rightarrow> ptr \<Rightarrow> int eprog" where
  "erop_scheduledErrorInd invoke userRef encType errValue parameter = do {
     upcall (UerrorInd invoke userRef errValue encType parameter);
     du_free parameter;
     return 0
   }"

definition erop_scheduledResultCnf :: "ptr \<Rightarrow> nat \<Rightarrow> int eprog" where
  "erop_scheduledResultCnf invoke userRef = do {
     upcall (UresultCnf invoke userRef);
     return 0
   }"

definition erop_scheduledErrorCnf :: "ptr \<Rightarrow> nat \<Rightarrow> int eprog" where
  "erop_scheduledErrorCnf invoke userRef = do {
     upcall (UerrorCnf invoke userRef);
     return 0
   }"

definition erop_scheduledFailureInd :: "ptr \<Rightarrow> nat \<Rightarrow> int \<Rightarrow> int eprog" where
  "erop_scheduledFailureInd invoke userRef failValue = do {
     upcall (UfailureInd invoke userRef failValue);
     return 0
   }"


section \<open>Effects\<close>

lemma sch_submit_effect:
  assumes "\<not> e_aborted s"
  shows "result (sch_submit t ev) s = SUCCESS"
    and "exec (sch_submit t ev) s =
      (if availSchInfo (e_sch s) = 0 then s\<lparr>e_aborted := True\<rparr>
       else s\<lparr>e_sch := (e_sch s)\<lparr>availSchInfo := availSchInfo (e_sch s) - 1,
                sch_active := sch_active (e_sch s) @ [\<lparr>si_task = t, si_event = ev\<rparr>]\<rparr>\<rparr>)"
  using assms by (simp_all add: sch_submit_def est_run SCH_submit_def)

lemma SF_memGet_effect:
  "result SF_memGet s = (\<not> memFail (e_env s) (memCount (e_env s)))"
  "\<not> e_aborted s \<Longrightarrow> exec SF_memGet s = s\<lparr>e_env := (e_env s)\<lparr>memCount := memCount (e_env s) + 1\<rparr>\<rparr>"
  by (simp_all add: SF_memGet_def est_run)

lemmas ind_defs = erop_invokeInd_def erop_resultInd_def erop_errorInd_def erop_resultCnf_def
  erop_errorCnf_def erop_failureInd_def

lemmas scheduled_defs = erop_scheduledInvokeInd_def erop_scheduledResultInd_def
  erop_scheduledErrorInd_def erop_scheduledResultCnf_def erop_scheduledErrorCnf_def
  erop_scheduledFailureInd_def upcall_def

end
