(* ===== verification/Erop_Invoker.thy ===== *)
theory Erop_Invoker
  imports Erop_UserOut
begin

text \<open>
  The actions of the invoker machines: \<^verbatim>\<open>tr_clInvoker01\<close> to \<^verbatim>\<open>tr_clInvoker10\<close> of the
  3-way handshake (\<^verbatim>\<open>invokact.c\<close>) and \<^verbatim>\<open>tr_2clInvoker01\<close> to
  \<^verbatim>\<open>tr_2clInvoker07\<close> of the 2-way handshake (\<^verbatim>\<open>invact2.c\<close>). Each is an action of
  the interpreter in theory Fsm: a machine (the invocation) and an event.
\<close>

section \<open>3-way handshake\<close>

definition tr_clInvoker01 :: "est fsm_func" where
  "tr_clInvoker01 invoke evtId = do {
     parameter \<leftarrow> getEvt ir_parameter;
     size \<leftarrow> du_size parameter;
     maxSize \<leftarrow> getCfg invokePduSize;
     if size > maxSize then return FAIL
     else if invoke = NULL then return FAIL
     else do {
       e \<leftarrow> getEvt id;
       upd_invoke invoke (\<lambda>i. i\<lparr>remEsroSapSel := ir_remESROSap e\<rparr>);
       upd_invoke invoke (\<lambda>i. i\<lparr>remTsapSel := ir_remTsap e\<rparr>);
       upd_invoke invoke (\<lambda>i. i\<lparr>remNsapAddr := ir_remNsap e\<rparr>);
       upd_invoke invoke (\<lambda>i. i\<lparr>operationValue := ir_opValue e\<rparr>);
       upd_invoke invoke (\<lambda>i. i\<lparr>encodingType := ir_encodingType e\<rparr>);
       upd_invoke invoke (\<lambda>i. i\<lparr>userInvokeRef := ir_userInvokeRef e\<rparr>);
       erop_tmrSetValues invoke;
       r \<leftarrow> erop_refNew invoke;
       upd_invoke invoke (\<lambda>i. i\<lparr>invokeRefNu := r\<rparr>);
       if r = FAIL then return FAIL
       else do {
         i \<leftarrow> getInvoke invoke id;
         du \<leftarrow> erop_invokePdu (remEsroSapSel i) (invokeRefNu i) (operationValue i) (encodingType i)
                 parameter;
         if du = NULL then return FAIL
         else do {
           erop_pduKeep invoke InvokePduSeq du;
           du2 \<leftarrow> erop_pduRetrieve invoke InvokePduSeq;
           if du2 = NULL then return FAIL
           else do {
             rc \<leftarrow> UDP_dataReq (remTsapSel i) (remNsapAddr i) du2;
             du_free du2;
             t \<leftarrow> erop_tmrCreate invoke erop_invokePduRetranTimer (retransTimeout i) 0;
             if t = FAIL then return FAIL
             else if rc = FAIL then return FAIL
             else do {
               NM_incCounter erop_completeOperationCounter 1;
               return SUCCESS
             }
           }
         }
       }
     }
   }"

definition tr_clInvoker02 :: "est fsm_func" where
  "tr_clInvoker02 invoke evtId = do {
     name \<leftarrow> getEvt ti_name;
     if name \<noteq> erop_invokePduRetranTimer then return FAIL
     else if invoke = NULL then return FAIL
     else do {
       datum \<leftarrow> getEvt ti_datum;
       i \<leftarrow> getInvoke invoke id;
       if datum \<ge> nuOfRetrans i then do {
         t \<leftarrow> erop_tmrCreate invoke erop_lastTimer (rwait i) 0;
         if t = FAIL then return FAIL else return SUCCESS
       }
       else do {
         t \<leftarrow> erop_tmrCreate invoke erop_invokePduRetranTimer (retransTimeout i) (datum + 1);
         if t = FAIL then return FAIL
         else do {
           du \<leftarrow> erop_pduRetrieve invoke InvokePduSeq;
           if du = NULL then return FAIL
           else do {
             rc \<leftarrow> UDP_dataReq (remTsapSel i) (remNsapAddr i) du;
             if rc = FAIL then do { du_free du; return FAIL }
             else do {
               du_free du;
               NM_incCounter erop_invokePduRetranCounter 1;
               NM_incCounter erop_pduRetranCounter 1;
               return SUCCESS
             }
           }
         }
       }
     }
   }"

definition tr_clInvoker03 :: "est fsm_func" where
  "tr_clInvoker03 invoke evtId = do {
     name \<leftarrow> getEvt ti_name;
     if name \<noteq> erop_lastTimer then return FAIL
     else if invoke = NULL then return FAIL
     else do {
       r1 \<leftarrow> erop_relAllPdu invoke;
       upd_invoke invoke (\<lambda>i. i\<lparr>failureReason := ESRO_FailureUserNotResponding\<rparr>);
       i \<leftarrow> getInvoke invoke id;
       r2 \<leftarrow> erop_failureInd invoke (userInvokeRef i) (failureReason i);
       t \<leftarrow> erop_tmrCreate invoke erop_refNuTimer (refKeepTime i) 0;
       if t = FAIL then return FAIL
       else do {
         NM_incCounter erop_completeOperationCounter (- 1);
         return (if r1 = FAIL \<or> r2 = FAIL then FAIL else SUCCESS)
       }
     }
   }"

definition tr_clInvoker04 :: "est fsm_func" where
  "tr_clInvoker04 invoke evtId = do {
     type \<leftarrow> getPdu pd_pdutype;
     if type \<noteq> RESULT_PDU \<and> type \<noteq> ERROR_PDU then return FAIL
     else if invoke = NULL then return FAIL
     else do {
       erop_tmrCancel invoke erop_allTimer;
       p \<leftarrow> getPdu id;
       upd_invoke invoke (\<lambda>i. i\<lparr>invokeRefNu := pd_invokeRefNu p\<rparr>);
       upd_invoke invoke (\<lambda>i. i\<lparr>encodingType := pd_encodingType p\<rparr>);
       (if type = ERROR_PDU then upd_invoke invoke (\<lambda>i. i\<lparr>errorValue := pd_errorValue p\<rparr>) else skip);
       erop_tmrSetValues invoke;
       r1 \<leftarrow> erop_relPdu invoke InvokePduSeq;
       i \<leftarrow> getInvoke invoke id;
       r2 \<leftarrow> (if type = RESULT_PDU
               then erop_resultInd invoke (userInvokeRef i) (encodingType i) (pd_data p)
               else erop_errorInd invoke (userInvokeRef i) (encodingType i) (errorValue i) (pd_data p));
       if r2 = FAIL then do {
         _ \<leftarrow> erop_sendFailurePdu (remTsapSel i) (remNsapAddr i) (invokeRefNu i)
                (to_byte ESRO_FailureUserNotResponding);
         return FAIL
       }
       else do {
         du \<leftarrow> erop_ackPdu (invokeRefNu i);
         if du = NULL then return FAIL
         else do {
           rc \<leftarrow> UDP_dataReq (remTsapSel i) (remNsapAddr i) du;
           if rc = FAIL then do { du_free du; return FAIL }
           else do {
             du_free du;
             t \<leftarrow> erop_tmrCreate invoke erop_inactivityTimer (inactivityDelay i) 0;
             if t = FAIL then return FAIL else return (if r1 = FAIL then FAIL else SUCCESS)
           }
         }
       }
     }
   }"

definition tr_clInvoker05 :: "est fsm_func" where
  "tr_clInvoker05 invoke evtId = do {
     type \<leftarrow> getPdu pd_pdutype;
     if type \<noteq> FAILURE_PDU then return FAIL
     else if invoke = NULL then return FAIL
     else do {
       i \<leftarrow> getInvoke invoke id;
       r1 \<leftarrow> erop_failureInd invoke (userInvokeRef i) (failureReason i);
       erop_tmrCancel invoke erop_allTimer;
       t \<leftarrow> erop_tmrCreate invoke erop_refNuTimer (refKeepTime i) 0;
       data \<leftarrow> getPdu pd_data;
       du_free data;
       NM_incCounter erop_completeOperationCounter (- 1);
       return (if r1 = FAIL \<or> t = FAIL then FAIL else SUCCESS)
     }
   }"

definition tr_clInvoker06 :: "est fsm_func" where
  "tr_clInvoker06 invoke evtId = return SUCCESS"

definition tr_clInvoker07 :: "est fsm_func" where
  "tr_clInvoker07 invoke evtId = do {
     type \<leftarrow> getPdu pd_pdutype;
     if type \<noteq> RESULT_PDU \<and> type \<noteq> ERROR_PDU then return FAIL
     else if invoke = NULL then return FAIL
     else do {
       data \<leftarrow> getPdu pd_data;
       (if data \<noteq> NULL then du_free data else skip);
       erop_tmrCancel invoke erop_inactivityTimer;
       i \<leftarrow> getInvoke invoke id;
       t \<leftarrow> erop_tmrCreate invoke erop_inactivityTimer (inactivityDelay i) 0;
       if t = FAIL then return FAIL
       else do {
         du \<leftarrow> erop_ackPdu (invokeRefNu i);
         if du = NULL then return FAIL
         else do {
           rc \<leftarrow> UDP_dataReq (remTsapSel i) (remNsapAddr i) du;
           du_free du;
           return (if rc = FAIL then FAIL else SUCCESS)
         }
       }
     }
   }"

definition tr_clInvoker08 :: "est fsm_func" where
  "tr_clInvoker08 invoke evtId = do {
     name \<leftarrow> getEvt ti_name;
     if name \<noteq> erop_refNuTimer then return FAIL
     else if invoke = NULL then return FAIL
     else sch_submit (erop_relInvokeT invoke) SCH_PSEUDO_EVENT
   }"

definition tr_clInvoker09 :: "est fsm_func" where
  "tr_clInvoker09 invoke evtId = do {
     type \<leftarrow> getPdu pd_pdutype;
     if type \<noteq> RESULT_PDU \<and> type \<noteq> ERROR_PDU then return FAIL
     else if invoke = NULL then return FAIL
     else do {
       data \<leftarrow> getPdu pd_data;
       (if data \<noteq> NULL then du_free data else skip);
       erop_tmrCancel invoke erop_refNuTimer;
       keep \<leftarrow> getInvoke invoke refKeepTime;
       t \<leftarrow> erop_tmrCreate invoke erop_refNuTimer keep 0;
       if t = FAIL then return FAIL else return SUCCESS
     }
   }"

definition tr_clInvoker10 :: "est fsm_func" where
  "tr_clInvoker10 invoke evtId = do {
     name \<leftarrow> getEvt ti_name;
     if name \<noteq> erop_inactivityTimer then return FAIL
     else if invoke = NULL then return FAIL
     else do {
       erop_tmrCancel invoke erop_allTimer;
       r1 \<leftarrow> erop_relAllPdu invoke;
       keep \<leftarrow> getInvoke invoke refKeepTime;
       t \<leftarrow> erop_tmrCreate invoke erop_refNuTimer keep 0;
       if t = FAIL then return FAIL else return (if r1 = FAIL then FAIL else SUCCESS)
     }
   }"


section \<open>2-way handshake\<close>

definition tr_2clInvoker01 :: "est fsm_func" where
  "tr_2clInvoker01 invoke evtId = do {
     parameter \<leftarrow> getEvt ir_parameter;
     size \<leftarrow> du_size parameter;
     maxSize \<leftarrow> getCfg invokePduSize;
     if size > maxSize then return FAIL
     else if invoke = NULL then return FAIL
     else do {
       e \<leftarrow> getEvt id;
       upd_invoke invoke (\<lambda>i. i\<lparr>remEsroSapSel := ir_remESROSap e\<rparr>);
       upd_invoke invoke (\<lambda>i. i\<lparr>remTsapSel := ir_remTsap e\<rparr>);
       upd_invoke invoke (\<lambda>i. i\<lparr>remNsapAddr := ir_remNsap e\<rparr>);
       upd_invoke invoke (\<lambda>i. i\<lparr>operationValue := ir_opValue e\<rparr>);
       upd_invoke invoke (\<lambda>i. i\<lparr>encodingType := ir_encodingType e\<rparr>);
       upd_invoke invoke (\<lambda>i. i\<lparr>userInvokeRef := ir_userInvokeRef e\<rparr>);
       erop_tmrSetValues invoke;
       r \<leftarrow> erop_refNew invoke;
       upd_invoke invoke (\<lambda>i. i\<lparr>invokeRefNu := r\<rparr>);
       if r = FAIL then return FAIL
       else do {
         i \<leftarrow> getInvoke invoke id;
         du \<leftarrow> erop_invokePdu (remEsroSapSel i) (invokeRefNu i) (operationValue i) (encodingType i)
                 parameter;
         if du = NULL then return FAIL
         else do {
           erop_pduKeep invoke InvokePduSeq du;
           du2 \<leftarrow> erop_pduRetrieve invoke InvokePduSeq;
           if du2 = NULL then return FAIL
           else do {
             rc \<leftarrow> UDP_dataReq (remTsapSel i) (remNsapAddr i) du2;
             du_free du2;
             t \<leftarrow> erop_tmrCreate invoke erop_invokePduRetranTimer (retransTimeout i) 0;
             if t = FAIL then return FAIL
             else if rc = FAIL then return FAIL
             else do {
               NM_incCounter erop_completeOperationCounter 1;
               return SUCCESS
             }
           }
         }
       }
     }
   }"

definition tr_2clInvoker02 :: "est fsm_func" where
  "tr_2clInvoker02 invoke evtId = do {
     name \<leftarrow> getEvt ti_name;
     if name \<noteq> erop_invokePduRetranTimer then return FAIL
     else if invoke = NULL then return FAIL
     else do {
       datum \<leftarrow> getEvt ti_datum;
       i \<leftarrow> getInvoke invoke id;
       if datum \<ge> nuOfRetrans i then do {
         t \<leftarrow> erop_tmrCreate invoke erop_lastTimer (rwait i) 0;
         if t = FAIL then return FAIL else return SUCCESS
       }
       else do {
         t \<leftarrow> erop_tmrCreate invoke erop_invokePduRetranTimer (retransTimeout i) (datum + 1);
         if t = FAIL then return FAIL
         else do {
           du \<leftarrow> erop_pduRetrieve invoke InvokePduSeq;
           if du = NULL then return FAIL
           else do {
             rc \<leftarrow> UDP_dataReq (remTsapSel i) (remNsapAddr i) du;
             if rc = FAIL then do { du_free du; return FAIL }
             else do {
               du_free du;
               NM_incCounter erop_invokePduRetranCounter 1;
               NM_incCounter erop_pduRetranCounter 1;
               return SUCCESS
             }
           }
         }
       }
     }
   }"

definition tr_2clInvoker03 :: "est fsm_func" where
  "tr_2clInvoker03 invoke evtId = do {
     name \<leftarrow> getEvt ti_name;
     if name \<noteq> erop_lastTimer then return FAIL
     else if invoke = NULL then return FAIL
     else do {
       r1 \<leftarrow> erop_relAllPdu invoke;
       upd_invoke invoke (\<lambda>i. i\<lparr>failureReason := ESRO_FailureUserNotResponding\<rparr>);
       i \<leftarrow> getInvoke invoke id;
       r2 \<leftarrow> erop_failureInd invoke (userInvokeRef i) (failureReason i);
       t \<leftarrow> erop_tmrCreate invoke erop_refNuTimer (refKeepTime i) 0;
       if t = FAIL then return FAIL
       else do {
         NM_incCounter erop_completeOperationCounter (- 1);
         return (if r1 = FAIL \<or> r2 = FAIL then FAIL else SUCCESS)
       }
     }
   }"

definition tr_2clInvoker04 :: "est fsm_func" where
  "tr_2clInvoker04 invoke evtId = do {
     type \<leftarrow> getPdu pd_pdutype;
     if type \<noteq> RESULT_PDU \<and> type \<noteq> ERROR_PDU then return FAIL
     else if invoke = NULL then return FAIL
     else do {
       erop_tmrCancel invoke erop_allTimer;
       p \<leftarrow> getPdu id;
       upd_invoke invoke (\<lambda>i. i\<lparr>invokeRefNu := pd_invokeRefNu p\<rparr>);
       upd_invoke invoke (\<lambda>i. i\<lparr>encodingType := pd_encodingType p\<rparr>);
       (if type = ERROR_PDU then upd_invoke invoke (\<lambda>i. i\<lparr>errorValue := pd_errorValue p\<rparr>) else skip);
       erop_tmrSetValues invoke;
       r1 \<leftarrow> erop_relPdu invoke InvokePduSeq;
       i \<leftarrow> getInvoke invoke id;
       r2 \<leftarrow> (if type = RESULT_PDU
               then erop_resultInd invoke (userInvokeRef i) (encodingType i) (pd_data p)
               else erop_errorInd invoke (userInvokeRef i) (encodingType i) (errorValue i) (pd_data p));
       if r2 = FAIL then return FAIL
       else do {
         t \<leftarrow> erop_tmrCreate invoke erop_refNuTimer (refKeepTime i) 0;
         if t = FAIL then return FAIL else return (if r1 = FAIL then FAIL else SUCCESS)
       }
     }
   }"

definition tr_2clInvoker05 :: "est fsm_func" where
  "tr_2clInvoker05 invoke evtId = do {
     type \<leftarrow> getPdu pd_pdutype;
     if type \<noteq> FAILURE_PDU then return FAIL
     else if invoke = NULL then return FAIL
     else do {
       i \<leftarrow> getInvoke invoke id;
       r1 \<leftarrow> erop_failureInd invoke (userInvokeRef i) (failureReason i);
       erop_tmrCancel invoke erop_allTimer;
       t \<leftarrow> erop_tmrCreate invoke erop_refNuTimer (refKeepTime i) 0;
       data \<leftarrow> getPdu pd_data;
       du_free data;
       NM_incCounter erop_completeOperationCounter (- 1);
       return (if r1 = FAIL \<or> t = FAIL then FAIL else SUCCESS)
     }
   }"

definition tr_2clInvoker06 :: "est fsm_func" where
  "tr_2clInvoker06 invoke evtId = do {
     type \<leftarrow> getPdu pd_pdutype;
     if type \<noteq> RESULT_PDU \<and> type \<noteq> ERROR_PDU then return FAIL
     else if invoke = NULL then return FAIL
     else do {
       data \<leftarrow> getPdu pd_data;
       (if data \<noteq> NULL then du_free data else skip);
       erop_tmrCancel invoke erop_allTimer;
       keep \<leftarrow> getInvoke invoke refKeepTime;
       t \<leftarrow> erop_tmrCreate invoke erop_refNuTimer keep 0;
       if t = FAIL then return FAIL else return SUCCESS
     }
   }"

definition tr_2clInvoker07 :: "est fsm_func" where
  "tr_2clInvoker07 invoke evtId = do {
     name \<leftarrow> getEvt ti_name;
     if name \<noteq> erop_refNuTimer then return FAIL
     else if invoke = NULL then return FAIL
     else sch_submit (erop_relInvokeT invoke) SCH_PSEUDO_EVENT
   }"

text \<open>Five of the seven do what their 3-way counterparts do.\<close>

lemma tr_2clInvoker_same:
  "tr_2clInvoker01 = tr_clInvoker01" "tr_2clInvoker02 = tr_clInvoker02"
  "tr_2clInvoker03 = tr_clInvoker03" "tr_2clInvoker05 = tr_clInvoker05"
  "tr_2clInvoker07 = tr_clInvoker08"
  by (intro ext, simp add: tr_2clInvoker01_def tr_clInvoker01_def tr_2clInvoker02_def tr_clInvoker02_def
      tr_2clInvoker03_def tr_clInvoker03_def tr_2clInvoker05_def tr_clInvoker05_def
      tr_2clInvoker07_def tr_clInvoker08_def)+

end
