(* ===== verification/Erop_Performer.thy ===== *)
theory Erop_Performer
  imports Erop_UserOut
begin

text \<open>
  The actions of the performer machines: \<^verbatim>\<open>tr_clPerformer01\<close> to
  \<^verbatim>\<open>tr_clPerformer12\<close> of the 3-way handshake (\<^verbatim>\<open>perfact.c\<close>) and
  \<^verbatim>\<open>tr_2clPerformer01\<close> to \<^verbatim>\<open>tr_2clPerformer08\<close> of the 2-way handshake
  (\<^verbatim>\<open>perfact2.c\<close>).
\<close>

section \<open>3-way handshake\<close>

definition tr_clPerformer01 :: "est fsm_func" where
  "tr_clPerformer01 invoke evtId = do {
     type \<leftarrow> getPdu pd_pdutype;
     if type \<noteq> INVOKE_PDU then return FAIL
     else if invoke = NULL then return FAIL
     else do {
       p \<leftarrow> getPdu id;
       upd_invoke invoke (\<lambda>i. i\<lparr>remEsroSapSel := pd_fromESROSap p\<rparr>);
       upd_invoke invoke (\<lambda>i. i\<lparr>remTsapSel := pd_fromTsapSel p\<rparr>);
       upd_invoke invoke (\<lambda>i. i\<lparr>remNsapAddr := pd_fromNsapAddr p\<rparr>);
       upd_invoke invoke (\<lambda>i. i\<lparr>encodingType := pd_encodingType p\<rparr>);
       upd_invoke invoke (\<lambda>i. i\<lparr>invokeRefNu := pd_invokeRefNu p\<rparr>);
       erop_tmrSetValues invoke;
       i \<leftarrow> getInvoke invoke id;
       sel \<leftarrow> gets (\<lambda>s. sapSel (e_sap s (locSap i)));
       r \<leftarrow> erop_invokeInd invoke sel (remEsroSapSel i) (pd_operationValue p) (encodingType i) (pd_data p);
       if r = FAIL then do {
         du_free (pd_data p);
         _ \<leftarrow> erop_sendFailurePdu (remTsapSel i) (remNsapAddr i) (invokeRefNu i)
                (to_byte ESRO_FailureUserNotResponding);
         return FAIL
       }
       else do {
         noShell \<leftarrow> getCfg noUpshell;
         t \<leftarrow> (if noShell then return SUCCESS
               else erop_tmrCreate invoke erop_perfNoResponseTimer (perfNoResponse i) 0);
         if t = FAIL then return FAIL
         else do {
           NM_incCounter erop_completeOperationCounter 1;
           return SUCCESS
         }
       }
     }
   }"

definition tr_clPerformer02 :: "est fsm_func" where
  "tr_clPerformer02 invoke evtId =
     (if invoke = NULL then return FAIL
      else do {
        e \<leftarrow> getEvt id;
        upd_invoke invoke (\<lambda>i. i\<lparr>isResultNotError := rr_isResultNotError e\<rparr>);
        upd_invoke invoke (\<lambda>i. i\<lparr>encodingType := rr_encodingType e\<rparr>);
        upd_invoke invoke (\<lambda>i. i\<lparr>userInvokeRef := rr_userInvokeRef e\<rparr>);
        r \<leftarrow> getInvoke invoke invokeRefNu;
        k \<leftarrow> erop_refKeep r invoke;
        if k = FAIL then return FAIL
        else do {
          erop_tmrSetValues invoke;
          i \<leftarrow> getInvoke invoke id;
          du \<leftarrow> (if isResultNotError i
                  then erop_resultPdu (invokeRefNu i) (rr_encodingType e) (rr_parameter e)
                  else erop_errorPdu (invokeRefNu i) (rr_encodingType e) (er_errorValue e) (er_parameter e));
          if du = NULL then return FAIL
          else do {
            erop_pduKeep invoke ResultPduSeq du;
            du2 \<leftarrow> erop_pduRetrieve invoke ResultPduSeq;
            if du2 = NULL then do { du_free du2; return FAIL }
            else do {
              rc \<leftarrow> UDP_dataReq (remTsapSel i) (remNsapAddr i) du2;
              du_free du2;
              t \<leftarrow> erop_tmrCreate invoke erop_resultPduRetranTimer (retransTimeout i) 0;
              if t = FAIL then return FAIL
              else do {
                erop_tmrCancel invoke erop_perfNoResponseTimer;
                return (if rc = FAIL then FAIL else SUCCESS)
              }
            }
          }
        }
      })"

definition tr_clPerformer03 :: "est fsm_func" where
  "tr_clPerformer03 invoke evtId =
     (if invoke = NULL then return FAIL
      else do {
        erop_tmrCancel invoke erop_allTimer;
        r1 \<leftarrow> erop_relPdu invoke ResultPduSeq;
        dropIt \<leftarrow> getCfg dropResultConfirm;
        if dropIt then do {
          upd_invoke invoke (\<lambda>i. i\<lparr>failureReason := ESRO_FailureTransmission\<rparr>);
          i \<leftarrow> getInvoke invoke id;
          r2 \<leftarrow> erop_failureInd invoke (userInvokeRef i) (failureReason i);
          erop_tmrCancel invoke erop_allTimer;
          r3 \<leftarrow> erop_relPdu invoke ResultPduSeq;
          t \<leftarrow> erop_tmrCreate invoke erop_refNuTimer (refKeepTime i) 0;
          if t = FAIL then return FAIL
          else return (if r1 = FAIL \<or> r2 = FAIL \<or> r3 = FAIL then FAIL else SUCCESS)
        }
        else do {
          i \<leftarrow> getInvoke invoke id;
          r2 \<leftarrow> (if isResultNotError i then erop_resultCnf invoke (userInvokeRef i)
                  else erop_errorCnf invoke (userInvokeRef i));
          t \<leftarrow> erop_tmrCreate invoke erop_refNuTimer (refKeepTime i) 0;
          if t = FAIL then return FAIL else return r2
        }
      })"

definition tr_clPerformer04 :: "est fsm_func" where
  "tr_clPerformer04 invoke evtId = do {
     type \<leftarrow> getPdu pd_pdutype;
     if type \<noteq> INVOKE_PDU then return FAIL
     else if invoke = NULL then return FAIL
     else do {
       data \<leftarrow> getPdu pd_data;
       (if data \<noteq> NULL then du_free data else skip);
       return SUCCESS
     }
   }"

definition tr_clPerformer05 :: "est fsm_func" where
  "tr_clPerformer05 invoke evtId =
     (if invoke = NULL then return FAIL
      else do {
        datum \<leftarrow> getEvt ti_datum;
        i \<leftarrow> getInvoke invoke id;
        if datum \<ge> nuOfRetrans i then do {
          t \<leftarrow> erop_tmrCreate invoke erop_lastTimer (rwait i) 0;
          if t = FAIL then return FAIL else return SUCCESS
        }
        else do {
          du \<leftarrow> erop_pduRetrieve invoke ResultPduSeq;
          if du = NULL then return FAIL
          else do {
            rc \<leftarrow> UDP_dataReq (remTsapSel i) (remNsapAddr i) du;
            du_free du;
            t \<leftarrow> erop_tmrCreate invoke erop_resultPduRetranTimer (retransTimeout i) (datum + 1);
            if t = FAIL then return FAIL
            else if rc = FAIL then return FAIL
            else do {
              NM_incCounter erop_pduRetranCounter 1;
              return SUCCESS
            }
          }
        }
      })"

definition tr_clPerformer06 :: "est fsm_func" where
  "tr_clPerformer06 invoke evtId =
     (if invoke = NULL then return FAIL
      else do {
        data \<leftarrow> getPdu pd_data;
        (if data \<noteq> NULL then du_free data else skip);
        du \<leftarrow> erop_pduRetrieve invoke ResultPduSeq;
        if du = NULL then return FAIL
        else do {
          i \<leftarrow> getInvoke invoke id;
          rc \<leftarrow> UDP_dataReq (remTsapSel i) (remNsapAddr i) du;
          if rc = FAIL then do { du_free du; return FAIL }
          else do {
            du_free du;
            erop_tmrCancel invoke erop_resultPduRetranTimer;
            t \<leftarrow> erop_tmrCreate invoke erop_resultPduRetranTimer (retransTimeout i) 0;
            if t = FAIL then return FAIL else return SUCCESS
          }
        }
      })"

definition tr_clPerformer07 :: "est fsm_func" where
  "tr_clPerformer07 invoke evtId = do {
     type \<leftarrow> getPdu pd_pdutype;
     if type \<noteq> INVOKE_PDU then return FAIL
     else if invoke = NULL then return FAIL
     else do {
       data \<leftarrow> getPdu pd_data;
       (if data \<noteq> NULL then du_free data else skip);
       erop_tmrCancel invoke erop_refNuTimer;
       keep \<leftarrow> getInvoke invoke refKeepTime;
       t \<leftarrow> erop_tmrCreate invoke erop_refNuTimer keep 0;
       if t = FAIL then return FAIL else return SUCCESS
     }
   }"

definition tr_clPerformer08 :: "est fsm_func" where
  "tr_clPerformer08 invoke evtId =
     (if invoke = NULL then return FAIL
      else do {
        upd_invoke invoke (\<lambda>i. i\<lparr>failureReason := ESRO_FailureLocResource\<rparr>);
        i \<leftarrow> getInvoke invoke id;
        r1 \<leftarrow> erop_failureInd invoke (userInvokeRef i) (failureReason i);
        r2 \<leftarrow> erop_sendFailurePdu (remTsapSel i) (remNsapAddr i) (invokeRefNu i)
                (to_byte ESRO_FailureUserNotResponding);
        erop_tmrCancel invoke erop_allTimer;
        r3 \<leftarrow> erop_relPdu invoke InvokePduSeq;
        _ \<leftarrow> sch_submit (erop_relInvokeT invoke) SCH_PSEUDO_EVENT;
        NM_incCounter erop_completeOperationCounter (- 1);
        return (if r1 = FAIL \<or> r2 = FAIL \<or> r3 = FAIL then FAIL else SUCCESS)
      })"

definition tr_clPerformer09 :: "est fsm_func" where
  "tr_clPerformer09 invoke evtId = do {
     upd_invoke invoke (\<lambda>i. i\<lparr>failureReason := ESRO_FailureTransmission\<rparr>);
     i \<leftarrow> getInvoke invoke id;
     r1 \<leftarrow> erop_failureInd invoke (userInvokeRef i) (failureReason i);
     erop_tmrCancel invoke erop_allTimer;
     r2 \<leftarrow> erop_relPdu invoke ResultPduSeq;
     t \<leftarrow> erop_tmrCreate invoke erop_refNuTimer (refKeepTime i) 0;
     if t = FAIL then return FAIL
     else return (if r1 = FAIL \<or> r2 = FAIL then FAIL else SUCCESS)
   }"

definition tr_clPerformer10 :: "est fsm_func" where
  "tr_clPerformer10 invoke evtId = do {
     name \<leftarrow> getEvt ti_name;
     if name \<noteq> erop_refNuTimer then return FAIL
     else if invoke = NULL then return FAIL
     else sch_submit (erop_relInvokeT invoke) SCH_PSEUDO_EVENT
   }"

definition tr_clPerformer11 :: "est fsm_func" where
  "tr_clPerformer11 invoke evtId = do {
     type \<leftarrow> getPdu pd_pdutype;
     if type \<noteq> ACK_PDU then return FAIL
     else if invoke = NULL then return FAIL
     else do {
       data \<leftarrow> getPdu pd_data;
       (if data \<noteq> NULL then du_free data else skip);
       erop_tmrCancel invoke erop_refNuTimer;
       keep \<leftarrow> getInvoke invoke refKeepTime;
       t \<leftarrow> erop_tmrCreate invoke erop_refNuTimer keep 0;
       if t = FAIL then return FAIL else return SUCCESS
     }
   }"

definition tr_clPerformer12 :: "est fsm_func" where
  "tr_clPerformer12 invoke evtId = return SUCCESS"


section \<open>2-way handshake\<close>

definition tr_2clPerformer01 :: "est fsm_func" where
  "tr_2clPerformer01 invoke evtId = do {
     type \<leftarrow> getPdu pd_pdutype;
     if type \<noteq> INVOKE_PDU then return FAIL
     else if invoke = NULL then return FAIL
     else do {
       p \<leftarrow> getPdu id;
       upd_invoke invoke (\<lambda>i. i\<lparr>remEsroSapSel := pd_fromESROSap p\<rparr>);
       upd_invoke invoke (\<lambda>i. i\<lparr>remTsapSel := pd_fromTsapSel p\<rparr>);
       upd_invoke invoke (\<lambda>i. i\<lparr>remNsapAddr := pd_fromNsapAddr p\<rparr>);
       upd_invoke invoke (\<lambda>i. i\<lparr>encodingType := pd_encodingType p\<rparr>);
       upd_invoke invoke (\<lambda>i. i\<lparr>invokeRefNu := pd_invokeRefNu p\<rparr>);
       erop_tmrSetValues invoke;
       i \<leftarrow> getInvoke invoke id;
       sel \<leftarrow> gets (\<lambda>s. sapSel (e_sap s (locSap i)));
       r \<leftarrow> erop_invokeInd invoke sel (remEsroSapSel i) (pd_operationValue p) (encodingType i) (pd_data p);
       if r = FAIL then do {
         du_free (pd_data p);
         return FAIL
       }
       else do {
         t \<leftarrow> erop_tmrCreate invoke erop_perfNoResponseTimer (perfNoResponse i) 0;
         if t = FAIL then return FAIL
         else do {
           NM_incCounter erop_completeOperationCounter 1;
           return SUCCESS
         }
       }
     }
   }"

definition tr_2clPerformer02 :: "est fsm_func" where
  "tr_2clPerformer02 invoke evtId = do {
     type \<leftarrow> getPdu pd_pdutype;
     if type \<noteq> INVOKE_PDU then return FAIL
     else if invoke = NULL then return FAIL
     else do {
       data \<leftarrow> getPdu pd_data;
       (if data \<noteq> NULL then du_free data else skip);
       return SUCCESS
     }
   }"

text \<open>The view that was sent is not freed: the call of \<^verbatim>\<open>DU_free\<close> is in a comment.\<close>

definition tr_2clPerformer03 :: "est fsm_func" where
  "tr_2clPerformer03 invoke evtId =
     (if invoke = NULL then return FAIL
      else do {
        e \<leftarrow> getEvt id;
        upd_invoke invoke (\<lambda>i. i\<lparr>isResultNotError := rr_isResultNotError e\<rparr>);
        upd_invoke invoke (\<lambda>i. i\<lparr>encodingType := rr_encodingType e\<rparr>);
        upd_invoke invoke (\<lambda>i. i\<lparr>userInvokeRef := rr_userInvokeRef e\<rparr>);
        r \<leftarrow> getInvoke invoke invokeRefNu;
        k \<leftarrow> erop_refKeep r invoke;
        if k = FAIL then return FAIL
        else do {
          erop_tmrSetValues invoke;
          i \<leftarrow> getInvoke invoke id;
          du \<leftarrow> (if isResultNotError i
                  then erop_resultPdu (invokeRefNu i) (rr_encodingType e) (rr_parameter e)
                  else erop_errorPdu (invokeRefNu i) (rr_encodingType e) (er_errorValue e) (er_parameter e));
          if du = NULL then return FAIL
          else do {
            erop_pduKeep invoke ResultPduSeq du;
            du2 \<leftarrow> erop_pduRetrieve invoke ResultPduSeq;
            if du2 = NULL then return FAIL
            else do {
              rc \<leftarrow> UDP_dataReq (remTsapSel i) (remNsapAddr i) du2;
              t \<leftarrow> erop_tmrCreate invoke erop_inactivityTimer (inactivityDelay i) 0;
              if t = FAIL then return FAIL
              else do {
                erop_tmrCancel invoke erop_perfNoResponseTimer;
                return (if rc = FAIL then FAIL else SUCCESS)
              }
            }
          }
        }
      })"

definition tr_2clPerformer04 :: "est fsm_func" where
  "tr_2clPerformer04 invoke evtId =
     (if invoke = NULL then return FAIL
      else do {
        upd_invoke invoke (\<lambda>i. i\<lparr>failureReason := ESRO_FailureLocResource\<rparr>);
        i \<leftarrow> getInvoke invoke id;
        r1 \<leftarrow> erop_failureInd invoke (userInvokeRef i) (failureReason i);
        r2 \<leftarrow> erop_sendFailurePdu (remTsapSel i) (remNsapAddr i) (invokeRefNu i)
                (to_byte ESRO_FailureUserNotResponding);
        erop_tmrCancel invoke erop_allTimer;
        r3 \<leftarrow> erop_relPdu invoke InvokePduSeq;
        _ \<leftarrow> sch_submit (erop_relInvokeT invoke) SCH_PSEUDO_EVENT;
        NM_incCounter erop_completeOperationCounter (- 1);
        return (if r1 = FAIL \<or> r2 = FAIL \<or> r3 = FAIL then FAIL else SUCCESS)
      })"

definition tr_2clPerformer05 :: "est fsm_func" where
  "tr_2clPerformer05 invoke evtId =
     (if invoke = NULL then return FAIL
      else do {
        data \<leftarrow> getPdu pd_data;
        (if data \<noteq> NULL then du_free data else skip);
        du \<leftarrow> erop_pduRetrieve invoke ResultPduSeq;
        if du = NULL then return FAIL
        else do {
          i \<leftarrow> getInvoke invoke id;
          rc \<leftarrow> UDP_dataReq (remTsapSel i) (remNsapAddr i) du;
          if rc = FAIL then do { du_free du; return FAIL }
          else do {
            du_free du;
            erop_tmrCancel invoke erop_resultPduRetranTimer;
            t \<leftarrow> erop_tmrCreate invoke erop_resultPduRetranTimer (retransTimeout i) 0;
            if t = FAIL then return FAIL else return SUCCESS
          }
        }
      })"

text \<open>The value of \<^verbatim>\<open>erop_relPdu\<close> is overwritten by that of the confirmation.\<close>

definition tr_2clPerformer06 :: "est fsm_func" where
  "tr_2clPerformer06 invoke evtId = do {
     erop_tmrCancel invoke erop_allTimer;
     _ \<leftarrow> erop_relPdu invoke ResultPduSeq;
     i \<leftarrow> getInvoke invoke id;
     r2 \<leftarrow> (if isResultNotError i then erop_resultCnf invoke (userInvokeRef i)
             else erop_errorCnf invoke (userInvokeRef i));
     t \<leftarrow> erop_tmrCreate invoke erop_refNuTimer (refKeepTime i) 0;
     if t = FAIL then return FAIL else return r2
   }"

definition tr_2clPerformer07 :: "est fsm_func" where
  "tr_2clPerformer07 invoke evtId = do {
     type \<leftarrow> getPdu pd_pdutype;
     if type \<noteq> INVOKE_PDU then return FAIL
     else if invoke = NULL then return FAIL
     else do {
       data \<leftarrow> getPdu pd_data;
       (if data \<noteq> NULL then du_free data else skip);
       erop_tmrCancel invoke erop_refNuTimer;
       keep \<leftarrow> getInvoke invoke refKeepTime;
       t \<leftarrow> erop_tmrCreate invoke erop_refNuTimer keep 0;
       if t = FAIL then return FAIL else return SUCCESS
     }
   }"

definition tr_2clPerformer08 :: "est fsm_func" where
  "tr_2clPerformer08 invoke evtId = do {
     name \<leftarrow> getEvt ti_name;
     if name \<noteq> erop_refNuTimer then return FAIL
     else if invoke = NULL then return FAIL
     else sch_submit (erop_relInvokeT invoke) SCH_PSEUDO_EVENT
   }"

text \<open>The 2-way actions that do what a 3-way action does.\<close>

lemma tr_2clPerformer_same:
  "tr_2clPerformer02 = tr_clPerformer04" "tr_2clPerformer04 = tr_clPerformer08"
  "tr_2clPerformer05 = tr_clPerformer06" "tr_2clPerformer07 = tr_clPerformer07"
  "tr_2clPerformer08 = tr_clPerformer10"
  by (intro ext, simp add: tr_2clPerformer02_def tr_clPerformer04_def tr_2clPerformer04_def
      tr_clPerformer08_def tr_2clPerformer05_def tr_clPerformer06_def tr_2clPerformer07_def
      tr_clPerformer07_def tr_2clPerformer08_def tr_clPerformer10_def)+

end
