(* ===== verification/Erop_Diagrams.thy ===== *)
theory Erop_Diagrams
  imports Erop_Invoker Erop_Performer
begin

text \<open>
  The transition diagrams of the four machines (\<^verbatim>\<open>clinvktd.c\<close>, \<^verbatim>\<open>clinvtd2.c\<close>,
  \<^verbatim>\<open>clperftd.c\<close>, \<^verbatim>\<open>clpertd2.c\<close>), as the tables the interpreter of theory Fsm
  reads. They satisfy the contract \<open>fsm_engine\<close>, which gives the effect of every event in
  every state.
\<close>

section \<open>Tables\<close>

definition tr_badEventIgnore :: "est fsm_func" where
  "tr_badEventIgnore machine evtId = return SUCCESS"

definition tr_2badEventIgnore :: "est fsm_func" where
  "tr_2badEventIgnore machine evtId = return SUCCESS"

definition lsfsm_ePass :: "est fsm_func" where
  "lsfsm_ePass machine evtId = return SUCCESS"

definition lsfsm_xPass :: "est fsm_func" where
  "lsfsm_xPass machine evtId = return SUCCESS"

text \<open>A row: no predicate, an action, the next state. A state: its table and the two passes.\<close>

definition fsm_row :: "int \<Rightarrow> est fsm_func \<Rightarrow> fsmst \<Rightarrow> string \<Rightarrow> (fsmst, est) fsm_trans" where
  "fsm_row e f q n = \<lparr>t_evtId = e, t_predicate = None, t_action = Some f, t_nextState = Some q, t_name = n\<rparr>"

definition fsm_st :: "(fsmst, est) fsm_trans list \<Rightarrow> string \<Rightarrow> (fsmst, est) fsm_state" where
  "fsm_st ts n = \<lparr>s_entry = Some lsfsm_ePass, s_exit = Some lsfsm_xPass, s_trans = ts, s_name = n\<rparr>"

definition lsfsm_tCLInvokerStart :: "(fsmst, est) fsm_trans list" where
  "lsfsm_tCLInvokerStart = [
     fsm_row lsfsm_EvtInvokeReq tr_clInvoker01 lsfsm_sInvokePduSent ''U:Invoke.Req'',
     fsm_row FSM_EvtDefault tr_badEventIgnore lsfsm_sCLInvokerStart ''I:BadEventIgnored'']"

definition lsfsm_tInvokePduSent :: "(fsmst, est) fsm_trans list" where
  "lsfsm_tInvokePduSent = [
     fsm_row lsfsm_EvtInvokePduRetranTimer tr_clInvoker02 lsfsm_sInvokePduSent ''T:RetranInvokePdu'',
     fsm_row lsfsm_EvtLastTimer tr_clInvoker03 lsfsm_sInvokerRefWait ''T:LastRetran'',
     fsm_row lsfsm_EvtPduResult tr_clInvoker04 lsfsm_sAckPduSent ''P:ResultPdu'',
     fsm_row lsfsm_EvtPduFailure tr_clInvoker05 lsfsm_sInvokerRefWait ''P:FailurePdu'',
     fsm_row lsfsm_EvtPduAck tr_clInvoker06 lsfsm_sInvokePduSent ''P:AckPdu'',
     fsm_row FSM_EvtDefault tr_badEventIgnore lsfsm_sInvokePduSent ''I:BadEventIgnored'']"

definition lsfsm_tAckPduSent :: "(fsmst, est) fsm_trans list" where
  "lsfsm_tAckPduSent = [
     fsm_row lsfsm_EvtPduResult tr_clInvoker07 lsfsm_sAckPduSent ''P:DuplicateResultPdu'',
     fsm_row lsfsm_EvtInactivityTimer tr_clInvoker10 lsfsm_sInvokerRefWait ''T:Inactivity'',
     fsm_row FSM_EvtDefault tr_badEventIgnore lsfsm_sAckPduSent ''I:BadEventIgnored'']"

definition lsfsm_tInvokerRefWait :: "(fsmst, est) fsm_trans list" where
  "lsfsm_tInvokerRefWait = [
     fsm_row lsfsm_EvtRefNuTimer tr_clInvoker08 lsfsm_sCLInvokerStart ''T:InvokerRefWait'',
     fsm_row lsfsm_EvtPduResult tr_clInvoker09 lsfsm_sInvokerRefWait ''P:DuplicateResultPdu'',
     fsm_row FSM_EvtDefault tr_badEventIgnore lsfsm_sInvokerRefWait ''I:BadEventIgnored'']"

definition lsfsm_t2CLInvokerStart :: "(fsmst, est) fsm_trans list" where
  "lsfsm_t2CLInvokerStart = [
     fsm_row lsfsm_EvtInvokeReq tr_2clInvoker01 lsfsm_s2InvokePduSent ''U:Invoke.Req'',
     fsm_row FSM_EvtDefault tr_2badEventIgnore lsfsm_s2CLInvokerStart ''I:BadEventIgnored'']"

definition lsfsm_t2InvokePduSent :: "(fsmst, est) fsm_trans list" where
  "lsfsm_t2InvokePduSent = [
     fsm_row lsfsm_EvtInvokePduRetranTimer tr_2clInvoker02 lsfsm_s2InvokePduSent ''T:RetranInvokePdu'',
     fsm_row lsfsm_EvtLastTimer tr_2clInvoker03 lsfsm_s2InvokerRefWait ''T:LastRetran'',
     fsm_row lsfsm_EvtPduResult tr_2clInvoker04 lsfsm_s2InvokerRefWait ''P:ResultPdu'',
     fsm_row lsfsm_EvtPduFailure tr_2clInvoker05 lsfsm_s2InvokerRefWait ''P:FailurePdu'',
     fsm_row FSM_EvtDefault tr_2badEventIgnore lsfsm_s2InvokePduSent ''I:BadEventIgnored'']"

definition lsfsm_t2InvokerRefWait :: "(fsmst, est) fsm_trans list" where
  "lsfsm_t2InvokerRefWait = [
     fsm_row lsfsm_EvtRefNuTimer tr_2clInvoker07 lsfsm_s2CLInvokerStart ''T:InvokerRefWait'',
     fsm_row lsfsm_EvtPduResult tr_2clInvoker06 lsfsm_s2InvokerRefWait ''P:DuplicateResultPdu'',
     fsm_row FSM_EvtDefault tr_2badEventIgnore lsfsm_s2InvokerRefWait ''I:BadEventIgnored'']"

definition lsfsm_tCLPerformerStart :: "(fsmst, est) fsm_trans list" where
  "lsfsm_tCLPerformerStart = [
     fsm_row lsfsm_EvtPduInvoke tr_clPerformer01 lsfsm_sInvokePduReceived ''P:InvokePdu'',
     fsm_row FSM_EvtDefault tr_badEventIgnore lsfsm_sCLPerformerStart ''I:BadEventIgnored'']"

definition lsfsm_tInvokePduReceived :: "(fsmst, est) fsm_trans list" where
  "lsfsm_tInvokePduReceived = [
     fsm_row lsfsm_EvtResultReq tr_clPerformer02 lsfsm_sAckPduWait ''U:ResulReq'',
     fsm_row lsfsm_EvtPduInvoke tr_clPerformer04 lsfsm_sInvokePduReceived ''P:DuplicateInvokePdu'',
     fsm_row FSM_EvtInternal tr_clPerformer08 lsfsm_sCLPerformerStart ''I:Failure'',
     fsm_row lsfsm_EvtPerfNoResponseTimer tr_clPerformer08 lsfsm_sCLPerformerStart ''I:Failure'',
     fsm_row FSM_EvtDefault tr_badEventIgnore lsfsm_sInvokePduReceived ''I:BadEventIgnored'']"

definition lsfsm_tAckPduWait :: "(fsmst, est) fsm_trans list" where
  "lsfsm_tAckPduWait = [
     fsm_row lsfsm_EvtPduAck tr_clPerformer03 lsfsm_sPerformerRefWait ''P:AckPdu'',
     fsm_row lsfsm_EvtResultPduRetranTimer tr_clPerformer05 lsfsm_sAckPduWait ''T:RetranResultPdu'',
     fsm_row lsfsm_EvtLastTimer tr_clPerformer09 lsfsm_sPerformerRefWait ''T:LastRetranResultPdu'',
     fsm_row lsfsm_EvtPduInvoke tr_clPerformer06 lsfsm_sAckPduWait ''P:DuplicateInvokePdu'',
     fsm_row FSM_EvtDefault tr_badEventIgnore lsfsm_sAckPduWait ''I:BadEventIgnored'']"

definition lsfsm_tPerformerRefWait :: "(fsmst, est) fsm_trans list" where
  "lsfsm_tPerformerRefWait = [
     fsm_row lsfsm_EvtRefNuTimer tr_clPerformer10 lsfsm_sCLPerformerStart ''T:PerformerRefWait'',
     fsm_row lsfsm_EvtPduInvoke tr_clPerformer07 lsfsm_sPerformerRefWait ''P:DuplicateInvokePdu'',
     fsm_row lsfsm_EvtPduAck tr_clPerformer11 lsfsm_sPerformerRefWait ''P:DuplicateAckPdu'',
     fsm_row FSM_EvtDefault tr_badEventIgnore lsfsm_sPerformerRefWait ''I:BadEventIgnored'']"

definition lsfsm_t2CLPerformerStart :: "(fsmst, est) fsm_trans list" where
  "lsfsm_t2CLPerformerStart = [
     fsm_row lsfsm_EvtPduInvoke tr_2clPerformer01 lsfsm_s2InvokePduReceived ''P:InvokePdu'',
     fsm_row FSM_EvtDefault tr_2badEventIgnore lsfsm_s2CLPerformerStart ''I:BadEventIgnored'']"

definition lsfsm_t2InvokePduReceived :: "(fsmst, est) fsm_trans list" where
  "lsfsm_t2InvokePduReceived = [
     fsm_row lsfsm_EvtResultReq tr_2clPerformer03 lsfsm_s2ResultPduRetrans ''U:ResulReq'',
     fsm_row lsfsm_EvtPduInvoke tr_2clPerformer02 lsfsm_s2InvokePduReceived ''P:DuplicateInvokePdu'',
     fsm_row FSM_EvtInternal tr_2clPerformer04 lsfsm_s2CLPerformerStart ''I:Failure'',
     fsm_row lsfsm_EvtPerfNoResponseTimer tr_2clPerformer04 lsfsm_s2CLPerformerStart ''I:Failure'',
     fsm_row FSM_EvtDefault tr_2badEventIgnore lsfsm_s2InvokePduReceived ''I:BadEventIgnored'']"

definition lsfsm_t2ResultPduRetrans :: "(fsmst, est) fsm_trans list" where
  "lsfsm_t2ResultPduRetrans = [
     fsm_row lsfsm_EvtInactivityTimer tr_2clPerformer06 lsfsm_s2PerformerRefWait ''T:LastRetranResultPdu'',
     fsm_row lsfsm_EvtPduInvoke tr_2clPerformer05 lsfsm_s2ResultPduRetrans ''P:DuplicateInvokePdu'',
     fsm_row FSM_EvtDefault tr_2badEventIgnore lsfsm_s2ResultPduRetrans ''I:BadEventIgnored'']"

definition lsfsm_t2PerformerRefWait :: "(fsmst, est) fsm_trans list" where
  "lsfsm_t2PerformerRefWait = [
     fsm_row lsfsm_EvtRefNuTimer tr_2clPerformer08 lsfsm_s2CLPerformerStart ''T:PerformerRefWait'',
     fsm_row lsfsm_EvtPduInvoke tr_2clPerformer07 lsfsm_s2PerformerRefWait ''P:DuplicateInvokePdu'',
     fsm_row FSM_EvtDefault tr_2badEventIgnore lsfsm_s2PerformerRefWait ''I:BadEventIgnored'']"

lemmas diag_tables = lsfsm_tCLInvokerStart_def lsfsm_tInvokePduSent_def lsfsm_tAckPduSent_def
  lsfsm_tInvokerRefWait_def lsfsm_t2CLInvokerStart_def lsfsm_t2InvokePduSent_def
  lsfsm_t2InvokerRefWait_def lsfsm_tCLPerformerStart_def lsfsm_tInvokePduReceived_def
  lsfsm_tAckPduWait_def lsfsm_tPerformerRefWait_def lsfsm_t2CLPerformerStart_def
  lsfsm_t2InvokePduReceived_def lsfsm_t2ResultPduRetrans_def lsfsm_t2PerformerRefWait_def

fun diagTbl :: "fsmst \<Rightarrow> (fsmst, est) fsm_state" where
  "diagTbl lsfsm_sCLInvokerStart = fsm_st lsfsm_tCLInvokerStart ''CL-InvokerStart-State''"
| "diagTbl lsfsm_sInvokePduSent = fsm_st lsfsm_tInvokePduSent ''CL-InvokePduSent-State''"
| "diagTbl lsfsm_sAckPduSent = fsm_st lsfsm_tAckPduSent ''CL-AckPduSent-State''"
| "diagTbl lsfsm_sInvokerRefWait = fsm_st lsfsm_tInvokerRefWait ''CL-InvokerRefWait-State''"
| "diagTbl lsfsm_s2CLInvokerStart = fsm_st lsfsm_t2CLInvokerStart ''CL2-InvokerStart-State''"
| "diagTbl lsfsm_s2InvokePduSent = fsm_st lsfsm_t2InvokePduSent ''CL2-InvokePduSent-State''"
| "diagTbl lsfsm_s2InvokerRefWait = fsm_st lsfsm_t2InvokerRefWait ''CL2-InvokerRefWait-State''"
| "diagTbl lsfsm_sCLPerformerStart = fsm_st lsfsm_tCLPerformerStart ''CL-PerformerStart-State''"
| "diagTbl lsfsm_sInvokePduReceived = fsm_st lsfsm_tInvokePduReceived ''CL-InvokePduReceived-State''"
| "diagTbl lsfsm_sAckPduWait = fsm_st lsfsm_tAckPduWait ''CL-AckPduWait-State''"
| "diagTbl lsfsm_sPerformerRefWait = fsm_st lsfsm_tPerformerRefWait ''CL-PerformerRefWait-State''"
| "diagTbl lsfsm_s2CLPerformerStart = fsm_st lsfsm_t2CLPerformerStart ''CL2-PerformerStart-State''"
| "diagTbl lsfsm_s2InvokePduReceived = fsm_st lsfsm_t2InvokePduReceived ''CL2-InvokePduReceived-State''"
| "diagTbl lsfsm_s2ResultPduRetrans = fsm_st lsfsm_t2ResultPduRetrans ''CL2-ResultPduRetrans-State''"
| "diagTbl lsfsm_s2PerformerRefWait = fsm_st lsfsm_t2PerformerRefWait ''CL2-PerformerRefWait-State''"

text \<open>
  The diagrams; their creation, which allocates them once, is taken to have succeeded.
\<close>

fun diag :: "diagram \<Rightarrow> fsmst fsm_transDiagram" where
  "diag CLInvokerTransDiag = \<lparr>d_state = lsfsm_sCLInvokerStart, d_name = ''CLInvokerTransDiag''\<rparr>"
| "diag D2CLInvokerTransDiag = \<lparr>d_state = lsfsm_s2CLInvokerStart, d_name = ''2CLInvokerTransDiag''\<rparr>"
| "diag CLPerformerTransDiag = \<lparr>d_state = lsfsm_sCLPerformerStart, d_name = ''CLPerformerTransDiag''\<rparr>"
| "diag D2CLPerformerTransDiag =
     \<lparr>d_state = lsfsm_s2CLPerformerStart, d_name = ''2CLPerformerTransDiag''\<rparr>"


section \<open>The interpreter on the invocations\<close>

text \<open>A machine is an invocation: its first fields are those of \<^verbatim>\<open>FSM_Machine\<close>.\<close>

definition getCurState :: "ptr \<Rightarrow> est \<Rightarrow> fsmst option" where
  "getCurState m s = curState (e_invoke s m)"

definition setCurState :: "ptr \<Rightarrow> fsmst option \<Rightarrow> unit eprog" where
  "setCurState m q = upd_invoke m (\<lambda>i. i\<lparr>curState := q\<rparr>)"

definition runMachine :: "ptr \<Rightarrow> int \<Rightarrow> int eprog" where
  "runMachine = FSM_runMachine diagTbl getCurState setCurState"

interpretation erop: fsm_engine diagTbl getCurState setCurState e_aborted
proof unfold_locales
  fix t q m e s f q' and g :: "est fsm_func"
  show "t \<in> set (s_trans (diagTbl q)) \<Longrightarrow> t_nextState t \<noteq> None"
    by (cases q) (auto simp: diag_tables fsm_row_def fsm_st_def)
  show "s_trans (diagTbl q) \<noteq> []" "t_evtId (last (s_trans (diagTbl q))) = FSM_EvtDefault"
    by (cases q; simp add: diag_tables fsm_row_def fsm_st_def)+
  show "t \<in> set (s_trans (diagTbl q)) \<Longrightarrow> t_predicate t = None"
    by (cases q) (auto simp: diag_tables fsm_row_def fsm_st_def)
  show "s_entry (diagTbl q) = Some g \<Longrightarrow> exec (g m e) s = s"
    by (cases q) (auto simp: fsm_st_def lsfsm_ePass_def run_simps)
  show "s_exit (diagTbl q) = Some g \<Longrightarrow> exec (g m e) s = s"
    by (cases q) (auto simp: fsm_st_def lsfsm_xPass_def run_simps)
  show "\<not> e_aborted s \<Longrightarrow> getCurState m (exec (setCurState m q') s) = q'"
    by (simp add: getCurState_def setCurState_def est_run)
qed

text \<open>
  The diagram as a function: the state after an event, and the action. It is computed from the
  tables, by the first row that matches.
\<close>

definition next_st :: "fsmst \<Rightarrow> int \<Rightarrow> fsmst" where
  "next_st q e = the (t_nextState (erop.row q e))"

definition act :: "fsmst \<Rightarrow> int \<Rightarrow> est fsm_func" where
  "act q e = the (t_action (erop.row q e))"

lemma row_Some: "t_nextState (erop.row q e) = Some (next_st q e)" "t_action (erop.row q e) = Some (act q e)"
proof -
  have "\<exists>t\<in>set (s_trans (diagTbl q)). erop.row q e = t"
    using erop.scan_row(3) by blast
  then have "t_nextState (erop.row q e) \<noteq> None" "t_action (erop.row q e) \<noteq> None"
    by (cases q; force simp: diag_tables fsm_row_def fsm_st_def)+
  then show "t_nextState (erop.row q e) = Some (next_st q e)" "t_action (erop.row q e) = Some (act q e)"
    by (auto simp: next_st_def act_def)
qed

lemma runMachine_effect:
  assumes "m \<noteq> NULL" "curState (e_invoke s m) = Some q"
  shows "result (runMachine m e) s = SUCCESS"
    and "exec (runMachine m e) s = exec (setCurState m (Some (next_st q e))) (exec (act q e m e) s)"
  using erop.run [of m s q e] assms
  by (simp_all add: runMachine_def getCurState_def row_Some exec_fsm_call)

lemma runMachine_none:
  assumes "m = NULL \<or> curState (e_invoke s m) = None"
  shows "result (runMachine m e) s = FAIL" "exec (runMachine m e) s = s"
  using erop.run_no_machine [of m s e] assms by (auto simp: runMachine_def getCurState_def)

lemma keeps_runMachine:
  assumes "\<And>q. keeps P (setCurState m (Some q))" "\<And>q. keeps P (act q e m e)"
  shows "keeps P (runMachine m e)"
proof (rule keepsI)
  fix s assume "P s"
  then show "P (exec (runMachine m e) s)"
    using assms runMachine_effect(2) [of m s _ e] runMachine_none(2) [of m s e]
    by (cases "m = NULL \<or> curState (e_invoke s m) = None") (auto simp: keeps_def)
qed

end
