(* ===== verification/Erop_Engine.thy ===== *)
theory Erop_Engine
  imports Erop_Diagrams
begin

text \<open>
  The operations the world calls: the service access points (\<^verbatim>\<open>erop_sap.c\<close>), the
  requests of the user (\<^verbatim>\<open>userin.c\<close>), the arrival of a PDU (\<^verbatim>\<open>pduin.c\<close>,
  \<^verbatim>\<open>lowerind.c\<close>, \<^verbatim>\<open>udp_receive\<close> of \<^verbatim>\<open>udp_if.c\<close>), the expiry of a timer
  (\<^verbatim>\<open>erop_timerRsp\<close> of \<^verbatim>\<open>tmr_if.c\<close>) and the tasks the scheduler runs.
\<close>

unbundle bit_operations_syntax

section \<open>Service access points\<close>

definition erop_getSapInfo :: "u8 \<Rightarrow> ptr eprog" where
  "erop_getSapInfo sel = gets (\<lambda>s.
     case find (\<lambda>p. sapSel (e_sap s p) = sel) (e_sapSeq s) of Some p \<Rightarrow> p | None \<Rightarrow> NULL)"

text \<open>
  The user's functions are not stored: every call into them is recorded instead. The second
  component of the result is the descriptor, stored only on success.
\<close>

definition EROP_sapBind :: "u8 \<Rightarrow> int \<Rightarrow> (int \<times> ptr option) eprog" where
  "EROP_sapBind sel funcUnit =
     (if sel = 0 then return (- 3, None)
      else if sel > ESRO_MAX_SAP_NO then return (- 6, None)
      else do {
        sapInfo \<leftarrow> SEQ_elemObtain;
        if sapInfo = NULL then return (- 2, None)
        else do {
          old \<leftarrow> erop_getSapInfo sel;
          if old \<noteq> NULL then return (- 4, None)
          else if funcUnit \<noteq> ESRO_3Way \<and> funcUnit \<noteq> ESRO_2Way then return (- 5, None)
          else do {
            upd_sap sapInfo (\<lambda>p. p\<lparr>sapSel := sel\<rparr>);
            upd_sap sapInfo (\<lambda>p. p\<lparr>functionalUnit := funcUnit\<rparr>);
            upd (\<lambda>s. s\<lparr>e_sapSeq := e_sapSeq s @ [sapInfo]\<rparr>);
            upd_sap sapInfo (\<lambda>p. p\<lparr>invokeSeq := []\<rparr>);
            noShell \<leftarrow> getCfg noUpshell;
            return (0, Some (if noShell then unat sel else sapInfo))
          }
        }
      })"

text \<open>
  Only the first invocation of the access point is released, then its queue is emptied. The
  loops over \<^verbatim>\<open>refToPerformerMap\<close> and \<^verbatim>\<open>refToInvokerMap\<close>, which are declared here as
  arrays of pointers and are pointers to queue heads, are not modelled.
\<close>

definition EROP_sapUnbind :: "u8 \<Rightarrow> int eprog" where
  "EROP_sapUnbind sel = do {
     sap \<leftarrow> erop_getSapInfo sel;
     if sap = NULL then return FAIL
     else do {
       q \<leftarrow> gets (\<lambda>s. invokeSeq (e_sap s sap));
       (case q of
          [] \<Rightarrow> skip
        | invoke # _ \<Rightarrow> do {
            erop_tmrCancel invoke erop_allTimer;
            erop_refFree invoke;
            upd_env (\<lambda>e. e\<lparr>lopsFreed := lopsFreed e @ [invoke]\<rparr>);
            erop_invokeInfoFree invoke;
            upd_sap sap (\<lambda>p. p\<lparr>invokeSeq := []\<rparr>)
          });
       upd (\<lambda>s. s\<lparr>e_sapSeq := removeAll sap (e_sapSeq s)\<rparr>);
       return SUCCESS
     }
   }"


section \<open>Requests of the user\<close>

text \<open>\<^verbatim>\<open>*invokeDesc\<close> is the second component of the result, stored only on success.\<close>

definition EROP_invokeReq ::
  "nat \<Rightarrow> u8 \<Rightarrow> u8 \<Rightarrow> T_SapSel \<Rightarrow> N_SapAddr \<Rightarrow> int \<Rightarrow> int \<Rightarrow> ptr \<Rightarrow> (int \<times> ptr option) eprog" where
  "EROP_invokeReq userRef locESROSap remESROSap remTsap remNsap opValue encType parameter = do {
     sap \<leftarrow> erop_getSapInfo locESROSap;
     if sap = NULL then return (FAIL, None)
     else do {
       invoke \<leftarrow> erop_invokeInfoCreate sap;
       if invoke = NULL then return (FAIL, None)
       else do {
         size \<leftarrow> du_size parameter;
         maxSize \<leftarrow> getCfg invokePduSize;
         if parameter \<noteq> NULL \<and> size > maxSize then return (FAIL, None)
         else do {
           eropView \<leftarrow> du_link parameter;
           upd_evt (\<lambda>e. e\<lparr>ir_userInvokeRef := userRef, ir_remESROSap := remESROSap,
             ir_remTsap := remTsap, ir_remNsap := remNsap, ir_opValue := opValue,
             ir_encodingType := encType, ir_parameter := eropView\<rparr>);
           funcUnit \<leftarrow> gets (\<lambda>s. functionalUnit (e_sap s sap));
           if funcUnit \<noteq> ESRO_3Way \<and> funcUnit \<noteq> ESRO_2Way then return (FAIL, None)
           else do {
             let d = (if funcUnit = ESRO_3Way then CLInvokerTransDiag else D2CLInvokerTransDiag);
             upd_invoke invoke (\<lambda>i. i\<lparr>transDiag := Some d\<rparr>);
             upd_invoke invoke (\<lambda>i. i\<lparr>curState := Some (d_state (diag d))\<rparr>);
             upd_invoke invoke (\<lambda>i. i\<lparr>performingNotInvoking := False\<rparr>);
             gotVal \<leftarrow> runMachine invoke lsfsm_EvtInvokeReq;
             if gotVal < 0 then return (FAIL, None) else return (SUCCESS, Some invoke)
           }
         }
       }
     }
   }"

definition EROP_resultReq :: "ptr \<Rightarrow> nat \<Rightarrow> int \<Rightarrow> ptr \<Rightarrow> int eprog" where
  "EROP_resultReq invokeDesc userRef encType parameter = do {
     duLink \<leftarrow> (if parameter \<noteq> NULL then du_link parameter else return NULL);
     upd_evt (\<lambda>e. e\<lparr>rr_isResultNotError := True, rr_userInvokeRef := userRef,
       rr_encodingType := encType, rr_parameter := duLink\<rparr>);
     gotVal \<leftarrow> runMachine invokeDesc lsfsm_EvtResultReq;
     (if gotVal < 0 \<and> duLink \<noteq> NULL then du_free duLink else skip);
     return gotVal
   }"

text \<open>When the machine could not be run it is \<^verbatim>\<open>parameter\<close>, not its link, that is freed.\<close>

definition EROP_errorReq :: "ptr \<Rightarrow> nat \<Rightarrow> int \<Rightarrow> int \<Rightarrow> ptr \<Rightarrow> int eprog" where
  "EROP_errorReq invokeDesc userRef encType errValue parameter = do {
     duLink \<leftarrow> (if parameter \<noteq> NULL then du_link parameter else return NULL);
     upd_evt (\<lambda>e. e\<lparr>rr_isResultNotError := False, rr_userInvokeRef := userRef,
       rr_encodingType := encType, er_errorValue := errValue, er_parameter := duLink\<rparr>);
     gotVal \<leftarrow> runMachine invokeDesc lsfsm_EvtResultReq;
     (if gotVal < 0 \<and> duLink \<noteq> NULL then du_free parameter else skip);
     return gotVal
   }"


section \<open>Arrival of a PDU\<close>

definition erop_getInvoke :: "ptr eprog" where
  "erop_getInvoke = do {
     p \<leftarrow> getPdu id;
     if pd_pdutype p = INVOKE_PDU then do {
       sap \<leftarrow> erop_getSapInfo (pd_toESROSap p);
       if sap = NULL then do {
         _ \<leftarrow> erop_sendFailurePdu (pd_fromTsapSel p) (pd_fromNsapAddr p) (pd_invokeRefNu p) 2;
         NM_incCounter erop_opRefusedCounter 1;
         NM_incCounter erop_badAddrCounter 1;
         return NULL
       }
       else do {
         dup \<leftarrow> gets (\<lambda>s. find (\<lambda>j. invokeRefNu (e_invoke s j) = pd_invokeRefNu p \<and>
                  N_sapAddrCmp (remNsapAddr (e_invoke s j)) (pd_fromNsapAddr p) = 0)
                  (invokeSeq (e_sap s sap)));
         case dup of
           Some invoke \<Rightarrow> return invoke
         | None \<Rightarrow> do {
             invoke \<leftarrow> erop_invokeInfoCreate sap;
             if invoke \<noteq> NULL then do {
               funcUnit \<leftarrow> gets (\<lambda>s. functionalUnit (e_sap s (locSap (e_invoke s invoke))));
               let d = (if funcUnit = ESRO_2Way then D2CLPerformerTransDiag else CLPerformerTransDiag);
               upd_invoke invoke (\<lambda>i. i\<lparr>transDiag := Some d\<rparr>);
               upd_invoke invoke (\<lambda>i. i\<lparr>curState := Some (d_state (diag d))\<rparr>);
               upd_invoke invoke (\<lambda>i. i\<lparr>performingNotInvoking := True\<rparr>);
               return invoke
             }
             else do {
               _ \<leftarrow> erop_sendFailurePdu (pd_fromTsapSel p) (pd_fromNsapAddr p) (pd_invokeRefNu p) 1;
               return NULL
             }
           }
       }
     }
     else if pd_pdutype p = ACK_PDU then erop_refToPerformer (pd_invokeRefNu p) (pd_fromNsapAddr p)
     else if pd_pdutype p = RESULT_PDU then do {
       invoke \<leftarrow> erop_refToInvoker (pd_invokeRefNu p) (pd_fromNsapAddr p);
       if invoke = NULL then do {
         _ \<leftarrow> erop_sendFailurePdu (pd_fromTsapSel p) (pd_fromNsapAddr p) (pd_invokeRefNu p) 1;
         return NULL
       }
       else return invoke
     }
     else if pd_pdutype p = ERROR_PDU then do {
       invoke \<leftarrow> erop_refToInvoker (pd_invokeRefNu p) (pd_fromNsapAddr p);
       if invoke = NULL then do {
         _ \<leftarrow> erop_sendFailurePdu (pd_fromTsapSel p) (pd_fromNsapAddr p) (pd_invokeRefNu p) 1;
         return NULL
       }
       else do {
         upd_invoke invoke (\<lambda>i. i\<lparr>errorValue := pd_errorValue p\<rparr>);
         return invoke
       }
     }
     else if pd_pdutype p = FAILURE_PDU then do {
       invoke \<leftarrow> erop_refToInvoker (pd_invokeRefNu p) (pd_fromNsapAddr p);
       r \<leftarrow> getInvoke invoke invokeRefNu;
       if invoke = NULL then return NULL
       else if r \<noteq> pd_invokeRefNu p then return NULL
       else do {
         upd_invoke invoke (\<lambda>i. i\<lparr>failureReason := pd_failureValue p\<rparr>);
         return invoke
       }
     }
     else return NULL
   }"

text \<open>
  \<^verbatim>\<open>BO_get1\<close> at an offset from the start of the data. There is no check of the length: an
  offset past the end reads what is in the buffer there.
\<close>

definition BO_get1 :: "ptr \<Rightarrow> int \<Rightarrow> u8 eprog" where
  "BO_get1 du k = gets (\<lambda>s. DU_get du (DU_data du (e_du s) + k) (e_du s))"

text \<open>The label \<^verbatim>\<open>ignore\<close> of \<^verbatim>\<open>erop_inPdu\<close>.\<close>

definition inPdu_ignore :: "ptr \<Rightarrow> ptr eprog" where
  "inPdu_ignore du = do {
     (if du \<noteq> NULL then du_free du else skip);
     return NULL
   }"

text \<open>
  The part of \<^verbatim>\<open>erop_inPdu\<close> after the switch: \<open>n\<close> octets of control information have been
  read, and \<open>found\<close> is the invocation of an acknowledgement or failure.
\<close>

definition inPdu_rest :: "ptr \<Rightarrow> int \<Rightarrow> ptr \<Rightarrow> ptr eprog" where
  "inPdu_rest du n found = do {
     upd_du (DU_strip du n);
     count \<leftarrow> du_size du;
     type \<leftarrow> getPdu pd_pdutype;
     du1 \<leftarrow> (if count = 0 \<and> type = ACK_PDU then do { du_free du; return NULL } else return du);
     upd_pdu (\<lambda>p. p\<lparr>pd_data := du1\<rparr>);
     if found = NULL then do {
       invoke \<leftarrow> erop_getInvoke;
       if invoke = NULL then inPdu_ignore du1 else return invoke
     }
     else return found
   }"

definition erop_inPdu :: "ptr \<Rightarrow> ptr eprog" where
  "erop_inPdu du = do {
     upd_pdu (\<lambda>p. p\<lparr>pd_data := NULL, pd_pdutype := 0, pd_badpdu := False\<rparr>);
     count \<leftarrow> du_size du;
     if count = 0 then do { du_free du; return NULL }
     else do {
       c \<leftarrow> BO_get1 du 0;
       upd_pdu (\<lambda>p. p\<lparr>pd_pdutype := uint (c AND 0x07)\<rparr>);
       let type = uint (c AND 0x07);
       if type > 5 then do {
         (if du \<noteq> NULL then du_free du else skip);
         return NULL
       }
       else if type = INVOKE_PDU then do {
         r \<leftarrow> BO_get1 du 1;
         c3 \<leftarrow> BO_get1 du 2;
         upd_pdu (\<lambda>p. p\<lparr>pd_toESROSap := drop_bit 4 (c AND 0xF0),
           pd_fromESROSap := drop_bit 4 (c AND 0xF0) - 1, pd_invokeRefNu := uint r,
           pd_operationValue := uint (c3 AND 0x3F), pd_encodingType := uint (drop_bit 6 (c3 AND 0xC0))\<rparr>);
         inPdu_rest du 3 NULL
       }
       else if type = RESULT_PDU then do {
         r \<leftarrow> BO_get1 du 1;
         upd_pdu (\<lambda>p. p\<lparr>pd_encodingType := uint (drop_bit 6 (c AND 0xC0)), pd_invokeRefNu := uint r\<rparr>);
         inPdu_rest du 2 NULL
       }
       else if type = ERROR_PDU then do {
         r \<leftarrow> BO_get1 du 1;
         v \<leftarrow> BO_get1 du 2;
         upd_pdu (\<lambda>p. p\<lparr>pd_encodingType := uint (drop_bit 6 (c AND 0xC0)), pd_invokeRefNu := uint r,
           pd_errorValue := uint v\<rparr>);
         inPdu_rest du 3 NULL
       }
       else if type = ACK_PDU then do {
         r \<leftarrow> BO_get1 du 1;
         upd_pdu (\<lambda>p. p\<lparr>pd_invokeRefNu := uint r\<rparr>);
         invoke \<leftarrow> erop_getInvoke;
         if invoke = NULL then inPdu_ignore du else inPdu_rest du 2 invoke
       }
       else if type = FAILURE_PDU then do {
         r \<leftarrow> BO_get1 du 1;
         v \<leftarrow> BO_get1 du 2;
         upd_pdu (\<lambda>p. p\<lparr>pd_invokeRefNu := uint r, pd_failureValue := uint v\<rparr>);
         invoke \<leftarrow> erop_getInvoke;
         if invoke = NULL then inPdu_ignore du else inPdu_rest du 3 invoke
       }
       else inPdu_ignore du
     }
   }"

definition lower_dataInd :: "T_SapSel \<Rightarrow> N_SapAddr \<Rightarrow> ptr \<Rightarrow> int eprog" where
  "lower_dataInd remTsap remNsap data = do {
     upd_pdu (\<lambda>p. p\<lparr>pd_fromTsapSel := remTsap, pd_fromNsapAddr := remNsap\<rparr>);
     invoke \<leftarrow> erop_inPdu data;
     if invoke = NULL then do {
       (if data \<noteq> NULL then du_free data else skip);
       return FAIL
     }
     else do {
       type \<leftarrow> getPdu pd_pdutype;
       if type \<noteq> INVOKE_PDU \<and> type \<noteq> RESULT_PDU \<and> type \<noteq> ERROR_PDU \<and> type \<noteq> ACK_PDU \<and>
          type \<noteq> FAILURE_PDU then return FAIL
       else do {
         gotVal \<leftarrow> runMachine invoke
           (if type = INVOKE_PDU then lsfsm_EvtPduInvoke
            else if type = RESULT_PDU \<or> type = ERROR_PDU then lsfsm_EvtPduResult
            else if type = ACK_PDU then lsfsm_EvtPduAck
            else lsfsm_EvtPduFailure);
         d \<leftarrow> getPdu pd_data;
         (if gotVal < 0 \<and> d \<noteq> NULL then du_free d else skip);
         return SUCCESS
       }
     }
   }"

text \<open>
  \<^verbatim>\<open>recvfrom\<close> with the buffer of a view, which is filled from its start; a datagram that is
  longer than the buffer is truncated.
\<close>

definition recvfrom :: "ptr \<Rightarrow> (int \<times> T_SapSel \<times> N_SapAddr) option eprog" where
  "recvfrom du = do {
     m \<leftarrow> gets (\<lambda>s. inbox (e_env s));
     size \<leftarrow> du_size du;
     upd_env (\<lambda>e. e\<lparr>inbox := tl (inbox e)\<rparr>);
     case m of
       Some (tsap, nsap, octets) # _ \<Rightarrow> do {
         upd_du (\<lambda>d. BO_puts du (DU_data du d) (take (nat size) octets) d);
         return (Some (int (length (take (nat size) octets)), tsap, nsap))
       }
     | _ \<Rightarrow> return None
   }"

abbreviation (input) MAXBFSZ :: int where "MAXBFSZ \<equiv> 16384"

definition udp_receive :: "int eprog" where
  "udp_receive = do {
     sockFd \<leftarrow> gets e_sock;
     du \<leftarrow> du_alloc MAXBFSZ;
     if du = NULL then do {
       _ \<leftarrow> sch_submit udp_receiveT sockFd;
       return FAIL
     }
     else do {
       m \<leftarrow> recvfrom du;
       case m of
         None \<Rightarrow> do { du_free du; return FAIL }
       | Some (sduLen, remTsap, remNsap) \<Rightarrow> do {
           bufLen \<leftarrow> du_size du;
           if bufLen < sduLen then do { du_free du; return FAIL }
           else do {
             upd_du (DU_adjust du (bufLen - sduLen));
             _ \<leftarrow> lower_dataInd remTsap remNsap du;
             sch_submit udp_receiveT sockFd
           }
         }
     }
   }"


section \<open>Timers\<close>

text \<open>The event of a timer's name; there is none for other names.\<close>

definition tmrEvent :: "int \<Rightarrow> int option" where
  "tmrEvent name =
     (if name = erop_invokePduRetranTimer then Some lsfsm_EvtInvokePduRetranTimer
      else if name = erop_resultPduRetranTimer then Some lsfsm_EvtResultPduRetranTimer
      else if name = erop_refNuTimer then Some lsfsm_EvtRefNuTimer
      else if name = erop_lastTimer then Some lsfsm_EvtLastTimer
      else if name = erop_inactivityTimer then Some lsfsm_EvtInactivityTimer
      else if name = erop_perfNoResponseTimer then Some lsfsm_EvtPerfNoResponseTimer
      else None)"

definition erop_timerRsp :: "tmrData timer \<Rightarrow> int eprog" where
  "erop_timerRsp t = do {
     upd_evt (\<lambda>e. e\<lparr>ti_name := td_name (tm_data t), ti_datum := td_data (tm_data t)\<rparr>);
     upd_invoke (td_invoke (tm_data t))
       (\<lambda>i. i\<lparr>tmrQu := removeAll (tm_desc t, td_name (tm_data t)) (tmrQu i)\<rparr>);
     name \<leftarrow> getEvt ti_name;
     case tmrEvent name of
       None \<Rightarrow> return FAIL
     | Some ev \<Rightarrow> do {
         r \<leftarrow> runMachine (td_invoke (tm_data t)) ev;
         return (if r = FAIL then FAIL else SUCCESS)
       }
   }"

text \<open>What \<^verbatim>\<open>TMR_processQueue\<close> does with the first timer of the queue when it is due.\<close>

definition fireTimer :: "tmrData timer \<Rightarrow> bool eprog" where
  "fireTimer t = do { r \<leftarrow> erop_timerRsp t; return (r = SUCCESS) }"


section \<open>Tasks\<close>

fun dispatch :: "task \<Rightarrow> unit eprog" where
  "dispatch (erop_scheduledInvokeIndT i l r opv enc d) = do { _ \<leftarrow> erop_scheduledInvokeInd i l r opv enc d; skip }"
| "dispatch (erop_scheduledResultIndT i u enc d) = do { _ \<leftarrow> erop_scheduledResultInd i u enc d; skip }"
| "dispatch (erop_scheduledErrorIndT i u enc ev d) = do { _ \<leftarrow> erop_scheduledErrorInd i u enc ev d; skip }"
| "dispatch (erop_scheduledResultCnfT i u) = do { _ \<leftarrow> erop_scheduledResultCnf i u; skip }"
| "dispatch (erop_scheduledErrorCnfT i u) = do { _ \<leftarrow> erop_scheduledErrorCnf i u; skip }"
| "dispatch (erop_scheduledFailureIndT i u f) = do { _ \<leftarrow> erop_scheduledFailureInd i u f; skip }"
| "dispatch (erop_relInvokeT i) = erop_relInvoke i"
| "dispatch udp_receiveT = do { _ \<leftarrow> udp_receive; skip }"

definition engine_SCH_run :: "int eprog" where
  "engine_SCH_run = SCH_run e_sch upd_sch dispatch"

definition engine_TMR_processQueue :: "nat \<Rightarrow> tmr_result eprog" where
  "engine_TMR_processQueue n = TMR_processQueue e_timerQ upd_timerQ fireTimer (\<lambda>s. osClock (e_env s)) n"

end
