(* ===== verification/Erop_Inv.thy ===== *)
theory Erop_Inv
  imports Erop_Engine
begin

text \<open>
  What every action of the four machines preserves. The locale \<open>engine_inv\<close> is the interface
  between a property of the engine's state and the actions: from the preservation of the property
  by the primitives the actions use, it follows for each action, and for running a machine. It is
  interpreted in the theories that prove such properties.
\<close>

section \<open>Interface\<close>

text \<open>
  An update of an invocation that leaves alone the intervals, the address of the peer and the
  state; the other updates have assumptions of their own.
\<close>

definition frame :: "(invokeInfo \<Rightarrow> invokeInfo) \<Rightarrow> bool" where
  "frame f \<longleftrightarrow> (\<forall>i. retransTimeout (f i) = retransTimeout i \<and> refKeepTime (f i) = refKeepTime i \<and>
     rwait (f i) = rwait i \<and> inactivityDelay (f i) = inactivityDelay i \<and>
     perfNoResponse (f i) = perfNoResponse i \<and> remNsapAddr (f i) = remNsapAddr i \<and>
     curState (f i) = curState i)"

text \<open>The invocation a task is about.\<close>

fun taskInv :: "task \<Rightarrow> ptr" where
  "taskInv (erop_scheduledInvokeIndT i l r opv enc d) = i"
| "taskInv (erop_scheduledResultIndT i u enc d) = i"
| "taskInv (erop_scheduledErrorIndT i u enc ev d) = i"
| "taskInv (erop_scheduledResultCnfT i u) = i"
| "taskInv (erop_scheduledErrorCnfT i u) = i"
| "taskInv (erop_scheduledFailureIndT i u f) = i"
| "taskInv (erop_relInvokeT i) = i"
| "taskInv udp_receiveT = NULL"

definition intervals :: "(int \<Rightarrow> bool) \<Rightarrow> invokeInfo \<Rightarrow> bool" where
  "intervals D i \<longleftrightarrow> D (retransTimeout i) \<and> D (refKeepTime i) \<and> D (rwait i) \<and>
     D (inactivityDelay i) \<and> D (perfNoResponse i)"

text \<open>
  \<open>M\<close> are the machines the property is preserved for, \<open>A\<close> those whose peer's address may be set,
  \<open>D\<close> the intervals for which timers may be started and \<open>T\<close> the tasks that may be scheduled,
  among them the release of an invocation. \<open>engine_acts\<close> is the case of all tasks; in
  \<open>engine_inv\<close> the machines' states may change, too.
\<close>

locale engine_quiet =
  fixes P :: "est \<Rightarrow> bool" and M A :: "ptr set" and D :: "int \<Rightarrow> bool" and T :: "task \<Rightarrow> bool"
  assumes delays: "P s \<Longrightarrow> m \<in> M \<Longrightarrow> intervals D (e_invoke s m)"
    and invoke: "m \<in> M \<Longrightarrow> frame f \<Longrightarrow> keeps P (upd_invoke m f)"
    and addr: "m \<in> A \<Longrightarrow> keeps P (upd_invoke m (\<lambda>i. i\<lparr>remNsapAddr := a\<rparr>))"
    and tmrValues: "m \<in> M \<Longrightarrow> keeps P (erop_tmrSetValues m)"
    and du: "keeps P (upd (\<lambda>s. s\<lparr>e_du := g s\<rparr>))"
    and env: "(\<And>s. upcalls (h s) = upcalls (e_env s) \<and> osClock (h s) = osClock (e_env s)) \<Longrightarrow>
      keeps P (upd (\<lambda>s. s\<lparr>e_env := h s\<rparr>))"
    and create: "m \<in> M \<Longrightarrow> D x \<Longrightarrow> tmrEvent name \<noteq> None \<Longrightarrow> keeps P (erop_tmrCreate m name x datum)"
    and cancel: "m \<in> M \<Longrightarrow> keeps P (erop_tmrCancel m name)"
    and rel: "T (erop_relInvokeT m)"
    and submit: "T t \<Longrightarrow> taskInv t \<in> M \<Longrightarrow> keeps P (sch_submit t SCH_PSEUDO_EVENT)"
    and refNew: "m \<in> M \<Longrightarrow> keeps P (erop_refNew m)"
    and refKeep: "m \<in> M \<Longrightarrow> keeps P (erop_refKeep r m)"
    and nm: "keeps P (NM_incCounter c n)"
begin

lemma keep_du_ops:
  "keeps P (du_alloc n)" "keeps P (du_free v)" "keeps P (du_link v)" "keeps P (upd_du k)"
  "keeps P (putPci v xs)" "keeps P (du_size v)"
  unfolding du_alloc_def du_free_def du_link_def upd_du_def putPci_def du_size_def
  by (intro keeps_intros du)+

lemma keep_SF_memGet: "keeps P SF_memGet"
  unfolding SF_memGet_def upd_env_def by (intro keeps_intros env) simp

lemma keep_gets:
  "keeps P (getInvoke m f)" "keeps P (getEvt f')" "keeps P (getPdu f'')" "keeps P (getCfg f''')"
  unfolding get_defs by (rule keeps_gets)+

lemma keep_UDP: "keeps P (UDP_dataReq ts ns v)"
  unfolding UDP_dataReq_def by (intro keeps_intros env nm) simp

lemma keep_pdus:
  "keeps P (erop_invokePdu a b c d e)" "keeps P (erop_resultPdu b d e)"
  "keeps P (erop_errorPdu b c d e)" "keeps P (erop_ackPdu b)"
  "keeps P (erop_sendFailurePdu ts ns r u)"
  unfolding erop_invokePdu_def erop_resultPdu_def erop_errorPdu_def erop_ackPdu_def
    erop_sendFailurePdu_def
  by (intro keeps_intros keep_du_ops nm keep_UDP)+

lemma frame_pduSeq: "frame (\<lambda>i. set_pduSeq sel (q i) i)"
  unfolding frame_def by (cases sel) simp_all

lemma keep_seqs:
  assumes "m \<in> M"
  shows "keeps P (erop_relPdu m sel)" "keeps P (erop_relAllPdu m)" "keeps P (erop_pduRetrieve m sel)"
    "keeps P (erop_pduKeep m sel v)"
proof -
  have rel: "keeps P (erop_relPdu m sel)" for sel
    unfolding erop_relPdu_def
    by (intro keeps_intros keep_du_ops keep_gets invoke assms frame_pduSeq)
  then show "keeps P (erop_relPdu m sel)" "keeps P (erop_relAllPdu m)"
    unfolding erop_relAllPdu_def by (auto intro!: keeps_intros)
  show "keeps P (erop_pduRetrieve m sel)" "keeps P (erop_pduKeep m sel v)"
    unfolding erop_pduRetrieve_def erop_pduKeep_def
    by (intro keeps_intros keep_du_ops keep_gets invoke assms frame_pduSeq)+
qed

lemma keep_inds:
  assumes "m \<in> M"
  shows "T (erop_scheduledInvokeIndT m a b c d v) \<Longrightarrow> keeps P (erop_invokeInd m a b c d v)"
    "T (erop_scheduledResultIndT m u c v) \<Longrightarrow> keeps P (erop_resultInd m u c v)"
    "T (erop_scheduledErrorIndT m u c d v) \<Longrightarrow> keeps P (erop_errorInd m u c d v)"
    "T (erop_scheduledResultCnfT m u) \<Longrightarrow> keeps P (erop_resultCnf m u)"
    "T (erop_scheduledErrorCnfT m u) \<Longrightarrow> keeps P (erop_errorCnf m u)"
    "T (erop_scheduledFailureIndT m u c) \<Longrightarrow> keeps P (erop_failureInd m u c)"
    "keeps P (sch_submit (erop_relInvokeT m) SCH_PSEUDO_EVENT)"
  unfolding ind_defs by (intro keeps_intros keep_SF_memGet submit; simp add: assms rel)+

text \<open>Reading the intervals of a machine delivers intervals for which timers may be started.\<close>

lemma bind_invoke:
  "m \<in> M \<Longrightarrow> (\<And>i. intervals D i \<Longrightarrow> keeps P (f i)) \<Longrightarrow> keeps P (getInvoke m id \<bind> f)"
  using delays by (auto simp: keeps_def est_run)

lemma bind_keep:
  "m \<in> M \<Longrightarrow> (\<And>x. D x \<Longrightarrow> keeps P (f x)) \<Longrightarrow> keeps P (getInvoke m refKeepTime \<bind> f)"
  using delays by (auto simp: keeps_def est_run intervals_def)

lemmas keep_ops = bind_invoke bind_keep invoke addr tmrValues create cancel refNew refKeep nm
  keep_du_ops keep_gets keep_UDP keep_pdus keep_seqs keep_inds keeps_intros

end

section \<open>The actions\<close>

text \<open>The actions that schedule no indication or confirmation.\<close>

context engine_quiet
begin

lemma keep_clInvoker01: "m \<in> M \<Longrightarrow> m \<in> A \<Longrightarrow> keeps P (tr_clInvoker01 m e)"
  unfolding tr_clInvoker01_def
  by (rule keep_ops | assumption | simp add: frame_def intervals_def tmrEvent_def)+

lemma keep_clInvoker02: "m \<in> M \<Longrightarrow> keeps P (tr_clInvoker02 m e)"
  unfolding tr_clInvoker02_def
  by (rule keep_ops | assumption | simp add: frame_def intervals_def tmrEvent_def)+

lemma keep_clInvoker06: "m \<in> M \<Longrightarrow> keeps P (tr_clInvoker06 m e)"
  unfolding tr_clInvoker06_def
  by (rule keep_ops | assumption | simp add: frame_def intervals_def tmrEvent_def)+

lemma keep_clInvoker07: "m \<in> M \<Longrightarrow> keeps P (tr_clInvoker07 m e)"
  unfolding tr_clInvoker07_def
  by (rule keep_ops | assumption | simp add: frame_def intervals_def tmrEvent_def)+

lemma keep_clInvoker08: "m \<in> M \<Longrightarrow> keeps P (tr_clInvoker08 m e)"
  unfolding tr_clInvoker08_def
  by (rule keep_ops | assumption | simp add: frame_def intervals_def tmrEvent_def)+

lemma keep_clInvoker09: "m \<in> M \<Longrightarrow> keeps P (tr_clInvoker09 m e)"
  unfolding tr_clInvoker09_def
  by (rule keep_ops | assumption | simp add: frame_def intervals_def tmrEvent_def)+

lemma keep_clInvoker10: "m \<in> M \<Longrightarrow> keeps P (tr_clInvoker10 m e)"
  unfolding tr_clInvoker10_def
  by (rule keep_ops | assumption | simp add: frame_def intervals_def tmrEvent_def)+

lemma keep_2clInvoker06: "m \<in> M \<Longrightarrow> keeps P (tr_2clInvoker06 m e)"
  unfolding tr_2clInvoker06_def
  by (rule keep_ops | assumption | simp add: frame_def intervals_def tmrEvent_def)+

lemma keep_clPerformer02: "m \<in> M \<Longrightarrow> keeps P (tr_clPerformer02 m e)"
  unfolding tr_clPerformer02_def
  by (rule keep_ops | assumption | simp add: frame_def intervals_def tmrEvent_def)+

lemma keep_clPerformer04: "m \<in> M \<Longrightarrow> keeps P (tr_clPerformer04 m e)"
  unfolding tr_clPerformer04_def
  by (rule keep_ops | assumption | simp add: frame_def intervals_def tmrEvent_def)+

lemma keep_clPerformer05: "m \<in> M \<Longrightarrow> keeps P (tr_clPerformer05 m e)"
  unfolding tr_clPerformer05_def
  by (rule keep_ops | assumption | simp add: frame_def intervals_def tmrEvent_def)+

lemma keep_clPerformer06: "m \<in> M \<Longrightarrow> keeps P (tr_clPerformer06 m e)"
  unfolding tr_clPerformer06_def
  by (rule keep_ops | assumption | simp add: frame_def intervals_def tmrEvent_def)+

lemma keep_clPerformer07: "m \<in> M \<Longrightarrow> keeps P (tr_clPerformer07 m e)"
  unfolding tr_clPerformer07_def
  by (rule keep_ops | assumption | simp add: frame_def intervals_def tmrEvent_def)+

lemma keep_clPerformer10: "m \<in> M \<Longrightarrow> keeps P (tr_clPerformer10 m e)"
  unfolding tr_clPerformer10_def
  by (rule keep_ops | assumption | simp add: frame_def intervals_def tmrEvent_def)+

lemma keep_clPerformer11: "m \<in> M \<Longrightarrow> keeps P (tr_clPerformer11 m e)"
  unfolding tr_clPerformer11_def
  by (rule keep_ops | assumption | simp add: frame_def intervals_def tmrEvent_def)+

lemma keep_clPerformer12: "m \<in> M \<Longrightarrow> keeps P (tr_clPerformer12 m e)"
  unfolding tr_clPerformer12_def
  by (rule keep_ops | assumption | simp add: frame_def intervals_def tmrEvent_def)+

lemma keep_2clPerformer03: "m \<in> M \<Longrightarrow> keeps P (tr_2clPerformer03 m e)"
  unfolding tr_2clPerformer03_def
  by (rule keep_ops | assumption | simp add: frame_def intervals_def tmrEvent_def)+

lemmas keep_quiet_actions =
  keep_clInvoker02 keep_clInvoker06 keep_clInvoker07 keep_clInvoker08 keep_clInvoker09
  keep_clInvoker10 keep_2clInvoker06 keep_clPerformer02 keep_clPerformer04
  keep_clPerformer05 keep_clPerformer06 keep_clPerformer07 keep_clPerformer10
  keep_clPerformer11 keep_clPerformer12 keep_2clPerformer03

lemma keep_bad: "keeps P (tr_badEventIgnore m e)" "keeps P (tr_2badEventIgnore m e)"
  unfolding tr_badEventIgnore_def tr_2badEventIgnore_def by (rule keeps_return)+

end

text \<open>
  The rows whose action schedules an indication or confirmation, and those whose action sets the
  peer's address.
\<close>

definition loud :: "fsmst \<Rightarrow> int \<Rightarrow> bool" where
  "loud q e \<longleftrightarrow>
     (q = lsfsm_sInvokePduSent \<or> q = lsfsm_s2InvokePduSent) \<and>
       (e = lsfsm_EvtLastTimer \<or> e = lsfsm_EvtPduResult \<or> e = lsfsm_EvtPduFailure) \<or>
     (q = lsfsm_sCLPerformerStart \<or> q = lsfsm_s2CLPerformerStart) \<and> e = lsfsm_EvtPduInvoke \<or>
     (q = lsfsm_sInvokePduReceived \<or> q = lsfsm_s2InvokePduReceived) \<and>
       (e = FSM_EvtInternal \<or> e = lsfsm_EvtPerfNoResponseTimer) \<or>
     q = lsfsm_sAckPduWait \<and> (e = lsfsm_EvtPduAck \<or> e = lsfsm_EvtLastTimer) \<or>
     q = lsfsm_s2ResultPduRetrans \<and> e = lsfsm_EvtInactivityTimer"

definition starts :: "fsmst \<Rightarrow> int \<Rightarrow> bool" where
  "starts q e \<longleftrightarrow> (q = lsfsm_sCLInvokerStart \<or> q = lsfsm_s2CLInvokerStart) \<and> e = lsfsm_EvtInvokeReq \<or>
     (q = lsfsm_sCLPerformerStart \<or> q = lsfsm_s2CLPerformerStart) \<and> e = lsfsm_EvtPduInvoke"

lemmas act_defs = starts_def loud_def act_def erop.row_def diag_tables fsm_row_def fsm_st_def
  fsm_evtsMatch_def tr_2clInvoker_same tr_2clPerformer_same

context engine_quiet
begin

lemma keep_quiet_act:
  assumes "m \<in> M" "starts q e \<Longrightarrow> m \<in> A" "\<not> loud q e"
  shows "keeps P (act q e m e')"
proof (cases "starts q e")
  case True
  then show ?thesis
    using assms by (cases q; auto simp: act_defs intro: keep_clInvoker01)
next
  case False
  then show ?thesis
    using assms(1,3) by (cases q; auto simp: act_defs intro: keep_quiet_actions keep_bad)
qed

end

text \<open>The other actions.\<close>

locale engine_acts = engine_quiet P M A D "\<lambda>_. True" for P M A D

context engine_acts
begin

lemma keep_clPerformer01: "m \<in> M \<Longrightarrow> m \<in> A \<Longrightarrow> keeps P (tr_clPerformer01 m e)"
  unfolding tr_clPerformer01_def
  by (rule keep_ops | assumption | simp add: frame_def intervals_def tmrEvent_def)+

lemma keep_2clPerformer01: "m \<in> M \<Longrightarrow> m \<in> A \<Longrightarrow> keeps P (tr_2clPerformer01 m e)"
  unfolding tr_2clPerformer01_def
  by (rule keep_ops | assumption | simp add: frame_def intervals_def tmrEvent_def)+

lemma keep_clInvoker03: "m \<in> M \<Longrightarrow> keeps P (tr_clInvoker03 m e)"
  unfolding tr_clInvoker03_def
  by (rule keep_ops | assumption | simp add: frame_def intervals_def tmrEvent_def)+

lemma keep_clInvoker04: "m \<in> M \<Longrightarrow> keeps P (tr_clInvoker04 m e)"
  unfolding tr_clInvoker04_def
  by (rule keep_ops | assumption | simp add: frame_def intervals_def tmrEvent_def)+

lemma keep_clInvoker05: "m \<in> M \<Longrightarrow> keeps P (tr_clInvoker05 m e)"
  unfolding tr_clInvoker05_def
  by (rule keep_ops | assumption | simp add: frame_def intervals_def tmrEvent_def)+

lemma keep_2clInvoker04: "m \<in> M \<Longrightarrow> keeps P (tr_2clInvoker04 m e)"
  unfolding tr_2clInvoker04_def
  by (rule keep_ops | assumption | simp add: frame_def intervals_def tmrEvent_def)+

lemma keep_clPerformer03: "m \<in> M \<Longrightarrow> keeps P (tr_clPerformer03 m e)"
  unfolding tr_clPerformer03_def
  by (rule keep_ops | assumption | simp add: frame_def intervals_def tmrEvent_def)+

lemma keep_clPerformer08: "m \<in> M \<Longrightarrow> keeps P (tr_clPerformer08 m e)"
  unfolding tr_clPerformer08_def
  by (rule keep_ops | assumption | simp add: frame_def intervals_def tmrEvent_def)+

lemma keep_clPerformer09: "m \<in> M \<Longrightarrow> keeps P (tr_clPerformer09 m e)"
  unfolding tr_clPerformer09_def
  by (rule keep_ops | assumption | simp add: frame_def intervals_def tmrEvent_def)+

lemma keep_2clPerformer06: "m \<in> M \<Longrightarrow> keeps P (tr_2clPerformer06 m e)"
  unfolding tr_2clPerformer06_def
  by (rule keep_ops | assumption | simp add: frame_def intervals_def tmrEvent_def)+

lemmas keep_loud_actions =
  keep_clInvoker03 keep_clInvoker04 keep_clInvoker05 keep_2clInvoker04 keep_clPerformer03
  keep_clPerformer08 keep_clPerformer09 keep_2clPerformer06

lemma keep_act:
  assumes "m \<in> M" "starts q e \<Longrightarrow> m \<in> A"
  shows "keeps P (act q e m e')"
proof (cases "loud q e")
  case True
  then show ?thesis
    using assms
    by (cases q; auto simp: act_defs intro: keep_loud_actions keep_clPerformer01 keep_2clPerformer01)
next
  case False
  then show ?thesis
    using assms keep_quiet_act by blast
qed

end

locale engine_inv = engine_acts +
  assumes state: "m \<in> M \<Longrightarrow> keeps P (setCurState m (Some q))"
begin

lemma keep_runMachine:
  assumes "m \<in> M" "\<And>q. starts q e \<Longrightarrow> m \<in> A"
  shows "keeps P (runMachine m e)"
  by (rule keeps_runMachine) (auto simp: assms intro: state keep_act)

end

section \<open>The operations\<close>

text \<open>
  A property that all primitives preserve, whatever the machine, is preserved by every operation
  of the engine.
\<close>

locale engine_all = engine_inv P UNIV UNIV "\<lambda>_. True" for P +
  assumes any_invoke: "keeps P (upd_invoke m f)"
    and any_env: "(\<And>s. osClock (h s) = osClock (e_env s)) \<Longrightarrow> keeps P (upd (\<lambda>s. s\<lparr>e_env := h s\<rparr>))"
    and newp: "keeps P newPtr"
    and dying: "keeps P die"
    and alive: "keeps P (upd (\<lambda>s. s\<lparr>e_invoke := (e_invoke s)(i := junk (e_env s) i), e_live := insert i (e_live s)\<rparr>))"
    and release: "keeps P (upd (\<lambda>s. s\<lparr>e_live := e_live s - {i}\<rparr>))"
    and sap: "keeps P (upd_sap p k)"
    and saps: "keeps P (upd (\<lambda>s. s\<lparr>e_sapSeq := l s\<rparr>))"
    and evt: "keeps P (upd_evt ev)"
    and pdu: "keeps P (upd_pdu pd)"
    and refFree: "keeps P (erop_refFree m)"
    and submit_any: "keeps P (sch_submit t e)"
begin

lemma any_env': "(\<And>e. osClock (h e) = osClock e) \<Longrightarrow> keeps P (upd_env h)"
  unfolding upd_env_def by (rule any_env) simp

lemma keep_create: "keeps P (erop_invokeInfoCreate p)"
  unfolding erop_invokeInfoCreate_def erop_invokeInfoInit_def erop_pduSeqInit_def SEQ_elemObtain_def
  by (intro keeps_intros keep_SF_memGet newp dying alive sap any_invoke)

lemma keep_free: "keeps P (erop_invokeInfoFree i)" "keeps P (erop_relInvoke i)"
proof -
  show free: "keeps P (erop_invokeInfoFree i)"
    unfolding erop_invokeInfoFree_def freeFirstPdu_def
    by (intro keeps_intros keep_gets keep_du_ops sap release any_invoke)
  show "keeps P (erop_relInvoke i)"
    unfolding erop_relInvoke_def by (intro keeps_intros refFree free any_env') simp
qed

lemma keep_getSapInfo: "keeps P (erop_getSapInfo sel)"
  unfolding erop_getSapInfo_def by (rule keeps_gets)

lemma keep_saps: "keeps P (EROP_sapBind sel fu)" "keeps P (EROP_sapUnbind sel)"
proof -
  show "keeps P (EROP_sapBind sel fu)"
    unfolding EROP_sapBind_def SEQ_elemObtain_def
    by (intro keeps_intros keep_gets keep_SF_memGet newp dying sap saps keep_getSapInfo)
  show "keeps P (EROP_sapUnbind sel)"
    unfolding EROP_sapUnbind_def
    by (intro keeps_intros cancel refFree any_env' keep_free sap saps keep_getSapInfo) simp_all
qed

lemma keep_run: "keeps P (runMachine m e)"
  by (rule keep_runMachine) simp_all

lemma keep_requests:
  "keeps P (EROP_invokeReq a b c d ns opv enc v)" "keeps P (EROP_resultReq m a enc v)"
  "keeps P (EROP_errorReq m a enc ev v)"
  unfolding EROP_invokeReq_def EROP_resultReq_def EROP_errorReq_def
  by (intro keeps_intros keep_getSapInfo keep_create keep_du_ops keep_gets evt any_invoke keep_run)+

lemma keep_getInvoke: "keeps P erop_getInvoke"
  unfolding erop_getInvoke_def erop_refToPerformer_def erop_refToInvoker_def
  by (intro keeps_intros keep_getSapInfo keep_create keep_gets keep_pdus nm any_invoke)

lemma keep_inPdu: "keeps P (erop_inPdu v)"
  unfolding erop_inPdu_def inPdu_rest_def inPdu_ignore_def BO_get1_def
  by (intro keeps_intros keep_getInvoke keep_du_ops keep_gets pdu)

lemma keep_dataInd: "keeps P (lower_dataInd ts ns v)"
  unfolding lower_dataInd_def
  by (intro keeps_intros keep_inPdu keep_du_ops keep_gets pdu keep_run)

lemma keep_receive: "keeps P udp_receive"
  unfolding udp_receive_def recvfrom_def
  by (intro keeps_intros keep_dataInd keep_du_ops keep_gets any_env' submit_any) simp

lemma keep_timer: "keeps P (erop_timerRsp t)" "keeps P (fireTimer t)"
proof -
  show rsp: "keeps P (erop_timerRsp t)"
    unfolding erop_timerRsp_def by (intro keeps_intros keep_gets evt any_invoke keep_run)
  show "keeps P (fireTimer t)"
    unfolding fireTimer_def by (intro keeps_intros rsp)
qed

lemma keep_dispatch: "keeps P (dispatch t)"
  by (cases t; simp add: scheduled_defs)
    (intro keeps_intros keep_gets keep_du_ops any_env' keep_free keep_receive; simp)+

end

end
