(* ===== verification/Erop_Run.thy ===== *)
theory Erop_Run
  imports Erop_Inv
begin

text \<open>
  The engine under the scheduler and the timer module. The properties that make its tasks and its
  timer handler fit the interfaces of theories Sch and Tmr are instances of \<open>engine_all\<close> and
  \<open>engine_inv\<close>: a dead process changes nothing, no operation touches the run queue, the queue of
  timers stays ordered, and no handler starts a timer that is due at once.
\<close>

section \<open>Properties of one part of the state\<close>

lemma keeps_upd_iff:
  "(\<And>s. \<not> e_aborted s \<Longrightarrow> P s \<Longrightarrow> P (f s)) \<Longrightarrow> keeps P (upd f)"
  by (rule keeps_upd)

text \<open>The primitives that are made of several updates.\<close>

lemmas prim_defs = upd_defs NM_incCounter_def newPtr_def erop_refFree_def sch_submit_def
  setCurState_def erop_refNew_def erop_refKeep_def erop_tmrSetValues_def erop_tmrCreate_def
  TMR_create_def tmr_obtain_def SF_memGet_def get_defs

lemma keeps_tmrCancel_loop:
  assumes "\<And>d. keeps P (upd_timerQ (TMR_stop d))" "\<And>x. keeps P (upd_invoke m (\<lambda>i. i\<lparr>tmrQu := removeAll x (tmrQu i)\<rparr>))"
  shows "keeps P (tmrCancel_loop m name q)"
  by (induction q) (auto intro!: keeps_intros assms)

lemma keeps_tmrCancel:
  assumes "\<And>d. keeps P (upd_timerQ (TMR_stop d))" "\<And>x. keeps P (upd_invoke m (\<lambda>i. i\<lparr>tmrQu := removeAll x (tmrQu i)\<rparr>))"
  shows "keeps P (erop_tmrCancel m name)"
  unfolding erop_tmrCancel_def getInvoke_def
  by (intro keeps_intros keeps_tmrCancel_loop assms)

text \<open>A dead process: nothing changes.\<close>

definition frozen :: "est \<Rightarrow> est \<Rightarrow> bool" where
  "frozen s0 s \<longleftrightarrow> e_aborted s0 \<and> s = s0"

lemma keeps_frozen: "keeps (frozen s0) (upd f)"
  by (rule keeps_upd) (simp add: frozen_def)

interpretation frozen: engine_all "frozen s0" for s0
proof unfold_locales
  show "keeps (frozen s0) (erop_tmrCancel m name)" for m name
    by (rule keeps_tmrCancel) (simp_all add: upd_defs keeps_frozen)
qed (auto simp: prim_defs intervals_def intro!: keeps_intros keeps_frozen)

lemma frozenD: "keeps (frozen s) m \<Longrightarrow> e_aborted s \<Longrightarrow> exec m s = s"
  using keepsD [of "frozen s" m s] by (simp add: frozen_def)

text \<open>A property of the scheduler's part.\<close>

lemma engine_all_sch:
  assumes "\<And>t ev q q'. Q q \<Longrightarrow> SCH_submit t ev q = Some q' \<Longrightarrow> Q q'"
  shows "engine_all (\<lambda>s. Q (e_sch s))"
proof -
  have upd: "keeps (\<lambda>s. Q (e_sch s)) (upd f)" if "\<And>s. e_sch (f s) = e_sch s" for f
    using that by (intro keeps_upd) simp
  have sub: "keeps (\<lambda>s. Q (e_sch s)) (sch_submit t ev)" for t ev
    unfolding sch_submit_def
    by (intro keeps_intros keeps_upd) (use assms in \<open>auto split: option.split\<close>)
  show ?thesis
  proof unfold_locales
    show "keeps (\<lambda>s. Q (e_sch s)) (erop_tmrCancel m name)" for m name
      by (rule keeps_tmrCancel) (simp_all add: upd_defs upd)
    show "keeps (\<lambda>s. Q (e_sch s)) (sch_submit t SCH_PSEUDO_EVENT)" if "taskInv t \<in> UNIV" for t
      by (rule sub)
    show "keeps (\<lambda>s. Q (e_sch s)) (sch_submit t ev)" for t ev
      by (rule sub)
  qed (auto simp: prim_defs intervals_def intro!: keeps_intros upd)
qed

interpretation runq: engine_all "\<lambda>s. sch_runq (e_sch s) = q" for q
  by (rule engine_all_sch) (auto simp: SCH_submit_def split: if_splits)

text \<open>The ordered queue of timers.\<close>

lemma keeps_upd_timerQ: "(\<And>s. e_timerQ (f s) = e_timerQ s) \<Longrightarrow> keeps (\<lambda>s. Q (e_timerQ s)) (upd f)"
  by (intro keeps_upd) simp

lemma keeps_TMR_create_sorted: "keeps (\<lambda>s. tmr_sorted (e_timerQ s)) (TMR_create ms d)"
proof -
  have env: "keeps (\<lambda>s. tmr_sorted (e_timerQ s)) tmr_obtain"
    unfolding tmr_obtain_def SF_memGet_def newPtr_def upd_env_def
    by (intro keeps_intros keeps_upd_timerQ) simp_all
  have "tmr_sorted q'" if "tmr_sorted q" "TMR_start c p x d q = Some (p', q')" for c p x p' q q'
    using that by (auto simp: TMR_start_def tmr_insert_sorted split: option.splits if_splits)
  then have core: "keeps (\<lambda>s. tmr_sorted (e_timerQ s)) (do {
       r \<leftarrow> gets (\<lambda>s. TMR_start c p x d (e_timerQ s));
       case r of
         None \<Rightarrow> do { die; return NULL }
       | Some (p, q) \<Rightarrow> do { upd_timerQ (\<lambda>_. q); return p }
     })" for c p x
    by (auto simp: keeps_def est_run split: option.split)
  have dying: "keeps (\<lambda>s. tmr_sorted (e_timerQ s)) (do { die; return NULL })"
    unfolding die_def by (intro keeps_intros keeps_upd_timerQ) simp
  show ?thesis
    unfolding TMR_create_def
    by (rule keeps_bind, rule keeps_gets, rule keeps_if, rule dying, rule keeps_bind, rule env, rule core)
qed

interpretation sorted: engine_all "\<lambda>s. tmr_sorted (e_timerQ s)"
proof unfold_locales
  show "keeps (\<lambda>s. tmr_sorted (e_timerQ s)) (erop_tmrCancel m name)" for m name
    by (rule keeps_tmrCancel) (auto simp: upd_defs intro!: keeps_upd TMR_stop_sorted)
  show "keeps (\<lambda>s. tmr_sorted (e_timerQ s)) (erop_tmrCreate m name x d)"
    if "m \<in> UNIV" "True" "tmrEvent name \<noteq> None" for m name x d
    unfolding erop_tmrCreate_def upd_invoke_def
    by (intro keeps_intros keeps_TMR_create_sorted keeps_upd_timerQ) simp
qed (auto simp: upd_defs NM_incCounter_def newPtr_def erop_refFree_def sch_submit_def
    setCurState_def erop_refNew_def erop_refKeep_def erop_tmrSetValues_def get_defs intervals_def
    intro!: keeps_intros keeps_upd_timerQ split: option.split)

interpretation total: engine_all "\<lambda>s. sch_total (e_sch s) = n" for n
  by (rule engine_all_sch) (auto dest: SCH_submit_total)

section \<open>The scheduler\<close>

interpretation tasks: task_runner e_sch upd_sch dispatch e_aborted
  by unfold_locales
    (auto simp: est_run frozenD [OF frozen.keep_dispatch] intro: keepsD [OF runq.keep_dispatch])


section \<open>The timers\<close>

text \<open>
  An interval that is positive and does not make the 32-bit clock wrap at the second \<open>os\<close>, and a
  configuration all of whose intervals are such.
\<close>

definition delay_ok :: "u32 \<Rightarrow> int \<Rightarrow> bool" where
  "delay_ok os x \<longleftrightarrow> 0 < x \<and> uint (os * 1000) + x < 2 ^ 32"

definition cfg_intervals :: "(int \<Rightarrow> bool) \<Rightarrow> cfg \<Rightarrow> bool" where
  "cfg_intervals D c \<longleftrightarrow> D (tv_retransmit c + tv_roundtrip c) \<and>
     D (2 * tv_maxNSDULifeTime c + to_short (retransmitCount c) * tv_retransmit c) \<and>
     D (2 * (tv_acknowledgment c + tv_retransmit c)) \<and> D (4 * tv_roundtrip c) \<and>
     D (2 * tv_maxNSDULifeTime c + (to_short (retransmitCount c) + 1) * (tv_retransmit c + tv_roundtrip c))"

lemma delay_later:
  assumes "delay_ok os x"
  shows "\<not> os * 1000 + word_of_int x \<le> os * 1000"
proof -
  have "0 < x" "x < 2 ^ 32" "uint (os * 1000) + x < 2 ^ 32"
    using assms uint_ge_0 [of "os * 1000"] unfolding delay_ok_def by linarith+
  then have "uint (os * 1000 + word_of_int x) = uint (os * 1000) + x"
    using uint_ge_0 [of "os * 1000"]
    by (simp add: delay_ok_def uint_word_ariths(1) [of "os * 1000"] uint_word_of_int take_bit_eq_mod)
  then show ?thesis
    using assms by (simp add: word_le_def delay_ok_def)
qed

text \<open>The timers of a set of machines \<open>Q\<close>, all of which have a state.\<close>

definition timer_ok :: "ptr set \<Rightarrow> tmrData timer \<Rightarrow> bool" where
  "timer_ok Q t \<longleftrightarrow> td_invoke (tm_data t) \<in> Q \<and> tmrEvent (td_name (tm_data t)) \<noteq> None"

definition timers_inv :: "u32 \<Rightarrow> ptr set \<Rightarrow> est \<Rightarrow> bool" where
  "timers_inv os Q s \<longleftrightarrow> osClock (e_env s) = Some os \<and> NULL \<notin> Q \<and> cfg_intervals (delay_ok os) (e_cfg s) \<and>
     (\<forall>m\<in>Q. curState (e_invoke s m) \<noteq> None \<and> intervals (delay_ok os) (e_invoke s m)) \<and>
     (\<forall>t\<in>set (e_timerQ s). timer_ok Q t)"

definition timers_due :: "u32 \<Rightarrow> ptr set \<Rightarrow> nat \<Rightarrow> est \<Rightarrow> bool" where
  "timers_due os Q k s \<longleftrightarrow> timers_inv os Q s \<and> length (tmr_due (os * 1000) (e_timerQ s)) \<le> k"

lemmas timers_defs = timers_due_def timers_inv_def

lemma tmr_due_insert:
  "\<not> expiryTime t \<le> now \<Longrightarrow> tmr_due now (tmr_insert t q) = tmr_due now q"
  by (induction q) (auto simp: tmr_due_def)

lemma tmr_due_stop: "length (tmr_due now (TMR_stop d q)) \<le> length (tmr_due now q)"
  by (induction q) (auto simp: tmr_due_def)

text \<open>Updates that do not touch the timers, the machines' states, the clock and the configuration.\<close>

lemma timers_due_upd:
  assumes "\<And>s. e_timerQ (f s) = e_timerQ s" "\<And>s. e_invoke (f s) = e_invoke s"
    "\<And>s. osClock (e_env (f s)) = osClock (e_env s)" "\<And>s. e_cfg (f s) = e_cfg s"
  shows "keeps (timers_due os Q k) (upd f)"
  using assms by (intro keeps_upd) (simp add: timers_defs)

lemma timers_due_invoke:
  assumes "\<And>i. intervals D (f i) = intervals D i" "D = delay_ok os" "\<And>i. curState (f i) \<noteq> None \<longleftrightarrow> curState i \<noteq> None"
  shows "keeps (timers_due os Q k) (upd_invoke m f)"
  unfolding upd_invoke_def using assms by (intro keeps_upd) (auto simp: timers_defs)

lemma timers_due_stop: "keeps (timers_due os Q k) (upd_timerQ (TMR_stop d))"
proof -
  have "length (tmr_due now (TMR_stop d q)) \<le> k" if "length (tmr_due now q) \<le> k" for now and q :: "tmrData timerQ"
    using that tmr_due_stop le_trans by blast
  then show ?thesis
    unfolding upd_timerQ_def using subsetD [OF set_TMR_stop [of d "q :: tmrData timerQ" for q]]
    by (intro keeps_upd) (auto simp: timers_defs)
qed

lemma timers_due_create:
  assumes "m \<in> Q" "delay_ok os x" "tmrEvent name \<noteq> None"
  shows "keeps (timers_due os Q k) (erop_tmrCreate m name x datum)"
proof (rule keepsI)
  fix s assume P: "timers_due os Q k s"
  then have clk: "osClock (e_env s) = Some os"
    by (simp add: timers_defs)
  have ins: "tmr_due (os * 1000) (tmr_insert \<lparr>tm_desc = p, expiryTime = os * 1000 + word_of_int x, tm_data = d\<rparr> q) =
      tmr_due (os * 1000) q" for p d and q :: "tmrData timerQ"
    using delay_later [OF assms(2)] by (simp add: tmr_due_insert)
  show "timers_due os Q k (exec (erop_tmrCreate m name x datum) s)"
    using P assms
    by (auto simp: erop_tmrCreate_def TMR_create_def tmr_obtain_def SF_memGet_def newPtr_def est_run
        clk TMR_start_def tmr_currentTime_def timers_defs ins timer_ok_def intervals_def)
qed

text \<open>The actions preserve it, for the machines of \<open>Q\<close>.\<close>

lemma timers_due_values:
  "keeps (timers_due os Q k) (erop_tmrSetValues m)"
  by (rule keepsI) (auto simp: erop_tmrSetValues_def est_run timers_defs cfg_intervals_def intervals_def)

lemma timers_due_refs: "keeps (timers_due os Q k) (upd (\<lambda>s. s\<lparr>e_refs := f s\<rparr>))"
  by (rule timers_due_upd) simp_all

interpretation timers: engine_inv "timers_due os Q k" Q UNIV "delay_ok os" for os Q k
proof unfold_locales
  show "intervals (delay_ok os) (e_invoke s m)" if "timers_due os Q k s" "m \<in> Q" for s m
    using that by (simp add: timers_defs)
  show "keeps (timers_due os Q k) (upd_invoke m f)" if "m \<in> Q" "frame f" for m f
    using that by (intro timers_due_invoke) (auto simp: frame_def intervals_def)
  show "keeps (timers_due os Q k) (upd_invoke m (\<lambda>i. i\<lparr>remNsapAddr := a\<rparr>))" for m a
    by (intro timers_due_invoke) (auto simp: intervals_def)
  show "keeps (timers_due os Q k) (setCurState m (Some q))" for m q
    unfolding setCurState_def upd_invoke_def by (intro keeps_upd) (auto simp: timers_defs intervals_def)
  show "keeps (timers_due os Q k) (erop_tmrCancel m name)" for m name
    by (intro keeps_tmrCancel timers_due_stop timers_due_invoke) (simp_all add: intervals_def)
  show "keeps (timers_due os Q k) (sch_submit t SCH_PSEUDO_EVENT)" for t
    unfolding sch_submit_def by (intro keeps_intros timers_due_upd) (simp_all split: option.split)
  show "keeps (timers_due os Q k) (upd (\<lambda>s. s\<lparr>e_env := h s\<rparr>))"
    if "\<And>s. upcalls (h s) = upcalls (e_env s) \<and> osClock (h s) = osClock (e_env s)" for h
    using that by (intro timers_due_upd) auto
qed (auto simp: NM_incCounter_def erop_refNew_def erop_refKeep_def getInvoke_def
    intro!: keeps_intros timers_due_upd timers_due_create timers_due_values timers_due_refs)

lemma timers_due_fire:
  assumes "timer_ok Q t"
  shows "keeps (timers_due os Q k) (fireTimer t)"
  unfolding fireTimer_def erop_timerRsp_def upd_evt_def getEvt_def
  using assms
  by (intro keeps_intros timers_due_upd timers_due_invoke timers.keep_runMachine)
    (simp_all add: intervals_def timer_ok_def)

lemma fireTimer_ok:
  assumes "timers_inv os Q s" "\<not> e_aborted s" "timer_ok Q t"
  shows "result (fireTimer t) s"
proof -
  have m: "td_invoke (tm_data t) \<in> Q" "NULL \<notin> Q"
    using assms by (simp_all add: timers_inv_def timer_ok_def)
  then have "td_invoke (tm_data t) \<noteq> NULL"
    by metis
  moreover obtain q ev where "curState (e_invoke s (td_invoke (tm_data t))) = Some q"
    "tmrEvent (td_name (tm_data t)) = Some ev"
    using assms m(1) by (auto simp: timers_inv_def timer_ok_def)
  ultimately show ?thesis
    using assms(2) by (simp add: fireTimer_def erop_timerRsp_def est_run runMachine_effect)
qed

interpretation timer_queue:
  timer_client e_timerQ upd_timerQ fireTimer "os * 1000" "timers_inv os Q" "timer_ok Q" e_aborted
  for os Q
proof unfold_locales
  show "timers_inv os Q (exec (fireTimer t) s)" if "timers_inv os Q s" "timer_ok Q t" for s t
    using keepsD [OF timers_due_fire [OF that(2), of os "length (tmr_due (os * 1000) (e_timerQ s))"], of s]
      that(1) by (simp add: timers_due_def)
  show "length (tmr_due (os * 1000) (e_timerQ (exec (fireTimer t) s)))
      \<le> length (tmr_due (os * 1000) (e_timerQ s))" if "timers_inv os Q s" "timer_ok Q t" for s t
    using keepsD [OF timers_due_fire [OF that(2), of os "length (tmr_due (os * 1000) (e_timerQ s))"], of s]
      that(1) by (simp add: timers_due_def)
  show "tmr_sorted (e_timerQ (exec (fireTimer t) s))" if "tmr_sorted (e_timerQ s)" for s t
    by (rule keepsD [OF sorted.keep_timer(2) that])
  show "timers_inv os Q (exec (upd_timerQ tl) s)" if "timers_inv os Q s" for s
    using that by (cases "e_timerQ s") (auto simp: timers_inv_def est_run)
qed (auto simp: est_run timers_inv_def frozenD [OF frozen.keep_timer(2)] intro: fireTimer_ok)

end
