(* ===== verification/Erop_Outcome.thy ===== *)
theory Erop_Outcome
  imports Erop_Run
begin

text \<open>
  The engine as a transition system, whose steps are the calls of the user, the tasks of the
  scheduler, the expiry of timers and changes of the environment, in any order; and the invariant
  that an invocation of the local user gets at most one outcome, a result, an error or a failure.
\<close>

section \<open>Outcomes\<close>

fun outTask :: "ptr \<Rightarrow> task \<Rightarrow> bool" where
  "outTask m (erop_scheduledResultIndT i u enc d) = (i = m)"
| "outTask m (erop_scheduledErrorIndT i u enc ev d) = (i = m)"
| "outTask m (erop_scheduledFailureIndT i u f) = (i = m)"
| "outTask m _ = False"

fun outUpcall :: "ptr \<Rightarrow> upcall \<Rightarrow> bool" where
  "outUpcall m (UresultInd i u enc d) = (i = m)"
| "outUpcall m (UerrorInd i u ev enc d) = (i = m)"
| "outUpcall m (UfailureInd i u f) = (i = m)"
| "outUpcall m _ = False"

text \<open>The outcomes of an invocation: those delivered and those scheduled.\<close>

definition outs :: "ptr \<Rightarrow> est \<Rightarrow> nat" where
  "outs m s = length (filter (\<lambda>x. outTask m (si_task x)) (sch_active (e_sch s))) +
     length (filter (\<lambda>x. outTask m (si_task x)) (sch_runq (e_sch s))) +
     length (filter (outUpcall m) (upcalls (e_env s)))"

definition invokerSt :: "fsmst \<Rightarrow> bool" where
  "invokerSt q \<longleftrightarrow> q \<in> {lsfsm_sCLInvokerStart, lsfsm_sInvokePduSent, lsfsm_sAckPduSent,
     lsfsm_sInvokerRefWait, lsfsm_s2CLInvokerStart, lsfsm_s2InvokePduSent, lsfsm_s2InvokerRefWait}"

definition waiting :: "fsmst \<Rightarrow> bool" where
  "waiting q \<longleftrightarrow> q = lsfsm_sInvokePduSent \<or> q = lsfsm_s2InvokePduSent"

text \<open>
  The invariant: an invoker machine has at most one outcome, and none while it waits for the
  answer; invocations not yet created have none, and no state.
\<close>

definition outcome_inv :: "est \<Rightarrow> bool" where
  "outcome_inv s \<longleftrightarrow>
     (\<forall>m q. curState (e_invoke s m) = Some q \<longrightarrow> invokerSt q \<longrightarrow> outs m s \<le> 1) \<and>
     (\<not> e_aborted s \<longrightarrow>
        (\<forall>m q. curState (e_invoke s m) = Some q \<longrightarrow> waiting q \<longrightarrow> outs m s = 0) \<and>
        (\<forall>m\<ge>e_next s. outs m s = 0 \<and> curState (e_invoke s m) = None))"


section \<open>What the actions change\<close>

lemma next_st_invoker: "invokerSt (next_st q e) = invokerSt q"
  by (cases q) (auto simp: invokerSt_def next_st_def act_defs)

lemma next_st_waiting:
  "waiting (next_st q e) \<Longrightarrow> e \<noteq> lsfsm_EvtInvokeReq \<Longrightarrow> waiting q \<and> \<not> loud q e"
  by (cases q) (auto simp: waiting_def next_st_def act_defs split: if_splits)

lemma loud_invoker: "loud q e \<Longrightarrow> invokerSt q \<Longrightarrow> waiting q"
  by (auto simp: loud_def invokerSt_def waiting_def)

lemma keeps_outs:
  assumes "\<And>s. e_sch (f s) = e_sch s" "\<And>s. upcalls (e_env (f s)) = upcalls (e_env s)"
    "\<And>s. curState (e_invoke (f s) m) = curState (e_invoke s m)" "\<And>s. e_next s \<le> e_next (f s)"
  shows "keeps (\<lambda>s. outs m s = k \<and> curState (e_invoke s m) = c \<and> n \<le> e_next s) (upd f)"
  using assms by (intro keeps_upd) (auto simp: outs_def intro: le_trans)

lemma outs_submit:
  "exec (sch_submit t ev) s = s\<lparr>e_aborted := True\<rparr> \<or>
   (\<forall>m. outs m (exec (sch_submit t ev) s) = outs m s + (if outTask m t then 1 else 0)) \<and>
     e_invoke (exec (sch_submit t ev) s) = e_invoke s \<and> e_next (exec (sch_submit t ev) s) = e_next s"
  if "\<not> e_aborted s" for s
  using that by (auto simp: sch_submit_effect outs_def)

lemma keeps_outs_submit:
  assumes "\<not> outTask m t"
  shows "keeps (\<lambda>s. outs m s = k \<and> curState (e_invoke s m) = c \<and> n \<le> e_next s) (sch_submit t ev)"
proof (rule keepsI)
  fix s assume P: "outs m s = k \<and> curState (e_invoke s m) = c \<and> n \<le> e_next s"
  show "outs m (exec (sch_submit t ev) s) = k \<and> curState (e_invoke (exec (sch_submit t ev) s) m) = c \<and>
      n \<le> e_next (exec (sch_submit t ev) s)"
  proof (cases "e_aborted s")
    case True
    then show ?thesis using P frozenD [OF frozen.submit_any] by simp
  next
    case False
    have "outs m (s\<lparr>e_aborted := True\<rparr>) = outs m s"
      by (simp add: outs_def)
    then show ?thesis
      using P outs_submit [OF False, of t ev] assms by auto
  qed
qed

text \<open>
  Instances of the interface: for another machine nothing changes; the actions that are not loud
  change nothing for their own machine either; no action changes the state by itself.
\<close>

lemmas small_prims = upd_defs NM_incCounter_def newPtr_def setCurState_def erop_refNew_def
  erop_refKeep_def erop_tmrSetValues_def erop_tmrCreate_def TMR_create_def tmr_obtain_def
  SF_memGet_def get_defs

lemma keeps_outs_cancel:
  "keeps (\<lambda>s. outs m s = k \<and> curState (e_invoke s m) = c \<and> n \<le> e_next s) (erop_tmrCancel m' name)"
  by (rule keeps_tmrCancel) (auto simp: upd_defs intro!: keeps_outs)

interpretation others:
  engine_inv "\<lambda>s. outs m s = k \<and> curState (e_invoke s m) = c \<and> n \<le> e_next s" "{m'. m' \<noteq> m}" UNIV "\<lambda>_. True"
  for m k c n
proof unfold_locales
  show "keeps (\<lambda>s. outs m s = k \<and> curState (e_invoke s m) = c \<and> n \<le> e_next s) (sch_submit t SCH_PSEUDO_EVENT)"
    if "taskInv t \<in> {m'. m' \<noteq> m}" for t
    using that by (intro keeps_outs_submit) (cases t; auto)
qed (auto simp: small_prims intervals_def frame_def intro!: keeps_intros keeps_outs keeps_outs_cancel)

interpretation quiet:
  engine_quiet "\<lambda>s. outs m s = k \<and> curState (e_invoke s m) = c \<and> n \<le> e_next s" UNIV UNIV "\<lambda>_. True"
    "\<lambda>t. \<not> outTask m t"
  for m k c n
proof unfold_locales
  show "keeps (\<lambda>s. outs m s = k \<and> curState (e_invoke s m) = c \<and> n \<le> e_next s) (sch_submit t SCH_PSEUDO_EVENT)"
    if "\<not> outTask m t" for t
    using that by (rule keeps_outs_submit)
qed (auto simp: small_prims intervals_def frame_def intro!: keeps_intros keeps_outs keeps_outs_cancel)

lemma keeps_curst:
  assumes "\<And>s. curState (e_invoke (f s) m) = curState (e_invoke s m)" "\<And>s. e_next s \<le> e_next (f s)"
  shows "keeps (\<lambda>s. curState (e_invoke s m) = c \<and> n \<le> e_next s) (upd f)"
  using assms by (intro keeps_upd) (auto intro: le_trans)

interpretation curst:
  engine_acts "\<lambda>s. curState (e_invoke s m) = c \<and> n \<le> e_next s" UNIV UNIV "\<lambda>_. True" for m c n
proof unfold_locales
  show "keeps (\<lambda>s. curState (e_invoke s m) = c \<and> n \<le> e_next s) (sch_submit t SCH_PSEUDO_EVENT)" for t
    unfolding sch_submit_def by (intro keeps_intros keeps_curst) (auto split: option.split)
  show "keeps (\<lambda>s. curState (e_invoke s m) = c \<and> n \<le> e_next s) (erop_tmrCancel m' name)" for m' name
    by (rule keeps_tmrCancel) (auto simp: upd_defs intro!: keeps_curst)
qed (auto simp: small_prims intervals_def frame_def intro!: keeps_intros keeps_curst)

text \<open>The loud actions of the invokers add at most one outcome of their machine.\<close>

definition outs_le :: "ptr \<Rightarrow> nat \<Rightarrow> est \<Rightarrow> bool" where
  "outs_le m k s \<longleftrightarrow> outs m s \<le> k"

lemma quiet_le: "(\<And>k c n. keeps (\<lambda>s. outs m s = k \<and> curState (e_invoke s m) = c \<and> n \<le> e_next s) p) \<Longrightarrow>
    keeps (outs_le m k) p"
  unfolding keeps_def outs_le_def by (metis order_refl)

lemma triple_quiet: "keeps P p \<Longrightarrow> (\<And>x. triple P (f x) Q) \<Longrightarrow> triple P (p \<bind> f) Q"
  by (auto simp: triple_def keeps_def run_simps)

lemma triple_then_keeps:
  "triple P p (\<lambda>_. Q) \<Longrightarrow> (\<And>x. keeps Q (f x)) \<Longrightarrow> triple P (p \<bind> f) (\<lambda>_. Q)"
  by (auto simp: triple_def keeps_def run_simps)

lemma triple_return_le: "triple (outs_le m k) (return x) (\<lambda>_. outs_le m (Suc k))"
  by (simp add: triple_def outs_le_def run_simps)

lemma triple_submit: "triple (outs_le m k) (sch_submit t ev) (\<lambda>_. outs_le m (Suc k))"
proof (rule tripleI)
  fix s assume P: "outs_le m k s"
  have "outs m (s\<lparr>e_aborted := True\<rparr>) = outs m s"
    by (simp add: outs_def)
  then show "outs_le m (Suc k) (exec (sch_submit t ev) s)"
    using P outs_submit [of s t ev] frozenD [OF frozen.submit_any, of s t ev]
    by (cases "e_aborted s") (auto simp: outs_le_def)
qed

lemma triple_inds:
  "triple (outs_le m k) (erop_resultInd m u enc d) (\<lambda>_. outs_le m (Suc k))"
  "triple (outs_le m k) (erop_errorInd m u enc ev d) (\<lambda>_. outs_le m (Suc k))"
  "triple (outs_le m k) (erop_failureInd m u f) (\<lambda>_. outs_le m (Suc k))"
proof -
  have mem: "keeps (outs_le m k) SF_memGet"
    by (rule quiet_le) (rule quiet.keep_SF_memGet)
  have cont: "triple (outs_le m k) (if \<not> ok then return FAIL else sch_submit t ev) (\<lambda>_. outs_le m (Suc k))"
    for ok t ev
    by (simp add: triple_return_le triple_submit)
  show "triple (outs_le m k) (erop_resultInd m u enc d) (\<lambda>_. outs_le m (Suc k))"
    "triple (outs_le m k) (erop_errorInd m u enc ev d) (\<lambda>_. outs_le m (Suc k))"
    "triple (outs_le m k) (erop_failureInd m u f) (\<lambda>_. outs_le m (Suc k))"
    unfolding ind_defs by (intro triple_quiet mem cont)+
qed

interpretation le:
  engine_quiet "outs_le m k" UNIV UNIV "\<lambda>_. True" "\<lambda>t. \<not> outTask m t" for m k
proof unfold_locales
  show "keeps (outs_le m k) (upd_invoke m' f)" if "m' \<in> UNIV" "frame f" for m' f
    by (rule quiet_le) (rule quiet.invoke [OF that])
qed (auto simp: intervals_def intro!: quiet_le quiet.addr quiet.tmrValues quiet.du quiet.env quiet.create
    quiet.cancel quiet.submit quiet.refNew quiet.refKeep quiet.nm)

lemmas loud_rules = triple_if triple_return_le
  triple_then_keeps [OF triple_inds(1)] triple_then_keeps [OF triple_inds(2)]
  triple_then_keeps [OF triple_inds(3)] triple_then_keeps [OF triple_if [OF triple_inds(1) triple_inds(2)]]
  triple_quiet

lemma loud_clInvoker03: "triple (outs_le m k) (tr_clInvoker03 m e) (\<lambda>_. outs_le m (Suc k))"
  unfolding tr_clInvoker03_def
  by (rule loud_rules le.keep_ops | assumption | simp add: frame_def intervals_def tmrEvent_def)+

lemma loud_clInvoker04: "triple (outs_le m k) (tr_clInvoker04 m e) (\<lambda>_. outs_le m (Suc k))"
  unfolding tr_clInvoker04_def
  by (rule loud_rules le.keep_ops | assumption | simp add: frame_def intervals_def tmrEvent_def)+

lemma loud_clInvoker05: "triple (outs_le m k) (tr_clInvoker05 m e) (\<lambda>_. outs_le m (Suc k))"
  unfolding tr_clInvoker05_def
  by (rule loud_rules le.keep_ops | assumption | simp add: frame_def intervals_def tmrEvent_def)+

lemma loud_2clInvoker04: "triple (outs_le m k) (tr_2clInvoker04 m e) (\<lambda>_. outs_le m (Suc k))"
  unfolding tr_2clInvoker04_def
  by (rule loud_rules le.keep_ops | assumption | simp add: frame_def intervals_def tmrEvent_def)+

lemma loud_act:
  assumes "waiting q" "loud q e"
  shows "outs m (exec (act q e m e') s) \<le> Suc (outs m s)"
proof -
  have "triple (outs_le m (outs m s)) (act q e m e') (\<lambda>_. outs_le m (Suc (outs m s)))"
    using assms
    by (cases q; auto simp: waiting_def act_defs
        intro: loud_clInvoker03 loud_clInvoker04 loud_clInvoker05 loud_2clInvoker04)
  then show ?thesis
    using tripleD [of "outs_le m (outs m s)" "act q e m e'" "\<lambda>_. outs_le m (Suc (outs m s))" s]
    by (simp add: outs_le_def)
qed

lemma quiet_act:
  assumes "\<not> loud q e"
  shows "outs m (exec (act q e m e') s) = outs m s"
  using keepsD [OF quiet.keep_quiet_act [of m q e m "outs m s" "curState (e_invoke s m)" "e_next s" e'], of s]
    assms by simp

lemma act_other:
  assumes "m' \<noteq> m"
  shows "outs m' (exec (act q e m e') s) = outs m' s"
    "curState (e_invoke (exec (act q e m e') s) m') = curState (e_invoke s m')"
  using keepsD [OF others.keep_act [of m m' q e "outs m' s" "curState (e_invoke s m')" "e_next s" e'], of s]
    assms by auto

lemma act_state:
  "curState (e_invoke (exec (act q e m e') s) m') = curState (e_invoke s m')"
  "e_next s \<le> e_next (exec (act q e m e') s)"
  using keepsD [OF curst.keep_act [of m q e m' "curState (e_invoke s m')" "e_next s" e'], of s] by auto

lemma act_frozen: "e_aborted s \<Longrightarrow> exec (act q e m e') s = s"
  by (rule frozenD [OF frozen.keep_act]) auto


section \<open>The invariant\<close>

lemma outs_setCurState [simp]: "outs m (exec (setCurState i q) s) = outs m s"
  by (simp add: setCurState_def est_run outs_def)

lemma setCurState_frame [simp]:
  "e_aborted (exec (setCurState i q) s) = e_aborted s" "e_next (exec (setCurState i q) s) = e_next s"
  by (simp_all add: setCurState_def est_run)

lemma setCurState_state:
  "curState (e_invoke (exec (setCurState i q) s) m) =
    (if e_aborted s \<or> m \<noteq> i then curState (e_invoke s m) else q)"
  by (simp add: setCurState_def est_run)

text \<open>
  Running a machine: for an event other than the request that starts an invoker, or when the
  machine has no outcome yet.
\<close>

lemma outcome_runMachine:
  assumes inv: "outcome_inv s" and e: "e \<noteq> lsfsm_EvtInvokeReq \<or> outs m s = 0"
  shows "outcome_inv (exec (runMachine m e) s)"
proof (cases "m = NULL \<or> curState (e_invoke s m) = None \<or> e_aborted s")
  case True
  have "exec (runMachine m e) s = s" if "e_aborted s"
    by (rule frozenD [OF frozen.keep_run that])
  then show ?thesis
    using True inv runMachine_none(2) [of m s e] by auto
next
  case False
  then obtain q where m: "m \<noteq> NULL" and q: "curState (e_invoke s m) = Some q" and al: "\<not> e_aborted s"
    by auto
  define s1 where "s1 = exec (act q e m e) s"
  have run: "exec (runMachine m e) s = exec (setCurState m (Some (next_st q e))) s1"
    using runMachine_effect(2) [OF m q] by (simp add: s1_def)
  have st: "curState (e_invoke s1 i) = curState (e_invoke s i)" "e_next s \<le> e_next s1" for i
    using act_state by (auto simp: s1_def)
  have other: "outs i s1 = outs i s" if "i \<noteq> m" for i
    using act_other(1) [OF that] by (simp add: s1_def)
  have bump: "outs m s1 \<le> Suc (outs m s)" if "loud q e" "invokerSt q"
    using loud_act [OF loud_invoker [OF that] that(1)] by (simp add: s1_def)
  have same: "outs m s1 = outs m s" if "\<not> loud q e"
    using quiet_act [OF that] by (simp add: s1_def)
  have le1: "outs i s1 \<le> 1" if "curState (e_invoke s i) = Some p" "invokerSt p" for i p
  proof (cases "i = m")
    case True
    then have "p = q" using that q by simp
    moreover have "outs m s = 0" if "loud q e"
      using inv al q loud_invoker [OF that] \<open>invokerSt p\<close> \<open>p = q\<close> by (auto simp: outcome_inv_def)
    ultimately show ?thesis
      using bump same inv that True by (cases "loud q e") (auto simp: outcome_inv_def)
  next
    case False
    then show ?thesis using other inv that by (auto simp: outcome_inv_def)
  qed
  have wait: "outs m s1 = 0" if "waiting (next_st q e)"
  proof (cases "e = lsfsm_EvtInvokeReq")
    case True
    then have "\<not> loud q e" by (simp add: loud_def)
    then show ?thesis using same e True by simp
  next
    case False
    then have "waiting q" "\<not> loud q e"
      using next_st_waiting [OF that] by auto
    then show ?thesis using same inv al q by (auto simp: outcome_inv_def)
  qed
  have new: "m < e_next s"
    using inv al q by (auto simp: outcome_inv_def not_less [symmetric])
  show ?thesis
    unfolding run outcome_inv_def setCurState_state outs_setCurState setCurState_frame
    using le1 wait other st q new inv al next_st_invoker
    by (auto simp: outcome_inv_def split: if_splits)
qed

end
