(* ===== verification/Erop_Steps.thy ===== *)
theory Erop_Steps
  imports Erop_Outcome
begin

text \<open>
  The operations preserve the invariant of theory Erop_Outcome, and so do the steps of the
  engine: the transition relation \<open>estep\<close>, its reachable states, and what holds in them.
\<close>

section \<open>The operations\<close>

text \<open>
  \<open>outcome_at N\<close>: the invariant, and the machines of \<open>N\<close> exist and have no outcome yet.
\<close>

definition outcome_at :: "ptr set \<Rightarrow> est \<Rightarrow> bool" where
  "outcome_at N s \<longleftrightarrow> outcome_inv s \<and> (\<not> e_aborted s \<longrightarrow> (\<forall>m\<in>N. m < e_next s \<and> outs m s = 0))"

lemma outcome_at_empty: "outcome_at {} = outcome_inv"
  by (simp add: fun_eq_iff outcome_at_def)

lemma oc_upd:
  assumes "\<And>s. e_sch (f s) = e_sch s" "\<And>s. upcalls (e_env (f s)) = upcalls (e_env s)"
    "\<And>s m. curState (e_invoke (f s) m) = curState (e_invoke s m)" "\<And>s. e_next (f s) = e_next s"
  shows "keeps (outcome_at N) (upd f)"
proof (rule keeps_upd)
  fix s assume "\<not> e_aborted s" and P: "outcome_at N s"
  have "outs m (f s) = outs m s" for m
    using assms by (simp add: outs_def)
  then show "outcome_at N (f s)"
    using P \<open>\<not> e_aborted s\<close> assms(3,4) by (simp add: outcome_at_def outcome_inv_def)
qed

lemma oc_newPtr: "keeps (outcome_at N) newPtr"
proof -
  have "outs m (s\<lparr>e_next := k\<rparr>) = outs m s" for m s k
    by (simp add: outs_def)
  then show ?thesis
    unfolding newPtr_def
    by (intro keeps_intros keeps_upd) (auto simp: outcome_at_def outcome_inv_def less_Suc_eq)
qed

lemma oc_die: "keeps (outcome_at N) die"
proof -
  have "outs m (s\<lparr>e_aborted := True\<rparr>) = outs m s" for m s
    by (simp add: outs_def)
  then show ?thesis
    unfolding die_def by (intro keeps_upd) (auto simp: outcome_at_def outcome_inv_def)
qed

lemma oc_submit:
  assumes "\<And>m. \<not> outTask m t"
  shows "keeps (outcome_at N) (sch_submit t ev)"
proof (rule keepsI)
  fix s assume P: "outcome_at N s"
  have "outs m (s\<lparr>e_aborted := True\<rparr>) = outs m s" for m
    by (simp add: outs_def)
  moreover have "e_aborted (exec (sch_submit t ev) s) = (e_aborted s \<or> availSchInfo (e_sch s) = 0)"
    by (cases "e_aborted s") (simp_all add: sch_submit_effect frozenD [OF frozen.submit_any])
  ultimately show "outcome_at N (exec (sch_submit t ev) s)"
    using P assms outs_submit [of s t ev] frozenD [OF frozen.submit_any, of s t ev]
    by (cases "e_aborted s") (auto simp: outcome_at_def outcome_inv_def)
qed

text \<open>The interface once more, for the primitives that are not about machines.\<close>

interpretation oc: engine_quiet "outcome_at N" UNIV UNIV "\<lambda>_. True" "\<lambda>t. \<forall>m. \<not> outTask m t" for N
proof unfold_locales
  show "keeps (outcome_at N) (erop_tmrCancel m name)" for m name
    by (rule keeps_tmrCancel) (auto simp: upd_defs intro!: oc_upd)
  show "keeps (outcome_at N) (sch_submit t SCH_PSEUDO_EVENT)" if "\<forall>m. \<not> outTask m t" for t
    using that by (intro oc_submit) simp
  show "keeps (outcome_at N) (erop_tmrCreate m name x d)" for m name x d
    unfolding erop_tmrCreate_def TMR_create_def tmr_obtain_def SF_memGet_def upd_invoke_def
      upd_timerQ_def upd_env_def
    by (intro keeps_intros oc_newPtr oc_die oc_upd) simp_all
qed (auto simp: upd_defs NM_incCounter_def erop_refNew_def erop_refKeep_def erop_tmrSetValues_def
    get_defs intervals_def frame_def intro!: keeps_intros oc_upd)

text \<open>A new invocation has no outcome.\<close>

lemma oc_create:
  "triple (outcome_at {}) (erop_invokeInfoCreate sap) (\<lambda>m. outcome_at (if m = NULL then {} else {m}))"
proof (rule tripleI)
  fix s assume P: "outcome_at {} s"
  let ?m = "result (erop_invokeInfoCreate sap) s" and ?s = "exec (erop_invokeInfoCreate sap) s"
  show "outcome_at (if ?m = NULL then {} else {?m}) ?s"
  proof (cases "e_aborted s")
    case True
    then have "?s = s"
      by (rule frozenD [OF frozen.keep_create])
    then show ?thesis using P True by (simp add: outcome_at_def)
  next
    case al: False
    show ?thesis
    proof (cases "memFail (e_env s) (memCount (e_env s)) \<or> e_next s = NULL")
      case True
      have "outs m (s\<lparr>e_env := (e_env s)\<lparr>memCount := k\<rparr>, e_aborted := True\<rparr>) = outs m s"
        "outs m (s\<lparr>e_env := (e_env s)\<lparr>memCount := k\<rparr>, e_next := k'\<rparr>) = outs m s" for m k k'
        by (simp_all add: outs_def)
      then show ?thesis
        using P al True
        by (auto simp: erop_invokeInfoCreate_def est_run SEQ_elemObtain_effect Let_def outcome_at_def
            outcome_inv_def)
    next
      case False
      then have "outs m ?s = outs m s" for m
        using al by (simp add: erop_invokeInfoCreate_effect outs_def)
      then show ?thesis
        using P al False
        by (simp add: erop_invokeInfoCreate_effect outcome_at_def outcome_inv_def Let_def)
    qed
  qed
qed

text \<open>
  \<open>ends N p\<close>: from a state in which the machines of \<open>N\<close> are new, the program \<open>p\<close> leads to one
  with the invariant.
\<close>

abbreviation ends :: "ptr set \<Rightarrow> 'a eprog \<Rightarrow> bool" where
  "ends N p \<equiv> triple (outcome_at N) p (\<lambda>_. outcome_at {})"

lemma ends_keeps: "keeps (outcome_at N) p \<Longrightarrow> ends N p"
  by (auto simp: keeps_def triple_def outcome_at_def)

lemma ends_bind: "keeps (outcome_at N) p \<Longrightarrow> (\<And>x. ends N (f x)) \<Longrightarrow> ends N (p \<bind> f)"
  by (rule triple_quiet)

lemma ends_then: "ends N p \<Longrightarrow> (\<And>x. keeps (outcome_at {}) (f x)) \<Longrightarrow> ends N (p \<bind> f)"
  by (rule triple_then_keeps)

lemma ends_return: "ends N (return x)"
  by (rule ends_keeps) (rule keeps_return)

lemma ends_create:
  "(\<And>m. ends (if m = NULL then {} else {m}) (f m)) \<Longrightarrow> ends {} (erop_invokeInfoCreate sap \<bind> f)"
  using oc_create [of sap] by (fastforce simp: triple_def run_simps)

lemma ends_create_null:
  assumes "ends {} p" "\<And>m. ends {m} (f m)"
  shows "ends {} (erop_invokeInfoCreate sap \<bind> (\<lambda>m. if m = NULL then p else f m))"
  by (rule ends_create) (use assms in simp)

lemma ends_create_some:
  assumes "ends {} p" "\<And>m. ends {m} (f m)"
  shows "ends {} (erop_invokeInfoCreate sap \<bind> (\<lambda>m. if m \<noteq> NULL then f m else p))"
  by (rule ends_create) (use assms in simp)

lemma ends_empty: "ends {} p \<longleftrightarrow> keeps (outcome_at {}) p"
  by (simp add: triple_def keeps_def)

lemma ends_run:
  "e \<noteq> lsfsm_EvtInvokeReq \<or> m \<in> N \<Longrightarrow> ends N (runMachine m e)"
proof (rule tripleI)
  fix s assume e: "e \<noteq> lsfsm_EvtInvokeReq \<or> m \<in> N" and P: "outcome_at N s"
  then show "outcome_at {} (exec (runMachine m e) s)"
    using outcome_runMachine [of s e m] frozenD [OF frozen.keep_run, of s m e]
    by (cases "e_aborted s") (auto simp: outcome_at_def)
qed

lemma keeps_run: "e \<noteq> lsfsm_EvtInvokeReq \<Longrightarrow> keeps (outcome_at {}) (runMachine m e)"
  using ends_run [of e m "{}"] by (simp add: ends_empty)

text \<open>Setting the state of a machine that has no outcome yet.\<close>

lemma oc_state:
  assumes "m \<in> N" "\<not> waiting q"
  shows "keeps (outcome_at N) (upd_invoke m (\<lambda>i. i\<lparr>curState := Some q\<rparr>))"
  unfolding upd_invoke_def
proof (rule keeps_upd)
  fix s assume al: "\<not> e_aborted s" and P: "outcome_at N s"
  let ?s = "s\<lparr>e_invoke := (e_invoke s)(m := (e_invoke s m)\<lparr>curState := Some q\<rparr>)\<rparr>"
  have "outs i ?s = outs i s" for i
    by (simp add: outs_def)
  then show "outcome_at N ?s"
    using P al assms by (auto simp: outcome_at_def outcome_inv_def)
qed

lemma not_waiting_start: "\<not> waiting (d_state (diag d))"
  by (cases d) (simp_all add: waiting_def)

lemma oc_more:
  "keeps (outcome_at N) (upd_sap p k)" "keeps (outcome_at N) (upd (\<lambda>s. s\<lparr>e_sapSeq := l s\<rparr>))"
  "keeps (outcome_at N) (upd_evt ev)" "keeps (outcome_at N) (upd_pdu pd)"
  "keeps (outcome_at N) (erop_refFree m)" "keeps (outcome_at N) (upd (\<lambda>s. s\<lparr>e_live := L s\<rparr>))"
  "keeps (outcome_at N) (erop_getSapInfo sel)" "keeps (outcome_at N) SEQ_elemObtain"
proof -
  show "keeps (outcome_at N) SEQ_elemObtain"
    unfolding SEQ_elemObtain_def by (intro keeps_intros oc.keep_SF_memGet oc_newPtr oc_die)
qed (auto simp: upd_defs erop_refFree_def erop_getSapInfo_def intro!: keeps_intros oc_upd)

lemma oc_invoke: "(\<And>i. curState (f i) = curState i) \<Longrightarrow> keeps (outcome_at N) (upd_invoke m f)"
  unfolding upd_invoke_def by (rule oc_upd) simp_all

lemma oc_env: "(\<And>e. upcalls (h e) = upcalls e) \<Longrightarrow> keeps (outcome_at N) (upd_env h)"
  unfolding upd_env_def by (rule oc_upd) simp_all

lemmas oc_ops = oc.keep_du_ops oc.keep_gets oc.keep_pdus oc.nm oc_more oc_invoke oc_env oc_state
  not_waiting_start oc.cancel

text \<open>The requests of the user.\<close>

lemma ends_if: "(b \<Longrightarrow> ends N p) \<Longrightarrow> (\<not> b \<Longrightarrow> ends N p') \<Longrightarrow> ends N (if b then p else p')"
  by simp

lemma ends_let: "(\<And>x. ends N (f x)) \<Longrightarrow> ends N (let x = v in f x)"
  by simp

lemma oc_invokeReq: "keeps (outcome_at {}) (EROP_invokeReq a b c d ns opv enc v)"
proof -
  let ?rest = "\<lambda>sap invoke. do {
         size \<leftarrow> du_size v;
         maxSize \<leftarrow> getCfg invokePduSize;
         if v \<noteq> NULL \<and> size > maxSize then return (FAIL, None)
         else do {
           eropView \<leftarrow> du_link v;
           upd_evt (\<lambda>e. e\<lparr>ir_userInvokeRef := a, ir_remESROSap := c,
             ir_remTsap := d, ir_remNsap := ns, ir_opValue := opv,
             ir_encodingType := enc, ir_parameter := eropView\<rparr>);
           funcUnit \<leftarrow> gets (\<lambda>s. functionalUnit (e_sap s sap));
           if funcUnit \<noteq> ESRO_3Way \<and> funcUnit \<noteq> ESRO_2Way then return (FAIL, None)
           else do {
             let dg = (if funcUnit = ESRO_3Way then CLInvokerTransDiag else D2CLInvokerTransDiag);
             upd_invoke invoke (\<lambda>i. i\<lparr>transDiag := Some dg\<rparr>);
             upd_invoke invoke (\<lambda>i. i\<lparr>curState := Some (d_state (diag dg))\<rparr>);
             upd_invoke invoke (\<lambda>i. i\<lparr>performingNotInvoking := False\<rparr>);
             gotVal \<leftarrow> runMachine invoke lsfsm_EvtInvokeReq;
             if gotVal < 0 then return (FAIL, None) else return (SUCCESS, Some invoke)
           }
         }
       }"
  have rest: "ends {invoke} (?rest sap invoke)" for sap invoke
    by (rule ends_if ends_let ends_return ends_then [OF ends_run] keeps_if keeps_return
        ends_bind [OF oc_state] ends_bind [OF oc_invoke] ends_bind [OF oc_more(3)]
        ends_bind [OF oc.keep_du_ops(3)] ends_bind [OF oc.keep_du_ops(6)]
        ends_bind [OF oc.keep_gets(4)] ends_bind [OF keeps_gets] |
        simp add: not_waiting_start)+
  have "ends {} (do {
      sap \<leftarrow> erop_getSapInfo b;
      if sap = NULL then return (FAIL, None)
      else do {
        invoke \<leftarrow> erop_invokeInfoCreate sap;
        if invoke = NULL then return (FAIL, None) else ?rest sap invoke
      }
    })"
    by (rule ends_bind, rule oc_more, rule ends_if, rule ends_return, rule ends_create_null,
        rule ends_return, rule rest)
  then show ?thesis
    unfolding EROP_invokeReq_def ends_empty .
qed

lemma oc_requests:
  "keeps (outcome_at {}) (EROP_resultReq m a enc v)" "keeps (outcome_at {}) (EROP_errorReq m a enc ev v)"
  unfolding EROP_resultReq_def EROP_errorReq_def
  by (intro keeps_intros oc.keep_du_ops oc_more keeps_run; simp)+

lemma oc_free: "keeps (outcome_at {}) (erop_invokeInfoFree m)" "keeps (outcome_at {}) (erop_relInvoke m)"
proof -
  have first: "keeps (outcome_at {}) (freeFirstPdu m sel)" for sel
  proof -
    have "curState (set_pduSeq sel q i) = curState i" for q i
      by simp
    then show ?thesis
      unfolding freeFirstPdu_def by (intro keeps_intros oc.keep_gets oc.keep_du_ops oc_invoke)
  qed
  then show free: "keeps (outcome_at {}) (erop_invokeInfoFree m)"
    unfolding erop_invokeInfoFree_def by (intro keeps_intros oc.keep_gets oc_more) simp_all
  show "keeps (outcome_at {}) (erop_relInvoke m)"
    unfolding erop_relInvoke_def by (intro keeps_intros free oc_more oc_env) simp
qed

lemma oc_saps: "keeps (outcome_at {}) (EROP_sapBind sel fu)" "keeps (outcome_at {}) (EROP_sapUnbind sel)"
proof -
  show "keeps (outcome_at {}) (EROP_sapBind sel fu)"
    unfolding EROP_sapBind_def by (intro keeps_intros oc.keep_gets oc_more)
  show "keeps (outcome_at {}) (EROP_sapUnbind sel)"
    unfolding EROP_sapUnbind_def
    by (intro keeps_intros oc.cancel oc_more oc_env oc_free) simp_all
qed

text \<open>The arrival of a PDU.\<close>

lemma ends_case_option:
  "ends N p \<Longrightarrow> (\<And>x. ends N (f x)) \<Longrightarrow> ends N (case y of None \<Rightarrow> p | Some x \<Rightarrow> f x)"
  by (cases y) simp_all

lemma oc_performer:
  assumes "ends {} p"
  shows "ends {} (erop_invokeInfoCreate sap \<bind> (\<lambda>m. if m \<noteq> NULL then do {
      funcUnit \<leftarrow> gets (\<lambda>s. functionalUnit (e_sap s (locSap (e_invoke s m))));
      let d = (if funcUnit = ESRO_2Way then D2CLPerformerTransDiag else CLPerformerTransDiag);
      upd_invoke m (\<lambda>i. i\<lparr>transDiag := Some d\<rparr>);
      upd_invoke m (\<lambda>i. i\<lparr>curState := Some (d_state (diag d))\<rparr>);
      upd_invoke m (\<lambda>i. i\<lparr>performingNotInvoking := True\<rparr>);
      return m
    } else p))"
proof -
  have "ends {m} (do {
      funcUnit \<leftarrow> gets (\<lambda>s. functionalUnit (e_sap s (locSap (e_invoke s m))));
      let d = (if funcUnit = ESRO_2Way then D2CLPerformerTransDiag else CLPerformerTransDiag);
      upd_invoke m (\<lambda>i. i\<lparr>transDiag := Some d\<rparr>);
      upd_invoke m (\<lambda>i. i\<lparr>curState := Some (d_state (diag d))\<rparr>);
      upd_invoke m (\<lambda>i. i\<lparr>performingNotInvoking := True\<rparr>);
      return m
    })" for m
    by (rule ends_let ends_return ends_bind [OF oc_state] ends_bind [OF oc_invoke]
        ends_bind [OF keeps_gets] | simp add: not_waiting_start)+
  then show ?thesis
    by (rule ends_create_some [OF assms])
qed

lemma oc_getInvoke: "keeps (outcome_at {}) erop_getInvoke"
  unfolding erop_getInvoke_def erop_refToPerformer_def erop_refToInvoker_def
  by (rule oc_performer [unfolded ends_empty] keeps_bind oc.keep_gets keeps_if oc_more oc.keep_pdus
      oc.nm keeps_return keeps_gets keeps_case_option oc_invoke | simp)+

lemma oc_dataInd: "keeps (outcome_at {}) (lower_dataInd ts ns v)"
proof -
  have inPdu: "keeps (outcome_at {}) (erop_inPdu v)"
    unfolding erop_inPdu_def inPdu_rest_def inPdu_ignore_def BO_get1_def
    by (intro keeps_intros oc_getInvoke oc.keep_du_ops oc.keep_gets oc_more)
  show ?thesis
    unfolding lower_dataInd_def
    by (intro keeps_intros inPdu oc.keep_du_ops oc.keep_gets oc_more keeps_run) simp
qed

lemma oc_receive: "keeps (outcome_at {}) udp_receive"
  unfolding udp_receive_def recvfrom_def
  by (intro keeps_intros oc_dataInd oc.keep_du_ops oc.keep_gets oc_env oc_submit) simp_all

lemma oc_timer: "keeps (outcome_at {}) (erop_timerRsp t)" "keeps (outcome_at {}) (fireTimer t)"
proof -
  have "ev \<noteq> lsfsm_EvtInvokeReq" if "tmrEvent n = Some ev" for n ev
    using that by (auto simp: tmrEvent_def split: if_splits)
  then have run: "keeps (outcome_at {}) (case tmrEvent n of None \<Rightarrow> return FAIL
      | Some ev \<Rightarrow> do { r \<leftarrow> runMachine i ev; return (if r = FAIL then FAIL else SUCCESS) })" for n i
    by (auto split: option.split intro!: keeps_intros keeps_run)
  show rsp: "keeps (outcome_at {}) (erop_timerRsp t)"
    unfolding erop_timerRsp_def
    by (rule keeps_bind, rule oc_more, rule keeps_bind, rule oc_invoke, simp, rule keeps_bind,
        rule oc.keep_gets, rule run)
  show "keeps (outcome_at {}) (fireTimer t)"
    unfolding fireTimer_def by (intro keeps_intros rsp)
qed


section \<open>Steps\<close>

text \<open>
  A task is run by \<open>tasks.run_one\<close>, which is what one round of \<^verbatim>\<open>SCH_run\<close> does; a timer is
  fired as in one round of \<^verbatim>\<open>TMR_processQueue\<close>. The environment may change the clock, what
  fails, and what arrives, at any time.
\<close>

inductive estep :: "est \<Rightarrow> est \<Rightarrow> bool" where
  invokeReq: "estep s (exec (EROP_invokeReq a b c d ns opv enc v) s)"
| resultReq: "estep s (exec (EROP_resultReq m a enc v) s)"
| errorReq: "estep s (exec (EROP_errorReq m a enc ev v) s)"
| sapBind: "estep s (exec (EROP_sapBind sel fu) s)"
| sapUnbind: "estep s (exec (EROP_sapUnbind sel) s)"
| block: "estep s (exec (upd_sch (\<lambda>q. snd (SCH_block sel q))) s)"
| task: "sch_runq (e_sch s) = x # xs \<Longrightarrow> estep s (tasks.run_one x s)"
| timer: "e_timerQ s = t # ts \<Longrightarrow> estep s (exec (fireTimer t) (exec (upd_timerQ tl) s))"
| world: "estep s (s\<lparr>e_env := (e_env s)\<lparr>memFail := f, sendFail := g, osClock := c, inbox := i\<rparr>\<rparr>)"

text \<open>
  The states after \<^verbatim>\<open>EROP_init\<close>: nothing is bound or created, no timer runs, and the only
  task is the one that receives.
\<close>

definition engine_init :: "est \<Rightarrow> bool" where
  "engine_init s \<longleftrightarrow> e_sapSeq s = [] \<and> e_live s = {} \<and> e_timerQ s = [] \<and> e_next s \<noteq> NULL \<and>
     sch_active (e_sch s) = [\<lparr>si_task = udp_receiveT, si_event = e_sock s\<rparr>] \<and> sch_runq (e_sch s) = [] \<and>
     (\<forall>m. curState (e_invoke s m) = None) \<and> upcalls (e_env s) = [] \<and> refs_wf (e_refs s) \<and>
     refToInvokerMap (e_refs s) = (\<lambda>_. []) \<and> refToPerformerMap (e_refs s) = (\<lambda>_. [])"

inductive reachable :: "est \<Rightarrow> bool" where
  init: "engine_init s \<Longrightarrow> reachable s"
| step: "reachable s \<Longrightarrow> estep s s' \<Longrightarrow> reachable s'"

inductive_cases estepE: "estep s s'"

lemma sch_move_filter:
  "length (filter Q (fst (sch_move rd xs))) + length (filter Q (snd (sch_move rd xs))) = length (filter Q xs)"
  by (induction rd xs rule: sch_move.induct) (auto simp: case_prod_beta)

lemma SCH_block_filter:
  "length (filter Q (sch_active (snd (SCH_block sel q)))) + length (filter Q (sch_runq (snd (SCH_block sel q)))) =
   length (filter Q (sch_active q)) + length (filter Q (sch_runq q))"
proof -
  have "length (filter Q (filter (\<lambda>x. \<not> internTask x) xs)) + length (filter Q (filter internTask xs)) =
      length (filter Q xs)" for xs
    by (induction xs) auto
  then show ?thesis
    using sch_move_filter [of Q]
    by (auto simp: SCH_block_def Let_def case_prod_beta add.commute add.left_commute split: sel.split)
qed

lemma block_outcome: "keeps outcome_inv (upd_sch (\<lambda>q. snd (SCH_block sel q)))"
proof (rule keepsI)
  fix s assume P: "outcome_inv s"
  have "outs m (s\<lparr>e_sch := snd (SCH_block sel (e_sch s))\<rparr>) = outs m s" for m
    using SCH_block_filter [of "\<lambda>x. outTask m (si_task x)" sel "e_sch s"] by (simp add: outs_def)
  then show "outcome_inv (exec (upd_sch (\<lambda>q. snd (SCH_block sel q))) s)"
    using P by (simp add: est_run outcome_inv_def)
qed

text \<open>One round of the scheduler: an outcome leaves the queue and is delivered.\<close>

lemma outs_upd_sch:
  "outs m (s\<lparr>e_sch := (e_sch s)\<lparr>availSchInfo := k\<rparr>\<rparr>) = outs m s"
  by (simp add: outs_def)

lemma outs_tl:
  "sch_runq (e_sch s) = x # xs \<Longrightarrow>
    outs m (s\<lparr>e_sch := (e_sch s)\<lparr>sch_runq := xs\<rparr>\<rparr>) + (if outTask m (si_task x) then 1 else 0) = outs m s"
  by (simp add: outs_def)

lemma outs_upcall:
  "\<not> e_aborted s \<Longrightarrow> outs m (exec (upcall u) s) = outs m s + (if outUpcall m u then 1 else 0)"
  by (simp add: upcall_def est_run outs_def)

text \<open>The upcall of a task, when it has one, is an outcome exactly when the task is.\<close>

fun taskUpcall :: "task \<Rightarrow> est \<Rightarrow> upcall option" where
  "taskUpcall (erop_scheduledInvokeIndT i l r opv enc d) s =
     Some (UinvokeInd l r (remTsapSel (e_invoke s i)) (remNsapAddr (e_invoke s i)) i opv enc d)"
| "taskUpcall (erop_scheduledResultIndT i u enc d) s = Some (UresultInd i u enc d)"
| "taskUpcall (erop_scheduledErrorIndT i u enc ev d) s = Some (UerrorInd i u ev enc d)"
| "taskUpcall (erop_scheduledResultCnfT i u) s = Some (UresultCnf i u)"
| "taskUpcall (erop_scheduledErrorCnfT i u) s = Some (UerrorCnf i u)"
| "taskUpcall (erop_scheduledFailureIndT i u f) s = Some (UfailureInd i u f)"
| "taskUpcall (erop_relInvokeT i) s = None"
| "taskUpcall udp_receiveT s = None"

lemma taskUpcall_out: "taskUpcall t s = Some u \<Longrightarrow> outUpcall m u = outTask m t"
  by (cases t) auto

lemma dispatch_upcall:
  assumes "taskUpcall t s = Some u" "\<not> e_aborted s"
  shows "\<exists>d. exec (dispatch t) s = (exec (upcall u) s)\<lparr>e_du := d\<rparr>"
proof -
  have "\<exists>d. exec (du_free v) s = s\<lparr>e_du := d\<rparr>" for v and s :: est
    by (cases "e_aborted s") (auto simp: du_free_def est_run intro: exI [of _ "e_du s"])
  moreover have "\<exists>d. s = s\<lparr>e_du := d\<rparr>" for s :: est
    by (intro exI [of _ "e_du s"]) simp
  ultimately show ?thesis
    using assms by (cases t) (auto simp: scheduled_defs run_simps get_defs upcall_def)
qed

lemma dispatch_other: "taskUpcall t s = None \<Longrightarrow> keeps (outcome_at {}) (dispatch t)"
  by (cases t) (auto intro!: keeps_intros oc_free oc_receive)

lemma outcome_mono:
  assumes "outcome_inv s" "\<And>m. outs m s' \<le> outs m s" "e_invoke s' = e_invoke s" "e_next s' = e_next s"
    "e_aborted s' = e_aborted s"
  shows "outcome_inv s'"
proof -
  have "outs m s = 0 \<Longrightarrow> outs m s' = 0" "outs m s \<le> 1 \<Longrightarrow> outs m s' \<le> 1" for m
    using assms(2) [of m] by linarith+
  then show ?thesis
    using assms(1,3-5) by (simp add: outcome_inv_def)
qed

lemma run_one_outcome:
  assumes q: "sch_runq (e_sch s) = x # xs" and P: "outcome_inv s"
  shows "outcome_inv (tasks.run_one x s)"
proof (cases "e_aborted s")
  case True
  then show ?thesis using P tasks.run_one_dead by simp
next
  case al: False
  define s1 where "s1 = s\<lparr>e_sch := (e_sch s)\<lparr>sch_runq := xs\<rparr>\<rparr>"
  define s2 where "s2 = exec (dispatch (si_task x)) s1"
  have run: "tasks.run_one x s =
      (if e_aborted s2 then s2 else s2\<lparr>e_sch := (e_sch s2)\<lparr>availSchInfo := availSchInfo (e_sch s2) + 1\<rparr>\<rparr>)"
    using al q by (simp add: tasks.run_one_def est_run s1_def s2_def)
  have last: "outcome_inv (tasks.run_one x s)" if "outcome_inv s2"
    using that unfolding run by (simp add: outcome_inv_def outs_upd_sch)
  show ?thesis
  proof (cases "taskUpcall (si_task x) s1")
    case None
    have "outs m s1 \<le> outs m s" for m
      using outs_tl [OF q, of m] by (simp add: s1_def)
    then have "outcome_inv s1"
      by (intro outcome_mono [OF P]) (simp_all add: s1_def)
    then show ?thesis
      using keepsD [OF dispatch_other [OF None], of s1] last by (simp add: outcome_at_empty s2_def)
  next
    case (Some u)
    then obtain d where "s2 = (exec (upcall u) s1)\<lparr>e_du := d\<rparr>"
      using dispatch_upcall [OF Some] al by (auto simp: s1_def s2_def)
    then have s2: "s2 = s1\<lparr>e_env := (e_env s1)\<lparr>upcalls := upcalls (e_env s1) @ [u]\<rparr>, e_du := d\<rparr>"
      using al by (simp add: upcall_def est_run s1_def)
    have "outs m s2 = outs m s" for m
      using outs_tl [OF q, of m] taskUpcall_out [OF Some, of m]
      by (cases "outTask m (si_task x)") (simp_all add: s2 outs_def s1_def)
    then have "outcome_inv s2"
      using P by (simp add: outcome_inv_def s2 s1_def)
    then show ?thesis by (rule last)
  qed
qed

lemma estep_outcome: "estep s s' \<Longrightarrow> outcome_inv s \<Longrightarrow> outcome_inv s'"
proof (induction rule: estep.induct)
  case (timer s t ts)
  have "keeps outcome_inv (upd_timerQ tl)"
    unfolding outcome_at_empty [symmetric] upd_timerQ_def by (rule oc_upd) simp_all
  then show ?case
    using timer oc_timer(2) [of t] by (simp add: outcome_at_empty keeps_def)
next
  case (world s i c g f)
  have "outs m (s\<lparr>e_env := (e_env s)\<lparr>memFail := f, sendFail := g, osClock := c, inbox := i\<rparr>\<rparr>) = outs m s" for m
    by (simp add: outs_def)
  then show ?case using world by (simp add: outcome_inv_def)
qed (use oc_invokeReq oc_requests oc_saps block_outcome run_one_outcome in
    \<open>auto simp: outcome_at_empty intro: keepsD\<close>)

lemma engine_init_outcome: "engine_init s \<Longrightarrow> outcome_inv s"
  by (simp add: engine_init_def outcome_inv_def outs_def)

lemma reachable_outcome: "reachable s \<Longrightarrow> outcome_inv s"
  by (induction rule: reachable.induct) (auto intro: engine_init_outcome estep_outcome)

end
