(* ===== verification/Erop_Retrans.thy ===== *)
theory Erop_Retrans
  imports Erop_Steps
begin

text \<open>
  The life of an invocation that gets no answer: the PDU that was kept is sent again each time the
  retransmission timer expires, with the same octets, as often as configured; then the last timer
  runs, the failure is indicated, and when the reference number timer expires the invocation is
  released. And what a machine does with a duplicate.
\<close>

section \<open>A kept PDU and its second view\<close>

text \<open>Linking a view and freeing the link gives back the pool, and the octets are those of the view.\<close>

lemma DU_link_bytes:
  assumes wf: "du_wf p B V fb (w # fv) d" and v: "v \<in> V - set (w # fv)"
  shows "fst (DU_link v d) = w" "w \<noteq> NULL" "DU_bytes w (snd (DU_link v d)) = DU_bytes v d"
proof -
  have nz: "w \<noteq> NULL" "v \<noteq> NULL" "v \<noteq> w"
    using wf v by (auto simp: du_wf_def)
  note st = DU_link_state [OF wf v refl]
  show "fst (DU_link v d) = w" "w \<noteq> NULL" "DU_bytes w (snd (DU_link v d)) = DU_bytes v d"
    using nz by (simp_all add: st DU_bytes_def DU_size_def DU_data_def DU_get_def)
qed

lemma DU_link_free:
  assumes wf: "du_wf p B V fb (w # fv) d" and v: "v \<in> V - set (w # fv)"
  shows "du_wf p B V fb (w # fv) (DU_free w (snd (DU_link v d)))"
    and "DU_bytes v (DU_free w (snd (DU_link v d))) = DU_bytes v d"
proof -
  let ?d = "snd (DU_link v d)"
  have wf1: "du_wf p B V fb fv ?d"
    by (rule DU_link_wf [OF wf v])
  have w: "w \<in> V - set fv" "w \<noteq> v"
    using wf v by (auto simp: du_wf_def)
  note st = DU_link_state [OF wf v refl]
  have same: "v_bufInfo (views ?d w) = v_bufInfo (views d v)" "v_bufInfo (views ?d v) = v_bufInfo (views d v)"
    using w(2) by (simp_all add: st)
  have "0 < b_refcnt (bufs d (v_bufInfo (views d v)))"
    using du_wf_in_use [OF wf v refl] by simp
  then have nf: "\<not> freed ?d w"
    using same by (simp add: freed_def st)
  show "du_wf p B V fb (w # fv) (DU_free w ?d)"
    using DU_free_wf [OF wf1 w(1)] nf by simp
  show "DU_bytes v (DU_free w ?d) = DU_bytes v d"
    using w(2) same nf
    by (simp add: DU_free_state [OF wf1 w(1) refl] DU_bytes_def DU_size_def DU_data_def DU_get_def)
      (simp add: st)
qed


section \<open>Retransmission\<close>

text \<open>
  An environment in which memory, \<^verbatim>\<open>sendto\<close> and the clock work, and an invoker machine
  that waits for its answer and keeps its PDU, whose octets are \<open>octets\<close>.
\<close>

definition working :: "est \<Rightarrow> bool" where
  "working s \<longleftrightarrow> \<not> e_aborted s \<and> memFail (e_env s) = (\<lambda>_. False) \<and> sendFail (e_env s) = (\<lambda>_. False) \<and>
     osClock (e_env s) \<noteq> None \<and> e_next s \<noteq> NULL"

definition kept_pdu :: "ptr \<Rightarrow> u8 list \<Rightarrow> du_state \<Rightarrow> bool" where
  "kept_pdu v octets d \<longleftrightarrow> DU_bytes v d = octets \<and>
     (\<exists>p B V fb w fv. du_wf p B V fb (w # fv) d \<and> v \<in> V - set (w # fv))"

definition sending :: "ptr \<Rightarrow> ptr \<Rightarrow> u8 list \<Rightarrow> est \<Rightarrow> bool" where
  "sending m v octets s \<longleftrightarrow> working s \<and> m \<noteq> NULL \<and>
     curState (e_invoke s m) = Some lsfsm_sInvokePduSent \<and> invokePduSeq (e_invoke s m) = [v] \<and>
     resultPduSeq (e_invoke s m) = [] \<and> kept_pdu v octets (e_du s)"

definition timerOf :: "ptr \<Rightarrow> int \<Rightarrow> int \<Rightarrow> tmrData timer \<Rightarrow> bool" where
  "timerOf m name d t \<longleftrightarrow> tm_data t = \<lparr>td_invoke = m, td_name = name, td_data = d\<rparr>"

text \<open>The first timer of the queue expires.\<close>

definition fireFirst :: "est \<Rightarrow> est" where
  "fireFirst s = (case e_timerQ s of [] \<Rightarrow> s | t # q \<Rightarrow> exec (fireTimer t) (exec (upd_timerQ tl) s))"

lemma kept_pdu_again:
  assumes "kept_pdu v octets d"
  shows "fst (DU_link v d) \<noteq> NULL" "DU_bytes (fst (DU_link v d)) (snd (DU_link v d)) = octets"
    "kept_pdu v octets (DU_free (fst (DU_link v d)) (snd (DU_link v d)))"
proof -
  obtain p B V fb w fv where wf: "du_wf p B V fb (w # fv) d" and v: "v \<in> V - set (w # fv)"
    and oct: "DU_bytes v d = octets"
    using assms by (auto simp: kept_pdu_def)
  note l = DU_link_bytes [OF wf v] and f = DU_link_free [OF wf v]
  show "fst (DU_link v d) \<noteq> NULL" "DU_bytes (fst (DU_link v d)) (snd (DU_link v d)) = octets"
    using l oct by simp_all
  show "kept_pdu v octets (DU_free (fst (DU_link v d)) (snd (DU_link v d)))"
    unfolding kept_pdu_def l(1) using f v oct by blast
qed

lemma UDP_dataReq_effect:
  assumes "\<not> e_aborted s" "v \<noteq> NULL" "sendFail (e_env s) = (\<lambda>_. False)"
  shows "result (UDP_dataReq ts ns v) s = SUCCESS"
    and "exec (UDP_dataReq ts ns v) s =
      s\<lparr>e_env := (e_env s)\<lparr>sendCount := sendCount (e_env s) + 1,
          sent := sent (e_env s) @ [(ts, ns, DU_bytes v (e_du s), True)]\<rparr>,
        e_nm := (e_nm s)(erop_udpSduSentCounter := e_nm s erop_udpSduSentCounter + 1)\<rparr>"
  using assms by (simp_all add: UDP_dataReq_def NM_incCounter_def est_run)

text \<open>The action \<^verbatim>\<open>tr_clInvoker02\<close> while retransmissions remain.\<close>

lemma tr_clInvoker02_resend:
  assumes s: "sending m v octets s"
    and e: "ti_name (e_evt s) = erop_invokePduRetranTimer" "ti_datum (e_evt s) < nuOfRetrans (e_invoke s m)"
    and os: "osClock (e_env s) = Some os"
  shows "\<exists>nm d. exec (tr_clInvoker02 m ev) s =
    s\<lparr>e_timerQ := tmr_insert \<lparr>tm_desc = e_next s,
        expiryTime = os * 1000 + word_of_int (retransTimeout (e_invoke s m)),
        tm_data = \<lparr>td_invoke = m, td_name = erop_invokePduRetranTimer, td_data = ti_datum (e_evt s) + 1\<rparr>\<rparr>
        (e_timerQ s),
      e_invoke := (e_invoke s)(m := (e_invoke s m)
        \<lparr>tmrQu := tmrQu (e_invoke s m) @ [(e_next s, erop_invokePduRetranTimer)]\<rparr>),
      e_next := e_next s + 1,
      e_env := (e_env s)\<lparr>memCount := memCount (e_env s) + 1, sendCount := sendCount (e_env s) + 1,
        sent := sent (e_env s) @ [(remTsapSel (e_invoke s m), remNsapAddr (e_invoke s m), octets, True)]\<rparr>,
      e_du := d, e_nm := nm\<rparr> \<and> kept_pdu v octets d"
proof -
  have w: "\<not> e_aborted s" "memFail (e_env s) = (\<lambda>_. False)" "sendFail (e_env s) = (\<lambda>_. False)"
    "e_next s \<noteq> NULL" "m \<noteq> NULL" "invokePduSeq (e_invoke s m) = [v]" "kept_pdu v octets (e_du s)"
    using s by (auto simp: sending_def working_def)
  note k = kept_pdu_again [OF w(7)]
  show ?thesis
    using w e os k
    by (simp add: tr_clInvoker02_def est_run erop_tmrCreate_effect erop_pduRetrieve_effect
        UDP_dataReq_effect du_free_def NM_incCounter_def) (intro exI conjI; (rule refl | assumption))
qed

text \<open>When none remain it starts the last timer.\<close>

lemma tr_clInvoker02_last:
  assumes s: "sending m v octets s"
    and e: "ti_name (e_evt s) = erop_invokePduRetranTimer" "nuOfRetrans (e_invoke s m) \<le> ti_datum (e_evt s)"
    and os: "osClock (e_env s) = Some os"
  shows "exec (tr_clInvoker02 m ev) s =
    s\<lparr>e_timerQ := tmr_insert \<lparr>tm_desc = e_next s,
        expiryTime = os * 1000 + word_of_int (rwait (e_invoke s m)),
        tm_data = \<lparr>td_invoke = m, td_name = erop_lastTimer, td_data = 0\<rparr>\<rparr> (e_timerQ s),
      e_invoke := (e_invoke s)(m := (e_invoke s m)
        \<lparr>tmrQu := tmrQu (e_invoke s m) @ [(e_next s, erop_lastTimer)]\<rparr>),
      e_next := e_next s + 1,
      e_env := (e_env s)\<lparr>memCount := memCount (e_env s) + 1\<rparr>\<rparr>"
  using assms
  by (auto simp: sending_def working_def tr_clInvoker02_def est_run erop_tmrCreate_effect)

lemma act_sending:
  "act lsfsm_sInvokePduSent lsfsm_EvtInvokePduRetranTimer = tr_clInvoker02"
  "next_st lsfsm_sInvokePduSent lsfsm_EvtInvokePduRetranTimer = lsfsm_sInvokePduSent"
  "act lsfsm_sInvokePduSent lsfsm_EvtLastTimer = tr_clInvoker03"
  "next_st lsfsm_sInvokePduSent lsfsm_EvtLastTimer = lsfsm_sInvokerRefWait"
  by (simp_all add: next_st_def act_defs)

text \<open>What one expiry does to the machine: its data stay the same, except for its timers.\<close>

definition kept_data :: "ptr \<Rightarrow> est \<Rightarrow> est \<Rightarrow> bool" where
  "kept_data m s s' \<longleftrightarrow> (\<exists>x q. e_invoke s' m = (e_invoke s m)\<lparr>tmrQu := x, curState := q\<rparr>) \<and>
     osClock (e_env s') = osClock (e_env s) \<and> e_sch s' = e_sch s \<and> upcalls (e_env s') = upcalls (e_env s)"

lemma kept_data_trans: "kept_data m s s' \<Longrightarrow> kept_data m s' s'' \<Longrightarrow> kept_data m s s''"
  by (auto simp: kept_data_def) (rule exI, rule exI, rule refl)

text \<open>The state in which \<^verbatim>\<open>erop_timerRsp\<close> runs the machine.\<close>

definition armed :: "tmrData timer \<Rightarrow> est \<Rightarrow> est" where
  "armed t s = s\<lparr>e_timerQ := tl (e_timerQ s),
     e_evt := (e_evt s)\<lparr>ti_name := td_name (tm_data t), ti_datum := td_data (tm_data t)\<rparr>,
     e_invoke := (e_invoke s)(td_invoke (tm_data t) := (e_invoke s (td_invoke (tm_data t)))
       \<lparr>tmrQu := removeAll (tm_desc t, td_name (tm_data t)) (tmrQu (e_invoke s (td_invoke (tm_data t))))\<rparr>)\<rparr>"

lemma fireFirst_armed:
  assumes "\<not> e_aborted s" "e_timerQ s = t # q" "timerOf m name d t" "tmrEvent name = Some ev"
  shows "fireFirst s = exec (runMachine m ev) (armed t s)"
  using assms by (simp add: fireFirst_def fireTimer_def erop_timerRsp_def est_run armed_def timerOf_def)

lemma sending_armed: "sending m v octets s \<Longrightarrow> sending m v octets (armed t s)"
  by (auto simp: sending_def working_def armed_def)

text \<open>The machine after the action, when the timer queue and the datum units have changed.\<close>

lemma armed_fields:
  assumes "timerOf m name d t" "e_timerQ s = t # q"
  shows "e_timerQ (armed t s) = q" "e_env (armed t s) = e_env s" "e_sch (armed t s) = e_sch s"
    "ti_name (e_evt (armed t s)) = name" "ti_datum (e_evt (armed t s)) = d"
    "\<exists>x. e_invoke (armed t s) m = (e_invoke s m)\<lparr>tmrQu := x\<rparr>"
    "e_aborted (armed t s) = e_aborted s" "e_next (armed t s) = e_next s"
  using assms by (auto simp: armed_def timerOf_def)

lemma fire_resend:
  assumes s: "sending m v octets s" and q: "e_timerQ s = t # q"
    and t: "timerOf m erop_invokePduRetranTimer d t" and d: "d < nuOfRetrans (e_invoke s m)"
  shows "sending m v octets (fireFirst s)" and "kept_data m s (fireFirst s)"
    and "sent (e_env (fireFirst s)) = sent (e_env s) @
      [(remTsapSel (e_invoke s m), remNsapAddr (e_invoke s m), octets, True)]"
    and "\<exists>t'. timerOf m erop_invokePduRetranTimer (d + 1) t' \<and> e_timerQ (fireFirst s) = tmr_insert t' q"
proof -
  define a where "a = armed t s"
  obtain os where os: "osClock (e_env s) = Some os"
    using s by (auto simp: sending_def working_def)
  have al: "\<not> e_aborted s" "m \<noteq> NULL"
    using s by (simp_all add: sending_def working_def)
  have sa: "sending m v octets a"
    unfolding a_def by (rule sending_armed [OF s])
  have st: "curState (e_invoke a m) = Some lsfsm_sInvokePduSent"
    using sa by (simp add: sending_def)
  note fields = armed_fields [OF t q, folded a_def]
  obtain x where x: "e_invoke a m = (e_invoke s m)\<lparr>tmrQu := x\<rparr>"
    using fields by blast
  have e: "ti_name (e_evt a) = erop_invokePduRetranTimer" "ti_datum (e_evt a) < nuOfRetrans (e_invoke a m)"
    "osClock (e_env a) = Some os"
    using fields d os x by simp_all
  obtain nm du where run: "exec (tr_clInvoker02 m lsfsm_EvtInvokePduRetranTimer) a =
    a\<lparr>e_timerQ := tmr_insert \<lparr>tm_desc = e_next a,
        expiryTime = os * 1000 + word_of_int (retransTimeout (e_invoke a m)),
        tm_data = \<lparr>td_invoke = m, td_name = erop_invokePduRetranTimer, td_data = ti_datum (e_evt a) + 1\<rparr>\<rparr>
        (e_timerQ a),
      e_invoke := (e_invoke a)(m := (e_invoke a m)
        \<lparr>tmrQu := tmrQu (e_invoke a m) @ [(e_next a, erop_invokePduRetranTimer)]\<rparr>),
      e_next := e_next a + 1,
      e_env := (e_env a)\<lparr>memCount := memCount (e_env a) + 1, sendCount := sendCount (e_env a) + 1,
        sent := sent (e_env a) @ [(remTsapSel (e_invoke a m), remNsapAddr (e_invoke a m), octets, True)]\<rparr>,
      e_du := du, e_nm := nm\<rparr>" and du: "kept_pdu v octets du"
    using tr_clInvoker02_resend [OF sa e, of lsfsm_EvtInvokePduRetranTimer] by blast
  have fire: "fireFirst s = exec (setCurState m (Some lsfsm_sInvokePduSent))
      (exec (tr_clInvoker02 m lsfsm_EvtInvokePduRetranTimer) a)"
    using fireFirst_armed [OF al(1) q t, folded a_def] runMachine_effect(2) [OF al(2) st]
    by (simp add: tmrEvent_def act_sending)
  note eff = fire [unfolded run] setCurState_def est_run al fields x
  show "sending m v octets (fireFirst s)"
    using sa by (simp add: eff sending_def working_def du)
  show "kept_data m s (fireFirst s)"
    by (auto simp: eff kept_data_def)
  show "sent (e_env (fireFirst s)) = sent (e_env s) @
      [(remTsapSel (e_invoke s m), remNsapAddr (e_invoke s m), octets, True)]"
    by (simp add: eff)
  show "\<exists>t'. timerOf m erop_invokePduRetranTimer (d + 1) t' \<and> e_timerQ (fireFirst s) = tmr_insert t' q"
    by (simp add: eff timerOf_def, rule exI, rule conjI [OF _ refl], simp)
qed

text \<open>When no retransmission remains, the last timer is started and nothing is sent.\<close>

lemma fire_last:
  assumes s: "sending m v octets s" and q: "e_timerQ s = t # q"
    and t: "timerOf m erop_invokePduRetranTimer d t" and d: "nuOfRetrans (e_invoke s m) \<le> d"
  shows "sending m v octets (fireFirst s)" and "kept_data m s (fireFirst s)"
    and "sent (e_env (fireFirst s)) = sent (e_env s)"
    and "\<exists>t'. timerOf m erop_lastTimer 0 t' \<and> e_timerQ (fireFirst s) = tmr_insert t' q"
proof -
  define a where "a = armed t s"
  obtain os where os: "osClock (e_env s) = Some os"
    using s by (auto simp: sending_def working_def)
  have al: "\<not> e_aborted s" "m \<noteq> NULL"
    using s by (simp_all add: sending_def working_def)
  have sa: "sending m v octets a"
    unfolding a_def by (rule sending_armed [OF s])
  have st: "curState (e_invoke a m) = Some lsfsm_sInvokePduSent"
    using sa by (simp add: sending_def)
  note fields = armed_fields [OF t q, folded a_def]
  obtain x where x: "e_invoke a m = (e_invoke s m)\<lparr>tmrQu := x\<rparr>"
    using fields by blast
  have e: "ti_name (e_evt a) = erop_invokePduRetranTimer" "nuOfRetrans (e_invoke a m) \<le> ti_datum (e_evt a)"
    "osClock (e_env a) = Some os"
    using fields d os x by simp_all
  have fire: "fireFirst s = exec (setCurState m (Some lsfsm_sInvokePduSent))
      (exec (tr_clInvoker02 m lsfsm_EvtInvokePduRetranTimer) a)"
    using fireFirst_armed [OF al(1) q t, folded a_def] runMachine_effect(2) [OF al(2) st]
    by (simp add: tmrEvent_def act_sending)
  note eff = fire [unfolded tr_clInvoker02_last [OF sa e]] setCurState_def est_run al fields x
  show "sending m v octets (fireFirst s)"
    using sa by (simp add: eff sending_def working_def)
  show "kept_data m s (fireFirst s)"
    by (auto simp: eff kept_data_def)
  show "sent (e_env (fireFirst s)) = sent (e_env s)"
    by (simp add: eff)
  show "\<exists>t'. timerOf m erop_lastTimer 0 t' \<and> e_timerQ (fireFirst s) = tmr_insert t' q"
    by (simp add: eff timerOf_def, rule exI, rule conjI [OF _ refl], simp)
qed

text \<open>When the last timer expires, the failure is scheduled and the machine waits for its reference number.\<close>

lemma fire_failure:
  assumes s: "sending m v octets s" and q: "e_timerQ s = t # q"
    and t: "timerOf m erop_lastTimer d t" and room: "availSchInfo (e_sch s) \<noteq> 0"
  shows "working (fireFirst s)" and "curState (e_invoke (fireFirst s) m) = Some lsfsm_sInvokerRefWait"
    and "sent (e_env (fireFirst s)) = sent (e_env s)"
    and "e_sch (fireFirst s) = (e_sch s)\<lparr>availSchInfo := availSchInfo (e_sch s) - 1,
      sch_active := sch_active (e_sch s) @
        [\<lparr>si_task = erop_scheduledFailureIndT m (userInvokeRef (e_invoke s m)) ESRO_FailureUserNotResponding,
          si_event = SCH_PSEUDO_EVENT\<rparr>]\<rparr>"
    and "\<exists>t'. timerOf m erop_refNuTimer 0 t' \<and> e_timerQ (fireFirst s) = tmr_insert t' q"
    and "invokePduSeq (e_invoke (fireFirst s) m) = []"
proof -
  define a where "a = armed t s"
  obtain os where os: "osClock (e_env s) = Some os"
    using s by (auto simp: sending_def working_def)
  have al: "\<not> e_aborted s" "m \<noteq> NULL" "memFail (e_env s) = (\<lambda>_. False)" "e_next s \<noteq> NULL"
    using s by (simp_all add: sending_def working_def)
  have sa: "sending m v octets a"
    unfolding a_def by (rule sending_armed [OF s])
  have st: "curState (e_invoke a m) = Some lsfsm_sInvokePduSent" "invokePduSeq (e_invoke a m) = [v]"
      "resultPduSeq (e_invoke a m) = []" "sendFail (e_env s) = (\<lambda>_. False)"
    using sa s by (simp_all add: sending_def working_def)
  note fields = armed_fields [OF t q, folded a_def]
  obtain x where x: "e_invoke a m = (e_invoke s m)\<lparr>tmrQu := x\<rparr>"
    using fields by blast
  have fire: "fireFirst s = exec (setCurState m (Some lsfsm_sInvokerRefWait))
      (exec (tr_clInvoker03 m lsfsm_EvtLastTimer) a)"
    using fireFirst_armed [OF al(1) q t, folded a_def] runMachine_effect(2) [OF al(2) st(1)]
    by (simp add: tmrEvent_def act_sending)
  note eff = fire setCurState_def est_run al fields st(2-4) room os
    tr_clInvoker03_def erop_relAllPdu_def erop_relPdu_effect erop_failureInd_def SF_memGet_effect
    sch_submit_effect erop_tmrCreate_effect NM_incCounter_def mod_invoke_def
  show "working (fireFirst s)" "curState (e_invoke (fireFirst s) m) = Some lsfsm_sInvokerRefWait"
    "sent (e_env (fireFirst s)) = sent (e_env s)"
    by (simp_all add: eff working_def)
  show "e_sch (fireFirst s) = (e_sch s)\<lparr>availSchInfo := availSchInfo (e_sch s) - 1,
      sch_active := sch_active (e_sch s) @
        [\<lparr>si_task = erop_scheduledFailureIndT m (userInvokeRef (e_invoke s m)) ESRO_FailureUserNotResponding,
          si_event = SCH_PSEUDO_EVENT\<rparr>]\<rparr>"
    by (simp add: eff) (simp add: x)
  show "\<exists>t'. timerOf m erop_refNuTimer 0 t' \<and> e_timerQ (fireFirst s) = tmr_insert t' q"
    by (simp add: eff timerOf_def, rule exI, rule conjI [OF _ refl], simp)
  show "invokePduSeq (e_invoke (fireFirst s) m) = []"
    by (simp add: eff)
qed

text \<open>The reference number timer ends the wait: the release of the invocation is scheduled.\<close>

lemma fire_release:
  assumes w: "working s" "m \<noteq> NULL" and st: "curState (e_invoke s m) = Some lsfsm_sInvokerRefWait"
    and q: "e_timerQ s = t # q" and t: "timerOf m erop_refNuTimer d t" and room: "availSchInfo (e_sch s) \<noteq> 0"
  shows "curState (e_invoke (fireFirst s) m) = Some lsfsm_sCLInvokerStart"
    and "sent (e_env (fireFirst s)) = sent (e_env s)" and "e_timerQ (fireFirst s) = q"
    and "e_sch (fireFirst s) = (e_sch s)\<lparr>availSchInfo := availSchInfo (e_sch s) - 1,
      sch_active := sch_active (e_sch s) @
        [\<lparr>si_task = erop_relInvokeT m, si_event = SCH_PSEUDO_EVENT\<rparr>]\<rparr>"
proof -
  define a where "a = armed t s"
  have al: "\<not> e_aborted s"
    using w by (simp add: working_def)
  note fields = armed_fields [OF t q, folded a_def]
  have st': "curState (e_invoke a m) = Some lsfsm_sInvokerRefWait"
    using fields(6) st by auto
  have act: "act lsfsm_sInvokerRefWait lsfsm_EvtRefNuTimer = tr_clInvoker08"
    "next_st lsfsm_sInvokerRefWait lsfsm_EvtRefNuTimer = lsfsm_sCLInvokerStart"
    by (simp_all add: next_st_def act_defs)
  have fire: "fireFirst s = exec (setCurState m (Some lsfsm_sCLInvokerStart))
      (exec (tr_clInvoker08 m lsfsm_EvtRefNuTimer) a)"
    using fireFirst_armed [OF al q t, folded a_def] runMachine_effect(2) [OF w(2) st'] act
    by (simp add: tmrEvent_def)
  note eff = fire setCurState_def est_run al fields w(2) room tr_clInvoker08_def sch_submit_effect
  show "curState (e_invoke (fireFirst s) m) = Some lsfsm_sCLInvokerStart"
    "sent (e_env (fireFirst s)) = sent (e_env s)" "e_timerQ (fireFirst s) = q"
    "e_sch (fireFirst s) = (e_sch s)\<lparr>availSchInfo := availSchInfo (e_sch s) - 1,
      sch_active := sch_active (e_sch s) @ [\<lparr>si_task = erop_relInvokeT m, si_event = SCH_PSEUDO_EVENT\<rparr>]\<rparr>"
    by (simp_all add: eff)
qed


section \<open>From the first expiry to the release\<close>

text \<open>With its timers the only ones of the queue, an unanswered invocation runs through all of this.\<close>

lemma fire_resend_iter:
  assumes s: "sending m v octets s" and q: "e_timerQ s = [t]" and t: "timerOf m erop_invokePduRetranTimer 0 t"
    and k: "int k \<le> nuOfRetrans (e_invoke s m)"
  shows "sending m v octets ((fireFirst ^^ k) s) \<and> kept_data m s ((fireFirst ^^ k) s) \<and>
    sent (e_env ((fireFirst ^^ k) s)) = sent (e_env s) @
      replicate k (remTsapSel (e_invoke s m), remNsapAddr (e_invoke s m), octets, True) \<and>
    (\<exists>t'. timerOf m erop_invokePduRetranTimer (int k) t' \<and> e_timerQ ((fireFirst ^^ k) s) = [t'])"
  using k
proof (induction k)
  case 0
  have "\<exists>x q. e_invoke s m = (e_invoke s m)\<lparr>tmrQu := x, curState := q\<rparr>"
    by (intro exI [of _ "tmrQu (e_invoke s m)"] exI [of _ "curState (e_invoke s m)"]) simp
  then show ?case using s q t by (simp add: kept_data_def)
next
  case (Suc k)
  let ?s = "(fireFirst ^^ k) s"
  have IH: "sending m v octets ?s" "kept_data m s ?s"
    "sent (e_env ?s) = sent (e_env s) @
      replicate k (remTsapSel (e_invoke s m), remNsapAddr (e_invoke s m), octets, True)"
    using Suc by auto
  obtain t' where t': "timerOf m erop_invokePduRetranTimer (int k) t'" "e_timerQ ?s = [t']"
    using Suc by auto
  have data: "nuOfRetrans (e_invoke ?s m) = nuOfRetrans (e_invoke s m)"
    "remTsapSel (e_invoke ?s m) = remTsapSel (e_invoke s m)"
    "remNsapAddr (e_invoke ?s m) = remNsapAddr (e_invoke s m)"
    using IH(2) by (auto simp: kept_data_def)
  have less: "int k < nuOfRetrans (e_invoke ?s m)"
    using Suc.prems data by simp
  note step = fire_resend [OF IH(1) t'(2,1) less]
  have "kept_data m s (fireFirst ?s)"
    by (rule kept_data_trans [OF IH(2) step(2)])
  then show ?case
    using step IH(3) data by (auto simp: replicate_append_same ac_simps)
qed

lemma retransmission:
  assumes s: "sending m v octets s" and q: "e_timerQ s = [t]" and t: "timerOf m erop_invokePduRetranTimer 0 t"
    and n: "nuOfRetrans (e_invoke s m) = int n" and room: "availSchInfo (e_sch s) > 1"
  defines "s' \<equiv> (fireFirst ^^ (n + 3)) s"
  shows "sent (e_env s') = sent (e_env s) @
      replicate n (remTsapSel (e_invoke s m), remNsapAddr (e_invoke s m), octets, True)"
    and "e_timerQ s' = []" and "curState (e_invoke s' m) = Some lsfsm_sCLInvokerStart"
    and "sch_active (e_sch s') = sch_active (e_sch s) @
      [\<lparr>si_task = erop_scheduledFailureIndT m (userInvokeRef (e_invoke s m)) ESRO_FailureUserNotResponding,
         si_event = SCH_PSEUDO_EVENT\<rparr>, \<lparr>si_task = erop_relInvokeT m, si_event = SCH_PSEUDO_EVENT\<rparr>]"
proof -
  let ?s = "(fireFirst ^^ n) s" let ?s1 = "fireFirst ?s" let ?s2 = "fireFirst ?s1"
  have it: "sending m v octets ?s" "kept_data m s ?s"
    "sent (e_env ?s) = sent (e_env s) @
      replicate n (remTsapSel (e_invoke s m), remNsapAddr (e_invoke s m), octets, True)"
    using fire_resend_iter [OF s q t, of n] n by auto
  obtain t0 where t0: "timerOf m erop_invokePduRetranTimer (int n) t0" "e_timerQ ?s = [t0]"
    using fire_resend_iter [OF s q t, of n] n by auto
  have le: "nuOfRetrans (e_invoke ?s m) \<le> int n"
    using it(2) n by (auto simp: kept_data_def)
  note last = fire_last [OF it(1) t0(2,1) le]
  then obtain t1 where t1: "timerOf m erop_lastTimer 0 t1" "e_timerQ ?s1 = [t1]"
    by auto
  have same: "e_sch ?s1 = e_sch s" "userInvokeRef (e_invoke ?s1 m) = userInvokeRef (e_invoke s m)"
    using it(2) last(2) by (auto simp: kept_data_def)
  have room1: "availSchInfo (e_sch ?s1) \<noteq> 0"
    using room same by simp
  note failed = fire_failure [OF last(1) t1(2,1) room1]
  then obtain t2 where t2: "timerOf m erop_refNuTimer 0 t2" "e_timerQ ?s2 = [t2]"
    by auto
  have m: "m \<noteq> NULL" and room2: "availSchInfo (e_sch ?s2) \<noteq> 0"
    using s failed(4) room same by (simp_all add: sending_def)
  note rel = fire_release [OF failed(1) m failed(2) t2(2,1) room2]
  have s': "s' = fireFirst ?s2"
    by (simp add: s'_def numeral_3_eq_3)
  show "sent (e_env s') = sent (e_env s) @
      replicate n (remTsapSel (e_invoke s m), remNsapAddr (e_invoke s m), octets, True)"
    "e_timerQ s' = []" "curState (e_invoke s' m) = Some lsfsm_sCLInvokerStart"
    using rel failed(3) last(3) it(3) by (simp_all add: s')
  show "sch_active (e_sch s') = sch_active (e_sch s) @
      [\<lparr>si_task = erop_scheduledFailureIndT m (userInvokeRef (e_invoke s m)) ESRO_FailureUserNotResponding,
         si_event = SCH_PSEUDO_EVENT\<rparr>, \<lparr>si_task = erop_relInvokeT m, si_event = SCH_PSEUDO_EVENT\<rparr>]"
    using rel(4) failed(4) same by (simp add: s')
qed

end
