(* ===== verification/Erop_Codec.thy ===== *)
theory Erop_Codec
  imports Erop_Retrans
begin

text \<open>
  What \<^verbatim>\<open>erop_inPdu\<close> reads from a PDU: the decoding of every PDU that
  \<^verbatim>\<open>erop_invokePdu\<close>, \<^verbatim>\<open>erop_resultPdu\<close>, \<^verbatim>\<open>erop_errorPdu\<close>,
  \<^verbatim>\<open>erop_failurePdu\<close> and \<^verbatim>\<open>erop_ackPdu\<close> build gives back the values that were
  encoded, and leaves the user's octets.
\<close>

unbundle bit_operations_syntax

section \<open>The fields of an octet\<close>

text \<open>An octet made of a high part and a low part.\<close>

lemma field_bits:
  fixes hi lo :: int
  assumes "0 \<le> lo" "lo < 2 ^ n"
  shows "take_bit n (push_bit n hi OR lo) = lo" "drop_bit n (push_bit n hi OR lo) = hi"
proof -
  have lo: "take_bit n lo = lo" "drop_bit n lo = 0"
    using assms by (simp_all add: take_bit_int_eq_self drop_bit_eq_div)
  have hi: "drop_bit n (push_bit n hi) = hi"
    by (simp add: drop_bit_eq_div push_bit_eq_mult)
  show "take_bit n (push_bit n hi OR lo) = lo"
    by (simp add: take_bit_push_bit lo)
  show "drop_bit n (push_bit n hi OR lo) = hi"
    by (simp add: lo hi)
qed

lemma uint_octet:
  fixes hi lo :: int
  assumes "0 \<le> lo" "lo < 2 ^ n" "0 \<le> hi" "hi < 2 ^ (8 - n)" "n \<le> 8"
  shows "uint (to_byte (push_bit n hi OR lo)) = push_bit n hi OR lo"
proof -
  have "take_bit (8 - n) hi = hi" "take_bit n lo = lo"
    using assms by (simp_all add: take_bit_int_eq_self)
  moreover have "take_bit 8 lo = lo"
    using \<open>take_bit n lo = lo\<close> assms(5) by (metis min.absorb2 take_bit_take_bit)
  ultimately show ?thesis
    by (simp add: to_byte_def uint_word_of_int_eq take_bit_push_bit)
qed

text \<open>The masks and shifts of \<^verbatim>\<open>erop_inPdu\<close>.\<close>

lemma uint_masks:
  fixes c :: u8
  shows "uint (c AND 0x07) = take_bit 3 (uint c)" "uint (c AND 0x3F) = take_bit 6 (uint c)"
    "uint (drop_bit 6 (c AND 0xC0)) = take_bit 2 (drop_bit 6 (uint c))"
    "uint (drop_bit 4 (c AND 0xF0)) = take_bit 4 (drop_bit 4 (uint c))"
  by (simp_all add: uint_and unsigned_drop_bit_eq take_bit_eq_mask mask_eq_exp_minus_1)

lemma type_bits:
  fixes hi lo :: int
  assumes "0 \<le> lo" "lo < 8" "3 \<le> n"
  shows "take_bit 3 (push_bit n hi OR lo) = lo"
proof -
  have "take_bit 3 lo = lo"
    using assms by (simp add: take_bit_int_eq_self)
  then show ?thesis
    using assms by (simp add: take_bit_push_bit)
qed

lemma invokePci_fields:
  assumes "sel < 16" "0 \<le> opv" "opv < 64" "0 \<le> enc" "enc < 4" "0 \<le> r" "r < 256"
  defines "c i \<equiv> invokePci sel r opv enc ! i"
  shows "uint (c 0 AND 0x07) = INVOKE_PDU" "drop_bit 4 (c 0 AND 0xF0) = sel" "uint (c 1) = r"
    "uint (c 2 AND 0x3F) = opv" "uint (drop_bit 6 (c 2 AND 0xC0)) = enc"
proof -
  have sel: "uint sel < 16"
    using assms(1) by (simp add: word_less_def)
  have c0: "uint (c 0) = push_bit 4 (uint sel) OR 0"
    unfolding c_def invokePci_def nth_Cons_0 using sel by (intro uint_octet) simp_all
  have c2: "uint (c 2) = push_bit 6 enc OR opv"
    unfolding c_def invokePci_def using assms by (simp add: uint_octet)
  show "uint (c 0 AND 0x07) = INVOKE_PDU"
    unfolding uint_masks c0 by (rule type_bits) simp_all
  have "uint (drop_bit 4 (c 0 AND 0xF0)) = uint sel"
    unfolding uint_masks c0 using field_bits(2) [of 0 4 "uint sel"] sel
    by (simp add: take_bit_int_eq_self)
  then show "drop_bit 4 (c 0 AND 0xF0) = sel"
    by (simp add: word_uint_eq_iff)
  show "uint (c 1) = r"
    using assms by (simp add: c_def invokePci_def uint_to_byte)
  show "uint (c 2 AND 0x3F) = opv" "uint (drop_bit 6 (c 2 AND 0xC0)) = enc"
    unfolding uint_masks c2 using assms by (subst field_bits; simp add: take_bit_int_eq_self)+
qed

lemma resultPci_fields:
  assumes "0 \<le> enc" "enc < 4" "0 \<le> r" "r < 256"
  defines "c i \<equiv> resultPci r enc ! i"
  shows "uint (c 0 AND 0x07) = RESULT_PDU" "uint (drop_bit 6 (c 0 AND 0xC0)) = enc" "uint (c 1) = r"
proof -
  have c0: "uint (c 0) = push_bit 6 enc OR 1"
    unfolding c_def resultPci_def nth_Cons_0 using assms by (intro uint_octet) simp_all
  show "uint (c 0 AND 0x07) = RESULT_PDU"
    unfolding uint_masks c0 by (rule type_bits) simp_all
  show "uint (drop_bit 6 (c 0 AND 0xC0)) = enc"
    unfolding uint_masks c0 using assms by (subst field_bits) (simp_all add: take_bit_int_eq_self)
  show "uint (c 1) = r"
    using assms by (simp add: c_def resultPci_def uint_to_byte)
qed

lemma errorPci_fields:
  assumes "0 \<le> enc" "enc < 4" "0 \<le> r" "r < 256" "0 \<le> e" "e < 256"
  defines "c i \<equiv> errorPci r enc e ! i"
  shows "uint (c 0 AND 0x07) = ERROR_PDU" "uint (drop_bit 6 (c 0 AND 0xC0)) = enc" "uint (c 1) = r"
    "uint (c 2) = e"
proof -
  have c0: "uint (c 0) = push_bit 6 enc OR 2"
    unfolding c_def errorPci_def nth_Cons_0 using assms by (intro uint_octet) simp_all
  show "uint (c 0 AND 0x07) = ERROR_PDU"
    unfolding uint_masks c0 by (rule type_bits) simp_all
  show "uint (drop_bit 6 (c 0 AND 0xC0)) = enc"
    unfolding uint_masks c0 using assms by (subst field_bits) (simp_all add: take_bit_int_eq_self)
  show "uint (c 1) = r" "uint (c 2) = e"
    using assms by (simp_all add: c_def errorPci_def uint_to_byte)
qed

lemma small_fields:
  "uint (failurePci r reason ! 0 AND 0x07) = FAILURE_PDU" "uint (ackPci r ! 0 AND 0x07) = ACK_PDU"
  by (simp_all add: failurePci_def ackPci_def to_byte_def)


section \<open>Reading a PDU\<close>

lemma DU_get_nth:
  "i < length (DU_bytes v d) \<Longrightarrow> DU_get v (DU_data v d + int i) d = DU_bytes v d ! i"
  by (simp add: DU_bytes_def)

lemma DU_bytes_strip:
  assumes "v \<noteq> NULL" "0 \<le> n"
  shows "DU_bytes v (DU_strip v n d) = drop (nat n) (DU_bytes v d)"
proof (rule nth_equalityI)
  have sz: "DU_size v (DU_strip v n d) = DU_size v d - n" and dt: "DU_data v (DU_strip v n d) = DU_data v d + n"
    and gt: "DU_get v a (DU_strip v n d) = DU_get v a d" for a
    using assms(1) by (simp_all add: DU_strip_def DU_size_def DU_data_def DU_get_def upd_view_def)
  show "length (DU_bytes v (DU_strip v n d)) = length (drop (nat n) (DU_bytes v d))"
    using assms(2) by (simp add: DU_bytes_def sz nat_diff_distrib)
  fix i assume "i < length (DU_bytes v (DU_strip v n d))"
  then have i: "i < nat (DU_size v d - n)"
    by (simp add: DU_bytes_def sz)
  moreover have "nat n + i < nat (DU_size v d)" "int (nat n + i) = n + int i"
    using i assms(2) by simp_all
  ultimately show "DU_bytes v (DU_strip v n d) ! i = drop (nat n) (DU_bytes v d) ! i"
    by (simp add: DU_bytes_def sz dt gt add.assoc del: of_nat_add)
qed

text \<open>
  A PDU whose control information is \<open>pci\<close>: what is read at its offsets, and what is left when it
  is stripped.
\<close>

definition holds_pdu :: "ptr \<Rightarrow> u8 list \<Rightarrow> u8 list \<Rightarrow> est \<Rightarrow> bool" where
  "holds_pdu du pci octets s \<longleftrightarrow> \<not> e_aborted s \<and> du \<noteq> NULL \<and> DU_bytes du (e_du s) = pci @ octets"

lemma holds_facts:
  assumes "holds_pdu du (a # b # pci) octets s"
  shows "\<not> e_aborted s" "du \<noteq> NULL" "DU_size du (e_du s) \<noteq> 0"
    "DU_get du (DU_data du (e_du s)) (e_du s) = a" "DU_get du (DU_data du (e_du s) + 1) (e_du s) = b"
    "DU_bytes du (DU_strip du (int (length pci) + 2) (e_du s)) = octets"
proof -
  show "\<not> e_aborted s" "du \<noteq> NULL"
    using assms by (simp_all add: holds_pdu_def)
  have bytes: "DU_bytes du (e_du s) = a # b # pci @ octets"
    using assms by (simp add: holds_pdu_def)
  then show "DU_size du (e_du s) \<noteq> 0"
    by (auto simp: DU_bytes_def)
  show "DU_get du (DU_data du (e_du s)) (e_du s) = a" "DU_get du (DU_data du (e_du s) + 1) (e_du s) = b"
    using DU_get_nth [of 0 du "e_du s"] DU_get_nth [of 1 du "e_du s"] by (simp_all add: bytes)
  show "DU_bytes du (DU_strip du (int (length pci) + 2) (e_du s)) = octets"
    using \<open>du \<noteq> NULL\<close> by (simp add: DU_bytes_strip bytes nat_add_distrib)
qed

lemma holds_third:
  assumes "holds_pdu du (a # b # c # pci) octets s"
  shows "DU_get du (DU_data du (e_du s) + 2) (e_du s) = c"
  using assms DU_get_nth [of 2 du "e_du s"] by (simp add: holds_pdu_def)

text \<open>The end of \<^verbatim>\<open>erop_inPdu\<close>, which finds the invocation.\<close>

definition inPdu_find :: "ptr \<Rightarrow> ptr eprog" where
  "inPdu_find du = do {
     invoke \<leftarrow> erop_getInvoke;
     if invoke = NULL then inPdu_ignore du else return invoke
   }"

text \<open>The state after the PDU was read, with the fields \<open>f\<close>.\<close>

definition read_pdu :: "ptr \<Rightarrow> int \<Rightarrow> (pdu \<Rightarrow> pdu) \<Rightarrow> est \<Rightarrow> est" where
  "read_pdu du n f s = s\<lparr>e_du := DU_strip du n (e_du s),
     e_pdu := (f ((e_pdu s)\<lparr>pd_badpdu := False\<rparr>))\<lparr>pd_data := du\<rparr>\<rparr>"

text \<open>The five types.\<close>

lemma read_invoke:
  assumes s: "holds_pdu du (invokePci sel r opv enc) octets s"
    and f: "sel < 16" "0 \<le> opv" "opv < 64" "0 \<le> enc" "enc < 4" "0 \<le> r" "r < 256"
  defines "s' \<equiv> read_pdu du 3 (\<lambda>p. p\<lparr>pd_pdutype := INVOKE_PDU, pd_toESROSap := sel,
      pd_fromESROSap := sel - 1, pd_invokeRefNu := r, pd_operationValue := opv, pd_encodingType := enc\<rparr>) s"
  shows "exec (erop_inPdu du) s = exec (inPdu_find du) s'"
    and "result (erop_inPdu du) s = result (inPdu_find du) s'"
    and "DU_bytes du (e_du s') = octets"
proof -
  obtain a b c where pci: "invokePci sel r opv enc = [a, b, c]"
    by (simp add: invokePci_def)
  note h = holds_facts [OF s [unfolded pci]] holds_third [OF s [unfolded pci]]
  note v = invokePci_fields [OF f, unfolded pci, simplified]
  show "exec (erop_inPdu du) s = exec (inPdu_find du) s'"
    "result (erop_inPdu du) s = result (inPdu_find du) s'"
    using h v
    by (simp_all add: erop_inPdu_def est_run BO_get1_def Let_def inPdu_rest_def inPdu_find_def s'_def read_pdu_def)
  show "DU_bytes du (e_du s') = octets"
    using h by (simp add: s'_def read_pdu_def)
qed

lemma read_result:
  assumes s: "holds_pdu du (resultPci r enc) octets s" and f: "0 \<le> enc" "enc < 4" "0 \<le> r" "r < 256"
  defines "s' \<equiv> read_pdu du 2 (\<lambda>p. p\<lparr>pd_pdutype := RESULT_PDU, pd_encodingType := enc, pd_invokeRefNu := r\<rparr>) s"
  shows "exec (erop_inPdu du) s = exec (inPdu_find du) s'"
    and "result (erop_inPdu du) s = result (inPdu_find du) s'"
    and "DU_bytes du (e_du s') = octets"
proof -
  obtain a b where pci: "resultPci r enc = [a, b]"
    by (simp add: resultPci_def)
  note h = holds_facts [OF s [unfolded pci]]
  note v = resultPci_fields [OF f, unfolded pci, simplified]
  show "exec (erop_inPdu du) s = exec (inPdu_find du) s'"
    "result (erop_inPdu du) s = result (inPdu_find du) s'"
    using h v
    by (simp_all add: erop_inPdu_def est_run BO_get1_def Let_def inPdu_rest_def inPdu_find_def s'_def read_pdu_def)
  show "DU_bytes du (e_du s') = octets"
    using h by (simp add: s'_def read_pdu_def)
qed

lemma read_error:
  assumes s: "holds_pdu du (errorPci r enc e) octets s"
    and f: "0 \<le> enc" "enc < 4" "0 \<le> r" "r < 256" "0 \<le> e" "e < 256"
  defines "s' \<equiv> read_pdu du 3 (\<lambda>p. p\<lparr>pd_pdutype := ERROR_PDU, pd_encodingType := enc,
      pd_invokeRefNu := r, pd_errorValue := e\<rparr>) s"
  shows "exec (erop_inPdu du) s = exec (inPdu_find du) s'"
    and "result (erop_inPdu du) s = result (inPdu_find du) s'"
    and "DU_bytes du (e_du s') = octets"
proof -
  obtain a b c where pci: "errorPci r enc e = [a, b, c]"
    by (simp add: errorPci_def)
  note h = holds_facts [OF s [unfolded pci]] holds_third [OF s [unfolded pci]]
  note v = errorPci_fields [OF f, unfolded pci, simplified]
  show "exec (erop_inPdu du) s = exec (inPdu_find du) s'"
    "result (erop_inPdu du) s = result (inPdu_find du) s'"
    using h v
    by (simp_all add: erop_inPdu_def est_run BO_get1_def Let_def inPdu_rest_def inPdu_find_def s'_def read_pdu_def)
  show "DU_bytes du (e_du s') = octets"
    using h by (simp add: s'_def read_pdu_def)
qed

text \<open>An acknowledgement and a failure look up their invocation before they are stripped.\<close>

lemma read_ack:
  assumes s: "holds_pdu du (ackPci r) [] s" and r: "0 \<le> r" "r < 256"
  defines "s' \<equiv> s\<lparr>e_pdu := (e_pdu s)\<lparr>pd_data := NULL, pd_badpdu := False, pd_pdutype := ACK_PDU,
      pd_invokeRefNu := r\<rparr>\<rparr>"
  shows "exec (erop_inPdu du) s = exec (do {
      invoke \<leftarrow> erop_getInvoke;
      if invoke = NULL then inPdu_ignore du else inPdu_rest du 2 invoke
    }) s'"
proof -
  obtain a b where pci: "ackPci r = [a, b]"
    by (simp add: ackPci_def)
  have v: "uint (a AND 0x07) = ACK_PDU" "uint b = r"
    using small_fields(2) [of r] pci r by (auto simp: ackPci_def uint_to_byte)
  note h = holds_facts [OF s [unfolded pci]]
  show ?thesis
    using h v by (simp add: erop_inPdu_def est_run BO_get1_def Let_def s'_def)
qed

lemma read_failure:
  assumes s: "holds_pdu du (failurePci r reason) [] s" and r: "0 \<le> r" "r < 256"
  defines "s' \<equiv> s\<lparr>e_pdu := (e_pdu s)\<lparr>pd_data := NULL, pd_badpdu := False, pd_pdutype := FAILURE_PDU,
      pd_invokeRefNu := r, pd_failureValue := uint reason\<rparr>\<rparr>"
  shows "exec (erop_inPdu du) s = exec (do {
      invoke \<leftarrow> erop_getInvoke;
      if invoke = NULL then inPdu_ignore du else inPdu_rest du 3 invoke
    }) s'"
proof -
  obtain a b c where pci: "failurePci r reason = [a, b, c]"
    by (simp add: failurePci_def)
  have v: "uint (a AND 0x07) = FAILURE_PDU" "uint b = r" "c = reason"
    using small_fields(1) [of r reason] pci r by (auto simp: failurePci_def uint_to_byte)
  note h = holds_facts [OF s [unfolded pci]] holds_third [OF s [unfolded pci]]
  show ?thesis
    using h v by (simp add: erop_inPdu_def est_run BO_get1_def Let_def s'_def)
qed

end
