(* ===== verification/Erop_Reach.thy ===== *)
theory Erop_Reach
  imports Erop_Codec
begin

text \<open>
  Invariants of the reachable states of the engine: the queue of timers is ordered, the tables of
  reference numbers are well formed, and no task block of the scheduler is lost or made up. The
  locale \<open>engine_steps\<close> is the interface: what a property has to satisfy beyond \<open>engine_all\<close> to
  hold after every step.
\<close>

section \<open>Interface\<close>

locale engine_steps = engine_all P for P +
  assumes block: "keeps P (upd_sch (\<lambda>q. snd (SCH_block sel q)))"
    and task: "P s \<Longrightarrow> sch_runq (e_sch s) = x # xs \<Longrightarrow> P (tasks.run_one x s)"
    and expire: "keeps P (upd_timerQ tl)"
    and world: "P s \<Longrightarrow> P (s\<lparr>e_env := (e_env s)\<lparr>memFail := f, sendFail := g, osClock := c, inbox := i\<rparr>\<rparr>)"
begin

lemma keep_step: "estep s s' \<Longrightarrow> P s \<Longrightarrow> P s'"
  by (induction rule: estep.induct)
    (auto intro: keepsD keep_requests keep_saps block task world keepsD [OF keep_timer(2)] keepsD [OF expire])

lemma keep_reachable:
  assumes "reachable s" "\<And>s. engine_init s \<Longrightarrow> P s"
  shows "P s"
  using assms(1) by (induction rule: reachable.induct) (auto intro: assms(2) keep_step)

end

text \<open>A property that survives a task whenever it does not depend on the scheduler.\<close>

lemma task_other:
  assumes "engine_all P" "\<And>f. keeps P (upd_sch f)" "P s"
  shows "P (tasks.run_one x s)"
  using assms by (simp add: tasks.run_one_def keepsD engine_all.keep_dispatch)


section \<open>Timers and reference numbers\<close>

interpretation ordered: engine_steps "\<lambda>s. tmr_sorted (e_timerQ s)"
proof unfold_locales
  show sch: "keeps (\<lambda>s. tmr_sorted (e_timerQ s)) (upd_sch f)" for f
    unfolding upd_sch_def by (intro keeps_upd) simp
  show "tmr_sorted (e_timerQ (tasks.run_one x s))" if "tmr_sorted (e_timerQ s)" for s x
    by (rule task_other [where P = "\<lambda>s. tmr_sorted (e_timerQ s)"]) (use sorted.engine_all_axioms sch that in auto)
  show "keeps (\<lambda>s. tmr_sorted (e_timerQ s)) (upd_timerQ tl)"
    unfolding upd_timerQ_def
    by (intro keeps_upd) (simp add: tmr_sorted_def map_tl sorted_tl)
qed auto

lemma keeps_refs: "(\<And>s. e_refs (f s) = e_refs s) \<Longrightarrow> keeps (\<lambda>s. refs_wf (e_refs s)) (upd f)"
  by (intro keeps_upd) simp

lemma keeps_refs_ops:
  "keeps (\<lambda>s. refs_wf (e_refs s)) (erop_refNew m)" "keeps (\<lambda>s. refs_wf (e_refs s)) (erop_refKeep r m)"
  "keeps (\<lambda>s. refs_wf (e_refs s)) (erop_refFree m)"
proof -
  have keep: "refs_wf (snd (refKeep adr r i t)) = refs_wf t" for adr r i t
    by (auto simp: refKeep_def refs_wf_def split: option.split)
  show "keeps (\<lambda>s. refs_wf (e_refs s)) (erop_refNew m)" "keeps (\<lambda>s. refs_wf (e_refs s)) (erop_refKeep r m)"
    unfolding erop_refNew_def erop_refKeep_def getInvoke_def
    by (intro keeps_intros keeps_upd; simp add: refNew_wf keep)+
  show "keeps (\<lambda>s. refs_wf (e_refs s)) (erop_refFree m)"
    unfolding erop_refFree_def upd_refs_def by (intro keeps_upd) (simp add: refFree_def refs_wf_def)
qed

interpretation refs: engine_all "\<lambda>s. refs_wf (e_refs s)"
proof unfold_locales
  show sub: "keeps (\<lambda>s. refs_wf (e_refs s)) (sch_submit t SCH_PSEUDO_EVENT)"
    if "True" "taskInv t \<in> UNIV" for t
    unfolding sch_submit_def by (intro keeps_intros keeps_refs) (auto split: option.split)
  show "keeps (\<lambda>s. refs_wf (e_refs s)) (sch_submit t ev)" for t ev
    unfolding sch_submit_def by (intro keeps_intros keeps_refs) (auto split: option.split)
  show "keeps (\<lambda>s. refs_wf (e_refs s)) (erop_tmrCancel m name)" for m name
    by (rule keeps_tmrCancel) (auto simp: upd_defs intro!: keeps_refs)
qed (auto simp: upd_defs NM_incCounter_def newPtr_def setCurState_def erop_tmrSetValues_def
    erop_tmrCreate_def TMR_create_def tmr_obtain_def SF_memGet_def get_defs die_def intervals_def
    intro!: keeps_intros keeps_refs keeps_refs_ops)

interpretation refs: engine_steps "\<lambda>s. refs_wf (e_refs s)"
proof unfold_locales
  show sch: "keeps (\<lambda>s. refs_wf (e_refs s)) (upd_sch f)" for f
    unfolding upd_sch_def by (intro keeps_refs) simp
  show "refs_wf (e_refs (tasks.run_one x s))" if "refs_wf (e_refs s)" for s x
    by (rule task_other [where P = "\<lambda>s. refs_wf (e_refs s)"]) (use refs.engine_all_axioms sch that in auto)
  show "keeps (\<lambda>s. refs_wf (e_refs s)) (upd_timerQ tl)"
    unfolding upd_timerQ_def by (intro keeps_refs) simp
qed auto


section \<open>The scheduler's blocks\<close>

text \<open>
  As long as the process lives no block is lost: those that are free, those of the tasks that wait
  and those of the tasks that are ready are as many as at the start.
\<close>

lemma engine_all_sch_alive:
  assumes "\<And>t ev q q'. Q q \<Longrightarrow> SCH_submit t ev q = Some q' \<Longrightarrow> Q q'"
  shows "engine_all (\<lambda>s. e_aborted s \<or> Q (e_sch s))"
proof -
  have upd: "keeps (\<lambda>s. e_aborted s \<or> Q (e_sch s)) (upd f)" if "\<And>s. e_sch (f s) = e_sch s" for f
    using that by (intro keeps_upd) simp
  have sub: "keeps (\<lambda>s. e_aborted s \<or> Q (e_sch s)) (sch_submit t ev)" for t ev
    unfolding sch_submit_def
    by (intro keeps_intros keeps_upd) (use assms in \<open>auto split: option.split\<close>)
  show ?thesis
  proof unfold_locales
    show "keeps (\<lambda>s. e_aborted s \<or> Q (e_sch s)) (erop_tmrCancel m name)" for m name
      by (rule keeps_tmrCancel) (simp_all add: upd_defs upd)
    show "keeps (\<lambda>s. e_aborted s \<or> Q (e_sch s)) (sch_submit t SCH_PSEUDO_EVENT)" if "taskInv t \<in> UNIV" for t
      by (rule sub)
    show "keeps (\<lambda>s. e_aborted s \<or> Q (e_sch s)) (sch_submit t ev)" for t ev
      by (rule sub)
  qed (auto simp: prim_defs intervals_def intro!: keeps_intros upd)
qed

interpretation blocks: engine_all "\<lambda>s. e_aborted s \<or> sch_total (e_sch s) = n" for n
  by (rule engine_all_sch_alive) (auto dest: SCH_submit_total)

interpretation blocks: engine_steps "\<lambda>s. e_aborted s \<or> sch_total (e_sch s) = n" for n
proof unfold_locales
  show "keeps (\<lambda>s. e_aborted s \<or> sch_total (e_sch s) = n) (upd_sch (\<lambda>q. snd (SCH_block sel q)))" for sel
    unfolding upd_sch_def by (intro keeps_upd) (simp add: SCH_block_total)
  show "e_aborted (tasks.run_one x s) \<or> sch_total (e_sch (tasks.run_one x s)) = n"
    if "e_aborted s \<or> sch_total (e_sch s) = n" "sch_runq (e_sch s) = x # xs" for s x xs
  proof (cases "e_aborted s")
    case False
    define s1 where "s1 = exec (upd_sch (\<lambda>q. q\<lparr>sch_runq := tl (sch_runq q)\<rparr>)) s"
    have "e_aborted s1 \<or> sch_total (e_sch s1) = n - 1"
      using that False by (auto simp: s1_def est_run sch_total_def)
    moreover define s2 where "s2 = exec (dispatch (si_task x)) s1"
    ultimately have "e_aborted s2 \<or> sch_total (e_sch s2) = n - 1"
      using keepsD [OF blocks.keep_dispatch, of s1 "n - 1" "si_task x"] by simp
    moreover have "0 < n"
      using that False by (auto simp: sch_total_def)
    moreover have "tasks.run_one x s = exec (upd_sch (\<lambda>q. q\<lparr>availSchInfo := availSchInfo q + 1\<rparr>)) s2"
      by (simp only: tasks.run_one_def s1_def s2_def)
    ultimately show ?thesis
      by (auto simp: est_run sch_total_def)
  qed (simp add: tasks.run_one_dead)
  show "keeps (\<lambda>s. e_aborted s \<or> sch_total (e_sch s) = n) (upd_timerQ tl)"
    unfolding upd_timerQ_def by (intro keeps_upd) simp
qed auto

end
