(* ===== verification/Erop_Conf.thy ===== *)
theory Erop_Conf
  imports Erop_Tmr
begin

text \<open>
  The configuration interface, \<^verbatim>\<open>ESRO_setConf\<close> and \<^verbatim>\<open>ESRO_getConf\<close>
  (\<^verbatim>\<open>conffunc.c\<close>), and what the parameters mean for the timers of an invocation.
\<close>

section \<open>The functions\<close>

abbreviation (input) ESRO_PortNumber :: int where "ESRO_PortNumber \<equiv> 0"
abbreviation (input) ESRO_MaxSAPs :: int where "ESRO_MaxSAPs \<equiv> 1"
abbreviation (input) ESRO_MaxInvokes :: int where "ESRO_MaxInvokes \<equiv> 2"
abbreviation (input) ESRO_MaxReference :: int where "ESRO_MaxReference \<equiv> 3"
abbreviation (input) ESRO_PduSize :: int where "ESRO_PduSize \<equiv> 4"
abbreviation (input) ESRO_Acknowledgement :: int where "ESRO_Acknowledgement \<equiv> 5"
abbreviation (input) ESRO_Roundtrip :: int where "ESRO_Roundtrip \<equiv> 6"
abbreviation (input) ESRO_Retransmit :: int where "ESRO_Retransmit \<equiv> 7"
abbreviation (input) ESRO_MaxNSDULifeTime :: int where "ESRO_MaxNSDULifeTime \<equiv> 8"
abbreviation (input) ESRO_RetransmitCount :: int where "ESRO_RetransmitCount \<equiv> 9"
abbreviation (input) FIRST_PARAM :: int where "FIRST_PARAM \<equiv> 0"
abbreviation (input) LAST_PARAM :: int where "LAST_PARAM \<equiv> 10"

text \<open>The return code and the configuration after the call.\<close>

definition ESRO_setConf :: "int \<Rightarrow> int \<Rightarrow> cfg \<Rightarrow> int \<times> cfg" where
  "ESRO_setConf param value c =
     (if param > LAST_PARAM \<or> param < FIRST_PARAM then (- 1, c)
      else (0,
        if param = ESRO_PortNumber then c\<lparr>udpSapSel := value\<rparr>
        else if param = ESRO_MaxSAPs then c\<lparr>nuOfSaps := value\<rparr>
        else if param = ESRO_MaxInvokes then c\<lparr>nuOfInvokes := value\<rparr>
        else if param = ESRO_PduSize then c\<lparr>invokePduSize := value\<rparr>
        else if param = ESRO_Acknowledgement then c\<lparr>tv_acknowledgment := value\<rparr>
        else if param = ESRO_Roundtrip then c\<lparr>tv_roundtrip := value\<rparr>
        else if param = ESRO_Retransmit then c\<lparr>tv_retransmit := value\<rparr>
        else if param = ESRO_MaxNSDULifeTime then c\<lparr>tv_maxNSDULifeTime := value\<rparr>
        else if param = ESRO_RetransmitCount then c\<lparr>retransmitCount := value\<rparr>
        else c))"

text \<open>The return code and what is stored in \<^verbatim>\<open>*value\<close>, if anything is.\<close>

definition ESRO_getConf :: "int \<Rightarrow> cfg \<Rightarrow> int \<times> int option" where
  "ESRO_getConf param c =
     (if param > LAST_PARAM \<or> param < FIRST_PARAM then (- 1, None)
      else (0,
        if param = ESRO_PortNumber then Some (udpSapSel c)
        else if param = ESRO_MaxSAPs then Some (nuOfSaps c)
        else if param = ESRO_MaxInvokes then Some (nuOfInvokes c)
        else if param = ESRO_PduSize then Some (invokePduSize c)
        else if param = ESRO_Acknowledgement then Some (tv_acknowledgment c)
        else if param = ESRO_Roundtrip then Some (tv_roundtrip c)
        else if param = ESRO_Retransmit then Some (tv_retransmit c)
        else if param = ESRO_MaxNSDULifeTime then Some (tv_maxNSDULifeTime c)
        else if param = ESRO_RetransmitCount then Some (retransmitCount c)
        else None))"


section \<open>Reading what was set\<close>

text \<open>The parameters the functions know.\<close>

definition confParams :: "int set" where
  "confParams = {ESRO_PortNumber, ESRO_MaxSAPs, ESRO_MaxInvokes, ESRO_PduSize, ESRO_Acknowledgement,
     ESRO_Roundtrip, ESRO_Retransmit, ESRO_MaxNSDULifeTime, ESRO_RetransmitCount}"

lemma ESRO_getConf_set:
  "p \<in> confParams \<Longrightarrow> ESRO_getConf p (snd (ESRO_setConf p v c)) = (0, Some v)"
  by (auto simp: confParams_def ESRO_getConf_def ESRO_setConf_def)

lemma ESRO_getConf_other:
  "q \<noteq> p \<Longrightarrow> ESRO_getConf q (snd (ESRO_setConf p v c)) = ESRO_getConf q c"
  by (auto simp: ESRO_getConf_def ESRO_setConf_def)

lemma ESRO_conf_unknown:
  assumes "p \<notin> confParams"
  shows "snd (ESRO_setConf p v c) = c" "snd (ESRO_getConf p c) = None"
  using assms by (auto simp: confParams_def ESRO_getConf_def ESRO_setConf_def)

end
