(* ===== verification/Erop_Dup.thy ===== *)
theory Erop_Dup
  imports Erop_Reach Erop_Conf
begin

text \<open>
  What a machine does that has nothing to tell its user: the rows of the diagrams that are not
  loud schedule neither an indication nor a confirmation. In particular a duplicate of an
  \<^verbatim>\<open>INVOKE\<close> PDU finds the invocation that exists, creates none and is not indicated again.
\<close>

section \<open>Rows that are not loud\<close>

fun isRelease :: "task \<Rightarrow> bool" where
  "isRelease (erop_relInvokeT i) = True"
| "isRelease _ = False"

text \<open>The indications and confirmations that wait for the scheduler.\<close>

definition pending :: "est \<Rightarrow> task list" where
  "pending s = filter (\<lambda>t. \<not> isRelease t) (map si_task (sch_active (e_sch s)))"

text \<open>The scheduler, the user's calls and the invocations in use are as given.\<close>

definition hushed :: "task list \<Rightarrow> task schInfo list \<Rightarrow> upcall list \<Rightarrow> ptr set \<Rightarrow> est \<Rightarrow> bool" where
  "hushed ts rs us l s \<longleftrightarrow>
     pending s = ts \<and> sch_runq (e_sch s) = rs \<and> upcalls (e_env s) = us \<and> e_live s = l"

lemma keeps_hushed:
  assumes "\<And>s. e_sch (f s) = e_sch s" "\<And>s. upcalls (e_env (f s)) = upcalls (e_env s)"
    "\<And>s. e_live (f s) = e_live s"
  shows "keeps (hushed ts rs us l) (upd f)"
  using assms by (intro keeps_upd) (simp add: hushed_def pending_def)

lemma keeps_hushed_submit:
  assumes "isRelease t"
  shows "keeps (hushed ts rs us l) (sch_submit t ev)"
proof (rule keepsI)
  fix s assume P: "hushed ts rs us l s"
  show "hushed ts rs us l (exec (sch_submit t ev) s)"
  proof (cases "e_aborted s")
    case True
    then show ?thesis
      using P frozenD [OF frozen.submit_any, of s t ev] by simp
  next
    case False
    then show ?thesis
      using P assms by (auto simp: sch_submit_effect hushed_def pending_def)
  qed
qed

interpretation hushed: engine_quiet "hushed ts rs us l" UNIV UNIV "\<lambda>_. True" isRelease for ts rs us l
proof unfold_locales
  show "keeps (hushed ts rs us l) (erop_tmrCancel m name)" for m name
    by (rule keeps_tmrCancel) (auto simp: upd_defs intro!: keeps_hushed)
  show "keeps (hushed ts rs us l) (sch_submit t SCH_PSEUDO_EVENT)" if "isRelease t" for t
    using that by (rule keeps_hushed_submit)
qed (auto simp: small_prims intervals_def frame_def intro!: keeps_intros keeps_hushed)

lemma runMachine_hushed:
  assumes "curState (e_invoke s m) = Some q" "\<not> loud q e"
  shows "hushed (pending s) (sch_runq (e_sch s)) (upcalls (e_env s)) (e_live s) (exec (runMachine m e) s)"
proof (cases "m = NULL")
  case True
  then show ?thesis by (simp add: runMachine_none hushed_def)
next
  case False
  let ?H = "hushed (pending s) (sch_runq (e_sch s)) (upcalls (e_env s)) (e_live s)"
  have "?H (exec (act q e m e) s)"
    by (rule keepsD [OF hushed.keep_quiet_act]) (use assms in \<open>auto simp: hushed_def\<close>)
  then have "?H (exec (setCurState m (Some (next_st q e))) (exec (act q e m e) s))"
    unfolding setCurState_def upd_invoke_def by (rule keepsD [OF keeps_hushed, rotated -1]) simp_all
  then show ?thesis
    using runMachine_effect(2) [OF False assms(1)] by simp
qed


section \<open>Duplicates\<close>

text \<open>The invocation that the search for duplicates finds.\<close>

definition dupInvoke :: "est \<Rightarrow> ptr option" where
  "dupInvoke s = find (\<lambda>j. invokeRefNu (e_invoke s j) = pd_invokeRefNu (e_pdu s) \<and>
     N_sapAddrCmp (remNsapAddr (e_invoke s j)) (pd_fromNsapAddr (e_pdu s)) = 0)
     (invokeSeq (e_sap s (result (erop_getSapInfo (pd_toESROSap (e_pdu s))) s)))"

lemma erop_getInvoke_dup:
  assumes "pd_pdutype (e_pdu s) = INVOKE_PDU" "result (erop_getSapInfo (pd_toESROSap (e_pdu s))) s \<noteq> NULL"
    "dupInvoke s = Some m"
  shows "result erop_getInvoke s = m" "exec erop_getInvoke s = s"
proof -
  have sap: "exec (erop_getSapInfo k) s = s" for k
    by (simp add: erop_getSapInfo_def est_run)
  show "result erop_getInvoke s = m" "exec erop_getInvoke s = s"
    using assms by (simp_all add: erop_getInvoke_def est_run sap dupInvoke_def)
qed

text \<open>States of a machine that has received its \<^verbatim>\<open>INVOKE\<close> PDU.\<close>

definition performing :: "fsmst \<Rightarrow> bool" where
  "performing q \<longleftrightarrow> q \<in> {lsfsm_sInvokePduReceived, lsfsm_sAckPduWait, lsfsm_sPerformerRefWait,
     lsfsm_s2InvokePduReceived, lsfsm_s2ResultPduRetrans, lsfsm_s2PerformerRefWait}"

lemma performing_not_loud: "performing q \<Longrightarrow> \<not> loud q lsfsm_EvtPduInvoke"
  by (auto simp: performing_def loud_def)

lemma performing_stays: "performing q \<Longrightarrow> next_st q lsfsm_EvtPduInvoke = q"
  by (auto simp: performing_def next_st_def act_defs)

text \<open>The arrival of a duplicate.\<close>

lemma dataInd_dup:
  fixes ts :: T_SapSel
  assumes pdu: "holds_pdu du (invokePci sel r opv enc) octets s"
    and f: "sel < 16" "0 \<le> opv" "opv < 64" "0 \<le> enc" "enc < 4" "0 \<le> r" "r < 256"
    and sap: "result (erop_getSapInfo sel) s = sap" "sap \<noteq> NULL"
    and dup: "find (\<lambda>j. invokeRefNu (e_invoke s j) = r \<and> N_sapAddrCmp (remNsapAddr (e_invoke s j)) ns = 0)
      (invokeSeq (e_sap s sap)) = Some m"
    and m: "m \<noteq> NULL" "curState (e_invoke s m) = Some q" "performing q"
  defines "s' \<equiv> exec (lower_dataInd ts ns du) s"
  shows "hushed (pending s) (sch_runq (e_sch s)) (upcalls (e_env s)) (e_live s) s'"
    and "curState (e_invoke s' m) = Some q \<or> e_aborted s'"
proof -
  define s0 where "s0 = s\<lparr>e_pdu := (e_pdu s)\<lparr>pd_fromTsapSel := ts, pd_fromNsapAddr := ns\<rparr>\<rparr>"
  have pdu0: "holds_pdu du (invokePci sel r opv enc) octets s0"
    using pdu by (simp add: holds_pdu_def s0_def)
  define s1 where "s1 = read_pdu du 3 (\<lambda>p. p\<lparr>pd_pdutype := INVOKE_PDU, pd_toESROSap := sel,
      pd_fromESROSap := sel - 1, pd_invokeRefNu := r, pd_operationValue := opv, pd_encodingType := enc\<rparr>) s0"
  note read = read_invoke [OF pdu0 f, folded s1_def]
  have al: "\<not> e_aborted s"
    using pdu by (simp add: holds_pdu_def)
  have same: "e_sap s1 = e_sap s" "e_invoke s1 = e_invoke s" "e_sapSeq s1 = e_sapSeq s"
    "e_sch s1 = e_sch s" "e_env s1 = e_env s" "e_live s1 = e_live s"
    "pd_pdutype (e_pdu s1) = INVOKE_PDU" "pd_toESROSap (e_pdu s1) = sel" "pd_invokeRefNu (e_pdu s1) = r"
    "pd_fromNsapAddr (e_pdu s1) = ns"
    by (simp_all add: s1_def s0_def read_pdu_def)
  have sap1: "result (erop_getSapInfo sel) s1 = sap"
    using sap(1) by (simp add: erop_getSapInfo_def est_run same)
  have "dupInvoke s1 = Some m"
    using dup by (simp add: dupInvoke_def same sap1)
  then have get: "result erop_getInvoke s1 = m" "exec erop_getInvoke s1 = s1"
    using erop_getInvoke_dup [of s1 m] sap sap1 by (simp_all add: same)
  have inp: "exec (erop_inPdu du) s0 = s1" "result (erop_inPdu du) s0 = m"
    using read(1,2) get m(1) by (simp_all add: inPdu_find_def est_run)
  have run: "result (runMachine m lsfsm_EvtPduInvoke) s1 = SUCCESS"
    using runMachine_effect(1) [OF m(1)] m(2) by (simp add: same)
  have s': "s' = exec (runMachine m lsfsm_EvtPduInvoke) s1"
    using al inp m(1) run unfolding s'_def
    by (simp add: lower_dataInd_def est_run s0_def [symmetric] same)
  show "hushed (pending s) (sch_runq (e_sch s)) (upcalls (e_env s)) (e_live s) s'"
    using runMachine_hushed [of s1 m q lsfsm_EvtPduInvoke] m performing_not_loud [OF m(3)]
    by (simp add: s' same pending_def)
  have st: "curState (e_invoke s1 m) = Some q"
    using m(2) by (simp add: same)
  have "s' = exec (setCurState m (Some q)) (exec (act q lsfsm_EvtPduInvoke m lsfsm_EvtPduInvoke) s1)"
    using runMachine_effect(2) [OF m(1) st] performing_stays [OF m(3)] by (simp add: s')
  then show "curState (e_invoke s' m) = Some q \<or> e_aborted s'"
    by (simp add: setCurState_state)
qed

end
