(* ===== verification/Erop_Request.thy ===== *)
theory Erop_Request
  imports Erop_Dup
begin

text \<open>
  A request of the user that goes well: the \<^verbatim>\<open>INVOKE\<close> PDU with a free reference number and the
  user's octets is sent, kept for retransmission, and its retransmission timer is started. Together
  with the life of an unanswered invocation in theory Erop_Retrans this is the whole life of a
  request to a peer that does not answer.
\<close>

section \<open>The PDU in its buffer\<close>

text \<open>Writing into a buffer, or moving the start of a view, is invisible to the pool.\<close>

lemma du_wf_put:
  assumes "du_wf p B V fb fv d"
  shows "du_wf p B V fb fv (BO_puts v a xs (DU_prepend v n d))"
proof -
  have "v_next (views (DU_prepend v n d) u) = v_next (views d u)"
    "v_bufInfo (views (DU_prepend v n d) u) = v_bufInfo (views d u)"
    "viewFreeList (DU_prepend v n d) = viewFreeList d" "pools (DU_prepend v n d) = pools d"
    "bufs (DU_prepend v n d) = bufs d" for u
    by (simp_all add: DU_prepend_def upd_view_def)
  then show ?thesis
    using assms by (simp add: du_wf_def refs_def)
qed

lemma kept_pdu_put:
  assumes "du_wf p B V fb (w # fv) d" "v \<in> V - set (w # fv)" "0 \<le> DU_size v d" "n = int (length xs)"
  shows "kept_pdu v (xs @ DU_bytes v d) (BO_puts v (DU_data v (DU_prepend v n d)) xs (DU_prepend v n d))"
proof -
  have "v \<noteq> NULL"
    using assms(1,2) by (auto simp: du_wf_def)
  then show ?thesis
    unfolding kept_pdu_def using put_bytes [OF _ assms(3,4)] du_wf_put [OF assms(1)] assms(2) by blast
qed


section \<open>The action of a new invoker machine\<close>

text \<open>The last part of \<^verbatim>\<open>tr_clInvoker01\<close>, from the reference number on.\<close>

definition sendNew :: "ptr \<Rightarrow> ptr \<Rightarrow> int eprog" where
  "sendNew invoke parameter = do {
     i \<leftarrow> getInvoke invoke id;
     du \<leftarrow> erop_invokePdu (remEsroSapSel i) (invokeRefNu i) (operationValue i) (encodingType i) parameter;
     if du = NULL then return FAIL
     else do {
       erop_pduKeep invoke InvokePduSeq du;
       du2 \<leftarrow> erop_pduRetrieve invoke InvokePduSeq;
       if du2 = NULL then return FAIL
       else do {
         rc \<leftarrow> UDP_dataReq (remTsapSel i) (remNsapAddr i) du2;
         du_free du2;
         t \<leftarrow> erop_tmrCreate invoke erop_invokePduRetranTimer (retransTimeout i) 0;
         if t = FAIL then return FAIL
         else if rc = FAIL then return FAIL
         else do {
           NM_incCounter erop_completeOperationCounter 1;
           return SUCCESS
         }
       }
     }
   }"

text \<open>The state and the PDU at its start.\<close>

definition can_send :: "ptr \<Rightarrow> ptr \<Rightarrow> est \<Rightarrow> bool" where
  "can_send m v s \<longleftrightarrow> working s \<and> m \<noteq> NULL \<and> invokePduSeq (e_invoke s m) = [] \<and>
     resultPduSeq (e_invoke s m) = [] \<and> 0 \<le> DU_size v (e_du s) \<and>
     (\<exists>p B V fb w fv. du_wf p B V fb (w # fv) (e_du s) \<and> v \<in> V - set (w # fv))"

definition newPdu :: "ptr \<Rightarrow> ptr \<Rightarrow> est \<Rightarrow> u8 list" where
  "newPdu m v s = invokePci (remEsroSapSel (e_invoke s m)) (invokeRefNu (e_invoke s m))
     (operationValue (e_invoke s m)) (encodingType (e_invoke s m)) @ DU_bytes v (e_du s)"

lemma sendNew_effect:
  assumes s: "can_send m v s" and os: "osClock (e_env s) = Some os"
  shows "\<exists>d nm. exec (sendNew m v) s = s\<lparr>e_du := d,
      e_timerQ := tmr_insert \<lparr>tm_desc = e_next s,
        expiryTime = os * 1000 + word_of_int (retransTimeout (e_invoke s m)),
        tm_data = \<lparr>td_invoke = m, td_name = erop_invokePduRetranTimer, td_data = 0\<rparr>\<rparr> (e_timerQ s),
      e_invoke := (e_invoke s)(m := (e_invoke s m)\<lparr>invokePduSeq := [v],
        tmrQu := tmrQu (e_invoke s m) @ [(e_next s, erop_invokePduRetranTimer)]\<rparr>),
      e_next := Suc (e_next s),
      e_env := (e_env s)\<lparr>sendCount := Suc (sendCount (e_env s)),
        sent := sent (e_env s) @
          [(remTsapSel (e_invoke s m), remNsapAddr (e_invoke s m), newPdu m v s, True)],
        memCount := Suc (memCount (e_env s))\<rparr>,
      e_nm := nm\<rparr> \<and> kept_pdu v (newPdu m v s) d"
proof -
  obtain p B V fb w fv where wf: "du_wf p B V fb (w # fv) (e_du s)" "v \<in> V - set (w # fv)"
    using s by (auto simp: can_send_def)
  have f: "\<not> e_aborted s" "memFail (e_env s) = (\<lambda>_. False)" "sendFail (e_env s) = (\<lambda>_. False)"
    "e_next s \<noteq> NULL" "m \<noteq> NULL" "invokePduSeq (e_invoke s m) = []" "0 \<le> DU_size v (e_du s)"
    using s by (simp_all add: can_send_def working_def)
  have v: "v \<noteq> NULL"
    using wf by (auto simp: du_wf_def)
  define pci where "pci = invokePci (remEsroSapSel (e_invoke s m)) (invokeRefNu (e_invoke s m))
     (operationValue (e_invoke s m)) (encodingType (e_invoke s m))"
  define d where "d = BO_puts v (DU_data v (DU_prepend v 3 (e_du s))) pci (DU_prepend v 3 (e_du s))"
  have kept: "kept_pdu v (newPdu m v s) d"
    unfolding d_def newPdu_def pci_def by (rule kept_pdu_put [OF wf f(7)]) simp
  note k = kept_pdu_again [OF kept]
  show ?thesis
    using f v os k
    by (simp add: sendNew_def est_run erop_invokePdu_def putPci_def NM_incCounter_def erop_pduKeep_def
        erop_pduRetrieve_effect UDP_dataReq_effect du_free_def erop_tmrCreate_effect
        pci_def [symmetric] d_def [symmetric]) (intro exI conjI; (rule refl | assumption))
qed

text \<open>Before that the machine gets the data of the request, the intervals and the reference number.\<close>

definition reqInvoke :: "evtInfo \<Rightarrow> cfg \<Rightarrow> invokeInfo \<Rightarrow> invokeInfo" where
  "reqInvoke e c i = i\<lparr>remEsroSapSel := ir_remESROSap e, remTsapSel := ir_remTsap e,
     remNsapAddr := ir_remNsap e, operationValue := ir_opValue e, encodingType := ir_encodingType e,
     userInvokeRef := ir_userInvokeRef e, retransTimeout := tv_retransmit c + tv_roundtrip c,
     rwait := 2 * (tv_acknowledgment c + tv_retransmit c), nuOfRetrans := to_short (retransmitCount c),
     refKeepTime := 2 * tv_maxNSDULifeTime c + to_short (retransmitCount c) * tv_retransmit c,
     inactivityDelay := 4 * tv_roundtrip c,
     perfNoResponse := 2 * tv_maxNSDULifeTime c +
       (to_short (retransmitCount c) + 1) * (tv_retransmit c + tv_roundtrip c)\<rparr>"

text \<open>\<open>newRefNu m s\<close>: the reference number the machine gets, and the table then.\<close>

definition newRefNu :: "ptr \<Rightarrow> est \<Rightarrow> int \<times> erop_refs" where
  "newRefNu m s = refNew (\<lambda>j. remNsapAddr
     (((e_invoke s)(m := reqInvoke (e_evt s) (e_cfg s) (e_invoke s m))) j)) m (e_refs s)"

lemma clInvoker01_sendNew:
  assumes "\<not> e_aborted s" "m \<noteq> NULL" "\<not> performingNotInvoking (e_invoke s m)"
    "DU_size (ir_parameter (e_evt s)) (e_du s) \<le> invokePduSize (e_cfg s)" "fst (newRefNu m s) \<noteq> - 1"
  shows "exec (tr_clInvoker01 m ev) s = exec (sendNew m (ir_parameter (e_evt s)))
    (s\<lparr>e_refs := snd (newRefNu m s), e_invoke := (e_invoke s)(m :=
      (reqInvoke (e_evt s) (e_cfg s) (e_invoke s m))\<lparr>invokeRefNu := fst (newRefNu m s)\<rparr>)\<rparr>)"
proof -
  have "tr_clInvoker01 m ev = do {
      parameter \<leftarrow> getEvt ir_parameter;
      size \<leftarrow> du_size parameter;
      maxSize \<leftarrow> getCfg invokePduSize;
      if size > maxSize then return FAIL
      else if m = NULL then return FAIL
      else do {
        e \<leftarrow> getEvt id;
        upd_invoke m (\<lambda>i. i\<lparr>remEsroSapSel := ir_remESROSap e\<rparr>);
        upd_invoke m (\<lambda>i. i\<lparr>remTsapSel := ir_remTsap e\<rparr>);
        upd_invoke m (\<lambda>i. i\<lparr>remNsapAddr := ir_remNsap e\<rparr>);
        upd_invoke m (\<lambda>i. i\<lparr>operationValue := ir_opValue e\<rparr>);
        upd_invoke m (\<lambda>i. i\<lparr>encodingType := ir_encodingType e\<rparr>);
        upd_invoke m (\<lambda>i. i\<lparr>userInvokeRef := ir_userInvokeRef e\<rparr>);
        erop_tmrSetValues m;
        r \<leftarrow> erop_refNew m;
        upd_invoke m (\<lambda>i. i\<lparr>invokeRefNu := r\<rparr>);
        if r = FAIL then return FAIL else sendNew m parameter
      }
    }"
    unfolding tr_clInvoker01_def sendNew_def ..
  then show ?thesis
    using assms
    by (simp add: est_run erop_tmrSetValues_def erop_refNew_def newRefNu_def reqInvoke_def)
qed


section \<open>The request\<close>

text \<open>
  The hypotheses of a good request: the access point is bound for the 3-way handshake, the data
  unit and two free views belong to the pool, the data are not longer than the configuration
  allows, and some reference number is free.
\<close>

definition can_req :: "u8 \<Rightarrow> ptr \<Rightarrow> est \<Rightarrow> bool" where
  "can_req sel par s \<longleftrightarrow> working s \<and>
     result (erop_getSapInfo sel) s \<noteq> NULL \<and>
     functionalUnit (e_sap s (result (erop_getSapInfo sel) s)) = ESRO_3Way \<and>
     (\<exists>p B V fb v w fv. du_wf p B V fb (v # w # fv) (e_du s) \<and> par \<in> V - set (v # w # fv)) \<and>
     0 \<le> DU_size par (e_du s) \<and> DU_size par (e_du s) \<le> invokePduSize (e_cfg s)"

definition good_req :: "u8 \<Rightarrow> ptr \<Rightarrow> est \<Rightarrow> bool" where
  "good_req sel par s \<longleftrightarrow> can_req sel par s \<and> refs_wf (e_refs s) \<and>
     (\<exists>r. 0 \<le> r \<and> r < totalRefNumbers (e_refs s) \<and> refToInvokerMap (e_refs s) r = [])"

text \<open>What it achieves for the new machine.\<close>

definition req_sent ::
  "nat \<Rightarrow> T_SapSel \<Rightarrow> N_SapAddr \<Rightarrow> u8 list \<Rightarrow> est \<Rightarrow> est \<Rightarrow> bool" where
  "req_sent userRef ts ns octets s s' \<longleftrightarrow>
     (\<exists>v. sending (e_next s) v octets s') \<and>
     sent (e_env s') = sent (e_env s) @ [(ts, ns, octets, True)] \<and>
     remTsapSel (e_invoke s' (e_next s)) = ts \<and> remNsapAddr (e_invoke s' (e_next s)) = ns \<and>
     userInvokeRef (e_invoke s' (e_next s)) = userRef \<and>
     nuOfRetrans (e_invoke s' (e_next s)) = to_short (retransmitCount (e_cfg s)) \<and>
     (\<exists>t. timerOf (e_next s) erop_invokePduRetranTimer 0 t \<and> e_timerQ s' = tmr_insert t (e_timerQ s)) \<and>
     e_sch s' = e_sch s"

lemma refNew_free:
  assumes "refs_wf t" "0 \<le> r" "r < totalRefNumbers t" "refToInvokerMap t r = []"
  shows "fst (refNew adr i t) \<noteq> - 1"
proof -
  have "refUnused adr i t r"
    using assms(4) by (simp add: refUnused_def refSearch_def)
  then show ?thesis
    using assms(2,3) refNew_none_iff [OF assms(1), of adr i] by blast
qed

lemma runMachine_request:
  assumes st: "curState (e_invoke s m) = Some lsfsm_sCLInvokerStart" "\<not> performingNotInvoking (e_invoke s m)"
    and cs: "can_send m (ir_parameter (e_evt s)) s"
    and sz: "DU_size (ir_parameter (e_evt s)) (e_du s) \<le> invokePduSize (e_cfg s)"
    and ref: "refs_wf (e_refs s)" "0 \<le> r0" "r0 < totalRefNumbers (e_refs s)" "refToInvokerMap (e_refs s) r0 = []"
  defines "s' \<equiv> exec (runMachine m lsfsm_EvtInvokeReq) s" and "r \<equiv> fst (newRefNu m s)"
  defines "octets \<equiv> invokePci (ir_remESROSap (e_evt s)) r (ir_opValue (e_evt s)) (ir_encodingType (e_evt s)) @
    DU_bytes (ir_parameter (e_evt s)) (e_du s)"
  shows "0 \<le> r \<and> r < totalRefNumbers (e_refs s)" and "sending m (ir_parameter (e_evt s)) octets s'"
    and "sent (e_env s') = sent (e_env s) @ [(ir_remTsap (e_evt s), ir_remNsap (e_evt s), octets, True)]"
    and "\<exists>x y. e_invoke s' m = (reqInvoke (e_evt s) (e_cfg s) (e_invoke s m))\<lparr>invokeRefNu := r,
      invokePduSeq := x, tmrQu := y, curState := Some lsfsm_sInvokePduSent\<rparr>"
    and "\<exists>t. timerOf m erop_invokePduRetranTimer 0 t \<and> e_timerQ s' = tmr_insert t (e_timerQ s)"
    and "e_sch s' = e_sch s"
proof -
  let ?v = "ir_parameter (e_evt s)"
  have w: "\<not> e_aborted s" "m \<noteq> NULL"
    using cs by (simp_all add: can_send_def working_def)
  obtain os where os: "osClock (e_env s) = Some os"
    using cs by (auto simp: can_send_def working_def)
  have new: "r \<noteq> - 1"
    unfolding r_def newRefNu_def by (rule refNew_free [OF ref])
  then show "0 \<le> r \<and> r < totalRefNumbers (e_refs s)"
    using refNew_some [OF ref(1)] by (simp add: r_def newRefNu_def)
  define s1 where "s1 = s\<lparr>e_refs := snd (newRefNu m s), e_invoke := (e_invoke s)(m :=
    (reqInvoke (e_evt s) (e_cfg s) (e_invoke s m))\<lparr>invokeRefNu := r\<rparr>)\<rparr>"
  have cs1: "can_send m ?v s1" and os1: "osClock (e_env s1) = Some os"
    using cs os by (simp_all add: s1_def can_send_def working_def reqInvoke_def)
  have oct: "newPdu m ?v s1 = octets"
    by (simp add: newPdu_def s1_def reqInvoke_def octets_def)
  obtain d nm where send: "exec (sendNew m ?v) s1 = s1\<lparr>e_du := d,
      e_timerQ := tmr_insert \<lparr>tm_desc = e_next s1,
        expiryTime = os * 1000 + word_of_int (retransTimeout (e_invoke s1 m)),
        tm_data = \<lparr>td_invoke = m, td_name = erop_invokePduRetranTimer, td_data = 0\<rparr>\<rparr> (e_timerQ s1),
      e_invoke := (e_invoke s1)(m := (e_invoke s1 m)\<lparr>invokePduSeq := [?v],
        tmrQu := tmrQu (e_invoke s1 m) @ [(e_next s1, erop_invokePduRetranTimer)]\<rparr>),
      e_next := Suc (e_next s1),
      e_env := (e_env s1)\<lparr>sendCount := Suc (sendCount (e_env s1)),
        sent := sent (e_env s1) @
          [(remTsapSel (e_invoke s1 m), remNsapAddr (e_invoke s1 m), octets, True)],
        memCount := Suc (memCount (e_env s1))\<rparr>,
      e_nm := nm\<rparr>" and kept: "kept_pdu ?v octets d"
    using sendNew_effect [OF cs1 os1] unfolding oct by blast
  have "s' = exec (setCurState m (Some lsfsm_sInvokePduSent)) (exec (tr_clInvoker01 m lsfsm_EvtInvokeReq) s)"
    unfolding s'_def runMachine_effect(2) [OF w(2) st(1)] by (simp add: next_st_def act_defs)
  also have "exec (tr_clInvoker01 m lsfsm_EvtInvokeReq) s = exec (sendNew m ?v) s1"
    using clInvoker01_sendNew [OF w st(2) sz] new by (simp add: r_def s1_def)
  finally have s': "s' = exec (setCurState m (Some lsfsm_sInvokePduSent)) (exec (sendNew m ?v) s1)" .
  note eff = s' [unfolded send] s1_def setCurState_def est_run w reqInvoke_def
  show "sending m ?v octets s'"
    using cs kept by (simp add: eff sending_def can_send_def working_def)
  show "sent (e_env s') = sent (e_env s) @ [(ir_remTsap (e_evt s), ir_remNsap (e_evt s), octets, True)]"
    "e_sch s' = e_sch s"
    by (simp_all add: eff)
  show "\<exists>x y. e_invoke s' m = (reqInvoke (e_evt s) (e_cfg s) (e_invoke s m))\<lparr>invokeRefNu := r,
      invokePduSeq := x, tmrQu := y, curState := Some lsfsm_sInvokePduSent\<rparr>"
    by (simp add: eff) (intro exI; rule refl)
  show "\<exists>t. timerOf m erop_invokePduRetranTimer 0 t \<and> e_timerQ s' = tmr_insert t (e_timerQ s)"
    by (simp add: eff timerOf_def, rule exI, rule conjI [OF _ refl], simp)
qed

text \<open>The state in which \<^verbatim>\<open>EROP_invokeReq\<close> runs the new machine.\<close>

lemma invokeReq_runs:
  fixes opv enc :: int and userRef :: nat
  assumes g: "can_req sel par s"
  defines "m \<equiv> e_next s"
  shows "\<exists>s1. exec (EROP_invokeReq userRef sel rem ts ns opv enc par) s = exec (runMachine m lsfsm_EvtInvokeReq) s1 \<and>
    result (EROP_invokeReq userRef sel rem ts ns opv enc par) s = (SUCCESS, Some m) \<and>
    curState (e_invoke s1 m) = Some lsfsm_sCLInvokerStart \<and> \<not> performingNotInvoking (e_invoke s1 m) \<and>
    can_send m (ir_parameter (e_evt s1)) s1 \<and>
    DU_size (ir_parameter (e_evt s1)) (e_du s1) \<le> invokePduSize (e_cfg s1) \<and>
    DU_bytes (ir_parameter (e_evt s1)) (e_du s1) = DU_bytes par (e_du s) \<and>
    ir_remESROSap (e_evt s1) = rem \<and> ir_remTsap (e_evt s1) = ts \<and> ir_remNsap (e_evt s1) = ns \<and>
    ir_opValue (e_evt s1) = opv \<and> ir_encodingType (e_evt s1) = enc \<and> ir_userInvokeRef (e_evt s1) = userRef \<and>
    e_refs s1 = e_refs s \<and> e_cfg s1 = e_cfg s \<and> sent (e_env s1) = sent (e_env s) \<and>
    e_timerQ s1 = e_timerQ s \<and> e_sch s1 = e_sch s \<and> (\<forall>j. j \<noteq> m \<longrightarrow> e_invoke s1 j = e_invoke s j)"
proof -
  let ?sap = "result (erop_getSapInfo sel) s"
  obtain p B V fb v w fv where wf: "du_wf p B V fb (v # w # fv) (e_du s)" "par \<in> V - set (v # w # fv)"
    using g by (auto simp: can_req_def)
  have f: "\<not> e_aborted s" "memFail (e_env s) = (\<lambda>_. False)" "e_next s \<noteq> NULL" "?sap \<noteq> NULL"
    "functionalUnit (e_sap s ?sap) = ESRO_3Way" "DU_size par (e_du s) \<le> invokePduSize (e_cfg s)"
    "0 \<le> DU_size par (e_du s)" "sendFail (e_env s) = (\<lambda>_. False)" "osClock (e_env s) \<noteq> None"
    using g by (simp_all add: can_req_def working_def)
  have nz: "par \<noteq> NULL" "v \<noteq> NULL" "v \<noteq> par"
    using wf by (auto simp: du_wf_def)
  define d where "d = snd (DU_link par (e_du s))"
  have link: "fst (DU_link par (e_du s)) = v" "DU_bytes v d = DU_bytes par (e_du s)"
    using DU_link_bytes [OF wf] by (simp_all add: d_def)
  have wf': "du_wf p B V fb (w # fv) d"
    unfolding d_def by (rule DU_link_wf [OF wf])
  have v: "v \<in> V - set (w # fv)"
    using wf by (auto simp: du_wf_def)
  have size: "DU_size v d = DU_size par (e_du s)"
    unfolding d_def using nz by (simp add: DU_link_state [OF wf refl] DU_size_def)
  have sap: "exec (erop_getSapInfo sel) s = s"
    by (simp add: erop_getSapInfo_def est_run)
  have sap': "?sap = (case find (\<lambda>p. sapSel (e_sap s p) = sel) (e_sapSeq s) of Some p \<Rightarrow> p | None \<Rightarrow> NULL)"
    by (simp add: erop_getSapInfo_def est_run)
  define i where "i = (let j = junk (e_env s) m in j\<lparr>locSap := ?sap,
      remNsapAddr := (remNsapAddr j)\<lparr>sel_len := 0\<rparr>, remTsapSel := (remTsapSel j)\<lparr>sel_len := 0\<rparr>, tmrQu := [],
      invokePduSeq := [], resultPduSeq := [], transDiag := Some CLInvokerTransDiag,
      curState := Some lsfsm_sCLInvokerStart, performingNotInvoking := False\<rparr>)"
  define s1 where "s1 = s\<lparr>e_env := (e_env s)\<lparr>memCount := memCount (e_env s) + 1\<rparr>, e_next := e_next s + 1,
      e_live := insert m (e_live s),
      e_sap := (e_sap s)(?sap := (e_sap s ?sap)\<lparr>invokeSeq := invokeSeq (e_sap s ?sap) @ [m]\<rparr>),
      e_du := d, e_evt := (e_evt s)\<lparr>ir_userInvokeRef := userRef, ir_remESROSap := rem, ir_remTsap := ts,
        ir_remNsap := ns, ir_opValue := opv, ir_encodingType := enc, ir_parameter := v\<rparr>,
      e_invoke := (e_invoke s)(m := i)\<rparr>"
  have "exec (EROP_invokeReq userRef sel rem ts ns opv enc par) s = exec (runMachine m lsfsm_EvtInvokeReq) s1 \<and>
    result (EROP_invokeReq userRef sel rem ts ns opv enc par) s = (SUCCESS, Some m)"
  proof -
    have "curState (e_invoke s1 m) = Some lsfsm_sCLInvokerStart" "m \<noteq> NULL"
      using f by (simp_all add: s1_def i_def Let_def m_def)
    then have run: "result (runMachine m lsfsm_EvtInvokeReq) s1 = SUCCESS"
      by (rule runMachine_effect(1) [rotated])
    show ?thesis
      using f nz link run
      by (simp add: EROP_invokeReq_def est_run sap erop_invokeInfoCreate_effect Let_def du_link_def
          s1_def i_def d_def m_def)
  qed
  moreover have "can_send m v s1"
    using f size wf' v by (simp add: can_send_def working_def s1_def i_def Let_def m_def) blast
  ultimately show ?thesis
    using f size link by (intro exI [of _ s1]) (simp add: s1_def i_def Let_def)
qed

lemma invokeReq_sent:
  fixes userRef :: nat and rem :: u8 and ts :: T_SapSel and ns :: N_SapAddr and opv enc :: int
  assumes g: "good_req sel par s"
  defines "s' \<equiv> exec (EROP_invokeReq userRef sel rem ts ns opv enc par) s"
  shows "result (EROP_invokeReq userRef sel rem ts ns opv enc par) s = (SUCCESS, Some (e_next s))"
    and "\<exists>r. 0 \<le> r \<and> r < totalRefNumbers (e_refs s) \<and>
      req_sent userRef ts ns (invokePci rem r opv enc @ DU_bytes par (e_du s)) s s'"
proof -
  let ?m = "e_next s"
  have c: "can_req sel par s"
    using g by (simp add: good_req_def)
  obtain s1 where s1: "exec (EROP_invokeReq userRef sel rem ts ns opv enc par) s = exec (runMachine ?m lsfsm_EvtInvokeReq) s1"
    "curState (e_invoke s1 ?m) = Some lsfsm_sCLInvokerStart" "\<not> performingNotInvoking (e_invoke s1 ?m)"
    "can_send ?m (ir_parameter (e_evt s1)) s1"
    "DU_size (ir_parameter (e_evt s1)) (e_du s1) \<le> invokePduSize (e_cfg s1)"
    "DU_bytes (ir_parameter (e_evt s1)) (e_du s1) = DU_bytes par (e_du s)"
    "ir_remESROSap (e_evt s1) = rem" "ir_remTsap (e_evt s1) = ts" "ir_remNsap (e_evt s1) = ns"
    "ir_opValue (e_evt s1) = opv" "ir_encodingType (e_evt s1) = enc" "ir_userInvokeRef (e_evt s1) = userRef"
    "e_refs s1 = e_refs s" "e_cfg s1 = e_cfg s" "sent (e_env s1) = sent (e_env s)"
    "e_timerQ s1 = e_timerQ s" "e_sch s1 = e_sch s"
    using invokeReq_runs [OF c, of userRef rem ts ns opv enc] by blast
  show "result (EROP_invokeReq userRef sel rem ts ns opv enc par) s = (SUCCESS, Some ?m)"
    using invokeReq_runs [OF c, of userRef rem ts ns opv enc] by blast
  obtain r0 where r0: "refs_wf (e_refs s1)" "0 \<le> r0" "r0 < totalRefNumbers (e_refs s1)"
    "refToInvokerMap (e_refs s1) r0 = []"
    using g s1(13) by (auto simp: good_req_def)
  define r where "r = fst (newRefNu ?m s1)"
  note run = runMachine_request [OF s1(2-5) r0, folded r_def s1(1)]
  obtain x y where inv: "e_invoke s' ?m = (reqInvoke (e_evt s1) (e_cfg s1) (e_invoke s1 ?m))\<lparr>invokeRefNu := r,
      invokePduSeq := x, tmrQu := y, curState := Some lsfsm_sInvokePduSent\<rparr>"
    using run(4) unfolding s'_def by blast
  have fields: "remTsapSel (e_invoke s' ?m) = ts" "remNsapAddr (e_invoke s' ?m) = ns"
    "userInvokeRef (e_invoke s' ?m) = userRef" "nuOfRetrans (e_invoke s' ?m) = to_short (retransmitCount (e_cfg s))"
    using s1 by (simp_all add: inv reqInvoke_def)
  have "req_sent userRef ts ns (invokePci rem r opv enc @ DU_bytes par (e_du s)) s s'"
    unfolding req_sent_def using run(2,3,5,6) s1 fields by (auto simp: s'_def)
  then show "\<exists>r. 0 \<le> r \<and> r < totalRefNumbers (e_refs s) \<and>
      req_sent userRef ts ns (invokePci rem r opv enc @ DU_bytes par (e_du s)) s s'"
    using run(1) s1(13) by auto
qed

text \<open>
  The whole life of a request that is not answered: the PDU is sent once by the request and then as
  often as configured, the failure is indicated and the invocation is released.
\<close>

lemma invokeReq_unanswered:
  fixes userRef :: nat and rem :: u8 and ts :: T_SapSel and ns :: N_SapAddr and opv enc :: int
  assumes g: "good_req sel par s" and q: "e_timerQ s = []" and room: "availSchInfo (e_sch s) > 1"
    and n: "to_short (retransmitCount (e_cfg s)) = int n"
  defines "s' \<equiv> (fireFirst ^^ (n + 3)) (exec (EROP_invokeReq userRef sel rem ts ns opv enc par) s)"
  shows "\<exists>r. 0 \<le> r \<and> r < totalRefNumbers (e_refs s) \<and>
      sent (e_env s') = sent (e_env s) @
        replicate (Suc n) (ts, ns, invokePci rem r opv enc @ DU_bytes par (e_du s), True) \<and>
      e_timerQ s' = [] \<and> curState (e_invoke s' (e_next s)) = Some lsfsm_sCLInvokerStart \<and>
      sch_active (e_sch s') = sch_active (e_sch s) @
        [\<lparr>si_task = erop_scheduledFailureIndT (e_next s) userRef ESRO_FailureUserNotResponding,
           si_event = SCH_PSEUDO_EVENT\<rparr>,
         \<lparr>si_task = erop_relInvokeT (e_next s), si_event = SCH_PSEUDO_EVENT\<rparr>]"
proof -
  define s0 where "s0 = exec (EROP_invokeReq userRef sel rem ts ns opv enc par) s"
  obtain r where r: "0 \<le> r" "r < totalRefNumbers (e_refs s)"
    "req_sent userRef ts ns (invokePci rem r opv enc @ DU_bytes par (e_du s)) s s0"
    using invokeReq_sent(2) [OF g, where userRef = userRef and rem = rem and ts = ts and ns = ns and opv = opv and enc = enc] by (auto simp: s0_def)
  then obtain v t where snd: "sending (e_next s) v (invokePci rem r opv enc @ DU_bytes par (e_du s)) s0"
    and t: "timerOf (e_next s) erop_invokePduRetranTimer 0 t" "e_timerQ s0 = [t]"
    using q by (auto simp: req_sent_def)
  have n0: "nuOfRetrans (e_invoke s0 (e_next s)) = int n" and room0: "availSchInfo (e_sch s0) > 1"
    using r(3) n room by (simp_all add: req_sent_def)
  note life = retransmission [OF snd t(2,1) n0 room0, folded s0_def]
  show ?thesis
    using life r by (intro exI [of _ r]) (simp add: s'_def s0_def [symmetric] req_sent_def)
qed

text \<open>
  When every reference number is in use for the peer, the request is accepted all the same: the
  machine is moved on, nothing is sent and no timer runs that could end it.
\<close>

lemma clInvoker01_no_ref:
  assumes "\<not> e_aborted s" "m \<noteq> NULL" "\<not> performingNotInvoking (e_invoke s m)"
    "DU_size (ir_parameter (e_evt s)) (e_du s) \<le> invokePduSize (e_cfg s)" "fst (newRefNu m s) = - 1"
  shows "exec (tr_clInvoker01 m ev) s =
    s\<lparr>e_refs := snd (newRefNu m s), e_invoke := (e_invoke s)(m :=
      (reqInvoke (e_evt s) (e_cfg s) (e_invoke s m))\<lparr>invokeRefNu := - 1\<rparr>)\<rparr>"
  using assms
  by (simp add: tr_clInvoker01_def est_run erop_tmrSetValues_def erop_refNew_def newRefNu_def reqInvoke_def)

lemma runMachine_no_ref:
  assumes st: "curState (e_invoke s m) = Some lsfsm_sCLInvokerStart" "\<not> performingNotInvoking (e_invoke s m)"
    and w: "\<not> e_aborted s" "m \<noteq> NULL"
    and sz: "DU_size (ir_parameter (e_evt s)) (e_du s) \<le> invokePduSize (e_cfg s)"
    and ref: "fst (newRefNu m s) = - 1"
  defines "s' \<equiv> exec (runMachine m lsfsm_EvtInvokeReq) s"
  shows "curState (e_invoke s' m) = Some lsfsm_sInvokePduSent" "e_timerQ s' = e_timerQ s" "e_env s' = e_env s"
    "e_sch s' = e_sch s"
proof -
  have "s' = exec (setCurState m (Some lsfsm_sInvokePduSent)) (exec (tr_clInvoker01 m lsfsm_EvtInvokeReq) s)"
    unfolding s'_def runMachine_effect(2) [OF w(2) st(1)] by (simp add: next_st_def act_defs)
  then show "curState (e_invoke s' m) = Some lsfsm_sInvokePduSent" "e_timerQ s' = e_timerQ s" "e_env s' = e_env s"
    "e_sch s' = e_sch s"
    using w by (simp_all add: clInvoker01_no_ref [OF w st(2) sz ref] setCurState_def est_run)
qed

definition refs_exhausted :: "N_SapAddr \<Rightarrow> est \<Rightarrow> bool" where
  "refs_exhausted ns s \<longleftrightarrow> (\<forall>r. 0 \<le> r \<and> r < totalRefNumbers (e_refs s) \<longrightarrow>
     (\<exists>j\<in>set (refToInvokerMap (e_refs s) r). j < e_next s \<and> N_sapAddrCmp (remNsapAddr (e_invoke s j)) ns = 0))"

lemma invokeReq_no_ref:
  fixes userRef :: nat and rem :: u8 and ts :: T_SapSel and ns :: N_SapAddr and opv enc :: int
  assumes c: "can_req sel par s" and wf: "refs_wf (e_refs s)" and ex: "refs_exhausted ns s"
  defines "s' \<equiv> exec (EROP_invokeReq userRef sel rem ts ns opv enc par) s"
  shows "result (EROP_invokeReq userRef sel rem ts ns opv enc par) s = (SUCCESS, Some (e_next s))"
    and "curState (e_invoke s' (e_next s)) = Some lsfsm_sInvokePduSent"
    and "sent (e_env s') = sent (e_env s)" "e_timerQ s' = e_timerQ s" "e_sch s' = e_sch s"
proof -
  let ?m = "e_next s"
  obtain s1 where s1: "exec (EROP_invokeReq userRef sel rem ts ns opv enc par) s = exec (runMachine ?m lsfsm_EvtInvokeReq) s1"
    "curState (e_invoke s1 ?m) = Some lsfsm_sCLInvokerStart" "\<not> performingNotInvoking (e_invoke s1 ?m)"
    "can_send ?m (ir_parameter (e_evt s1)) s1"
    "DU_size (ir_parameter (e_evt s1)) (e_du s1) \<le> invokePduSize (e_cfg s1)"
    "ir_remNsap (e_evt s1) = ns" "e_refs s1 = e_refs s" "sent (e_env s1) = sent (e_env s)"
    "e_timerQ s1 = e_timerQ s" "e_sch s1 = e_sch s" "\<And>j. j \<noteq> ?m \<Longrightarrow> e_invoke s1 j = e_invoke s j"
    using invokeReq_runs [OF c, of userRef rem ts ns opv enc] by blast
  show "result (EROP_invokeReq userRef sel rem ts ns opv enc par) s = (SUCCESS, Some ?m)"
    using invokeReq_runs [OF c, of userRef rem ts ns opv enc] by blast
  have al: "\<not> e_aborted s1" "?m \<noteq> NULL"
    using s1(4) by (simp_all add: can_send_def working_def)
  define adr where "adr = (\<lambda>j. remNsapAddr
    (((e_invoke s1)(?m := reqInvoke (e_evt s1) (e_cfg s1) (e_invoke s1 ?m))) j))"
  have adr: "adr ?m = ns" "\<And>j. j < ?m \<Longrightarrow> adr j = remNsapAddr (e_invoke s j)"
    using s1(6,11) by (auto simp: adr_def reqInvoke_def)
  have "\<not> refUnused adr ?m (e_refs s) r" if "0 \<le> r" "r < totalRefNumbers (e_refs s)" for r
  proof -
    obtain j where "j \<in> set (refToInvokerMap (e_refs s) r)" "N_sapAddrCmp (adr j) (adr ?m) = 0"
      using ex adr \<open>0 \<le> r\<close> \<open>r < totalRefNumbers (e_refs s)\<close> by (auto simp: refs_exhausted_def)
    then show ?thesis
      by (auto simp: refUnused_def refSearch_def find_None_iff)
  qed
  then have "fst (refNew adr ?m (e_refs s)) = - 1"
    using refNew_none_iff [OF wf] by blast
  moreover have "newRefNu ?m s1 = refNew adr ?m (e_refs s)"
    unfolding newRefNu_def adr_def s1(7) ..
  ultimately have no: "fst (newRefNu ?m s1) = - 1"
    by simp
  show "curState (e_invoke s' ?m) = Some lsfsm_sInvokePduSent" "sent (e_env s') = sent (e_env s)"
    "e_timerQ s' = e_timerQ s" "e_sch s' = e_sch s"
    using runMachine_no_ref [OF s1(2,3) al s1(5) no] s1 by (simp_all add: s'_def)
qed

end
