(* ===== verification/Demo.thy ===== *)
theory Demo
  imports Erop_Request
begin

text \<open>
  Concrete states of the engine on which the theorems are applied: a pool of two buffers and four
  views, one view of four octets in use; the engine just initialised; the engine with a service
  access point bound; and one that performs an operation.
\<close>

section \<open>The states\<close>

definition demo_addr :: sap_sel where
  "demo_addr = \<lparr>sel_len = 4, sel_addr = [192, 168, 0, 9] @ replicate 16 0\<rparr>"

definition demo_inv :: invokeInfo where
  "demo_inv = \<lparr>transDiag = None, curState = None, performingNotInvoking = False, locSap = NULL,
     userInvokeRef = 0, remEsroSapSel = 0, remTsapSel = demo_addr, remNsapAddr = demo_addr,
     operationValue = 0, encodingType = 0, errorValue = 0, failureReason = 0, invokeRefNu = 0,
     retransTimeout = 0, refKeepTime = 0, rwait = 0, inactivityDelay = 0, perfNoResponse = 0,
     invokePduSeq = [], resultPduSeq = [], nuOfRetrans = 0, isResultNotError = False, tmrQu = []\<rparr>"

text \<open>The pool 1: the buffer 10 is in use by the view 20, the buffer 11 and the views 21 to 23 are free.\<close>

definition demo_du :: du_state where
  "demo_du = \<lparr>
     bufs = (\<lambda>b. if b = 10 then \<lparr>b_un = 1, b_end = 1024, b_refcnt = 1, b_mem = (\<lambda>a. word_of_int a)\<rparr>
       else \<lparr>b_un = NULL, b_end = 0, b_refcnt = 0, b_mem = (\<lambda>_. 0)\<rparr>),
     views = (\<lambda>v. \<lparr>v_next = (if v = 21 then 22 else if v = 22 then 23 else if v = 20 then 20 else NULL),
       v_prev = v, v_bufInfo = (if v = 20 then 10 else NULL), v_addr = 1020\<rparr>),
     pools = (\<lambda>_. \<lparr>p_bufFreeList = 11, p_size = 1024, p_count = 1\<rparr>),
     viewFreeList = 21, du_virgin = False\<rparr>"

definition demo_env :: env where
  "demo_env = \<lparr>memFail = (\<lambda>_. False), memCount = 0, sendFail = (\<lambda>_. False), sendCount = 0,
     osClock = Some 100, junk = (\<lambda>_. demo_inv), inbox = [], sent = [], upcalls = [], lopsFreed = []\<rparr>"

definition demo_cfg :: cfg where
  "demo_cfg = \<lparr>udpSapSel = 2002, nuOfSaps = 10, nuOfInvokes = 10, invokePduSize = 1000,
     tv_acknowledgment = 3000, tv_roundtrip = 1000, tv_retransmit = 4000, tv_maxNSDULifeTime = 15000,
     retransmitCount = 3, noUpshell = False, dropResultConfirm = False\<rparr>"

definition demo_refs :: erop_refs where
  "demo_refs = \<lparr>totalRefNumbers = 256, refBase = 0, newRef = 17, refToInvokerMap = (\<lambda>_. []),
     refToPerformerMap = (\<lambda>_. []), ref_virgin = False\<rparr>"

definition demo_init :: est where
  "demo_init = \<lparr>e_du = demo_du, e_pool = 1,
     e_sch = \<lparr>availSchInfo = 30, sch_active = [\<lparr>si_task = udp_receiveT, si_event = 5\<rparr>], sch_runq = [],
       sch_virgin = False\<rparr>,
     e_timerQ = [], e_invoke = (\<lambda>_. demo_inv), e_live = {},
     e_sap = (\<lambda>_. \<lparr>sapSel = 0, functionalUnit = 0, invokeSeq = []\<rparr>), e_sapSeq = [], e_refs = demo_refs,
     e_evt = \<lparr>ir_userInvokeRef = 0, ir_remESROSap = 0, ir_remTsap = demo_addr, ir_remNsap = demo_addr,
       ir_opValue = 0, ir_encodingType = 0, ir_parameter = NULL, rr_isResultNotError = False,
       rr_userInvokeRef = 0, rr_encodingType = 0, rr_parameter = NULL, er_errorValue = 0,
       er_parameter = NULL, ti_name = 0, ti_datum = 0\<rparr>,
     e_pdu = \<lparr>pd_data = NULL, pd_pdutype = 0, pd_badpdu = False, pd_operationValue = 0,
       pd_invokeRefNu = 0, pd_encodingType = 0, pd_fromESROSap = 0, pd_toESROSap = 0,
       pd_fromTsapSel = demo_addr, pd_fromNsapAddr = demo_addr, pd_errorValue = 0, pd_failureValue = 0\<rparr>,
     e_next = 100, e_nm = (\<lambda>_. 0), e_cfg = demo_cfg, e_env = demo_env, e_sock = 5, e_aborted = False\<rparr>"

text \<open>The access point with selector 7, at address 100, for the 3-way handshake.\<close>

definition demo :: est where
  "demo = demo_init\<lparr>e_env := demo_env\<lparr>memCount := 1\<rparr>, e_next := 101, e_sapSeq := [100],
     e_sap := (e_sap demo_init)(100 := \<lparr>sapSel = 7, functionalUnit = ESRO_3Way, invokeSeq = []\<rparr>)\<rparr>"


section \<open>What holds of them\<close>

lemmas demo_defs = demo_def demo_init_def demo_refs_def demo_cfg_def demo_env_def

lemma demo_du_wf: "du_wf 1 {10, 11} {20, 21, 22, 23} [11] [21, 22, 23] demo_du"
  by (auto simp: du_wf_def demo_du_def refs_def)

lemma demo_init_ok: "engine_init demo_init"
  by (simp add: engine_init_def demo_defs demo_inv_def refs_wf_def)

lemma demo_bound: "exec (EROP_sapBind 7 3) demo_init = demo"
  by (simp add: EROP_sapBind_def est_run SEQ_elemObtain_effect demo_defs erop_getSapInfo_def Let_def)

lemma demo_reachable: "reachable demo"
  using reachable.step [OF reachable.init [OF demo_init_ok] estep.sapBind, of 7 3] by (simp add: demo_bound)

lemma demo_size: "DU_size 20 demo_du = 4" "DU_bytes 20 demo_du = [252, 253, 254, 255]"
  by (simp_all add: DU_size_def DU_bytes_def DU_data_def DU_get_def demo_du_def upt_rec)

lemma demo_working: "working demo"
  by (simp add: working_def demo_defs)

lemma demo_sap: "result (erop_getSapInfo 7) demo = 100"
  by (simp add: erop_getSapInfo_def est_run demo_defs)

lemma demo_fields:
  "e_du demo = demo_du" "e_pool demo = 1" "e_cfg demo = demo_cfg" "e_refs demo = demo_refs"
  "e_next demo = 101" "e_timerQ demo = []" "e_invoke demo = (\<lambda>_. demo_inv)" "e_aborted demo = False"
  "e_sap demo 100 = \<lparr>sapSel = 7, functionalUnit = ESRO_3Way, invokeSeq = []\<rparr>" "e_sapSeq demo = [100]"
  "availSchInfo (e_sch demo) = 30" "sent (e_env demo) = []" "upcalls (e_env demo) = []"
  "osClock (e_env demo) = Some 100"
  by (simp_all add: demo_defs)

lemma demo_view: "\<exists>p B V fb v w fv. du_wf p B V fb (v # w # fv) demo_du \<and> 20 \<in> V - set (v # w # fv)"
  by (rule exI, rule exI, rule exI, rule exI, rule exI, rule exI, rule exI, rule conjI,
      rule demo_du_wf) simp

lemma demo_good: "good_req 7 20 demo"
  unfolding good_req_def can_req_def demo_sap demo_fields
  using demo_working demo_size(1) demo_view by (simp add: demo_refs_def demo_cfg_def refs_wf_def) (auto intro: exI [of _ 0])


section \<open>A state with a performer\<close>

text \<open>
  The invocation 50 has received its \<^verbatim>\<open>INVOKE\<close> PDU with the reference number 9, and its timer
  is due; the view 20 holds the same PDU again.
\<close>

definition demo_perf_inv :: invokeInfo where
  "demo_perf_inv = demo_inv\<lparr>transDiag := Some CLPerformerTransDiag,
     curState := Some lsfsm_sInvokePduReceived, performingNotInvoking := True, locSap := 100,
     invokeRefNu := 9, retransTimeout := 5000, refKeepTime := 42000, rwait := 14000,
     inactivityDelay := 4000, perfNoResponse := 50000, nuOfRetrans := 3, tmrQu := [(60, 7)]\<rparr>"

definition demo_perf :: est where
  "demo_perf = demo\<lparr>e_invoke := (e_invoke demo)(50 := demo_perf_inv), e_live := {50},
     e_sap := (e_sap demo)(100 := \<lparr>sapSel = 7, functionalUnit = ESRO_3Way, invokeSeq = [50]\<rparr>),
     e_timerQ := [\<lparr>tm_desc = 60, expiryTime = 90000,
       tm_data = \<lparr>td_invoke = 50, td_name = erop_perfNoResponseTimer, td_data = 0\<rparr>\<rparr>],
     e_du := demo_du\<lparr>
       bufs := (bufs demo_du)(10 := (bufs demo_du 10)\<lparr>b_mem := (\<lambda>_. 1)(1019 := 0x70, 1020 := 9, 1021 := 0x85)\<rparr>),
       views := (views demo_du)(20 := (views demo_du 20)\<lparr>v_addr := 1019\<rparr>)\<rparr>\<rparr>"

lemma demo_perf_pdu: "holds_pdu 20 (invokePci 7 9 5 2) [1, 1] demo_perf"
proof -
  have "invokePci 7 9 5 2 = [0x70, 9, 0x85]"
    by (simp add: invokePci_def to_byte_def)
  moreover have "DU_bytes 20 (e_du demo_perf) = [0x70, 9, 0x85, 1, 1]"
    by (simp add: demo_perf_def demo_du_def DU_bytes_def DU_size_def DU_data_def DU_get_def upt_rec)
  ultimately show ?thesis
    by (simp add: holds_pdu_def demo_perf_def demo_fields)
qed

lemma demo_perf_fields:
  "e_invoke demo_perf 50 = demo_perf_inv" "e_sap demo_perf 100 = \<lparr>sapSel = 7, functionalUnit = 3, invokeSeq = [50]\<rparr>"
  "result (erop_getSapInfo 7) demo_perf = 100" "e_aborted demo_perf = False" "e_env demo_perf = e_env demo"
  "e_sch demo_perf = e_sch demo" "e_live demo_perf = {50}" "e_cfg demo_perf = demo_cfg"
  "e_timerQ demo_perf = [\<lparr>tm_desc = 60, expiryTime = 90000,
     tm_data = \<lparr>td_invoke = 50, td_name = erop_perfNoResponseTimer, td_data = 0\<rparr>\<rparr>]"
  by (simp_all add: demo_perf_def demo_fields erop_getSapInfo_def est_run)

lemma demo_perf_timers: "timers_inv 100 {50} demo_perf"
  by (simp add: timers_inv_def demo_perf_fields demo_fields demo_perf_inv_def demo_inv_def cfg_intervals_def
      intervals_def delay_ok_def demo_cfg_def timer_ok_def tmrEvent_def to_short_small)

end
