(* ===== verification/Erop_Edge.thy ===== *)
theory Erop_Edge
  imports Demo
begin

text \<open>
  The ends of the engine: a process that has died, an access point that is unbound while it has
  invocations, a receive that fails, and what reaches the user with an error.
\<close>

section \<open>A dead process\<close>

text \<open>Nothing happens any more but that the environment changes.\<close>

lemma estep_dead:
  assumes "estep s s'" "e_aborted s"
  shows "s' = s \<or> (\<exists>f g c i. s' = s\<lparr>e_env := (e_env s)\<lparr>memFail := f, sendFail := g, osClock := c, inbox := i\<rparr>\<rparr>)"
  using assms
proof (induction rule: estep.induct)
  case (task s x xs)
  then show ?case by (simp add: tasks.run_one_dead)
next
  case (timer s t ts)
  then show ?case by (simp add: upd_timerQ_def frozenD [OF frozen.keep_timer(2)])
qed (auto simp: frozenD [OF frozen.keep_requests(1)] frozenD [OF frozen.keep_requests(2)]
    frozenD [OF frozen.keep_requests(3)] frozenD [OF frozen.keep_saps(1)] frozenD [OF frozen.keep_saps(2)]
    upd_sch_def)


section \<open>Unbinding\<close>

lemma erop_invokeInfoFree_live:
  assumes "\<not> e_aborted s" "m \<noteq> NULL"
  shows "e_live (exec (erop_invokeInfoFree m) s) = e_live s - {m}"
    "e_timerQ (exec (erop_invokeInfoFree m) s) = e_timerQ s" "\<not> e_aborted (exec (erop_invokeInfoFree m) s)"
    "e_sapSeq (exec (erop_invokeInfoFree m) s) = e_sapSeq s"
  using assms
  by (auto simp: erop_invokeInfoFree_def freeFirstPdu_def est_run du_free_def split: list.split)

text \<open>Of the invocations of an access point only the first one is released when it is unbound.\<close>

lemma sapUnbind_releases_first:
  assumes al: "\<not> e_aborted s" and sap: "result (erop_getSapInfo sel) s = sap" "sap \<noteq> NULL"
    and q: "invokeSeq (e_sap s sap) = m # rest" "m \<noteq> NULL"
  shows "result (EROP_sapUnbind sel) s = SUCCESS"
    and "e_live (exec (EROP_sapUnbind sel) s) = e_live s - {m}"
    and "e_sapSeq (exec (EROP_sapUnbind sel) s) = removeAll sap (e_sapSeq s)"
proof -
  have get: "exec (erop_getSapInfo sel) s = s"
    by (simp add: erop_getSapInfo_def est_run)
  show "result (EROP_sapUnbind sel) s = SUCCESS"
    "e_live (exec (EROP_sapUnbind sel) s) = e_live s - {m}"
    "e_sapSeq (exec (EROP_sapUnbind sel) s) = removeAll sap (e_sapSeq s)"
    using assms
    by (simp_all add: EROP_sapUnbind_def est_run get erop_tmrCancel_effect erop_refFree_def
        erop_invokeInfoFree_live)
qed


section \<open>Receiving\<close>

text \<open>The buffer of a receive, which a datagram may fill.\<close>

lemma udp_receive_fails:
  assumes al: "\<not> e_aborted s" and buf: "fst (DU_alloc (e_pool s) MAXBFSZ (e_du s)) \<noteq> NULL"
    and inb: "\<forall>x xs. inbox (e_env s) \<noteq> Some x # xs"
  shows "e_sch (exec udp_receive s) = e_sch s" "result udp_receive s = FAIL"
  using assms
  by (auto simp: udp_receive_def recvfrom_def est_run du_alloc_def du_free_def split: list.split option.split)

lemma udp_receive_no_buffer:
  assumes al: "\<not> e_aborted s" and buf: "fst (DU_alloc (e_pool s) MAXBFSZ (e_du s)) = NULL"
    and room: "availSchInfo (e_sch s) \<noteq> 0"
  shows "sch_active (e_sch (exec udp_receive s)) =
    sch_active (e_sch s) @ [\<lparr>si_task = udp_receiveT, si_event = e_sock s\<rparr>]"
  using assms by (simp add: udp_receive_def est_run du_alloc_def sch_submit_effect)


section \<open>The course of a machine\<close>

text \<open>The diagram a state belongs to, and how far along its course a state is.\<close>

fun diagOf :: "fsmst \<Rightarrow> diagram" where
  "diagOf lsfsm_sCLInvokerStart = CLInvokerTransDiag"
| "diagOf lsfsm_sInvokePduSent = CLInvokerTransDiag"
| "diagOf lsfsm_sAckPduSent = CLInvokerTransDiag"
| "diagOf lsfsm_sInvokerRefWait = CLInvokerTransDiag"
| "diagOf lsfsm_s2CLInvokerStart = D2CLInvokerTransDiag"
| "diagOf lsfsm_s2InvokePduSent = D2CLInvokerTransDiag"
| "diagOf lsfsm_s2InvokerRefWait = D2CLInvokerTransDiag"
| "diagOf lsfsm_sCLPerformerStart = CLPerformerTransDiag"
| "diagOf lsfsm_sInvokePduReceived = CLPerformerTransDiag"
| "diagOf lsfsm_sAckPduWait = CLPerformerTransDiag"
| "diagOf lsfsm_sPerformerRefWait = CLPerformerTransDiag"
| "diagOf lsfsm_s2CLPerformerStart = D2CLPerformerTransDiag"
| "diagOf lsfsm_s2InvokePduReceived = D2CLPerformerTransDiag"
| "diagOf lsfsm_s2ResultPduRetrans = D2CLPerformerTransDiag"
| "diagOf lsfsm_s2PerformerRefWait = D2CLPerformerTransDiag"

definition stage :: "fsmst \<Rightarrow> nat" where
  "stage q = (if q = d_state (diag (diagOf q)) then 0
     else if q \<in> {lsfsm_sInvokePduSent, lsfsm_s2InvokePduSent, lsfsm_sInvokePduReceived,
       lsfsm_s2InvokePduReceived} then 1
     else if q \<in> {lsfsm_sAckPduSent, lsfsm_sAckPduWait, lsfsm_s2ResultPduRetrans} then 2 else 3)"

text \<open>The events that end the course: the reference number timer, or a performer that gives up.\<close>

definition ends_course :: "fsmst \<Rightarrow> int \<Rightarrow> bool" where
  "ends_course q e \<longleftrightarrow> stage q = 3 \<and> e = lsfsm_EvtRefNuTimer \<or>
     (q = lsfsm_sInvokePduReceived \<or> q = lsfsm_s2InvokePduReceived) \<and>
       (e = FSM_EvtInternal \<or> e = lsfsm_EvtPerfNoResponseTimer)"

lemma next_st_course:
  "diagOf (next_st q e) = diagOf q"
  "next_st q e = q \<or> stage q < stage (next_st q e) \<or> stage (next_st q e) = 0 \<and> ends_course q e"
  by (cases q; auto simp: next_st_def act_defs stage_def ends_course_def)+

lemma runMachine_course:
  assumes m: "m \<noteq> NULL" "curState (e_invoke s m) = Some q" and al: "\<not> e_aborted (exec (runMachine m e) s)"
  shows "curState (e_invoke (exec (runMachine m e) s) m) = Some (next_st q e)"
    and "m' \<noteq> m \<Longrightarrow> curState (e_invoke (exec (runMachine m e) s) m') = curState (e_invoke s m')"
  using al by (auto simp: runMachine_effect(2) [OF m] setCurState_state act_state(1))


section \<open>Cancelling timers\<close>

lemma fold_TMR_stop:
  "distinct (map tm_desc q) \<Longrightarrow> fold TMR_stop ds q = filter (\<lambda>t. tm_desc t \<notin> set ds) q"
proof (induction ds arbitrary: q)
  case (Cons d ds)
  have "distinct (map tm_desc (TMR_stop d q))"
    using Cons.prems by (simp add: TMR_stop_distinct distinct_map_filter)
  then show ?case
    using Cons by (auto simp: TMR_stop_distinct intro!: filter_cong)
qed simp

text \<open>The timer queue of the machine names the timers that are queued for it, and only those.\<close>

definition tmrQu_ok :: "ptr \<Rightarrow> est \<Rightarrow> bool" where
  "tmrQu_ok m s \<longleftrightarrow> distinct (map tm_desc (e_timerQ s)) \<and>
     (\<forall>t\<in>set (e_timerQ s). td_invoke (tm_data t) = m \<longleftrightarrow>
        (tm_desc t, td_name (tm_data t)) \<in> set (tmrQu (e_invoke s m))) \<and>
     (\<forall>t\<in>set (e_timerQ s). tm_desc t \<in> fst ` set (tmrQu (e_invoke s m)) \<longrightarrow> td_invoke (tm_data t) = m) \<and>
     distinct (map fst (tmrQu (e_invoke s m)))"

lemma tmrCancel_named:
  assumes al: "\<not> e_aborted s" and ok: "tmrQu_ok m s" and name: "name \<noteq> erop_allTimer"
  shows "e_timerQ (exec (erop_tmrCancel m name) s) =
      filter (\<lambda>t. \<not> (td_invoke (tm_data t) = m \<and> td_name (tm_data t) = name)) (e_timerQ s)"
proof -
  let ?tq = "tmrQu (e_invoke s m)"
  have d: "distinct (map tm_desc (e_timerQ s))"
    using ok by (simp add: tmrQu_ok_def)
  have "tm_desc t \<in> fst ` {x \<in> set ?tq. snd x = name} \<longleftrightarrow>
      td_invoke (tm_data t) = m \<and> td_name (tm_data t) = name" if t: "t \<in> set (e_timerQ s)" for t
  proof
    assume "tm_desc t \<in> fst ` {x \<in> set ?tq. snd x = name}"
    then have x: "(tm_desc t, name) \<in> set ?tq"
      by auto
    then have m: "td_invoke (tm_data t) = m"
      using ok t by (force simp: tmrQu_ok_def)
    then have "(tm_desc t, td_name (tm_data t)) \<in> set ?tq"
      using ok t by (auto simp: tmrQu_ok_def)
    then have "td_name (tm_data t) = name"
      using x ok by (auto simp: tmrQu_ok_def dest: eq_key_imp_eq_value)
    with m show "td_invoke (tm_data t) = m \<and> td_name (tm_data t) = name" ..
  next
    assume "td_invoke (tm_data t) = m \<and> td_name (tm_data t) = name"
    then have "(tm_desc t, name) \<in> set ?tq"
      using ok t by (auto simp: tmrQu_ok_def)
    then show "tm_desc t \<in> fst ` {x \<in> set ?tq. snd x = name}"
      by force
  qed
  then show ?thesis
    using name unfolding erop_tmrCancel_effect [OF al]
    by (simp add: fold_TMR_stop [OF d] tmrSel_def cong: filter_cong)
qed

lemma tmrCancel_all:
  assumes al: "\<not> e_aborted s" and ok: "tmrQu_ok m s"
  shows "e_timerQ (exec (erop_tmrCancel m erop_allTimer) s) =
      filter (\<lambda>t. td_invoke (tm_data t) \<noteq> m) (e_timerQ s)"
    and "tmrQu (e_invoke (exec (erop_tmrCancel m erop_allTimer) s) m) = []"
proof -
  have d: "distinct (map tm_desc (e_timerQ s))"
    using ok by (simp add: tmrQu_ok_def)
  have "tm_desc t \<in> fst ` set (tmrQu (e_invoke s m)) \<longleftrightarrow> td_invoke (tm_data t) = m"
    if t: "t \<in> set (e_timerQ s)" for t
  proof
    assume "td_invoke (tm_data t) = m"
    then have "(tm_desc t, td_name (tm_data t)) \<in> set (tmrQu (e_invoke s m))"
      using ok t by (simp add: tmrQu_ok_def)
    then show "tm_desc t \<in> fst ` set (tmrQu (e_invoke s m))"
      by (rule rev_image_eqI) simp
  qed (use ok t in \<open>simp add: tmrQu_ok_def\<close>)
  then show "e_timerQ (exec (erop_tmrCancel m erop_allTimer) s) =
      filter (\<lambda>t. td_invoke (tm_data t) \<noteq> m) (e_timerQ s)"
    unfolding erop_tmrCancel_effect [OF al]
    by (simp add: fold_TMR_stop [OF d] tmrSel_def cong: filter_cong)
  show "tmrQu (e_invoke (exec (erop_tmrCancel m erop_allTimer) s) m) = []"
    unfolding erop_tmrCancel_effect [OF al] by (simp add: tmrSel_def)
qed

end
