(* ===== verification/Lib_Properties.thy ===== *)
theory Lib_Properties
  imports Erop_Edge
begin

text \<open>
  The properties of the modules below the engine: data units, reference numbers, queues, timers,
  the scheduler, addresses and the configuration.
\<close>

section \<open>Data units\<close>

text \<open>
  C36. \<^verbatim>\<open>DU_alloc\<close> on a well formed pool fails exactly when the size is more than a buffer or
  a free buffer or view is missing, and then changes nothing; otherwise it delivers the first free
  view, of the size asked for, on a buffer that no other view shares, and the pool without them.
\<close>

theorem DU_alloc_correct:
  assumes "du_wf p B V fb fv s"
  shows "(fst (DU_alloc p n s) = NULL \<longleftrightarrow> p_size (pools s p) < n \<or> fb = [] \<or> fv = []) \<and>
    (fst (DU_alloc p n s) = NULL \<longrightarrow> snd (DU_alloc p n s) = s) \<and>
    (fst (DU_alloc p n s) \<noteq> NULL \<longrightarrow>
      fst (DU_alloc p n s) = hd fv \<and> du_wf p B V (tl fb) (tl fv) (snd (DU_alloc p n s)) \<and>
      DU_size (hd fv) (snd (DU_alloc p n s)) = n \<and>
      refs V (tl fv) (snd (DU_alloc p n s)) (hd fb) = {hd fv})"
proof (cases "p_size (pools s p) < n \<or> fb = [] \<or> fv = []")
  case True
  then have "DU_alloc p n s = (NULL, s)"
    using DU_alloc_too_big DU_alloc_exhausted [OF assms] by blast
  then show ?thesis using True by simp
next
  case False
  then obtain b fb' v fv' where eq: "fb = b # fb'" "fv = v # fv'" and n: "n \<le> p_size (pools s p)"
    by (metis list.exhaust not_less)
  have wf: "du_wf p B V (b # fb') (v # fv') s"
    using assms eq by simp
  then have "v \<noteq> NULL"
    by (auto simp: du_wf_def)
  then show ?thesis
    using DU_alloc_state [OF wf n] DU_alloc_wf [OF wf n] refs_alloc [OF wf, of n b] n
    by (simp add: eq DU_size_def)
qed

theorem DU_alloc_correct_witness:
  "fst (DU_alloc 1 100 demo_du) = 21 \<and> DU_size 21 (snd (DU_alloc 1 100 demo_du)) = 100"
proof -
  have "p_size (pools demo_du 1) = 1024"
    by (simp add: demo_du_def)
  then show ?thesis
    using DU_alloc_correct [OF demo_du_wf, of 100] by (auto split: if_splits)
qed

text \<open>
  A second view made by \<^verbatim>\<open>DU_link\<close> delivers the same octets; freeing it restores the pool,
  with the same free buffers and views in the same order, and leaves the octets of the first view.
  This is how a PDU is retransmitted without being copied.
\<close>

theorem DU_link_free_neutral:
  assumes "du_wf p B V fb (w # fv) d" and "v \<in> V - set (w # fv)"
  shows "fst (DU_link v d) = w \<and> DU_bytes w (snd (DU_link v d)) = DU_bytes v d \<and>
    du_wf p B V fb fv (snd (DU_link v d)) \<and>
    du_wf p B V fb (w # fv) (DU_free w (snd (DU_link v d))) \<and>
    DU_bytes v (DU_free w (snd (DU_link v d))) = DU_bytes v d"
  using DU_link_bytes [OF assms] DU_link_free [OF assms] DU_link_wf [OF assms] by blast

theorem DU_link_free_neutral_witness:
  "DU_bytes 21 (snd (DU_link 20 demo_du)) = [252, 253, 254, 255]"
  using DU_link_free_neutral [OF demo_du_wf, of 20] demo_size by simp

text \<open>
  Freeing a view a second time does nothing if it was the last on its buffer; but if the
  buffer is shared, the view becomes its own successor in the list of free views, from which it is
  then given out for ever.
\<close>

theorem DU_free_twice:
  assumes "du_wf p B V fb fv s" and "v \<in> V - set fv"
  shows "(freed s v \<longrightarrow> DU_free v (DU_free v s) = DU_free v s) \<and>
    (\<not> freed s v \<longrightarrow> viewFreeList (DU_free v (DU_free v s)) = v \<and>
      v_next (views (DU_free v (DU_free v s)) v) = v)"
  using DU_free_free [OF assms] DU_free_free_shared [OF assms] by blast

theorem DU_free_twice_witness: "DU_free 20 (DU_free 20 demo_du) = DU_free 20 demo_du"
  using DU_free_twice [OF demo_du_wf, of 20] by (simp add: freed_def demo_du_def)


section \<open>Reference numbers\<close>



text \<open>
  In a table whose queues hold one entry per address, an entry for an unused address keeps it
  so, and looking up the number and the address finds the invocation just entered; what a lookup
  finds is always an entry with that address; and what was released is not found any more.
\<close>

theorem refs_lookup:
  assumes "invoker.unique adr t" and "refNu_ok t r" and "sel_len (adr i) \<noteq> 0" and "refUnused adr i t r"
    and "i \<noteq> NULL"
  shows "invoker.unique adr (enterInvoker r i t) \<and> refToInvoker adr (enterInvoker r i t) r (adr i) = i \<and>
    (refToInvoker adr t r a \<noteq> NULL \<longrightarrow> refToInvoker adr t r a \<in> set (refToInvokerMap t r) \<and>
      N_sapAddrCmp (adr (refToInvoker adr t r a)) a = 0) \<and>
    refToInvoker adr (refFree i t) r a \<noteq> i"
  using assms invoker.unique_enter invoker.lookup_enter invoker.lookup_sound [OF assms(2)]
    invoker.lookup_release [OF assms(2)]
  by (auto simp: refUnused_def)

theorem refs_lookup_witness:
  "refToInvoker (\<lambda>_. demo_addr) (enterInvoker 9 50 demo_refs) 9 demo_addr = 50"
  using refs_lookup [of "\<lambda>_. demo_addr" demo_refs 9 50]
  by (simp add: invoker.unique_def demo_refs_def refNu_ok_def refValid_def demo_addr_def refUnused_def refSearch_def)


section \<open>Queues and addresses\<close>

text \<open>
  C38. \<^verbatim>\<open>QU_INSERT\<close> splices two disjoint rings into one, the second before the first element of
  the first; removing an element leaves a ring of the others in their order and the element alone;
  so elements inserted at the head of a queue and taken from its front come out in their order.
\<close>

theorem queue_rings:
  assumes "ring h (a # xs)" "ring h (b # ys)" "set (a # xs) \<inter> set (b # ys) = {}"
  shows "ring (QU_insert a b h) (b # ys @ a # xs) \<and>
    (xs \<noteq> [] \<longrightarrow> ring (QU_remove a h) xs \<and> alone (QU_remove a h) a) \<and>
    (distinct (q # ps) \<and> (\<forall>p\<in>set ps. alone (QU_init q h) p) \<longrightarrow>
      qu.drain (length ps) q (fold (\<lambda>p. QU_insert p q) ps (QU_init q h)) = ps)"
  using QU_insert_splice [OF assms] QU_remove_ring [OF assms(1)] qu.fifo [of q ps h] by blast

theorem queue_rings_witness:
  "ring (QU_insert 1 2 \<lparr>pNext = id, pPrev = id\<rparr>) [2, 1]"
  using queue_rings [of "\<lparr>pNext = id, pPrev = id\<rparr>" 1 "[]" 2 "[]"]
  by (simp add: ring_def linked_def)

text \<open>
  Two network addresses of the buffer's size compare as equal exactly when they have the same
  length and the same octets up to it, whatever follows; and the comparison is symmetric and
  transitive on all addresses, so that it says which peers are the same.
\<close>

theorem addresses_equal:
  assumes "addr_wf NSAPSZ a" "addr_wf NSAPSZ b"
  shows "(N_sapAddrCmp a b = 0 \<longleftrightarrow>
      sel_len a = sel_len b \<and> take (nat (sel_len a)) (sel_addr a) = take (nat (sel_len a)) (sel_addr b)) \<and>
    (N_sapAddrCmp c d = 0 \<longrightarrow> N_sapAddrCmp d c = 0 \<and> (N_sapAddrCmp d e = 0 \<longrightarrow> N_sapAddrCmp c e = 0))"
  using N_sapAddrCmp_eq [OF assms] nsap.cmp_sym nsap.cmp_trans by blast

theorem addresses_equal_witness:
  "N_sapAddrCmp demo_addr \<lparr>sel_len = 4, sel_addr = [192, 168, 0, 9] @ replicate 16 7\<rparr> = 0"
  using addresses_equal [of demo_addr "\<lparr>sel_len = 4, sel_addr = [192, 168, 0, 9] @ replicate 16 7\<rparr>"]
  by (simp add: addr_wf_def demo_addr_def)


section \<open>Timers and tasks\<close>

text \<open>
  A timer is queued behind all that expire no later and before all that expire later, so that
  the queue stays ordered and equal times are served in the order of their start; stopping it takes
  it out again and restores the queue.
\<close>

theorem timer_order:
  assumes "tmr_sorted q" and "mem \<noteq> NULL" and "mem \<notin> tm_desc ` set q"
  shows "let t = \<lparr>tm_desc = mem, expiryTime = now * 1000 + ms, tm_data = h\<rparr>;
      q' = filter (\<lambda>x. expiryTime x \<le> expiryTime t) q @ t # filter (\<lambda>x. expiryTime x > expiryTime t) q
    in TMR_start (Some now) mem ms h q = Some (mem, q') \<and> tmr_sorted q' \<and> TMR_stop mem q' = q"
proof -
  define t where "t = \<lparr>tm_desc = mem, expiryTime = now * 1000 + ms, tm_data = h\<rparr>"
  have stop: "TMR_stop mem (xs @ t # ys) = xs @ ys" if "mem \<notin> tm_desc ` set xs" for xs ys
    using that by (induction xs) (auto simp: t_def)
  have "TMR_stop mem (tmr_insert t q) = q"
    unfolding tmr_insert_eq using assms(3) by (subst stop) (auto dest: set_takeWhileD)
  then show ?thesis
    using assms(2) tmr_insert_filter [OF assms(1), of t] tmr_insert_sorted [OF assms(1), of t]
    by (simp add: TMR_start_def tmr_currentTime_def t_def Let_def)
qed

theorem timer_order_witness:
  "TMR_start (Some 2) 9 500 () [\<lparr>tm_desc = 1, expiryTime = 2500, tm_data = ()\<rparr>,
      \<lparr>tm_desc = 2, expiryTime = 2600, tm_data = ()\<rparr>] =
    Some (9, [\<lparr>tm_desc = 1, expiryTime = 2500, tm_data = ()\<rparr>,
      \<lparr>tm_desc = 9, expiryTime = 2500, tm_data = ()\<rparr>, \<lparr>tm_desc = 2, expiryTime = 2600, tm_data = ()\<rparr>])"
  using timer_order [of "[\<lparr>tm_desc = 1, expiryTime = 2500, tm_data = ()\<rparr>,
      \<lparr>tm_desc = 2, expiryTime = 2600, tm_data = ()\<rparr>]" 9 2 500 "()"]
  by (simp add: tmr_sorted_def Let_def)


text \<open>
  C40. A round of \<^verbatim>\<open>SCH_run\<close> runs the tasks of the run queue, each once and in order, and empties
  the queue, when there are at most 201 of them; with more, it runs the first 201, and the next one
  is taken from the queue without being run and without its block becoming free again.
\<close>

theorem scheduler_round:
  "(length (sch_runq (e_sch s)) \<le> 201 \<longrightarrow>
      exec engine_SCH_run s = fold tasks.run_one (sch_runq (e_sch s)) s \<and>
      (e_aborted (exec engine_SCH_run s) \<or> sch_runq (e_sch (exec engine_SCH_run s)) = [])) \<and>
   (201 < length (sch_runq (e_sch s)) \<longrightarrow>
      exec engine_SCH_run s = exec (upd_sch (\<lambda>q. q\<lparr>sch_runq := tl (sch_runq q)\<rparr>))
        (fold tasks.run_one (take 201 (sch_runq (e_sch s))) s))"
  using tasks.run_all [of s] tasks.run_empties [of s] tasks.exec_run_from_overrun [of 201 s]
  unfolding engine_SCH_run_def SCH_run_def by blast

theorem scheduler_round_witness:
  "let s = demo\<lparr>e_sch := (e_sch demo)\<lparr>sch_runq := [\<lparr>si_task = erop_scheduledResultCnfT 50 42, si_event = - 1\<rparr>]\<rparr>\<rparr>
   in upcalls (e_env (exec engine_SCH_run s)) = [UresultCnf 50 42]"
  using scheduler_round [of "demo\<lparr>e_sch := (e_sch demo)\<lparr>sch_runq := [\<lparr>si_task = erop_scheduledResultCnfT 50 42, si_event = - 1\<rparr>]\<rparr>\<rparr>"]
  by (simp add: Let_def tasks.run_one_def est_run scheduled_defs demo_fields)

text \<open>
  While an internal task waits, \<^verbatim>\<open>SCH_block\<close> does not look at the sockets: it makes the
  internal tasks ready, in their order, and leaves the others waiting. No call of it loses a task
  or a block.
\<close>

theorem internal_tasks_first:
  "((\<exists>x\<in>set (sch_active s). internTask x) \<longrightarrow>
      SCH_block sel s = (0, s\<lparr>sch_active := filter (\<lambda>x. \<not> internTask x) (sch_active s),
        sch_runq := sch_runq s @ filter internTask (sch_active s)\<rparr>)) \<and>
    sch_total (snd (SCH_block sel s)) = sch_total s"
  using SCH_block_internal_first SCH_block_total by blast

theorem internal_tasks_first_witness:
  "snd (SCH_block SelError \<lparr>availSchInfo = 3, sch_active = [\<lparr>si_task = (), si_event = 5\<rparr>, \<lparr>si_task = (), si_event = - 1\<rparr>],
     sch_runq = [], sch_virgin = False\<rparr>) =
   \<lparr>availSchInfo = 3, sch_active = [\<lparr>si_task = (), si_event = 5\<rparr>],
     sch_runq = [\<lparr>si_task = (), si_event = - 1\<rparr>], sch_virgin = False\<rparr>"
  using internal_tasks_first [of "\<lparr>availSchInfo = 3, sch_active = [\<lparr>si_task = (), si_event = 5\<rparr>, \<lparr>si_task = (), si_event = - 1\<rparr>],
     sch_runq = [], sch_virgin = False\<rparr>" SelError]
  by (simp add: internTask_def)


section \<open>Configuration\<close>

text \<open>
  What \<^verbatim>\<open>ESRO_setConf\<close> stores, \<^verbatim>\<open>ESRO_getConf\<close> reads, and no other parameter
  changes. For the parameters that are in range but not handled (the number of references, and the
  one after the last) both report success, nothing is stored, and the caller's variable is left
  as it is.
\<close>

theorem configuration:
  "(p \<in> confParams \<longrightarrow> ESRO_getConf p (snd (ESRO_setConf p v c)) = (0, Some v)) \<and>
   (q \<noteq> p \<longrightarrow> ESRO_getConf q (snd (ESRO_setConf p v c)) = ESRO_getConf q c) \<and>
   (p = ESRO_MaxReference \<or> p = LAST_PARAM \<longrightarrow>
      ESRO_setConf p v c = (0, c) \<and> ESRO_getConf p c = (0, None))"
  using ESRO_getConf_set [of p v c] ESRO_getConf_other [of q p v c]
  by (auto simp: ESRO_setConf_def ESRO_getConf_def)

theorem configuration_witness: "ESRO_getConf 9 (snd (ESRO_setConf 9 4 demo_cfg)) = (0, Some 4)"
  using configuration [of 9 4 demo_cfg] by (simp add: confParams_def)

end
