(* ===== verification/Strfunc.thy ===== *)
theory Strfunc
  imports Prelude
begin

text \<open>
  Strings with a length, \<^verbatim>\<open>base.ocp/str/hosted/strfunc.c\<close>, which the buffers of theory Buf and
  the encoder of theory Asn are built on; the memory these libraries share; and the return codes
  with the macro \<^verbatim>\<open>RC_CALL\<close>. A string has a reference count, a maximum length, a length and a
  data area. The lemmas give the octets of a string after each operation, and when an operation
  stays within the area.
\<close>

section \<open>Return codes\<close>

text \<open>
  A function that returns a \<^verbatim>\<open>ReturnCode\<close> and has an output delivers \<^term>\<open>Inl e\<close> for a code
  other than \<^verbatim>\<open>Success\<close>, and \<^term>\<open>Inr x\<close> for \<^verbatim>\<open>Success\<close> with the output \<open>x\<close>.
  \<open>Undefined\<close> is no code of the sources: it marks a path on which C gives no meaning to the program.
\<close>

datatype rc =
    Fail | ResourceError | ProgrammerError | STR_RC_MaxLengthExceeded | BUF_RC_BufferExhausted
  | ASN_RC_WrongTag | ASN_RC_InvalidSize | ASN_RC_FormatErrorInPDU | ASN_RC_InvalidEncodingRules
  | ASN_RC_IllegalData | UnsupportedOption | UA_RC_UnrecognizedProtocolVersion | UA_RC_MaxRetries
  | UA_RC_SecurityViolation | SBM_RC_NotInitialized | SBM_RC_TransactionInProcess
  | SBM_RC_NoTransactionInProcess | NVM_RC_NotInitialized | NVM_RC_CreateFailed | NVM_RC_OpenFailed
  | NVM_RC_ReadError | OS_RC_NoSuchFile | Undefined

type_synonym ('s, 'a) rc_op = "('s, rc + 'a) state"

definition ok :: "'a \<Rightarrow> ('s, 'a) rc_op" where
  "ok x = return (Inr x)"

definition FAIL_RC :: "rc \<Rightarrow> ('s, 'a) rc_op" where
  "FAIL_RC e = return (Inl e)"

definition RC_CALL :: "('s, 'a) rc_op \<Rightarrow> ('a \<Rightarrow> ('s, 'b) rc_op) \<Rightarrow> ('s, 'b) rc_op" where
  "RC_CALL m f = do {
     r \<leftarrow> m;
     case r of Inl e \<Rightarrow> return (Inl e) | Inr x \<Rightarrow> f x
   }"

lemma run_rc [simp]:
  "run_state (ok x) h = (Inr x, h)" "run_state (FAIL_RC e) h = (Inl e, h)"
  by (simp_all add: ok_def FAIL_RC_def)

lemma run_RC_CALL:
  "run_state (RC_CALL m f) h = (case run_state m h of
     (Inl e, h') \<Rightarrow> (Inl e, h') | (Inr x, h') \<Rightarrow> run_state (f x) h')"
  by (auto simp: RC_CALL_def split: prod.split sum.split)

lemma run_RC_CALL_ok [simp]:
  "run_state m h = (Inr x, h') \<Longrightarrow> run_state (RC_CALL m f) h = run_state (f x) h'"
  by (simp add: run_RC_CALL)

lemma run_RC_CALL_fail [simp]:
  "run_state m h = (Inl e, h') \<Longrightarrow> run_state (RC_CALL m f) h = (Inl e, h')"
  by (simp add: run_RC_CALL)

lemma run_RC_CALL_Inr:
  "run_state (RC_CALL m f) h = (Inr y, h2) \<longleftrightarrow>
     (\<exists>x h1. run_state m h = (Inr x, h1) \<and> run_state (f x) h1 = (Inr y, h2))"
  by (auto simp: run_RC_CALL split: prod.splits sum.splits)


section \<open>Characters\<close>

text \<open>What the libraries of C do with characters and strings, as octets without the terminator.\<close>

definition tolower :: "u8 \<Rightarrow> u8" where
  "tolower c = (if 65 \<le> c \<and> c \<le> 90 then c + 32 else c)"

definition OS_strcasecmp_eq :: "u8 list \<Rightarrow> u8 list \<Rightarrow> bool" where
  "OS_strcasecmp_eq xs ys \<longleftrightarrow> map tolower xs = map tolower ys"


section \<open>Memory\<close>

text \<open>
  A block of \<^verbatim>\<open>OS_alloc\<close> is named by its address; an address is not used twice. A data area
  belongs to a block, and is a map from offsets to octets with the size that was allocated for
  it: accesses beyond the size are what the code does not check. A pointer into an area is the
  block with an offset. \<open>o_fail\<close> says which calls of \<^verbatim>\<open>OS_alloc\<close> fail.

  The fields \<open>c_\<dots>\<close> are the memory of the C structures that the encoder reads and writes, one map
  for each type of member, by address.
\<close>

datatype str_status = Str_Status_LocallyAllocated | Str_Status_AttachedDynamic
  | Str_Status_AttachedStatic

record str =
  s_refCount :: nat
  s_status :: str_status
  s_maxLen :: nat
  s_len :: nat
  s_p :: ptr

record seg =
  g_string :: ptr
  g_start :: int
  g_end :: int

record bufhead =
  b_segs :: "ptr list"
  b_cur :: ptr
  b_x :: int

record omem =
  o_fail :: "nat \<Rightarrow> bool"
  o_count :: nat
  o_next :: ptr
  o_live :: "ptr set"
  a_cells :: "ptr \<Rightarrow> int \<Rightarrow> u8"
  a_size :: "ptr \<Rightarrow> nat"
  strs :: "ptr \<Rightarrow> str"
  segs :: "ptr \<Rightarrow> seg"
  heads :: "ptr \<Rightarrow> bufhead"
  c_int :: "nat \<Rightarrow> u32"
  c_bool :: "nat \<Rightarrow> bool"
  c_byte :: "nat \<Rightarrow> u8"
  c_str :: "nat \<Rightarrow> ptr"
  c_buf :: "nat \<Rightarrow> ptr"

definition OS_alloc :: "nat \<Rightarrow> (omem, ptr) state" where
  "OS_alloc n = do {
     bad \<leftarrow> gets (\<lambda>h. o_fail h (o_count h));
     modify (\<lambda>h. h\<lparr>o_count := o_count h + 1\<rparr>);
     if bad then return NULL
     else do {
       p \<leftarrow> gets o_next;
       modify (\<lambda>h. h\<lparr>o_next := p + 1, o_live := insert p (o_live h), a_size := (a_size h)(p := n)\<rparr>);
       return p
     }
   }"

definition OS_free :: "ptr \<Rightarrow> (omem, unit) state" where
  "OS_free p = modify (\<lambda>h. h\<lparr>o_live := o_live h - {p}\<rparr>)"

definition octets_at :: "ptr \<Rightarrow> int \<Rightarrow> int \<Rightarrow> omem \<Rightarrow> u8 list" where
  "octets_at a i j h = map (\<lambda>k. a_cells h a (i + int k)) [0..<nat (j - i)]"

definition put_octets :: "ptr \<Rightarrow> int \<Rightarrow> u8 list \<Rightarrow> omem \<Rightarrow> omem" where
  "put_octets a i xs h = h\<lparr>a_cells := (a_cells h)(a := \<lambda>k.
     if i \<le> k \<and> k < i + int (length xs) then xs ! nat (k - i) else a_cells h a k)\<rparr>"

definition OS_copy :: "ptr \<Rightarrow> int \<Rightarrow> ptr \<Rightarrow> int \<Rightarrow> nat \<Rightarrow> (omem, unit) state" where
  "OS_copy dst i src j n = modify (\<lambda>h. put_octets dst i (octets_at src j (j + int n) h) h)"

text \<open>The arguments of type \<^verbatim>\<open>OS_Uint16\<close> are converted when they are passed.\<close>

definition u16 :: "nat \<Rightarrow> nat" where
  "u16 n = n mod 65536"

abbreviation (input) STR_ZSTRING :: nat where "STR_ZSTRING \<equiv> 65535"

definition upd_str :: "ptr \<Rightarrow> (str \<Rightarrow> str) \<Rightarrow> (omem, unit) state" where
  "upd_str s f = modify (\<lambda>h. h\<lparr>strs := (strs h)(s := f (strs h s))\<rparr>)"


section \<open>Operations\<close>

definition STR_alloc :: "nat \<Rightarrow> (omem, ptr) rc_op" where
  "STR_alloc len = do {
     p \<leftarrow> OS_alloc (u16 len);
     if p = NULL then FAIL_RC ResourceError
     else do {
       upd_str p (\<lambda>_. \<lparr>s_refCount = 1, s_status = Str_Status_LocallyAllocated, s_maxLen = u16 len,
         s_len = 0, s_p = p\<rparr>);
       ok p
     }
   }"

definition STR_attachString :: "nat \<Rightarrow> nat \<Rightarrow> ptr \<Rightarrow> bool \<Rightarrow> (omem, ptr) rc_op" where
  "STR_attachString maxLen len octets toBeFreed = do {
     p \<leftarrow> OS_alloc 0;
     if p = NULL then FAIL_RC ResourceError
     else do {
       upd_str p (\<lambda>_. \<lparr>s_refCount = 1,
         s_status = (if toBeFreed then Str_Status_AttachedDynamic else Str_Status_AttachedStatic),
         s_maxLen = u16 maxLen, s_len = u16 len, s_p = octets\<rparr>);
       ok p
     }
   }"

definition STR_attachZString :: "ptr \<Rightarrow> bool \<Rightarrow> (omem, ptr) rc_op" where
  "STR_attachZString zString toBeFreed = do {
     p \<leftarrow> OS_alloc 0;
     if p = NULL then FAIL_RC ResourceError
     else do {
       upd_str p (\<lambda>_. \<lparr>s_refCount = 1,
         s_status = (if toBeFreed then Str_Status_AttachedDynamic else Str_Status_AttachedStatic),
         s_maxLen = STR_ZSTRING, s_len = STR_ZSTRING, s_p = zString\<rparr>);
       ok p
     }
   }"

definition STR_addReference :: "ptr \<Rightarrow> (omem, unit) state" where
  "STR_addReference s = upd_str s (\<lambda>r. r\<lparr>s_refCount := u16 (s_refCount r + 1)\<rparr>)"

definition STR_free :: "ptr \<Rightarrow> (omem, unit) state" where
  "STR_free s = (if s = NULL then skip else do {
     upd_str s (\<lambda>r. r\<lparr>s_refCount := u16 (s_refCount r + 65535)\<rparr>);
     r \<leftarrow> gets (\<lambda>h. strs h s);
     if s_refCount r = 0 then do {
       (if s_status r = Str_Status_AttachedDynamic then OS_free (s_p r) else skip);
       OS_free s
     } else skip
   })"

definition STR_assignString :: "ptr \<Rightarrow> nat \<Rightarrow> ptr \<Rightarrow> int \<Rightarrow> (omem, unit) rc_op" where
  "STR_assignString s len src i = do {
     r \<leftarrow> gets (\<lambda>h. strs h s);
     if s_maxLen r \<noteq> STR_ZSTRING \<and> u16 len > s_maxLen r then FAIL_RC ResourceError
     else do {
       OS_copy (s_p r) 0 src i (u16 len);
       upd_str s (\<lambda>r. r\<lparr>s_len := u16 len\<rparr>);
       ok ()
     }
   }"

text \<open>The result is the new value of \<^verbatim>\<open>*phDest\<close>.\<close>

definition STR_replaceString :: "ptr \<Rightarrow> ptr \<Rightarrow> (omem, ptr) state" where
  "STR_replaceString dest src = do {
     STR_free dest;
     upd_str src (\<lambda>r. r\<lparr>s_refCount := u16 (s_refCount r + 1)\<rparr>);
     return src
   }"

text \<open>
  \<^verbatim>\<open>STR_appendString\<close>, for octets given as a list or by a pointer. The sum of two
  \<^verbatim>\<open>OS_Uint16\<close> is computed in \<^verbatim>\<open>int\<close>.
\<close>

definition appendOctets :: "ptr \<Rightarrow> u8 list \<Rightarrow> (omem, unit) rc_op" where
  "appendOctets s xs = do {
     r \<leftarrow> gets (\<lambda>h. strs h s);
     if s_maxLen r > 0 \<and> s_len r + length xs > s_maxLen r then FAIL_RC ResourceError
     else do {
       modify (put_octets (s_p r) (int (s_len r)) xs);
       upd_str s (\<lambda>r. r\<lparr>s_len := u16 (s_len r + length xs)\<rparr>);
       ok ()
     }
   }"

definition STR_appendString :: "ptr \<Rightarrow> nat \<Rightarrow> ptr \<Rightarrow> int \<Rightarrow> (omem, unit) rc_op" where
  "STR_appendString s len src i = do {
     xs \<leftarrow> gets (octets_at src i (i + int (u16 len)));
     appendOctets s xs
   }"

text \<open>
  \<^verbatim>\<open>strlen\<close> of the area from an offset; without a terminator within the area it reads on, and
  the model delivers the rest of the area.
\<close>

definition strlen :: "ptr \<Rightarrow> omem \<Rightarrow> nat" where
  "strlen a h = length (takeWhile (\<lambda>x. x \<noteq> 0) (octets_at a 0 (int (a_size h a)) h))"

text \<open>The result is the new value of \<^verbatim>\<open>*phString\<close>.\<close>

definition STR_assignZString :: "ptr \<Rightarrow> ptr \<Rightarrow> (omem, ptr) rc_op" where
  "STR_assignZString s zString = do {
     n \<leftarrow> gets (strlen zString);
     let len = u16 n;
     r \<leftarrow> (if s = NULL then STR_alloc (len + 1)
           else do {
             m \<leftarrow> gets (\<lambda>h. s_maxLen (strs h s));
             if m > 0 \<and> len > m then FAIL_RC ResourceError else ok s
           });
     case r of
       Inl e \<Rightarrow> FAIL_RC e
     | Inr t \<Rightarrow> do {
         p \<leftarrow> gets (\<lambda>h. s_p (strs h t));
         OS_copy p 0 zString 0 (n + 1);
         upd_str t (\<lambda>r. r\<lparr>s_len := STR_ZSTRING\<rparr>);
         ok t
       }
   }"

text \<open>The start of a string is the offset 0 of its area.\<close>

definition STR_stringStart :: "ptr \<Rightarrow> omem \<Rightarrow> ptr \<times> int" where
  "STR_stringStart s h = (s_p (strs h s), 0)"

definition STR_getStringLength :: "ptr \<Rightarrow> omem \<Rightarrow> nat" where
  "STR_getStringLength s h =
     (if s_len (strs h s) \<noteq> STR_ZSTRING then s_len (strs h s) else u16 (strlen (s_p (strs h s)) h))"

definition STR_stringEnd :: "ptr \<Rightarrow> omem \<Rightarrow> ptr \<times> int" where
  "STR_stringEnd s h =
     (s_p (strs h s), int (if s_len (strs h s) \<noteq> STR_ZSTRING then s_len (strs h s)
                           else strlen (s_p (strs h s)) h))"

definition STR_getMaxLength :: "ptr \<Rightarrow> omem \<Rightarrow> nat" where
  "STR_getMaxLength s h = s_maxLen (strs h s)"

definition STR_setStringLength :: "ptr \<Rightarrow> nat \<Rightarrow> (omem, unit) rc_op" where
  "STR_setStringLength s len = do {
     m \<leftarrow> gets (\<lambda>h. s_maxLen (strs h s));
     if u16 len > m then FAIL_RC STR_RC_MaxLengthExceeded
     else do { upd_str s (\<lambda>r. r\<lparr>s_len := u16 len\<rparr>); ok () }
   }"

text \<open>A bit string holds one bit per octet: \<^verbatim>\<open>FALSE\<close> is 0.\<close>

definition STR_bitStringGetBit :: "ptr \<Rightarrow> nat \<Rightarrow> omem \<Rightarrow> u8" where
  "STR_bitStringGetBit s i h =
     (if u16 i \<ge> s_len (strs h s) then 0 else a_cells h (s_p (strs h s)) (int (u16 i)))"

definition STR_bitStringSetBit :: "ptr \<Rightarrow> nat \<Rightarrow> u8 \<Rightarrow> (omem, unit) rc_op" where
  "STR_bitStringSetBit s i value = do {
     r \<leftarrow> gets (\<lambda>h. strs h s);
     let k = u16 i;
     if k < s_len r then do {
       modify (put_octets (s_p r) (int k) [value]);
       ok ()
     }
     else if k < s_maxLen r then do {
       modify (put_octets (s_p r) (int (s_len r)) (replicate (k + 1 - s_len r) 0));
       modify (put_octets (s_p r) (int k) [value]);
       upd_str s (\<lambda>r. r\<lparr>s_len := u16 (k + 1)\<rparr>);
       ok ()
     }
     else FAIL_RC STR_RC_MaxLengthExceeded
   }"


section \<open>Octets\<close>

text \<open>The octets of a string, and the reading of areas after writes.\<close>

definition str_octets :: "ptr \<Rightarrow> omem \<Rightarrow> u8 list" where
  "str_octets s h = octets_at (s_p (strs h s)) 0 (int (s_len (strs h s))) h"

lemma length_octets_at [simp]: "length (octets_at a i j h) = nat (j - i)"
  by (simp add: octets_at_def)

lemma octets_at_empty [simp]: "j \<le> i \<Longrightarrow> octets_at a i j h = []"
  by (simp add: octets_at_def)

lemma octets_at_nth: "k < nat (j - i) \<Longrightarrow> octets_at a i j h ! k = a_cells h a (i + int k)"
  by (simp add: octets_at_def)

lemma octets_at_cong:
  "(\<And>k. i \<le> k \<Longrightarrow> k < j \<Longrightarrow> a_cells h a k = a_cells h' a k) \<Longrightarrow> octets_at a i j h = octets_at a i j h'"
  by (auto simp: octets_at_def)

lemma octets_at_area:
  "a_cells h a = a_cells h' a \<Longrightarrow> octets_at a i j h = octets_at a i j h'"
  by (auto simp: octets_at_def)

lemma octets_at_split:
  assumes "i \<le> j" "j \<le> k"
  shows "octets_at a i k h = octets_at a i j h @ octets_at a j k h"
proof (rule nth_equalityI)
  show "length (octets_at a i k h) = length (octets_at a i j h @ octets_at a j k h)"
    using assms by simp
  fix n
  assume "n < length (octets_at a i k h)"
  then show "octets_at a i k h ! n = (octets_at a i j h @ octets_at a j k h) ! n"
    using assms by (auto simp: octets_at_nth nth_append algebra_simps)
qed

lemma octets_at_Cons:
  assumes "i < j"
  shows "octets_at a i j h = a_cells h a i # octets_at a (i + 1) j h"
proof -
  have "octets_at a i (i + 1) h = [a_cells h a i]"
    by (simp add: octets_at_def)
  then show ?thesis
    using octets_at_split [of i "i + 1" j a h] assms by simp
qed

lemma put_octets_same [simp]:
  assumes "n = int (length xs)"
  shows "octets_at a i (i + n) (put_octets a i xs h) = xs"
  by (rule nth_equalityI) (auto simp: octets_at_nth put_octets_def assms)

lemma put_octets_cells:
  "a_cells (put_octets a i xs h) c k =
     (if c = a \<and> i \<le> k \<and> k < i + int (length xs) then xs ! nat (k - i) else a_cells h c k)"
  by (simp add: put_octets_def)

lemma put_octets_other:
  "c \<noteq> a \<or> k \<le> i \<or> i + int (length xs) \<le> j \<Longrightarrow>
     octets_at c j k (put_octets a i xs h) = octets_at c j k h"
  by (rule octets_at_cong) (auto simp: put_octets_cells)

lemma put_octets_fields [simp]:
  "strs (put_octets a i xs h) = strs h" "segs (put_octets a i xs h) = segs h"
  "heads (put_octets a i xs h) = heads h" "o_next (put_octets a i xs h) = o_next h"
  "o_fail (put_octets a i xs h) = o_fail h" "a_size (put_octets a i xs h) = a_size h"
  "c_int (put_octets a i xs h) = c_int h" "c_bool (put_octets a i xs h) = c_bool h"
  "c_byte (put_octets a i xs h) = c_byte h" "c_str (put_octets a i xs h) = c_str h"
  "c_buf (put_octets a i xs h) = c_buf h" "o_count (put_octets a i xs h) = o_count h"
  "o_live (put_octets a i xs h) = o_live h"
  by (simp_all add: put_octets_def)

lemma u16_small [simp]: "n < 65536 \<Longrightarrow> u16 n = n"
  by (simp add: u16_def)

lemma u16_less [simp]: "u16 n < 65536"
  by (simp add: u16_def)

lemma run_OS_copy [simp]:
  "run_state (OS_copy dst i src j n) h = ((), put_octets dst i (octets_at src j (j + int n) h) h)"
  by (simp add: OS_copy_def)

lemma run_upd_str [simp]:
  "run_state (upd_str s f) h = ((), h\<lparr>strs := (strs h)(s := f (strs h s))\<rparr>)"
  by (simp add: upd_str_def)

lemma octets_at_upd [simp]:
  "octets_at a i j (h\<lparr>strs := x\<rparr>) = octets_at a i j h"
  "octets_at a i j (h\<lparr>segs := y\<rparr>) = octets_at a i j h"
  "octets_at a i j (h\<lparr>heads := z\<rparr>) = octets_at a i j h"
  by (simp_all add: octets_at_def)


section \<open>Memory that is there\<close>

text \<open>
  \<open>mem_ok\<close>: no allocation fails, and the addresses to come are fresh.
\<close>

definition mem_ok :: "omem \<Rightarrow> bool" where
  "mem_ok h \<longleftrightarrow> (\<forall>n. \<not> o_fail h n) \<and> 0 < o_next h"

lemma run_OS_alloc:
  "run_state (OS_alloc n) h =
     (if o_fail h (o_count h) then (NULL, h\<lparr>o_count := o_count h + 1\<rparr>)
      else (o_next h, h\<lparr>o_count := o_count h + 1, o_next := o_next h + 1,
              o_live := insert (o_next h) (o_live h), a_size := (a_size h)(o_next h := n)\<rparr>))"
  by (simp add: OS_alloc_def)

lemma run_STR_alloc:
  "mem_ok h \<Longrightarrow> run_state (STR_alloc n) h = (Inr (o_next h), h\<lparr>o_count := o_count h + 1,
     o_next := o_next h + 1, o_live := insert (o_next h) (o_live h),
     a_size := (a_size h)(o_next h := u16 n), strs := (strs h)(o_next h :=
       \<lparr>s_refCount = 1, s_status = Str_Status_LocallyAllocated, s_maxLen = u16 n, s_len = 0,
        s_p = o_next h\<rparr>)\<rparr>)"
  by (simp add: STR_alloc_def run_OS_alloc mem_ok_def)

lemma run_appendOctets:
  assumes "s_maxLen (strs h s) = 0 \<or> s_len (strs h s) + length xs \<le> s_maxLen (strs h s)"
  shows "run_state (appendOctets s xs) h =
    (Inr (), (put_octets (s_p (strs h s)) (int (s_len (strs h s))) xs h)
       \<lparr>strs := (strs h)(s := (strs h s)\<lparr>s_len := u16 (s_len (strs h s) + length xs)\<rparr>)\<rparr>)"
  using assms by (auto simp: appendOctets_def)

lemma run_STR_append:
  assumes "s_maxLen (strs h s) = 0 \<or> s_len (strs h s) + u16 n \<le> s_maxLen (strs h s)"
  shows "run_state (STR_appendString s n src i) h =
    (Inr (), (put_octets (s_p (strs h s)) (int (s_len (strs h s))) (octets_at src i (i + int (u16 n)) h) h)
       \<lparr>strs := (strs h)(s := (strs h s)\<lparr>s_len := u16 (s_len (strs h s) + u16 n)\<rparr>)\<rparr>)"
  using assms by (simp add: STR_appendString_def run_appendOctets)

text \<open>
  What \<^verbatim>\<open>STR_appendString\<close> does: with a maximum that is not zero it never leaves an area of that
  size, and appends; when the text does not fit it fails and changes nothing.
\<close>

lemma appendOctets_octets:
  assumes "s_maxLen (strs h s) = 0 \<or> s_len (strs h s) + length xs \<le> s_maxLen (strs h s)"
    and "s_len (strs h s) + length xs < 65536"
    and "run_state (appendOctets s xs) h = (r, h')"
  shows "r = Inr () \<and> str_octets s h' = str_octets s h @ xs \<and>
    s_len (strs h' s) = s_len (strs h s) + length xs"
proof -
  have n: "u16 (s_len (strs h s) + length xs) = s_len (strs h s) + length xs"
    using assms(2) by simp
  then show ?thesis
    using assms(3) octets_at_split [of 0 "int (s_len (strs h s))" "int (s_len (strs h s)) + int (length xs)"]
    by (auto simp: run_appendOctets assms(1) n str_octets_def put_octets_other)
qed

lemma STR_append_octets:
  assumes "s_maxLen (strs h s) > 0" and "s_maxLen (strs h s) < 65536"
    and "s_len (strs h s) + n \<le> s_maxLen (strs h s)"
    and "run_state (STR_appendString s n src i) h = (r, h')"
  shows "r = Inr () \<and> str_octets s h' = str_octets s h @ octets_at src i (i + int n) h \<and>
    s_len (strs h' s) = s_len (strs h s) + n"
  using appendOctets_octets [of h s "octets_at src i (i + int (u16 n)) h" r h'] assms
  by (simp add: STR_appendString_def)

lemma STR_append_too_long:
  assumes "s_maxLen (strs h s) > 0" and "s_maxLen (strs h s) < s_len (strs h s) + u16 n"
  shows "run_state (STR_appendString s n src i) h = (Inl ResourceError, h)"
  using assms by (simp add: STR_appendString_def appendOctets_def)

lemma STR_append_size:
  assumes "s_maxLen (strs h s) > 0" and "s_maxLen (strs h s) \<le> a_size h (s_p (strs h s))"
    and "a_cells (snd (run_state (STR_appendString s n src i) h)) c k \<noteq> a_cells h c k"
  shows "c = s_p (strs h s) \<and> 0 \<le> k \<and> k < int (a_size h c)"
proof (cases "s_len (strs h s) + u16 n \<le> s_maxLen (strs h s)")
  case True
  then show ?thesis
    using assms by (auto simp: run_STR_append put_octets_cells split: if_splits)
next
  case False
  then show ?thesis using assms by (simp add: STR_append_too_long)
qed

end
