(* ===== verification/Asn.thy ===== *)
theory Asn
  imports Buf
begin

unbundle bit_operations_syntax

text \<open>
  The encoder and decoder of ASN.1 values, \<^verbatim>\<open>net.ocp/asn/asn.c\<close> and \<^verbatim>\<open>asnber.c\<close> (the basic
  encoding rules). A table of entries says which members of a C structure make up a value, with
  their tags; \<^verbatim>\<open>asn_berFormat\<close> walks it and prepends the encoding to a buffer, from the last element
  to the first, and \<^verbatim>\<open>asn_berParse\<close> reads a buffer and stores the values in the structure.

  The memory of the structures is typed: a member of another type at the same address (in a union)
  is another cell. The trace messages and the recursion depth, which is only traced, are left out.
\<close>

section \<open>Tables\<close>

datatype asn_type = ASN_Type_None | ASN_Type_Integer | ASN_Type_BitString | ASN_Type_OctetString
  | ASN_Type_BcdString | ASN_Type_Sequence | ASN_Type_SequenceOf | ASN_Type_Choice | ASN_Type_Buffer

text \<open>
  \<^verbatim>\<open>existsOffset\<close> is \<^term>\<open>None\<close> for \<^verbatim>\<open>ASN_MANDATORY\<close>. The limits \<^verbatim>\<open>minimum\<close> and
  \<^verbatim>\<open>maximum\<close> are not used by the basic encoding rules.
\<close>

datatype asn_tab = TableEntry (t_type: asn_type) (t_tag: u8) (t_exists: "nat option") (t_data: nat)
  (t_maxLen: u32) (t_elemSize: nat) (tableList: "asn_tab list")

abbreviation (input) CONSTRUCTOR :: u8 where "CONSTRUCTOR \<equiv> 0x20"
abbreviation (input) ASN_EXPLICIT :: u8 where "ASN_EXPLICIT \<equiv> 0x20"

definition with_tag :: "u8 \<Rightarrow> asn_tab \<Rightarrow> asn_tab" where
  "with_tag tag t = TableEntry (t_type t) tag (t_exists t) (t_data t) (t_maxLen t) (t_elemSize t) (tableList t)"

lemma size_with_tag [simp]: "size (with_tag tag t) = size t"
  by (cases t) (simp add: with_tag_def)

lemma size_tableList [termination_simp]: "x \<in> set (tableList t) \<Longrightarrow> size x < size t"
  by (cases t) (auto dest!: size_list_estimation' [where f = size, OF _ order_refl])

lemma size_list_tableList [termination_simp]: "size_list size (tableList t) < size t"
  by (cases t) simp

text \<open>
  \<^verbatim>\<open>ASN_newTableEntry\<close> appends an entry to the list of another. \<open>pExists\<close> and \<open>pData\<close> are addresses,
  0 for NULL; the offsets are those from the base. \<open>elementSize\<close> is not set.
\<close>

definition ASN_newTableEntry ::
  "asn_type \<Rightarrow> u8 \<Rightarrow> asn_tab list \<Rightarrow> nat \<Rightarrow> nat \<Rightarrow> nat \<Rightarrow> nat \<Rightarrow> (omem, asn_tab list) rc_op" where
  "ASN_newTableEntry type itemTag q base pExists pData elemSize = do {
     p \<leftarrow> OS_alloc 0;
     if p = NULL then FAIL_RC ResourceError
     else ok (q @ [TableEntry type itemTag (if pExists = NULL then None else Some (pExists - base))
            (if pData = NULL then 0xffffffff else pData - base) 0xffffffff elemSize []])
   }"


section \<open>Lengths and numbers\<close>

lemma drop_bit_8_less: "v \<noteq> 0 \<Longrightarrow> unat (drop_bit 8 v :: u32) < unat v"
  by (simp add: drop_bit_eq_div unat_div word_gt_0_no unat_gt_0)

text \<open>The loop that adds the octets of a number, the lowest first, until nothing is left of it.\<close>

function addOctets :: "ptr \<Rightarrow> u32 \<Rightarrow> u8 \<Rightarrow> (omem, u8) rc_op" where
  "addOctets b v n =
     (if v = 0 then ok n
      else RC_CALL (BUF_addOctet b (ucast v)) (\<lambda>_. addOctets b (drop_bit 8 v) (n + 1)))"
  by auto

termination
  by (relation "measure (\<lambda>(_, v, _). unat v)") (simp_all add: drop_bit_8_less)

declare addOctets.simps [simp del]

definition formatLength :: "u32 \<Rightarrow> ptr \<Rightarrow> (omem, u8) rc_op" where
  "formatLength len b =
     (if len \<le> 127 then RC_CALL (BUF_addOctet b (ucast len)) (\<lambda>_. ok 1)
      else RC_CALL (addOctets b len 0) (\<lambda>n.
        RC_CALL (BUF_addOctet b (n OR 0x80)) (\<lambda>_. ok (n + 1))))"

text \<open>The loop that reads a number of \<open>n\<close> octets, the highest first.\<close>

primrec getValue :: "('s, u8) rc_op \<Rightarrow> nat \<Rightarrow> u32 \<Rightarrow> ('s, u32) rc_op" where
  "getValue get 0 v = ok v"
| "getValue get (Suc n) v = RC_CALL get (\<lambda>x. getValue get n (push_bit 8 v OR ucast x))"

text \<open>The length, and the number of octets it took. \<open>get\<close> is \<^verbatim>\<open>BUF_getOctet\<close> on the buffer.\<close>

definition parseLength :: "('s, u8) rc_op \<Rightarrow> ('s, u32 \<times> u32) rc_op" where
  "parseLength get = RC_CALL get (\<lambda>x.
     if x AND 0x80 \<noteq> 0 then
       (let lengthOfLength = x AND NOT 0x80 in
        RC_CALL (getValue get (unat lengthOfLength) 0) (\<lambda>dataLength.
          ok (dataLength, ucast lengthOfLength + 1)))
     else ok (ucast x, 1))"


section \<open>Decimal strings\<close>

text \<open>\<^verbatim>\<open>sprintf\<close> with \<^verbatim>\<open>%lu\<close>: the digits of a number as characters.\<close>

fun decimal :: "nat \<Rightarrow> u8 list" where
  "decimal n = (if n < 10 then [48 + of_nat n] else decimal (n div 10) @ [48 + of_nat (n mod 10)])"

fun packBcd :: "u8 list \<Rightarrow> u8 list" where
  "packBcd (a # c # xs) = ((push_bit 4 (a - 48) AND 0xF0) OR ((c - 48) AND 0x0F)) # packBcd xs"
| "packBcd _ = []"

text \<open>
  \<^verbatim>\<open>stringToBcd\<close>: two zeros in front, of which the first is dropped when there are digits, and the
  second when the number of digits is even.
\<close>

definition stringToBcd :: "u8 list \<Rightarrow> u8 list" where
  "stringToBcd str =
     (let tmp = [48, 48] @ filter (\<lambda>c. 48 \<le> c \<and> c \<le> 57) str;
          p1 = (if length tmp > 2 then tl tmp else tmp);
          p2 = (if odd (length p1) then tl p1 else p1)
      in packBcd p2)"

definition intToBcd :: "u32 \<Rightarrow> u8 list" where
  "intToBcd integer = stringToBcd (decimal (unat integer))"

text \<open>
  \<^verbatim>\<open>bcdToString\<close> reads up to a terminating \<^verbatim>\<open>0xFF\<close>. Its buffer holds 16 characters, and is taken to
  be long enough here. \<^verbatim>\<open>atol\<close> reads the digits in front; for a number beyond the 32 bits of a
  \<^verbatim>\<open>long\<close>, which the standard leaves undefined, it delivers the largest \<^verbatim>\<open>long\<close>, as libraries do.
\<close>

definition bcdToString :: "u8 list \<Rightarrow> u8 list" where
  "bcdToString bcd =
     (let str = concat (map (\<lambda>y. [(drop_bit 4 y AND 0x0F) + 48, (y AND 0x0F) + 48])
                  (takeWhile (\<lambda>y. y \<noteq> 0xFF) bcd));
          p = dropWhile (\<lambda>c. c = 48) str
      in if p = [] then [48] else p)"

definition atol :: "u8 list \<Rightarrow> nat" where
  "atol str = min 2147483647
     (foldl (\<lambda>n c. 10 * n + unat (c - 48)) 0 (takeWhile (\<lambda>c. 48 \<le> c \<and> c \<le> 57) str))"

definition bcdToInt :: "u8 list \<Rightarrow> u32" where
  "bcdToInt bcd = of_nat (atol (bcdToString bcd))"


section \<open>Formatting\<close>

text \<open>The bits of a bit string, collected into octets: the octet so far and the next place in it.\<close>

primrec fmtBits :: "nat \<Rightarrow> nat \<Rightarrow> u8 \<Rightarrow> nat \<Rightarrow> ptr \<Rightarrow> ptr \<Rightarrow> (omem, u8 \<times> nat) rc_op" where
  "fmtBits 0 j x i s b = ok (x, i)"
| "fmtBits (Suc numBits) j x i s b = do {
     v \<leftarrow> gets (STR_bitStringGetBit s j);
     let x = x OR push_bit (i - 1) (if v \<noteq> 0 then 1 else 0);
     if i - 1 = 0 then
       RC_CALL (BUF_addOctet b x) (\<lambda>_. fmtBits numBits (j + 1) 0 8 s b)
     else fmtBits numBits (j + 1) x (i - 1) s b
   }"

definition fmtBitString :: "ptr \<Rightarrow> ptr \<Rightarrow> (omem, u32) rc_op" where
  "fmtBitString string b = do {
     numBits \<leftarrow> gets (STR_getMaxLength string);
     if numBits = 0 then RC_CALL (BUF_addOctet b 0) (\<lambda>_. ok 1)
     else do {
       let len = (numBits - 1) div 8 + 1 + 1;
       let unusedBits = (8 - numBits mod 8) mod 8;
       RC_CALL (fmtBits numBits 0 0 8 string b) (\<lambda>(x, i).
         RC_CALL (if i \<noteq> 8 then BUF_addOctet b (push_bit (unusedBits - 1) x) else ok ()) (\<lambda>_.
           RC_CALL (BUF_addOctet b (of_nat unusedBits)) (\<lambda>_. ok (of_nat len))))
     }
   }"

primrec addAll :: "ptr \<Rightarrow> u8 list \<Rightarrow> (omem, unit) rc_op" where
  "addAll b [] = ok ()"
| "addAll b (x # xs) = RC_CALL (BUF_addOctet b x) (\<lambda>_. addAll b xs)"

text \<open>The members of a structure at an address.\<close>

definition exists_at :: "asn_tab \<Rightarrow> nat \<Rightarrow> omem \<Rightarrow> bool" where
  "exists_at t base h = (case t_exists t of None \<Rightarrow> True | Some e \<Rightarrow> c_bool h (base + e))"

text \<open>The length and the tag in front of the contents, unless there is no tag.\<close>

definition fmtTag :: "ptr \<Rightarrow> u32 \<times> u8 \<Rightarrow> (omem, u32) rc_op" where
  "fmtTag b = (\<lambda>(len, tag).
     if tag \<noteq> 0 then
       RC_CALL (formatLength len b) (\<lambda>lengthOfLength.
         RC_CALL (BUF_addOctet b tag) (\<lambda>_. ok (len + ucast lengthOfLength + 1)))
     else ok len)"

text \<open>
  \<^verbatim>\<open>asn_berFormat\<close>: the result is the length of what was added. A choice gives its own tag to the
  chosen entry, for the time of the call, unless the tag is explicit; when the call fails, the code
  leaves the entry with that tag, which is not followed here. An element that is not there, or a
  choice beyond the list, is a read of something that is no entry.
\<close>

function asn_berFormat :: "asn_tab \<Rightarrow> ptr \<Rightarrow> nat \<Rightarrow> (omem, u32) rc_op"
  and fmtContents :: "asn_tab \<Rightarrow> ptr \<Rightarrow> nat \<Rightarrow> (omem, u32 \<times> u8) rc_op"
  and fmtSeq :: "asn_tab list \<Rightarrow> ptr \<Rightarrow> nat \<Rightarrow> (omem, u32) rc_op"
  and fmtSeqOf :: "nat \<Rightarrow> asn_tab \<Rightarrow> nat \<Rightarrow> ptr \<Rightarrow> nat \<Rightarrow> (omem, u32) rc_op" where
  "asn_berFormat t b base = do {
     present \<leftarrow> gets (exists_at t base);
     if \<not> present then ok 0
     else RC_CALL (fmtContents t b base) (fmtTag b)
   }"
| "fmtContents t b base =
     (case t_type t of
        ASN_Type_Integer \<Rightarrow> do {
          integer \<leftarrow> gets (\<lambda>h. c_int h (base + t_data t));
          let len = (if integer > 0xffffff then 4 else if integer > 0xffff then 3
                     else if integer > 0xff then 2 else 1 :: u32);
          RC_CALL (BUF_addOctet b (ucast integer)) (\<lambda>_.
            RC_CALL (addOctets b (drop_bit 8 integer) 0) (\<lambda>_. ok (len, t_tag t)))
        }
      | ASN_Type_BitString \<Rightarrow> do {
          string \<leftarrow> gets (\<lambda>h. c_str h (base + t_data t));
          RC_CALL (fmtBitString string b) (\<lambda>len. ok (len, t_tag t))
        }
      | ASN_Type_BcdString \<Rightarrow> do {
          integer \<leftarrow> gets (\<lambda>h. c_int h (base + t_data t));
          let bcd = intToBcd integer;
          RC_CALL (addAll b (rev bcd)) (\<lambda>_. ok (of_nat (length bcd), t_tag t))
        }
      | ASN_Type_OctetString \<Rightarrow> do {
          string \<leftarrow> gets (\<lambda>h. c_str h (base + t_data t));
          len \<leftarrow> gets (STR_getStringLength string);
          RC_CALL (BUF_prependChunk b string) (\<lambda>_. ok (of_nat len, t_tag t))
        }
      | ASN_Type_Sequence \<Rightarrow>
          RC_CALL (fmtSeq (tableList t) b base) (\<lambda>len. ok (len, t_tag t OR CONSTRUCTOR))
      | ASN_Type_SequenceOf \<Rightarrow> do {
          count \<leftarrow> gets (\<lambda>h. unat (c_int h (base + t_data t)));
          (if tableList t = [] then FAIL_RC Undefined
           else RC_CALL (fmtSeqOf count (hd (tableList t)) (t_elemSize t) b base) (\<lambda>len.
             ok (len, if t_exists (hd (tableList t)) \<noteq> None \<and> count = 0 then 0
                      else t_tag t OR CONSTRUCTOR)))
        }
      | ASN_Type_Choice \<Rightarrow> do {
          i \<leftarrow> gets (\<lambda>h. unat (c_byte h (base + t_data t)));
          (if i \<ge> length (tableList t) then FAIL_RC Undefined
           else if t_tag t \<noteq> 0 \<and> t_tag t AND ASN_EXPLICIT = 0 then
             RC_CALL (asn_berFormat (with_tag (t_tag t) (tableList t ! i)) b base) (\<lambda>len. ok (len, 0))
           else RC_CALL (asn_berFormat (tableList t ! i) b base) (\<lambda>len. ok (len, t_tag t)))
        }
      | ASN_Type_Buffer \<Rightarrow> do {
          pre \<leftarrow> gets (\<lambda>h. c_buf h (base + t_data t));
          len \<leftarrow> gets (BUF_getBufferLength pre);
          RC_CALL (if len > 0 then BUF_prependBuffer b pre else ok ()) (\<lambda>_. ok (len, 0))
        }
      | ASN_Type_None \<Rightarrow> FAIL_RC ProgrammerError)"
| "fmtSeq [] b base = ok 0"
| "fmtSeq (t # ts) b base =
     RC_CALL (fmtSeq ts b base) (\<lambda>len. RC_CALL (asn_berFormat t b base) (\<lambda>n. ok (len + n)))"
| "fmtSeqOf 0 t elementSize b base = ok 0"
| "fmtSeqOf (Suc count) t elementSize b base =
     RC_CALL (asn_berFormat t b base) (\<lambda>n.
       RC_CALL (fmtSeqOf count t elementSize b (base + elementSize)) (\<lambda>len. ok (n + len)))"
  by pat_completeness auto

termination
  by (relation "inv_image (less_than <*lex*> less_than <*lex*> less_than) (\<lambda>x. case x of
     Inl (Inl (t, _)) \<Rightarrow> (size t, 1, 0) | Inl (Inr (t, _)) \<Rightarrow> (size t, 0, 0)
   | Inr (Inl (ts, _)) \<Rightarrow> (size_list size ts, 0, 0) | Inr (Inr (count, t, _)) \<Rightarrow> (size t, 2, count))")
    (auto simp: size_tableList size_list_tableList not_le intro!: size_tableList)


section \<open>Parsing\<close>

definition set_exists :: "asn_tab \<Rightarrow> nat \<Rightarrow> bool \<Rightarrow> (omem, unit) state" where
  "set_exists t base v = (case t_exists t of
     None \<Rightarrow> skip | Some e \<Rightarrow> modify (\<lambda>h. h\<lparr>c_bool := (c_bool h)(base + e := v)\<rparr>))"

definition set_int :: "nat \<Rightarrow> u32 \<Rightarrow> (omem, unit) state" where
  "set_int a v = modify (\<lambda>h. h\<lparr>c_int := (c_int h)(a := v)\<rparr>)"

text \<open>
  The tag and the length in front of an element: \<^term>\<open>None\<close> when the element is optional and is not
  there; otherwise the length of the contents, the number of octets of the length, and the octets
  used so far. An element without a tag may be as long as it is.
\<close>

definition parseHeader :: "asn_tab \<Rightarrow> ptr \<Rightarrow> nat \<Rightarrow> u32 \<Rightarrow> (omem, (u32 \<times> u32 \<times> u32) option) rc_op" where
  "parseHeader t b base pduLength =
     (if (t_type t \<noteq> ASN_Type_Choice \<and> t_tag t \<noteq> 0) \<or> t_tag t AND ASN_EXPLICIT \<noteq> 0 then
        RC_CALL (BUF_getOctet b) (\<lambda>x.
          if x AND NOT CONSTRUCTOR \<noteq> t_tag t AND NOT ASN_EXPLICIT then do {
            _ \<leftarrow> BUF_ungetOctet b;
            if t_exists t \<noteq> None then do { set_exists t base False; ok None }
            else FAIL_RC ASN_RC_WrongTag
          }
          else do {
            set_exists t base True;
            RC_CALL (parseLength (BUF_getOctet b)) (\<lambda>(len, lengthOfLength).
              if len > pduLength then FAIL_RC ASN_RC_FormatErrorInPDU
              else ok (Some (len, lengthOfLength, lengthOfLength + 1)))
          })
      else ok (Some (0xffffffff, 0, 0)))"

text \<open>The bits of an octet, the highest of the \<open>n\<close> first, one octet each.\<close>

definition octetBits :: "u8 \<Rightarrow> nat \<Rightarrow> u8 list" where
  "octetBits x n = map (\<lambda>i. if bit x i then 1 else 0) (rev [0..<n])"

primrec parseBits :: "nat \<Rightarrow> nat \<Rightarrow> ptr \<Rightarrow> int \<Rightarrow> ptr \<Rightarrow> (omem, unit) rc_op" where
  "parseBits 0 unusedBits a p b = ok ()"
| "parseBits (Suc len) unusedBits a p b = RC_CALL (BUF_getOctet b) (\<lambda>x. do {
     let bitsThisOctet = (if len = 0 then 8 - unusedBits else 8);
     modify (put_octets a p (octetBits x bitsThisOctet));
     parseBits len unusedBits a (p + int bitsThisOctet) b
   })"

definition parseBitString :: "ptr \<Rightarrow> u32 \<Rightarrow> (omem, ptr) rc_op" where
  "parseBitString b len =
     (if len < 1 then FAIL_RC ASN_RC_InvalidSize
      else let numBits = unat (ucast ((len - 1) * 8) :: u8) in
        RC_CALL (STR_alloc numBits) (\<lambda>string. do {
          _ \<leftarrow> STR_setStringLength string numBits;
          RC_CALL (BUF_getOctet b) (\<lambda>unusedBits.
            if unusedBits > 7 then FAIL_RC ASN_RC_IllegalData
            else do {
              a \<leftarrow> gets (\<lambda>h. fst (STR_stringStart string h));
              modify (put_octets a 0 (replicate numBits 0));
              RC_CALL (parseBits (unat (len - 1)) (unat unusedBits) a 0 b) (\<lambda>_. ok string)
            })
        }))"

text \<open>The loop over the chunks of a string: every chunk has at least one octet.\<close>

primrec getString :: "nat \<Rightarrow> ptr \<Rightarrow> ptr \<Rightarrow> u32 \<Rightarrow> (omem, unit) rc_op" where
  "getString 0 b string tempLen = (if tempLen = 0 then ok () else FAIL_RC Undefined)"
| "getString (Suc fuel) b string tempLen =
     (if tempLen = 0 then ok ()
      else RC_CALL (BUF_getChunk b (u16 (unat tempLen))) (\<lambda>(n, a, x).
        RC_CALL (STR_appendString string n a x) (\<lambda>_. getString fuel b string (tempLen - of_nat n))))"

definition parseOctetString :: "asn_tab \<Rightarrow> ptr \<Rightarrow> u32 \<Rightarrow> (omem, ptr) rc_op" where
  "parseOctetString t b len =
     (if len > t_maxLen t then FAIL_RC ASN_RC_InvalidSize
      else RC_CALL (STR_alloc (u16 (unat len) + 2)) (\<lambda>string.
        RC_CALL (getString (unat len) b string len) (\<lambda>_. ok string)))"

text \<open>
  \<^verbatim>\<open>asn_berParse\<close>: the result is the number of octets used. The count of a sequence-of is kept in
  the loop and stored in the structure after every element.
\<close>

function asn_berParse :: "asn_tab \<Rightarrow> ptr \<Rightarrow> nat \<Rightarrow> u32 \<Rightarrow> (omem, u32) rc_op"
  and parseContents :: "asn_tab \<Rightarrow> ptr \<Rightarrow> nat \<Rightarrow> u32 \<Rightarrow> u32 \<Rightarrow> u32 \<Rightarrow> (omem, u32) rc_op"
  and parseSeq :: "asn_tab list \<Rightarrow> ptr \<Rightarrow> nat \<Rightarrow> u32 \<Rightarrow> (omem, unit) rc_op"
  and parseSeqOf :: "nat \<Rightarrow> nat \<Rightarrow> asn_tab \<Rightarrow> nat \<Rightarrow> nat \<Rightarrow> ptr \<Rightarrow> nat \<Rightarrow> u32 \<Rightarrow> (omem, unit) rc_op"
  and parseChoice :: "asn_tab list \<Rightarrow> nat \<Rightarrow> rc \<Rightarrow> ptr \<Rightarrow> nat \<Rightarrow> u32 \<Rightarrow> (omem, rc + nat \<times> u32) rc_op" where
  "asn_berParse t b base pduLength =
     RC_CALL (parseHeader t b base pduLength) (\<lambda>header. case header of
       None \<Rightarrow> ok 0
     | Some (len, lengthOfLength, used) \<Rightarrow> parseContents t b base len lengthOfLength used)"
| "parseContents t b base len lengthOfLength used =
     (case t_type t of
        ASN_Type_Integer \<Rightarrow>
          if len > 4 then FAIL_RC ASN_RC_InvalidSize
          else RC_CALL (getValue (BUF_getOctet b) (unat len) 0) (\<lambda>integer. do {
            set_int (base + t_data t) integer;
            ok (used + len)
          })
      | ASN_Type_BitString \<Rightarrow> RC_CALL (parseBitString b len) (\<lambda>string. do {
          modify (\<lambda>h. h\<lparr>c_str := (c_str h)(base + t_data t := string)\<rparr>);
          ok (used + len)
        })
      | ASN_Type_BcdString \<Rightarrow> RC_CALL (parseOctetString t b len) (\<lambda>string. do {
          a \<leftarrow> gets (\<lambda>h. fst (STR_stringStart string h));
          modify (put_octets a (uint len) [0xFF, 0]);
          integer \<leftarrow> gets (\<lambda>h. bcdToInt (octets_at a 0 (uint len + 1) h));
          set_int (base + t_data t) integer;
          ok (lengthOfLength + 1 + len)
        })
      | ASN_Type_OctetString \<Rightarrow> RC_CALL (parseOctetString t b len) (\<lambda>string. do {
          modify (\<lambda>h. h\<lparr>c_str := (c_str h)(base + t_data t := string)\<rparr>);
          a \<leftarrow> gets (\<lambda>h. fst (STR_stringStart string h));
          modify (put_octets a (uint len) [0]);
          RC_CALL (appendOctets string [0]) (\<lambda>_. ok (lengthOfLength + 1 + len))
        })
      | ASN_Type_Sequence \<Rightarrow>
          RC_CALL (parseSeq (tableList t) b base len) (\<lambda>_. ok (used + len))
      | ASN_Type_SequenceOf \<Rightarrow> do {
          set_int (base + t_data t) 0;
          (if tableList t = [] then FAIL_RC Undefined
           else RC_CALL (parseSeqOf 0 (unat (t_maxLen t)) (hd (tableList t)) (t_elemSize t)
                  (base + t_data t) b base len) (\<lambda>_. ok (lengthOfLength + 1 + len)))
        }
      | ASN_Type_Choice \<Rightarrow>
          RC_CALL (parseChoice (tableList t) 0 Fail b base len) (\<lambda>found. case found of
            Inl e \<Rightarrow> if t_exists t = None then FAIL_RC e
                      else do { set_exists t base False; ok used }
          | Inr (i, n) \<Rightarrow> do {
              set_exists t base True;
              modify (\<lambda>h. h\<lparr>c_byte := (c_byte h)(base + t_data t := of_nat i)\<rparr>);
              ok (used + n)
            })
      | ASN_Type_Buffer \<Rightarrow> RC_CALL (BUF_cloneBufferPortion b BUF_REMAINDER False) (\<lambda>content. do {
          n \<leftarrow> gets (BUF_getBufferLength content);
          modify (\<lambda>h. h\<lparr>c_buf := (c_buf h)(base + t_data t := content)\<rparr>);
          ok (used + n)
        })
      | ASN_Type_None \<Rightarrow> FAIL_RC ProgrammerError)"
| "parseSeq [] b base len = ok ()"
| "parseSeq (t # ts) b base len =
     (if len = 0 then ok ()
      else RC_CALL (asn_berParse t b base len) (\<lambda>tempLen.
        if tempLen > len then FAIL_RC ASN_RC_InvalidSize
        else parseSeq ts b base (len - tempLen)))"
| "parseSeqOf count maxCount t elementSize pCount b base len =
     (if len = 0 then ok ()
      else if count \<ge> maxCount then FAIL_RC ASN_RC_InvalidSize
      else RC_CALL (asn_berParse t b base len) (\<lambda>tempLen.
        if tempLen > len then FAIL_RC ASN_RC_InvalidSize
        else do {
          set_int pCount (of_nat (count + 1));
          parseSeqOf (count + 1) maxCount t elementSize pCount b (base + elementSize) (len - tempLen)
        }))"
| "parseChoice [] i e b base len = ok (Inl e)"
| "parseChoice (t # ts) i e b base len = do {
     r \<leftarrow> asn_berParse t b base len;
     case r of
       Inr tempLen \<Rightarrow>
         if tempLen > len \<or> (len \<noteq> 0xffffffff \<and> len \<noteq> tempLen) then FAIL_RC ASN_RC_InvalidSize
         else ok (Inr (i, tempLen))
     | Inl e' \<Rightarrow> if e' \<noteq> ASN_RC_WrongTag then FAIL_RC e'
                 else parseChoice ts (i + 1) e' b base len
   }"
  by pat_completeness auto

termination
  by (relation "inv_image (less_than <*lex*> less_than <*lex*> less_than) (\<lambda>x. case x of
     Inl (Inl (t, _)) \<Rightarrow> (size t, 1, 0) | Inl (Inr (t, _)) \<Rightarrow> (size t, 0, 0)
   | Inr (Inl (ts, _)) \<Rightarrow> (size_list size ts, 0, 0)
   | Inr (Inr (Inl (count, maxCount, t, _))) \<Rightarrow> (size t, 2, maxCount - count)
   | Inr (Inr (Inr (ts, _))) \<Rightarrow> (size_list size ts, 0, 0))")
    (auto simp: size_tableList size_list_tableList not_le intro!: size_tableList)

declare asn_berFormat.simps [simp del] fmtContents.simps [simp del] asn_berParse.simps [simp del]
  parseContents.simps [simp del] parseSeqOf.simps [simp del]


section \<open>The interface\<close>

text \<open>
  \<^verbatim>\<open>ASN_format\<close> and \<^verbatim>\<open>ASN_parse\<close>: \<open>q\<close> is the list of entries, of which the last is formatted and
  the first parsed. With no entry the length is left as it is.
\<close>

definition ASN_format :: "nat \<Rightarrow> asn_tab list \<Rightarrow> ptr \<Rightarrow> nat \<Rightarrow> u32 \<Rightarrow> (omem, u32) rc_op" where
  "ASN_format encRules q b base formattedLength =
     (if encRules > 0 then FAIL_RC ASN_RC_InvalidEncodingRules
      else if q = [] then ok formattedLength
      else asn_berFormat (last q) b base)"

definition ASN_parse :: "nat \<Rightarrow> asn_tab list \<Rightarrow> ptr \<Rightarrow> nat \<Rightarrow> u32 \<Rightarrow> (omem, u32) rc_op" where
  "ASN_parse encRules q b base pduLength =
     (if encRules > 0 then FAIL_RC ASN_RC_InvalidEncodingRules
      else if q = [] then ok pduLength
      else asn_berParse (hd q) b base pduLength)"

end
