(* ===== verification/Buf_Octets.thy ===== *)
theory Buf_Octets
  imports Buf
begin

text \<open>
  The buffers of theory Buf as lists of octets. \<open>buf_octets\<close> is the whole content, \<open>rest\<close> what a
  parser has not read yet. \<open>filling\<close> is the invariant of a buffer to which octets are prepended,
  \<open>reading\<close> that of a buffer which is parsed.
\<close>

section \<open>Contents\<close>

definition seg_octets :: "ptr \<Rightarrow> omem \<Rightarrow> u8 list" where
  "seg_octets g h = octets_at (seg_area g h) (g_start (segs h g)) (g_end (segs h g)) h"

definition buf_octets :: "ptr \<Rightarrow> omem \<Rightarrow> u8 list" where
  "buf_octets b h = concat (map (\<lambda>g. seg_octets g h) (b_segs (heads h b)))"

definition later_segs :: "ptr \<Rightarrow> omem \<Rightarrow> ptr list" where
  "later_segs b h = tl (dropWhile (\<lambda>g. g \<noteq> b_cur (heads h b)) (b_segs (heads h b)))"

definition rest :: "ptr \<Rightarrow> omem \<Rightarrow> u8 list" where
  "rest b h = octets_at (seg_area (b_cur (heads h b)) h) (b_x (heads h b))
     (g_end (segs h (b_cur (heads h b)))) h @ concat (map (\<lambda>g. seg_octets g h) (later_segs b h))"

lemma unat_u32: "unat (v :: u32) < 2 ^ 32"
  using unsigned_less [of v] by simp

lemma run_upd_seg [simp]:
  "run_state (upd_seg g f) h = ((), h\<lparr>segs := (segs h)(g := f (segs h g))\<rparr>)"
  by (simp add: upd_seg_def)

lemma run_upd_head [simp]:
  "run_state (upd_head b f) h = ((), h\<lparr>heads := (heads h)(b := f (heads h b))\<rparr>)"
  by (simp add: upd_head_def)

lemma seg_octets_cong:
  "segs h g = segs h' g \<Longrightarrow> seg_area g h = seg_area g h' \<Longrightarrow>
     a_cells h (seg_area g h) = a_cells h' (seg_area g h) \<Longrightarrow> seg_octets g h = seg_octets g h'"
  unfolding seg_octets_def by (metis octets_at_area)

lemma seg_area_heads [simp]: "seg_area g (h\<lparr>heads := z\<rparr>) = seg_area g h"
  by (simp add: seg_area_def)

lemma seg_octets_heads [simp]: "seg_octets g (h\<lparr>heads := z\<rparr>) = seg_octets g h"
  by (simp add: seg_octets_def)


section \<open>Reading\<close>

definition reading :: "ptr \<Rightarrow> omem \<Rightarrow> bool" where
  "reading b h \<longleftrightarrow> distinct (b # b_segs (heads h b)) \<and> b_cur (heads h b) \<in> set (b_segs (heads h b)) \<and>
     b_x (heads h b) \<le> g_end (segs h (b_cur (heads h b))) \<and>
     (\<forall>g \<in> set (b_segs (heads h b)). g_end (segs h g) - g_start (segs h g) < 65536) \<and>
     g_start (segs h (b_cur (heads h b))) \<le> b_x (heads h b) \<and>
     (\<forall>g \<in> set (later_segs b h). g_start (segs h g) < g_end (segs h g))"

text \<open>Moving the position, which is all that reading does.\<close>

definition move :: "ptr \<Rightarrow> ptr \<Rightarrow> int \<Rightarrow> omem \<Rightarrow> omem" where
  "move b c x h = h\<lparr>heads := (heads h)(b := (heads h b)\<lparr>b_cur := c, b_x := x\<rparr>)\<rparr>"

lemma move_head [simp]:
  "b_segs (heads (move b c x h) b') = b_segs (heads h b')"
  "b_cur (heads (move b c x h) b) = c" "b_x (heads (move b c x h) b) = x"
  "segs (move b c x h) = segs h" "strs (move b c x h) = strs h" "a_cells (move b c x h) = a_cells h"
  "a_size (move b c x h) = a_size h"
  "o_next (move b c x h) = o_next h" "o_fail (move b c x h) = o_fail h"
  "c_int (move b c x h) = c_int h" "c_bool (move b c x h) = c_bool h"
  "c_byte (move b c x h) = c_byte h" "c_str (move b c x h) = c_str h" "c_buf (move b c x h) = c_buf h"
  "b' \<noteq> b \<Longrightarrow> heads (move b c x h) b' = heads h b'"
  "seg_area g (move b c x h) = seg_area g h" "seg_octets g (move b c x h) = seg_octets g h"
  "octets_at a i j (move b c x h) = octets_at a i j h"
  "move b c x (move b c' x' h) = move b c x h"
  by (simp_all add: move_def seg_area_def seg_octets_def octets_at_def)

lemma move_same: "move b (b_cur (heads h b)) (b_x (heads h b)) h = h"
  by (simp add: move_def)

lemma seg_after_split:
  "distinct (b # us @ g # vs) \<Longrightarrow> seg_after b g (us @ g # vs) = hd (vs @ [b])"
proof -
  assume d: "distinct (b # us @ g # vs)"
  then have "dropWhile (\<lambda>x. x \<noteq> g) (us @ g # vs) = g # vs"
    by (subst dropWhile_append2) auto
  then show ?thesis
    using d by (cases vs) (auto simp: seg_after_def)
qed

lemma later_split:
  assumes "distinct (us @ b_cur (heads h b) # vs)" "b_segs (heads h b) = us @ b_cur (heads h b) # vs"
  shows "later_segs b h = vs"
proof -
  have "\<forall>x \<in> set us. x \<noteq> b_cur (heads h b)"
    using assms by auto
  then have "dropWhile (\<lambda>g. g \<noteq> b_cur (heads h b)) (us @ b_cur (heads h b) # vs) = b_cur (heads h b) # vs"
    by (subst dropWhile_append2) auto
  then show ?thesis by (simp add: later_segs_def assms(2))
qed

lemma reading_split:
  assumes "reading b h"
  obtains us vs where "b_segs (heads h b) = us @ b_cur (heads h b) # vs" "later_segs b h = vs"
    "distinct (b # us @ b_cur (heads h b) # vs)"
proof -
  obtain us vs where *: "b_segs (heads h b) = us @ b_cur (heads h b) # vs"
    using assms by (auto simp: reading_def in_set_conv_decomp)
  then show ?thesis
    using that [of us vs] assms later_split [of us h b vs] by (auto simp: reading_def)
qed

text \<open>
  The next octet: either in the current segment, or the first of the next one. The position is
  after it, so that it can be put back.
\<close>

lemma BUF_getOctet_reading:
  assumes "reading b h" and "rest b h = x # xs"
  shows "\<exists>c y. run_state (BUF_getOctet b) h = (Inr x, move b c y h) \<and>
    reading b (move b c y h) \<and> rest b (move b c y h) = xs \<and>
    run_state (BUF_ungetOctet b) (move b c y h) = (Inr (), move b c (y - 1) h) \<and>
    reading b (move b c (y - 1) h) \<and> rest b (move b c (y - 1) h) = x # xs"
proof -
  let ?c = "b_cur (heads h b)" and ?y = "b_x (heads h b)"
  obtain us vs where seg: "b_segs (heads h b) = us @ ?c # vs" "later_segs b h = vs"
    and dist: "distinct (b # us @ ?c # vs)"
    using reading_split [OF assms(1)] by metis
  have later: "later_segs b (move b ?c y h) = vs" for y
    by (rule later_split [of us]) (use seg dist in auto)
  show ?thesis
  proof (cases "?y = g_end (segs h ?c)")
    case False
    then have lt: "?y < g_end (segs h ?c)"
      using assms(1) by (simp add: reading_def)
    have x: "a_cells h (seg_area ?c h) ?y = x" and xs: "rest b (move b ?c (?y + 1) h) = xs"
      using assms(2) octets_at_Cons [OF lt] by (simp_all add: rest_def seg later)
    have "run_state (BUF_getOctet b) h = (Inr x, move b ?c (?y + 1) h)"
      using False x by (simp add: BUF_getOctet_def move_def)
    moreover have "run_state (BUF_ungetOctet b) (move b ?c (?y + 1) h) = (Inr (), move b ?c ?y h)"
      using assms(1) by (simp add: BUF_ungetOctet_def move_def reading_def)
    moreover have "reading b (move b ?c (?y + 1) h)"
      using assms(1) lt by (simp add: reading_def later seg)
    ultimately show ?thesis
      using xs assms by (intro exI [of _ ?c] exI [of _ "?y + 1"]) (simp add: move_same)
  next
    case True
    then obtain g vs' where vs: "vs = g # vs'"
      using assms(2) by (cases vs) (auto simp: rest_def seg)
    have nx: "QU_NEXT_seg b ?c h = g" and gb: "g \<noteq> b"
      using dist vs by (auto simp: QU_NEXT_seg_def seg seg_after_split)
    have later_g: "later_segs b (move b g y h) = vs'" for y
      by (rule later_split [of "us @ [?c]"]) (use seg dist vs in auto)
    have lt: "g_start (segs h g) < g_end (segs h g)"
      using assms(1) by (simp add: reading_def seg vs)
    have "seg_octets g h = a_cells h (seg_area g h) (g_start (segs h g)) #
        octets_at (seg_area g h) (g_start (segs h g) + 1) (g_end (segs h g)) h"
      using octets_at_Cons [OF lt] by (simp add: seg_octets_def)
    then have x: "a_cells h (seg_area g h) (g_start (segs h g)) = x"
      and xs: "rest b (move b g (g_start (segs h g) + 1) h) = xs"
      and again: "rest b (move b g (g_start (segs h g)) h) = x # xs"
      using assms(2) True by (simp_all add: rest_def seg vs later_g seg_octets_def)
    have "run_state (BUF_getOctet b) h = (Inr x, move b g (g_start (segs h g) + 1) h)"
      using True nx gb x by (simp add: BUF_getOctet_def move_def)
    moreover have "run_state (BUF_ungetOctet b) (move b g (g_start (segs h g) + 1) h) =
        (Inr (), move b g (g_start (segs h g)) h)"
      by (simp add: BUF_ungetOctet_def move_def)
    moreover have "reading b (move b g y h)"
      if "g_start (segs h g) \<le> y" "y \<le> g_end (segs h g)" for y
      using assms(1) that by (auto simp: reading_def later_g seg vs)
    ultimately show ?thesis
      using xs again lt by (intro exI [of _ g] exI [of _ "g_start (segs h g) + 1"]) simp
  qed
qed

lemma BUF_getOctet_exhausted:
  assumes "reading b h" and "rest b h = []"
  shows "run_state (BUF_getOctet b) h = (Inl BUF_RC_BufferExhausted, h)"
proof -
  let ?c = "b_cur (heads h b)" and ?y = "b_x (heads h b)"
  obtain us vs where seg: "b_segs (heads h b) = us @ ?c # vs" "later_segs b h = vs"
    and dist: "distinct (b # us @ ?c # vs)"
    using reading_split [OF assms(1)] by metis
  have "vs = []"
  proof (rule ccontr)
    assume "vs \<noteq> []"
    then obtain g vs' where "vs = g # vs'" by (cases vs) auto
    then show False
      using assms octets_at_Cons [of "g_start (segs h g)" "g_end (segs h g)" "seg_area g h" h]
      by (auto simp: reading_def rest_def seg seg_octets_def)
  qed
  moreover have "?y = g_end (segs h ?c)"
    using assms by (auto simp: rest_def reading_def octets_at_def)
  ultimately show ?thesis
    using dist by (simp add: BUF_getOctet_def QU_NEXT_seg_def seg seg_after_split)
qed

text \<open>
  A chunk: at least one octet and at most as many as were asked for, as a pointer to where they are;
  they are the next octets of the buffer.
\<close>

lemma chunk_left_reading:
  assumes "reading b h"
  shows "chunk_left b h = nat (g_end (segs h (b_cur (heads h b))) - b_x (heads h b))"
proof -
  have "g_end (segs h (b_cur (heads h b))) - b_x (heads h b) < 65536"
    "0 \<le> g_end (segs h (b_cur (heads h b))) - b_x (heads h b)"
    using assms by (auto simp: reading_def)
  then show ?thesis by (simp add: chunk_left_def)
qed

lemma chunkSearch_reading:
  assumes "reading b h" and "rest b h \<noteq> []"
  shows "\<exists>c y. run_state (chunkSearch (Suc (Suc n)) b) h = (chunk_left b (move b c y h), move b c y h) \<and>
    reading b (move b c y h) \<and> rest b (move b c y h) = rest b h \<and> y < g_end (segs h c)"
proof -
  let ?c = "b_cur (heads h b)" and ?y = "b_x (heads h b)"
  obtain us vs where seg: "b_segs (heads h b) = us @ ?c # vs" "later_segs b h = vs"
    and dist: "distinct (b # us @ ?c # vs)"
    using reading_split [OF assms(1)] by metis
  show ?thesis
  proof (cases "?y = g_end (segs h ?c)")
    case False
    then have "?y < g_end (segs h ?c)"
      using assms(1) by (simp add: reading_def)
    moreover have "chunk_left b h \<noteq> 0"
      using calculation by (simp add: chunk_left_reading [OF assms(1)])
    ultimately show ?thesis
      using assms(1) by (intro exI [of _ ?c] exI [of _ ?y]) (simp add: move_same)
  next
    case True
    then obtain g vs' where vs: "vs = g # vs'"
      using assms(2) by (cases vs) (auto simp: rest_def seg)
    have nx: "QU_NEXT_seg b ?c h = g" and gb: "g \<noteq> b"
      using dist vs by (auto simp: QU_NEXT_seg_def seg seg_after_split)
    let ?h = "move b g (g_start (segs h g)) h"
    have later_g: "later_segs b ?h = vs'"
      by (rule later_split [of "us @ [?c]"]) (use seg dist vs in auto)
    have lt: "g_start (segs h g) < g_end (segs h g)"
      using assms(1) by (simp add: reading_def seg vs)
    have r: "reading b ?h"
      using assms(1) lt by (auto simp: reading_def later_g seg vs)
    have "rest b ?h = rest b h"
      using True by (simp add: rest_def seg vs later_g seg_octets_def)
    moreover have "chunk_left b h = 0" "chunk_left b ?h \<noteq> 0"
      using True lt by (simp_all add: chunk_left_reading [OF assms(1)] chunk_left_reading [OF r])
    ultimately show ?thesis
      using r nx gb lt
      by (intro exI [of _ g] exI [of _ "g_start (segs h g)"])
        (simp add: move_def [symmetric] del: move_head(19))
  qed
qed

lemma BUF_getChunk_reading:
  assumes "reading b h" and "rest b h \<noteq> []" and "0 < n"
  shows "\<exists>c y a x k. run_state (BUF_getChunk b n) h = (Inr (k, a, x), move b c y h) \<and>
    0 < k \<and> k \<le> n \<and> k \<le> length (rest b h) \<and> octets_at a x (x + int k) h = take k (rest b h) \<and>
    reading b (move b c y h) \<and> rest b (move b c y h) = drop k (rest b h)"
proof -
  have "b_segs (heads h b) \<noteq> []"
    using assms(1) by (auto simp: reading_def)
  then obtain m where m: "Suc (length (b_segs (heads h b))) = Suc (Suc m)"
    by (cases "b_segs (heads h b)") auto
  obtain c y where run: "run_state (chunkSearch (Suc (Suc m)) b) h =
      (chunk_left b (move b c y h), move b c y h)"
    and r: "reading b (move b c y h)" "rest b (move b c y h) = rest b h" "y < g_end (segs h c)"
    using chunkSearch_reading [OF assms(1,2)] by blast
  let ?h = "move b c y h"
  define left where "left = nat (g_end (segs h c) - y)"
  have left: "chunk_left b ?h = left" "left \<noteq> 0"
    using r(3) by (simp_all add: chunk_left_reading [OF r(1)] left_def)
  define k where "k = min n left"
  have k: "0 < k" "k \<le> n" "k \<le> left"
    using assms(3) left(2) by (auto simp: k_def)
  have kl: "y + int k \<le> g_end (segs h c)"
    using k(3) r(3) unfolding left_def by linarith
  have "run_state (BUF_getChunk b n) h = (Inr (k, seg_area c h, y), move b c (y + int k) h)"
  proof -
    have "(if n \<noteq> 0 \<and> left > n then n else left) = k"
      using assms(3) by (auto simp: k_def)
    moreover have "?h\<lparr>heads := (heads ?h)(b := (heads ?h b)\<lparr>b_x := b_x (heads ?h b) + int k\<rparr>)\<rparr> =
        move b c (y + int k) h"
      by (simp add: move_def)
    ultimately show ?thesis
      using run [folded m] left by (simp add: BUF_getChunk_def Let_def del: chunkSearch.simps)
  qed
  moreover have split: "rest b h = octets_at (seg_area c h) y (y + int k) h @ rest b (move b c (y + int k) h)"
  proof -
    have "later_segs b ?h = later_segs b (move b c (y + int k) h)"
      by (simp add: later_segs_def)
    then have "rest b ?h = octets_at (seg_area c h) y (y + int k) h @ rest b (move b c (y + int k) h)"
      using octets_at_split [of y "y + int k" "g_end (segs h c)" "seg_area c h" h] kl
      by (simp add: rest_def)
    then show ?thesis using r(2) by simp
  qed
  moreover have "reading b (move b c (y + int k) h)"
    using r(1) kl by (simp add: reading_def later_segs_def)
  moreover have "length (octets_at (seg_area c h) y (y + int k) h) = k"
    by simp
  ultimately show ?thesis
    using k(1,2) by (metis append_eq_conv_conj le_add1 length_append)
qed


section \<open>Filling\<close>

text \<open>
  \<open>filling b U h\<close>: the position is at the start of the first segment, the addresses in use are
  older than those to come, and the area of the first segment, when octets can still be put into
  it, is used by no other segment of the buffer and by none of the strings \<open>U\<close> of the user.
\<close>

definition filling :: "ptr \<Rightarrow> ptr set \<Rightarrow> omem \<Rightarrow> bool" where
  "filling b U h \<longleftrightarrow> mem_ok h \<and> b < o_next h \<and>
     (\<exists>g gs. b_segs (heads h b) = g # gs \<and> distinct (g # gs) \<and> b \<notin> set (g # gs) \<and>
       b_cur (heads h b) = g \<and> b_x (heads h b) = g_start (segs h g) \<and>
       (\<forall>f \<in> set (g # gs). 0 < f \<and> f < o_next h \<and> g_string (segs h f) < o_next h \<and> seg_area f h < o_next h \<and>
         0 \<le> g_start (segs h f) \<and> g_start (segs h f) \<le> g_end (segs h f)) \<and>
       (0 < g_start (segs h g) \<longrightarrow>
         seg_area g h \<notin> (\<lambda>f. seg_area f h) ` set gs \<union> (\<lambda>s. s_p (strs h s)) ` U)) \<and>
     (\<forall>s \<in> U. s < o_next h \<and> s_p (strs h s) < o_next h \<and> s_len (strs h s) < 65535)"

text \<open>What filling a buffer leaves alone.\<close>

definition kept :: "ptr \<Rightarrow> ptr set \<Rightarrow> omem \<Rightarrow> omem \<Rightarrow> bool" where
  "kept b U h h' \<longleftrightarrow>
     (\<forall>s \<in> U. s_p (strs h' s) = s_p (strs h s) \<and> s_len (strs h' s) = s_len (strs h s) \<and>
        s_maxLen (strs h' s) = s_maxLen (strs h s) \<and>
        a_cells h' (s_p (strs h s)) = a_cells h (s_p (strs h s))) \<and>
     c_int h' = c_int h \<and> c_bool h' = c_bool h \<and> c_byte h' = c_byte h \<and> c_str h' = c_str h \<and>
     c_buf h' = c_buf h \<and> o_next h \<le> o_next h' \<and> o_fail h' = o_fail h"

lemma kept_refl [simp]: "kept b U h h"
  by (simp add: kept_def)

lemma kept_trans: "kept b U h1 h2 \<Longrightarrow> kept b U h2 h3 \<Longrightarrow> kept b U h1 h3"
  unfolding kept_def by (elim conjE) (intro conjI ballI; force)

lemma kept_str_octets: "kept b U h h' \<Longrightarrow> s \<in> U \<Longrightarrow> str_octets s h' = str_octets s h"
  unfolding kept_def str_octets_def by (metis octets_at_area)

lemma run_allocSegment:
  assumes "mem_ok h"
  shows "run_state (allocSegment n) h = (o_next h, h\<lparr>o_count := o_count h + 2, o_next := o_next h + 2,
     o_live := {o_next h, o_next h + 1} \<union> o_live h,
     a_size := (a_size h)(o_next h := u16 n, o_next h + 1 := 0),
     segs := (segs h)(o_next h := \<lparr>g_string = o_next h + 1, g_start = int (u16 n), g_end = int (u16 n)\<rparr>),
     strs := (strs h)(o_next h + 1 := \<lparr>s_refCount = 1, s_status = Str_Status_AttachedStatic,
       s_maxLen = u16 n, s_len = u16 n, s_p = o_next h\<rparr>)\<rparr>)"
proof -
  have "s\<lparr>g_start := i, g_end := j, g_string := k\<rparr> = \<lparr>g_string = k, g_start = i, g_end = j\<rparr>" for s :: seg and i j k
    by (cases s) simp
  then show ?thesis
    using assms
    by (auto simp: allocSegment_def STR_attachString_def run_OS_alloc mem_ok_def u16_def
        intro!: omem.equality)
qed

text \<open>Putting an octet in front of the first segment of a buffer.\<close>

lemma put_front:
  fixes x :: u8
  assumes fill: "filling b U h" and g: "b_segs (heads h b) = g # gs" and room: "0 < g_start (segs h g)"
  defines "h1 \<equiv> h\<lparr>segs := (segs h)(g := (segs h g)\<lparr>g_start := g_start (segs h g) - 1\<rparr>),
     heads := (heads h)(b := (heads h b)\<lparr>b_x := b_x (heads h b) - 1\<rparr>)\<rparr>"
  defines "h' \<equiv> put_octets (seg_area g h) (g_start (segs h g) - 1) [x] h1"
  shows "filling b U h' \<and> kept b U h h' \<and> buf_octets b h' = x # buf_octets b h"
proof -
  have area [simp]: "seg_area f h' = seg_area f h" for f
    by (simp add: seg_area_def h'_def h1_def)
  have segs' [simp]: "segs h' f = (if f = g then (segs h g)\<lparr>g_start := g_start (segs h g) - 1\<rparr> else segs h f)"
    for f by (simp add: h'_def h1_def)
  have other: "a_cells h' a = a_cells h a" if "a \<noteq> seg_area g h" for a
    using that by (simp add: h'_def h1_def put_octets_def)
  have dist: "distinct (g # gs)" and priv: "seg_area g h \<notin> (\<lambda>f. seg_area f h) ` set gs"
    "seg_area g h \<notin> (\<lambda>s. s_p (strs h s)) ` U" and se: "g_start (segs h g) \<le> g_end (segs h g)"
    using fill g room by (auto simp: filling_def)
  have "seg_octets f h' = seg_octets f h" if f: "f \<in> set gs" for f
  proof -
    have "seg_area f h \<noteq> seg_area g h"
      using f priv(1) by (metis imageI)
    moreover have "f \<noteq> g"
      using f dist by auto
    ultimately show ?thesis
      by (intro seg_octets_cong) (simp_all add: other)
  qed
  moreover have "seg_octets g h' = x # seg_octets g h"
  proof -
    have "seg_octets g h' = a_cells h' (seg_area g h) (g_start (segs h g) - 1) #
        octets_at (seg_area g h) (g_start (segs h g)) (g_end (segs h g)) h'"
      using octets_at_Cons [of "g_start (segs h g) - 1" "g_end (segs h g)" "seg_area g h" h'] se
      by (simp add: seg_octets_def)
    moreover have "octets_at (seg_area g h) (g_start (segs h g)) (g_end (segs h g)) h' = seg_octets g h"
      unfolding seg_octets_def by (rule octets_at_cong) (simp add: h'_def h1_def put_octets_cells)
    ultimately show ?thesis
      by (simp add: h'_def h1_def put_octets_cells)
  qed
  moreover have "b_segs (heads h' b) = g # gs"
    by (simp add: h'_def h1_def g)
  ultimately have "buf_octets b h' = x # buf_octets b h"
    by (simp add: buf_octets_def g cong: map_cong)
  moreover have "kept b U h h'"
  proof -
    have "a_cells h' (s_p (strs h s)) = a_cells h (s_p (strs h s))" if "s \<in> U" for s
      by (rule other) (metis imageI priv(2) that)
    then show ?thesis
      by (simp add: kept_def) (simp add: h'_def h1_def)
  qed
  moreover have "filling b U h'"
    unfolding filling_def
  proof (intro conjI exI)
    have nx: "o_next h' = o_next h" "strs h' = strs h"
      by (simp_all add: h'_def h1_def)
    have old: "b_cur (heads h b) = g" "b_x (heads h b) = g_start (segs h g)"
      and all: "\<forall>f \<in> set (g # gs). 0 < f \<and> f < o_next h \<and> g_string (segs h f) < o_next h \<and>
        seg_area f h < o_next h \<and> 0 \<le> g_start (segs h f) \<and> g_start (segs h f) \<le> g_end (segs h f)"
      using fill g by (auto simp: filling_def)
    show "mem_ok h'" "b < o_next h'"
      using fill by (auto simp: filling_def mem_ok_def h'_def h1_def)
    show "b_segs (heads h' b) = g # gs"
      by (simp add: h'_def h1_def g)
    show "distinct (g # gs)" "b \<notin> set (g # gs)"
      using fill g by (auto simp: filling_def)
    show "b_cur (heads h' b) = g" "b_x (heads h' b) = g_start (segs h' g)"
      by (simp_all add: h'_def h1_def old)
    show "\<forall>f \<in> set (g # gs). 0 < f \<and> f < o_next h' \<and> g_string (segs h' f) < o_next h' \<and>
        seg_area f h' < o_next h' \<and> 0 \<le> g_start (segs h' f) \<and> g_start (segs h' f) \<le> g_end (segs h' f)"
    proof
      fix f
      assume "f \<in> set (g # gs)"
      then have "0 < f \<and> f < o_next h \<and> g_string (segs h f) < o_next h \<and>
          seg_area f h < o_next h \<and> 0 \<le> g_start (segs h f) \<and> g_start (segs h f) \<le> g_end (segs h f)"
        using all by blast
      then show "0 < f \<and> f < o_next h' \<and> g_string (segs h' f) < o_next h' \<and>
          seg_area f h' < o_next h' \<and> 0 \<le> g_start (segs h' f) \<and> g_start (segs h' f) \<le> g_end (segs h' f)"
        using room by (cases "f = g") (simp_all add: nx)
    qed
    show "0 < g_start (segs h' g) \<longrightarrow> seg_area g h' \<notin>
        (\<lambda>f. seg_area f h') ` set gs \<union> (\<lambda>s. s_p (strs h' s)) ` U"
      using priv by (simp add: nx)
    show "\<forall>s \<in> U. s < o_next h' \<and> s_p (strs h' s) < o_next h' \<and> s_len (strs h' s) < 65535"
      using fill by (simp add: filling_def nx)
  qed
  ultimately show ?thesis by blast
qed

text \<open>
  A new first segment, on an area that is new or that is not written to.
\<close>

definition new_first :: "ptr \<Rightarrow> seg \<Rightarrow> omem \<Rightarrow> omem \<Rightarrow> bool" where
  "new_first b G h h' \<longleftrightarrow> o_next h' = o_next h + 2 \<and> o_fail h' = o_fail h \<and> a_cells h' = a_cells h \<and>
     c_int h' = c_int h \<and> c_bool h' = c_bool h \<and> c_byte h' = c_byte h \<and> c_str h' = c_str h \<and>
     c_buf h' = c_buf h \<and> segs h' = (segs h)(o_next h := G) \<and>
     (\<forall>s < o_next h. s_p (strs h' s) = s_p (strs h s) \<and> s_len (strs h' s) = s_len (strs h s) \<and>
        s_maxLen (strs h' s) = s_maxLen (strs h s)) \<and>
     heads h' b = \<lparr>b_segs = o_next h # b_segs (heads h b), b_cur = o_next h, b_x = g_start G\<rparr> \<and>
     g_string G < o_next h' \<and> s_p (strs h' (g_string G)) < o_next h' \<and> 0 \<le> g_start G \<and>
     g_start G \<le> g_end G \<and> (0 < g_start G \<longrightarrow> s_p (strs h' (g_string G)) = o_next h)"

lemma new_first_filling:
  assumes fill: "filling b U h" and new: "new_first b G h h'"
  shows "filling b U h' \<and> kept b U h h' \<and> buf_octets b h' = seg_octets (o_next h) h' @ buf_octets b h"
proof -
  obtain g gs where gs: "b_segs (heads h b) = g # gs"
    and old: "\<And>f. f \<in> set (g # gs) \<Longrightarrow> 0 < f \<and> f < o_next h \<and> g_string (segs h f) < o_next h \<and>
      seg_area f h < o_next h \<and> 0 \<le> g_start (segs h f) \<and> g_start (segs h f) \<le> g_end (segs h f)"
    and dist: "distinct (g # gs)" "b \<notin> set (g # gs)"
    using fill unfolding filling_def by blast
  have U: "s < o_next h \<and> s_p (strs h s) < o_next h \<and> s_len (strs h s) < 65535" if "s \<in> U" for s
    using fill that by (auto simp: filling_def)
  have nx: "o_next h' = o_next h + 2" and cells: "a_cells h' = a_cells h"
    and heads': "heads h' b = \<lparr>b_segs = o_next h # g # gs, b_cur = o_next h, b_x = g_start G\<rparr>"
    using new by (simp_all add: new_first_def gs)
  have str: "s_p (strs h' s) = s_p (strs h s)" "s_len (strs h' s) = s_len (strs h s)"
    "s_maxLen (strs h' s) = s_maxLen (strs h s)" if "s < o_next h" for s
    using new that by (simp_all add: new_first_def)
  have seg: "segs h' f = segs h f" "seg_area f h' = seg_area f h" if "f \<in> set (g # gs)" for f
    using old [OF that] new by (auto simp: new_first_def seg_area_def)
  have G: "segs h' (o_next h) = G" "seg_area (o_next h) h' < o_next h'"
    "0 < g_start G \<Longrightarrow> seg_area (o_next h) h' = o_next h"
    using new by (simp_all add: new_first_def seg_area_def)
  have "seg_octets f h' = seg_octets f h" if "f \<in> set (g # gs)" for f
    using seg [OF that] by (intro seg_octets_cong) (simp_all add: cells)
  then have "buf_octets b h' = seg_octets (o_next h) h' @ buf_octets b h"
    by (simp add: buf_octets_def heads' gs cong: map_cong)
  moreover have "kept b U h h'"
    using str U new by (auto simp: kept_def new_first_def)
  moreover have "filling b U h'"
    unfolding filling_def
  proof (intro conjI exI)
    show "mem_ok h'" "b < o_next h'"
      using fill new by (auto simp: filling_def mem_ok_def new_first_def)
    show "b_segs (heads h' b) = o_next h # g # gs"
      by (simp add: heads')
    show "distinct (o_next h # g # gs)" "b \<notin> set (o_next h # g # gs)"
      using dist old fill by (auto simp: filling_def)
    show "b_cur (heads h' b) = o_next h" "b_x (heads h' b) = g_start (segs h' (o_next h))"
      by (simp_all add: heads' G)
    show "\<forall>f \<in> set (o_next h # g # gs). 0 < f \<and> f < o_next h' \<and> g_string (segs h' f) < o_next h' \<and>
      seg_area f h' < o_next h' \<and> 0 \<le> g_start (segs h' f) \<and> g_start (segs h' f) \<le> g_end (segs h' f)"
    proof
      fix f
      assume "f \<in> set (o_next h # g # gs)"
      then consider "f = o_next h" | "f \<in> set (g # gs)" by auto
      then show "0 < f \<and> f < o_next h' \<and> g_string (segs h' f) < o_next h' \<and>
          seg_area f h' < o_next h' \<and> 0 \<le> g_start (segs h' f) \<and> g_start (segs h' f) \<le> g_end (segs h' f)"
      proof cases
        case 1
        then show ?thesis using fill new G(2) by (simp add: G(1) new_first_def filling_def mem_ok_def)
      next
        case 2
        then show ?thesis using old [OF 2] by (simp add: seg nx)
      qed
    qed
    show "0 < g_start (segs h' (o_next h)) \<longrightarrow> seg_area (o_next h) h' \<notin>
        (\<lambda>f. seg_area f h') ` set (g # gs) \<union> (\<lambda>s. s_p (strs h' s)) ` U"
      using old U by (force simp: G seg str)
    show "\<forall>s \<in> U. s < o_next h' \<and> s_p (strs h' s) < o_next h' \<and> s_len (strs h' s) < 65535"
      using U by (force simp: str nx)
  qed
  ultimately show ?thesis by blast
qed

lemma bufhead_upd: "r\<lparr>b_segs := gs, b_cur := c, b_x := x\<rparr> = \<lparr>b_segs = gs, b_cur = c, b_x = x\<rparr>"
  by (cases r) simp

lemma BUF_addOctet_filling:
  assumes fill: "filling b U h"
  shows "\<exists>h'. run_state (BUF_addOctet b x) h = (Inr (), h') \<and> filling b U h' \<and> kept b U h h' \<and>
    buf_octets b h' = x # buf_octets b h"
proof -
  obtain g gs where gs: "b_segs (heads h b) = g # gs" "b_cur (heads h b) = g"
    "b_x (heads h b) = g_start (segs h g)" "0 \<le> g_start (segs h g)" "0 < g"
    using fill by (auto simp: filling_def)
  have mem: "mem_ok h"
    using fill by (simp add: filling_def)
  show ?thesis
  proof (cases "g_start (segs h g) = 0")
    case False
    then show ?thesis
      using put_front [OF fill gs(1), of x] gs by (simp add: BUF_addOctet_def seg_area_def)
  next
    case True
    define h0 where "h0 = (snd (run_state (allocSegment 128) h))\<lparr>heads := (heads h)(b := (heads h b)
      \<lparr>b_segs := o_next h # b_segs (heads h b), b_cur := o_next h, b_x := 128\<rparr>)\<rparr>"
    let ?G = "\<lparr>g_string = o_next h + 1, g_start = 128, g_end = 128\<rparr>"
    have "new_first b ?G h h0"
      by (simp add: new_first_def h0_def run_allocSegment [OF mem] bufhead_upd)
    moreover have "seg_octets (o_next h) h0 = []" and G: "segs h0 (o_next h) = ?G"
      by (simp_all add: h0_def run_allocSegment [OF mem] seg_octets_def)
    ultimately have new: "filling b U h0" "kept b U h h0" "buf_octets b h0 = buf_octets b h"
      using new_first_filling [OF fill] by simp_all
    have first: "b_segs (heads h0 b) = o_next h # g # gs"
      by (simp add: h0_def gs)
    define h' where "h' = put_octets (seg_area (o_next h) h0) (g_start (segs h0 (o_next h)) - 1) [x]
      (h0\<lparr>segs := (segs h0)(o_next h := (segs h0 (o_next h))\<lparr>g_start := g_start (segs h0 (o_next h)) - 1\<rparr>),
          heads := (heads h0)(b := (heads h0 b)\<lparr>b_x := b_x (heads h0 b) - 1\<rparr>)\<rparr>)"
    have "run_state (BUF_addOctet b x) h = (Inr (), h')"
      unfolding h'_def h0_def using mem gs True
      by (simp add: BUF_addOctet_def run_allocSegment [OF mem] seg_area_def mem_ok_def)
    moreover have "filling b U h' \<and> kept b U h0 h' \<and> buf_octets b h' = x # buf_octets b h0"
      unfolding h'_def by (rule put_front [OF new(1) first]) (simp add: G)
    ultimately show ?thesis
      using new(2,3) kept_trans [of b U h h0 h'] by auto
  qed
qed

text \<open>
  A chunk: the octets of the string come in front. Its reference count goes up; the string itself
  stays.
\<close>

lemma BUF_prependChunk_filling:
  assumes fill: "filling b U h" and s: "s \<in> U"
  shows "\<exists>h'. run_state (BUF_prependChunk b s) h = (Inr (), h') \<and> filling b U h' \<and> kept b U h h' \<and>
    buf_octets b h' = str_octets s h @ buf_octets b h"
proof -
  have mem: "mem_ok h" and sU: "s < o_next h" "s_p (strs h s) < o_next h" "s_len (strs h s) < 65535"
    using fill s by (auto simp: filling_def)
  define h' where "h' = snd (run_state (BUF_prependChunk b s) h)"
  let ?G = "\<lparr>g_string = s, g_start = 0, g_end = int (s_len (strs h s))\<rparr>"
  have run: "run_state (BUF_prependChunk b s) h = (Inr (), h')"
    using mem sU
    by (simp add: h'_def BUF_prependChunk_def chunkSegment_def run_allocSegment [OF mem] mem_ok_def
        STR_replaceString_def STR_free_def OS_free_def STR_stringStart_def STR_stringEnd_def u16_def)
  have "new_first b ?G h h'"
    using mem sU
    by (simp add: h'_def new_first_def BUF_prependChunk_def chunkSegment_def run_allocSegment [OF mem]
        mem_ok_def STR_replaceString_def STR_free_def OS_free_def STR_stringStart_def STR_stringEnd_def
        u16_def bufhead_upd)
  moreover have "seg_octets (o_next h) h' = str_octets s h"
  proof -
    have "segs h' (o_next h) = ?G" "s_p (strs h' s) = s_p (strs h s)" "a_cells h' = a_cells h"
      using calculation sU by (simp_all add: new_first_def)
    then show ?thesis
      by (simp add: seg_octets_def str_octets_def seg_area_def) (metis octets_at_area)
  qed
  ultimately show ?thesis
    using run new_first_filling [OF fill] by metis
qed

end
