(* ===== verification/Asn_Format.thy ===== *)
theory Asn_Format
  imports Asn Buf_Octets
begin

text \<open>
  What \<^verbatim>\<open>asn_berFormat\<close> writes: \<open>val_of\<close> reads the abstract value that a structure holds for a
  table, \<open>ber\<close> is its encoding, and the formatter prepends that encoding to the buffer, and
  returns its length.
\<close>

section \<open>Values\<close>

datatype val = VAbsent | VInt u32 | VOctets "u8 list" | VSeq "val list" | VSeqOf "val list"
  | VChoice nat val

fun val_of :: "asn_tab \<Rightarrow> nat \<Rightarrow> omem \<Rightarrow> val" where
  "val_of t base h =
     (if \<not> exists_at t base h then VAbsent
      else case t_type t of
        ASN_Type_Integer \<Rightarrow> VInt (c_int h (base + t_data t))
      | ASN_Type_BcdString \<Rightarrow> VInt (c_int h (base + t_data t))
      | ASN_Type_OctetString \<Rightarrow> VOctets (str_octets (c_str h (base + t_data t)) h)
      | ASN_Type_Sequence \<Rightarrow> VSeq (map (\<lambda>x. val_of x base h) (tableList t))
      | ASN_Type_SequenceOf \<Rightarrow>
          VSeqOf (if tableList t = [] then []
            else map (\<lambda>k. val_of (hd (tableList t)) (base + k * t_elemSize t) h)
              [0..<unat (c_int h (base + t_data t))])
      | ASN_Type_Choice \<Rightarrow>
          (let i = unat (c_byte h (base + t_data t)) in
           if i < length (tableList t) then VChoice i (val_of (tableList t ! i) base h) else VAbsent)
      | _ \<Rightarrow> VAbsent)"

declare val_of.simps [simp del]

text \<open>
  What a structure must satisfy to be formatted: the strings are those of \<open>U\<close>, the choices are in
  range, and there are no bit strings and buffers in the table.
\<close>

fun readable :: "ptr set \<Rightarrow> asn_tab \<Rightarrow> nat \<Rightarrow> omem \<Rightarrow> bool" where
  "readable U t base h \<longleftrightarrow> (exists_at t base h \<longrightarrow>
     (case t_type t of
        ASN_Type_Integer \<Rightarrow> True
      | ASN_Type_BcdString \<Rightarrow> True
      | ASN_Type_OctetString \<Rightarrow> c_str h (base + t_data t) \<in> U
      | ASN_Type_Sequence \<Rightarrow> (\<forall>x \<in> set (tableList t). readable U x base h)
      | ASN_Type_SequenceOf \<Rightarrow> tableList t \<noteq> [] \<and> (\<forall>k < unat (c_int h (base + t_data t)).
          tableList t \<noteq> [] \<longrightarrow> readable U (hd (tableList t)) (base + k * t_elemSize t) h)
      | ASN_Type_Choice \<Rightarrow> unat (c_byte h (base + t_data t)) < length (tableList t) \<and>
          (unat (c_byte h (base + t_data t)) < length (tableList t) \<longrightarrow>
            readable U (tableList t ! unat (c_byte h (base + t_data t))) base h)
      | _ \<Rightarrow> False))"

declare readable.simps [simp del]


section \<open>The encoding\<close>

function be :: "u32 \<Rightarrow> u8 list" where
  "be v = (if v = 0 then [] else be (drop_bit 8 v) @ [ucast v])"
  by auto

termination
  by (relation "measure unat") (simp_all add: drop_bit_8_less)

declare be.simps [simp del]

definition lenOctets :: "u32 \<Rightarrow> u8 list" where
  "lenOctets n = (if n \<le> 127 then [ucast n] else (of_nat (length (be n)) OR 0x80) # be n)"

definition intOctets :: "u32 \<Rightarrow> u8 list" where
  "intOctets v = be (drop_bit 8 v) @ [ucast v]"

definition wrap :: "u8 \<Rightarrow> u8 list \<Rightarrow> u8 list" where
  "wrap tag c = (if tag = 0 then c else tag # lenOctets (of_nat (length c)) @ c)"

text \<open>The elements of a sequence-of come in reverse, as each is put in front of those before.\<close>

function ber :: "asn_tab \<Rightarrow> val \<Rightarrow> u8 list" where
  "ber t v = (case (t_type t, v) of
      (ASN_Type_Integer, VInt i) \<Rightarrow> wrap (t_tag t) (intOctets i)
    | (ASN_Type_BcdString, VInt i) \<Rightarrow> wrap (t_tag t) (intToBcd i)
    | (ASN_Type_OctetString, VOctets xs) \<Rightarrow> wrap (t_tag t) xs
    | (ASN_Type_Sequence, VSeq vs) \<Rightarrow>
        wrap (t_tag t OR CONSTRUCTOR) (concat (map (\<lambda>(x, w). ber x w) (zip (tableList t) vs)))
    | (ASN_Type_SequenceOf, VSeqOf vs) \<Rightarrow>
        (if tableList t = [] then []
         else if t_exists (hd (tableList t)) \<noteq> None \<and> vs = [] then []
         else wrap (t_tag t OR CONSTRUCTOR) (concat (map (ber (hd (tableList t))) (rev vs))))
    | (ASN_Type_Choice, VChoice i w) \<Rightarrow>
        (if i < length (tableList t) then
           if t_tag t \<noteq> 0 \<and> t_tag t AND ASN_EXPLICIT = 0 then ber (with_tag (t_tag t) (tableList t ! i)) w
           else wrap (t_tag t) (ber (tableList t ! i) w)
         else [])
    | _ \<Rightarrow> [])"
  by pat_completeness auto

termination
  by (relation "measure (\<lambda>(t, _). size t)")
    (auto simp: size_tableList dest: set_zip_leftD)

declare ber.simps [simp del]

lemma enc_absent [simp]: "ber t VAbsent = []"
  by (simp add: ber.simps split: asn_type.split)

text \<open>Only the tag that is written depends on the tag of the entry.\<close>

lemma with_tag_sel [simp]:
  "t_type (with_tag g t) = t_type t" "t_tag (with_tag g t) = g" "t_exists (with_tag g t) = t_exists t"
  "t_data (with_tag g t) = t_data t" "t_maxLen (with_tag g t) = t_maxLen t"
  "t_elemSize (with_tag g t) = t_elemSize t" "tableList (with_tag g t) = tableList t"
  by (simp_all add: with_tag_def)

lemma with_tag_reads [simp]:
  "exists_at (with_tag g t) base h = exists_at t base h"
  "val_of (with_tag g t) base h = val_of t base h"
  "readable U (with_tag g t) base h = readable U t base h"
proof -
  show e: "exists_at (with_tag g t) base h = exists_at t base h"
    by (simp add: exists_at_def)
  show "val_of (with_tag g t) base h = val_of t base h"
    by (subst (1 2) val_of.simps) (simp only: e with_tag_sel)
  show "readable U (with_tag g t) base h = readable U t base h"
    by (subst (1 2) readable.simps) (simp only: e with_tag_sel)
qed


section \<open>What filling the buffer leaves alone\<close>

lemma exists_at_kept: "kept b U h h' \<Longrightarrow> exists_at t base h' = exists_at t base h"
  by (simp add: exists_at_def kept_def split: option.split)

lemma readable_kept: "kept b U h h' \<Longrightarrow> readable U t base h' = readable U t base h"
proof (induction U t base h rule: readable.induct)
  case (1 U t base h)
  have same: "c_int h' = c_int h" "c_byte h' = c_byte h" "c_str h' = c_str h"
    using 1(4) by (simp_all add: kept_def)
  show ?case
    by (subst (1 2) readable.simps)
      (auto simp: exists_at_kept [OF 1(4)] same 1 split: asn_type.split)
qed

lemma val_of_kept:
  "kept b U h h' \<Longrightarrow> readable U t base h \<Longrightarrow> val_of t base h' = val_of t base h"
proof (induction t base h rule: val_of.induct)
  case (1 t base h)
  have same: "c_int h' = c_int h" "c_byte h' = c_byte h" "c_str h' = c_str h"
    using 1(4) by (simp_all add: kept_def)
  show ?case
  proof (cases "exists_at t base h")
    case False
    then show ?thesis
      by (subst (1 2) val_of.simps) (simp add: exists_at_kept [OF 1(4)])
  next
    case True
    have r: "readable U t base h" by (rule 1(5))
    note IH = 1(1) [OF _ _ _ 1(4)] 1(2) [OF _ _ _ _ 1(4)] 1(3) [OF _ _ refl _ 1(4)]
    show ?thesis
      using r [unfolded readable.simps [of U t]] True IH kept_str_octets [OF 1(4)]
      by (subst (1 2) val_of.simps)
        (auto simp: exists_at_kept [OF 1(4)] same Let_def split: asn_type.split)
  qed
qed

section \<open>Prepending\<close>

definition prepends ::
  "ptr \<Rightarrow> ptr set \<Rightarrow> (omem, 'a) rc_op \<Rightarrow> u8 list \<Rightarrow> 'a \<Rightarrow> omem \<Rightarrow> bool" where
  "prepends b U m xs x h \<longleftrightarrow> (\<exists>h'. run_state m h = (Inr x, h') \<and> filling b U h' \<and> kept b U h h' \<and>
     buf_octets b h' = xs @ buf_octets b h)"

lemma prepends_ok: "filling b U h \<Longrightarrow> prepends b U (ok x) [] x h"
  by (simp add: prepends_def)

lemma prepends_call:
  assumes "prepends b U m xs y h"
    and "\<And>h'. filling b U h' \<Longrightarrow> kept b U h h' \<Longrightarrow> prepends b U (f y) ys x h'"
    and "zs = ys @ xs"
  shows "prepends b U (RC_CALL m f) zs x h"
proof -
  obtain h1 where 1: "run_state m h = (Inr y, h1)" "filling b U h1" "kept b U h h1"
    "buf_octets b h1 = xs @ buf_octets b h"
    using assms(1) by (auto simp: prepends_def)
  obtain h2 where 2: "run_state (f y) h1 = (Inr x, h2)" "filling b U h2" "kept b U h1 h2"
    "buf_octets b h2 = ys @ buf_octets b h1"
    using assms(2) [OF 1(2,3)] by (auto simp: prepends_def)
  show ?thesis
    using 1 2 kept_trans [OF 1(3) 2(3)] by (simp add: prepends_def assms(3))
qed

lemma prepends_gets:
  "prepends b U (f (g h)) xs x h \<Longrightarrow> prepends b U (gets g \<bind> f) xs x h"
  by (simp add: prepends_def)

lemma prepends_addOctet: "filling b U h \<Longrightarrow> prepends b U (BUF_addOctet b x) [x] () h"
  using BUF_addOctet_filling [of b U h x] by (simp add: prepends_def)

lemma prepends_chunk:
  "filling b U h \<Longrightarrow> s \<in> U \<Longrightarrow> prepends b U (BUF_prependChunk b s) (str_octets s h) () h"
  using BUF_prependChunk_filling [of b U h s] by (simp add: prepends_def)

lemma prepends_addAll: "filling b U h \<Longrightarrow> prepends b U (addAll b xs) (rev xs) () h"
proof (induction xs arbitrary: h)
  case Nil
  then show ?case by (simp add: prepends_ok)
next
  case (Cons x xs)
  show ?case
    unfolding addAll.simps
    by (rule prepends_call [OF prepends_addOctet [OF Cons.prems]]) (simp_all add: Cons.IH)
qed

lemma prepends_addOctets:
  "filling b U h \<Longrightarrow> prepends b U (addOctets b v n) (be v) (n + of_nat (length (be v))) h"
proof (induction b v n arbitrary: h rule: addOctets.induct)
  case (1 b v n)
  show ?case
  proof (cases "v = 0")
    case True
    then show ?thesis by (simp add: addOctets.simps be.simps prepends_ok 1(2))
  next
    case False
    then have "prepends b U (RC_CALL (BUF_addOctet b (ucast v)) (\<lambda>_. addOctets b (drop_bit 8 v) (n + 1)))
        (be (drop_bit 8 v) @ [ucast v]) (n + 1 + of_nat (length (be (drop_bit 8 v)))) h"
      by (rule_tac prepends_call [OF prepends_addOctet [OF 1(2)] 1(1) [OF False]]) simp_all
    then show ?thesis
      using False by (simp add: addOctets.simps be.simps [of v] add.assoc)
  qed
qed


section \<open>Lengths\<close>

lemma unat_drop_bit_u32: "unat (drop_bit n v :: u32) = unat v div 2 ^ n"
  by (simp only: unat_drop_bit_eq) (simp add: drop_bit_eq_div)

lemma drop_bit_zero: "(drop_bit n v = (0 :: u32)) \<longleftrightarrow> unat v < 2 ^ n"
  by (simp add: unat_eq_0 [symmetric] unat_drop_bit_u32 div_eq_0_iff)

lemma length_be:
  "length (be v) = (if unat v = 0 then 0 else if unat v < 2 ^ 8 then 1 else if unat v < 2 ^ 16 then 2
     else if unat v < 2 ^ 24 then 3 else 4)"
proof -
  have "drop_bit 32 v = 0"
    using unat_u32 [of v] by (simp only: drop_bit_zero)
  then have 4: "length (be (drop_bit 24 v)) = (if drop_bit 24 v = 0 then 0 else 1)"
    by (simp add: be.simps)
  have 3: "length (be (drop_bit 16 v)) = (if drop_bit 16 v = 0 then 0 else length (be (drop_bit 24 v)) + 1)"
    by (subst be.simps) simp
  have 2: "length (be (drop_bit 8 v)) = (if drop_bit 8 v = 0 then 0 else length (be (drop_bit 16 v)) + 1)"
    by (subst be.simps) simp
  have 1: "length (be v) = (if v = 0 then 0 else length (be (drop_bit 8 v)) + 1)"
    by (subst be.simps) simp
  show ?thesis
    unfolding 1 2 3 4 drop_bit_zero by (auto simp: unat_gt_0)
qed

lemma length_be_le: "length (be v) \<le> 4"
  by (simp add: length_be)

lemma prepends_formatLength:
  assumes "filling b U h"
  shows "prepends b U (formatLength n b) (lenOctets n) (of_nat (length (lenOctets n))) h"
proof (cases "n \<le> 127")
  case True
  then have "prepends b U (RC_CALL (BUF_addOctet b (ucast n)) (\<lambda>_. ok 1)) [ucast n] 1 h"
    by (intro prepends_call [OF prepends_addOctet [OF assms] prepends_ok]) simp_all
  then show ?thesis using True by (simp add: formatLength_def lenOctets_def)
next
  case False
  let ?k = "0 + of_nat (length (be n)) :: u8"
  have "prepends b U (RC_CALL (addOctets b n 0) (\<lambda>n. RC_CALL (BUF_addOctet b (n OR 0x80)) (\<lambda>_. ok (n + 1))))
      ((?k OR 0x80) # be n) (?k + 1) h"
    by (rule prepends_call [OF prepends_addOctets [OF assms]
          prepends_call [OF prepends_addOctet prepends_ok]]) simp_all
  then show ?thesis using False by (simp add: formatLength_def lenOctets_def add.commute)
qed

lemma length_lenOctets: "length (lenOctets n) \<le> 5"
  using length_be_le [of n] by (simp add: lenOctets_def)

lemma lenOctets_u32: "ucast (of_nat (length (lenOctets n)) :: u8) = (of_nat (length (lenOctets n)) :: u32)"
  using length_lenOctets [of n] by (simp add: word_unat_eq_iff unsigned_ucast_eq unsigned_of_nat take_bit_eq_mod)

lemma integer_length:
  "(of_nat (length (intOctets v)) :: u32) =
     (if v > 0xffffff then 4 else if v > 0xffff then 3 else if v > 0xff then 2 else 1)"
proof -
  have le: "unat (drop_bit 8 v) < k \<longleftrightarrow> unat v < k * 256" for k
    by (simp add: unat_drop_bit_u32 div_less_iff_less_mult)
  have "v > 0xffffff \<longleftrightarrow> \<not> unat v < 2 ^ 24" "v > 0xffff \<longleftrightarrow> \<not> unat v < 2 ^ 16" "v > 0xff \<longleftrightarrow> \<not> unat v < 2 ^ 8"
    by (auto simp: word_less_nat_alt)
  then show ?thesis
    using le [of 1] le [of "2 ^ 8"] le [of "2 ^ 16"] le [of "2 ^ 24"] unat_u32 [of v]
    by (auto simp: intOctets_def length_be)
qed


section \<open>The formatter\<close>

lemma prepends_fmtTag:
  assumes m: "prepends b U m c (of_nat (length c), tag) h"
  shows "prepends b U (RC_CALL m (fmtTag b)) (wrap tag c) (of_nat (length (wrap tag c))) h"
proof (cases "tag = 0")
  case True
  then show ?thesis
    by (intro prepends_call [OF m]) (auto simp: fmtTag_def wrap_def intro!: prepends_ok)
next
  case False
  let ?n = "of_nat (length c) :: u32"
  have "prepends b U (RC_CALL m (fmtTag b)) (([tag] @ lenOctets ?n) @ c)
      (?n + ucast (of_nat (length (lenOctets ?n)) :: u8) + 1) h"
  proof (rule prepends_call [OF m _ refl])
    fix h1
    assume "filling b U h1"
    then show "prepends b U (fmtTag b (?n, tag)) ([tag] @ lenOctets ?n)
        (?n + ucast (of_nat (length (lenOctets ?n)) :: u8) + 1) h1"
      using False by (auto simp: fmtTag_def intro!: prepends_call [OF prepends_formatLength
            prepends_call [OF prepends_addOctet prepends_ok]])
  qed
  moreover have "?n + ucast (of_nat (length (lenOctets ?n)) :: u8) + 1 =
      of_nat (length (wrap tag c))"
    using False by (simp add: wrap_def lenOctets_u32)
  ultimately show ?thesis
    using False by (simp add: wrap_def)
qed

text \<open>
  The formatter puts the encoding of the value in front of the buffer, for all tables without bit
  strings and buffers.
\<close>

lemma prepends_return: "filling b U h \<Longrightarrow> x = y \<Longrightarrow> prepends b U (ok x) [] y h"
  by (simp add: prepends_ok)

lemma format_prepends:
  shows "filling b U h \<Longrightarrow> readable U t base h \<Longrightarrow> prepends b U (asn_berFormat t b base)
      (ber t (val_of t base h)) (of_nat (length (ber t (val_of t base h)))) h"
    and "filling b U h \<Longrightarrow> readable U t base h \<Longrightarrow> exists_at t base h \<Longrightarrow>
      \<exists>c tag. prepends b U (fmtContents t b base) c (of_nat (length c), tag) h \<and>
        ber t (val_of t base h) = wrap tag c"
    and "filling b U h \<Longrightarrow> \<forall>x \<in> set ts. readable U x base h \<Longrightarrow> prepends b U (fmtSeq ts b base)
      (concat (map (\<lambda>x. ber x (val_of x base h)) ts))
      (of_nat (length (concat (map (\<lambda>x. ber x (val_of x base h)) ts)))) h"
    and "filling b U h \<Longrightarrow> \<forall>k < count. readable U t (base + k * sz) h \<Longrightarrow>
      prepends b U (fmtSeqOf count t sz b base)
      (concat (map (\<lambda>k. ber t (val_of t (base + k * sz) h)) (rev [0..<count])))
      (of_nat (length (concat (map (\<lambda>k. ber t (val_of t (base + k * sz) h)) (rev [0..<count]))))) h"
proof (induction t b base and t b base and ts b base and count t sz b base arbitrary: h and h and h and h
    rule: asn_berFormat_fmtContents_fmtSeq_fmtSeqOf.induct)
  case (1 t b base)
  show ?case
  proof (cases "exists_at t base h")
    case False
    then have "val_of t base h = VAbsent"
      by (simp add: val_of.simps)
    then show ?thesis
      using False 1 by (simp add: asn_berFormat.simps prepends_gets prepends_ok)
  next
    case True
    then obtain c tag where c: "prepends b U (fmtContents t b base) c (of_nat (length c), tag) h"
      "ber t (val_of t base h) = wrap tag c"
      using 1 by blast
    show ?thesis
      using prepends_fmtTag [OF c(1)] True by (simp add: asn_berFormat.simps prepends_gets c(2))
  qed
next
  case (3 b base)
  then show ?case by (simp add: prepends_ok)
next
  case (4 t ts b base)
  show ?case
    unfolding fmtSeq.simps
  proof (rule prepends_call [OF 4(1) [OF 4(3)]])
    fix h1
    assume h1: "filling b U h1" "kept b U h h1"
    have same: "val_of t base h1 = val_of t base h" "readable U t base h1"
      using 4(4) val_of_kept [OF h1(2)] readable_kept [OF h1(2)] by simp_all
    show "prepends b U (RC_CALL (asn_berFormat t b base) (\<lambda>n. ok (of_nat (length (concat
        (map (\<lambda>x. ber x (val_of x base h)) ts))) + n))) (ber t (val_of t base h))
        (of_nat (length (concat (map (\<lambda>x. ber x (val_of x base h)) (t # ts))))) h1"
      using 4(2) [OF h1(1) same(2)]
      by (rule prepends_call [where ys = "[]"]) (auto simp: same intro!: prepends_return)
  qed (use 4(4) in simp_all)
next
  case (5 t elementSize b base)
  then show ?case by (simp add: prepends_ok)
next
  case (6 count t sz b base)
  let ?later = "concat (map (\<lambda>k. ber t (val_of t (base + sz + k * sz) h)) (rev [0..<count]))"
  have shift: "concat (map (\<lambda>k. ber t (val_of t (base + k * sz) h)) (rev [0..<Suc count])) =
      ?later @ ber t (val_of t base h)"
  proof -
    have "rev [0..<Suc count] = map Suc (rev [0..<count]) @ [0]"
      by (simp add: map_Suc_upt [symmetric] upt_conv_Cons rev_map [symmetric] del: upt_Suc)
    then show ?thesis
      by (simp add: o_def add.assoc del: upt_Suc)
  qed
  show ?case
    unfolding fmtSeqOf.simps shift
  proof (rule prepends_call [OF 6(1) [OF 6(3)]])
    show "readable U t base h"
      using 6(4) [rule_format, of 0] by simp
    fix h1
    assume h1: "filling b U h1" "kept b U h h1"
    have r: "readable U t (base + sz + k * sz) h" if "k < count" for k
      using 6(4) [rule_format, of "Suc k"] that by (simp add: add.assoc)
    then have "val_of t (base + sz + k * sz) h1 = val_of t (base + sz + k * sz) h"
      "readable U t (base + sz + k * sz) h1" if "k < count" for k
      using that val_of_kept [OF h1(2)] readable_kept [OF h1(2)] by simp_all
    then have same: "concat (map (\<lambda>k. ber t (val_of t (base + sz + k * sz) h1)) (rev [0..<count])) = ?later"
      "\<forall>k < count. readable U t (base + sz + k * sz) h1"
      by (auto intro!: arg_cong [where f = concat] map_cong)
    show "prepends b U (RC_CALL (fmtSeqOf count t sz b (base + sz))
        (\<lambda>len. ok (of_nat (length (ber t (val_of t base h))) + len))) ?later
        (of_nat (length (?later @ ber t (val_of t base h)))) h1"
      using 6(2) [OF h1(1) same(2)] unfolding same(1)
      by (rule prepends_call [where ys = "[]"]) (auto intro!: prepends_return)
  qed simp
next
  case (2 t b base)
  note fill = 2(5) and ex = 2(7)
  note r = 2(6) [unfolded readable.simps [of U t], rule_format, OF ex]
  show ?case
  proof (cases "t_type t")
    case ASN_Type_Integer
    let ?v = "c_int h (base + t_data t)"
    have "prepends b U (RC_CALL (BUF_addOctet b (ucast ?v)) (\<lambda>_. RC_CALL (addOctets b (drop_bit 8 ?v) 0)
        (\<lambda>_. ok (of_nat (length (intOctets ?v)) :: u32, t_tag t)))) (intOctets ?v)
        (of_nat (length (intOctets ?v)), t_tag t) h"
      by (rule prepends_call [OF prepends_addOctet [OF fill]
            prepends_call [OF prepends_addOctets prepends_ok]]) (simp_all add: intOctets_def)
    then have "prepends b U (fmtContents t b base) (intOctets ?v) (of_nat (length (intOctets ?v)), t_tag t) h"
      by (simp add: fmtContents.simps ASN_Type_Integer prepends_gets Let_def integer_length [symmetric])
    moreover have "ber t (val_of t base h) = wrap (t_tag t) (intOctets ?v)"
      by (subst val_of.simps, subst ber.simps) (simp add: ASN_Type_Integer ex)
    ultimately show ?thesis by blast
  next
    case ASN_Type_BcdString
    let ?v = "c_int h (base + t_data t)"
    have "prepends b U (RC_CALL (addAll b (rev (intToBcd ?v)))
        (\<lambda>_. ok (of_nat (length (intToBcd ?v)) :: u32, t_tag t))) (intToBcd ?v)
        (of_nat (length (intToBcd ?v)), t_tag t) h"
      by (rule prepends_call [OF prepends_addAll [OF fill] prepends_ok]) simp_all
    then have "prepends b U (fmtContents t b base) (intToBcd ?v) (of_nat (length (intToBcd ?v)), t_tag t) h"
      by (simp add: fmtContents.simps ASN_Type_BcdString prepends_gets Let_def)
    moreover have "ber t (val_of t base h) = wrap (t_tag t) (intToBcd ?v)"
      by (subst val_of.simps, subst ber.simps) (simp add: ASN_Type_BcdString ex)
    ultimately show ?thesis by blast
  next
    case ASN_Type_OctetString
    let ?s = "c_str h (base + t_data t)"
    have s: "?s \<in> U"
      using r by (simp add: ASN_Type_OctetString)
    have len: "STR_getStringLength ?s h = length (str_octets ?s h)"
      using fill s by (auto simp: filling_def STR_getStringLength_def str_octets_def)
    have "prepends b U (RC_CALL (BUF_prependChunk b ?s)
        (\<lambda>_. ok (of_nat (length (str_octets ?s h)) :: u32, t_tag t))) (str_octets ?s h)
        (of_nat (length (str_octets ?s h)), t_tag t) h"
      by (rule prepends_call [OF prepends_chunk [OF fill s] prepends_ok]) simp_all
    then have "prepends b U (fmtContents t b base) (str_octets ?s h)
        (of_nat (length (str_octets ?s h)), t_tag t) h"
      by (simp add: fmtContents.simps ASN_Type_OctetString prepends_gets len)
    moreover have "ber t (val_of t base h) = wrap (t_tag t) (str_octets ?s h)"
      by (subst val_of.simps, subst ber.simps) (simp add: ASN_Type_OctetString ex)
    ultimately show ?thesis by blast
  next
    case ASN_Type_Sequence
    let ?c = "concat (map (\<lambda>x. ber x (val_of x base h)) (tableList t))"
    have z: "zip (tableList t) (map (\<lambda>x. val_of x base h) (tableList t)) =
        map (\<lambda>x. (x, val_of x base h)) (tableList t)"
      by (simp add: zip_map2 zip_same_conv_map)
    have "prepends b U (RC_CALL (fmtSeq (tableList t) b base) (\<lambda>len. ok (len, t_tag t OR 0x20))) ?c
        (of_nat (length ?c), t_tag t OR 0x20) h"
      using 2(1) [OF ASN_Type_Sequence fill] r
      by (intro prepends_call [where ys = "[]"]) (auto simp: ASN_Type_Sequence intro!: prepends_return)
    then have "prepends b U (fmtContents t b base) ?c (of_nat (length ?c), t_tag t OR 0x20) h"
      by (simp add: fmtContents.simps ASN_Type_Sequence)
    moreover have "ber t (val_of t base h) = wrap (t_tag t OR 0x20) ?c"
      by (subst val_of.simps, subst ber.simps) (simp add: ASN_Type_Sequence ex z o_def)
    ultimately show ?thesis by blast
  next
    case ASN_Type_SequenceOf
    let ?e = "hd (tableList t)"
    let ?n = "unat (c_int h (base + t_data t))"
    let ?c = "concat (map (\<lambda>k. ber ?e (val_of ?e (base + k * t_elemSize t) h)) (rev [0..<?n]))"
    let ?tag = "if t_exists ?e \<noteq> None \<and> ?n = 0 then 0 else t_tag t OR 0x20"
    have ne: "tableList t \<noteq> []"
      using r by (simp add: ASN_Type_SequenceOf)
    have "prepends b U (RC_CALL (fmtSeqOf ?n ?e (t_elemSize t) b base) (\<lambda>len. ok (len, ?tag))) ?c
        (of_nat (length ?c), ?tag) h"
      using 2(2) [OF ASN_Type_SequenceOf ne fill] r ne
      by (intro prepends_call [where ys = "[]"]) (auto simp: ASN_Type_SequenceOf intro!: prepends_return)
    then have "prepends b U (fmtContents t b base) ?c (of_nat (length ?c), ?tag) h"
      using ne by (simp add: fmtContents.simps ASN_Type_SequenceOf prepends_gets)
    moreover have "ber t (val_of t base h) = wrap ?tag ?c"
      by (subst val_of.simps, subst ber.simps)
        (simp add: ASN_Type_SequenceOf ex ne o_def rev_map [symmetric] wrap_def)
    ultimately show ?thesis by blast
  next
    case ASN_Type_Choice
    let ?i = "unat (c_byte h (base + t_data t))"
    let ?e = "tableList t ! ?i"
    have i: "?i < length (tableList t)" "readable U ?e base h"
      using r by (simp_all add: ASN_Type_Choice)
    have v: "val_of t base h = VChoice ?i (val_of ?e base h)"
      using i by (subst val_of.simps) (simp add: ASN_Type_Choice ex Let_def)
    show ?thesis
    proof (cases "t_tag t \<noteq> 0 \<and> t_tag t AND 0x20 = 0")
      case True
      let ?c = "ber (with_tag (t_tag t) ?e) (val_of ?e base h)"
      have "prepends b U (RC_CALL (asn_berFormat (with_tag (t_tag t) ?e) b base) (\<lambda>len. ok (len, 0))) ?c
          (of_nat (length ?c), 0 :: u8) h"
        using 2(3) [OF ASN_Type_Choice _ True fill] i
        by (intro prepends_call [where ys = "[]"]) (auto intro!: prepends_return)
      then have "prepends b U (fmtContents t b base) ?c (of_nat (length ?c), 0) h"
        using i True by (simp add: fmtContents.simps ASN_Type_Choice prepends_gets)
      moreover have "ber t (val_of t base h) = wrap 0 ?c"
        using i True by (subst ber.simps) (simp add: v ASN_Type_Choice wrap_def)
      ultimately show ?thesis by blast
    next
      case False
      let ?c = "ber ?e (val_of ?e base h)"
      have "prepends b U (RC_CALL (asn_berFormat ?e b base) (\<lambda>len. ok (len, t_tag t))) ?c
          (of_nat (length ?c), t_tag t) h"
        using 2(4) [OF ASN_Type_Choice _ False fill] i
        by (intro prepends_call [where ys = "[]"]) (auto intro!: prepends_return)
      then have "prepends b U (fmtContents t b base) ?c (of_nat (length ?c), t_tag t) h"
        using i False
        by (cases "t_tag t = 0") (simp_all add: fmtContents.simps ASN_Type_Choice prepends_gets)
      moreover have "ber t (val_of t base h) = wrap (t_tag t) ?c"
        using i False by (subst ber.simps) (cases "t_tag t = 0"; simp add: v ASN_Type_Choice)
      ultimately show ?thesis by blast
    qed
  qed (use r in simp_all)
qed

end
