(* ===== verification/Asn_Read.thy ===== *)
theory Asn_Read
  imports Asn_Format
begin

text \<open>
  Reading octets. The locale \<open>octet_source\<close> is what the decoding of lengths and numbers asks of its
  source; \<^verbatim>\<open>BUF_getOctet\<close> on a buffer is one. \<open>changes\<close> and \<open>parses\<close> say what a step of the parser
  does: the octets it takes, the members of the structures it may write, and its result.
\<close>

section \<open>Sources of octets\<close>

locale octet_source =
  fixes get :: "('s, u8) rc_op" and ready :: "'s \<Rightarrow> bool" and left :: "'s \<Rightarrow> u8 list"
    and same :: "'s \<Rightarrow> 's \<Rightarrow> bool"
  assumes get_Cons: "ready s \<Longrightarrow> left s = x # xs \<Longrightarrow>
      \<exists>s'. run_state get s = (Inr x, s') \<and> ready s' \<and> left s' = xs \<and> same s s'"
    and get_Nil: "ready s \<Longrightarrow> left s = [] \<Longrightarrow> \<exists>e s'. run_state get s = (Inl e, s')"
    and same_refl: "same s s"
    and same_trans: "same s1 s2 \<Longrightarrow> same s2 s3 \<Longrightarrow> same s1 s3"
begin

text \<open>The number that \<open>n\<close> octets stand for, with those read before in front.\<close>

lemma getValue_reads:
  "ready s \<Longrightarrow> left s = xs @ ys \<Longrightarrow>
     \<exists>s'. run_state (getValue get (length xs) v) s =
         (Inr (foldl (\<lambda>v x. push_bit 8 v OR ucast x) v xs), s') \<and> ready s' \<and> left s' = ys \<and> same s s'"
proof (induction xs arbitrary: s v)
  case Nil
  then show ?case using same_refl [of s] by simp
next
  case (Cons x xs)
  obtain s1 where 1: "run_state get s = (Inr x, s1)" "ready s1" "left s1 = xs @ ys" "same s s1"
    using get_Cons [OF Cons.prems(1), of x "xs @ ys"] Cons.prems(2) by auto
  show ?case
    using Cons.IH [OF 1(2,3), of "push_bit 8 v OR ucast x"] 1 same_trans [OF 1(4)] by auto
qed

lemma getValue_short:
  "ready s \<Longrightarrow> length (left s) < n \<Longrightarrow> \<exists>e s'. run_state (getValue get n v) s = (Inl e, s')"
proof (induction n arbitrary: s v)
  case 0
  then show ?case by simp
next
  case (Suc n)
  show ?case
  proof (cases "left s")
    case Nil
    then show ?thesis using get_Nil [OF Suc.prems(1)] by auto
  next
    case (Cons x xs)
    then obtain s1 where 1: "run_state get s = (Inr x, s1)" "ready s1" "left s1 = xs" "same s s1"
      using get_Cons [OF Suc.prems(1) Cons] by blast
    then show ?thesis
      using Suc.IH [OF 1(2), of "push_bit 8 v OR ucast x"] Suc.prems Cons by simp
  qed
qed

end

text \<open>The octets of a number stand for it.\<close>

lemma fold_be: "foldl (\<lambda>v x. push_bit 8 v OR ucast x) 0 (be v) = v"
proof (induction v rule: be.induct)
  case (1 v)
  show ?case
  proof (cases "v = 0")
    case True
    then show ?thesis by (simp add: be.simps)
  next
    case False
    have "push_bit 8 (drop_bit 8 v) OR ucast (ucast v :: u8) = v"
      by (rule bit_word_eqI) (auto simp: bit_simps)
    then show ?thesis
      using 1 [OF False] False by (subst be.simps) simp
  qed
qed

lemma fold_intOctets: "foldl (\<lambda>v x. push_bit 8 v OR ucast x) 0 (intOctets v) = v"
proof -
  have "push_bit 8 (drop_bit 8 v) OR ucast (ucast v :: u8) = v"
    by (rule bit_word_eqI) (auto simp: bit_simps)
  then show ?thesis by (simp add: intOctets_def fold_be)
qed

lemma length_octet: "(x :: u8) = of_nat k \<Longrightarrow> k \<le> 4 \<Longrightarrow>
    (x OR 0x80) AND 0x80 \<noteq> 0 \<and> (x OR 0x80) AND NOT 0x80 = x"
proof -
  assume "x = of_nat k" "k \<le> 4"
  then have "x = 0 \<or> x = 1 \<or> x = 2 \<or> x = 3 \<or> x = 4"
    by (auto simp: le_Suc_eq numeral_eq_Suc)
  then show ?thesis by auto
qed

lemma small_length:
  assumes "(n :: u32) \<le> 127"
  shows "(ucast n :: u8) AND 0x80 = 0" "(ucast (ucast n :: u8) :: u32) = n"
proof -
  have n: "take_bit 7 n = n"
    using assms by (simp add: word_unat_eq_iff unsigned_take_bit_eq word_le_nat_alt take_bit_nat_eq_self)
  have high: "\<not> bit n i" if "7 \<le> i" for i
    using that by (subst n [symmetric]) (simp add: bit_simps)
  show "(ucast n :: u8) AND 0x80 = 0"
  proof -
    have "(0x80 :: u8) = push_bit 7 1"
      by simp
    then have top: "bit (0x80 :: u8) i \<longleftrightarrow> i = 7" for i
      by (simp only: bit_push_bit_iff) (auto simp: bit_simps)
    show ?thesis
    proof (rule bit_word_eqI)
      fix i
      show "bit ((ucast n :: u8) AND 0x80) i = bit 0 i"
        using top [of i] high [of i] by (cases "i = 7") (auto simp: bit_simps)
    qed
  qed
  show "(ucast (ucast n :: u8) :: u32) = n"
  proof (rule bit_word_eqI)
    fix i
    show "bit (ucast (ucast n :: u8) :: u32) i = bit n i"
      using high [of i] by (cases "i < 7") (auto simp: bit_simps)
  qed
qed

context octet_source begin

text \<open>A length that \<open>formatLength\<close> wrote.\<close>

lemma parseLength_reads:
  assumes "ready s" "left s = lenOctets n @ ys"
  shows "\<exists>s'. run_state (parseLength get) s = (Inr (n, of_nat (length (lenOctets n))), s') \<and>
    ready s' \<and> left s' = ys \<and> same s s'"
proof (cases "n \<le> 127")
  case True
  note small = small_length [OF True]
  obtain s1 where "run_state get s = (Inr (ucast n), s1)" "ready s1" "left s1 = ys" "same s s1"
    using get_Cons [OF assms(1)] assms(2) True by (auto simp: lenOctets_def)
  then show ?thesis
    using True small by (simp add: parseLength_def lenOctets_def)
next
  case False
  let ?k = "of_nat (length (be n)) :: u8"
  have k: "(?k OR 0x80) AND 0x80 \<noteq> 0" "(?k OR 0x80) AND NOT 0x80 = ?k"
    using length_octet [OF refl length_be_le [of n]] by simp_all
  have u: "unat ?k = length (be n)" "(ucast ?k :: u32) = of_nat (length (be n))"
    using length_be_le [of n] by (simp_all add: unsigned_of_nat take_bit_eq_mod word_unat_eq_iff unsigned_ucast_eq)
  obtain s1 where 1: "run_state get s = (Inr (?k OR 0x80), s1)" "ready s1" "left s1 = be n @ ys" "same s s1"
    using get_Cons [OF assms(1)] assms(2) False by (auto simp: lenOctets_def)
  show ?thesis
    using getValue_reads [OF 1(2,3), of 0] 1 False k same_trans [OF 1(4)]
    by (auto simp: parseLength_def lenOctets_def fold_be u Let_def)
qed

end


section \<open>A buffer that is parsed\<close>

definition src :: "ptr \<Rightarrow> omem \<Rightarrow> bool" where
  "src b h \<longleftrightarrow> reading b h \<and> mem_ok h \<and>
     (\<forall>g \<in> set (b_segs (heads h b)). g_string (segs h g) < o_next h \<and> seg_area g h < o_next h)"

text \<open>
  \<open>changes A\<close>: the members of structures at the addresses \<open>A\<close> may be written, and memory may be
  allocated; strings and data areas that are there stay as they are.
\<close>

definition changes :: "nat set \<Rightarrow> omem \<Rightarrow> omem \<Rightarrow> bool" where
  "changes A h h' \<longleftrightarrow>
     (\<forall>a. a \<notin> A \<longrightarrow> c_int h' a = c_int h a \<and> c_bool h' a = c_bool h a \<and> c_byte h' a = c_byte h a \<and>
        c_str h' a = c_str h a) \<and>
     (\<forall>s < o_next h. strs h' s = strs h s \<and> a_cells h' s = a_cells h s) \<and>
     o_next h \<le> o_next h' \<and> o_fail h' = o_fail h"

lemma changes_refl [simp]: "changes A h h"
  by (simp add: changes_def)

lemma changes_trans: "changes A h1 h2 \<Longrightarrow> changes A h2 h3 \<Longrightarrow> changes A h1 h3"
  unfolding changes_def by (elim conjE) (intro conjI allI impI; fastforce)

lemma changes_mono: "changes A h h' \<Longrightarrow> A \<subseteq> B \<Longrightarrow> changes B h h'"
  unfolding changes_def by blast

lemma changes_move [simp]: "changes A h (move b c x h)"
  by (simp add: changes_def)

lemma src_move: "src b h \<Longrightarrow> reading b (move b c x h) \<Longrightarrow> src b (move b c x h)"
  by (simp add: src_def mem_ok_def)

lemma src_cong:
  assumes "src b h" and ch: "changes A h h'" and same: "segs h' = segs h" "heads h' b = heads h b"
  shows "src b h' \<and> rest b h' = rest b h"
proof -
  have old: "g_string (segs h g) < o_next h" "seg_area g h < o_next h" if "g \<in> set (b_segs (heads h b))" for g
    using assms(1) that by (simp_all add: src_def)
  have area: "seg_area g h' = seg_area g h" if "g \<in> set (b_segs (heads h b))" for g
    using old [OF that] ch by (simp add: seg_area_def same changes_def)
  have cells: "a_cells h' (seg_area g h) = a_cells h (seg_area g h)" if "g \<in> set (b_segs (heads h b))" for g
    using old [OF that] ch by (simp add: changes_def)
  have cur: "b_cur (heads h b) \<in> set (b_segs (heads h b))"
    using assms(1) by (simp add: src_def reading_def)
  have later: "later_segs b h' = later_segs b h" "set (later_segs b h) \<subseteq> set (b_segs (heads h b))"
    by (auto simp: later_segs_def same dest: list.set_sel(2) [rotated] set_dropWhileD)
       (metis empty_iff list.set(1) list.set_sel(2) set_dropWhileD tl_Nil)
  have "seg_octets g h' = seg_octets g h" if "g \<in> set (b_segs (heads h b))" for g
    using area [OF that] cells [OF that] by (intro seg_octets_cong) (simp_all add: same)
  then have "map (\<lambda>g. seg_octets g h') (later_segs b h) = map (\<lambda>g. seg_octets g h) (later_segs b h)"
    using later(2) by (auto intro: map_cong)
  moreover have "octets_at (seg_area (b_cur (heads h b)) h) i j h' =
      octets_at (seg_area (b_cur (heads h b)) h) i j h" for i j
    by (rule octets_at_area [OF cells [OF cur]])
  ultimately have "rest b h' = rest b h"
    by (simp only: rest_def later(1) same area [OF cur])
  moreover have "src b h'"
    using assms(1) ch area by (fastforce simp: src_def reading_def later(1) same mem_ok_def changes_def)
  ultimately show ?thesis by blast
qed

interpretation buf: octet_source "BUF_getOctet b" "src b" "rest b" "changes {}"
proof
  fix s x xs
  assume "src b s" "rest b s = x # xs"
  then show "\<exists>s'. run_state (BUF_getOctet b) s = (Inr x, s') \<and> src b s' \<and> rest b s' = xs \<and> changes {} s s'"
    using BUF_getOctet_reading [of b s x xs] src_move by (metis changes_move src_def)
next
  fix s
  assume "src b s" "rest b s = []"
  then show "\<exists>e s'. run_state (BUF_getOctet b) s = (Inl e, s')"
    using BUF_getOctet_exhausted [of b s] by (auto simp: src_def)
qed (auto intro: changes_trans)


section \<open>Steps of the parser\<close>

definition parses ::
  "ptr \<Rightarrow> nat set \<Rightarrow> (omem, 'a) rc_op \<Rightarrow> u8 list \<Rightarrow> ('a \<Rightarrow> omem \<Rightarrow> bool) \<Rightarrow> omem \<Rightarrow> bool" where
  "parses b A m ys Q h \<longleftrightarrow> (\<exists>x h'. run_state m h = (Inr x, h') \<and> src b h' \<and> rest b h' = ys \<and>
     changes A h h' \<and> Q x h')"

lemma parses_ok: "src b h \<Longrightarrow> rest b h = ys \<Longrightarrow> Q x h \<Longrightarrow> parses b A (ok x) ys Q h"
  by (simp add: parses_def)

lemma parses_call:
  assumes "parses b A m ys Q h"
    and "\<And>x h1. src b h1 \<Longrightarrow> rest b h1 = ys \<Longrightarrow> changes A h h1 \<Longrightarrow> Q x h1 \<Longrightarrow> parses b A (f x) zs R h1"
  shows "parses b A (RC_CALL m f) zs R h"
proof -
  obtain x h1 where 1: "run_state m h = (Inr x, h1)" "src b h1" "rest b h1 = ys" "changes A h h1" "Q x h1"
    using assms(1) by (auto simp: parses_def)
  show ?thesis
    using assms(2) [OF 1(2-5)] 1 changes_trans [OF 1(4)] by (auto simp: parses_def)
qed

lemma parses_mono: "parses b A m ys Q h \<Longrightarrow> A \<subseteq> B \<Longrightarrow> (\<And>x h'. changes A h h' \<Longrightarrow> Q x h' \<Longrightarrow> R x h') \<Longrightarrow>
    parses b B m ys R h"
  unfolding parses_def using changes_mono by metis

lemma parses_modify:
  assumes "src b h" "rest b h = xs" "changes A h (f h)" "segs (f h) = segs h" "heads (f h) = heads h"
    and "src b (f h) \<Longrightarrow> rest b (f h) = xs \<Longrightarrow> parses b A (k ()) ys Q (f h)"
  shows "parses b A (modify f \<bind> k) ys Q h"
proof -
  have "src b (f h) \<and> rest b (f h) = rest b h"
    using assms by (intro src_cong) auto
  then show ?thesis
    using assms(2,6) changes_trans [OF assms(3)] by (auto simp: parses_def)
qed

lemma parses_gets: "parses b A (f (g h)) ys Q h \<Longrightarrow> parses b A (gets g \<bind> f) ys Q h"
  by (simp add: parses_def)

lemma parses_getOctet:
  "src b h \<Longrightarrow> rest b h = x # xs \<Longrightarrow> parses b A (BUF_getOctet b) xs (\<lambda>y h'. y = x \<and> changes {} h h') h"
  using buf.get_Cons [of b h x xs] changes_mono [of "{}" h _ A] by (auto simp: parses_def)

lemma parses_getValue:
  "src b h \<Longrightarrow> rest b h = xs @ ys \<Longrightarrow> n = length xs \<Longrightarrow> parses b A (getValue (BUF_getOctet b) n v) ys
     (\<lambda>y h'. y = foldl (\<lambda>v x. push_bit 8 v OR ucast x) v xs \<and> changes {} h h') h"
  using buf.getValue_reads [of b h xs ys v] changes_mono [of "{}" h _ A] by (auto simp: parses_def)

lemma parses_parseLength:
  "src b h \<Longrightarrow> rest b h = lenOctets n @ ys \<Longrightarrow> parses b A (parseLength (BUF_getOctet b)) ys
     (\<lambda>y h'. y = (n, of_nat (length (lenOctets n))) \<and> changes {} h h') h"
  using buf.parseLength_reads [of b h n ys] changes_mono [of "{}" h _ A] by (auto simp: parses_def)

end
