(* ===== verification/Asn_Value.thy ===== *)
theory Asn_Value
  imports Asn_Read
begin

text \<open>
  The tables for which parsing is the inverse of formatting, and the values that fit them. \<open>tags_ok\<close>
  asks that a tag decides which element comes next; \<open>arranged\<close> that the elements have their own
  places in the structure; \<open>fits\<close> that a value is one of the table, within its limits. \<open>received\<close> is
  the value that arrives, and \<open>holds\<close> says that a structure holds a value.
\<close>

section \<open>Tags\<close>

definition key :: "u8 \<Rightarrow> u8" where
  "key x = x AND NOT CONSTRUCTOR"

lemma key_or [simp]: "key (x OR 0x20) = key x"
  unfolding key_def by (rule bit_word_eqI) (auto simp: bit_simps)

text \<open>The tags, without the constructor bit, with which the encoding of an element can start.\<close>

function starts :: "asn_tab \<Rightarrow> u8 set" where
  "starts t = (if t_type t = ASN_Type_Choice \<and> t_tag t = 0
     then \<Union> (set (map starts (tableList t))) else {key (t_tag t)})"
  by auto

termination
  by (relation "measure size") (simp_all add: size_tableList)

declare starts.simps [simp del]

primrec follow :: "asn_tab list \<Rightarrow> u8 set" where
  "follow [] = {}"
| "follow (t # ts) = starts t \<union> (if t_exists t = None then {} else follow ts)"

primrec seq_tags :: "asn_tab list \<Rightarrow> bool" where
  "seq_tags [] = True"
| "seq_tags (t # ts) = ((t_exists t \<noteq> None \<longrightarrow> starts t \<inter> follow ts = {}) \<and> seq_tags ts)"

primrec choice_tags :: "asn_tab list \<Rightarrow> bool" where
  "choice_tags [] = True"
| "choice_tags (t # ts) =
     (t_exists t = None \<and> (\<forall>x \<in> set ts. starts t \<inter> starts x = {}) \<and> choice_tags ts)"

function tags_ok :: "asn_tab \<Rightarrow> bool" where
  "tags_ok t \<longleftrightarrow> (case t_type t of
       ASN_Type_Sequence \<Rightarrow> t_tag t \<noteq> 0 \<and> seq_tags (tableList t) \<and> (\<forall>x \<in> set (tableList t). tags_ok x)
     | ASN_Type_SequenceOf \<Rightarrow> t_tag t \<noteq> 0 \<and> tableList t \<noteq> [] \<and> t_exists (hd (tableList t)) = None \<and>
         (\<forall>x \<in> set (tableList t). tags_ok x)
     | ASN_Type_Choice \<Rightarrow> (t_tag t = 0 \<or> t_tag t AND ASN_EXPLICIT \<noteq> 0) \<and> tableList t \<noteq> [] \<and>
         choice_tags (tableList t) \<and> (\<forall>x \<in> set (tableList t). tags_ok x)
     | ASN_Type_Buffer \<Rightarrow> False
     | ASN_Type_None \<Rightarrow> False
     | _ \<Rightarrow> t_tag t \<noteq> 0)"
  by auto

termination
  by (relation "measure size") (simp_all add: size_tableList)

declare tags_ok.simps [simp del]


section \<open>Places\<close>

definition flag_at :: "asn_tab \<Rightarrow> nat \<Rightarrow> nat set" where
  "flag_at t base = (case t_exists t of None \<Rightarrow> {} | Some e \<Rightarrow> {base + e})"

text \<open>The addresses that belong to an element of a structure at \<open>base\<close>.\<close>

function region :: "asn_tab \<Rightarrow> nat \<Rightarrow> nat set" where
  "region t base = flag_at t base \<union> (case t_type t of
       ASN_Type_Sequence \<Rightarrow> \<Union> (set (map (\<lambda>x. region x base) (tableList t)))
     | ASN_Type_SequenceOf \<Rightarrow> {base + t_data t} \<union>
         (if tableList t = [] then {}
          else \<Union> (set (map (\<lambda>k. region (hd (tableList t)) (base + k * t_elemSize t)) [0..<unat (t_maxLen t)])))
     | ASN_Type_Choice \<Rightarrow> {base + t_data t} \<union> \<Union> (set (map (\<lambda>x. region x base) (tableList t)))
     | _ \<Rightarrow> {base + t_data t})"
  by auto

termination
  by (relation "measure (\<lambda>(t, _). size t)") (simp_all add: size_tableList)

declare region.simps [simp del]

lemma flag_region: "flag_at t base \<subseteq> region t base"
  by (subst region.simps) blast

primrec apart :: "nat set list \<Rightarrow> bool" where
  "apart [] = True"
| "apart (A # As) = ((\<forall>B \<in> set As. A \<inter> B = {}) \<and> apart As)"

lemma apart_nth: "apart As \<Longrightarrow> i < j \<Longrightarrow> j < length As \<Longrightarrow> As ! i \<inter> As ! j = {}"
proof (induction As arbitrary: i j)
  case (Cons A As)
  then show ?case by (cases i; cases j) auto
qed simp

function arranged :: "asn_tab \<Rightarrow> nat \<Rightarrow> bool" where
  "arranged t base \<longleftrightarrow> (case t_type t of
       ASN_Type_Sequence \<Rightarrow> apart (flag_at t base # map (\<lambda>x. region x base) (tableList t)) \<and>
         (\<forall>x \<in> set (tableList t). arranged x base)
     | ASN_Type_SequenceOf \<Rightarrow> tableList t \<noteq> [] \<and> base + t_data t \<notin> flag_at t base \<and>
         apart ((flag_at t base \<union> {base + t_data t}) #
           map (\<lambda>k. region (hd (tableList t)) (base + k * t_elemSize t)) [0..<unat (t_maxLen t)]) \<and>
         (\<forall>k \<in> set [0..<unat (t_maxLen t)].
            tableList t \<noteq> [] \<longrightarrow> arranged (hd (tableList t)) (base + k * t_elemSize t))
     | ASN_Type_Choice \<Rightarrow> base + t_data t \<notin> flag_at t base \<and> (\<forall>x \<in> set (tableList t).
         (flag_at t base \<union> {base + t_data t}) \<inter> region x base = {} \<and> arranged x base)
     | _ \<Rightarrow> True)"
  by auto

termination
  by (relation "measure (\<lambda>(t, _). size t)") (auto simp: size_tableList)

declare arranged.simps [simp del]


section \<open>Values of a table\<close>

function fits :: "asn_tab \<Rightarrow> val \<Rightarrow> bool" where
  "fits t v \<longleftrightarrow> (case v of
       VAbsent \<Rightarrow> t_exists t \<noteq> None
     | VInt i \<Rightarrow> t_type t = ASN_Type_Integer \<or>
         t_type t = ASN_Type_BcdString \<and> length (intToBcd i) \<le> unat (t_maxLen t) \<and> i < 0x80000000
     | VOctets xs \<Rightarrow> t_type t = ASN_Type_OctetString \<and> length xs \<le> unat (t_maxLen t) \<and> length xs \<le> 65533
     | VSeq vs \<Rightarrow> t_type t = ASN_Type_Sequence \<and> length vs = length (tableList t) \<and>
         (\<forall>p \<in> set (zip (tableList t) vs). fits (fst p) (snd p))
     | VSeqOf vs \<Rightarrow> t_type t = ASN_Type_SequenceOf \<and> tableList t \<noteq> [] \<and> length vs \<le> unat (t_maxLen t) \<and>
         (\<forall>w \<in> set vs. tableList t \<noteq> [] \<longrightarrow> fits (hd (tableList t)) w)
     | VChoice i w \<Rightarrow> t_type t = ASN_Type_Choice \<and> i < 256 \<and>
         (if i < length (tableList t) then fits (tableList t ! i) w else False))"
  by pat_completeness auto

termination
  by (relation "measure (\<lambda>(t, _). size t)") (auto simp: size_tableList dest: set_zip_leftD)

declare fits.simps [simp del]

text \<open>
  What arrives: a string gets a terminating octet, which counts as a part of it, and the elements
  of a sequence-of come in reverse.
\<close>

primrec received :: "val \<Rightarrow> val" where
  "received VAbsent = VAbsent"
| "received (VInt i) = VInt i"
| "received (VOctets xs) = VOctets (xs @ [0])"
| "received (VSeq vs) = VSeq (map received vs)"
| "received (VSeqOf vs) = VSeqOf (rev (map received vs))"
| "received (VChoice i w) = VChoice i (received w)"

function holds :: "asn_tab \<Rightarrow> nat \<Rightarrow> val \<Rightarrow> omem \<Rightarrow> bool" where
  "holds t base v h \<longleftrightarrow> (case v of
       VAbsent \<Rightarrow> \<not> exists_at t base h
     | VInt i \<Rightarrow> exists_at t base h \<and> t_type t \<in> {ASN_Type_Integer, ASN_Type_BcdString} \<and>
         c_int h (base + t_data t) = i
     | VOctets xs \<Rightarrow> exists_at t base h \<and> t_type t = ASN_Type_OctetString \<and>
         (let s = c_str h (base + t_data t) in s < o_next h \<and> s_p (strs h s) < o_next h \<and> str_octets s h = xs)
     | VSeq vs \<Rightarrow> exists_at t base h \<and> t_type t = ASN_Type_Sequence \<and> length vs = length (tableList t) \<and>
         (\<forall>p \<in> set (zip (tableList t) vs). holds (fst p) base (snd p) h)
     | VSeqOf vs \<Rightarrow> exists_at t base h \<and> t_type t = ASN_Type_SequenceOf \<and> tableList t \<noteq> [] \<and>
         c_int h (base + t_data t) = of_nat (length vs) \<and> length vs \<le> unat (t_maxLen t) \<and>
         (\<forall>k \<in> set [0..<length vs]. tableList t \<noteq> [] \<longrightarrow>
            holds (hd (tableList t)) (base + k * t_elemSize t) (vs ! k) h)
     | VChoice i w \<Rightarrow> exists_at t base h \<and> t_type t = ASN_Type_Choice \<and> i < 256 \<and>
         c_byte h (base + t_data t) = of_nat i \<and>
         (if i < length (tableList t) then holds (tableList t ! i) base w h else False))"
  by pat_completeness auto

termination
  by (relation "measure (\<lambda>(t, _). size t)") (auto simp: size_tableList dest: set_zip_leftD)

declare holds.simps [simp del]

lemma of_nat_octet: "i < 256 \<Longrightarrow> unat (of_nat i :: u8) = i"
  by (simp add: unsigned_of_nat take_bit_eq_mod)

lemma unat_of_nat_max: "n \<le> unat (m :: u32) \<Longrightarrow> unat (of_nat n :: u32) = n"
  using unat_u32 [of m] by (simp add: unsigned_of_nat take_bit_eq_mod)

lemma holds_val: "holds t base v h \<Longrightarrow> val_of t base h = v"
proof (induction t base v h rule: holds.induct)
  case (1 t base v h)
  show ?case
  proof (cases v)
    case VAbsent
    then show ?thesis using 1(4) by (subst val_of.simps) (simp add: holds.simps)
  next
    case (VInt i)
    then show ?thesis using 1(4) by (subst val_of.simps) (auto simp: holds.simps [of t])
  next
    case (VOctets xs)
    then show ?thesis using 1(4) by (subst val_of.simps) (auto simp: holds.simps [of t] Let_def)
  next
    case (VSeq vs)
    then have h: "exists_at t base h" "t_type t = ASN_Type_Sequence" "length vs = length (tableList t)"
      "\<And>p. p \<in> set (zip (tableList t) vs) \<Longrightarrow> holds (fst p) base (snd p) h"
      using 1(4) by (simp_all add: holds.simps [of t])
    have "map (\<lambda>x. val_of x base h) (tableList t) = vs"
    proof (rule nth_equalityI)
      fix i
      assume "i < length (map (\<lambda>x. val_of x base h) (tableList t))"
      then have "(tableList t ! i, vs ! i) \<in> set (zip (tableList t) vs)" "i < length (tableList t)"
        using h(3) by (auto simp: in_set_zip)
      then show "map (\<lambda>x. val_of x base h) (tableList t) ! i = vs ! i"
        using 1(1) [OF VSeq] h(4) by fastforce
    qed (simp add: h(3))
    then show ?thesis using h VSeq by (subst val_of.simps) simp
  next
    case (VSeqOf vs)
    then have h: "exists_at t base h" "t_type t = ASN_Type_SequenceOf" "tableList t \<noteq> []"
      "c_int h (base + t_data t) = of_nat (length vs)" "length vs \<le> unat (t_maxLen t)"
      "\<And>k. k < length vs \<Longrightarrow> holds (hd (tableList t)) (base + k * t_elemSize t) (vs ! k) h"
      using 1(4) by (simp_all add: holds.simps [of t])
    have "map (\<lambda>k. val_of (hd (tableList t)) (base + k * t_elemSize t) h) [0..<length vs] = vs"
      using 1(2) [OF VSeqOf _ h(3)] h(6) by (auto intro!: nth_equalityI)
    then show ?thesis using h VSeqOf unat_of_nat_max [OF h(5)] by (subst val_of.simps) simp
  next
    case (VChoice i w)
    then show ?thesis
      using 1(4) 1(3) [OF VChoice] by (subst val_of.simps) (auto simp: holds.simps [of t] of_nat_octet Let_def split: if_splits)
  qed
qed

lemma exists_at_changes: "changes A h h' \<Longrightarrow> A \<inter> flag_at t base = {} \<Longrightarrow> exists_at t base h' = exists_at t base h"
  by (auto simp: exists_at_def flag_at_def changes_def split: option.splits)

lemma str_octets_changes: "changes A h h' \<Longrightarrow> s < o_next h \<Longrightarrow> s_p (strs h s) < o_next h \<Longrightarrow>
    s < o_next h' \<and> s_p (strs h' s) < o_next h' \<and> str_octets s h' = str_octets s h"
  unfolding changes_def str_octets_def by (auto intro!: octets_at_area)

lemma holds_changes:
  "holds t base v h \<Longrightarrow> changes A h h' \<Longrightarrow> A \<inter> region t base = {} \<Longrightarrow> holds t base v h'"
proof (induction t base v h rule: holds.induct)
  case (1 t base v h)
  have flag: "exists_at t base h' = exists_at t base h"
    using 1(5,6) by (intro exists_at_changes) (auto simp: region.simps [of t])
  have cell: "c_int h' (base + t_data t) = c_int h (base + t_data t)"
    "c_byte h' (base + t_data t) = c_byte h (base + t_data t)"
    "c_str h' (base + t_data t) = c_str h (base + t_data t)"
    if "t_type t \<noteq> ASN_Type_Sequence"
    using 1(5,6) that
    by (auto simp: region.simps [of t] changes_def split: asn_type.splits)
  show ?case
  proof (cases v)
    case VAbsent
    then show ?thesis using 1(4) by (simp add: holds.simps flag)
  next
    case (VInt i)
    then show ?thesis using 1(4) cell by (auto simp: holds.simps [of t] flag)
  next
    case (VOctets xs)
    then show ?thesis
      using 1(4) cell str_octets_changes [OF 1(5)] by (auto simp: holds.simps [of t] flag Let_def)
  next
    case (VSeq vs)
    then have h: "exists_at t base h" "t_type t = ASN_Type_Sequence" "length vs = length (tableList t)"
      "\<And>p. p \<in> set (zip (tableList t) vs) \<Longrightarrow> holds (fst p) base (snd p) h"
      using 1(4) by (simp_all add: holds.simps [of t])
    have "A \<inter> region (fst p) base = {}" if "p \<in> set (zip (tableList t) vs)" for p
    proof -
      have "fst p \<in> set (tableList t)"
        using that by (metis prod.collapse set_zip_leftD)
      then show ?thesis using 1(6) h(2) by (auto simp: region.simps [of t])
    qed
    then have "holds (fst p) base (snd p) h'" if "p \<in> set (zip (tableList t) vs)" for p
      using 1(1) [OF VSeq that] h(4) that 1(5) by blast
    then show ?thesis using h VSeq by (simp add: holds.simps [of t] flag)
  next
    case (VSeqOf vs)
    then have h: "exists_at t base h" "t_type t = ASN_Type_SequenceOf" "tableList t \<noteq> []"
      "c_int h (base + t_data t) = of_nat (length vs)" "length vs \<le> unat (t_maxLen t)"
      "\<And>k. k < length vs \<Longrightarrow> holds (hd (tableList t)) (base + k * t_elemSize t) (vs ! k) h"
      using 1(4) by (simp_all add: holds.simps [of t])
    have "A \<inter> region (hd (tableList t)) (base + k * t_elemSize t) = {}" if "k < length vs" for k
      using that h(3,5) 1(6) h(2) by (auto simp: region.simps [of t])
    then have "holds (hd (tableList t)) (base + k * t_elemSize t) (vs ! k) h'" if "k < length vs" for k
      using 1(2) [OF VSeqOf _ h(3)] h(6) that 1(5) by simp
    then show ?thesis using h VSeqOf cell by (simp add: holds.simps [of t] flag)
  next
    case (VChoice i w)
    then have h: "exists_at t base h" "t_type t = ASN_Type_Choice" "i < 256" "i < length (tableList t)"
      "c_byte h (base + t_data t) = of_nat i" "holds (tableList t ! i) base w h"
      using 1(4) by (auto simp: holds.simps [of t] split: if_splits)
    have "A \<inter> region (tableList t ! i) base = {}"
      using 1(6) h(2,4) by (auto simp: region.simps [of t])
    then have "holds (tableList t ! i) base w h'"
      using 1(3) [OF VChoice h(4,6) 1(5)] by blast
    then show ?thesis using h VChoice cell by (simp add: holds.simps [of t] flag)
  qed
qed

end
