(* ===== verification/Asn_Bcd.thy ===== *)
theory Asn_Bcd
  imports Asn_Format
begin

text \<open>
  Numbers as strings of decimal digits, two to an octet: what \<^verbatim>\<open>intToBcd\<close> writes, \<^verbatim>\<open>bcdToInt\<close>
  reads back, from the string with the terminating \<^verbatim>\<open>0xFF\<close>.
\<close>

definition digit :: "u8 \<Rightarrow> bool" where
  "digit c \<longleftrightarrow> 48 \<le> c \<and> c \<le> 57"

definition packed :: "u8 \<Rightarrow> u8 \<Rightarrow> u8" where
  "packed a c = (push_bit 4 (a - 48) AND 0xF0) OR ((c - 48) AND 0x0F)"

lemma digit_cases:
  assumes "digit c"
  shows "c = 48 \<or> c = 49 \<or> c = 50 \<or> c = 51 \<or> c = 52 \<or> c = 53 \<or> c = 54 \<or> c = 55 \<or> c = 56 \<or> c = 57"
proof -
  have "48 \<le> unat c" "unat c \<le> 57"
    using assms by (simp_all add: digit_def word_le_nat_alt)
  then have "unat c = 48 \<or> unat c = 49 \<or> unat c = 50 \<or> unat c = 51 \<or> unat c = 52 \<or>
      unat c = 53 \<or> unat c = 54 \<or> unat c = 55 \<or> unat c = 56 \<or> unat c = 57"
    by presburger
  then show ?thesis
    by (auto simp: word_unat_eq_iff)
qed

lemma packed_digits:
  assumes "digit a" "digit c"
  shows "(drop_bit 4 (packed a c) AND 0x0F) + 48 = a" "(packed a c AND 0x0F) + 48 = c"
    "packed a c \<noteq> 0xFF"
  using digit_cases [OF assms(1)] digit_cases [OF assms(2)] by (auto simp: packed_def)

lemma unpack_pack:
  assumes "\<forall>c \<in> set ds. digit c" "even (length ds)"
  shows "concat (map (\<lambda>y. [(drop_bit 4 y AND 0x0F) + 48, (y AND 0x0F) + 48])
      (takeWhile (\<lambda>y. y \<noteq> 0xFF) (packBcd ds @ 0xFF # ys))) = ds"
  using assms
proof (induction ds rule: packBcd.induct)
  case (1 a c xs)
  then show ?case
    using packed_digits [of a c] by (simp add: packed_def)
qed simp_all

declare decimal.simps [simp del]

lemma digit_of_nat: "n < 10 \<Longrightarrow> digit (48 + of_nat n) \<and> unat ((48 :: u8) + of_nat n - 48) = n"
proof -
  assume n: "n < 10"
  then have "unat ((48 :: u8) + of_nat n) = 48 + n"
    by (simp add: unat_word_ariths unsigned_of_nat take_bit_eq_mod)
  then show ?thesis
    using n by (simp add: digit_def word_le_nat_alt unsigned_of_nat take_bit_eq_mod)
qed

lemma decimal_digits: "\<forall>c \<in> set (decimal n). digit c"
proof (induction n rule: decimal.induct)
  case (1 n)
  then show ?case
    using digit_of_nat [of n] digit_of_nat [of "n mod 10"] by (subst decimal.simps) auto
qed

lemma decimal_value: "foldl (\<lambda>n c. 10 * n + unat (c - 48)) 0 (decimal n) = n"
proof (induction n rule: decimal.induct)
  case (1 n)
  then show ?case
    using digit_of_nat [of n] digit_of_nat [of "n mod 10"] by (subst decimal.simps) auto
qed

lemma decimal_hd: "decimal n \<noteq> [] \<and> (n \<noteq> 0 \<longrightarrow> hd (decimal n) \<noteq> 48)"
proof (induction n rule: decimal.induct)
  case (1 n)
  show ?case
  proof (cases "n < 10")
    case True
    then show ?thesis
      using digit_of_nat [of n] by (subst (1 2) decimal.simps) auto
  next
    case False
    then show ?thesis
      using 1 by (subst (1 2) decimal.simps) (auto simp: hd_append)
  qed
qed

lemma takeWhile_digits: "\<forall>c \<in> set xs. digit c \<Longrightarrow> takeWhile (\<lambda>c. 48 \<le> c \<and> c \<le> 57) xs = xs"
  by (simp add: takeWhile_eq_all_conv digit_def)

text \<open>The digits that are packed: those of the number, with a zero in front when their number is odd.\<close>

lemma intToBcd_digits:
  obtains z where "intToBcd v = packBcd (z @ decimal (unat v))" "set z \<subseteq> {48}"
    "even (length (z @ decimal (unat v)))" "length z \<le> 1"
proof -
  let ?d = "decimal (unat v)"
  have "filter (\<lambda>c. 48 \<le> c \<and> c \<le> 57) ?d = ?d"
    using decimal_digits by (auto simp: filter_id_conv digit_def)
  moreover have "?d \<noteq> []"
    using decimal_hd by blast
  ultimately have "intToBcd v = packBcd (if even (length ?d) then ?d else [48] @ ?d)"
    by (simp add: intToBcd_def stringToBcd_def Let_def)
  then show ?thesis
    using that [of "if even (length ?d) then [] else [48]"] by (cases "even (length ?d)") auto
qed

lemma bcd_value: "bcdToInt (intToBcd v @ 0xFF # ys) = of_nat (min 2147483647 (unat v))"
proof -
  let ?d = "decimal (unat v)"
  obtain z where z: "intToBcd v = packBcd (z @ ?d)" "set z \<subseteq> {48}" "even (length (z @ ?d))"
    by (rule intToBcd_digits)
  have dig: "\<forall>c \<in> set (z @ ?d). digit c"
    using z(2) decimal_digits by (auto simp: digit_def)
  have "bcdToString (intToBcd v @ 0xFF # ys) =
      (let p = dropWhile (\<lambda>c. c = 48) (z @ ?d) in if p = [] then [48] else p)"
    using unpack_pack [OF dig z(3), of ys] by (simp add: bcdToString_def z(1) Let_def)
  also have "dropWhile (\<lambda>c. c = 48) (z @ ?d) = dropWhile (\<lambda>c. c = 48) ?d"
    using z(2) by (intro dropWhile_append2) auto
  finally have s: "bcdToString (intToBcd v @ 0xFF # ys) =
      (let p = dropWhile (\<lambda>c. c = 48) ?d in if p = [] then [48] else p)" .
  show ?thesis
  proof (cases "unat v = 0")
    case True
    then have "?d = [48]"
      by (simp add: decimal.simps)
    then show ?thesis
      using True s by (simp add: bcdToInt_def atol_def unat_eq_0)
  next
    case False
    then have "dropWhile (\<lambda>c. c = 48) ?d = ?d"
      using decimal_hd [of "unat v"] by (cases ?d) auto
    then have "bcdToString (intToBcd v @ 0xFF # ys) = ?d"
      using s decimal_hd [of "unat v"] by (simp add: Let_def)
    then show ?thesis
      by (simp add: bcdToInt_def atol_def takeWhile_digits decimal_digits decimal_value)
  qed
qed

lemma bcd_roundtrip: "v < 0x80000000 \<Longrightarrow> bcdToInt (intToBcd v @ 0xFF # ys) = v"
  by (simp add: bcd_value min_absorb2 word_less_nat_alt)

text \<open>Larger numbers do not arrive.\<close>

lemma bcd_large: "0x80000000 \<le> v \<Longrightarrow> bcdToInt (intToBcd v @ 0xFF # ys) = 0x7fffffff"
  by (simp add: bcd_value min_absorb1 word_le_nat_alt)

lemma length_packBcd: "length (packBcd ds) = length ds div 2"
  by (induction ds rule: packBcd.induct) auto

lemma length_decimal: "n < 10 ^ k \<Longrightarrow> 0 < k \<Longrightarrow> length (decimal n) \<le> k"
proof (induction n arbitrary: k rule: decimal.induct)
  case (1 n)
  show ?case
  proof (cases "n < 10")
    case True
    then show ?thesis using 1(3) by (simp add: decimal.simps)
  next
    case False
    with 1(2) obtain j where j: "k = Suc j" "0 < j"
      by (cases k; cases "k - 1") auto
    then have "n div 10 < 10 ^ j"
      using 1(2) by (simp add: less_mult_imp_div_less mult.commute)
    then have "length (decimal (n div 10)) \<le> j"
      using 1(1) [OF False] j(2) by blast
    then show ?thesis
      using False j by (subst decimal.simps) simp
  qed
qed

text \<open>A number takes at most five octets.\<close>

lemma length_intToBcd: "length (intToBcd v) \<le> 5"
proof -
  obtain z where z: "intToBcd v = packBcd (z @ decimal (unat v))" "length z \<le> 1"
    by (rule intToBcd_digits)
  have "unat v < 10 ^ 10"
    using unat_u32 [of v] by simp
  then have "length (decimal (unat v)) \<le> 10"
    by (rule length_decimal) simp
  then show ?thesis
    using z by (simp add: length_packBcd)
qed

end
