(* ===== verification/Asn_Strings.thy ===== *)
theory Asn_Strings
  imports Asn_Value Asn_Bcd
begin

text \<open>
  Parsing strings of octets: the octets are collected, chunk by chunk, into a new string.
\<close>

text \<open>The members of the structures, and what stays when a string \<open>s\<close> is written.\<close>

definition members :: "omem \<Rightarrow> (nat \<Rightarrow> u32) \<times> (nat \<Rightarrow> bool) \<times> (nat \<Rightarrow> u8) \<times> (nat \<Rightarrow> ptr)" where
  "members h = (c_int h, c_bool h, c_byte h, c_str h)"

definition same_but :: "ptr \<Rightarrow> omem \<Rightarrow> omem \<Rightarrow> bool" where
  "same_but s h h' \<longleftrightarrow> (\<forall>t. t \<noteq> s \<longrightarrow> strs h' t = strs h t \<and> a_cells h' t = a_cells h t) \<and>
     segs h' = segs h \<and> o_next h' = o_next h \<and> o_fail h' = o_fail h \<and>
     s_p (strs h' s) = s_p (strs h s) \<and> s_maxLen (strs h' s) = s_maxLen (strs h s)"

lemma same_but_trans: "same_but s h1 h2 \<Longrightarrow> same_but s h2 h3 \<Longrightarrow> same_but s h1 h3"
  by (simp add: same_but_def)

text \<open>A string that is being built: its area is its own, and not one of those the buffer reads.\<close>

definition building :: "ptr \<Rightarrow> ptr \<Rightarrow> omem \<Rightarrow> bool" where
  "building b s h \<longleftrightarrow> src b h \<and> s_p (strs h s) = s \<and> s < o_next h \<and>
     (\<forall>g \<in> set (b_segs (heads h b)). g_string (segs h g) \<noteq> s \<and> seg_area g h \<noteq> s)"

lemma building_same:
  assumes "building b s h" "same_but s h h'" "heads h' b = heads h b"
  shows "building b s h' \<and> rest b h' = rest b h"
proof -
  have area: "seg_area g h' = seg_area g h" "seg_octets g h' = seg_octets g h"
    if "g \<in> set (b_segs (heads h b))" for g
  proof -
    show a: "seg_area g h' = seg_area g h"
      using assms(1,2) that by (auto simp: building_def same_but_def seg_area_def)
    show "seg_octets g h' = seg_octets g h"
      using assms(1,2) that a by (intro seg_octets_cong) (auto simp: building_def same_but_def)
  qed
  have later: "later_segs b h' = later_segs b h"
    using assms(2,3) by (simp add: later_segs_def)
  have sub: "set (later_segs b h) \<subseteq> set (b_segs (heads h b))"
    by (auto simp: later_segs_def)
       (metis empty_iff list.set(1) list.set_sel(2) set_dropWhileD tl_Nil)
  have cur: "b_cur (heads h b) \<in> set (b_segs (heads h b))"
    using assms(1) by (simp add: building_def src_def reading_def)
  have "map (\<lambda>g. seg_octets g h') (later_segs b h) = map (\<lambda>g. seg_octets g h) (later_segs b h)"
    using sub area(2) by (auto intro: map_cong)
  moreover have "octets_at (seg_area (b_cur (heads h b)) h) i j h' =
      octets_at (seg_area (b_cur (heads h b)) h) i j h" for i j
    using assms(1,2) cur by (intro octets_at_area) (auto simp: building_def same_but_def)
  moreover have segs: "segs h' = segs h"
    using assms(2) by (simp add: same_but_def)
  ultimately have "rest b h' = rest b h"
    by (simp only: rest_def later area(1) [OF cur] assms(3))
  moreover have "building b s h'"
    using assms(1,2) area(1) segs
    by (simp add: building_def src_def reading_def later assms(3) mem_ok_def same_but_def)
  ultimately show ?thesis by blast
qed

lemma append_building:
  assumes "building b s h" "s_maxLen (strs h s) = 0 \<or> s_len (strs h s) + length xs \<le> s_maxLen (strs h s)"
    and "s_len (strs h s) + length xs < 65536"
  shows "\<exists>h'. run_state (appendOctets s xs) h = (Inr (), h') \<and> building b s h' \<and> rest b h' = rest b h \<and>
    same_but s h h' \<and> str_octets s h' = str_octets s h @ xs \<and>
    s_len (strs h' s) = s_len (strs h s) + length xs \<and> members h' = members h"
proof -
  obtain h' where run: "run_state (appendOctets s xs) h = (Inr (), h')"
    and h': "h' = (put_octets (s_p (strs h s)) (int (s_len (strs h s))) xs h)
       \<lparr>strs := (strs h)(s := (strs h s)\<lparr>s_len := u16 (s_len (strs h s) + length xs)\<rparr>)\<rparr>"
    using assms(2) by (simp add: run_appendOctets)
  have same: "same_but s h h'" "heads h' b = heads h b" "members h' = members h"
    using assms(1) by (simp_all add: h' same_but_def put_octets_cells fun_eq_iff building_def members_def)
  show ?thesis
    using run building_same [OF assms(1) same(1,2)] same
      appendOctets_octets [of h s xs "Inr ()" h'] assms by (auto simp: building_def)
qed

lemma building_move:
  "building b s h \<Longrightarrow> reading b (move b c x h) \<Longrightarrow>
     building b s (move b c x h) \<and> same_but s h (move b c x h) \<and> members (move b c x h) = members h"
  by (auto simp: building_def same_but_def src_def mem_ok_def members_def)

lemma getString_reads:
  "building b s h \<Longrightarrow> rest b h = xs @ ys \<Longrightarrow> unat n = length xs \<Longrightarrow> length xs \<le> fuel \<Longrightarrow>
   s_maxLen (strs h s) = 0 \<or> s_len (strs h s) + length xs \<le> s_maxLen (strs h s) \<Longrightarrow>
   s_len (strs h s) + length xs < 65536 \<Longrightarrow>
   \<exists>h'. run_state (getString fuel b s n) h = (Inr (), h') \<and> building b s h' \<and> rest b h' = ys \<and>
     same_but s h h' \<and> str_octets s h' = str_octets s h @ xs \<and>
     s_len (strs h' s) = s_len (strs h s) + length xs \<and> members h' = members h"
proof (induction fuel arbitrary: h n xs)
  case 0
  then show ?case by (simp add: unat_eq_0 same_but_def)
next
  case (Suc fuel)
  show ?case
  proof (cases "n = 0")
    case True
    then show ?thesis using Suc.prems by (simp add: same_but_def)
  next
    case False
    then have ne: "xs \<noteq> []"
      using Suc.prems(3) by (auto simp: unat_eq_0)
    have small: "unat n < 65536"
      using Suc.prems by (simp add: building_def)
    obtain c y a x k where chunk: "run_state (BUF_getChunk b (unat n)) h = (Inr (k, a, x), move b c y h)"
      "0 < k" "k \<le> unat n" "octets_at a x (x + int k) h = take k xs"
      "reading b (move b c y h)" "rest b (move b c y h) = drop k xs @ ys"
      using BUF_getChunk_reading [of b h "unat n"] Suc.prems ne
      by (fastforce simp: building_def src_def)
    let ?h = "move b c y h"
    have b1: "building b s ?h" "same_but s h ?h" "members ?h = members h"
      using building_move [OF Suc.prems(1) chunk(5)] by simp_all
    have "length (take k xs) = k"
      using chunk(3) Suc.prems(3) by simp
    then obtain h1 where h1: "run_state (STR_appendString s k a x) ?h = (Inr (), h1)" "building b s h1"
      "rest b h1 = drop k xs @ ys" "same_but s ?h h1" "str_octets s h1 = str_octets s h @ take k xs"
      "s_len (strs h1 s) = s_len (strs h s) + k" "members h1 = members h"
      using append_building [OF b1(1), of "take k xs"] b1(3) chunk small Suc.prems(3,5,6)
      by (auto simp: STR_appendString_def str_octets_def)
    have "unat (n - of_nat k) = length (drop k xs)"
      using chunk(3) Suc.prems(3) small
      by (simp add: unat_sub word_le_nat_alt unsigned_of_nat take_bit_nat_eq_self)
    then obtain h2 where "run_state (getString fuel b s (n - of_nat k)) h1 = (Inr (), h2)"
      "building b s h2" "rest b h2 = ys" "same_but s h1 h2"
      "str_octets s h2 = str_octets s h1 @ drop k xs"
      "s_len (strs h2 s) = s_len (strs h1 s) + length (drop k xs)" "members h2 = members h1"
      using Suc.IH [OF h1(2,3)] Suc.prems chunk(2,3) h1(4,6) by (force simp: same_but_def)
    then show ?thesis
      using h1 chunk small False Suc.prems(3) same_but_trans [OF b1(2) same_but_trans [OF h1(4)]] by simp
  qed
qed


lemma same_but_changes:
  "same_but s h1 h2 \<Longrightarrow> changes A h h1 \<Longrightarrow> o_next h \<le> s \<Longrightarrow> members h2 = members h1 \<Longrightarrow> changes A h h2"
  unfolding same_but_def changes_def members_def by auto

lemma parseOctetString_reads:
  assumes "src b h" "rest b h = xs @ ys" "length xs \<le> unat (t_maxLen t)" "length xs \<le> 65533"
  defines "s \<equiv> o_next h"
  shows "\<exists>h'. run_state (parseOctetString t b (of_nat (length xs))) h = (Inr s, h') \<and> building b s h' \<and>
    rest b h' = ys \<and> changes {} h h' \<and> str_octets s h' = xs \<and> s_len (strs h' s) = length xs \<and>
    s_maxLen (strs h' s) = length xs + 2"
proof -
  let ?n = "of_nat (length xs) :: u32"
  have n: "unat ?n = length xs"
    using assms(4) by (simp add: unsigned_of_nat take_bit_eq_mod)
  then have le: "\<not> ?n > t_maxLen t"
    using assms(3) by (simp add: word_less_nat_alt)
  have mem: "mem_ok h"
    using assms(1) by (simp add: src_def)
  define h0 where "h0 = snd (run_state (STR_alloc (length xs + 2)) h)"
  have run0: "run_state (STR_alloc (length xs + 2)) h = (Inr s, h0)"
    by (simp add: h0_def run_STR_alloc [OF mem] s_def)
  have ch: "changes {} h h0" and same: "segs h0 = segs h" "heads h0 b = heads h b" and nx: "o_next h0 = o_next h + 1"
    and str: "strs h0 s = \<lparr>s_refCount = 1, s_status = Str_Status_LocallyAllocated,
      s_maxLen = length xs + 2, s_len = 0, s_p = s\<rparr>"
    using assms(4) by (simp_all add: h0_def run_STR_alloc [OF mem] changes_def s_def)
  have src0: "src b h0" "rest b h0 = xs @ ys"
    using src_cong [OF assms(1) ch same] assms(2) by simp_all
  have "g_string (segs h0 g) \<noteq> s \<and> seg_area g h0 \<noteq> s" if "g \<in> set (b_segs (heads h0 b))" for g
  proof -
    have old: "g_string (segs h g) < s" "seg_area g h < s"
      using assms(1) that by (simp_all add: src_def s_def same)
    then have "strs h0 (g_string (segs h g)) = strs h (g_string (segs h g))"
      using ch by (simp add: changes_def s_def)
    then show ?thesis
      using old by (simp add: seg_area_def same)
  qed
  then have "building b s h0"
    using src0 str nx assms(4) by (simp add: building_def s_def)
  moreover have "str_octets s h0 = []"
    by (simp add: str_octets_def str)
  ultimately obtain h1 where h1: "run_state (getString (unat ?n) b s ?n) h0 = (Inr (), h1)" "building b s h1"
    "rest b h1 = ys" "same_but s h0 h1" "str_octets s h1 = xs" "s_len (strs h1 s) = length xs"
    "members h1 = members h0"
    using getString_reads [OF _ src0(2) n, of s "unat ?n"] n str assms(4) by auto
  have "run_state (parseOctetString t b ?n) h = (Inr s, h1)"
    using le run0 h1(1) n assms(4) by (simp add: parseOctetString_def)
  moreover have "changes {} h h1"
    by (rule same_but_changes [OF h1(4) ch _ h1(7)]) (simp add: s_def)
  moreover have "s_maxLen (strs h1 s) = length xs + 2"
    using h1(4) str by (simp add: same_but_def)
  ultimately show ?thesis using h1 by blast
qed

text \<open>
  The contents of an octet string and of a number in decimal digits, as they are stored in the
  structure.
\<close>

lemma put_building:
  assumes "building b s h" "int (s_len (strs h s)) \<le> i"
  shows "building b s (put_octets s i xs h) \<and> rest b (put_octets s i xs h) = rest b h \<and>
    same_but s h (put_octets s i xs h) \<and> str_octets s (put_octets s i xs h) = str_octets s h"
proof -
  have "same_but s h (put_octets s i xs h)"
    by (simp add: same_but_def put_octets_cells fun_eq_iff)
  then show ?thesis
    using building_same [OF assms(1)] assms by (simp add: str_octets_def put_octets_other)
qed

lemma parseContents_OctetString:
  assumes "t_type t = ASN_Type_OctetString" "src b h" "rest b h = xs @ ys"
    and "length xs \<le> unat (t_maxLen t)" "length xs \<le> 65533" "exists_at t base h"
  shows "parses b {base + t_data t} (parseContents t b base (of_nat (length xs)) L u) ys
    (\<lambda>n h'. n = L + 1 + of_nat (length xs) \<and> holds t base (VOctets (xs @ [0])) h') h"
proof -
  let ?n = "of_nat (length xs) :: u32" and ?a = "base + t_data t"
  define s where "s = o_next h"
  obtain h1 where h1: "run_state (parseOctetString t b ?n) h = (Inr s, h1)" "building b s h1" "rest b h1 = ys"
    "changes {} h h1" "str_octets s h1 = xs" "s_len (strs h1 s) = length xs" "s_maxLen (strs h1 s) = length xs + 2"
    using parseOctetString_reads [OF assms(2-5)] unfolding s_def by blast
  define h2 where "h2 = h1\<lparr>c_str := (c_str h1)(?a := s)\<rparr>"
  have same2: "same_but s h1 h2" "heads h2 b = heads h1 b"
    by (simp_all add: h2_def same_but_def)
  have b2: "building b s h2" "rest b h2 = ys"
    using building_same [OF h1(2) same2] h1(3) by simp_all
  have ch2: "changes {?a} h h2"
    using h1(4) by (auto simp: h2_def changes_def)
  have str2: "strs h2 = strs h1" "str_octets s h2 = xs"
    using h1(5) by (simp_all add: h2_def str_octets_def octets_at_def)
  define h3 where "h3 = put_octets s (int (length xs)) [0] h2"
  have h3: "building b s h3" "rest b h3 = ys" "same_but s h2 h3" "str_octets s h3 = xs"
    using put_building [OF b2(1), of "int (length xs)" "[0]"] b2(2) str2 h1(6) by (simp_all add: h3_def)
  have m3: "members h3 = members h2" "s_len (strs h3 s) = length xs" "s_maxLen (strs h3 s) = length xs + 2"
    using h1(6,7) str2 by (simp_all add: h3_def members_def)
  obtain h4 where h4: "run_state (appendOctets s [0]) h3 = (Inr (), h4)" "building b s h4" "rest b h4 = ys"
    "same_but s h3 h4" "str_octets s h4 = xs @ [0]" "members h4 = members h3"
    using append_building [OF h3(1), of "[0]"] m3 h3 assms(5) by auto
  have ch4: "changes {?a} h h4"
    using same_but_changes [OF same_but_trans [OF h3(3) h4(4)] ch2] h4(6) m3(1) by (simp add: s_def)
  have u: "uint ?n = int (length xs)"
    using assms(5) by (simp add: unsigned_of_nat take_bit_eq_mod)
  have "s_p (strs h2 s) = s"
    using b2(1) by (simp add: building_def)
  then have "run_state (parseContents t b base ?n L u) h = (Inr (L + 1 + ?n), h4)"
    using h1(1) h4(1) assms(1) u
    by (simp add: parseContents.simps STR_stringStart_def h2_def h3_def)
  moreover have "holds t base (VOctets (xs @ [0])) h4"
  proof -
    have c: "c_str h4 ?a = s" "c_bool h4 = c_bool h1"
      using h4(6) m3(1) by (simp_all add: members_def h2_def)
    have "exists_at t base h4 = exists_at t base h1"
      using c by (simp add: exists_at_def split: option.split)
    also have "\<dots> = exists_at t base h"
      using h1(4) by (intro exists_at_changes) auto
    finally show ?thesis
      using h4(2,5) c assms(1,6) by (simp add: holds.simps building_def Let_def)
  qed
  ultimately show ?thesis
    using h4 ch4 by (simp add: parses_def building_def)
qed

lemma parseContents_BcdString:
  assumes "t_type t = ASN_Type_BcdString" "src b h" "rest b h = intToBcd i @ ys"
    and "length (intToBcd i) \<le> unat (t_maxLen t)" "i < 0x80000000" "exists_at t base h"
  shows "parses b {base + t_data t} (parseContents t b base (of_nat (length (intToBcd i))) L u) ys
    (\<lambda>n h'. n = L + 1 + of_nat (length (intToBcd i)) \<and> holds t base (VInt i) h') h"
proof -
  let ?xs = "intToBcd i"
  let ?n = "of_nat (length ?xs) :: u32" and ?a = "base + t_data t"
  define s where "s = o_next h"
  have small: "length ?xs \<le> 5" "length ?xs \<le> 65533"
    using length_intToBcd [of i] by simp_all
  obtain h1 where h1: "run_state (parseOctetString t b ?n) h = (Inr s, h1)" "building b s h1" "rest b h1 = ys"
    "changes {} h h1" "str_octets s h1 = ?xs" "s_len (strs h1 s) = length ?xs"
    using parseOctetString_reads [OF assms(2-4) small(2)] unfolding s_def by blast
  have u: "uint ?n = int (length ?xs)"
    using small by (simp add: unsigned_of_nat take_bit_eq_mod)
  define h2 where "h2 = put_octets s (uint ?n) [0xFF, 0] h1"
  have h2: "building b s h2" "rest b h2 = ys" "same_but s h1 h2" "str_octets s h2 = ?xs"
    using put_building [OF h1(2), of "uint ?n" "[0xFF, 0]"] h1 u by (simp_all add: h2_def)
  have p: "s_p (strs h1 s) = s" "s_p (strs h2 s) = s" "s_len (strs h2 s) = length ?xs"
    using h1(2,6) h2(1) by (simp_all add: building_def h2_def)
  have "octets_at s 0 (uint ?n + 1) h2 = ?xs @ [0xFF]"
  proof -
    have "octets_at s 0 (uint ?n) h2 = ?xs"
      using h2(4) p u by (simp add: str_octets_def)
    moreover have "octets_at s (uint ?n) (uint ?n + 1) h2 = [0xFF]"
      by (simp add: octets_at_def h2_def put_octets_cells)
    ultimately show ?thesis
      using octets_at_split [of 0 "uint ?n" "uint ?n + 1" s h2] by simp
  qed
  moreover have "c_int h2 = c_int h1"
    by (simp add: h2_def)
  ultimately have run: "run_state (parseContents t b base ?n L u) h = (Inr (L + 1 + ?n), h2\<lparr>c_int := (c_int h2)(?a := i)\<rparr>)"
    using h1(1) assms(1) p bcd_roundtrip [OF assms(5), of "[]"]
    by (simp add: parseContents.simps STR_stringStart_def h2_def [symmetric] set_int_def)
  define h3 where "h3 = h2\<lparr>c_int := (c_int h2)(?a := i)\<rparr>"
  have "same_but s h2 h3" "heads h3 b = heads h2 b"
    by (simp_all add: h3_def same_but_def)
  then have b3: "building b s h3" "rest b h3 = ys"
    using building_same [OF h2(1)] h2(2) by simp_all
  have "changes {} h h2"
    using same_but_changes [OF h2(3) h1(4)] by (simp add: s_def members_def h2_def)
  then have ch: "changes {?a} h h3" and e: "exists_at t base h2 = exists_at t base h"
    by (auto simp: h3_def changes_def exists_at_def split: option.split)
  then have "holds t base (VInt i) h3"
    using assms(1,6) by (auto simp: holds.simps h3_def exists_at_def split: option.splits)
  then show ?thesis
    using run [folded h3_def] b3 ch by (simp add: parses_def building_def)
qed

end
