(* ===== verification/Asn_Parse.thy ===== *)
theory Asn_Parse
  imports Asn_Strings
begin

unbundle bit_operations_syntax

text \<open>
  The parser on what the formatter writes: on the encoding of a value that fits the table, it takes
  exactly the encoding and leaves a structure that holds the value. An element that is not there is
  told from the tag of what follows it.
\<close>

section \<open>Headers\<close>

definition headed :: "asn_tab \<Rightarrow> bool" where
  "headed t \<longleftrightarrow> (t_type t \<noteq> ASN_Type_Choice \<and> t_tag t \<noteq> 0) \<or> t_tag t AND ASN_EXPLICIT \<noteq> 0"

lemma run_set_exists:
  assumes "src b h"
  shows "\<exists>h1. run_state (set_exists t base v) h = ((), h1) \<and> src b h1 \<and> rest b h1 = rest b h \<and>
    changes (flag_at t base) h h1 \<and> (if t_exists t = None then h1 = h else exists_at t base h1 = v)"
proof (cases "t_exists t")
  case None
  then show ?thesis using assms by (simp add: set_exists_def)
next
  case (Some e)
  let ?h = "h\<lparr>c_bool := (c_bool h)(base + e := v)\<rparr>"
  have ch: "changes (flag_at t base) h ?h"
    by (auto simp: changes_def flag_at_def Some)
  then show ?thesis
    using src_cong [OF assms ch] by (simp add: set_exists_def Some exists_at_def)
qed

lemma parseHeader_match:
  assumes "headed t" "src b h" "rest b h = x # lenOctets len @ ys" "key x = key (t_tag t)" "len \<le> n"
  shows "parses b (flag_at t base) (parseHeader t b base n) ys
    (\<lambda>r h'. r = Some (len, of_nat (length (lenOctets len)), of_nat (length (lenOctets len)) + 1) \<and>
       exists_at t base h') h"
proof -
  have tag: "x AND NOT CONSTRUCTOR = t_tag t AND NOT ASN_EXPLICIT"
    using assms(4) by (simp add: key_def)
  obtain h1 where h1: "run_state (BUF_getOctet b) h = (Inr x, h1)" "src b h1" "rest b h1 = lenOctets len @ ys"
    "changes {} h h1"
    using buf.get_Cons [OF assms(2,3)] by blast
  obtain h2 where h2: "run_state (set_exists t base True) h1 = ((), h2)" "src b h2" "rest b h2 = lenOctets len @ ys"
    "changes (flag_at t base) h1 h2" "exists_at t base h2"
    using run_set_exists [OF h1(2), of t base True] h1(3) by (auto simp: exists_at_def split: if_splits)
  obtain h3 where h3: "run_state (parseLength (BUF_getOctet b)) h2 = (Inr (len, of_nat (length (lenOctets len))), h3)"
    "src b h3" "rest b h3 = ys" "changes {} h2 h3"
    using buf.parseLength_reads [OF h2(2,3)] by blast
  have "changes (flag_at t base) h h3"
    using changes_trans [OF changes_mono [OF h1(4)] changes_trans [OF h2(4) changes_mono [OF h3(4)]]] by simp
  moreover have "exists_at t base h3"
    using exists_at_changes [OF h3(4)] h2(5) by simp
  ultimately show ?thesis
    using assms(1,5) h1(1) h2(1) h3 tag
    by (auto simp: parses_def parseHeader_def headed_def not_less)
qed

text \<open>The tag of something else: an optional element is not there, a mandatory one is an error.\<close>

lemma parseHeader_mismatch:
  assumes "headed t" "src b h" "rest b h = x # xs" "key x \<noteq> key (t_tag t)"
  shows "\<exists>h'. run_state (parseHeader t b base n) h =
      (if t_exists t = None then Inl ASN_RC_WrongTag else Inr None, h') \<and> src b h' \<and> rest b h' = x # xs \<and>
    changes (flag_at t base) h h' \<and> (t_exists t \<noteq> None \<longrightarrow> \<not> exists_at t base h')"
proof -
  have tag: "x AND NOT CONSTRUCTOR \<noteq> t_tag t AND NOT ASN_EXPLICIT"
    using assms(4) by (simp add: key_def)
  obtain c y where g: "run_state (BUF_getOctet b) h = (Inr x, move b c y h)"
    "run_state (BUF_ungetOctet b) (move b c y h) = (Inr (), move b c (y - 1) h)"
    "reading b (move b c (y - 1) h)" "rest b (move b c (y - 1) h) = x # xs"
    using BUF_getOctet_reading [of b h x xs] assms(2,3) by (auto simp: src_def)
  let ?h = "move b c (y - 1) h"
  have s: "src b ?h"
    by (rule src_move [OF assms(2) g(3)])
  show ?thesis
  proof (cases "t_exists t")
    case None
    then show ?thesis
      using assms(1) g s tag by (auto simp: parseHeader_def headed_def)
  next
    case (Some e)
    let ?h' = "?h\<lparr>c_bool := (c_bool ?h)(base + e := False)\<rparr>"
    have ch: "changes (flag_at t base) ?h ?h'"
      by (auto simp: changes_def flag_at_def Some)
    have "src b ?h' \<and> rest b ?h' = rest b ?h"
      by (rule src_cong [OF s ch]) simp_all
    moreover have "changes (flag_at t base) h ?h'"
      by (rule changes_trans [OF changes_move ch])
    ultimately show ?thesis
      using assms(1) g tag Some
      by (auto simp: parseHeader_def headed_def set_exists_def exists_at_def)
  qed
qed

lemma parse_headed:
  assumes "headed t" "src b h" "rest b h = wrap tg c @ ys" "tg \<noteq> 0" "key tg = key (t_tag t)"
    and "length (wrap tg c) \<le> unat n" and "flag_at t base \<subseteq> A"
    and "\<And>h1 L. src b h1 \<Longrightarrow> rest b h1 = c @ ys \<Longrightarrow> changes (flag_at t base) h h1 \<Longrightarrow> exists_at t base h1 \<Longrightarrow>
      L + 1 + of_nat (length c) = of_nat (length (wrap tg c)) \<Longrightarrow>
      parses b A (parseContents t b base (of_nat (length c)) L (L + 1)) ys Q h1"
  shows "parses b A (asn_berParse t b base n) ys Q h"
proof -
  let ?len = "of_nat (length c) :: u32" and ?L = "of_nat (length (lenOctets (of_nat (length c)))) :: u32"
  have w: "length (wrap tg c) = 1 + length (lenOctets ?len) + length c"
    using assms(4) by (simp add: wrap_def)
  then have len: "?len \<le> n"
    using assms(6) unat_of_nat_max [of "length c" n] by (simp add: word_le_nat_alt)
  have r: "rest b h = tg # lenOctets ?len @ c @ ys"
    using assms(3,4) by (simp add: wrap_def)
  have total: "?L + 1 + ?len = of_nat (length (wrap tg c))"
    by (simp add: w)
  obtain h1 where h1: "run_state (parseHeader t b base n) h = (Inr (Some (?len, ?L, ?L + 1)), h1)"
    "src b h1" "rest b h1 = c @ ys" "changes (flag_at t base) h h1" "exists_at t base h1"
    using parseHeader_match [OF assms(1,2) r assms(5) len, of base] by (auto simp: parses_def)
  show ?thesis
    using assms(8) [OF h1(2-5) total] h1(1) changes_trans [OF changes_mono [OF h1(4) assms(7)]]
    by (auto simp: asn_berParse.simps parses_def)
qed


section \<open>Elements that are not there\<close>

definition misses :: "ptr \<Rightarrow> asn_tab \<Rightarrow> nat \<Rightarrow> (omem, u32) rc_op \<Rightarrow> omem \<Rightarrow> bool" where
  "misses b t base m h \<longleftrightarrow> (\<exists>h'. run_state m h =
      (if t_exists t = None then Inl ASN_RC_WrongTag else Inr 0, h') \<and> src b h' \<and> rest b h' = rest b h \<and>
    changes (flag_at t base) h h' \<and> (t_exists t \<noteq> None \<longrightarrow> \<not> exists_at t base h'))"

lemma parseChoice_mismatch:
  assumes "\<And>x h. x \<in> set ts \<Longrightarrow> src b h \<Longrightarrow> rest b h = y # ys \<Longrightarrow>
      t_exists x = None \<and> misses b x base (asn_berParse x b base n) h"
    and "src b h" "rest b h = y # ys"
  shows "\<exists>h'. run_state (parseChoice ts i e b base n) h =
      (Inr (Inl (if ts = [] then e else ASN_RC_WrongTag)), h') \<and> src b h' \<and> rest b h' = y # ys \<and> changes {} h h'"
  using assms
proof (induction ts arbitrary: i e h)
  case Nil
  then show ?case by simp
next
  case (Cons t ts)
  have t: "t_exists t = None" "misses b t base (asn_berParse t b base n) h"
    using Cons.prems by simp_all
  then obtain h1 where h1: "run_state (asn_berParse t b base n) h = (Inl ASN_RC_WrongTag, h1)" "src b h1"
    "rest b h1 = y # ys" "changes {} h h1"
    using Cons.prems(3) by (auto simp: misses_def flag_at_def)
  obtain h2 where "run_state (parseChoice ts (i + 1) ASN_RC_WrongTag b base n) h1 =
      (Inr (Inl ASN_RC_WrongTag), h2)" "src b h2" "rest b h2 = y # ys" "changes {} h1 h2"
    using Cons.IH [of h1 "i + 1" ASN_RC_WrongTag] Cons.prems(1) h1 by auto
  then show ?case
    using h1 changes_trans [OF h1(4)] by simp
qed

lemma choice_mandatory: "choice_tags ts \<Longrightarrow> x \<in> set ts \<Longrightarrow> t_exists x = None"
  by (induction ts) auto

lemma starts_headed: "headed t \<Longrightarrow> starts t = {key (t_tag t)}"
  by (subst starts.simps) (auto simp: headed_def)

lemma not_headed:
  assumes "tags_ok t" "\<not> headed t"
  shows "t_type t = ASN_Type_Choice" "t_tag t = 0" "starts t = \<Union> (starts ` set (tableList t))"
    "\<forall>x \<in> set (tableList t). tags_ok x" "choice_tags (tableList t)" "tableList t \<noteq> []"
proof -
  show 1: "t_type t = ASN_Type_Choice"
    using assms by (auto simp: headed_def tags_ok.simps split: asn_type.splits)
  then show 2: "t_tag t = 0"
    using assms by (auto simp: headed_def tags_ok.simps)
  show "starts t = \<Union> (starts ` set (tableList t))"
    using 1 2 by (subst starts.simps [of t]) simp
  show "\<forall>x \<in> set (tableList t). tags_ok x" "choice_tags (tableList t)" "tableList t \<noteq> []"
    using assms(1) 1 by (simp_all add: tags_ok.simps [of t])
qed

lemma parse_mismatch:
  "tags_ok t \<Longrightarrow> src b h \<Longrightarrow> rest b h = x # xs \<Longrightarrow> key x \<notin> starts t \<Longrightarrow>
     misses b t base (asn_berParse t b base n) h"
proof (induction t arbitrary: h n rule: measure_induct_rule [of size])
  case (less t)
  show ?case
  proof (cases "headed t")
    case True
    then have "key x \<noteq> key (t_tag t)"
      using less.prems(4) by (simp add: starts_headed)
    then show ?thesis
      using parseHeader_mismatch [OF True less.prems(2,3), of base n] less.prems(3)
      by (auto simp: misses_def asn_berParse.simps split: if_splits)
  next
    case False
    note c = not_headed [OF less.prems(1) False]
    have "\<exists>h'. run_state (parseChoice (tableList t) 0 Fail b base 0xffffffff) h =
      (Inr (Inl (if tableList t = [] then Fail else ASN_RC_WrongTag)), h') \<and> src b h' \<and> rest b h' = x # xs \<and>
      changes {} h h'"
    proof (rule parseChoice_mismatch [OF _ less.prems(2,3)])
      fix y h
      assume y: "y \<in> set (tableList t)" "src b h" "rest b h = x # xs"
      have "misses b y base (asn_berParse y b base 0xffffffff) h"
        using less.IH [OF size_tableList [OF y(1)]] y c less.prems(4) by auto
      then show "t_exists y = None \<and> misses b y base (asn_berParse y b base 0xffffffff) h"
        using choice_mandatory [OF c(5) y(1)] by simp
    qed
    then obtain h1 where h1: "run_state (parseChoice (tableList t) 0 Fail b base 0xffffffff) h =
        (Inr (Inl ASN_RC_WrongTag), h1)" "src b h1" "rest b h1 = x # xs" "changes {} h h1"
      using c(6) by auto
    have head: "run_state (parseHeader t b base n) h = (Inr (Some (0xffffffff, 0, 0)), h)"
      using False c(2) by (simp add: parseHeader_def headed_def)
    obtain h2 where h2: "run_state (set_exists t base False) h1 = ((), h2)" "src b h2" "rest b h2 = x # xs"
      "changes (flag_at t base) h1 h2" "if t_exists t = None then h2 = h1 else \<not> exists_at t base h2"
      using run_set_exists [OF h1(2), of t base False] h1(3) by auto
    show ?thesis
      using h1 h2 head c(1) less.prems(3) changes_trans [OF changes_mono [OF h1(4)] h2(4)]
      by (auto simp: misses_def asn_berParse.simps parseContents.simps changes_mono [OF h1(4)])
  qed
qed

lemma or_constructor: "(tg :: u8) OR 0x20 \<noteq> 0"
proof
  assume "tg OR 0x20 = 0"
  then have "key (tg OR 0x20) = tg OR 0x20" "(tg OR 0x20) AND 0x20 = 0"
    by (simp_all add: key_def)
  moreover have "(tg OR 0x20) AND 0x20 = 0x20"
    by (rule bit_word_eqI) (auto simp: bit_simps)
  ultimately show False by simp
qed

text \<open>The encoding of something that is there starts with one of its tags.\<close>

lemma enc_starts:
  "tags_ok t \<Longrightarrow> fits t v \<Longrightarrow> v \<noteq> VAbsent \<Longrightarrow> \<exists>x xs. ber t v = x # xs \<and> key x \<in> starts t"
proof (induction t arbitrary: v rule: measure_induct_rule [of size])
  case (less t)
  show ?case
  proof (cases v)
    case VAbsent
    then show ?thesis using less.prems by simp
  next
    case (VInt i)
    then show ?thesis
      using less.prems
      by (auto simp: fits.simps [of t] tags_ok.simps [of t] ber.simps [of t] wrap_def starts.simps [of t])
  next
    case (VOctets xs)
    then show ?thesis
      using less.prems
      by (auto simp: fits.simps [of t] tags_ok.simps [of t] ber.simps [of t] wrap_def starts.simps [of t])
  next
    case (VSeq vs)
    then show ?thesis
      using less.prems or_constructor
      by (auto simp: fits.simps [of t] tags_ok.simps [of t] ber.simps [of t] wrap_def starts.simps [of t])
  next
    case (VSeqOf vs)
    then show ?thesis
      using less.prems or_constructor
      by (auto simp: fits.simps [of t] tags_ok.simps [of t] ber.simps [of t] wrap_def starts.simps [of t])
  next
    case (VChoice i w)
    then have i: "t_type t = ASN_Type_Choice" "i < length (tableList t)" "fits (tableList t ! i) w"
      using less.prems(2) by (auto simp: fits.simps [of t] split: if_splits)
    then have alt: "tags_ok (tableList t ! i)" "choice_tags (tableList t)" "tableList t ! i \<in> set (tableList t)"
      using less.prems(1) by (simp_all add: tags_ok.simps [of t])
    show ?thesis
    proof (cases "headed t")
      case True
      then show ?thesis
        using i VChoice by (auto simp: ber.simps [of t] wrap_def starts_headed headed_def)
    next
      case False
      note c = not_headed [OF less.prems(1) False]
      have "w \<noteq> VAbsent"
        using i(3) choice_mandatory [OF alt(2,3)] by (auto simp: fits.simps)
      then have "\<exists>x xs. ber (tableList t ! i) w = x # xs \<and> key x \<in> starts (tableList t ! i)"
        by (rule less.IH [OF size_tableList [OF alt(3)] alt(1) i(3)])
      then show ?thesis
        using i alt(3) c(2,3) VChoice by (auto simp: ber.simps [of t] wrap_def intro: nth_mem)
    qed
  qed
qed


section \<open>Elements\<close>

definition clear :: "nat set \<Rightarrow> omem \<Rightarrow> bool" where
  "clear A h \<longleftrightarrow> (\<forall>a \<in> A. \<not> c_bool h a)"

lemma clear_changes: "clear A h \<Longrightarrow> changes B h h' \<Longrightarrow> A \<inter> B = {} \<Longrightarrow> clear A h'"
  by (auto simp: clear_def changes_def)

lemma clear_mono: "clear A h \<Longrightarrow> B \<subseteq> A \<Longrightarrow> clear B h"
  by (auto simp: clear_def)

definition decodes :: "asn_tab \<Rightarrow> bool" where
  "decodes t \<longleftrightarrow> (\<forall>b base n h v ys. arranged t base \<longrightarrow> fits t v \<longrightarrow> v \<noteq> VAbsent \<longrightarrow> src b h \<longrightarrow>
     rest b h = ber t v @ ys \<longrightarrow> length (ber t v) \<le> unat n \<longrightarrow> clear (region t base) h \<longrightarrow>
     parses b (region t base) (asn_berParse t b base n) ys
       (\<lambda>k h'. k = of_nat (length (ber t v)) \<and> holds t base (received v) h') h)"

lemma absent_holds: "fits t VAbsent \<Longrightarrow> clear (region t base) h \<Longrightarrow> holds t base VAbsent h"
  using flag_region [of t base]
  by (auto simp: fits.simps holds.simps exists_at_def clear_def flag_at_def split: option.splits)

lemma parse_element:
  assumes "decodes t" "tags_ok t" "arranged t base" "fits t v" "src b h" "rest b h = ber t v @ ys"
    "length (ber t v) \<le> unat n" "clear (region t base) h"
    and "v = VAbsent \<Longrightarrow> \<exists>x xs. ys = x # xs \<and> key x \<notin> starts t"
  shows "parses b (region t base) (asn_berParse t b base n) ys
    (\<lambda>k h'. k = of_nat (length (ber t v)) \<and> holds t base (received v) h') h"
proof (cases "v = VAbsent")
  case False
  then show ?thesis
    using assms(1,3-8) unfolding decodes_def by blast
next
  case True
  obtain x xs where ys: "ys = x # xs" "key x \<notin> starts t"
    using assms(9) [OF True] by blast
  have r: "rest b h = x # xs"
    using assms(6) ys by (simp add: True)
  have "t_exists t \<noteq> None"
    using assms(4) by (simp add: True fits.simps)
  then obtain h1 where "run_state (asn_berParse t b base n) h = (Inr 0, h1)" "src b h1" "rest b h1 = ys"
    "changes (flag_at t base) h h1" "\<not> exists_at t base h1"
    using parse_mismatch [OF assms(2,5) r ys(2), of base n] r ys(1) by (auto simp: misses_def)
  then show ?thesis
    using changes_mono [OF _ flag_region] by (auto simp: parses_def True holds.simps)
qed


section \<open>Sequences\<close>

lemma fits_absent: "fits t VAbsent \<longleftrightarrow> t_exists t \<noteq> None"
  by (simp add: fits.simps)

lemma seq_starts:
  "length vs = length ts \<Longrightarrow> \<forall>p \<in> set (zip ts vs). tags_ok (fst p) \<and> fits (fst p) (snd p) \<Longrightarrow>
   concat (map (\<lambda>(t, w). ber t w) (zip ts vs)) = x # xs \<Longrightarrow> key x \<in> follow ts"
proof (induction vs ts rule: list_induct2)
  case (Cons v vs t ts)
  show ?case
  proof (cases "v = VAbsent")
    case True
    then show ?thesis
      using Cons by (auto simp: fits_absent)
  next
    case False
    then show ?thesis
      using Cons.prems enc_starts [of t v] by auto
  qed
qed simp

lemma seq_empty:
  "length vs = length ts \<Longrightarrow> \<forall>p \<in> set (zip ts vs). tags_ok (fst p) \<and> fits (fst p) (snd p) \<Longrightarrow>
   concat (map (\<lambda>(t, w). ber t w) (zip ts vs)) = [] \<Longrightarrow> vs = replicate (length ts) VAbsent"
proof (induction vs ts rule: list_induct2)
  case (Cons v vs t ts)
  then show ?case
    using enc_starts [of t v] by fastforce
qed simp

lemma parseSeq_reads:
  assumes "length vs = length ts"
    and "\<forall>p \<in> set (zip ts vs). tags_ok (fst p) \<and> decodes (fst p) \<and> arranged (fst p) base \<and> fits (fst p) (snd p)"
    and "seq_tags ts" "apart (map (\<lambda>t. region t base) ts)"
    and "src b h" "rest b h = concat (map (\<lambda>(t, w). ber t w) (zip ts vs)) @ ys"
    and "unat n = length (concat (map (\<lambda>(t, w). ber t w) (zip ts vs)))"
    and "clear (\<Union> (set (map (\<lambda>t. region t base) ts))) h"
  shows "parses b (\<Union> (set (map (\<lambda>t. region t base) ts))) (parseSeq ts b base n) ys
    (\<lambda>_ h'. \<forall>p \<in> set (zip ts vs). holds (fst p) base (received (snd p)) h') h"
  using assms
proof (induction vs ts arbitrary: h n rule: list_induct2)
  case Nil
  then show ?case by (simp add: parses_ok)
next
  case (Cons v vs t ts)
  let ?rest = "concat (map (\<lambda>(t, w). ber t w) (zip ts vs))"
  let ?R = "\<Union> (set (map (\<lambda>t. region t base) ts))"
  have t: "tags_ok t" "decodes t" "arranged t base" "fits t v"
    and ok: "\<forall>p \<in> set (zip ts vs). tags_ok (fst p) \<and> fits (fst p) (snd p)"
    using Cons.prems(1) by simp_all
  have disj: "region t base \<inter> ?R = {}"
    using Cons.prems(3) by auto
  have clr: "clear (region t base) h" "clear ?R h"
    using Cons.prems(7) by (auto simp: clear_def)
  show ?case
  proof (cases "n = 0")
    case True
    have "ber t v = []" "?rest = []"
      using Cons.prems(6) True by auto
    then have v: "v = VAbsent" "vs = replicate (length ts) VAbsent"
      using enc_starts [OF t(1,4)] seq_empty [OF Cons.hyps ok] by auto
    have "holds (fst p) base VAbsent h \<and> snd p = VAbsent" if "p \<in> set (zip (t # ts) (v # vs))" for p
    proof -
      have p: "fst p \<in> set (t # ts)" "snd p = VAbsent"
        using that by (auto simp: v zip_replicate2)
      moreover have "fits (fst p) VAbsent"
        using Cons.prems(1) that p(2) by force
      moreover have "clear (region (fst p) base) h"
        using Cons.prems(7) p(1) by (auto simp: clear_def)
      ultimately show ?thesis using absent_holds by blast
    qed
    then have "\<forall>p \<in> set (zip (t # ts) (v # vs)). holds (fst p) base (received (snd p)) h"
      by fastforce
    then show ?thesis
      using True Cons.prems(4,5) \<open>ber t v = []\<close> \<open>?rest = []\<close> by (simp add: parses_def)
  next
    case False
    have len: "length (ber t v) \<le> unat n" "unat n = length (ber t v) + length ?rest"
      using Cons.prems(6) by simp_all
    have next_tag: "\<exists>x xs. ?rest @ ys = x # xs \<and> key x \<notin> starts t" if "v = VAbsent"
    proof -
      have "unat n \<noteq> 0"
        using False by (simp add: unat_eq_0)
      then have "length ?rest \<noteq> 0"
        using len(2) that by (simp only: enc_absent list.size)
      then have "?rest \<noteq> []"
        by (simp only: length_0_conv simp_thms)
      then obtain x xs where x: "?rest = x # xs" by (cases ?rest) auto
      then have "key x \<in> follow ts"
        by (rule seq_starts [OF Cons.hyps ok])
      moreover have "starts t \<inter> follow ts = {}"
        using Cons.prems(2) t(4) that by (simp add: fits_absent)
      ultimately show ?thesis using x by auto
    qed
    have first: "parses b (region t base) (asn_berParse t b base n) (?rest @ ys)
        (\<lambda>k h'. k = of_nat (length (ber t v)) \<and> holds t base (received v) h') h"
      using Cons.prems(5) by (intro parse_element t Cons.prems(4) len(1) clr(1) next_tag) simp_all
    obtain h1 where h1: "run_state (asn_berParse t b base n) h = (Inr (of_nat (length (ber t v))), h1)"
      "src b h1" "rest b h1 = ?rest @ ys" "changes (region t base) h h1" "holds t base (received v) h1"
      using first by (auto simp: parses_def)
    have u: "unat (of_nat (length (ber t v)) :: u32) = length (ber t v)"
      by (rule unat_of_nat_max [OF len(1)])
    then have le: "\<not> of_nat (length (ber t v)) > n" and left: "unat (n - of_nat (length (ber t v))) = length ?rest"
      using len by (simp_all add: word_less_nat_alt unat_sub word_le_nat_alt)
    have clr1: "clear ?R h1"
      by (rule clear_changes [OF clr(2) h1(4)]) (use disj in blast)
    have "parses b ?R (parseSeq ts b base (n - of_nat (length (ber t v)))) ys
        (\<lambda>_ h'. \<forall>p \<in> set (zip ts vs). holds (fst p) base (received (snd p)) h') h1"
      using Cons.prems(1-3) left by (intro Cons.IH h1(2,3) clr1) auto
    then obtain h2 where h2: "run_state (parseSeq ts b base (n - of_nat (length (ber t v)))) h1 = (Inr (), h2)"
      "src b h2" "rest b h2 = ys" "changes ?R h1 h2"
      "\<forall>p \<in> set (zip ts vs). holds (fst p) base (received (snd p)) h2"
      by (auto simp: parses_def)
    have "holds t base (received v) h2"
      by (rule holds_changes [OF h1(5) h2(4)]) (use disj in blast)
    moreover have "changes (\<Union> (set (map (\<lambda>t. region t base) (t # ts)))) h h2"
      by (rule changes_trans [OF changes_mono [OF h1(4)] changes_mono [OF h2(4)]]) auto
    ultimately show ?thesis
      using h1(1) h2 le False by (simp add: parses_def)
  qed
qed


section \<open>Sequences of\<close>

lemma parseSeqOf_reads:
  assumes "decodes e" "tags_ok e" "t_exists e = None" "\<forall>w \<in> set ws. fits e w"
    and "count + length ws \<le> maxCount" "count + length ws \<le> unat (m :: u32)"
    and "\<forall>k < length ws. arranged e (base + k * sz) \<and> pc \<notin> region e (base + k * sz) \<and>
      clear (region e (base + k * sz)) h"
    and "\<forall>k < length ws. \<forall>j < k. region e (base + j * sz) \<inter> region e (base + k * sz) = {}"
    and "src b h" "rest b h = concat (map (ber e) ws) @ ys"
    and "unat n = length (concat (map (ber e) ws))" "c_int h pc = of_nat count"
  shows "parses b ({pc} \<union> (\<Union>k < length ws. region e (base + k * sz)))
    (parseSeqOf count maxCount e sz pc b base n) ys
    (\<lambda>_ h'. c_int h' pc = of_nat (count + length ws) \<and>
       (\<forall>k < length ws. holds e (base + k * sz) (received (ws ! k)) h')) h"
  using assms
proof (induction ws arbitrary: count base h n)
  case Nil
  then show ?case by (simp add: parseSeqOf.simps parses_ok unat_eq_0)
next
  case (Cons w ws)
  let ?rest = "concat (map (ber e) ws)"
  let ?R = "\<lambda>k. region e (base + sz + k * sz)"
  let ?A = "{pc} \<union> (\<Union>k < length ws. ?R k)"
  have shift: "(\<Union>k < length (w # ws). region e (base + k * sz)) = region e base \<union> (\<Union>k < length ws. ?R k)"
  proof -
    have "{..<length (w # ws)} = insert 0 (Suc ` {..<length ws})"
      by (simp add: lessThan_Suc_eq_insert_0)
    then show ?thesis by (simp add: add.assoc)
  qed
  have w: "fits e w" "w \<noteq> VAbsent"
    using Cons.prems(3,4) by (auto simp: fits_absent)
  have 0: "arranged e base" "pc \<notin> region e base" "clear (region e base) h"
    using Cons.prems(7) [rule_format, of 0] by simp_all
  have later: "arranged e (base + sz + k * sz)" "pc \<notin> ?R k" "clear (?R k) h" "region e base \<inter> ?R k = {}"
    if "k < length ws" for k
    using Cons.prems(7) [rule_format, of "Suc k"] Cons.prems(8) [rule_format, of "Suc k" 0] that
    by (simp_all add: add.assoc)
  obtain x xs where x: "ber e w = x # xs"
    using enc_starts [OF Cons.prems(2) w] by blast
  have len: "length (ber e w) \<le> unat n" "unat n = length (ber e w) + length ?rest" "n \<noteq> 0"
    using Cons.prems(11) x by auto
  have "parses b (region e base) (asn_berParse e b base n) (?rest @ ys)
      (\<lambda>k h'. k = of_nat (length (ber e w)) \<and> holds e base (received w) h') h"
    using Cons.prems(1,9,10) 0 w len(1) unfolding decodes_def by simp
  then obtain h1 where h1: "run_state (asn_berParse e b base n) h = (Inr (of_nat (length (ber e w))), h1)"
    "src b h1" "rest b h1 = ?rest @ ys" "changes (region e base) h h1" "holds e base (received w) h1"
    by (auto simp: parses_def)
  let ?h2 = "h1\<lparr>c_int := (c_int h1)(pc := of_nat (count + 1))\<rparr>"
  have ch2: "changes {pc} h1 ?h2"
    by (simp add: changes_def)
  have src2: "src b ?h2" "rest b ?h2 = ?rest @ ys"
    using src_cong [OF h1(2) ch2] h1(3) by simp_all
  have hold2: "holds e base (received w) ?h2"
    by (rule holds_changes [OF h1(5) ch2]) (use 0(2) in simp)
  have u: "unat (of_nat (length (ber e w)) :: u32) = length (ber e w)"
    by (rule unat_of_nat_max [OF len(1)])
  then have le: "\<not> of_nat (length (ber e w)) > n" and left: "unat (n - of_nat (length (ber e w))) = length ?rest"
    using len by (simp_all add: word_less_nat_alt unat_sub word_le_nat_alt)
  have "parses b ?A (parseSeqOf (count + 1) maxCount e sz pc b (base + sz) (n - of_nat (length (ber e w)))) ys
      (\<lambda>_ h'. c_int h' pc = of_nat (count + 1 + length ws) \<and>
        (\<forall>k < length ws. holds e (base + sz + k * sz) (received (ws ! k)) h')) ?h2"
  proof (rule Cons.IH [OF Cons.prems(1-3)])
    show "\<forall>k < length ws. arranged e (base + sz + k * sz) \<and> pc \<notin> ?R k \<and> clear (?R k) ?h2"
    proof (intro allI impI)
      fix k
      assume k: "k < length ws"
      have "clear (?R k) h1"
        by (rule clear_changes [OF later(3) [OF k] h1(4)]) (use later(4) [OF k] in blast)
      then show "arranged e (base + sz + k * sz) \<and> pc \<notin> ?R k \<and> clear (?R k) ?h2"
        using later [OF k] by (simp add: clear_def)
    qed
    show "\<forall>k < length ws. \<forall>j < k. ?R j \<inter> ?R k = {}"
    proof (intro allI impI)
      fix k j
      assume "k < length ws" "j < k"
      then show "?R j \<inter> ?R k = {}"
        using Cons.prems(8) [rule_format, of "Suc k" "Suc j"] by (simp add: add.assoc)
    qed
  qed (use Cons.prems left src2 in auto)
  then obtain h3 where h3: "run_state (parseSeqOf (count + 1) maxCount e sz pc b (base + sz)
      (n - of_nat (length (ber e w)))) ?h2 = (Inr (), h3)" "src b h3" "rest b h3 = ys" "changes ?A ?h2 h3"
    "c_int h3 pc = of_nat (count + 1 + length ws)"
    "\<forall>k < length ws. holds e (base + sz + k * sz) (received (ws ! k)) h3"
    by (auto simp: parses_def)
  have first: "holds e base (received w) h3"
    by (rule holds_changes [OF hold2 h3(4)]) (use 0(2) later(4) in auto)
  have all: "\<forall>k < length (w # ws). holds e (base + k * sz) (received ((w # ws) ! k)) h3"
  proof (intro allI impI)
    fix k
    assume "k < length (w # ws)"
    then show "holds e (base + k * sz) (received ((w # ws) ! k)) h3"
      using first h3(6) by (cases k) (simp_all add: add.assoc)
  qed
  have "changes ({pc} \<union> (\<Union>k < length (w # ws). region e (base + k * sz))) h h3"
    unfolding shift
    by (rule changes_trans [OF changes_mono [OF h1(4)] changes_trans [OF changes_mono [OF ch2] changes_mono [OF h3(4)]]])
       auto
  moreover have "run_state (parseSeqOf count maxCount e sz pc b base n) h = (Inr (), h3)"
    using h1(1) h3(1) le len(3) Cons.prems(5) by (subst parseSeqOf.simps) (simp add: set_int_def)
  ultimately show ?case
    using h3(2,3,5) all by (simp add: parses_def)
qed


section \<open>Choices\<close>

lemma parseChoice_reads:
  assumes "i < length ts" "choice_tags ts" "\<forall>x \<in> set ts. tags_ok x"
    and "decodes (ts ! i)" "arranged (ts ! i) base" "fits (ts ! i) w" "src b h" "rest b h = ber (ts ! i) w @ ys"
    and "n = 0xffffffff \<or> unat n = length (ber (ts ! i) w)" "length (ber (ts ! i) w) \<le> unat n"
    and "clear (region (ts ! i) base) h"
  shows "parses b (region (ts ! i) base) (parseChoice ts j e b base n) ys
    (\<lambda>r h'. r = Inr (j + i, of_nat (length (ber (ts ! i) w))) \<and> holds (ts ! i) base (received w) h') h"
  using assms
proof (induction ts arbitrary: i j e h)
  case Nil
  then show ?case by simp
next
  case (Cons t ts)
  have w: "w \<noteq> VAbsent"
    using Cons.prems(6) choice_mandatory [OF Cons.prems(2) nth_mem [OF Cons.prems(1)]]
    by (auto simp: fits_absent)
  show ?case
  proof (cases i)
    case 0
    then have "parses b (region t base) (asn_berParse t b base n) ys
      (\<lambda>k h'. k = of_nat (length (ber t w)) \<and> holds t base (received w) h') h"
      using Cons.prems(4-8,10,11) w unfolding decodes_def by simp
    moreover have "unat (of_nat (length (ber t w)) :: u32) = length (ber t w)"
      using Cons.prems(10) 0 by (intro unat_of_nat_max [of _ n]) simp
    ultimately show ?thesis
      using Cons.prems(9,10) 0
      by (auto simp: parses_def word_less_nat_alt word_unat_eq_iff)
  next
    case (Suc l)
    have l: "l < length ts" "ts ! l \<in> set ts"
      using Cons.prems(1) Suc by simp_all
    obtain x xs where x: "ber (ts ! l) w = x # xs" "key x \<in> starts (ts ! l)"
      using enc_starts [of "ts ! l" w] Cons.prems(3,6) w Suc l by auto
    have "key x \<notin> starts t"
      using Cons.prems(2) l(2) x(2) by auto
    then have "misses b t base (asn_berParse t b base n) h"
      using Cons.prems(3,7,8) x(1) Suc by (intro parse_mismatch [of _ _ _ x "xs @ ys"]) auto
    then obtain h1 where h1: "run_state (asn_berParse t b base n) h = (Inl ASN_RC_WrongTag, h1)" "src b h1"
      "rest b h1 = rest b h" "changes {} h h1"
      using Cons.prems(2) by (auto simp: misses_def flag_at_def)
    have "clear (region (ts ! l) base) h1"
      by (rule clear_changes [OF _ h1(4)]) (use Cons.prems(11) Suc in simp_all)
    then have "parses b (region (ts ! l) base) (parseChoice ts (j + 1) ASN_RC_WrongTag b base n) ys
      (\<lambda>r h'. r = Inr (j + 1 + l, of_nat (length (ber (ts ! l) w))) \<and> holds (ts ! l) base (received w) h') h1"
      using Cons.prems Suc h1(2,3) l by (intro Cons.IH) auto
    then show ?thesis
      using h1(1) Suc changes_trans [OF changes_mono [OF h1(4)]] by (auto simp: parses_def)
  qed
qed


section \<open>The parser\<close>

lemma decode_leaf:
  assumes "tags_ok t" "t_type t \<in> {ASN_Type_Integer, ASN_Type_BcdString, ASN_Type_OctetString}"
    and "fits t v" "v \<noteq> VAbsent" "src b h" "rest b h = ber t v @ ys" "length (ber t v) \<le> unat n"
  shows "parses b (region t base) (asn_berParse t b base n) ys
    (\<lambda>k h'. k = of_nat (length (ber t v)) \<and> holds t base (received v) h') h"
proof -
  have tag: "t_tag t \<noteq> 0"
    using assms(1,2) by (auto simp: tags_ok.simps)
  have hd: "headed t"
    using tag assms(2) by (auto simp: headed_def)
  have sub: "flag_at t base \<subseteq> region t base" "{base + t_data t} \<subseteq> region t base"
    using assms(2) by (auto simp: region.simps [of t])
  consider (int) i where "t_type t = ASN_Type_Integer" "v = VInt i"
    | (bcd) i where "t_type t = ASN_Type_BcdString" "v = VInt i" "length (intToBcd i) \<le> unat (t_maxLen t)" "i < 0x80000000"
    | (str) xs where "t_type t = ASN_Type_OctetString" "v = VOctets xs" "length xs \<le> unat (t_maxLen t)"
      "length xs \<le> 65533"
    using assms(2-4) by (auto simp: fits.simps [of t] split: val.splits)
  then show ?thesis
  proof cases
    case int
    have ber: "ber t v = wrap (t_tag t) (intOctets i)"
      by (simp add: ber.simps [of t] int)
    have four: "length (intOctets i) \<le> 4"
      using length_be_le [of "drop_bit 8 i"] unat_u32 [of i]
      by (auto simp: intOctets_def length_be unat_drop_bit_u32)
    then have n: "unat (of_nat (length (intOctets i)) :: u32) = length (intOctets i)"
      by (simp add: unsigned_of_nat take_bit_eq_mod)
    show ?thesis
    proof (rule parse_headed [OF hd assms(5) _ tag refl _ sub(1)])
      show "rest b h = wrap (t_tag t) (intOctets i) @ ys" "length (wrap (t_tag t) (intOctets i)) \<le> unat n"
        using assms(6,7) by (simp_all add: ber)
      fix h1 :: omem and L :: u32
      assume h1: "src b h1" "rest b h1 = intOctets i @ ys" "exists_at t base h1"
        and L: "L + 1 + of_nat (length (intOctets i)) = of_nat (length (wrap (t_tag t) (intOctets i)))"
      obtain h2 where h2: "run_state (getValue (BUF_getOctet b) (length (intOctets i)) 0) h1 = (Inr i, h2)"
        "src b h2" "rest b h2 = ys" "changes {} h1 h2"
        using buf.getValue_reads [OF h1(1,2), of 0] by (auto simp: fold_intOctets)
      let ?h3 = "h2\<lparr>c_int := (c_int h2)(base + t_data t := i)\<rparr>"
      have ch: "changes (region t base) h2 ?h3"
        using sub(2) by (auto simp: changes_def)
      have "src b ?h3 \<and> rest b ?h3 = rest b h2"
        by (rule src_cong [OF h2(2) ch]) simp_all
      moreover have "changes (region t base) h1 ?h3"
        by (rule changes_trans [OF changes_mono [OF h2(4)] ch]) simp
      moreover have "holds t base (received v) ?h3"
        using h1(3) exists_at_changes [OF h2(4), of t base] int
        by (simp add: holds.simps exists_at_def split: option.splits)
      moreover have "\<not> (of_nat (length (intOctets i)) :: u32) > 4"
        using four n by (simp add: word_less_nat_alt)
      ultimately show "parses b (region t base) (parseContents t b base (of_nat (length (intOctets i))) L (L + 1)) ys
          (\<lambda>k h'. k = of_nat (length (ber t v)) \<and> holds t base (received v) h') h1"
        using h2 int(1) L n by (simp add: parses_def parseContents.simps set_int_def ber)
    qed
  next
    case bcd
    have ber: "ber t v = wrap (t_tag t) (intToBcd i)"
      by (simp add: ber.simps [of t] bcd)
    show ?thesis
    proof (rule parse_headed [OF hd assms(5) _ tag refl _ sub(1)])
      show "rest b h = wrap (t_tag t) (intToBcd i) @ ys" "length (wrap (t_tag t) (intToBcd i)) \<le> unat n"
        using assms(6,7) by (simp_all add: ber)
      fix h1 :: omem and L :: u32
      assume h1: "src b h1" "rest b h1 = intToBcd i @ ys" "exists_at t base h1"
        and L: "L + 1 + of_nat (length (intToBcd i)) = of_nat (length (wrap (t_tag t) (intToBcd i)))"
      show "parses b (region t base) (parseContents t b base (of_nat (length (intToBcd i))) L (L + 1)) ys
          (\<lambda>k h'. k = of_nat (length (ber t v)) \<and> holds t base (received v) h') h1"
        by (rule parses_mono [OF parseContents_BcdString [OF bcd(1) h1(1,2) bcd(3,4) h1(3)] sub(2)])
          (simp add: ber [unfolded bcd(2)] L bcd(2))
    qed
  next
    case str
    have ber: "ber t v = wrap (t_tag t) xs"
      by (simp add: ber.simps [of t] str)
    show ?thesis
    proof (rule parse_headed [OF hd assms(5) _ tag refl _ sub(1)])
      show "rest b h = wrap (t_tag t) xs @ ys" "length (wrap (t_tag t) xs) \<le> unat n"
        using assms(6,7) by (simp_all add: ber)
      fix h1 :: omem and L :: u32
      assume h1: "src b h1" "rest b h1 = xs @ ys" "exists_at t base h1"
        and L: "L + 1 + of_nat (length xs) = of_nat (length (wrap (t_tag t) xs))"
      show "parses b (region t base) (parseContents t b base (of_nat (length xs)) L (L + 1)) ys
          (\<lambda>k h'. k = of_nat (length (ber t v)) \<and> holds t base (received v) h') h1"
        by (rule parses_mono [OF parseContents_OctetString [OF str(1) h1(1,2) str(3,4) h1(3)] sub(2)])
          (simp add: ber [unfolded str(2)] L str(2))
    qed
  qed
qed


lemma decode_sequence:
  assumes "tags_ok t" "\<And>x. x \<in> set (tableList t) \<Longrightarrow> decodes x" "arranged t base" "fits t (VSeq vs)"
    and "src b h" "rest b h = ber t (VSeq vs) @ ys" "length (ber t (VSeq vs)) \<le> unat n"
    and "clear (region t base) h"
  shows "parses b (region t base) (asn_berParse t b base n) ys
    (\<lambda>k h'. k = of_nat (length (ber t (VSeq vs))) \<and> holds t base (received (VSeq vs)) h') h"
proof -
  let ?R = "\<Union> (set (map (\<lambda>x. region x base) (tableList t)))"
  let ?c = "concat (map (\<lambda>(x, w). ber x w) (zip (tableList t) vs))"
  have ty: "t_type t = ASN_Type_Sequence" and vs: "length vs = length (tableList t)"
    "\<forall>p \<in> set (zip (tableList t) vs). fits (fst p) (snd p)"
    using assms(4) by (simp_all add: fits.simps [of t])
  have tag: "t_tag t \<noteq> 0" and tags: "seq_tags (tableList t)" "\<forall>x \<in> set (tableList t). tags_ok x"
    using assms(1) ty by (simp_all add: tags_ok.simps [of t])
  have arr: "flag_at t base \<inter> ?R = {}" "apart (map (\<lambda>x. region x base) (tableList t))"
    "\<forall>x \<in> set (tableList t). arranged x base"
    using assms(3) ty by (auto simp: arranged.simps [of t])
  have R: "region t base = flag_at t base \<union> ?R"
    by (subst region.simps) (simp add: ty)
  have hd: "headed t"
    using tag ty by (simp add: headed_def)
  have or: "t_tag t OR 0x20 \<noteq> 0"
    by (rule or_constructor)
  have ber: "ber t (VSeq vs) = wrap (t_tag t OR 0x20) ?c"
    by (simp add: ber.simps [of t] ty)
  show ?thesis
  proof (rule parse_headed [OF hd assms(5) _ or key_or])
    show "rest b h = wrap (t_tag t OR 0x20) ?c @ ys" "length (wrap (t_tag t OR 0x20) ?c) \<le> unat n"
      using assms(6,7) by (simp_all add: ber)
    show "flag_at t base \<subseteq> region t base"
      by (simp add: R)
    fix h1 :: omem and L :: u32
    assume h1: "src b h1" "rest b h1 = ?c @ ys" "changes (flag_at t base) h h1" "exists_at t base h1"
      and L: "L + 1 + of_nat (length ?c) = of_nat (length (wrap (t_tag t OR 0x20) ?c))"
    have len: "unat (of_nat (length ?c) :: u32) = length ?c"
      using assms(7) or by (intro unat_of_nat_max [of _ n]) (simp add: ber wrap_def)
    have "clear ?R h1"
      by (rule clear_changes [OF clear_mono [OF assms(8)] h1(3)]) (use arr(1) R in auto)
    moreover have "\<forall>p \<in> set (zip (tableList t) vs). tags_ok (fst p) \<and> decodes (fst p) \<and>
        arranged (fst p) base \<and> fits (fst p) (snd p)"
      using tags(2) arr(3) vs(2) assms(2) by (auto dest: set_zip_leftD)
    ultimately obtain h2 where h2: "run_state (parseSeq (tableList t) b base (of_nat (length ?c))) h1 = (Inr (), h2)"
      "src b h2" "rest b h2 = ys" "changes ?R h1 h2"
      "\<forall>p \<in> set (zip (tableList t) vs). holds (fst p) base (received (snd p)) h2"
      using parseSeq_reads [OF vs(1) _ tags(1) arr(2) h1(1,2) len] by (auto simp: parses_def)
    have "exists_at t base h2"
      using exists_at_changes [OF h2(4), of t base] arr(1) h1(4) by (simp add: Int_commute)
    then have "holds t base (received (VSeq vs)) h2"
      using h2(5) vs(1) ty by (auto simp: holds.simps [of t] zip_map2)
    then show "parses b (region t base) (parseContents t b base (of_nat (length ?c)) L (L + 1)) ys
        (\<lambda>k h'. k = of_nat (length (ber t (VSeq vs))) \<and> holds t base (received (VSeq vs)) h') h1"
      using h2 L changes_mono [OF h2(4), of "region t base"] R
      by (simp add: parses_def parseContents.simps ty ber)
  qed
qed

lemma decode_sequenceOf:
  assumes "tags_ok t" "\<And>x. x \<in> set (tableList t) \<Longrightarrow> decodes x" "arranged t base" "fits t (VSeqOf vs)"
    and "src b h" "rest b h = ber t (VSeqOf vs) @ ys" "length (ber t (VSeqOf vs)) \<le> unat n"
    and "clear (region t base) h"
  shows "parses b (region t base) (asn_berParse t b base n) ys
    (\<lambda>k h'. k = of_nat (length (ber t (VSeqOf vs))) \<and> holds t base (received (VSeqOf vs)) h') h"
proof -
  let ?e = "hd (tableList t)" and ?pc = "base + t_data t" and ?m = "unat (t_maxLen t)"
  let ?r = "\<lambda>k. region ?e (base + k * t_elemSize t)"
  let ?c = "concat (map (ber ?e) (rev vs))"
  have ty: "t_type t = ASN_Type_SequenceOf" and vs: "length vs \<le> ?m" "\<forall>w \<in> set (rev vs). fits ?e w"
    and ne: "tableList t \<noteq> []"
    using assms(4) by (simp_all add: fits.simps [of t])
  have tag: "t_tag t \<noteq> 0" and e: "tags_ok ?e" "t_exists ?e = None" "decodes ?e"
    using assms(1) ty ne assms(2) by (simp_all add: tags_ok.simps [of t])
  have ap: "apart ((flag_at t base \<union> {?pc}) # map ?r [0..<?m])"
    using assms(3) ty by (simp add: arranged.simps [of t])
  have arr: "\<forall>k < ?m. arranged ?e (base + k * t_elemSize t)"
    using assms(3) ty by (simp add: arranged.simps [of t])
  have disj: "\<forall>k < ?m. (flag_at t base \<union> {?pc}) \<inter> ?r k = {}" "\<forall>k < ?m. \<forall>j < k. ?r j \<inter> ?r k = {}"
    using ap apart_nth [of "map ?r [0..<?m]"] by (auto simp: Int_Un_distrib2)
  have flag: "?pc \<notin> flag_at t base"
    using assms(3) ty by (simp add: arranged.simps [of t])
  have R: "region t base = flag_at t base \<union> {?pc} \<union> (\<Union>k < ?m. ?r k)"
    by (subst region.simps) (simp add: ty ne atLeast0LessThan Un_assoc)
  have hd: "headed t"
    using tag ty by (simp add: headed_def)
  have or: "t_tag t OR 0x20 \<noteq> 0"
    by (rule or_constructor)
  have ber: "ber t (VSeqOf vs) = wrap (t_tag t OR 0x20) ?c"
    by (simp add: ber.simps [of t] ty ne e(2))
  show ?thesis
  proof (rule parse_headed [OF hd assms(5) _ or key_or])
    show "rest b h = wrap (t_tag t OR 0x20) ?c @ ys" "length (wrap (t_tag t OR 0x20) ?c) \<le> unat n"
      using assms(6,7) by (simp_all add: ber)
    show "flag_at t base \<subseteq> region t base"
      by (auto simp: R)
    fix h1 :: omem and L :: u32
    assume h1: "src b h1" "rest b h1 = ?c @ ys" "changes (flag_at t base) h h1" "exists_at t base h1"
      and L: "L + 1 + of_nat (length ?c) = of_nat (length (wrap (t_tag t OR 0x20) ?c))"
    have len: "unat (of_nat (length ?c) :: u32) = length ?c"
      using assms(7) or by (intro unat_of_nat_max [of _ n]) (simp add: ber wrap_def)
    let ?h2 = "h1\<lparr>c_int := (c_int h1)(?pc := 0)\<rparr>"
    have ch2: "changes {?pc} h1 ?h2"
      by (simp add: changes_def)
    have src2: "src b ?h2" "rest b ?h2 = ?c @ ys"
      using src_cong [OF h1(1) ch2] h1(2) by simp_all
    have clr: "clear (?r k) ?h2" if "k < ?m" for k
    proof -
      have "clear (?r k) h1"
        by (rule clear_changes [OF clear_mono [OF assms(8)] h1(3)]) (use disj(1) that R in auto)
      then show ?thesis by (simp add: clear_def)
    qed
    have "parses b ({?pc} \<union> (\<Union>k < length (rev vs). ?r k))
        (parseSeqOf 0 ?m ?e (t_elemSize t) ?pc b base (of_nat (length ?c))) ys
        (\<lambda>_ h'. c_int h' ?pc = of_nat (0 + length (rev vs)) \<and>
          (\<forall>k < length (rev vs). holds ?e (base + k * t_elemSize t) (received (rev vs ! k)) h')) ?h2"
    proof (rule parseSeqOf_reads [OF e(3,1,2) vs(2) _ _ _ _ src2 len])
      show "\<forall>k < length (rev vs). arranged ?e (base + k * t_elemSize t) \<and> ?pc \<notin> ?r k \<and> clear (?r k) ?h2"
        using arr disj(1) clr vs(1) by auto
    qed (use disj(2) vs(1) in auto)
    then obtain h3 where h3: "run_state (parseSeqOf 0 ?m ?e (t_elemSize t) ?pc b base (of_nat (length ?c))) ?h2 = (Inr (), h3)"
      "src b h3" "rest b h3 = ys" "changes ({?pc} \<union> (\<Union>k < length vs. ?r k)) ?h2 h3"
      "c_int h3 ?pc = of_nat (length vs)"
      "\<forall>k < length vs. holds ?e (base + k * t_elemSize t) (received (rev vs ! k)) h3"
      by (auto simp: parses_def)
    have ch: "changes ({?pc} \<union> (\<Union>k < length vs. ?r k)) h1 h3"
      by (rule changes_trans [OF changes_mono [OF ch2] h3(4)]) simp
    have "c_bool h3 (base + x) = c_bool h1 (base + x)" if "t_exists t = Some x" for x
    proof -
      have "base + x \<notin> {?pc} \<union> (\<Union>k < length vs. ?r k)"
        using disj(1) vs(1) flag(1) that by (fastforce simp: flag_at_def)
      then show ?thesis
        using ch by (simp add: changes_def)
    qed
    then have ex: "exists_at t base h3"
      using h1(4) by (auto simp: exists_at_def split: option.splits)
    have "rev (map received vs) ! k = received (rev vs ! k)" if "k < length vs" for k
      using that by (simp add: rev_nth)
    then have "holds t base (received (VSeqOf vs)) h3"
      using h3(5,6) vs(1) ty ne ex by (simp add: holds.simps [of t])
    moreover have "changes (region t base) h1 h3"
      by (rule changes_mono [OF ch]) (use vs(1) R in auto)
    ultimately show "parses b (region t base) (parseContents t b base (of_nat (length ?c)) L (L + 1)) ys
        (\<lambda>k h'. k = of_nat (length (ber t (VSeqOf vs))) \<and> holds t base (received (VSeqOf vs)) h') h1"
      using h3 L ne by (simp add: parses_def parseContents.simps ty ber set_int_def)
  qed
qed


text \<open>
  After the alternative of a choice: its number is stored, and the flag is set once more.
\<close>

lemma parseContents_choice:
  assumes "t_type t = ASN_Type_Choice" "tags_ok t" "\<And>x. x \<in> set (tableList t) \<Longrightarrow> decodes x"
    and "arranged t base" "fits t (VChoice i w)" "src b h" "rest b h = ber (tableList t ! i) w @ ys"
    and "len = 0xffffffff \<or> unat len = length (ber (tableList t ! i) w)"
    and "length (ber (tableList t ! i) w) \<le> unat len" "clear (region (tableList t ! i) base) h"
  shows "parses b (region t base) (parseContents t b base len L u) ys
    (\<lambda>k h'. k = u + of_nat (length (ber (tableList t ! i) w)) \<and> holds t base (received (VChoice i w)) h') h"
proof -
  let ?x = "tableList t ! i" and ?a = "base + t_data t"
  have i: "i < length (tableList t)" "i < 256" "fits ?x w"
    using assms(5) by (auto simp: fits.simps [of t] split: if_splits)
  then have x: "?x \<in> set (tableList t)"
    by simp
  have tags: "choice_tags (tableList t)" "\<forall>x \<in> set (tableList t). tags_ok x"
    using assms(1,2) by (simp_all add: tags_ok.simps [of t])
  have arr: "?a \<notin> flag_at t base" "(flag_at t base \<union> {?a}) \<inter> region ?x base = {}" "arranged ?x base"
    using assms(1,4) x by (simp_all add: arranged.simps [of t])
  have R: "region ?x base \<subseteq> region t base" "flag_at t base \<subseteq> region t base" "{?a} \<subseteq> region t base"
    using x by (auto simp: region.simps [of t] assms(1))
  have "parses b (region ?x base) (parseChoice (tableList t) 0 Fail b base len) ys
      (\<lambda>r h'. r = Inr (0 + i, of_nat (length (ber ?x w))) \<and> holds ?x base (received w) h') h"
    using assms(3) x
    by (intro parseChoice_reads [OF i(1) tags _ arr(3) i(3) assms(6,7,8,9,10)]) blast
  then obtain h1 where h1: "run_state (parseChoice (tableList t) 0 Fail b base len) h =
      (Inr (Inr (i, of_nat (length (ber ?x w)))), h1)" "src b h1" "rest b h1 = ys"
    "changes (region ?x base) h h1" "holds ?x base (received w) h1"
    by (auto simp: parses_def)
  obtain h2 where h2: "run_state (set_exists t base True) h1 = ((), h2)" "src b h2" "rest b h2 = ys"
    "changes (flag_at t base) h1 h2" "exists_at t base h2"
    using run_set_exists [OF h1(2), of t base True] h1(3) by (auto simp: exists_at_def split: if_splits)
  let ?h3 = "h2\<lparr>c_byte := (c_byte h2)(?a := of_nat i)\<rparr>"
  have ch3: "changes {?a} h2 ?h3"
    by (simp add: changes_def)
  have src3: "src b ?h3 \<and> rest b ?h3 = rest b h2"
    by (rule src_cong [OF h2(2) ch3]) simp_all
  have "holds ?x base (received w) ?h3"
    by (rule holds_changes [OF holds_changes [OF h1(5) h2(4)] ch3]) (use arr(2) in auto)
  moreover have "exists_at t base ?h3"
    using h2(5) by (simp add: exists_at_def split: option.splits)
  ultimately have "holds t base (received (VChoice i w)) ?h3"
    using i assms(1) by (simp add: holds.simps [of t])
  moreover have "changes (region t base) h ?h3"
    by (rule changes_trans [OF changes_mono [OF h1(4) R(1)]
          changes_trans [OF changes_mono [OF h2(4) R(2)] changes_mono [OF ch3 R(3)]]])
  ultimately show ?thesis
    using h1(1) h2(1,3) src3 by (simp add: parses_def parseContents.simps assms(1))
qed

lemma decode_choice:
  assumes "tags_ok t" "\<And>x. x \<in> set (tableList t) \<Longrightarrow> decodes x" "arranged t base" "fits t (VChoice i w)"
    and "src b h" "rest b h = ber t (VChoice i w) @ ys" "length (ber t (VChoice i w)) \<le> unat n"
    and "clear (region t base) h"
  shows "parses b (region t base) (asn_berParse t b base n) ys
    (\<lambda>k h'. k = of_nat (length (ber t (VChoice i w))) \<and> holds t base (received (VChoice i w)) h') h"
proof -
  let ?x = "tableList t ! i"
  have ty: "t_type t = ASN_Type_Choice" and i: "i < length (tableList t)"
    using assms(4) by (auto simp: fits.simps [of t] split: if_splits)
  have tag: "t_tag t = 0 \<or> t_tag t AND 0x20 \<noteq> 0"
    using assms(1) ty by (simp add: tags_ok.simps [of t])
  have ber: "ber t (VChoice i w) = wrap (t_tag t) (ber ?x w)"
    using tag i by (auto simp: ber.simps [of t] ty)
  have sub: "region ?x base \<subseteq> region t base" "flag_at t base \<subseteq> region t base"
    using i by (auto simp: region.simps [of t] ty)
  have clr: "clear (region ?x base) h"
    by (rule clear_mono [OF assms(8) sub(1)])
  have disj: "flag_at t base \<inter> region ?x base = {}"
    using assms(3) i by (auto simp: arranged.simps [of t] ty)
  show ?thesis
  proof (cases "headed t")
    case False
    then have "t_tag t = 0"
      using not_headed [OF assms(1)] by simp
    then have "run_state (parseHeader t b base n) h = (Inr (Some (0xffffffff, 0, 0)), h)"
      "ber t (VChoice i w) = ber ?x w"
      using False by (simp_all add: parseHeader_def headed_def ber wrap_def)
    moreover have "length (ber ?x w) \<le> unat (0xffffffff :: u32)"
      using assms(7) calculation(2) unat_u32 [of n] by simp
    ultimately show ?thesis
      using parseContents_choice [where len = "0xffffffff" and L = "0" and u = "0",
          OF ty assms(1,2,3,4,5) _ _ _ clr] assms(6)
      by (simp add: asn_berParse.simps parses_def)
  next
    case True
    then have t0: "t_tag t \<noteq> 0"
      using ty by (auto simp: headed_def)
    show ?thesis
    proof (rule parse_headed [OF True assms(5) _ t0 refl _ sub(2)])
      show "rest b h = wrap (t_tag t) (ber ?x w) @ ys" "length (wrap (t_tag t) (ber ?x w)) \<le> unat n"
        using assms(6,7) by (simp_all add: ber)
      fix h1 :: omem and L :: u32
      assume h1: "src b h1" "rest b h1 = ber ?x w @ ys" "changes (flag_at t base) h h1"
        and L: "L + 1 + of_nat (length (ber ?x w)) = of_nat (length (wrap (t_tag t) (ber ?x w)))"
      have "length (ber ?x w) \<le> unat n"
        using assms(7) t0 by (simp add: ber wrap_def)
      then have len: "unat (of_nat (length (ber ?x w)) :: u32) = length (ber ?x w)"
        by (rule unat_of_nat_max)
      have "clear (region ?x base) h1"
        by (rule clear_changes [OF clr h1(3)]) (use disj in blast)
      from parseContents_choice [where len = "of_nat (length (ber ?x w))" and L = L and u = "L + 1",
          OF ty assms(1,2,3,4) h1(1,2) _ _ this]
      show "parses b (region t base) (parseContents t b base (of_nat (length (ber ?x w))) L (L + 1)) ys
          (\<lambda>k h'. k = of_nat (length (ber t (VChoice i w))) \<and> holds t base (received (VChoice i w)) h') h1"
        using L len by (simp add: ber)
    qed
  qed
qed

lemma tags_ok_decodes: "tags_ok t \<Longrightarrow> decodes t"
proof (induction t rule: measure_induct_rule [of size])
  case (less t)
  have IH: "decodes x" if "tags_ok x" "x \<in> set (tableList t)" for x
    using less.IH [OF size_tableList [OF that(2)] that(1)] .
  have sub: "decodes x" if "t_type t \<in> {ASN_Type_Sequence, ASN_Type_SequenceOf, ASN_Type_Choice}"
    "x \<in> set (tableList t)" for x
    using less.prems that by (intro IH) (auto simp: tags_ok.simps [of t])
  show ?case
    unfolding decodes_def
  proof (intro allI impI)
    fix b base and n :: u32 and h v ys
    assume a: "arranged t base" "fits t v" "v \<noteq> VAbsent" "src b h" "rest b h = ber t v @ ys"
      "length (ber t v) \<le> unat n" "clear (region t base) h"
    show "parses b (region t base) (asn_berParse t b base n) ys
       (\<lambda>k h'. k = of_nat (length (ber t v)) \<and> holds t base (received v) h') h"
    proof (cases v)
      case VAbsent
      then show ?thesis using a(3) by simp
    next
      case (VInt i)
      then show ?thesis
        using a by (intro decode_leaf less.prems) (auto simp: fits.simps [of t])
    next
      case (VOctets xs)
      then show ?thesis
        using a by (intro decode_leaf less.prems) (auto simp: fits.simps [of t])
    next
      case (VSeq vs)
      have "t_type t = ASN_Type_Sequence"
        using a(2) by (simp add: VSeq fits.simps [of t])
      then show ?thesis
        using a unfolding VSeq by (intro decode_sequence less.prems sub) simp_all
    next
      case (VSeqOf vs)
      have "t_type t = ASN_Type_SequenceOf"
        using a(2) by (simp add: VSeqOf fits.simps [of t])
      then show ?thesis
        using a unfolding VSeqOf by (intro decode_sequenceOf less.prems sub) simp_all
    next
      case (VChoice i w)
      have "t_type t = ASN_Type_Choice"
        using a(2) by (simp add: VChoice fits.simps [of t])
      then show ?thesis
        using a unfolding VChoice by (intro decode_choice less.prems sub) simp_all
    qed
  qed
qed

end
