(* ===== verification/Asn_Safe.thy ===== *)
theory Asn_Safe
  imports Asn_Strings
begin

unbundle bit_operations_syntax

text \<open>
  The parser on octets of any kind, as they come from the network: whatever it reads and however it
  ends, it writes no member of a structure outside the places of the table, and no string or data
  area that was there before. \<open>safe\<close> is that for one step; the buffer stays one that can be read
  unless the step fails with an error other than \<^verbatim>\<open>ASN_RC_WrongTag\<close>, after which nothing reads it.
\<close>

section \<open>Steps\<close>

definition wrecked :: "rc + 'a \<Rightarrow> bool" where
  "wrecked r \<longleftrightarrow> (\<exists>e. r = Inl e \<and> e \<noteq> ASN_RC_WrongTag)"

lemma wrecked_simps [simp]: "wrecked (Inl e) \<longleftrightarrow> e \<noteq> ASN_RC_WrongTag" "\<not> wrecked (Inr x)"
  by (simp_all add: wrecked_def)

definition safe :: "ptr \<Rightarrow> nat set \<Rightarrow> (omem, 'a) rc_op \<Rightarrow> omem \<Rightarrow> bool" where
  "safe b A m h \<longleftrightarrow> (\<forall>r h'. run_state m h = (r, h') \<longrightarrow> changes A h h' \<and> (wrecked r \<or> src b h'))"

lemma safe_ok [simp]: "src b h \<Longrightarrow> safe b A (ok x) h" "src b h \<Longrightarrow> safe b A (FAIL_RC e) h"
  by (simp_all add: safe_def)

lemma safe_call:
  assumes "safe b A m h" and "\<And>x h1. src b h1 \<Longrightarrow> safe b A (f x) h1"
  shows "safe b A (RC_CALL m f) h"
proof -
  obtain r h1 where run: "run_state m h = (r, h1)" by fastforce
  then have 1: "changes A h h1" "wrecked r \<or> src b h1"
    using assms(1) by (simp_all add: safe_def)
  show ?thesis
  proof (cases r)
    case (Inl e)
    then show ?thesis
      using run 1 by (simp add: safe_def)
  next
    case (Inr x)
    then have "safe b A (f x) h1"
      using 1(2) assms(2) by simp
    then show ?thesis
      using run Inr changes_trans [OF 1(1)] by (auto simp: safe_def)
  qed
qed

lemma safe_mono: "safe b A m h \<Longrightarrow> A \<subseteq> B \<Longrightarrow> safe b B m h"
  unfolding safe_def using changes_mono by blast

lemma safe_gets: "safe b A (f (g h)) h \<Longrightarrow> safe b A (gets g \<bind> f) h"
  by (simp add: safe_def)

lemma safe_modify:
  assumes "src b h" "changes A h (f h)" "segs (f h) = segs h" "heads (f h) = heads h"
    and "\<And>h1. src b h1 \<Longrightarrow> safe b A (k ()) h1"
  shows "safe b A (modify f \<bind> k) h"
proof -
  have "src b (f h)"
    using src_cong [OF assms(1,2)] assms(3,4) by simp
  then show ?thesis
    using assms(5) changes_trans [OF assms(2)] by (auto simp: safe_def)
qed

lemma safe_set_exists:
  assumes "src b h" "flag_at t base \<subseteq> A" and "\<And>h1. src b h1 \<Longrightarrow> safe b A (k ()) h1"
  shows "safe b A (set_exists t base v \<bind> k) h"
proof (cases "t_exists t")
  case None
  then show ?thesis
    using assms(1,3) by (simp add: set_exists_def safe_def)
next
  case (Some e)
  then show ?thesis
    using assms unfolding set_exists_def
    by (auto intro!: safe_modify simp: changes_def flag_at_def)
qed

lemma safe_set_int:
  "src b h \<Longrightarrow> a \<in> A \<Longrightarrow> (\<And>h1. src b h1 \<Longrightarrow> safe b A (k ()) h1) \<Longrightarrow> safe b A (set_int a v \<bind> k) h"
  unfolding set_int_def by (rule safe_modify) (auto simp: changes_def)

lemma getOctet_moves:
  assumes "reading b h"
  shows "(\<exists>x c y. run_state (BUF_getOctet b) h = (Inr x, move b c y h) \<and> reading b (move b c y h) \<and>
      run_state (BUF_ungetOctet b) (move b c y h) = (Inr (), move b c (y - 1) h) \<and>
      reading b (move b c (y - 1) h)) \<or>
    run_state (BUF_getOctet b) h = (Inl BUF_RC_BufferExhausted, h)"
proof (cases "rest b h")
  case Nil
  then show ?thesis using BUF_getOctet_exhausted [OF assms] by blast
next
  case (Cons x xs)
  then show ?thesis using BUF_getOctet_reading [OF assms Cons] by blast
qed

lemma safe_getOctet: "src b h \<Longrightarrow> safe b A (BUF_getOctet b) h"
  using getOctet_moves [of b h] src_move [of b h] by (auto simp: safe_def src_def [of b h])

lemma safe_getValue: "src b h \<Longrightarrow> safe b A (getValue (BUF_getOctet b) n v) h"
  by (induction n arbitrary: h v) (auto intro!: safe_call safe_getOctet)

lemma safe_parseLength: "src b h \<Longrightarrow> safe b A (parseLength (BUF_getOctet b)) h"
  unfolding parseLength_def
  by (auto intro!: safe_call safe_getOctet safe_getValue simp: Let_def)

lemma safe_parseHeader: "src b h \<Longrightarrow> flag_at t base \<subseteq> A \<Longrightarrow> safe b A (parseHeader t b base n) h"
proof -
  assume src: "src b h" and sub: "flag_at t base \<subseteq> A"
  show ?thesis
  proof (cases "(t_type t \<noteq> ASN_Type_Choice \<and> t_tag t \<noteq> 0) \<or> t_tag t AND ASN_EXPLICIT \<noteq> 0")
    case False
    then show ?thesis
      using src unfolding parseHeader_def if_not_P [OF False] by simp
  next
    case head: True
    have "reading b h"
      using src by (simp add: src_def)
    from getOctet_moves [OF this] show ?thesis
    proof (elim disjE exE conjE)
      assume "run_state (BUF_getOctet b) h = (Inl BUF_RC_BufferExhausted, h)"
      then show ?thesis
        using head src by (auto simp: safe_def parseHeader_def)
    next
      fix x c y
      assume g: "run_state (BUF_getOctet b) h = (Inr x, move b c y h)" "reading b (move b c y h)"
        "run_state (BUF_ungetOctet b) (move b c y h) = (Inr (), move b c (y - 1) h)"
        "reading b (move b c (y - 1) h)"
      have s: "src b (move b c y h)" "src b (move b c (y - 1) h)"
        using src_move [OF src] g(2,4) by simp_all
      let ?absent = "if t_exists t \<noteq> None then do { set_exists t base False; ok None }
            else FAIL_RC ASN_RC_WrongTag :: (omem, (u32 \<times> u32 \<times> u32) option) rc_op"
      let ?there = "do {
            set_exists t base True;
            RC_CALL (parseLength (BUF_getOctet b)) (\<lambda>(len, lengthOfLength).
              if len > n then FAIL_RC ASN_RC_FormatErrorInPDU
              else ok (Some (len, lengthOfLength, lengthOfLength + 1)))
          } :: (omem, (u32 \<times> u32 \<times> u32) option) rc_op"
      have "safe b A ?absent (move b c (y - 1) h)"
        using s(2) sub by (auto intro!: safe_set_exists)
      moreover have "safe b A ?there (move b c y h)"
        using s(1) sub by (auto intro!: safe_set_exists safe_call safe_parseLength)
      ultimately show ?thesis
        using head g(1,3) changes_trans [OF changes_move]
        by (auto simp: safe_def parseHeader_def)
    qed
  qed
qed


section \<open>Strings\<close>

definition builds :: "ptr \<Rightarrow> ptr \<Rightarrow> (omem, 'a) rc_op \<Rightarrow> omem \<Rightarrow> bool" where
  "builds b s m h \<longleftrightarrow> (\<forall>r h'. run_state m h = (r, h') \<longrightarrow>
     same_but s h h' \<and> members h' = members h \<and> (wrecked r \<or> (\<exists>x. r = Inr x) \<and> building b s h'))"

lemma same_but_refl [simp]: "same_but s h h"
  by (simp add: same_but_def)

lemma builds_ok [simp]: "building b s h \<Longrightarrow> builds b s (ok x) h" "e \<noteq> ASN_RC_WrongTag \<Longrightarrow> builds b s (FAIL_RC e) h"
  by (simp_all add: builds_def)

lemma builds_call:
  assumes "builds b s m h" and "\<And>x h1. building b s h1 \<Longrightarrow> builds b s (f x) h1"
  shows "builds b s (RC_CALL m f) h"
proof -
  obtain r h1 where run: "run_state m h = (r, h1)" by fastforce
  then have 1: "same_but s h h1" "members h1 = members h" "wrecked r \<or> (\<exists>x. r = Inr x) \<and> building b s h1"
    using assms(1) by (simp_all add: builds_def)
  show ?thesis
  proof (cases r)
    case (Inl e)
    then show ?thesis
      using run 1 by (simp add: builds_def)
  next
    case (Inr x)
    then have "builds b s (f x) h1"
      using 1(3) assms(2) by simp
    then show ?thesis
      using run Inr 1(2) same_but_trans [OF 1(1)] by (auto simp: builds_def)
  qed
qed

lemma builds_put:
  assumes "building b s h" and "\<And>h1. building b s h1 \<Longrightarrow> builds b s (k ()) h1"
  shows "builds b s (modify (put_octets s i xs) \<bind> k) h"
proof -
  have same: "same_but s h (put_octets s i xs h)" "members (put_octets s i xs h) = members h"
    by (simp_all add: same_but_def put_octets_cells fun_eq_iff members_def)
  then have "building b s (put_octets s i xs h)"
    using building_same [OF assms(1) same(1)] by simp
  then show ?thesis
    using assms(2) same same_but_trans [OF same(1)] by (auto simp: builds_def)
qed

lemma builds_appendOctets: "building b s h \<Longrightarrow> builds b s (appendOctets s xs) h"
proof (cases "s_maxLen (strs h s) = 0 \<or> s_len (strs h s) + length xs \<le> s_maxLen (strs h s)")
  case True
  assume b: "building b s h"
  let ?h = "(put_octets (s_p (strs h s)) (int (s_len (strs h s))) xs h)
       \<lparr>strs := (strs h)(s := (strs h s)\<lparr>s_len := u16 (s_len (strs h s) + length xs)\<rparr>)\<rparr>"
  have same: "same_but s h ?h" "heads ?h b = heads h b" "members ?h = members h"
    using b by (simp_all add: same_but_def put_octets_cells fun_eq_iff building_def members_def)
  then show ?thesis
    using run_appendOctets [OF True] building_same [OF b same(1,2)] by (auto simp: builds_def)
next
  case False
  assume b: "building b s h"
  then show ?thesis
    using False by (simp add: appendOctets_def builds_def)
qed

lemma builds_getOctet: "building b s h \<Longrightarrow> builds b s (BUF_getOctet b) h"
  using getOctet_moves [of b h] building_move [of b s h]
  by (auto simp: builds_def building_def [of b s h] src_def [of b h])

text \<open>
  A chunk: when the octets are used up, the position is left at the head of the buffer, which is no
  segment.
\<close>

lemma getChunk_moves:
  assumes "reading b h"
  shows "\<exists>c y. (\<exists>x. run_state (BUF_getChunk b n) h = (Inr x, move b c y h) \<and> reading b (move b c y h)) \<or>
    run_state (BUF_getChunk b n) h = (Inl BUF_RC_BufferExhausted, move b c y h)"
proof -
  have "b_segs (heads h b) \<noteq> []"
    using assms by (auto simp: reading_def)
  then obtain m where m: "Suc (length (b_segs (heads h b))) = Suc (Suc m)"
    by (cases "b_segs (heads h b)") auto
  show ?thesis
  proof (cases "rest b h = []")
    case True
    let ?c = "b_cur (heads h b)"
    obtain us vs where seg: "b_segs (heads h b) = us @ ?c # vs" "later_segs b h = vs"
      and dist: "distinct (b # us @ ?c # vs)"
      using reading_split [OF assms] by metis
    have "vs = []"
    proof (rule ccontr)
      assume "vs \<noteq> []"
      then obtain g vs' where "vs = g # vs'" by (cases vs) auto
      then show False
        using assms True octets_at_Cons [of "g_start (segs h g)" "g_end (segs h g)" "seg_area g h" h]
        by (auto simp: reading_def rest_def seg seg_octets_def)
    qed
    moreover have "chunk_left b h = 0"
      using assms True by (simp add: chunk_left_reading rest_def octets_at_def)
    ultimately have "run_state (chunkSearch (Suc (Suc m)) b) h = (0, move b b (g_start (segs h b)) h)"
      using dist by (simp add: QU_NEXT_seg_def seg seg_after_split move_def [symmetric])
    then show ?thesis
      using m by (simp add: BUF_getChunk_def del: chunkSearch.simps) blast
  next
    case False
    obtain c y where run: "run_state (chunkSearch (Suc (Suc m)) b) h =
        (chunk_left b (move b c y h), move b c y h)"
      and r: "reading b (move b c y h)" "y < g_end (segs h c)"
      using chunkSearch_reading [OF assms False] by blast
    define left where "left = nat (g_end (segs h c) - y)"
    have left: "chunk_left b (move b c y h) = left" "left \<noteq> 0"
      using r(2) by (simp_all add: chunk_left_reading [OF r(1)] left_def)
    define k where "k = (if n \<noteq> 0 \<and> left > n then n else left)"
    have "k \<le> left"
      by (simp add: k_def)
    then have "y + int k \<le> g_end (segs h c)"
      using r(2) unfolding left_def by linarith
    then have "reading b (move b c (y + int k) h)"
      using r(1) by (simp add: reading_def later_segs_def)
    moreover have "run_state (BUF_getChunk b n) h = (Inr (k, seg_area c h, y), move b c (y + int k) h)"
    proof -
      have "(move b c y h)\<lparr>heads := (heads (move b c y h))(b := (heads (move b c y h) b)
          \<lparr>b_x := b_x (heads (move b c y h) b) + int k\<rparr>)\<rparr> = move b c (y + int k) h"
        by (simp add: move_def)
      then show ?thesis
        using run [folded m] left by (auto simp: BUF_getChunk_def Let_def k_def simp del: chunkSearch.simps)
    qed
    ultimately show ?thesis by blast
  qed
qed

lemma builds_getChunk: "building b s h \<Longrightarrow> builds b s (BUF_getChunk b n) h"
proof -
  assume b: "building b s h"
  then have "reading b h"
    by (simp add: building_def src_def)
  moreover have "same_but s h (move b c y h)" "members (move b c y h) = members h" for c y
    by (simp_all add: same_but_def members_def)
  ultimately show ?thesis
    using getChunk_moves [of b h n] building_move [OF b] by (auto simp: builds_def)
qed

lemma builds_gets: "builds b s (f (g h)) h \<Longrightarrow> builds b s (gets g \<bind> f) h"
  by (simp add: builds_def)

lemma builds_getString: "building b s h \<Longrightarrow> builds b s (getString fuel b s n) h"
proof (induction fuel arbitrary: h n)
  case 0
  then show ?case by simp
next
  case (Suc fuel)
  show ?case
    using Suc.prems
    by (auto simp: STR_appendString_def intro!: builds_call builds_getChunk builds_gets builds_appendOctets Suc.IH)
qed


lemma STR_alloc_building:
  assumes "src b h"
  shows "\<exists>h1. run_state (STR_alloc n) h = (Inr (o_next h), h1) \<and> building b (o_next h) h1 \<and> changes {} h h1"
proof -
  define s where "s = o_next h"
  have mem: "mem_ok h"
    using assms by (simp add: src_def)
  define h1 where "h1 = snd (run_state (STR_alloc n) h)"
  have run: "run_state (STR_alloc n) h = (Inr s, h1)"
    by (simp add: h1_def run_STR_alloc [OF mem] s_def)
  have ch: "changes {} h h1" and same: "segs h1 = segs h" "heads h1 b = heads h b" and nx: "o_next h1 = o_next h + 1"
    and p: "s_p (strs h1 s) = s"
    by (simp_all add: h1_def run_STR_alloc [OF mem] changes_def s_def)
  have "g_string (segs h1 g) \<noteq> s \<and> seg_area g h1 \<noteq> s" if "g \<in> set (b_segs (heads h1 b))" for g
  proof -
    have old: "g_string (segs h g) < s" "seg_area g h < s"
      using assms that by (simp_all add: src_def s_def same)
    then have "strs h1 (g_string (segs h g)) = strs h (g_string (segs h g))"
      using ch by (simp add: changes_def s_def)
    then show ?thesis
      using old by (simp add: seg_area_def same)
  qed
  then have "building b s h1"
    using src_cong [OF assms ch same] p nx by (simp add: building_def s_def)
  then show ?thesis
    using run ch by (simp add: s_def)
qed

text \<open>A step that makes a new string.\<close>

lemma new_string:
  assumes "src b h" and "\<And>h1. building b (o_next h) h1 \<Longrightarrow> builds b (o_next h) (f (o_next h)) h1"
    and "\<And>h1 x h2. run_state (f (o_next h)) h1 = (Inr x, h2) \<Longrightarrow> x = o_next h"
  shows "\<exists>r h1. run_state (RC_CALL (STR_alloc n) f) h = (r, h1) \<and> changes {} h h1 \<and>
    (wrecked r \<or> r = Inr (o_next h) \<and> building b (o_next h) h1)"
proof -
  obtain h1 where h1: "run_state (STR_alloc n) h = (Inr (o_next h), h1)" "building b (o_next h) h1" "changes {} h h1"
    using STR_alloc_building [OF assms(1)] by blast
  obtain r h2 where run: "run_state (f (o_next h)) h1 = (r, h2)" by fastforce
  then have "same_but (o_next h) h1 h2" "members h2 = members h1"
    "wrecked r \<or> (\<exists>x. r = Inr x) \<and> building b (o_next h) h2"
    using assms(2) [OF h1(2)] by (simp_all add: builds_def)
  then show ?thesis
    using run h1(1) same_but_changes [OF _ h1(3)] assms(3) by auto
qed

lemma parseOctetString_safe:
  assumes "src b h"
  shows "\<exists>r h1. run_state (parseOctetString t b len) h = (r, h1) \<and> changes {} h h1 \<and>
    (wrecked r \<or> r = Inr (o_next h) \<and> building b (o_next h) h1)"
proof (cases "len > t_maxLen t")
  case True
  then show ?thesis by (simp add: parseOctetString_def)
next
  case False
  have "\<exists>r h1. run_state (RC_CALL (STR_alloc (u16 (unat len) + 2)) (\<lambda>string.
        RC_CALL (getString (unat len) b string len) (\<lambda>_. ok string))) h = (r, h1) \<and> changes {} h h1 \<and>
    (wrecked r \<or> r = Inr (o_next h) \<and> building b (o_next h) h1)"
    by (rule new_string [OF assms])
      (auto intro!: builds_call builds_getString simp: run_RC_CALL_Inr)
  then show ?thesis
    using False by (simp add: parseOctetString_def)
qed

lemma builds_parseBits: "building b s h \<Longrightarrow> builds b s (parseBits n k s p b) h"
proof (induction n arbitrary: p h)
  case 0
  then show ?case by simp
next
  case (Suc n)
  show ?case
    unfolding parseBits.simps Let_def
    by (rule builds_call [OF builds_getOctet [OF Suc.prems]], rule builds_put, assumption, rule Suc.IH)
qed

lemma builds_setStringLength:
  assumes "building b s h" and "\<And>r h1. building b s h1 \<Longrightarrow> builds b s (k r) h1"
  shows "builds b s (STR_setStringLength s n \<bind> k) h"
proof (cases "u16 n > s_maxLen (strs h s)")
  case True
  then show ?thesis
    using assms by (simp add: STR_setStringLength_def builds_def)
next
  case False
  let ?h = "h\<lparr>strs := (strs h)(s := (strs h s)\<lparr>s_len := u16 n\<rparr>)\<rparr>"
  have same: "same_but s h ?h" "heads ?h b = heads h b" "members ?h = members h"
    by (simp_all add: same_but_def members_def)
  then have "building b s ?h"
    using building_same [OF assms(1)] by blast
  then show ?thesis
    using False assms(2) same same_but_trans [OF same(1)]
    by (auto simp: STR_setStringLength_def builds_def)
qed

lemma parseBitString_safe:
  assumes "src b h"
  shows "\<exists>r h1. run_state (parseBitString b len) h = (r, h1) \<and> changes {} h h1 \<and>
    (wrecked r \<or> r = Inr (o_next h) \<and> building b (o_next h) h1)"
proof (cases "len < 1")
  case True
  then show ?thesis by (simp add: parseBitString_def)
next
  case False
  let ?n = "unat (ucast ((len - 1) * 8) :: u8)"
  let ?f = "\<lambda>string. do {
          _ \<leftarrow> STR_setStringLength string ?n;
          RC_CALL (BUF_getOctet b) (\<lambda>unusedBits.
            if unusedBits > 7 then FAIL_RC ASN_RC_IllegalData
            else do {
              a \<leftarrow> gets (\<lambda>h. fst (STR_stringStart string h));
              modify (put_octets a 0 (replicate ?n 0));
              RC_CALL (parseBits (unat (len - 1)) (unat unusedBits) a 0 b) (\<lambda>_. ok string)
            })
        }"
  have "\<exists>r h1. run_state (RC_CALL (STR_alloc ?n) ?f) h = (r, h1) \<and> changes {} h h1 \<and>
    (wrecked r \<or> r = Inr (o_next h) \<and> building b (o_next h) h1)"
  proof (rule new_string [OF assms])
    fix h1
    assume b: "building b (o_next h) h1"
    have "builds b (o_next h) (gets (\<lambda>g. fst (STR_stringStart (o_next h) g)) \<bind> (\<lambda>a.
        modify (put_octets a 0 (replicate ?n 0)) \<bind> (\<lambda>_.
          RC_CALL (parseBits (unat (len - 1)) (unat u) a 0 b) (\<lambda>_. ok (o_next h))))) g"
      if g: "building b (o_next h) g" for g and u :: u8
    proof -
      have p: "fst (STR_stringStart (o_next h) g) = o_next h"
        using g by (simp add: STR_stringStart_def building_def)
      show ?thesis
        by (rule builds_gets, unfold p, rule builds_put [OF g], rule builds_call [OF builds_parseBits]) simp_all
    qed
    then show "builds b (o_next h) (?f (o_next h)) h1"
      by (auto intro!: builds_setStringLength [OF b] builds_call builds_getOctet)
  next
    fix h1 x h2
    assume "run_state (?f (o_next h)) h1 = (Inr x, h2)"
    then show "x = o_next h"
      by (auto simp: run_RC_CALL_Inr split: if_splits prod.splits)
  qed
  then show ?thesis
    unfolding parseBitString_def if_not_P [OF False] Let_def .
qed


section \<open>The contents of strings\<close>

lemma building_src: "building b s h \<Longrightarrow> src b h"
  by (simp add: building_def)

text \<open>Storing a string that was made since \<open>h\<close>, and writing it on.\<close>

lemma safe_store:
  assumes "building b s h1" "changes {} h h1" "o_next h \<le> s" "a \<in> A"
    and "\<And>h2. building b s h2 \<Longrightarrow> builds b s (k ()) h2"
  shows "run_state (modify (\<lambda>h. h\<lparr>c_str := (c_str h)(a := s)\<rparr>) \<bind> k) h1 = (r, h') \<Longrightarrow>
    changes A h h' \<and> (wrecked r \<or> src b h')"
proof -
  assume run: "run_state (modify (\<lambda>h. h\<lparr>c_str := (c_str h)(a := s)\<rparr>) \<bind> k) h1 = (r, h')"
  let ?h = "h1\<lparr>c_str := (c_str h1)(a := s)\<rparr>"
  have same: "same_but s h1 ?h" "heads ?h b = heads h1 b"
    by (simp_all add: same_but_def)
  have "builds b s (k ()) ?h"
    using building_same [OF assms(1) same] assms(5) by blast
  then have 2: "same_but s ?h h'" "members h' = members ?h" "wrecked r \<or> building b s h'"
    using run by (auto simp: builds_def)
  have "changes A h ?h"
    using assms(2,4) by (auto simp: changes_def)
  then show ?thesis
    using same_but_changes [OF 2(1) _ assms(3) 2(2)] 2(3) building_src by blast
qed

lemma builds_append_end:
  "building b s h \<Longrightarrow> builds b s (gets (\<lambda>h. fst (STR_stringStart s h)) \<bind> (\<lambda>a.
     modify (put_octets a i xs) \<bind> (\<lambda>_. RC_CALL (appendOctets s ys) (\<lambda>_. ok z)))) h"
proof -
  assume b: "building b s h"
  then have p: "fst (STR_stringStart s h) = s"
    by (simp add: STR_stringStart_def building_def)
  show ?thesis
    by (rule builds_gets, unfold p, rule builds_put [OF b], rule builds_call [OF builds_appendOctets]) simp_all
qed

lemma safe_OctetString:
  assumes "t_type t = ASN_Type_OctetString" "src b h" "base + t_data t \<in> A"
  shows "safe b A (parseContents t b base len L u) h"
proof -
  obtain r h1 where 1: "run_state (parseOctetString t b len) h = (r, h1)" "changes {} h h1"
    "wrecked r \<or> r = Inr (o_next h) \<and> building b (o_next h) h1"
    using parseOctetString_safe [OF assms(2)] by blast
  show ?thesis
  proof (cases "wrecked r")
    case True
    then obtain e where "r = Inl e" "e \<noteq> ASN_RC_WrongTag"
      by (auto simp: wrecked_def)
    then show ?thesis
      using 1(1) changes_mono [OF 1(2)] assms(1) by (auto simp: safe_def parseContents.simps)
  next
    case False
    then have r: "r = Inr (o_next h)" and b: "building b (o_next h) h1"
      using 1(3) by simp_all
    show ?thesis
      unfolding safe_def
    proof (intro allI impI)
      fix r' h'
      assume "run_state (parseContents t b base len L u) h = (r', h')"
      then have "run_state (modify (\<lambda>h'. h'\<lparr>c_str := (c_str h')(base + t_data t := o_next h)\<rparr>) \<bind> (\<lambda>_.
          gets (\<lambda>g. fst (STR_stringStart (o_next h) g)) \<bind> (\<lambda>a. modify (put_octets a (uint len) [0]) \<bind> (\<lambda>_.
            RC_CALL (appendOctets (o_next h) [0]) (\<lambda>_. ok (L + 1 + len)))))) h1 = (r', h')"
        using 1(1) r assms(1) by (simp add: parseContents.simps)
      then show "changes A h h' \<and> (wrecked r' \<or> src b h')"
        by (rule safe_store [OF b 1(2) order_refl assms(3) builds_append_end, rotated])
    qed
  qed
qed

lemma safe_BitString:
  assumes "t_type t = ASN_Type_BitString" "src b h" "base + t_data t \<in> A"
  shows "safe b A (parseContents t b base len L u) h"
proof -
  obtain r h1 where 1: "run_state (parseBitString b len) h = (r, h1)" "changes {} h h1"
    "wrecked r \<or> r = Inr (o_next h) \<and> building b (o_next h) h1"
    using parseBitString_safe [OF assms(2)] by blast
  show ?thesis
  proof (cases "wrecked r")
    case True
    then obtain e where "r = Inl e" "e \<noteq> ASN_RC_WrongTag"
      by (auto simp: wrecked_def)
    then show ?thesis
      using 1(1) changes_mono [OF 1(2)] assms(1) by (auto simp: safe_def parseContents.simps)
  next
    case False
    then have r: "r = Inr (o_next h)" and b: "building b (o_next h) h1"
      using 1(3) by simp_all
    show ?thesis
      unfolding safe_def
    proof (intro allI impI)
      fix r' h'
      assume "run_state (parseContents t b base len L u) h = (r', h')"
      then have "run_state (modify (\<lambda>h'. h'\<lparr>c_str := (c_str h')(base + t_data t := o_next h)\<rparr>) \<bind> (\<lambda>_.
          ok (u + len))) h1 = (r', h')"
        using 1(1) r assms(1) by (simp add: parseContents.simps)
      then show "changes A h h' \<and> (wrecked r' \<or> src b h')"
        by (rule safe_store [OF b 1(2) order_refl assms(3) builds_ok(1), rotated])
    qed
  qed
qed

lemma safe_BcdString:
  assumes "t_type t = ASN_Type_BcdString" "src b h" "base + t_data t \<in> A"
  shows "safe b A (parseContents t b base len L u) h"
proof -
  obtain r h1 where 1: "run_state (parseOctetString t b len) h = (r, h1)" "changes {} h h1"
    "wrecked r \<or> r = Inr (o_next h) \<and> building b (o_next h) h1"
    using parseOctetString_safe [OF assms(2)] by blast
  show ?thesis
  proof (cases "wrecked r")
    case True
    then obtain e where "r = Inl e" "e \<noteq> ASN_RC_WrongTag"
      by (auto simp: wrecked_def)
    then show ?thesis
      using 1(1) changes_mono [OF 1(2)] assms(1) by (auto simp: safe_def parseContents.simps)
  next
    case False
    then have r: "r = Inr (o_next h)" and b: "building b (o_next h) h1"
      using 1(3) by simp_all
    have p: "fst (STR_stringStart (o_next h) h1) = o_next h"
      using b by (simp add: STR_stringStart_def building_def)
    define h2 where "h2 = put_octets (o_next h) (uint len) [0xFF, 0] h1"
    have same: "same_but (o_next h) h1 h2" "members h2 = members h1" "heads h2 b = heads h1 b"
      by (simp_all add: h2_def same_but_def put_octets_cells fun_eq_iff members_def)
    have 2: "src b h2" "changes {} h h2"
      using building_same [OF b same(1,3)] building_src same_but_changes [OF same(1) 1(2) order_refl same(2)]
      by auto
    have "safe b A (set_int (base + t_data t) v \<bind> (\<lambda>_. ok (L + 1 + len))) h2" for v
      using assms(3) by (intro safe_set_int [OF 2(1)]) auto
    then show ?thesis
      using 1(1) r assms(1) p changes_trans [OF changes_mono [OF 2(2)]]
      by (auto simp: safe_def parseContents.simps h2_def)
  qed
qed


section \<open>The parser\<close>

lemma region_leaf:
  "t_type t \<noteq> ASN_Type_Sequence \<Longrightarrow> base + t_data t \<in> region t base"
  by (subst region.simps) (auto split: asn_type.split)

lemma parse_safe:
  shows "tags_ok t \<Longrightarrow> src b h \<Longrightarrow> safe b (region t base) (asn_berParse t b base n) h"
    and "tags_ok t \<Longrightarrow> src b h \<Longrightarrow> safe b (region t base) (parseContents t b base n L u) h"
    and "\<forall>x \<in> set ts. tags_ok x \<Longrightarrow> src b h \<Longrightarrow> safe b (\<Union>x \<in> set ts. region x base) (parseSeq ts b base n) h"
    and "tags_ok t \<Longrightarrow> src b h \<Longrightarrow> safe b ({pc} \<union> (\<Union>k < maxCount - count. region t (base + k * sz)))
      (parseSeqOf count maxCount t sz pc b base n) h"
    and "\<forall>x \<in> set ts. tags_ok x \<Longrightarrow> src b h \<Longrightarrow> safe b (\<Union>x \<in> set ts. region x base) (parseChoice ts i e b base n) h"
proof (induction t b base n and t b base n L u and ts b base n and count maxCount t sz pc b base n
    and ts i e b base n arbitrary: h and h and h and h and h
    rule: asn_berParse_parseContents_parseSeq_parseSeqOf_parseChoice.induct)
  case (1 t b base n)
  show ?case
    unfolding asn_berParse.simps
    using 1
    by (auto intro!: safe_call safe_parseHeader flag_region split: option.split)
next
  case (2 t b base len L u)
  show ?case
  proof (cases "t_type t")
    case ASN_Type_Integer
    then show ?thesis
      using 2(5) region_leaf [of t base]
      by (auto simp: parseContents.simps intro!: safe_call safe_getValue safe_set_int)
  next
    case ASN_Type_BitString
    then show ?thesis
      using 2(5) region_leaf [of t base] by (intro safe_BitString) simp_all
  next
    case ASN_Type_OctetString
    then show ?thesis
      using 2(5) region_leaf [of t base] by (intro safe_OctetString) simp_all
  next
    case ASN_Type_BcdString
    then show ?thesis
      using 2(5) region_leaf [of t base] by (intro safe_BcdString) simp_all
  next
    case ASN_Type_Sequence
    have sub: "(\<Union>x \<in> set (tableList t). region x base) \<subseteq> region t base"
      by (subst (2) region.simps) (auto simp: ASN_Type_Sequence)
    have "\<forall>x \<in> set (tableList t). tags_ok x"
      using 2(4) by (simp add: tags_ok.simps [of t] ASN_Type_Sequence)
    then have "safe b (region t base) (parseSeq (tableList t) b base len) h"
      by (rule safe_mono [OF 2(1) [OF ASN_Type_Sequence _ 2(5)] sub])
    then show ?thesis
      by (auto simp: parseContents.simps ASN_Type_Sequence intro!: safe_call)
  next
    case ASN_Type_SequenceOf
    let ?e = "hd (tableList t)"
    have ne: "tableList t \<noteq> []" and tag: "tags_ok ?e"
      using 2(4) by (auto simp: tags_ok.simps [of t] ASN_Type_SequenceOf)
    have sub: "{base + t_data t} \<union> (\<Union>k < unat (t_maxLen t) - 0. region ?e (base + k * t_elemSize t)) \<subseteq> region t base"
      by (subst (2) region.simps) (auto simp: ASN_Type_SequenceOf ne)
    have "safe b (region t base) (parseSeqOf 0 (unat (t_maxLen t)) ?e (t_elemSize t) (base + t_data t) b base len) h1"
      if "src b h1" for h1
      by (rule safe_mono [OF 2(2) [OF ASN_Type_SequenceOf ne tag that] sub])
    then show ?thesis
      using 2(5) ne region_leaf [of t base]
      by (auto simp: parseContents.simps ASN_Type_SequenceOf intro!: safe_set_int safe_call)
  next
    case ASN_Type_Choice
    have sub: "(\<Union>x \<in> set (tableList t). region x base) \<subseteq> region t base"
      by (subst (2) region.simps) (auto simp: ASN_Type_Choice)
    have "\<forall>x \<in> set (tableList t). tags_ok x"
      using 2(4) by (simp add: tags_ok.simps [of t] ASN_Type_Choice)
    then have c: "safe b (region t base) (parseChoice (tableList t) 0 Fail b base len) h"
      by (rule safe_mono [OF 2(3) [OF ASN_Type_Choice _ 2(5)] sub])
    show ?thesis
      using region_leaf [of t base] flag_region [of t base]
      by (auto simp: parseContents.simps ASN_Type_Choice intro!: safe_call [OF c] safe_set_exists safe_modify
          split: sum.split) (auto simp: changes_def)
  qed (use 2(4) in \<open>simp_all add: tags_ok.simps [of t]\<close>)
next
  case (3 b base len)
  then show ?case by simp
next
  case (4 t ts b base len)
  then show ?case
    by (auto intro!: safe_call safe_mono [OF 4(1)] safe_mono [OF 4(2)])
next
  case (5 count maxCount t sz pc b base len)
  let ?A = "{pc} \<union> (\<Union>k < maxCount - count. region t (base + k * sz))"
  show ?case
  proof (cases "len = 0 \<or> count \<ge> maxCount")
    case True
    then show ?thesis using 5(4) by (subst parseSeqOf.simps) auto
  next
    case False
    then have lt: "len \<noteq> 0" "\<not> count \<ge> maxCount" "0 < maxCount - count"
      by auto
    have "region t (base + 0 * sz) \<subseteq> ?A"
      using lt(3) by blast
    then have first: "safe b ?A (asn_berParse t b base len) h"
      using safe_mono [OF 5(1) [OF lt(1,2) 5(3,4)]] by simp
    have "{pc} \<union> (\<Union>k < maxCount - (count + 1). region t (base + sz + k * sz)) \<subseteq> ?A"
    proof (intro Un_mono order_refl UN_least)
      fix k
      assume "k \<in> {..<maxCount - (count + 1)}"
      then have "Suc k \<in> {..<maxCount - count}" by auto
      then have "region t (base + Suc k * sz) \<subseteq> (\<Union>k < maxCount - count. region t (base + k * sz))"
        by (rule UN_upper)
      then show "region t (base + sz + k * sz) \<subseteq> (\<Union>k < maxCount - count. region t (base + k * sz))"
        by (simp add: add.assoc)
    qed
    then have "safe b ?A (parseSeqOf (count + 1) maxCount t sz pc b (base + sz) (len - m)) h1"
      if "\<not> m > len" "src b h1" for m h1
      using safe_mono [OF 5(2) [OF lt(1,2) that(1) 5(3) that(2)]] by blast
    then have "safe b ?A (if m > len then FAIL_RC ASN_RC_InvalidSize
        else do {
          set_int pc (of_nat (count + 1));
          parseSeqOf (count + 1) maxCount t sz pc b (base + sz) (len - m)
        }) h1" if "src b h1" for m h1
      using that by (cases "m > len") (simp, simp add: safe_set_int)
    then have "safe b ?A (RC_CALL (asn_berParse t b base len) (\<lambda>m. if m > len then FAIL_RC ASN_RC_InvalidSize
        else do {
          set_int pc (of_nat (count + 1));
          parseSeqOf (count + 1) maxCount t sz pc b (base + sz) (len - m)
        })) h"
      by (rule safe_call [OF first])
    then show ?thesis
      using lt(1,2) by (subst parseSeqOf.simps) simp
  qed
next
  case (6 i e b base len)
  then show ?case by simp
next
  case (7 t ts i e b base len)
  let ?A = "\<Union>x \<in> set (t # ts). region x base"
  obtain r h1 where run: "run_state (asn_berParse t b base len) h = (r, h1)" by fastforce
  have "safe b ?A (asn_berParse t b base len) h"
    using 7 by (intro safe_mono [OF 7(1)]) auto
  then have 1: "changes ?A h h1" "wrecked r \<or> src b h1"
    using run by (simp_all add: safe_def)
  have rest: "safe b ?A (parseChoice ts (i + 1) e' b base len) h1" if "src b h1" "e' = ASN_RC_WrongTag" for e'
    using 7(3) that by (intro safe_mono [OF 7(2)]) auto
  show ?case
  proof (cases r)
    case (Inl e')
    then show ?thesis
      using run 1 rest [of e'] changes_trans [OF 1(1)] by (auto simp: safe_def)
  next
    case (Inr m)
    then show ?thesis
      using run 1 by (auto simp: safe_def)
  qed
qed

end
