(* ===== verification/Emsd_Structs.thy ===== *)
theory Emsd_Structs
  imports Asn
begin

unbundle bit_operations_syntax

text \<open>
  The structures of \<^verbatim>\<open>emsd/include/emsd.h\<close> that the message encodings are read from and written to:
  for every member, its address in a structure at \<open>p\<close>. The layout is that of a machine with 32-bit
  \<^verbatim>\<open>long\<close> and pointers, on which \<^verbatim>\<open>OS_Uint32\<close> is such a \<^verbatim>\<open>long\<close>, and \<^verbatim>\<open>OS_Boolean\<close> and
  \<^verbatim>\<open>ASN_ChoiceSelector\<close> are octets. \<open>ASN_NEW_TABLE\<close> is the entry that the macro of that name adds,
  with the limits and the list of entries that it is given afterwards.
\<close>

section \<open>Entries\<close>

abbreviation (input) ASN_TAG_CONTEXT :: "u8 \<Rightarrow> u8" where "ASN_TAG_CONTEXT n \<equiv> 0x80 + n"
abbreviation (input) ASN_TAG_APPL :: "u8 \<Rightarrow> u8" where "ASN_TAG_APPL n \<equiv> 0x40 + n"
abbreviation (input) ASN_UniversalTag_Integer :: u8 where "ASN_UniversalTag_Integer \<equiv> 0x02"
abbreviation (input) ASN_UniversalTag_BitString :: u8 where "ASN_UniversalTag_BitString \<equiv> 0x03"
abbreviation (input) ASN_UniversalTag_OctetString :: u8 where "ASN_UniversalTag_OctetString \<equiv> 0x04"
abbreviation (input) ASN_UniversalTag_Enumerated :: u8 where "ASN_UniversalTag_Enumerated \<equiv> 0x0a"
abbreviation (input) ASN_UniversalTag_Sequence :: u8 where "ASN_UniversalTag_Sequence \<equiv> 0x10"

abbreviation (input) EMSDUB_MAX_RECIPIENTS :: u32 where "EMSDUB_MAX_RECIPIENTS \<equiv> 256"
abbreviation (input) EMSDUB_MAX_REPLY_TO :: u32 where "EMSDUB_MAX_REPLY_TO \<equiv> 256"
abbreviation (input) EMSDUB_MAX_SUBJECT_LEN :: u32 where "EMSDUB_MAX_SUBJECT_LEN \<equiv> 127"
abbreviation (input) EMSDUB_MAX_PASSWORD_LEN :: u32 where "EMSDUB_MAX_PASSWORD_LEN \<equiv> 16"
abbreviation (input) EMSDUB_MAX_CONTENT_LEN :: u32 where "EMSDUB_MAX_CONTENT_LEN \<equiv> 65535"
abbreviation (input) EMSDUB_NUM_CONTENT_TYPES :: u32 where "EMSDUB_NUM_CONTENT_TYPES \<equiv> 128"
abbreviation (input) EMSDUB_MAX_MESSAGE_ID_LEN :: u32 where "EMSDUB_MAX_MESSAGE_ID_LEN \<equiv> 127"
abbreviation (input) EMSDUB_MAX_HEADER_EXTENSIONS :: u32 where "EMSDUB_MAX_HEADER_EXTENSIONS \<equiv> 64"
abbreviation (input) EMSDUB_MAX_NAME_LENGTH :: u32 where "EMSDUB_MAX_NAME_LENGTH \<equiv> 64"
abbreviation (input) EMSDUB_MAX_RFC822_NAME_LEN :: u32 where "EMSDUB_MAX_RFC822_NAME_LEN \<equiv> 127"
abbreviation (input) EMSDUB_MAX_MIME_VERSION :: u32 where "EMSDUB_MAX_MIME_VERSION \<equiv> 8"
abbreviation (input) EMSDUB_MAX_MIME_CONTENT_TYPE_LEN :: u32 where "EMSDUB_MAX_MIME_CONTENT_TYPE_LEN \<equiv> 127"
abbreviation (input) EMSDUB_MAX_MIME_CONTENT_ID_LEN :: u32 where "EMSDUB_MAX_MIME_CONTENT_ID_LEN \<equiv> 127"
abbreviation (input) EMSDUB_MAX_MIME_CONTENT_DESC_LEN :: u32 where "EMSDUB_MAX_MIME_CONTENT_DESC_LEN \<equiv> 127"
abbreviation (input) EMSDUB_MAX_MIME_CONTENT_ENC_LEN :: u32 where "EMSDUB_MAX_MIME_CONTENT_ENC_LEN \<equiv> 127"

abbreviation (input) NO_MAX :: u32 where "NO_MAX \<equiv> 0xffffffff"

definition ASN_NEW_TABLE ::
  "asn_type \<Rightarrow> u8 \<Rightarrow> nat \<Rightarrow> nat \<Rightarrow> nat \<Rightarrow> u32 \<Rightarrow> nat \<Rightarrow> asn_tab list \<Rightarrow> asn_tab" where
  "ASN_NEW_TABLE type itemTag pCStruct pExists pData maxDataLength elementSize entries =
     TableEntry type itemTag (if pExists = NULL then None else Some (pExists - pCStruct))
       (if pData = NULL then 0xffffffff else pData - pCStruct) maxDataLength elementSize entries"

text \<open>The entry is the one that \<^verbatim>\<open>ASN_newTableEntry\<close> puts at the end of the list when memory is there.\<close>

lemma ASN_newTableEntry_entry:
  "mem_ok h \<Longrightarrow> \<exists>h'. run_state (ASN_newTableEntry type tag q cs ex d sz) h =
     (Inr (q @ [ASN_NEW_TABLE type tag cs ex d NO_MAX sz []]), h')"
  by (simp add: ASN_newTableEntry_def ASN_NEW_TABLE_def run_OS_alloc mem_ok_def)


section \<open>Structures\<close>

text \<open>A structure of a flag \<^verbatim>\<open>exists\<close> and the value \<^verbatim>\<open>data\<close>, which is aligned to four octets.\<close>

definition opt_exists :: "nat \<Rightarrow> nat" where "opt_exists p = p"
definition opt_data :: "nat \<Rightarrow> nat" where "opt_data p = p + 4"

definition LocalMessageId_submissionTime :: "nat \<Rightarrow> nat" where "LocalMessageId_submissionTime p = p"
definition LocalMessageId_dailyMessageNumber :: "nat \<Rightarrow> nat" where "LocalMessageId_dailyMessageNumber p = p + 4"

definition MessageId_choice :: "nat \<Rightarrow> nat" where "MessageId_choice p = p"
definition MessageId_local :: "nat \<Rightarrow> nat" where "MessageId_local p = p + 4"
definition MessageId_rfc822 :: "nat \<Rightarrow> nat" where "MessageId_rfc822 p = p + 4"

definition EMSDAddress_emsdAddress :: "nat \<Rightarrow> nat" where "EMSDAddress_emsdAddress p = p"
definition EMSDAddress_emsdName :: "nat \<Rightarrow> nat" where "EMSDAddress_emsdName p = p + 4"

definition ORAddress_choice :: "nat \<Rightarrow> nat" where "ORAddress_choice p = p"
definition ORAddress_local :: "nat \<Rightarrow> nat" where "ORAddress_local p = p + 4"
definition ORAddress_rfc822 :: "nat \<Rightarrow> nat" where "ORAddress_rfc822 p = p + 4"

definition CredentialsSimple_emsdAddress :: "nat \<Rightarrow> nat" where "CredentialsSimple_emsdAddress p = p"
definition CredentialsSimple_password :: "nat \<Rightarrow> nat" where "CredentialsSimple_password p = p + 16"

definition SecurityElement_choice :: "nat \<Rightarrow> nat" where "SecurityElement_choice p = p"
definition SecurityElement_simple :: "nat \<Rightarrow> nat" where "SecurityElement_simple p = p + 4"
definition SecurityElement_contentIntegrityCheck :: "nat \<Rightarrow> nat" where "SecurityElement_contentIntegrityCheck p = p + 28"

definition SegmentData_sequenceId :: "nat \<Rightarrow> nat" where "SegmentData_sequenceId p = p"
definition SegmentData_data :: "nat \<Rightarrow> nat" where "SegmentData_data p = p + 4"

definition SegmentInfo_choice :: "nat \<Rightarrow> nat" where "SegmentInfo_choice p = p"
definition SegmentInfo_segmentData :: "nat \<Rightarrow> nat" where "SegmentInfo_segmentData p = p + 4"

definition ErrorRequest_error :: "nat \<Rightarrow> nat" where "ErrorRequest_error p = p"

definition SubmitArgument_security :: "nat \<Rightarrow> nat" where "SubmitArgument_security p = p"
definition SubmitArgument_segmentInfo :: "nat \<Rightarrow> nat" where "SubmitArgument_segmentInfo p = p + 40"
definition SubmitArgument_contentType :: "nat \<Rightarrow> nat" where "SubmitArgument_contentType p = p + 56"
definition SubmitArgument_hContents :: "nat \<Rightarrow> nat" where "SubmitArgument_hContents p = p + 60"

definition SubmitResult_localMessageId :: "nat \<Rightarrow> nat" where "SubmitResult_localMessageId p = p"

definition DeliveryControlArgument_restrict :: "nat \<Rightarrow> nat" where "DeliveryControlArgument_restrict p = p"
definition DeliveryControlArgument_permissibleOperations :: "nat \<Rightarrow> nat" where "DeliveryControlArgument_permissibleOperations p = p + 8"
definition DeliveryControlArgument_permissibleMaxContentLength :: "nat \<Rightarrow> nat" where "DeliveryControlArgument_permissibleMaxContentLength p = p + 16"
definition DeliveryControlArgument_permissibleLowestPriority :: "nat \<Rightarrow> nat" where "DeliveryControlArgument_permissibleLowestPriority p = p + 24"
definition DeliveryControlArgument_security :: "nat \<Rightarrow> nat" where "DeliveryControlArgument_security p = p + 32"
definition DeliveryControlArgument_userFeatures :: "nat \<Rightarrow> nat" where "DeliveryControlArgument_userFeatures p = p + 72"

definition ContentTypes_count :: "nat \<Rightarrow> nat" where "ContentTypes_count p = p"
definition ContentTypes_data :: "nat \<Rightarrow> nat" where "ContentTypes_data p = p + 4"

definition DeliveryControlResult_waitingOperations :: "nat \<Rightarrow> nat" where "DeliveryControlResult_waitingOperations p = p"
definition DeliveryControlResult_waitingMessages :: "nat \<Rightarrow> nat" where "DeliveryControlResult_waitingMessages p = p + 8"
definition DeliveryControlResult_waitingContentTypes :: "nat \<Rightarrow> nat" where "DeliveryControlResult_waitingContentTypes p = p + 16"

definition DeliverArgument_messageId :: "nat \<Rightarrow> nat" where "DeliverArgument_messageId p = p"
definition DeliverArgument_submissionTime :: "nat \<Rightarrow> nat" where "DeliverArgument_submissionTime p = p + 12"
definition DeliverArgument_deliveryTime :: "nat \<Rightarrow> nat" where "DeliverArgument_deliveryTime p = p + 20"
definition DeliverArgument_security :: "nat \<Rightarrow> nat" where "DeliverArgument_security p = p + 24"
definition DeliverArgument_segmentInfo :: "nat \<Rightarrow> nat" where "DeliverArgument_segmentInfo p = p + 64"
definition DeliverArgument_contentType :: "nat \<Rightarrow> nat" where "DeliverArgument_contentType p = p + 80"
definition DeliverArgument_hContents :: "nat \<Rightarrow> nat" where "DeliverArgument_hContents p = p + 84"

definition DeliveryVerifyArgument_messageId :: "nat \<Rightarrow> nat" where "DeliveryVerifyArgument_messageId p = p"

definition DeliveryVerifyResult_deliveryStatus :: "nat \<Rightarrow> nat" where "DeliveryVerifyResult_deliveryStatus p = p"

definition SubmissionVerifyArgument_messageId :: "nat \<Rightarrow> nat" where "SubmissionVerifyArgument_messageId p = p"

definition SubmissionVerifyResult_submissionStatus :: "nat \<Rightarrow> nat" where "SubmissionVerifyResult_submissionStatus p = p"

definition RecipientData_recipient :: "nat \<Rightarrow> nat" where "RecipientData_recipient p = p"
definition RecipientData_perRecipFlags :: "nat \<Rightarrow> nat" where "RecipientData_perRecipFlags p = p + 16"

definition RecipientDataList_count :: "nat \<Rightarrow> nat" where "RecipientDataList_count p = p"
definition RecipientDataList_data :: "nat \<Rightarrow> nat" where "RecipientDataList_data p = p + 4"

definition ReplyTo_count :: "nat \<Rightarrow> nat" where "ReplyTo_count p = p"
definition ReplyTo_data :: "nat \<Rightarrow> nat" where "ReplyTo_data p = p + 4"

definition Extension_label :: "nat \<Rightarrow> nat" where "Extension_label p = p"
definition Extension_value :: "nat \<Rightarrow> nat" where "Extension_value p = p + 4"

definition Extensions_count :: "nat \<Rightarrow> nat" where "Extensions_count p = p"
definition Extensions_data :: "nat \<Rightarrow> nat" where "Extensions_data p = p + 4"

definition IpmHeading_sender :: "nat \<Rightarrow> nat" where "IpmHeading_sender p = p"
definition IpmHeading_originator :: "nat \<Rightarrow> nat" where "IpmHeading_originator p = p + 20"
definition IpmHeading_recipientDataList :: "nat \<Rightarrow> nat" where "IpmHeading_recipientDataList p = p + 36"
definition IpmHeading_perMessageFlags :: "nat \<Rightarrow> nat" where "IpmHeading_perMessageFlags p = p + 6184"
definition IpmHeading_replyTo :: "nat \<Rightarrow> nat" where "IpmHeading_replyTo p = p + 6192"
definition IpmHeading_repliedToIpm :: "nat \<Rightarrow> nat" where "IpmHeading_repliedToIpm p = p + 10296"
definition IpmHeading_subject :: "nat \<Rightarrow> nat" where "IpmHeading_subject p = p + 10312"
definition IpmHeading_extensions :: "nat \<Rightarrow> nat" where "IpmHeading_extensions p = p + 10320"
definition IpmHeading_mimeVersion :: "nat \<Rightarrow> nat" where "IpmHeading_mimeVersion p = p + 10836"
definition IpmHeading_mimeContentType :: "nat \<Rightarrow> nat" where "IpmHeading_mimeContentType p = p + 10844"
definition IpmHeading_mimeContentId :: "nat \<Rightarrow> nat" where "IpmHeading_mimeContentId p = p + 10852"
definition IpmHeading_mimeContentDescription :: "nat \<Rightarrow> nat" where "IpmHeading_mimeContentDescription p = p + 10860"
definition IpmHeading_mimeContentTransferEncoding :: "nat \<Rightarrow> nat" where "IpmHeading_mimeContentTransferEncoding p = p + 10868"

definition IpmBody_compressionMethod :: "nat \<Rightarrow> nat" where "IpmBody_compressionMethod p = p"
definition IpmBody_bodyText :: "nat \<Rightarrow> nat" where "IpmBody_bodyText p = p + 8"

definition Message_heading :: "nat \<Rightarrow> nat" where "Message_heading p = p"
definition Message_body :: "nat \<Rightarrow> nat" where "Message_body p = p + 10876"

definition DeliveryReport_messageDeliveryTime :: "nat \<Rightarrow> nat" where "DeliveryReport_messageDeliveryTime p = p"

definition NonDeliveryReport_nonDeliveryReason :: "nat \<Rightarrow> nat" where "NonDeliveryReport_nonDeliveryReason p = p"
definition NonDeliveryReport_nonDeliveryDiagnostic :: "nat \<Rightarrow> nat" where "NonDeliveryReport_nonDeliveryDiagnostic p = p + 4"
definition NonDeliveryReport_explanation :: "nat \<Rightarrow> nat" where "NonDeliveryReport_explanation p = p + 12"

definition Report_choice :: "nat \<Rightarrow> nat" where "Report_choice p = p"
definition Report_deliveryReport :: "nat \<Rightarrow> nat" where "Report_deliveryReport p = p + 4"
definition Report_nonDeliveryReport :: "nat \<Rightarrow> nat" where "Report_nonDeliveryReport p = p + 4"

definition PerRecipReportData_recipient :: "nat \<Rightarrow> nat" where "PerRecipReportData_recipient p = p"
definition PerRecipReportData_report :: "nat \<Rightarrow> nat" where "PerRecipReportData_report p = p + 16"

definition PerRecipReportDataList_count :: "nat \<Rightarrow> nat" where "PerRecipReportDataList_count p = p"
definition PerRecipReportDataList_data :: "nat \<Rightarrow> nat" where "PerRecipReportDataList_data p = p + 4"

definition ReturnedContent_exists :: "nat \<Rightarrow> nat" where "ReturnedContent_exists p = p"
definition ReturnedContent_contentType :: "nat \<Rightarrow> nat" where "ReturnedContent_contentType p = p + 4"
definition ReturnedContent_returnedContents :: "nat \<Rightarrow> nat" where "ReturnedContent_returnedContents p = p + 8"

definition ReportDelivery_msgIdOfReportedMsg :: "nat \<Rightarrow> nat" where "ReportDelivery_msgIdOfReportedMsg p = p"
definition ReportDelivery_recipDataList :: "nat \<Rightarrow> nat" where "ReportDelivery_recipDataList p = p + 12"
definition ReportDelivery_returnedContent :: "nat \<Rightarrow> nat" where "ReportDelivery_returnedContent p = p + 10256"

definition RecipientList_count :: "nat \<Rightarrow> nat" where "RecipientList_count p = p"
definition RecipientList_data :: "nat \<Rightarrow> nat" where "RecipientList_data p = p + 4"

definition ProbeSubmission_sender :: "nat \<Rightarrow> nat" where "ProbeSubmission_sender p = p"
definition ProbeSubmission_recipients :: "nat \<Rightarrow> nat" where "ProbeSubmission_recipients p = p + 16"
definition ProbeSubmission_contentType :: "nat \<Rightarrow> nat" where "ProbeSubmission_contentType p = p + 4116"
definition ProbeSubmission_contentLength :: "nat \<Rightarrow> nat" where "ProbeSubmission_contentLength p = p + 4124"

definition sizeof_RecipientData :: nat where "sizeof_RecipientData = 24"

definition sizeof_ORAddress :: nat where "sizeof_ORAddress = 16"

definition sizeof_Extension :: nat where "sizeof_Extension = 8"

definition sizeof_PerRecipReportData :: nat where "sizeof_PerRecipReportData = 40"

definition sizeof_RecipientList :: nat where "sizeof_RecipientList = 4100"

lemmas emsd_layout = opt_exists_def opt_data_def LocalMessageId_submissionTime_def
  LocalMessageId_dailyMessageNumber_def MessageId_choice_def MessageId_local_def
  MessageId_rfc822_def EMSDAddress_emsdAddress_def EMSDAddress_emsdName_def ORAddress_choice_def
  ORAddress_local_def ORAddress_rfc822_def CredentialsSimple_emsdAddress_def
  CredentialsSimple_password_def SecurityElement_choice_def SecurityElement_simple_def
  SecurityElement_contentIntegrityCheck_def SegmentData_sequenceId_def SegmentData_data_def
  SegmentInfo_choice_def SegmentInfo_segmentData_def ErrorRequest_error_def
  SubmitArgument_security_def SubmitArgument_segmentInfo_def SubmitArgument_contentType_def
  SubmitArgument_hContents_def SubmitResult_localMessageId_def
  DeliveryControlArgument_restrict_def DeliveryControlArgument_permissibleOperations_def
  DeliveryControlArgument_permissibleMaxContentLength_def
  DeliveryControlArgument_permissibleLowestPriority_def DeliveryControlArgument_security_def
  DeliveryControlArgument_userFeatures_def ContentTypes_count_def ContentTypes_data_def
  DeliveryControlResult_waitingOperations_def DeliveryControlResult_waitingMessages_def
  DeliveryControlResult_waitingContentTypes_def DeliverArgument_messageId_def
  DeliverArgument_submissionTime_def DeliverArgument_deliveryTime_def
  DeliverArgument_security_def DeliverArgument_segmentInfo_def DeliverArgument_contentType_def
  DeliverArgument_hContents_def DeliveryVerifyArgument_messageId_def
  DeliveryVerifyResult_deliveryStatus_def SubmissionVerifyArgument_messageId_def
  SubmissionVerifyResult_submissionStatus_def RecipientData_recipient_def
  RecipientData_perRecipFlags_def RecipientDataList_count_def RecipientDataList_data_def
  ReplyTo_count_def ReplyTo_data_def Extension_label_def Extension_value_def
  Extensions_count_def Extensions_data_def IpmHeading_sender_def IpmHeading_originator_def
  IpmHeading_recipientDataList_def IpmHeading_perMessageFlags_def IpmHeading_replyTo_def
  IpmHeading_repliedToIpm_def IpmHeading_subject_def IpmHeading_extensions_def
  IpmHeading_mimeVersion_def IpmHeading_mimeContentType_def IpmHeading_mimeContentId_def
  IpmHeading_mimeContentDescription_def IpmHeading_mimeContentTransferEncoding_def
  IpmBody_compressionMethod_def IpmBody_bodyText_def Message_heading_def Message_body_def
  DeliveryReport_messageDeliveryTime_def NonDeliveryReport_nonDeliveryReason_def
  NonDeliveryReport_nonDeliveryDiagnostic_def NonDeliveryReport_explanation_def
  Report_choice_def Report_deliveryReport_def Report_nonDeliveryReport_def
  PerRecipReportData_recipient_def PerRecipReportData_report_def
  PerRecipReportDataList_count_def PerRecipReportDataList_data_def ReturnedContent_exists_def
  ReturnedContent_contentType_def ReturnedContent_returnedContents_def
  ReportDelivery_msgIdOfReportedMsg_def ReportDelivery_recipDataList_def
  ReportDelivery_returnedContent_def RecipientList_count_def RecipientList_data_def
  ProbeSubmission_sender_def ProbeSubmission_recipients_def ProbeSubmission_contentType_def
  ProbeSubmission_contentLength_def sizeof_RecipientData_def sizeof_ORAddress_def
  sizeof_Extension_def sizeof_PerRecipReportData_def sizeof_RecipientList_def

end
