(* ===== verification/Emsd_V1_0.thy ===== *)
theory Emsd_V1_0
  imports Emsd_Structs
begin

unbundle bit_operations_syntax

text \<open>
  The tables of the EMSD protocol, version 1.0: \<^verbatim>\<open>emsd/emsd/envcomp0.c\<close> (the operations),
  \<^verbatim>\<open>ipmcomp0.c\<close> (messages), \<^verbatim>\<open>prbcomp0.c\<close> (probes), \<^verbatim>\<open>rptcomp0.c\<close> (reports) and
  \<^verbatim>\<open>errcomp0.c\<close>. Each function adds one entry to the list it is given, with the entries below it;
  here it delivers that entry. The arguments are the address \<open>cs\<close> of the whole structure, that of
  the flag or 0, that of the part, and the tag, which the functions for whole PDUs do not use. That
  a call of \<^verbatim>\<open>ASN_newTableEntry\<close> fails for want of memory, which they return, is left out.
\<close>

definition EMSD_compileDeliveryControlResult1_0 :: "nat \<Rightarrow> nat \<Rightarrow> nat
    \<Rightarrow> u8 \<Rightarrow> asn_tab" where
  "EMSD_compileDeliveryControlResult1_0 cs ex p tag =
     ASN_NEW_TABLE ASN_Type_Sequence ASN_UniversalTag_Sequence cs ex NULL NO_MAX 0 [
       ASN_NEW_TABLE ASN_Type_BitString (ASN_TAG_CONTEXT 0) cs
           (opt_exists (DeliveryControlResult_waitingOperations p)) (opt_data
               (DeliveryControlResult_waitingOperations p)) NO_MAX 0 [],
       ASN_NEW_TABLE ASN_Type_BitString (ASN_TAG_CONTEXT 1) cs
           (opt_exists (DeliveryControlResult_waitingMessages p)) (opt_data
               (DeliveryControlResult_waitingMessages p)) NO_MAX 0 [],
       ASN_NEW_TABLE ASN_Type_SequenceOf ASN_UniversalTag_Sequence cs NULL (ContentTypes_count
           (DeliveryControlResult_waitingContentTypes p)) EMSDUB_NUM_CONTENT_TYPES 4 [
         ASN_NEW_TABLE ASN_Type_Integer ASN_UniversalTag_Enumerated cs NULL (ContentTypes_data
             (DeliveryControlResult_waitingContentTypes p)) NO_MAX 0 []]]"

definition EMSD_compileDeliveryVerifyResult1_0 :: "nat \<Rightarrow> nat \<Rightarrow> nat
    \<Rightarrow> u8 \<Rightarrow> asn_tab" where
  "EMSD_compileDeliveryVerifyResult1_0 cs ex p tag =
     ASN_NEW_TABLE ASN_Type_Sequence ASN_UniversalTag_Sequence cs ex NULL NO_MAX 0 [
       ASN_NEW_TABLE ASN_Type_Integer ASN_UniversalTag_Integer cs NULL
           (DeliveryVerifyResult_deliveryStatus p) NO_MAX 0 []]"

definition EMSD_compileSubmissionVerifyResult1_0 :: "nat \<Rightarrow> nat \<Rightarrow> nat
    \<Rightarrow> u8 \<Rightarrow> asn_tab" where
  "EMSD_compileSubmissionVerifyResult1_0 cs ex p tag =
     ASN_NEW_TABLE ASN_Type_Sequence ASN_UniversalTag_Sequence cs ex NULL NO_MAX 0 [
       ASN_NEW_TABLE ASN_Type_Integer ASN_UniversalTag_Integer cs NULL
           (SubmissionVerifyResult_submissionStatus p) NO_MAX 0 []]"

definition compileLocalMessageId1_0 :: "nat \<Rightarrow> nat \<Rightarrow> nat \<Rightarrow> u8
    \<Rightarrow> asn_tab" where
  "compileLocalMessageId1_0 cs ex p tag =
     ASN_NEW_TABLE ASN_Type_Sequence tag cs ex NULL NO_MAX 0 [
       ASN_NEW_TABLE ASN_Type_Integer ASN_UniversalTag_Integer cs NULL
           (LocalMessageId_submissionTime p) NO_MAX 0 [],
       ASN_NEW_TABLE ASN_Type_Integer ASN_UniversalTag_Integer cs NULL
           (LocalMessageId_dailyMessageNumber p) NO_MAX 0 []]"

definition EMSD_compileSubmitResult1_0 :: "nat \<Rightarrow> nat \<Rightarrow> nat \<Rightarrow> u8
    \<Rightarrow> asn_tab" where
  "EMSD_compileSubmitResult1_0 cs ex p tag =
     ASN_NEW_TABLE ASN_Type_Sequence ASN_UniversalTag_Sequence cs ex NULL NO_MAX 0 [
       compileLocalMessageId1_0 cs NULL (SubmitResult_localMessageId p) 5]"

definition emsd_compileMessageId1_0 :: "nat \<Rightarrow> nat \<Rightarrow> nat \<Rightarrow> u8
    \<Rightarrow> asn_tab" where
  "emsd_compileMessageId1_0 cs ex p tag =
     ASN_NEW_TABLE ASN_Type_Choice tag cs ex (MessageId_choice p) NO_MAX 0 [
       compileLocalMessageId1_0 cs NULL (MessageId_local p) ASN_UniversalTag_Sequence,
       ASN_NEW_TABLE ASN_Type_OctetString (ASN_TAG_APPL 0) cs NULL (MessageId_rfc822 p)
           EMSDUB_MAX_MESSAGE_ID_LEN 0 []]"

definition EMSD_compileDeliveryVerifyArgument1_0 :: "nat \<Rightarrow> nat \<Rightarrow> nat
    \<Rightarrow> u8 \<Rightarrow> asn_tab" where
  "EMSD_compileDeliveryVerifyArgument1_0 cs ex p tag =
     ASN_NEW_TABLE ASN_Type_Sequence ASN_UniversalTag_Sequence cs ex NULL NO_MAX 0 [
       emsd_compileMessageId1_0 cs NULL (DeliveryVerifyArgument_messageId p) 0]"

definition EMSD_compileSubmissionVerifyArgument1_0 :: "nat \<Rightarrow> nat \<Rightarrow> nat
    \<Rightarrow> u8 \<Rightarrow> asn_tab" where
  "EMSD_compileSubmissionVerifyArgument1_0 cs ex p tag =
     ASN_NEW_TABLE ASN_Type_Sequence ASN_UniversalTag_Sequence cs ex NULL NO_MAX 0 [
       emsd_compileMessageId1_0 cs NULL (SubmissionVerifyArgument_messageId p) 0]"

definition compileEMSDAddress1_0 :: "nat \<Rightarrow> nat \<Rightarrow> nat \<Rightarrow> u8
    \<Rightarrow> asn_tab" where
  "compileEMSDAddress1_0 cs ex p tag =
     ASN_NEW_TABLE ASN_Type_Sequence tag cs ex NULL NO_MAX 0 [
       ASN_NEW_TABLE ASN_Type_Integer ASN_UniversalTag_Integer cs NULL (EMSDAddress_emsdAddress p)
           NO_MAX 0 [],
       ASN_NEW_TABLE ASN_Type_OctetString (ASN_TAG_APPL 0) cs
           (opt_exists (EMSDAddress_emsdName p)) (opt_data (EMSDAddress_emsdName p))
               EMSDUB_MAX_NAME_LENGTH 0 []]"

definition emsd_compileORAddress1_0 :: "nat \<Rightarrow> nat \<Rightarrow> nat \<Rightarrow> u8
    \<Rightarrow> asn_tab" where
  "emsd_compileORAddress1_0 cs ex p tag =
     ASN_NEW_TABLE ASN_Type_Choice tag cs ex (ORAddress_choice p) NO_MAX 0 [
       compileEMSDAddress1_0 cs NULL (ORAddress_local p) ASN_UniversalTag_Sequence,
       ASN_NEW_TABLE ASN_Type_OctetString (ASN_TAG_APPL 0) cs NULL (ORAddress_rfc822 p)
           EMSDUB_MAX_RFC822_NAME_LEN 0 []]"

definition compileCredentialsSimple1_0 :: "nat \<Rightarrow> nat \<Rightarrow> nat \<Rightarrow> u8
    \<Rightarrow> asn_tab" where
  "compileCredentialsSimple1_0 cs ex p tag =
     ASN_NEW_TABLE ASN_Type_Sequence tag cs ex NULL NO_MAX 0 [
       compileEMSDAddress1_0 cs (opt_exists (CredentialsSimple_emsdAddress p)) (opt_data
           (CredentialsSimple_emsdAddress p)) ASN_UniversalTag_Sequence,
       ASN_NEW_TABLE ASN_Type_OctetString (ASN_TAG_CONTEXT 0) cs
           (opt_exists (CredentialsSimple_password p)) (opt_data (CredentialsSimple_password p))
               EMSDUB_MAX_PASSWORD_LEN 0 []]"

definition compileSecurityElement1_0 :: "nat \<Rightarrow> nat \<Rightarrow> nat \<Rightarrow> u8
    \<Rightarrow> asn_tab" where
  "compileSecurityElement1_0 cs ex p tag =
     ASN_NEW_TABLE ASN_Type_Sequence tag cs ex NULL NO_MAX 0 [
       compileCredentialsSimple1_0 cs NULL (SecurityElement_simple p) ASN_UniversalTag_Sequence,
       ASN_NEW_TABLE ASN_Type_Integer ASN_UniversalTag_Integer cs
           (opt_exists (SecurityElement_contentIntegrityCheck p)) (opt_data
               (SecurityElement_contentIntegrityCheck p)) NO_MAX 0 []]"

definition EMSD_compileDeliveryControlArgument1_0 :: "nat \<Rightarrow> nat \<Rightarrow> nat
    \<Rightarrow> u8 \<Rightarrow> asn_tab" where
  "EMSD_compileDeliveryControlArgument1_0 cs ex p tag =
     ASN_NEW_TABLE ASN_Type_Sequence ASN_UniversalTag_Sequence cs ex NULL NO_MAX 0 [
       ASN_NEW_TABLE ASN_Type_Integer (ASN_TAG_CONTEXT 0) cs
           (opt_exists (DeliveryControlArgument_restrict p)) (opt_data
               (DeliveryControlArgument_restrict p)) NO_MAX 0 [],
       ASN_NEW_TABLE ASN_Type_BitString (ASN_TAG_CONTEXT 1) cs
           (opt_exists (DeliveryControlArgument_permissibleOperations p)) (opt_data
               (DeliveryControlArgument_permissibleOperations p)) NO_MAX 0 [],
       ASN_NEW_TABLE ASN_Type_Integer (ASN_TAG_CONTEXT 2) cs
           (opt_exists (DeliveryControlArgument_permissibleMaxContentLength p)) (opt_data
               (DeliveryControlArgument_permissibleMaxContentLength p)) EMSDUB_MAX_CONTENT_LEN 0 [],
       ASN_NEW_TABLE ASN_Type_Integer (ASN_TAG_CONTEXT 3) cs
           (opt_exists (DeliveryControlArgument_permissibleLowestPriority p)) (opt_data
               (DeliveryControlArgument_permissibleLowestPriority p)) NO_MAX 0 [],
       compileSecurityElement1_0 cs (opt_exists (DeliveryControlArgument_security p)) (opt_data
           (DeliveryControlArgument_security p)) (ASN_TAG_CONTEXT 4),
       ASN_NEW_TABLE ASN_Type_OctetString (ASN_TAG_CONTEXT 5) cs
           (opt_exists (DeliveryControlArgument_userFeatures p)) (opt_data
               (DeliveryControlArgument_userFeatures p)) NO_MAX 0 []]"

definition compileSegmentData1_0 :: "nat \<Rightarrow> nat \<Rightarrow> nat \<Rightarrow> u8
    \<Rightarrow> asn_tab" where
  "compileSegmentData1_0 cs ex p tag =
     ASN_NEW_TABLE ASN_Type_Sequence tag cs ex NULL NO_MAX 0 [
       ASN_NEW_TABLE ASN_Type_Integer ASN_UniversalTag_Integer cs NULL (SegmentData_sequenceId p)
           NO_MAX 0 [],
       ASN_NEW_TABLE ASN_Type_Integer ASN_UniversalTag_Integer cs NULL (SegmentData_data p) NO_MAX
           0 []]"

definition compileSegmentInfo1_0 :: "nat \<Rightarrow> nat \<Rightarrow> nat \<Rightarrow> u8
    \<Rightarrow> asn_tab" where
  "compileSegmentInfo1_0 cs ex p tag =
     ASN_NEW_TABLE ASN_Type_Choice tag cs ex (SegmentInfo_choice p) NO_MAX 0 [
       compileSegmentData1_0 cs NULL (SegmentInfo_segmentData p) (ASN_TAG_APPL 2),
       compileSegmentData1_0 cs NULL (SegmentInfo_segmentData p) (ASN_TAG_APPL 3)]"

definition EMSD_compileSubmitArgument1_0 :: "nat \<Rightarrow> nat \<Rightarrow> nat \<Rightarrow>
    u8 \<Rightarrow> asn_tab" where
  "EMSD_compileSubmitArgument1_0 cs ex p tag =
     ASN_NEW_TABLE ASN_Type_Sequence ASN_UniversalTag_Sequence cs ex NULL NO_MAX 0 [
       compileSecurityElement1_0 cs (opt_exists (SubmitArgument_security p)) (opt_data
           (SubmitArgument_security p)) (ASN_TAG_CONTEXT 0),
       compileSegmentInfo1_0 cs (opt_exists (SubmitArgument_segmentInfo p)) (opt_data
           (SubmitArgument_segmentInfo p)) 0,
       ASN_NEW_TABLE ASN_Type_Integer ASN_UniversalTag_Integer cs NULL (SubmitArgument_contentType
           p) NO_MAX 0 [],
       ASN_NEW_TABLE ASN_Type_Buffer 0 cs NULL (SubmitArgument_hContents p) NO_MAX 0 []]"

definition EMSD_compileDeliverArgument1_0 :: "nat \<Rightarrow> nat \<Rightarrow> nat \<Rightarrow>
    u8 \<Rightarrow> asn_tab" where
  "EMSD_compileDeliverArgument1_0 cs ex p tag =
     ASN_NEW_TABLE ASN_Type_Sequence ASN_UniversalTag_Sequence cs ex NULL NO_MAX 0 [
       emsd_compileMessageId1_0 cs NULL (DeliverArgument_messageId p) 0,
       ASN_NEW_TABLE ASN_Type_Integer ASN_UniversalTag_Integer cs NULL
           (DeliverArgument_deliveryTime p) NO_MAX 0 [],
       ASN_NEW_TABLE ASN_Type_Integer ASN_UniversalTag_Integer cs
           (opt_exists (DeliverArgument_submissionTime p)) (opt_data
               (DeliverArgument_submissionTime p)) NO_MAX 0 [],
       compileSecurityElement1_0 cs (opt_exists (DeliverArgument_security p)) (opt_data
           (DeliverArgument_security p)) (ASN_TAG_CONTEXT 0),
       compileSegmentInfo1_0 cs (opt_exists (DeliverArgument_segmentInfo p)) (opt_data
           (DeliverArgument_segmentInfo p)) 0,
       ASN_NEW_TABLE ASN_Type_Integer ASN_UniversalTag_Enumerated cs NULL
           (DeliverArgument_contentType p) NO_MAX 0 [],
       ASN_NEW_TABLE ASN_Type_Buffer 0 cs NULL (DeliverArgument_hContents p) NO_MAX 0 []]"

definition compileBody1_0 :: "nat \<Rightarrow> nat \<Rightarrow> nat \<Rightarrow> u8
    \<Rightarrow> asn_tab" where
  "compileBody1_0 cs ex p tag =
     ASN_NEW_TABLE ASN_Type_Sequence tag cs ex NULL NO_MAX 0 [
       ASN_NEW_TABLE ASN_Type_Integer (ASN_TAG_CONTEXT 0) cs
           (opt_exists (IpmBody_compressionMethod p)) (opt_data (IpmBody_compressionMethod p))
               NO_MAX 0 [],
       ASN_NEW_TABLE ASN_Type_OctetString ASN_UniversalTag_OctetString cs NULL (IpmBody_bodyText p)
           NO_MAX 0 []]"

definition compileExtensions1_0 :: "nat \<Rightarrow> nat \<Rightarrow> nat \<Rightarrow> u8
    \<Rightarrow> asn_tab" where
  "compileExtensions1_0 cs ex p tag =
     ASN_NEW_TABLE ASN_Type_SequenceOf tag cs ex (Extensions_count p) NO_MAX sizeof_Extension [
       ASN_NEW_TABLE ASN_Type_Sequence ASN_UniversalTag_Sequence NULL NULL NULL NO_MAX 0 [
         ASN_NEW_TABLE ASN_Type_OctetString (ASN_TAG_APPL 0) cs NULL (Extension_label
             (Extensions_data p)) NO_MAX 0 [],
         ASN_NEW_TABLE ASN_Type_OctetString (ASN_TAG_APPL 0) cs NULL (Extension_value
             (Extensions_data p)) NO_MAX 0 []]]"

definition compileRecipientData1_0 :: "nat \<Rightarrow> nat \<Rightarrow> nat \<Rightarrow> u8
    \<Rightarrow> asn_tab" where
  "compileRecipientData1_0 cs ex p tag =
     ASN_NEW_TABLE ASN_Type_SequenceOf tag cs ex (RecipientDataList_count p) NO_MAX
         sizeof_RecipientData [
       ASN_NEW_TABLE ASN_Type_Sequence ASN_UniversalTag_Sequence NULL NULL NULL NO_MAX 0 [
         emsd_compileORAddress1_0 cs NULL (RecipientData_recipient (RecipientDataList_data p)) 0,
         ASN_NEW_TABLE ASN_Type_BitString ASN_UniversalTag_BitString cs
             (opt_exists (RecipientData_perRecipFlags (RecipientDataList_data p))) (opt_data
                 (RecipientData_perRecipFlags (RecipientDataList_data p))) NO_MAX 0 []]]"

definition compileReplyTo1_0 :: "nat \<Rightarrow> nat \<Rightarrow> nat \<Rightarrow> u8
    \<Rightarrow> asn_tab" where
  "compileReplyTo1_0 cs ex p tag =
     ASN_NEW_TABLE ASN_Type_SequenceOf tag cs ex (ReplyTo_count p) EMSDUB_MAX_REPLY_TO
         sizeof_ORAddress [
       emsd_compileORAddress1_0 cs NULL (ReplyTo_data p) 0]"

definition compileHeading1_0 :: "nat \<Rightarrow> nat \<Rightarrow> nat \<Rightarrow> u8
    \<Rightarrow> asn_tab" where
  "compileHeading1_0 cs ex p tag =
     ASN_NEW_TABLE ASN_Type_Sequence tag cs ex NULL NO_MAX 0 [
       emsd_compileORAddress1_0 cs (opt_exists (IpmHeading_sender p)) (opt_data (IpmHeading_sender
           p)) (ASN_TAG_CONTEXT 0 OR ASN_EXPLICIT),
       emsd_compileORAddress1_0 cs NULL (IpmHeading_originator p) 0,
       compileRecipientData1_0 cs NULL (IpmHeading_recipientDataList p) ASN_UniversalTag_Sequence,
       ASN_NEW_TABLE ASN_Type_BitString (ASN_TAG_CONTEXT 1) cs
           (opt_exists (IpmHeading_perMessageFlags p)) (opt_data (IpmHeading_perMessageFlags p))
               NO_MAX 0 [],
       compileReplyTo1_0 cs (opt_exists (IpmHeading_replyTo p)) (opt_data (IpmHeading_replyTo p))
           (ASN_TAG_CONTEXT 2),
       emsd_compileMessageId1_0 cs (opt_exists (IpmHeading_repliedToIpm p)) (opt_data
           (IpmHeading_repliedToIpm p)) 0,
       ASN_NEW_TABLE ASN_Type_OctetString (ASN_TAG_CONTEXT 4) cs
           (opt_exists (IpmHeading_subject p)) (opt_data (IpmHeading_subject p)) NO_MAX 0 [],
       compileExtensions1_0 cs (Extensions_count (IpmHeading_extensions p)) (IpmHeading_extensions
           p) (ASN_TAG_CONTEXT 5),
       ASN_NEW_TABLE ASN_Type_OctetString (ASN_TAG_CONTEXT 6) cs
           (opt_exists (IpmHeading_mimeVersion p)) (opt_data (IpmHeading_mimeVersion p)) NO_MAX 0 [],
       ASN_NEW_TABLE ASN_Type_OctetString (ASN_TAG_CONTEXT 7) cs
           (opt_exists (IpmHeading_mimeContentType p)) (opt_data (IpmHeading_mimeContentType p))
               NO_MAX 0 [],
       ASN_NEW_TABLE ASN_Type_OctetString (ASN_TAG_CONTEXT 8) cs
           (opt_exists (IpmHeading_mimeContentId p)) (opt_data (IpmHeading_mimeContentId p)) NO_MAX
               0 [],
       ASN_NEW_TABLE ASN_Type_OctetString (ASN_TAG_CONTEXT 9) cs
           (opt_exists (IpmHeading_mimeContentDescription p)) (opt_data
               (IpmHeading_mimeContentDescription p)) NO_MAX 0 [],
       ASN_NEW_TABLE ASN_Type_OctetString (ASN_TAG_CONTEXT 10) cs
           (opt_exists (IpmHeading_mimeContentTransferEncoding p)) (opt_data
               (IpmHeading_mimeContentTransferEncoding p)) NO_MAX 0 []]"

definition EMSD_compileIpm1_0 :: "nat \<Rightarrow> nat \<Rightarrow> nat \<Rightarrow> u8
    \<Rightarrow> asn_tab" where
  "EMSD_compileIpm1_0 cs ex p tag =
     ASN_NEW_TABLE ASN_Type_Sequence ASN_UniversalTag_Sequence cs ex NULL NO_MAX 0 [
       compileHeading1_0 cs NULL (Message_heading p) ASN_UniversalTag_Sequence,
       compileBody1_0 cs (opt_exists (Message_body p)) (opt_data (Message_body p))
           ASN_UniversalTag_Sequence]"

definition compileRecipientList1_0 :: "nat \<Rightarrow> nat \<Rightarrow> nat \<Rightarrow> u8
    \<Rightarrow> asn_tab" where
  "compileRecipientList1_0 cs ex p tag =
     ASN_NEW_TABLE ASN_Type_SequenceOf tag cs ex NULL EMSDUB_MAX_RECIPIENTS sizeof_RecipientList [
       emsd_compileORAddress1_0 cs NULL (RecipientList_data p) 0]"

definition EMSD_compileProbe1_0 :: "nat \<Rightarrow> nat \<Rightarrow> nat \<Rightarrow> u8
    \<Rightarrow> asn_tab" where
  "EMSD_compileProbe1_0 cs ex p tag =
     ASN_NEW_TABLE ASN_Type_Sequence ASN_UniversalTag_Sequence cs NULL NULL NO_MAX 0 [
       emsd_compileORAddress1_0 cs NULL (ProbeSubmission_sender p) 0,
       compileRecipientList1_0 cs NULL (ProbeSubmission_recipients p) ASN_UniversalTag_Sequence,
       ASN_NEW_TABLE ASN_Type_Integer ASN_UniversalTag_Integer cs
           (opt_exists (ProbeSubmission_contentType p)) (opt_data (ProbeSubmission_contentType p))
               NO_MAX 0 [],
       ASN_NEW_TABLE ASN_Type_Integer ASN_UniversalTag_Integer cs
           (opt_exists (ProbeSubmission_contentLength p)) (opt_data (ProbeSubmission_contentLength
               p)) NO_MAX 0 []]"

definition compileDeliveryReport1_0 :: "nat \<Rightarrow> nat \<Rightarrow> nat \<Rightarrow> u8
    \<Rightarrow> asn_tab" where
  "compileDeliveryReport1_0 cs ex p tag =
     ASN_NEW_TABLE ASN_Type_Sequence tag cs ex NULL NO_MAX 0 [
       ASN_NEW_TABLE ASN_Type_Integer ASN_UniversalTag_Integer cs NULL
           (DeliveryReport_messageDeliveryTime p) NO_MAX 0 []]"

definition compileNonDeliveryReport1_0 :: "nat \<Rightarrow> nat \<Rightarrow> nat \<Rightarrow> u8
    \<Rightarrow> asn_tab" where
  "compileNonDeliveryReport1_0 cs ex p tag =
     ASN_NEW_TABLE ASN_Type_Sequence tag cs ex NULL NO_MAX 0 [
       ASN_NEW_TABLE ASN_Type_Integer ASN_UniversalTag_Integer cs NULL
           (NonDeliveryReport_nonDeliveryReason p) NO_MAX 0 [],
       ASN_NEW_TABLE ASN_Type_Integer (ASN_TAG_CONTEXT 0) cs
           (opt_exists (NonDeliveryReport_nonDeliveryDiagnostic p)) (opt_data
               (NonDeliveryReport_nonDeliveryDiagnostic p)) NO_MAX 0 [],
       ASN_NEW_TABLE ASN_Type_OctetString (ASN_TAG_CONTEXT 1) cs
           (opt_exists (NonDeliveryReport_explanation p)) (opt_data (NonDeliveryReport_explanation
               p)) NO_MAX 0 []]"

definition compilePerRecipReportData1_0 :: "nat \<Rightarrow> nat \<Rightarrow> nat \<Rightarrow>
    u8 \<Rightarrow> asn_tab" where
  "compilePerRecipReportData1_0 cs ex p tag =
     ASN_NEW_TABLE ASN_Type_SequenceOf tag cs ex (PerRecipReportDataList_count p)
         EMSDUB_MAX_RECIPIENTS sizeof_PerRecipReportData [
       ASN_NEW_TABLE ASN_Type_Sequence ASN_UniversalTag_Sequence NULL NULL NULL NO_MAX 0 [
         emsd_compileORAddress1_0 cs NULL (PerRecipReportData_recipient
             (PerRecipReportDataList_data p)) 0,
         ASN_NEW_TABLE ASN_Type_Choice 0 cs NULL (Report_choice (PerRecipReportData_report
             (PerRecipReportDataList_data p))) NO_MAX 0 [
           compileDeliveryReport1_0 cs NULL (Report_deliveryReport (PerRecipReportData_report
               (PerRecipReportDataList_data p))) (ASN_TAG_CONTEXT 0),
           compileNonDeliveryReport1_0 cs NULL (Report_nonDeliveryReport (PerRecipReportData_report
               (PerRecipReportDataList_data p))) (ASN_TAG_CONTEXT 1)]]]"

definition EMSD_compileReportDelivery1_0 :: "nat \<Rightarrow> nat \<Rightarrow> nat \<Rightarrow>
    u8 \<Rightarrow> asn_tab" where
  "EMSD_compileReportDelivery1_0 cs ex p tag =
     ASN_NEW_TABLE ASN_Type_Sequence ASN_UniversalTag_Sequence cs ex NULL NO_MAX 0 [
       emsd_compileMessageId1_0 cs NULL (ReportDelivery_msgIdOfReportedMsg p) 0,
       compilePerRecipReportData1_0 cs NULL (ReportDelivery_recipDataList p) ASN_UniversalTag_Sequence,
       ASN_NEW_TABLE ASN_Type_Integer ASN_UniversalTag_Integer cs (ReturnedContent_exists
           (ReportDelivery_returnedContent p)) (ReturnedContent_contentType
               (ReportDelivery_returnedContent p)) NO_MAX 0 [],
       ASN_NEW_TABLE ASN_Type_Buffer 0 cs
           (opt_exists (ReturnedContent_returnedContents (ReportDelivery_returnedContent p)))
               (opt_data (ReturnedContent_returnedContents (ReportDelivery_returnedContent p)))
                   NO_MAX 0 []]"

definition EMSD_compileErrorRequest1_0 :: "nat \<Rightarrow> nat \<Rightarrow> nat \<Rightarrow> u8
    \<Rightarrow> asn_tab" where
  "EMSD_compileErrorRequest1_0 cs ex p tag =
     ASN_NEW_TABLE ASN_Type_Integer ASN_UniversalTag_Integer cs NULL (ErrorRequest_error p) NO_MAX 0 []"

lemmas compile_1_0 = EMSD_compileDeliveryControlResult1_0_def
  EMSD_compileDeliveryVerifyResult1_0_def EMSD_compileSubmissionVerifyResult1_0_def
  compileLocalMessageId1_0_def EMSD_compileSubmitResult1_0_def emsd_compileMessageId1_0_def
  EMSD_compileDeliveryVerifyArgument1_0_def EMSD_compileSubmissionVerifyArgument1_0_def
  compileEMSDAddress1_0_def emsd_compileORAddress1_0_def compileCredentialsSimple1_0_def
  compileSecurityElement1_0_def EMSD_compileDeliveryControlArgument1_0_def
  compileSegmentData1_0_def compileSegmentInfo1_0_def EMSD_compileSubmitArgument1_0_def
  EMSD_compileDeliverArgument1_0_def compileBody1_0_def compileExtensions1_0_def
  compileRecipientData1_0_def compileReplyTo1_0_def compileHeading1_0_def EMSD_compileIpm1_0_def
  compileRecipientList1_0_def EMSD_compileProbe1_0_def compileDeliveryReport1_0_def
  compileNonDeliveryReport1_0_def compilePerRecipReportData1_0_def
  EMSD_compileReportDelivery1_0_def EMSD_compileErrorRequest1_0_def

end
