(* ===== verification/Asn_Layout.thy ===== *)
theory Asn_Layout
  imports Asn_Value
begin

text \<open>
  Checks of a table that compute: \<open>extent\<close> is the part of a structure that an element takes, as a pair
  of offsets, and \<open>laid\<close> says that the parts of different elements do not overlap; it implies
  \<open>arranged\<close> at every address. \<open>well_tagged\<close> is \<open>tags_ok\<close> for entries written out.
\<close>

type_synonym extents = "(nat \<times> nat) list"

fun hull :: "extents \<Rightarrow> nat \<times> nat" where
  "hull [] = (0, 0)"
| "hull [x] = x"
| "hull ((a, b) # xs) = (case hull xs of (c, d) \<Rightarrow> (min a c, max b d))"

definition flag_extent :: "nat option \<Rightarrow> extents" where
  "flag_extent ex = (case ex of None \<Rightarrow> [] | Some e \<Rightarrow> [(e, e + 1)])"

fun extent :: "asn_tab \<Rightarrow> nat \<times> nat" where
  "extent (TableEntry ty tag ex d ml sz ts) = hull (flag_extent ex @ (case ty of
       ASN_Type_Sequence \<Rightarrow> map extent ts
     | ASN_Type_SequenceOf \<Rightarrow> (d, d + 1) # (case ts of [] \<Rightarrow> []
         | t # _ \<Rightarrow> [(fst (extent t), fst (extent t) + unat ml * sz)])
     | ASN_Type_Choice \<Rightarrow> (d, d + 1) # map extent ts
     | _ \<Rightarrow> [(d, d + 1)]))"

definition beside :: "nat \<times> nat \<Rightarrow> nat \<times> nat \<Rightarrow> bool" where
  "beside x y \<longleftrightarrow> snd x \<le> fst y \<or> snd y \<le> fst x"

primrec spaced :: "extents \<Rightarrow> bool" where
  "spaced [] = True"
| "spaced (x # xs) = (list_all (beside x) xs \<and> spaced xs)"

fun laid :: "asn_tab \<Rightarrow> bool" where
  "laid (TableEntry ty tag ex d ml sz ts) = (case ty of
       ASN_Type_Sequence \<Rightarrow> spaced (flag_extent ex @ map extent ts) \<and> list_all laid ts
     | ASN_Type_SequenceOf \<Rightarrow> (case ts of [] \<Rightarrow> False
         | t # _ \<Rightarrow> laid t \<and> snd (extent t) \<le> fst (extent t) + sz \<and>
             spaced (flag_extent ex @ [(d, d + 1), (fst (extent t), fst (extent t) + unat ml * sz)]))
     | ASN_Type_Choice \<Rightarrow> ex \<noteq> Some d \<and>
         list_all (\<lambda>t. laid t \<and> list_all (\<lambda>x. beside x (extent t)) (flag_extent ex @ [(d, d + 1)])) ts
     | _ \<Rightarrow> True)"

definition place :: "nat \<Rightarrow> nat \<times> nat \<Rightarrow> nat set" where
  "place base x = {base + fst x..<base + snd x}"

lemma hull_covers: "x \<in> set xs \<Longrightarrow> place base x \<subseteq> place base (hull xs)"
proof (induction xs rule: hull.induct)
  case (3 a b y xs)
  then show ?case
    by (cases "hull (y # xs)") (fastforce simp: place_def)
qed simp_all

lemma beside_places: "beside x y \<Longrightarrow> place base x \<inter> place base y = {}"
  by (auto simp: beside_def place_def)

lemma flag_place: "flag_at t base = \<Union> (place base ` set (flag_extent (t_exists t)))"
  by (auto simp: flag_at_def flag_extent_def place_def split: option.splits)

lemma cell_place: "place base (d, d + 1) = {base + d}"
  by (auto simp: place_def)

lemma flag_cell_apart:
  assumes "\<And>x. x \<in> set (flag_extent ex @ [(d, d + 1)]) \<Longrightarrow> place base x \<inter> R = {}"
  shows "(flag_at (TableEntry ty tag ex d ml sz ts) base \<union> {base + d}) \<inter> R = {}"
proof -
  have "flag_at (TableEntry ty tag ex d ml sz ts) base \<inter> R = {}"
    unfolding flag_place asn_tab.sel using assms by fastforce
  moreover have "{base + d} \<inter> R = {}"
    using assms [of "(d, d + 1)"] by (simp only: cell_place) simp
  ultimately show ?thesis by blast
qed

lemma element_place:
  assumes "snd x \<le> fst x + sz" "k < m"
  shows "place (base + k * sz) x \<subseteq> place base (fst x, fst x + m * sz)"
proof -
  have "k * sz + sz \<le> m * sz"
    using assms(2) by (metis Suc_leI mult_Suc mult_le_mono1 add.commute)
  then show ?thesis
    using assms(1) by (auto simp: place_def)
qed

lemma region_extent: "laid t \<Longrightarrow> region t base \<subseteq> place base (extent t)"
proof (induction t arbitrary: base)
  case (TableEntry ty tag ex d ml sz ts base)
  let ?t = "TableEntry ty tag ex d ml sz ts"
  have flag: "flag_at ?t base \<subseteq> place base (extent ?t)"
    unfolding flag_place by (rule UN_least) (simp add: hull_covers)
  have cell: "{base + d} \<subseteq> place base (extent ?t)" if "ty \<noteq> ASN_Type_Sequence"
  proof -
    have "place base (d, d + 1) \<subseteq> place base (extent ?t)"
      unfolding extent.simps by (rule hull_covers) (use that in \<open>simp split: asn_type.split\<close>)
    then show ?thesis by (simp only: cell_place)
  qed
  have kids: "region x base \<subseteq> place base (extent ?t)"
    if "ty = ASN_Type_Sequence \<or> ty = ASN_Type_Choice" "x \<in> set ts" for x
  proof -
    have "laid x"
      using TableEntry.prems that by (auto simp: list_all_iff)
    then have "region x base \<subseteq> place base (extent x)"
      by (rule TableEntry.IH [OF that(2)])
    also have "\<dots> \<subseteq> place base (extent ?t)"
      unfolding extent.simps by (rule hull_covers) (use that in auto)
    finally show ?thesis .
  qed
  have elems: "region (hd ts) (base + k * sz) \<subseteq> place base (extent ?t)"
    if "ty = ASN_Type_SequenceOf" "ts \<noteq> []" "k < unat ml" for k
  proof -
    have "ts \<noteq> []"
      by (fact that(2))
    then obtain t us where ts: "ts = t # us"
      by (cases ts) auto
    have l: "laid t" "snd (extent t) \<le> fst (extent t) + sz"
      using TableEntry.prems that(1) by (simp_all add: ts)
    have "region t (base + k * sz) \<subseteq> place (base + k * sz) (extent t)"
      by (rule TableEntry.IH [OF _ l(1)]) (simp add: ts)
    also have "\<dots> \<subseteq> place base (fst (extent t), fst (extent t) + unat ml * sz)"
      by (rule element_place [OF l(2) that(3)])
    also have "\<dots> \<subseteq> place base (extent ?t)"
      unfolding extent.simps by (rule hull_covers) (simp add: that(1) ts)
    finally show ?thesis by (simp add: ts)
  qed
  define E where "E = place base (extent ?t)"
  have all: "(\<Union>k \<in> {0..<unat ml}. region (hd ts) (base + k * sz)) \<subseteq> E" if "ty = ASN_Type_SequenceOf" "ts \<noteq> []"
    unfolding E_def by (rule UN_least) (rule elems [OF that], simp)
  have every: "(\<Union>x \<in> set ts. region x base) \<subseteq> E" if "ty = ASN_Type_Sequence \<or> ty = ASN_Type_Choice"
    unfolding E_def by (rule UN_least) (rule kids [OF that])
  have "region ?t base \<subseteq> E"
    using flag cell every all unfolding E_def [symmetric]
    by (subst region.simps) (auto split: asn_type.split)
  then show ?case by (simp only: E_def)
qed

lemma disjoint_sub: "A \<subseteq> A' \<Longrightarrow> B \<subseteq> B' \<Longrightarrow> A' \<inter> B' = {} \<Longrightarrow> A \<inter> B = {}"
  by blast

lemma spaced_append: "spaced (xs @ ys) \<longleftrightarrow>
    spaced xs \<and> spaced ys \<and> (\<forall>x \<in> set xs. \<forall>y \<in> set ys. beside x y)"
  by (induction xs) (auto simp: list_all_iff)

lemma apart_regions: "spaced (map extent ts) \<Longrightarrow> list_all laid ts \<Longrightarrow> apart (map (\<lambda>t. region t base) ts)"
proof (induction ts)
  case (Cons t ts)
  then show ?case
    using disjoint_sub [OF region_extent region_extent beside_places]
    by (auto simp: list_all_iff)
qed simp

lemma apart_elements:
  assumes "laid t" "snd (extent t) \<le> fst (extent t) + sz"
  shows "apart (map (\<lambda>k. region t (base + k * sz)) [m..<n])"
proof (induction "n - m" arbitrary: m)
  case (Suc l)
  have "region t (base + m * sz) \<inter> region t (base + k * sz) = {}" if "m < k" for k
  proof (rule disjoint_sub [OF region_extent [OF assms(1)] region_extent [OF assms(1)]])
    have "m * sz + sz \<le> k * sz"
      using that by (metis Suc_leI mult_Suc mult_le_mono1 add.commute)
    then show "place (base + m * sz) (extent t) \<inter> place (base + k * sz) (extent t) = {}"
      using assms(2) by (auto simp: place_def)
  qed
  then show ?case
    using Suc by (subst upt_conv_Cons) auto
qed simp

lemma laid_arranged: "laid t \<Longrightarrow> arranged t base"
proof (induction t arbitrary: base)
  case (TableEntry ty tag ex d ml sz ts base)
  let ?t = "TableEntry ty tag ex d ml sz ts"
  show ?case
  proof (cases ty)
    case ASN_Type_Sequence
    then have l: "spaced (flag_extent ex @ map extent ts)" "list_all laid ts"
      using TableEntry.prems by simp_all
    have "flag_at ?t base \<inter> region x base = {}" if "x \<in> set ts" for x
    proof -
      have "place base f \<inter> region x base = {}" if "f \<in> set (flag_extent ex)" for f
        using l that \<open>x \<in> set ts\<close>
        by (intro disjoint_sub [OF order_refl region_extent beside_places])
          (auto simp: spaced_append list_all_iff)
      then show ?thesis by (auto simp: flag_place)
    qed
    moreover have "apart (map (\<lambda>x. region x base) ts)"
      using l by (intro apart_regions) (simp_all add: spaced_append)
    moreover have "arranged x base" if "x \<in> set ts" for x
      using TableEntry.IH [OF that] l(2) that by (simp add: list_all_iff)
    ultimately show ?thesis
      by (subst arranged.simps) (simp add: ASN_Type_Sequence)
  next
    case ASN_Type_SequenceOf
    then obtain t us where ts: "ts = t # us"
      using TableEntry.prems by (cases ts) auto
    let ?all = "(fst (extent t), fst (extent t) + unat ml * sz)"
    have l: "laid t" "snd (extent t) \<le> fst (extent t) + sz"
      "spaced (flag_extent ex @ [(d, d + 1), ?all])"
      using TableEntry.prems ASN_Type_SequenceOf by (simp_all add: ts)
    have "base + d \<notin> flag_at ?t base"
      using l(3) by (auto simp: flag_at_def flag_extent_def beside_def split: option.splits)
    moreover have "(flag_at ?t base \<union> {base + d}) \<inter> region t (base + k * sz) = {}" if "k < unat ml" for k
    proof -
      have sub: "region t (base + k * sz) \<subseteq> place base ?all"
        using region_extent [OF l(1)] element_place [OF l(2) that] by blast
      have "place base x \<inter> region t (base + k * sz) = {}" if "x \<in> set (flag_extent ex @ [(d, d + 1)])" for x
        using l(3) that by (intro disjoint_sub [OF order_refl sub beside_places]) (auto simp: spaced_append)
      then show ?thesis
        by (rule flag_cell_apart)
    qed
    moreover have "apart (map (\<lambda>k. region t (base + k * sz)) [0..<unat ml])"
      by (rule apart_elements [OF l(1,2)])
    moreover have "arranged t (base + k * sz)" for k
      by (rule TableEntry.IH [OF _ l(1)]) (simp add: ts)
    ultimately show ?thesis
      by (subst arranged.simps) (simp add: ASN_Type_SequenceOf ts)
  next
    case ASN_Type_Choice
    then have l: "ex \<noteq> Some d" "\<And>t. t \<in> set ts \<Longrightarrow> laid t"
      "\<And>t x. t \<in> set ts \<Longrightarrow> x \<in> set (flag_extent ex @ [(d, d + 1)]) \<Longrightarrow> beside x (extent t)"
      using TableEntry.prems by (auto simp: list_all_iff)
    have "(flag_at ?t base \<union> {base + d}) \<inter> region x base = {}" if "x \<in> set ts" for x
    proof -
      have "place base f \<inter> region x base = {}" if "f \<in> set (flag_extent ex @ [(d, d + 1)])" for f
        using l \<open>x \<in> set ts\<close> that by (intro disjoint_sub [OF order_refl region_extent beside_places]) auto
      then show ?thesis
        by (rule flag_cell_apart)
    qed
    moreover have "base + d \<notin> flag_at ?t base"
      using l(1) by (auto simp: flag_at_def split: option.splits)
    ultimately show ?thesis
      using TableEntry.IH l(2) by (subst arranged.simps) (simp add: ASN_Type_Choice)
  qed (simp_all add: arranged.simps)
qed


section \<open>Tags of entries written out\<close>

lemma starts_entry:
  "starts (TableEntry ASN_Type_Choice tag ex d ml sz ts) =
     (if tag = 0 then \<Union> (set (map starts ts)) else {key tag})"
  "ty \<noteq> ASN_Type_Choice \<Longrightarrow> starts (TableEntry ty tag ex d ml sz ts) = {key tag}"
  by (subst starts.simps; simp)+

lemma tags_ok_entry:
  "tags_ok (TableEntry ASN_Type_Sequence tag ex d ml sz ts) \<longleftrightarrow>
     tag \<noteq> 0 \<and> seq_tags ts \<and> list_all tags_ok ts"
  "tags_ok (TableEntry ASN_Type_SequenceOf tag ex d ml sz ts) \<longleftrightarrow>
     tag \<noteq> 0 \<and> ts \<noteq> [] \<and> t_exists (hd ts) = None \<and> list_all tags_ok ts"
  "tags_ok (TableEntry ASN_Type_Choice tag ex d ml sz ts) \<longleftrightarrow>
     (tag = 0 \<or> tag AND 0x20 \<noteq> 0) \<and> ts \<noteq> [] \<and> choice_tags ts \<and> list_all tags_ok ts"
  "ty \<in> {ASN_Type_Integer, ASN_Type_BcdString, ASN_Type_BitString, ASN_Type_OctetString} \<Longrightarrow>
     tags_ok (TableEntry ty tag ex d ml sz ts) \<longleftrightarrow> tag \<noteq> 0"
  "\<not> tags_ok (TableEntry ASN_Type_Buffer tag ex d ml sz ts)"
  by (subst tags_ok.simps; auto simp: list_all_iff)+

lemmas table_checks = starts_entry tags_ok_entry key_def flag_extent_def beside_def

end
