(* ===== verification/Emsd_Tables.thy ===== *)
theory Emsd_Tables
  imports Emsd_V1_1 Emsd_V1_0 Asn_Layout
begin

text \<open>
  The tables of both versions of the protocol against the conditions of theory Asn_Value. Those of
  version 1.1 without a part of type \<^verbatim>\<open>ASN_Type_Buffer\<close> meet them, but for the probe, whose list
  of recipients has no counter; in version 1.0 the two optional numbers of a probe have the same
  tag, and the flag of the extensions of a message is the counter itself.
\<close>

named_theorems table_eval

lemmas [table_eval] = compile_1_1 compile_1_0 emsd_layout ASN_NEW_TABLE_def table_checks

text \<open>The PDUs of version 1.1 that consist of members of the structure only.\<close>

definition pdus1_1 :: "nat \<Rightarrow> asn_tab list" where
  "pdus1_1 cs =
     [EMSD_compileIpm1_1 cs NULL cs 0, EMSD_compileSubmitResult1_1 cs NULL cs 0,
      EMSD_compileDeliveryControlArgument1_1 cs NULL cs 0, EMSD_compileDeliveryControlResult1_1 cs NULL cs 0,
      EMSD_compileDeliveryVerifyArgument1_1 cs NULL cs 0, EMSD_compileDeliveryVerifyResult1_1 cs NULL cs 0,
      EMSD_compileSubmissionVerifyArgument1_1 cs NULL cs 0,
      EMSD_compileSubmissionVerifyResult1_1 cs NULL cs 0, EMSD_compileErrorRequest1_1 cs NULL cs 0]"

lemma ipm_tags: "0 < cs \<Longrightarrow> tags_ok (EMSD_compileIpm1_1 cs NULL cs 0)"
  by (simp add: table_eval)

lemma ipm_laid: "0 < cs \<Longrightarrow> laid (EMSD_compileIpm1_1 cs NULL cs 0)"
  by (simp add: table_eval)

lemma control_tags:
  "0 < cs \<Longrightarrow> tags_ok (EMSD_compileDeliveryControlArgument1_1 cs NULL cs 0)"
  "0 < cs \<Longrightarrow> tags_ok (EMSD_compileDeliveryControlResult1_1 cs NULL cs 0)"
  by (simp_all add: table_eval)

lemma control_laid:
  "0 < cs \<Longrightarrow> laid (EMSD_compileDeliveryControlArgument1_1 cs NULL cs 0)"
  "0 < cs \<Longrightarrow> laid (EMSD_compileDeliveryControlResult1_1 cs NULL cs 0)"
  by (simp_all add: table_eval)

lemma verify_tags:
  "0 < cs \<Longrightarrow> tags_ok (EMSD_compileDeliveryVerifyArgument1_1 cs NULL cs 0)"
  "0 < cs \<Longrightarrow> tags_ok (EMSD_compileDeliveryVerifyResult1_1 cs NULL cs 0)"
  "0 < cs \<Longrightarrow> tags_ok (EMSD_compileSubmissionVerifyArgument1_1 cs NULL cs 0)"
  "0 < cs \<Longrightarrow> tags_ok (EMSD_compileSubmissionVerifyResult1_1 cs NULL cs 0)"
  "0 < cs \<Longrightarrow> tags_ok (EMSD_compileSubmitResult1_1 cs NULL cs 0)"
  "0 < cs \<Longrightarrow> tags_ok (EMSD_compileErrorRequest1_1 cs NULL cs 0)"
  by (simp_all add: table_eval)

lemma verify_laid:
  "0 < cs \<Longrightarrow> laid (EMSD_compileDeliveryVerifyArgument1_1 cs NULL cs 0)"
  "0 < cs \<Longrightarrow> laid (EMSD_compileDeliveryVerifyResult1_1 cs NULL cs 0)"
  "0 < cs \<Longrightarrow> laid (EMSD_compileSubmissionVerifyArgument1_1 cs NULL cs 0)"
  "0 < cs \<Longrightarrow> laid (EMSD_compileSubmissionVerifyResult1_1 cs NULL cs 0)"
  "0 < cs \<Longrightarrow> laid (EMSD_compileSubmitResult1_1 cs NULL cs 0)"
  "0 < cs \<Longrightarrow> laid (EMSD_compileErrorRequest1_1 cs NULL cs 0)"
  by (simp_all add: table_eval)

lemma pdus1_1_ok: "0 < cs \<Longrightarrow> t \<in> set (pdus1_1 cs) \<Longrightarrow> tags_ok t \<and> arranged t base"
  by (auto simp: pdus1_1_def ipm_tags control_tags verify_tags
      intro!: laid_arranged ipm_laid control_laid verify_laid)

text \<open>
  In version 1.0 a probe with only a content length has the same encoding as one with only a
  content type.
\<close>

lemma enc_integer: "t_type t = ASN_Type_Integer \<Longrightarrow> ber t (VInt i) = wrap (t_tag t) (intOctets i)"
  by (subst ber.simps) simp

lemma enc_sequence: "t_type t = ASN_Type_Sequence \<Longrightarrow> ber t (VSeq vs) =
    wrap (t_tag t OR 0x20) (concat (map (\<lambda>(x, w). ber x w) (zip (tableList t) vs)))"
  by (subst ber.simps) simp

lemma probe_1_0_ambiguous:
  assumes "0 < cs"
  shows "ber (EMSD_compileProbe1_0 cs NULL cs 0) (VSeq [s, r, VInt i, VAbsent]) =
    ber (EMSD_compileProbe1_0 cs NULL cs 0) (VSeq [s, r, VAbsent, VInt i])"
proof -
  let ?t = "EMSD_compileProbe1_0 cs NULL cs 0"
  obtain x y z u where t: "tableList ?t = [x, y, z, u]" "t_type ?t = ASN_Type_Sequence"
    and zu: "t_type z = ASN_Type_Integer" "t_type u = ASN_Type_Integer" "t_tag z = t_tag u"
    using assms by (simp add: EMSD_compileProbe1_0_def emsd_layout ASN_NEW_TABLE_def)
  then show ?thesis
    by (simp add: enc_sequence enc_integer)
qed

text \<open>
  The recipients of a probe: the counter is not in the structure. It is stored at the offset
  \<^verbatim>\<open>ASN_NODATA\<close> from its start.
\<close>

lemma parseSeqOf_end: "parseSeqOf count maxCount t sz pc b base 0 = ok ()"
  by (subst parseSeqOf.simps) simp

lemma probe_count_outside:
  "run_state (parseContents (compileRecipientList1_1 cs NULL (ProbeSubmission_recipients cs) 0x10)
      b base 0 L u) h = (Inr (L + 1), h\<lparr>c_int := (c_int h)(base + 0xffffffff := 0)\<rparr>)"
proof -
  let ?t = "compileRecipientList1_1 cs NULL (ProbeSubmission_recipients cs) 0x10"
  have "t_type ?t = ASN_Type_SequenceOf" "t_data ?t = 0xffffffff" "tableList ?t \<noteq> []"
    by (simp_all add: compileRecipientList1_1_def ASN_NEW_TABLE_def)
  then show ?thesis
    by (subst parseContents.simps) (simp add: parseSeqOf_end set_int_def)
qed

text \<open>The flag and the counter of the extensions of a message, in version 1.0, are one place.\<close>

lemma extensions_1_0_flag:
  assumes "0 < cs"
  shows "t_exists (tableList (hd (tableList (EMSD_compileIpm1_0 cs NULL cs 0))) ! 7) =
    Some (t_data (tableList (hd (tableList (EMSD_compileIpm1_0 cs NULL cs 0))) ! 7))"
  using assms by (simp add: table_eval)

end
