(* ===== verification/Ber_Properties.thy ===== *)
theory Ber_Properties
  imports Asn_Parse Asn_Safe Emsd_Tables
begin

unbundle bit_operations_syntax

text \<open>
  The properties of the strings, the buffers, and the encoding of ASN.1 values, and what was found
  to go wrong in them. \<open>packet xs\<close> is a memory with one buffer, at the address 2, of one segment
  that holds the octets \<open>xs\<close>.
\<close>

section \<open>A memory with a buffer\<close>

definition packet :: "u8 list \<Rightarrow> omem" where
  "packet xs = \<lparr>o_fail = (\<lambda>_. False), o_count = 0, o_next = 5, o_live = {2, 3, 4},
     a_cells = (\<lambda>a i. if a = 4 \<and> 0 \<le> i \<and> i < int (length xs) then xs ! nat i else 0),
     a_size = (\<lambda>_. length xs),
     strs = (\<lambda>_. \<lparr>s_refCount = 1, s_status = Str_Status_LocallyAllocated, s_maxLen = length xs,
       s_len = length xs, s_p = 4\<rparr>),
     segs = (\<lambda>_. \<lparr>g_string = 4, g_start = 0, g_end = int (length xs)\<rparr>),
     heads = (\<lambda>_. \<lparr>b_segs = [3], b_cur = 3, b_x = 0\<rparr>),
     c_int = (\<lambda>_. 7), c_bool = (\<lambda>_. False), c_byte = (\<lambda>_. 0), c_str = (\<lambda>_. 0), c_buf = (\<lambda>_. 0)\<rparr>"

lemma packet_octets: "octets_at 4 0 (int (length xs)) (packet xs) = xs"
  by (rule nth_equalityI) (simp_all add: octets_at_nth packet_def)

lemma packet_src:
  assumes "length xs < 65536"
  shows "src 2 (packet xs) \<and> rest 2 (packet xs) = xs"
proof -
  have "rest 2 (packet xs) = octets_at 4 0 (int (length xs)) (packet xs)"
    by (simp add: rest_def later_segs_def seg_area_def packet_def)
  then show ?thesis
    using assms packet_octets [of xs]
    by (simp add: src_def reading_def later_segs_def seg_area_def mem_ok_def) (simp add: packet_def)
qed

lemma packet_filling: "filling 2 {} (packet [])" "buf_octets 2 (packet []) = []"
  by (simp_all add: filling_def mem_ok_def packet_def buf_octets_def seg_octets_def seg_area_def)


section \<open>Encoding and decoding\<close>



lemma error_request: "EMSD_compileErrorRequest1_1 2 NULL 2 0 =
    TableEntry ASN_Type_Integer 2 None 0 0xffffffff 0 []"
  by (simp add: table_eval)










section \<open>Parsing anything\<close>



text \<open>
  An element whose tag is not the one that comes: a mandatory one is the error
  \<^verbatim>\<open>ASN_RC_WrongTag\<close>, an optional one is taken not to be there, which its flag says; in both cases
  the octets are all still to be read and nothing else is written.
\<close>

theorem wrong_tag:
  assumes "tags_ok t" "src b h" "rest b h = x # xs" "x AND NOT CONSTRUCTOR \<notin> starts t"
    and "run_state (asn_berParse t b base n) h = (r, h')"
  shows "r = (if t_exists t = None then Inl ASN_RC_WrongTag else Inr 0) \<and> rest b h' = x # xs \<and> src b h' \<and>
    changes (flag_at t base) h h' \<and> (t_exists t \<noteq> None \<longrightarrow> \<not> exists_at t base h')"
  using parse_mismatch [OF assms(1-3), of base n] assms(3-5)
  by (auto simp: misses_def key_def split: if_splits)

theorem wrong_tag_witness:
  "case run_state (asn_berParse (EMSD_compileErrorRequest1_1 2 NULL 2 0) 2 20 4) (packet [4, 1, 1]) of
     (r, h') \<Rightarrow> r = Inl ASN_RC_WrongTag \<and> rest 2 h' = [4, 1, 1]"
proof -
  obtain r h' where run: "run_state (asn_berParse (EMSD_compileErrorRequest1_1 2 NULL 2 0) 2 20 4)
      (packet [4, 1, 1]) = (r, h')"
    by fastforce
  have "r = (if t_exists (EMSD_compileErrorRequest1_1 2 NULL 2 0) = None then Inl ASN_RC_WrongTag else Inr 0) \<and>
    rest 2 h' = [4, 1, 1] \<and> src 2 h' \<and> changes (flag_at (EMSD_compileErrorRequest1_1 2 NULL 2 0) 20) (packet [4, 1, 1]) h' \<and>
    (t_exists (EMSD_compileErrorRequest1_1 2 NULL 2 0) \<noteq> None \<longrightarrow>
      \<not> exists_at (EMSD_compileErrorRequest1_1 2 NULL 2 0) 20 h')"
    by (rule wrong_tag [OF _ _ _ _ run])
      (use packet_src [of "[4, 1, 1]"] in \<open>simp_all add: verify_tags, simp add: error_request starts_entry key_def\<close>)
  then show ?thesis
    unfolding run by (simp add: error_request)
qed


section \<open>Strings and buffers\<close>

text \<open>
  C34. \<^verbatim>\<open>STR_appendString\<close> into a string with a maximum length, whose area is that large: when
  the text fits, it is appended, whatever was there; when it does not, the operation fails and
  changes nothing; no octet outside the area of the string is ever written.
\<close>

theorem STR_append_bounds:
  assumes "s_maxLen (strs h s) > 0" "s_maxLen (strs h s) < 65536" "n < 65536"
    and "s_maxLen (strs h s) \<le> a_size h (s_p (strs h s))"
    and "run_state (STR_appendString s n p i) h = (r, h')"
  shows "(if s_len (strs h s) + n \<le> s_maxLen (strs h s)
          then r = Inr () \<and> str_octets s h' = str_octets s h @ octets_at p i (i + int n) h \<and>
            s_len (strs h' s) = s_len (strs h s) + n
          else r = Inl ResourceError \<and> h' = h) \<and>
    {(c, k). a_cells h' c k \<noteq> a_cells h c k} \<subseteq> {s_p (strs h s)} \<times> {0..<int (a_size h (s_p (strs h s)))}"
proof -
  have "a_cells h' c k \<noteq> a_cells h c k \<Longrightarrow> c = s_p (strs h s) \<and> 0 \<le> k \<and> k < int (a_size h c)" for c k
    using STR_append_size [OF assms(1,4), of n p i c k] assms(5) by auto
  then show ?thesis
    using STR_append_octets [OF assms(1,2) _ assms(5)] STR_append_too_long [OF assms(1), of n p i] assms(3,5)
    by (auto simp: not_le)
qed

text \<open>Three octets are appended to a full string of three: nothing happens.\<close>

theorem STR_append_bounds_witness:
  "run_state (STR_appendString 2 3 4 0) (packet [1, 2, 3]) = (Inl ResourceError, packet [1, 2, 3])"
proof -
  obtain r h' where run: "run_state (STR_appendString 2 3 4 0) (packet [1, 2, 3]) = (r, h')" by fastforce
  show ?thesis
    using STR_append_bounds [OF _ _ _ _ run] run by (simp add: packet_def)
qed

text \<open>
  C35. Reading a buffer of any number of segments is reading the list of its remaining octets:
  \<^verbatim>\<open>BUF_getOctet\<close> delivers and removes the first, \<^verbatim>\<open>BUF_ungetOctet\<close> puts it back, and when there
  is none the error \<^verbatim>\<open>BUF_RC_BufferExhausted\<close> leaves the buffer as it is. The segments to come may
  not be empty.
\<close>

theorem buffer_as_list:
  assumes "reading b h" "run_state (BUF_getOctet b) h = (r, h')"
    and "run_state (BUF_ungetOctet b) h' = (u, h'')"
  shows "case rest b h of
      [] \<Rightarrow> r = Inl BUF_RC_BufferExhausted \<and> h' = h
    | x # xs \<Rightarrow> r = Inr x \<and> reading b h' \<and> rest b h' = xs \<and>
        u = Inr () \<and> reading b h'' \<and> rest b h'' = x # xs"
  using BUF_getOctet_exhausted [OF assms(1)] BUF_getOctet_reading [OF assms(1)] assms(2,3)
  by (fastforce split: list.split)

text \<open>Two segments, the position at the end of the first.\<close>

definition two_parts :: omem where
  "two_parts = (packet [])\<lparr>a_cells := (\<lambda>a i. word_of_int (int a)),
     segs := (\<lambda>g. \<lparr>g_string = g, g_start = 0, g_end = 2\<rparr>),
     strs := (\<lambda>s. \<lparr>s_refCount = 1, s_status = Str_Status_LocallyAllocated, s_maxLen = 2, s_len = 2, s_p = s\<rparr>),
     heads := (\<lambda>_. \<lparr>b_segs = [3, 4], b_cur = 3, b_x = 2\<rparr>)\<rparr>"

theorem buffer_as_list_witness:
  "case run_state (BUF_getOctet 2) two_parts of
     (r, h') \<Rightarrow> r = Inr 4 \<and> rest 2 h' = [4] \<and>
       (case run_state (BUF_ungetOctet 2) h' of (u, h'') \<Rightarrow> rest 2 h'' = [4, 4])"
proof -
  obtain r h' where 1: "run_state (BUF_getOctet 2) two_parts = (r, h')" by fastforce
  obtain u h'' where 2: "run_state (BUF_ungetOctet 2) h' = (u, h'')" by fastforce
  have "reading 2 two_parts" "rest 2 two_parts = [4, 4]"
    by (simp_all add: reading_def rest_def later_segs_def seg_octets_def octets_at_def seg_area_def
        two_parts_def packet_def upt_rec)
  then show ?thesis
    using buffer_as_list [OF _ 1 2] by (simp add: 1 2)
qed

text \<open>
  Filling a buffer puts octets in front: an octet by \<^verbatim>\<open>BUF_addOctet\<close>, in a new segment
  when the first has no room, and all octets of a string by \<^verbatim>\<open>BUF_prependChunk\<close>, which shares the
  area with the user; neither changes the user's strings or structures, and the buffer can be
  filled on.
\<close>

theorem buffer_prepends:
  assumes "filling b U h" "s \<in> U"
    and "run_state (BUF_addOctet b x) h = (r, h')" "run_state (BUF_prependChunk b s) h' = (r', h'')"
  shows "r = Inr () \<and> r' = Inr () \<and> filling b U h'' \<and> kept b U h h'' \<and>
    buf_octets b h'' = str_octets s h @ x # buf_octets b h"
proof -
  obtain k where k: "run_state (BUF_addOctet b x) h = (Inr (), k)" "filling b U k" "kept b U h k"
    "buf_octets b k = x # buf_octets b h"
    using BUF_addOctet_filling [OF assms(1)] by blast
  obtain l where "run_state (BUF_prependChunk b s) k = (Inr (), l)" "filling b U l" "kept b U k l"
    "buf_octets b l = str_octets s k @ buf_octets b k"
    using BUF_prependChunk_filling [OF k(2) assms(2)] by blast
  then show ?thesis
    using k assms(3,4) kept_trans [OF k(3)] kept_str_octets [OF k(3) assms(2)] by auto
qed

theorem buffer_prepends_witness:
  "case run_state (BUF_addOctet 2 9) (packet []) of
     (r, h') \<Rightarrow> buf_octets 2 (snd (run_state (BUF_prependChunk 2 3) h')) = [9]"
proof -
  obtain r h' where 1: "run_state (BUF_addOctet 2 9) (packet []) = (r, h')" by fastforce
  obtain r' h'' where 2: "run_state (BUF_prependChunk 2 3) h' = (r', h'')" by fastforce
  have fill: "filling 2 {3} (packet [])"
    by (simp add: filling_def mem_ok_def packet_def seg_area_def)
  have "str_octets 3 (packet []) = []"
    by (simp add: str_octets_def packet_def)
  then show ?thesis
    using buffer_prepends [OF fill _ 1 2] packet_filling(2) by (simp add: 1 2)
qed


section \<open>Beyond the limits\<close>

text \<open>
  A received octet string of 65534 octets: the size \<^verbatim>\<open>len + 2\<close> that \<open>parseOctetString\<close> asks for
  is converted to \<^verbatim>\<open>OS_Uint16\<close>, so the area has no octets, and with the maximum length 0
  \<^verbatim>\<open>STR_appendString\<close> does not check: everything that is appended is written outside the area.
\<close>

lemma octet_string_overflow:
  assumes "mem_ok h" "run_state (STR_alloc (u16 65534 + 2)) h = (Inr s, h1)"
    and "run_state (appendOctets s xs) h1 = (r, h2)"
  shows "a_size h1 s = 0 \<and> r = Inr () \<and> (\<forall>k < length xs. a_cells h2 s (int k) = xs ! k)"
proof -
  have "u16 65536 = 0"
    by (simp add: u16_def)
  then show ?thesis
    using assms by (auto simp: run_STR_alloc run_appendOctets put_octets_cells)
qed

text \<open>
  When the next segment is empty, as after a chunk of no octets, \<^verbatim>\<open>BUF_getOctet\<close> moves to it and
  reads the octet behind its end.
\<close>

lemma getOctet_empty_segment:
  assumes "b_segs (heads h b) = [f, g]" "b_cur (heads h b) = f" "b_x (heads h b) = g_end (segs h f)"
    and "g_start (segs h g) = g_end (segs h g)" "distinct [b, f, g]"
  shows "fst (run_state (BUF_getOctet b) h) = Inr (a_cells h (seg_area g h) (g_end (segs h g)))"
  using assms by (simp add: BUF_getOctet_def QU_NEXT_seg_def seg_after_def seg_area_def)

end
