(* ===== verification/Ua_State.thy ===== *)
theory Ua_State
  imports Emsd_Tables Buf_Octets Fsm Qu Sch Tmr
begin

text \<open>
  The state of the EMSD user agent core, \<^verbatim>\<open>emsd/ua/uacore/uacore.h\<close> and \<^verbatim>\<open>emsd/include/ua.h\<close>: an
  operation, the global variables, and what the program shares with its environment. Operations,
  machines and pending requests are blocks of the memory of theory Strfunc, so an operation that has
  been freed is recognised; the scheduler and the timers are those of theories Sch and Tmr.
\<close>

section \<open>Types of the shell\<close>

text \<open>The strings of a heading are of type \<open>'z\<close>: pointers, or the octets they point to.\<close>

datatype 'z uash_recipient = UASH_RecipientStyle_Emsd u32 'z | UASH_RecipientStyle_Rfc822 'z

datatype uash_recipientType =
  UASH_RecipientType_Primary | UASH_RecipientType_Copy | UASH_RecipientType_BlindCopy

record 'z uash_recipientInfo =
  ri_recipient :: "'z uash_recipient"
  ri_recipientType :: uash_recipientType
  bReceiptNotificationRequested :: bool
  bNonReceiptNotificationRequested :: bool
  bMessageReturnRequested :: bool
  bNonDeliveryReportRequested :: bool
  bDeliveryReportRequested :: bool
  bReplyRequested :: bool

datatype uash_priority = UASH_Priority_Normal | UASH_Priority_NonUrgent | UASH_Priority_Urgent

datatype uash_importance =
  UASH_Importance_Normal | UASH_Importance_Low | UASH_Importance_High

record 'z uash_heading =
  uh_originator :: "'z uash_recipient"
  uh_sender :: "'z uash_recipient"
  uh_recipInfo :: "'z uash_recipientInfo list"
  uh_replyTo :: "'z uash_recipient list"
  uh_repliedTo :: 'z
  uh_subject :: 'z
  uh_priority :: uash_priority
  uh_importance :: uash_importance
  uh_autoForwarded :: bool
  uh_mimeVersion :: 'z
  uh_mimeContentType :: 'z
  uh_mimeContentId :: 'z
  uh_mimeContentDescription :: 'z
  uh_mimeContentTransferEncoding :: 'z
  uh_extension :: "('z \<times> 'z) list"

datatype uash_deliverStatus = UASH_DeliverStatus_UnAcknowledged | UASH_DeliverStatus_Acknowledged
  | UASH_DeliverStatus_NonDelSent | UASH_DeliverStatus_PossibleNonDelSent

type_synonym octets = "u8 list"


section \<open>Operations\<close>

text \<open>
  The events and the values of \<^verbatim>\<open>emsd.h\<close>. \<^verbatim>\<open>UA_FsmEvent_InvokeIndication\<close> is 0, which is also
  \<^verbatim>\<open>FSM_EvtDefault\<close>.
\<close>

abbreviation (input) UA_FsmEvent_InvokeIndication :: int where "UA_FsmEvent_InvokeIndication \<equiv> 0"
abbreviation (input) UA_FsmEvent_ResultIndication :: int where "UA_FsmEvent_ResultIndication \<equiv> 1"
abbreviation (input) UA_FsmEvent_ResultConfirm :: int where "UA_FsmEvent_ResultConfirm \<equiv> 2"
abbreviation (input) UA_FsmEvent_ErrorIndication :: int where "UA_FsmEvent_ErrorIndication \<equiv> 3"
abbreviation (input) UA_FsmEvent_ErrorConfirm :: int where "UA_FsmEvent_ErrorConfirm \<equiv> 4"
abbreviation (input) UA_FsmEvent_FailureIndication :: int where "UA_FsmEvent_FailureIndication \<equiv> 5"
abbreviation (input) UA_FsmEvent_MessageSubmitRequest :: int where "UA_FsmEvent_MessageSubmitRequest \<equiv> 6"
abbreviation (input) UA_FsmEvent_SegmentationTimerExpired :: int where
  "UA_FsmEvent_SegmentationTimerExpired \<equiv> 7"
abbreviation (input) UA_FsmEvent_DeliveryControlRequest :: int where
  "UA_FsmEvent_DeliveryControlRequest \<equiv> 8"

definition EMSD_OP_PROTO :: "u32 \<Rightarrow> u32 \<Rightarrow> u32 \<Rightarrow> u32" where
  "EMSD_OP_PROTO oper major minor = push_bit 24 major OR push_bit 16 minor OR oper"

definition EMSD_OP_VALUE :: "u32 \<Rightarrow> u32" where
  "EMSD_OP_VALUE operation_major_minor = operation_major_minor AND 0xff"

definition EMSD_Operation_Submission_1_0_WRONG :: u32 where
  "EMSD_Operation_Submission_1_0_WRONG = EMSD_OP_PROTO 0 1 0"
definition EMSD_Operation_Submission_1_1 :: u32 where
  "EMSD_Operation_Submission_1_1 = EMSD_OP_PROTO 33 1 1"
definition EMSD_Operation_Delivery_1_1 :: u32 where
  "EMSD_Operation_Delivery_1_1 = EMSD_OP_PROTO 35 1 1"
definition EMSD_Operation_DeliveryControl_1_1 :: u32 where
  "EMSD_Operation_DeliveryControl_1_1 = EMSD_OP_PROTO 2 1 1"
definition EMSD_Operation_SubmissionControl_1_1 :: u32 where
  "EMSD_Operation_SubmissionControl_1_1 = EMSD_OP_PROTO 4 1 1"
definition EMSD_Operation_DeliveryVerify_1_1 :: u32 where
  "EMSD_Operation_DeliveryVerify_1_1 = EMSD_OP_PROTO 5 1 1"
definition EMSD_Operation_SubmissionVerify_1_1 :: u32 where
  "EMSD_Operation_SubmissionVerify_1_1 = EMSD_OP_PROTO 6 1 1"

abbreviation (input) EMSD_Error_ProtocolVersionNotRecognized :: u32 where
  "EMSD_Error_ProtocolVersionNotRecognized \<equiv> 1"
abbreviation (input) EMSD_Error_SecurityError :: u32 where "EMSD_Error_SecurityError \<equiv> 4"
abbreviation (input) EMSD_Error_ResourceError :: u32 where "EMSD_Error_ResourceError \<equiv> 6"
abbreviation (input) EMSD_Error_ProtocolViolation :: u32 where "EMSD_Error_ProtocolViolation \<equiv> 7"

abbreviation (input) EMSD_ContentType_Ipm95 :: u32 where "EMSD_ContentType_Ipm95 \<equiv> 32"

abbreviation (input) EMSD_MESSAGEID_CHOICE_LOCAL :: u8 where "EMSD_MESSAGEID_CHOICE_LOCAL \<equiv> 0"
abbreviation (input) EMSD_MESSAGEID_CHOICE_RFC822 :: u8 where "EMSD_MESSAGEID_CHOICE_RFC822 \<equiv> 1"
abbreviation (input) EMSD_ORADDRESS_CHOICE_LOCAL :: u8 where "EMSD_ORADDRESS_CHOICE_LOCAL \<equiv> 0"
abbreviation (input) EMSD_ORADDRESS_CHOICE_RFC822 :: u8 where "EMSD_ORADDRESS_CHOICE_RFC822 \<equiv> 1"
abbreviation (input) EMSD_SEGMENTINFO_CHOICE_FIRST :: u8 where "EMSD_SEGMENTINFO_CHOICE_FIRST \<equiv> 0"
abbreviation (input) EMSD_SEGMENTINFO_CHOICE_OTHER :: u8 where "EMSD_SEGMENTINFO_CHOICE_OTHER \<equiv> 1"

abbreviation (input) MTSUA_MAX_IPM_LEN_CONNECTIONLESS :: u32 where
  "MTSUA_MAX_IPM_LEN_CONNECTIONLESS \<equiv> 1500"
abbreviation (input) MTSUA_MAX_FORMATTED_DELIVER_ARG_LEN :: u32 where
  "MTSUA_MAX_FORMATTED_DELIVER_ARG_LEN \<equiv> 100"
abbreviation (input) UA_SEGMENTATION_TIMER :: u32 where "UA_SEGMENTATION_TIMER \<equiv> 60"
abbreviation (input) UA_MAX_FAILURE_RETRIES :: "16 word" where "UA_MAX_FAILURE_RETRIES \<equiv> 0"
abbreviation (input) MTSUA_Rsap_Mts_Performer_3Way :: nat where "MTSUA_Rsap_Mts_Performer_3Way \<equiv> 5"

datatype mtsua_status = MTSUA_Status_Success | MTSUA_Status_TransientError | MTSUA_Status_PermanentError

text \<open>The functions that are given to \<^verbatim>\<open>ua_operationAddUserFree\<close>.\<close>

datatype free_fn = Free_BUF | Free_message | Free_submitArg | Free_submitRes | Free_deliverArg
  | Free_submissionVerifyArg | Free_deliveryVerifyArg | Free_deliveryVerifyRes | Free_errorRequest
  | Free_machine

datatype ua_pool = concurrentOperationsInbound | concurrentOperationsOutbound

record ua_pending =
  pe_operationValue :: u32
  pe_encodingType :: nat
  pe_invokeId :: int
  pe_hSapDesc :: int
  pe_sapSel :: nat
  pe_hOperationData :: ptr

text \<open>
  The code of a success is \<^term>\<open>None\<close> in \<open>op_rc\<close>. The elements of the two queues come with the
  blocks they are in.
\<close>

record ua_operation =
  op_operationValue :: u32
  op_encodingType :: nat
  op_invokeId :: int
  op_unacknowledgedInvokeId :: int
  op_hFsm :: ptr
  op_hSapDesc :: int
  op_sapSel :: nat
  op_rc :: "rc option"
  op_bComplete :: bool
  op_hOperationData :: ptr
  op_hFirstOperationData :: ptr
  op_hFullPduBuf :: ptr
  op_hSegmentBuf :: "nat \<Rightarrow> ptr"
  op_expectedSegmentMask :: u32
  op_receivedSegmentMask :: u32
  op_sequenceId :: u32
  op_lastSegmentNumber :: u32
  op_nextSegmentNumber :: u32
  op_segmentLength :: u32
  op_hSegmentationTimer :: ptr
  op_pendingQ :: "(ptr \<times> ua_pending) list"
  op_hCurrentBuf :: ptr
  op_retryCount :: "16 word"
  op_status :: mtsua_status
  op_messageId :: octets
  op_userFreeQ :: "(ptr \<times> free_fn \<times> ptr) list"
  op_pPool :: ua_pool
  op_pHackData :: octets


section \<open>The environment\<close>

text \<open>
  Requests to the remote operations service, with the octets of the data units; calls of the shell,
  with the strings they pass. \<^verbatim>\<open>BufHandle\<close> is a buffer where a data unit is expected.
\<close>

datatype du_arg = NoView | View octets | BufHandle ptr

datatype ua_request =
    INVOKE_req "int option" int nat u32 nat octets
  | RESULT_req int du_arg
  | ERROR_req int nat u32 octets

datatype ua_upcall =
    MessageReceived octets u32 u32 "octets option uash_heading" "octets option"
  | ModifyDeliverStatus octets uash_deliverStatus
  | SubmitSuccess ptr octets octets
  | SubmitFail ptr bool octets

text \<open>
  What the calls outside the program deliver: the \<open>n\<close>-th call asks \<open>n\<close>. \<open>env_junk\<close> is what
  \<^verbatim>\<open>malloc\<close> leaves in a block, \<open>env_uninit\<close> a variable that was not initialised, and
  \<open>env_duData\<close> the old octets of a data unit.
\<close>

record ua_env =
  env_duFail :: "nat \<Rightarrow> bool"
  env_invoke :: "nat \<Rightarrow> int option"
  env_request :: "nat \<Rightarrow> bool"
  env_shell :: "nat \<Rightarrow> bool"
  env_clock :: "nat \<Rightarrow> u32 option"
  env_junk :: "ptr \<Rightarrow> octets option uash_recipientInfo"
  env_uninit :: "nat \<Rightarrow> nat"
  env_duData :: "nat \<Rightarrow> nat \<Rightarrow> u8"

datatype ua_task = fsm_scheduledRunMachine ptr ptr int | fsm_scheduledDeleteMachine ptr

datatype ua_state =
    perf_s1Idle | perf_s2DeliverResultResponseWait | perf_s3DeliverVerifyResponseWait
  | perf_s4ErrorResponseWait | perf_s5NotDeliverResultResponseWait
  | submit_s1Idle | submit_s2InvokeResponseWait

record fsm_machine =
  m_userData :: ptr
  m_curState :: "ua_state option"
  m_transDiag :: "ua_state fsm_transDiagram option"

record ua_config =
  g_mtsNsapLen :: nat
  g_pPassword :: ptr
  g_hInvoker3Way :: int
  g_hPerformer2Way :: int
  g_hActive :: ptr
  g_hInactive :: ptr
  g_bDeliveryVerifySupported :: bool

record ua =
  u_mem :: omem
  u_op :: "ptr \<Rightarrow> ua_operation"
  u_active :: "ptr list"
  u_machine :: "ptr \<Rightarrow> fsm_machine"
  u_sch :: "ua_task sch"
  u_timers :: "ptr timerQ"
  u_pool :: "ua_pool \<Rightarrow> u8"
  u_verify :: qu_heap
  u_verifyId :: "ptr \<Rightarrow> octets"
  u_duplicate :: "u8 list"
  u_instanceId :: u8
  u_sequence :: u32
  u_cfg :: ua_config
  u_env :: ua_env
  u_calls :: nat
  u_requests :: "ua_request list"
  u_upcalls :: "ua_upcall list"
  u_views :: "ptr set"
  u_undefined :: bool
  u_aborted :: bool

type_synonym 'a uprog = "(ua, 'a) state"


section \<open>Primitives\<close>

text \<open>
  After \<^verbatim>\<open>EH_fatal\<close> nothing changes. \<open>u_undefined\<close> records that the program has used a block after
  it was freed, or freed it twice; what the model does from then on is of no interest.
\<close>

definition ua_upd :: "(ua \<Rightarrow> ua) \<Rightarrow> unit uprog" where
  "ua_upd f = modify (\<lambda>s. if u_aborted s then s else f s)"

definition on_mem :: "(omem, 'a) state \<Rightarrow> 'a uprog" where
  "on_mem m = do {
     x \<leftarrow> gets (\<lambda>s. result m (u_mem s));
     ua_upd (\<lambda>s. s\<lparr>u_mem := exec m (u_mem s)\<rparr>);
     return x
   }"

definition mem_get :: "(omem \<Rightarrow> 'a) \<Rightarrow> 'a uprog" where
  "mem_get f = gets (\<lambda>s. f (u_mem s))"

definition touch :: "ptr \<Rightarrow> unit uprog" where
  "touch p = ua_upd (\<lambda>s. if p \<in> o_live (u_mem s) then s else s\<lparr>u_undefined := True\<rparr>)"

definition get_op :: "ptr \<Rightarrow> ua_operation uprog" where
  "get_op p = do { touch p; gets (\<lambda>s. u_op s p) }"

definition upd_op :: "ptr \<Rightarrow> (ua_operation \<Rightarrow> ua_operation) \<Rightarrow> unit uprog" where
  "upd_op p f = do { touch p; ua_upd (\<lambda>s. s\<lparr>u_op := (u_op s)(p := f (u_op s p))\<rparr>) }"

text \<open>The next answer of the environment.\<close>

definition ask :: "(ua_env \<Rightarrow> nat \<Rightarrow> 'a) \<Rightarrow> 'a uprog" where
  "ask f = do {
     x \<leftarrow> gets (\<lambda>s. f (u_env s) (u_calls s));
     ua_upd (\<lambda>s. s\<lparr>u_calls := u_calls s + 1\<rparr>);
     return x
   }"

definition add_request :: "ua_request \<Rightarrow> unit uprog" where
  "add_request r = ua_upd (\<lambda>s. s\<lparr>u_requests := u_requests s @ [r]\<rparr>)"

definition upcall :: "ua_upcall \<Rightarrow> unit uprog" where
  "upcall c = ua_upd (\<lambda>s. s\<lparr>u_upcalls := u_upcalls s @ [c]\<rparr>)"

definition EH_fatal :: "unit uprog" where
  "EH_fatal = ua_upd (\<lambda>s. s\<lparr>u_aborted := True\<rparr>)"

text \<open>
  Machines, \<^verbatim>\<open>fsm.c\<close> and \<^verbatim>\<open>fsmdepen.c\<close>. An event is a task of the scheduler with a block for its
  arguments, and a machine is deleted by a task too.
\<close>

definition submit_task :: "ua_task \<Rightarrow> unit uprog" where
  "submit_task t = ua_upd (\<lambda>s. case SCH_submit t SCH_PSEUDO_EVENT (u_sch s) of
     None \<Rightarrow> s\<lparr>u_aborted := True\<rparr> | Some q \<Rightarrow> s\<lparr>u_sch := q\<rparr>)"

definition FSM_createMachine :: "ptr \<Rightarrow> ptr uprog" where
  "FSM_createMachine userData = do {
     machine \<leftarrow> on_mem (OS_alloc 0);
     if machine = NULL then return NULL
     else do {
       ua_upd (\<lambda>s. s\<lparr>u_machine := (u_machine s)(machine := (u_machine s machine)\<lparr>m_userData := userData\<rparr>)\<rparr>);
       return machine
     }
   }"

definition FSM_generateEvent :: "ptr \<Rightarrow> int \<Rightarrow> int uprog" where
  "FSM_generateEvent machine evtId = do {
     args \<leftarrow> on_mem (OS_alloc 0);
     if args = NULL then return FAIL
     else do { submit_task (fsm_scheduledRunMachine args machine evtId); return SUCCESS }
   }"

definition FSM_deleteMachine :: "ptr \<Rightarrow> int uprog" where
  "FSM_deleteMachine machine =
     (if machine = NULL then return FAIL
      else do { submit_task (fsm_scheduledDeleteMachine machine); return SUCCESS })"

definition set_curState :: "ptr \<Rightarrow> ua_state option \<Rightarrow> unit uprog" where
  "set_curState machine q = do {
     touch machine;
     ua_upd (\<lambda>s. s\<lparr>u_machine := (u_machine s)(machine := (u_machine s machine)\<lparr>m_curState := q\<rparr>)\<rparr>)
   }"

definition set_transDiag :: "ptr \<Rightarrow> ua_state fsm_transDiagram option \<Rightarrow> unit uprog" where
  "set_transDiag machine d = do {
     touch machine;
     ua_upd (\<lambda>s. s\<lparr>u_machine := (u_machine s)(machine := (u_machine s machine)\<lparr>m_transDiag := d\<rparr>)\<rparr>)
   }"

text \<open>A function of a diagram gets the user data of the machine.\<close>

definition with_user :: "(ptr \<Rightarrow> ptr \<Rightarrow> int \<Rightarrow> 'a uprog) \<Rightarrow> ptr \<Rightarrow> int \<Rightarrow> 'a uprog" where
  "with_user f machine evtId = do {
     touch machine;
     userData \<leftarrow> gets (\<lambda>s. m_userData (u_machine s machine));
     f machine userData evtId
   }"

text \<open>
  C structures: the one in block \<open>p\<close> has the addresses from \<open>struct_at p\<close>. \<open>OS_memSet\<close> with zero
  clears every member. A structure on the stack is a block of its own.
\<close>

definition struct_at :: "ptr \<Rightarrow> nat" where
  "struct_at p = p * 1048576"

definition OS_memSet :: "ptr \<Rightarrow> (omem, unit) state" where
  "OS_memSet p = modify (\<lambda>h. h\<lparr>
     c_int := (\<lambda>a. if a div 1048576 = p then 0 else c_int h a),
     c_bool := (\<lambda>a. if a div 1048576 = p then False else c_bool h a),
     c_byte := (\<lambda>a. if a div 1048576 = p then 0 else c_byte h a),
     c_str := (\<lambda>a. if a div 1048576 = p then NULL else c_str h a),
     c_buf := (\<lambda>a. if a div 1048576 = p then NULL else c_buf h a)\<rparr>)"

definition stack_block :: "(omem, ptr) state" where
  "stack_block = do {
     p \<leftarrow> gets o_next;
     modify (\<lambda>h. h\<lparr>o_next := p + 1\<rparr>);
     return p
   }"

definition set_bool :: "nat \<Rightarrow> bool \<Rightarrow> (omem, unit) state" where
  "set_bool a v = modify (\<lambda>h. h\<lparr>c_bool := (c_bool h)(a := v)\<rparr>)"

definition set_byte :: "nat \<Rightarrow> u8 \<Rightarrow> (omem, unit) state" where
  "set_byte a v = modify (\<lambda>h. h\<lparr>c_byte := (c_byte h)(a := v)\<rparr>)"

definition set_str :: "nat \<Rightarrow> ptr \<Rightarrow> (omem, unit) state" where
  "set_str a v = modify (\<lambda>h. h\<lparr>c_str := (c_str h)(a := v)\<rparr>)"

definition set_buf :: "nat \<Rightarrow> ptr \<Rightarrow> (omem, unit) state" where
  "set_buf a v = modify (\<lambda>h. h\<lparr>c_buf := (c_buf h)(a := v)\<rparr>)"

text \<open>The octets of a C string, without its terminator.\<close>

definition cstring :: "ptr \<Rightarrow> omem \<Rightarrow> octets" where
  "cstring p h = octets_at p 0 (int (strlen p h)) h"

lemmas ua_run = run_simps ua_upd_def on_mem_def mem_get_def touch_def get_op_def upd_op_def ask_def
  add_request_def upcall_def EH_fatal_def submit_task_def

end
