(* ===== verification/Ua_Alloc.thy ===== *)
theory Ua_Alloc
  imports Ua_State
begin

text \<open>
  Allocation of the EMSD structures, \<^verbatim>\<open>emsd/mtsua/emsdalloc.c\<close>, and the tables of the user agent,
  \<^verbatim>\<open>uacore/emsdcomp.c\<close>.
\<close>

section \<open>Allocation\<close>

text \<open>What the functions that allocate a structure share.\<close>

definition alloc_struct :: "(omem, ptr) rc_op" where
  "alloc_struct = do {
     p \<leftarrow> OS_alloc 0;
     if p = NULL then FAIL_RC ResourceError
     else do { OS_memSet p; ok p }
   }"

definition mtsua_allocMessage :: "(omem, ptr) rc_op" where "mtsua_allocMessage = alloc_struct"
definition mtsua_allocSubmitArg :: "(omem, ptr) rc_op" where "mtsua_allocSubmitArg = alloc_struct"
definition mtsua_freeSubmitArg :: "ptr \<Rightarrow> (omem, unit) state" where "mtsua_freeSubmitArg = OS_free"
definition mtsua_allocSubmitRes :: "(omem, ptr) rc_op" where "mtsua_allocSubmitRes = alloc_struct"
definition mtsua_freeSubmitRes :: "ptr \<Rightarrow> (omem, unit) state" where "mtsua_freeSubmitRes = OS_free"
definition mtsua_allocDeliverArg :: "(omem, ptr) rc_op" where "mtsua_allocDeliverArg = alloc_struct"
definition mtsua_allocDeliveryControlArg :: "(omem, ptr) rc_op" where "mtsua_allocDeliveryControlArg = alloc_struct"
definition mtsua_freeDeliveryControlArg :: "ptr \<Rightarrow> (omem, unit) state" where "mtsua_freeDeliveryControlArg = OS_free"
definition mtsua_allocDeliveryControlRes :: "(omem, ptr) rc_op" where "mtsua_allocDeliveryControlRes = alloc_struct"
definition mtsua_freeDeliveryControlRes :: "ptr \<Rightarrow> (omem, unit) state" where "mtsua_freeDeliveryControlRes = OS_free"
definition mtsua_allocReportDelivery :: "(omem, ptr) rc_op" where "mtsua_allocReportDelivery = alloc_struct"
definition mtsua_freeReportDelivery :: "ptr \<Rightarrow> (omem, unit) state" where "mtsua_freeReportDelivery = OS_free"
definition mtsua_allocSubmissionVerifyArg :: "(omem, ptr) rc_op" where "mtsua_allocSubmissionVerifyArg = alloc_struct"
definition mtsua_freeSubmissionVerifyArg :: "ptr \<Rightarrow> (omem, unit) state" where "mtsua_freeSubmissionVerifyArg = OS_free"
definition mtsua_allocSubmissionVerifyRes :: "(omem, ptr) rc_op" where "mtsua_allocSubmissionVerifyRes = alloc_struct"
definition mtsua_freeSubmissionVerifyRes :: "ptr \<Rightarrow> (omem, unit) state" where "mtsua_freeSubmissionVerifyRes = OS_free"
definition mtsua_allocDeliveryVerifyArg :: "(omem, ptr) rc_op" where "mtsua_allocDeliveryVerifyArg = alloc_struct"
definition mtsua_freeDeliveryVerifyArg :: "ptr \<Rightarrow> (omem, unit) state" where "mtsua_freeDeliveryVerifyArg = OS_free"
definition mtsua_allocDeliveryVerifyRes :: "(omem, ptr) rc_op" where "mtsua_allocDeliveryVerifyRes = alloc_struct"
definition mtsua_freeDeliveryVerifyRes :: "ptr \<Rightarrow> (omem, unit) state" where "mtsua_freeDeliveryVerifyRes = OS_free"
definition mtsua_allocErrorRequest :: "(omem, ptr) rc_op" where "mtsua_allocErrorRequest = alloc_struct"
definition mtsua_freeErrorRequest :: "ptr \<Rightarrow> (omem, unit) state" where "mtsua_freeErrorRequest = OS_free"

text \<open>The number of rounds of \<^verbatim>\<open>for (i = count - 1; i >= 0; i--)\<close> with \<^verbatim>\<open>int i\<close>.\<close>

definition rounds :: "u32 \<Rightarrow> nat" where
  "rounds count = nat (sint (count - 1) + 1)"

definition free_address :: "nat \<Rightarrow> (omem, unit) state" where
  "free_address a = do {
     c \<leftarrow> gets (\<lambda>h. c_byte h (ORAddress_choice a));
     if c = EMSD_ORADDRESS_CHOICE_RFC822 then do {
       t \<leftarrow> gets (\<lambda>h. c_str h (ORAddress_rfc822 a));
       STR_free t
     } else skip
   }"

definition free_str_at :: "nat \<Rightarrow> (omem, unit) state" where
  "free_str_at a = do { t \<leftarrow> gets (\<lambda>h. c_str h a); STR_free t }"

definition free_opt_str :: "nat \<Rightarrow> (omem, unit) state" where
  "free_opt_str a = do {
     e \<leftarrow> gets (\<lambda>h. c_bool h (opt_exists a));
     if e then free_str_at (opt_data a) else skip
   }"

primrec free_recipients :: "nat \<Rightarrow> nat \<Rightarrow> (omem, unit) state" where
  "free_recipients 0 a = skip"
| "free_recipients (Suc i) a = do {
     let r = a + i * sizeof_RecipientData;
     free_address (RecipientData_recipient r);
     free_str_at (opt_data (RecipientData_perRecipFlags r));
     free_recipients i a
   }"

primrec free_replyTo :: "nat \<Rightarrow> nat \<Rightarrow> (omem, unit) state" where
  "free_replyTo 0 a = skip"
| "free_replyTo (Suc i) a = do {
     free_address (a + i * sizeof_ORAddress);
     free_replyTo i a
   }"

primrec free_extensions :: "nat \<Rightarrow> nat \<Rightarrow> (omem, unit) state" where
  "free_extensions 0 a = skip"
| "free_extensions (Suc i) a = do {
     let x = a + i * sizeof_Extension;
     free_str_at (Extension_label x);
     free_str_at (Extension_value x);
     free_extensions i a
   }"

text \<open>\<^verbatim>\<open>STR_free\<close> of NULL does nothing, so the tests for NULL of the source are not repeated.\<close>

definition mtsua_freeMessage :: "ptr \<Rightarrow> (omem, unit) state" where
  "mtsua_freeMessage p = do {
     let m = Message_heading (struct_at p);
     sender \<leftarrow> gets (\<lambda>h. c_bool h (opt_exists (IpmHeading_sender m)));
     (if sender then free_address (opt_data (IpmHeading_sender m)) else skip);
     free_address (IpmHeading_originator m);
     n \<leftarrow> gets (\<lambda>h. rounds (c_int h (RecipientDataList_count (IpmHeading_recipientDataList m))));
     free_recipients n (RecipientDataList_data (IpmHeading_recipientDataList m));
     free_str_at (opt_data (IpmHeading_perMessageFlags m));
     reply \<leftarrow> gets (\<lambda>h. c_bool h (opt_exists (IpmHeading_replyTo m)));
     (if reply then do {
        n \<leftarrow> gets (\<lambda>h. rounds (c_int h (ReplyTo_count (opt_data (IpmHeading_replyTo m)))));
        free_replyTo n (ReplyTo_data (opt_data (IpmHeading_replyTo m)))
      } else skip);
     replied \<leftarrow> gets (\<lambda>h. c_bool h (opt_exists (IpmHeading_repliedToIpm m)));
     choice \<leftarrow> gets (\<lambda>h. c_byte h (MessageId_choice (opt_data (IpmHeading_repliedToIpm m))));
     (if replied \<and> choice = EMSD_MESSAGEID_CHOICE_RFC822
      then free_str_at (MessageId_rfc822 (opt_data (IpmHeading_repliedToIpm m))) else skip);
     free_opt_str (IpmHeading_subject m);
     n \<leftarrow> gets (\<lambda>h. rounds (c_int h (Extensions_count (IpmHeading_extensions m))));
     free_extensions n (Extensions_data (IpmHeading_extensions m));
     free_opt_str (IpmHeading_mimeContentType m);
     free_opt_str (IpmHeading_mimeVersion m);
     body \<leftarrow> gets (\<lambda>h. c_bool h (opt_exists (Message_body (struct_at p))));
     (if body then free_str_at (IpmBody_bodyText (opt_data (Message_body (struct_at p)))) else skip);
     OS_free p
   }"

definition mtsua_freeDeliverArg :: "ptr \<Rightarrow> (omem, unit) state" where
  "mtsua_freeDeliverArg p = do {
     let m = DeliverArgument_messageId (struct_at p);
     choice \<leftarrow> gets (\<lambda>h. c_byte h (MessageId_choice m));
     (if choice = EMSD_MESSAGEID_CHOICE_RFC822 then free_str_at (MessageId_rfc822 m) else skip);
     OS_free p
   }"


section \<open>Tables\<close>

text \<open>
  The protocols of \<^verbatim>\<open>MTSUA_ProtocolType\<close> that the user agent asks for. The tables of Submission
  Verify are declared and never compiled, so their queues stay empty.
\<close>

datatype mtsua_protocol = MTSUA_Protocol_Ipm | MTSUA_Protocol_ReportDelivery
  | MTSUA_Protocol_DeliverArg | MTSUA_Protocol_SubmitArg | MTSUA_Protocol_SubmitResult
  | MTSUA_Protocol_ErrorRequest | MTSUA_Protocol_DeliveryControlArg
  | MTSUA_Protocol_DeliveryControlRes | MTSUA_Protocol_DeliveryVerifyArg
  | MTSUA_Protocol_DeliveryVerifyRes | MTSUA_Protocol_SubmissionVerifyArg
  | MTSUA_Protocol_SubmissionVerifyRes

text \<open>
  \<^verbatim>\<open>UA_initCompileTrees\<close>, with the memory for the entries there: the queue of each protocol.
\<close>

definition UA_initCompileTrees :: "mtsua_protocol \<Rightarrow> asn_tab list" where
  "UA_initCompileTrees protocol = (case protocol of
       MTSUA_Protocol_Ipm \<Rightarrow> [EMSD_compileIpm1_1 2 NULL 2 0]
     | MTSUA_Protocol_ReportDelivery \<Rightarrow> [EMSD_compileReportDelivery1_1 2 NULL 2 0]
     | MTSUA_Protocol_DeliverArg \<Rightarrow> [EMSD_compileDeliverArgument1_1 2 NULL 2 0]
     | MTSUA_Protocol_SubmitArg \<Rightarrow> [EMSD_compileSubmitArgument1_1 2 NULL 2 0]
     | MTSUA_Protocol_SubmitResult \<Rightarrow> [EMSD_compileSubmitResult1_1 2 NULL 2 0]
     | MTSUA_Protocol_ErrorRequest \<Rightarrow> [EMSD_compileErrorRequest1_1 2 NULL 2 0]
     | MTSUA_Protocol_DeliveryControlArg \<Rightarrow> [EMSD_compileDeliveryControlArgument1_1 2 NULL 2 0]
     | MTSUA_Protocol_DeliveryControlRes \<Rightarrow> [EMSD_compileDeliveryControlResult1_1 2 NULL 2 0]
     | MTSUA_Protocol_DeliveryVerifyArg \<Rightarrow> [EMSD_compileDeliveryVerifyArgument1_1 2 NULL 2 0]
     | MTSUA_Protocol_DeliveryVerifyRes \<Rightarrow> [EMSD_compileDeliveryVerifyResult1_1 2 NULL 2 0]
     | MTSUA_Protocol_SubmissionVerifyArg \<Rightarrow> []
     | MTSUA_Protocol_SubmissionVerifyRes \<Rightarrow> [])"

definition UA_getProtocolTree :: "mtsua_protocol \<Rightarrow> asn_tab list" where
  "UA_getProtocolTree protocol = UA_initCompileTrees protocol"

text \<open>Formatting and parsing the structure in a block, by the tables of a protocol.\<close>

definition format_struct :: "mtsua_protocol \<Rightarrow> ptr \<Rightarrow> ptr \<Rightarrow> (omem, u32) rc_op" where
  "format_struct protocol b p = ASN_format 0 (UA_getProtocolTree protocol) b (struct_at p) 0"

definition parse_struct :: "nat \<Rightarrow> mtsua_protocol \<Rightarrow> ptr \<Rightarrow> ptr \<Rightarrow> u32 \<Rightarrow> (omem, u32) rc_op" where
  "parse_struct encodingType protocol b p pduLength =
     ASN_parse encodingType (UA_getProtocolTree protocol) b (struct_at p) pduLength"

end
