(* ===== verification/Ua_Subr.thy ===== *)
theory Ua_Subr
  imports Ua_Alloc
begin

text \<open>
  Message identifiers, operations, detection of duplicates and the issuing of requests:
  \<^verbatim>\<open>msgid.c\<close>, \<^verbatim>\<open>oper.c\<close>, \<^verbatim>\<open>uadup.c\<close> and \<^verbatim>\<open>uasubr.c\<close> of \<^verbatim>\<open>emsd/ua/uacore\<close>.
\<close>

section \<open>Message identifiers\<close>

text \<open>\<^verbatim>\<open>sprintf\<close> with \<^verbatim>\<open>%08lx\<close>.\<close>

definition hexDigit :: "nat \<Rightarrow> u8" where
  "hexDigit d = of_nat (if d < 10 then 48 + d else 87 + d)"

definition hex8 :: "u32 \<Rightarrow> octets" where
  "hex8 w = map (\<lambda>i. hexDigit (unat w div 16 ^ (7 - i) mod 16)) [0..<8]"

definition localId :: "u32 \<Rightarrow> u32 \<Rightarrow> octets" where
  "localId submissionTime dailyMessageNumber = hex8 submissionTime @ 46 # hex8 dailyMessageNumber"

definition ua_messageIdEmsdLocalToRfc822 :: "nat \<Rightarrow> omem \<Rightarrow> octets" where
  "ua_messageIdEmsdLocalToRfc822 a h =
     localId (c_int h (LocalMessageId_submissionTime a)) (c_int h (LocalMessageId_dailyMessageNumber a))"

text \<open>The result is \<^term>\<open>None\<close> for a choice that is neither form: the buffer is not written.\<close>

definition ua_messageIdEmsdToRfc822 :: "nat \<Rightarrow> omem \<Rightarrow> octets option" where
  "ua_messageIdEmsdToRfc822 a h =
     (if c_byte h (MessageId_choice a) = EMSD_MESSAGEID_CHOICE_LOCAL then
        Some (ua_messageIdEmsdLocalToRfc822 (MessageId_local a) h)
      else if c_byte h (MessageId_choice a) = EMSD_MESSAGEID_CHOICE_RFC822 then
        Some (cstring (s_p (strs h (c_str h (MessageId_rfc822 a)))) h)
      else None)"

text \<open>
  \<^verbatim>\<open>sscanf\<close> with \<^verbatim>\<open>%lx\<close>: white space, a sign, \<^verbatim>\<open>0x\<close>, digits; the value saturates.
\<close>

definition hexValue :: "u8 \<Rightarrow> nat option" where
  "hexValue c =
     (if 48 \<le> c \<and> c \<le> 57 then Some (unat c - 48)
      else if 97 \<le> c \<and> c \<le> 102 then Some (unat c - 87)
      else if 65 \<le> c \<and> c \<le> 70 then Some (unat c - 55) else None)"

definition isSpace :: "u8 \<Rightarrow> bool" where
  "isSpace c \<longleftrightarrow> c = 32 \<or> (9 \<le> c \<and> c \<le> 13)"

definition scanDigits :: "octets \<Rightarrow> (nat \<times> octets) option" where
  "scanDigits xs =
     (let ds = takeWhile (\<lambda>c. hexValue c \<noteq> None) xs in
      if ds = [] then None
      else Some (foldl (\<lambda>n c. 16 * n + the (hexValue c)) 0 ds, drop (length ds) xs))"

definition scanUnsigned :: "octets \<Rightarrow> (nat \<times> octets) option" where
  "scanUnsigned xs = scanDigits (if take 2 xs = [48, 120] \<or> take 2 xs = [48, 88] then drop 2 xs else xs)"

definition saturate :: "nat \<Rightarrow> u32" where
  "saturate n = (if n > 0xffffffff then 0xffffffff else of_nat n)"

definition scanHex :: "octets \<Rightarrow> (u32 \<times> octets) option" where
  "scanHex xs =
     (let ys = dropWhile isSpace xs in
      if take 1 ys = [45] then
        map_option (\<lambda>(n, zs). (if n > 0xffffffff then 0xffffffff else - of_nat n, zs)) (scanUnsigned (drop 1 ys))
      else map_option (\<lambda>(n, zs). (saturate n, zs)) (scanUnsigned (if take 1 ys = [43] then drop 1 ys else ys)))"

definition literal :: "octets \<Rightarrow> octets \<Rightarrow> octets option" where
  "literal lit xs = (if take (length lit) xs = lit then Some (drop (length lit) xs) else None)"

text \<open>\<^verbatim>\<open>%lx.%lx@mts%lx.emsd.org\<close>: the three values when there are three conversions.\<close>

definition scanMessageId :: "octets \<Rightarrow> (u32 \<times> u32 \<times> u32) option" where
  "scanMessageId xs =
     Option.bind (scanHex xs) (\<lambda>(a, ys).
     Option.bind (literal [46] ys) (\<lambda>ys.
     Option.bind (scanHex ys) (\<lambda>(b, ys).
     Option.bind (literal [64, 109, 116, 115] ys) (\<lambda>ys.
     Option.bind (scanHex ys) (\<lambda>(c, ys). Some (a, b, c))))))"

text \<open>The message identifier is in the area \<open>z\<close>; the structure is at \<open>a\<close>.\<close>

definition ua_messageIdRfc822ToEmsdLocal :: "ptr \<Rightarrow> nat \<Rightarrow> (omem, unit) rc_op" where
  "ua_messageIdRfc822ToEmsdLocal z a = do {
     scanned \<leftarrow> gets (\<lambda>h. scanMessageId (cstring z h));
     case scanned of
       Some (x, y, _) \<Rightarrow> do {
         set_byte (MessageId_choice a) EMSD_MESSAGEID_CHOICE_LOCAL;
         set_int (LocalMessageId_submissionTime (MessageId_local a)) x;
         set_int (LocalMessageId_dailyMessageNumber (MessageId_local a)) y;
         ok ()
       }
     | None \<Rightarrow> do {
         set_str (MessageId_rfc822 a) NULL;
         RC_CALL (STR_assignZString NULL z) (\<lambda>t. do { set_str (MessageId_rfc822 a) t; ok () })
       }
   }"


section \<open>Operations\<close>

text \<open>
  \<open>shellReference\<close> is the string that \<^verbatim>\<open>hShellReference\<close> points to, which \<^verbatim>\<open>strcpy\<close> copies. What is
  not initialised keeps what the memory held.
\<close>

definition ua_allocOperation :: "ua_pool \<Rightarrow> octets \<Rightarrow> (ua, ptr) rc_op" where
  "ua_allocOperation pool shellReference = do {
     n \<leftarrow> gets (\<lambda>s. u_pool s pool);
     if n = 0 then FAIL_RC ResourceError
     else do {
       p \<leftarrow> on_mem (OS_alloc 0);
       if p = NULL then FAIL_RC ResourceError
       else do {
         upd_op p (\<lambda>x. x\<lparr>
           op_encodingType := 0, op_hFsm := NULL, op_hSapDesc := 0, op_rc := None,
           op_bComplete := False, op_hOperationData := NULL, op_hFirstOperationData := NULL,
           op_hFullPduBuf := NULL, op_hSegmentBuf := (\<lambda>i. NULL), op_expectedSegmentMask := 0,
           op_receivedSegmentMask := 0, op_sequenceId := 0, op_lastSegmentNumber := 0,
           op_segmentLength := 0, op_hSegmentationTimer := NULL, op_pendingQ := [],
           op_hCurrentBuf := NULL, op_retryCount := 0, op_status := MTSUA_Status_Success,
           op_userFreeQ := [], op_pPool := pool, op_pHackData := shellReference\<rparr>);
         ua_upd (\<lambda>s. s\<lparr>u_active := u_active s @ [p]\<rparr>);
         ua_upd (\<lambda>s. s\<lparr>u_pool := (u_pool s)(pool := u_pool s pool - 1)\<rparr>);
         ok p
       }
     }
   }"

text \<open>Freeing a block that is not allocated is recorded; freeing NULL does nothing.\<close>

definition free_block :: "ptr \<Rightarrow> unit uprog" where
  "free_block p = (if p = NULL then skip else do { touch p; on_mem (OS_free p) })"

definition call_free :: "free_fn \<Rightarrow> ptr \<Rightarrow> unit uprog" where
  "call_free f p = (case f of
       Free_machine \<Rightarrow> do { _ \<leftarrow> FSM_deleteMachine p; skip }
     | _ \<Rightarrow> do {
         (if p = NULL then skip else touch p);
         on_mem (case f of
             Free_BUF \<Rightarrow> BUF_free p
           | Free_message \<Rightarrow> mtsua_freeMessage p
           | Free_submitArg \<Rightarrow> mtsua_freeSubmitArg p
           | Free_submitRes \<Rightarrow> mtsua_freeSubmitRes p
           | Free_deliverArg \<Rightarrow> mtsua_freeDeliverArg p
           | Free_submissionVerifyArg \<Rightarrow> mtsua_freeSubmissionVerifyArg p
           | Free_deliveryVerifyArg \<Rightarrow> mtsua_freeDeliveryVerifyArg p
           | Free_deliveryVerifyRes \<Rightarrow> mtsua_freeDeliveryVerifyRes p
           | Free_errorRequest \<Rightarrow> mtsua_freeErrorRequest p
           | Free_machine \<Rightarrow> skip)
       })"

primrec free_pendings :: "(ptr \<times> ua_pending) list \<Rightarrow> unit uprog" where
  "free_pendings [] = skip"
| "free_pendings (x # xs) = do { free_block (fst x); free_pendings xs }"

primrec free_users :: "(ptr \<times> free_fn \<times> ptr) list \<Rightarrow> unit uprog" where
  "free_users [] = skip"
| "free_users (x # xs) = do {
     call_free (fst (snd x)) (snd (snd x));
     free_block (fst x);
     free_users xs
   }"

definition ua_freeOperation :: "ptr \<Rightarrow> unit uprog" where
  "ua_freeOperation p = do {
     x \<leftarrow> get_op p;
     ua_upd (\<lambda>s. s\<lparr>u_active := remove1 p (u_active s)\<rparr>);
     upd_op p (\<lambda>x. x\<lparr>op_pendingQ := []\<rparr>);
     free_pendings (op_pendingQ x);
     upd_op p (\<lambda>x. x\<lparr>op_userFreeQ := []\<rparr>);
     free_users (op_userFreeQ x);
     ua_upd (\<lambda>s. s\<lparr>u_pool := (u_pool s)(op_pPool x := u_pool s (op_pPool x) + 1)\<rparr>);
     free_block p
   }"

definition ua_operationAddUserFree :: "ptr \<Rightarrow> free_fn \<Rightarrow> ptr \<Rightarrow> (ua, unit) rc_op" where
  "ua_operationAddUserFree p pfFree hUserData = do {
     block \<leftarrow> on_mem (OS_alloc 0);
     if block = NULL then FAIL_RC ResourceError
     else do {
       upd_op p (\<lambda>x. x\<lparr>op_userFreeQ := op_userFreeQ x @ [(block, pfFree, hUserData)]\<rparr>);
       ok ()
     }
   }"

definition ua_operationDelUserFree :: "ptr \<Rightarrow> ptr \<Rightarrow> unit uprog" where
  "ua_operationDelUserFree p hUserData = do {
     x \<leftarrow> get_op p;
     case find (\<lambda>(_, _, u). u = hUserData) (op_userFreeQ x) of
       None \<Rightarrow> skip
     | Some elem \<Rightarrow> do {
         upd_op p (\<lambda>x. x\<lparr>op_userFreeQ := remove1 elem (op_userFreeQ x)\<rparr>);
         free_block (fst elem)
       }
   }"


section \<open>Duplicates\<close>

text \<open>
  The result is whether the operation is a duplicate, and the data unit afterwards. The octet that
  the code reads must be there.
\<close>

definition ua_isDuplicate :: "octets \<Rightarrow> u32 \<Rightarrow> (bool \<times> octets) uprog" where
  "ua_isDuplicate view operationValue =
     (if operationValue < 32 then return (False, view)
      else case view of
        [] \<Rightarrow> do { ua_upd (\<lambda>s. s\<lparr>u_undefined := True\<rparr>); return (False, []) }
      | x # xs \<Rightarrow> do {
          let i = unat x div 8;
          let bit = (push_bit (unat x mod 8) 1 :: u8);
          d \<leftarrow> gets u_duplicate;
          if d ! i AND bit \<noteq> 0 then return (False, xs)
          else do {
            ua_upd (\<lambda>s. s\<lparr>u_duplicate := (u_duplicate s)[i := u_duplicate s ! i OR bit]\<rparr>);
            let j = (if i \<ge> 16 then i - 16 else i + 16);
            ua_upd (\<lambda>s. s\<lparr>u_duplicate := (u_duplicate s)[j := u_duplicate s ! j AND NOT bit]\<rparr>);
            return (False, xs)
          }
        })"

definition ua_addDuplicateDetection :: "octets \<Rightarrow> u32 \<Rightarrow> octets uprog" where
  "ua_addDuplicateDetection view operationValue =
     (if operationValue < 32 then return view
      else do {
        x \<leftarrow> gets u_instanceId;
        ua_upd (\<lambda>s. s\<lparr>u_instanceId := u_instanceId s + 1\<rparr>);
        return (x # view)
      })"


section \<open>Requests\<close>

text \<open>
  The loop that copies the segments of a buffer into a data unit. The octets of the buffer bound
  its rounds, since a chunk has at least one.
\<close>

primrec getChunks :: "nat \<Rightarrow> ptr \<Rightarrow> octets \<Rightarrow> (omem, octets) rc_op" where
  "getChunks 0 b acc = FAIL_RC Undefined"
| "getChunks (Suc n) b acc = do {
     r \<leftarrow> BUF_getChunk b 0;
     case r of
       Inl e \<Rightarrow> if e = BUF_RC_BufferExhausted then ok acc else FAIL_RC e
     | Inr (len, a, x) \<Rightarrow> do {
         xs \<leftarrow> gets (octets_at a x (x + int len));
         getChunks n b (acc @ xs)
       }
   }"

definition bufToView :: "ptr \<Rightarrow> (omem, octets) rc_op" where
  "bufToView b = do {
     BUF_resetParse b;
     n \<leftarrow> gets (\<lambda>h. length (buf_octets b h));
     getChunks (Suc n) b []
   }"

definition ua_issueInvoke :: "ptr \<Rightarrow> ptr \<Rightarrow> (ua, unit) rc_op" where
  "ua_issueInvoke p hInvokeData = do {
     noView \<leftarrow> ask env_duFail;
     if noView then do {
       upd_op p (\<lambda>x. x\<lparr>op_status := MTSUA_Status_TransientError\<rparr>);
       FAIL_RC ResourceError
     }
     else RC_CALL (on_mem (bufToView hInvokeData)) (\<lambda>data. do {
       x \<leftarrow> get_op p;
       view \<leftarrow> ua_addDuplicateDetection data (EMSD_OP_VALUE (op_operationValue x));
       retval \<leftarrow> ask env_invoke;
       add_request (INVOKE_req retval (op_hSapDesc x) (op_sapSel x) (EMSD_OP_VALUE (op_operationValue x))
         (op_encodingType x) view);
       case retval of
         None \<Rightarrow> do {
           upd_op p (\<lambda>x. x\<lparr>op_status := MTSUA_Status_TransientError\<rparr>);
           FAIL_RC Fail
         }
       | Some invokeId \<Rightarrow> do { upd_op p (\<lambda>x. x\<lparr>op_invokeId := invokeId\<rparr>); ok () }
     })
   }"

text \<open>A copy of the code of \<^verbatim>\<open>ua_issueInvoke\<close>.\<close>

definition ua_issueDelCtrlInvoke :: "ptr \<Rightarrow> ptr \<Rightarrow> (ua, unit) rc_op" where
  "ua_issueDelCtrlInvoke p hInvokeData = ua_issueInvoke p hInvokeData"

text \<open>
  The length that \<^verbatim>\<open>BUF_getChunk\<close> is given here was never initialised. The part of the data unit that
  is not copied keeps its old octets.
\<close>

definition ua_issueErrorRequest :: "int \<Rightarrow> u32 \<Rightarrow> unit uprog" where
  "ua_issueErrorRequest invokeId errorVal = do {
     errorReq \<leftarrow> on_mem stack_block;
     on_mem (set_int (ErrorRequest_error (struct_at errorReq)) errorVal);
     r \<leftarrow> on_mem (BUF_alloc 0);
     case r of
       Inl _ \<Rightarrow> skip
     | Inr b \<Rightarrow> do {
         r \<leftarrow> RC_CALL (on_mem (format_struct MTSUA_Protocol_ErrorRequest b errorReq)) (\<lambda>_. do {
           noView \<leftarrow> ask env_duFail;
           if noView then FAIL_RC Fail
           else do {
             size \<leftarrow> mem_get (\<lambda>h. unat (BUF_getBufferLength b h));
             on_mem (BUF_resetParse b);
             n \<leftarrow> ask env_uninit;
             RC_CALL (on_mem (BUF_getChunk b (u16 n))) (\<lambda>(len, a, x). do {
               xs \<leftarrow> mem_get (octets_at a x (x + int len));
               old \<leftarrow> ask env_duData;
               ok (xs @ map old [len..<size])
             })
           }
         });
         (case r of
            Inl _ \<Rightarrow> skip
          | Inr view \<Rightarrow> do {
              _ \<leftarrow> ask env_request;
              add_request (ERROR_req invokeId 0 errorVal view)
            });
         on_mem (BUF_free b)
       }
   }"

end
