(* ===== verification/Ua_Shell.thy ===== *)
theory Ua_Shell
  imports Ua_Subr
begin

text \<open>
  The conversion of messages between the shell and the EMSD structures, \<^verbatim>\<open>uacore/fromsh.c\<close> and
  \<^verbatim>\<open>uacore/tosh.c\<close>. From the shell a string is a pointer; to the shell the model passes the octets
  that the pointers point to when the shell is called.
\<close>

section \<open>From the shell\<close>

text \<open>A string that is assigned to a member, for which \<^verbatim>\<open>STR_assignZString\<close> allocates the memory.\<close>

definition assign_at :: "nat \<Rightarrow> ptr \<Rightarrow> (omem, unit) rc_op" where
  "assign_at a z = do {
     set_str a NULL;
     RC_CALL (STR_assignZString NULL z) (\<lambda>t. do { set_str a t; ok () })
   }"

definition assign_or_fail :: "nat \<Rightarrow> ptr \<Rightarrow> (omem, unit) rc_op" where
  "assign_or_fail a z = do {
     r \<leftarrow> assign_at a z;
     case r of Inl _ \<Rightarrow> FAIL_RC Fail | Inr _ \<Rightarrow> ok ()
   }"

definition fromsh_addAddr :: "ptr uash_recipient \<Rightarrow> nat \<Rightarrow> (omem, unit) rc_op" where
  "fromsh_addAddr localRecip a = (case localRecip of
       UASH_RecipientStyle_Emsd emsdAddr pName \<Rightarrow> do {
         set_byte (ORAddress_choice a) EMSD_ORADDRESS_CHOICE_LOCAL;
         set_int (EMSDAddress_emsdAddress (ORAddress_local a)) emsdAddr;
         (if pName \<noteq> NULL then do {
            set_bool (opt_exists (EMSDAddress_emsdName (ORAddress_local a))) True;
            assign_or_fail (opt_data (EMSDAddress_emsdName (ORAddress_local a))) pName
          } else ok ())
       }
     | UASH_RecipientStyle_Rfc822 pRecipRfc822 \<Rightarrow> do {
         set_byte (ORAddress_choice a) EMSD_ORADDRESS_CHOICE_RFC822;
         (if pRecipRfc822 \<noteq> NULL then assign_or_fail (ORAddress_rfc822 a) pRecipRfc822 else ok ())
       })"

text \<open>Comparing two addresses that are both NULL is left to \<^verbatim>\<open>strcasecmp\<close>, which reads them.\<close>

definition addressesDiffer :: "ptr uash_recipient \<Rightarrow> ptr uash_recipient \<Rightarrow> (omem, bool) rc_op" where
  "addressesDiffer r1 r2 = (case (r1, r2) of
       (UASH_RecipientStyle_Emsd n1 _, UASH_RecipientStyle_Emsd n2 _) \<Rightarrow> ok (n1 \<noteq> n2)
     | (UASH_RecipientStyle_Rfc822 z1, UASH_RecipientStyle_Rfc822 z2) \<Rightarrow>
         if z1 = NULL \<and> z2 \<noteq> NULL \<or> z1 \<noteq> NULL \<and> z2 = NULL then ok True
         else if z1 = NULL then FAIL_RC Undefined
         else do {
           same \<leftarrow> gets (\<lambda>h. OS_strcasecmp_eq (cstring z1 h) (cstring z2 h));
           ok (\<not> same)
         }
     | _ \<Rightarrow> ok True)"

text \<open>The call \<open>m\<close>; when it fails the message is freed and the code returned.\<close>

definition or_free :: "ptr \<Rightarrow> (omem, 'a) rc_op \<Rightarrow> ('a \<Rightarrow> (omem, 'b) rc_op) \<Rightarrow> (omem, 'b) rc_op" where
  "or_free pIpm m f = do {
     r \<leftarrow> m;
     case r of Inl e \<Rightarrow> do { mtsua_freeMessage pIpm; FAIL_RC e } | Inr x \<Rightarrow> f x
   }"

definition set_flag :: "nat \<Rightarrow> nat \<Rightarrow> (omem, unit) state" where
  "set_flag a i = do {
     t \<leftarrow> gets (\<lambda>h. c_str h (opt_data a));
     _ \<leftarrow> STR_bitStringSetBit t i 1;
     skip
   }"

definition set_recip_flag :: "bool \<Rightarrow> nat \<Rightarrow> nat \<Rightarrow> (omem, unit) state" where
  "set_recip_flag wanted a i =
     (if wanted then do { set_flag a i; set_bool (opt_exists a) True } else skip)"

abbreviation (input) EMSD_PerRecipFlags_RecipientType_Copy :: nat where
  "EMSD_PerRecipFlags_RecipientType_Copy \<equiv> 0"
abbreviation (input) EMSD_PerRecipFlags_RecipientType_BlindCopy :: nat where
  "EMSD_PerRecipFlags_RecipientType_BlindCopy \<equiv> 1"
abbreviation (input) EMSD_PerRecipFlags_NotificationRequest_RN :: nat where
  "EMSD_PerRecipFlags_NotificationRequest_RN \<equiv> 2"
abbreviation (input) EMSD_PerRecipFlags_NotificationRequest_NRN :: nat where
  "EMSD_PerRecipFlags_NotificationRequest_NRN \<equiv> 3"
abbreviation (input) EMSD_PerRecipFlags_NotificationRequest_IpmReturn :: nat where
  "EMSD_PerRecipFlags_NotificationRequest_IpmReturn \<equiv> 4"
abbreviation (input) EMSD_PerRecipFlags_ReportRequest_NonDelivery :: nat where
  "EMSD_PerRecipFlags_ReportRequest_NonDelivery \<equiv> 5"
abbreviation (input) EMSD_PerRecipFlags_ReportRequest_Delivery :: nat where
  "EMSD_PerRecipFlags_ReportRequest_Delivery \<equiv> 6"
abbreviation (input) EMSD_PerRecipFlags_ReplyRequested :: nat where
  "EMSD_PerRecipFlags_ReplyRequested \<equiv> 7"

abbreviation (input) EMSD_PerMessageFlags_Priority_NonUrgent :: nat where
  "EMSD_PerMessageFlags_Priority_NonUrgent \<equiv> 0"
abbreviation (input) EMSD_PerMessageFlags_Priority_Urgent :: nat where
  "EMSD_PerMessageFlags_Priority_Urgent \<equiv> 1"
abbreviation (input) EMSD_PerMessageFlags_Importance_Low :: nat where
  "EMSD_PerMessageFlags_Importance_Low \<equiv> 2"
abbreviation (input) EMSD_PerMessageFlags_Importance_High :: nat where
  "EMSD_PerMessageFlags_Importance_High \<equiv> 3"
abbreviation (input) EMSD_PerMessageFlags_AutoForwarded :: nat where
  "EMSD_PerMessageFlags_AutoForwarded \<equiv> 4"

text \<open>
  The loop over the recipients; \<open>r\<close> is the address of the next element of the array, whose bound is
  not checked. When the memory for the flags is not there the message is not freed.
\<close>

primrec add_recipients ::
  "ptr \<Rightarrow> ptr uash_recipientInfo list \<Rightarrow> nat \<Rightarrow> (omem, unit) rc_op" where
  "add_recipients pIpm [] r = ok ()"
| "add_recipients pIpm (x # xs) r =
     or_free pIpm (fromsh_addAddr (ri_recipient x) (RecipientData_recipient r)) (\<lambda>_.
       RC_CALL (STR_alloc 8) (\<lambda>t. do {
         let flags = RecipientData_perRecipFlags r;
         set_str (opt_data flags) t;
         set_bool (opt_exists flags) False;
         set_recip_flag (ri_recipientType x = UASH_RecipientType_Copy) flags
           EMSD_PerRecipFlags_RecipientType_Copy;
         set_recip_flag (ri_recipientType x = UASH_RecipientType_BlindCopy) flags
           EMSD_PerRecipFlags_RecipientType_BlindCopy;
         set_recip_flag (bReceiptNotificationRequested x) flags
           EMSD_PerRecipFlags_NotificationRequest_RN;
         set_recip_flag (bNonReceiptNotificationRequested x) flags
           EMSD_PerRecipFlags_NotificationRequest_NRN;
         set_recip_flag (bMessageReturnRequested x) flags
           EMSD_PerRecipFlags_NotificationRequest_IpmReturn;
         set_recip_flag (bNonDeliveryReportRequested x) flags
           EMSD_PerRecipFlags_ReportRequest_NonDelivery;
         set_recip_flag (bDeliveryReportRequested x) flags
           EMSD_PerRecipFlags_ReportRequest_Delivery;
         set_recip_flag (bReplyRequested x) flags EMSD_PerRecipFlags_ReplyRequested;
         add_recipients pIpm xs (r + sizeof_RecipientData)
       }))"

primrec add_replyTo :: "ptr \<Rightarrow> ptr uash_recipient list \<Rightarrow> nat \<Rightarrow> (omem, unit) rc_op" where
  "add_replyTo pIpm [] a = ok ()"
| "add_replyTo pIpm (x # xs) a =
     or_free pIpm (fromsh_addAddr x a) (\<lambda>_. add_replyTo pIpm xs (a + sizeof_ORAddress))"

text \<open>The number of reply-to recipients that were added.\<close>

definition replyTo_recipients :: "ptr \<Rightarrow> ptr uash_heading \<Rightarrow> nat \<Rightarrow> (omem, nat) rc_op" where
  "replyTo_recipients pIpm heading a = (case uh_replyTo heading of
       [x] \<Rightarrow>
         RC_CALL (addressesDiffer x
             (case uh_sender heading of
                UASH_RecipientStyle_Rfc822 z \<Rightarrow> if z \<noteq> NULL then uh_sender heading else uh_originator heading
              | _ \<Rightarrow> uh_sender heading)) (\<lambda>differ.
           if differ then or_free pIpm (fromsh_addAddr x a) (\<lambda>_. ok 1) else ok 0)
     | xs \<Rightarrow> RC_CALL (add_replyTo pIpm xs a) (\<lambda>_. ok (length xs)))"

definition add_opt_str :: "ptr \<Rightarrow> nat \<Rightarrow> ptr \<Rightarrow> (omem, unit) rc_op" where
  "add_opt_str pIpm a z =
     (if z = NULL then ok ()
      else do {
        set_bool (opt_exists a) True;
        or_free pIpm (assign_at (opt_data a) z) ok
      })"

definition has_sender :: "ptr uash_heading \<Rightarrow> (omem, bool) rc_op" where
  "has_sender heading =
     (case uh_sender heading of
        UASH_RecipientStyle_Rfc822 z \<Rightarrow>
          if z \<noteq> NULL then addressesDiffer (uh_sender heading) (uh_originator heading) else ok False
      | _ \<Rightarrow> addressesDiffer (uh_sender heading) (uh_originator heading))"

definition add_message_flags :: "ptr uash_heading \<Rightarrow> nat \<Rightarrow> (omem, unit) state" where
  "add_message_flags heading flags = do {
     (case uh_priority heading of
        UASH_Priority_Normal \<Rightarrow> skip
      | UASH_Priority_NonUrgent \<Rightarrow> set_flag flags EMSD_PerMessageFlags_Priority_NonUrgent
      | UASH_Priority_Urgent \<Rightarrow> set_flag flags EMSD_PerMessageFlags_Priority_Urgent);
     (case uh_importance heading of
        UASH_Importance_Normal \<Rightarrow> skip
      | UASH_Importance_Low \<Rightarrow> set_flag flags EMSD_PerMessageFlags_Importance_Low
      | UASH_Importance_High \<Rightarrow> set_flag flags EMSD_PerMessageFlags_Importance_High);
     (if uh_autoForwarded heading then set_flag flags EMSD_PerMessageFlags_AutoForwarded else skip)
   }"

definition ua_messageFromShell :: "ptr uash_heading \<Rightarrow> ptr \<Rightarrow> (omem, ptr) rc_op" where
  "ua_messageFromShell heading pBodyText = RC_CALL mtsua_allocMessage (\<lambda>pIpm. do {
     let m = Message_heading (struct_at pIpm);
     let recipients = IpmHeading_recipientDataList m;
     let replyTo = IpmHeading_replyTo m;
     or_free pIpm (fromsh_addAddr (uh_originator heading) (IpmHeading_originator m)) (\<lambda>_.
     RC_CALL (has_sender heading) (\<lambda>sender. do {
     set_bool (opt_exists (IpmHeading_sender m)) sender;
     or_free pIpm (if sender then fromsh_addAddr (uh_sender heading) (opt_data (IpmHeading_sender m))
                   else ok ()) (\<lambda>_.
     RC_CALL (add_recipients pIpm (uh_recipInfo heading) (RecipientDataList_data recipients)) (\<lambda>_. do {
     set_int (RecipientDataList_count recipients) (of_nat (length (uh_recipInfo heading)));
     RC_CALL (replyTo_recipients pIpm heading (ReplyTo_data (opt_data replyTo))) (\<lambda>count. do {
     set_bool (opt_exists replyTo) (count \<noteq> 0);
     (if count = 0 then skip else set_int (ReplyTo_count (opt_data replyTo)) (of_nat count));
     (if uh_repliedTo heading \<noteq> NULL then do {
        set_bool (opt_exists (IpmHeading_repliedToIpm m)) True;
        set_byte (MessageId_choice (opt_data (IpmHeading_repliedToIpm m))) EMSD_MESSAGEID_CHOICE_RFC822
      } else skip);
     or_free pIpm (if uh_repliedTo heading \<noteq> NULL
                   then assign_at (MessageId_rfc822 (opt_data (IpmHeading_repliedToIpm m))) (uh_repliedTo heading)
                   else ok ()) (\<lambda>_.
     RC_CALL (add_opt_str pIpm (IpmHeading_subject m) (uh_subject heading)) (\<lambda>_.
     or_free pIpm (STR_alloc 8) (\<lambda>t. do {
     set_str (opt_data (IpmHeading_perMessageFlags m)) t;
     add_message_flags heading (IpmHeading_perMessageFlags m);
     plain \<leftarrow> gets (\<lambda>h. uh_mimeVersion heading = NULL \<or> cstring (uh_mimeVersion heading) h = [49, 46, 48]);
     RC_CALL (if plain then ok ()
              else add_opt_str pIpm (IpmHeading_mimeVersion m) (uh_mimeVersion heading)) (\<lambda>_.
     RC_CALL (add_opt_str pIpm (IpmHeading_mimeContentType m) (uh_mimeContentType heading)) (\<lambda>_.
     RC_CALL (add_opt_str pIpm (IpmHeading_mimeContentId m) (uh_mimeContentId heading)) (\<lambda>_.
     RC_CALL (add_opt_str pIpm (IpmHeading_mimeContentDescription m)
                (uh_mimeContentDescription heading)) (\<lambda>_.
     RC_CALL (add_opt_str pIpm (IpmHeading_mimeContentTransferEncoding m)
                (uh_mimeContentTransferEncoding heading)) (\<lambda>_. do {
     set_bool (opt_exists (Message_body (struct_at pIpm))) (pBodyText \<noteq> NULL);
     or_free pIpm (if pBodyText \<noteq> NULL
                   then assign_at (IpmBody_bodyText (opt_data (Message_body (struct_at pIpm)))) pBodyText
                   else ok ()) (\<lambda>_. ok pIpm)
     })))))})))})}))}))})"


section \<open>To the shell\<close>

definition str_at :: "nat \<Rightarrow> omem \<Rightarrow> octets" where
  "str_at a h = cstring (s_p (strs h (c_str h a))) h"

definition opt_str_at :: "nat \<Rightarrow> omem \<Rightarrow> octets option" where
  "opt_str_at a h = (if c_bool h (opt_exists a) then Some (str_at (opt_data a) h) else None)"

text \<open>\<open>old\<close> is what the recipient was before; a choice of neither style leaves it.\<close>

definition tosh_addAddr :: "nat \<Rightarrow> octets option uash_recipient \<Rightarrow> omem \<Rightarrow> octets option uash_recipient" where
  "tosh_addAddr a old h =
     (if c_byte h (ORAddress_choice a) = EMSD_ORADDRESS_CHOICE_LOCAL then
        UASH_RecipientStyle_Emsd (c_int h (EMSDAddress_emsdAddress (ORAddress_local a)))
          (opt_str_at (EMSDAddress_emsdName (ORAddress_local a)) h)
      else if c_byte h (ORAddress_choice a) = EMSD_ORADDRESS_CHOICE_RFC822 then
        UASH_RecipientStyle_Rfc822 (Some (str_at (ORAddress_rfc822 a) h))
      else old)"

definition flag_at_bit :: "nat \<Rightarrow> nat \<Rightarrow> omem \<Rightarrow> bool" where
  "flag_at_bit flags i h \<longleftrightarrow> STR_bitStringGetBit (c_str h (opt_data flags)) i h \<noteq> 0"

text \<open>
  A recipient: \<open>old\<close> is what \<^verbatim>\<open>malloc\<close> left in the structure, in which a flag is only ever set.
\<close>

definition tosh_recipient :: "nat \<Rightarrow> octets option uash_recipientInfo \<Rightarrow> omem \<Rightarrow>
    octets option uash_recipientInfo" where
  "tosh_recipient a old h =
     (let flags = RecipientData_perRecipFlags a;
          present = c_bool h (opt_exists flags);
          requested = (\<lambda>i was. present \<and> flag_at_bit flags i h \<or> was)
      in \<lparr>ri_recipient = tosh_addAddr (RecipientData_recipient a) (ri_recipient old) h,
          ri_recipientType =
            (if \<not> present then UASH_RecipientType_Primary
             else if flag_at_bit flags EMSD_PerRecipFlags_RecipientType_Copy h
             then UASH_RecipientType_Copy
             else if flag_at_bit flags EMSD_PerRecipFlags_RecipientType_BlindCopy h
             then UASH_RecipientType_BlindCopy
             else UASH_RecipientType_Primary),
          bReceiptNotificationRequested =
            requested EMSD_PerRecipFlags_NotificationRequest_RN (bReceiptNotificationRequested old),
          bNonReceiptNotificationRequested =
            requested EMSD_PerRecipFlags_NotificationRequest_NRN (bNonReceiptNotificationRequested old),
          bMessageReturnRequested =
            requested EMSD_PerRecipFlags_NotificationRequest_IpmReturn (bMessageReturnRequested old),
          bNonDeliveryReportRequested =
            requested EMSD_PerRecipFlags_ReportRequest_NonDelivery (bNonDeliveryReportRequested old),
          bDeliveryReportRequested =
            requested EMSD_PerRecipFlags_ReportRequest_Delivery (bDeliveryReportRequested old),
          bReplyRequested = requested EMSD_PerRecipFlags_ReplyRequested (bReplyRequested old)\<rparr>)"

text \<open>
  The loops that build the queues of the heading: the elements with the blocks they are in, and
  whether the memory was there for all.
\<close>

primrec tosh_elements :: "nat \<Rightarrow> nat \<Rightarrow> nat \<Rightarrow> (nat \<Rightarrow> octets option uash_recipientInfo \<Rightarrow> omem \<Rightarrow> 'e) \<Rightarrow>
    (bool \<times> (ptr \<times> 'e) list) uprog" where
  "tosh_elements 0 a esize f = return (True, [])"
| "tosh_elements (Suc n) a esize f = do {
     block \<leftarrow> on_mem (OS_alloc 0);
     if block = NULL then return (False, [])
     else do {
       junk \<leftarrow> gets (\<lambda>s. env_junk (u_env s) block);
       x \<leftarrow> mem_get (f a junk);
       (good, xs) \<leftarrow> tosh_elements n (a + esize) esize f;
       return (good, (block, x) # xs)
     }
   }"

primrec free_blocks :: "ptr list \<Rightarrow> unit uprog" where
  "free_blocks [] = skip"
| "free_blocks (p # ps) = do { free_block p; free_blocks ps }"

definition tosh_heading ::
  "nat \<Rightarrow> octets option uash_recipientInfo list \<Rightarrow> octets option uash_recipient list \<Rightarrow>
   (octets option \<times> octets option) list \<Rightarrow> omem \<Rightarrow> octets option uash_heading" where
  "tosh_heading m recips replies extens h =
     (let none = UASH_RecipientStyle_Rfc822 None;
          flags = IpmHeading_perMessageFlags m;
          present = c_bool h (opt_exists flags);
          mime = c_bool h (opt_exists (IpmHeading_mimeContentType m));
          opt_mime = (\<lambda>a. if mime then opt_str_at a h else None)
      in \<lparr>uh_originator = tosh_addAddr (IpmHeading_originator m) none h,
          uh_sender = (if c_bool h (opt_exists (IpmHeading_sender m))
                       then tosh_addAddr (opt_data (IpmHeading_sender m)) none h else none),
          uh_recipInfo = recips,
          uh_replyTo = replies,
          uh_repliedTo = (if c_bool h (opt_exists (IpmHeading_repliedToIpm m))
                          then ua_messageIdEmsdToRfc822 (opt_data (IpmHeading_repliedToIpm m)) h else None),
          uh_subject = opt_str_at (IpmHeading_subject m) h,
          uh_priority =
            (if present \<and> flag_at_bit flags EMSD_PerMessageFlags_Priority_Urgent h
             then UASH_Priority_Urgent
             else if present \<and> flag_at_bit flags EMSD_PerMessageFlags_Priority_NonUrgent h
             then UASH_Priority_NonUrgent else UASH_Priority_Normal),
          uh_importance =
            (if present \<and> flag_at_bit flags EMSD_PerMessageFlags_Importance_Low h
             then UASH_Importance_Low
             else if present \<and> flag_at_bit flags EMSD_PerMessageFlags_Importance_High h
             then UASH_Importance_High else UASH_Importance_Normal),
          uh_autoForwarded = (present \<and> flag_at_bit flags EMSD_PerMessageFlags_AutoForwarded h),
          uh_mimeVersion =
            (if \<not> mime then None
             else if c_bool h (opt_exists (IpmHeading_mimeVersion m))
             then Some (str_at (opt_data (IpmHeading_mimeVersion m)) h) else Some [49, 46, 48]),
          uh_mimeContentType = opt_mime (IpmHeading_mimeContentType m),
          uh_mimeContentId = opt_mime (IpmHeading_mimeContentId m),
          uh_mimeContentDescription = opt_mime (IpmHeading_mimeContentDescription m),
          uh_mimeContentTransferEncoding = opt_mime (IpmHeading_mimeContentTransferEncoding m),
          uh_extension = extens\<rparr>)"

text \<open>
  \<open>d\<close> is the address of the deliver argument. The reply-to list is read whether it exists or not.
  When the shell refuses the message the elements of the heading are not freed.
\<close>

definition tosh_submissionTime :: "nat \<Rightarrow> omem \<Rightarrow> u32" where
  "tosh_submissionTime d h =
     (if c_byte h (MessageId_choice (DeliverArgument_messageId d)) = EMSD_MESSAGEID_CHOICE_RFC822 then
        if c_bool h (opt_exists (DeliverArgument_submissionTime d))
        then c_int h (opt_data (DeliverArgument_submissionTime d)) else 0
      else c_int h (LocalMessageId_submissionTime (MessageId_local (DeliverArgument_messageId d))))"

definition tosh_body :: "nat \<Rightarrow> omem \<Rightarrow> octets option" where
  "tosh_body ipm h =
     (if c_bool h (opt_exists (Message_body ipm))
      then Some (str_at (IpmBody_bodyText (opt_data (Message_body ipm))) h) else None)"

definition ua_messageToShell :: "ptr \<Rightarrow> ptr \<Rightarrow> ptr \<Rightarrow> (ua, unit) rc_op" where
  "ua_messageToShell pDeliver pIpm p = do {
     let d = struct_at pDeliver;
     let m = Message_heading (struct_at pIpm);
     let recipients = IpmHeading_recipientDataList m;
     let replyTo = opt_data (IpmHeading_replyTo m);
     let extensions = IpmHeading_extensions m;
     n \<leftarrow> mem_get (\<lambda>h. rounds (c_int h (RecipientDataList_count recipients)));
     (good, recips) \<leftarrow> tosh_elements n (RecipientDataList_data recipients) sizeof_RecipientData tosh_recipient;
     if \<not> good then do { free_blocks (map fst recips); FAIL_RC ResourceError }
     else do {
       n \<leftarrow> mem_get (\<lambda>h. rounds (c_int h (ReplyTo_count replyTo)));
       (good, replies) \<leftarrow> tosh_elements n (ReplyTo_data replyTo) sizeof_ORAddress
         (\<lambda>a old. tosh_addAddr a (ri_recipient old));
       if \<not> good then do { free_blocks (map fst recips @ map fst replies); FAIL_RC ResourceError }
       else do {
         n \<leftarrow> mem_get (\<lambda>h. rounds (c_int h (Extensions_count extensions)));
         (good, extens) \<leftarrow> tosh_elements n (Extensions_data extensions) sizeof_Extension
           (\<lambda>a old h. (Some (str_at (Extension_label a) h), Some (str_at (Extension_value a) h)));
         if \<not> good then do {
           free_blocks (map fst recips @ map fst replies @ map fst extens);
           FAIL_RC ResourceError
         }
         else do {
           heading \<leftarrow> mem_get (tosh_heading m (map snd recips) (map snd replies) (map snd extens));
           body \<leftarrow> mem_get (tosh_body (struct_at pIpm));
           msgId \<leftarrow> mem_get (ua_messageIdEmsdToRfc822 (DeliverArgument_messageId d));
           (case msgId of None \<Rightarrow> skip | Some z \<Rightarrow> upd_op p (\<lambda>x. x\<lparr>op_messageId := z\<rparr>));
           x \<leftarrow> get_op p;
           submissionTime \<leftarrow> mem_get (tosh_submissionTime d);
           deliveryTime \<leftarrow> mem_get (\<lambda>h. c_int h (DeliverArgument_deliveryTime d));
           upcall (MessageReceived (op_messageId x) submissionTime deliveryTime heading body);
           accepted \<leftarrow> ask env_shell;
           if \<not> accepted then FAIL_RC Fail
           else do {
             free_blocks (map fst recips @ map fst replies @ map fst extens);
             ok ()
           }
         }
       }
     }
   }"

end
