(* ===== verification/Ua_Pre.thy ===== *)
theory Ua_Pre
  imports Ua_Shell
begin

text \<open>
  Preprocessing of the indications and requests that start an operation or go on with one,
  \<^verbatim>\<open>uacore/upreproc.c\<close>. (The delivery control request is compiled with \<^verbatim>\<open>DELIVERY_CONTROL\<close>
  only, which \<^verbatim>\<open>target.h\<close> leaves undefined.)
\<close>

definition ua_performerTransDiag :: "ua_state fsm_transDiagram" where
  "ua_performerTransDiag = \<lparr>d_state = perf_s1Idle, d_name = ''UA Performer''\<rparr>"

definition ua_submitTransDiag :: "ua_state fsm_transDiagram" where
  "ua_submitTransDiag = \<lparr>d_state = submit_s1Idle, d_name = ''UA Submit Transitions''\<rparr>"

definition ua_loadMachine :: "ptr \<Rightarrow> ua_state fsm_transDiagram \<Rightarrow> unit uprog" where
  "ua_loadMachine hFsm d = do {
     _ \<leftarrow> FSM_TRANSDIAG_load set_transDiag hFsm (Some d);
     _ \<leftarrow> FSM_TRANSDIAG_resetMachine (\<lambda>m s. m_transDiag (u_machine s m)) id set_curState hFsm;
     skip
   }"

definition findOperationBySequenceId :: "u32 \<Rightarrow> ua \<Rightarrow> ptr option" where
  "findOperationBySequenceId sequenceId s =
     find (\<lambda>p. op_sequenceId (u_op s p) = sequenceId) (u_active s)"

text \<open>
  The first part of \<^verbatim>\<open>ua_preprocessInvokeIndication\<close>: the argument, the function that frees it,
  what else is to be freed (NULL if nothing), and the operation that the segment belongs to. On
  failure the code has been through \<^verbatim>\<open>cleanUp\<close>, or has returned.
\<close>

definition clean_up :: "free_fn \<Rightarrow> ptr \<Rightarrow> (ua, 'a) rc_op" where
  "clean_up pfFree hOperationData = do {
     (if hOperationData \<noteq> NULL then call_free pfFree hOperationData else skip);
     FAIL_RC Fail
   }"

definition preprocessDeliver :: "ptr \<Rightarrow> nat \<Rightarrow> (ua, ptr \<times> free_fn \<times> ptr \<times> ptr option) rc_op" where
  "preprocessDeliver hBuf encodingType =
     RC_CALL (on_mem mtsua_allocDeliverArg) (\<lambda>d. do {
       pduLength \<leftarrow> mem_get (BUF_getBufferLength hBuf);
       r \<leftarrow> on_mem (parse_struct encodingType MTSUA_Protocol_DeliverArg hBuf d pduLength);
       case r of
         Inl _ \<Rightarrow> clean_up Free_deliverArg d
       | Inr _ \<Rightarrow> do {
           let info = DeliverArgument_segmentInfo (struct_at d);
           contents \<leftarrow> mem_get (\<lambda>h. c_buf h (DeliverArgument_hContents (struct_at d)));
           other \<leftarrow> mem_get (\<lambda>h. c_bool h (opt_exists info) \<and>
             c_byte h (SegmentInfo_choice (opt_data info)) = EMSD_SEGMENTINFO_CHOICE_OTHER);
           if other then do {
             sequenceId \<leftarrow> mem_get (\<lambda>h. c_int h (SegmentData_sequenceId (SegmentInfo_segmentData (opt_data info))));
             found \<leftarrow> gets (findOperationBySequenceId sequenceId);
             case found of
               None \<Rightarrow> do { on_mem (BUF_free contents); clean_up Free_deliverArg d }
             | Some p \<Rightarrow> ok (d, Free_deliverArg, contents, Some p)
           }
           else ok (d, Free_deliverArg, contents, None)
         }
     })"

definition preprocessSubmissionVerify :: "ptr \<Rightarrow> nat \<Rightarrow> (ua, ptr \<times> free_fn \<times> ptr \<times> ptr option) rc_op" where
  "preprocessSubmissionVerify hBuf encodingType = do {
     r \<leftarrow> on_mem mtsua_allocSubmissionVerifyArg;
     case r of
       Inl _ \<Rightarrow> FAIL_RC Fail
     | Inr d \<Rightarrow> do {
         pduLength \<leftarrow> mem_get (BUF_getBufferLength hBuf);
         r \<leftarrow> on_mem (parse_struct encodingType MTSUA_Protocol_SubmissionVerifyArg hBuf d pduLength);
         case r of
           Inl _ \<Rightarrow> clean_up Free_submissionVerifyArg d
         | Inr _ \<Rightarrow> ok (d, Free_submissionVerifyArg, NULL, None)
       }
   }"

definition newPerformer :: "free_fn \<Rightarrow> ptr \<Rightarrow> (ua, ptr) rc_op" where
  "newPerformer pfFree d = do {
     r \<leftarrow> ua_allocOperation concurrentOperationsInbound [];
     case r of
       Inl _ \<Rightarrow> clean_up pfFree d
     | Inr p \<Rightarrow> do {
         hFsm \<leftarrow> FSM_createMachine p;
         upd_op p (\<lambda>x. x\<lparr>op_hFsm := hFsm\<rparr>);
         if hFsm = NULL then do { ua_freeOperation p; clean_up pfFree d }
         else do {
           r \<leftarrow> ua_operationAddUserFree p Free_machine hFsm;
           case r of
             Inl e \<Rightarrow> do { _ \<leftarrow> FSM_deleteMachine hFsm; ua_freeOperation p; FAIL_RC e }
           | Inr _ \<Rightarrow> do { ua_loadMachine hFsm ua_performerTransDiag; ok p }
         }
       }
   }"

definition ua_preprocessInvokeIndication ::
  "ptr \<Rightarrow> u32 \<Rightarrow> nat \<Rightarrow> int \<Rightarrow> int \<Rightarrow> nat \<Rightarrow> (ua, ptr) rc_op" where
  "ua_preprocessInvokeIndication hBuf opValue encodingType invokeId hSapDesc sapSel = do {
     let operationValue = EMSD_OP_PROTO opValue 1 1;
     RC_CALL (if operationValue = EMSD_Operation_Delivery_1_1 then preprocessDeliver hBuf encodingType
              else if operationValue = EMSD_Operation_SubmissionVerify_1_1
              then preprocessSubmissionVerify hBuf encodingType
              else FAIL_RC Fail) (\<lambda>(d, pfFree, hExtraBuf, found).
       RC_CALL (case found of None \<Rightarrow> newPerformer pfFree d | Some p \<Rightarrow> ok p) (\<lambda>p. do {
         pPending \<leftarrow> on_mem (OS_alloc 0);
         if pPending = NULL then do { ua_freeOperation p; clean_up pfFree d }
         else do {
           upd_op p (\<lambda>x. x\<lparr>op_pendingQ := op_pendingQ x @ [(pPending,
             \<lparr>pe_operationValue = operationValue, pe_encodingType = encodingType, pe_invokeId = invokeId,
              pe_hSapDesc = hSapDesc, pe_sapSel = sapSel, pe_hOperationData = d\<rparr>)]\<rparr>);
           r \<leftarrow> ua_operationAddUserFree p pfFree d;
           case r of
             Inl e \<Rightarrow> do {
               upd_op p (\<lambda>x. x\<lparr>op_rc := Some e\<rparr>);
               ua_freeOperation p;
               clean_up pfFree d
             }
           | Inr _ \<Rightarrow> do {
               upd_op p (\<lambda>x. x\<lparr>op_rc := None\<rparr>);
               if hExtraBuf = NULL then ok p
               else do {
                 r \<leftarrow> ua_operationAddUserFree p Free_BUF hExtraBuf;
                 case r of
                   Inl e \<Rightarrow> do {
                     upd_op p (\<lambda>x. x\<lparr>op_rc := Some e\<rparr>);
                     clean_up pfFree d
                   }
                 | Inr _ \<Rightarrow> ok p
               }
             }
         }
       }))
   }"

text \<open>
  What the two cases of \<^verbatim>\<open>ua_preprocessResultIndication\<close> and \<^verbatim>\<open>ua_preprocessErrorIndication\<close> share:
  the argument is to be freed with the operation as soon as it is allocated, and freed at once when
  it cannot be parsed.
\<close>

definition preprocessArgument ::
  "ptr \<Rightarrow> ptr \<Rightarrow> (omem, ptr) rc_op \<Rightarrow> free_fn \<Rightarrow> mtsua_protocol \<Rightarrow> (ua, ptr) rc_op" where
  "preprocessArgument p hBuf alloc pfFree protocol = RC_CALL (on_mem alloc) (\<lambda>d. do {
     r \<leftarrow> ua_operationAddUserFree p pfFree d;
     case r of
       Inl _ \<Rightarrow> clean_up pfFree d
     | Inr _ \<Rightarrow> do {
         pduLength \<leftarrow> mem_get (BUF_getBufferLength hBuf);
         x \<leftarrow> get_op p;
         r \<leftarrow> on_mem (parse_struct (op_encodingType x) protocol hBuf d pduLength);
         case r of Inl _ \<Rightarrow> clean_up pfFree d | Inr _ \<Rightarrow> ok d
       }
   })"

definition ua_preprocessResultIndication :: "ptr \<Rightarrow> ptr \<Rightarrow> (ua, unit) rc_op" where
  "ua_preprocessResultIndication p hBuf = do {
     x \<leftarrow> get_op p;
     RC_CALL (if op_operationValue x \<in> {EMSD_Operation_Submission_1_0_WRONG, EMSD_Operation_Submission_1_1}
              then preprocessArgument p hBuf mtsua_allocSubmitRes Free_submitRes MTSUA_Protocol_SubmitResult
              else if op_operationValue x = EMSD_Operation_DeliveryVerify_1_1
              then preprocessArgument p hBuf mtsua_allocDeliveryVerifyRes Free_deliveryVerifyRes
                     MTSUA_Protocol_DeliveryVerifyRes
              else if op_operationValue x = EMSD_Operation_DeliveryControl_1_1 then ok NULL
              else FAIL_RC Fail)
       (\<lambda>d. do { upd_op p (\<lambda>x. x\<lparr>op_hOperationData := d\<rparr>); ok () })
   }"

definition ua_preprocessErrorIndication :: "ptr \<Rightarrow> ptr \<Rightarrow> (ua, unit) rc_op" where
  "ua_preprocessErrorIndication p hBuf =
     RC_CALL (preprocessArgument p hBuf mtsua_allocErrorRequest Free_errorRequest MTSUA_Protocol_ErrorRequest)
       (\<lambda>d. do { upd_op p (\<lambda>x. x\<lparr>op_hOperationData := d\<rparr>); ok () })"

text \<open>The security element of a submission, from the password of the user.\<close>

definition submitSecurity :: "ptr \<Rightarrow> ptr \<Rightarrow> (omem, unit) rc_op" where
  "submitSecurity pPassword arg =
     (if pPassword = NULL then ok ()
      else do {
        let security = SubmitArgument_security (struct_at arg);
        let simple = SecurityElement_simple (opt_data security);
        set_bool (opt_exists security) True;
        set_bool (opt_exists (CredentialsSimple_emsdAddress simple)) False;
        set_bool (opt_exists (CredentialsSimple_password simple)) True;
        assign_at (opt_data (CredentialsSimple_password simple)) pPassword
      })"

definition submitMachine :: "ptr \<Rightarrow> (ua, unit) rc_op" where
  "submitMachine p = do {
     hFsm \<leftarrow> FSM_createMachine p;
     upd_op p (\<lambda>x. x\<lparr>op_hFsm := hFsm\<rparr>);
     if hFsm = NULL then FAIL_RC ResourceError
     else do {
       r \<leftarrow> ua_operationAddUserFree p Free_machine hFsm;
       case r of
         Inl e \<Rightarrow> do { _ \<leftarrow> FSM_deleteMachine hFsm; FAIL_RC e }
       | Inr _ \<Rightarrow> do { ua_loadMachine hFsm ua_submitTransDiag; ok () }
     }
   }"

text \<open>A block that is to be freed with the operation, or else at once.\<close>

definition addUserFree_or_free :: "ptr \<Rightarrow> free_fn \<Rightarrow> ptr \<Rightarrow> (ua, unit) rc_op" where
  "addUserFree_or_free p pfFree u = do {
     r \<leftarrow> ua_operationAddUserFree p pfFree u;
     case r of Inl e \<Rightarrow> do { call_free pfFree u; FAIL_RC e } | Inr _ \<Rightarrow> ok ()
   }"

definition ua_preprocessSubmitRequest :: "ptr \<Rightarrow> ptr uash_heading \<Rightarrow> ptr \<Rightarrow> (ua, unit) rc_op" where
  "ua_preprocessSubmitRequest p heading pBodyText =
     RC_CALL (on_mem (ua_messageFromShell heading pBodyText)) (\<lambda>pIpm.
     RC_CALL (addUserFree_or_free p Free_message pIpm) (\<lambda>_.
     RC_CALL (on_mem (BUF_alloc 0)) (\<lambda>b. do {
     upd_op p (\<lambda>x. x\<lparr>op_hFullPduBuf := b\<rparr>);
     RC_CALL (addUserFree_or_free p Free_BUF b) (\<lambda>_.
     RC_CALL (on_mem (format_struct MTSUA_Protocol_Ipm b pIpm)) (\<lambda>_.
     RC_CALL (on_mem mtsua_allocSubmitArg) (\<lambda>arg.
     RC_CALL (addUserFree_or_free p Free_submitArg arg) (\<lambda>_. do {
     on_mem (set_int (SubmitArgument_contentType (struct_at arg)) EMSD_ContentType_Ipm95);
     on_mem (set_buf (SubmitArgument_hContents (struct_at arg)) pIpm);
     pPassword \<leftarrow> gets (\<lambda>s. g_pPassword (u_cfg s));
     RC_CALL (on_mem (submitSecurity pPassword arg)) (\<lambda>_. do {
     upd_op p (\<lambda>x. x\<lparr>op_hFirstOperationData := arg\<rparr>);
     submitMachine p
     })}))))})))"

end
