(* ===== verification/Ua_Submit.thy ===== *)
theory Ua_Submit
  imports Ua_Pre
begin

text \<open>
  The submission of a message, \<^verbatim>\<open>uacore/submit.c\<close>: its machine has two states. The message is sent
  in one request, or in segments of which each but the first waits for the result of the one before.
  The queues of the identifiers of submitted messages are in non-volatile memory; their operations
  are those of \<^verbatim>\<open>base.ocp/sbm_/hosted/sbm.c\<close>, for one transaction.
\<close>

section \<open>Queues in non-volatile memory\<close>

definition verify_quInit :: "ptr \<Rightarrow> qu_heap \<Rightarrow> qu_heap" where
  "verify_quInit p h = h\<lparr>pNext := (pNext h)(p := p), pPrev := (pPrev h)(p := p)\<rparr>"

definition verify_quInsert :: "ptr \<Rightarrow> ptr \<Rightarrow> qu_heap \<Rightarrow> qu_heap" where
  "verify_quInsert insertMe beforeMe h =
     (let h1 = h\<lparr>pNext := (pNext h)(pPrev h beforeMe := insertMe)\<rparr>;
          temp = pPrev h1 insertMe;
          h2 = h1\<lparr>pNext := (pNext h1)(temp := beforeMe)\<rparr>;
          h3 = h2\<lparr>pPrev := (pPrev h2)(insertMe := pPrev h2 beforeMe)\<rparr>
      in h3\<lparr>pPrev := (pPrev h3)(beforeMe := temp)\<rparr>)"

definition verify_quRemove :: "ptr \<Rightarrow> qu_heap \<Rightarrow> qu_heap" where
  "verify_quRemove p h =
     (let h1 = h\<lparr>pPrev := (pPrev h)(pNext h p := pPrev h p)\<rparr>;
          h2 = h1\<lparr>pNext := (pNext h1)(pPrev h1 p := pNext h1 p)\<rparr>
      in h2\<lparr>pNext := (pNext h2)(p := p), pPrev := (pPrev h2)(p := p)\<rparr>)"

definition verify_quNext :: "ptr \<Rightarrow> qu_heap \<Rightarrow> ptr" where
  "verify_quNext p h = pNext h p"

definition verify_upd :: "(qu_heap \<Rightarrow> qu_heap) \<Rightarrow> unit uprog" where
  "verify_upd f = ua_upd (\<lambda>s. s\<lparr>u_verify := f (u_verify s)\<rparr>)"


section \<open>Predicates\<close>

definition submit_pS2S1a :: "ptr \<Rightarrow> ptr \<Rightarrow> int \<Rightarrow> bool uprog" where
  "submit_pS2S1a hMachine p eventId = do { x \<leftarrow> get_op p; return (op_bComplete x) }"

text \<open>Without an argument the error counts as transient.\<close>

definition submit_pS2S1b :: "ptr \<Rightarrow> ptr \<Rightarrow> int \<Rightarrow> bool uprog" where
  "submit_pS2S1b hMachine p eventId = do {
     x \<leftarrow> get_op p;
     e \<leftarrow> mem_get (\<lambda>h. c_int h (ErrorRequest_error (struct_at (op_hOperationData x))));
     return (op_hOperationData x = NULL \<or> e = EMSD_Error_ResourceError)
   }"

definition submit_pS2S1d :: "ptr \<Rightarrow> ptr \<Rightarrow> int \<Rightarrow> bool uprog" where
  "submit_pS2S1d hMachine p eventId = do {
     upd_op p (\<lambda>x. x\<lparr>op_retryCount := op_retryCount x + 1\<rparr>);
     x \<leftarrow> get_op p;
     return (\<not> op_retryCount x \<le> UA_MAX_FAILURE_RETRIES)
   }"


section \<open>Actions\<close>

definition submit_formatAndInvoke :: "ptr \<Rightarrow> ptr \<Rightarrow> ptr \<Rightarrow> (ua, unit) rc_op" where
  "submit_formatAndInvoke p arg hContents =
     RC_CALL (on_mem (BUF_alloc 0)) (\<lambda>b. do {
     upd_op p (\<lambda>x. x\<lparr>op_hCurrentBuf := b\<rparr>);
     RC_CALL (addUserFree_or_free p Free_BUF b) (\<lambda>_. do {
     on_mem (set_buf (SubmitArgument_hContents (struct_at arg)) hContents);
     RC_CALL (on_mem (format_struct MTSUA_Protocol_SubmitArg b arg)) (\<lambda>_.
     ua_issueInvoke p b)
     })})"

definition failure_event :: "ptr \<Rightarrow> unit uprog" where
  "failure_event hMachine = do {
     _ \<leftarrow> FSM_generateEvent hMachine UA_FsmEvent_FailureIndication;
     skip
   }"

text \<open>The segment information of a submit argument.\<close>

definition set_segmentInfo :: "ptr \<Rightarrow> u32 \<Rightarrow> u8 \<Rightarrow> u32 \<Rightarrow> (omem, unit) state" where
  "set_segmentInfo arg sequenceId choice n = do {
     let info = SubmitArgument_segmentInfo (struct_at arg);
     let data = SegmentInfo_segmentData (opt_data info);
     set_bool (opt_exists info) True;
     set_int (SegmentData_sequenceId data) sequenceId;
     set_byte (SegmentInfo_choice (opt_data info)) choice;
     set_int (SegmentData_data data) n
   }"

definition segment_length :: u32 where
  "segment_length = MTSUA_MAX_IPM_LEN_CONNECTIONLESS - MTSUA_MAX_FORMATTED_DELIVER_ARG_LEN"

definition num_segments :: "u32 \<Rightarrow> u32" where
  "num_segments len = len div segment_length + (if len mod segment_length \<noteq> 0 then 1 else 0)"

definition submit_aS1S2a :: "ptr \<Rightarrow> ptr \<Rightarrow> int \<Rightarrow> int uprog" where
  "submit_aS1S2a hMachine p eventId = do {
     hInvoker \<leftarrow> gets (\<lambda>s. g_hInvoker3Way (u_cfg s));
     upd_op p (\<lambda>x. x\<lparr>op_sapSel := MTSUA_Rsap_Mts_Performer_3Way, op_hSapDesc := hInvoker,
       op_operationValue := EMSD_Operation_Submission_1_1\<rparr>);
     x \<leftarrow> get_op p;
     let arg = op_hFirstOperationData x;
     len \<leftarrow> mem_get (BUF_getBufferLength (op_hFullPduBuf x));
     if len + MTSUA_MAX_FORMATTED_DELIVER_ARG_LEN > MTSUA_MAX_IPM_LEN_CONNECTIONLESS then do {
       on_mem (BUF_resetParse (op_hFullPduBuf x));
       ua_upd (\<lambda>s. s\<lparr>u_sequence := u_sequence s + 1\<rparr>);
       sequenceId \<leftarrow> gets u_sequence;
       upd_op p (\<lambda>x. x\<lparr>op_sequenceId := sequenceId, op_segmentLength := segment_length,
         op_lastSegmentNumber := num_segments len - 1, op_nextSegmentNumber := 1\<rparr>);
       on_mem (set_segmentInfo arg sequenceId EMSD_SEGMENTINFO_CHOICE_FIRST (num_segments len));
       r \<leftarrow> on_mem (BUF_cloneBufferPortion (op_hFullPduBuf x) segment_length True);
       case r of
         Inl _ \<Rightarrow> do { failure_event hMachine; return 0 }
       | Inr hSegmentContents \<Rightarrow> do {
           r \<leftarrow> submit_formatAndInvoke p arg hSegmentContents;
           case r of
             Inl _ \<Rightarrow> do { failure_event hMachine; return 0 }
           | Inr _ \<Rightarrow> do { on_mem (BUF_free hSegmentContents); return 0 }
         }
     }
     else do {
       upd_op p (\<lambda>x. x\<lparr>op_lastSegmentNumber := 0, op_nextSegmentNumber := 1\<rparr>);
       r \<leftarrow> submit_formatAndInvoke p arg (op_hFullPduBuf x);
       case r of
         Inl _ \<Rightarrow> do { failure_event hMachine; return 0 }
       | Inr _ \<Rightarrow> do { upd_op p (\<lambda>x. x\<lparr>op_bComplete := True\<rparr>); return 0 }
     }
   }"

text \<open>
  A free element for the identifier: the first of the inactive queue, from which it is not removed,
  or else the first of the active queue, which is.
\<close>

definition verify_element :: "ptr uprog" where
  "verify_element = do {
     cfg \<leftarrow> gets u_cfg;
     elem \<leftarrow> gets (\<lambda>s. verify_quNext (g_hInactive cfg) (u_verify s));
     if elem = g_hInactive cfg then do {
       elem \<leftarrow> gets (\<lambda>s. verify_quNext (g_hActive cfg) (u_verify s));
       verify_upd (verify_quRemove elem);
       return elem
     }
     else return elem
   }"

definition submit_aS2S1a :: "ptr \<Rightarrow> ptr \<Rightarrow> int \<Rightarrow> int uprog" where
  "submit_aS2S1a hMachine p eventId = do {
     x \<leftarrow> get_op p;
     msgId \<leftarrow> mem_get (ua_messageIdEmsdLocalToRfc822
       (SubmitResult_localMessageId (struct_at (op_hOperationData x))));
     elem \<leftarrow> verify_element;
     ua_upd (\<lambda>s. s\<lparr>u_verifyId := (u_verifyId s)(elem := msgId)\<rparr>);
     cfg \<leftarrow> gets u_cfg;
     verify_upd (verify_quInsert elem (g_hActive cfg));
     upcall (SubmitSuccess p msgId (op_pHackData x));
     ua_freeOperation p;
     return 0
   }"

definition submit_fail :: "ptr \<Rightarrow> bool \<Rightarrow> int uprog" where
  "submit_fail p bTransient = do {
     x \<leftarrow> get_op p;
     upcall (SubmitFail p bTransient (op_pHackData x));
     ua_freeOperation p;
     return 0
   }"

definition submit_aS2S1b :: "ptr \<Rightarrow> ptr \<Rightarrow> int \<Rightarrow> int uprog" where
  "submit_aS2S1b hMachine p eventId = submit_fail p True"

definition submit_aS2S1c :: "ptr \<Rightarrow> ptr \<Rightarrow> int \<Rightarrow> int uprog" where
  "submit_aS2S1c hMachine p eventId = submit_fail p False"

definition submit_aS2S1d :: "ptr \<Rightarrow> ptr \<Rightarrow> int \<Rightarrow> int uprog" where
  "submit_aS2S1d hMachine p eventId = submit_fail p True"

text \<open>
  When the segment cannot be cloned the code goes on with a pointer that was never set; the model
  records that and stops there.
\<close>

definition submit_aS2S2a :: "ptr \<Rightarrow> ptr \<Rightarrow> int \<Rightarrow> int uprog" where
  "submit_aS2S2a hMachine p eventId = do {
     x \<leftarrow> get_op p;
     let arg = op_hFirstOperationData x;
     on_mem (set_segmentInfo arg (op_sequenceId x) EMSD_SEGMENTINFO_CHOICE_OTHER (op_nextSegmentNumber x));
     upd_op p (\<lambda>x. x\<lparr>op_nextSegmentNumber := op_nextSegmentNumber x + 1\<rparr>);
     r \<leftarrow> on_mem (BUF_cloneBufferPortion (op_hFullPduBuf x) (op_segmentLength x) True);
     case r of
       Inl _ \<Rightarrow> do {
         failure_event hMachine;
         ua_upd (\<lambda>s. s\<lparr>u_undefined := True\<rparr>);
         return 0
       }
     | Inr hSegmentContents \<Rightarrow> do {
         r \<leftarrow> submit_formatAndInvoke p arg hSegmentContents;
         (case r of Inl _ \<Rightarrow> failure_event hMachine | Inr _ \<Rightarrow> skip);
         y \<leftarrow> get_op p;
         (if op_nextSegmentNumber y > op_lastSegmentNumber y
          then upd_op p (\<lambda>x. x\<lparr>op_bComplete := True\<rparr>) else skip);
         on_mem (BUF_free hSegmentContents);
         return 0
       }
   }"

definition submit_aS2S2b :: "ptr \<Rightarrow> ptr \<Rightarrow> int \<Rightarrow> int uprog" where
  "submit_aS2S2b hMachine p eventId = do {
     x \<leftarrow> get_op p;
     r \<leftarrow> ua_issueInvoke p (op_hCurrentBuf x);
     case r of
       Inl _ \<Rightarrow> do { failure_event hMachine; return 0 }
     | Inr _ \<Rightarrow> return 0
   }"

definition submit_aUnexpectedEvent :: "ptr \<Rightarrow> ptr \<Rightarrow> int \<Rightarrow> int uprog" where
  "submit_aUnexpectedEvent hMachine p eventId = do { ua_freeOperation p; return 0 }"


section \<open>Diagram\<close>

definition ua_row ::
  "int \<Rightarrow> (ptr \<Rightarrow> ptr \<Rightarrow> int \<Rightarrow> bool uprog) option \<Rightarrow> (ptr \<Rightarrow> ptr \<Rightarrow> int \<Rightarrow> int uprog) \<Rightarrow> ua_state \<Rightarrow>
   string \<Rightarrow> (ua_state, ua) fsm_trans" where
  "ua_row e p a q n = \<lparr>t_evtId = e, t_predicate = map_option with_user p, t_action = Some (with_user a),
     t_nextState = Some q, t_name = n\<rparr>"

definition submit_t1Idle :: "(ua_state, ua) fsm_trans list" where
  "submit_t1Idle = [
     ua_row UA_FsmEvent_MessageSubmitRequest None submit_aS1S2a submit_s2InvokeResponseWait
       ''s1s2a (Message Submit request)'',
     ua_row FSM_EvtDefault None submit_aUnexpectedEvent submit_s1Idle
       ''Unexpected Event (default catch-all)'']"

definition submit_t2InvokeResponseWait :: "(ua_state, ua) fsm_trans list" where
  "submit_t2InvokeResponseWait = [
     ua_row UA_FsmEvent_ResultIndication (Some submit_pS2S1a) submit_aS2S1a submit_s1Idle
       ''s2s1a (RESULT.ind, last segment)'',
     ua_row UA_FsmEvent_ResultIndication None submit_aS2S2a submit_s2InvokeResponseWait
       ''s2s2a (Result.ind, more segments)'',
     ua_row UA_FsmEvent_ErrorIndication (Some submit_pS2S1b) submit_aS2S1b submit_s1Idle
       ''s2s1b (ERROR.ind, errorType=Transient)'',
     ua_row UA_FsmEvent_ErrorIndication None submit_aS2S1c submit_s1Idle
       ''s2s1c (ERROR.ind, errorType=Permanent)'',
     ua_row UA_FsmEvent_FailureIndication (Some submit_pS2S1d) submit_aS2S1d submit_s1Idle
       ''s2s1d (FAILURE.ind, max retries reached)'',
     ua_row UA_FsmEvent_FailureIndication None submit_aS2S2b submit_s2InvokeResponseWait
       ''s2s2b (FAILURE.ind, max retries not reached)'',
     ua_row FSM_EvtDefault None submit_aUnexpectedEvent submit_s1Idle
       ''Unexpected Event (default catch-all)'']"

end
