(* ===== verification/Ua_Perform.thy ===== *)
theory Ua_Perform
  imports Ua_Submit "HOL-Library.While_Combinator"
begin

text \<open>
  The performing of deliveries, \<^verbatim>\<open>uacore/uperform.c\<close>: the reassembly of segments, which the
  predicate of the first row of the diagram does, and the delivery to the shell; the answer to a
  submission verify; and the diagram, of five states.
\<close>

section \<open>Reassembly\<close>

text \<open>
  \<^verbatim>\<open>pS1S2a\<close> in parts. \<open>take_pending\<close> is its beginning: the first pending request is removed and
  copied into the operation.
\<close>

definition take_pending :: "ptr \<Rightarrow> ptr option uprog" where
  "take_pending p = do {
     x \<leftarrow> get_op p;
     case op_pendingQ x of
       [] \<Rightarrow> return None
     | (block, r) # rs \<Rightarrow> do {
         upd_op p (\<lambda>x. x\<lparr>op_pendingQ := rs, op_operationValue := pe_operationValue r,
           op_encodingType := pe_encodingType r, op_invokeId := pe_invokeId r,
           op_hSapDesc := pe_hSapDesc r, op_sapSel := pe_sapSel r,
           op_hOperationData := pe_hOperationData r\<rparr>);
         free_block block;
         return (if pe_operationValue r = EMSD_Operation_Delivery_1_1 then Some (pe_hOperationData r) else None)
       }
   }"

definition set_rc :: "ptr \<Rightarrow> (ua, 'a) rc_op \<Rightarrow> (ua, 'a) rc_op" where
  "set_rc p m = do {
     r \<leftarrow> m;
     upd_op p (\<lambda>x. x\<lparr>op_rc := (case r of Inl e \<Rightarrow> Some e | Inr _ \<Rightarrow> None)\<rparr>);
     return r
   }"

text \<open>The copy of the contents of a segment, kept in the operation and freed with it.\<close>

definition keep_segment :: "ptr \<Rightarrow> ptr \<Rightarrow> nat \<Rightarrow> (ua, unit) rc_op" where
  "keep_segment p d i =
     RC_CALL (set_rc p (do {
       contents \<leftarrow> mem_get (\<lambda>h. c_buf h (DeliverArgument_hContents (struct_at d)));
       on_mem (BUF_copy contents)
     })) (\<lambda>b. do {
       upd_op p (\<lambda>x. x\<lparr>op_hSegmentBuf := (op_hSegmentBuf x)(i := b)\<rparr>);
       r \<leftarrow> set_rc p (ua_operationAddUserFree p Free_BUF b);
       case r of
         Inl e \<Rightarrow> do { call_free Free_BUF b; FAIL_RC e }
       | Inr _ \<Rightarrow> ok ()
     })"

definition start_segmentationTimer :: "ptr \<Rightarrow> (ua, unit) rc_op" where
  "start_segmentationTimer p = do {
     os \<leftarrow> ask env_clock;
     if os = None then FAIL_RC Fail
     else do {
       block \<leftarrow> on_mem (OS_alloc 0);
       timers \<leftarrow> gets u_timers;
       case TMR_start os block (UA_SEGMENTATION_TIMER * 1000) p timers of
         None \<Rightarrow> FAIL_RC ResourceError
       | Some (hTimer, timers') \<Rightarrow> do {
           ua_upd (\<lambda>s. s\<lparr>u_timers := timers'\<rparr>);
           upd_op p (\<lambda>x. x\<lparr>op_hSegmentationTimer := hTimer\<rparr>);
           ok ()
         }
     }
   }"

definition stop_segmentationTimer :: "ptr \<Rightarrow> unit uprog" where
  "stop_segmentationTimer p = do {
     x \<leftarrow> get_op p;
     ua_upd (\<lambda>s. s\<lparr>u_timers := TMR_stop (op_hSegmentationTimer x) (u_timers s)\<rparr>);
     free_block (op_hSegmentationTimer x);
     upd_op p (\<lambda>x. x\<lparr>op_hSegmentationTimer := NULL\<rparr>)
   }"

text \<open>
  The result is the deliver argument from there on, or \<^term>\<open>None\<close> where the code returns
  \<^verbatim>\<open>FALSE\<close>. With 32 segments the code shifts by 32, to which C gives no meaning.
\<close>

definition firstSegment :: "ptr \<Rightarrow> ptr \<Rightarrow> u32 \<Rightarrow> u32 \<Rightarrow> ptr option uprog" where
  "firstSegment p d sequenceId numSegments = do {
     let lastSegment = numSegments - 1;
     upd_op p (\<lambda>x. x\<lparr>op_lastSegmentNumber := lastSegment\<rparr>);
     if lastSegment > 31 then return None
     else do {
       upd_op p (\<lambda>x. x\<lparr>op_sequenceId := sequenceId, op_hFirstOperationData := d\<rparr>);
       r \<leftarrow> keep_segment p d 0;
       case r of
         Inl _ \<Rightarrow> return None
       | Inr _ \<Rightarrow> do {
           (if lastSegment = 31 then ua_upd (\<lambda>s. s\<lparr>u_undefined := True\<rparr>) else skip);
           upd_op p (\<lambda>x. x\<lparr>op_expectedSegmentMask := push_bit (unat lastSegment + 1) 1 - 1,
             op_receivedSegmentMask := 1\<rparr>);
           r \<leftarrow> set_rc p (start_segmentationTimer p);
           case r of
             Inl _ \<Rightarrow> do {
               x \<leftarrow> get_op p;
               call_free Free_BUF (op_hSegmentBuf x 0);
               return None
             }
           | Inr _ \<Rightarrow> return (Some d)
         }
     }
   }"

primrec appendSegments :: "ptr \<Rightarrow> nat list \<Rightarrow> ptr \<Rightarrow> (ua, unit) rc_op" where
  "appendSegments p [] full = ok ()"
| "appendSegments p (i # is) full = do {
     x \<leftarrow> get_op p;
     RC_CALL (set_rc p (on_mem (BUF_appendBuffer full (op_hSegmentBuf x i)))) (\<lambda>_.
       appendSegments p is full)
   }"

definition allSegments :: "ptr \<Rightarrow> ptr option uprog" where
  "allSegments p = do {
     x \<leftarrow> get_op p;
     let full = op_hSegmentBuf x 0;
     upd_op p (\<lambda>x. x\<lparr>op_hFullPduBuf := full\<rparr>);
     r \<leftarrow> appendSegments p [1..<Suc (unat (op_lastSegmentNumber x))] full;
     case r of
       Inl _ \<Rightarrow> return None
     | Inr _ \<Rightarrow> do {
         let d = op_hFirstOperationData x;
         on_mem (set_buf (DeliverArgument_hContents (struct_at d)) full);
         upd_op p (\<lambda>x. x\<lparr>op_hFullPduBuf := NULL\<rparr>);
         on_mem (BUF_resetParse full);
         stop_segmentationTimer p;
         upd_op p (\<lambda>x. x\<lparr>op_bComplete := True\<rparr>);
         return (Some d)
       }
   }"

definition otherSegment :: "ptr \<Rightarrow> ptr \<Rightarrow> u32 \<Rightarrow> ptr option uprog" where
  "otherSegment p d thisSeg = do {
     x \<leftarrow> get_op p;
     let bit = (push_bit (unat thisSeg) 1 :: u32);
     if thisSeg > 31 \<or> bit > op_expectedSegmentMask x then return None
     else if op_receivedSegmentMask x AND bit \<noteq> 0 then return None
     else do {
       r \<leftarrow> keep_segment p d (unat thisSeg);
       case r of
         Inl _ \<Rightarrow> return None
       | Inr _ \<Rightarrow> do {
           upd_op p (\<lambda>x. x\<lparr>op_receivedSegmentMask := op_receivedSegmentMask x OR bit\<rparr>);
           y \<leftarrow> get_op p;
           if op_expectedSegmentMask y = op_receivedSegmentMask y then allSegments p
           else return (Some d)
         }
     }
   }"

definition reassemble :: "ptr \<Rightarrow> ptr \<Rightarrow> ptr option uprog" where
  "reassemble p d = do {
     let info = DeliverArgument_segmentInfo (struct_at d);
     let data = SegmentInfo_segmentData (opt_data info);
     segmented \<leftarrow> mem_get (\<lambda>h. c_bool h (opt_exists info));
     choice \<leftarrow> mem_get (\<lambda>h. c_byte h (SegmentInfo_choice (opt_data info)));
     sequenceId \<leftarrow> mem_get (\<lambda>h. c_int h (SegmentData_sequenceId data));
     n \<leftarrow> mem_get (\<lambda>h. c_int h (SegmentData_data data));
     if \<not> segmented \<or> choice = EMSD_SEGMENTINFO_CHOICE_FIRST \<and> n = 1 then do {
       upd_op p (\<lambda>x. x\<lparr>op_bComplete := True\<rparr>);
       return (Some d)
     }
     else if choice = EMSD_SEGMENTINFO_CHOICE_FIRST then firstSegment p d sequenceId n
     else otherSegment p d n
   }"

text \<open>The last part: the contents are parsed and the message is given to the shell.\<close>

definition deliver :: "ptr \<Rightarrow> ptr \<Rightarrow> bool uprog" where
  "deliver p d = do {
     contentType \<leftarrow> mem_get (\<lambda>h. c_int h (DeliverArgument_contentType (struct_at d)));
     if contentType \<noteq> EMSD_ContentType_Ipm95 then do {
       upd_op p (\<lambda>x. x\<lparr>op_rc := Some UnsupportedOption\<rparr>);
       return False
     }
     else do {
       r \<leftarrow> RC_CALL (set_rc p (on_mem mtsua_allocMessage)) (\<lambda>pIpm.
         RC_CALL (set_rc p (addUserFree_or_free p Free_message pIpm)) (\<lambda>_. do {
           contents \<leftarrow> mem_get (\<lambda>h. c_buf h (DeliverArgument_hContents (struct_at d)));
           pduLength \<leftarrow> mem_get (BUF_getBufferLength contents);
           RC_CALL (set_rc p (on_mem (parse_struct 0 MTSUA_Protocol_Ipm contents pIpm pduLength))) (\<lambda>_.
             set_rc p (ua_messageToShell d pIpm p))
         }));
       return (case r of Inl _ \<Rightarrow> False | Inr _ \<Rightarrow> True)
     }
   }"


section \<open>Predicates\<close>

definition perform_pS1S2a :: "ptr \<Rightarrow> ptr \<Rightarrow> int \<Rightarrow> bool uprog" where
  "perform_pS1S2a hMachine p eventId = do {
     taken \<leftarrow> take_pending p;
     case taken of
       None \<Rightarrow> return False
     | Some d \<Rightarrow> do {
         r \<leftarrow> reassemble p d;
         case r of
           None \<Rightarrow> return False
         | Some d' \<Rightarrow> do {
             x \<leftarrow> get_op p;
             if op_bComplete x then deliver p d' else return True
           }
       }
   }"

definition perform_pS1S5a :: "ptr \<Rightarrow> ptr \<Rightarrow> int \<Rightarrow> bool uprog" where
  "perform_pS1S5a hMachine p eventId = do {
     x \<leftarrow> get_op p;
     return (op_operationValue x = EMSD_Operation_SubmissionVerify_1_1)
   }"

definition perform_pS1S5b :: "ptr \<Rightarrow> ptr \<Rightarrow> int \<Rightarrow> bool uprog" where
  "perform_pS1S5b hMachine p eventId = do {
     x \<leftarrow> get_op p;
     return (op_operationValue x = EMSD_Operation_SubmissionControl_1_1)
   }"

definition perform_pS2S1a :: "ptr \<Rightarrow> ptr \<Rightarrow> int \<Rightarrow> bool uprog" where
  "perform_pS2S1a hMachine p eventId = do { x \<leftarrow> get_op p; return (op_bComplete x) }"

definition perform_pS2S1d :: "ptr \<Rightarrow> ptr \<Rightarrow> int \<Rightarrow> bool uprog" where
  "perform_pS2S1d hMachine p eventId = do {
     x \<leftarrow> get_op p;
     cfg \<leftarrow> gets u_cfg;
     return (\<not> (op_bComplete x \<and> op_hSapDesc x \<noteq> g_hPerformer2Way cfg \<and> g_bDeliveryVerifySupported cfg))
   }"

definition perform_pS2S1e :: "ptr \<Rightarrow> ptr \<Rightarrow> int \<Rightarrow> bool uprog" where
  "perform_pS2S1e hMachine p eventId = do {
     x \<leftarrow> get_op p;
     cfg \<leftarrow> gets u_cfg;
     return (\<not> (op_bComplete x \<or> op_hSapDesc x \<noteq> g_hPerformer2Way cfg \<and> g_bDeliveryVerifySupported cfg))
   }"

definition perform_pS2S2a :: "ptr \<Rightarrow> ptr \<Rightarrow> int \<Rightarrow> bool uprog" where
  "perform_pS2S2a hMachine p eventId = return True"


section \<open>Actions\<close>

definition result_request :: "int \<Rightarrow> du_arg \<Rightarrow> bool uprog" where
  "result_request invokeId view = do {
     good \<leftarrow> ask env_request;
     add_request (RESULT_req invokeId view);
     return good
   }"

text \<open>\<open>nonePassword\<close> is the string \<^verbatim>\<open>None\<close>.\<close>

definition nonePassword :: octets where
  "nonePassword = [78, 111, 110, 101]"

definition perform_aS1S2a :: "ptr \<Rightarrow> ptr \<Rightarrow> int \<Rightarrow> int uprog" where
  "perform_aS1S2a hMachine p eventId = do {
     x \<leftarrow> get_op p;
     pPassword \<leftarrow> gets (\<lambda>s. g_pPassword (u_cfg s));
     wanted \<leftarrow> mem_get (cstring pPassword);
     (if pPassword \<noteq> NULL \<and> wanted \<noteq> nonePassword then do {
        let password = CredentialsSimple_password (SecurityElement_simple
          (opt_data (DeliverArgument_security (struct_at (op_hOperationData x)))));
        present \<leftarrow> mem_get (\<lambda>h. c_bool h (opt_exists password));
        (if present then skip
         else upd_op p (\<lambda>x. x\<lparr>op_rc := Some UA_RC_SecurityViolation\<rparr>));
        given \<leftarrow> mem_get (\<lambda>h. c_str h (opt_data password));
        (if given \<noteq> NULL then do {
           same \<leftarrow> mem_get (\<lambda>h. cstring (s_p (strs h given)) h = wanted);
           if same then skip
           else upd_op p (\<lambda>x. x\<lparr>op_rc := Some UA_RC_SecurityViolation\<rparr>)
         } else skip)
      } else skip);
     good \<leftarrow> result_request (op_invokeId x) NoView;
     (if good then skip else failure_event hMachine);
     upd_op p (\<lambda>x. x\<lparr>op_unacknowledgedInvokeId := op_invokeId x\<rparr>);
     return 0
   }"

definition perform_aS1S4a :: "ptr \<Rightarrow> ptr \<Rightarrow> int \<Rightarrow> int uprog" where
  "perform_aS1S4a hMachine p eventId = do {
     x \<leftarrow> get_op p;
     ua_issueErrorRequest (op_invokeId x)
       (if op_rc x = Some ResourceError then EMSD_Error_ResourceError
        else if op_rc x = Some UA_RC_SecurityViolation then EMSD_Error_SecurityError
        else EMSD_Error_ProtocolViolation);
     return 0
   }"

text \<open>
  The search for the identifier from the first element of the active queue until its head: a loop
  that does not end in a ring without that head, in which case the process stays there.
\<close>

definition verify_search :: "octets \<Rightarrow> ua \<Rightarrow> ptr option" where
  "verify_search msgId s =
     while_option (\<lambda>e. e \<noteq> g_hActive (u_cfg s) \<and> \<not> OS_strcasecmp_eq msgId (u_verifyId s e))
       (\<lambda>e. verify_quNext e (u_verify s)) (verify_quNext (g_hActive (u_cfg s)) (u_verify s))"

definition verify_messageId :: "nat \<Rightarrow> omem \<Rightarrow> octets" where
  "verify_messageId a h =
     (if c_byte h (MessageId_choice a) = EMSD_MESSAGEID_CHOICE_LOCAL
      then ua_messageIdEmsdLocalToRfc822 (MessageId_local a) h
      else cstring (s_p (strs h (c_str h (MessageId_rfc822 a)))) h)"

text \<open>
  The buffer itself is passed as the data unit of the result. Without a buffer the code goes on with
  a pointer that was never set.
\<close>

definition perform_aS1S5a :: "ptr \<Rightarrow> ptr \<Rightarrow> int \<Rightarrow> int uprog" where
  "perform_aS1S5a hMachine p eventId = do {
     x \<leftarrow> get_op p;
     msgId \<leftarrow> mem_get (verify_messageId
       (SubmissionVerifyArgument_messageId (struct_at (op_hOperationData x))));
     found \<leftarrow> gets (verify_search msgId);
     active \<leftarrow> gets (\<lambda>s. g_hActive (u_cfg s));
     case found of
       None \<Rightarrow> do { EH_fatal; return 0 }
     | Some elem \<Rightarrow> do {
         res \<leftarrow> on_mem stack_block;
         on_mem (set_int (SubmissionVerifyResult_submissionStatus (struct_at res))
           (if elem \<noteq> active then 1 else 2));
         r \<leftarrow> on_mem (BUF_alloc 0);
         case r of
           Inl _ \<Rightarrow> do {
             failure_event hMachine;
             ua_upd (\<lambda>s. s\<lparr>u_undefined := True\<rparr>);
             return 0
           }
         | Inr hBuf \<Rightarrow> do {
             r \<leftarrow> ua_operationAddUserFree p Free_BUF hBuf;
             (case r of
                Inl _ \<Rightarrow> do { call_free Free_BUF (op_hCurrentBuf x); failure_event hMachine }
              | Inr _ \<Rightarrow> skip);
             r \<leftarrow> on_mem (format_struct MTSUA_Protocol_SubmissionVerifyRes hBuf res);
             (case r of Inl _ \<Rightarrow> failure_event hMachine | Inr _ \<Rightarrow> skip);
             good \<leftarrow> result_request (op_invokeId x) (BufHandle hBuf);
             (if good then skip else failure_event hMachine);
             return 0
           }
       }
   }"

definition perform_aS1S5b :: "ptr \<Rightarrow> ptr \<Rightarrow> int \<Rightarrow> int uprog" where
  "perform_aS1S5b hMachine p eventId = return 0"

definition perform_status :: "ptr \<Rightarrow> uash_deliverStatus \<Rightarrow> int uprog" where
  "perform_status p status = do {
     x \<leftarrow> get_op p;
     upcall (ModifyDeliverStatus (op_messageId x) status);
     ua_freeOperation p;
     return 0
   }"

definition perform_aS2S1a :: "ptr \<Rightarrow> ptr \<Rightarrow> int \<Rightarrow> int uprog" where
  "perform_aS2S1a hMachine p eventId = perform_status p UASH_DeliverStatus_Acknowledged"

definition perform_aS2S1b :: "ptr \<Rightarrow> ptr \<Rightarrow> int \<Rightarrow> int uprog" where
  "perform_aS2S1b hMachine p eventId = do {
     x \<leftarrow> get_op p;
     (if op_pendingQ x \<noteq> [] then do {
        _ \<leftarrow> FSM_generateEvent (op_hFsm x) UA_FsmEvent_InvokeIndication;
        skip
      } else skip);
     return 0
   }"

definition perform_aS2S1c :: "ptr \<Rightarrow> ptr \<Rightarrow> int \<Rightarrow> int uprog" where
  "perform_aS2S1c hMachine p eventId = do { ua_freeOperation p; return 0 }"

definition perform_aS2S1d :: "ptr \<Rightarrow> ptr \<Rightarrow> int \<Rightarrow> int uprog" where
  "perform_aS2S1d hMachine p eventId = do {
     x \<leftarrow> get_op p;
     (if op_hSegmentationTimer x = NULL then ua_freeOperation p else skip);
     return 0
   }"

definition perform_aS2S1e :: "ptr \<Rightarrow> ptr \<Rightarrow> int \<Rightarrow> int uprog" where
  "perform_aS2S1e hMachine p eventId = do { ua_freeOperation p; return 0 }"

definition perform_aS2S2a :: "ptr \<Rightarrow> ptr \<Rightarrow> int \<Rightarrow> int uprog" where
  "perform_aS2S2a hMachine p eventId = return 0"

definition perform_formatAndInvoke :: "ptr \<Rightarrow> ptr \<Rightarrow> (ua, unit) rc_op" where
  "perform_formatAndInvoke p arg =
     RC_CALL (on_mem (BUF_alloc 0)) (\<lambda>hBuf. do {
     r \<leftarrow> ua_operationAddUserFree p Free_BUF hBuf;
     case r of
       Inl e \<Rightarrow> do {
         x \<leftarrow> get_op p;
         call_free Free_BUF (op_hCurrentBuf x);
         FAIL_RC e
       }
     | Inr _ \<Rightarrow>
         RC_CALL (on_mem (format_struct MTSUA_Protocol_DeliveryVerifyArg hBuf arg)) (\<lambda>_.
           ua_issueInvoke p hBuf)
     })"

text \<open>The message identifier of the operation, as a string in memory.\<close>

definition string_block :: "octets \<Rightarrow> (omem, ptr) state" where
  "string_block xs = do {
     p \<leftarrow> stack_block;
     modify (\<lambda>h. put_octets p 0 (xs @ [0]) (h\<lparr>a_size := (a_size h)(p := length xs + 1)\<rparr>));
     return p
   }"

definition perform_aS2S3a :: "ptr \<Rightarrow> ptr \<Rightarrow> int \<Rightarrow> int uprog" where
  "perform_aS2S3a hMachine p eventId = do {
     _ \<leftarrow> RC_CALL (set_rc p (on_mem mtsua_allocDeliveryVerifyArg)) (\<lambda>arg.
       RC_CALL (set_rc p (addUserFree_or_free p Free_deliveryVerifyArg arg)) (\<lambda>_. do {
         x \<leftarrow> get_op p;
         z \<leftarrow> on_mem (string_block (op_messageId x));
         RC_CALL (on_mem (ua_messageIdRfc822ToEmsdLocal z (DeliveryVerifyArgument_messageId (struct_at arg)))) (\<lambda>_.
           perform_formatAndInvoke p arg)
       }));
     return 0
   }"

definition perform_aS3S1a :: "ptr \<Rightarrow> ptr \<Rightarrow> int \<Rightarrow> int uprog" where
  "perform_aS3S1a hMachine p eventId = do {
     x \<leftarrow> get_op p;
     status \<leftarrow> mem_get (\<lambda>h. c_int h
       (DeliveryVerifyResult_deliveryStatus (struct_at (op_hOperationData x))));
     perform_status p
       (if status = 3 then UASH_DeliverStatus_NonDelSent else UASH_DeliverStatus_Acknowledged)
   }"

definition perform_aS3S1b :: "ptr \<Rightarrow> ptr \<Rightarrow> int \<Rightarrow> int uprog" where
  "perform_aS3S1b hMachine p eventId = perform_status p UASH_DeliverStatus_PossibleNonDelSent"

definition perform_aS4S1a :: "ptr \<Rightarrow> ptr \<Rightarrow> int \<Rightarrow> int uprog" where
  "perform_aS4S1a hMachine p eventId = do { ua_freeOperation p; return 0 }"

definition perform_aS4S1b :: "ptr \<Rightarrow> ptr \<Rightarrow> int \<Rightarrow> int uprog" where
  "perform_aS4S1b hMachine p eventId = do { ua_freeOperation p; return 0 }"

definition perform_aS5S1a :: "ptr \<Rightarrow> ptr \<Rightarrow> int \<Rightarrow> int uprog" where
  "perform_aS5S1a hMachine p eventId = do { ua_freeOperation p; return 0 }"

definition perform_aS5S1b :: "ptr \<Rightarrow> ptr \<Rightarrow> int \<Rightarrow> int uprog" where
  "perform_aS5S1b hMachine p eventId = do { ua_freeOperation p; return 0 }"

definition perform_aS5S1c :: "ptr \<Rightarrow> ptr \<Rightarrow> int \<Rightarrow> int uprog" where
  "perform_aS5S1c hMachine p eventId = do { ua_freeOperation p; return 0 }"

definition perform_aUnexpectedEvent :: "ptr \<Rightarrow> ptr \<Rightarrow> int \<Rightarrow> int uprog" where
  "perform_aUnexpectedEvent hMachine p eventId = do { ua_freeOperation p; return 0 }"

text \<open>\<^verbatim>\<open>TMR_processQueue\<close> releases the timer after the handler.\<close>

definition segmentationTimerExpired :: "ptr timer \<Rightarrow> bool uprog" where
  "segmentationTimerExpired t = do { ua_freeOperation (tm_data t); return True }"


section \<open>Diagram\<close>

definition perform_t1Idle :: "(ua_state, ua) fsm_trans list" where
  "perform_t1Idle = [
     ua_row UA_FsmEvent_InvokeIndication (Some perform_pS1S2a) perform_aS1S2a
       perf_s2DeliverResultResponseWait ''s1s2a (INVOKE.ind, type=deliver)'',
     ua_row UA_FsmEvent_InvokeIndication (Some perform_pS1S5a) perform_aS1S5a
       perf_s5NotDeliverResultResponseWait ''s1s5a (INVOKE.ind, type=submission verify)'',
     ua_row UA_FsmEvent_InvokeIndication (Some perform_pS1S5b) perform_aS1S5b
       perf_s5NotDeliverResultResponseWait ''s1s5b (INVOKE.ind, type=submission control)'',
     ua_row UA_FsmEvent_InvokeIndication None perform_aS1S4a perf_s4ErrorResponseWait
       ''s1s4a (INVOKE.ind, default)'',
     ua_row FSM_EvtDefault None perform_aUnexpectedEvent perf_s1Idle
       ''Unexpected Event (default catch-all)'']"

definition perform_t2DeliverResultResponseWait :: "(ua_state, ua) fsm_trans list" where
  "perform_t2DeliverResultResponseWait = [
     ua_row UA_FsmEvent_ResultConfirm (Some perform_pS2S1a) perform_aS2S1a perf_s1Idle
       ''s2s1a (RESULT.con, last segment)'',
     ua_row UA_FsmEvent_ResultConfirm None perform_aS2S1b perf_s1Idle
       ''s2s1b (RESULT.con, more segments)'',
     ua_row UA_FsmEvent_FailureIndication (Some perform_pS2S1e) perform_aS2S1e perf_s1Idle
       ''s2s1e (FAILURE.ind, (sap=2way or delivery verify unsupported) and no more segments)'',
     ua_row UA_FsmEvent_FailureIndication (Some perform_pS2S1d) perform_aS2S1d perf_s1Idle
       ''s2s1d (FAILURE.ind, sap=2way or delivery verify unsupported or more segments)'',
     ua_row UA_FsmEvent_FailureIndication None perform_aS2S3a perf_s3DeliverVerifyResponseWait
       ''s2s3a (FAILURE.ind, last segment)'',
     ua_row UA_FsmEvent_InvokeIndication (Some perform_pS2S2a) perform_aS2S2a
       perf_s2DeliverResultResponseWait ''s2s2a (INVOKE.ind)'',
     ua_row UA_FsmEvent_SegmentationTimerExpired None perform_aS2S1c perf_s1Idle
       ''s2s1c (Segmentation Timer expired)'',
     ua_row FSM_EvtDefault None perform_aUnexpectedEvent perf_s1Idle
       ''Unexpected Event (default catch-all)'']"

definition perform_t3DeliverVerifyResponseWait :: "(ua_state, ua) fsm_trans list" where
  "perform_t3DeliverVerifyResponseWait = [
     ua_row UA_FsmEvent_ResultIndication None perform_aS3S1a perf_s1Idle ''s3s1a (RESULT.ind)'',
     ua_row UA_FsmEvent_FailureIndication None perform_aS3S1b perf_s1Idle ''s3s1b (FAILURE.ind)'',
     ua_row FSM_EvtDefault None perform_aUnexpectedEvent perf_s1Idle
       ''Unexpected Event (default catch-all)'']"

definition perform_t4ErrorResponseWait :: "(ua_state, ua) fsm_trans list" where
  "perform_t4ErrorResponseWait = [
     ua_row UA_FsmEvent_ErrorConfirm None perform_aS4S1a perf_s1Idle ''s4s1a (ERROR.con)'',
     ua_row UA_FsmEvent_FailureIndication None perform_aS4S1b perf_s1Idle ''s4s1b (FAILURE.ind)'',
     ua_row FSM_EvtDefault None perform_aUnexpectedEvent perf_s1Idle
       ''Unexpected Event (default catch-all)'']"

definition perform_t5NotDeliverResultResponseWait :: "(ua_state, ua) fsm_trans list" where
  "perform_t5NotDeliverResultResponseWait = [
     ua_row UA_FsmEvent_ResultConfirm None perform_aS5S1a perf_s1Idle ''s5s1a (RESULT.con)'',
     ua_row UA_FsmEvent_ErrorConfirm None perform_aS5S1b perf_s1Idle ''s5s1b (ERROR.con)'',
     ua_row UA_FsmEvent_FailureIndication None perform_aS5S1c perf_s1Idle ''s5s1c (FAILURE.ind)'',
     ua_row FSM_EvtDefault None perform_aUnexpectedEvent perf_s1Idle
       ''Unexpected Event (default catch-all)'']"

end
