(* ===== verification/Ua_Event.thy ===== *)
theory Ua_Event
  imports Ua_Perform
begin

text \<open>
  What enters the user agent core: the indications and confirmations of the remote operations
  service, \<^verbatim>\<open>uacore/esroevt.c\<close>; the calls of the shell, \<^verbatim>\<open>uacore/ua.c\<close>; the tasks of the scheduler
  and the timers. \<open>ua_reachable\<close> is the states after any sequence of these from an initial state.
\<close>

section \<open>Machines\<close>

definition ua_tbl :: "ua_state \<Rightarrow> (ua_state, ua) fsm_state" where
  "ua_tbl q =
     (let st = (\<lambda>n ts. \<lparr>s_entry = None, s_exit = None, s_trans = ts, s_name = n\<rparr>) in
      case q of
        perf_s1Idle \<Rightarrow> st ''UA Performer Idle'' perform_t1Idle
      | perf_s2DeliverResultResponseWait \<Rightarrow>
          st ''UA Performer Deliver Result Response Wait'' perform_t2DeliverResultResponseWait
      | perf_s3DeliverVerifyResponseWait \<Rightarrow>
          st ''UA Performer Deliver Verify Response Wait'' perform_t3DeliverVerifyResponseWait
      | perf_s4ErrorResponseWait \<Rightarrow>
          st ''UA Performer Error Response Wait'' perform_t4ErrorResponseWait
      | perf_s5NotDeliverResultResponseWait \<Rightarrow>
          st ''UA Performer Not Deliver Result Response Wait'' perform_t5NotDeliverResultResponseWait
      | submit_s1Idle \<Rightarrow> st ''UA Submit Idle'' submit_t1Idle
      | submit_s2InvokeResponseWait \<Rightarrow> st ''UA Submit Invoke Response Wait'' submit_t2InvokeResponseWait)"

definition ua_curState :: "ptr \<Rightarrow> ua \<Rightarrow> ua_state option" where
  "ua_curState m s = m_curState (u_machine s m)"

definition ua_runMachine :: "ptr \<Rightarrow> int \<Rightarrow> int uprog" where
  "ua_runMachine m e = do {
     touch m;
     FSM_runMachine ua_tbl ua_curState set_curState m e
   }"

definition ua_dispatch :: "ua_task \<Rightarrow> unit uprog" where
  "ua_dispatch t = (case t of
       fsm_scheduledRunMachine args machine evtId \<Rightarrow> do {
         _ \<leftarrow> ua_runMachine machine evtId;
         free_block args
       }
     | fsm_scheduledDeleteMachine machine \<Rightarrow> free_block machine)"


section \<open>Indications and confirmations\<close>

definition findOperationByInvokeId :: "int \<Rightarrow> ua \<Rightarrow> ptr option" where
  "findOperationByInvokeId invokeId s = find (\<lambda>p. op_invokeId (u_op s p) = invokeId) (u_active s)"

text \<open>
  \<^verbatim>\<open>issueErrorRequest\<close>. One caller passes \<^verbatim>\<open>EMSD_Error_ProtocolViolation\<close>, which is none of the
  codes of the switch: \<open>Fail\<close> stands for it.
\<close>

definition esroevt_issueErrorRequest :: "rc \<Rightarrow> int \<Rightarrow> unit uprog" where
  "esroevt_issueErrorRequest e invokeId = ua_issueErrorRequest invokeId
     (case e of
        ResourceError \<Rightarrow> EMSD_Error_ResourceError
      | UA_RC_UnrecognizedProtocolVersion \<Rightarrow> EMSD_Error_ProtocolVersionNotRecognized
      | UA_RC_SecurityViolation \<Rightarrow> EMSD_Error_SecurityError
      | _ \<Rightarrow> EMSD_Error_ProtocolViolation)"

text \<open>
  The octets of a data unit are in an area of its own, which the service takes back when the call
  returns. The string that is attached to them, and all that is cloned from the buffer, point there.
  When the chunk cannot be appended the code frees the pointer to the handle.
\<close>

definition view_block :: "octets \<Rightarrow> ptr uprog" where
  "view_block xs = do {
     a \<leftarrow> on_mem stack_block;
     on_mem (modify (\<lambda>h. put_octets a 0 xs (h\<lparr>a_size := (a_size h)(a := length xs)\<rparr>)));
     ua_upd (\<lambda>s. s\<lparr>u_views := insert a (u_views s)\<rparr>);
     return a
   }"

definition viewToBuf :: "octets \<Rightarrow> (ua, ptr) rc_op" where
  "viewToBuf view = do {
     a \<leftarrow> view_block view;
     RC_CALL (on_mem (STR_attachString (length view) (length view) a False)) (\<lambda>t. do {
       r \<leftarrow> on_mem (BUF_alloc 0);
       case r of
         Inl e \<Rightarrow> do { on_mem (STR_free t); FAIL_RC e }
       | Inr b \<Rightarrow> do {
           r \<leftarrow> on_mem (BUF_appendChunk b t);
           case r of
             Inl e \<Rightarrow> do {
               on_mem (STR_free t);
               ua_upd (\<lambda>s. s\<lparr>u_undefined := True\<rparr>);
               FAIL_RC e
             }
           | Inr _ \<Rightarrow> do { on_mem (STR_free t); ok b }
         }
     })
   }"

definition generate :: "ptr \<Rightarrow> int \<Rightarrow> unit uprog" where
  "generate p evtId = do {
     x \<leftarrow> get_op p;
     _ \<leftarrow> FSM_generateEvent (op_hFsm x) evtId;
     skip
   }"

text \<open>\<open>hasAddr\<close> says whether the addresses of the remote are there.\<close>

definition ua_invokeIndication ::
  "int \<Rightarrow> nat \<Rightarrow> bool \<Rightarrow> int \<Rightarrow> u32 \<Rightarrow> nat \<Rightarrow> octets option \<Rightarrow> int uprog" where
  "ua_invokeIndication hSapDesc sapSel hasAddr invokeId operationValue encodingType hView =
     (if \<not> hasAddr then do { esroevt_issueErrorRequest Fail invokeId; return SUCCESS }
      else case hView of
        None \<Rightarrow> do { esroevt_issueErrorRequest Fail invokeId; return SUCCESS }
      | Some view \<Rightarrow> do {
          len \<leftarrow> gets (\<lambda>s. g_mtsNsapLen (u_cfg s));
          if len = 0 then do {
            esroevt_issueErrorRequest UA_RC_SecurityViolation invokeId;
            return SUCCESS
          }
          else do {
            (duplicate, view') \<leftarrow> ua_isDuplicate view operationValue;
            if duplicate then do { _ \<leftarrow> result_request invokeId NoView; return SUCCESS }
            else do {
              r \<leftarrow> viewToBuf view';
              case r of
                Inl e \<Rightarrow> do { esroevt_issueErrorRequest e invokeId; return SUCCESS }
              | Inr hBuf \<Rightarrow> do {
                  r \<leftarrow> ua_preprocessInvokeIndication hBuf operationValue encodingType invokeId hSapDesc sapSel;
                  case r of
                    Inl e \<Rightarrow> do {
                      esroevt_issueErrorRequest e invokeId;
                      on_mem (BUF_free hBuf);
                      return SUCCESS
                    }
                  | Inr p \<Rightarrow> do {
                      on_mem (BUF_free hBuf);
                      generate p UA_FsmEvent_InvokeIndication;
                      return SUCCESS
                    }
                }
            }
          }
        })"

definition ua_resultIndication :: "int \<Rightarrow> octets option \<Rightarrow> int uprog" where
  "ua_resultIndication invokeId hView = do {
     found \<leftarrow> gets (findOperationByInvokeId invokeId);
     case found of
       None \<Rightarrow> return FAIL
     | Some p \<Rightarrow> (case hView of
           None \<Rightarrow> return SUCCESS
         | Some view \<Rightarrow> do {
             r \<leftarrow> viewToBuf view;
             case r of
               Inl _ \<Rightarrow> return SUCCESS
             | Inr hBuf \<Rightarrow> do {
                 r \<leftarrow> ua_preprocessResultIndication p hBuf;
                 on_mem (BUF_free hBuf);
                 case r of
                   Inl _ \<Rightarrow> return SUCCESS
                 | Inr _ \<Rightarrow> do { generate p UA_FsmEvent_ResultIndication; return SUCCESS }
               }
           })
   }"

definition ua_errorIndication :: "int \<Rightarrow> octets option \<Rightarrow> int uprog" where
  "ua_errorIndication invokeId hView = do {
     found \<leftarrow> gets (findOperationByInvokeId invokeId);
     case found of
       None \<Rightarrow> return FAIL
     | Some p \<Rightarrow> (case hView of
           None \<Rightarrow> do { generate p UA_FsmEvent_ErrorIndication; return SUCCESS }
         | Some view \<Rightarrow> do {
             r \<leftarrow> viewToBuf view;
             case r of
               Inl _ \<Rightarrow> return SUCCESS
             | Inr hBuf \<Rightarrow> do {
                 r \<leftarrow> ua_preprocessErrorIndication p hBuf;
                 on_mem (BUF_free hBuf);
                 case r of
                   Inl _ \<Rightarrow> return SUCCESS
                 | Inr _ \<Rightarrow> do { generate p UA_FsmEvent_ErrorIndication; return SUCCESS }
               }
           })
   }"

definition ua_event :: "int \<Rightarrow> int \<Rightarrow> int uprog" where
  "ua_event invokeId evtId = do {
     found \<leftarrow> gets (findOperationByInvokeId invokeId);
     case found of
       None \<Rightarrow> return 1
     | Some p \<Rightarrow> do { generate p evtId; return SUCCESS }
   }"

definition ua_resultConfirm :: "int \<Rightarrow> int uprog" where
  "ua_resultConfirm invokeId = ua_event invokeId UA_FsmEvent_ResultConfirm"

definition ua_errorConfirm :: "int \<Rightarrow> int uprog" where
  "ua_errorConfirm invokeId = ua_event invokeId UA_FsmEvent_ErrorConfirm"

definition ua_failureIndication :: "int \<Rightarrow> int uprog" where
  "ua_failureIndication invokeId = ua_event invokeId UA_FsmEvent_FailureIndication"


section \<open>Calls of the shell\<close>

text \<open>\<open>z\<close> is the password, of which \<^verbatim>\<open>OS_allocStringCopy\<close> makes a copy.\<close>

definition OS_allocStringCopy :: "ptr \<Rightarrow> (omem, ptr) state" where
  "OS_allocStringCopy z = do {
     n \<leftarrow> gets (strlen z);
     p \<leftarrow> OS_alloc (n + 1);
     (if p = NULL then skip else OS_copy p 0 z 0 (n + 1));
     return p
   }"

definition UA_setPassword :: "ptr \<Rightarrow> (ua, unit) rc_op" where
  "UA_setPassword z = do {
     old \<leftarrow> gets (\<lambda>s. g_pPassword (u_cfg s));
     RC_CALL (if z = NULL then ok NULL
              else do {
                p \<leftarrow> on_mem (OS_allocStringCopy z);
                if p = NULL then FAIL_RC ResourceError else ok p
              }) (\<lambda>p. do {
       ua_upd (\<lambda>s. s\<lparr>u_cfg := (u_cfg s)\<lparr>g_pPassword := p\<rparr>\<rparr>);
       free_block old;
       ok ()
     })
   }"

definition UA_setMtsNsap :: "unit uprog" where
  "UA_setMtsNsap = ua_upd (\<lambda>s. s\<lparr>u_cfg := (u_cfg s)\<lparr>g_mtsNsapLen := 4\<rparr>\<rparr>)"

definition UA_submitMessage :: "ptr uash_heading \<Rightarrow> ptr \<Rightarrow> octets \<Rightarrow> (ua, ptr) rc_op" where
  "UA_submitMessage heading pBodyText shellReference = do {
     len \<leftarrow> gets (\<lambda>s. g_mtsNsapLen (u_cfg s));
     if len = 0 then FAIL_RC UA_RC_SecurityViolation
     else RC_CALL (ua_allocOperation concurrentOperationsOutbound shellReference) (\<lambda>p. do {
       r \<leftarrow> ua_preprocessSubmitRequest p heading pBodyText;
       case r of
         Inl e \<Rightarrow> do { ua_freeOperation p; FAIL_RC e }
       | Inr _ \<Rightarrow> do { generate p UA_FsmEvent_MessageSubmitRequest; ok p }
     })
   }"

text \<open>
  \<^verbatim>\<open>UA_init\<close>. \<open>verifyThere\<close> and \<open>dupThere\<close> say whether there is a transaction already for the
  identifiers of submitted messages and for the detection of duplicates; otherwise they are made,
  and \<open>es\<close> is where the five elements are. The tables, the access points and the diagrams are as
  they are when nothing fails. The argument \<^verbatim>\<open>bDeliveryVerifySupported\<close> is not used.
\<close>

primrec init_elements :: "ptr \<Rightarrow> ptr list \<Rightarrow> qu_heap \<Rightarrow> qu_heap" where
  "init_elements inactive [] h = h"
| "init_elements inactive (e # es) h =
     init_elements inactive es (verify_quInsert e inactive (verify_quInit e h))"

definition init_verify :: "ptr \<Rightarrow> ptr \<Rightarrow> ptr list \<Rightarrow> qu_heap \<Rightarrow> qu_heap" where
  "init_verify active inactive es h =
     init_elements inactive es (verify_quInit inactive (verify_quInit active h))"

definition UA_init :: "ptr \<Rightarrow> bool \<Rightarrow> bool \<Rightarrow> ptr list \<Rightarrow> nat \<Rightarrow> nat \<Rightarrow> unit uprog" where
  "UA_init pPassword verifyThere dupThere es inbound outbound = do {
     UA_setMtsNsap;
     (if inbound > 127 \<or> outbound > 127 then EH_fatal else skip);
     ua_upd (\<lambda>s. s\<lparr>u_pool := (\<lambda>pool. case pool of
        concurrentOperationsInbound \<Rightarrow> of_nat inbound | concurrentOperationsOutbound \<Rightarrow> of_nat outbound)\<rparr>);
     password \<leftarrow> (if pPassword = NULL then return NULL else on_mem (OS_allocStringCopy pPassword));
     (if pPassword \<noteq> NULL \<and> password = NULL then EH_fatal else skip);
     ua_upd (\<lambda>s. s\<lparr>u_cfg := (u_cfg s)\<lparr>g_pPassword := password\<rparr>, u_active := []\<rparr>);
     (if verifyThere then skip
      else ua_upd (\<lambda>s. s\<lparr>u_verify :=
        init_verify (g_hActive (u_cfg s)) (g_hInactive (u_cfg s)) es (u_verify s)\<rparr>));
     (if dupThere then skip else ua_upd (\<lambda>s. s\<lparr>u_instanceId := 0, u_duplicate := replicate 32 0\<rparr>))
   }"


section \<open>Runs\<close>

text \<open>
  An input is a call from the service or the shell; a round of the scheduler, with what \<^verbatim>\<open>select\<close>
  delivers; a look at the timers, of which at most \<open>n\<close> expire; or the octets that the service puts
  into the memory of a data unit it has taken back.
\<close>

datatype ua_input =
    In_invoke int nat bool int u32 nat "octets option"
  | In_result int "octets option"
  | In_error int "octets option"
  | In_resultConfirm int
  | In_errorConfirm int
  | In_failure int
  | In_submit "ptr uash_heading" ptr octets
  | In_setPassword ptr
  | In_block sel
  | In_run
  | In_timers nat
  | In_reuse ptr octets

definition upd_ua_sch :: "(ua_task sch \<Rightarrow> ua_task sch) \<Rightarrow> unit uprog" where
  "upd_ua_sch f = ua_upd (\<lambda>s. s\<lparr>u_sch := f (u_sch s)\<rparr>)"

definition ua_timer_handler :: "ptr timer \<Rightarrow> bool uprog" where
  "ua_timer_handler t = do {
     good \<leftarrow> segmentationTimerExpired t;
     free_block (tm_desc t);
     return good
   }"

definition ua_timers :: "nat \<Rightarrow> unit uprog" where
  "ua_timers n = do {
     _ \<leftarrow> TMR_processQueue u_timers (\<lambda>f. ua_upd (\<lambda>s. s\<lparr>u_timers := f (u_timers s)\<rparr>)) ua_timer_handler
       (\<lambda>s. env_clock (u_env s) (u_calls s)) n;
     skip
   }"

definition ua_reuse :: "ptr \<Rightarrow> octets \<Rightarrow> unit uprog" where
  "ua_reuse a xs = do {
     mine \<leftarrow> gets (\<lambda>s. a \<in> u_views s);
     if mine then on_mem (modify (put_octets a 0 xs)) else skip
   }"

definition ua_input :: "ua_input \<Rightarrow> unit uprog" where
  "ua_input i = (case i of
       In_invoke d sel addr iid opv en v \<Rightarrow> do { _ \<leftarrow> ua_invokeIndication d sel addr iid opv en v; skip }
     | In_result iid v \<Rightarrow> do { _ \<leftarrow> ua_resultIndication iid v; skip }
     | In_error iid v \<Rightarrow> do { _ \<leftarrow> ua_errorIndication iid v; skip }
     | In_resultConfirm iid \<Rightarrow> do { _ \<leftarrow> ua_resultConfirm iid; skip }
     | In_errorConfirm iid \<Rightarrow> do { _ \<leftarrow> ua_errorConfirm iid; skip }
     | In_failure iid \<Rightarrow> do { _ \<leftarrow> ua_failureIndication iid; skip }
     | In_submit heading body shellRef \<Rightarrow> do { _ \<leftarrow> UA_submitMessage heading body shellRef; skip }
     | In_setPassword z \<Rightarrow> do { _ \<leftarrow> UA_setPassword z; skip }
     | In_block sel \<Rightarrow> upd_ua_sch (\<lambda>q. snd (SCH_block sel q))
     | In_run \<Rightarrow> do { _ \<leftarrow> SCH_run u_sch upd_ua_sch ua_dispatch; skip }
     | In_timers n \<Rightarrow> ua_timers n
     | In_reuse a xs \<Rightarrow> ua_reuse a xs)"

definition ua_started :: "ua \<Rightarrow> bool" where
  "ua_started s \<longleftrightarrow> u_active s = [] \<and> u_timers s = [] \<and> sch_active (u_sch s) = [] \<and> sch_runq (u_sch s) = [] \<and>
     u_upcalls s = [] \<and> u_requests s = [] \<and> \<not> u_undefined s \<and> \<not> u_aborted s \<and>
     length (u_duplicate s) = 32 \<and> (\<forall>m. m_userData (u_machine s m) = NULL) \<and>
     (\<forall>p \<in> o_live (u_mem s). p \<noteq> NULL \<and> p < o_next (u_mem s)) \<and> 0 < o_next (u_mem s)"

inductive ua_reachable :: "ua \<Rightarrow> ua \<Rightarrow> bool" for s0 where
  start: "ua_started s0 \<Longrightarrow> ua_reachable s0 s0"
| step: "ua_reachable s0 s \<Longrightarrow> ua_reachable s0 (exec (ua_input i) s)"

end
