(* ===== verification/Mem_Grow.thy ===== *)
theory Mem_Grow
  imports Ua_Shell
begin

text \<open>
  What every operation on the memory does to the blocks: new blocks get addresses that were not
  used before, and no other block comes to life. One rule for each operation of the strings, the
  buffers, the encoder and the parser, and of the allocation and conversion of EMSD structures.
\<close>

definition mem_grows :: "omem \<Rightarrow> omem \<Rightarrow> bool" where
  "mem_grows h h' \<longleftrightarrow> o_next h \<le> o_next h' \<and> o_live h' \<subseteq> o_live h \<union> {o_next h..<o_next h'}"

lemma mem_grows_refl [simp]: "mem_grows h h"
  by (simp add: mem_grows_def)

lemma mem_grows_trans: "mem_grows h h' \<Longrightarrow> mem_grows h' h'' \<Longrightarrow> mem_grows h h''"
  by (fastforce simp: mem_grows_def)

lemma mem_grows_same: "mem_grows h0 h \<Longrightarrow> o_next h' = o_next h \<Longrightarrow> o_live h' \<subseteq> o_live h \<Longrightarrow> mem_grows h0 h'"
  by (auto simp: mem_grows_def)

text \<open>\<open>grows m\<close>: the program \<open>m\<close> does so, from any memory.\<close>

definition grows :: "(omem, 'a) state \<Rightarrow> bool" where
  "grows m \<longleftrightarrow> (\<forall>h. mem_grows h (exec m h))"

named_theorems grows_intros

lemma growsD: "grows m \<Longrightarrow> mem_grows h (exec m h)"
  by (simp add: grows_def)

lemma grows_return [grows_intros]: "grows (return x)"
  by (simp add: grows_def run_simps)

lemma grows_gets [grows_intros]: "grows (gets f)"
  by (simp add: grows_def run_simps)

lemma grows_skip [grows_intros]: "grows skip"
  by (simp add: grows_def run_simps)

lemma grows_bind [grows_intros]: "grows m \<Longrightarrow> (\<And>x. grows (f x)) \<Longrightarrow> grows (m \<bind> f)"
  by (auto simp: grows_def run_simps intro: mem_grows_trans)

lemma grows_if [grows_intros]: "(b \<Longrightarrow> grows m) \<Longrightarrow> (\<not> b \<Longrightarrow> grows n) \<Longrightarrow> grows (if b then m else n)"
  by simp

lemma grows_sum [grows_intros]:
  "(\<And>e. grows (f e)) \<Longrightarrow> (\<And>x. grows (g x)) \<Longrightarrow> grows (case r of Inl e \<Rightarrow> f e | Inr x \<Rightarrow> g x)"
  by (cases r) simp_all

lemma grows_option [grows_intros]:
  "grows m \<Longrightarrow> (\<And>x. grows (f x)) \<Longrightarrow> grows (case y of None \<Rightarrow> m | Some x \<Rightarrow> f x)"
  by (cases y) simp_all

lemma grows_prod [grows_intros]: "(\<And>a b. grows (f a b)) \<Longrightarrow> grows (case y of (a, b) \<Rightarrow> f a b)"
  by (cases y) simp

lemma grows_list [grows_intros]:
  "grows m \<Longrightarrow> (\<And>x xs. grows (f x xs)) \<Longrightarrow> grows (case y of [] \<Rightarrow> m | x # xs \<Rightarrow> f x xs)"
  by (cases y) simp_all

lemma grows_let [grows_intros]: "(\<And>x. grows (f x)) \<Longrightarrow> grows (let x = e in f x)"
  by (simp add: Let_def)

lemma grows_ok [grows_intros]: "grows (ok x)"
  by (simp add: grows_def ok_def run_simps)

lemma grows_FAIL_RC [grows_intros]: "grows (FAIL_RC e)"
  by (simp add: grows_def FAIL_RC_def run_simps)

lemma grows_RC_CALL [grows_intros]: "grows m \<Longrightarrow> (\<And>x. grows (f x)) \<Longrightarrow> grows (RC_CALL m f)"
  unfolding RC_CALL_def by (intro grows_intros)

lemma grows_modify:
  "(\<And>h. o_next (f h) = o_next h \<and> o_live (f h) \<subseteq> o_live h) \<Longrightarrow> grows (modify f)"
  by (auto simp: grows_def run_simps mem_grows_def)

lemma put_octets_blocks [simp]:
  "o_next (put_octets a i xs h) = o_next h" "o_live (put_octets a i xs h) = o_live h"
  by (simp_all add: put_octets_def)


section \<open>Strings and buffers\<close>

lemma grows_OS_alloc [grows_intros]: "grows (OS_alloc n)"
  by (auto simp: grows_def OS_alloc_def run_simps mem_grows_def)

lemma grows_OS_free [grows_intros]: "grows (OS_free p)"
  unfolding OS_free_def by (rule grows_modify) auto

lemma grows_put_octets [grows_intros]: "grows (modify (put_octets a i xs))"
  by (rule grows_modify) simp

lemma grows_put_octets_at [grows_intros]: "grows (modify (\<lambda>h. put_octets (f h) (i h) (xs h) h))"
  by (rule grows_modify) simp

lemma grows_OS_copy [grows_intros]: "grows (OS_copy dst i a j n)"
  unfolding OS_copy_def by (rule grows_modify) simp

lemma grows_upd_str [grows_intros]: "grows (upd_str s f)"
  unfolding upd_str_def by (rule grows_modify) simp

lemma grows_upd_seg [grows_intros]: "grows (upd_seg s f)"
  unfolding upd_seg_def by (rule grows_modify) simp

lemma grows_upd_head [grows_intros]: "grows (upd_head s f)"
  unfolding upd_head_def by (rule grows_modify) simp

lemma grows_c_int [grows_intros]: "grows (modify (\<lambda>h. h\<lparr>c_int := f h\<rparr>))"
  by (rule grows_modify) simp

lemma grows_c_bool [grows_intros]: "grows (modify (\<lambda>h. h\<lparr>c_bool := f h\<rparr>))"
  by (rule grows_modify) simp

lemma grows_c_byte [grows_intros]: "grows (modify (\<lambda>h. h\<lparr>c_byte := f h\<rparr>))"
  by (rule grows_modify) simp

lemma grows_c_str [grows_intros]: "grows (modify (\<lambda>h. h\<lparr>c_str := f h\<rparr>))"
  by (rule grows_modify) simp

lemma grows_c_buf [grows_intros]: "grows (modify (\<lambda>h. h\<lparr>c_buf := f h\<rparr>))"
  by (rule grows_modify) simp

lemma grows_strings [grows_intros]:
  "grows (STR_alloc n)" "grows (STR_attachString n m p b)" "grows (STR_attachZString p b)"
  "grows (STR_addReference s)" "grows (STR_free s)" "grows (STR_assignString s n p i)"
  "grows (appendOctets s xs)" "grows (STR_setStringLength s n)"
  "grows (STR_bitStringSetBit s k v)"
  unfolding STR_alloc_def STR_attachString_def STR_attachZString_def STR_addReference_def
    STR_free_def STR_assignString_def appendOctets_def STR_setStringLength_def STR_bitStringSetBit_def
  by (intro grows_intros)+

lemma grows_strings' [grows_intros]:
  "grows (STR_replaceString s t)" "grows (STR_appendString s n p i)" "grows (STR_assignZString s z)"
  unfolding STR_replaceString_def STR_appendString_def STR_assignZString_def
  by (intro grows_intros)+

lemma grows_allocSegment [grows_intros]: "grows (allocSegment n)"
  unfolding allocSegment_def by (intro grows_intros)

lemma grows_freeSegs [grows_intros]: "grows (freeSegs gs)"
  by (induction gs) (auto intro!: grows_intros)

lemma grows_buffers [grows_intros]:
  "grows (BUF_alloc n)" "grows (BUF_free b)" "grows (BUF_addOctet b x)" "grows (BUF_getOctet b)"
  "grows (BUF_ungetOctet b)" "grows (chunkSegment b s)" "grows (BUF_resetParse b)"
  "grows (BUF_prependBuffer b c)" "grows (BUF_appendBuffer b c)"
  unfolding BUF_alloc_def BUF_free_def BUF_addOctet_def BUF_getOctet_def BUF_ungetOctet_def
    chunkSegment_def BUF_resetParse_def BUF_prependBuffer_def BUF_appendBuffer_def
  by (intro grows_intros)+

lemma grows_chunks [grows_intros]: "grows (BUF_prependChunk b s)" "grows (BUF_appendChunk b s)"
  unfolding BUF_prependChunk_def BUF_appendChunk_def by (intro grows_intros)+

lemma grows_chunkSearch [grows_intros]: "grows (chunkSearch n b)"
  by (induction n) (auto intro!: grows_intros)

lemma grows_BUF_getChunk [grows_intros]: "grows (BUF_getChunk b n)"
  unfolding BUF_getChunk_def by (intro grows_intros)

lemma grows_copySegs [grows_intros]: "grows (copySegs gs b)"
  by (induction gs) (auto intro!: grows_intros simp: Let_def)

lemma grows_cloneSegs [grows_intros]: "grows (cloneSegs gs b nb len strip)"
  by (induction gs arbitrary: len) (auto intro!: grows_intros simp: Let_def)

lemma grows_copies [grows_intros]: "grows (BUF_copy b)" "grows (BUF_cloneBufferPortion b n strip)"
  unfolding BUF_copy_def BUF_cloneBufferPortion_def by (intro grows_intros)+


section \<open>Encoding\<close>

lemma grows_addOctets [grows_intros]: "grows (addOctets b v n)"
proof (induction b v n rule: addOctets.induct)
  case (1 b v n)
  then show ?case by (subst addOctets.simps) (auto intro!: grows_intros)
qed

lemma grows_formatLength [grows_intros]: "grows (formatLength n b)"
  unfolding formatLength_def by (intro grows_intros)

lemma grows_addAll [grows_intros]: "grows (addAll b xs)"
  by (induction xs) (auto intro!: grows_intros)

lemma grows_fmtBits [grows_intros]: "grows (fmtBits n j x i s b)"
  by (induction n arbitrary: j x i) (auto intro!: grows_intros simp: Let_def)

lemma grows_fmtBitString [grows_intros]: "grows (fmtBitString s b)"
  unfolding fmtBitString_def by (intro grows_intros)

lemma grows_fmtTag [grows_intros]: "grows (fmtTag b x)"
  unfolding fmtTag_def by (intro grows_intros)

lemma grows_format:
  "grows (asn_berFormat t b base)"
  "grows (fmtContents t b base)"
  "grows (fmtSeq ts b base)"
  "grows (fmtSeqOf n t elementSize b base)"
proof (induction t b base and t b base and ts b base and n t elementSize b base
    rule: asn_berFormat_fmtContents_fmtSeq_fmtSeqOf.induct)
  case (1 t b base)
  then show ?case by (subst asn_berFormat.simps) (auto intro!: grows_intros)
next
  case (2 t b base)
  then show ?case
    by (subst fmtContents.simps) (auto intro!: grows_intros simp: Let_def split: asn_type.split)
qed (auto intro!: grows_intros)

lemma grows_getValue [grows_intros]: "grows m \<Longrightarrow> grows (getValue m n v)"
  by (induction n arbitrary: v) (auto intro!: grows_intros)

lemma grows_parseLength [grows_intros]: "grows m \<Longrightarrow> grows (parseLength m)"
  unfolding parseLength_def by (intro grows_intros)

lemma grows_setters [grows_intros]:
  "grows (set_exists t base v)" "grows (set_int a i)" "grows (set_bool a v)" "grows (set_byte a c)"
  "grows (set_str a s)" "grows (set_buf a s)"
  unfolding set_exists_def set_int_def set_bool_def set_byte_def set_str_def set_buf_def
  by (intro grows_intros)+

lemma grows_parseHeader [grows_intros]: "grows (parseHeader t b base n)"
  unfolding parseHeader_def by (intro grows_intros)

lemma grows_parseBits [grows_intros]: "grows (parseBits n u a p b)"
  by (induction n arbitrary: p) (auto intro!: grows_intros simp: Let_def)

lemma grows_getString [grows_intros]: "grows (getString n b s l)"
  by (induction n arbitrary: l) (auto intro!: grows_intros)

lemma grows_parseStrings [grows_intros]: "grows (parseBitString b n)" "grows (parseOctetString t b n)"
  unfolding parseBitString_def parseOctetString_def by (intro grows_intros)+

lemma grows_parse:
  "grows (asn_berParse t b base n)"
  "grows (parseContents t b base len lengthOfLength used)"
  "grows (parseSeq ts b base len)"
  "grows (parseSeqOf count maxCount t elementSize pCount b base len)"
  "grows (parseChoice ts i e b base len)"
proof (induction t b base n and t b base len lengthOfLength used and ts b base len
    and count maxCount t elementSize pCount b base len and ts i e b base len
    rule: asn_berParse_parseContents_parseSeq_parseSeqOf_parseChoice.induct)
  case (1 t b base n)
  then show ?case by (subst asn_berParse.simps) (auto intro!: grows_intros)
next
  case (2 t b base len lengthOfLength used)
  then show ?case
    by (subst parseContents.simps) (auto intro!: grows_intros simp: Let_def split: asn_type.split)
next
  case (5 count maxCount t elementSize pCount b base len)
  then show ?case by (subst parseSeqOf.simps) (auto intro!: grows_intros)
qed (auto intro!: grows_intros)

lemma grows_asn [grows_intros]: "grows (ASN_format r q b base n)" "grows (ASN_parse r q b base n)"
  unfolding ASN_format_def ASN_parse_def by (intro grows_intros grows_format grows_parse)+


section \<open>Structures\<close>

lemma grows_OS_memSet [grows_intros]: "grows (OS_memSet p)"
  unfolding OS_memSet_def by (rule grows_modify) simp

lemma grows_stack_block [grows_intros]: "grows stack_block"
  by (auto simp: grows_def stack_block_def run_simps mem_grows_def)

lemma grows_alloc_struct [grows_intros]: "grows alloc_struct"
  unfolding alloc_struct_def by (intro grows_intros)

lemma grows_free_str [grows_intros]: "grows (free_address a)" "grows (free_str_at a)"
  unfolding free_address_def free_str_at_def by (intro grows_intros)+

lemma grows_free_opt_str [grows_intros]: "grows (free_opt_str a)"
  unfolding free_opt_str_def by (intro grows_intros)

lemma grows_free_lists [grows_intros]:
  "grows (free_recipients n a)" "grows (free_replyTo n a)" "grows (free_extensions n a)"
  by (induction n) (auto intro!: grows_intros simp: Let_def)

lemma grows_freeMessage [grows_intros]: "grows (mtsua_freeMessage p)"
  unfolding mtsua_freeMessage_def Let_def by (intro grows_intros)

lemma grows_freeDeliverArg [grows_intros]: "grows (mtsua_freeDeliverArg p)"
  unfolding mtsua_freeDeliverArg_def by (intro grows_intros)

lemmas mtsua_alloc_defs = mtsua_allocMessage_def mtsua_allocSubmitArg_def mtsua_allocSubmitRes_def
  mtsua_allocDeliverArg_def mtsua_allocSubmissionVerifyArg_def mtsua_allocDeliveryVerifyArg_def
  mtsua_allocDeliveryVerifyRes_def mtsua_allocErrorRequest_def

lemmas mtsua_free_defs = mtsua_freeSubmitArg_def mtsua_freeSubmitRes_def
  mtsua_freeSubmissionVerifyArg_def mtsua_freeDeliveryVerifyArg_def
  mtsua_freeDeliveryVerifyRes_def mtsua_freeErrorRequest_def

lemma grows_mtsua [grows_intros]:
  "grows mtsua_allocMessage" "grows mtsua_allocSubmitArg" "grows mtsua_allocSubmitRes"
  "grows mtsua_allocDeliverArg" "grows mtsua_allocSubmissionVerifyArg"
  "grows mtsua_allocDeliveryVerifyArg" "grows mtsua_allocDeliveryVerifyRes"
  "grows mtsua_allocErrorRequest" "grows (mtsua_freeSubmitArg p)" "grows (mtsua_freeSubmitRes p)"
  "grows (mtsua_freeSubmissionVerifyArg p)" "grows (mtsua_freeDeliveryVerifyArg p)"
  "grows (mtsua_freeDeliveryVerifyRes p)" "grows (mtsua_freeErrorRequest p)"
  unfolding mtsua_alloc_defs mtsua_free_defs by (intro grows_intros)+

lemma grows_struct [grows_intros]:
  "grows (format_struct protocol b p)" "grows (parse_struct e protocol b p n)"
  unfolding format_struct_def parse_struct_def by (intro grows_intros)+

lemma grows_messageId [grows_intros]: "grows (ua_messageIdRfc822ToEmsdLocal z a)"
  unfolding ua_messageIdRfc822ToEmsdLocal_def by (intro grows_intros)

lemma grows_getChunks [grows_intros]: "grows (getChunks n b acc)"
  by (induction n arbitrary: acc) (auto intro!: grows_intros)

lemma grows_bufToView [grows_intros]: "grows (bufToView b)"
  unfolding bufToView_def by (intro grows_intros)


section \<open>Messages of the shell\<close>

lemma grows_assign_at [grows_intros]: "grows (assign_at a z)"
  unfolding assign_at_def by (intro grows_intros)

lemma grows_assign_or_fail [grows_intros]: "grows (assign_or_fail a z)"
  unfolding assign_or_fail_def by (intro grows_intros)

lemma grows_fromsh_addAddr [grows_intros]: "grows (fromsh_addAddr r a)"
  by (cases r) (auto simp: fromsh_addAddr_def intro!: grows_intros)

lemma grows_addressesDiffer [grows_intros]: "grows (addressesDiffer r1 r2)"
  by (cases r1; cases r2) (auto simp: addressesDiffer_def intro!: grows_intros)

lemma grows_or_free [grows_intros]: "grows m \<Longrightarrow> (\<And>x. grows (f x)) \<Longrightarrow> grows (or_free p m f)"
  unfolding or_free_def by (intro grows_intros)

lemma grows_flags [grows_intros]: "grows (set_flag a i)" "grows (set_recip_flag w a i)"
  unfolding set_flag_def set_recip_flag_def by (intro grows_intros)+

lemma grows_add_recipients [grows_intros]: "grows (add_recipients p xs r)"
  by (induction xs arbitrary: r) (auto simp: Let_def intro!: grows_intros)

lemma grows_add_replyTo [grows_intros]: "grows (add_replyTo p xs a)"
  by (induction xs arbitrary: a) (auto intro!: grows_intros)

lemma grows_replyTo_recipients [grows_intros]: "grows (replyTo_recipients p heading a)"
  unfolding replyTo_recipients_def by (intro grows_intros)

lemma grows_add_opt_str [grows_intros]: "grows (add_opt_str p a z)"
  unfolding add_opt_str_def by (intro grows_intros)

lemma grows_has_sender [grows_intros]: "grows (has_sender heading)"
  by (auto simp: has_sender_def intro!: grows_intros split: uash_recipient.split)

lemma grows_add_message_flags [grows_intros]: "grows (add_message_flags heading a)"
  by (auto simp: add_message_flags_def intro!: grows_intros split: uash_priority.split uash_importance.split)

lemma grows_messageFromShell [grows_intros]: "grows (ua_messageFromShell heading body)"
  unfolding ua_messageFromShell_def Let_def by (intro grows_intros)

end
