(* ===== verification/Ua_Frame.thy ===== *)
theory Ua_Frame
  imports Ua_Event Mem_Grow
begin

text \<open>
  The interface between a property of the state of the user agent and its programs. From the
  preservation of the property by single updates follows its preservation by the programs that are
  made of such updates: \<open>ua_basic\<close> has the updates with which memory, operations and events are
  handled, \<open>ua_neutral\<close> the others but those that start or end an operation, give a machine or
  a timer to an operation, or tell the shell the outcome of a submission.
\<close>

section \<open>Rules\<close>

lemma keeps_ok [keeps_intros]: "keeps P (ok x)"
  by (simp add: ok_def keeps_intros)

lemma keeps_FAIL_RC [keeps_intros]: "keeps P (FAIL_RC e)"
  by (simp add: FAIL_RC_def keeps_intros)

lemma keeps_case_sum [keeps_intros]:
  "(\<And>e. keeps P (f e)) \<Longrightarrow> (\<And>x. keeps P (g x)) \<Longrightarrow> keeps P (case r of Inl e \<Rightarrow> f e | Inr x \<Rightarrow> g x)"
  by (cases r) simp_all

lemma keeps_RC_CALL [keeps_intros]:
  "keeps P m \<Longrightarrow> (\<And>x. keeps P (f x)) \<Longrightarrow> keeps P (RC_CALL m f)"
  unfolding RC_CALL_def by (intro keeps_intros)

lemma keeps_mem_get [keeps_intros]: "keeps P (mem_get f)"
  unfolding mem_get_def by (rule keeps_gets)

lemma keeps_ua_upd: "(\<And>s. P s \<Longrightarrow> \<not> u_aborted s \<Longrightarrow> P (f s)) \<Longrightarrow> keeps P (ua_upd f)"
  by (simp add: keeps_def ua_upd_def run_simps)

lemma keeps_on_mem:
  "(\<And>s. P s \<Longrightarrow> \<not> u_aborted s \<Longrightarrow> P (s\<lparr>u_mem := exec m (u_mem s)\<rparr>)) \<Longrightarrow> keeps P (on_mem m)"
  unfolding on_mem_def by (intro keeps_intros keeps_ua_upd)


lemma run_RC:
  "exec (RC_CALL m f) s = (case result m s of Inl e \<Rightarrow> exec m s | Inr x \<Rightarrow> exec (f x) (exec m s))"
  "result (RC_CALL m f) s = (case result m s of Inl e \<Rightarrow> Inl e | Inr x \<Rightarrow> result (f x) (exec m s))"
  "exec (ok x) s = s" "result (ok x) s = Inr x" "exec (FAIL_RC e) s = s" "result (FAIL_RC e) s = Inl e"
  for s :: 's
  by (simp_all add: RC_CALL_def run_simps ok_def FAIL_RC_def split: sum.split)


section \<open>Memory, operations and events\<close>

definition same_pool :: "(ua_operation \<Rightarrow> ua_operation) \<Rightarrow> bool" where
  "same_pool f \<longleftrightarrow> (\<forall>x. op_pPool (f x) = op_pPool x)"

lemma same_poolI [simp]: "(\<And>x. op_pPool (f x) = op_pPool x) \<Longrightarrow> same_pool f"
  by (simp add: same_pool_def)

locale ua_basic =
  fixes P :: "ua \<Rightarrow> bool"
  assumes mem: "P s \<Longrightarrow> mem_grows (u_mem s) h \<Longrightarrow> P (s\<lparr>u_mem := h\<rparr>)"
    and undef: "P s \<Longrightarrow> P (s\<lparr>u_undefined := True\<rparr>)"
    and abort: "P s \<Longrightarrow> P (s\<lparr>u_aborted := True\<rparr>)"
    and operation: "P s \<Longrightarrow> op_pPool x = op_pPool (u_op s p) \<Longrightarrow> P (s\<lparr>u_op := (u_op s)(p := x)\<rparr>)"
    and calls: "P s \<Longrightarrow> P (s\<lparr>u_calls := n\<rparr>)"
    and sch: "P s \<Longrightarrow> P (s\<lparr>u_sch := q\<rparr>)"
    and request: "P s \<Longrightarrow> P (s\<lparr>u_requests := rs\<rparr>)"
begin

lemma keep_on_mem: "grows m \<Longrightarrow> keeps P (on_mem m)"
  by (intro keeps_on_mem mem) (auto dest: growsD)

lemma keep_undefined: "keeps P (ua_upd (\<lambda>s. s\<lparr>u_undefined := True\<rparr>))"
  by (intro keeps_ua_upd undef)

lemma keep_touch: "keeps P (touch p)"
  unfolding touch_def by (intro keeps_ua_upd) (simp add: undef)

lemma keep_get_op: "keeps P (get_op p)"
  unfolding get_op_def by (intro keeps_intros keep_touch)

lemma keep_upd_op: "same_pool f \<Longrightarrow> keeps P (upd_op p f)"
  unfolding upd_op_def by (intro keeps_intros keep_touch keeps_ua_upd operation) (simp_all add: same_pool_def)

lemma keep_ask: "keeps P (ask f)"
  unfolding ask_def by (intro keeps_intros keeps_ua_upd calls)

lemma keep_add_request: "keeps P (add_request r)"
  unfolding add_request_def by (intro keeps_ua_upd request)

lemma keep_EH_fatal: "keeps P EH_fatal"
  unfolding EH_fatal_def by (intro keeps_ua_upd abort)

lemma keep_submit_task: "keeps P (submit_task t)"
  unfolding submit_task_def by (intro keeps_ua_upd) (auto split: option.split intro: abort sch)

lemma keep_free_block: "keeps P (free_block p)"
  unfolding free_block_def by (intro keeps_intros keep_touch keep_on_mem grows_intros)

lemmas basic = keep_on_mem keep_undefined keep_touch keep_get_op keep_upd_op keep_ask
  keep_add_request keep_EH_fatal keep_submit_task keep_free_block same_poolI

lemma keep_events:
  "keeps P (FSM_generateEvent m e)" "keeps P (FSM_deleteMachine m)" "keeps P (failure_event m)"
  unfolding FSM_generateEvent_def FSM_deleteMachine_def failure_event_def
  by (intro keeps_intros basic grows_intros)+

lemma keep_call_free: "keeps P (call_free f p)"
  by (cases f) (auto simp: call_free_def intro!: keeps_intros basic keep_events grows_intros)

lemma keep_free_pendings: "keeps P (free_pendings ps)"
  by (induction ps) (auto intro!: keeps_intros basic)

lemma keep_free_users: "keeps P (free_users us)"
  by (induction us) (auto intro!: keeps_intros basic keep_call_free)

lemma keep_free_blocks: "keeps P (free_blocks bs)"
  by (induction bs) (auto intro!: keeps_intros basic)

lemmas keep_free_lists = keep_free_pendings keep_free_users keep_free_blocks

lemma keep_userFree:
  "keeps P (ua_operationAddUserFree p f u)" "keeps P (ua_operationDelUserFree p u)"
  unfolding ua_operationAddUserFree_def ua_operationDelUserFree_def
  by (intro keeps_intros basic grows_intros; simp)+

lemma keep_clean_up: "keeps P (clean_up f d)"
  unfolding clean_up_def by (intro keeps_intros keep_call_free)

lemma keep_addUserFree_or_free: "keeps P (addUserFree_or_free p f u)"
  unfolding addUserFree_or_free_def by (intro keeps_intros keep_userFree keep_call_free)

lemma keep_set_rc: "keeps P m \<Longrightarrow> keeps P (set_rc p m)"
  unfolding set_rc_def by (intro keeps_intros basic; simp)

lemma keep_result_request: "keeps P (result_request i v)"
  unfolding result_request_def by (intro keeps_intros basic)

lemma keep_issueErrorRequest: "keeps P (ua_issueErrorRequest i e)" "keeps P (esroevt_issueErrorRequest r i)"
  unfolding ua_issueErrorRequest_def esroevt_issueErrorRequest_def Let_def
  by (intro keeps_intros basic grows_intros)+

lemma keep_generate: "keeps P (generate p e)"
  unfolding generate_def by (intro keeps_intros basic keep_events)

lemmas basics = basic keep_events keep_call_free keep_free_lists keep_userFree keep_clean_up
  keep_addUserFree_or_free keep_set_rc keep_result_request keep_issueErrorRequest keep_generate

end

text \<open>Updates of the active operations and the pools; then the end of an operation is one more rule.\<close>

locale ua_frame = ua_basic +
  assumes active: "P s \<Longrightarrow> P (s\<lparr>u_active := xs\<rparr>)"
    and pool: "P s \<Longrightarrow> P (s\<lparr>u_pool := f\<rparr>)"
begin

lemma keep_freeOperation: "keeps P (ua_freeOperation p)"
  unfolding ua_freeOperation_def
  by (intro keeps_intros basics keeps_ua_upd active pool; simp)

end


section \<open>The other updates\<close>

fun submit_outcome :: "ua_upcall \<Rightarrow> ptr option" where
  "submit_outcome (SubmitSuccess p i x) = Some p"
| "submit_outcome (SubmitFail p t x) = Some p"
| "submit_outcome _ = None"

locale ua_neutral = ua_basic +
  assumes machine: "P s \<Longrightarrow> m_userData x = m_userData (u_machine s m) \<Longrightarrow>
      P (s\<lparr>u_machine := (u_machine s)(m := x)\<rparr>)"
    and upcall_other: "P s \<Longrightarrow> submit_outcome c = None \<Longrightarrow> P (s\<lparr>u_upcalls := u_upcalls s @ [c]\<rparr>)"
    and timers: "P s \<Longrightarrow> set q \<subseteq> set (u_timers s) \<Longrightarrow> P (s\<lparr>u_timers := q\<rparr>)"
    and verify: "P s \<Longrightarrow> P (s\<lparr>u_verify := v\<rparr>)" and verifyId: "P s \<Longrightarrow> P (s\<lparr>u_verifyId := i\<rparr>)"
    and duplicate: "P s \<Longrightarrow> P (s\<lparr>u_duplicate := d\<rparr>)"
    and instanceId: "P s \<Longrightarrow> P (s\<lparr>u_instanceId := n'\<rparr>)"
    and sequence: "P s \<Longrightarrow> P (s\<lparr>u_sequence := k\<rparr>)"
    and cfg: "P s \<Longrightarrow> P (s\<lparr>u_cfg := c'\<rparr>)"
    and views: "P s \<Longrightarrow> P (s\<lparr>u_views := w\<rparr>)"
begin

lemma keep_upcall: "submit_outcome c = None \<Longrightarrow> keeps P (upcall c)"
  unfolding upcall_def by (intro keeps_ua_upd upcall_other)

lemma keep_machine: "keeps P (set_curState m q)" "keeps P (set_transDiag m d)"
  unfolding set_curState_def set_transDiag_def by (intro keeps_intros basic keeps_ua_upd machine; simp)+

lemma keep_loadMachine: "keeps P (ua_loadMachine m d)"
  unfolding ua_loadMachine_def FSM_TRANSDIAG_load_def FSM_TRANSDIAG_resetMachine_def
  by (intro keeps_intros keep_machine)

lemma keep_duplicate: "keeps P (ua_isDuplicate v opv)" "keeps P (ua_addDuplicateDetection v opv)"
  by (auto simp: ua_isDuplicate_def ua_addDuplicateDetection_def Let_def
      intro!: keeps_intros basic keeps_ua_upd duplicate instanceId split: list.split)

lemma keep_issueInvoke: "keeps P (ua_issueInvoke p b)"
  unfolding ua_issueInvoke_def by (intro keeps_intros basic grows_intros keep_duplicate; simp)

lemma keep_view_block: "keeps P (view_block xs)"
  unfolding view_block_def
  by (intro keeps_intros basic keeps_ua_upd views grows_intros grows_modify) simp

lemma keep_viewToBuf: "keeps P (viewToBuf v)"
  unfolding viewToBuf_def by (intro keeps_intros basic keep_view_block grows_intros)

lemma keep_tosh_elements: "keeps P (tosh_elements n a esize f)"
  by (induction n arbitrary: a) (auto intro!: keeps_intros basic grows_intros)

lemma keep_messageToShell: "keeps P (ua_messageToShell d ipm p)"
  unfolding ua_messageToShell_def Let_def
  by (intro keeps_intros basics keep_tosh_elements keep_upcall; simp)

lemma keep_formatAndInvoke:
  "keeps P (submit_formatAndInvoke p arg b)" "keeps P (perform_formatAndInvoke p arg)"
  unfolding submit_formatAndInvoke_def perform_formatAndInvoke_def
  by (intro keeps_intros basics grows_intros keep_issueInvoke; simp)+

lemmas neutral = basics keep_upcall keep_machine keep_loadMachine keep_duplicate keep_issueInvoke
  keep_view_block keep_viewToBuf keep_messageToShell keep_formatAndInvoke

end

end
