(* ===== verification/Ua_Inv.thy ===== *)
theory Ua_Inv
  imports Ua_Frame
begin

text \<open>
  The invariant of the operations of the user agent: what machines and timers refer to is an active
  operation or has been freed; the pools and the active operations together stay as they were; and
  an operation has at most one outcome, after which it is gone. It holds as long as the program
  has not used a block that it had freed and the process is alive.
\<close>

section \<open>The invariant\<close>

definition alive :: "ua \<Rightarrow> bool" where
  "alive s \<longleftrightarrow> \<not> u_aborted s \<and> \<not> u_undefined s"

definition outcomes :: "ptr \<Rightarrow> ua \<Rightarrow> nat" where
  "outcomes p s = length (filter (\<lambda>c. submit_outcome c = Some p) (u_upcalls s))"

definition of_pool :: "ua_pool \<Rightarrow> ua \<Rightarrow> nat" where
  "of_pool k s = length (filter (\<lambda>p. op_pPool (u_op s p) = k) (u_active s))"

text \<open>
  While an operation is being ended it is not active any more but not yet freed: \<open>ex\<close> is that
  operation, with its pool. \<open>ow\<close> is an operation whose outcome has been told before it is freed.
\<close>

definition owned :: "(ptr \<times> ua_pool) option \<Rightarrow> ua \<Rightarrow> ptr \<Rightarrow> bool" where
  "owned ex s p \<longleftrightarrow> p < o_next (u_mem s) \<and>
     (p \<in> o_live (u_mem s) \<longrightarrow> p \<in> set (u_active s) \<or> map_option fst ex = Some p)"

definition core :: "(ua_pool \<Rightarrow> nat) \<Rightarrow> (ptr \<times> ua_pool) option \<Rightarrow> ptr option \<Rightarrow> ua \<Rightarrow> bool" where
  "core cap ex ow s \<longleftrightarrow>
     0 < o_next (u_mem s) \<and> NULL \<notin> o_live (u_mem s) \<and> map_option fst ex \<noteq> Some NULL \<and>
     distinct (u_active s) \<and> (\<forall>p \<in> set (u_active s). p < o_next (u_mem s)) \<and>
     (\<forall>m. owned ex s (m_userData (u_machine s m))) \<and>
     (\<forall>t \<in> set (u_timers s). owned ex s (tm_data t)) \<and>
     (\<forall>k. cap k < 256 \<and>
       unat (u_pool s k) + of_pool k s + (if map_option snd ex = Some k then 1 else 0) = cap k) \<and>
     (\<forall>p. outcomes p s \<le> 1 \<and>
       (outcomes p s = 1 \<longrightarrow> p < o_next (u_mem s) \<and> (p \<notin> o_live (u_mem s) \<or> ow = Some p)))"

text \<open>\<open>p\<close> is the operation that the program is about, NULL if there is none.\<close>

definition ua_inv :: "(ua_pool \<Rightarrow> nat) \<Rightarrow> (ptr \<times> ua_pool) option \<Rightarrow> ptr option \<Rightarrow> ptr \<Rightarrow> bool \<Rightarrow> ua \<Rightarrow> bool" where
  "ua_inv cap ex ow p new s \<longleftrightarrow>
     (alive s \<longrightarrow> core cap ex ow s \<and> owned ex s p \<and> (new \<longrightarrow> outcomes p s = 0))"

lemma owned_grows:
  "owned ex s p \<Longrightarrow> mem_grows (u_mem s) h \<Longrightarrow> owned ex (s\<lparr>u_mem := h\<rparr>) p"
  by (auto simp: owned_def mem_grows_def)

lemma owned_same:
  "owned ex s p \<Longrightarrow> u_mem s' = u_mem s \<Longrightarrow> u_active s' = u_active s \<Longrightarrow> owned ex s' p"
  by (simp add: owned_def)

lemma core_grows:
  assumes c: "core cap ex ow s" and g: "mem_grows (u_mem s) h"
  shows "core cap ex ow (s\<lparr>u_mem := h\<rparr>)"
proof -
  have next_le: "o_next (u_mem s) \<le> o_next h" and live: "o_live h \<subseteq> o_live (u_mem s) \<union> {o_next (u_mem s)..<o_next h}"
    using g by (auto simp: mem_grows_def)
  have "p < o_next h \<and> (p \<notin> o_live h \<or> ow = Some p)" if "outcomes p s = 1" for p
  proof -
    have "p < o_next (u_mem s)" "p \<notin> o_live (u_mem s) \<or> ow = Some p"
      using c that by (simp_all add: core_def)
    then show ?thesis using next_le live by auto
  qed
  moreover have "NULL \<notin> o_live h" using c live by (auto simp: core_def)
  moreover have "\<forall>p \<in> set (u_active s). p < o_next h"
    using c next_le by (auto simp: core_def intro: less_le_trans)
  ultimately show ?thesis
    using c next_le owned_grows [OF _ g] unfolding core_def of_pool_def outcomes_def by simp
qed

lemma core_same:
  assumes "core cap ex ow s"
    and "u_mem s' = u_mem s" "u_active s' = u_active s" "u_pool s' = u_pool s"
    and "\<And>p. op_pPool (u_op s' p) = op_pPool (u_op s p)"
    and "\<And>m. m_userData (u_machine s' m) = m_userData (u_machine s m)"
    and "set (u_timers s') \<subseteq> set (u_timers s)" and "\<And>p. outcomes p s' = outcomes p s"
  shows "core cap ex ow s'"
  using assms by (simp add: core_def owned_def of_pool_def) blast

lemma ua_inv_same:
  assumes "ua_inv cap ex ow p new s" and "alive s' \<Longrightarrow> alive s"
    and "u_mem s' = u_mem s" "u_active s' = u_active s" "u_pool s' = u_pool s"
    and "\<And>p. op_pPool (u_op s' p) = op_pPool (u_op s p)"
    and "\<And>m. m_userData (u_machine s' m) = m_userData (u_machine s m)"
    and "set (u_timers s') \<subseteq> set (u_timers s)"
    and "filter (\<lambda>c. submit_outcome c \<noteq> None) (u_upcalls s') = filter (\<lambda>c. submit_outcome c \<noteq> None) (u_upcalls s)"
  shows "ua_inv cap ex ow p new s'"
proof -
  have count: "outcomes q r =
      length (filter (\<lambda>c. submit_outcome c = Some q) (filter (\<lambda>c. submit_outcome c \<noteq> None) (u_upcalls r)))" for q r
    by (auto simp: outcomes_def intro!: arg_cong [where f = length] filter_cong)
  have out: "outcomes q s' = outcomes q s" for q
    unfolding count [of q s'] count [of q s] by (simp only: assms(9))
  show ?thesis
    using assms(1,2) core_same [OF _ assms(3-8) out] owned_same [OF _ assms(3,4)] out
    by (simp add: ua_inv_def)
qed

interpretation ui: ua_neutral "ua_inv cap ex ow p new" for cap ex ow p new
proof unfold_locales
  fix s h assume "ua_inv cap ex ow p new s" "mem_grows (u_mem s) h"
  then show "ua_inv cap ex ow p new (s\<lparr>u_mem := h\<rparr>)"
    by (simp add: ua_inv_def alive_def core_grows owned_grows outcomes_def)
qed (erule ua_inv_same; simp add: alive_def)+

lemma ua_inv_forget: "ua_inv cap None ow p new s \<Longrightarrow> ua_inv cap None ow NULL False s"
  by (auto simp: ua_inv_def core_def owned_def)

lemma ua_inv_old: "ua_inv cap ex ow p True s \<Longrightarrow> ua_inv cap ex ow p False s"
  by (simp add: ua_inv_def)



section \<open>The end of an operation\<close>

text \<open>\<open>p\<close> is in use when it has just been read: then it is active, and nothing was told about it.\<close>

lemma alive_touch:
  "alive (exec (touch p) s) \<Longrightarrow> alive s \<and> exec (touch p) s = s \<and> p \<in> o_live (u_mem s)"
  by (auto simp: touch_def ua_upd_def run_simps alive_def split: if_splits)

lemma alive_get_op:
  "alive (exec (get_op p) s) \<Longrightarrow>
    alive s \<and> exec (get_op p) s = s \<and> p \<in> o_live (u_mem s) \<and> result (get_op p) s = u_op s p"
  using alive_touch [of p s] by (auto simp: get_op_def run_simps)

lemma get_op_active:
  "triple (ua_inv cap None ow p new) (get_op p) (\<lambda>x s. ua_inv cap None ow p False s \<and>
     (alive s \<longrightarrow> p \<in> set (u_active s) \<and> p \<noteq> NULL \<and> x = u_op s p))"
proof (rule tripleI)
  fix s assume i: "ua_inv cap None ow p new s"
  let ?s = "exec (get_op p) s"
  show "ua_inv cap None ow p False ?s \<and>
      (alive ?s \<longrightarrow> p \<in> set (u_active ?s) \<and> p \<noteq> NULL \<and> result (get_op p) s = u_op ?s p)"
  proof (cases "alive ?s")
    case True
    note a = alive_get_op [OF True]
    then have "core cap None ow s" "owned None s p" using i by (simp_all add: ua_inv_def)
    moreover from this a have "p \<in> set (u_active s)" by (simp add: owned_def)
    moreover have "p \<noteq> NULL" using a \<open>core cap None ow s\<close> by (cases "p = NULL") (simp_all add: core_def)
    ultimately show ?thesis using a by (simp add: ua_inv_def)
  qed (simp add: ua_inv_def)
qed

lemma get_op_new:
  "triple (ua_inv cap None None p new) (get_op p) (\<lambda>_. ua_inv cap None None p True)"
proof (rule tripleI)
  fix s assume i: "ua_inv cap None None p new s"
  let ?s = "exec (get_op p) s"
  have "keeps (ua_inv cap None None p new) (get_op p)" by (rule ui.keep_get_op)
  then have i': "ua_inv cap None None p new ?s" using i by (rule keepsD)
  show "ua_inv cap None None p True ?s"
  proof (cases "alive ?s")
    case True
    have "p \<in> o_live (u_mem ?s)"
      using alive_get_op [OF True] by simp
    moreover have c: "core cap None None ?s" "owned None ?s p"
      using i' True by (simp_all add: ua_inv_def)
    then have "outcomes p ?s \<le> 1" "outcomes p ?s = 1 \<longrightarrow> p \<notin> o_live (u_mem ?s)"
      by (simp_all add: core_def)
    ultimately have "outcomes p ?s = 0" by (cases "outcomes p ?s") auto
    with c show ?thesis by (simp add: ua_inv_def)
  qed (simp add: ua_inv_def)
qed

lemma of_pool_remove:
  assumes "distinct (u_active s)" "p \<in> set (u_active s)"
  shows "of_pool k s = of_pool k (s\<lparr>u_active := remove1 p (u_active s)\<rparr>) +
    (if op_pPool (u_op s p) = k then 1 else 0)"
proof -
  obtain xs ys where a: "u_active s = xs @ p # ys" "p \<notin> set xs"
    using assms(2) by (meson split_list_first)
  then show ?thesis by (simp add: of_pool_def remove1_append)
qed

lemma upd_active_remove:
  "triple (\<lambda>s. ua_inv cap None ow p False s \<and> (alive s \<longrightarrow> p \<in> set (u_active s) \<and> p \<noteq> NULL \<and> x = u_op s p))
     (ua_upd (\<lambda>s. s\<lparr>u_active := remove1 p (u_active s)\<rparr>))
     (\<lambda>_. ua_inv cap (Some (p, op_pPool x)) ow p False)"
proof (rule tripleI)
  fix s assume i: "ua_inv cap None ow p False s \<and> (alive s \<longrightarrow> p \<in> set (u_active s) \<and> p \<noteq> NULL \<and> x = u_op s p)"
  let ?s = "s\<lparr>u_active := remove1 p (u_active s)\<rparr>"
  show "ua_inv cap (Some (p, op_pPool x)) ow p False (exec (ua_upd (\<lambda>s. s\<lparr>u_active := remove1 p (u_active s)\<rparr>)) s)"
  proof (cases "alive s")
    case True
    with i have c: "core cap None ow s" "owned None s p" and p: "p \<in> set (u_active s)" "p \<noteq> NULL" "x = u_op s p"
      by (simp_all add: ua_inv_def)
    have d: "distinct (u_active s)" using c by (simp add: core_def)
    have o: "owned (Some (p, op_pPool x)) ?s q" if "owned None s q" for q
      using that d by (auto simp: owned_def)
    have "cap k < 256 \<and> unat (u_pool ?s k) + of_pool k ?s +
        (if map_option snd (Some (p, op_pPool x)) = Some k then 1 else 0) = cap k" for k
    proof -
      have "cap k < 256" "unat (u_pool s k) + of_pool k s = cap k" using c(1) by (simp_all add: core_def)
      then show ?thesis using of_pool_remove [OF d p(1), of k] p(3) by simp
    qed
    moreover have "\<forall>q \<in> set (u_active ?s). q < o_next (u_mem s)"
      using c(1) by (auto simp: core_def dest: notin_set_remove1)
    ultimately have "core cap (Some (p, op_pPool x)) ow ?s"
      using c(1) o p(2) d unfolding core_def outcomes_def by simp
    then show ?thesis
      using True o [OF c(2)] by (simp add: ua_upd_def run_simps alive_def ua_inv_def)
  qed (auto simp: ua_upd_def run_simps alive_def ua_inv_def)
qed

lemma exec_free_block_alive:
  assumes "alive (exec (free_block p) s)" and "p \<noteq> NULL"
  shows "alive s" and "exec (free_block p) s = s\<lparr>u_mem := exec (OS_free p) (u_mem s)\<rparr>"
proof -
  let ?s = "exec (touch p) s"
  have eq: "exec (free_block p) s = exec (on_mem (OS_free p)) ?s"
    using assms(2) by (simp add: free_block_def run_simps)
  with assms(1) have "alive ?s"
    by (auto simp: on_mem_def ua_upd_def run_simps alive_def split: if_splits)
  with alive_touch [of p s] show "alive s" "exec (free_block p) s = s\<lparr>u_mem := exec (OS_free p) (u_mem s)\<rparr>"
    by (simp_all add: eq on_mem_def ua_upd_def run_simps alive_def)
qed

lemma free_block_done:
  assumes ow: "ow = None \<or> ow = Some p"
  shows "triple (ua_inv cap (Some (p, k)) ow p False)
     (do { ua_upd (\<lambda>s. s\<lparr>u_pool := (u_pool s)(k := u_pool s k + 1)\<rparr>); free_block p })
     (\<lambda>_. ua_inv cap None None p False)"
proof (rule tripleI)
  fix s
  assume i: "ua_inv cap (Some (p, k)) ow p False s"
  let ?s1 = "exec (ua_upd (\<lambda>s. s\<lparr>u_pool := (u_pool s)(k := u_pool s k + 1)\<rparr>)) s"
  let ?s2 = "exec (free_block p) ?s1"
  have "ua_inv cap None None p False ?s2"
  proof (cases "alive ?s2")
    case True
    show ?thesis
    proof (cases "alive s")
      case s: True
      then have c: "core cap (Some (p, k)) ow s" and p: "p \<noteq> NULL" "p < o_next (u_mem s)"
        using i by (auto simp: ua_inv_def core_def owned_def)
      have eq: "?s2 = s\<lparr>u_pool := (u_pool s)(k := u_pool s k + 1),
          u_mem := (u_mem s)\<lparr>o_live := o_live (u_mem s) - {p}\<rparr>\<rparr>"
        using exec_free_block_alive [OF True p(1)] s
        by (simp add: ua_upd_def run_simps alive_def OS_free_def)
      have o: "owned None ?s2 q" if "owned (Some (p, k)) s q" for q
        using that by (auto simp: owned_def eq)
      have pool: "cap j < 256 \<and> unat (u_pool ?s2 j) + of_pool j ?s2 = cap j" for j
      proof -
        have j: "cap j < 256" "unat (u_pool s j) + of_pool j s + (if k = j then 1 else 0) = cap j"
          using c by (simp_all add: core_def)
        have same: "of_pool j ?s2 = of_pool j s" by (simp add: of_pool_def eq)
        have "unat (u_pool s k + 1) = unat (u_pool s k) + 1" if "j = k"
          using j that by (simp add: unat_word_ariths(1))
        then show ?thesis using j same by (cases "j = k") (simp_all add: eq)
      qed
      have out: "outcomes q ?s2 \<le> 1 \<and> (outcomes q ?s2 = 1 \<longrightarrow> q < o_next (u_mem ?s2) \<and> q \<notin> o_live (u_mem ?s2))" for q
      proof -
        have "outcomes q s \<le> 1" "outcomes q s = 1 \<longrightarrow> q < o_next (u_mem s) \<and> (q \<notin> o_live (u_mem s) \<or> ow = Some q)"
          using c by (simp_all add: core_def)
        moreover have "outcomes q ?s2 = outcomes q s" by (simp add: outcomes_def eq)
        ultimately show ?thesis using ow by (auto simp: eq)
      qed
      have "core cap None None ?s2"
        using c o pool out unfolding core_def by (simp add: eq)
      moreover have "owned None ?s2 p" using p by (simp add: owned_def eq)
      ultimately show ?thesis by (simp add: ua_inv_def)
    next
      case dead: False
      then have "\<not> alive ?s1" by (auto simp: ua_upd_def run_simps alive_def)
      moreover have "alive ?s1"
        using True exec_free_block_alive(1) [OF True] by (cases "p = NULL") (simp_all add: free_block_def run_simps)
      ultimately show ?thesis by simp
    qed
  qed (simp add: ua_inv_def)
  then show "ua_inv cap None None p False (exec (do {
      ua_upd (\<lambda>s. s\<lparr>u_pool := (u_pool s)(k := u_pool s k + 1)\<rparr>); free_block p }) s)"
    by (simp add: run_simps)
qed

lemma triple_keeps: "keeps P m \<Longrightarrow> triple P m (\<lambda>_. P)"
  by (simp add: keeps_def triple_def)

lemma freeOperation_inv:
  assumes "ow = None \<or> ow = Some p"
  shows "triple (ua_inv cap None ow p new) (ua_freeOperation p) (\<lambda>_. ua_inv cap None None p False)"
  unfolding ua_freeOperation_def
  by (intro triple_bind [OF get_op_active] triple_bind [OF upd_active_remove]
      triple_bind [OF triple_keeps [OF ui.keep_upd_op]] triple_bind [OF triple_keeps [OF ui.keep_free_pendings]]
      triple_bind [OF triple_keeps [OF ui.keep_free_users]] free_block_done [OF assms]) simp_all

end
