(* ===== verification/Ua_Reach.thy ===== *)
theory Ua_Reach
  imports Ua_Inv
begin

text \<open>
  Every program of the user agent keeps the invariant \<open>ua_inv\<close>, and so it holds in every reachable
  state.
\<close>

abbreviation (input) ua_ok :: "(ua_pool \<Rightarrow> nat) \<Rightarrow> ptr \<Rightarrow> ua \<Rightarrow> bool" where
  "ua_ok cap p \<equiv> ua_inv cap None None p False"

section \<open>Operations\<close>

lemma keeps_triple: "keeps P m \<longleftrightarrow> triple P m (\<lambda>_. P)"
  by (simp add: keeps_def triple_def)

lemma keeps_freeOperation: "keeps (ua_ok cap p) (ua_freeOperation p)"
  unfolding keeps_triple by (rule freeOperation_inv) simp

lemma upcall_outcome:
  assumes "submit_outcome c = Some p"
  shows "triple (ua_inv cap None None p True) (upcall c) (\<lambda>_. ua_inv cap None (Some p) p False)"
proof (rule tripleI)
  fix s assume i: "ua_inv cap None None p True s"
  have out: "outcomes q (s\<lparr>u_upcalls := u_upcalls s @ [c]\<rparr>) = outcomes q s + (if q = p then 1 else 0)" for q
    using assms by (simp add: outcomes_def)
  have "core cap None (Some p) (s\<lparr>u_upcalls := u_upcalls s @ [c]\<rparr>)" if "core cap None None s" "owned None s p" "outcomes p s = 0"
    using that unfolding core_def out by (auto simp: owned_def of_pool_def)
  then show "ua_inv cap None (Some p) p False (exec (upcall c) s)"
    using i by (auto simp: upcall_def ua_upd_def run_simps ua_inv_def alive_def owned_def)
qed

lemma tell_and_free:
  assumes "submit_outcome c = Some p"
  shows "triple (ua_inv cap None None p True) (do { upcall c; ua_freeOperation p; return r }) (\<lambda>_. ua_ok cap p)"
  by (intro triple_bind [OF upcall_outcome [OF assms]] triple_bind [OF freeOperation_inv] triple_keeps keeps_intros)
    simp

lemma keeps_userData:
  "keeps (ua_inv cap ex ow p new)
    (ua_upd (\<lambda>s. s\<lparr>u_machine := (u_machine s)(m := (u_machine s m)\<lparr>m_userData := p\<rparr>)\<rparr>))"
  by (rule keeps_ua_upd) (auto simp: ua_inv_def alive_def core_def owned_def of_pool_def outcomes_def)

lemma keeps_createMachine: "keeps (ua_ok cap p) (FSM_createMachine p)"
  unfolding FSM_createMachine_def by (intro keeps_intros ui.basics keeps_userData grows_intros)

lemma keeps_new_timer:
  assumes "\<And>s t. t \<in> set (f s) \<Longrightarrow> t \<in> set (u_timers s) \<or> tm_data t = p"
  shows "keeps (ua_ok cap p) (ua_upd (\<lambda>s. s\<lparr>u_timers := f s\<rparr>))"
proof (rule keeps_ua_upd)
  fix s assume i: "ua_ok cap p s"
  have "core cap None None (s\<lparr>u_timers := f s\<rparr>)" if "core cap None None s" "owned None s p"
    using that assms [of _ s] unfolding core_def by (auto simp: owned_def of_pool_def outcomes_def)
  then show "ua_ok cap p (s\<lparr>u_timers := f s\<rparr>)"
    using i by (simp add: ua_inv_def alive_def owned_def)
qed

lemma TMR_start_data:
  "TMR_start os block ms p q = Some (t, q') \<Longrightarrow> set q' \<subseteq> insert \<lparr>tm_desc = block, expiryTime = the (tmr_currentTime os) + ms, tm_data = p\<rparr> (set q)"
  by (auto simp: TMR_start_def split: option.splits if_splits)

lemma keeps_startTimer: "keeps (ua_ok cap p) (start_segmentationTimer p)"
proof -
  have "keeps (ua_ok cap p) (do {
       timers \<leftarrow> gets u_timers;
       case TMR_start os block ms p timers of
         None \<Rightarrow> FAIL_RC ResourceError
       | Some (hTimer, timers') \<Rightarrow> do {
           ua_upd (\<lambda>s. s\<lparr>u_timers := timers'\<rparr>);
           upd_op p (\<lambda>x. x\<lparr>op_hSegmentationTimer := hTimer\<rparr>);
           ok ()
         }
     })" for os block ms
  proof (rule keepsI)
    fix s assume i: "ua_ok cap p s"
    have "ua_ok cap p (exec (do {
           ua_upd (\<lambda>s. s\<lparr>u_timers := timers'\<rparr>);
           upd_op p (\<lambda>x. x\<lparr>op_hSegmentationTimer := hTimer\<rparr>);
           ok ()
         }) s)" if "TMR_start os block ms p (u_timers s) = Some (hTimer, timers')" for hTimer timers'
    proof -
      have "core cap None None (s\<lparr>u_timers := timers'\<rparr>)" if "core cap None None s" "owned None s p"
        using that TMR_start_data [OF \<open>TMR_start os block ms p (u_timers s) = Some (hTimer, timers')\<close>]
        unfolding core_def by (auto simp: owned_def of_pool_def outcomes_def)
      then have "ua_ok cap p (exec (ua_upd (\<lambda>s. s\<lparr>u_timers := timers'\<rparr>)) s)"
        using i by (simp add: ua_upd_def run_simps ua_inv_def alive_def owned_def)
      moreover have "keeps (ua_ok cap p) (do { upd_op p (\<lambda>x. x\<lparr>op_hSegmentationTimer := hTimer\<rparr>); ok () })"
        by (intro keeps_intros ui.basics) simp
      ultimately show ?thesis by (subst exec_bind) (rule keepsD)
    qed
    then show "ua_ok cap p (exec (do {
       timers \<leftarrow> gets u_timers;
       case TMR_start os block ms p timers of
         None \<Rightarrow> FAIL_RC ResourceError
       | Some (hTimer, timers') \<Rightarrow> do {
           ua_upd (\<lambda>s. s\<lparr>u_timers := timers'\<rparr>);
           upd_op p (\<lambda>x. x\<lparr>op_hSegmentationTimer := hTimer\<rparr>);
           ok ()
         }
     }) s)"
      using i by (auto simp: run_simps FAIL_RC_def split: option.split)
  qed
  then show ?thesis
    unfolding start_segmentationTimer_def
    by (intro keeps_bind [OF ui.keep_ask] keeps_if keeps_FAIL_RC keeps_bind [OF ui.keep_on_mem] grows_OS_alloc)
qed

lemma keeps_stopTimer: "keeps (ua_inv cap ex ow p new) (stop_segmentationTimer q)"
  unfolding stop_segmentationTimer_def
  by (intro keeps_intros ui.basics keeps_ua_upd ui.timers set_TMR_stop; simp)

text \<open>A new operation is in an address that nothing refers to.\<close>

interpretation dead: ua_frame "\<lambda>s. \<not> alive s"
  by unfold_locales (auto simp: alive_def)

lemma dead_alloc: "keeps (\<lambda>s. \<not> alive s) (ua_allocOperation k sh)"
  unfolding ua_allocOperation_def
  by (intro keeps_intros dead.keep_on_mem grows_intros keeps_ua_upd dead.active dead.pool)
    (auto simp: upd_op_def touch_def keeps_def ua_upd_def run_simps alive_def)

lemma word8_minus: "x \<noteq> 0 \<Longrightarrow> unat (x - 1 :: u8) + 1 = unat x"
  by (simp add: unat_minus_one unat_gt_0)

lemma alloc_core:
  assumes c: "core cap None None s" and pool: "u_pool s k \<noteq> 0"
    and mem: "o_next m = o_next (u_mem s) + 1" "o_live m = insert (o_next (u_mem s)) (o_live (u_mem s))"
    and x: "op_pPool x = k"
  defines "p \<equiv> o_next (u_mem s)"
  defines "s' \<equiv> s\<lparr>u_mem := m, u_op := (u_op s)(p := x), u_active := u_active s @ [p],
      u_pool := (u_pool s)(k := u_pool s k - 1)\<rparr>"
  shows "core cap None None s'" and "owned None s' p"
proof -
  have p: "p \<notin> set (u_active s)" "0 < p" using c by (auto simp: core_def p_def)
  have o: "owned None s' q" if "owned None s q" for q
    using that by (auto simp: owned_def s'_def p_def mem)
  have count: "of_pool j s' = of_pool j s + (if j = k then 1 else 0)" for j
  proof -
    have "filter (\<lambda>q. op_pPool (((u_op s)(p := x)) q) = j) (u_active s) = filter (\<lambda>q. op_pPool (u_op s q) = j) (u_active s)"
      using p by (intro filter_cong) auto
    then show ?thesis by (simp add: of_pool_def s'_def x)
  qed
  have "cap j < 256 \<and> unat (u_pool s' j) + of_pool j s' = cap j" for j
  proof -
    have "cap j < 256" "unat (u_pool s j) + of_pool j s = cap j" using c by (simp_all add: core_def)
    then show ?thesis using count [of j] word8_minus [OF pool] by (cases "j = k") (simp_all add: s'_def)
  qed
  moreover have "outcomes q s' = outcomes q s" for q by (simp add: outcomes_def s'_def)
  moreover have "outcomes q s = 1 \<longrightarrow> q < o_next m \<and> q \<notin> o_live m" for q
    using c by (auto simp: core_def mem)
  ultimately show "core cap None None s'"
    using c o p unfolding core_def by (auto simp: s'_def mem p_def)
  show "owned None s' p" by (simp add: owned_def s'_def p_def mem)
qed

lemma exec_ua_upd: "\<not> u_aborted s \<Longrightarrow> exec (ua_upd f) s = f s"
  by (simp add: ua_upd_def run_simps)

lemma exec_upd_op:
  "\<not> u_aborted s \<Longrightarrow> p \<in> o_live (u_mem s) \<Longrightarrow>
    exec (upd_op p f) s = s\<lparr>u_op := (u_op s)(p := f (u_op s p))\<rparr>"
  by (simp add: upd_op_def touch_def ua_upd_def run_simps)

lemma run_on_mem:
  "\<not> u_aborted s \<Longrightarrow> exec (on_mem m) s = s\<lparr>u_mem := exec m (u_mem s)\<rparr>"
  "result (on_mem m) s = result m (u_mem s)"
  by (simp_all add: on_mem_def ua_upd_def run_simps)

lemma allocOperation_inv:
  "triple (ua_ok cap NULL) (ua_allocOperation k sh)
    (\<lambda>r. case r of Inl _ \<Rightarrow> ua_ok cap NULL | Inr p \<Rightarrow> ua_ok cap p)"
proof (rule tripleI)
  fix s assume i: "ua_ok cap NULL s"
  let ?r = "result (ua_allocOperation k sh) s" and ?s = "exec (ua_allocOperation k sh) s"
  show "(case ?r of Inl _ \<Rightarrow> ua_ok cap NULL | Inr p \<Rightarrow> ua_ok cap p) ?s"
  proof (cases "alive s")
    case False
    then have "\<not> alive ?s" by (rule keepsD [OF dead_alloc])
    then show ?thesis by (simp add: ua_inv_def split: sum.split)
  next
    case True
    then have c: "core cap None None s" "owned None s NULL" using i by (simp_all add: ua_inv_def)
    have na: "\<not> u_aborted s" using True by (simp add: alive_def)
    show ?thesis
    proof (cases "u_pool s k = 0 \<or> o_fail (u_mem s) (o_count (u_mem s))")
      case True
      have "keeps (ua_ok cap NULL) (on_mem (OS_alloc 0))" by (intro ui.basics grows_intros)
      then have "ua_ok cap NULL (exec (on_mem (OS_alloc 0)) s)" using i by (rule keepsD)
      then show ?thesis
        using i True na
        by (auto simp: ua_allocOperation_def run_simps FAIL_RC_def on_mem_def OS_alloc_def ua_upd_def)
    next
      case ok: False
      define m where "m = exec (OS_alloc 0) (u_mem s)"
      define p where "p = o_next (u_mem s)"
      have m: "result (OS_alloc 0) (u_mem s) = p" "o_next m = o_next (u_mem s) + 1"
        "o_live m = insert (o_next (u_mem s)) (o_live (u_mem s))"
        using ok by (simp_all add: m_def p_def OS_alloc_def run_simps)
      have p: "p \<noteq> NULL" using c by (simp add: core_def p_def)
      have run: "exec (on_mem (OS_alloc 0)) s = s\<lparr>u_mem := m\<rparr>" "result (on_mem (OS_alloc 0)) s = p"
        using na by (simp_all add: run_on_mem m(1) flip: m_def)
      have pool: "u_pool s k \<noteq> 0" using ok by simp
      let ?x = "(u_op s p)\<lparr>
           op_encodingType := 0, op_hFsm := NULL, op_hSapDesc := 0, op_rc := None,
           op_bComplete := False, op_hOperationData := NULL, op_hFirstOperationData := NULL,
           op_hFullPduBuf := NULL, op_hSegmentBuf := (\<lambda>i. NULL), op_expectedSegmentMask := 0,
           op_receivedSegmentMask := 0, op_sequenceId := 0, op_lastSegmentNumber := 0,
           op_segmentLength := 0, op_hSegmentationTimer := NULL, op_pendingQ := [],
           op_hCurrentBuf := NULL, op_retryCount := 0, op_status := MTSUA_Status_Success,
           op_userFreeQ := [], op_pPool := k, op_pHackData := sh\<rparr>"
      have live: "p \<in> o_live m" by (simp add: m(3) p_def)
      have x: "?s = s\<lparr>u_mem := m, u_op := (u_op s)(p := ?x), u_active := u_active s @ [p],
          u_pool := (u_pool s)(k := u_pool s k - 1)\<rparr>" "?r = Inr p"
        unfolding ua_allocOperation_def
        by (simp_all add: run_simps run pool p exec_ua_upd exec_upd_op na live ok_def)
      show ?thesis
        using alloc_core [OF c(1) pool m(2,3), of ?x] by (simp add: x p_def ua_inv_def)
    qed
  qed
qed


section \<open>Submissions\<close>

lemma keeps_verify:
  "keeps (ua_inv cap ex ow p new) (verify_upd f)" "keeps (ua_inv cap ex ow p new) verify_element"
  unfolding verify_upd_def verify_element_def
  by (intro keeps_intros keeps_ua_upd ui.verify; assumption)+

lemma keeps_verifyId: "keeps (ua_inv cap ex ow p new) (ua_upd (\<lambda>s. s\<lparr>u_verifyId := f s\<rparr>))"
  by (intro keeps_ua_upd ui.verifyId)

lemma keeps_submit_predicates:
  "keeps (ua_inv cap ex ow p new) (submit_pS2S1a m q e)"
  "keeps (ua_inv cap ex ow p new) (submit_pS2S1b m q e)"
  "keeps (ua_inv cap ex ow p new) (submit_pS2S1d m q e)"
  unfolding submit_pS2S1a_def submit_pS2S1b_def submit_pS2S1d_def
  by (intro keeps_intros ui.basics; simp)+

lemma grows_set_segmentInfo: "grows (set_segmentInfo a q c n)"
  unfolding set_segmentInfo_def Let_def by (intro grows_intros)

lemma keeps_submit_aS1S2a: "keeps (ua_ok cap p) (submit_aS1S2a m p e)"
  unfolding submit_aS1S2a_def
  by (intro keeps_intros ui.neutral grows_intros grows_set_segmentInfo keeps_ua_upd ui.sequence; simp)

lemma keeps_submit_aS2S2a: "keeps (ua_ok cap p) (submit_aS2S2a m p e)"
  unfolding submit_aS2S2a_def
  by (intro keeps_intros ui.neutral grows_intros grows_set_segmentInfo; simp)

lemma keeps_submit_aS2S2b: "keeps (ua_ok cap p) (submit_aS2S2b m p e)"
  unfolding submit_aS2S2b_def by (intro keeps_intros ui.neutral)

lemma keeps_submit_fail: "keeps (ua_ok cap p) (submit_fail p b)"
  unfolding submit_fail_def keeps_triple
  by (intro triple_bind [OF get_op_new] tell_and_free) simp

lemma keeps_submit_aS2S1a: "keeps (ua_ok cap p) (submit_aS2S1a m p e)"
  unfolding submit_aS2S1a_def keeps_triple
  by (intro triple_bind [OF get_op_new] triple_bind [OF triple_keeps [OF keeps_mem_get]]
      triple_bind [OF triple_keeps [OF keeps_verify(2)]] triple_bind [OF triple_keeps [OF keeps_verifyId]]
      triple_bind [OF triple_keeps [OF keeps_gets]] triple_bind [OF triple_keeps [OF keeps_verify(1)]] tell_and_free)
    simp_all

lemma keeps_submit_frees:
  "keeps (ua_ok cap p) (submit_aS2S1b m p e)" "keeps (ua_ok cap p) (submit_aS2S1c m p e)"
  "keeps (ua_ok cap p) (submit_aS2S1d m p e)" "keeps (ua_ok cap p) (submit_aUnexpectedEvent m p e)"
  unfolding submit_aS2S1b_def submit_aS2S1c_def submit_aS2S1d_def submit_aUnexpectedEvent_def
  by (intro keeps_submit_fail keeps_intros keeps_freeOperation)+

lemmas keeps_submit = keeps_submit_predicates keeps_submit_aS1S2a keeps_submit_aS2S1a
  keeps_submit_aS2S2a keeps_submit_aS2S2b keeps_submit_frees


section \<open>Deliveries\<close>

lemma keeps_take_pending: "keeps (ua_inv cap ex ow p new) (take_pending q)"
  unfolding take_pending_def by (intro keeps_intros ui.basics; simp)

lemma keeps_keep_segment: "keeps (ua_inv cap ex ow p new) (keep_segment q d i)"
  unfolding keep_segment_def by (intro keeps_intros ui.basics grows_intros; simp)

lemma keeps_firstSegment: "keeps (ua_ok cap p) (firstSegment p d i n)"
  unfolding firstSegment_def Let_def
  by (intro keeps_intros ui.basics keeps_keep_segment keeps_startTimer; simp)

lemma keeps_appendSegments: "keeps (ua_inv cap ex ow p new) (appendSegments q is full)"
  by (induction "is") (auto intro!: keeps_intros ui.basics grows_intros)

lemma keeps_allSegments: "keeps (ua_inv cap ex ow p new) (allSegments q)"
  unfolding allSegments_def Let_def
  by (intro keeps_intros ui.basics keeps_appendSegments keeps_stopTimer grows_intros; simp)

lemma keeps_otherSegment: "keeps (ua_inv cap ex ow p new) (otherSegment q d n)"
  unfolding otherSegment_def Let_def
  by (intro keeps_intros ui.basics keeps_keep_segment keeps_allSegments; simp)

lemma keeps_reassemble: "keeps (ua_ok cap p) (reassemble p d)"
  unfolding reassemble_def Let_def
  by (intro keeps_intros ui.basics keeps_firstSegment keeps_otherSegment; simp)

lemma keeps_deliver: "keeps (ua_inv cap ex ow p new) (deliver q d)"
  unfolding deliver_def
  by (intro keeps_intros ui.neutral grows_intros; simp)

lemma keeps_perform_predicates:
  "keeps (ua_ok cap p) (perform_pS1S2a m p e)" "keeps (ua_ok cap p) (perform_pS1S5a m p e)"
  "keeps (ua_ok cap p) (perform_pS1S5b m p e)" "keeps (ua_ok cap p) (perform_pS2S1a m p e)"
  "keeps (ua_ok cap p) (perform_pS2S1d m p e)" "keeps (ua_ok cap p) (perform_pS2S1e m p e)"
  "keeps (ua_ok cap p) (perform_pS2S2a m p e)"
  unfolding perform_pS1S2a_def perform_pS1S5a_def perform_pS1S5b_def perform_pS2S1a_def
    perform_pS2S1d_def perform_pS2S1e_def perform_pS2S2a_def
  by (intro keeps_intros ui.basics keeps_take_pending keeps_reassemble keeps_deliver)+

lemma keeps_perform_aS1S2a: "keeps (ua_ok cap p) (perform_aS1S2a m p e)"
  unfolding perform_aS1S2a_def Let_def by (intro keeps_intros ui.basics; simp)

lemma keeps_perform_aS1S4a: "keeps (ua_ok cap p) (perform_aS1S4a m p e)"
  unfolding perform_aS1S4a_def by (intro keeps_intros ui.basics)

lemma keeps_perform_aS1S5a: "keeps (ua_ok cap p) (perform_aS1S5a m p e)"
  unfolding perform_aS1S5a_def by (intro keeps_intros ui.basics grows_intros)

lemma keeps_perform_status: "keeps (ua_ok cap p) (perform_status p st)"
  unfolding perform_status_def by (intro keeps_intros ui.neutral keeps_freeOperation) simp

lemma grows_string_block: "grows (string_block xs)"
  unfolding string_block_def by (intro grows_intros grows_modify) simp

lemma keeps_perform_aS2S3a: "keeps (ua_ok cap p) (perform_aS2S3a m p e)"
  unfolding perform_aS2S3a_def
  by (intro keeps_intros ui.neutral grows_intros grows_string_block)

lemma keeps_perform_actions:
  "keeps (ua_ok cap p) (perform_aS1S5b m p e)" "keeps (ua_ok cap p) (perform_aS2S1a m p e)"
  "keeps (ua_ok cap p) (perform_aS2S1b m p e)" "keeps (ua_ok cap p) (perform_aS2S1c m p e)"
  "keeps (ua_ok cap p) (perform_aS2S1d m p e)" "keeps (ua_ok cap p) (perform_aS2S1e m p e)"
  "keeps (ua_ok cap p) (perform_aS2S2a m p e)" "keeps (ua_ok cap p) (perform_aS3S1a m p e)"
  "keeps (ua_ok cap p) (perform_aS3S1b m p e)" "keeps (ua_ok cap p) (perform_aS4S1a m p e)"
  "keeps (ua_ok cap p) (perform_aS4S1b m p e)" "keeps (ua_ok cap p) (perform_aS5S1a m p e)"
  "keeps (ua_ok cap p) (perform_aS5S1b m p e)" "keeps (ua_ok cap p) (perform_aS5S1c m p e)"
  "keeps (ua_ok cap p) (perform_aUnexpectedEvent m p e)"
  unfolding perform_aS1S5b_def perform_aS2S1a_def perform_aS2S1b_def perform_aS2S1c_def
    perform_aS2S1d_def perform_aS2S1e_def perform_aS2S2a_def perform_aS3S1a_def perform_aS3S1b_def
    perform_aS4S1a_def perform_aS4S1b_def perform_aS5S1a_def perform_aS5S1b_def perform_aS5S1c_def
    perform_aUnexpectedEvent_def
  by (intro keeps_intros ui.basics keeps_freeOperation keeps_perform_status)+

lemmas keeps_perform = keeps_perform_predicates keeps_perform_aS1S2a keeps_perform_aS1S4a
  keeps_perform_aS1S5a keeps_perform_aS2S3a keeps_perform_actions


section \<open>Machines\<close>

lemma keeps_with_user:
  assumes "\<And>p. keeps (ua_ok cap p) (f m p e)"
  shows "keeps (ua_ok cap NULL) (with_user f m e)"
proof (rule keepsI)
  fix s assume i: "ua_ok cap NULL s"
  let ?s = "exec (touch m) s" and ?p = "m_userData (u_machine (exec (touch m) s) m)"
  have "ua_ok cap NULL ?s" by (rule keepsD [OF ui.keep_touch i])
  then have "ua_ok cap ?p ?s" by (simp add: ua_inv_def core_def)
  then have "ua_ok cap ?p (exec (f m ?p e) ?s)" by (rule keepsD [OF assms])
  then have "ua_ok cap NULL (exec (f m ?p e) ?s)" by (rule ua_inv_forget)
  then show "ua_ok cap NULL (exec (with_user f m e) s)" by (simp add: with_user_def run_simps)
qed

lemmas ua_tables = submit_t1Idle_def submit_t2InvokeResponseWait_def perform_t1Idle_def
  perform_t2DeliverResultResponseWait_def perform_t3DeliverVerifyResponseWait_def
  perform_t4ErrorResponseWait_def perform_t5NotDeliverResultResponseWait_def

lemma keeps_ua_runMachine: "keeps (ua_ok cap NULL) (ua_runMachine m e)"
proof -
  have pred: "keeps (ua_ok cap NULL) (p m e)"
    if "t \<in> set (s_trans (ua_tbl q))" "t_predicate t = Some p" for q t p
    using that
    by (cases q) (auto simp: ua_tbl_def Let_def ua_tables ua_row_def intro!: keeps_with_user keeps_submit keeps_perform)
  have act: "keeps (ua_ok cap NULL) (f m e)"
    if "t \<in> set (s_trans (ua_tbl q))" "t_action t = Some f" for q t f
    using that
    by (cases q) (auto simp: ua_tbl_def Let_def ua_tables ua_row_def intro!: keeps_with_user keeps_submit keeps_perform)
  have "keeps (ua_ok cap NULL) (FSM_runMachine ua_tbl ua_curState set_curState m e)"
  proof (rule keeps_FSM_runMachine)
    show "keeps (ua_ok cap NULL) (set_curState m q)" for q by (rule ui.keep_machine)
  qed (use pred act in \<open>auto simp: ua_tbl_def Let_def split: ua_state.splits\<close>)
  then show ?thesis unfolding ua_runMachine_def by (intro keeps_intros ui.basics)
qed

lemma keeps_dispatch: "keeps (ua_ok cap NULL) (ua_dispatch t)"
  by (cases t) (auto simp: ua_dispatch_def intro!: keeps_intros ui.basics keeps_ua_runMachine)


section \<open>Indications\<close>

text \<open>A result that is an operation is one that the invariant knows.\<close>

definition res_ok :: "(ua_pool \<Rightarrow> nat) \<Rightarrow> rc + ptr \<Rightarrow> ua \<Rightarrow> bool" where
  "res_ok cap r = (case r of Inl _ \<Rightarrow> ua_ok cap NULL | Inr p \<Rightarrow> ua_ok cap p)"

lemma triple_RC_CALL:
  assumes "triple P m (\<lambda>r. case r of Inl e \<Rightarrow> Q (Inl e) | Inr x \<Rightarrow> R x)"
    and "\<And>x. triple (R x) (f x) Q"
  shows "triple P (RC_CALL m f) Q"
  unfolding RC_CALL_def
proof (rule triple_bind [OF assms(1)])
  fix r
  show "triple (case r of Inl e \<Rightarrow> Q (Inl e) | Inr x \<Rightarrow> R x)
      (case r of Inl e \<Rightarrow> return (Inl e) | Inr x \<Rightarrow> f x) Q"
    using assms(2) by (cases r) (simp_all add: triple_def run_simps)
qed

lemma triple_sum:
  "(\<And>e. triple P (f e) Q) \<Longrightarrow> (\<And>x. triple P (g x) Q) \<Longrightarrow>
    triple P (case r of Inl e \<Rightarrow> f e | Inr x \<Rightarrow> g x) Q"
  by (cases r) simp_all

lemma triple_case_option:
  "triple P m Q \<Longrightarrow> (\<And>x. triple P (f x) Q) \<Longrightarrow> triple P (case y of None \<Rightarrow> m | Some x \<Rightarrow> f x) Q"
  by (cases y) simp_all

lemma res_fail: "keeps (ua_ok cap p) m \<Longrightarrow> triple (ua_ok cap p) (do { m; FAIL_RC e }) (res_ok cap)"
  by (auto simp: triple_def keeps_def run_simps FAIL_RC_def res_ok_def intro: ua_inv_forget)

lemma res_fail': "triple (ua_ok cap p) (FAIL_RC e) (res_ok cap)"
  by (auto simp: triple_def run_simps FAIL_RC_def res_ok_def intro: ua_inv_forget)

lemma res_return: "triple (ua_ok cap p) (ok p) (res_ok cap)"
  by (simp add: triple_def run_simps ok_def res_ok_def)

lemma res_clean_up: "triple (ua_ok cap p) (clean_up f d) (res_ok cap)"
  unfolding clean_up_def by (intro res_fail keeps_intros ui.basics)

lemma res_seq: "keeps (ua_ok cap p) m \<Longrightarrow> triple (ua_ok cap p) n Q \<Longrightarrow> triple (ua_ok cap p) (do { m; n }) Q"
  by (intro triple_bind [OF triple_keeps])

lemmas res_bind = triple_bind [OF triple_keeps]

lemma newPerformer_inv: "triple (ua_ok cap NULL) (newPerformer f d) (res_ok cap)"
  unfolding newPerformer_def
proof (rule triple_bind [OF allocOperation_inv])
  fix r
  show "triple (case r of Inl _ \<Rightarrow> ua_ok cap NULL | Inr p \<Rightarrow> ua_ok cap p)
    (case r of Inl _ \<Rightarrow> clean_up f d
     | Inr p \<Rightarrow> do {
         hFsm \<leftarrow> FSM_createMachine p;
         upd_op p (\<lambda>x. x\<lparr>op_hFsm := hFsm\<rparr>);
         if hFsm = NULL then do { ua_freeOperation p; clean_up f d }
         else do {
           r \<leftarrow> ua_operationAddUserFree p Free_machine hFsm;
           case r of
             Inl e \<Rightarrow> do { _ \<leftarrow> FSM_deleteMachine hFsm; ua_freeOperation p; FAIL_RC e }
           | Inr _ \<Rightarrow> do { ua_loadMachine hFsm ua_performerTransDiag; ok p }
         }
       }) (res_ok cap)"
  proof (cases r)
    case (Inr p)
    show ?thesis
      unfolding Inr sum.case
      by (intro res_bind res_fail' res_return res_clean_up triple_if triple_sum keeps_createMachine ui.neutral
        keeps_freeOperation) simp_all
  qed (simp add: res_clean_up)
qed

text \<open>An operation that is found in the list of active operations.\<close>

lemma find_owned: "ua_ok cap NULL s \<Longrightarrow> find f (u_active s) = Some p \<Longrightarrow> ua_ok cap p s"
  by (auto simp: ua_inv_def owned_def core_def find_Some_iff)

lemma triple_found:
  assumes "\<And>s p. found s = Some p \<Longrightarrow> p \<in> set (u_active s)"
    and "triple (ua_ok cap NULL) m Q" and "\<And>p. triple (ua_ok cap p) (f p) Q"
  shows "triple (ua_ok cap NULL) (do { x \<leftarrow> gets found; case x of None \<Rightarrow> m | Some p \<Rightarrow> f p }) Q"
proof (rule tripleI)
  fix s assume i: "ua_ok cap NULL s"
  show "Q (result (do { x \<leftarrow> gets found; case x of None \<Rightarrow> m | Some p \<Rightarrow> f p }) s)
      (exec (do { x \<leftarrow> gets found; case x of None \<Rightarrow> m | Some p \<Rightarrow> f p }) s)"
  proof (cases "found s")
    case None
    then show ?thesis using tripleD [OF assms(2) i] by (simp add: run_simps)
  next
    case (Some p)
    then have "ua_ok cap p s" using i assms(1) [OF Some] by (simp add: ua_inv_def owned_def core_def)
    with Some show ?thesis using tripleD [OF assms(3)] by (simp add: run_simps)
  qed
qed

lemma found_active:
  "findOperationBySequenceId i s = Some p \<Longrightarrow> p \<in> set (u_active s)"
  "findOperationByInvokeId j s = Some p \<Longrightarrow> p \<in> set (u_active s)"
  by (auto simp: findOperationBySequenceId_def findOperationByInvokeId_def find_Some_iff)

definition pre_ok :: "(ua_pool \<Rightarrow> nat) \<Rightarrow> rc + (ptr \<times> free_fn \<times> ptr \<times> ptr option) \<Rightarrow> ua \<Rightarrow> bool" where
  "pre_ok cap r = (case r of
     Inr (d, f, b, Some p) \<Rightarrow> ua_ok cap p | _ \<Rightarrow> ua_ok cap NULL)"

lemma pre_fail: "keeps (ua_ok cap NULL) m \<Longrightarrow> triple (ua_ok cap NULL) (do { m; FAIL_RC e }) (pre_ok cap)"
  by (auto simp: triple_def keeps_def run_simps FAIL_RC_def pre_ok_def)

lemma pre_returns:
  "triple (ua_ok cap NULL) (FAIL_RC e) (pre_ok cap)"
  "triple (ua_ok cap NULL) (ok (d, f, b, None)) (pre_ok cap)"
  "triple (ua_ok cap p) (ok (d, f, b, Some p)) (pre_ok cap)"
  by (simp_all add: triple_def run_simps FAIL_RC_def ok_def pre_ok_def)

lemma pre_clean_up: "triple (ua_ok cap NULL) (clean_up f d) (pre_ok cap)"
  unfolding clean_up_def by (intro pre_fail keeps_intros ui.basics)

lemma pre_RC_CALL:
  assumes "keeps (ua_ok cap NULL) m" and "\<And>x. triple (ua_ok cap NULL) (f x) (pre_ok cap)"
  shows "triple (ua_ok cap NULL) (RC_CALL m f) (pre_ok cap)"
  unfolding RC_CALL_def
  by (intro res_bind assms triple_sum) (simp add: triple_def run_simps pre_ok_def)

lemma preprocess_inv:
  "triple (ua_ok cap NULL) (preprocessDeliver b e) (pre_ok cap)"
  "triple (ua_ok cap NULL) (preprocessSubmissionVerify b e) (pre_ok cap)"
  unfolding preprocessDeliver_def preprocessSubmissionVerify_def Let_def
  by (intro pre_RC_CALL res_bind triple_sum triple_if triple_found [OF found_active(1)] pre_clean_up pre_returns
      keeps_mem_get ui.basics grows_intros; assumption)+

lemma add_pending_inv:
  "triple (ua_ok cap p)
    (do {
         pPending \<leftarrow> on_mem (OS_alloc 0);
         if pPending = NULL then do { ua_freeOperation p; clean_up pfFree d }
         else do {
           upd_op p (\<lambda>x. x\<lparr>op_pendingQ := op_pendingQ x @ [(pPending, r)]\<rparr>);
           r \<leftarrow> ua_operationAddUserFree p pfFree d;
           case r of
             Inl e \<Rightarrow> do {
               upd_op p (\<lambda>x. x\<lparr>op_rc := Some e\<rparr>);
               ua_freeOperation p;
               clean_up pfFree d
             }
           | Inr _ \<Rightarrow> do {
               upd_op p (\<lambda>x. x\<lparr>op_rc := None\<rparr>);
               if hExtraBuf = NULL then ok p
               else do {
                 r \<leftarrow> ua_operationAddUserFree p Free_BUF hExtraBuf;
                 case r of
                   Inl e \<Rightarrow> do {
                     upd_op p (\<lambda>x. x\<lparr>op_rc := Some e\<rparr>);
                     clean_up pfFree d
                   }
                 | Inr _ \<Rightarrow> ok p
               }
             }
         }
       }) (res_ok cap)"
  by (intro res_bind triple_if triple_sum res_clean_up res_return keeps_freeOperation ui.basics grows_intros)
    simp_all

lemma preprocessInvokeIndication_inv:
  "triple (ua_ok cap NULL) (ua_preprocessInvokeIndication b opv en i d sel) (res_ok cap)"
proof -
  let ?first = "if EMSD_OP_PROTO opv 1 1 = EMSD_Operation_Delivery_1_1 then preprocessDeliver b en
     else if EMSD_OP_PROTO opv 1 1 = EMSD_Operation_SubmissionVerify_1_1
     then preprocessSubmissionVerify b en else FAIL_RC Fail"
  have first: "triple (ua_ok cap NULL) ?first (pre_ok cap)"
    by (intro triple_if preprocess_inv pre_returns)
  have found: "triple (case found of None \<Rightarrow> ua_ok cap NULL | Some p \<Rightarrow> ua_ok cap p)
      (case found of None \<Rightarrow> newPerformer f x | Some p \<Rightarrow> ok p) (res_ok cap)" for found f x
    by (cases found) (simp_all add: newPerformer_inv res_return)
  show ?thesis
    unfolding ua_preprocessInvokeIndication_def Let_def
  proof (rule triple_RC_CALL [where R = "\<lambda>(d, f, b, found). case found of None \<Rightarrow> ua_ok cap NULL | Some p \<Rightarrow> ua_ok cap p"])
    show "triple (ua_ok cap NULL) ?first
       (\<lambda>r. case r of Inl e \<Rightarrow> res_ok cap (Inl e)
         | Inr (d, f, b, found) \<Rightarrow> case found of None \<Rightarrow> ua_ok cap NULL | Some p \<Rightarrow> ua_ok cap p)"
      by (rule triple_conseq [OF first])
        (auto simp: pre_ok_def res_ok_def split: sum.splits option.splits prod.splits)
  next
    fix x :: "ptr \<times> free_fn \<times> ptr \<times> ptr option"
    obtain q f c found where x: "x = (q, f, c, found)" by (cases x)
    show "triple (case x of (d, f, b, found) \<Rightarrow> case found of None \<Rightarrow> ua_ok cap NULL | Some p \<Rightarrow> ua_ok cap p)
       (case x of (d', pfFree, hExtraBuf, found) \<Rightarrow>
          RC_CALL (case found of None \<Rightarrow> newPerformer pfFree d' | Some p \<Rightarrow> ok p) (\<lambda>p. do {
         pPending \<leftarrow> on_mem (OS_alloc 0);
         if pPending = NULL then do { ua_freeOperation p; clean_up pfFree d' }
         else do {
           upd_op p (\<lambda>x. x\<lparr>op_pendingQ := op_pendingQ x @ [(pPending,
             \<lparr>pe_operationValue = EMSD_OP_PROTO opv 1 1, pe_encodingType = en, pe_invokeId = i,
              pe_hSapDesc = d, pe_sapSel = sel, pe_hOperationData = d'\<rparr>)]\<rparr>);
           r \<leftarrow> ua_operationAddUserFree p pfFree d';
           case r of
             Inl e \<Rightarrow> do {
               upd_op p (\<lambda>x. x\<lparr>op_rc := Some e\<rparr>);
               ua_freeOperation p;
               clean_up pfFree d'
             }
           | Inr _ \<Rightarrow> do {
               upd_op p (\<lambda>x. x\<lparr>op_rc := None\<rparr>);
               if hExtraBuf = NULL then ok p
               else do {
                 r \<leftarrow> ua_operationAddUserFree p Free_BUF hExtraBuf;
                 case r of
                   Inl e \<Rightarrow> do {
                     upd_op p (\<lambda>x. x\<lparr>op_rc := Some e\<rparr>);
                     clean_up pfFree d'
                   }
                 | Inr _ \<Rightarrow> ok p
               }
             }
         }
       })) (res_ok cap)"
      unfolding x prod.case
      by (rule triple_RC_CALL [OF _ add_pending_inv], rule triple_conseq [OF found])
        (auto simp: res_ok_def split: sum.splits)
  qed
qed

lemma keeps_preprocessArgument:
  "grows alloc \<Longrightarrow> keeps (ua_ok cap p) (preprocessArgument p b alloc f protocol)"
  unfolding preprocessArgument_def by (intro keeps_intros ui.basics grows_intros)

lemma keeps_preprocessResult: "keeps (ua_ok cap p) (ua_preprocessResultIndication p b)"
  unfolding ua_preprocessResultIndication_def
  by (intro keeps_intros ui.basics keeps_preprocessArgument grows_intros; simp)

lemma keeps_preprocessError: "keeps (ua_ok cap p) (ua_preprocessErrorIndication p b)"
  unfolding ua_preprocessErrorIndication_def
  by (intro keeps_intros ui.basics keeps_preprocessArgument grows_intros; simp)

lemma grows_submitSecurity: "grows (submitSecurity z a)"
  unfolding submitSecurity_def Let_def by (intro grows_intros)

lemma keeps_submitMachine: "keeps (ua_ok cap p) (submitMachine p)"
  unfolding submitMachine_def by (intro keeps_intros ui.neutral keeps_createMachine; simp)

lemma keeps_preprocessSubmit: "keeps (ua_ok cap p) (ua_preprocessSubmitRequest p heading z)"
  unfolding ua_preprocessSubmitRequest_def
  by (intro keeps_intros ui.basics keeps_submitMachine grows_intros grows_submitSecurity; simp)


section \<open>Inputs\<close>

lemma keeps_forget: "keeps (ua_ok cap p) m \<Longrightarrow> triple (ua_ok cap p) m (\<lambda>_. ua_ok cap NULL)"
  by (auto simp: keeps_def triple_def intro: ua_inv_forget)

lemma keeps_found:
  assumes "\<And>s p. found s = Some p \<Longrightarrow> p \<in> set (u_active s)"
    and "keeps (ua_ok cap NULL) m" and "\<And>p. keeps (ua_ok cap p) (f p)"
  shows "keeps (ua_ok cap NULL) (do { x \<leftarrow> gets found; case x of None \<Rightarrow> m | Some p \<Rightarrow> f p })"
  unfolding keeps_triple
  by (intro triple_found assms keeps_forget triple_keeps)

lemma keeps_indications:
  "keeps (ua_ok cap NULL) (ua_resultIndication i v)"
  "keeps (ua_ok cap NULL) (ua_errorIndication i v)"
  "keeps (ua_ok cap NULL) (ua_event i e)"
  unfolding ua_resultIndication_def ua_errorIndication_def ua_event_def
  by (intro keeps_found [OF found_active(2)] keeps_intros ui.neutral keeps_preprocessResult keeps_preprocessError
      grows_intros; assumption?)+

lemma keeps_invokeIndication:
  "keeps (ua_ok cap NULL) (ua_invokeIndication d sel addr i opv en v)"
proof -
  have pre: "keeps (ua_ok cap NULL) (do {
                  r \<leftarrow> ua_preprocessInvokeIndication hBuf opv en i d sel;
                  case r of
                    Inl e \<Rightarrow> do {
                      esroevt_issueErrorRequest e i;
                      on_mem (BUF_free hBuf);
                      return SUCCESS
                    }
                  | Inr p \<Rightarrow> do {
                      on_mem (BUF_free hBuf);
                      generate p UA_FsmEvent_InvokeIndication;
                      return SUCCESS
                    }
                })" for hBuf
    unfolding keeps_triple
  proof (rule triple_bind [OF preprocessInvokeIndication_inv])
    fix r
    show "triple (res_ok cap r) (case r of
                    Inl e \<Rightarrow> do {
                      esroevt_issueErrorRequest e i;
                      on_mem (BUF_free hBuf);
                      return SUCCESS
                    }
                  | Inr p \<Rightarrow> do {
                      on_mem (BUF_free hBuf);
                      generate p UA_FsmEvent_InvokeIndication;
                      return SUCCESS
                    }) (\<lambda>_. ua_ok cap NULL)"
      by (cases r) (simp_all add: res_ok_def, (intro keeps_forget keeps_intros ui.basics grows_intros)+)
  qed
  show ?thesis
    unfolding ua_invokeIndication_def
    by (intro keeps_if keeps_case_option keeps_bind keeps_case_prod keeps_case_sum pre keeps_return keeps_gets
        ui.neutral grows_intros)
qed

lemma keeps_submitMessage: "keeps (ua_ok cap NULL) (UA_submitMessage heading z sh)"
proof -
  have "triple (ua_ok cap NULL) (RC_CALL (ua_allocOperation concurrentOperationsOutbound sh) (\<lambda>p. do {
       r \<leftarrow> ua_preprocessSubmitRequest p heading z;
       case r of
         Inl e \<Rightarrow> do { ua_freeOperation p; FAIL_RC e }
       | Inr _ \<Rightarrow> do { generate p UA_FsmEvent_MessageSubmitRequest; ok p }
     })) (\<lambda>_. ua_ok cap NULL)"
    by (intro triple_RC_CALL [OF allocOperation_inv] keeps_forget keeps_intros ui.basics keeps_preprocessSubmit
        keeps_freeOperation)
  then show ?thesis
    unfolding UA_submitMessage_def keeps_triple [symmetric]
    by (intro keeps_bind keeps_gets keeps_if keeps_FAIL_RC)
qed

lemma grows_OS_allocStringCopy: "grows (OS_allocStringCopy z)"
  unfolding OS_allocStringCopy_def by (intro grows_intros)

lemma keeps_setPassword: "keeps (ua_ok cap p) (UA_setPassword z)"
  unfolding UA_setPassword_def
  by (intro keeps_intros ui.basics grows_OS_allocStringCopy keeps_ua_upd ui.cfg)

lemma keeps_upd_ua_sch: "keeps (ua_ok cap p) (upd_ua_sch f)"
  unfolding upd_ua_sch_def by (intro keeps_ua_upd ui.sch)

lemma keeps_ua_tasks: "keeps (ua_ok cap NULL) (SCH_run u_sch upd_ua_sch ua_dispatch)"
  by (intro keeps_SCH_run keeps_upd_ua_sch keeps_dispatch)

lemma keeps_timer_handler: "keeps (ua_ok cap (tm_data t)) (ua_timer_handler t)"
  unfolding ua_timer_handler_def segmentationTimerExpired_def
  by (intro keeps_intros ui.basics keeps_freeOperation)

lemma keeps_timers: "keeps (ua_ok cap NULL) (ua_timers n)"
proof -
  let ?upd = "\<lambda>f. ua_upd (\<lambda>s. s\<lparr>u_timers := f (u_timers s)\<rparr>)"
  have loop: "keeps (ua_ok cap NULL) (TMR_processLoop u_timers ?upd ua_timer_handler now n)" for now n
  proof (induction n)
    case (Suc n)
    show ?case
    proof (rule keepsI)
      fix s assume i: "ua_ok cap NULL s"
      show "ua_ok cap NULL (exec (TMR_processLoop u_timers ?upd ua_timer_handler now (Suc n)) s)"
      proof (cases "u_timers s")
        case Nil
        then show ?thesis using i by (simp add: run_simps)
      next
        case (Cons t ts)
        let ?m = "do {
           ok \<leftarrow> ua_timer_handler t;
           if ok then TMR_processLoop u_timers ?upd ua_timer_handler now n else return TmrHandlerError
         }"
        have "ua_ok cap (tm_data t) s" using i Cons by (simp add: ua_inv_def core_def)
        moreover have "keeps (ua_ok cap (tm_data t)) (?upd tl)"
          by (intro keeps_ua_upd ui.timers) (auto dest: list.set_sel(2) intro: list.set_sel)
        ultimately have "ua_ok cap (tm_data t) (exec (?upd tl) s)" by (rule keepsD [rotated])
        moreover have "triple (ua_ok cap (tm_data t)) ?m (\<lambda>_. ua_ok cap NULL)"
          by (intro triple_bind [OF keeps_forget [OF keeps_timer_handler]] triple_keeps keeps_intros Suc.IH)
        ultimately have "ua_ok cap NULL (exec ?m (exec (?upd tl) s))" by (rule tripleD [rotated])
        then show ?thesis using i Cons by (simp add: run_simps)
      qed
    qed
  qed (simp add: keeps_intros)
  then show ?thesis
    unfolding ua_timers_def TMR_processQueue_def by (intro keeps_intros)
qed

lemma keeps_input: "keeps (ua_ok cap NULL) (ua_input i)"
  by (cases i) (auto simp: ua_input_def ua_resultConfirm_def ua_errorConfirm_def ua_failureIndication_def ua_reuse_def
      intro!: keeps_intros keeps_invokeIndication keeps_indications keeps_submitMessage keeps_setPassword
        keeps_upd_ua_sch keeps_ua_tasks keeps_timers ui.basics grows_intros)

lemma started_ok: "ua_started s \<Longrightarrow> ua_ok (\<lambda>k. unat (u_pool s k)) NULL s"
proof -
  have "unat (u_pool s k) < 256" for k using unsigned_less [of "u_pool s k"] by simp
  then show "ua_started s \<Longrightarrow> ua_ok (\<lambda>k. unat (u_pool s k)) NULL s"
    by (auto simp: ua_started_def ua_inv_def core_def owned_def of_pool_def outcomes_def)
qed

lemma reachable_ok: "ua_reachable s0 s \<Longrightarrow> ua_ok (\<lambda>k. unat (u_pool s0 k)) NULL s"
  by (induction rule: ua_reachable.induct) (auto intro: started_ok keepsD [OF keeps_input])

end
