(* ===== verification/Ua_Verify.thy ===== *)
theory Ua_Verify
  imports Ua_Event
begin

text \<open>
  Message identifiers and the queues in which the user agent remembers those of the messages it has
  submitted. Their ring operations are the ones of theory Qu where the rings are apart.
\<close>

section \<open>Identifiers\<close>

lemma unat_hexDigit: "d < 16 \<Longrightarrow> unat (hexDigit d) = (if d < 10 then 48 + d else 87 + d)"
  by (simp add: hexDigit_def unat_of_nat)

lemma hexValue_hexDigit: "d < 16 \<Longrightarrow> hexValue (hexDigit d) = Some d"
  by (auto simp: hexValue_def word_le_nat_alt unat_hexDigit)

lemma hexValue_stop: "hexValue 46 = None" "hexValue 64 = None"
  by (simp_all add: hexValue_def)

lemma hex8_digits: "c \<in> set (hex8 w) \<Longrightarrow> hexValue c \<noteq> None"
  by (auto simp: hex8_def hexValue_hexDigit)

lemma length_hex8 [simp]: "length (hex8 w) = 8"
  by (simp add: hex8_def)

lemma takeWhile_hex8:
  "(case xs of [] \<Rightarrow> True | c # _ \<Rightarrow> hexValue c = None) \<Longrightarrow>
    takeWhile (\<lambda>c. hexValue c \<noteq> None) (hex8 w @ xs) = hex8 w"
  using hex8_digits [of _ w] by (subst takeWhile_append2) (auto split: list.splits)

lemma foldl_digits:
  "(\<And>i. i < length ds \<Longrightarrow> ds ! i < 16) \<Longrightarrow>
    foldl (\<lambda>n c. 16 * n + the (hexValue c)) a (map hexDigit ds) = foldl (\<lambda>n d. 16 * n + d) a ds"
proof (induction ds arbitrary: a)
  case (Cons d ds)
  from Cons.prems [of 0] have "d < 16" by simp
  moreover have "\<And>i. i < length ds \<Longrightarrow> ds ! i < 16"
    using Cons.prems [of "Suc i" for i] by simp
  ultimately show ?case using Cons.IH by (simp add: hexValue_hexDigit)
qed simp

lemma foldl_base:
  fixes n :: nat
  shows "n < 16 ^ k \<Longrightarrow> foldl (\<lambda>n d. 16 * n + d) 0 (map (\<lambda>i. n div 16 ^ (k - 1 - i) mod 16) [0..<k]) = n"
proof (induction k arbitrary: n)
  case (Suc k)
  have eq: "map (\<lambda>i. n div 16 ^ (Suc k - 1 - i) mod 16) [0..<k]
      = map (\<lambda>i. n div 16 div 16 ^ (k - 1 - i) mod 16) [0..<k]"
  proof (rule map_cong [OF refl])
    fix i assume "i \<in> set [0..<k]"
    then have "Suc k - 1 - i = Suc (k - 1 - i)" by auto
    then show "n div 16 ^ (Suc k - 1 - i) mod 16 = n div 16 div 16 ^ (k - 1 - i) mod 16"
      by (simp add: div_mult2_eq)
  qed
  have "n div 16 < 16 ^ k" using Suc.prems by (simp add: less_mult_imp_div_less mult.commute)
  from Suc.IH [OF this] show ?case
    by (simp only: upt_Suc_append [OF le0] map_append foldl_append eq) simp
qed simp

lemma hex8_value: "foldl (\<lambda>n c. 16 * n + the (hexValue c)) 0 (hex8 w) = unat w"
proof -
  let ?ds = "map (\<lambda>i. unat w div 16 ^ (8 - 1 - i) mod 16) [0..<8]"
  have "hex8 w = map hexDigit ?ds"
    by (simp add: hex8_def)
  moreover have "foldl (\<lambda>n c. 16 * n + the (hexValue c)) 0 (map hexDigit ?ds) = foldl (\<lambda>n d. 16 * n + d) 0 ?ds"
    by (rule foldl_digits) simp
  moreover have "foldl (\<lambda>n d. 16 * n + d) 0 ?ds = unat w"
    using unat_u32 [of w] by (intro foldl_base) simp
  ultimately show ?thesis by simp
qed

lemma not_space_hex: "hexValue c \<noteq> None \<Longrightarrow> \<not> isSpace c"
  by (auto simp: hexValue_def isSpace_def word_le_nat_alt split: if_splits)

lemma scanHex_hex8:
  assumes "case xs of [] \<Rightarrow> True | c # _ \<Rightarrow> hexValue c = None"
  shows "scanHex (hex8 w @ xs) = Some (w, xs)"
proof -
  obtain c d cs where h: "hex8 w = c # d # cs"
    using length_hex8 [of w] by (cases "hex8 w" rule: remdups_adj.cases) auto
  have digits: "hexValue c \<noteq> None" "hexValue d \<noteq> None"
    using hex8_digits [of _ w] by (simp_all add: h)
  then have d: "d \<noteq> 120" "d \<noteq> 88" and c: "c \<noteq> 45" "c \<noteq> 43" by (auto simp: hexValue_def)
  have "scanDigits (hex8 w @ xs) = Some (unat w, xs)"
    using takeWhile_hex8 [OF assms, of w] hex8_value [of w]
    by (simp add: scanDigits_def Let_def) (simp add: h)
  moreover have "scanUnsigned (hex8 w @ xs) = scanDigits (hex8 w @ xs)"
    using d by (simp add: scanUnsigned_def h)
  moreover have "dropWhile isSpace (hex8 w @ xs) = hex8 w @ xs"
    using not_space_hex [OF digits(1)] by (simp add: h)
  moreover have "unat w \<le> 0xffffffff"
    using unat_u32 [of w] by simp
  ultimately show ?thesis
    using c by (simp add: scanHex_def Let_def saturate_def) (simp add: h saturate_def)
qed

lemma localId_length [simp]: "length (localId a b) = 17"
  by (simp add: localId_def)

lemma localId_inject: "localId a b = localId c d \<longleftrightarrow> a = c \<and> b = d"
proof
  assume eq: "localId a b = localId c d"
  then have "hex8 a = hex8 c" "hex8 b = hex8 d"
    by (simp_all add: localId_def append_eq_append_conv)
  then show "a = c \<and> b = d"
    using scanHex_hex8 [of "[]"] by (metis append_Nil2 list.case(1) option.inject prod.inject)
qed simp

lemma scanMessageId_localId: "scanMessageId (localId a b) = None"
  using scanHex_hex8 [of "46 # hex8 b" a] scanHex_hex8 [of "[]" b]
  by (simp add: scanMessageId_def localId_def literal_def hexValue_stop)

text \<open>With the rest of the format that the reading expects, the two numbers come back.\<close>

lemma scanMessageId_full:
  "scanMessageId (localId a b @ [64, 109, 116, 115] @ hex8 c @ [46] @ xs) = Some (a, b, c)"
  using scanHex_hex8 [of "46 # hex8 b @ [64, 109, 116, 115] @ hex8 c @ [46] @ xs" a]
    scanHex_hex8 [of "[64, 109, 116, 115] @ hex8 c @ [46] @ xs" b]
    scanHex_hex8 [of "[46] @ xs" c]
  by (simp add: scanMessageId_def localId_def literal_def hexValue_stop)


section \<open>Queues of identifiers\<close>

lemma verify_quInit_eq: "verify_quInit = QU_init"
  by (simp add: fun_eq_iff verify_quInit_def QU_init_def)

lemma verify_quRemove_eq: "verify_quRemove = QU_remove"
  by (simp add: fun_eq_iff verify_quRemove_def QU_remove_def QU_init_def Let_def)

lemma verify_quInsert_eq:
  assumes a: "ring h (a # xs)" and b: "ring h (b # ys)" and disj: "set (a # xs) \<inter> set (b # ys) = {}"
  shows "verify_quInsert a b h = QU_insert a b h"
proof -
  have "pNext h a \<in> set (a # xs)" "pPrev h a \<in> set (a # xs)" "pNext h b \<in> set (b # ys)" "pPrev h b \<in> set (b # ys)"
    using ring_closed [OF a, of a] ring_closed [OF b, of b] by auto
  with disj have "\<not> (pPrev h a = b \<or> pNext h a = b \<or> pPrev h b = a \<or> pNext h b = a)"
    by auto
  then show ?thesis
    by (simp add: verify_quInsert_def QU_insert_def)
qed

lemma init_elements_rings:
  "ring h [A] \<Longrightarrow> ring h (I # xs) \<Longrightarrow> distinct (A # I # xs @ es) \<Longrightarrow>
    ring (init_elements I es h) [A] \<and> ring (init_elements I es h) (I # xs @ es)"
proof (induction es arbitrary: h xs)
  case (Cons e es)
  let ?h = "verify_quInit e h"
  have e: "ring ?h [e]" and A: "ring ?h [A]" and I: "ring ?h (I # xs)"
    using Cons.prems alone_init [of e h]
    by (auto simp: verify_quInit_eq alone_def init_ring_other)
  have disj: "set [e] \<inter> set (I # xs) = {}" using Cons.prems(3) by auto
  have eq: "verify_quInsert e I ?h = QU_insert e I ?h"
    by (rule verify_quInsert_eq [OF e I disj])
  have "ring (QU_insert e I ?h) (I # xs @ [e])"
    using QU_insert_splice [OF e I disj] by simp
  moreover have "ring (QU_insert e I ?h) [A]"
    using QU_insert_frame [OF e I disj, of "[A]"] A Cons.prems(3) by auto
  ultimately show ?case
    using Cons.IH [of "verify_quInsert e I ?h" "xs @ [e]"] Cons.prems(3) by (simp add: eq)
qed simp

lemma init_verify_rings:
  assumes "distinct (A # I # es)"
  shows "ring (init_verify A I es h) [A]" and "ring (init_verify A I es h) (I # es)"
proof -
  have "ring (verify_quInit I (verify_quInit A h)) [A]" "ring (verify_quInit I (verify_quInit A h)) (I # [])"
    using assms alone_init [of A h] alone_init [of I "QU_init A h"]
    by (auto simp: verify_quInit_eq alone_def init_ring_other)
  then show "ring (init_verify A I es h) [A]" "ring (init_verify A I es h) (I # es)"
    using init_elements_rings [of _ A I "[]" es] assms by (auto simp: init_verify_def)
qed

text \<open>
  The element that is taken from the inactive queue and inserted into the active one, without
  being removed, joins the two rings; and then the head of the active queue is its own successor's.
\<close>

lemma rings_joined:
  assumes A: "ring h [A]" and I: "ring h (I # e # es)" and d: "distinct (A # I # e # es)"
  shows "ring (verify_quInsert e A h) (A # e # es @ [I])"
proof -
  have e: "ring h (e # es @ [I])" using ring_rotate [of h "[I]" "e # es"] I by simp
  have disj: "set (e # es @ [I]) \<inter> set [A] = {}" using d by auto
  show ?thesis
    using QU_insert_splice [OF e A disj] verify_quInsert_eq [OF e A disj] by simp
qed

lemma insert_self:
  assumes "ring h (A # xs @ [I])"
  shows "verify_quInsert A A h = h"
proof -
  have p: "pPrev h A = I" "pNext h I = A"
    using ring_prev_hd [OF assms] ring_next_last [OF assms] by auto
  have "(pNext h)(I := A) = pNext h" "(pPrev h)(A := I) = pPrev h"
    using p by auto
  then show ?thesis by (simp add: verify_quInsert_def Let_def p)
qed

end
