(* ===== verification/Buf_Share.thy ===== *)
theory Buf_Share
  imports Buf_Octets
begin

text \<open>
  Buffers that share strings: a part of a buffer is cloned into segments of its own on the same
  strings, a buffer is copied, and one buffer is appended to another. \<open>extends\<close> is what these
  operations leave alone, whatever other buffers there are.
\<close>

section \<open>What is left alone\<close>

definition extends :: "ptr set \<Rightarrow> omem \<Rightarrow> omem \<Rightarrow> bool" where
  "extends B h h' \<longleftrightarrow> mem_ok h' \<and> o_next h \<le> o_next h' \<and>
     (\<forall>a < o_next h. a_cells h' a = a_cells h a \<and> segs h' a = segs h a \<and>
        s_p (strs h' a) = s_p (strs h a) \<and> s_len (strs h' a) = s_len (strs h a) \<and>
        (a \<notin> B \<longrightarrow> heads h' a = heads h a)) \<and>
     c_int h' = c_int h \<and> c_bool h' = c_bool h \<and> c_byte h' = c_byte h \<and> c_str h' = c_str h \<and> c_buf h' = c_buf h"

lemma extends_refl: "mem_ok h \<Longrightarrow> extends B h h"
  by (simp add: extends_def)

lemma extends_trans: "extends B h1 h2 \<Longrightarrow> extends B h2 h3 \<Longrightarrow> extends B h1 h3"
  by (auto simp: extends_def)

lemma extends_mono: "extends B h h' \<Longrightarrow> B \<inter> {..<o_next h} \<subseteq> C \<Longrightarrow> extends C h h'"
  by (auto simp: extends_def)

text \<open>A segment on octets that are there, shorter than the mark for a string with a terminator.\<close>

definition seg_ok :: "omem \<Rightarrow> ptr \<Rightarrow> bool" where
  "seg_ok h g \<longleftrightarrow> g < o_next h \<and> g_string (segs h g) < o_next h \<and> seg_area g h < o_next h \<and>
     g_start (segs h g) \<le> g_end (segs h g) \<and> g_end (segs h g) - g_start (segs h g) < 65535"

definition buf_ok :: "ptr \<Rightarrow> omem \<Rightarrow> bool" where
  "buf_ok b h \<longleftrightarrow> b < o_next h \<and> distinct (b # b_segs (heads h b)) \<and> (\<forall>g \<in> set (b_segs (heads h b)). seg_ok h g)"

lemma extends_seg:
  assumes "extends B h h'" and "seg_ok h g"
  shows "segs h' g = segs h g" "seg_area g h' = seg_area g h" "seg_octets g h' = seg_octets g h" "seg_ok h' g"
proof -
  show segs: "segs h' g = segs h g" and area: "seg_area g h' = seg_area g h"
    using assms by (auto simp: extends_def seg_ok_def seg_area_def)
  then show "seg_ok h' g"
    using assms unfolding extends_def seg_ok_def by (metis order_less_le_trans)
  show "seg_octets g h' = seg_octets g h"
    using assms segs area by (intro seg_octets_cong) (auto simp: extends_def seg_ok_def)
qed

lemma extends_segs:
  "extends B h h' \<Longrightarrow> \<forall>g \<in> set gs. seg_ok h g \<Longrightarrow>
     concat (map (\<lambda>g. seg_octets g h') gs) = concat (map (\<lambda>g. seg_octets g h) gs) \<and> (\<forall>g \<in> set gs. seg_ok h' g)"
  by (auto simp: extends_seg cong: map_cong)

lemma extends_buf:
  assumes "extends B h h'" and "buf_ok b h" and "b \<notin> B"
  shows "buf_octets b h' = buf_octets b h" "buf_ok b h'" "heads h' b = heads h b"
proof -
  show heads: "heads h' b = heads h b" using assms by (auto simp: extends_def buf_ok_def)
  show "buf_octets b h' = buf_octets b h" "buf_ok b h'"
    using assms extends_segs [OF assms(1), of "b_segs (heads h b)"]
    by (auto simp: buf_octets_def buf_ok_def heads extends_def)
qed


section \<open>Copies\<close>

lemma BUF_appendChunk_octets:
  assumes mem: "mem_ok h" and b: "b < o_next h" and t: "t < o_next h" "s_p (strs h t) < o_next h" "s_len (strs h t) < 65535"
  shows "\<exists>h'. run_state (BUF_appendChunk b t) h = (Inr (), h') \<and> extends {b} h h' \<and>
    b_segs (heads h' b) = b_segs (heads h b) @ [o_next h] \<and> seg_ok h' (o_next h) \<and>
    seg_octets (o_next h) h' = octets_at (s_p (strs h t)) 0 (int (s_len (strs h t))) h"
proof -
  define h' where "h' = snd (run_state (BUF_appendChunk b t) h)"
  have run: "run_state (BUF_appendChunk b t) h = (Inr (), h')"
    using mem
    by (simp add: h'_def BUF_appendChunk_def chunkSegment_def run_allocSegment [OF mem] mem_ok_def
        STR_replaceString_def STR_free_def OS_free_def STR_stringStart_def STR_stringEnd_def u16_def)
  have h': "o_next h' = o_next h + 2" "o_fail h' = o_fail h" "a_cells h' = a_cells h"
    "segs h' = (segs h)(o_next h := \<lparr>g_string = t, g_start = 0, g_end = int (s_len (strs h t))\<rparr>)"
    "\<And>s. s < o_next h \<Longrightarrow> s_p (strs h' s) = s_p (strs h s) \<and> s_len (strs h' s) = s_len (strs h s)"
    "\<And>a. a \<noteq> b \<Longrightarrow> heads h' a = heads h a" "b_segs (heads h' b) = b_segs (heads h b) @ [o_next h]"
    "c_int h' = c_int h" "c_bool h' = c_bool h" "c_byte h' = c_byte h" "c_str h' = c_str h" "c_buf h' = c_buf h"
    "mem_ok h'"
    using mem t
    by (auto simp: h'_def BUF_appendChunk_def chunkSegment_def run_allocSegment [OF mem] mem_ok_def
        STR_replaceString_def STR_free_def OS_free_def STR_stringStart_def STR_stringEnd_def u16_def)
  then have "extends {b} h h'" by (simp add: extends_def)
  moreover have "seg_area (o_next h) h' = s_p (strs h t)"
    using h'(4,5) t by (simp add: seg_area_def)
  moreover have "seg_octets (o_next h) h' = octets_at (s_p (strs h t)) 0 (int (s_len (strs h t))) h"
    using h'(3,4) calculation by (simp add: seg_octets_def) (metis octets_at_area)
  ultimately show ?thesis
    using run h'(1,4,7) t by (intro exI [of _ h']) (simp add: seg_ok_def)
qed

text \<open>A string with the octets of a part of an area.\<close>

lemma copy_string:
  assumes mem: "mem_ok h" and n: "n < 65535"
  shows "\<exists>h1 h2. run_state (STR_alloc n) h = (Inr (o_next h), h1) \<and>
    run_state (STR_assignString (o_next h) n a i) h1 = (Inr (), h2) \<and> extends {} h h2 \<and> o_next h2 = o_next h + 1 \<and>
    s_p (strs h2 (o_next h)) = o_next h \<and> s_len (strs h2 (o_next h)) = n \<and>
    octets_at (o_next h) 0 (int n) h2 = octets_at a i (i + int n) h"
proof -
  let ?h1 = "snd (run_state (STR_alloc n) h)"
  let ?h2 = "snd (run_state (STR_assignString (o_next h) n a i) ?h1)"
  have "run_state (STR_alloc n) h = (Inr (o_next h), ?h1)"
    using mem by (simp add: run_STR_alloc)
  moreover have "run_state (STR_assignString (o_next h) n a i) ?h1 = (Inr (), ?h2)" "extends {} h ?h2"
    "o_next ?h2 = o_next h + 1" "s_p (strs ?h2 (o_next h)) = o_next h" "s_len (strs ?h2 (o_next h)) = n"
    using mem n by (auto simp: STR_assignString_def run_STR_alloc u16_def extends_def put_octets_def mem_ok_def)
  moreover have "octets_at (o_next h) 0 (int n) ?h2 = octets_at a i (i + int n) h"
  proof -
    have cells: "a_cells ?h2 = a_cells (put_octets (o_next h) 0 (octets_at a i (i + int n) ?h1) ?h1)"
      "a_cells ?h1 = a_cells h"
      using mem n by (simp_all add: STR_assignString_def run_STR_alloc u16_def put_octets_def)
    have "octets_at (o_next h) 0 (0 + int n) (put_octets (o_next h) 0 (octets_at a i (i + int n) ?h1) ?h1)
        = octets_at a i (i + int n) ?h1"
      by (rule put_octets_same) simp
    moreover have "octets_at a i (i + int n) ?h1 = octets_at a i (i + int n) h"
      by (rule octets_at_area) (simp add: cells)
    moreover have "octets_at (o_next h) 0 (int n) ?h2
        = octets_at (o_next h) 0 (int n) (put_octets (o_next h) 0 (octets_at a i (i + int n) ?h1) ?h1)"
      by (rule octets_at_area) (simp only: cells)
    ultimately show ?thesis by simp
  qed
  ultimately show ?thesis by blast
qed

lemma copySegs_octets:
  "mem_ok h \<Longrightarrow> b < o_next h \<Longrightarrow> \<forall>g \<in> set gs. seg_ok h g \<Longrightarrow>
    \<exists>h' new. run_state (copySegs gs b) h = (Inr (), h') \<and> extends {b} h h' \<and>
      b_segs (heads h' b) = b_segs (heads h b) @ new \<and> distinct new \<and>
      (\<forall>g \<in> set new. o_next h \<le> g \<and> seg_ok h' g) \<and>
      concat (map (\<lambda>g. seg_octets g h') new) = concat (map (\<lambda>g. seg_octets g h) gs)"
proof (induction gs arbitrary: h)
  case Nil
  then show ?case by (intro exI [of _ h] exI [of _ "[]"]) (simp add: extends_refl)
next
  case (Cons g gs)
  let ?n = "nat (g_end (segs h g) - g_start (segs h g))" and ?t = "o_next h"
  have ok: "seg_ok h g" using Cons.prems(3) by simp
  then have n: "?n < 65535" "g_start (segs h g) + int ?n = g_end (segs h g)" by (auto simp: seg_ok_def)
  obtain h1 h2 where h2: "run_state (STR_alloc ?n) h = (Inr ?t, h1)"
    "run_state (STR_assignString ?t ?n (seg_area g h) (g_start (segs h g))) h1 = (Inr (), h2)"
    "extends {} h h2" "o_next h2 = o_next h + 1" "s_p (strs h2 ?t) = ?t" "s_len (strs h2 ?t) = ?n"
    "octets_at ?t 0 (int ?n) h2 = seg_octets g h"
    using copy_string [OF Cons.prems(1) n(1), of "seg_area g h" "g_start (segs h g)"]
    by (auto simp: n(2) seg_octets_def)
  have b2: "heads h2 b = heads h b" using h2(3) Cons.prems(2) by (simp add: extends_def)
  have "mem_ok h2" "b < o_next h2" "?t < o_next h2" "s_p (strs h2 ?t) < o_next h2" "s_len (strs h2 ?t) < 65535"
    using h2(3-6) n(1) Cons.prems(2) by (simp_all add: extends_def)
  from BUF_appendChunk_octets [OF this] obtain h3 where h3: "run_state (BUF_appendChunk b ?t) h2 = (Inr (), h3)"
    "extends {b} h2 h3" "b_segs (heads h3 b) = b_segs (heads h b) @ [o_next h2]" "seg_ok h3 (o_next h2)"
    "seg_octets (o_next h2) h3 = seg_octets g h"
    using h2(5-7) b2 by auto
  have e: "extends {b} h h3"
    using extends_trans [OF extends_mono [OF h2(3), of "{b}"] h3(2)] by simp
  have gs: "\<forall>g \<in> set gs. seg_ok h3 g" and same: "concat (map (\<lambda>g. seg_octets g h3) gs) = concat (map (\<lambda>g. seg_octets g h) gs)"
    using extends_segs [OF e, of gs] Cons.prems(3) by simp_all
  have "mem_ok h3" "b < o_next h3" using e Cons.prems(2) by (auto simp: extends_def)
  from Cons.IH [OF this gs] obtain h4 new where h4: "run_state (copySegs gs b) h3 = (Inr (), h4)" "extends {b} h3 h4"
    "b_segs (heads h4 b) = b_segs (heads h3 b) @ new" "distinct new"
    "\<forall>g \<in> set new. o_next h3 \<le> g \<and> seg_ok h4 g"
    "concat (map (\<lambda>g. seg_octets g h4) new) = concat (map (\<lambda>g. seg_octets g h3) gs)" by blast
  have "run_state (copySegs (g # gs) b) h = (Inr (), h4)"
    using h2(1,2) h3(1) h4(1) by (simp add: Let_def)
  moreover have "extends {b} h h4" by (rule extends_trans [OF e h4(2)])
  moreover have lt: "o_next h \<le> o_next h2" "o_next h2 < o_next h3" "o_next h \<le> o_next h3"
    using h2(4) h3(2,4) by (auto simp: extends_def seg_ok_def)
  moreover have "b_segs (heads h4 b) = b_segs (heads h b) @ (o_next h2 # new)" using h3(3) h4(3) by simp
  moreover have "distinct (o_next h2 # new)" "\<forall>g \<in> set (o_next h2 # new). o_next h \<le> g \<and> seg_ok h4 g"
    using h4(4,5) lt extends_seg(4) [OF h4(2) h3(4)] by auto
  moreover have "concat (map (\<lambda>g. seg_octets g h4) (o_next h2 # new)) = concat (map (\<lambda>g. seg_octets g h) (g # gs))"
    using h4(6) same h3(5) extends_seg(3) [OF h4(2) h3(4)] by simp
  ultimately show ?case by blast
qed

lemma BUF_copy_octets:
  assumes mem: "mem_ok h" and b: "buf_ok b h"
  shows "\<exists>nb h'. run_state (BUF_copy b) h = (Inr nb, h') \<and> extends {} h h' \<and> buf_ok nb h' \<and>
    buf_octets nb h' = buf_octets b h \<and> (\<forall>c \<in> set (nb # b_segs (heads h' nb)). o_next h \<le> c)"
proof -
  let ?nb = "o_next h" and ?g = "o_next h + 1"
  define h1 where "h1 = snd (run_state (BUF_alloc 0) h)"
  have mem': "mem_ok (h\<lparr>o_count := o_count h + 1, o_next := o_next h + 1, o_live := insert (o_next h) (o_live h),
      a_size := (a_size h)(o_next h := 0)\<rparr>)"
    using mem by (simp add: mem_ok_def)
  have run1: "run_state (BUF_alloc 0) h = (Inr ?nb, h1)"
    using mem mem' by (simp add: h1_def BUF_alloc_def run_OS_alloc run_allocSegment mem_ok_def)
  have h1: "extends {} h h1" "o_next h1 = o_next h + 3" "b_segs (heads h1 ?nb) = [?g]"
    "segs h1 ?g = \<lparr>g_string = o_next h + 2, g_start = 0, g_end = 0\<rparr>" "s_p (strs h1 (o_next h + 2)) = ?g"
    using mem mem' by (auto simp: h1_def BUF_alloc_def run_OS_alloc run_allocSegment mem_ok_def extends_def u16_def)
  have g: "seg_ok h1 ?g" "seg_octets ?g h1 = []"
    using h1 by (simp_all add: seg_ok_def seg_area_def seg_octets_def)
  have b1: "buf_ok b h1" "heads h1 b = heads h b" "buf_octets b h1 = buf_octets b h"
    using extends_buf [OF h1(1) b] by simp_all
  obtain h2 new where h2: "run_state (copySegs (b_segs (heads h b)) ?nb) h1 = (Inr (), h2)" "extends {?nb} h1 h2"
    "b_segs (heads h2 ?nb) = ?g # new" "distinct new" "\<forall>g \<in> set new. o_next h1 \<le> g \<and> seg_ok h2 g"
    "concat (map (\<lambda>g. seg_octets g h2) new) = buf_octets b h"
    using copySegs_octets [of h1 ?nb "b_segs (heads h b)"] h1 b1 by (auto simp: extends_def buf_ok_def buf_octets_def)
  define h' where "h' = snd (run_state (BUF_resetParse ?nb) h2)"
  have h': "h' = h2\<lparr>heads := (heads h2)(?nb := (heads h2 ?nb)\<lparr>b_cur := ?g, b_x := g_start (segs h2 ?g)\<rparr>)\<rparr>"
    using h2(3) by (simp add: h'_def BUF_resetParse_def QU_FIRST_seg_def)
  have mem2: "mem_ok h2" using h2(2) by (simp add: extends_def)
  then have e: "extends {?nb} h2 h'" by (simp add: h' extends_def mem_ok_def)
  have "run_state (BUF_copy b) h = (Inr ?nb, h')"
    using run1 h2(1) b1(2) by (simp add: BUF_copy_def h'_def BUF_resetParse_def)
  moreover have "extends {} h h'"
    using extends_trans [OF h1(1) extends_mono [OF extends_trans [OF h2(2) e], of "{}"]]
      extends_trans [OF extends_mono [OF h1(1), of "{?nb}"] extends_trans [OF h2(2) e]]
    by (auto intro: extends_mono)
  moreover have ok2: "seg_ok h2 ?g" "seg_octets ?g h2 = []" using extends_seg [OF h2(2) g(1)] g(2) by simp_all
  have "buf_octets ?nb h' = buf_octets b h"
    using h2(3,6) ok2(2) by (simp add: h' buf_octets_def)
  moreover have "buf_ok ?nb h'" "\<forall>c \<in> set (?nb # b_segs (heads h' ?nb)). o_next h \<le> c"
    using h2(3-5) ok2(1) h1(2) h2(2) by (auto simp: h' buf_ok_def seg_ok_def extends_def)
  ultimately show ?thesis by blast
qed


section \<open>Appending\<close>

lemma BUF_appendBuffer_octets:
  assumes mem: "mem_ok h" and b: "buf_ok b h" and p: "buf_ok p h" and bp: "b \<noteq> p"
    and disj: "set (b_segs (heads h b)) \<inter> set (b_segs (heads h p)) = {}"
      "b \<notin> set (b_segs (heads h p))"
  shows "\<exists>h'. run_state (BUF_appendBuffer b p) h = (Inr (), h') \<and> extends {b, p} h h' \<and> o_next h' = o_next h \<and> buf_ok b h' \<and>
    b_segs (heads h' b) = b_segs (heads h b) @ b_segs (heads h p) \<and>
    buf_octets b h' = buf_octets b h @ buf_octets p h"
proof -
  define h' where "h' = snd (run_state (BUF_appendBuffer b p) h)"
  have run: "run_state (BUF_appendBuffer b p) h = (Inr (), h')"
    by (simp add: h'_def BUF_appendBuffer_def)
  have same: "segs h' = segs h" "strs h' = strs h" "a_cells h' = a_cells h" "o_next h' = o_next h"
    and ext: "extends {b, p} h h'" and s: "b_segs (heads h' b) = b_segs (heads h b) @ b_segs (heads h p)"
    using mem bp by (simp_all add: h'_def BUF_appendBuffer_def extends_def mem_ok_def)
  have oct: "seg_octets g h' = seg_octets g h" for g
    by (rule seg_octets_cong) (simp_all add: same seg_area_def)
  have ok: "seg_ok h' g = seg_ok h g" for g by (simp add: seg_ok_def seg_area_def same)
  show ?thesis
    using run same(4) ext s b p disj by (intro exI [of _ h']) (auto simp: buf_octets_def buf_ok_def oct ok)
qed


section \<open>Parts\<close>

text \<open>
  A position in a buffer. Unlike for reading octet by octet, segments may be empty: the one that
  \<^verbatim>\<open>BUF_alloc\<close> makes for a size of 0 stays at the end of a buffer that is filled.
\<close>

definition placed :: "ptr \<Rightarrow> omem \<Rightarrow> bool" where
  "placed b h \<longleftrightarrow> distinct (b # b_segs (heads h b)) \<and> b_cur (heads h b) \<in> set (b_segs (heads h b)) \<and>
     g_start (segs h (b_cur (heads h b))) \<le> b_x (heads h b) \<and> b_x (heads h b) \<le> g_end (segs h (b_cur (heads h b)))"

lemma placed_split:
  assumes "placed b h"
  obtains us vs where "b_segs (heads h b) = us @ b_cur (heads h b) # vs" "later_segs b h = vs"
    "distinct (b # us @ b_cur (heads h b) # vs)"
proof -
  obtain us vs where *: "b_segs (heads h b) = us @ b_cur (heads h b) # vs"
    using assms by (auto simp: placed_def in_set_conv_decomp)
  then show ?thesis
    using that [of us vs] assms later_split [of us h b vs] by (auto simp: placed_def)
qed

text \<open>
  The remaining octets of a buffer with a current segment \<open>g\<close>, and one step of the loop that
  clones them: a new segment on the octets from the position up to \<open>e\<close>, and the new position.
\<close>

lemma rest_split:
  assumes "placed b h" and "b_segs (heads h b) = us @ g # gs" and "b_cur (heads h b) = g"
  shows "rest b h = octets_at (seg_area g h) (b_x (heads h b)) (g_end (segs h g)) h @ concat (map (\<lambda>g. seg_octets g h) gs)"
    and "later_segs b h = gs"
proof -
  show "later_segs b h = gs"
    using assms by (intro later_split [of us]) (auto simp: placed_def)
  then show "rest b h = octets_at (seg_area g h) (b_x (heads h b)) (g_end (segs h g)) h @ concat (map (\<lambda>g. seg_octets g h) gs)"
    by (simp add: rest_def assms(3))
qed

definition clone_step :: "ptr \<Rightarrow> ptr \<Rightarrow> ptr \<Rightarrow> int \<Rightarrow> int \<Rightarrow> ptr \<Rightarrow> int \<Rightarrow> omem \<Rightarrow> omem" where
  "clone_step b nb g start e cur x h =
     (let c = o_next h; h1 = snd (run_state (STR_addReference (g_string (segs h g))) (snd (run_state (OS_alloc 0) h)));
          h2 = h1\<lparr>segs := (segs h1)(c := \<lparr>g_string = g_string (segs h g), g_start = start, g_end = e\<rparr>)\<rparr>;
          h3 = h2\<lparr>heads := (heads h2)(b := (heads h2 b)\<lparr>b_cur := cur, b_x := x\<rparr>)\<rparr>
      in h3\<lparr>heads := (heads h3)(nb := (heads h3 nb)\<lparr>b_segs := b_segs (heads h3 nb) @ [c]\<rparr>)\<rparr>)"

lemma clone_step:
  fixes h g start e cur x
  assumes mem: "mem_ok h" and g: "seg_ok h g" and nb: "nb \<noteq> b" "nb < o_next h"
    and e: "g_start (segs h g) \<le> start" "start \<le> e" "e \<le> g_end (segs h g)"
  defines "h' \<equiv> clone_step b nb g start e cur x h"
  shows "extends {b, nb} h h'" "b_segs (heads h' b) = b_segs (heads h b)" "b_cur (heads h' b) = cur"
    "b_x (heads h' b) = x" "b_segs (heads h' nb) = b_segs (heads h nb) @ [o_next h]"
    "seg_ok h' (o_next h)" "seg_octets (o_next h) h' = octets_at (seg_area g h) start e h" "o_next h' = o_next h + 1"
proof -
  have next_ok: "g_string (segs h g) < o_next h" "s_p (strs h (g_string (segs h g))) < o_next h"
    using g by (simp_all add: seg_ok_def seg_area_def)
  show "extends {b, nb} h h'"
    using mem nb by (auto simp: h'_def clone_step_def Let_def extends_def run_OS_alloc mem_ok_def STR_addReference_def)
  show "b_segs (heads h' b) = b_segs (heads h b)" "b_cur (heads h' b) = cur" "b_x (heads h' b) = x"
    "b_segs (heads h' nb) = b_segs (heads h nb) @ [o_next h]" "o_next h' = o_next h + 1"
    using mem nb by (auto simp: h'_def clone_step_def Let_def run_OS_alloc mem_ok_def STR_addReference_def)
  have c: "segs h' (o_next h) = \<lparr>g_string = g_string (segs h g), g_start = start, g_end = e\<rparr>"
    "seg_area (o_next h) h' = seg_area g h" "a_cells h' = a_cells h" "o_next h' = o_next h + 1"
    using mem nb by (auto simp: h'_def clone_step_def Let_def run_OS_alloc mem_ok_def STR_addReference_def seg_area_def)
  then show "seg_octets (o_next h) h' = octets_at (seg_area g h) start e h"
    by (simp add: seg_octets_def) (metis octets_at_area)
  show "seg_ok h' (o_next h)"
    using g e next_ok unfolding seg_ok_def c by (simp add: seg_area_def)
qed

lemma placed_extends:
  assumes "placed b h" "buf_ok b h" and ext: "extends {b, nb} h h'"
    and same: "b_segs (heads h' b) = b_segs (heads h b)" and segs: "b_segs (heads h b) = us @ g # gs"
    and cur: "b_cur (heads h' b) = g" and x: "g_start (segs h g) \<le> b_x (heads h' b)" "b_x (heads h' b) \<le> g_end (segs h g)"
  shows "placed b h'" "buf_ok b h'"
    "rest b h' = octets_at (seg_area g h) (b_x (heads h' b)) (g_end (segs h g)) h @ concat (map (\<lambda>g. seg_octets g h) gs)"
proof -
  have all: "\<forall>g \<in> set (b_segs (heads h b)). seg_ok h g" using assms(2) by (simp add: buf_ok_def)
  then have segs_same: "\<forall>g \<in> set (b_segs (heads h b)). segs h' g = segs h g" "seg_area g h' = seg_area g h"
    "\<forall>g \<in> set (b_segs (heads h b)). seg_octets g h' = seg_octets g h"
    using extends_seg [OF ext] segs by auto
  have l: "later_segs b h' = gs"
    using assms(2) by (intro later_split [of us]) (auto simp: same segs cur buf_ok_def)
  show "placed b h'"
    using assms(1) segs_same x by (auto simp: placed_def same cur l segs)
  show "buf_ok b h'"
    using assms(2) extends_segs [OF ext all] ext by (auto simp: buf_ok_def same extends_def)
  have g: "segs h' g = segs h g" using segs_same(1) segs by simp
  have "seg_area g h < o_next h" using all segs by (simp add: seg_ok_def)
  then have "octets_at (seg_area g h) i j h' = octets_at (seg_area g h) i j h" for i j
    using ext by (intro octets_at_area) (simp add: extends_def)
  then show "rest b h' = octets_at (seg_area g h) (b_x (heads h' b)) (g_end (segs h g)) h @ concat (map (\<lambda>g. seg_octets g h) gs)"
    using segs_same segs by (simp add: rest_def l cur g cong: map_cong)
qed


lemma cloneSegs_run:
  assumes mem: "mem_ok h" and cur: "b_cur (heads h b) = g" and len: "0 < len" "len \<noteq> BUF_ENTIRE"
    and next_old: "hd (gs @ [b]) < o_next h"
  shows "uint len \<le> g_end (segs h g) - b_x (heads h b) \<Longrightarrow>
      run_state (cloneSegs (g # gs) b nb len True) h =
        (Inr (), clone_step b nb g (b_x (heads h b)) (b_x (heads h b) + uint len) g (b_x (heads h b) + uint len) h)"
    and "g_end (segs h g) - b_x (heads h b) < uint len \<Longrightarrow>
      run_state (cloneSegs (g # gs) b nb len True) h =
        run_state (cloneSegs gs b nb (len - word_of_int (g_end (segs h g) - b_x (heads h b))) True)
          (clone_step b nb g (b_x (heads h b)) (g_end (segs h g)) (hd (gs @ [b])) (g_start (segs h (hd (gs @ [b])))) h)"
  using assms
  by (auto simp: Let_def clone_step_def run_OS_alloc mem_ok_def STR_addReference_def word_neq_0_conv)

text \<open>What cloning promises: \<open>gs\<close> are the segments from the current one.\<close>

definition cloned :: "ptr \<Rightarrow> ptr \<Rightarrow> u32 \<Rightarrow> omem \<Rightarrow> omem \<Rightarrow> ptr list \<Rightarrow> bool" where
  "cloned b nb len h h' new \<longleftrightarrow> extends {b, nb} h h' \<and> b_segs (heads h' nb) = b_segs (heads h nb) @ new \<and>
     distinct new \<and> new \<noteq> [] \<and> (\<forall>c \<in> set new. o_next h \<le> c \<and> seg_ok h' c) \<and>
     concat (map (\<lambda>c. seg_octets c h') new) = take (unat len) (rest b h) \<and>
     (unat len \<le> length (rest b h) \<longrightarrow> placed b h' \<and> buf_ok b h' \<and> rest b h' = drop (unat len) (rest b h) \<and>
        b_segs (heads h' b) = b_segs (heads h b))"

lemma cloned_last:
  assumes b: "placed b h" "buf_ok b h" "b_segs (heads h b) = us @ g # gs" "b_cur (heads h b) = g"
    and mem: "mem_ok h" and nb: "nb < o_next h" "nb \<noteq> b"
    and e: "b_x (heads h b) \<le> e" "e \<le> g_end (segs h g)"
    and whole: "e = b_x (heads h b) + uint len \<and> cur = g \<and> x = e \<or> e = g_end (segs h g) \<and> gs = [] \<and> e < b_x (heads h b) + uint len"
  shows "cloned b nb len h (clone_step b nb g (b_x (heads h b)) e cur x h) [o_next h]"
proof -
  let ?x = "b_x (heads h b)" and ?h = "clone_step b nb g (b_x (heads h b)) e cur x h" and ?a = "seg_area g h"
  note R = rest_split [OF b(1,3,4)]
  have g: "seg_ok h g" "g_start (segs h g) \<le> ?x"
    using b by (auto simp: buf_ok_def placed_def)
  note S = clone_step [OF mem g(1) nb(2,1) g(2) e, of cur x]
  have split: "octets_at ?a ?x (g_end (segs h g)) h = octets_at ?a ?x e h @ octets_at ?a e (g_end (segs h g)) h"
    by (rule octets_at_split [OF e])
  have ulen: "uint len = int (unat len)" by simp
  have one: ?thesis
    if "take (unat len) (rest b h) = octets_at ?a ?x e h"
      "unat len \<le> length (rest b h) \<longrightarrow> placed b ?h \<and> buf_ok b ?h \<and> rest b ?h = drop (unat len) (rest b h)"
    unfolding cloned_def
  proof (intro conjI impI)
    show "extends {b, nb} h ?h" by (rule S(1))
    show "b_segs (heads ?h nb) = b_segs (heads h nb) @ [o_next h]" by (rule S(5))
    show "\<forall>c \<in> set [o_next h]. o_next h \<le> c \<and> seg_ok ?h c" using S(6) by simp
    show "concat (map (\<lambda>c. seg_octets c ?h) [o_next h]) = take (unat len) (rest b h)" using S(7) that(1) by simp
    show "b_segs (heads ?h b) = b_segs (heads h b)" by (rule S(2))
  qed (use that(2) in simp_all)
  from whole show ?thesis
  proof (elim disjE conjE)
    assume w: "e = ?x + uint len" "cur = g" "x = e"
    have n: "length (octets_at ?a ?x e h) = unat len" by (simp add: w(1))
    have "b_cur (heads ?h b) = g" using S(3) w(2) by simp
    from placed_extends [OF b(1,2) S(1,2) b(3) this]
    have "placed b ?h" "buf_ok b ?h" "rest b ?h = octets_at ?a e (g_end (segs h g)) h @ concat (map (\<lambda>g. seg_octets g h) gs)"
      using g e S(4) w(3) by auto
    moreover have "take (unat len) (rest b h) = octets_at ?a ?x e h"
      "drop (unat len) (rest b h) = octets_at ?a e (g_end (segs h g)) h @ concat (map (\<lambda>g. seg_octets g h) gs)"
      unfolding R(1) split append_assoc n [symmetric] by simp_all
    ultimately show ?thesis using one by metis
  next
    assume w: "e = g_end (segs h g)" "gs = []" "e < ?x + uint len"
    have "length (rest b h) = nat (e - ?x)" by (simp add: R(1) w(1,2))
    moreover have "e - ?x < int (unat len)" using w(3) ulen by linarith
    ultimately have "length (rest b h) < unat len" using e(1) by linarith
    then have "take (unat len) (rest b h) = octets_at ?a ?x e h" "\<not> unat len \<le> length (rest b h)"
      by (simp_all add: R(1) w)
    then show ?thesis using one by metis
  qed
qed

lemma cloned_more:
  assumes b: "placed b h" "buf_ok b h" "b_segs (heads h b) = us @ g # g2 # gs" "b_cur (heads h b) = g"
    and mem: "mem_ok h" and nb: "nb < o_next h" "nb \<noteq> b"
    and less: "g_end (segs h g) - b_x (heads h b) < uint len"
  defines "d \<equiv> g_end (segs h g) - b_x (heads h b)"
  defines "h1 \<equiv> clone_step b nb g (b_x (heads h b)) (g_end (segs h g)) g2 (g_start (segs h g2)) h"
  shows "mem_ok h1" "placed b h1" "buf_ok b h1" "b_segs (heads h1 b) = (us @ [g]) @ g2 # gs" "b_cur (heads h1 b) = g2"
    "nb < o_next h1" "0 < len - word_of_int d" "len \<noteq> BUF_ENTIRE \<Longrightarrow> len - word_of_int d \<noteq> BUF_ENTIRE"
    "cloned b nb (len - word_of_int d) h1 h' new \<Longrightarrow> cloned b nb len h h' (o_next h # new)"
proof -
  let ?x = "b_x (heads h b)" and ?a = "seg_area g h"
  note R = rest_split [OF b(1,3,4)]
  have g: "seg_ok h g" "seg_ok h g2" "g_start (segs h g) \<le> ?x" "?x \<le> g_end (segs h g)"
    using b by (auto simp: buf_ok_def placed_def)
  note S = clone_step [OF mem g(1) nb(2,1) g(3,4) order_refl, of g2 "g_start (segs h g2)", folded h1_def]
  show mem1: "mem_ok h1" "nb < o_next h1" using S(1) nb by (auto simp: extends_def)
  show segs1: "b_segs (heads h1 b) = (us @ [g]) @ g2 # gs" "b_cur (heads h1 b) = g2" using S(2,3) b(3) by simp_all
  have ext: "placed b h1" "buf_ok b h1" "rest b h1 = seg_octets g2 h @ concat (map (\<lambda>g. seg_octets g h) gs)"
    using placed_extends [OF b(1,2) S(1,2), of "us @ [g]" g2 gs] b(3) S(3,4) g(2)
    by (auto simp: seg_ok_def seg_octets_def)
  then show "placed b h1" "buf_ok b h1" by simp_all
  have d: "0 \<le> d" "d < 65535" using g by (auto simp: d_def seg_ok_def)
  then have "uint (word_of_int d :: u32) = d" by (simp add: uint_word_of_int)
  then have "uint (len - word_of_int d) = uint len - d"
    using d less by (simp add: uint_sub_if' d_def)
  then have u: "unat (len - word_of_int d) = unat len - nat d"
    using d by (simp only: unat_eq_nat_uint nat_diff_distrib)
  have "d < int (unat len)" using less by (simp add: d_def)
  then have n: "nat d < unat len" using d(1) by linarith
  have "unat (len - word_of_int d) \<noteq> 0" using u n by simp
  then show "0 < len - word_of_int d" by (metis unat_0 word_gt_0)
  have "len = BUF_ENTIRE" if "len - word_of_int d = BUF_ENTIRE"
    using u unat_u32 [of len] that by (intro word_unat_eq_iff [THEN iffD2]) simp
  then show "len \<noteq> BUF_ENTIRE \<Longrightarrow> len - word_of_int d \<noteq> BUF_ENTIRE" by blast
  have whole: "rest b h = octets_at ?a ?x (g_end (segs h g)) h @ rest b h1" by (simp add: R(1) ext(3))
  have l: "length (octets_at ?a ?x (g_end (segs h g)) h) = nat d" by (simp add: d_def)
  have td: "take (unat len) (rest b h) = octets_at ?a ?x (g_end (segs h g)) h @ take (unat len - nat d) (rest b h1)"
    "drop (unat len) (rest b h) = drop (unat len - nat d) (rest b h1)"
    "length (rest b h) = nat d + length (rest b h1)"
    unfolding whole take_append drop_append length_append l using n l by simp_all
  assume c: "cloned b nb (len - word_of_int d) h1 h' new"
  have e: "extends {b, nb} h1 h'" using c by (simp add: cloned_def)
  show "cloned b nb len h h' (o_next h # new)"
    unfolding cloned_def
  proof (intro conjI impI)
    show "extends {b, nb} h h'" by (rule extends_trans [OF S(1) e])
    show "b_segs (heads h' nb) = b_segs (heads h nb) @ o_next h # new" using c S(5) by (simp add: cloned_def)
    show "distinct (o_next h # new)" "\<forall>c \<in> set (o_next h # new). o_next h \<le> c \<and> seg_ok h' c"
      using c S(8) extends_seg(4) [OF e S(6)] by (auto simp: cloned_def)
    show "concat (map (\<lambda>c. seg_octets c h') (o_next h # new)) = take (unat len) (rest b h)"
      using c extends_seg(3) [OF e S(6)] S(7) by (simp add: cloned_def td(1) u)
    assume le: "unat len \<le> length (rest b h)"
    then have "unat (len - word_of_int d) \<le> length (rest b h1)" using n by (simp add: td(3) u)
    then show "placed b h'" "buf_ok b h'" "b_segs (heads h' b) = b_segs (heads h b)"
      "rest b h' = drop (unat len) (rest b h)"
      using c S(2) by (simp_all add: cloned_def td(2) u)
  qed simp
qed

lemma cloneSegs_octets:
  "mem_ok h \<Longrightarrow> placed b h \<Longrightarrow> buf_ok b h \<Longrightarrow> b_segs (heads h b) = us @ g # gs \<Longrightarrow> b_cur (heads h b) = g \<Longrightarrow>
    nb < o_next h \<Longrightarrow> nb \<noteq> b \<Longrightarrow> 0 < len \<Longrightarrow> len \<noteq> BUF_ENTIRE \<Longrightarrow>
    \<exists>h' new. run_state (cloneSegs (g # gs) b nb len True) h = (Inr (), h') \<and> cloned b nb len h h' new"
proof (induction gs arbitrary: us g len h)
  case (Nil us g len h)
  have old: "b_x (heads h b) \<le> g_end (segs h g)" "b < o_next h" "0 \<le> uint len"
    using Nil.prems(2-5) by (auto simp: buf_ok_def placed_def)
  note run = cloneSegs_run [OF Nil.prems(1,5,8,9), of "[]" nb]
  note last = cloned_last [OF Nil.prems(2-5,1,6,7)]
  show ?case
  proof (cases "uint len \<le> g_end (segs h g) - b_x (heads h b)")
    case True
    then show ?thesis using run(1) old last by (intro exI) (rule conjI, simp, rule last, auto)
  next
    case False
    then show ?thesis using run(2) old by (intro exI) (rule conjI, simp, rule last, auto)
  qed
next
  case (Cons g2 gs us g len h)
  have old: "b_x (heads h b) \<le> g_end (segs h g)" "g2 < o_next h" "0 \<le> uint len"
    using Cons.prems(2-5) by (auto simp: buf_ok_def placed_def seg_ok_def)
  note run = cloneSegs_run [OF Cons.prems(1,5,8,9), of "g2 # gs" nb]
  show ?case
  proof (cases "uint len \<le> g_end (segs h g) - b_x (heads h b)")
    case True
    then show ?thesis
      using run(1) old by (intro exI) (rule conjI, simp, rule cloned_last [OF Cons.prems(2-5,1,6,7)], auto)
  next
    case False
    then have less: "g_end (segs h g) - b_x (heads h b) < uint len" by simp
    note more = cloned_more [OF Cons.prems(2-5,1,6,7) less]
    from Cons.IH [OF more(1-6) Cons.prems(7) more(7) more(8) [OF Cons.prems(9)]]
    obtain h' new where "run_state (cloneSegs (g # g2 # gs) b nb len True) h = (Inr (), h')"
      "cloned b nb len h h' new"
      using more(9) run(2) [OF _ less] old(2) by (auto simp del: cloneSegs.simps)
    then show ?thesis by blast
  qed
qed

text \<open>A part of a buffer that is being read, cut off at the front: shared, not copied.\<close>

lemma BUF_cloneBufferPortion_octets:
  assumes mem: "mem_ok h" and b: "placed b h" "buf_ok b h" and len: "0 < len" "len \<noteq> BUF_ENTIRE"
  shows "\<exists>nb h'. run_state (BUF_cloneBufferPortion b len True) h = (Inr nb, h') \<and> extends {b} h h' \<and>
    o_next h \<le> nb \<and> buf_ok nb h' \<and> buf_octets nb h' = take (unat len) (rest b h) \<and>
    (unat len \<le> length (rest b h) \<longrightarrow> placed b h' \<and> buf_ok b h' \<and> rest b h' = drop (unat len) (rest b h))"
proof -
  let ?g = "b_cur (heads h b)" and ?nb = "o_next h"
  obtain us gs where segs: "b_segs (heads h b) = us @ ?g # gs" "distinct (b # us @ ?g # gs)"
    using placed_split [OF b(1)] by metis
  define h1 where "h1 = h\<lparr>o_count := o_count h + 1, o_next := o_next h + 1, o_live := insert ?nb (o_live h),
    a_size := (a_size h)(?nb := 0), heads := (heads h)(?nb := (heads h ?nb)\<lparr>b_segs := []\<rparr>)\<rparr>"
  have b': "b < ?nb" using b(2) by (simp add: buf_ok_def)
  have e: "extends {} h h1" using mem by (auto simp: h1_def extends_def mem_ok_def)
  have b1: "buf_ok b h1" "heads h1 b = heads h b" using extends_buf [OF e b(2)] by simp_all
  have all: "\<forall>g \<in> set (b_segs (heads h b)). seg_ok h g" using b(2) by (simp add: buf_ok_def)
  have same: "segs h1 = segs h" "seg_octets g h1 = seg_octets g h" "octets_at a i j h1 = octets_at a i j h"
    "seg_area g h1 = seg_area g h" for g a i j
    by (simp_all add: h1_def seg_octets_def seg_area_def octets_at_def)
  have r: "placed b h1" "rest b h1 = rest b h"
    using b(1) by (simp_all add: placed_def rest_def later_segs_def b1(2) same)
  have nb: "?nb < o_next h1" "?nb \<noteq> b" "mem_ok h1" using b' mem by (auto simp: h1_def mem_ok_def)
  obtain h2 new where c: "run_state (cloneSegs (?g # gs) b ?nb len True) h1 = (Inr (), h2)" "cloned b ?nb len h1 h2 new"
    using cloneSegs_octets [OF nb(3) r(1) b1(1), of us ?g gs ?nb len] segs(1) b1(2) nb(1,2) len by auto
  let ?f = "hd (b_segs (heads h2 ?nb) @ [?nb])"
  define h' where "h' = h2\<lparr>heads := (heads h2)(?nb := (heads h2 ?nb)\<lparr>b_cur := ?f, b_x := g_start (segs h2 ?f)\<rparr>)\<rparr>"
  have drop: "dropWhile (\<lambda>g. g \<noteq> ?g) (b_segs (heads h b)) = ?g # gs"
    unfolding segs(1) by (subst dropWhile_append2) (use segs(2) in auto)
  have h1': "h\<lparr>o_count := Suc (o_count h), o_next := Suc ?nb, o_live := insert ?nb (o_live h),
    a_size := (a_size h)(?nb := 0), heads := (heads h)(?nb := (heads h ?nb)\<lparr>b_segs := []\<rparr>)\<rparr> = h1"
    by (simp add: h1_def)
  have "run_state (BUF_cloneBufferPortion b len True) h = (Inr ?nb, h')"
    using mem len drop c(1) b' nb(2)
    by (simp add: BUF_cloneBufferPortion_def run_OS_alloc mem_ok_def h'_def QU_FIRST_seg_def h1' b1(2) del: cloneSegs.simps)
  moreover have "extends {b} h h2"
    using extends_trans [OF extends_mono [OF e, of "{b, ?nb}"], of h2] c(2) by (auto simp: cloned_def intro: extends_mono)
  then have "extends {b} h h'" using b' by (auto simp: h'_def extends_def mem_ok_def)
  moreover have same': "seg_octets g h' = seg_octets g h2" "seg_ok h' g = seg_ok h2 g" "seg_area g h' = seg_area g h2"
    "octets_at a i j h' = octets_at a i j h2" "segs h' = segs h2" "o_next h' = o_next h2" for g a i j
    by (simp_all add: h'_def seg_ok_def seg_area_def seg_octets_def octets_at_def)
  have heads: "b_segs (heads h' ?nb) = new" "heads h' b = heads h2 b"
    using c(2) nb(2) by (auto simp: h'_def cloned_def h1_def)
  have "placed b h' = placed b h2" "rest b h' = rest b h2" "buf_ok b h' = buf_ok b h2"
    by (simp_all only: placed_def rest_def buf_ok_def later_segs_def heads same')
  moreover have "?nb < o_next h2" "distinct new" "\<forall>c \<in> set new. ?nb < c \<and> seg_ok h2 c"
    using c(2) nb(1) by (auto simp: cloned_def extends_def)
  then have "buf_ok ?nb h'" by (auto simp: buf_ok_def heads same')
  moreover have "buf_octets ?nb h' = take (unat len) (rest b h)"
    "unat len \<le> length (rest b h) \<longrightarrow> placed b h2 \<and> buf_ok b h2 \<and> rest b h2 = drop (unat len) (rest b h)"
    using c(2) r(2) by (simp_all add: cloned_def buf_octets_def heads same')
  ultimately show ?thesis by (intro exI [of _ ?nb] exI [of _ h']) simp
qed

end
