(* ===== verification/Ua_Segments.thy ===== *)
theory Ua_Segments
  imports Ua_Frame Buf_Share
begin

text \<open>
  Segments of messages: what the submission cuts off the formatted message, one part for each
  request, is the whole message; and what the performer collects, in whatever order it comes, is
  put together in the order of the segment numbers.
\<close>

section \<open>Cutting\<close>

text \<open>The parts that \<^verbatim>\<open>aS1S2a\<close> and then \<^verbatim>\<open>aS2S2a\<close> cut off, one after the other.\<close>

primrec clone_portions :: "nat \<Rightarrow> ptr \<Rightarrow> u32 \<Rightarrow> (omem, ptr list) rc_op" where
  "clone_portions 0 b len = ok []"
| "clone_portions (Suc n) b len =
     RC_CALL (BUF_cloneBufferPortion b len True) (\<lambda>p.
     RC_CALL (clone_portions n b len) (\<lambda>ps. ok (p # ps)))"

lemma clone_portions_octets:
  "mem_ok h \<Longrightarrow> placed b h \<Longrightarrow> buf_ok b h \<Longrightarrow> 0 < len \<Longrightarrow> len \<noteq> BUF_ENTIRE \<Longrightarrow>
    (n - 1) * unat len \<le> length (rest b h) \<Longrightarrow>
    \<exists>ps h'. run_state (clone_portions n b len) h = (Inr ps, h') \<and> extends {b} h h' \<and>
      (\<forall>p \<in> set ps. o_next h \<le> p \<and> buf_ok p h') \<and>
      map (\<lambda>p. buf_octets p h') ps = map (\<lambda>i. take (unat len) (drop (i * unat len) (rest b h))) [0..<n]"
proof (induction n arbitrary: h)
  case 0
  then show ?case by (intro exI [of _ "[]"] exI [of _ h]) (simp add: extends_refl)
next
  case (Suc n)
  obtain p h1 where h1: "run_state (BUF_cloneBufferPortion b len True) h = (Inr p, h1)" "extends {b} h h1"
    "o_next h \<le> p" "buf_ok p h1" "buf_octets p h1 = take (unat len) (rest b h)"
    and more: "unat len \<le> length (rest b h) \<longrightarrow> placed b h1 \<and> buf_ok b h1 \<and> rest b h1 = drop (unat len) (rest b h)"
    using BUF_cloneBufferPortion_octets [OF Suc.prems(1-5)] by blast
  have mem1: "mem_ok h1" using h1(2) by (simp add: extends_def)
  have "\<exists>ps h'. run_state (clone_portions n b len) h1 = (Inr ps, h') \<and> extends {b} h1 h' \<and>
      (\<forall>p \<in> set ps. o_next h1 \<le> p \<and> buf_ok p h') \<and>
      map (\<lambda>p. buf_octets p h') ps = map (\<lambda>i. take (unat len) (drop (Suc i * unat len) (rest b h))) [0..<n]"
  proof (cases n)
    case 0
    then show ?thesis using mem1 by (intro exI [of _ "[]"] exI [of _ h1]) (simp add: extends_refl)
  next
    case (Suc m)
    then have le: "unat len \<le> length (rest b h)" "unat len + (n - 1) * unat len \<le> length (rest b h)"
      using Suc.prems(6) by auto
    with more have b1: "placed b h1" "buf_ok b h1" "rest b h1 = drop (unat len) (rest b h)" by simp_all
    have "(n - 1) * unat len \<le> length (rest b h1)" using le(2) by (simp add: b1(3))
    from Suc.IH [OF mem1 b1(1,2) Suc.prems(4,5) this] show ?thesis by (simp add: b1(3) add.commute)
  qed
  then obtain ps h' where h': "run_state (clone_portions n b len) h1 = (Inr ps, h')" "extends {b} h1 h'"
    "\<forall>p \<in> set ps. o_next h1 \<le> p \<and> buf_ok p h'"
    "map (\<lambda>p. buf_octets p h') ps = map (\<lambda>i. take (unat len) (drop (Suc i * unat len) (rest b h))) [0..<n]" by blast
  have "b < o_next h" using Suc.prems(3) by (simp add: buf_ok_def)
  then have p: "buf_octets p h' = take (unat len) (rest b h)" "buf_ok p h'"
    using extends_buf [OF h'(2) h1(4)] h1(3,5) by auto
  have eq: "map f [0..<Suc n] = f 0 # map (\<lambda>i. f (Suc i)) [0..<n]" for f :: "nat \<Rightarrow> u8 list"
    by (simp only: upt_conv_Cons map_Suc_upt [symmetric]) simp
  have "run_state (clone_portions (Suc n) b len) h = (Inr (p # ps), h')" using h1(1) h'(1) by simp
  moreover have "\<forall>q \<in> set (p # ps). o_next h \<le> q \<and> buf_ok q h'"
    using h1(2,3) h'(3) p(2) by (auto simp: extends_def)
  moreover have "map (\<lambda>p. buf_octets p h') (p # ps) =
      map (\<lambda>i. take (unat len) (drop (i * unat len) (rest b h))) [0..<Suc n]"
    unfolding eq using p(1) h'(4) by simp
  ultimately show ?case using extends_trans [OF h1(2) h'(2)] by blast
qed

lemma concat_chunks:
  "0 < k \<Longrightarrow> concat (map (\<lambda>i. take k (drop (i * k) xs)) [0..<n]) = take (n * k) xs"
proof (induction n arbitrary: xs)
  case (Suc n)
  have "concat (map (\<lambda>i. take k (drop (i * k) xs)) [0..<Suc n])
      = take (n * k) xs @ take k (drop (n * k) xs)" using Suc by simp
  also have "\<dots> = take (Suc n * k) xs" by (simp add: take_add [symmetric] add.commute)
  finally show ?case .
qed simp

lemma placed_reset:
  assumes "buf_ok b h" and "b_segs (heads h b) \<noteq> []"
  defines "h' \<equiv> exec (BUF_resetParse b) h"
  shows "placed b h'" "buf_ok b h'" "rest b h' = buf_octets b h" "extends {b} h h' = mem_ok h"
    "\<And>c. buf_octets c h' = buf_octets c h"
proof -
  obtain g gs where segs: "b_segs (heads h b) = g # gs" using assms(2) by (cases "b_segs (heads h b)") auto
  have h': "h' = move b g (g_start (segs h g)) h"
    by (simp add: h'_def exec_def BUF_resetParse_def QU_FIRST_seg_def segs move_def)
  have ok: "seg_ok h' c = seg_ok h c" for c by (simp add: h' seg_ok_def)
  have "later_segs b h' = gs" by (simp add: later_segs_def h' segs)
  then show "placed b h'" "buf_ok b h'" "rest b h' = buf_octets b h"
    using assms(1) by (auto simp: placed_def buf_ok_def ok segs rest_def buf_octets_def seg_octets_def seg_ok_def)
      (auto simp: h' segs)
  show "extends {b} h h' = mem_ok h" by (auto simp: extends_def h' mem_ok_def)
  show "buf_octets c h' = buf_octets c h" for c by (simp add: buf_octets_def h')
qed


lemma BUF_getBufferLength_octets:
  assumes "buf_ok b h" and "b \<noteq> NULL"
  shows "BUF_getBufferLength b h = of_nat (length (buf_octets b h))"
proof -
  have "sum_list (map (\<lambda>g. seg_len g h) gs) = of_nat (length (concat (map (\<lambda>g. seg_octets g h) gs)))"
    if "\<forall>g \<in> set gs. seg_ok h g" for gs
    using that by (induction gs) (simp_all add: seg_len_def seg_octets_def seg_ok_def word_of_int_nat)
  then show ?thesis using assms by (simp add: BUF_getBufferLength_def buf_octets_def buf_ok_def)
qed

lemma num_segments_bounds:
  assumes "0 < n" and "n < 4294967296"
  defines "k \<equiv> unat (num_segments (of_nat n))"
  shows "(k - 1) * 1400 < n" "n \<le> k * 1400" "0 < k"
proof -
  have len: "unat (of_nat n :: u32) = n" "unat segment_length = 1400"
    using assms(2) by (simp_all add: unat_of_nat segment_length_def)
  have "unat ((of_nat n :: u32) div segment_length) = n div 1400"
    by (simp only: unat_div len)
  moreover have "(of_nat n :: u32) mod segment_length \<noteq> 0 \<longleftrightarrow> n mod 1400 \<noteq> 0"
    using unat_mod [of "of_nat n :: u32" segment_length] by (metis len unat_eq_0)
  moreover have "n div 1400 + 1 < 4294967296" using assms(2) by simp
  ultimately have k: "k = n div 1400 + (if n mod 1400 \<noteq> 0 then 1 else 0)"
    by (simp add: k_def num_segments_def unat_word_ariths(1))
  define q r where "q = n div 1400" and "r = n mod 1400"
  have "n = q * 1400 + r" "r < 1400" by (simp_all add: q_def r_def)
  then show "(k - 1) * 1400 < n" "n \<le> k * 1400" "0 < k"
    using assms(1) unfolding k q_def [symmetric] r_def [symmetric] by (cases q; simp)+
qed

section \<open>Putting together\<close>

text \<open>Two buffers without a common segment.\<close>

definition bufs_apart :: "omem \<Rightarrow> ptr \<Rightarrow> ptr \<Rightarrow> bool" where
  "bufs_apart h b p \<longleftrightarrow> set (b # b_segs (heads h b)) \<inter> set (p # b_segs (heads h p)) = {}"

lemma run_upd_op:
  "\<not> u_aborted s \<Longrightarrow> u_mem (exec (upd_op p f) s) = u_mem s \<and> u_op (exec (upd_op p f) s) p = f (u_op s p) \<and>
     \<not> u_aborted (exec (upd_op p f) s)"
  by (simp add: upd_op_def ua_run)

lemma run_get_op:
  "\<not> u_aborted s \<Longrightarrow> result (get_op p) s = u_op s p \<and> u_mem (exec (get_op p) s) = u_mem s \<and>
     u_op (exec (get_op p) s) = u_op s \<and> \<not> u_aborted (exec (get_op p) s)"
  by (simp add: get_op_def ua_run)

lemma run_on_mem':
  "\<not> u_aborted s \<Longrightarrow> u_mem (exec (on_mem m) s) = exec m (u_mem s) \<and> u_op (exec (on_mem m) s) = u_op s \<and>
     \<not> u_aborted (exec (on_mem m) s)"
  "result (on_mem m) s = result m (u_mem s)"
  by (simp_all add: on_mem_def ua_run)

lemma run_mem_get: "exec (mem_get f) s = s" "result (mem_get f) s = f (u_mem s)"
  by (simp_all add: mem_get_def run_simps)

lemmas op_run = run_simps run_RC run_upd_op run_get_op run_on_mem' run_mem_get

text \<open>What of an operation the reassembly depends on.\<close>

definition seg_state :: "ua_operation \<Rightarrow> (nat \<Rightarrow> ptr) \<times> u32 \<times> u32 \<times> u32 \<times> ptr" where
  "seg_state x = (op_hSegmentBuf x, op_expectedSegmentMask x, op_receivedSegmentMask x, op_lastSegmentNumber x,
     op_hFirstOperationData x)"

lemma appendSegments_octets:
  "\<not> u_aborted s \<Longrightarrow> mem_ok (u_mem s) \<Longrightarrow> buf_ok full (u_mem s) \<Longrightarrow> distinct is \<Longrightarrow>
    \<forall>i \<in> set is. buf_ok (op_hSegmentBuf (u_op s p) i) (u_mem s) \<and> bufs_apart (u_mem s) full (op_hSegmentBuf (u_op s p) i) \<Longrightarrow>
    \<forall>i \<in> set is. \<forall>j \<in> set is. i \<noteq> j \<longrightarrow> bufs_apart (u_mem s) (op_hSegmentBuf (u_op s p) i) (op_hSegmentBuf (u_op s p) j) \<Longrightarrow>
    result (appendSegments p is full) s = Inr () \<and>
    (let s' = exec (appendSegments p is full) s in
      \<not> u_aborted s' \<and> seg_state (u_op s' p) = seg_state (u_op s p) \<and> mem_ok (u_mem s') \<and> buf_ok full (u_mem s') \<and>
      buf_octets full (u_mem s') = buf_octets full (u_mem s) @
        concat (map (\<lambda>i. buf_octets (op_hSegmentBuf (u_op s p) i) (u_mem s)) is))"
proof (induction "is" arbitrary: s)
  case Nil
  then show ?case by (simp add: run_RC)
next
  case (Cons i "is")
  let ?B = "op_hSegmentBuf (u_op s p)" and ?h = "u_mem s"
  have i: "buf_ok (?B i) ?h" "bufs_apart ?h full (?B i)" using Cons.prems(5) by simp_all
  obtain h' where h': "run_state (BUF_appendBuffer full (?B i)) ?h = (Inr (), h')" "extends {full, ?B i} ?h h'"
    "o_next h' = o_next ?h" "buf_ok full h'" "b_segs (heads h' full) = b_segs (heads ?h full) @ b_segs (heads ?h (?B i))"
    "buf_octets full h' = buf_octets full ?h @ buf_octets (?B i) ?h"
    using BUF_appendBuffer_octets [OF Cons.prems(2,3) i(1)] i(2) by (auto simp: bufs_apart_def)
  define s1 where "s1 = exec (set_rc p (on_mem (BUF_appendBuffer full (?B i)))) (exec (get_op p) s)"
  have s1: "u_mem s1 = h'" "\<not> u_aborted s1" "seg_state (u_op s1 p) = seg_state (u_op s p)"
    and r: "result (set_rc p (on_mem (BUF_appendBuffer full (?B i)))) (exec (get_op p) s) = Inr ()"
    using Cons.prems(1) h'(1)
    by (simp_all add: s1_def set_rc_def get_op_def upd_op_def ua_run exec_def [of "BUF_appendBuffer full (?B i)"]
        result_def [of "BUF_appendBuffer full (?B i)"] seg_state_def)
  have B: "op_hSegmentBuf (u_op s1 p) = ?B" using s1(3) by (simp add: seg_state_def)
  have other: "buf_ok (?B j) h' \<and> buf_octets (?B j) h' = buf_octets (?B j) ?h \<and> heads h' (?B j) = heads ?h (?B j) \<and>
      bufs_apart h' full (?B j)" if "j \<in> set is" for j
  proof -
    have j: "buf_ok (?B j) ?h" "bufs_apart ?h full (?B j)" "bufs_apart ?h (?B i) (?B j)"
      using Cons.prems(4-6) that by auto
    then have "?B j \<notin> {full, ?B i}" by (auto simp: bufs_apart_def)
    from extends_buf [OF h'(2) j(1) this] show ?thesis using j h'(5) by (auto simp: bufs_apart_def)
  qed
  have "\<forall>i \<in> set is. \<forall>j \<in> set is. i \<noteq> j \<longrightarrow> bufs_apart h' (?B i) (?B j)"
    using Cons.prems(6) other by (simp add: bufs_apart_def)
  with Cons.IH [of s1] s1 B other h'(2,4) Cons.prems(4)
  have IH: "result (appendSegments p is full) s1 = Inr ()"
    "let s' = exec (appendSegments p is full) s1 in
      \<not> u_aborted s' \<and> seg_state (u_op s' p) = seg_state (u_op s p) \<and> mem_ok (u_mem s') \<and> buf_ok full (u_mem s') \<and>
      buf_octets full (u_mem s') = buf_octets full h' @ concat (map (\<lambda>i. buf_octets (?B i) h') is)"
    by (simp_all add: extends_def)
  have "concat (map (\<lambda>i. buf_octets (?B i) h') is) = concat (map (\<lambda>i. buf_octets (?B i) ?h) is)"
    using other by (metis (no_types, lifting) map_cong)
  moreover have "result (appendSegments p (i # is) full) s = result (appendSegments p is full) s1"
    "exec (appendSegments p (i # is) full) s = exec (appendSegments p is full) s1"
    using Cons.prems(1) r by (simp_all add: run_simps run_RC run_get_op s1_def)
  ultimately show ?case using IH h'(6) by (simp add: Let_def del: appendSegments.simps cong: map_cong)
qed


lemma keep_segment_octets:
  assumes "\<not> u_aborted s" and mem: "mem_ok (u_mem s)"
    and c: "buf_ok (c_buf (u_mem s) (DeliverArgument_hContents (struct_at d))) (u_mem s)"
  shows "result (keep_segment p d i) s = Inr () \<and> (let s' = exec (keep_segment p d i) s in \<exists>nb.
    \<not> u_aborted s' \<and> extends {} (u_mem s) (u_mem s') \<and>
    seg_state (u_op s' p) = seg_state ((u_op s p)\<lparr>op_hSegmentBuf := (op_hSegmentBuf (u_op s p))(i := nb)\<rparr>) \<and>
    buf_ok nb (u_mem s') \<and>
    buf_octets nb (u_mem s') = buf_octets (c_buf (u_mem s) (DeliverArgument_hContents (struct_at d))) (u_mem s) \<and>
    (\<forall>c \<in> set (nb # b_segs (heads (u_mem s') nb)). o_next (u_mem s) \<le> c))"
proof -
  let ?c = "c_buf (u_mem s) (DeliverArgument_hContents (struct_at d))" and ?h = "u_mem s"
  obtain nb h1 where h1: "run_state (BUF_copy ?c) ?h = (Inr nb, h1)" "extends {} ?h h1" "buf_ok nb h1"
    "buf_octets nb h1 = buf_octets ?c ?h" "\<forall>c \<in> set (nb # b_segs (heads h1 nb)). o_next ?h \<le> c"
    using BUF_copy_octets [OF mem c] by blast
  have mem1: "mem_ok h1" using h1(2) by (simp add: extends_def)
  define h2 where "h2 = exec (OS_alloc 0) h1"
  have block: "result (OS_alloc 0) h1 \<noteq> NULL" "extends {} h1 h2"
    using mem1 by (auto simp: h2_def result_def exec_def run_OS_alloc mem_ok_def extends_def)
  note nb = extends_buf [OF block(2) h1(3)]
  have copy: "result (BUF_copy ?c) ?h = Inr nb" "exec (BUF_copy ?c) ?h = h1"
    using h1(1) by (simp_all add: result_def exec_def)
  let ?s' = "exec (keep_segment p d i) s"
  have run: "result (keep_segment p d i) s = Inr ()" "u_mem ?s' = h2" "\<not> u_aborted ?s'"
    "seg_state (u_op ?s' p) = seg_state ((u_op s p)\<lparr>op_hSegmentBuf := (op_hSegmentBuf (u_op s p))(i := nb)\<rparr>)"
    using assms(1) block(1)
    by (simp_all add: keep_segment_def set_rc_def op_run copy ua_operationAddUserFree_def seg_state_def h2_def)
  have old: "\<forall>c \<in> set (nb # b_segs (heads h2 nb)). o_next ?h \<le> c" using h1(5) nb(3) by simp
  show ?thesis
    unfolding Let_def run(2)
    by (intro conjI exI [of _ nb] run(1) run(3) run(4) nb(2) trans [OF nb(1) h1(4)] old
        extends_trans [OF h1(2) block(2)]) simp_all
qed

text \<open>
  An operation that collects segments: \<open>f\<close> is what has come so far, for the numbers up to \<open>n\<close>.
\<close>

definition collecting :: "ptr \<Rightarrow> nat \<Rightarrow> (nat \<rightharpoonup> octets) \<Rightarrow> ua \<Rightarrow> bool" where
  "collecting p n f s \<longleftrightarrow> \<not> u_aborted s \<and> mem_ok (u_mem s) \<and> n < 31 \<and> 0 \<in> dom f \<and> dom f \<subseteq> {..n} \<and>
     op_lastSegmentNumber (u_op s p) = of_nat n \<and> op_expectedSegmentMask (u_op s p) = mask (Suc n) \<and>
     (\<forall>i. bit (op_receivedSegmentMask (u_op s p)) i \<longleftrightarrow> i \<in> dom f) \<and>
     (\<forall>i \<in> dom f. buf_ok (op_hSegmentBuf (u_op s p) i) (u_mem s) \<and>
        buf_octets (op_hSegmentBuf (u_op s p) i) (u_mem s) = the (f i)) \<and>
     (\<forall>i \<in> dom f. \<forall>j \<in> dom f. i \<noteq> j \<longrightarrow> bufs_apart (u_mem s) (op_hSegmentBuf (u_op s p) i) (op_hSegmentBuf (u_op s p) j))"

lemma allSegments_octets:
  assumes c: "collecting p n f s" and all: "dom f = {..n}"
  defines "s' \<equiv> exec (allSegments p) s" and "d \<equiv> op_hFirstOperationData (u_op s p)"
  shows "result (allSegments p) s = Some d \<and> op_bComplete (u_op s' p) \<and>
    buf_octets (c_buf (u_mem s') (DeliverArgument_hContents (struct_at d))) (u_mem s') = concat (map (the \<circ> f) [0..<Suc n])"
proof -
  let ?B = "op_hSegmentBuf (u_op s p)"
  define js where "js = [1..<Suc n]"
  have js: "distinct js" "set js = {1..n}" "[0..<Suc n] = 0 # js" "[Suc 0..<Suc n] = js"
    by (auto simp: js_def upt_conv_Cons simp del: upt_Suc)
  define s1 where "s1 = exec (upd_op p (\<lambda>x. x\<lparr>op_hFullPduBuf := ?B 0\<rparr>)) (exec (get_op p) s)"
  have na: "\<not> u_aborted s" and n: "unat (op_lastSegmentNumber (u_op s p)) = n"
    using c by (simp_all add: collecting_def unat_of_nat)
  have s1: "u_mem s1 = u_mem s" "\<not> u_aborted s1" "seg_state (u_op s1 p) = seg_state (u_op s p)"
    using na by (simp_all add: s1_def get_op_def upd_op_def ua_run seg_state_def)
  then have B: "op_hSegmentBuf (u_op s1 p) = ?B" by (simp add: seg_state_def)
  define s2 where "s2 = exec (appendSegments p js (?B 0)) s1"
  have zero: "0 \<in> dom f" using c by (simp add: collecting_def)
  have "\<forall>i \<in> set js. buf_ok (?B i) (u_mem s1) \<and> bufs_apart (u_mem s1) (?B 0) (?B i)"
    "\<forall>i \<in> set js. \<forall>j \<in> set js. i \<noteq> j \<longrightarrow> bufs_apart (u_mem s1) (?B i) (?B j)"
    using c all zero by (auto simp: collecting_def s1(1) js(2))
  with appendSegments_octets [of s1 "?B 0" js p] s1 c zero
  have r: "result (appendSegments p js (?B 0)) s1 = Inr ()" and s2: "\<not> u_aborted s2"
    and oct: "buf_octets (?B 0) (u_mem s2) = buf_octets (?B 0) (u_mem s) @ concat (map (\<lambda>i. buf_octets (?B i) (u_mem s)) js)"
    by (simp_all add: collecting_def s2_def Let_def B js(1))
  have "concat (map (\<lambda>i. buf_octets (?B i) (u_mem s)) js) = concat (map (the \<circ> f) js)"
    using c all by (intro arg_cong [where f = concat] map_cong) (auto simp: collecting_def js(2))
  then have cat: "buf_octets (?B 0) (u_mem s2) = concat (map (the \<circ> f) [0..<Suc n])"
    using oct c zero by (simp add: collecting_def js(3) del: upt_Suc)
  define s3 where "s3 = exec (on_mem (BUF_resetParse (?B 0))) (exec (upd_op p (\<lambda>x. x\<lparr>op_hFullPduBuf := NULL\<rparr>))
    (exec (on_mem (set_buf (DeliverArgument_hContents (struct_at d)) (?B 0))) s2))"
  have s3: "c_buf (u_mem s3) (DeliverArgument_hContents (struct_at d)) = ?B 0" "\<not> u_aborted s3"
    "buf_octets (?B 0) (u_mem s3) = buf_octets (?B 0) (u_mem s2)"
    using s2
    by (simp_all add: s3_def ua_run set_buf_def BUF_resetParse_def QU_FIRST_seg_def upd_head_def buf_octets_def
        seg_octets_def seg_area_def octets_at_def)
  have "s' = exec (upd_op p (\<lambda>x. x\<lparr>op_bComplete := True\<rparr>)) (exec (stop_segmentationTimer p) s3)"
    "result (allSegments p) s = Some d"
    using na n r
    by (simp_all add: s'_def allSegments_def run_simps run_get_op d_def s3_def Let_def js(4) del: upt_Suc flip: s1_def s2_def)
  moreover have "buf_octets (?B 0) (u_mem (exec (stop_segmentationTimer p) s3)) = buf_octets (?B 0) (u_mem s3)"
    "c_buf (u_mem (exec (stop_segmentationTimer p) s3)) = c_buf (u_mem s3)" "\<not> u_aborted (exec (stop_segmentationTimer p) s3)"
    using s3(2)
    by (simp_all add: stop_segmentationTimer_def ua_run free_block_def OS_free_def buf_octets_def
        seg_octets_def seg_area_def octets_at_def)
  ultimately show ?thesis
    using s3(1,3) cat by (simp add: run_upd_op)
qed


text \<open>The masks: bit \<open>k\<close> is beyond the expected ones exactly when \<open>k\<close> is.\<close>

lemma beyond_mask:
  assumes "k < 32" and "n < 31"
  shows "(mask (Suc n) :: u32) < push_bit k 1 \<longleftrightarrow> n < k"
proof -
  have "(2 :: nat) ^ k < 2 ^ 32" using assms(1) by (intro power_strict_increasing) simp_all
  then have "unat (of_nat (2 ^ k) :: u32) = 2 ^ k" by (simp only: unat_of_nat) simp
  then have "unat (push_bit k 1 :: u32) = 2 ^ k" by simp
  moreover have "unat (mask (Suc n) :: u32) = 2 ^ Suc n - 1"
  proof -
    have "(2 :: nat) ^ Suc n < 2 ^ LENGTH(32)" using assms(2) by (intro power_strict_increasing) simp_all
    then have "(2 :: nat) ^ Suc n - 1 < 2 ^ LENGTH(32)" by (rule order_le_less_trans [OF diff_le_self])
    then have "unat (of_nat (2 ^ Suc n - 1) :: u32) = 2 ^ Suc n - 1" by (simp only: unat_of_nat mod_less)
    moreover have "(mask (Suc n) :: u32) = of_nat (2 ^ Suc n - 1)"
      unfolding mask_eq_exp_minus_1 [symmetric] of_nat_mask_eq by (rule refl)
    ultimately show ?thesis by (simp only:)
  qed
  moreover have "(2 :: nat) ^ Suc n - 1 < 2 ^ k \<longleftrightarrow> n < k"
  proof
    assume "(2 :: nat) ^ Suc n - 1 < 2 ^ k"
    then have "(2 :: nat) ^ Suc n \<le> 2 ^ k" by simp
    then show "n < k" using power_increasing_iff [of "2 :: nat" "Suc n" k] by linarith
  next
    assume "n < k"
    then have "(2 :: nat) ^ Suc n \<le> 2 ^ k" by (intro power_increasing) simp_all
    then show "(2 :: nat) ^ Suc n - 1 < 2 ^ k" by (rule order_less_le_trans [rotated]) simp
  qed
  ultimately show ?thesis by (simp only: word_less_nat_alt)
qed

lemma masks_complete:
  assumes "n < 31" and "dom f \<subseteq> {..n}" and "\<forall>i. bit (w :: u32) i \<longleftrightarrow> i \<in> dom f"
  shows "mask (Suc n) = w \<longleftrightarrow> dom f = {..n}"
proof -
  have "bit (mask (Suc n) :: u32) i \<longleftrightarrow> i \<le> n" for i
    using assms(1) by (auto simp: bit_mask_iff)
  moreover have "i < 32" if "i \<le> n \<or> i \<in> dom f" for i using that assms(1,2) by auto
  ultimately have "mask (Suc n) = w \<longleftrightarrow> (\<forall>i. i \<le> n \<longleftrightarrow> i \<in> dom f)"
    using assms(3) by (simp add: bit_eq_iff) blast
  then show ?thesis using assms(2) by auto
qed

lemma collecting_add:
  assumes c: "collecting p n f s" and k: "k \<le> n" "f k = None"
    and na: "\<not> u_aborted s'" and ext: "extends {} (u_mem s) (u_mem s')"
    and st: "seg_state (u_op s' p) = seg_state ((u_op s p)\<lparr>op_hSegmentBuf := (op_hSegmentBuf (u_op s p))(k := nb),
      op_receivedSegmentMask := op_receivedSegmentMask (u_op s p) OR push_bit k 1\<rparr>)"
    and nb: "buf_ok nb (u_mem s')" "buf_octets nb (u_mem s') = xs"
      "\<forall>c \<in> set (nb # b_segs (heads (u_mem s') nb)). o_next (u_mem s) \<le> c"
  shows "collecting p n (f(k \<mapsto> xs)) s'"
proof -
  let ?B = "op_hSegmentBuf (u_op s p)" and ?h = "u_mem s" and ?h' = "u_mem s'"
  have B: "op_hSegmentBuf (u_op s' p) = ?B(k := nb)" using st by (simp add: seg_state_def)
  have old: "buf_ok (?B i) ?h' \<and> buf_octets (?B i) ?h' = the (f i) \<and> heads ?h' (?B i) = heads ?h (?B i) \<and>
      (\<forall>c \<in> set (?B i # b_segs (heads ?h (?B i))). c < o_next ?h)" if "i \<in> dom f" for i
  proof -
    have "buf_ok (?B i) ?h" "buf_octets (?B i) ?h = the (f i)" using c that by (auto simp: collecting_def)
    then show ?thesis
      using extends_buf [OF ext, of "?B i"] by (auto simp: buf_ok_def seg_ok_def)
  qed
  have new: "bufs_apart ?h' (?B i) nb" "bufs_apart ?h' nb (?B i)" if "i \<in> dom f" for i
    using old [OF that] nb(3) by (auto simp: bufs_apart_def dest: leD)
  have "bufs_apart ?h' (?B i) (?B j)" if "i \<in> dom f" "j \<in> dom f" "i \<noteq> j" for i j
    using c old [OF that(1)] old [OF that(2)] that by (simp add: collecting_def bufs_apart_def)
  moreover have "bit (op_receivedSegmentMask (u_op s p) OR push_bit k 1) i \<longleftrightarrow> i \<in> insert k (dom f)" for i
    using c k(1) by (auto simp: collecting_def bit_or_iff bit_exp_iff)
  moreover have "k \<notin> dom f" using k(2) by auto
  ultimately show ?thesis
    using c na ext st old new nb(1,2) k(1)
    unfolding collecting_def by (simp add: B seg_state_def extends_def)
qed


lemma otherSegment_octets:
  fixes p n f s d k
  assumes c: "collecting p n f s"
    and b: "buf_ok (c_buf (u_mem s) (DeliverArgument_hContents (struct_at d))) (u_mem s)"
  defines "xs \<equiv> buf_octets (c_buf (u_mem s) (DeliverArgument_hContents (struct_at d))) (u_mem s)"
    and "s' \<equiv> exec (otherSegment p d k) s"
  shows "unat k \<in> dom f \<or> n < unat k \<Longrightarrow> result (otherSegment p d k) s = None \<and> collecting p n f s'"
    and "unat k \<le> n \<Longrightarrow> unat k \<notin> dom f \<Longrightarrow> insert (unat k) (dom f) \<noteq> {..n} \<Longrightarrow>
      result (otherSegment p d k) s = Some d \<and> collecting p n (f(unat k \<mapsto> xs)) s'"
    and "unat k \<le> n \<Longrightarrow> unat k \<notin> dom f \<Longrightarrow> insert (unat k) (dom f) = {..n} \<Longrightarrow>
      result (otherSegment p d k) s = Some (op_hFirstOperationData (u_op s p)) \<and> op_bComplete (u_op s' p) \<and>
      buf_octets (c_buf (u_mem s') (DeliverArgument_hContents (struct_at (op_hFirstOperationData (u_op s p))))) (u_mem s')
        = concat (map (the \<circ> f(unat k \<mapsto> xs)) [0..<Suc n])"
proof -
  let ?k = "unat k" and ?s = "exec (get_op p) s"
  let ?bit = "push_bit ?k 1 :: u32"
  have na: "\<not> u_aborted s" and n: "n < 31" and masks: "op_expectedSegmentMask (u_op s p) = mask (Suc n)"
    "\<forall>i. bit (op_receivedSegmentMask (u_op s p)) i \<longleftrightarrow> i \<in> dom f" and sub: "dom f \<subseteq> {..n}"
    using c by (simp_all add: collecting_def)
  have k32: "k > 31 \<longleftrightarrow> 31 < ?k" by (simp add: word_less_nat_alt)
  have beyond: "k > 31 \<or> ?bit > op_expectedSegmentMask (u_op s p) \<longleftrightarrow> n < ?k"
    using beyond_mask [of ?k n] n by (cases "31 < ?k") (auto simp: masks(1) k32)
  have seen: "op_receivedSegmentMask (u_op s p) AND ?bit \<noteq> 0 \<longleftrightarrow> ?k \<in> dom f" if "?k \<le> n"
    using masks(2) bit_iff_and_push_bit_not_eq_0 [of "op_receivedSegmentMask (u_op s p)" ?k] by blast
  have same: "collecting p n f ?s" using c na by (simp add: collecting_def run_get_op)
  show "result (otherSegment p d k) s = None \<and> collecting p n f s'" if "?k \<in> dom f \<or> n < ?k"
  proof (cases "n < ?k")
    case True
    then show ?thesis using beyond na same
      by (simp add: otherSegment_def op_run s'_def Let_def)
  next
    case False
    then show ?thesis using beyond seen na same that
      by (simp add: otherSegment_def op_run s'_def Let_def)
  qed
  assume k: "?k \<le> n" "?k \<notin> dom f"
  have mem: "mem_ok (u_mem ?s)" "\<not> u_aborted ?s" "u_mem ?s = u_mem s" "u_op ?s = u_op s"
    using c na by (simp_all add: collecting_def run_get_op)
  let ?s1 = "exec (keep_segment p d ?k) ?s"
  obtain nb where r: "result (keep_segment p d ?k) ?s = Inr ()" and nb: "\<not> u_aborted ?s1" "extends {} (u_mem s) (u_mem ?s1)"
    "seg_state (u_op ?s1 p) = seg_state ((u_op s p)\<lparr>op_hSegmentBuf := (op_hSegmentBuf (u_op s p))(?k := nb)\<rparr>)"
    "buf_ok nb (u_mem ?s1)" "buf_octets nb (u_mem ?s1) = xs"
    "\<forall>c \<in> set (nb # b_segs (heads (u_mem ?s1) nb)). o_next (u_mem s) \<le> c"
    using keep_segment_octets [of ?s d p ?k] mem b by (auto simp: Let_def xs_def)
  define s2 where "s2 = exec (get_op p) (exec (upd_op p (\<lambda>x. x\<lparr>op_receivedSegmentMask := op_receivedSegmentMask x OR ?bit\<rparr>)) ?s1)"
  have s2: "\<not> u_aborted s2" "u_mem s2 = u_mem ?s1"
    "seg_state (u_op s2 p) = seg_state ((u_op s p)\<lparr>op_hSegmentBuf := (op_hSegmentBuf (u_op s p))(?k := nb),
      op_receivedSegmentMask := op_receivedSegmentMask (u_op s p) OR ?bit\<rparr>)"
    using nb(1,3) by (simp_all add: s2_def run_get_op run_upd_op seg_state_def)
  have add: "collecting p n (f(?k \<mapsto> xs)) s2"
    using collecting_add [OF c k(1) _ s2(1) _ s2(3)] k(2) nb(2,4-6) by (simp add: s2(2) domIff)
  have run: "result (otherSegment p d k) s =
      result (if op_expectedSegmentMask (u_op s2 p) = op_receivedSegmentMask (u_op s2 p) then allSegments p else return (Some d)) s2"
    "s' = exec (if op_expectedSegmentMask (u_op s2 p) = op_receivedSegmentMask (u_op s2 p) then allSegments p else return (Some d)) s2"
    using beyond seen na k r nb(1)
    by (simp_all add: otherSegment_def run_simps run_get_op run_upd_op s'_def Let_def s2_def)
  have "op_expectedSegmentMask (u_op s2 p) = op_receivedSegmentMask (u_op s2 p) \<longleftrightarrow> insert ?k (dom f) = {..n}"
    using masks_complete [of n "f(?k \<mapsto> xs)" "op_receivedSegmentMask (u_op s2 p)"] add by (simp add: collecting_def)
  note run' = run [unfolded this]
  have first: "op_hFirstOperationData (u_op s2 p) = op_hFirstOperationData (u_op s p)" using s2(3) by (simp add: seg_state_def)
  show "result (otherSegment p d k) s = Some d \<and> collecting p n (f(?k \<mapsto> xs)) s'" if "insert ?k (dom f) \<noteq> {..n}"
    using that add by (simp add: run' run_simps)
  assume "insert ?k (dom f) = {..n}"
  with allSegments_octets [OF add] first
  show "result (otherSegment p d k) s = Some (op_hFirstOperationData (u_op s p)) \<and> op_bComplete (u_op s' p) \<and>
      buf_octets (c_buf (u_mem s') (DeliverArgument_hContents (struct_at (op_hFirstOperationData (u_op s p))))) (u_mem s')
        = concat (map (the \<circ> f(?k \<mapsto> xs)) [0..<Suc n])"
    by (simp add: run' del: upt_Suc)
qed


text \<open>The first segment starts it, unless the timer does not start.\<close>

lemma start_timer_octets:
  fixes s p
  assumes "\<not> u_aborted s" and "mem_ok (u_mem s)"
  defines "s' \<equiv> exec (set_rc p (start_segmentationTimer p)) s"
  shows "\<not> u_aborted s' \<and> extends {} (u_mem s) (u_mem s') \<and> seg_state (u_op s' p) = seg_state (u_op s p)"
proof -
  have ask: "\<not> u_aborted (exec (ask f) s)" "u_mem (exec (ask f) s) = u_mem s" "u_op (exec (ask f) s) = u_op s" for f :: "ua_env \<Rightarrow> nat \<Rightarrow> u32 option"
    using assms(1) by (simp_all add: ask_def ua_run)
  have upd: "\<not> u_aborted t \<Longrightarrow> \<not> u_aborted (exec (ua_upd (\<lambda>s. s\<lparr>u_timers := q\<rparr>)) t) \<and>
      u_mem (exec (ua_upd (\<lambda>s. s\<lparr>u_timers := q\<rparr>)) t) = u_mem t \<and> u_op (exec (ua_upd (\<lambda>s. s\<lparr>u_timers := q\<rparr>)) t) = u_op t" for t q
    by (simp add: ua_upd_def run_simps)
  have alloc: "extends {} (u_mem s) (exec (OS_alloc 0) (u_mem s))" "extends {} (u_mem s) (u_mem s)"
    using assms(2) by (auto simp: exec_def run_OS_alloc mem_ok_def extends_def)
  show ?thesis
    using assms(1) alloc
    by (simp add: s'_def set_rc_def start_segmentationTimer_def op_run ask upd seg_state_def split: option.split prod.split)
qed

lemma firstSegment_octets:
  fixes s d p q n
  assumes "\<not> u_aborted s" and mem: "mem_ok (u_mem s)" and n: "n < 31"
    and b: "buf_ok (c_buf (u_mem s) (DeliverArgument_hContents (struct_at d))) (u_mem s)"
    and ok: "result (firstSegment p d q (of_nat (Suc n))) s \<noteq> None"
  defines "xs \<equiv> buf_octets (c_buf (u_mem s) (DeliverArgument_hContents (struct_at d))) (u_mem s)"
    and "s' \<equiv> exec (firstSegment p d q (of_nat (Suc n))) s"
  shows "result (firstSegment p d q (of_nat (Suc n))) s = Some d \<and> collecting p n [0 \<mapsto> xs] s' \<and>
    op_hFirstOperationData (u_op s' p) = d"
proof -
  have last: "(of_nat (Suc n) :: u32) - 1 = of_nat n" "unat (of_nat n :: u32) = n"
    using n by (simp_all add: unat_of_nat)
  then have small: "\<not> (of_nat n :: u32) > 31" "(of_nat n :: u32) \<noteq> 31"
    using n by (auto simp: word_less_nat_alt)
  define s1 where "s1 = exec (upd_op p (\<lambda>x. x\<lparr>op_sequenceId := q, op_hFirstOperationData := d\<rparr>))
    (exec (upd_op p (\<lambda>x. x\<lparr>op_lastSegmentNumber := of_nat n\<rparr>)) s)"
  have s1: "\<not> u_aborted s1" "u_mem s1 = u_mem s" "op_hFirstOperationData (u_op s1 p) = d"
    "op_lastSegmentNumber (u_op s1 p) = of_nat n"
    using assms(1) by (simp_all add: s1_def run_upd_op)
  define s2 where "s2 = exec (keep_segment p d 0) s1"
  obtain nb where r: "result (keep_segment p d 0) s1 = Inr ()" and nb: "\<not> u_aborted s2" "extends {} (u_mem s) (u_mem s2)"
    "seg_state (u_op s2 p) = seg_state ((u_op s1 p)\<lparr>op_hSegmentBuf := (op_hSegmentBuf (u_op s1 p))(0 := nb)\<rparr>)"
    "buf_ok nb (u_mem s2)" "buf_octets nb (u_mem s2) = xs"
    using keep_segment_octets [of s1 d p 0] s1 mem b by (auto simp: Let_def xs_def s2_def)
  define M :: u32 where "M = mask (Suc n)"
  have M: "2 * 2 ^ n - 1 = M" by (simp add: M_def mask_eq_exp_minus_1)
  define s3 where "s3 = exec (upd_op p (\<lambda>x. x\<lparr>op_expectedSegmentMask := M, op_receivedSegmentMask := 1\<rparr>)) s2"
  have s3: "\<not> u_aborted s3" "u_mem s3 = u_mem s2" "op_hSegmentBuf (u_op s3 p) 0 = nb"
    "op_expectedSegmentMask (u_op s3 p) = mask (Suc n)" "op_receivedSegmentMask (u_op s3 p) = 1"
    "op_lastSegmentNumber (u_op s3 p) = of_nat n" "op_hFirstOperationData (u_op s3 p) = d"
    using nb(1,3) s1 by (simp_all add: s3_def run_upd_op seg_state_def M_def)
  let ?s4 = "exec (set_rc p (start_segmentationTimer p)) s3" and ?r = "result (set_rc p (start_segmentationTimer p)) s3"
  have mem3: "mem_ok (u_mem s3)" using nb(2) by (simp add: s3 extends_def)
  have s4: "\<not> u_aborted ?s4" "extends {} (u_mem s2) (u_mem ?s4)" "seg_state (u_op ?s4 p) = seg_state (u_op s3 p)"
    using start_timer_octets [OF s3(1) mem3, of p] s3(2) by simp_all
  let ?last = "case ?r of Inl _ \<Rightarrow> do { x \<leftarrow> get_op p; call_free Free_BUF (op_hSegmentBuf x 0); return None } | Inr _ \<Rightarrow> return (Some d)"
  have run: "result (firstSegment p d q (of_nat (Suc n))) s = result ?last ?s4" "s' = exec ?last ?s4"
    using small r by (simp_all add: firstSegment_def run_simps Let_def last s'_def M flip: s1_def s2_def s3_def)
  have inr: "\<exists>u. ?r = Inr u" using ok unfolding run(1) by (cases ?r) (simp_all add: run_simps)
  then have returns: "result (firstSegment p d q (of_nat (Suc n))) s = Some d" "s' = ?s4"
    using run by (auto simp: run_simps)
  have "bit (1 :: u32) i \<longleftrightarrow> i = 0" for i by (simp add: bit_1_iff)
  then have "collecting p n [0 \<mapsto> xs] ?s4"
    using s4(1,2) s4(3)[unfolded seg_state_def] s3 nb(5) extends_buf [OF s4(2) nb(4)] n
    by (simp add: collecting_def extends_def)
  then show ?thesis using returns s4(3) s3(7) by (simp add: seg_state_def)
qed

end
