(* ===== verification/Ua_Demo.thy ===== *)
theory Ua_Demo
  imports Ua_Reach Ua_Verify Ua_Segments
begin

text \<open>
  A concrete user agent on which the theorems are applied: it has just been started, with five
  operations of each pool and five elements for the identifiers of submitted messages. The third
  call of \<^verbatim>\<open>OS_alloc\<close> fails, so that a submission is given up after its operation was allocated.
\<close>

definition ud_mem :: omem where
  "ud_mem = \<lparr>o_fail = (\<lambda>n. n = 1), o_count = 0, o_next = 100, o_live = {}, a_cells = (\<lambda>a i. word_of_int i),
     a_size = (\<lambda>_. 4),
     strs = (\<lambda>_. \<lparr>s_refCount = 0, s_status = Str_Status_LocallyAllocated, s_maxLen = 0, s_len = 0, s_p = NULL\<rparr>),
     segs = (\<lambda>_. \<lparr>g_string = NULL, g_start = 0, g_end = 0\<rparr>), heads = (\<lambda>_. \<lparr>b_segs = [], b_cur = NULL, b_x = 0\<rparr>),
     c_int = (\<lambda>_. 0), c_bool = (\<lambda>_. False), c_byte = (\<lambda>_. 0), c_str = (\<lambda>_. NULL), c_buf = (\<lambda>_. NULL)\<rparr>"

definition ud_operation :: ua_operation where
  "ud_operation = \<lparr>op_operationValue = 0, op_encodingType = 0, op_invokeId = 0, op_unacknowledgedInvokeId = 0,
     op_hFsm = NULL, op_hSapDesc = 0, op_sapSel = 0, op_rc = None, op_bComplete = False,
     op_hOperationData = NULL, op_hFirstOperationData = NULL, op_hFullPduBuf = NULL, op_hSegmentBuf = (\<lambda>_. NULL),
     op_expectedSegmentMask = 0, op_receivedSegmentMask = 0, op_sequenceId = 0, op_lastSegmentNumber = 0,
     op_nextSegmentNumber = 0, op_segmentLength = 0, op_hSegmentationTimer = NULL, op_pendingQ = [],
     op_hCurrentBuf = NULL, op_retryCount = 0, op_status = MTSUA_Status_Success, op_messageId = [],
     op_userFreeQ = [], op_pPool = concurrentOperationsInbound, op_pHackData = []\<rparr>"

definition ud_recipient :: "'z \<Rightarrow> 'z uash_recipientInfo" where
  "ud_recipient z = \<lparr>ri_recipient = UASH_RecipientStyle_Rfc822 z, ri_recipientType = UASH_RecipientType_Primary,
     bReceiptNotificationRequested = False, bNonReceiptNotificationRequested = False,
     bMessageReturnRequested = False, bNonDeliveryReportRequested = False,
     bDeliveryReportRequested = False, bReplyRequested = False\<rparr>"

definition ud_env :: ua_env where
  "ud_env = \<lparr>env_duFail = (\<lambda>_. False), env_invoke = (\<lambda>n. Some (int n + 500)), env_request = (\<lambda>_. True),
     env_shell = (\<lambda>_. True), env_clock = (\<lambda>_. Some 5), env_junk = (\<lambda>_. ud_recipient None),
     env_uninit = (\<lambda>_. 0), env_duData = (\<lambda>_ _. 0)\<rparr>"

definition ud_verify :: qu_heap where
  "ud_verify = init_verify 20 21 [22, 23, 24, 25, 26] \<lparr>pNext = (\<lambda>_. NULL), pPrev = (\<lambda>_. NULL)\<rparr>"

definition ud :: ua where
  "ud = \<lparr>u_mem = ud_mem, u_op = (\<lambda>_. ud_operation), u_active = [],
     u_machine = (\<lambda>_. \<lparr>m_userData = NULL, m_curState = None, m_transDiag = None\<rparr>),
     u_sch = \<lparr>availSchInfo = 30, sch_active = [], sch_runq = [], sch_virgin = False\<rparr>, u_timers = [],
     u_pool = (\<lambda>_. 5), u_verify = ud_verify, u_verifyId = (\<lambda>_. []), u_duplicate = replicate 32 0,
     u_instanceId = 0, u_sequence = 0,
     u_cfg = \<lparr>g_mtsNsapLen = 4, g_pPassword = NULL, g_hInvoker3Way = 1, g_hPerformer2Way = 2, g_hActive = 20,
       g_hInactive = 21, g_bDeliveryVerifySupported = False\<rparr>,
     u_env = ud_env, u_calls = 0, u_requests = [], u_upcalls = [], u_views = {}, u_undefined = False,
     u_aborted = False\<rparr>"

definition ud_heading :: "ptr uash_heading" where
  "ud_heading = \<lparr>uh_originator = UASH_RecipientStyle_Rfc822 10, uh_sender = UASH_RecipientStyle_Rfc822 NULL,
     uh_recipInfo = [ud_recipient 10], uh_replyTo = [], uh_repliedTo = NULL, uh_subject = 11,
     uh_priority = UASH_Priority_Normal, uh_importance = UASH_Importance_Normal, uh_autoForwarded = False,
     uh_mimeVersion = NULL, uh_mimeContentType = NULL, uh_mimeContentId = NULL,
     uh_mimeContentDescription = NULL, uh_mimeContentTransferEncoding = NULL, uh_extension = []\<rparr>"

definition ud_submit :: ua_input where
  "ud_submit = In_submit ud_heading 11 [65]"

lemma ud_started: "ua_started ud"
  by (simp add: ua_started_def ud_def ud_mem_def)

lemma ud_reachable: "ua_reachable ud (exec (ua_input ud_submit) ud)"
  by (intro ua_reachable.intros ud_started)

lemma ud_simps:
  "u_mem ud = ud_mem" "u_op ud = (\<lambda>_. ud_operation)" "u_active ud = []" "u_pool ud k = 5"
  "\<not> u_aborted ud" "\<not> u_undefined ud" "u_upcalls ud = []" "g_mtsNsapLen (u_cfg ud) = 4"
  by (simp_all add: ud_def)

definition ud_alloc :: ua where
  "ud_alloc = exec (ua_allocOperation concurrentOperationsOutbound [65]) ud"

lemma ud_alloc:
  "result (ua_allocOperation concurrentOperationsOutbound [65]) ud = Inr 100"
  "u_mem ud_alloc = ud_mem\<lparr>o_count := 1, o_next := 101, o_live := {100}, a_size := (\<lambda>_. 4)(100 := 0)\<rparr>"
  "u_active ud_alloc = [100]" "u_pool ud_alloc = (\<lambda>_. 5)(concurrentOperationsOutbound := 4)"
  "op_userFreeQ (u_op ud_alloc 100) = []" "op_pendingQ (u_op ud_alloc 100) = []"
  "op_pPool (u_op ud_alloc 100) = concurrentOperationsOutbound"
  "\<not> u_aborted ud_alloc" "\<not> u_undefined ud_alloc" "u_upcalls ud_alloc = []"
  by (simp_all add: ud_alloc_def ua_allocOperation_def ua_run run_RC OS_alloc_def ud_simps ud_mem_def ud_def)

lemma ud_given_up:
  "result (ua_preprocessSubmitRequest 100 h z) ud_alloc = Inl ResourceError"
  "exec (ua_preprocessSubmitRequest 100 h z) ud_alloc = ud_alloc\<lparr>u_mem := (u_mem ud_alloc)\<lparr>o_count := 2\<rparr>\<rparr>"
proof -
  have "o_fail (u_mem ud_alloc) (o_count (u_mem ud_alloc))" "Suc (o_count (u_mem ud_alloc)) = 2"
    by (simp_all add: ud_alloc ud_mem_def)
  then have "result (ua_messageFromShell h z) (u_mem ud_alloc) = Inl ResourceError"
    "exec (ua_messageFromShell h z) (u_mem ud_alloc) = (u_mem ud_alloc)\<lparr>o_count := 2\<rparr>"
    by (simp_all add: ua_messageFromShell_def mtsua_allocMessage_def alloc_struct_def OS_alloc_def run_RC run_simps)
  then show "result (ua_preprocessSubmitRequest 100 h z) ud_alloc = Inl ResourceError"
    "exec (ua_preprocessSubmitRequest 100 h z) ud_alloc = ud_alloc\<lparr>u_mem := (u_mem ud_alloc)\<lparr>o_count := 2\<rparr>\<rparr>"
    using ud_alloc(8) by (simp_all add: ua_preprocessSubmitRequest_def run_RC run_on_mem)
qed

lemma ud_input:
  "exec (ua_input ud_submit) ud =
    exec (ua_freeOperation 100) (ud_alloc\<lparr>u_mem := (u_mem ud_alloc)\<lparr>o_count := 2\<rparr>\<rparr>)"
  by (simp add: ud_submit_def ua_input_def UA_submitMessage_def run_RC run_simps ud_simps ud_alloc(1)
      ud_given_up flip: ud_alloc_def)

lemma ud_submitted:
  "alive (exec (ua_input ud_submit) ud)" "u_pool (exec (ua_input ud_submit) ud) = (\<lambda>_. 5)"
  by (simp_all add: ud_input alive_def ua_freeOperation_def free_block_def OS_free_def ua_run ud_alloc fun_eq_iff)

text \<open>
  A memory with two buffers of one octet each, and an operation that has collected the first of two
  segments; the contents of the argument at 70 are the second.
\<close>

definition ud_segments :: omem where
  "ud_segments = ud_mem\<lparr>o_fail := (\<lambda>_. False), a_cells := (\<lambda>a i. if a = 53 then 7 else 8),
     strs := (\<lambda>a. \<lparr>s_refCount = 1, s_status = Str_Status_LocallyAllocated, s_maxLen = 4, s_len = 1, s_p = a + 1\<rparr>),
     segs := (\<lambda>a. \<lparr>g_string = a + 1, g_start = 0, g_end = 1\<rparr>),
     heads := (\<lambda>a. \<lparr>b_segs = [a + 1], b_cur = a + 1, b_x = 0\<rparr>), c_buf := (\<lambda>_. 60)\<rparr>"

lemma ud_segments_ok: "mem_ok ud_segments" "50 \<noteq> NULL"
  by (simp_all add: mem_ok_def ud_segments_def ud_mem_def)

lemma ud_buffers:
  "buf_octets 50 ud_segments = [7]" "buf_octets 60 ud_segments = [8]"
  "buf_ok 50 ud_segments" "buf_ok 60 ud_segments" "bufs_apart ud_segments 50 60"
  by (simp_all add: buf_octets_def seg_octets_def seg_area_def octets_at_def buf_ok_def seg_ok_def bufs_apart_def
      ud_segments_def ud_mem_def)

definition ud_half :: ua where
  "ud_half = ud\<lparr>u_mem := ud_segments, u_op := (\<lambda>_. ud_operation\<lparr>op_hSegmentBuf := (\<lambda>_. 50),
     op_expectedSegmentMask := mask 2, op_receivedSegmentMask := 1, op_lastSegmentNumber := 1,
     op_hFirstOperationData := 71\<rparr>)\<rparr>"

lemma ud_collecting: "collecting 100 1 [0 \<mapsto> [7]] ud_half"
  using ud_buffers ud_segments_ok
  by (auto simp: collecting_def ud_half_def ud_def bit_1_iff numeral_2_eq_2)

lemma ud_contents:
  "buf_ok (c_buf (u_mem ud_half) (DeliverArgument_hContents (struct_at 70))) (u_mem ud_half)"
  "buf_octets (c_buf (u_mem ud_half) (DeliverArgument_hContents (struct_at 70))) (u_mem ud_half) = [8]"
  using ud_buffers by (simp_all add: ud_half_def ud_segments_def)

lemma ud_first: "op_hFirstOperationData (u_op ud_half p) = 71"
  by (simp add: ud_half_def)


end
