(* ===== verification/Ua_Machines.thy ===== *)
theory Ua_Machines
  imports Ua_Reach
begin

text \<open>
  Properties that only machines are about. \<open>ua_still\<close> is the interface of a property that depends
  on nothing but the diagrams and the current states of the machines (and the length of the bit
  array of the duplicates): then all predicates and actions of the diagrams preserve it. \<open>ua_every\<close>
  has in addition the loading of a diagram and the running of a machine, and then every input
  preserves the property.
\<close>

section \<open>Interfaces\<close>

lemma keeps_TMR_processQueue:
  assumes "keeps P (upd tl)" and "\<And>t. keeps P (handler t)"
  shows "keeps P (TMR_processQueue get upd handler clock n)"
proof -
  have "keeps P (TMR_processLoop get upd handler now n)" for now
    by (induction n) (use assms in \<open>auto intro!: keeps_intros split: list.split\<close>)
  then show ?thesis unfolding TMR_processQueue_def by (intro keeps_intros)
qed

locale ua_still = ua_frame +
  assumes op_any: "P s \<Longrightarrow> P (s\<lparr>u_op := g\<rparr>)"
    and userData: "P s \<Longrightarrow> P (s\<lparr>u_machine := (u_machine s)(m := (u_machine s m)\<lparr>m_userData := p\<rparr>)\<rparr>)"
    and upcall_any: "P s \<Longrightarrow> P (s\<lparr>u_upcalls := us\<rparr>)"
    and timers_any: "P s \<Longrightarrow> P (s\<lparr>u_timers := q'\<rparr>)"
    and verify_any: "P s \<Longrightarrow> P (s\<lparr>u_verify := v\<rparr>)" "P s \<Longrightarrow> P (s\<lparr>u_verifyId := i\<rparr>)"
    and dup_any: "P s \<Longrightarrow> length d = length (u_duplicate s) \<Longrightarrow> P (s\<lparr>u_duplicate := d\<rparr>)"
    and other_any: "P s \<Longrightarrow> P (s\<lparr>u_instanceId := n'\<rparr>)" "P s \<Longrightarrow> P (s\<lparr>u_sequence := k\<rparr>)"
      "P s \<Longrightarrow> P (s\<lparr>u_cfg := c'\<rparr>)" "P s \<Longrightarrow> P (s\<lparr>u_views := w\<rparr>)"
begin

lemmas any = keeps_ua_upd op_any upcall_any timers_any verify_any other_any pool active

lemma still_upd_op: "keeps P (upd_op p f)"
  unfolding upd_op_def by (intro keeps_intros keep_touch keeps_ua_upd op_any)

lemma still_upcall: "keeps P (upcall c)"
  unfolding upcall_def by (intro any)

lemma still_createMachine: "keeps P (FSM_createMachine p)"
  unfolding FSM_createMachine_def by (intro keeps_intros basics keeps_ua_upd userData grows_intros)

lemma still_duplicate: "keeps P (ua_isDuplicate v opv)" "keeps P (ua_addDuplicateDetection v opv)"
  by (auto simp: ua_isDuplicate_def ua_addDuplicateDetection_def Let_def
      intro!: keeps_intros basic keeps_ua_upd dup_any other_any split: list.split)

lemma still_issueInvoke: "keeps P (ua_issueInvoke p b)"
  unfolding ua_issueInvoke_def by (intro keeps_intros basic still_upd_op grows_intros still_duplicate)

lemma still_view_block: "keeps P (view_block xs)"
  unfolding view_block_def by (intro keeps_intros basic keeps_ua_upd other_any grows_intros grows_modify) simp

lemma still_viewToBuf: "keeps P (viewToBuf v)"
  unfolding viewToBuf_def by (intro keeps_intros basic still_view_block grows_intros)

lemma still_tosh_elements: "keeps P (tosh_elements n a esize f)"
  by (induction n arbitrary: a) (auto intro!: keeps_intros basic grows_intros)

lemma still_messageToShell: "keeps P (ua_messageToShell d ipm p)"
  unfolding ua_messageToShell_def Let_def
  by (intro keeps_intros basics still_upd_op still_tosh_elements still_upcall)

lemma still_formatAndInvoke:
  "keeps P (submit_formatAndInvoke p arg b)" "keeps P (perform_formatAndInvoke p arg)"
  unfolding submit_formatAndInvoke_def perform_formatAndInvoke_def
  by (intro keeps_intros basics still_upd_op grows_intros still_issueInvoke)+

lemma still_allocOperation: "keeps P (ua_allocOperation k sh)"
  unfolding ua_allocOperation_def by (intro keeps_intros basics still_upd_op grows_intros any)

lemmas still = still_upd_op basics still_upcall still_createMachine still_duplicate still_issueInvoke
  still_view_block still_viewToBuf still_messageToShell still_formatAndInvoke still_allocOperation
  keep_freeOperation

lemma still_verify: "keeps P (verify_upd f)" "keeps P verify_element"
  unfolding verify_upd_def verify_element_def by (intro keeps_intros keeps_ua_upd verify_any; assumption)+

lemma still_submit_fail: "keeps P (submit_fail p b)"
  unfolding submit_fail_def by (intro keeps_intros still)

lemma still_submit:
  "keeps P (submit_pS2S1a m p e)" "keeps P (submit_pS2S1b m p e)" "keeps P (submit_pS2S1d m p e)"
  "keeps P (submit_aS1S2a m p e)" "keeps P (submit_aS2S1a m p e)" "keeps P (submit_aS2S2a m p e)"
  "keeps P (submit_aS2S2b m p e)" "keeps P (submit_aS2S1b m p e)" "keeps P (submit_aS2S1c m p e)"
  "keeps P (submit_aS2S1d m p e)" "keeps P (submit_aUnexpectedEvent m p e)"
  unfolding submit_pS2S1a_def submit_pS2S1b_def submit_pS2S1d_def submit_aS1S2a_def submit_aS2S1a_def
    submit_aS2S2a_def submit_aS2S2b_def submit_aS2S1b_def submit_aS2S1c_def submit_aS2S1d_def
    submit_aUnexpectedEvent_def
  by (intro keeps_intros still still_submit_fail still_verify any grows_intros grows_set_segmentInfo; assumption)+

lemma still_take_pending: "keeps P (take_pending p)"
  unfolding take_pending_def by (intro keeps_intros still)

lemma still_keep_segment: "keeps P (keep_segment p d i)"
  unfolding keep_segment_def by (intro keeps_intros still grows_intros)

lemma still_segmentationTimer: "keeps P (start_segmentationTimer p)" "keeps P (stop_segmentationTimer p)"
  unfolding start_segmentationTimer_def stop_segmentationTimer_def
  by (intro keeps_intros still any grows_intros; assumption)+

lemma still_appendSegments: "keeps P (appendSegments p is full)"
  by (induction "is") (auto intro!: keeps_intros still grows_intros)

lemma still_reassemble: "keeps P (reassemble p d)"
  unfolding reassemble_def firstSegment_def otherSegment_def allSegments_def Let_def
  by (intro keeps_intros still still_keep_segment still_segmentationTimer still_appendSegments grows_intros)

lemma still_deliver: "keeps P (deliver p d)"
  unfolding deliver_def by (intro keeps_intros still grows_intros)

lemma still_perform_status: "keeps P (perform_status p st)"
  unfolding perform_status_def by (intro keeps_intros still)

lemma still_perform_predicates:
  "keeps P (perform_pS1S2a m p e)" "keeps P (perform_pS1S5a m p e)" "keeps P (perform_pS1S5b m p e)"
  "keeps P (perform_pS2S1a m p e)" "keeps P (perform_pS2S1d m p e)" "keeps P (perform_pS2S1e m p e)"
  "keeps P (perform_pS2S2a m p e)"
  unfolding perform_pS1S2a_def perform_pS1S5a_def perform_pS1S5b_def perform_pS2S1a_def
    perform_pS2S1d_def perform_pS2S1e_def perform_pS2S2a_def
  by (intro keeps_intros still still_take_pending still_reassemble still_deliver)+

lemma still_perform:
  "keeps P (perform_aS1S2a m p e)" "keeps P (perform_aS1S4a m p e)" "keeps P (perform_aS1S5a m p e)"
  "keeps P (perform_aS2S3a m p e)"
  "keeps P (perform_aS1S5b m p e)" "keeps P (perform_aS2S1a m p e)"
  "keeps P (perform_aS2S1b m p e)" "keeps P (perform_aS2S1c m p e)"
  "keeps P (perform_aS2S1d m p e)" "keeps P (perform_aS2S1e m p e)"
  "keeps P (perform_aS2S2a m p e)" "keeps P (perform_aS3S1a m p e)"
  "keeps P (perform_aS3S1b m p e)" "keeps P (perform_aS4S1a m p e)"
  "keeps P (perform_aS4S1b m p e)" "keeps P (perform_aS5S1a m p e)"
  "keeps P (perform_aS5S1b m p e)" "keeps P (perform_aS5S1c m p e)"
  "keeps P (perform_aUnexpectedEvent m p e)"
  unfolding perform_aS1S2a_def perform_aS1S4a_def perform_aS1S5a_def perform_aS2S3a_def
    perform_aS1S5b_def perform_aS2S1a_def perform_aS2S1b_def perform_aS2S1c_def
    perform_aS2S1d_def perform_aS2S1e_def perform_aS2S2a_def perform_aS3S1a_def perform_aS3S1b_def
    perform_aS4S1a_def perform_aS4S1b_def perform_aS5S1a_def perform_aS5S1b_def perform_aS5S1c_def
    perform_aUnexpectedEvent_def Let_def
  by (intro keeps_intros still grows_intros grows_string_block still_perform_status)+

lemma still_with_user: "(\<And>p. keeps P (f m p e)) \<Longrightarrow> keeps P (with_user f m e)"
  unfolding with_user_def by (intro keeps_intros still)

text \<open>The functions of the rows.\<close>

lemma still_rows:
  assumes "t \<in> set (s_trans (ua_tbl q))"
  shows "t_predicate t = Some f \<Longrightarrow> keeps P (f m e)" and "t_action t = Some g \<Longrightarrow> keeps P (g m e)"
  using assms
  by (cases q; auto simp: ua_tbl_def Let_def ua_tables ua_row_def
      intro!: still_with_user still_submit still_perform_predicates still_perform)+

end

locale ua_every = ua_still +
  assumes load: "d = ua_submitTransDiag \<or> d = ua_performerTransDiag \<Longrightarrow> keeps P (ua_loadMachine h d)"
    and run: "keeps P (ua_runMachine m e)"
begin

lemma every_newPerformer: "keeps P (newPerformer f d)"
  unfolding newPerformer_def by (intro keeps_intros still load) simp

lemma every_preprocess:
  "keeps P (preprocessDeliver b en)" "keeps P (preprocessSubmissionVerify b en)"
  "grows alloc \<Longrightarrow> keeps P (preprocessArgument p b alloc f protocol)"
  unfolding preprocessDeliver_def preprocessSubmissionVerify_def preprocessArgument_def Let_def
  by (intro keeps_intros still grows_intros; assumption?)+

lemma every_preprocessInvoke: "keeps P (ua_preprocessInvokeIndication b opv en i d sel)"
  unfolding ua_preprocessInvokeIndication_def Let_def
  by (intro keeps_intros still every_preprocess every_newPerformer grows_intros)

lemma every_preprocessReply:
  "keeps P (ua_preprocessResultIndication p b)" "keeps P (ua_preprocessErrorIndication p b)"
  unfolding ua_preprocessResultIndication_def ua_preprocessErrorIndication_def
  by (intro keeps_intros still every_preprocess grows_intros)+

lemma every_indications:
  "keeps P (ua_resultIndication i v)" "keeps P (ua_errorIndication i v)" "keeps P (ua_event i e)"
  "keeps P (ua_invokeIndication d sel addr i opv en v)"
  unfolding ua_resultIndication_def ua_errorIndication_def ua_event_def ua_invokeIndication_def
  by (intro keeps_intros still every_preprocessReply every_preprocessInvoke grows_intros)+

lemma every_submit: "keeps P (UA_submitMessage heading z sh)"
  unfolding UA_submitMessage_def ua_preprocessSubmitRequest_def submitMachine_def
  by (intro keeps_intros still load grows_intros grows_submitSecurity) simp

lemma every_setPassword: "keeps P (UA_setPassword z)"
  unfolding UA_setPassword_def by (intro keeps_intros still any grows_OS_allocStringCopy)

lemma every_sch: "keeps P (upd_ua_sch f)"
  unfolding upd_ua_sch_def by (intro keeps_ua_upd sch)

lemma every_dispatch: "keeps P (ua_dispatch t)"
  by (cases t) (auto simp: ua_dispatch_def intro!: keeps_intros still run)

lemma every_timers: "keeps P (ua_timers n)"
  unfolding ua_timers_def ua_timer_handler_def segmentationTimerExpired_def
  by (intro keeps_intros keeps_TMR_processQueue still any; assumption)

lemma every_input: "keeps P (ua_input i)"
  by (cases i) (auto simp: ua_input_def ua_resultConfirm_def ua_errorConfirm_def ua_failureIndication_def ua_reuse_def
      intro!: keeps_intros every_indications every_submit every_setPassword every_sch every_dispatch every_timers
        keeps_SCH_run still grows_intros)

lemma every_reachable: "ua_reachable s0 s \<Longrightarrow> P s0 \<Longrightarrow> P s"
  by (induction rule: ua_reachable.induct) (auto intro: keepsD [OF every_input])

end


section \<open>Machines and their diagrams\<close>

definition machine_view :: "ua \<Rightarrow> ptr \<Rightarrow> ua_state fsm_transDiagram option \<times> ua_state option" where
  "machine_view s m = (m_transDiag (u_machine s m), m_curState (u_machine s m))"

interpretation fixed: ua_still "\<lambda>s. machine_view s = c"
  by unfold_locales (auto simp: machine_view_def fun_eq_iff)

text \<open>The states that belong to a diagram.\<close>

definition diagram_states :: "ua_state fsm_transDiagram \<Rightarrow> ua_state set" where
  "diagram_states d = (if d = ua_submitTransDiag then {submit_s1Idle, submit_s2InvokeResponseWait}
     else if d = ua_performerTransDiag then {perf_s1Idle, perf_s2DeliverResultResponseWait,
       perf_s3DeliverVerifyResponseWait, perf_s4ErrorResponseWait, perf_s5NotDeliverResultResponseWait}
     else {})"

definition machines_typed :: "ua \<Rightarrow> bool" where
  "machines_typed s \<longleftrightarrow> (\<forall>m. case machine_view s m of
     (None, q) \<Rightarrow> q = None | (Some d, q) \<Rightarrow> \<exists>x \<in> diagram_states d. q = Some x)"

lemma typed_same: "machines_typed s \<Longrightarrow> machine_view s' = machine_view s \<Longrightarrow> machines_typed s'"
  by (simp add: machines_typed_def)

lemma row_next:
  "t \<in> set (s_trans (ua_tbl q)) \<Longrightarrow> q \<in> diagram_states d \<Longrightarrow> \<exists>x \<in> diagram_states d. t_nextState t = Some x"
  by (cases q; auto simp: ua_tbl_def Let_def ua_tables ua_row_def diagram_states_def split: if_splits)

lemma typed_update:
  assumes "machines_typed s" and "\<And>n. n \<noteq> m \<Longrightarrow> machine_view s' n = machine_view s n"
    and "machine_view s' m = (Some d, Some x)" "x \<in> diagram_states d"
  shows "machines_typed s'"
  unfolding machines_typed_def
proof
  fix n
  show "case machine_view s' n of (None, q) \<Rightarrow> q = None | (Some d, q) \<Rightarrow> \<exists>x \<in> diagram_states d. q = Some x"
    using assms by (cases "n = m") (auto simp: machines_typed_def)
qed

lemma typed_loadMachine:
  assumes "d = ua_submitTransDiag \<or> d = ua_performerTransDiag"
  shows "keeps machines_typed (ua_loadMachine h d)"
proof (rule keepsI)
  fix s assume t: "machines_typed s"
  let ?s = "exec (ua_loadMachine h d) s"
  show "machines_typed ?s"
  proof (cases "h = NULL \<or> u_aborted s")
    case True
    then have "machine_view ?s = machine_view s"
      by (auto simp: ua_loadMachine_def FSM_TRANSDIAG_load_def FSM_TRANSDIAG_resetMachine_def set_curState_def
          set_transDiag_def ua_run machine_view_def fun_eq_iff)
    then show ?thesis using t by (simp add: machines_typed_def)
  next
    case False
    then have v: "machine_view ?s h = (Some d, Some (d_state d))" "n \<noteq> h \<Longrightarrow> machine_view ?s n = machine_view s n" for n
      by (auto simp: ua_loadMachine_def FSM_TRANSDIAG_load_def FSM_TRANSDIAG_resetMachine_def set_curState_def
          set_transDiag_def ua_run machine_view_def)
    have "d_state d \<in> diagram_states d"
      using assms by (auto simp: diagram_states_def ua_submitTransDiag_def ua_performerTransDiag_def)
    with typed_update [OF t v(2) v(1)] show ?thesis by simp
  qed
qed

lemma typed_runMachine: "keeps machines_typed (ua_runMachine m e)"
proof (rule keepsI)
  fix s assume t: "machines_typed s"
  let ?s = "exec (touch m) s"
  have v: "machine_view ?s = machine_view s" by (rule keepsD [OF fixed.keep_touch]) simp
  show "machines_typed (exec (ua_runMachine m e) s)"
  proof (cases "m = NULL \<or> ua_curState m ?s = None")
    case True
    then have "exec (ua_runMachine m e) s = ?s"
      by (auto simp: ua_runMachine_def FSM_runMachine_def run_simps)
    then show ?thesis using t v by (simp add: machines_typed_def)
  next
    case False
    then obtain q where q: "ua_curState m ?s = Some q" "m \<noteq> NULL" by auto
    have "machine_view s m = (m_transDiag (u_machine ?s m), Some q)"
      using v q by (metis machine_view_def ua_curState_def)
    then obtain d where d: "machine_view s m = (Some d, Some q)" "q \<in> diagram_states d"
      using t by (auto simp: machines_typed_def split: option.splits prod.splits elim!: allE [of _ m])
    let ?scan = "fsm_scan (s_trans (ua_tbl q)) m e"
    let ?s1 = "exec ?scan ?s"
    have v1: "machine_view ?s1 = machine_view s"
      by (rule keepsD [OF keeps_fsm_scan]) (use fixed.still_rows(1) v in auto)
    show ?thesis
    proof (cases "result ?scan ?s")
      case None
      then have "exec (ua_runMachine m e) s = ?s1"
        using q by (simp add: ua_runMachine_def FSM_runMachine_def run_simps)
      then show ?thesis using t v1 by (simp add: machines_typed_def)
    next
      case (Some r)
      then have r: "r \<in> set (s_trans (ua_tbl q))" by (rule fsm_scan_in)
      obtain x where x: "x \<in> diagram_states d" "t_nextState r = Some x" using row_next [OF r d(2)] by blast
      let ?s2 = "exec (fsm_call (t_action r) m e) ?s1"
      have v2: "machine_view ?s2 = machine_view s"
        by (rule keepsD [OF keeps_fsm_call]) (use fixed.still_rows(2) [OF r] v1 in auto)
      have run: "exec (ua_runMachine m e) s = exec (set_curState m (Some x)) ?s2"
        using q Some x(2)
        by (simp add: ua_runMachine_def FSM_runMachine_def run_simps) (simp add: ua_tbl_def Let_def run_simps split: ua_state.split)
      show ?thesis
      proof (cases "u_aborted ?s2")
        case True
        then have "machine_view (exec (set_curState m (Some x)) ?s2) = machine_view ?s2"
          by (simp add: set_curState_def ua_run)
        then show ?thesis using t v2 by (simp add: run machines_typed_def)
      next
        case False
        have "machine_view (exec (set_curState m (Some x)) ?s2) n =
            (if n = m then (fst (machine_view ?s2 m), Some x) else machine_view ?s2 n)" for n
          using False by (simp add: set_curState_def ua_run machine_view_def)
        then show ?thesis
          unfolding run using typed_update [OF t, of m _ d x] x(1) by (simp add: v2 d(1))
      qed
    qed
  qed
qed

interpretation typed: ua_every machines_typed
proof unfold_locales
  show "keeps machines_typed (ua_loadMachine h d)" if "d = ua_submitTransDiag \<or> d = ua_performerTransDiag" for h d
    using that by (rule typed_loadMachine)
qed (auto simp: machine_view_def fun_eq_iff elim!: typed_same intro: typed_runMachine)


section \<open>The bit array of the duplicates\<close>

lemma keeps_dup_machine: "keeps (\<lambda>s. length (u_duplicate s) = 32) (set_curState m q)"
  "keeps (\<lambda>s. length (u_duplicate s) = 32) (set_transDiag m d)"
  by (simp_all add: keeps_def set_curState_def set_transDiag_def ua_run)

interpretation dup: ua_still "\<lambda>s. length (u_duplicate s) = 32"
  by unfold_locales simp_all

interpretation dups: ua_every "\<lambda>s. length (u_duplicate s) = 32"
proof unfold_locales
  show "keeps (\<lambda>s. length (u_duplicate s) = 32) (ua_loadMachine h d)" for h d
    unfolding ua_loadMachine_def FSM_TRANSDIAG_load_def FSM_TRANSDIAG_resetMachine_def
    by (intro keeps_intros keeps_dup_machine)
  show "keeps (\<lambda>s. length (u_duplicate s) = 32) (ua_runMachine m e)" for m e
    unfolding ua_runMachine_def
    by (intro keeps_intros dup.still keeps_FSM_runMachine keeps_dup_machine dup.still_rows)
      (auto simp: ua_tbl_def Let_def split: ua_state.splits)
qed

end
