(* ===== verification/Ua_Properties.thy ===== *)
theory Ua_Properties
  imports Ua_Demo Ua_Machines Ua_Segments
begin

text \<open>
  The properties of the EMSD user agent. Those of reachable states come from the invariant of theory
  Ua_Inv; what they say holds as long as the process lives and has not used a block it had freed.
\<close>

section \<open>Operations\<close>

text \<open>
C13. In every reachable state, each of the two pools of operations is accounted for: what is free
together with the active operations of that pool is what was free at the start. So no operation is
lost and the pool's counter of 8 bits does not wrap. No operation is active twice, and the user data
of a machine that is still allocated are an active operation.
\<close>

theorem ua_pools:
  assumes "ua_reachable s0 s" and "alive s"
  shows "unat (u_pool s k) + of_pool k s = unat (u_pool s0 k) \<and> distinct (u_active s) \<and>
    (m_userData (u_machine s m) \<in> o_live (u_mem s) \<longrightarrow> m_userData (u_machine s m) \<in> set (u_active s))"
  using reachable_ok [OF assms(1)] assms(2) by (auto simp: ua_inv_def core_def owned_def)

theorem ua_pools_witness:
  "unat (u_pool (exec (ua_input ud_submit) ud) concurrentOperationsOutbound)
     + of_pool concurrentOperationsOutbound (exec (ua_input ud_submit) ud) = 5"
  using ua_pools [OF ud_reachable ud_submitted(1), of concurrentOperationsOutbound] by (simp add: ud_simps)

text \<open>
C4. In every reachable state, the shell has been told at most one outcome of an operation, success
or failure; and an operation whose outcome was told has been freed.
\<close>

theorem submit_one_outcome:
  assumes "ua_reachable s0 s" and "alive s"
  shows "outcomes p s \<le> 1 \<and> (outcomes p s = 1 \<longrightarrow> p \<notin> o_live (u_mem s))"
  using reachable_ok [OF assms(1)] assms(2) by (auto simp: ua_inv_def core_def)

theorem submit_one_outcome_witness: "outcomes 100 (exec (ua_input ud_submit) ud) \<le> 1"
  using submit_one_outcome [OF ud_reachable ud_submitted(1)] by simp


section \<open>Identifiers of submitted messages\<close>

interpretation vf: ua_frame "\<lambda>s. u_verify s = v \<and> u_verifyId s = i \<and> u_cfg s = c"
  by unfold_locales simp_all

definition submitted_id :: "ptr \<Rightarrow> ua \<Rightarrow> octets" where
  "submitted_id p s = ua_messageIdEmsdLocalToRfc822
     (SubmitResult_localMessageId (struct_at (op_hOperationData (u_op s p)))) (u_mem s)"

lemma verify_freeOperation:
  "u_verify (exec (ua_freeOperation p) s) = u_verify s"
  "u_verifyId (exec (ua_freeOperation p) s) = u_verifyId s"
  "u_cfg (exec (ua_freeOperation p) s) = u_cfg s"
  using keepsD [OF vf.keep_freeOperation, of s "u_verify s" "u_verifyId s" "u_cfg s" p] by simp_all

lemma submit_aS2S1a_verify:
  assumes "\<not> u_aborted s"
    and "verify_quNext (g_hInactive (u_cfg s)) (u_verify s) = e" "e \<noteq> g_hInactive (u_cfg s)"
  shows "u_verify (exec (submit_aS2S1a m p ev) s) = verify_quInsert e (g_hActive (u_cfg s)) (u_verify s)"
    and "u_verifyId (exec (submit_aS2S1a m p ev) s) = (u_verifyId s)(e := submitted_id p s)"
    and "u_cfg (exec (submit_aS2S1a m p ev) s) = u_cfg s"
  using assms
  by (simp_all add: submit_aS2S1a_def verify_element_def verify_upd_def ua_run verify_freeOperation submitted_id_def)

text \<open>
C31. The five elements for the identifiers of submitted messages are used up by the first: an
element of the inactive queue is entered into the active one without being taken out of the
other, which makes one ring of the two queues. From then on, every message that is submitted
gets the head of the active queue as its element, the identifier is stored there, and the queues
stay as they are.
\<close>

theorem verify_queue_spliced:
  fixes m p ev s A I e es h
  assumes "distinct (A # I # e # es)" and "u_verify s = init_verify A I (e # es) h"
    and "g_hActive (u_cfg s) = A" "g_hInactive (u_cfg s) = I" and "\<not> u_aborted s"
  defines "s1 \<equiv> exec (submit_aS2S1a m p ev) s"
  shows "ring (u_verify s1) (A # e # es @ [I]) \<and> u_verifyId s1 = (u_verifyId s)(e := submitted_id p s) \<and>
    (\<forall>s2 m' p' ev'. \<not> u_aborted s2 \<longrightarrow> u_verify s2 = u_verify s1 \<longrightarrow> u_cfg s2 = u_cfg s1 \<longrightarrow>
       u_verify (exec (submit_aS2S1a m' p' ev') s2) = u_verify s1 \<and>
       u_verifyId (exec (submit_aS2S1a m' p' ev') s2) = (u_verifyId s2)(A := submitted_id p' s2))"
proof -
  note rings = init_verify_rings [OF assms(1), of h]
  have "verify_quNext I (u_verify s) = e" "e \<noteq> I"
    using ring_next_hd [OF rings(2)] assms(1,2) by (auto simp: verify_quNext_def)
  then have s1: "u_verify s1 = verify_quInsert e A (u_verify s)" "u_cfg s1 = u_cfg s"
    "u_verifyId s1 = (u_verifyId s)(e := submitted_id p s)"
    using submit_aS2S1a_verify [of s e m p ev] assms(3-5) by (simp_all add: s1_def)
  have ring: "ring (u_verify s1) (A # e # es @ [I])"
    using rings_joined [OF rings assms(1)] assms(2) s1 by simp
  then have "pNext (u_verify s1) I = A" "verify_quInsert A A (u_verify s1) = u_verify s1"
    using ring_next_last [of "u_verify s1" A "e # es @ [I]"] insert_self [of "u_verify s1" A "e # es" I] by simp_all
  then show ?thesis
    using ring s1 assms(1,3,4) submit_aS2S1a_verify [where e = A] by (auto simp: verify_quNext_def)
qed

theorem verify_queue_spliced_witness:
  "ring (u_verify (exec (submit_aS2S1a 131 100 1) ud)) [20, 22, 23, 24, 25, 26, 21]"
proof -
  have v: "u_verify ud = init_verify 20 21 (22 # [23, 24, 25, 26]) \<lparr>pNext = (\<lambda>_. NULL), pPrev = (\<lambda>_. NULL)\<rparr>"
    and d: "distinct (20 # 21 # 22 # [23, 24, 25, 26 :: ptr])"
    and c: "g_hActive (u_cfg ud) = 20" "g_hInactive (u_cfg ud) = 21" "\<not> u_aborted ud"
    by (simp_all add: ud_def ud_verify_def)
  from conjunct1 [OF verify_queue_spliced [OF d v c, of 131 100 1]] show ?thesis by simp
qed




section \<open>Segments\<close>

text \<open>
C15. A formatted message that is too long for one request is cut into segments so that nothing is
lost or repeated: as many parts of 1400 octets as the code announces in the first segment are
cloned one after the other, none of them is empty or longer, and together they are the message.
\<close>

theorem segments_whole:
  assumes "mem_ok h" and "buf_ok b h" and "b \<noteq> NULL"
    and "buf_octets b h \<noteq> []" and "length (buf_octets b h) < 4294967296"
  shows "\<exists>ps h'. run_state (clone_portions (unat (num_segments (BUF_getBufferLength b h))) b segment_length)
        (exec (BUF_resetParse b) h) = (Inr ps, h') \<and>
      concat (map (\<lambda>p. buf_octets p h') ps) = buf_octets b h \<and>
      length ps = unat (num_segments (BUF_getBufferLength b h)) \<and>
      (\<forall>p \<in> set ps. buf_octets p h' \<noteq> [] \<and> length (buf_octets p h') \<le> 1400)"
proof -
  let ?xs = "buf_octets b h" and ?h = "exec (BUF_resetParse b) h"
  define n where "n = unat (num_segments (BUF_getBufferLength b h))"
  have n: "(n - 1) * 1400 < length ?xs" "length ?xs \<le> n * 1400" "0 < n"
    using num_segments_bounds [of "length ?xs"] assms(4,5)
    by (simp_all add: n_def BUF_getBufferLength_octets [OF assms(2,3)])
  have "b_segs (heads h b) \<noteq> []" using assms(4) by (auto simp: buf_octets_def)
  note reset = placed_reset [OF assms(2) this]
  have mem: "mem_ok ?h" using reset(4) assms(1) by (simp add: extends_def)
  have len: "0 < segment_length" "segment_length \<noteq> BUF_ENTIRE" "unat segment_length = 1400"
    by (simp_all add: segment_length_def)
  obtain ps h' where run: "run_state (clone_portions n b segment_length) ?h = (Inr ps, h')"
    and parts: "map (\<lambda>p. buf_octets p h') ps = map (\<lambda>i. take 1400 (drop (i * 1400) ?xs)) [0..<n]"
    using clone_portions_octets [OF mem reset(1,2) len(1,2), of n] n(1) by (auto simp: len(3) reset(3))
  have "concat (map (\<lambda>p. buf_octets p h') ps) = ?xs"
    unfolding parts using concat_chunks [of 1400 ?xs n] n(2) by simp
  moreover have "length ps = n" using arg_cong [OF parts, of length] by simp
  moreover have "buf_octets p h' \<noteq> [] \<and> length (buf_octets p h') \<le> 1400" if "p \<in> set ps" for p
  proof -
    have "buf_octets p h' \<in> set (map (\<lambda>i. take 1400 (drop (i * 1400) ?xs)) [0..<n])"
      using that by (simp flip: parts)
    then obtain i where i: "i < n" "buf_octets p h' = take 1400 (drop (i * 1400) ?xs)" by auto
    then have "i * 1400 \<le> (n - 1) * 1400" by (intro mult_right_mono) auto
    then show ?thesis using i(2) n(1) by simp
  qed
  ultimately show ?thesis unfolding n_def [symmetric] using run by blast
qed

theorem segments_whole_witness:
  "\<exists>ps h'. run_state (clone_portions 1 50 segment_length) (exec (BUF_resetParse 50) ud_segments) = (Inr ps, h') \<and>
      concat (map (\<lambda>p. buf_octets p h') ps) = [7] \<and> length ps = 1"
proof -
  have "unat (num_segments (BUF_getBufferLength 50 ud_segments)) = 1"
    using num_segments_bounds [of 1] ud_buffers(1,3) BUF_getBufferLength_octets [of 50 ud_segments] by fastforce
  then show ?thesis
    using segments_whole [of ud_segments 50] ud_buffers(1,3) ud_segments_ok by fastforce
qed




section \<open>Machines\<close>

text \<open>
C16. Every machine is always in a state of its own diagram: from a start without machines in states
of no diagram, in every reachable state a machine with the diagram of the submission is in one of
its two states, one with the performer's is in one of its five, and one without a diagram has no state.
\<close>

theorem machines_in_diagram:
  assumes "ua_reachable s0 s" and "machines_typed s0"
  shows "case (m_transDiag (u_machine s m), m_curState (u_machine s m)) of
     (None, q) \<Rightarrow> q = None | (Some d, q) \<Rightarrow> \<exists>x \<in> diagram_states d. q = Some x"
  using typed.every_reachable [OF assms] by (simp add: machines_typed_def machine_view_def)

theorem machines_in_diagram_witness:
  "case (m_transDiag (u_machine (exec (ua_input ud_submit) ud) 131), m_curState (u_machine (exec (ua_input ud_submit) ud) 131)) of
     (None, q) \<Rightarrow> q = None | (Some d, q) \<Rightarrow> \<exists>x \<in> diagram_states d. q = Some x"
  using machines_in_diagram [OF ud_reachable, of 131] by (simp add: machines_typed_def machine_view_def ud_def)

end
