(* ===== verification/Sbm.thy ===== *)
theory Sbm
  imports Strfunc
begin

text \<open>
  Memory that is allocated from one static block, \<^verbatim>\<open>base.ocp/sbm_/hosted/sbm.c\<close>. A transaction is a
  group of allocations that lies together and is freed at once; the data of the others then move, so
  that the free memory stays in one piece. The block begins with a header and ends with the table
  of the transactions, which grows downwards; a handle counts entries from the end, and pointers are
  obtained from handles each time. All of this is in the block itself, here octets by address.
\<close>

unbundle bit_operations_syntax

section \<open>The block\<close>

text \<open>Numbers of 32 bits in memory, lowest octet first.\<close>

definition get32 :: "(int \<Rightarrow> u8) \<Rightarrow> int \<Rightarrow> u32" where
  "get32 m a = ucast (m a) OR push_bit 8 (ucast (m (a + 1))) OR push_bit 16 (ucast (m (a + 2)))
     OR push_bit 24 (ucast (m (a + 3)))"

definition put32 :: "int \<Rightarrow> u32 \<Rightarrow> (int \<Rightarrow> u8) \<Rightarrow> int \<Rightarrow> u8" where
  "put32 a w m = m(a := ucast w, a + 1 := ucast (drop_bit 8 w), a + 2 := ucast (drop_bit 16 w),
     a + 3 := ucast (drop_bit 24 w))"

record transInProcess =
  tp_pTrans :: int
  tp_hAddingToTrans :: u32
  tp_bytesRemaining :: u32
  tp_pNextAlloc :: int
  tp_pStart :: int

text \<open>
  The globals, with the memory, the structures of transactions in process by address, and which
  calls of \<^verbatim>\<open>OS_alloc\<close> fail. \<^verbatim>\<open>pHeader\<close> is \<^verbatim>\<open>pStart\<close> with another type.
\<close>

record sbm =
  sb_mem :: "int \<Rightarrow> u8"
  sb_bInitialized :: bool
  sb_pStart :: int
  sb_pNextAvailable :: int
  sb_pTransOffsets :: int
  sb_bTransactionInProcess :: bool
  sb_tips :: "ptr \<Rightarrow> transInProcess"
  sb_allocFail :: "nat \<Rightarrow> bool"
  sb_allocs :: nat

abbreviation (input) SBM_NULL :: u32 where "SBM_NULL \<equiv> 0xffffffff"
abbreviation (input) SBM_FIRST :: u32 where "SBM_FIRST \<equiv> 0xffffffff"

definition Header_memSize :: "'a sbm_scheme \<Rightarrow> u32" where
  "Header_memSize s = get32 (sb_mem s) (sb_pStart s)"

definition Header_bytesRemaining :: "'a sbm_scheme \<Rightarrow> u32" where
  "Header_bytesRemaining s = get32 (sb_mem s) (sb_pStart s + 4)"

definition Header_transAllocated :: "'a sbm_scheme \<Rightarrow> u32" where
  "Header_transAllocated s = get32 (sb_mem s) (sb_pStart s + 8)"

definition Transaction_transLen :: "'a sbm_scheme \<Rightarrow> int \<Rightarrow> u32" where
  "Transaction_transLen s p = get32 (sb_mem s) p"

definition Transaction_offset :: "'a sbm_scheme \<Rightarrow> int \<Rightarrow> u32" where
  "Transaction_offset s p = get32 (sb_mem s) (p + 4)"

definition Transaction_transactionType :: "'a sbm_scheme \<Rightarrow> int \<Rightarrow> u32" where
  "Transaction_transactionType s p = get32 (sb_mem s) (p + 8)"

definition store32 :: "('a sbm_scheme \<Rightarrow> int) \<Rightarrow> ('a sbm_scheme \<Rightarrow> u32) \<Rightarrow> ('a sbm_scheme, unit) state" where
  "store32 a w = modify (\<lambda>s. s\<lparr>sb_mem := put32 (a s) (w s) (sb_mem s)\<rparr>)"

definition OS_move :: "int \<Rightarrow> int \<Rightarrow> int \<Rightarrow> ('a sbm_scheme, unit) state" where
  "OS_move pDest pSrc n = modify (\<lambda>s. s\<lparr>sb_mem :=
     (\<lambda>a. if pDest \<le> a \<and> a < pDest + n then sb_mem s (pSrc + (a - pDest)) else sb_mem s a)\<rparr>)"

text \<open>The entry of a handle.\<close>

definition trans_ptr :: "u32 \<Rightarrow> 'a sbm_scheme \<Rightarrow> int" where
  "trans_ptr hTransaction s = sb_pStart s + uint (Header_memSize s) - 12 * uint hTransaction"

text \<open>The entry at which the loops over the table are in round \<open>i\<close>.\<close>

definition nth_trans :: "nat \<Rightarrow> 'a sbm_scheme \<Rightarrow> int" where
  "nth_trans i s = sb_pTransOffsets s + 12 * (uint (Header_transAllocated s) - 1) - 12 * int i"

definition upd_tip :: "ptr \<Rightarrow> (transInProcess \<Rightarrow> transInProcess) \<Rightarrow> ('a sbm_scheme, unit) state" where
  "upd_tip p f = modify (\<lambda>s. s\<lparr>sb_tips := (sb_tips s)(p := f (sb_tips s p))\<rparr>)"

definition set_inProcess :: "bool \<Rightarrow> ('a sbm_scheme, unit) state" where
  "set_inProcess b = modify (\<lambda>s. s\<lparr>sb_bTransactionInProcess := b\<rparr>)"

text \<open>What the functions that return a code check first.\<close>

definition IF_INIT :: "('a sbm_scheme, 'b) rc_op \<Rightarrow> ('a sbm_scheme, 'b) rc_op" where
  "IF_INIT m = do {
     b \<leftarrow> gets sb_bInitialized;
     if b then m else FAIL_RC SBM_RC_NotInitialized
   }"


section \<open>Opening\<close>

text \<open>The module for traces opens.\<close>

definition SBM_init :: "('a sbm_scheme, unit) rc_op" where
  "SBM_init = do { modify (\<lambda>s. s\<lparr>sb_bInitialized := True\<rparr>); ok () }"

definition SBM_open :: "int \<Rightarrow> u32 \<Rightarrow> ('a sbm_scheme, unit) rc_op" where
  "SBM_open pMem memSize = IF_INIT (do {
     let memSize = memSize - memSize mod 4;
     modify (\<lambda>s. s\<lparr>sb_pStart := pMem\<rparr>);
     (if memSize \<noteq> 0 then do {
        store32 (\<lambda>s. sb_pStart s + 4) (\<lambda>_. memSize - 12);
        store32 sb_pStart (\<lambda>_. memSize);
        store32 (\<lambda>s. sb_pStart s + 8) (\<lambda>_. 0)
      }
      else skip);
     modify (\<lambda>s. s\<lparr>sb_pTransOffsets :=
       sb_pStart s + uint (Header_memSize s) - 12 * uint (Header_transAllocated s)\<rparr>);
     modify (\<lambda>s. s\<lparr>sb_pNextAvailable := sb_pTransOffsets s - uint (Header_bytesRemaining s)\<rparr>);
     set_inProcess False;
     ok ()
   })"

definition SBM_close :: "('a sbm_scheme, unit) rc_op" where
  "SBM_close = IF_INIT (do {
     modify (\<lambda>s. s\<lparr>sb_pStart := 0, sb_pTransOffsets := 0, sb_pNextAvailable := 0\<rparr>);
     ok ()
   })"


section \<open>Transactions\<close>

definition SBM_beginTrans :: "u8 \<Rightarrow> ('a sbm_scheme, ptr \<times> u32) rc_op" where
  "SBM_beginTrans transactionType = IF_INIT (do {
     busy \<leftarrow> gets sb_bTransactionInProcess;
     if busy then FAIL_RC SBM_RC_TransactionInProcess
     else do {
       n \<leftarrow> gets Header_transAllocated;
       remaining \<leftarrow> gets Header_bytesRemaining;
       found \<leftarrow> gets (\<lambda>s. find (\<lambda>i. Transaction_transLen s (nth_trans i s) = 0xffffffff) [0..<unat n]);
       if found = None \<and> remaining < 12 then FAIL_RC ResourceError
       else do {
         let extraSpace = (if found = None then 12 else 0);
         pTrans \<leftarrow> gets (\<lambda>s. case found of None \<Rightarrow> sb_pTransOffsets s - 12 | Some i \<Rightarrow> nth_trans i s);
         if remaining < extraSpace + 1 then FAIL_RC ResourceError
         else do {
           bad \<leftarrow> gets (\<lambda>s. sb_allocFail s (sb_allocs s));
           modify (\<lambda>s. s\<lparr>sb_allocs := sb_allocs s + 1\<rparr>);
           if bad then FAIL_RC ResourceError
           else do {
             p \<leftarrow> gets sb_allocs;
             pStart \<leftarrow> gets sb_pNextAvailable;
             upd_tip p (\<lambda>_. \<lparr>tp_pTrans = pTrans, tp_hAddingToTrans = SBM_NULL,
               tp_bytesRemaining = remaining - extraSpace, tp_pNextAlloc = pStart, tp_pStart = pStart\<rparr>);
             store32 (\<lambda>_. pTrans + 8) (\<lambda>_. ucast transactionType);
             store32 (\<lambda>_. pTrans) (\<lambda>_. 0);
             store32 (\<lambda>_. pTrans + 4) (\<lambda>s. word_of_int (pStart - sb_pStart s));
             set_inProcess True;
             hTransaction \<leftarrow> gets (\<lambda>s. word_of_int
               ((sb_pStart s + uint (Header_memSize s) - pTrans) div 12));
             ok (p, hTransaction)
           }
         }
       }
     }
   })"

text \<open>The next multiple of 4, in 32 bits.\<close>

definition align4 :: "u32 \<Rightarrow> u32" where
  "align4 n = (if n mod 4 \<noteq> 0 then n + (4 - n mod 4) else n)"

text \<open>What the two functions for allocation do when there is room.\<close>

definition tip_advance :: "ptr \<Rightarrow> u32 \<Rightarrow> ('a sbm_scheme, unit) state" where
  "tip_advance p numBytes = do {
     upd_tip p (\<lambda>x. x\<lparr>tp_bytesRemaining := tp_bytesRemaining x - numBytes\<rparr>);
     store32 (\<lambda>s. tp_pTrans (sb_tips s p))
       (\<lambda>s. Transaction_transLen s (tp_pTrans (sb_tips s p)) + numBytes)
   }"

definition SBM_alloc :: "ptr \<Rightarrow> u32 \<Rightarrow> ('a sbm_scheme, u32) rc_op" where
  "SBM_alloc p numBytes = IF_INIT (do {
     let numBytes = align4 numBytes;
     busy \<leftarrow> gets sb_bTransactionInProcess;
     if \<not> busy then FAIL_RC SBM_RC_NoTransactionInProcess
     else do {
       x \<leftarrow> gets (\<lambda>s. sb_tips s p);
       if numBytes > tp_bytesRemaining x then FAIL_RC ResourceError
       else do {
         tip_advance p numBytes;
         let hMem = word_of_int (tp_pNextAlloc x - tp_pStart x);
         upd_tip p (\<lambda>x. x\<lparr>tp_pNextAlloc := tp_pNextAlloc x + uint numBytes\<rparr>);
         ok hMem
       }
     }
   })"

text \<open>\<^verbatim>\<open>strcpy\<close>, with the terminator.\<close>

definition store_string :: "int \<Rightarrow> u8 list \<Rightarrow> ('a sbm_scheme, unit) state" where
  "store_string a xs = modify (\<lambda>s. s\<lparr>sb_mem := (\<lambda>i.
     if a \<le> i \<and> i \<le> a + int (length xs) then (xs @ [0]) ! nat (i - a) else sb_mem s i)\<rparr>)"

definition SBM_allocStringCopy :: "ptr \<Rightarrow> u8 list option \<Rightarrow> ('a sbm_scheme, u32) rc_op" where
  "SBM_allocStringCopy p pString = IF_INIT (do {
     busy \<leftarrow> gets sb_bTransactionInProcess;
     if \<not> busy then FAIL_RC SBM_RC_NoTransactionInProcess
     else (case pString of
       None \<Rightarrow> ok SBM_NULL
     | Some xs \<Rightarrow> do {
         let numBytes = align4 (of_nat (length xs + 1));
         x \<leftarrow> gets (\<lambda>s. sb_tips s p);
         if numBytes > tp_bytesRemaining x then FAIL_RC ResourceError
         else do {
           tip_advance p numBytes;
           store_string (tp_pNextAlloc x) xs;
           let hMem = word_of_int (tp_pNextAlloc x - tp_pStart x);
           upd_tip p (\<lambda>x. x\<lparr>tp_pNextAlloc := tp_pNextAlloc x + uint numBytes\<rparr>);
           ok hMem
         }
       })
   })"

definition SBM_abortTrans :: "ptr \<Rightarrow> ('a sbm_scheme, unit) rc_op" where
  "SBM_abortTrans p = IF_INIT (do {
     busy \<leftarrow> gets sb_bTransactionInProcess;
     if \<not> busy then FAIL_RC SBM_RC_NoTransactionInProcess
     else do {
       x \<leftarrow> gets (\<lambda>s. sb_tips s p);
       (if tp_hAddingToTrans x \<noteq> SBM_NULL then do {
          orig \<leftarrow> gets (trans_ptr (tp_hAddingToTrans x));
          OS_move (tp_pTrans x) orig 12
        }
        else store32 (\<lambda>_. tp_pTrans x) (\<lambda>_. 0xffffffff));
       set_inProcess False;
       ok ()
     }
   })"

definition SBM_getMemPointer :: "u32 \<Rightarrow> u32 \<Rightarrow> 'a sbm_scheme \<Rightarrow> int" where
  "SBM_getMemPointer hTransaction hMem s =
     (if \<not> sb_bInitialized s then 0
      else sb_pStart s + uint (Transaction_offset s (trans_ptr hTransaction s))
        + uint (if hMem = SBM_FIRST then 0 else hMem))"

text \<open>The loops of \<^verbatim>\<open>SBM_freeTrans\<close>: over the offsets, and over the free entries at the low end.\<close>

definition adjust_offset :: "u32 \<Rightarrow> u32 \<Rightarrow> nat \<Rightarrow> ('a sbm_scheme, unit) state" where
  "adjust_offset thisOffset moveBy i = do {
     p \<leftarrow> gets (nth_trans i);
     change \<leftarrow> gets (\<lambda>s. Transaction_transLen s p \<noteq> 0xffffffff \<and> Transaction_offset s p > thisOffset);
     if change then store32 (\<lambda>_. p + 4) (\<lambda>s. Transaction_offset s p - moveBy) else skip
   }"

primrec adjust_offsets :: "u32 \<Rightarrow> u32 \<Rightarrow> nat list \<Rightarrow> ('a sbm_scheme, unit) state" where
  "adjust_offsets thisOffset moveBy [] = skip"
| "adjust_offsets thisOffset moveBy (i # is) = do {
     adjust_offset thisOffset moveBy i;
     adjust_offsets thisOffset moveBy is
   }"

text \<open>\<open>fuel\<close> bounds the rounds; every round takes an entry away, so their number is enough.\<close>

primrec trim_table :: "nat \<Rightarrow> nat \<Rightarrow> int \<Rightarrow> ('a sbm_scheme, unit) state" where
  "trim_table 0 i pTrans = skip"
| "trim_table (Suc fuel) i pTrans = do {
     more \<leftarrow> gets (\<lambda>s. int i < uint (Header_transAllocated s) \<and> Transaction_transLen s pTrans = 0xffffffff);
     if more then do {
       modify (\<lambda>s. s\<lparr>sb_pTransOffsets := sb_pTransOffsets s + 12\<rparr>);
       store32 (\<lambda>s. sb_pStart s + 8) (\<lambda>s. Header_transAllocated s - 1);
       store32 (\<lambda>s. sb_pStart s + 4) (\<lambda>s. Header_bytesRemaining s + 12);
       trim_table fuel (Suc i) (pTrans + 12)
     }
     else skip
   }"

definition SBM_freeTrans :: "u32 \<Rightarrow> ('a sbm_scheme, unit) rc_op" where
  "SBM_freeTrans hTransaction = IF_INIT (do {
     busy \<leftarrow> gets sb_bTransactionInProcess;
     if busy then FAIL_RC SBM_RC_TransactionInProcess
     else do {
       pTrans \<leftarrow> gets (trans_ptr hTransaction);
       thisOffset \<leftarrow> gets (\<lambda>s. Transaction_offset s pTrans);
       pDest \<leftarrow> gets (\<lambda>s. sb_pStart s + uint thisOffset);
       pSrc \<leftarrow> gets (\<lambda>s. sb_pStart s + uint thisOffset + uint (Transaction_transLen s pTrans));
       n \<leftarrow> gets (\<lambda>s. (sb_pTransOffsets s - pSrc) mod 65536);
       OS_move pDest pSrc n;
       store32 (\<lambda>s. sb_pStart s + 4) (\<lambda>s. Header_bytesRemaining s + Transaction_transLen s pTrans);
       store32 (\<lambda>_. pTrans) (\<lambda>_. 0xffffffff);
       let moveBy = word_of_int (pSrc - pDest);
       modify (\<lambda>s. s\<lparr>sb_pNextAvailable := sb_pNextAvailable s - uint moveBy\<rparr>);
       count \<leftarrow> gets (\<lambda>s. unat (Header_transAllocated s));
       adjust_offsets thisOffset moveBy [0..<count];
       first \<leftarrow> gets sb_pTransOffsets;
       trim_table count 0 first;
       ok ()
     }
   })"

definition SBM_endTrans :: "ptr \<Rightarrow> ('a sbm_scheme, unit) rc_op" where
  "SBM_endTrans p = IF_INIT (do {
     busy \<leftarrow> gets sb_bTransactionInProcess;
     if \<not> busy then FAIL_RC SBM_RC_NoTransactionInProcess
     else do {
       x \<leftarrow> gets (\<lambda>s. sb_tips s p);
       set_inProcess False;
       remaining \<leftarrow> gets Header_bytesRemaining;
       store32 (\<lambda>s. sb_pStart s + 4) (\<lambda>_. tp_bytesRemaining x);
       next \<leftarrow> gets sb_pNextAvailable;
       modify (\<lambda>s. s\<lparr>sb_pNextAvailable := tp_pNextAlloc x\<rparr>);
       new \<leftarrow> gets (\<lambda>s. tp_pTrans x < sb_pTransOffsets s);
       (if new then do {
          modify (\<lambda>s. s\<lparr>sb_pTransOffsets := sb_pTransOffsets s - 12\<rparr>);
          store32 (\<lambda>s. sb_pStart s + 8) (\<lambda>s. Header_transAllocated s + 1)
        }
        else skip);
       if tp_hAddingToTrans x \<noteq> SBM_NULL then do {
         r \<leftarrow> SBM_freeTrans (tp_hAddingToTrans x);
         case r of
           Inl e \<Rightarrow> do {
             set_inProcess True;
             store32 (\<lambda>s. sb_pStart s + 4) (\<lambda>_. remaining);
             modify (\<lambda>s. s\<lparr>sb_pNextAvailable := next\<rparr>);
             below \<leftarrow> gets (\<lambda>s. tp_pTrans x < sb_pTransOffsets s);
             (if below then do {
                modify (\<lambda>s. s\<lparr>sb_pTransOffsets := sb_pTransOffsets s + 12\<rparr>);
                store32 (\<lambda>s. sb_pStart s + 8) (\<lambda>s. Header_transAllocated s - 1)
              }
              else skip);
             _ \<leftarrow> SBM_abortTrans p;
             FAIL_RC e
           }
         | Inr _ \<Rightarrow> ok ()
       }
       else ok ()
     }
   })"

definition swap_entries :: "int \<Rightarrow> int \<Rightarrow> 'a sbm_scheme \<Rightarrow> 'a sbm_scheme" where
  "swap_entries a b s = s\<lparr>sb_mem := (\<lambda>i.
     if a \<le> i \<and> i < a + 12 then sb_mem s (b + (i - a))
     else if b \<le> i \<and> i < b + 12 then sb_mem s (a + (i - b)) else sb_mem s i)\<rparr>"

definition SBM_addToTrans :: "u32 \<Rightarrow> ('a sbm_scheme, ptr) rc_op" where
  "SBM_addToTrans hOldTrans = IF_INIT (do {
     busy \<leftarrow> gets sb_bTransactionInProcess;
     if busy then FAIL_RC SBM_RC_TransactionInProcess
     else do {
       pOldTrans \<leftarrow> gets (trans_ptr hOldTrans);
       type \<leftarrow> gets (\<lambda>s. ucast (Transaction_transactionType s pOldTrans));
       RC_CALL (SBM_beginTrans type) (\<lambda>(p, hNewTrans). do {
         oldLen \<leftarrow> gets (\<lambda>s. Transaction_transLen s pOldTrans);
         r \<leftarrow> SBM_alloc p oldLen;
         case r of
           Inl e \<Rightarrow> do { _ \<leftarrow> SBM_abortTrans p; FAIL_RC e }
         | Inr hMem \<Rightarrow> do {
             pDest \<leftarrow> gets (SBM_getMemPointer hNewTrans SBM_FIRST);
             pSrc \<leftarrow> gets (SBM_getMemPointer hOldTrans SBM_FIRST);
             OS_move pDest pSrc (uint oldLen);
             pNewTrans \<leftarrow> gets (trans_ptr hNewTrans);
             modify (swap_entries pNewTrans pOldTrans);
             upd_tip p (\<lambda>x. x\<lparr>tp_pTrans := pOldTrans, tp_hAddingToTrans := hNewTrans\<rparr>);
             ok p
           }
       })
     }
   })"


section \<open>Searching by type\<close>

text \<open>\<open>offset\<close> has 16 bits; \<open>i\<close> counts from it, and so does the entry.\<close>

definition SBM_nextTrans :: "u8 \<Rightarrow> u32 \<Rightarrow> ('a sbm_scheme, u32) rc_op" where
  "SBM_nextTrans transactionType hPreceeding = IF_INIT (do {
     let offset = (if hPreceeding = SBM_FIRST then 1 else u16 (unat hPreceeding + 1));
     found \<leftarrow> gets (\<lambda>s. find (\<lambda>i. let p = sb_pTransOffsets s + 12 * (uint (Header_transAllocated s) - int i) in
        Transaction_transLen s p \<noteq> 0xffffffff \<and> Transaction_transactionType s p = ucast transactionType)
        [offset..<unat (Header_transAllocated s) + 1]);
     case found of None \<Rightarrow> FAIL_RC Fail | Some i \<Rightarrow> ok (of_nat i)
   })"

definition SBM_prevTrans :: "u8 \<Rightarrow> u32 \<Rightarrow> ('a sbm_scheme, u32) rc_op" where
  "SBM_prevTrans transactionType hFollowing = IF_INIT (
     if hFollowing = SBM_FIRST then FAIL_RC Fail
     else do {
       let offset = unat (ucast (ucast hFollowing - 1 :: 16 word) :: u32);
       found \<leftarrow> gets (\<lambda>s. find (\<lambda>i. let p = sb_pTransOffsets s + 12 * (uint (Header_transAllocated s) - int i) in
          Transaction_transLen s p \<noteq> 0xffffffff \<and> Transaction_transactionType s p = ucast transactionType)
          (rev [1..<offset + 1]));
       case found of None \<Rightarrow> FAIL_RC Fail | Some i \<Rightarrow> ok (of_nat i)
     })"


section \<open>Queues of elements in transactions\<close>

text \<open>An element begins with two handles each for the next and the previous one.\<close>

type_synonym sbm_pointer = "u32 \<times> u32"

definition mem_at :: "sbm_pointer \<Rightarrow> 'a sbm_scheme \<Rightarrow> int" where
  "mem_at q s = SBM_getMemPointer (fst q) (snd q) s"

definition get_pointer :: "int \<Rightarrow> 'a sbm_scheme \<Rightarrow> sbm_pointer" where
  "get_pointer a s = (get32 (sb_mem s) a, get32 (sb_mem s) (a + 4))"

definition put_pointer :: "int \<Rightarrow> sbm_pointer \<Rightarrow> ('a sbm_scheme, unit) state" where
  "put_pointer a q = do { store32 (\<lambda>_. a) (\<lambda>_. fst q); store32 (\<lambda>_. a + 4) (\<lambda>_. snd q) }"

definition SBM_quInit :: "sbm_pointer \<Rightarrow> ('a sbm_scheme, unit) state" where
  "SBM_quInit q = do {
     p \<leftarrow> gets (mem_at q);
     store32 (\<lambda>_. p + 8) (\<lambda>_. fst q);
     store32 (\<lambda>_. p) (\<lambda>_. fst q);
     store32 (\<lambda>_. p + 12) (\<lambda>_. snd q);
     store32 (\<lambda>_. p + 4) (\<lambda>_. snd q)
   }"

definition SBM_quInsert :: "sbm_pointer \<Rightarrow> sbm_pointer \<Rightarrow> ('a sbm_scheme, unit) state" where
  "SBM_quInsert hInsertMe hBeforeMe = do {
     pInsertMe \<leftarrow> gets (mem_at hInsertMe);
     pBeforeMe \<leftarrow> gets (mem_at hBeforeMe);
     pBeforePrev \<leftarrow> gets (\<lambda>s. mem_at (get_pointer (pBeforeMe + 8) s) s);
     put_pointer pBeforePrev hInsertMe;
     tempElement \<leftarrow> gets (get_pointer (pInsertMe + 8));
     pTempElement \<leftarrow> gets (mem_at tempElement);
     put_pointer pTempElement hBeforeMe;
     prev \<leftarrow> gets (get_pointer (pBeforeMe + 8));
     put_pointer (pInsertMe + 8) prev;
     put_pointer (pBeforeMe + 8) tempElement
   }"

definition SBM_quRemove :: "sbm_pointer \<Rightarrow> ('a sbm_scheme, unit) state" where
  "SBM_quRemove q = do {
     pRemoveMe \<leftarrow> gets (mem_at q);
     pRemoveNext \<leftarrow> gets (\<lambda>s. mem_at (get_pointer pRemoveMe s) s);
     pRemovePrev \<leftarrow> gets (\<lambda>s. mem_at (get_pointer (pRemoveMe + 8) s) s);
     prev \<leftarrow> gets (get_pointer (pRemoveMe + 8));
     put_pointer (pRemoveNext + 8) prev;
     next \<leftarrow> gets (get_pointer pRemoveMe);
     put_pointer pRemovePrev next;
     store32 (\<lambda>_. pRemoveMe + 8) (\<lambda>_. fst q);
     store32 (\<lambda>_. pRemoveMe) (\<lambda>_. fst q);
     store32 (\<lambda>_. pRemoveMe + 12) (\<lambda>_. snd q);
     store32 (\<lambda>_. pRemoveMe + 4) (\<lambda>_. snd q)
   }"

definition SBM_quNext :: "sbm_pointer \<Rightarrow> 'a sbm_scheme \<Rightarrow> sbm_pointer" where
  "SBM_quNext q s = get_pointer (mem_at q s) s"

definition SBM_quPrev :: "sbm_pointer \<Rightarrow> 'a sbm_scheme \<Rightarrow> sbm_pointer" where
  "SBM_quPrev q s = get_pointer (mem_at q s + 8) s"

end
