(* ===== verification/Nvm.thy ===== *)
theory Nvm
  imports Sbm
begin

text \<open>
  Memory that survives the program, \<^verbatim>\<open>sysif.ocp/nvm_/unix/nvm.c\<close>: a block of theory Sbm whose octets
  are written to a file when a transaction ends or is freed, and are read from it when the file is
  opened again. The functions of theory Sbm run on the part \<open>nv_sbm\<close> of the state.
\<close>

section \<open>State\<close>

text \<open>
  \<open>nv_bInitialized\<close> to \<open>nv_hFile\<close> are the globals; the file that is open is named. The rest is the
  environment: the files, the address of the n-th block of \<^verbatim>\<open>OS_alloc\<close>, which files cannot be opened, how
  many octets of a file can be read, and whether writing fails. \<open>nv_fatal\<close> is set by \<^verbatim>\<open>EH_fatal\<close>.
\<close>

record nvm =
  nv_sbm :: sbm
  nv_bInitialized :: bool
  nv_pMem :: int
  nv_memSize :: nat
  nv_hFile :: "string option"
  nv_files :: "string \<Rightarrow> u8 list option"
  nv_place :: "nat \<Rightarrow> int"
  nv_fopenFails :: "string \<Rightarrow> bool"
  nv_readable :: nat
  nv_writeFails :: bool
  nv_fatal :: bool

definition on_sbm :: "(sbm, 'a) state \<Rightarrow> (nvm, 'a) state" where
  "on_sbm m = do {
     r \<leftarrow> gets (\<lambda>s. result m (nv_sbm s));
     modify (\<lambda>s. s\<lparr>nv_sbm := exec m (nv_sbm s)\<rparr>);
     return r
   }"

definition IF_NVM :: "(nvm, 'a) rc_op \<Rightarrow> (nvm, 'a) rc_op" where
  "IF_NVM m = do {
     b \<leftarrow> gets nv_bInitialized;
     if b then m else FAIL_RC NVM_RC_NotInitialized
   }"


section \<open>Files\<close>

text \<open>The octets of the block in memory.\<close>

definition block_octets :: "nvm \<Rightarrow> u8 list" where
  "block_octets s = map (\<lambda>i. sb_mem (nv_sbm s) (nv_pMem s + int i)) [0..<nv_memSize s]"

definition NVM_sync :: "(nvm, unit) state" where
  "NVM_sync = modify (\<lambda>s. case nv_hFile s of
     None \<Rightarrow> s\<lparr>nv_fatal := True\<rparr>
   | Some f \<Rightarrow> if nv_writeFails s then s\<lparr>nv_fatal := True\<rparr>
       else s\<lparr>nv_files := (nv_files s)(f \<mapsto>
         block_octets s @ drop (nv_memSize s) (case nv_files s f of None \<Rightarrow> [] | Some xs \<Rightarrow> xs))\<rparr>)"

definition OS_fileSize :: "string \<Rightarrow> nvm \<Rightarrow> rc + u32" where
  "OS_fileSize f s = (case nv_files s f of None \<Rightarrow> Inl OS_RC_NoSuchFile | Some xs \<Rightarrow> Inr (of_nat (length xs)))"

text \<open>\<^verbatim>\<open>fread\<close> of the whole file to the block; the number of octets.\<close>

definition read_block :: "string \<Rightarrow> (nvm, nat) state" where
  "read_block f = do {
     xs \<leftarrow> gets (\<lambda>s. take (min (nv_memSize s) (nv_readable s)) (case nv_files s f of None \<Rightarrow> [] | Some xs \<Rightarrow> xs));
     modify (\<lambda>s. s\<lparr>nv_sbm := (nv_sbm s)\<lparr>sb_mem := (\<lambda>a.
       if nv_pMem s \<le> a \<and> a < nv_pMem s + int (length xs) then xs ! nat (a - nv_pMem s) else sb_mem (nv_sbm s) a)\<rparr>\<rparr>);
     return (length xs)
   }"

definition NVM_init :: "(nvm, unit) rc_op" where
  "NVM_init = do {
     b \<leftarrow> gets nv_bInitialized;
     if b then ok ()
     else RC_CALL (on_sbm SBM_init) (\<lambda>_. do { modify (\<lambda>s. s\<lparr>nv_bInitialized := True\<rparr>); ok () })
   }"

definition NVM_open :: "string \<Rightarrow> u32 \<Rightarrow> (nvm, unit) rc_op" where
  "NVM_open pFileName memSize = IF_NVM (do {
     size \<leftarrow> gets (\<lambda>s. if memSize \<noteq> 0 then Inr memSize else OS_fileSize pFileName s);
     case size of
       Inl e \<Rightarrow> FAIL_RC e
     | Inr n \<Rightarrow> do {
         modify (\<lambda>s. s\<lparr>nv_memSize := unat n\<rparr>);
         bad \<leftarrow> gets (\<lambda>s. sb_allocFail (nv_sbm s) (sb_allocs (nv_sbm s)));
         modify (\<lambda>s. s\<lparr>nv_sbm := (nv_sbm s)\<lparr>sb_allocs := sb_allocs (nv_sbm s) + 1\<rparr>,
           nv_pMem := (if bad then 0 else nv_place s (sb_allocs (nv_sbm s)))\<rparr>);
         if bad then FAIL_RC ResourceError
         else do {
           missing \<leftarrow> gets (\<lambda>s. nv_fopenFails s pFileName \<or> memSize = 0 \<and> nv_files s pFileName = None);
           modify (\<lambda>s. s\<lparr>nv_hFile := (if missing then None else Some pFileName)\<rparr>);
           if missing then FAIL_RC (if memSize \<noteq> 0 then NVM_RC_CreateFailed else NVM_RC_OpenFailed)
           else do {
             (if memSize \<noteq> 0 then modify (\<lambda>s. s\<lparr>nv_files := (nv_files s)(pFileName \<mapsto> [])\<rparr>) else skip);
             i \<leftarrow> (if memSize = 0 then read_block pFileName else return (unat n));
             if i \<noteq> unat n then FAIL_RC NVM_RC_ReadError
             else do {
               pMem \<leftarrow> gets nv_pMem;
               RC_CALL (on_sbm (SBM_open pMem (if memSize = 0 then 0 else n))) (\<lambda>_. do {
                 NVM_sync;
                 ok ()
               })
             }
           }
         }
       }
   })"

definition NVM_close :: "(nvm, unit) rc_op" where
  "NVM_close = IF_NVM (do {
     _ \<leftarrow> on_sbm SBM_close;
     modify (\<lambda>s. s\<lparr>nv_hFile := None, nv_pMem := 0\<rparr>);
     ok ()
   })"


section \<open>Transactions\<close>

definition NVM_beginTrans :: "u8 \<Rightarrow> (nvm, ptr \<times> u32) rc_op" where
  "NVM_beginTrans transactionType = IF_NVM (on_sbm (SBM_beginTrans transactionType))"

definition NVM_alloc :: "ptr \<Rightarrow> u32 \<Rightarrow> (nvm, u32) rc_op" where
  "NVM_alloc p numBytes = IF_NVM (on_sbm (SBM_alloc p numBytes))"

definition NVM_allocStringCopy :: "ptr \<Rightarrow> u8 list option \<Rightarrow> (nvm, u32) rc_op" where
  "NVM_allocStringCopy p pString = IF_NVM (on_sbm (SBM_allocStringCopy p pString))"

definition NVM_addToTrans :: "u32 \<Rightarrow> (nvm, ptr) rc_op" where
  "NVM_addToTrans hOldTrans = IF_NVM (on_sbm (SBM_addToTrans hOldTrans))"

definition NVM_endTrans :: "ptr \<Rightarrow> (nvm, unit) rc_op" where
  "NVM_endTrans p = IF_NVM (RC_CALL (on_sbm (SBM_endTrans p)) (\<lambda>_. do { NVM_sync; ok () }))"

definition NVM_abortTrans :: "ptr \<Rightarrow> (nvm, unit) rc_op" where
  "NVM_abortTrans p = IF_NVM (on_sbm (SBM_abortTrans p))"

definition NVM_freeTrans :: "u32 \<Rightarrow> (nvm, unit) rc_op" where
  "NVM_freeTrans hTransaction = IF_NVM (RC_CALL (on_sbm (SBM_freeTrans hTransaction)) (\<lambda>_. do { NVM_sync; ok () }))"

definition NVM_getMemPointer :: "u32 \<Rightarrow> u32 \<Rightarrow> nvm \<Rightarrow> int" where
  "NVM_getMemPointer hTransaction hMem s =
     (if nv_bInitialized s then SBM_getMemPointer hTransaction hMem (nv_sbm s) else 0)"

definition NVM_nextTrans :: "u8 \<Rightarrow> u32 \<Rightarrow> (nvm, u32) rc_op" where
  "NVM_nextTrans transactionType hPreceeding = IF_NVM (on_sbm (SBM_nextTrans transactionType hPreceeding))"

definition NVM_prevTrans :: "u8 \<Rightarrow> u32 \<Rightarrow> (nvm, u32) rc_op" where
  "NVM_prevTrans transactionType hFollowing = IF_NVM (on_sbm (SBM_prevTrans transactionType hFollowing))"


section \<open>Queues\<close>

definition NVM_quInit :: "sbm_pointer \<Rightarrow> (nvm, unit) state" where
  "NVM_quInit q = do { on_sbm (SBM_quInit q); NVM_sync }"

definition NVM_quInsert :: "sbm_pointer \<Rightarrow> sbm_pointer \<Rightarrow> (nvm, unit) state" where
  "NVM_quInsert hInsertMe hBeforeMe = do { on_sbm (SBM_quInsert hInsertMe hBeforeMe); NVM_sync }"

definition NVM_quRemove :: "sbm_pointer \<Rightarrow> (nvm, unit) state" where
  "NVM_quRemove q = do { on_sbm (SBM_quRemove q); NVM_sync }"

definition NVM_quNext :: "sbm_pointer \<Rightarrow> nvm \<Rightarrow> sbm_pointer" where
  "NVM_quNext q s = SBM_quNext q (nv_sbm s)"

definition NVM_quPrev :: "sbm_pointer \<Rightarrow> nvm \<Rightarrow> sbm_pointer" where
  "NVM_quPrev q s = SBM_quPrev q (nv_sbm s)"

end
