(* ===== verification/Sbm_Inv.thy ===== *)
theory Sbm_Inv
  imports Sbm
begin

text \<open>
  The static block memory keeps what is in it. The table of the block stands for a map from handles
  to types and contents; freeing a transaction moves the others but removes only its own entry from
  that map, and a transaction that is begun, filled and ended adds one.
\<close>

section \<open>Numbers in memory\<close>

lemma bit_octet:
  "n < 32 \<Longrightarrow> bit (push_bit k (ucast (ucast (drop_bit k w) :: u8)) :: u32) n \<longleftrightarrow> k \<le> n \<and> n < k + 8 \<and> bit (w :: u32) n"
  by (simp only: bit_push_bit_iff bit_ucast_iff bit_drop_bit_eq comp_apply) (auto dest: bit_imp_le_length)

lemma get32_put32 [simp]: "get32 (put32 a w m) a = w"
proof (rule bit_word_eqI)
  fix n assume "n < LENGTH(32)"
  then have n: "n < 32" by simp
  have "get32 (put32 a w m) a = push_bit 0 (ucast (ucast (drop_bit 0 w) :: u8)) OR
      push_bit 8 (ucast (ucast (drop_bit 8 w) :: u8)) OR
      push_bit 16 (ucast (ucast (drop_bit 16 w) :: u8)) OR push_bit 24 (ucast (ucast (drop_bit 24 w) :: u8))"
    by (simp add: get32_def put32_def)
  then show "bit (get32 (put32 a w m) a) n = bit w n"
    using n by (auto simp only: bit_or_iff bit_octet)
qed

lemma get32_cong: "(\<And>i. a \<le> i \<Longrightarrow> i < a + 4 \<Longrightarrow> m i = m' i) \<Longrightarrow> get32 m a = get32 m' a"
  by (simp add: get32_def)

lemma put32_other: "i < a \<or> a + 4 \<le> i \<Longrightarrow> put32 a w m i = m i"
  by (auto simp: put32_def)

lemma get32_put32_other [simp]: "a + 4 \<le> b \<or> b + 4 \<le> a \<Longrightarrow> get32 (put32 b w m) a = get32 m a"
  by (rule get32_cong) (auto intro!: put32_other)

lemma run_store32: "exec (store32 a w) s = s\<lparr>sb_mem := put32 (a s) (w s) (sb_mem s)\<rparr>"
  by (simp add: store32_def run_simps)

lemma run_IF_INIT:
  "sb_bInitialized s \<Longrightarrow> exec (IF_INIT m) s = exec m s" "sb_bInitialized s \<Longrightarrow> result (IF_INIT m) s = result m s"
  by (simp_all add: IF_INIT_def run_simps)

lemma run_RC_sbm:
  "result (RC_CALL m f) s = (case result m s of Inl e \<Rightarrow> Inl e | Inr x \<Rightarrow> result (f x) (exec m s))"
  "exec (RC_CALL m f) s = (case result m s of Inl e \<Rightarrow> exec m s | Inr x \<Rightarrow> exec (f x) (exec m s))"
  "result (ok x) s = Inr x" "exec (ok x) s = s" "result (FAIL_RC e) s = Inl e" "exec (FAIL_RC e) s = s"
  by (simp_all add: RC_CALL_def ok_def FAIL_RC_def run_simps split: sum.split)

lemma run_basic_sbm:
  "exec (OS_move d r n) s = s\<lparr>sb_mem :=
     (\<lambda>a. if d \<le> a \<and> a < d + n then sb_mem s (r + (a - d)) else sb_mem s a)\<rparr>"
  "exec (upd_tip p f) s = s\<lparr>sb_tips := (sb_tips s)(p := f (sb_tips s p))\<rparr>"
  "exec (set_inProcess b) s = s\<lparr>sb_bTransactionInProcess := b\<rparr>"
  by (simp_all add: OS_move_def upd_tip_def set_inProcess_def run_simps)

lemmas sbm_run = run_simps run_RC_sbm run_basic_sbm run_store32 run_IF_INIT


section \<open>Well-formed blocks\<close>

text \<open>
  The parts of the block: the header, the data up to the next available octet, free memory, and the
  table. \<open>k\<close> counts the entries.
\<close>

definition sbm_layout :: "'a sbm_scheme \<Rightarrow> bool" where
  "sbm_layout s \<longleftrightarrow> sb_bInitialized s \<and>
     sb_pTransOffsets s = sb_pStart s + uint (Header_memSize s) - 12 * uint (Header_transAllocated s) \<and>
     sb_pNextAvailable s + uint (Header_bytesRemaining s) = sb_pTransOffsets s \<and>
     sb_pStart s + 12 \<le> sb_pNextAvailable s"

definition in_table :: "'a sbm_scheme \<Rightarrow> u32 \<Rightarrow> bool" where
  "in_table s h \<longleftrightarrow> 0 < h \<and> h \<le> Header_transAllocated s"

definition tlen :: "'a sbm_scheme \<Rightarrow> u32 \<Rightarrow> u32" where "tlen s h = Transaction_transLen s (trans_ptr h s)"
definition toff :: "'a sbm_scheme \<Rightarrow> u32 \<Rightarrow> u32" where "toff s h = Transaction_offset s (trans_ptr h s)"
definition ttype :: "'a sbm_scheme \<Rightarrow> u32 \<Rightarrow> u32" where "ttype s h = Transaction_transactionType s (trans_ptr h s)"

definition live :: "'a sbm_scheme \<Rightarrow> u32 \<Rightarrow> bool" where
  "live s h \<longleftrightarrow> in_table s h \<and> tlen s h \<noteq> 0xffffffff"

definition within :: "int \<Rightarrow> 'a sbm_scheme \<Rightarrow> u32 \<Rightarrow> bool" where
  "within e s h \<longleftrightarrow> 12 \<le> uint (toff s h) \<and> uint (toff s h) + uint (tlen s h) \<le> e"

definition trans_apart :: "'a sbm_scheme \<Rightarrow> u32 \<Rightarrow> u32 \<Rightarrow> bool" where
  "trans_apart s h k \<longleftrightarrow> uint (toff s h) + uint (tlen s h) \<le> uint (toff s k) \<or>
     uint (toff s k) + uint (tlen s k) \<le> uint (toff s h)"

definition sbm_data :: "(u32 \<Rightarrow> bool) \<Rightarrow> int \<Rightarrow> 'a sbm_scheme \<Rightarrow> bool" where
  "sbm_data A e s \<longleftrightarrow> (\<forall>h. A h \<longrightarrow> within e s h) \<and> (\<forall>h k. A h \<longrightarrow> A k \<longrightarrow> h \<noteq> k \<longrightarrow> trans_apart s h k)"

definition sbm_ok :: "'a sbm_scheme \<Rightarrow> bool" where
  "sbm_ok s \<longleftrightarrow> sbm_layout s \<and> \<not> sb_bTransactionInProcess s \<and>
     sbm_data (live s) (sb_pNextAvailable s - sb_pStart s) s"

text \<open>What the block stands for.\<close>

definition contents :: "'a sbm_scheme \<Rightarrow> u32 \<Rightarrow> u8 list" where
  "contents s h = map (\<lambda>i. sb_mem s (sb_pStart s + uint (toff s h) + int i)) [0..<unat (tlen s h)]"

definition sbm_abs :: "'a sbm_scheme \<Rightarrow> u32 \<Rightarrow> (u32 \<times> u8 list) option" where
  "sbm_abs s h = (if live s h then Some (ttype s h, contents s h) else None)"

lemmas header_defs = Header_memSize_def Header_bytesRemaining_def Header_transAllocated_def
lemmas entry_defs = tlen_def toff_def ttype_def Transaction_transLen_def Transaction_offset_def
  Transaction_transactionType_def

lemma in_table_uint: "in_table s h \<longleftrightarrow> 1 \<le> uint h \<and> uint h \<le> uint (Header_transAllocated s)"
  by (auto simp: in_table_def word_less_def word_le_def)

lemma uint_neq: "h \<noteq> k \<longleftrightarrow> uint h < uint k \<or> uint k < uint (h :: u32)"
  by (metis linorder_neqE_linordered_idom order_less_irrefl word_uint_eq_iff)

text \<open>The table is above the header, and its entries are apart from each other.\<close>

definition sbm_table :: "'a sbm_scheme \<Rightarrow> bool" where
  "sbm_table s \<longleftrightarrow>
     sb_pTransOffsets s = sb_pStart s + uint (Header_memSize s) - 12 * uint (Header_transAllocated s) \<and>
     sb_pStart s + 12 \<le> sb_pTransOffsets s"

lemma layout_table: "sbm_layout s \<Longrightarrow> sbm_table s"
  unfolding sbm_layout_def sbm_table_def using uint_ge_0 [of "Header_bytesRemaining s"] by linarith

lemma entry_above:
  "sbm_table s \<Longrightarrow> in_table s h \<Longrightarrow> sb_pTransOffsets s \<le> trans_ptr h s"
  by (simp add: sbm_table_def in_table_uint trans_ptr_def)

lemma entry_cong:
  assumes "sb_pStart s' = sb_pStart s" and "Header_memSize s' = Header_memSize s"
    and "\<And>i. trans_ptr h s \<le> i \<Longrightarrow> i < trans_ptr h s + 12 \<Longrightarrow> sb_mem s' i = sb_mem s i"
  shows "trans_ptr h s' = trans_ptr h s" "tlen s' h = tlen s h" "toff s' h = toff s h" "ttype s' h = ttype s h"
proof -
  show p: "trans_ptr h s' = trans_ptr h s" using assms(1,2) by (simp add: trans_ptr_def)
  show "tlen s' h = tlen s h" "toff s' h = toff s h" "ttype s' h = ttype s h"
    using assms(3) by (auto simp: entry_defs p intro!: get32_cong)
qed

lemma header_cong:
  assumes "sb_pStart s' = sb_pStart s" and "\<And>i. sb_pStart s \<le> i \<Longrightarrow> i < sb_pStart s + 12 \<Longrightarrow> sb_mem s' i = sb_mem s i"
  shows "Header_memSize s' = Header_memSize s" "Header_bytesRemaining s' = Header_bytesRemaining s"
    "Header_transAllocated s' = Header_transAllocated s"
  using assms by (auto simp: header_defs intro!: get32_cong)

text \<open>A step that only writes into the table.\<close>

definition table_only :: "'a sbm_scheme \<Rightarrow> 'a sbm_scheme \<Rightarrow> bool" where
  "table_only s s' \<longleftrightarrow> (\<exists>m. s' = s\<lparr>sb_mem := m\<rparr> \<and> (\<forall>a < sb_pTransOffsets s. m a = sb_mem s a))"

lemma table_only_refl: "table_only s s"
  unfolding table_only_def by (rule exI [of _ "sb_mem s"]) simp

lemma table_only_trans: "table_only s1 s2 \<Longrightarrow> table_only s2 s3 \<Longrightarrow> table_only s1 s3"
  by (auto simp: table_only_def)

lemma table_only_same:
  assumes "table_only s s'" and "sbm_table s"
  shows "Header_memSize s' = Header_memSize s" "Header_bytesRemaining s' = Header_bytesRemaining s"
    "Header_transAllocated s' = Header_transAllocated s" "trans_ptr h s' = trans_ptr h s"
    "in_table s' h = in_table s h" "sbm_table s'" "nth_trans i s' = nth_trans i s"
    "sb_pStart s' = sb_pStart s" "sb_pTransOffsets s' = sb_pTransOffsets s"
proof -
  show start: "sb_pStart s' = sb_pStart s" "sb_pTransOffsets s' = sb_pTransOffsets s"
    using assms(1) by (auto simp: table_only_def)
  show h: "Header_memSize s' = Header_memSize s" "Header_bytesRemaining s' = Header_bytesRemaining s"
    "Header_transAllocated s' = Header_transAllocated s"
    using header_cong [of s' s] assms by (auto simp: table_only_def sbm_table_def)
  show "trans_ptr h s' = trans_ptr h s" "in_table s' h = in_table s h" "sbm_table s'" "nth_trans i s' = nth_trans i s"
    using assms(2) by (simp_all add: trans_ptr_def in_table_def sbm_table_def nth_trans_def start h)
qed

lemma put_entry:
  fixes d s w h
  assumes "sbm_table s" and "in_table s h" and "d = 0 \<or> d = 4 \<or> d = 8"
  defines "s' \<equiv> s\<lparr>sb_mem := put32 (trans_ptr h s + d) w (sb_mem s)\<rparr>"
  shows "table_only s s'"
    and "in_table s k \<Longrightarrow> tlen s' k = (if k = h \<and> d = 0 then w else tlen s k) \<and>
      toff s' k = (if k = h \<and> d = 4 then w else toff s k) \<and> ttype s' k = (if k = h \<and> d = 8 then w else ttype s k)"
proof -
  have above: "sb_pTransOffsets s \<le> trans_ptr h s" using entry_above assms(1,2) .
  show t: "table_only s s'"
    unfolding table_only_def s'_def using above assms(3) by (intro exI conjI refl) (auto intro!: put32_other)
  assume k: "in_table s k"
  have mem: "sb_mem s' = put32 (trans_ptr h s + d) w (sb_mem s)" by (simp add: s'_def)
  have p: "trans_ptr x s' = trans_ptr x s" for x using table_only_same(4) [OF t assms(1)] .
  have "k \<noteq> h \<Longrightarrow> trans_ptr k s + 12 \<le> trans_ptr h s \<or> trans_ptr h s + 12 \<le> trans_ptr k s"
    unfolding uint_neq trans_ptr_def by auto
  then show "tlen s' k = (if k = h \<and> d = 0 then w else tlen s k) \<and>
      toff s' k = (if k = h \<and> d = 4 then w else toff s k) \<and> ttype s' k = (if k = h \<and> d = 8 then w else ttype s k)"
    using assms(3) by (cases "k = h") (auto simp: entry_defs p mem)
qed

lemma nth_trans_ptr:
  "sbm_table s \<Longrightarrow> int i < uint (Header_transAllocated s) \<Longrightarrow>
    nth_trans i s = trans_ptr (of_nat (Suc i)) s \<and> in_table s (of_nat (Suc i)) \<and> uint (of_nat (Suc i) :: u32) = int i + 1"
proof -
  assume a: "sbm_table s" "int i < uint (Header_transAllocated s)"
  have "uint (Header_transAllocated s) < 4294967296" using uint_lt2p [of "Header_transAllocated s"] by simp
  then have "uint (of_nat (Suc i) :: u32) = int i + 1" using a(2) by (simp add: unsigned_of_nat take_bit_eq_mod del: of_nat_Suc)
  then show ?thesis using a by (simp add: nth_trans_def trans_ptr_def sbm_table_def in_table_uint)
qed

section \<open>The loops of freeing\<close>

lemma adjust_offset_run:
  fixes s i t mv
  assumes "sbm_table s" and "int i < uint (Header_transAllocated s)"
  defines "s' \<equiv> exec (adjust_offset t mv i) s"
  shows "table_only s s'"
    and "in_table s k \<Longrightarrow> tlen s' k = tlen s k \<and> ttype s' k = ttype s k \<and>
      toff s' k = (if uint k = int i + 1 \<and> tlen s k \<noteq> 0xffffffff \<and> t < toff s k then toff s k - mv else toff s k)"
proof -
  obtain h where h_def: "h = (of_nat (Suc i) :: u32)" by simp
  have h: "nth_trans i s = trans_ptr h s" "in_table s h" "uint h = int i + 1"
    using nth_trans_ptr [OF assms(1,2)] unfolding h_def by auto
  have s': "s' = (if tlen s h \<noteq> 0xffffffff \<and> t < toff s h
      then s\<lparr>sb_mem := put32 (trans_ptr h s + 4) (toff s h - mv) (sb_mem s)\<rparr> else s)"
    by (simp add: s'_def adjust_offset_def sbm_run h(1) tlen_def toff_def)
  have eq: "k = h \<longleftrightarrow> uint k = int i + 1" for k
    using h(3) by (metis word_uint_eq_iff)
  note e = put_entry [OF assms(1) h(2), where d = 4 and w = "toff s h - mv", simplified]
  show "table_only s s'" using e(1) table_only_refl [of s] by (simp add: s')
  show "tlen s' k = tlen s k \<and> ttype s' k = ttype s k \<and>
      toff s' k = (if uint k = int i + 1 \<and> tlen s k \<noteq> 0xffffffff \<and> t < toff s k then toff s k - mv else toff s k)"
    if "in_table s k"
    using e(2) [OF that] unfolding eq [symmetric] by (auto simp: s')
qed

lemma adjust_offsets_run:
  "sbm_table s \<Longrightarrow> distinct is \<Longrightarrow> \<forall>i \<in> set is. int i < uint (Header_transAllocated s) \<Longrightarrow>
    table_only s (exec (adjust_offsets t mv is) s) \<and>
    (\<forall>k. in_table s k \<longrightarrow> (let s' = exec (adjust_offsets t mv is) s in
      tlen s' k = tlen s k \<and> ttype s' k = ttype s k \<and>
      toff s' k = (if nat (uint k - 1) \<in> set is \<and> tlen s k \<noteq> 0xffffffff \<and> t < toff s k then toff s k - mv else toff s k)))"
proof (induction "is" arbitrary: s)
  case Nil
  then show ?case by (simp add: sbm_run table_only_refl)
next
  case (Cons i "is")
  let ?s = "exec (adjust_offset t mv i) s"
  have i: "int i < uint (Header_transAllocated s)" using Cons.prems by simp
  note one = adjust_offset_run [OF Cons.prems(1) i, where t = t and mv = mv]
  note same = table_only_same [OF one(1) Cons.prems(1)]
  have IH: "table_only ?s (exec (adjust_offsets t mv is) ?s)"
    "\<And>k. in_table s k \<Longrightarrow> let s' = exec (adjust_offsets t mv is) ?s in
      tlen s' k = tlen ?s k \<and> ttype s' k = ttype ?s k \<and>
      toff s' k = (if nat (uint k - 1) \<in> set is \<and> tlen ?s k \<noteq> 0xffffffff \<and> t < toff ?s k then toff ?s k - mv else toff ?s k)"
    using Cons.IH [of ?s] Cons.prems same by auto
  have "table_only s (exec (adjust_offsets t mv (i # is)) s)"
    using table_only_trans [OF one(1) IH(1)] by (simp add: sbm_run)
  moreover have "let s' = exec (adjust_offsets t mv (i # is)) s in
      tlen s' k = tlen s k \<and> ttype s' k = ttype s k \<and>
      toff s' k = (if nat (uint k - 1) \<in> set (i # is) \<and> tlen s k \<noteq> 0xffffffff \<and> t < toff s k then toff s k - mv else toff s k)"
    if k: "in_table s k" for k
  proof -
    have "nat (uint k - 1) = i \<longleftrightarrow> uint k = int i + 1" using k by (auto simp: in_table_uint)
    moreover have "i \<notin> set is" using Cons.prems(2) by simp
    ultimately show ?thesis
      using IH(2) [OF k] one(2) [OF k] by (auto simp: sbm_run Let_def)
  qed
  ultimately show ?case by blast
qed

text \<open>What trimming does to a block: \<open>j\<close> entries at the low end, all of them free, are given up.\<close>

definition trimmed :: "nat \<Rightarrow> 'a sbm_scheme \<Rightarrow> 'a sbm_scheme \<Rightarrow> bool" where
  "trimmed j s s' \<longleftrightarrow> (\<exists>m. s' = s\<lparr>sb_pTransOffsets := sb_pTransOffsets s + 12 * int j, sb_mem := m\<rparr> \<and>
     (\<forall>a. a < sb_pStart s + 4 \<or> sb_pStart s + 12 \<le> a \<longrightarrow> m a = sb_mem s a)) \<and>
     int j \<le> uint (Header_transAllocated s) \<and>
     uint (Header_transAllocated s') = uint (Header_transAllocated s) - int j \<and>
     Header_bytesRemaining s' = Header_bytesRemaining s + of_nat (12 * j) \<and>
     (\<forall>k. in_table s k \<longrightarrow> uint (Header_transAllocated s) - int j < uint k \<longrightarrow> tlen s k = 0xffffffff)"

lemma trim_table_run:
  "sbm_table s \<Longrightarrow> \<exists>j. trimmed j s (exec (trim_table fuel i (sb_pTransOffsets s)) s)"
proof (induction fuel arbitrary: s i)
  case 0
  have "trimmed 0 s s" by (auto simp: trimmed_def in_table_uint intro!: exI [of _ "sb_mem s"])
  then show ?case by (auto simp: sbm_run)
next
  case (Suc fuel)
  let ?n = "Header_transAllocated s"
  show ?case
  proof (cases "int i < uint ?n \<and> Transaction_transLen s (sb_pTransOffsets s) = 0xffffffff")
    case False
    moreover have "trimmed 0 s s" by (auto simp: trimmed_def in_table_uint intro!: exI [of _ "sb_mem s"])
    ultimately show ?thesis by (auto simp: sbm_run)
  next
    case True
    define m where "m = put32 (sb_pStart s + 4) (Header_bytesRemaining s + 12) (put32 (sb_pStart s + 8) (?n - 1) (sb_mem s))"
    define s1 where "s1 = s\<lparr>sb_pTransOffsets := sb_pTransOffsets s + 12, sb_mem := m\<rparr>"
    have f: "sb_pStart s1 = sb_pStart s" "sb_pTransOffsets s1 = sb_pTransOffsets s + 12" "sb_mem s1 = m"
      by (simp_all add: s1_def)
    have h: "Header_memSize s1 = Header_memSize s" "Header_transAllocated s1 = ?n - 1"
      "Header_bytesRemaining s1 = Header_bytesRemaining s + 12" by (simp_all add: header_defs f m_def)
    have n: "uint (?n - 1) = uint ?n - 1" using True by (simp add: uint_sub_if')
    have t: "sbm_table s1" using Suc.prems unfolding sbm_table_def f h n by simp
    have run: "exec (trim_table (Suc fuel) i (sb_pTransOffsets s)) s = exec (trim_table fuel (Suc i) (sb_pTransOffsets s1)) s1"
      using True by (simp add: sbm_run header_defs s1_def m_def)
    obtain j where j: "trimmed j s1 (exec (trim_table fuel (Suc i) (sb_pTransOffsets s1)) s1)"
      using Suc.IH [OF t] by blast
    have last: "tlen s k = 0xffffffff" if "uint k = uint ?n" for k
      using True that Suc.prems by (simp add: tlen_def trans_ptr_def sbm_table_def)
    have mem: "m a = sb_mem s a" if "a < sb_pStart s + 4 \<or> sb_pStart s + 12 \<le> a" for a
      using that by (auto simp: m_def put32_def)
    have old: "tlen s1 k = tlen s k" if "in_table s k" for k
      using entry_above [OF Suc.prems that] Suc.prems
      by (intro entry_cong(2)) (auto simp: f h mem sbm_table_def)
    let ?s2 = "exec (trim_table fuel (Suc i) (sb_pTransOffsets s1)) s1"
    obtain m2 where m2: "?s2 = s1\<lparr>sb_pTransOffsets := sb_pTransOffsets s1 + 12 * int j, sb_mem := m2\<rparr>"
      "\<forall>a. a < sb_pStart s + 4 \<or> sb_pStart s + 12 \<le> a \<longrightarrow> m2 a = m a"
      using j by (auto simp: trimmed_def f)
    have j': "int j < uint ?n" "uint (Header_transAllocated ?s2) = uint ?n - int (Suc j)"
      "Header_bytesRemaining ?s2 = Header_bytesRemaining s + of_nat (12 * Suc j)"
      using j by (simp_all add: trimmed_def h n)
    have none: "tlen s k = 0xffffffff" if "in_table s k" "uint ?n - int (Suc j) < uint k" for k
    proof (cases "uint k = uint ?n")
      case False
      then have "in_table s1 k" using that(1) by (simp add: in_table_uint h n)
      moreover have "uint ?n - 1 - int j < uint k" using that(2) by simp
      ultimately have "tlen s1 k = 0xffffffff" using j by (simp add: trimmed_def h n)
      then show ?thesis using old [OF that(1)] by simp
    qed (rule last)
    have "?s2 = s\<lparr>sb_pTransOffsets := sb_pTransOffsets s + 12 * int (Suc j), sb_mem := m2\<rparr>"
      unfolding m2(1) by (simp add: s1_def)
    moreover have "\<forall>a. a < sb_pStart s + 4 \<or> sb_pStart s + 12 \<le> a \<longrightarrow> m2 a = sb_mem s a" using m2(2) mem by simp
    ultimately have "trimmed (Suc j) s ?s2"
      unfolding trimmed_def using j' none by (intro conjI exI [of _ m2]) simp_all
    then show ?thesis unfolding run by blast
  qed
qed


section \<open>Freeing\<close>

text \<open>Where the data of an entry are after the data of \<open>h\<close> were taken out.\<close>

definition shifted :: "'a sbm_scheme \<Rightarrow> u32 \<Rightarrow> u32 \<Rightarrow> int" where
  "shifted s h k = (if toff s h < toff s k then uint (toff s k) - uint (tlen s h) else uint (toff s k))"

lemma shifted_data:
  assumes "sbm_data A e s" and "A h"
  shows "A k \<Longrightarrow> k \<noteq> h \<Longrightarrow> 12 \<le> shifted s h k \<and> shifted s h k + uint (tlen s k) \<le> e - uint (tlen s h)"
    and "A k \<Longrightarrow> A l \<Longrightarrow> k \<noteq> h \<Longrightarrow> l \<noteq> h \<Longrightarrow> k \<noteq> l \<Longrightarrow>
      shifted s h k + uint (tlen s k) \<le> shifted s h l \<or> shifted s h l + uint (tlen s l) \<le> shifted s h k"
proof -
  have h: "within e s h" using assms by (simp add: sbm_data_def)
  have w: "within e s k" "trans_apart s h k" if "A k" "k \<noteq> h" for k
    using assms that by (auto simp: sbm_data_def)
  define L where "L = (\<lambda>k. uint (tlen s k))"
  have ge: "0 \<le> L k" and L: "uint (tlen s k) = L k" for k by (simp_all add: L_def)
  show "12 \<le> shifted s h k \<and> shifted s h k + uint (tlen s k) \<le> e - uint (tlen s h)" if "A k" "k \<noteq> h"
    using w [OF that] h ge [of k] ge [of h]
    unfolding within_def trans_apart_def shifted_def word_less_def L by (auto split: if_splits)
  show "shifted s h k + uint (tlen s k) \<le> shifted s h l \<or> shifted s h l + uint (tlen s l) \<le> shifted s h k"
    if "A k" "A l" "k \<noteq> h" "l \<noteq> h" "k \<noteq> l"
  proof -
    have "trans_apart s k l" using assms(1) that by (simp add: sbm_data_def)
    then show ?thesis
      using w(2) [of k] w(2) [of l] that ge [of k] ge [of l] ge [of h]
      unfolding trans_apart_def shifted_def word_less_def L by (auto split: if_splits)
  qed
qed

text \<open>The state before the loops.\<close>

definition free_moved :: "u32 \<Rightarrow> 'a sbm_scheme \<Rightarrow> 'a sbm_scheme" where
  "free_moved h s = s\<lparr>sb_pNextAvailable := sb_pNextAvailable s - uint (tlen s h),
     sb_mem := put32 (trans_ptr h s) 0xffffffff (put32 (sb_pStart s + 4) (Header_bytesRemaining s + tlen s h)
       (\<lambda>a. let d = sb_pStart s + uint (toff s h); r = d + uint (tlen s h) in
         if d \<le> a \<and> a < d + (sb_pTransOffsets s - r) then sb_mem s (r + (a - d)) else sb_mem s a))\<rparr>"

lemma free_moved_run:
  assumes "sbm_layout s" and "live s h" and "within (sb_pNextAvailable s - sb_pStart s) s h"
  defines "s1 \<equiv> free_moved h s"
  shows "sbm_table s1" "Header_memSize s1 = Header_memSize s" "Header_transAllocated s1 = Header_transAllocated s"
    "Header_bytesRemaining s1 = Header_bytesRemaining s + tlen s h"
    "in_table s k \<Longrightarrow> tlen s1 k = (if k = h then 0xffffffff else tlen s k) \<and> toff s1 k = toff s k \<and> ttype s1 k = ttype s k"
    "sb_pStart s + 12 \<le> a \<Longrightarrow> a < sb_pTransOffsets s \<Longrightarrow> sb_mem s1 a =
      (if sb_pStart s + uint (toff s h) \<le> a \<and> a < sb_pTransOffsets s - uint (tlen s h) then sb_mem s (a + uint (tlen s h))
       else sb_mem s a)"
proof -
  let ?L = "uint (tlen s h)"
  define m where "m = (\<lambda>a. if sb_pStart s + uint (toff s h) \<le> a \<and> a < sb_pTransOffsets s - ?L
    then sb_mem s (a + ?L) else sb_mem s a)"
  define s0 where "s0 = s\<lparr>sb_pNextAvailable := sb_pNextAvailable s - ?L,
    sb_mem := put32 (sb_pStart s + 4) (Header_bytesRemaining s + tlen s h) m\<rparr>"
  have m': "(\<lambda>a. let d = sb_pStart s + uint (toff s h); r = d + ?L in
      if d \<le> a \<and> a < d + (sb_pTransOffsets s - r) then sb_mem s (r + (a - d)) else sb_mem s a) = m"
    by (auto simp: m_def Let_def fun_eq_iff algebra_simps)
  have f: "sb_pStart s0 = sb_pStart s" "sb_pTransOffsets s0 = sb_pTransOffsets s"
    "sb_mem s0 = put32 (sb_pStart s + 4) (Header_bytesRemaining s + tlen s h) m" by (simp_all add: s0_def)
  have tab: "sbm_table s" using layout_table assms(1) .
  have in_h: "in_table s h" using assms(2) by (simp add: live_def)
  have low: "m a = sb_mem s a" if "a < sb_pStart s + 12 \<or> sb_pTransOffsets s \<le> a" for a
  proof -
    have "\<not> (sb_pStart s + uint (toff s h) \<le> a \<and> a < sb_pTransOffsets s - ?L)"
      using that assms(3) uint_ge_0 [of "tlen s h"] unfolding within_def by linarith
    then show ?thesis unfolding m_def by (rule if_not_P)
  qed
  have h0: "Header_memSize s0 = Header_memSize s" "Header_transAllocated s0 = Header_transAllocated s"
    "Header_bytesRemaining s0 = Header_bytesRemaining s + tlen s h"
    by (auto simp: header_defs f low intro!: get32_cong)
  have ptr: "trans_ptr k s0 = trans_ptr k s" for k by (simp add: trans_ptr_def f h0)
  have t0: "sbm_table s0" using tab by (simp add: sbm_table_def f h0)
  have in0: "in_table s0 k = in_table s k" for k by (simp add: in_table_def h0)
  have s1: "s1 = s0\<lparr>sb_mem := put32 (trans_ptr h s0 + 0) 0xffffffff (sb_mem s0)\<rparr>"
    unfolding s1_def free_moved_def m' ptr by (simp add: s0_def)
  have in0_h: "in_table s0 h" using in_h in0 by simp
  note e = put_entry [OF t0 in0_h, where d = 0 and w = "0xffffffff", unfolded in0, folded s1, simplified]
  note same = table_only_same [OF e(1) t0]
  show "sbm_table s1" "Header_memSize s1 = Header_memSize s" "Header_transAllocated s1 = Header_transAllocated s"
    "Header_bytesRemaining s1 = Header_bytesRemaining s + tlen s h"
    using same h0 by simp_all
  show "tlen s1 k = (if k = h then 0xffffffff else tlen s k) \<and> toff s1 k = toff s k \<and> ttype s1 k = ttype s k"
    if k: "in_table s k"
  proof -
    have "sb_mem s0 i = sb_mem s i" if "trans_ptr k s \<le> i" for i
      using that entry_above [OF tab k] tab low by (auto simp: f sbm_table_def put32_other)
    then have "tlen s0 k = tlen s k" "toff s0 k = toff s k" "ttype s0 k = ttype s k"
      by (auto intro!: entry_cong(2-4) simp: f h0)
    then show ?thesis using e(2) [OF k] by simp
  qed
  show "sb_mem s1 a = (if sb_pStart s + uint (toff s h) \<le> a \<and> a < sb_pTransOffsets s - ?L then sb_mem s (a + ?L)
       else sb_mem s a)" if "sb_pStart s + 12 \<le> a" "a < sb_pTransOffsets s"
  proof -
    have "sb_mem s1 a = sb_mem s0 a" using e(1) that(2) by (auto simp: table_only_def f)
    then show ?thesis using that(1) by (simp add: f put32_other m_def)
  qed
qed

lemma freeTrans_steps:
  fixes h s
  assumes "sbm_ok s" and "live s h"
    and "sb_pTransOffsets s - (sb_pStart s + uint (toff s h) + uint (tlen s h)) < 65536"
  defines "s1 \<equiv> free_moved h s"
  shows "result (SBM_freeTrans h) s = Inr ()"
    and "exec (SBM_freeTrans h) s = (let s2 = exec (adjust_offsets (toff s h) (tlen s h) [0..<unat (Header_transAllocated s)]) s1
      in exec (trim_table (unat (Header_transAllocated s)) 0 (sb_pTransOffsets s2)) s2)"
proof -
  have lay: "sbm_layout s" and w: "within (sb_pNextAvailable s - sb_pStart s) s h"
    and idle: "\<not> sb_bTransactionInProcess s" and init: "sb_bInitialized s"
    using assms(1,2) by (auto simp: sbm_ok_def sbm_data_def sbm_layout_def)
  have tab: "sbm_table s" using layout_table lay .
  note run = free_moved_run [OF lay assms(2) w, folded s1_def]
  let ?d = "sb_pStart s + uint (toff s h)" and ?r = "sb_pStart s + uint (toff s h) + uint (tlen s h)"
  have n: "(sb_pTransOffsets s - ?r) mod 65536 = sb_pTransOffsets s - ?r"
  proof (rule mod_pos_pos_trivial [OF _ assms(3)])
    show "0 \<le> sb_pTransOffsets s - ?r"
      using w lay uint_ge_0 [of "Header_bytesRemaining s"] unfolding within_def sbm_layout_def by linarith
  qed
  define sA where "sA = s\<lparr>sb_mem := (\<lambda>a. if ?d \<le> a \<and> a < ?d + (sb_pTransOffsets s - ?r) then sb_mem s (?r + (a - ?d)) else sb_mem s a)\<rparr>"
  have low: "sb_mem sA a = sb_mem s a" if "a < sb_pStart s + 12 \<or> sb_pTransOffsets s \<le> a" for a
  proof -
    have "\<not> (?d \<le> a \<and> a < ?d + (sb_pTransOffsets s - ?r))"
      using that w uint_ge_0 [of "tlen s h"] unfolding within_def by linarith
    then show ?thesis by (auto simp: sA_def)
  qed
  have f: "sb_pStart sA = sb_pStart s" "sb_pTransOffsets sA = sb_pTransOffsets s" by (simp_all add: sA_def)
  have hA: "Header_memSize sA = Header_memSize s" "Header_bytesRemaining sA = Header_bytesRemaining s"
    using header_cong [of sA s] low f by auto
  have tA: "Transaction_transLen sA (trans_ptr h s) = tlen s h"
    using entry_cong [of sA s h] entry_above [OF tab, of h] assms(2) low f hA by (auto simp: tlen_def live_def)
  have s1: "s1 = s\<lparr>sb_mem := put32 (trans_ptr h s) 0xffffffff (put32 (sb_pStart s + 4)
      (Header_bytesRemaining sA + Transaction_transLen sA (trans_ptr h s)) (sb_mem sA)),
      sb_pNextAvailable := sb_pNextAvailable s - uint (word_of_int (?r - ?d) :: u32)\<rparr>"
    unfolding tA hA by (simp add: s1_def free_moved_def sA_def Let_def)
  show "result (SBM_freeTrans h) s = Inr ()"
    using init idle by (simp add: SBM_freeTrans_def sbm_run Let_def)
  have s1': "exec (do {
       OS_move ?d ?r (sb_pTransOffsets s - ?r);
       store32 (\<lambda>s. sb_pStart s + 4) (\<lambda>s'. Header_bytesRemaining s' + Transaction_transLen s' (trans_ptr h s));
       store32 (\<lambda>_. trans_ptr h s) (\<lambda>_. 0xffffffff);
       modify (\<lambda>s'. s'\<lparr>sb_pNextAvailable := sb_pNextAvailable s' - uint (word_of_int (?r - ?d) :: u32)\<rparr>)
     }) s = s1"
    unfolding s1 by (simp add: sbm_run sA_def)
  have mv: "word_of_int (?r - ?d) = tlen s h" by simp
  show "exec (SBM_freeTrans h) s = (let s2 = exec (adjust_offsets (toff s h) (tlen s h) [0..<unat (Header_transAllocated s)]) s1
      in exec (trim_table (unat (Header_transAllocated s)) 0 (sb_pTransOffsets s2)) s2)"
    using init idle run(3)
    by (simp add: SBM_freeTrans_def sbm_run Let_def n s1' [simplified sbm_run, simplified] flip: toff_def tlen_def)
qed


text \<open>The entries after the first loop.\<close>

lemma free_adjusted:
  fixes h s
  assumes ok: "sbm_ok s" and h: "live s h"
  defines "s1 \<equiv> free_moved h s"
  defines "s2 \<equiv> exec (adjust_offsets (toff s h) (tlen s h) [0..<unat (Header_transAllocated s)]) s1"
  shows "table_only s1 s2"
    and "in_table s k \<Longrightarrow> tlen s2 k = (if k = h then 0xffffffff else tlen s k) \<and> ttype s2 k = ttype s k"
    and "live s k \<Longrightarrow> k \<noteq> h \<Longrightarrow> uint (toff s2 k) = shifted s h k"
proof -
  let ?n = "Header_transAllocated s"
  have lay: "sbm_layout s" and data: "sbm_data (live s) (sb_pNextAvailable s - sb_pStart s) s"
    using ok by (simp_all add: sbm_ok_def)
  have w: "within (sb_pNextAvailable s - sb_pStart s) s h" using data h by (simp add: sbm_data_def)
  note m1 = free_moved_run [OF lay h w, folded s1_def]
  have in1: "in_table s1 k = in_table s k" for k by (simp add: in_table_def m1(3))
  have "\<forall>i \<in> set [0..<unat ?n]. int i < uint (Header_transAllocated s1)"
    unfolding m1(3) by (auto simp only: uint_nat set_upt atLeastLessThan_iff of_nat_less_iff)
  note adj = adjust_offsets_run [OF m1(1) distinct_upt this, where t = "toff s h" and mv = "tlen s h",
      folded s2_def, unfolded Let_def in1]
  show "table_only s1 s2" using adj by simp
  have e: "tlen s2 k = tlen s1 k" "ttype s2 k = ttype s1 k" "toff s2 k =
      (if tlen s1 k \<noteq> 0xffffffff \<and> toff s h < toff s1 k then toff s1 k - tlen s h else toff s1 k)"
    if k: "in_table s k" for k
  proof -
    have "nat (uint k - 1) \<in> set [0..<unat ?n]"
      using k unfolding in_table_uint set_upt atLeastLessThan_iff unat_eq_nat_uint by linarith
    then show "tlen s2 k = tlen s1 k" "ttype s2 k = ttype s1 k" "toff s2 k =
      (if tlen s1 k \<noteq> 0xffffffff \<and> toff s h < toff s1 k then toff s1 k - tlen s h else toff s1 k)"
      using adj [THEN conjunct2, THEN spec, THEN mp, OF k] by simp_all
  qed
  show "tlen s2 k = (if k = h then 0xffffffff else tlen s k) \<and> ttype s2 k = ttype s k" if "in_table s k"
    using e(1,2) [OF that] m1(5) [OF that] by simp
  assume k: "live s k" "k \<noteq> h"
  then have off: "toff s2 k = (if toff s h < toff s k then toff s k - tlen s h else toff s k)"
    using e(3) [of k] m1(5) [of k] by (simp add: live_def)
  have "trans_apart s h k" using data h k by (simp add: sbm_data_def)
  then have "toff s h < toff s k \<Longrightarrow> uint (tlen s h) \<le> uint (toff s k)"
    using uint_ge_0 [of "toff s h"] uint_ge_0 [of "tlen s k"] unfolding trans_apart_def word_less_def by linarith
  then show "uint (toff s2 k) = shifted s h k"
    by (auto simp: off shifted_def uint_sub_if')
qed

text \<open>The second loop only takes entries from the table that are free.\<close>

lemma trimmed_same:
  assumes j: "trimmed j s s'" and tab: "sbm_table s"
  shows "sb_pStart s' = sb_pStart s" "Header_memSize s' = Header_memSize s" "sbm_table s'"
    "sb_pTransOffsets s' = sb_pTransOffsets s + 12 * int j"
    "sb_pNextAvailable s' = sb_pNextAvailable s" "sb_bTransactionInProcess s' = sb_bTransactionInProcess s"
    "sb_bInitialized s' = sb_bInitialized s"
    "sb_pStart s + 12 \<le> a \<Longrightarrow> sb_mem s' a = sb_mem s a"
    "in_table s k \<Longrightarrow> tlen s' k = tlen s k \<and> toff s' k = toff s k \<and> ttype s' k = ttype s k"
    "live s' k = live s k"
proof -
  obtain m where m: "s' = s\<lparr>sb_pTransOffsets := sb_pTransOffsets s + 12 * int j, sb_mem := m\<rparr>"
    "\<And>a. sb_pStart s + 12 \<le> a \<Longrightarrow> m a = sb_mem s a" "\<And>a. a < sb_pStart s + 4 \<Longrightarrow> m a = sb_mem s a"
    and n: "uint (Header_transAllocated s') = uint (Header_transAllocated s) - int j"
    and none: "\<And>k. in_table s k \<Longrightarrow> uint (Header_transAllocated s) - int j < uint k \<Longrightarrow> tlen s k = 0xffffffff"
    using j unfolding trimmed_def by auto
  show f: "sb_pStart s' = sb_pStart s" "sb_pTransOffsets s' = sb_pTransOffsets s + 12 * int j"
    "sb_pNextAvailable s' = sb_pNextAvailable s" "sb_bTransactionInProcess s' = sb_bTransactionInProcess s"
    "sb_bInitialized s' = sb_bInitialized s"
    by (simp_all add: m(1))
  have mem: "sb_mem s' = m" by (simp add: m(1))
  show "sb_mem s' a = sb_mem s a" if "sb_pStart s + 12 \<le> a" for a using m(2) that mem by simp
  show size: "Header_memSize s' = Header_memSize s"
    using m(3) unfolding Header_memSize_def f mem by (intro get32_cong) simp
  show "sbm_table s'" using tab unfolding sbm_table_def f size n by simp
  show e: "tlen s' k = tlen s k \<and> toff s' k = toff s k \<and> ttype s' k = ttype s k" if "in_table s k" for k
    using entry_cong [of s' s k] entry_above [OF tab that] tab m(2) by (auto simp: f size mem sbm_table_def)
  show "live s' k = live s k"
  proof (cases "in_table s k")
    case True
    then show ?thesis using e [OF True] none [OF True]
      by (cases "uint (Header_transAllocated s) - int j < uint k") (auto simp: live_def in_table_uint n)
  next
    case False
    then show ?thesis using j by (auto simp: live_def in_table_uint n trimmed_def)
  qed
qed

text \<open>
  Freeing a transaction, where at most as many octets are moved as 16 bits can count, removes its
  entry and nothing else.
\<close>

lemma freeTrans_abs:
  fixes h s
  assumes ok: "sbm_ok s" and h: "live s h"
    and small: "sb_pTransOffsets s - (sb_pStart s + uint (toff s h) + uint (tlen s h)) < 65536"
  defines "s' \<equiv> exec (SBM_freeTrans h) s"
  shows "result (SBM_freeTrans h) s = Inr ()" "sbm_ok s'" "sbm_abs s' = (sbm_abs s)(h := None)"
    "uint (Header_bytesRemaining s) + uint (tlen s h) \<le> uint (Header_bytesRemaining s')"
    "sb_pStart s' = sb_pStart s" "Header_memSize s' = Header_memSize s"
proof -
  let ?n = "Header_transAllocated s" and ?L = "uint (tlen s h)" and ?R = "Header_bytesRemaining s"
  define s1 where "s1 = free_moved h s"
  define s2 where "s2 = exec (adjust_offsets (toff s h) (tlen s h) [0..<unat ?n]) s1"
  have lay: "sbm_layout s" and idle: "\<not> sb_bTransactionInProcess s" and init: "sb_bInitialized s"
    and data: "sbm_data (live s) (sb_pNextAvailable s - sb_pStart s) s"
    using ok by (simp_all add: sbm_ok_def sbm_layout_def)
  have w: "within (sb_pNextAvailable s - sb_pStart s) s h" using data h by (simp add: sbm_data_def)
  note m1 = free_moved_run [OF lay h w, folded s1_def]
  note a2 = free_adjusted [OF ok h, folded s1_def, folded s2_def]
  note same2 = table_only_same [OF a2(1) m1(1)]
  obtain j where j: "trimmed j s2 s'"
    using trim_table_run [OF same2(6)] freeTrans_steps(2) [OF ok h small] by (auto simp: s'_def s2_def s1_def Let_def)
  note t' = trimmed_same [OF j same2(6)]
  have f1: "sb_pStart s1 = sb_pStart s" "sb_pTransOffsets s1 = sb_pTransOffsets s"
    "sb_pNextAvailable s1 = sb_pNextAvailable s - ?L" "\<not> sb_bTransactionInProcess s1" "sb_bInitialized s1"
    using idle init by (simp_all add: s1_def free_moved_def)
  have f2: "sb_pNextAvailable s2 = sb_pNextAvailable s1" "sb_bTransactionInProcess s2 = sb_bTransactionInProcess s1"
    "sb_bInitialized s2 = sb_bInitialized s1" "\<And>a. a < sb_pTransOffsets s \<Longrightarrow> sb_mem s2 a = sb_mem s1 a"
    using a2(1) f1 by (auto simp: table_only_def)
  show start: "sb_pStart s' = sb_pStart s" and size: "Header_memSize s' = Header_memSize s"
    using t'(1,2) same2 m1 f1 by simp_all
  show "result (SBM_freeTrans h) s = Inr ()" using freeTrans_steps(1) [OF ok h small] .
  have in2: "in_table s2 k = in_table s k" for k by (simp add: in_table_def same2 m1)
  have live': "live s' k \<longleftrightarrow> live s k \<and> k \<noteq> h" for k
  proof -
    have "live s' k \<longleftrightarrow> live s2 k" by (rule t'(10))
    also have "\<dots> \<longleftrightarrow> live s k \<and> k \<noteq> h" using a2(2) [of k] unfolding live_def in2 by (auto split: if_splits)
    finally show ?thesis .
  qed
  have ent: "tlen s' k = tlen s k" "ttype s' k = ttype s k" "uint (toff s' k) = shifted s h k" if "live s k" "k \<noteq> h" for k
  proof -
    have "in_table s k" using that by (simp add: live_def)
    then show "tlen s' k = tlen s k" "ttype s' k = ttype s k" "uint (toff s' k) = shifted s h k"
      using t'(9) [of k] a2(2) [of k] a2(3) [OF that] that(2) by (simp_all add: in2)
  qed
  have R: "uint (Header_bytesRemaining s') = uint ?R + ?L + 12 * int j"
  proof -
    have r: "Header_bytesRemaining s' = ?R + tlen s h + of_nat (12 * j)"
      using j by (simp add: trimmed_def same2 m1)
    have "int j \<le> uint ?n" using j by (simp add: trimmed_def same2 m1)
    then have "uint ?R + ?L + 12 * int j < 4294967296"
      using lay w uint_lt2p [of "Header_memSize s"] unfolding sbm_layout_def within_def by simp
    moreover from this have "12 * j < 4294967296"
      using uint_ge_0 [of ?R] uint_ge_0 [of "tlen s h"] by linarith
    then have "uint (of_nat (12 * j) :: u32) = int (12 * j)"
      by (simp only: unsigned_of_nat take_bit_eq_mod) simp
    ultimately show ?thesis
      unfolding r uint_word_ariths(1) by (simp add: mod_simps del: of_nat_mult)
  qed
  show "uint ?R + ?L \<le> uint (Header_bytesRemaining s')" using R by simp
  have N: "sb_pNextAvailable s' = sb_pNextAvailable s - ?L" using t'(5) f2 f1 by simp
  have T: "sb_pTransOffsets s' = sb_pTransOffsets s + 12 * int j" using t'(4) same2 f1 by simp
  have "sbm_layout s'"
    using t'(3) lay w R N T f2 f1 t'(7) init start unfolding sbm_layout_def sbm_table_def within_def by simp
  moreover have "sbm_data (live s') (sb_pNextAvailable s' - sb_pStart s') s'"
    using shifted_data [OF data h] unfolding sbm_data_def live' N start
    by (simp add: within_def trans_apart_def ent algebra_simps)
  ultimately show "sbm_ok s'" using t'(6) f2 f1 by (simp add: sbm_ok_def)
  have "contents s' k = contents s k" if k: "live s k" "k \<noteq> h" for k
  proof -
    have wk: "within (sb_pNextAvailable s - sb_pStart s) s k" "trans_apart s h k"
      using data k h by (simp_all add: sbm_data_def)
    have "sb_mem s' (sb_pStart s + shifted s h k + int i) = sb_mem s (sb_pStart s + uint (toff s k) + int i)"
      if i: "i < unat (tlen s k)" for i
    proof -
      let ?a = "sb_pStart s + shifted s h k + int i"
      have i': "int i < uint (tlen s k)" using i by (simp only: uint_nat of_nat_less_iff)
      have sh: "12 \<le> shifted s h k" "shifted s h k + uint (tlen s k) \<le> sb_pNextAvailable s - sb_pStart s - ?L"
        using shifted_data(1) [OF data h k] by simp_all
      have T0: "sb_pNextAvailable s \<le> sb_pTransOffsets s"
        using lay uint_ge_0 [of ?R] unfolding sbm_layout_def by linarith
      have a: "sb_pStart s + 12 \<le> ?a" "?a < sb_pTransOffsets s - ?L" using sh i' T0 by linarith+
      have "sb_mem s' ?a = sb_mem s1 ?a"
        using t'(8) [of ?a] f2(4) [of ?a] a uint_ge_0 [of "tlen s h"] same2(8) f1(1) by simp
      also have "\<dots> = (if sb_pStart s + uint (toff s h) \<le> ?a then sb_mem s (?a + ?L) else sb_mem s ?a)"
        using m1(6) [of ?a] a uint_ge_0 [of "tlen s h"] by simp
      also have "\<dots> = sb_mem s (sb_pStart s + uint (toff s k) + int i)"
      proof (cases "toff s h < toff s k")
        case True
        then show ?thesis
          using wk(2) uint_ge_0 [of "tlen s k"] unfolding shifted_def trans_apart_def word_less_def
          by (auto simp: algebra_simps)
      next
        case False
        then have a_eq: "?a = sb_pStart s + uint (toff s k) + int i" by (simp add: shifted_def)
        have "?a < sb_pStart s + uint (toff s h) \<or> ?L = 0"
          using False wk(2) i' uint_ge_0 [of "tlen s h"] unfolding a_eq trans_apart_def word_less_def by linarith
        then show ?thesis using a_eq by auto
      qed
      finally show ?thesis .
    qed
    then show ?thesis by (simp add: contents_def start ent [OF k] cong: map_cong)
  qed
  then show "sbm_abs s' = (sbm_abs s)(h := None)"
    by (auto simp: sbm_abs_def live' ent fun_eq_iff)
qed

end
