(* ===== verification/Sbm_Trans.thy ===== *)
theory Sbm_Trans
  imports Sbm_Inv
begin

text \<open>
  Transactions of the static block memory from their beginning to their end, and the states that a
  client can reach.
\<close>

section \<open>A transaction in process\<close>

text \<open>Writing to an entry that is in the table or next below it.\<close>

lemma put_entry_any:
  assumes above: "sb_pStart s + 12 \<le> trans_ptr h s" and start: "sb_pStart s' = sb_pStart s"
    and mem: "\<forall>a. a < trans_ptr h s \<or> trans_ptr h s + 12 \<le> a \<longrightarrow> sb_mem s' a = sb_mem s a"
  shows "Header_memSize s' = Header_memSize s" "Header_bytesRemaining s' = Header_bytesRemaining s"
    "Header_transAllocated s' = Header_transAllocated s" "trans_ptr k s' = trans_ptr k s"
    "k \<noteq> h \<Longrightarrow> tlen s' k = tlen s k \<and> toff s' k = toff s k \<and> ttype s' k = ttype s k"
proof -
  show h: "Header_memSize s' = Header_memSize s" "Header_bytesRemaining s' = Header_bytesRemaining s"
    "Header_transAllocated s' = Header_transAllocated s"
    using header_cong [of s' s] start mem above by auto
  show "trans_ptr k s' = trans_ptr k s" for k by (simp add: trans_ptr_def h start)
  assume "k \<noteq> h"
  then have "trans_ptr k s + 12 \<le> trans_ptr h s \<or> trans_ptr h s + 12 \<le> trans_ptr k s"
    unfolding uint_neq trans_ptr_def by auto
  then show "tlen s' k = tlen s k \<and> toff s' k = toff s k \<and> ttype s' k = ttype s k"
    using entry_cong [of s' s k] start h mem by auto
qed

text \<open>
  \<open>h\<close> is the entry of the transaction, which is used already; its data begin at the next available
  octet. The header still has the old numbers.
\<close>

definition sbm_busy :: "ptr \<Rightarrow> u32 \<Rightarrow> 'a sbm_scheme \<Rightarrow> bool" where
  "sbm_busy p h s \<longleftrightarrow> sbm_layout s \<and> sb_bTransactionInProcess s \<and>
     0 < uint h \<and> uint h \<le> uint (Header_transAllocated s) + 1 \<and>
     sbm_data (\<lambda>k. live s k \<and> k \<noteq> h) (sb_pNextAvailable s - sb_pStart s) s \<and>
     tp_pTrans (sb_tips s p) = trans_ptr h s \<and> tp_hAddingToTrans (sb_tips s p) = SBM_NULL \<and>
     tp_pStart (sb_tips s p) = sb_pNextAvailable s \<and>
     tp_pNextAlloc (sb_tips s p) = sb_pNextAvailable s + uint (tlen s h) \<and>
     uint (toff s h) = sb_pNextAvailable s - sb_pStart s \<and>
     uint (tp_bytesRemaining (sb_tips s p)) + uint (tlen s h) + (if in_table s h then 0 else 12) =
       uint (Header_bytesRemaining s)"

text \<open>What the block stands for without the transaction in process.\<close>

definition others :: "u32 \<Rightarrow> 'a sbm_scheme \<Rightarrow> u32 \<Rightarrow> (u32 \<times> u8 list) option" where
  "others h s = (sbm_abs s)(h := None)"

lemma busy_entry_above:
  assumes "sbm_busy p h s"
  shows "sb_pNextAvailable s + uint (tlen s h) \<le> trans_ptr h s" "sb_pStart s + 12 \<le> sb_pNextAvailable s"
proof -
  have lay: "sbm_layout s" using assms by (simp add: sbm_busy_def)
  then show "sb_pStart s + 12 \<le> sb_pNextAvailable s" by (simp add: sbm_layout_def)
  have "uint (tlen s h) + (if in_table s h then 0 else 12) \<le> uint (Header_bytesRemaining s)"
    using assms uint_ge_0 [of "tp_bytesRemaining (sb_tips s p)"] unfolding sbm_busy_def by linarith
  moreover have "in_table s h \<Longrightarrow> sb_pTransOffsets s \<le> trans_ptr h s" using entry_above layout_table [OF lay] by blast
  moreover have "\<not> in_table s h \<Longrightarrow> trans_ptr h s = sb_pTransOffsets s - 12"
    using assms by (auto simp: sbm_busy_def in_table_uint trans_ptr_def sbm_layout_def)
  ultimately show "sb_pNextAvailable s + uint (tlen s h) \<le> trans_ptr h s"
    using lay unfolding sbm_layout_def by (cases "in_table s h") auto
qed

lemma data_cong:
  assumes "\<And>k. A k \<Longrightarrow> tlen s' k = tlen s k \<and> toff s' k = toff s k"
  shows "sbm_data A e s' = sbm_data A e s"
  using assms by (auto simp: sbm_data_def within_def trans_apart_def)

lemma contents_cong:
  assumes "tlen s' k = tlen s k" "toff s' k = toff s k" "sb_pStart s' = sb_pStart s"
    and "within e s k" "\<And>a. sb_pStart s + 12 \<le> a \<Longrightarrow> a < sb_pStart s + e \<Longrightarrow> sb_mem s' a = sb_mem s a"
  shows "contents s' k = contents s k"
proof -
  have "sb_mem s' (sb_pStart s + uint (toff s k) + int i) = sb_mem s (sb_pStart s + uint (toff s k) + int i)"
    if "i < unat (tlen s k)" for i
  proof (rule assms(5))
    have "int i < uint (tlen s k)" using that by (simp only: uint_nat of_nat_less_iff)
    then show "sb_pStart s + 12 \<le> sb_pStart s + uint (toff s k) + int i"
      "sb_pStart s + uint (toff s k) + int i < sb_pStart s + e"
      using assms(4) unfolding within_def by linarith+
  qed
  then show ?thesis by (simp add: contents_def assms(1-3) cong: map_cong)
qed

text \<open>A step that changes no other entry and no data below the next available octet.\<close>

lemma others_cong:
  assumes "sbm_data (\<lambda>k. live s k \<and> k \<noteq> h) (sb_pNextAvailable s - sb_pStart s) s"
    and "\<And>k. k \<noteq> h \<Longrightarrow> live s' k = live s k"
    and "\<And>k. k \<noteq> h \<Longrightarrow> live s k \<Longrightarrow> tlen s' k = tlen s k \<and> toff s' k = toff s k \<and> ttype s' k = ttype s k"
    and "sb_pStart s' = sb_pStart s"
    and "\<And>a. sb_pStart s + 12 \<le> a \<Longrightarrow> a < sb_pNextAvailable s \<Longrightarrow> sb_mem s' a = sb_mem s a"
  shows "others h s' = others h s"
proof
  fix k
  show "others h s' k = others h s k"
  proof (cases "k \<noteq> h \<and> live s k")
    case True
    then have "contents s' k = contents s k"
      using assms by (intro contents_cong [where e = "sb_pNextAvailable s - sb_pStart s"]) (auto simp: sbm_data_def)
    then show ?thesis using True assms(2,3) by (simp add: others_def sbm_abs_def)
  next
    case False
    then show ?thesis using assms(2) by (auto simp: others_def sbm_abs_def)
  qed
qed


section \<open>Beginning\<close>

lemma find_free:
  assumes "sbm_table s" and "find (\<lambda>i. Transaction_transLen s (nth_trans i s) = 0xffffffff) [0..<unat (Header_transAllocated s)] = Some i"
  shows "nth_trans i s = trans_ptr (of_nat (Suc i)) s" "in_table s (of_nat (Suc i))" "tlen s (of_nat (Suc i)) = 0xffffffff"
proof -
  have i: "i < unat (Header_transAllocated s)" "Transaction_transLen s (nth_trans i s) = 0xffffffff"
    using assms(2) by (auto simp: find_Some_iff)
  then have "int i < uint (Header_transAllocated s)" by (simp only: uint_nat of_nat_less_iff)
  from nth_trans_ptr [OF assms(1) this] i(2)
  show "nth_trans i s = trans_ptr (of_nat (Suc i)) s" "in_table s (of_nat (Suc i))" "tlen s (of_nat (Suc i)) = 0xffffffff"
    by (auto simp: tlen_def)
qed

text \<open>The state after the entry was filled.\<close>

definition begun :: "ptr \<Rightarrow> u32 \<Rightarrow> u8 \<Rightarrow> 'a sbm_scheme \<Rightarrow> 'a sbm_scheme" where
  "begun p h ty s = (let a = trans_ptr h s in s\<lparr>sb_allocs := sb_allocs s + 1,
     sb_tips := (sb_tips s)(p := \<lparr>tp_pTrans = a, tp_hAddingToTrans = SBM_NULL,
       tp_bytesRemaining = Header_bytesRemaining s - (if in_table s h then 0 else 12),
       tp_pNextAlloc = sb_pNextAvailable s, tp_pStart = sb_pNextAvailable s\<rparr>),
     sb_mem := put32 (a + 4) (word_of_int (sb_pNextAvailable s - sb_pStart s)) (put32 (a + 0) 0
       (put32 (a + 8) (ucast ty) (sb_mem s))),
     sb_bTransactionInProcess := True\<rparr>)"

lemma beginTrans_run:
  assumes "sbm_ok s"
  shows "result (SBM_beginTrans ty) s = Inr (p, h) \<Longrightarrow> exec (SBM_beginTrans ty) s = begun p h ty s \<and>
      0 < uint h \<and> uint h \<le> uint (Header_transAllocated s) + 1 \<and> \<not> live s h \<and>
      (if in_table s h then 0 else 12) < uint (Header_bytesRemaining s)"
    and "result (SBM_beginTrans ty) s = Inl e \<Longrightarrow> \<exists>n. exec (SBM_beginTrans ty) s = s\<lparr>sb_allocs := n\<rparr>"
proof -
  have lay: "sbm_layout s" and idle: "\<not> sb_bTransactionInProcess s" and init: "sb_bInitialized s"
    using assms by (simp_all add: sbm_ok_def sbm_layout_def)
  have tab: "sbm_table s" using layout_table [OF lay] .
  let ?R = "Header_bytesRemaining s" and ?n = "Header_transAllocated s"
  define found where "found = find (\<lambda>i. Transaction_transLen s (nth_trans i s) = 0xffffffff) [0..<unat ?n]"
  define k where "k = (case found of None \<Rightarrow> ?n + 1 | Some i \<Rightarrow> of_nat (Suc i))"
  have n: "12 * uint ?n + 24 \<le> uint (Header_memSize s) + 12" "uint (Header_memSize s) < 4294967296"
    using tab uint_lt2p [of "Header_memSize s"] unfolding sbm_table_def by simp_all
  then have n1: "uint (?n + 1) = uint ?n + 1" by (simp add: uint_word_ariths(1))
  have k: "(case found of None \<Rightarrow> sb_pTransOffsets s - 12 | Some i \<Rightarrow> nth_trans i s) = trans_ptr k s"
    "in_table s k \<longleftrightarrow> found \<noteq> None" "0 < uint k" "uint k \<le> uint ?n + 1" "\<not> live s k"
    using find_free [OF tab, folded found_def] n1 tab
    by (cases found; force simp: k_def trans_ptr_def sbm_table_def in_table_uint live_def simp del: of_nat_Suc)+
  define p0 where "p0 = sb_allocs s + 1"
  define ex where "ex = (if found = None then 12 else 0 :: u32)"
  have ex: "ex = (if in_table s k then 0 else 12)" using k(2) by (simp add: ex_def)
  define sB where "sB = begun p0 k ty s"
  have sB: "sB = s\<lparr>sb_allocs := sb_allocs s + 1,
     sb_tips := (sb_tips s)(p0 := \<lparr>tp_pTrans = trans_ptr k s, tp_hAddingToTrans = SBM_NULL,
       tp_bytesRemaining = ?R - ex, tp_pNextAlloc = sb_pNextAvailable s, tp_pStart = sb_pNextAvailable s\<rparr>),
     sb_mem := put32 (trans_ptr k s + 4) (word_of_int (sb_pNextAvailable s - sb_pStart s)) (put32 (trans_ptr k s) 0
       (put32 (trans_ptr k s + 8) (ucast ty) (sb_mem s))),
     sb_bTransactionInProcess := True\<rparr>"
    by (simp add: sB_def begun_def Let_def ex)
  have run: "result (SBM_beginTrans ty) s = (if found = None \<and> ?R < 12 then Inl ResourceError
      else if ?R < ex + 1 then Inl ResourceError else if sb_allocFail s (sb_allocs s) then Inl ResourceError
      else Inr (p0, word_of_int ((sb_pStart sB + uint (Header_memSize sB) - trans_ptr k s) div 12)))"
    "exec (SBM_beginTrans ty) s = (if found = None \<and> ?R < 12 then s else if ?R < ex + 1 then s
      else if sb_allocFail s (sb_allocs s) then s\<lparr>sb_allocs := sb_allocs s + 1\<rparr> else sB)"
    using init idle
    by (simp_all add: SBM_beginTrans_def sbm_run Let_def sB p0_def k(1) flip: found_def ex_def)
  show "\<exists>n. exec (SBM_beginTrans ty) s = s\<lparr>sb_allocs := n\<rparr>" if "result (SBM_beginTrans ty) s = Inl e"
  proof -
    have "\<exists>n. s = s\<lparr>sb_allocs := n\<rparr>" by (rule exI [of _ "sb_allocs s"]) simp
    then show ?thesis using that unfolding run by (auto split: if_splits)
  qed
  assume r: "result (SBM_beginTrans ty) s = Inr (p, h)"
  have ok: "\<not> (found = None \<and> ?R < 12)" "\<not> ?R < ex + 1" "\<not> sb_allocFail s (sb_allocs s)"
    and h: "p = p0" "h = word_of_int ((sb_pStart sB + uint (Header_memSize sB) - trans_ptr k s) div 12)"
    using r unfolding run(1) by (auto split: if_splits)
  have above: "sb_pStart s + 12 \<le> trans_ptr k s"
  proof (cases "in_table s k")
    case True
    then show ?thesis using entry_above [OF tab True] tab by (simp add: sbm_table_def)
  next
    case False
    then have "12 \<le> uint ?R" "trans_ptr k s = sb_pTransOffsets s - 12"
      using ok(1) k(1,2) by (simp_all add: word_less_def)
    then show ?thesis using lay by (simp add: sbm_layout_def)
  qed
  then have "Header_memSize sB = Header_memSize s" "sb_pStart sB = sb_pStart s"
    by (simp_all add: sB Header_memSize_def)
  then have hk: "h = k" by (simp add: h trans_ptr_def)
  have "exec (SBM_beginTrans ty) s = begun p h ty s" using run(2) ok h(1) hk by (simp add: sB_def)
  moreover have "0 < uint h" "uint h \<le> uint ?n + 1" "\<not> live s h" using k(3-5) hk by simp_all
  moreover have "(if in_table s h then 0 else 12) < uint ?R"
    using ok(2) unfolding hk ex by (cases "in_table s k") (simp_all add: word_less_def)
  ultimately show "exec (SBM_beginTrans ty) s = begun p h ty s \<and> 0 < uint h \<and> uint h \<le> uint ?n + 1 \<and>
      \<not> live s h \<and> (if in_table s h then 0 else 12) < uint ?R" by blast
qed

lemma beginTrans_busy:
  fixes s p h ty
  assumes ok: "sbm_ok s" and r: "result (SBM_beginTrans ty) s = Inr (p, h)"
  defines "s' \<equiv> exec (SBM_beginTrans ty) s"
  shows "sbm_busy p h s'" "tlen s' h = 0" "ttype s' h = ucast ty" "others h s' = sbm_abs s" "sbm_abs s h = None"
    "sb_pNextAvailable s' = sb_pNextAvailable s" "sb_pStart s' = sb_pStart s"
    "\<And>a. a < sb_pNextAvailable s \<Longrightarrow> sb_mem s' a = sb_mem s a" "Header_memSize s' = Header_memSize s"
proof -
  have run: "s' = begun p h ty s" "0 < uint h" "uint h \<le> uint (Header_transAllocated s) + 1" "\<not> live s h"
    "(if in_table s h then 0 else 12) < uint (Header_bytesRemaining s)"
    using beginTrans_run(1) [OF ok r] by (simp_all add: s'_def)
  have lay: "sbm_layout s" and data: "sbm_data (live s) (sb_pNextAvailable s - sb_pStart s) s"
    using ok by (simp_all add: sbm_ok_def)
  have tab: "sbm_table s" using layout_table [OF lay] .
  have above: "sb_pNextAvailable s \<le> trans_ptr h s" "sb_pStart s + 12 \<le> trans_ptr h s"
  proof -
    have "in_table s h \<Longrightarrow> sb_pTransOffsets s \<le> trans_ptr h s" using entry_above tab by blast
    moreover have "\<not> in_table s h \<Longrightarrow> trans_ptr h s = sb_pTransOffsets s - 12"
      using run(2,3) tab by (auto simp: in_table_uint trans_ptr_def sbm_table_def)
    ultimately show "sb_pNextAvailable s \<le> trans_ptr h s" "sb_pStart s + 12 \<le> trans_ptr h s"
      using run(5) lay uint_ge_0 [of "Header_bytesRemaining s"] unfolding sbm_layout_def by (cases "in_table s h"; simp)+
  qed
  have s': "s' = begun p h ty s" by (rule run(1))
  have f: "sb_pStart s' = sb_pStart s" "sb_pNextAvailable s' = sb_pNextAvailable s" "sb_pTransOffsets s' = sb_pTransOffsets s"
    "sb_bTransactionInProcess s'" "sb_bInitialized s' = sb_bInitialized s"
    "sb_mem s' = put32 (trans_ptr h s + 4) (word_of_int (sb_pNextAvailable s - sb_pStart s))
      (put32 (trans_ptr h s) 0 (put32 (trans_ptr h s + 8) (ucast ty) (sb_mem s)))"
    "sb_tips s' p = \<lparr>tp_pTrans = trans_ptr h s, tp_hAddingToTrans = SBM_NULL,
       tp_bytesRemaining = Header_bytesRemaining s - (if in_table s h then 0 else 12),
       tp_pNextAlloc = sb_pNextAvailable s, tp_pStart = sb_pNextAvailable s\<rparr>"
    by (simp_all add: s' begun_def Let_def)
  have mem: "\<forall>a. a < trans_ptr h s \<or> trans_ptr h s + 12 \<le> a \<longrightarrow> sb_mem s' a = sb_mem s a"
    by (auto simp: f put32_def)
  note e = put_entry_any [OF above(2) f(1) mem]
  have own: "tlen s' h = 0" "ttype s' h = ucast ty" "toff s' h = word_of_int (sb_pNextAvailable s - sb_pStart s)"
    by (simp_all add: entry_defs e(4) f)
  then show "tlen s' h = 0" "ttype s' h = ucast ty" by simp_all
  show "Header_memSize s' = Header_memSize s" by (rule e(1))
  show "sb_pNextAvailable s' = sb_pNextAvailable s" "sb_pStart s' = sb_pStart s" by (fact f)+
  show low: "sb_mem s' a = sb_mem s a" if "a < sb_pNextAvailable s" for a using mem that above by simp
  show "sbm_abs s h = None" using run(4) by (simp add: sbm_abs_def)
  have in': "in_table s' k = in_table s k" for k by (simp add: in_table_def e)
  have live': "live s' k = live s k" if "k \<noteq> h" for k using e(5) [OF that] by (simp add: live_def in')
  have data': "sbm_data (\<lambda>k. live s k \<and> k \<noteq> h) (sb_pNextAvailable s - sb_pStart s) s"
    using data by (auto simp: sbm_data_def)
  have "others h s' = others h s"
    using e(5) live' low by (intro others_cong [OF data'] f) auto
  then show "others h s' = sbm_abs s" using run(4) by (auto simp: others_def sbm_abs_def fun_eq_iff)
  have "(\<lambda>k. live s' k \<and> k \<noteq> h) = (\<lambda>k. live s k \<and> k \<noteq> h)" using live' by auto
  then have d: "sbm_data (\<lambda>k. live s' k \<and> k \<noteq> h) (sb_pNextAvailable s' - sb_pStart s') s'"
    using data' data_cong [of "\<lambda>k. live s k \<and> k \<noteq> h" s' s] e(5) f by simp
  have off: "uint (toff s' h) = sb_pNextAvailable s - sb_pStart s"
  proof -
    have "uint (Header_memSize s) < 4294967296" using uint_lt2p [of "Header_memSize s"] by simp
    then have "0 \<le> sb_pNextAvailable s - sb_pStart s" "sb_pNextAvailable s - sb_pStart s < 4294967296"
      using lay tab uint_ge_0 [of "Header_transAllocated s"]
        uint_ge_0 [of "Header_bytesRemaining s"] unfolding sbm_layout_def sbm_table_def by linarith+
    then show ?thesis by (simp only: own(3) uint_word_of_int) simp
  qed
  have rem: "uint (Header_bytesRemaining s - (if in_table s h then 0 else 12)) + (if in_table s h then 0 else 12) =
      uint (Header_bytesRemaining s)"
    using run(5) by (cases "in_table s h") (auto simp: uint_sub_if')
  show "sbm_busy p h s'"
    using lay run(2,3) d off rem unfolding sbm_busy_def sbm_layout_def by (simp add: e f own in')
qed


section \<open>Allocating\<close>

lemma busy_bounds:
  assumes "sbm_busy p h s"
  shows "uint (tlen s h) + uint (tp_bytesRemaining (sb_tips s p)) + 24 < 4294967296 + (if in_table s h then 12 else 0)"
proof -
  have "uint (Header_bytesRemaining s) + 12 + 12 * uint (Header_transAllocated s) \<le> uint (Header_memSize s)"
    using assms unfolding sbm_busy_def sbm_layout_def by linarith
  then show ?thesis
    using assms uint_lt2p [of "Header_memSize s"] uint_ge_0 [of "Header_transAllocated s"]
    unfolding sbm_busy_def by (auto split: if_splits)
qed

text \<open>The transaction grows by \<open>n\<close> octets: its entry, and the structure in process.\<close>

definition grown :: "ptr \<Rightarrow> u32 \<Rightarrow> 'a sbm_scheme \<Rightarrow> 'a sbm_scheme" where
  "grown p n s = (let x = sb_tips s p in s\<lparr>
     sb_tips := (sb_tips s)(p := x\<lparr>tp_bytesRemaining := tp_bytesRemaining x - n, tp_pNextAlloc := tp_pNextAlloc x + uint n\<rparr>),
     sb_mem := put32 (tp_pTrans x) (Transaction_transLen s (tp_pTrans x) + n) (sb_mem s)\<rparr>)"

lemma grown_busy:
  fixes p h s n
  assumes busy: "sbm_busy p h s" and n: "n \<le> tp_bytesRemaining (sb_tips s p)"
  defines "s' \<equiv> grown p n s"
  shows "sbm_busy p h s'" "tlen s' h = tlen s h + n" "uint (tlen s' h) = uint (tlen s h) + uint n" "ttype s' h = ttype s h"
    "others h s' = others h s" "sb_pNextAvailable s' = sb_pNextAvailable s" "sb_pStart s' = sb_pStart s"
    "\<And>a. a < trans_ptr h s \<Longrightarrow> sb_mem s' a = sb_mem s a" "trans_ptr h s' = trans_ptr h s"
    "Header_memSize s' = Header_memSize s"
proof -
  let ?x = "sb_tips s p" and ?a = "trans_ptr h s"
  have x: "tp_pTrans ?x = ?a" "tp_hAddingToTrans ?x = SBM_NULL" "tp_pStart ?x = sb_pNextAvailable s"
    "tp_pNextAlloc ?x = sb_pNextAvailable s + uint (tlen s h)" using busy by (simp_all add: sbm_busy_def)
  have f: "sb_pStart s' = sb_pStart s" "sb_pNextAvailable s' = sb_pNextAvailable s" "sb_pTransOffsets s' = sb_pTransOffsets s"
    "sb_bTransactionInProcess s' = sb_bTransactionInProcess s" "sb_bInitialized s' = sb_bInitialized s"
    "sb_mem s' = put32 ?a (tlen s h + n) (sb_mem s)"
    "sb_tips s' p = ?x\<lparr>tp_bytesRemaining := tp_bytesRemaining ?x - n, tp_pNextAlloc := tp_pNextAlloc ?x + uint n\<rparr>"
    by (simp_all add: s'_def grown_def Let_def x tlen_def)
  note above = busy_entry_above [OF busy]
  have high: "sb_pStart s + 12 \<le> ?a" using above uint_ge_0 [of "tlen s h"] by linarith
  have mem: "\<forall>a. a < ?a \<or> ?a + 12 \<le> a \<longrightarrow> sb_mem s' a = sb_mem s a"
    by (auto simp: f put32_def)
  note e = put_entry_any [OF high f(1) mem]
  have own: "tlen s' h = tlen s h + n" "ttype s' h = ttype s h" "toff s' h = toff s h"
    by (simp_all add: entry_defs e(4) f)
  have un: "uint n \<le> uint (tp_bytesRemaining ?x)" using n by (simp add: word_le_def)
  have len: "uint (tlen s h + n) = uint (tlen s h) + uint n"
    using busy_bounds [OF busy] un by (subst uint_add_lem [THEN iffD1]) (auto split: if_splits)
  have rem: "uint (tp_bytesRemaining ?x - n) = uint (tp_bytesRemaining ?x) - uint n" using un by (simp add: uint_sub_if')
  show "tlen s' h = tlen s h + n" "uint (tlen s' h) = uint (tlen s h) + uint n" "ttype s' h = ttype s h"
    using own len by simp_all
  show "sb_pNextAvailable s' = sb_pNextAvailable s" "sb_pStart s' = sb_pStart s" "trans_ptr h s' = trans_ptr h s"
    "Header_memSize s' = Header_memSize s" using f e by simp_all
  show low: "sb_mem s' a = sb_mem s a" if "a < ?a" for a using mem that by simp
  have in': "in_table s' k = in_table s k" for k by (simp add: in_table_def e)
  have live': "live s' k = live s k" if "k \<noteq> h" for k using e(5) [OF that] by (simp add: live_def in')
  have data: "sbm_data (\<lambda>k. live s k \<and> k \<noteq> h) (sb_pNextAvailable s - sb_pStart s) s" using busy by (simp add: sbm_busy_def)
  have "sb_pNextAvailable s \<le> ?a" using above uint_ge_0 [of "tlen s h"] by linarith
  then show "others h s' = others h s"
    using e(5) live' low by (intro others_cong [OF data] f) auto
  have "(\<lambda>k. live s' k \<and> k \<noteq> h) = (\<lambda>k. live s k \<and> k \<noteq> h)" using live' by auto
  then have d: "sbm_data (\<lambda>k. live s' k \<and> k \<noteq> h) (sb_pNextAvailable s' - sb_pStart s') s'"
    using data data_cong [of "\<lambda>k. live s k \<and> k \<noteq> h" s' s] e(5) f by simp
  show "sbm_busy p h s'"
    using busy d unfolding sbm_busy_def sbm_layout_def by (simp add: e f own in' len rem x)
qed

lemma SBM_alloc_run:
  fixes p h s n
  assumes busy: "sbm_busy p h s"
  defines "fits \<equiv> align4 n \<le> tp_bytesRemaining (sb_tips s p)"
  shows "result (SBM_alloc p n) s = (if fits then Inr (tlen s h) else Inl ResourceError)"
    "exec (SBM_alloc p n) s = (if fits then grown p (align4 n) s else s)"
proof -
  have f: "sb_bInitialized s" "sb_bTransactionInProcess s" "tp_pTrans (sb_tips s p) = trans_ptr h s"
    "tp_pNextAlloc (sb_tips s p) - tp_pStart (sb_tips s p) = uint (tlen s h)"
    using busy by (simp_all add: sbm_busy_def sbm_layout_def)
  show "result (SBM_alloc p n) s = (if fits then Inr (tlen s h) else Inl ResourceError)"
    "exec (SBM_alloc p n) s = (if fits then grown p (align4 n) s else s)"
    using f by (simp_all add: SBM_alloc_def sbm_run tip_advance_def grown_def Let_def fits_def not_le Transaction_transLen_def)
qed


section \<open>Writing, ending and aborting\<close>

text \<open>The client writes an octet through a pointer.\<close>

definition poke :: "int \<Rightarrow> u8 \<Rightarrow> 'a sbm_scheme \<Rightarrow> 'a sbm_scheme" where
  "poke a v s = s\<lparr>sb_mem := (sb_mem s)(a := v)\<rparr>"

lemma busy_write:
  fixes p h s m
  assumes busy: "sbm_busy p h s" and m: "\<forall>a. a < sb_pNextAvailable s \<or> sb_pNextAvailable s + uint (tlen s h) \<le> a \<longrightarrow> m a = sb_mem s a"
  defines "s' \<equiv> s\<lparr>sb_mem := m\<rparr>"
  shows "sbm_busy p h s'" "others h s' = others h s" "tlen s' h = tlen s h" "toff s' h = toff s h" "ttype s' h = ttype s h"
    "Header_memSize s' = Header_memSize s"
proof -
  note above = busy_entry_above [OF busy]
  have data: "sbm_data (\<lambda>k. live s k \<and> k \<noteq> h) (sb_pNextAvailable s - sb_pStart s) s"
    and lay: "sbm_layout s" using busy by (simp_all add: sbm_busy_def)
  have tab: "sbm_table s" using layout_table [OF lay] .
  have f: "sb_pStart s' = sb_pStart s" "sb_mem s' = m" "sb_pNextAvailable s' = sb_pNextAvailable s"
    "sb_pTransOffsets s' = sb_pTransOffsets s" "sb_bInitialized s' = sb_bInitialized s"
    "sb_bTransactionInProcess s' = sb_bTransactionInProcess s" "sb_tips s' = sb_tips s" by (simp_all add: s'_def)
  have hd: "Header_memSize s' = Header_memSize s" "Header_bytesRemaining s' = Header_bytesRemaining s"
    "Header_transAllocated s' = Header_transAllocated s"
    using header_cong [of s' s] m above f by auto
  then show "Header_memSize s' = Header_memSize s" by simp
  have N: "sb_pNextAvailable s + uint (tlen s h) \<le> sb_pTransOffsets s"
  proof -
    have "uint (tp_bytesRemaining (sb_tips s p)) + uint (tlen s h) + (if in_table s h then 0 else 12) =
        uint (Header_bytesRemaining s)" using busy by (simp add: sbm_busy_def)
    moreover have "(0 :: int) \<le> (if in_table s h then 0 else 12)" by simp
    ultimately show ?thesis
      using lay uint_ge_0 [of "tp_bytesRemaining (sb_tips s p)"] unfolding sbm_layout_def by linarith
  qed
  have ent: "trans_ptr k s' = trans_ptr k s" "tlen s' k = tlen s k" "toff s' k = toff s k" "ttype s' k = ttype s k"
    if "in_table s k \<or> k = h" for k
  proof -
    have "sb_pNextAvailable s + uint (tlen s h) \<le> trans_ptr k s"
      using that above N entry_above [OF tab, of k] by auto
    then show "trans_ptr k s' = trans_ptr k s" "tlen s' k = tlen s k" "toff s' k = toff s k" "ttype s' k = ttype s k"
      using entry_cong [of s' s k] hd f m by auto
  qed
  show "tlen s' h = tlen s h" "toff s' h = toff s h" "ttype s' h = ttype s h" using ent [of h] by simp_all
  have in': "in_table s' k = in_table s k" for k by (simp add: in_table_def hd)
  have live': "live s' k = live s k" for k using ent [of k] by (auto simp: live_def in')
  have e: "tlen s' k = tlen s k \<and> toff s' k = toff s k \<and> ttype s' k = ttype s k" if "live s k" for k
    using ent [of k] that by (simp add: live_def)
  show "others h s' = others h s" using e live' m f by (intro others_cong [OF data]) auto
  have "sbm_data (\<lambda>k. live s k \<and> k \<noteq> h) (sb_pNextAvailable s - sb_pStart s) s'"
    using data data_cong [of "\<lambda>k. live s k \<and> k \<noteq> h" s' s] e by simp
  then show "sbm_busy p h s'"
    using busy ent [of h] unfolding sbm_busy_def sbm_layout_def live' f hd in' by simp
qed

text \<open>The end of a transaction changes the header only.\<close>

lemma endTrans_run:
  fixes p h s
  assumes busy: "sbm_busy p h s"
  defines "s' \<equiv> exec (SBM_endTrans p) s"
  shows "result (SBM_endTrans p) s = Inr ()" "sb_pStart s' = sb_pStart s" "\<not> sb_bTransactionInProcess s'"
    "sb_bInitialized s'" "sb_pNextAvailable s' = sb_pNextAvailable s + uint (tlen s h)"
    "sb_pTransOffsets s' = sb_pTransOffsets s - (if in_table s h then 0 else 12)"
    "Header_memSize s' = Header_memSize s" "Header_bytesRemaining s' = tp_bytesRemaining (sb_tips s p)"
    "Header_transAllocated s' = Header_transAllocated s + (if in_table s h then 0 else 1)"
    "\<forall>a. sb_pStart s + 12 \<le> a \<longrightarrow> sb_mem s' a = sb_mem s a"
proof -
  have lay: "sbm_layout s" and x: "tp_pTrans (sb_tips s p) = trans_ptr h s" "tp_hAddingToTrans (sb_tips s p) = SBM_NULL"
    "tp_pNextAlloc (sb_tips s p) = sb_pNextAvailable s + uint (tlen s h)" "sb_bTransactionInProcess s" "sb_bInitialized s"
    using busy by (simp_all add: sbm_busy_def sbm_layout_def)
  have tab: "sbm_table s" using layout_table [OF lay] .
  have new: "trans_ptr h s < sb_pTransOffsets s \<longleftrightarrow> \<not> in_table s h"
    using busy tab by (auto simp: sbm_busy_def in_table_uint trans_ptr_def sbm_table_def)
  note r = x SBM_endTrans_def sbm_run header_defs new
  show "result (SBM_endTrans p) s = Inr ()" "sb_pStart s' = sb_pStart s" "\<not> sb_bTransactionInProcess s'"
    "sb_bInitialized s'" "sb_pNextAvailable s' = sb_pNextAvailable s + uint (tlen s h)"
    "sb_pTransOffsets s' = sb_pTransOffsets s - (if in_table s h then 0 else 12)"
    "Header_memSize s' = Header_memSize s" "Header_bytesRemaining s' = tp_bytesRemaining (sb_tips s p)"
    "Header_transAllocated s' = Header_transAllocated s + (if in_table s h then 0 else 1)"
    "\<forall>a. sb_pStart s + 12 \<le> a \<longrightarrow> sb_mem s' a = sb_mem s a"
    by (simp_all add: r s'_def put32_other)
qed

lemma endTrans_abs:
  fixes p h s
  assumes busy: "sbm_busy p h s"
  defines "s' \<equiv> exec (SBM_endTrans p) s"
  shows "sbm_ok s'" "sbm_abs s' = (others h s)(h \<mapsto> (ttype s h, contents s h))"
proof -
  note run = endTrans_run [OF busy, folded s'_def]
  note above = busy_entry_above [OF busy]
  have lay: "sbm_layout s" and data: "sbm_data (\<lambda>k. live s k \<and> k \<noteq> h) (sb_pNextAvailable s - sb_pStart s) s"
    and h: "0 < uint h" "uint h \<le> uint (Header_transAllocated s) + 1"
    and off: "uint (toff s h) = sb_pNextAvailable s - sb_pStart s"
    and rem: "uint (tp_bytesRemaining (sb_tips s p)) + uint (tlen s h) + (if in_table s h then 0 else 12) = uint (Header_bytesRemaining s)"
    using busy by (simp_all add: sbm_busy_def)
  have tab: "sbm_table s" using layout_table [OF lay] .
  have n: "uint (Header_transAllocated s') = uint (Header_transAllocated s) + (if in_table s h then 0 else 1)"
  proof -
    have "12 * uint (Header_transAllocated s) + 24 \<le> uint (Header_memSize s) + 12" using tab by (simp add: sbm_table_def)
    moreover have "uint (Header_memSize s) < 4294967296" using uint_lt2p [of "Header_memSize s"] by simp
    ultimately show ?thesis by (simp add: run(9) uint_word_ariths(1))
  qed
  have in': "in_table s' k \<longleftrightarrow> in_table s k \<or> k = h" for k
  proof (cases "in_table s h")
    case True
    then show ?thesis by (auto simp: in_table_def run(9))
  next
    case False
    then have "uint h = uint (Header_transAllocated s) + 1" using h by (auto simp: in_table_uint)
    then have "k = h \<longleftrightarrow> uint k = uint (Header_transAllocated s) + 1" by (metis word_uint_eq_iff)
    then show ?thesis using False uint_ge_0 [of "Header_transAllocated s"] unfolding in_table_uint n by auto
  qed
  have ent: "tlen s' k = tlen s k" "toff s' k = toff s k" "ttype s' k = ttype s k" if "in_table s k \<or> k = h" for k
  proof -
    have "sb_pStart s + 12 \<le> trans_ptr h s" using above uint_ge_0 [of "tlen s h"] by linarith
    then have "sb_pStart s + 12 \<le> trans_ptr k s"
      using that entry_above [OF tab, of k] tab unfolding sbm_table_def by auto
    then show "tlen s' k = tlen s k" "toff s' k = toff s k" "ttype s' k = ttype s k"
      using entry_cong [of s' s k] run by auto
  qed
  have "(if in_table s h then 12 else 0 :: int) \<le> 12" by simp
  then have "uint (tlen s h) + 12 < 4294967296"
    using busy_bounds [OF busy] uint_ge_0 [of "tp_bytesRemaining (sb_tips s p)"] by linarith
  then have len: "tlen s h \<noteq> 0xffffffff" by auto
  have live': "live s' k \<longleftrightarrow> (live s k \<and> k \<noteq> h) \<or> k = h" for k
    using ent [of k] len by (auto simp: live_def in')
  have e: "tlen s' k = tlen s k" "toff s' k = toff s k" "ttype s' k = ttype s k" if "live s' k" for k
    using ent [of k] that by (auto simp: live_def in')
  have sh: "within (sb_pNextAvailable s - sb_pStart s) s k \<Longrightarrow> trans_apart s k h \<and> trans_apart s h k \<and>
      within (sb_pNextAvailable s' - sb_pStart s) s k" for k
    using off uint_ge_0 [of "tlen s h"] unfolding within_def trans_apart_def run(5) by linarith
  have "within (sb_pNextAvailable s' - sb_pStart s) s h" using above off by (simp add: within_def run)
  then have "sbm_data (live s') (sb_pNextAvailable s' - sb_pStart s') s"
    using data sh unfolding sbm_data_def live' run(2) by blast
  then have d: "sbm_data (live s') (sb_pNextAvailable s' - sb_pStart s') s'"
    using data_cong [of "live s'" s' s] e by simp
  have "sb_pStart s + 12 \<le> sb_pNextAvailable s + uint (tlen s h)"
    using above uint_ge_0 [of "tlen s h"] by linarith
  then have "sbm_layout s'" using lay n rem unfolding sbm_layout_def by (simp add: run)
  then show "sbm_ok s'" using d by (simp add: sbm_ok_def run)
  have c: "contents s' k = contents s k" if "live s' k" for k
  proof -
    have "within (sb_pNextAvailable s' - sb_pStart s') s k"
      using d [unfolded sbm_data_def, THEN conjunct1, rule_format, OF that] e [OF that] by (simp add: within_def)
    then show ?thesis using run e [OF that] by (intro contents_cong) auto
  qed
  show "sbm_abs s' = (others h s)(h \<mapsto> (ttype s h, contents s h))"
    using c e live' by (auto simp: fun_eq_iff sbm_abs_def others_def)
qed

lemma abortTrans_abs:
  fixes p h s
  assumes busy: "sbm_busy p h s"
  defines "s' \<equiv> exec (SBM_abortTrans p) s"
  shows "result (SBM_abortTrans p) s = Inr ()" "sbm_ok s'" "sbm_abs s' = others h s"
    "sb_pStart s' = sb_pStart s" "Header_memSize s' = Header_memSize s"
proof -
  have lay: "sbm_layout s" and x: "tp_pTrans (sb_tips s p) = trans_ptr h s" "tp_hAddingToTrans (sb_tips s p) = SBM_NULL"
    "sb_bTransactionInProcess s" "sb_bInitialized s"
    and data: "sbm_data (\<lambda>k. live s k \<and> k \<noteq> h) (sb_pNextAvailable s - sb_pStart s) s"
    using busy by (simp_all add: sbm_busy_def sbm_layout_def)
  note above = busy_entry_above [OF busy]
  have high: "sb_pStart s + 12 \<le> trans_ptr h s" "sb_pNextAvailable s \<le> trans_ptr h s"
    using above uint_ge_0 [of "tlen s h"] by linarith+
  show "result (SBM_abortTrans p) s = Inr ()" by (simp add: SBM_abortTrans_def sbm_run x)
  have f: "sb_pStart s' = sb_pStart s" "sb_pNextAvailable s' = sb_pNextAvailable s" "sb_pTransOffsets s' = sb_pTransOffsets s"
    "\<not> sb_bTransactionInProcess s'" "sb_bInitialized s' = sb_bInitialized s"
    "sb_mem s' = put32 (trans_ptr h s) 0xffffffff (sb_mem s)"
    by (simp_all add: s'_def SBM_abortTrans_def sbm_run x)
  have mem: "\<forall>a. a < trans_ptr h s \<or> trans_ptr h s + 12 \<le> a \<longrightarrow> sb_mem s' a = sb_mem s a"
    by (auto simp: f put32_def)
  note e = put_entry_any [OF high(1) f(1) mem]
  show "sb_pStart s' = sb_pStart s" "Header_memSize s' = Header_memSize s" by (rule f(1), rule e(1))
  have "tlen s' h = 0xffffffff" by (simp add: entry_defs e(4) f)
  then have dead: "\<not> live s' h" by (simp add: live_def)
  have live': "live s' k \<longleftrightarrow> live s k \<and> k \<noteq> h" for k
    using e(5) [of k] dead by (cases "k = h") (auto simp: live_def in_table_def e(3))
  have "live s' = (\<lambda>k. live s k \<and> k \<noteq> h)" using live' by blast
  then have "sbm_data (live s') (sb_pNextAvailable s' - sb_pStart s') s'"
    using data data_cong [of "\<lambda>k. live s k \<and> k \<noteq> h" s' s] e(5) f by simp
  then show "sbm_ok s'" using lay f by (simp add: sbm_ok_def sbm_layout_def e)
  have "others h s' = others h s"
    using e(5) live' mem high(2) by (intro others_cong [OF data] f) auto
  moreover have "sbm_abs s' h = None" using dead by (simp add: sbm_abs_def)
  ultimately show "sbm_abs s' = others h s" by (simp add: others_def fun_upd_idem)
qed

end
