(* ===== verification/Sbm_Run.thy ===== *)
theory Sbm_Run
  imports Sbm_Trans
begin

text \<open>
  The static block memory as its clients see it: a store of typed contents by handle, with at most one
  transaction in process. Every step of a client on a block is a step on that store.
\<close>

section \<open>Opening a block\<close>

lemma open_fresh:
  fixes s a n
  assumes "sb_bInitialized s" and "12 \<le> n"
  defines "s' \<equiv> exec (SBM_open a n) s"
  shows "result (SBM_open a n) s = Inr ()" "sbm_ok s'" "sbm_abs s' = Map.empty" "sb_pStart s' = a"
    "uint (Header_bytesRemaining s') = uint n - uint n mod 4 - 12"
proof -
  define m where "m = n - n mod 4"
  have "n mod 4 \<le> n" by (simp add: word_le_def uint_mod_distrib zmod_le_nonneg_dividend)
  then have m: "uint m = uint n - uint n mod 4"
    by (simp add: m_def uint_sub_if' word_le_def uint_mod_distrib)
  have n: "12 \<le> uint n" using assms(2) by (simp add: word_le_def)
  have m12: "12 \<le> uint m" using n unfolding m by presburger
  then have m0: "m \<noteq> 0" by auto
  have rem: "uint (m - 12) = uint m - 12" using m12 by (simp add: uint_sub_if')
  show "result (SBM_open a n) s = Inr ()"
    using assms(1) by (simp add: SBM_open_def sbm_run Let_def)
  have f: "sb_pStart s' = a" "sb_bInitialized s'" "\<not> sb_bTransactionInProcess s'"
    "sb_mem s' = put32 (a + 8) 0 (put32 a m (put32 (a + 4) (m - 12) (sb_mem s)))"
    using assms(1) m0 by (simp_all add: s'_def SBM_open_def sbm_run Let_def flip: m_def)
  have h: "Header_memSize s' = m" "Header_bytesRemaining s' = m - 12" "Header_transAllocated s' = 0"
    by (simp_all add: header_defs f)
  have p: "sb_pTransOffsets s' = a + uint m" "sb_pNextAvailable s' = a + 12"
    using assms(1) m0 rem by (simp_all add: s'_def SBM_open_def sbm_run Let_def header_defs flip: m_def)
  show "sb_pStart s' = a" by (rule f)
  show "uint (Header_bytesRemaining s') = uint n - uint n mod 4 - 12" by (simp only: h rem m)
  have none: "\<not> live s' h" for h by (auto simp: live_def in_table_uint h)
  show "sbm_abs s' = Map.empty" by (simp add: sbm_abs_def none fun_eq_iff)
  show "sbm_ok s'" using rem by (simp add: sbm_ok_def sbm_layout_def sbm_data_def none f h p)
qed

text \<open>
  A block that was used before is opened again, at whatever address it lies now: the numbers and
  places in it are those of the state in which it was left.
\<close>

lemma open_again:
  fixes s s0 a
  assumes init: "sb_bInitialized s0" and lay: "sbm_layout s"
    and mem: "\<forall>i. 0 \<le> i \<longrightarrow> i < uint (Header_memSize s) \<longrightarrow> sb_mem s0 (a + i) = sb_mem s (sb_pStart s + i)"
  defines "s' \<equiv> exec (SBM_open a 0) s0"
  shows "sbm_layout s'" "\<not> sb_bTransactionInProcess s'" "sb_pStart s' = a" "Header_memSize s' = Header_memSize s"
    "sb_pNextAvailable s' - sb_pStart s' = sb_pNextAvailable s - sb_pStart s" "live s' k = live s k"
    "in_table s k \<Longrightarrow> tlen s' k = tlen s k \<and> toff s' k = toff s k \<and> ttype s' k = ttype s k"
    "in_table s k \<Longrightarrow> within (sb_pNextAvailable s - sb_pStart s) s k \<Longrightarrow> contents s' k = contents s k"
proof -
  have f: "sb_pStart s' = a" "sb_bInitialized s'" "sb_mem s' = sb_mem s0"
    using init by (simp_all add: s'_def SBM_open_def sbm_run Let_def)
  show "\<not> sb_bTransactionInProcess s'" using init by (simp add: s'_def SBM_open_def sbm_run Let_def)
  show "sb_pStart s' = a" by (rule f)
  have tab: "sbm_table s" using layout_table [OF lay] .
  have top: "sb_pStart s + 12 \<le> sb_pNextAvailable s" "sb_pNextAvailable s \<le> sb_pTransOffsets s"
    "sb_pTransOffsets s \<le> sb_pStart s + uint (Header_memSize s)"
    using lay uint_ge_0 [of "Header_bytesRemaining s"] uint_ge_0 [of "Header_transAllocated s"]
    unfolding sbm_layout_def by linarith+
  have g: "get32 (sb_mem s') (a + i) = get32 (sb_mem s) (sb_pStart s + i)"
    if "0 \<le> i" "i + 4 \<le> uint (Header_memSize s)" for i
    unfolding f(3) get32_def using that mem by (simp add: add.assoc)
  have m12: "12 \<le> uint (Header_memSize s)" using top by linarith
  have hd: "Header_memSize s' = Header_memSize s" "Header_bytesRemaining s' = Header_bytesRemaining s"
    "Header_transAllocated s' = Header_transAllocated s"
    using g [of 0] g [of 4] g [of 8] m12 by (simp_all add: header_defs f(1))
  show "Header_memSize s' = Header_memSize s" by (rule hd)
  have hd0: "Header_memSize s' = get32 (sb_mem s0) a" "Header_bytesRemaining s' = get32 (sb_mem s0) (a + 4)"
    "Header_transAllocated s' = get32 (sb_mem s0) (a + 8)"
    by (simp_all add: header_defs f)
  have T: "sb_pTransOffsets s' = a + uint (Header_memSize s) - 12 * uint (Header_transAllocated s)"
    and N: "sb_pNextAvailable s' = sb_pTransOffsets s' - uint (Header_bytesRemaining s)"
    unfolding hd [symmetric] unfolding hd0
    using init by (simp_all add: s'_def SBM_open_def sbm_run Let_def header_defs)
  show "sb_pNextAvailable s' - sb_pStart s' = sb_pNextAvailable s - sb_pStart s"
    using lay unfolding sbm_layout_def N T f(1) by linarith
  then show "sbm_layout s'" using lay unfolding sbm_layout_def hd by (simp add: T N f)
  have p: "trans_ptr k s' = a + (trans_ptr k s - sb_pStart s)" for k by (simp add: trans_ptr_def hd f)
  show l: "tlen s' k = tlen s k \<and> toff s' k = toff s k \<and> ttype s' k = ttype s k" if "in_table s k" for k
  proof -
    have "0 \<le> trans_ptr k s - sb_pStart s" "trans_ptr k s - sb_pStart s + 12 \<le> uint (Header_memSize s)"
      using entry_above [OF tab that] top that by (simp_all add: trans_ptr_def in_table_uint)
    then show ?thesis
      using g [of "trans_ptr k s - sb_pStart s"] g [of "trans_ptr k s - sb_pStart s + 4"]
        g [of "trans_ptr k s - sb_pStart s + 8"] by (simp add: entry_defs p algebra_simps)
  qed
  show "live s' k = live s k" using l [of k] by (auto simp: live_def in_table_def hd)
  assume k: "in_table s k" "within (sb_pNextAvailable s - sb_pStart s) s k"
  have "sb_mem s' (a + (uint (toff s k) + int i)) = sb_mem s (sb_pStart s + (uint (toff s k) + int i))"
    if "i < unat (tlen s k)" for i
  proof -
    have "int i < uint (tlen s k)" using that by (simp only: uint_nat of_nat_less_iff)
    then have "0 \<le> uint (toff s k) + int i" "uint (toff s k) + int i < uint (Header_memSize s)"
      using k(2) top unfolding within_def by linarith+
    then show ?thesis using mem by (simp add: f(3))
  qed
  then show "contents s' k = contents s k" using l [OF k(1)] by (simp add: contents_def f(1) add.assoc cong: map_cong)
qed

text \<open>
  What is left of a block when the program stops: everything between transactions; and the others
  when a transaction was in process that has an entry of its own below the table.
\<close>

lemma open_recovers:
  fixes s s0 a
  assumes init: "sb_bInitialized s0"
    and mem: "\<forall>i. 0 \<le> i \<longrightarrow> i < uint (Header_memSize s) \<longrightarrow> sb_mem s0 (a + i) = sb_mem s (sb_pStart s + i)"
  defines "s' \<equiv> exec (SBM_open a 0) s0"
  shows "sbm_ok s \<Longrightarrow> sbm_ok s' \<and> sbm_abs s' = sbm_abs s \<and> sb_pStart s' = a \<and> Header_memSize s' = Header_memSize s"
    and "sbm_busy p h s \<Longrightarrow> \<not> in_table s h \<Longrightarrow> sbm_ok s' \<and> sbm_abs s' = others h s"
proof -
  have r: "sbm_ok s' \<and> sbm_abs s' = sbm_abs s \<and> sb_pStart s' = a \<and> Header_memSize s' = Header_memSize s"
    if lay: "sbm_layout s" and d: "sbm_data (live s) (sb_pNextAvailable s - sb_pStart s) s"
  proof -
    note o = open_again [OF init lay mem, folded s'_def]
    have l: "live s' = live s" using o(6) by blast
    have "sbm_abs s' k = sbm_abs s k" for k
      using o(7,8) [of k] d l by (auto simp: sbm_abs_def live_def sbm_data_def)
    moreover have "sbm_ok s'" using o d l data_cong [of "live s" s' s] by (simp add: sbm_ok_def live_def)
    ultimately show ?thesis using o by auto
  qed
  show "sbm_ok s' \<and> sbm_abs s' = sbm_abs s \<and> sb_pStart s' = a \<and> Header_memSize s' = Header_memSize s" if "sbm_ok s"
    using that r unfolding sbm_ok_def by blast
  assume "sbm_busy p h s" "\<not> in_table s h"
  moreover from this(2) have "(\<lambda>k. live s k \<and> k \<noteq> h) = live s" by (auto simp: live_def)
  moreover have "others h s = sbm_abs s" using \<open>\<not> in_table s h\<close>
    by (simp add: others_def sbm_abs_def live_def fun_eq_iff)
  ultimately show "sbm_ok s' \<and> sbm_abs s' = others h s" using r by (simp add: sbm_busy_def)
qed

section \<open>Steps of a client\<close>

lemma length_contents [simp]: "length (contents s h) = unat (tlen s h)"
  by (simp add: contents_def)

lemma contents_poke:
  fixes s k i v
  assumes "i < unat (tlen s k)" "tlen s' k = tlen s k" "toff s' k = toff s k" "sb_pStart s' = sb_pStart s"
    and "sb_mem s' = (sb_mem s)(sb_pStart s + uint (toff s k) + int i := v)"
  shows "contents s' k = (contents s k)[i := v]"
  using assms by (intro nth_equalityI) (auto simp: contents_def nth_list_update)

text \<open>A client writes into a transaction in process, or into one that is in the block.\<close>

lemma poke_busy:
  fixes p h s i v
  assumes busy: "sbm_busy p h s" and i: "i < unat (tlen s h)"
  defines "s' \<equiv> poke (tp_pStart (sb_tips s p) + int i) v s"
  shows "sbm_busy p h s'" "others h s' = others h s" "ttype s' h = ttype s h" "contents s' h = (contents s h)[i := v]"
    "sb_pStart s' = sb_pStart s" "Header_memSize s' = Header_memSize s"
proof -
  let ?m = "(sb_mem s)(sb_pNextAvailable s + int i := v)"
  have x: "tp_pStart (sb_tips s p) = sb_pNextAvailable s" "uint (toff s h) = sb_pNextAvailable s - sb_pStart s"
    using busy by (simp_all add: sbm_busy_def)
  have s': "s' = s\<lparr>sb_mem := ?m\<rparr>" by (simp add: s'_def poke_def x)
  have "int i < uint (tlen s h)" using i by (simp only: uint_nat of_nat_less_iff)
  then have m: "\<forall>a. a < sb_pNextAvailable s \<or> sb_pNextAvailable s + uint (tlen s h) \<le> a \<longrightarrow> ?m a = sb_mem s a" by auto
  note w = busy_write [OF busy m, folded s']
  show "sbm_busy p h s'" "others h s' = others h s" "ttype s' h = ttype s h" "sb_pStart s' = sb_pStart s"
    "Header_memSize s' = Header_memSize s" using w by (simp_all add: s')
  show "contents s' h = (contents s h)[i := v]"
    using i w by (intro contents_poke) (simp_all add: s' x)
qed

lemma data_write:
  fixes s m
  assumes ok: "sbm_ok s" and m: "\<forall>a. a < sb_pStart s + 12 \<or> sb_pNextAvailable s \<le> a \<longrightarrow> m a = sb_mem s a"
  defines "s' \<equiv> s\<lparr>sb_mem := m\<rparr>"
  shows "sbm_ok s'" "sb_pStart s' = sb_pStart s" "Header_memSize s' = Header_memSize s" "live s' = live s"
    "in_table s k \<Longrightarrow> tlen s' k = tlen s k \<and> toff s' k = toff s k \<and> ttype s' k = ttype s k"
proof -
  have lay: "sbm_layout s" and data: "sbm_data (live s) (sb_pNextAvailable s - sb_pStart s) s"
    using ok by (simp_all add: sbm_ok_def)
  have tab: "sbm_table s" using layout_table [OF lay] .
  have N: "sb_pNextAvailable s \<le> sb_pTransOffsets s" "sb_pStart s + 12 \<le> sb_pNextAvailable s"
    using lay uint_ge_0 [of "Header_bytesRemaining s"] unfolding sbm_layout_def by linarith+
  have f: "sb_pStart s' = sb_pStart s" "sb_pNextAvailable s' = sb_pNextAvailable s" "sb_pTransOffsets s' = sb_pTransOffsets s"
    "sb_bInitialized s' = sb_bInitialized s" "sb_bTransactionInProcess s' = sb_bTransactionInProcess s" "sb_mem s' = m"
    by (simp_all add: s'_def)
  have hd: "Header_memSize s' = Header_memSize s" "Header_bytesRemaining s' = Header_bytesRemaining s"
    "Header_transAllocated s' = Header_transAllocated s"
    using header_cong [of s' s] m f by auto
  show "sb_pStart s' = sb_pStart s" "Header_memSize s' = Header_memSize s" by (rule f(1), rule hd(1))
  have in': "in_table s' k = in_table s k" for k by (simp add: in_table_def hd)
  show e: "tlen s' k = tlen s k \<and> toff s' k = toff s k \<and> ttype s' k = ttype s k" if "in_table s k" for k
    using entry_cong [of s' s k] entry_above [OF tab that] N hd f m by auto
  show live': "live s' = live s" using e by (auto simp: live_def in' fun_eq_iff)
  have "sbm_data (live s) (sb_pNextAvailable s - sb_pStart s) s'"
    using data data_cong [of "live s" s' s] e by (simp add: live_def)
  then show "sbm_ok s'" using ok by (simp add: sbm_ok_def sbm_layout_def f hd live')
qed

lemma poke_live:
  fixes h s i v
  assumes ok: "sbm_ok s" and h: "live s h" and i: "i < unat (tlen s h)"
  defines "s' \<equiv> poke (SBM_getMemPointer h SBM_FIRST s + int i) v s"
  shows "sbm_ok s'" "sbm_abs s' = (sbm_abs s)(h \<mapsto> (ttype s h, (contents s h)[i := v]))"
    "sb_pStart s' = sb_pStart s" "Header_memSize s' = Header_memSize s"
proof -
  have init: "sb_bInitialized s" and data: "sbm_data (live s) (sb_pNextAvailable s - sb_pStart s) s"
    using ok by (simp_all add: sbm_ok_def sbm_layout_def)
  let ?a = "sb_pStart s + uint (toff s h) + int i"
  have s': "s' = s\<lparr>sb_mem := (sb_mem s)(?a := v)\<rparr>"
    using init by (simp add: s'_def poke_def SBM_getMemPointer_def toff_def)
  have i': "int i < uint (tlen s h)" using i by (simp only: uint_nat of_nat_less_iff)
  have w: "within (sb_pNextAvailable s - sb_pStart s) s h" using data h by (simp add: sbm_data_def)
  have a: "sb_pStart s + 12 \<le> ?a" "?a < sb_pNextAvailable s" using w i' unfolding within_def by linarith+
  then have "\<forall>b. b < sb_pStart s + 12 \<or> sb_pNextAvailable s \<le> b \<longrightarrow> ((sb_mem s)(?a := v)) b = sb_mem s b" by auto
  note d = data_write [OF ok this, folded s']
  show "sbm_ok s'" "sb_pStart s' = sb_pStart s" "Header_memSize s' = Header_memSize s" by (fact d(1-3))+
  have e: "tlen s' k = tlen s k" "toff s' k = toff s k" "ttype s' k = ttype s k" if "live s k" for k
    using d(5) [of k] that by (simp_all add: live_def)
  have own: "contents s' h = (contents s h)[i := v]"
    using e [OF h] i d(2) by (intro contents_poke) (simp_all add: s')
  have other: "contents s' k = contents s k" if k: "live s k" "k \<noteq> h" for k
  proof -
    have apart: "trans_apart s h k" using data h k by (simp add: sbm_data_def)
    have "sb_pStart s + uint (toff s k) + int j \<noteq> ?a" if "j < unat (tlen s k)" for j
    proof -
      have "int j < uint (tlen s k)" using that by (simp only: uint_nat of_nat_less_iff)
      then show ?thesis using apart i' unfolding trans_apart_def by linarith
    qed
    then show ?thesis using e [OF k(1)] d(2) by (simp add: contents_def s' cong: map_cong)
  qed
  show "sbm_abs s' = (sbm_abs s)(h \<mapsto> (ttype s h, (contents s h)[i := v]))"
    using own other e h by (auto simp: fun_eq_iff sbm_abs_def d(4))
qed

text \<open>What is allocated comes behind what the transaction has already.\<close>

lemma grown_contents:
  fixes p h s n
  assumes busy: "sbm_busy p h s" and n: "n \<le> tp_bytesRemaining (sb_tips s p)"
  shows "take (unat (tlen s h)) (contents (grown p n s) h) = contents s h"
    "length (contents (grown p n s) h) = unat (tlen s h) + unat n"
proof -
  note g = grown_busy [OF busy n]
  have "int (unat (tlen (grown p n s) h)) = int (unat (tlen s h) + unat n)"
    using g(3) by (simp only: uint_nat of_nat_add)
  then show len: "length (contents (grown p n s) h) = unat (tlen s h) + unat n"
    by (simp only: length_contents of_nat_eq_iff)
  have off: "uint (toff (grown p n s) h) = uint (toff s h)" "uint (toff s h) = sb_pNextAvailable s - sb_pStart s"
    using busy g(1,6,7) by (simp_all add: sbm_busy_def)
  show "take (unat (tlen s h)) (contents (grown p n s) h) = contents s h"
  proof (rule nth_equalityI)
    show "length (take (unat (tlen s h)) (contents (grown p n s) h)) = length (contents s h)" using len by simp
    fix i assume "i < length (take (unat (tlen s h)) (contents (grown p n s) h))"
    then have i: "i < unat (tlen s h)" "i < unat (tlen (grown p n s) h)" by simp_all
    have "int i < uint (tlen s h)" using i(1) by (simp only: uint_nat of_nat_less_iff)
    then have "sb_pNextAvailable s + int i < trans_ptr h s" using busy_entry_above(1) [OF busy] by linarith
    then show "take (unat (tlen s h)) (contents (grown p n s) h) ! i = contents s h ! i"
      using i g(7,8) off by (simp add: contents_def)
  qed
qed


text \<open>A string is copied with its terminator to memory that is large enough.\<close>

lemma align4_le:
  assumes "uint m \<le> 4294967292"
  shows "uint m \<le> uint (align4 m)"
proof (cases "m mod 4 = 0")
  case False
  have m: "uint (m mod 4) = uint m mod 4" by (simp add: uint_mod_distrib)
  have "uint (m mod 4) \<noteq> 0" using False by (simp only: uint_0_iff not_False_eq_True)
  then have r: "uint m mod 4 \<noteq> 0" unfolding m .
  have "uint (4 - m mod 4) = 4 - uint m mod 4"
    using m by (simp add: uint_sub_if' word_le_def)
  moreover have "uint m + (4 - uint m mod 4) < 4294967296" using assms r by presburger
  ultimately have "uint (m + (4 - m mod 4)) = uint m + (4 - uint m mod 4)"
    by (simp add: uint_word_ariths(1))
  moreover have "0 \<le> 4 - uint m mod 4" by presburger
  ultimately show ?thesis using False by (simp add: align4_def)
qed (simp add: align4_def)

lemma stringCopy_run:
  fixes p h s xs
  assumes busy: "sbm_busy p h s" and len: "length xs < 4294967292"
  defines "n \<equiv> align4 (of_nat (length xs + 1))"
  defines "s' \<equiv> exec (SBM_allocStringCopy p (Some xs)) s"
  shows "n > tp_bytesRemaining (sb_tips s p) \<Longrightarrow> s' = s"
    and "n \<le> tp_bytesRemaining (sb_tips s p) \<Longrightarrow> sbm_busy p h s' \<and> others h s' = others h s \<and> ttype s' h = ttype s h \<and>
      length (contents s' h) = unat (tlen s h) + unat n \<and>
      take (unat (tlen s h) + length xs + 1) (contents s' h) = contents s h @ xs @ [0] \<and>
      sb_pStart s' = sb_pStart s \<and> Header_memSize s' = Header_memSize s"
proof -
  have x: "tp_pNextAlloc (sb_tips s p) = sb_pNextAvailable s + uint (tlen s h)" "sb_bTransactionInProcess s" "sb_bInitialized s"
    using busy by (simp_all add: sbm_busy_def sbm_layout_def)
  show "s' = s" if "n > tp_bytesRemaining (sb_tips s p)"
    using that x by (simp add: s'_def SBM_allocStringCopy_def sbm_run Let_def n_def)
  assume fits: "n \<le> tp_bytesRemaining (sb_tips s p)"
  define g where "g = grown p n s"
  note gb = grown_busy [OF busy fits, folded g_def] and gc = grown_contents [OF busy fits, folded g_def]
  let ?a = "sb_pNextAvailable s + uint (tlen s h)"
  define m where "m = (\<lambda>i. if ?a \<le> i \<and> i \<le> ?a + int (length xs) then (xs @ [0]) ! nat (i - ?a) else sb_mem g i)"
  have s': "s' = g\<lparr>sb_mem := m\<rparr>"
    using fits x busy
    by (simp add: s'_def SBM_allocStringCopy_def sbm_run Let_def n_def g_def grown_def tip_advance_def store_string_def m_def
        sbm_busy_def Transaction_transLen_def cong: if_cong)
  have "uint (of_nat (length xs + 1) :: u32) = int (length xs + 1)"
    using len by (simp only: unsigned_of_nat take_bit_eq_mod) simp
  then have n: "int (length xs) + 1 \<le> uint n" using align4_le [of "of_nat (length xs + 1)"] len by (simp add: n_def del: of_nat_Suc)
  have "\<forall>a. a < sb_pNextAvailable g \<or> sb_pNextAvailable g + uint (tlen g h) \<le> a \<longrightarrow> m a = sb_mem g a"
  proof (intro allI impI)
    fix a assume "a < sb_pNextAvailable g \<or> sb_pNextAvailable g + uint (tlen g h) \<le> a"
    then have "\<not> (?a \<le> a \<and> a \<le> ?a + int (length xs))"
      using n uint_ge_0 [of "tlen s h"] unfolding gb(3,6) by (intro notI, elim disjE conjE) linarith+
    then show "m a = sb_mem g a" unfolding m_def by (rule if_not_P)
  qed
  note w = busy_write [OF gb(1) this, folded s']
  have off: "uint (toff s h) = sb_pNextAvailable s - sb_pStart s" "toff s' h = toff g h" "uint (toff g h) = uint (toff s h)"
    using busy gb(1,6,7) w by (simp_all add: sbm_busy_def)
  have len': "length (contents s' h) = unat (tlen s h) + unat n" using gc(2) w by simp
  have n': "length xs + 1 \<le> unat n" using n by (simp only: uint_nat)
  have "take (unat (tlen s h) + length xs + 1) (contents s' h) = contents s h @ xs @ [0]"
  proof (rule nth_equalityI)
    show "length (take (unat (tlen s h) + length xs + 1) (contents s' h)) = length (contents s h @ xs @ [0])"
      using len' n' by simp
    fix i assume "i < length (take (unat (tlen s h) + length xs + 1) (contents s' h))"
    then have i: "i < unat (tlen s h) + length xs + 1" "i < unat (tlen g h)" using w by simp_all
    have e: "take (unat (tlen s h) + length xs + 1) (contents s' h) ! i = m (sb_pNextAvailable s + int i)"
      using i w off gb(7) by (simp add: contents_def s')
    show "take (unat (tlen s h) + length xs + 1) (contents s' h) ! i = (contents s h @ xs @ [0]) ! i"
    proof (cases "i < unat (tlen s h)")
      case True
      then have "int i < uint (tlen s h)" by (simp only: uint_nat of_nat_less_iff)
      then have "m (sb_pNextAvailable s + int i) = sb_mem s (sb_pNextAvailable s + int i)"
        using gb(8) busy_entry_above(1) [OF busy] by (simp add: m_def)
      then show ?thesis using True off by (simp only: e) (simp add: contents_def nth_append)
    next
      case False
      define j where "j = i - unat (tlen s h)"
      then have j: "i = unat (tlen s h) + j" "j \<le> length xs" using i(1) False by simp_all
      then have "sb_pNextAvailable s + int i = ?a + int j" by (simp only: uint_nat of_nat_add)
      then have "m (sb_pNextAvailable s + int i) = (xs @ [0]) ! j" using j(2) by (simp add: m_def)
      also have "\<dots> = (contents s h @ xs @ [0]) ! i" using j by (simp add: nth_append)
      finally show ?thesis unfolding e .
    qed
  qed
  then show "sbm_busy p h s' \<and> others h s' = others h s \<and> ttype s' h = ttype s h \<and>
      length (contents s' h) = unat (tlen s h) + unat n \<and>
      take (unat (tlen s h) + length xs + 1) (contents s' h) = contents s h @ xs @ [0] \<and>
      sb_pStart s' = sb_pStart s \<and> Header_memSize s' = Header_memSize s"
    using w gb len' by (simp add: s')
qed


section \<open>Refinement of a store\<close>

text \<open>A store: what is in it by handle, with types, and the transaction in process.\<close>

type_synonym store = "(u32 \<Rightarrow> (u32 \<times> u8 list) option) \<times> (u32 \<times> u32 \<times> u8 list) option"

inductive store_step :: "store \<Rightarrow> store \<Rightarrow> bool" where
  refuse: "store_step c c"
| begins: "A h = None \<Longrightarrow> store_step (A, None) (A, Some (h, ty, []))"
| extend: "take (length xs) ys = xs \<Longrightarrow> length xs \<le> length ys \<Longrightarrow> store_step (A, Some (h, ty, xs)) (A, Some (h, ty, ys))"
| writes: "i < length xs \<Longrightarrow> store_step (A, Some (h, ty, xs)) (A, Some (h, ty, xs[i := v]))"
| commit: "store_step (A, Some (h, ty, xs)) (A(h \<mapsto> (ty, xs)), None)"
| abandon: "store_step (A, Some (h, ty, xs)) (A, None)"
| update: "A h = Some (ty, xs) \<Longrightarrow> i < length xs \<Longrightarrow> store_step (A, None) (A(h \<mapsto> (ty, xs[i := v])), None)"
| remove: "A h = Some (ty, xs) \<Longrightarrow> store_step (A, None) (A(h := None), None)"

text \<open>A block and the transaction that the client has in process on it.\<close>

definition sbm_store :: "'a sbm_scheme \<Rightarrow> (ptr \<times> u32) option \<Rightarrow> store" where
  "sbm_store s c = (case c of None \<Rightarrow> (sbm_abs s, None)
     | Some (p, h) \<Rightarrow> (others h s, Some (h, ttype s h, contents s h)))"

definition sbm_inv :: "'a sbm_scheme \<Rightarrow> (ptr \<times> u32) option \<Rightarrow> bool" where
  "sbm_inv s c \<longleftrightarrow> (case c of None \<Rightarrow> sbm_ok s | Some (p, h) \<Rightarrow> sbm_busy p h s)"

text \<open>
  The steps of a client. It frees what is in the block, and where not too much lies behind it for
  the count of octets to move; it writes to what it has allocated.
\<close>

inductive sbm_step :: "'a sbm_scheme \<times> (ptr \<times> u32) option \<Rightarrow> 'a sbm_scheme \<times> (ptr \<times> u32) option \<Rightarrow> bool" where
  beginTrans: "result (SBM_beginTrans ty) s = Inr (p, h) \<Longrightarrow> sbm_step (s, None) (exec (SBM_beginTrans ty) s, Some (p, h))"
| beginTrans_fails: "result (SBM_beginTrans ty) s = Inl e \<Longrightarrow> sbm_step (s, c) (exec (SBM_beginTrans ty) s, c)"
| alloc: "sbm_step (s, Some (p, h)) (exec (SBM_alloc p n) s, Some (p, h))"
| stringCopy: "length xs < 4294967292 \<Longrightarrow>
    sbm_step (s, Some (p, h)) (exec (SBM_allocStringCopy p (Some xs)) s, Some (p, h))"
| poke_trans: "i < unat (tlen s h) \<Longrightarrow>
    sbm_step (s, Some (p, h)) (poke (tp_pStart (sb_tips s p) + int i) v s, Some (p, h))"
| endTrans: "sbm_step (s, Some (p, h)) (exec (SBM_endTrans p) s, None)"
| abortTrans: "sbm_step (s, Some (p, h)) (exec (SBM_abortTrans p) s, None)"
| freeTrans: "live s h \<Longrightarrow> sb_pTransOffsets s - (sb_pStart s + uint (toff s h) + uint (tlen s h)) < 65536 \<Longrightarrow>
    sbm_step (s, None) (exec (SBM_freeTrans h) s, None)"
| freeTrans_busy: "sbm_step (s, Some (p, h)) (exec (SBM_freeTrans k) s, Some (p, h))"
| poke_block: "live s h \<Longrightarrow> i < unat (tlen s h) \<Longrightarrow>
    sbm_step (s, None) (poke (SBM_getMemPointer h SBM_FIRST s + int i) v s, None)"
| stop: "(\<forall>p h. c = Some (p, h) \<longrightarrow> \<not> in_table s h) \<Longrightarrow> sb_bInitialized s0 \<Longrightarrow>
    \<forall>i. 0 \<le> i \<longrightarrow> i < uint (Header_memSize s) \<longrightarrow> sb_mem s0 (a + i) = sb_mem s (sb_pStart s + i) \<Longrightarrow> sbm_step (s, c) (exec (SBM_open a 0) s0, None)"

text \<open>Where a transaction is in process, nothing else is begun or freed.\<close>

lemma busy_refused:
  assumes "sbm_busy p h s"
  shows "result (SBM_beginTrans ty) s = Inl SBM_RC_TransactionInProcess" "exec (SBM_beginTrans ty) s = s"
    "result (SBM_freeTrans k) s = Inl SBM_RC_TransactionInProcess" "exec (SBM_freeTrans k) s = s"
  using assms by (simp_all add: SBM_beginTrans_def SBM_freeTrans_def sbm_run sbm_busy_def sbm_layout_def)

lemma allocs_same:
  "sbm_ok (s\<lparr>sb_allocs := n\<rparr>) = sbm_ok s" "sbm_abs (s\<lparr>sb_allocs := n\<rparr>) = sbm_abs s"
  by (simp_all add: sbm_ok_def sbm_layout_def sbm_data_def sbm_abs_def live_def in_table_def within_def trans_apart_def
      contents_def entry_defs trans_ptr_def header_defs fun_eq_iff)

lemma sbm_step_refines:
  assumes "sbm_step (s, c) (s', c')" and "sbm_inv s c"
  shows "sbm_inv s' c' \<and> store_step (sbm_store s c) (sbm_store s' c')"
  using assms
proof (cases rule: sbm_step.cases)
  case (beginTrans ty p h)
  then have ok: "sbm_ok s" using assms(2) by (simp add: sbm_inv_def)
  note b = beginTrans_busy [OF ok beginTrans(4)]
  have "contents s' h = []" using b(2) beginTrans by (simp add: contents_def)
  then show ?thesis using b beginTrans store_step.begins [of "sbm_abs s" h]
    by (simp add: sbm_inv_def sbm_store_def)
next
  case (beginTrans_fails ty e)
  show ?thesis
  proof (cases c)
    case None
    then have ok: "sbm_ok s" using assms(2) by (simp add: sbm_inv_def)
    obtain n where "s' = s\<lparr>sb_allocs := n\<rparr>" using beginTrans_run(2) [OF ok beginTrans_fails(3)] beginTrans_fails by auto
    then show ?thesis using None ok beginTrans_fails store_step.refuse
      by (simp add: sbm_inv_def sbm_store_def allocs_same)
  next
    case (Some x)
    then obtain p h where "sbm_busy p h s" using assms(2) by (cases x) (auto simp: sbm_inv_def)
    then show ?thesis using busy_refused(2) [of p h s ty] assms(2) beginTrans_fails store_step.refuse by simp
  qed
next
  case (alloc p h n)
  then have busy: "sbm_busy p h s" using assms(2) by (simp add: sbm_inv_def)
  show ?thesis
  proof (cases "align4 n \<le> tp_bytesRemaining (sb_tips s p)")
    case True
    note g = grown_busy [OF busy True] and c = grown_contents [OF busy True]
    have "s' = grown p (align4 n) s" using SBM_alloc_run(2) [OF busy] True alloc by simp
    then show ?thesis using alloc g c
      by (simp add: sbm_inv_def sbm_store_def) (auto intro!: store_step.extend)
  next
    case False
    then have "s' = s" using SBM_alloc_run(2) [OF busy] alloc by simp
    then show ?thesis using alloc assms(2) store_step.refuse by simp
  qed
next
  case (stringCopy xs p h)
  then have busy: "sbm_busy p h s" using assms(2) by (simp add: sbm_inv_def)
  show ?thesis
  proof (cases "align4 (of_nat (length xs + 1)) > tp_bytesRemaining (sb_tips s p)")
    case True
    then show ?thesis using stringCopy stringCopy_run(1) [OF busy stringCopy(4)] assms(2) store_step.refuse by simp
  next
    case False
    then have "align4 (of_nat (length xs + 1)) \<le> tp_bytesRemaining (sb_tips s p)" by simp
    note c = stringCopy_run(2) [OF busy stringCopy(4) this, folded stringCopy(2)]
    have "take (length (contents s h)) (contents s' h) =
        take (length (contents s h)) (take (unat (tlen s h) + length xs + 1) (contents s' h))" by simp
    also have "\<dots> = contents s h" using c by simp
    finally show ?thesis using stringCopy c
      by (simp add: sbm_inv_def sbm_store_def) (auto intro!: store_step.extend)
  qed
next
  case (poke_trans i h p v)
  then have "sbm_busy p h s" using assms(2) by (simp add: sbm_inv_def)
  note b = poke_busy [OF this poke_trans(4), where v = v]
  show ?thesis using poke_trans b
    by (simp add: sbm_inv_def sbm_store_def) (auto intro!: store_step.writes)
next
  case (endTrans p h)
  then have "sbm_busy p h s" using assms(2) by (simp add: sbm_inv_def)
  from endTrans_abs [OF this] show ?thesis using endTrans
    by (simp add: sbm_inv_def sbm_store_def) (rule store_step.commit)
next
  case (abortTrans p h)
  then have "sbm_busy p h s" using assms(2) by (simp add: sbm_inv_def)
  from abortTrans_abs [OF this] show ?thesis using abortTrans
    by (simp add: sbm_inv_def sbm_store_def) (rule store_step.abandon)
next
  case (freeTrans h)
  then have ok: "sbm_ok s" using assms(2) by (simp add: sbm_inv_def)
  have "sbm_abs s h = Some (ttype s h, contents s h)" using freeTrans by (simp add: sbm_abs_def)
  then show ?thesis using freeTrans freeTrans_abs(2,3) [OF ok freeTrans(4,5)]
    by (simp add: sbm_inv_def sbm_store_def) (erule store_step.remove)
next
  case (freeTrans_busy p h k)
  then have "sbm_busy p h s" using assms(2) by (simp add: sbm_inv_def)
  then show ?thesis using busy_refused(4) [of p h s k] freeTrans_busy assms(2) store_step.refuse by simp
next
  case (poke_block h i v)
  then have ok: "sbm_ok s" using assms(2) by (simp add: sbm_inv_def)
  have "sbm_abs s h = Some (ttype s h, contents s h)" using poke_block by (simp add: sbm_abs_def)
  then show ?thesis using poke_block poke_live [OF ok poke_block(4,5), where v = v]
    by (simp add: sbm_inv_def sbm_store_def) (auto intro!: store_step.update)
next
  case (stop s0 a)
  note r = open_recovers [OF stop(4,5)]
  show ?thesis
  proof (cases c)
    case None
    then show ?thesis using stop r(1) assms(2) store_step.refuse by (simp add: sbm_inv_def sbm_store_def)
  next
    case (Some x)
    then obtain p h where x: "c = Some (p, h)" by (cases x) auto
    then show ?thesis using stop r(2) [of p h] assms(2) store_step.abandon
      by (simp add: sbm_inv_def sbm_store_def)
  qed
qed


text \<open>The block stays where it is, and of its size.\<close>

text \<open>The search by type finds the transaction of that type with the next handle.\<close>

definition next_of_type :: "'a sbm_scheme \<Rightarrow> u8 \<Rightarrow> int \<Rightarrow> u32 \<Rightarrow> bool" where
  "next_of_type s ty from h \<longleftrightarrow> live s h \<and> ttype s h = ucast ty \<and> from < uint h \<and>
     (\<forall>k. live s k \<and> ttype s k = ucast ty \<and> from < uint k \<longrightarrow> uint h \<le> uint k)"

lemma entry_at:
  assumes "sbm_table s" and "1 \<le> i" and "i \<le> unat (Header_transAllocated s)"
  shows "sb_pTransOffsets s + 12 * (uint (Header_transAllocated s) - int i) = trans_ptr (of_nat i) s"
    "in_table s (of_nat i)" "uint (of_nat i :: u32) = int i"
proof -
  have "int i \<le> uint (Header_transAllocated s)" using assms(3) by (simp only: uint_nat of_nat_le_iff)
  moreover have "uint (Header_transAllocated s) < 4294967296" using uint_lt2p [of "Header_transAllocated s"] by simp
  ultimately show u: "uint (of_nat i :: u32) = int i" by (simp only: unsigned_of_nat take_bit_eq_mod) simp
  then show "sb_pTransOffsets s + 12 * (uint (Header_transAllocated s) - int i) = trans_ptr (of_nat i) s"
    using assms(1) by (simp add: trans_ptr_def sbm_table_def)
  show "in_table s (of_nat i)" using u assms(2) \<open>int i \<le> _\<close> by (simp add: in_table_uint)
qed

lemma run_search:
  "result (do { found \<leftarrow> gets g; case found of None \<Rightarrow> FAIL_RC e | Some i \<Rightarrow> ok (F i) }) s =
    (case g s of None \<Rightarrow> Inl e | Some i \<Rightarrow> Inr (F i))"
  "exec (do { found \<leftarrow> gets g; case found of None \<Rightarrow> FAIL_RC e | Some i \<Rightarrow> ok (F i) }) s = s"
  by (simp_all add: sbm_run split: option.split)

lemma nextTrans_run:
  fixes s ty prev
  assumes ok: "sbm_ok s" and prev: "prev = SBM_FIRST \<or> uint prev < 65535"
  defines "from \<equiv> (if prev = SBM_FIRST then 0 else uint prev)"
  shows "result (SBM_nextTrans ty prev) s = Inr h \<longleftrightarrow> next_of_type s ty from h" "exec (SBM_nextTrans ty prev) s = s"
proof -
  have tab: "sbm_table s" and init: "sb_bInitialized s"
    using ok layout_table [of s] by (simp_all add: sbm_ok_def sbm_layout_def)
  define j where "j = nat from + 1"
  have "prev \<noteq> SBM_FIRST \<Longrightarrow> unat prev + 1 < 65536" using prev by (simp add: uint_nat del: of_nat_unat nat_uint_eq)
  then have off: "(if prev = SBM_FIRST then 1 else u16 (unat prev + 1)) = j"
    by (auto simp: j_def from_def u16_def uint_nat simp del: of_nat_unat nat_uint_eq)
  define P where "P i \<longleftrightarrow> tlen s (of_nat i) \<noteq> 0xffffffff \<and> ttype s (of_nat i) = ucast ty" for i
  let ?n = "unat (Header_transAllocated s)"
  have f: "find (\<lambda>i. let p = sb_pTransOffsets s + 12 * (uint (Header_transAllocated s) - int i) in
      Transaction_transLen s p \<noteq> 0xffffffff \<and> Transaction_transactionType s p = ucast ty) [j..<?n + 1] = find P [j..<?n + 1]"
  proof (rule find_cong [OF refl])
    fix x assume "x \<in> set [j..<?n + 1]"
    then have "1 \<le> x" "x \<le> ?n" by (auto simp: j_def)
    from entry_at(1) [OF tab this]
    show "(let p = sb_pTransOffsets s + 12 * (uint (Header_transAllocated s) - int x) in
      Transaction_transLen s p \<noteq> 0xffffffff \<and> Transaction_transactionType s p = ucast ty) = P x"
      by (simp only: Let_def P_def tlen_def ttype_def)
  qed
  show "exec (SBM_nextTrans ty prev) s = s" 
    unfolding SBM_nextTrans_def off run_IF_INIT(1) [OF init] Let_def run_search by (rule refl)
  have r: "result (SBM_nextTrans ty prev) s = (case find P [j..<?n + 1] of None \<Rightarrow> Inl Fail | Some i \<Rightarrow> Inr (of_nat i))"
    unfolding SBM_nextTrans_def off run_IF_INIT(2) [OF init] Let_def run_search f [unfolded Let_def] by (rule refl)
  have e: "uint (of_nat i :: u32) = int i" "in_table s (of_nat i)" if "j \<le> i" "i \<le> ?n" for i
    using entry_at(2,3) [OF tab, of i] that by (auto simp: j_def)
  have id: "of_nat (unat k) = k" for k :: u32 by simp
  have l: "live s k \<and> ttype s k = ucast ty \<and> from < uint k \<longleftrightarrow> j \<le> unat k \<and> unat k \<le> ?n \<and> P (unat k)" for k
    by (auto simp: live_def in_table_uint P_def j_def uint_nat from_def id simp del: of_nat_unat nat_uint_eq)
  show "result (SBM_nextTrans ty prev) s = Inr h \<longleftrightarrow> next_of_type s ty from h"
  proof
    assume "result (SBM_nextTrans ty prev) s = Inr h"
    then obtain i where i: "find P [j..<?n + 1] = Some i" "h = of_nat i" unfolding r by (auto split: option.splits)
    then obtain m where m: "m < length [j..<?n + 1]" "i = [j..<?n + 1] ! m" "P i" "\<And>x. x < m \<Longrightarrow> \<not> P ([j..<?n + 1] ! x)"
      by (auto simp: find_Some_iff)
    then have ij: "i = j + m" "j \<le> i" "i \<le> ?n" by (auto simp: nth_append simp del: upt_Suc)
    then have u: "unat h = i" using e(1) [OF ij(2,3)] unfolding i(2) uint_nat of_nat_eq_iff by blast
    have "uint h \<le> uint k" if "live s k \<and> ttype s k = ucast ty \<and> from < uint k" for k
    proof (rule ccontr)
      assume "\<not> uint h \<le> uint k"
      then have "unat k < i" using u by (simp add: uint_nat del: of_nat_unat nat_uint_eq)
      moreover have "j \<le> unat k" "P (unat k)" using that l [of k] by blast+
      ultimately have "unat k - j < m" "[j..<?n + 1] ! (unat k - j) = unat k" using ij by (simp_all del: upt_Suc)
      then show False using m(4) [of "unat k - j"] \<open>P (unat k)\<close> by simp
    qed
    then show "next_of_type s ty from h" unfolding next_of_type_def using l [of h] u m(3) ij by auto
  next
    assume n: "next_of_type s ty from h"
    then have h: "j \<le> unat h" "unat h \<le> ?n" "P (unat h)" using l [of h] by (auto simp: next_of_type_def)
    have "find P [j..<?n + 1] = Some (unat h)"
      unfolding find_Some_iff
    proof (intro exI conjI allI impI)
      show "unat h - j < length [j..<?n + 1]" "P ([j..<?n + 1] ! (unat h - j))" "unat h = [j..<?n + 1] ! (unat h - j)"
        using h by (simp_all del: upt_Suc)
      fix x assume x: "x < unat h - j"
      show "\<not> P ([j..<?n + 1] ! x)"
      proof
        assume "P ([j..<?n + 1] ! x)"
        then have "P (j + x)" using x h by (simp del: upt_Suc)
        moreover have "j + x \<le> ?n" using x h by simp
        moreover obtain k :: u32 where k: "unat k = j + x"
          using e(1) [of "j + x"] \<open>j + x \<le> ?n\<close> unfolding uint_nat of_nat_eq_iff by auto
        ultimately have "live s k \<and> ttype s k = ucast ty \<and> from < uint k" using l [of k] by simp
        then have "unat h \<le> j + x" using n unfolding next_of_type_def uint_nat of_nat_le_iff k [symmetric] by blast
        then show False using x h by simp
      qed
    qed
    then show "result (SBM_nextTrans ty prev) s = Inr h" unfolding r by simp
  qed
qed

lemma sbm_op_same:
  assumes "sbm_inv s c"
  shows "c = None \<Longrightarrow> result (SBM_beginTrans ty) s = Inr (p, h) \<Longrightarrow>
      sb_pStart (exec (SBM_beginTrans ty) s) = sb_pStart s \<and> Header_memSize (exec (SBM_beginTrans ty) s) = Header_memSize s"
    "c = Some (p, h) \<Longrightarrow> sb_pStart (exec (SBM_alloc p n) s) = sb_pStart s \<and>
      Header_memSize (exec (SBM_alloc p n) s) = Header_memSize s"
    "c = Some (p, h) \<Longrightarrow> length xs < 4294967292 \<Longrightarrow> sb_pStart (exec (SBM_allocStringCopy p (Some xs)) s) = sb_pStart s \<and>
      Header_memSize (exec (SBM_allocStringCopy p (Some xs)) s) = Header_memSize s"
    "c = Some (p, h) \<Longrightarrow> sb_pStart (exec (SBM_endTrans p) s) = sb_pStart s \<and>
      Header_memSize (exec (SBM_endTrans p) s) = Header_memSize s"
    "c = Some (p, h) \<Longrightarrow> sb_pStart (exec (SBM_abortTrans p) s) = sb_pStart s \<and>
      Header_memSize (exec (SBM_abortTrans p) s) = Header_memSize s"
proof -
  show "sb_pStart (exec (SBM_beginTrans ty) s) = sb_pStart s \<and> Header_memSize (exec (SBM_beginTrans ty) s) = Header_memSize s"
    if "c = None" "result (SBM_beginTrans ty) s = Inr (p, h)"
    using beginTrans_busy(7,9) [of s ty p h] that assms by (simp add: sbm_inv_def)
  assume "c = Some (p, h)"
  then have busy: "sbm_busy p h s" using assms by (simp add: sbm_inv_def)
  show "sb_pStart (exec (SBM_alloc p n) s) = sb_pStart s \<and> Header_memSize (exec (SBM_alloc p n) s) = Header_memSize s"
    using SBM_alloc_run(2) [OF busy, of n] grown_busy(7,10) [OF busy, of "align4 n"] by simp
  show "sb_pStart (exec (SBM_allocStringCopy p (Some xs)) s) = sb_pStart s \<and>
      Header_memSize (exec (SBM_allocStringCopy p (Some xs)) s) = Header_memSize s" if "length xs < 4294967292"
    using stringCopy_run [OF busy that] by (cases "align4 (of_nat (length xs + 1)) > tp_bytesRemaining (sb_tips s p)") simp_all
  show "sb_pStart (exec (SBM_endTrans p) s) = sb_pStart s \<and> Header_memSize (exec (SBM_endTrans p) s) = Header_memSize s"
    using endTrans_run(2,7) [OF busy] by simp
  show "sb_pStart (exec (SBM_abortTrans p) s) = sb_pStart s \<and> Header_memSize (exec (SBM_abortTrans p) s) = Header_memSize s"
    using abortTrans_abs(4,5) [OF busy] by simp
qed

end
