(* ===== verification/Nvm_Run.thy ===== *)
theory Nvm_Run
  imports Nvm Sbm_Run
begin

text \<open>
  What the file of a non-volatile memory holds: the block as it was when a transaction last ended or
  was freed. A program that stops anywhere and opens the file again finds just that.
\<close>

lemma run_on_sbm:
  "exec (on_sbm m) s = s\<lparr>nv_sbm := exec m (nv_sbm s)\<rparr>" "result (on_sbm m) s = result m (nv_sbm s)"
  by (simp_all add: on_sbm_def run_simps)

lemma run_IF_NVM:
  "nv_bInitialized s \<Longrightarrow> exec (IF_NVM m) s = exec m s" "nv_bInitialized s \<Longrightarrow> result (IF_NVM m) s = result m s"
  by (simp_all add: IF_NVM_def run_simps)

lemmas nvm_run_simps = run_simps run_RC_sbm run_on_sbm run_IF_NVM


section \<open>Files that hold a block\<close>

text \<open>The file holds a block between transactions that stands for \<open>A\<close>.\<close>

definition file_holds :: "nvm \<Rightarrow> string \<Rightarrow> (u32 \<Rightarrow> (u32 \<times> u8 list) option) \<Rightarrow> bool" where
  "file_holds s f A \<longleftrightarrow> (\<exists>xs (t :: sbm). nv_files s f = Some xs \<and> sbm_ok t \<and> sbm_abs t = A \<and>
     uint (Header_memSize t) \<le> int (length xs) \<and> length xs < 4294967296 \<and>
     (\<forall>i < length xs. sb_mem t (sb_pStart t + int i) = xs ! i))"

definition nvm_inv :: "string \<Rightarrow> nvm \<Rightarrow> (ptr \<times> u32) option \<Rightarrow> (u32 \<Rightarrow> (u32 \<times> u8 list) option) \<Rightarrow> bool" where
  "nvm_inv f s c A \<longleftrightarrow> nv_bInitialized s \<and> nv_hFile s = Some f \<and> sbm_inv (nv_sbm s) c \<and>
     sb_pStart (nv_sbm s) = nv_pMem s \<and> uint (Header_memSize (nv_sbm s)) \<le> int (nv_memSize s) \<and>
     nv_memSize s < 4294967296 \<and> (\<exists>xs. nv_files s f = Some xs \<and> length xs = nv_memSize s) \<and> file_holds s f A"

lemma sync_run:
  assumes "nv_hFile s = Some f" and "\<not> nv_writeFails s"
    and "\<exists>xs. nv_files s f = Some xs \<and> length xs \<le> nv_memSize s"
  shows "exec NVM_sync s = s\<lparr>nv_files := (nv_files s)(f \<mapsto> block_octets s)\<rparr>"
  using assms by (auto simp: NVM_sync_def run_simps)

lemma file_holds_sync:
  assumes "nv_files s' f = Some (block_octets s)" and "sbm_ok (nv_sbm s)" and "sb_pStart (nv_sbm s) = nv_pMem s"
    and "uint (Header_memSize (nv_sbm s)) \<le> int (nv_memSize s)" and "nv_memSize s < 4294967296"
  shows "file_holds s' f (sbm_abs (nv_sbm s))"
  unfolding file_holds_def
  by (rule exI [of _ "block_octets s"], rule exI [of _ "nv_sbm s"]) (use assms in \<open>simp add: block_octets_def\<close>)

text \<open>A step in memory only.\<close>

lemma memory_step:
  assumes "nvm_inv f s c A" and "sbm_inv t c'"
    and "sb_pStart t = sb_pStart (nv_sbm s) \<and> Header_memSize t = Header_memSize (nv_sbm s)"
  shows "nvm_inv f (s\<lparr>nv_sbm := t\<rparr>) c' A"
  using assms unfolding nvm_inv_def file_holds_def by simp

text \<open>A step in memory, and the file is written.\<close>

lemma synced_step:
  fixes f s t c A
  assumes inv: "nvm_inv f s c A" and "\<not> nv_writeFails s" and t: "sbm_ok t"
    and same: "sb_pStart t = sb_pStart (nv_sbm s) \<and> Header_memSize t = Header_memSize (nv_sbm s)"
  defines "s' \<equiv> exec NVM_sync (s\<lparr>nv_sbm := t\<rparr>)"
  shows "nvm_inv f s' None (sbm_abs t)" "nv_sbm s' = t"
proof -
  let ?s = "s\<lparr>nv_sbm := t\<rparr>"
  have "\<exists>xs. nv_files s f = Some xs \<and> length xs \<le> nv_memSize s" using inv by (auto simp: nvm_inv_def)
  then have s': "s' = ?s\<lparr>nv_files := (nv_files s)(f \<mapsto> block_octets ?s)\<rparr>"
    using sync_run [of ?s f] inv assms(2) by (simp add: s'_def nvm_inv_def)
  then show "nv_sbm s' = t" by simp
  have "file_holds s' f (sbm_abs (nv_sbm ?s))"
    using inv t same by (intro file_holds_sync) (simp_all add: s' nvm_inv_def)
  then show "nvm_inv f s' None (sbm_abs t)"
    using inv t same by (simp add: nvm_inv_def sbm_inv_def s' block_octets_def)
qed


section \<open>Opening\<close>

definition nvm_ready :: "string \<Rightarrow> nat \<Rightarrow> nvm \<Rightarrow> bool" where
  "nvm_ready f n s \<longleftrightarrow> nv_bInitialized s \<and> sb_bInitialized (nv_sbm s) \<and>
     \<not> sb_allocFail (nv_sbm s) (sb_allocs (nv_sbm s)) \<and> \<not> nv_fopenFails s f \<and> n \<le> nv_readable s \<and> \<not> nv_writeFails s"

lemma open_creates:
  fixes s f n
  assumes ready: "nvm_ready f 0 s" and n: "12 \<le> n"
  defines "s' \<equiv> exec (NVM_open f n) s"
  shows "result (NVM_open f n) s = Inr ()" "nvm_inv f s' None Map.empty" "sbm_abs (nv_sbm s') = Map.empty"
proof -
  define a where "a = nv_place s (sb_allocs (nv_sbm s))"
  define u where "u = (nv_sbm s)\<lparr>sb_allocs := sb_allocs (nv_sbm s) + 1\<rparr>"
  define t where "t = exec (SBM_open a n) u"
  have n0: "n \<noteq> 0" using n by auto
  have o: "result (SBM_open a n) u = Inr ()" "sbm_ok t" "sbm_abs t = Map.empty" "sb_pStart t = a"
    using open_fresh [of u n a] ready n by (simp_all add: nvm_ready_def u_def t_def)
  have size: "uint (Header_memSize t) \<le> int (unat n)"
  proof -
    have "uint (Header_bytesRemaining t) = uint n - uint n mod 4 - 12" "sbm_layout t"
      using open_fresh(5) [of u n a] ready n o(2) by (simp_all add: nvm_ready_def u_def t_def sbm_ok_def)
    have "Header_memSize t = n - n mod 4"
    proof -
      have "n - n mod 4 \<noteq> 0"
      proof
        assume "n - n mod 4 = 0"
        then have "n mod 4 = n" by simp
        moreover have "n mod 4 < 4" by (simp add: word_less_def uint_mod_distrib)
        ultimately show False using n by (simp add: word_less_def word_le_def)
      qed
      then show ?thesis using ready
        by (simp add: t_def u_def nvm_ready_def SBM_open_def sbm_run Let_def header_defs)
    qed
    moreover have "n mod 4 \<le> n" by (simp add: word_le_def uint_mod_distrib zmod_le_nonneg_dividend)
    ultimately have "uint (Header_memSize t) = uint n - uint (n mod 4)" by (simp add: uint_sub_if' word_le_def)
    then show ?thesis using uint_ge_0 [of "n mod 4"] by (simp only: uint_nat)
  qed
  let ?s = "s\<lparr>nv_memSize := unat n, nv_pMem := a, nv_hFile := Some f, nv_files := (nv_files s)(f \<mapsto> []), nv_sbm := t\<rparr>"
  have run: "result (NVM_open f n) s = Inr ()" "s' = exec NVM_sync ?s"
    using ready n0 o(1) by (simp_all add: s'_def NVM_open_def nvm_run_simps nvm_ready_def a_def u_def t_def)
  have s': "s' = ?s\<lparr>nv_files := (nv_files s)(f \<mapsto> block_octets ?s)\<rparr>"
    using sync_run [of ?s f] ready by (simp add: run(2) nvm_ready_def)
  have "unat n < 2 ^ LENGTH(32)" by (rule unsigned_less)
  then have b: "unat n < 4294967296" by simp
  have "file_holds s' f (sbm_abs (nv_sbm ?s))"
    using o size b by (intro file_holds_sync) (simp_all add: s')
  then show "nvm_inv f s' None Map.empty"
    using o size b ready by (simp add: nvm_inv_def sbm_inv_def nvm_ready_def s' block_octets_def)
  show "result (NVM_open f n) s = Inr ()" by (rule run)
  show "sbm_abs (nv_sbm s') = Map.empty" using o by (simp add: s')
qed

lemma read_block_run:
  assumes "nv_files s f = Some xs" and "length xs = nv_memSize s" and "length xs \<le> nv_readable s"
  shows "result (read_block f) s = length xs" "exec (read_block f) s = s\<lparr>nv_sbm := (nv_sbm s)\<lparr>sb_mem := (\<lambda>a.
      if nv_pMem s \<le> a \<and> a < nv_pMem s + int (length xs) then xs ! nat (a - nv_pMem s) else sb_mem (nv_sbm s) a)\<rparr>\<rparr>"
  using assms by (simp_all add: read_block_def run_simps cong: if_cong)

lemma open_restores:
  fixes s f A xs
  assumes ready: "nvm_ready f (length xs) s" and stored: "nv_files s f = Some xs" and holds: "file_holds s f A"
  defines "s' \<equiv> exec (NVM_open f 0) s"
  shows "result (NVM_open f 0) s = Inr ()" "nvm_inv f s' None A" "sbm_abs (nv_sbm s') = A"
proof -
  obtain b :: sbm where b: "sbm_ok b" "sbm_abs b = A" "uint (Header_memSize b) \<le> int (length xs)"
    "length xs < 4294967296" "\<And>i. i < length xs \<Longrightarrow> sb_mem b (sb_pStart b + int i) = xs ! i"
    using holds stored by (auto simp: file_holds_def)
  define a where "a = nv_place s (sb_allocs (nv_sbm s))"
  define u where "u = (nv_sbm s)\<lparr>sb_allocs := sb_allocs (nv_sbm s) + 1, sb_mem := (\<lambda>i.
    if a \<le> i \<and> i < a + int (length xs) then xs ! nat (i - a) else sb_mem (nv_sbm s) i)\<rparr>"
  define t where "t = exec (SBM_open a 0) u"
  have init: "sb_bInitialized u" using ready by (simp add: nvm_ready_def u_def)
  have mem: "\<forall>i. 0 \<le> i \<longrightarrow> i < uint (Header_memSize b) \<longrightarrow> sb_mem u (a + i) = sb_mem b (sb_pStart b + i)"
  proof (intro allI impI)
    fix i assume "0 \<le> i" "i < uint (Header_memSize b)"
    then show "sb_mem u (a + i) = sb_mem b (sb_pStart b + i)" using b(3) b(5) [of "nat i"] by (simp add: u_def)
  qed
  have o: "sbm_ok t \<and> sbm_abs t = A \<and> sb_pStart t = a \<and> Header_memSize t = Header_memSize b"
    using open_recovers(1) [OF init mem b(1)] b(2) by (simp add: t_def)
  have r: "result (SBM_open a 0) u = Inr ()" using init by (simp add: SBM_open_def sbm_run Let_def)
  have len: "unat (of_nat (length xs) :: u32) = length xs" using b(4) by (simp add: unat_of_nat)
  let ?s = "s\<lparr>nv_memSize := length xs, nv_pMem := a, nv_hFile := Some f, nv_sbm := t\<rparr>"
  have run: "result (NVM_open f 0) s = Inr ()" "s' = exec NVM_sync ?s"
    using ready stored len r
    by (simp_all add: s'_def NVM_open_def OS_fileSize_def read_block_run nvm_run_simps nvm_ready_def t_def u_def a_def cong: if_cong)
  have s': "s' = ?s\<lparr>nv_files := (nv_files s)(f \<mapsto> block_octets ?s)\<rparr>"
    using sync_run [of ?s f] ready stored by (simp add: run(2) nvm_ready_def)
  have "file_holds s' f (sbm_abs (nv_sbm ?s))"
    using o b by (intro file_holds_sync) (simp_all add: s')
  then show "nvm_inv f s' None A"
    using o b ready by (simp add: nvm_inv_def sbm_inv_def nvm_ready_def s' block_octets_def)
  show "result (NVM_open f 0) s = Inr ()" by (rule run)
  show "sbm_abs (nv_sbm s') = A" using o by (simp add: s')
qed


section \<open>Runs\<close>

text \<open>
  A client of the non-volatile memory in the file \<open>f\<close>: what it has in process, and what the blocks
  stood for when the file was written last. The program may stop at any time; then the file alone is
  left, and the memory is opened from it in some other state \<open>s0\<close>.
\<close>

inductive nvm_run :: "string \<Rightarrow> nvm \<Rightarrow> (ptr \<times> u32) option \<Rightarrow> (u32 \<Rightarrow> (u32 \<times> u8 list) option) \<Rightarrow> bool" for f where
  create: "nvm_ready f 0 s \<Longrightarrow> 12 \<le> n \<Longrightarrow> nvm_run f (exec (NVM_open f n) s) None Map.empty"
| restart: "nvm_run f s c A \<Longrightarrow> nv_files s0 f = nv_files s f \<Longrightarrow> nvm_ready f (nv_memSize s) s0 \<Longrightarrow>
    nvm_run f (exec (NVM_open f 0) s0) None A"
| beginTrans: "nvm_run f s None A \<Longrightarrow> result (NVM_beginTrans ty) s = Inr (p, h) \<Longrightarrow>
    nvm_run f (exec (NVM_beginTrans ty) s) (Some (p, h)) A"
| alloc: "nvm_run f s (Some (p, h)) A \<Longrightarrow> nvm_run f (exec (NVM_alloc p n) s) (Some (p, h)) A"
| stringCopy: "nvm_run f s (Some (p, h)) A \<Longrightarrow> length xs < 4294967292 \<Longrightarrow>
    nvm_run f (exec (NVM_allocStringCopy p (Some xs)) s) (Some (p, h)) A"
| poke_trans: "nvm_run f s (Some (p, h)) A \<Longrightarrow> i < unat (tlen (nv_sbm s) h) \<Longrightarrow>
    nvm_run f (s\<lparr>nv_sbm := poke (tp_pStart (sb_tips (nv_sbm s) p) + int i) v (nv_sbm s)\<rparr>) (Some (p, h)) A"
| abortTrans: "nvm_run f s (Some (p, h)) A \<Longrightarrow> nvm_run f (exec (NVM_abortTrans p) s) None A"
| poke_block: "nvm_run f s None A \<Longrightarrow> live (nv_sbm s) h \<Longrightarrow> i < unat (tlen (nv_sbm s) h) \<Longrightarrow>
    nvm_run f (s\<lparr>nv_sbm := poke (NVM_getMemPointer h SBM_FIRST s + int i) v (nv_sbm s)\<rparr>) None A"
| endTrans: "nvm_run f s (Some (p, h)) A \<Longrightarrow> \<not> nv_writeFails s \<Longrightarrow>
    nvm_run f (exec (NVM_endTrans p) s) None ((others h (nv_sbm s))(h \<mapsto> (ttype (nv_sbm s) h, contents (nv_sbm s) h)))"
| freeTrans: "nvm_run f s None A \<Longrightarrow> \<not> nv_writeFails s \<Longrightarrow> live (nv_sbm s) h \<Longrightarrow>
    sb_pTransOffsets (nv_sbm s) - (sb_pStart (nv_sbm s) + uint (toff (nv_sbm s) h) + uint (tlen (nv_sbm s) h)) < 65536 \<Longrightarrow>
    nvm_run f (exec (NVM_freeTrans h) s) None ((sbm_abs (nv_sbm s))(h := None))"

lemma nvm_run_inv: "nvm_run f s c A \<Longrightarrow> nvm_inv f s c A"
proof (induction rule: nvm_run.induct)
  case (create s n)
  then show ?case using open_creates(2) by blast
next
  case (restart s c A s0)
  then obtain xs where "nv_files s0 f = Some xs" "length xs = nv_memSize s" by (auto simp: nvm_inv_def)
  moreover have "file_holds s0 f A" using restart by (simp add: nvm_inv_def file_holds_def)
  ultimately show ?case using open_restores(2) [of f xs s0 A] restart by simp
next
  case (beginTrans s A ty p h)
  have i: "nv_bInitialized s" "sbm_inv (nv_sbm s) None" "sbm_ok (nv_sbm s)" using beginTrans.IH by (simp_all add: nvm_inv_def sbm_inv_def)
  have r: "result (SBM_beginTrans ty) (nv_sbm s) = Inr (p, h)"
    using beginTrans.hyps i by (simp add: NVM_beginTrans_def nvm_run_simps)
  have "sbm_inv (exec (SBM_beginTrans ty) (nv_sbm s)) (Some (p, h))"
    using beginTrans_busy(1) [OF i(3) r] by (simp add: sbm_inv_def)
  from memory_step [OF beginTrans.IH this] sbm_op_same(1) [OF i(2) refl r] show ?case
    using i by (simp add: NVM_beginTrans_def nvm_run_simps)
next
  case (alloc s p h A n)
  have i: "nv_bInitialized s" "sbm_inv (nv_sbm s) (Some (p, h))" using alloc.IH by (simp_all add: nvm_inv_def)
  have "sbm_inv (exec (SBM_alloc p n) (nv_sbm s)) (Some (p, h))"
    using sbm_step_refines [OF sbm_step.alloc i(2)] by blast
  from memory_step [OF alloc.IH this] sbm_op_same(2) [OF i(2) refl] show ?case
    using i by (simp add: NVM_alloc_def nvm_run_simps)
next
  case (stringCopy s p h A xs)
  have i: "nv_bInitialized s" "sbm_inv (nv_sbm s) (Some (p, h))" using stringCopy.IH by (simp_all add: nvm_inv_def)
  have "sbm_inv (exec (SBM_allocStringCopy p (Some xs)) (nv_sbm s)) (Some (p, h))"
    using sbm_step_refines [OF sbm_step.stringCopy [OF stringCopy.hyps(2)] i(2)] by blast
  from memory_step [OF stringCopy.IH this] sbm_op_same(3) [OF i(2) refl stringCopy.hyps(2)] show ?case
    using i by (simp add: NVM_allocStringCopy_def nvm_run_simps)
next
  case (poke_trans s p h A i v)
  then have "sbm_busy p h (nv_sbm s)" by (simp add: nvm_inv_def sbm_inv_def)
  from poke_busy [OF this poke_trans.hyps(2), where v = v] memory_step [OF poke_trans.IH, where c' = "Some (p, h)"]
  show ?case by (simp add: sbm_inv_def)
next
  case (abortTrans s p h A)
  have i: "nv_bInitialized s" "sbm_inv (nv_sbm s) (Some (p, h))" using abortTrans.IH by (simp_all add: nvm_inv_def)
  have "sbm_inv (exec (SBM_abortTrans p) (nv_sbm s)) None"
    using sbm_step_refines [OF sbm_step.abortTrans i(2)] by blast
  from memory_step [OF abortTrans.IH this] sbm_op_same(5) [OF i(2) refl] show ?case
    using i by (simp add: NVM_abortTrans_def nvm_run_simps)
next
  case (poke_block s A h i v)
  then have i: "nv_bInitialized s" "sbm_ok (nv_sbm s)" by (simp_all add: nvm_inv_def sbm_inv_def)
  from poke_live [OF i(2) poke_block.hyps(2,3), where v = v] memory_step [OF poke_block.IH, where c' = None] i
  show ?case by (simp add: sbm_inv_def NVM_getMemPointer_def)
next
  case (endTrans s p h A)
  have i: "nv_bInitialized s" "sbm_busy p h (nv_sbm s)" "sbm_inv (nv_sbm s) (Some (p, h))"
    using endTrans.IH by (simp_all add: nvm_inv_def sbm_inv_def)
  note e = endTrans_abs [OF i(2)]
  from synced_step(1) [OF endTrans.IH endTrans.hyps(2) e(1)] sbm_op_same(4) [OF i(3) refl] show ?case
    using i endTrans_run(1) [OF i(2)] by (simp add: NVM_endTrans_def nvm_run_simps e(2) fun_upd_def)
next
  case (freeTrans s A h)
  have i: "nv_bInitialized s" "sbm_ok (nv_sbm s)" using freeTrans.IH by (simp_all add: nvm_inv_def sbm_inv_def)
  note e = freeTrans_abs [OF i(2) freeTrans.hyps(3,4)]
  from synced_step(1) [OF freeTrans.IH freeTrans.hyps(2) e(2)] e show ?case
    using i by (simp add: NVM_freeTrans_def nvm_run_simps fun_upd_def)
qed

end
