(* ===== verification/Sbm_Queue.thy ===== *)
theory Sbm_Queue
  imports Sbm_Run Ua_Submit
begin

text \<open>
  The queues of a user agent in the block memory. The user agent model works on a heap of elements;
  here the operations of \<^verbatim>\<open>sbm.c\<close>, which write the handles of elements to the octets of the block, are
  shown to be those on the heap, for elements that lie apart in transactions of the block.
\<close>

section \<open>Elements\<close>

text \<open>The elements \<open>E\<close> lie in transactions, apart from each other.\<close>

definition elements_ok :: "sbm_pointer set \<Rightarrow> 'a sbm_scheme \<Rightarrow> bool" where
  "elements_ok E s \<longleftrightarrow> sbm_ok s \<and>
     (\<forall>q \<in> E. live s (fst q) \<and> snd q \<noteq> SBM_FIRST \<and> uint (snd q) + 16 \<le> uint (tlen s (fst q))) \<and>
     (\<forall>q \<in> E. \<forall>r \<in> E. q \<noteq> r \<longrightarrow> mem_at q s + 16 \<le> mem_at r s \<or> mem_at r s + 16 \<le> mem_at q s)"

text \<open>The links of the elements \<open>F\<close> lead to elements of \<open>F\<close>, and are those of a heap; \<open>nm\<close> names them there.\<close>

definition queue_view :: "(sbm_pointer \<Rightarrow> ptr) \<Rightarrow> sbm_pointer set \<Rightarrow> 'a sbm_scheme \<Rightarrow> qu_heap \<Rightarrow> bool" where
  "queue_view nm F s h \<longleftrightarrow> (\<forall>q \<in> F.
     get_pointer (mem_at q s) s \<in> F \<and> nm (get_pointer (mem_at q s) s) = pNext h (nm q) \<and>
     get_pointer (mem_at q s + 8) s \<in> F \<and> nm (get_pointer (mem_at q s + 8) s) = pPrev h (nm q))"

lemma element_data:
  assumes "elements_ok E s" and "q \<in> E"
  shows "sb_pStart s + 12 \<le> mem_at q s" "mem_at q s + 16 \<le> sb_pNextAvailable s"
    "mem_at q s = sb_pStart s + uint (toff s (fst q)) + uint (snd q)"
proof -
  have ok: "sbm_ok s" and q: "live s (fst q)" "snd q \<noteq> SBM_FIRST" "uint (snd q) + 16 \<le> uint (tlen s (fst q))"
    using assms by (auto simp: elements_ok_def)
  show m: "mem_at q s = sb_pStart s + uint (toff s (fst q)) + uint (snd q)"
    using ok q(2) by (simp add: mem_at_def SBM_getMemPointer_def sbm_ok_def sbm_layout_def toff_def)
  have "within (sb_pNextAvailable s - sb_pStart s) s (fst q)" using ok q(1) by (simp add: sbm_ok_def sbm_data_def)
  then show "sb_pStart s + 12 \<le> mem_at q s" "mem_at q s + 16 \<le> sb_pNextAvailable s"
    using q(3) uint_ge_0 [of "snd q"] unfolding m within_def by linarith+
qed

text \<open>Writing a link.\<close>

lemma run_put_pointer:
  "exec (put_pointer a q) s = s\<lparr>sb_mem := put32 (a + 4) (snd q) (put32 a (fst q) (sb_mem s))\<rparr>"
  by (simp add: put_pointer_def sbm_run)

lemma write_element:
  fixes E s q m
  assumes ok: "elements_ok E s" and q: "q \<in> E" and m: "\<forall>a. a < mem_at q s \<or> mem_at q s + 16 \<le> a \<longrightarrow> m a = sb_mem s a"
  defines "s' \<equiv> s\<lparr>sb_mem := m\<rparr>"
  shows "elements_ok E s'" "r \<in> E \<Longrightarrow> mem_at r s' = mem_at r s"
    "r \<in> E \<Longrightarrow> r \<noteq> q \<Longrightarrow> get_pointer (mem_at r s) s' = get_pointer (mem_at r s) s \<and>
      get_pointer (mem_at r s + 8) s' = get_pointer (mem_at r s + 8) s"
proof -
  have so: "sbm_ok s" using ok by (simp add: elements_ok_def)
  have "\<forall>a. a < sb_pStart s + 12 \<or> sb_pNextAvailable s \<le> a \<longrightarrow> m a = sb_mem s a"
    using m element_data(1,2) [OF ok q] by (meson order_less_le_trans order_trans)
  note d = data_write [OF so this, folded s'_def]
  have e: "tlen s' (fst r) = tlen s (fst r)" "toff s' (fst r) = toff s (fst r)" if "r \<in> E" for r
    using d(5) [of "fst r"] ok that by (auto simp: elements_ok_def live_def)
  show at: "mem_at r s' = mem_at r s" if "r \<in> E" for r
    using e [OF that] d(2) ok that by (simp add: mem_at_def SBM_getMemPointer_def elements_ok_def s'_def flip: toff_def)
  show "elements_ok E s'" using ok d e at by (auto simp: elements_ok_def)
  assume r: "r \<in> E" "r \<noteq> q"
  then have "mem_at q s + 16 \<le> mem_at r s \<or> mem_at r s + 16 \<le> mem_at q s" using ok q by (auto simp: elements_ok_def)
  then show "get_pointer (mem_at r s) s' = get_pointer (mem_at r s) s \<and>
      get_pointer (mem_at r s + 8) s' = get_pointer (mem_at r s + 8) s"
    using m by (auto simp: get_pointer_def s'_def intro!: get32_cong)
qed

lemma put_link:
  fixes E F s q x d nm h
  assumes ok: "elements_ok E s" and F: "F \<subseteq> E" "inj_on nm F" and q: "q \<in> F" and x: "x \<in> F"
    and v: "queue_view nm F s h" and d: "d = 0 \<or> d = 8"
  defines "s' \<equiv> exec (put_pointer (mem_at q s + d) x) s"
  shows "elements_ok E s'" "r \<in> E \<Longrightarrow> mem_at r s' = mem_at r s"
    "queue_view nm F s' (if d = 0 then h\<lparr>pNext := (pNext h)(nm q := nm x)\<rparr> else h\<lparr>pPrev := (pPrev h)(nm q := nm x)\<rparr>)"
proof -
  let ?a = "mem_at q s"
  let ?m = "put32 (?a + d + 4) (snd x) (put32 (?a + d) (fst x) (sb_mem s))"
  have s': "s' = s\<lparr>sb_mem := ?m\<rparr>" by (simp add: s'_def run_put_pointer)
  have m: "\<forall>a. a < ?a \<or> ?a + 16 \<le> a \<longrightarrow> ?m a = sb_mem s a" using d by (auto intro!: put32_other [THEN trans])
  have qE: "q \<in> E" using q F by auto
  note w = write_element [OF ok qE m, folded s']
  show "elements_ok E s'" "r \<in> E \<Longrightarrow> mem_at r s' = mem_at r s" by (fact w)+
  have own: "get_pointer ?a s' = (if d = 0 then x else get_pointer ?a s)"
    "get_pointer (?a + 8) s' = (if d = 0 then get_pointer (?a + 8) s else x)"
    using d by (auto simp: get_pointer_def s')
  have name: "nm r = nm q \<longleftrightarrow> r = q" if "r \<in> F" for r using F(2) that q by (auto simp: inj_on_def)
  show "queue_view nm F s' (if d = 0 then h\<lparr>pNext := (pNext h)(nm q := nm x)\<rparr> else h\<lparr>pPrev := (pPrev h)(nm q := nm x)\<rparr>)"
    unfolding queue_view_def
  proof
    fix r assume r: "r \<in> F"
    then have at: "mem_at r s' = mem_at r s" using w(2) [of r] F(1) by blast
    show "get_pointer (mem_at r s') s' \<in> F \<and>
      nm (get_pointer (mem_at r s') s') = pNext (if d = 0 then h\<lparr>pNext := (pNext h)(nm q := nm x)\<rparr> else h\<lparr>pPrev := (pPrev h)(nm q := nm x)\<rparr>) (nm r) \<and>
      get_pointer (mem_at r s' + 8) s' \<in> F \<and>
      nm (get_pointer (mem_at r s' + 8) s') = pPrev (if d = 0 then h\<lparr>pNext := (pNext h)(nm q := nm x)\<rparr> else h\<lparr>pPrev := (pPrev h)(nm q := nm x)\<rparr>) (nm r)"
    proof (cases "r = q")
      case True
      then show ?thesis using own x v q unfolding at queue_view_def by auto
    next
      case False
      then show ?thesis using w(3) [of r] F(1) r v name [OF r] unfolding at queue_view_def by auto
    qed
  qed
qed


section \<open>The operations\<close>

lemma quInit_view:
  fixes E F s q nm h
  assumes ok: "elements_ok E s" and F: "insert q F \<subseteq> E" "inj_on nm (insert q F)" and v: "queue_view nm F s h"
  defines "s' \<equiv> exec (SBM_quInit q) s"
  shows "elements_ok E s'" "queue_view nm (insert q F) s' (verify_quInit (nm q) h)"
proof -
  let ?a = "mem_at q s"
  let ?m = "put32 (?a + 4) (snd q) (put32 (?a + 12) (snd q) (put32 ?a (fst q) (put32 (?a + 8) (fst q) (sb_mem s))))"
  have s': "s' = s\<lparr>sb_mem := ?m\<rparr>" by (simp add: s'_def SBM_quInit_def sbm_run)
  have m: "\<forall>b. b < ?a \<or> ?a + 16 \<le> b \<longrightarrow> ?m b = sb_mem s b" by (auto simp: put32_other)
  have qE: "q \<in> E" using F by auto
  note w = write_element [OF ok qE m, folded s']
  show "elements_ok E s'" by (fact w)
  have own: "get_pointer ?a s' = q" "get_pointer (?a + 8) s' = q" by (simp_all add: get_pointer_def s' add.commute [of ?a])
  show "queue_view nm (insert q F) s' (verify_quInit (nm q) h)"
    unfolding queue_view_def
  proof
    fix r assume r: "r \<in> insert q F"
    then have at: "mem_at r s' = mem_at r s" using w(2) [of r] F(1) by blast
    show "get_pointer (mem_at r s') s' \<in> insert q F \<and> nm (get_pointer (mem_at r s') s') = pNext (verify_quInit (nm q) h) (nm r) \<and>
      get_pointer (mem_at r s' + 8) s' \<in> insert q F \<and> nm (get_pointer (mem_at r s' + 8) s') = pPrev (verify_quInit (nm q) h) (nm r)"
    proof (cases "r = q")
      case True
      then show ?thesis using own unfolding at by (simp add: verify_quInit_def)
    next
      case False
      then have "nm r \<noteq> nm q" using F(2) r by (auto simp: inj_on_def)
      then show ?thesis using False w(3) [of r] F(1) r v unfolding at queue_view_def by (auto simp: verify_quInit_def)
    qed
  qed
qed

lemma view_link:
  assumes "queue_view nm F s h" and "q \<in> F"
  shows "get_pointer (mem_at q s) s \<in> F" "nm (get_pointer (mem_at q s) s) = pNext h (nm q)"
    "get_pointer (mem_at q s + 8) s \<in> F" "nm (get_pointer (mem_at q s + 8) s) = pPrev h (nm q)"
  using assms by (auto simp: queue_view_def)

lemma quInsert_view:
  fixes E F s a b nm h
  assumes ok: "elements_ok E s" and F: "F \<subseteq> E" "inj_on nm F" and v: "queue_view nm F s h" and a: "a \<in> F" and b: "b \<in> F"
  defines "s' \<equiv> exec (SBM_quInsert a b) s"
  shows "elements_ok E s' \<and> queue_view nm F s' (verify_quInsert (nm a) (nm b) h)"
proof -
  define A where "A q = mem_at q s" for q
  let ?pb = "get_pointer (A b + 8) s"
  have pb: "?pb \<in> F" "nm ?pb = pPrev h (nm b)" using view_link [OF v b] by (simp_all add: A_def)
  define s1 where "s1 = exec (put_pointer (A ?pb) a) s"
  define h1 where "h1 = h\<lparr>pNext := (pNext h)(pPrev h (nm b) := nm a)\<rparr>"
  have 1: "elements_ok E s1" "queue_view nm F s1 h1" and A1: "\<And>r. r \<in> F \<Longrightarrow> mem_at r s1 = A r"
    using put_link [OF ok F pb(1) a v, of 0] F(1) by (auto simp: s1_def h1_def A_def pb(2) [unfolded A_def])
  let ?t = "get_pointer (A a + 8) s1"
  have t: "?t \<in> F" "nm ?t = pPrev h1 (nm a)" using view_link [OF 1(2) a] by (simp_all add: A1 a)
  define s2 where "s2 = exec (put_pointer (A ?t) b) s1"
  define h2 where "h2 = h1\<lparr>pNext := (pNext h1)(pPrev h1 (nm a) := nm b)\<rparr>"
  have 2: "elements_ok E s2" "queue_view nm F s2 h2" and A2: "\<And>r. r \<in> F \<Longrightarrow> mem_at r s2 = A r"
    using put_link [OF 1(1) F t(1) b 1(2), of 0] F(1) A1 t by (auto simp: s2_def h2_def subset_iff)
  let ?p = "get_pointer (A b + 8) s2"
  have p: "?p \<in> F" "nm ?p = pPrev h2 (nm b)" using view_link [OF 2(2) b] by (simp_all add: A2 b)
  define s3 where "s3 = exec (put_pointer (A a + 8) ?p) s2"
  define h3 where "h3 = h2\<lparr>pPrev := (pPrev h2)(nm a := pPrev h2 (nm b))\<rparr>"
  have 3: "elements_ok E s3" "queue_view nm F s3 h3" and A3: "\<And>r. r \<in> F \<Longrightarrow> mem_at r s3 = A r"
    using put_link [OF 2(1) F a p(1) 2(2), of 8] F(1) A2 p a by (auto simp: s3_def h3_def subset_iff)
  define s4 where "s4 = exec (put_pointer (A b + 8) ?t) s3"
  define h4 where "h4 = h3\<lparr>pPrev := (pPrev h3)(nm b := pPrev h1 (nm a))\<rparr>"
  have 4: "elements_ok E s4" "queue_view nm F s4 h4"
    using put_link [OF 3(1) F b t(1) 3(2), of 8] F(1) A3 t b by (auto simp: s4_def h4_def subset_iff)
  have "s' = s4"
    using A1 [OF t(1)] by (simp add: s'_def SBM_quInsert_def sbm_run s4_def s3_def s2_def s1_def A_def)
  moreover have "verify_quInsert (nm a) (nm b) h = h4"
    by (simp add: verify_quInsert_def Let_def h4_def h3_def h2_def h1_def)
  ultimately show ?thesis using 4 by simp
qed

lemma quRemove_view:
  fixes E F s a nm h
  assumes ok: "elements_ok E s" and F: "F \<subseteq> E" "inj_on nm F" and v: "queue_view nm F s h" and a: "a \<in> F"
  defines "s' \<equiv> exec (SBM_quRemove a) s"
  shows "elements_ok E s' \<and> queue_view nm F s' (verify_quRemove (nm a) h)"
proof -
  define A where "A q = mem_at q s" for q
  let ?n = "get_pointer (A a) s" and ?p = "get_pointer (A a + 8) s"
  have np: "?n \<in> F" "nm ?n = pNext h (nm a)" "?p \<in> F" "nm ?p = pPrev h (nm a)"
    using view_link [OF v a] by (simp_all add: A_def)
  define s1 where "s1 = exec (put_pointer (A ?n + 8) ?p) s"
  define h1 where "h1 = h\<lparr>pPrev := (pPrev h)(pNext h (nm a) := pPrev h (nm a))\<rparr>"
  have 1: "elements_ok E s1" "queue_view nm F s1 h1" and A1: "\<And>r. r \<in> F \<Longrightarrow> mem_at r s1 = A r"
    using put_link [OF ok F np(1,3) v, of 8] F(1) np by (auto simp: s1_def h1_def A_def subset_iff)
  let ?n1 = "get_pointer (A a) s1" and ?p1 = "get_pointer (A a + 8) s1"
  have np1: "?n1 \<in> F" "nm ?n1 = pNext h1 (nm a)" using view_link [OF 1(2) a] by (simp_all add: A1 a)
  define s2 where "s2 = exec (put_pointer (A ?p) ?n1) s1"
  define h2 where "h2 = h1\<lparr>pNext := (pNext h1)(pPrev h (nm a) := pNext h1 (nm a))\<rparr>"
  have 2: "elements_ok E s2" "queue_view nm F s2 h2" and A2: "\<And>r. r \<in> F \<Longrightarrow> mem_at r s2 = A r"
    using put_link [OF 1(1) F np(3) np1(1) 1(2), of 0] F(1) A1 np np1 by (auto simp: s2_def h2_def subset_iff)
  have i: "exec (SBM_quInit a) s2 = s'"
    using A2 [OF a] by (simp add: s'_def SBM_quRemove_def SBM_quInit_def sbm_run s2_def s1_def A_def)
  have "insert a F = F" using a by auto
  then have 3: "elements_ok E s'" "queue_view nm F s' (verify_quInit (nm a) h2)"
    using quInit_view [OF 2(1) _ _ 2(2), of a] F i by simp_all
  have "pPrev h1 (nm a) = pPrev h (nm a)"
    by (simp add: h1_def)
  then have "verify_quInit (nm a) h2 = verify_quRemove (nm a) h"
    by (simp add: verify_quRemove_def verify_quInit_def Let_def h2_def h1_def)
  then show ?thesis using 3 by simp
qed

end
