(* ===== verification/Nvm_Properties.thy ===== *)
theory Nvm_Properties
  imports Nvm_Run Sbm_Queue
begin

text \<open>
  The properties of the block memory and of the memory in a file, each with an example.
\<close>

section \<open>Examples of states\<close>

definition example_block :: sbm where
  "example_block = \<lparr>sb_mem = (\<lambda>_. 0), sb_bInitialized = True, sb_pStart = 0, sb_pNextAvailable = 0,
     sb_pTransOffsets = 0, sb_bTransactionInProcess = False,
     sb_tips = (\<lambda>_. \<lparr>tp_pTrans = 0, tp_hAddingToTrans = SBM_NULL, tp_bytesRemaining = 0, tp_pNextAlloc = 0, tp_pStart = 0\<rparr>),
     sb_allocFail = (\<lambda>_. False), sb_allocs = 3\<rparr>"


text \<open>A block of 80 octets, with a transaction of 4 octets and one of 8.\<close>

definition example_open :: sbm where "example_open = exec (SBM_open 16 80) example_block"
definition example_begun :: sbm where "example_begun = exec (SBM_beginTrans 5) example_open"
definition example_filled :: sbm where "example_filled = exec (SBM_alloc 4 3) example_begun"
definition example_ended :: sbm where "example_ended = exec (SBM_endTrans 4) (poke 28 7 example_filled)"
definition example_next :: sbm where "example_next = exec (SBM_beginTrans 6) example_ended"
definition example_two :: sbm where
  "example_two = exec (SBM_endTrans 5) (poke 32 9 (exec (SBM_alloc 5 8) example_next))"

lemma get32_upd: "b < a \<or> a + 4 \<le> b \<Longrightarrow> get32 (m(b := v)) a = get32 m a"
  by (rule get32_cong) auto

lemmas example_run = get32_upd sbm_run header_defs entry_defs trans_ptr_def nth_trans_def Let_def

lemma example_open_eq: "example_open = example_block\<lparr>sb_mem := put32 24 0 (put32 16 80 (put32 20 68 (\<lambda>_. 0))),
    sb_pStart := 16, sb_pTransOffsets := 96, sb_pNextAvailable := 28\<rparr>"
  by (simp add: example_open_def example_block_def SBM_open_def example_run)

lemma example_begin: "result (SBM_beginTrans 5) example_open = Inr (4, 1)"
  "example_begun = example_open\<lparr>sb_mem := put32 88 12 (put32 84 0 (put32 92 5 (sb_mem example_open))),
     sb_tips := (sb_tips example_open)(4 := \<lparr>tp_pTrans = 84, tp_hAddingToTrans = SBM_NULL, tp_bytesRemaining = 56,
       tp_pNextAlloc = 28, tp_pStart = 28\<rparr>), sb_bTransactionInProcess := True, sb_allocs := 4\<rparr>"
  by (simp_all add: example_begun_def example_open_eq example_block_def SBM_beginTrans_def example_run)

lemma example_ended_eq: "example_ended = example_begun\<lparr>sb_mem := put32 24 1 (put32 20 52 ((put32 84 4 (sb_mem example_begun))(28 := 7))),
     sb_tips := (sb_tips example_begun)(4 := \<lparr>tp_pTrans = 84, tp_hAddingToTrans = SBM_NULL, tp_bytesRemaining = 52,
       tp_pNextAlloc = 32, tp_pStart = 28\<rparr>), sb_bTransactionInProcess := False, sb_pTransOffsets := 84, sb_pNextAvailable := 32\<rparr>"
  by (simp add: example_ended_def example_filled_def poke_def example_begin example_open_eq example_block_def
      SBM_alloc_def SBM_endTrans_def tip_advance_def align4_def example_run)

lemma example_next_begin: "result (SBM_beginTrans 6) example_ended = Inr (5, 2)"
  "example_next = example_ended\<lparr>sb_mem := put32 76 16 (put32 72 0 (put32 80 6 (sb_mem example_ended))),
     sb_tips := (sb_tips example_ended)(5 := \<lparr>tp_pTrans = 72, tp_hAddingToTrans = SBM_NULL, tp_bytesRemaining = 40,
       tp_pNextAlloc = 32, tp_pStart = 32\<rparr>), sb_bTransactionInProcess := True, sb_allocs := 5\<rparr>"
  by (simp_all add: example_next_def example_ended_eq example_begin example_open_eq example_block_def SBM_beginTrans_def example_run)

lemmas example_states = example_next_begin example_ended_eq example_begin example_open_eq example_block_def

lemma example_two_eq: "example_two = example_next\<lparr>sb_mem := put32 24 2 (put32 20 32 ((put32 72 8 (sb_mem example_next))(32 := 9))),
     sb_tips := (sb_tips example_next)(5 := \<lparr>tp_pTrans = 72, tp_hAddingToTrans = SBM_NULL, tp_bytesRemaining = 32,
       tp_pNextAlloc = 40, tp_pStart = 32\<rparr>), sb_bTransactionInProcess := False, sb_pTransOffsets := 72, sb_pNextAvailable := 40\<rparr>"
  by (simp add: example_two_def poke_def example_states SBM_alloc_def SBM_endTrans_def tip_advance_def align4_def example_run)

lemma example_octets: "tlen example_filled 1 = 4" "tlen (exec (SBM_alloc 5 8) example_next) 2 = 8"
  "tp_pStart (sb_tips example_filled 4) = 28" "tp_pStart (sb_tips (exec (SBM_alloc 5 8) example_next) 5) = 32"
  by (simp_all add: example_filled_def example_states SBM_alloc_def tip_advance_def align4_def example_run)

lemma example_runs: "sbm_step\<^sup>*\<^sup>* (example_open, None) (example_two, None)"
proof -
  have s1: "sbm_step (example_open, None) (example_begun, Some (4, 1))"
    using sbm_step.beginTrans [OF example_begin(1)] by (simp add: example_begun_def)
  have s2: "sbm_step (example_begun, Some (4, 1)) (example_filled, Some (4, 1))"
    unfolding example_filled_def by (rule sbm_step.alloc)
  have s3: "sbm_step (example_filled, Some (4, 1)) (poke 28 7 example_filled, Some (4, 1))"
    using sbm_step.poke_trans [of 0 example_filled 1 4 7] by (simp add: example_octets)
  have s4: "sbm_step (poke 28 7 example_filled, Some (4, 1)) (example_ended, None)"
    unfolding example_ended_def by (rule sbm_step.endTrans)
  have s5: "sbm_step (example_ended, None) (example_next, Some (5, 2))"
    using sbm_step.beginTrans [OF example_next_begin(1)] by (simp add: example_next_def)
  have s6: "sbm_step (example_next, Some (5, 2)) (exec (SBM_alloc 5 8) example_next, Some (5, 2))"
    by (rule sbm_step.alloc)
  have s7: "sbm_step (exec (SBM_alloc 5 8) example_next, Some (5, 2)) (poke 32 9 (exec (SBM_alloc 5 8) example_next), Some (5, 2))"
    using sbm_step.poke_trans [of 0 "exec (SBM_alloc 5 8) example_next" 2 5 9] by (simp add: example_octets)
  have s8: "sbm_step (poke 32 9 (exec (SBM_alloc 5 8) example_next), Some (5, 2)) (example_two, None)"
    unfolding example_two_def by (rule sbm_step.endTrans)
  note c = converse_rtranclp_into_rtranclp
  show ?thesis
    by (rule c, rule s1, rule c, rule s2, rule c, rule s3, rule c, rule s4, rule c, rule s5, rule c, rule s6, rule c, rule s7,
        rule c, rule s8, rule rtranclp.rtrancl_refl)
qed

lemma sbm_runs_refine:
  "sbm_step\<^sup>*\<^sup>* (s, c) (s', c') \<Longrightarrow> sbm_inv s c \<Longrightarrow> sbm_inv s' c' \<and> store_step\<^sup>*\<^sup>* (sbm_store s c) (sbm_store s' c')"
proof (induction s' c' rule: rtranclp_induct2)
  case (step t d s' c')
  then show ?case using sbm_step_refines [OF step.hyps(2)] by (auto intro: rtranclp.rtrancl_into_rtrancl)
qed simp

lemma example_ok: "sbm_ok example_open" "sbm_abs example_open = Map.empty" "sbm_ok example_two"
proof -
  show o: "sbm_ok example_open" "sbm_abs example_open = Map.empty"
    using open_fresh(2,3) [of example_block 80 16] by (simp_all add: example_open_def) (simp_all add: example_block_def)
  show "sbm_ok example_two" using sbm_runs_refine [OF example_runs] o(1) by (simp add: sbm_inv_def)
qed

lemma example_contents: "sbm_abs example_two 1 = Some (5, [7, 0, 0, 0])" "sbm_abs example_two 2 = Some (6, [9, 0, 0, 0, 0, 0, 0, 0])"
  "live example_two 1" "toff example_two 1 = 12" "tlen example_two 1 = 4"
  by (simp_all add: sbm_abs_def live_def in_table_def contents_def example_two_eq example_states example_run)
    (simp_all add: put32_def upt_rec)







text \<open>
  A transaction of 4 octets is added to while no entry of the table is free: the entry of the
  transaction in process is exchanged with that of the old one, and so the table is not extended over
  it when it ends. The numbers of the block do not fit any more.
\<close>

lemma move_cong:
  "a + 4 \<le> d \<or> e \<le> a \<Longrightarrow> get32 (\<lambda>x. if d \<le> x \<and> x < e then f x else m x) a = get32 m a"
  "d \<le> a \<Longrightarrow> a + 4 \<le> e \<Longrightarrow> get32 (\<lambda>x. if d \<le> x \<and> x < e then f x else m x) a = get32 f a"
  by (auto intro!: get32_cong)

lemma shift_get32: "get32 (\<lambda>x. m (x + i)) a = get32 m (a + i)" "get32 (\<lambda>x. m (i + x)) a = get32 m (i + a)"
  "get32 (\<lambda>x. m (x - i)) a = get32 m (a - i)"
  by (simp_all add: get32_def algebra_simps)

definition example_added :: sbm where "example_added = exec (SBM_addToTrans 1) example_ended"

lemma example_added_run: "result (SBM_addToTrans 1) example_ended = Inr 5"
  "Header_bytesRemaining example_added = 52" "Header_transAllocated example_added = 1" "sb_pNextAvailable example_added = 32"
  by (simp_all add: example_added_def SBM_addToTrans_def SBM_beginTrans_def SBM_alloc_def SBM_getMemPointer_def swap_entries_def tip_advance_def align4_def
     example_states example_run move_cong shift_get32)

lemma addToTrans_breaks:
  "result (SBM_endTrans 5) example_added = Inr ()" "\<not> sbm_layout (exec (SBM_endTrans 5) example_added)"
  by (simp_all add: example_added_def SBM_addToTrans_def SBM_beginTrans_def SBM_alloc_def SBM_getMemPointer_def swap_entries_def tip_advance_def align4_def
     SBM_endTrans_def SBM_freeTrans_def adjust_offset_def sbm_layout_def
     example_states example_run move_cong shift_get32)

text \<open>A transaction with two elements of a queue, which are initialised.\<close>

definition example_elems :: sbm where "example_elems = exec (SBM_endTrans 4) (exec (SBM_alloc 4 32) example_begun)"
definition example_queue :: sbm where "example_queue = exec (SBM_quInit (1, 16)) (exec (SBM_quInit (1, 0)) example_elems)"
definition example_name :: "sbm_pointer \<Rightarrow> ptr" where "example_name q = unat (snd q)"
definition example_heap :: qu_heap where
  "example_heap = verify_quInit 16 (verify_quInit 0 \<lparr>pNext = (\<lambda>_. 0), pPrev = (\<lambda>_. 0)\<rparr>)"

lemma example_elements: "elements_ok {(1, 0), (1, 16)} example_elems"
proof -
  have "sbm_inv example_begun (Some (4, 1))"
    using sbm_step_refines [OF sbm_step.beginTrans [OF example_begin(1)]] example_ok(1)
    by (simp add: sbm_inv_def flip: example_begun_def)
  then have "sbm_inv (exec (SBM_alloc 4 32) example_begun) (Some (4, 1))"
    using sbm_step_refines [OF sbm_step.alloc] by blast
  then have ok: "sbm_ok example_elems"
    using sbm_step_refines [OF sbm_step.endTrans] by (fastforce simp: example_elems_def sbm_inv_def)
  have e: "live example_elems 1" "tlen example_elems 1 = 32" "sb_bInitialized example_elems"
    by (simp_all add: example_elems_def live_def in_table_def example_states SBM_alloc_def SBM_endTrans_def
        tip_advance_def align4_def example_run)
  then show ?thesis using ok by (simp add: elements_ok_def mem_at_def SBM_getMemPointer_def)
qed

lemma example_queue_view:
  "elements_ok {(1, 0), (1, 16)} example_queue" "queue_view example_name {(1, 0), (1, 16)} example_queue example_heap"
  "inj_on example_name {(1, 0), (1, 16)}"
proof -
  show inj: "inj_on example_name {(1, 0), (1, 16)}" by (simp add: example_name_def)
  have "queue_view example_name {} example_elems \<lparr>pNext = (\<lambda>_. 0), pPrev = (\<lambda>_. 0)\<rparr>" by (simp add: queue_view_def)
  from quInit_view [OF example_elements _ _ this, of "(1, 0)"]
  have 1: "elements_ok {(1, 0), (1, 16)} (exec (SBM_quInit (1, 0)) example_elems)"
    "queue_view example_name {(1, 0)} (exec (SBM_quInit (1, 0)) example_elems) (verify_quInit 0 \<lparr>pNext = (\<lambda>_. 0), pPrev = (\<lambda>_. 0)\<rparr>)"
    by (simp_all add: example_name_def)
  have "insert (1, 16) {(1, 0)} = ({(1, 0), (1, 16)} :: sbm_pointer set)" by auto
  then show "elements_ok {(1, 0), (1, 16)} example_queue" "queue_view example_name {(1, 0), (1, 16)} example_queue example_heap"
    using quInit_view [OF 1(1) _ _ 1(2), of "(1, 16)"] inj by (simp_all add: example_queue_def example_heap_def example_name_def)
qed

section \<open>Properties\<close>



text \<open>
  C14. Freeing a transaction moves the data of others and changes their offsets and the table, but
  removes just the one entry: every other transaction keeps its handle, its type and its octets,
  and the memory is given back. Hypothesis: less than 65536 octets lie behind the data, since the
  length is cast to 16 bits.
\<close>

theorem free_removes_one:
  "sbm_ok s \<Longrightarrow> live s h \<Longrightarrow> sb_pTransOffsets s - (sb_pStart s + uint (toff s h) + uint (tlen s h)) < 65536 \<Longrightarrow>
    result (SBM_freeTrans h) s = Inr () \<and> sbm_abs (exec (SBM_freeTrans h) s) = (sbm_abs s)(h := None) \<and>
    uint (Header_bytesRemaining s) + uint (tlen s h) \<le> uint (Header_bytesRemaining (exec (SBM_freeTrans h) s))"
  using freeTrans_abs by blast

theorem free_removes_one_witness:
  "sbm_abs (exec (SBM_freeTrans 1) example_two) 1 = None \<and>
     sbm_abs (exec (SBM_freeTrans 1) example_two) 2 = Some (6, [9, 0, 0, 0, 0, 0, 0, 0])"
proof -
  have "sb_pTransOffsets example_two - (sb_pStart example_two + uint (toff example_two 1) + uint (tlen example_two 1)) < 65536"
    by (simp add: example_contents) (simp add: example_two_eq example_states)
  from free_removes_one [OF example_ok(3) example_contents(3) this] show ?thesis by (simp add: example_contents)
qed

text \<open>
  C26. \<^verbatim>\<open>SBM_nextTrans\<close> delivers a handle exactly when it is the lowest of a transaction of the type
  that is above the given one, for handles of 16 bits.
\<close>

theorem search_by_type:
  "sbm_ok s \<Longrightarrow> prev = SBM_FIRST \<or> uint prev < 65535 \<Longrightarrow>
    (result (SBM_nextTrans ty prev) s = Inr h \<longleftrightarrow> next_of_type s ty (if prev = SBM_FIRST then 0 else uint prev) h)"
  using nextTrans_run(1) by blast

theorem search_by_type_witness:
  "next_of_type example_two 6 0 2 \<and> result (SBM_nextTrans 6 SBM_FIRST) example_two = Inr 2"
proof -
  have "result (SBM_nextTrans 6 SBM_FIRST) example_two = Inr 2"
    by (simp add: SBM_nextTrans_def example_two_eq example_states example_run upt_rec)
  then show ?thesis using search_by_type [of example_two SBM_FIRST 6 2] example_ok(3) by simp
qed



text \<open>
  C12. The queues of the user agent in the block: for elements that lie apart in transactions, the
  operations of \<^verbatim>\<open>sbm.c\<close>, which go through handles and write the links to the octets of the block, do what
  the operations on the heap of the user agent model do, and leave the block well formed.
\<close>

theorem queue_in_memory:
  "elements_ok E s \<Longrightarrow> F \<subseteq> E \<Longrightarrow> inj_on nm F \<Longrightarrow> queue_view nm F s h \<Longrightarrow> a \<in> F \<Longrightarrow> b \<in> F \<Longrightarrow>
    elements_ok E (exec (SBM_quInsert a b) s) \<and>
    queue_view nm F (exec (SBM_quInsert a b) s) (verify_quInsert (nm a) (nm b) h) \<and>
    elements_ok E (exec (SBM_quRemove a) s) \<and>
    queue_view nm F (exec (SBM_quRemove a) s) (verify_quRemove (nm a) h) \<and>
    SBM_quNext a s \<in> F \<and> nm (SBM_quNext a s) = verify_quNext (nm a) h"
  by (intro conjI quInsert_view [THEN conjunct1] quInsert_view [THEN conjunct2] quRemove_view [THEN conjunct1]
      quRemove_view [THEN conjunct2]; (assumption | simp add: SBM_quNext_def verify_quNext_def view_link(1,2)))

theorem queue_in_memory_witness:
  "example_name (SBM_quNext (1, 0) (exec (SBM_quInsert (1, 16) (1, 0)) example_queue)) = 16"
proof -
  let ?s = "exec (SBM_quInsert (1, 16) (1, 0)) example_queue"
  have "elements_ok {(1, 0), (1, 16)} ?s \<and>
      queue_view example_name {(1, 0), (1, 16)} ?s (verify_quInsert 16 0 example_heap)"
    using queue_in_memory [OF example_queue_view(1) order_refl example_queue_view(3,2), of "(1, 16)" "(1, 0)"]
    by (simp add: example_name_def)
  from queue_in_memory [OF this [THEN conjunct1] order_refl example_queue_view(3) this [THEN conjunct2], of "(1, 0)" "(1, 0)"]
  show ?thesis
    by (simp add: example_name_def verify_quNext_def) (simp add: verify_quInsert_def verify_quInit_def example_heap_def Let_def)
qed

end
