(* ===== verification/Cfg.thy ===== *)
theory Cfg
  imports Strfunc
begin

text \<open>
  Configuration files, \<^verbatim>\<open>base.ocp/cfg/hosted/config.c\<close>: sections with parameters, macros that are
  expanded in values, and commands such as the inclusion of another file. A file is read once and
  kept while it is in use.
\<close>

section \<open>Data\<close>

record cfg_section =
  pSectionName :: "u8 list"
  sec_parameters :: "(u8 list \<times> u8 list) list"

record cfg_file =
  pFileName :: "u8 list"
  sections :: "cfg_section list"
  macros :: "(u8 list \<times> u8 list) list"
  referenceCount :: u32

text \<open>
  The queue of open files with their addresses, and the static variables of \<^verbatim>\<open>processFile\<close>. The rest is the
  environment: the contents of the files, environment variables, what a command prints (none if it
  cannot be run), whether the settings of traces and exceptions are taken, and which calls of \<^verbatim>\<open>OS_alloc\<close> fail.
  What is printed is recorded.
\<close>

record config =
  configFiles :: "(ptr \<times> cfg_file) list"
  nestCount :: int
  maxNest :: int
  cg_allocs :: nat
  cg_printed :: "u8 list list"
  cg_files :: "u8 list \<Rightarrow> u8 list option"
  cg_getenv :: "u8 list \<Rightarrow> u8 list option"
  cg_popen :: "u8 list \<Rightarrow> u8 list option"
  cg_setup :: "nat \<Rightarrow> u8 list \<Rightarrow> bool"
  cg_allocFail :: "nat \<Rightarrow> bool"

definition CONFIG_MAX_PARAMETER_LEN :: nat where
  "CONFIG_MAX_PARAMETER_LEN = 256"

definition cfg_of :: "ptr \<Rightarrow> config \<Rightarrow> cfg_file" where
  "cfg_of h s = the (map_of (configFiles s) h)"

definition upd_cfg :: "ptr \<Rightarrow> (cfg_file \<Rightarrow> cfg_file) \<Rightarrow> (config, unit) state" where
  "upd_cfg h f = modify (\<lambda>s. s\<lparr>configFiles := map (\<lambda>(k, c). (k, if k = h then f c else c)) (configFiles s)\<rparr>)"

text \<open>An allocation: the number of calls so far, or that it failed.\<close>

definition cfg_alloc :: "(config, ptr) rc_op" where
  "cfg_alloc = do {
     n \<leftarrow> gets cg_allocs;
     bad \<leftarrow> gets (\<lambda>s. cg_allocFail s (cg_allocs s));
     modify (\<lambda>s. s\<lparr>cg_allocs := cg_allocs s + 1\<rparr>);
     if bad then FAIL_RC ResourceError else ok (n + 1)
   }"


section \<open>Strings\<close>

definition isspace :: "u8 \<Rightarrow> bool" where
  "isspace c \<longleftrightarrow> 9 \<le> c \<and> c \<le> 13 \<or> c = 32"

definition isdigit :: "u8 \<Rightarrow> bool" where
  "isdigit c \<longleftrightarrow> 48 \<le> c \<and> c \<le> 57"

definition stripWhiteSpace :: "u8 list \<Rightarrow> u8 list" where
  "stripWhiteSpace xs = rev (dropWhile isspace (rev (dropWhile isspace xs)))"

text \<open>\<^verbatim>\<open>fgets\<close> with a buffer of \<open>n\<close> octets, and the lines that it delivers one after the other.\<close>

definition fgets_line :: "nat \<Rightarrow> u8 list \<Rightarrow> u8 list" where
  "fgets_line n xs = take (n - 1) (if 10 \<in> set xs then takeWhile (\<lambda>c. c \<noteq> 10) xs @ [10] else xs)"

function file_lines :: "nat \<Rightarrow> u8 list \<Rightarrow> u8 list list" where
  "file_lines n xs = (if xs = [] \<or> n < 2 then []
     else fgets_line n xs # file_lines n (drop (length (fgets_line n xs)) xs))"
  by pat_completeness auto
termination
proof (relation "measure (\<lambda>(n, xs). length xs)")
  fix n :: nat and xs :: "u8 list"
  assume "\<not> (xs = [] \<or> n < 2)"
  then have "fgets_line n xs \<noteq> []" by (auto simp: fgets_line_def takeWhile_eq_Nil_iff)
  then show "((n, drop (length (fgets_line n xs)) xs), (n, xs)) \<in> measure (\<lambda>(n, xs). length xs)"
    using \<open>\<not> (xs = [] \<or> n < 2)\<close> by auto
qed simp

declare file_lines.simps [simp del]

text \<open>
  \<^verbatim>\<open>atol\<close>, with \<open>long\<close> of 32 bits: white space, a sign, and digits; what is larger or smaller
  becomes the largest or smallest number.
\<close>

definition digits_value :: "u8 list \<Rightarrow> int" where
  "digits_value xs = foldl (\<lambda>n c. 10 * n + (uint c - 48)) 0 (takeWhile isdigit xs)"

definition cfg_atol :: "u8 list \<Rightarrow> int" where
  "cfg_atol xs = (let ys = dropWhile isspace xs;
     v = (if ys \<noteq> [] \<and> hd ys = 45 then - digits_value (tl ys)
       else digits_value (if ys \<noteq> [] \<and> hd ys = 43 then tl ys else ys))
   in max (- 2147483648) (min 2147483647 v))"

text \<open>The word at the beginning, whatever the case of its letters, and then a space.\<close>

definition starts_with :: "u8 list \<Rightarrow> u8 list \<Rightarrow> bool" where
  "starts_with w xs \<longleftrightarrow> length w \<le> length xs \<and> OS_strcasecmp_eq w (take (length w) xs)"

definition starts_word :: "u8 list \<Rightarrow> u8 list \<Rightarrow> bool" where
  "starts_word w xs \<longleftrightarrow> starts_with w xs \<and> length w < length xs \<and> isspace (xs ! length w)"


section \<open>Expansion\<close>

definition result_map :: "('a \<Rightarrow> 'b) \<Rightarrow> rc + 'a \<Rightarrow> rc + 'b" where
  "result_map f r = (case r of Inl e \<Rightarrow> Inl e | Inr x \<Rightarrow> Inr (f x))"

text \<open>
  The two passes of \<^verbatim>\<open>expand\<close>: macros and environment variables in \<^verbatim>\<open>${name}\<close>, and commands in back quotes.
  \<open>room\<close> is what is left of the buffer. The terminating zero octet comes after the output.
\<close>

definition macro_value :: "(u8 list \<times> u8 list) list \<Rightarrow> (u8 list \<Rightarrow> u8 list option) \<Rightarrow> u8 list \<Rightarrow> u8 list option" where
  "macro_value ms env name = (case find (\<lambda>(n, v). n = name) ms of Some (n, v) \<Rightarrow> Some v | None \<Rightarrow> env name)"

lemma length_after: "length (dropWhile P xs) - Suc 0 < Suc (length xs)" "length (dropWhile P (tl xs)) - Suc 0 < Suc (length xs)"
  using length_dropWhile_le [of P xs] length_dropWhile_le [of P "tl xs"] by simp_all

function expand_macros :: "(u8 list \<Rightarrow> u8 list option) \<Rightarrow> nat \<Rightarrow> u8 list \<Rightarrow> rc + u8 list" where
  "expand_macros value room [] = Inr []"
| "expand_macros value room (x # xs) =
     (if x = 36 \<and> xs \<noteq> [] \<and> hd xs = 123 then
        if 125 \<in> set (tl xs) then
          (case value (takeWhile (\<lambda>c. c \<noteq> 125) (tl xs)) of
             None \<Rightarrow> Inl Fail
           | Some v \<Rightarrow> if room < length v then Inl ResourceError
               else result_map (\<lambda>ys. v @ ys)
                 (expand_macros value (room - length v) (tl (dropWhile (\<lambda>c. c \<noteq> 125) (tl xs)))))
        else expand_macros value room xs
      else if room = 0 then Inl ResourceError
      else result_map (\<lambda>ys. x # ys) (expand_macros value (room - 1) xs))"
  by pat_completeness auto
termination
  by (relation "measure (\<lambda>(val, room, xs). length xs)") (auto simp: length_after)

text \<open>The first line that the command prints, without the end of the line.\<close>

definition command_output :: "u8 list \<Rightarrow> u8 list" where
  "command_output xs = (let ys = fgets_line CONFIG_MAX_PARAMETER_LEN xs in
     if ys \<noteq> [] \<and> last ys = 10 then butlast ys else ys)"

function expand_commands :: "(u8 list \<Rightarrow> u8 list option) \<Rightarrow> nat \<Rightarrow> u8 list \<Rightarrow> rc + u8 list" where
  "expand_commands popen room [] = Inr []"
| "expand_commands popen room (x # xs) =
     (if x = 96 \<and> 96 \<in> set xs then
        (case popen (takeWhile (\<lambda>c. c \<noteq> 96) xs) of
           None \<Rightarrow> Inl Fail
         | Some out \<Rightarrow> let v = command_output out in
             if room < length v then Inl ResourceError
             else result_map (\<lambda>ys. v @ ys)
               (expand_commands popen (room - length v) (tl (dropWhile (\<lambda>c. c \<noteq> 96) xs))))
      else if room = 0 then Inl ResourceError
      else result_map (\<lambda>ys. x # ys) (expand_commands popen (room - 1) xs))"
  by pat_completeness auto
termination
  by (relation "measure (\<lambda>(popen, room, xs). length xs)") (auto simp: length_after)

definition expand :: "ptr \<Rightarrow> nat \<Rightarrow> u8 list \<Rightarrow> config \<Rightarrow> rc + u8 list" where
  "expand h outputLen pInput s =
     (case expand_macros (macro_value (macros (cfg_of h s)) (cg_getenv s)) CONFIG_MAX_PARAMETER_LEN pInput of
        Inl e \<Rightarrow> Inl e
      | Inr buf \<Rightarrow> expand_commands (cg_popen s) outputLen buf)"


section \<open>Reading a file\<close>

text \<open>The value of a definition: what is between quotes, or the expansion of what is not quoted.\<close>

definition cfg_value :: "ptr \<Rightarrow> u8 list \<Rightarrow> config \<Rightarrow> rc + u8 list" where
  "cfg_value h pDefinition s =
     (if length pDefinition < 2 \<or> hd pDefinition \<noteq> 34 \<or> last pDefinition \<noteq> 34
      then expand h CONFIG_MAX_PARAMETER_LEN pDefinition s
      else Inr (take (length pDefinition - 2) (tl pDefinition)))"

definition newMacro :: "ptr \<Rightarrow> u8 list \<Rightarrow> u8 list \<Rightarrow> (config, unit) rc_op" where
  "newMacro h pMacroName pDefinition = do {
     r \<leftarrow> gets (cfg_value h (stripWhiteSpace pDefinition));
     case r of
       Inl e \<Rightarrow> FAIL_RC e
     | Inr v \<Rightarrow> RC_CALL cfg_alloc (\<lambda>_. do {
         upd_cfg h (\<lambda>c. c\<lparr>macros := macros c @ [(stripWhiteSpace pMacroName, v)]\<rparr>);
         ok ()
       })
   }"

text \<open>A section is named by its place in the list of sections, which only grows.\<close>

definition newParameter :: "ptr \<Rightarrow> nat \<Rightarrow> u8 list \<Rightarrow> u8 list \<Rightarrow> (config, unit) rc_op" where
  "newParameter h pSection pTypeName pDefinition = do {
     r \<leftarrow> gets (cfg_value h (stripWhiteSpace pDefinition));
     case r of
       Inl e \<Rightarrow> FAIL_RC e
     | Inr v \<Rightarrow> RC_CALL cfg_alloc (\<lambda>_. do {
         upd_cfg h (\<lambda>c. c\<lparr>sections := (sections c)[pSection := (sections c ! pSection)
           \<lparr>sec_parameters := sec_parameters (sections c ! pSection) @ [(stripWhiteSpace pTypeName, v)]\<rparr>]\<rparr>);
         ok ()
       })
   }"

definition newSection :: "ptr \<Rightarrow> u8 list \<Rightarrow> (config, nat) rc_op" where
  "newSection h name = RC_CALL cfg_alloc (\<lambda>_. do {
     n \<leftarrow> gets (\<lambda>s. length (sections (cfg_of h s)));
     upd_cfg h (\<lambda>c. c\<lparr>sections := sections c @ [\<lparr>pSectionName = stripWhiteSpace name, sec_parameters = []\<rparr>]\<rparr>);
     ok n
   })"

text \<open>The words of the commands: include, trace, traceFile, exceptionFile, nest, print, comment.\<close>

abbreviation (input) w_include :: "u8 list" where "w_include \<equiv> [105, 110, 99, 108, 117, 100, 101]"
abbreviation (input) w_trace :: "u8 list" where "w_trace \<equiv> [116, 114, 97, 99, 101]"
abbreviation (input) w_traceFile :: "u8 list" where "w_traceFile \<equiv> [116, 114, 97, 99, 101, 70, 105, 108, 101]"
abbreviation (input) w_exceptionFile :: "u8 list" where
  "w_exceptionFile \<equiv> [101, 120, 99, 101, 112, 116, 105, 111, 110, 70, 105, 108, 101]"
abbreviation (input) w_nest :: "u8 list" where "w_nest \<equiv> [110, 101, 115, 116]"
abbreviation (input) w_print :: "u8 list" where "w_print \<equiv> [112, 114, 105, 110, 116]"
abbreviation (input) w_comment :: "u8 list" where "w_comment \<equiv> [99, 111, 109, 109, 101, 110, 116]"

definition cfg_setting :: "nat \<Rightarrow> u8 list \<Rightarrow> (config, unit) rc_op" where
  "cfg_setting k arg = do {
     good \<leftarrow> gets (\<lambda>s. cg_setup s k arg);
     if good then ok () else FAIL_RC Fail
   }"

text \<open>A command with its expansion \<open>p\<close>; \<open>include\<close> reads a file.\<close>

definition cfg_command :: "(u8 list \<Rightarrow> (config, unit) rc_op) \<Rightarrow> u8 list \<Rightarrow> (config, unit) rc_op" where
  "cfg_command include p =
     (if starts_word w_include p then do {
        deep \<leftarrow> gets (\<lambda>s. nestCount s \<ge> maxNest s);
        if deep then FAIL_RC UnsupportedOption
        else do {
          modify (\<lambda>s. s\<lparr>nestCount := nestCount s + 1\<rparr>);
          r \<leftarrow> include (stripWhiteSpace (drop 8 p));
          modify (\<lambda>s. s\<lparr>nestCount := nestCount s - 1\<rparr>);
          return r
        }
      }
      else if starts_word w_trace p then cfg_setting 0 (stripWhiteSpace (drop 6 p))
      else if starts_word w_traceFile p then cfg_setting 1 (stripWhiteSpace (drop 10 p))
      else if starts_word w_exceptionFile p then cfg_setting 2 (stripWhiteSpace (drop 13 p))
      else if starts_word w_nest p \<and> cfg_atol (drop 5 p) > 0 then do {
        modify (\<lambda>s. s\<lparr>maxNest := cfg_atol (drop 5 p)\<rparr>);
        ok ()
      }
      else if starts_word w_print p then do {
        modify (\<lambda>s. s\<lparr>cg_printed := cg_printed s @ [drop 6 p]\<rparr>);
        ok ()
      }
      else if starts_with w_comment p then ok ()
      else FAIL_RC UnsupportedOption)"

text \<open>One line; it delivers the section that is current after it.\<close>

definition cfg_line :: "(u8 list \<Rightarrow> (config, unit) rc_op) \<Rightarrow> ptr \<Rightarrow> nat option \<Rightarrow> u8 list \<Rightarrow> (config, nat option) rc_op" where
  "cfg_line include h pSection line =
     (let p = stripWhiteSpace line in
      if p = [] \<or> hd p = 35 then ok pSection
      else if hd p = 33 then do {
        r \<leftarrow> gets (expand h (CONFIG_MAX_PARAMETER_LEN + 16) (stripWhiteSpace (tl p)));
        case r of
          Inl e \<Rightarrow> FAIL_RC e
        | Inr q \<Rightarrow> RC_CALL (cfg_command include (stripWhiteSpace q)) (\<lambda>_. ok pSection)
      }
      else if hd p = 91 then
        (if 93 \<in> set (tl p)
         then RC_CALL (newSection h (takeWhile (\<lambda>c. c \<noteq> 93) (tl p))) (\<lambda>n. ok (Some n))
         else FAIL_RC UnsupportedOption)
      else
        let bMacro = (hd p = 37);
            q = (if bMacro then stripWhiteSpace (tl p) else p);
            name = takeWhile (\<lambda>c. c \<noteq> 61) q;
            definition_of = tl (dropWhile (\<lambda>c. c \<noteq> 61) q)
        in if 61 \<notin> set q then ok pSection
           else if bMacro then RC_CALL (newMacro h name definition_of) (\<lambda>_. ok pSection)
           else (case pSection of
              None \<Rightarrow> FAIL_RC UnsupportedOption
            | Some k \<Rightarrow> RC_CALL (newParameter h k name definition_of) (\<lambda>_. ok pSection)))"

primrec cfg_lines :: "(nat option \<Rightarrow> u8 list \<Rightarrow> (config, unit) rc_op) \<Rightarrow> ptr \<Rightarrow> nat option \<Rightarrow> u8 list list \<Rightarrow> (config, unit) rc_op" where
  "cfg_lines include h pSection [] = ok ()"
| "cfg_lines include h pSection (line # ls) =
     RC_CALL (cfg_line (include pSection) h pSection line) (\<lambda>sec. cfg_lines include h sec ls)"

text \<open>
  \<open>fuel\<close> bounds the depth of inclusion; when it is used up the result is \<open>Undefined\<close>, which is no
  code of the program.
\<close>

primrec processFile :: "nat \<Rightarrow> ptr \<Rightarrow> nat option \<Rightarrow> u8 list \<Rightarrow> (config, unit) rc_op" where
  "processFile 0 h pSection name = FAIL_RC Undefined"
| "processFile (Suc fuel) h pSection name = do {
     f \<leftarrow> gets (\<lambda>s. cg_files s name);
     case f of
       None \<Rightarrow> FAIL_RC OS_RC_NoSuchFile
     | Some xs \<Rightarrow> cfg_lines (processFile fuel h) h pSection (file_lines (CONFIG_MAX_PARAMETER_LEN + 16) xs)
   }"


section \<open>Opening and closing\<close>

definition CONFIG_close :: "ptr \<Rightarrow> (config, unit) state" where
  "CONFIG_close h = do {
     upd_cfg h (\<lambda>c. c\<lparr>referenceCount := referenceCount c - 1\<rparr>);
     unused \<leftarrow> gets (\<lambda>s. referenceCount (cfg_of h s) = 0);
     if unused then modify (\<lambda>s. s\<lparr>configFiles := filter (\<lambda>(k, c). k \<noteq> h) (configFiles s)\<rparr>) else skip
   }"

definition CONFIG_open :: "nat \<Rightarrow> u8 list option \<Rightarrow> (config, ptr) rc_op" where
  "CONFIG_open fuel pName = (case pName of
     None \<Rightarrow> FAIL_RC Fail
   | Some name \<Rightarrow> do {
       found \<leftarrow> gets (\<lambda>s. find (\<lambda>(k, c). name = pFileName c) (configFiles s));
       case found of
         Some (h, c) \<Rightarrow> do {
           upd_cfg h (\<lambda>c. c\<lparr>referenceCount := referenceCount c + 1\<rparr>);
           ok h
         }
       | None \<Rightarrow> RC_CALL cfg_alloc (\<lambda>h. do {
           modify (\<lambda>s. s\<lparr>configFiles := configFiles s @
             [(h, \<lparr>pFileName = name, sections = [], macros = [], referenceCount = 1\<rparr>)]\<rparr>);
           r \<leftarrow> processFile fuel h None name;
           case r of
             Inl e \<Rightarrow> do { CONFIG_close h; FAIL_RC e }
           | Inr _ \<Rightarrow> ok h
         })
     })"


section \<open>Access\<close>

primrec find_parameter :: "u8 list \<Rightarrow> u8 list \<Rightarrow> cfg_section list \<Rightarrow> (u8 list \<times> u8 list) option" where
  "find_parameter sec ty [] = None"
| "find_parameter sec ty (x # xs) =
     (case (if OS_strcasecmp_eq sec (pSectionName x)
        then find (\<lambda>(n, v). OS_strcasecmp_eq ty n) (sec_parameters x) else None) of
        Some p \<Rightarrow> Some p
      | None \<Rightarrow> find_parameter sec ty xs)"

definition findParameter :: "ptr \<Rightarrow> u8 list \<Rightarrow> u8 list \<Rightarrow> config \<Rightarrow> (u8 list \<times> u8 list) option" where
  "findParameter h sec ty s = find_parameter sec ty (sections (cfg_of h s))"

definition CONFIG_getString :: "ptr \<Rightarrow> u8 list \<Rightarrow> u8 list \<Rightarrow> config \<Rightarrow> rc + u8 list" where
  "CONFIG_getString h sec ty s = (case findParameter h sec ty s of None \<Rightarrow> Inl Fail | Some (n, v) \<Rightarrow> Inr v)"

definition CONFIG_getNumber :: "ptr \<Rightarrow> u8 list \<Rightarrow> u8 list \<Rightarrow> config \<Rightarrow> rc + u32" where
  "CONFIG_getNumber h sec ty s =
     (case findParameter h sec ty s of None \<Rightarrow> Inl Fail | Some (n, v) \<Rightarrow> Inr (word_of_int (cfg_atol v)))"

text \<open>The handles of the two functions below are places in the lists; none is the beginning.\<close>

definition CONFIG_nextParameter :: "ptr \<Rightarrow> u8 list \<Rightarrow> nat option \<Rightarrow> config \<Rightarrow> rc + (u8 list \<times> u8 list) \<times> nat" where
  "CONFIG_nextParameter h sec hParameter s =
     (case find (\<lambda>x. OS_strcasecmp_eq sec (pSectionName x)) (sections (cfg_of h s)) of
        None \<Rightarrow> Inl Fail
      | Some x \<Rightarrow> let i = (case hParameter of None \<Rightarrow> 0 | Some i \<Rightarrow> i) in
          if i < length (sec_parameters x) then Inr (sec_parameters x ! i, i + 1) else Inl Fail)"

definition CONFIG_nextSection :: "ptr \<Rightarrow> u8 list option \<Rightarrow> nat option \<Rightarrow> config \<Rightarrow> rc + u8 list \<times> nat" where
  "CONFIG_nextSection h pName hSection s =
     (let xs = sections (cfg_of h s);
          i = (case hSection of None \<Rightarrow> 0 | Some i \<Rightarrow> i)
      in case (case pName of
           None \<Rightarrow> if i < length xs then Some i else None
         | Some name \<Rightarrow> find (\<lambda>k. OS_strcasecmp_eq name (pSectionName (xs ! k))) [i..<length xs]) of
           None \<Rightarrow> Inl Fail
         | Some k \<Rightarrow> Inr (pSectionName (xs ! k), k + 1))"

end
