(* ===== verification/Cfg_Read.thy ===== *)
theory Cfg_Read
  imports Cfg
begin

text \<open>
  Reading configuration files: it always ends, whatever the files include; a file that lists sections
  with quoted values is read as what it lists; what an expansion may write; and the files in use.
\<close>

lemma run_RC_cfg:
  "result (RC_CALL m f) s = (case result m s of Inl e \<Rightarrow> Inl e | Inr x \<Rightarrow> result (f x) (exec m s))"
  "exec (RC_CALL m f) s = (case result m s of Inl e \<Rightarrow> exec m s | Inr x \<Rightarrow> exec (f x) (exec m s))"
  "result (ok x) s = Inr x" "exec (ok x) s = s" "result (FAIL_RC e) s = Inl e" "exec (FAIL_RC e) s = s"
  by (simp_all add: RC_CALL_def ok_def FAIL_RC_def run_simps split: sum.split)

lemma run_cfg_alloc:
  "result cfg_alloc s = (if cg_allocFail s (cg_allocs s) then Inl ResourceError else Inr (cg_allocs s + 1))"
  "exec cfg_alloc s = s\<lparr>cg_allocs := cg_allocs s + 1\<rparr>"
  by (simp_all add: cfg_alloc_def run_simps run_RC_cfg)

lemma run_upd_cfg:
  "exec (upd_cfg h f) s = s\<lparr>configFiles := map (\<lambda>(k, c). (k, if k = h then f c else c)) (configFiles s)\<rparr>"
  by (simp add: upd_cfg_def run_simps)

lemmas cfg_run = run_simps run_RC_cfg run_cfg_alloc run_upd_cfg


section \<open>Termination\<close>

text \<open>
  A program leaves the depth of inclusion as it was, and the limit within \<open>int\<close>, and it does not
  run out of fuel.
\<close>

definition nest_ok :: "int \<Rightarrow> config \<Rightarrow> bool" where
  "nest_ok c s \<longleftrightarrow> nestCount s = c \<and> maxNest s \<le> 2147483647"

definition nests :: "int \<Rightarrow> (config, 'a) rc_op \<Rightarrow> bool" where
  "nests c m \<longleftrightarrow> (\<forall>s. nest_ok c s \<longrightarrow> nest_ok c (exec m s) \<and> result m s \<noteq> Inl Undefined)"

named_theorems nests_intros

lemma nestsD: "nests c m \<Longrightarrow> nest_ok c s \<Longrightarrow> nest_ok c (exec m s) \<and> result m s \<noteq> Inl Undefined"
  by (simp add: nests_def)

lemma nests_RC [nests_intros]: "nests c m \<Longrightarrow> (\<And>x. nests c (f x)) \<Longrightarrow> nests c (RC_CALL m f)"
  by (simp add: nests_def run_RC_cfg split: sum.split) metis

lemma nests_gets [nests_intros]: "(\<And>x. nests c (f x)) \<Longrightarrow> nests c (gets g \<bind> f)"
  by (simp add: nests_def run_simps)

lemma nests_basic [nests_intros]:
  "nests c (ok x)" "e \<noteq> Undefined \<Longrightarrow> nests c (FAIL_RC e)" "nests c cfg_alloc"
  by (simp_all add: nests_def run_RC_cfg run_cfg_alloc nest_ok_def)

lemma nests_if [nests_intros]: "(b \<Longrightarrow> nests c m) \<Longrightarrow> (\<not> b \<Longrightarrow> nests c n) \<Longrightarrow> nests c (if b then m else n)"
  by simp

lemma nests_upd [nests_intros]: "nests c m \<Longrightarrow> nests c (upd_cfg h f \<bind> (\<lambda>_. m))"
  by (simp add: nests_def run_simps run_upd_cfg nest_ok_def)

lemma nests_option [nests_intros]:
  "nests c m \<Longrightarrow> (\<And>x. nests c (f x)) \<Longrightarrow> nests c (case v of None \<Rightarrow> m | Some x \<Rightarrow> f x)"
  by (cases v) simp_all

lemma result_map_Undefined [simp]: "result_map f r = Inl Undefined \<longleftrightarrow> r = Inl Undefined"
  by (cases r) (simp_all add: result_map_def)

lemma expand_macros_rc: "expand_macros val room xs \<noteq> Inl Undefined"
  by (induction val room xs rule: expand_macros.induct) (auto split: option.split)

lemma expand_commands_rc: "expand_commands popen room xs \<noteq> Inl Undefined"
proof (induction popen room xs rule: expand_commands.induct)
  case (2 popen room x xs)
  show ?case using 2(1) [OF _ _ refl] 2(2) by (auto simp: Let_def split: option.split)
qed simp

lemma cfg_value_rc: "expand h n xs s \<noteq> Inl Undefined" "cfg_value h xs s \<noteq> Inl Undefined"
  using expand_macros_rc expand_commands_rc
  by (auto simp: expand_def cfg_value_def split: sum.split)

lemma nests_value [nests_intros]:
  assumes "\<And>s. g s \<noteq> Inl Undefined" and "\<And>x. nests c (f x)"
  shows "nests c (gets g \<bind> (\<lambda>r. case r of Inl e \<Rightarrow> FAIL_RC e | Inr x \<Rightarrow> f x))"
  unfolding nests_def
proof (intro allI impI)
  fix s assume s: "nest_ok c s"
  show "nest_ok c (exec (gets g \<bind> (\<lambda>r. case r of Inl e \<Rightarrow> FAIL_RC e | Inr x \<Rightarrow> f x)) s) \<and>
      result (gets g \<bind> (\<lambda>r. case r of Inl e \<Rightarrow> FAIL_RC e | Inr x \<Rightarrow> f x)) s \<noteq> Inl Undefined"
    using assms(1) [of s] nestsD [OF assms(2) s] s by (cases "g s") (simp_all add: run_simps run_RC_cfg)
qed

lemma nests_new:
  "nests c (newMacro h n d)" "nests c (newParameter h k n d)" "nests c (newSection h n)"
  unfolding newMacro_def newParameter_def newSection_def
  by (intro nests_intros cfg_value_rc)+

lemma nests_include:
  assumes "c < 2147483647 \<Longrightarrow> nests (c + 1) m"
  shows "nests c (do {
      deep \<leftarrow> gets (\<lambda>s. nestCount s \<ge> maxNest s);
      if deep then FAIL_RC UnsupportedOption
      else do {
        modify (\<lambda>s. s\<lparr>nestCount := nestCount s + 1\<rparr>);
        r \<leftarrow> m;
        modify (\<lambda>s. s\<lparr>nestCount := nestCount s - 1\<rparr>);
        return r
      }
    })"
  unfolding nests_def
proof (intro allI impI)
  fix s assume s: "nest_ok c s"
  let ?s = "s\<lparr>nestCount := nestCount s + 1\<rparr>"
  have "nestCount s < maxNest s \<Longrightarrow> nest_ok (c + 1) (exec m ?s) \<and> result m ?s \<noteq> Inl Undefined"
    using s by (intro nestsD [OF assms]) (auto simp: nest_ok_def)
  then show "nest_ok c (exec (do {
      deep \<leftarrow> gets (\<lambda>s. nestCount s \<ge> maxNest s);
      if deep then FAIL_RC UnsupportedOption
      else do {
        modify (\<lambda>s. s\<lparr>nestCount := nestCount s + 1\<rparr>);
        r \<leftarrow> m;
        modify (\<lambda>s. s\<lparr>nestCount := nestCount s - 1\<rparr>);
        return r
      }
    }) s) \<and> result (do {
      deep \<leftarrow> gets (\<lambda>s. nestCount s \<ge> maxNest s);
      if deep then FAIL_RC UnsupportedOption
      else do {
        modify (\<lambda>s. s\<lparr>nestCount := nestCount s + 1\<rparr>);
        r \<leftarrow> m;
        modify (\<lambda>s. s\<lparr>nestCount := nestCount s - 1\<rparr>);
        return r
      }
    }) s \<noteq> Inl Undefined" using s by (cases "maxNest s \<le> nestCount s") (simp_all add: nest_ok_def cfg_run)
qed

lemma nests_modify [nests_intros]:
  "nests c m \<Longrightarrow> (\<And>s. nest_ok c s \<Longrightarrow> nest_ok c (f s)) \<Longrightarrow> nests c (modify f \<bind> (\<lambda>_. m))"
  by (simp add: nests_def run_simps)

lemma nests_setting: "nests c (cfg_setting k p)"
  unfolding cfg_setting_def by (intro nests_intros) simp

lemma nests_maxNest: "nests c (do { modify (\<lambda>s. s\<lparr>maxNest := cfg_atol p\<rparr>); ok () })"
  by (rule nests_modify) (simp_all add: nests_basic nest_ok_def cfg_atol_def Let_def)

lemma nests_print: "nests c (do { modify (\<lambda>s. s\<lparr>cg_printed := cg_printed s @ [p]\<rparr>); ok () })"
  by (rule nests_modify) (simp_all add: nests_basic nest_ok_def)

lemma nests_command:
  assumes "\<And>name. c < 2147483647 \<Longrightarrow> nests (c + 1) (inc name)"
  shows "nests c (cfg_command inc p)"
  unfolding cfg_command_def
  by (rule nests_if nests_include nests_setting nests_maxNest nests_print nests_basic(1) assms | assumption)+
    (simp add: nests_basic)

lemma nests_line:
  assumes "\<And>name. c < 2147483647 \<Longrightarrow> nests (c + 1) (inc name)"
  shows "nests c (cfg_line inc h sec line)"
  unfolding cfg_line_def Let_def
  by (intro nests_intros nests_new nests_command assms cfg_value_rc) simp_all

lemma nests_lines:
  assumes "\<And>sec name. c < 2147483647 \<Longrightarrow> nests (c + 1) (inc sec name)"
  shows "nests c (cfg_lines inc h sec ls)"
proof (induction ls arbitrary: sec)
  case Nil
  then show ?case by (simp add: nests_intros)
next
  case (Cons l ls)
  then show ?case by (auto intro!: nests_intros nests_line assms)
qed

lemma nests_file:
  "2147483648 - c \<le> int fuel \<Longrightarrow> c \<le> 2147483647 \<Longrightarrow> nests c (processFile fuel h sec name)"
proof (induction fuel arbitrary: c sec name)
  case (Suc fuel)
  have "nests (c + 1) (processFile fuel h sec name)" if "c < 2147483647" for sec name
    using Suc.IH [of "c + 1"] Suc.prems that by simp
  then show ?case by (auto intro!: nests_intros nests_lines)
qed simp

text \<open>More fuel does not change the result.\<close>

definition fuel_same :: "(config, 'a) rc_op \<Rightarrow> (config, 'a) rc_op \<Rightarrow> bool" where
  "fuel_same m n \<longleftrightarrow> (\<forall>s. result m s \<noteq> Inl Undefined \<longrightarrow> run_state n s = run_state m s)"

lemma fuel_same_refl: "fuel_same m m"
  by (simp add: fuel_same_def)

lemma fuel_sameD: "fuel_same m n \<Longrightarrow> result m s \<noteq> Inl Undefined \<Longrightarrow> result n s = result m s \<and> exec n s = exec m s"
  by (simp add: fuel_same_def result_def exec_def)

lemma fuel_sameI: "(\<And>s. result m s \<noteq> Inl Undefined \<Longrightarrow> result n s = result m s \<and> exec n s = exec m s) \<Longrightarrow> fuel_same m n"
  by (simp add: fuel_same_def exec_result)

lemma fuel_same_RC:
  assumes mn: "fuel_same m n" and fg: "\<And>x. fuel_same (f x) (g x)"
  shows "fuel_same (RC_CALL m f) (RC_CALL n g)"
proof (rule fuel_sameI)
  fix s assume r: "result (RC_CALL m f) s \<noteq> Inl Undefined"
  then have "result m s \<noteq> Inl Undefined" by (auto simp: run_RC_cfg)
  note same = fuel_sameD [OF mn this]
  show "result (RC_CALL n g) s = result (RC_CALL m f) s \<and> exec (RC_CALL n g) s = exec (RC_CALL m f) s"
  proof (cases "result m s")
    case (Inl e)
    then show ?thesis using same by (simp add: run_RC_cfg)
  next
    case (Inr x)
    then show ?thesis using r same fuel_sameD [OF fg [of x], of "exec m s"] by (simp add: run_RC_cfg)
  qed
qed

lemma fuel_same_gets: "(\<And>x. fuel_same (f x) (g x)) \<Longrightarrow> fuel_same (gets k \<bind> f) (gets k \<bind> g)"
  by (rule fuel_sameI) (simp add: run_simps fuel_sameD)

lemma fuel_same_modify: "fuel_same m n \<Longrightarrow> fuel_same (modify k \<bind> (\<lambda>_. m)) (modify k \<bind> (\<lambda>_. n))"
  by (rule fuel_sameI) (simp add: run_simps fuel_sameD)

lemma fuel_same_then: "fuel_same m n \<Longrightarrow>
    fuel_same (do { r \<leftarrow> m; modify k; return r }) (do { r \<leftarrow> n; modify k; return r })"
  by (rule fuel_sameI) (simp add: run_simps fuel_sameD)

lemma fuel_same_command: "(\<And>name. fuel_same (f name) (g name)) \<Longrightarrow> fuel_same (cfg_command f p) (cfg_command g p)"
  unfolding cfg_command_def by (simp add: fuel_same_refl fuel_same_gets fuel_same_modify fuel_same_then)

lemma fuel_same_line:
  "(\<And>name. fuel_same (f name) (g name)) \<Longrightarrow> fuel_same (cfg_line f h sec line) (cfg_line g h sec line)"
  unfolding cfg_line_def Let_def
  by (auto intro!: fuel_same_gets fuel_same_RC fuel_same_command simp: fuel_same_refl split: sum.split)

lemma fuel_same_lines:
  "(\<And>sec name. fuel_same (f sec name) (g sec name)) \<Longrightarrow> fuel_same (cfg_lines f h sec ls) (cfg_lines g h sec ls)"
  by (induction ls arbitrary: sec) (auto intro!: fuel_same_RC fuel_same_line simp: fuel_same_refl)

lemma fuel_same_file: "n \<le> m \<Longrightarrow> fuel_same (processFile n h sec name) (processFile m h sec name)"
proof (induction n arbitrary: m sec name)
  case 0
  then show ?case by (simp add: fuel_same_def result_def)
next
  case (Suc n)
  then obtain m' where m: "m = Suc m'" "n \<le> m'" by (metis Suc_le_D Suc_le_mono)
  then show ?case using Suc.IH [OF m(2)]
    by (auto intro!: fuel_same_gets fuel_same_lines simp: fuel_same_refl split: option.split)
qed

lemma open_terminates:
  assumes "2147483648 \<le> fuel"
  shows "nests 0 (CONFIG_open fuel name)"
proof (cases name)
  case (Some f)
  have close: "nests 0 (do { CONFIG_close h; FAIL_RC e })" if "e \<noteq> Undefined" for h and e
    using that unfolding nests_def by (simp add: CONFIG_close_def cfg_run nest_ok_def)
  have "nests 0 (do {
      r \<leftarrow> processFile fuel h None f;
      case r of Inl e \<Rightarrow> do { CONFIG_close h; FAIL_RC e } | Inr _ \<Rightarrow> ok h
    })" for h
    unfolding nests_def
  proof (intro allI impI)
    fix s assume s: "nest_ok 0 s"
    have r: "nest_ok 0 (exec (processFile fuel h None f) s) \<and> result (processFile fuel h None f) s \<noteq> Inl Undefined"
      using nestsD [OF nests_file s] assms by simp
    show "nest_ok 0 (exec (do {
        r \<leftarrow> processFile fuel h None f;
        case r of Inl e \<Rightarrow> do { CONFIG_close h; FAIL_RC e } | Inr _ \<Rightarrow> ok h
      }) s) \<and> result (do {
        r \<leftarrow> processFile fuel h None f;
        case r of Inl e \<Rightarrow> do { CONFIG_close h; FAIL_RC e } | Inr _ \<Rightarrow> ok h
      }) s \<noteq> Inl Undefined"
      using r nestsD [OF close, of _ "exec (processFile fuel h None f) s"]
      by (cases "result (processFile fuel h None f) s") (auto simp: cfg_run)
  qed
  then show ?thesis unfolding CONFIG_open_def Some option.case
    by (auto intro!: nests_intros simp: nest_ok_def split: prod.split)
qed (simp add: CONFIG_open_def nests_intros)

lemma open_fuel_same:
  assumes "n \<le> m"
  shows "fuel_same (CONFIG_open n name) (CONFIG_open m name)"
proof -
  have "fuel_same (do {
      r \<leftarrow> processFile n h None f;
      case r of Inl e \<Rightarrow> do { CONFIG_close h; FAIL_RC e } | Inr _ \<Rightarrow> ok h
    }) (do {
      r \<leftarrow> processFile m h None f;
      case r of Inl e \<Rightarrow> do { CONFIG_close h; FAIL_RC e } | Inr _ \<Rightarrow> ok h
    })" for h f
  proof (rule fuel_sameI)
    fix s assume "result (do {
      r \<leftarrow> processFile n h None f;
      case r of Inl e \<Rightarrow> do { CONFIG_close h; FAIL_RC e } | Inr _ \<Rightarrow> ok h
    }) s \<noteq> Inl Undefined"
    then have "result (processFile n h None f) s \<noteq> Inl Undefined" by (auto simp: cfg_run)
    from fuel_sameD [OF fuel_same_file [OF assms] this] show "result (do {
      r \<leftarrow> processFile m h None f;
      case r of Inl e \<Rightarrow> do { CONFIG_close h; FAIL_RC e } | Inr _ \<Rightarrow> ok h
    }) s = result (do {
      r \<leftarrow> processFile n h None f;
      case r of Inl e \<Rightarrow> do { CONFIG_close h; FAIL_RC e } | Inr _ \<Rightarrow> ok h
    }) s \<and> exec (do {
      r \<leftarrow> processFile m h None f;
      case r of Inl e \<Rightarrow> do { CONFIG_close h; FAIL_RC e } | Inr _ \<Rightarrow> ok h
    }) s = exec (do {
      r \<leftarrow> processFile n h None f;
      case r of Inl e \<Rightarrow> do { CONFIG_close h; FAIL_RC e } | Inr _ \<Rightarrow> ok h
    }) s" by (simp add: run_simps)
  qed
  then show ?thesis unfolding CONFIG_open_def
    by (auto intro!: fuel_same_gets fuel_same_RC fuel_same_modify simp: fuel_same_refl split: option.split prod.split)
qed


section \<open>Lines\<close>

lemma takeWhile_upto: "c \<notin> set xs \<Longrightarrow> takeWhile (\<lambda>x. x \<noteq> c) (xs @ c # ys) = xs"
  "c \<notin> set xs \<Longrightarrow> dropWhile (\<lambda>x. x \<noteq> c) (xs @ c # ys) = c # ys"
  by (induction xs) auto

lemma fgets_whole: "10 \<notin> set l \<Longrightarrow> length l + 2 \<le> n \<Longrightarrow> fgets_line n (l @ 10 # xs) = l @ [10]"
  by (simp add: fgets_line_def takeWhile_upto)

lemma file_lines_line:
  "10 \<notin> set l \<Longrightarrow> length l + 2 \<le> n \<Longrightarrow> file_lines n (l @ 10 # xs) = (l @ [10]) # file_lines n xs"
  by (subst file_lines.simps) (simp add: fgets_whole)

lemma file_lines_Nil [simp]: "file_lines n [] = []"
  by (simp add: file_lines.simps)

text \<open>A text that neither begins nor ends with white space.\<close>

definition trimmed_text :: "u8 list \<Rightarrow> bool" where
  "trimmed_text xs \<longleftrightarrow> xs \<noteq> [] \<and> \<not> isspace (hd xs) \<and> \<not> isspace (last xs)"

lemma strip_trimmed: "trimmed_text xs \<Longrightarrow> stripWhiteSpace xs = xs"
proof -
  assume a: "trimmed_text xs"
  then have "dropWhile isspace xs = xs" by (cases xs) (auto simp: trimmed_text_def)
  moreover have "dropWhile isspace (rev xs) = rev xs"
    using a by (cases xs rule: rev_cases) (auto simp: trimmed_text_def)
  ultimately show ?thesis by (simp add: stripWhiteSpace_def)
qed

lemma strip_line: "trimmed_text xs \<Longrightarrow> stripWhiteSpace (xs @ [10]) = xs"
proof -
  assume a: "trimmed_text xs"
  then have "dropWhile isspace (xs @ [10]) = xs @ [10]" by (cases xs) (auto simp: trimmed_text_def)
  moreover have "isspace 10" by (simp add: isspace_def)
  moreover have "dropWhile isspace (rev xs) = rev xs"
    using a by (cases xs rule: rev_cases) (auto simp: trimmed_text_def)
  ultimately show ?thesis by (simp add: stripWhiteSpace_def)
qed


section \<open>A file that lists sections\<close>

definition param_line :: "u8 list \<times> u8 list \<Rightarrow> u8 list" where
  "param_line p = fst p @ [61, 34] @ snd p @ [34]"

definition section_line :: "u8 list \<Rightarrow> u8 list" where
  "section_line name = 91 # name @ [93]"

definition config_lines :: "cfg_section list \<Rightarrow> u8 list list" where
  "config_lines ss = concat (map (\<lambda>x. section_line (pSectionName x) # map param_line (sec_parameters x)) ss)"

definition config_text :: "cfg_section list \<Rightarrow> u8 list" where
  "config_text ss = concat (map (\<lambda>l. l @ [10]) (config_lines ss))"

definition plain_param :: "u8 list \<times> u8 list \<Rightarrow> bool" where
  "plain_param p \<longleftrightarrow> trimmed_text (fst p) \<and> hd (fst p) \<notin> {35, 33, 91, 37} \<and> 61 \<notin> set (fst p) \<and>
     set (fst p @ snd p) \<inter> {0, 10} = {} \<and> length (snd p) < 256 \<and> length (fst p) + length (snd p) \<le> 267"

definition plain_section :: "cfg_section \<Rightarrow> bool" where
  "plain_section x \<longleftrightarrow> stripWhiteSpace (pSectionName x) = pSectionName x \<and> 93 \<notin> set (pSectionName x) \<and>
     set (pSectionName x) \<inter> {0, 10} = {} \<and> length (pSectionName x) \<le> 268 \<and> (\<forall>p \<in> set (sec_parameters x). plain_param p)"

lemma file_lines_text:
  "\<forall>l \<in> set ls. 10 \<notin> set l \<and> length l + 2 \<le> n \<Longrightarrow> file_lines n (concat (map (\<lambda>l. l @ [10]) ls)) = map (\<lambda>l. l @ [10]) ls"
  by (induction ls) (simp_all add: file_lines_line)

lemma config_file_lines:
  assumes "\<forall>x \<in> set ss. plain_section x"
  shows "file_lines 272 (config_text ss) = map (\<lambda>l. l @ [10]) (config_lines ss)"
  unfolding config_text_def
proof (rule file_lines_text, rule ballI)
  fix l assume "l \<in> set (config_lines ss)"
  then obtain x where x: "x \<in> set ss" and l: "l = section_line (pSectionName x) \<or> (\<exists>p \<in> set (sec_parameters x). l = param_line p)"
    by (auto simp: config_lines_def)
  from l show "10 \<notin> set l \<and> length l + 2 \<le> 272"
    using assms x by (fastforce simp: plain_section_def plain_param_def section_line_def param_line_def)
qed

text \<open>The states while the file is read into the entry at \<open>h\<close>.\<close>

definition cfg_reading :: "ptr \<Rightarrow> config \<Rightarrow> bool" where
  "cfg_reading h s \<longleftrightarrow> h \<in> fst ` set (configFiles s) \<and> (\<forall>n. \<not> cg_allocFail s n)"

lemma cfg_of_upd:
  assumes "h \<in> fst ` set (configFiles s)"
  shows "cfg_of h (s\<lparr>cg_allocs := n, configFiles := map (\<lambda>(k, c). (k, if k = h then f c else c)) (configFiles s)\<rparr>) = f (cfg_of h s)"
proof -
  have "h \<in> fst ` set xs \<Longrightarrow> the (map_of (map (\<lambda>(k, c). (k, if k = h then f c else c)) xs) h) = f (the (map_of xs h))" for xs
    by (induction xs) auto
  then show ?thesis using assms by (simp add: cfg_of_def)
qed

lemma param_line_run:
  fixes s h p xs y inc
  assumes r: "cfg_reading h s" and p: "plain_param p" and sec: "sections (cfg_of h s) = xs @ [y]"
  defines "s' \<equiv> exec (cfg_line inc h (Some (length xs)) (param_line p @ [10])) s"
  shows "result (cfg_line inc h (Some (length xs)) (param_line p @ [10])) s = Inr (Some (length xs))" "cfg_reading h s'"
    "sections (cfg_of h s') = xs @ [y\<lparr>sec_parameters := sec_parameters y @ [p]\<rparr>]"
proof -
  obtain ty v where pv: "p = (ty, v)" by (cases p)
  have ty: "trimmed_text ty" "hd ty \<notin> {35, 33, 91, 37}" "61 \<notin> set ty" using p by (simp_all add: plain_param_def pv)
  have quote: "\<not> isspace 34" by (simp add: isspace_def)
  have whole: "trimmed_text (param_line p)"
    using ty(1) quote by (simp add: param_line_def pv trimmed_text_def)
  have line: "param_line p \<noteq> []" "hd (param_line p) = hd ty"
    using ty(1) by (simp_all add: param_line_def pv trimmed_text_def)
  have parts: "takeWhile (\<lambda>c. c \<noteq> 61) (param_line p) = ty" "tl (dropWhile (\<lambda>c. c \<noteq> 61) (param_line p)) = 34 # v @ [34]"
    "61 \<in> set (param_line p)"
    using takeWhile_upto [OF ty(3)] by (simp_all add: param_line_def pv)
  have "trimmed_text (34 # v @ [34])" using quote by (simp add: trimmed_text_def)
  note strips = strip_trimmed [OF this] strip_trimmed [OF ty(1)]
  have val: "cfg_value h (34 # v @ [34]) s = Inr v" for s by (simp add: cfg_value_def)
  have "cfg_line inc h (Some (length xs)) (param_line p @ [10]) =
      RC_CALL (newParameter h (length xs) ty (34 # v @ [34])) (\<lambda>_. ok (Some (length xs)))"
    using ty(2) by (simp add: cfg_line_def Let_def strip_line [OF whole] line parts)
  moreover have "\<not> cg_allocFail s (cg_allocs s)" "h \<in> fst ` set (configFiles s)" using r by (simp_all add: cfg_reading_def)
  ultimately show "result (cfg_line inc h (Some (length xs)) (param_line p @ [10])) s = Inr (Some (length xs))"
    "sections (cfg_of h s') = xs @ [y\<lparr>sec_parameters := sec_parameters y @ [p]\<rparr>]" "cfg_reading h s'"
    using r by (simp_all add: s'_def newParameter_def strips val cfg_run cfg_of_upd sec pv nth_append cfg_reading_def image_image case_prod_beta)
qed

lemma section_line_run:
  fixes s h name inc sec
  assumes r: "cfg_reading h s" and name: "stripWhiteSpace name = name" "93 \<notin> set name"
  defines "s' \<equiv> exec (cfg_line inc h sec (section_line name @ [10])) s"
  shows "result (cfg_line inc h sec (section_line name @ [10])) s = Inr (Some (length (sections (cfg_of h s))))" "cfg_reading h s'"
    "sections (cfg_of h s') = sections (cfg_of h s) @ [\<lparr>pSectionName = name, sec_parameters = []\<rparr>]"
proof -
  have whole: "trimmed_text (section_line name)" by (simp add: section_line_def trimmed_text_def isspace_def)
  have line: "section_line name \<noteq> []" "hd (section_line name) = 91" "tl (section_line name) = name @ [93]"
    by (simp_all add: section_line_def)
  have "cfg_line inc h sec (section_line name @ [10]) = RC_CALL (newSection h name) (\<lambda>n. ok (Some n))"
    using takeWhile_upto(1) [OF name(2), of "[]"] by (simp add: cfg_line_def Let_def strip_line [OF whole] line)
  moreover have "\<not> cg_allocFail s (cg_allocs s)" "h \<in> fst ` set (configFiles s)" using r by (simp_all add: cfg_reading_def)
  moreover have "cfg_of h (s\<lparr>cg_allocs := n\<rparr>) = cfg_of h s" for n by (simp add: cfg_of_def)
  ultimately show "result (cfg_line inc h sec (section_line name @ [10])) s = Inr (Some (length (sections (cfg_of h s))))"
    "sections (cfg_of h s') = sections (cfg_of h s) @ [\<lparr>pSectionName = name, sec_parameters = []\<rparr>]" "cfg_reading h s'"
    using r by (simp_all add: s'_def newSection_def cfg_run cfg_of_upd name cfg_reading_def image_image case_prod_beta)
qed

lemma params_run:
  assumes "cfg_reading h s" and "\<forall>p \<in> set ps. plain_param p" and "sections (cfg_of h s) = xs @ [y]"
  shows "\<exists>s'. run_state (cfg_lines inc h (Some (length xs)) (map (\<lambda>p. param_line p @ [10]) ps @ ls)) s =
      run_state (cfg_lines inc h (Some (length xs)) ls) s' \<and> cfg_reading h s' \<and>
      sections (cfg_of h s') = xs @ [y\<lparr>sec_parameters := sec_parameters y @ ps\<rparr>]"
  using assms
proof (induction ps arbitrary: s y)
  case Nil
  then show ?case by auto
next
  case (Cons p ps)
  let ?s = "exec (cfg_line (inc (Some (length xs))) h (Some (length xs)) (param_line p @ [10])) s"
  have p: "plain_param p" using Cons.prems by simp
  note one = param_line_run [OF Cons.prems(1) p Cons.prems(3), of "inc (Some (length xs))"]
  obtain s' where "run_state (cfg_lines inc h (Some (length xs)) (map (\<lambda>p. param_line p @ [10]) ps @ ls)) ?s =
      run_state (cfg_lines inc h (Some (length xs)) ls) s'" "cfg_reading h s'"
      "sections (cfg_of h s') = xs @ [y\<lparr>sec_parameters := (sec_parameters y @ [p]) @ ps\<rparr>]"
    using Cons.IH [OF one(2) _ one(3)] Cons.prems(2) by auto
  moreover have "run_state (cfg_lines inc h (Some (length xs)) (map (\<lambda>p. param_line p @ [10]) (p # ps) @ ls)) s =
      run_state (cfg_lines inc h (Some (length xs)) (map (\<lambda>p. param_line p @ [10]) ps @ ls)) ?s"
    using one(1) by (simp add: exec_result run_RC_cfg)
  ultimately show ?case by auto
qed

lemma sections_run:
  assumes "cfg_reading h s" and "\<forall>x \<in> set ss. plain_section x"
  shows "\<exists>s'. run_state (cfg_lines inc h sec (map (\<lambda>l. l @ [10]) (config_lines ss))) s = (Inr (), s') \<and>
      sections (cfg_of h s') = sections (cfg_of h s) @ ss"
  using assms
proof (induction ss arbitrary: s sec)
  case Nil
  then show ?case by (auto simp: config_lines_def exec_result run_RC_cfg)
next
  case (Cons x ss)
  let ?n = "length (sections (cfg_of h s))"
  let ?s = "exec (cfg_line (inc sec) h sec (section_line (pSectionName x) @ [10])) s"
  let ?rest = "map (\<lambda>l. l @ [10]) (config_lines ss)"
  have x: "stripWhiteSpace (pSectionName x) = pSectionName x" "93 \<notin> set (pSectionName x)" "\<forall>p \<in> set (sec_parameters x). plain_param p"
    using Cons.prems(2) by (simp_all add: plain_section_def)
  note head = section_line_run [OF Cons.prems(1) x(1,2), of "inc sec" sec]
  obtain s1 where s1: "run_state (cfg_lines inc h (Some ?n) (map (\<lambda>p. param_line p @ [10]) (sec_parameters x) @ ?rest)) ?s =
      run_state (cfg_lines inc h (Some ?n) ?rest) s1" "cfg_reading h s1" "sections (cfg_of h s1) = sections (cfg_of h s) @ [x]"
    using params_run [OF head(2) x(3) head(3), of inc ?rest] by auto
  obtain s2 where s2: "run_state (cfg_lines inc h (Some ?n) ?rest) s1 = (Inr (), s2)"
      "sections (cfg_of h s2) = sections (cfg_of h s) @ x # ss"
    using Cons.IH [OF s1(2)] Cons.prems(2) s1(3) by auto
  have "map (\<lambda>l. l @ [10]) (config_lines (x # ss)) =
      (section_line (pSectionName x) @ [10]) # map (\<lambda>p. param_line p @ [10]) (sec_parameters x) @ ?rest"
    by (simp add: config_lines_def comp_def)
  then have "run_state (cfg_lines inc h sec (map (\<lambda>l. l @ [10]) (config_lines (x # ss)))) s =
      run_state (cfg_lines inc h (Some ?n) (map (\<lambda>p. param_line p @ [10]) (sec_parameters x) @ ?rest)) ?s"
    using head(1) by (simp add: exec_result run_RC_cfg)
  then show ?case using s1 s2 by auto
qed

lemma find_parameter_find:
  "find_parameter sec ty ss = find (\<lambda>(n, v). OS_strcasecmp_eq ty n)
     (concat (map sec_parameters (filter (\<lambda>x. OS_strcasecmp_eq sec (pSectionName x)) ss)))"
proof -
  have app: "find P (xs @ ys) = (case find P xs of None \<Rightarrow> find P ys | Some x \<Rightarrow> Some x)" for P :: "'a \<Rightarrow> bool" and xs ys
    by (induction xs) auto
  show ?thesis by (induction ss) (auto simp: app split: option.split)
qed


section \<open>The files in use\<close>

text \<open>A program that changes, of the open files, at most what is in the entry at \<open>h\<close>, and not its count.\<close>

definition cfg_others :: "ptr \<Rightarrow> config \<Rightarrow> (ptr \<times> cfg_file) list" where
  "cfg_others h s = filter (\<lambda>(k, c). k \<noteq> h) (configFiles s)"

definition counts :: "config \<Rightarrow> (ptr \<times> u32) list" where
  "counts s = map (\<lambda>(k, c). (k, referenceCount c)) (configFiles s)"

definition stays_in :: "ptr \<Rightarrow> (config, 'a) state \<Rightarrow> bool" where
  "stays_in h m \<longleftrightarrow> (\<forall>s. cfg_others h (exec m s) = cfg_others h s \<and> counts (exec m s) = counts s)"

named_theorems stays_intros

lemma staysD: "stays_in h m \<Longrightarrow> cfg_others h (exec m s) = cfg_others h s \<and> counts (exec m s) = counts s"
  by (simp add: stays_in_def)

lemma stays_RC [stays_intros]: "stays_in h m \<Longrightarrow> (\<And>x. stays_in h (f x)) \<Longrightarrow> stays_in h (RC_CALL m f)"
  by (simp add: stays_in_def run_RC_cfg split: sum.split)

lemma stays_bind [stays_intros]: "stays_in h m \<Longrightarrow> (\<And>x. stays_in h (f x)) \<Longrightarrow> stays_in h (m \<bind> f)"
  by (simp add: stays_in_def run_simps)

lemma stays_basic [stays_intros]:
  "stays_in h (ok x)" "stays_in h (return x)" "stays_in h (FAIL_RC e)" "stays_in h cfg_alloc" "stays_in h (gets g)"
  by (simp_all add: stays_in_def cfg_run cfg_others_def counts_def)

lemma stays_modify [stays_intros]: "(\<And>s. configFiles (f s) = configFiles s) \<Longrightarrow> stays_in h (modify f)"
  by (simp add: stays_in_def cfg_run cfg_others_def counts_def)

lemma stays_upd [stays_intros]:
  assumes "\<And>c. referenceCount (f c) = referenceCount c"
  shows "stays_in h (upd_cfg h f)"
proof -
  have "filter (\<lambda>(k, c). k \<noteq> h) (map (\<lambda>(k, c). (k, if k = h then f c else c)) xs) = filter (\<lambda>(k, c). k \<noteq> h) xs" for xs
    by (induction xs) auto
  then show ?thesis using assms by (auto simp: stays_in_def cfg_run cfg_others_def counts_def)
qed

lemma stays_if [stays_intros]: "stays_in h m \<Longrightarrow> stays_in h n \<Longrightarrow> stays_in h (if b then m else n)"
  by simp

lemma stays_cases [stays_intros]:
  "(\<And>e. stays_in h (f e)) \<Longrightarrow> (\<And>x. stays_in h (g x)) \<Longrightarrow> stays_in h (case r of Inl e \<Rightarrow> f e | Inr x \<Rightarrow> g x)"
  "stays_in h m \<Longrightarrow> (\<And>x. stays_in h (k x)) \<Longrightarrow> stays_in h (case v of None \<Rightarrow> m | Some x \<Rightarrow> k x)"
  by (cases r; simp) (cases v; simp)

lemma stays_new: "stays_in h (newMacro h n d)" "stays_in h (newParameter h k n d)" "stays_in h (newSection h n)"
  unfolding newMacro_def newParameter_def newSection_def by (intro stays_intros; simp)+

lemma stays_command: "(\<And>name. stays_in h (inc name)) \<Longrightarrow> stays_in h (cfg_command inc p)"
  unfolding cfg_command_def cfg_setting_def by (intro stays_intros; simp)

lemma stays_line: "(\<And>name. stays_in h (inc name)) \<Longrightarrow> stays_in h (cfg_line inc h sec line)"
  unfolding cfg_line_def Let_def by (intro stays_intros stays_new stays_command; simp)

lemma stays_lines: "(\<And>sec name. stays_in h (inc sec name)) \<Longrightarrow> stays_in h (cfg_lines inc h sec ls)"
  by (induction ls arbitrary: sec) (auto intro!: stays_intros stays_line)

lemma stays_file: "stays_in h (processFile fuel h sec name)"
proof (induction fuel arbitrary: sec name)
  case (Suc fuel)
  then show ?case by (auto intro!: stays_intros stays_lines)
qed (simp add: stays_intros)

end
