(* ===== verification/Cfg_Properties.thy ===== *)
theory Cfg_Properties
  imports Cfg_Read
begin

text \<open>
  The properties of configuration files, each with an example.
\<close>

section \<open>What an expansion writes\<close>

definition room_ok :: "rc + u8 list \<Rightarrow> nat \<Rightarrow> bool" where
  "room_ok r room \<longleftrightarrow> (\<forall>ys. r = Inr ys \<longrightarrow> length ys \<le> room)"

lemma room_ok_simps:
  "room_ok (Inl e) room" "room_ok (Inr []) room"
  "\<not> room < length v \<Longrightarrow> room_ok r (room - length v) \<Longrightarrow> room_ok (result_map (\<lambda>ys. v @ ys) r) room"
  "room \<noteq> 0 \<Longrightarrow> room_ok r (room - 1) \<Longrightarrow> room_ok (result_map (\<lambda>ys. x # ys) r) room"
  by (cases r; auto simp: room_ok_def result_map_def)+

lemma room_ok_branches:
  "(b \<Longrightarrow> room_ok r n) \<Longrightarrow> (\<not> b \<Longrightarrow> room_ok q n) \<Longrightarrow> room_ok (if b then r else q) n"
  "(v = None \<Longrightarrow> room_ok r n) \<Longrightarrow> (\<And>x. v = Some x \<Longrightarrow> room_ok (f x) n) \<Longrightarrow>
    room_ok (case v of None \<Rightarrow> r | Some x \<Rightarrow> f x) n"
  by (cases v; simp)+

lemma expand_macros_length: "room_ok (expand_macros val room xs) room"
proof (induction val room xs rule: expand_macros.induct)
  case (2 val room x xs)
  show ?case unfolding expand_macros.simps
    by (intro room_ok_branches room_ok_simps) ((rule 2(1) | rule 2(2) | rule 2(3)); assumption | assumption)+
qed (simp add: room_ok_simps)

lemma expand_commands_length: "room_ok (expand_commands popen room xs) room"
proof (induction popen room xs rule: expand_commands.induct)
  case (2 popen room x xs)
  show ?case unfolding expand_commands.simps Let_def
    by (intro room_ok_branches room_ok_simps) ((rule 2(1) [OF _ _ refl] | rule 2(2)); assumption | assumption)+
qed (simp add: room_ok_simps)

lemma expand_length: "expand h n xs s = Inr ys \<Longrightarrow> length ys \<le> n"
  using expand_commands_length by (auto simp: expand_def room_ok_def split: sum.splits)

text \<open>
  What contains no request is copied, also when it fills the buffer: the terminating zero octet is then
  written to the place after it.
\<close>

lemma expand_plain:
  assumes "set xs \<inter> {36, 96} = {}" and "length xs \<le> CONFIG_MAX_PARAMETER_LEN" and "length xs \<le> n"
  shows "expand h n xs s = Inr xs"
proof -
  have "set xs \<inter> {36, 96} = {} \<Longrightarrow> length xs \<le> r \<Longrightarrow> expand_macros val r xs = Inr xs" for val r
    by (induction xs arbitrary: r) (auto simp: result_map_def)
  moreover have "set xs \<inter> {36, 96} = {} \<Longrightarrow> length xs \<le> r \<Longrightarrow> expand_commands popen r xs = Inr xs" for popen r
    by (induction xs arbitrary: r) (auto simp: result_map_def)
  ultimately show ?thesis using assms by (simp add: expand_def)
qed

lemma expand_beyond: "\<exists>ys. expand h CONFIG_MAX_PARAMETER_LEN (replicate 256 97) s = Inr ys \<and> length ys = CONFIG_MAX_PARAMETER_LEN"
  using expand_plain [of "replicate 256 97" CONFIG_MAX_PARAMETER_LEN h s] by (simp add: CONFIG_MAX_PARAMETER_LEN_def)


section \<open>Opening and closing\<close>

lemma count_of: "map_of (counts s) h = Some n \<Longrightarrow> h \<in> fst ` set (configFiles s) \<and> referenceCount (cfg_of h s) = n"
  by (auto simp: counts_def map_of_map cfg_of_def intro: rev_image_eqI dest: map_of_SomeD)

lemma run_CONFIG_close:
  assumes "map_of (counts s) h = Some n"
  shows "configFiles (exec (CONFIG_close h) s) = (if n = 1 then cfg_others h s
    else map (\<lambda>(k, c). (k, if k = h then c\<lparr>referenceCount := referenceCount c - 1\<rparr> else c)) (configFiles s))"
proof -
  have h: "h \<in> fst ` set (configFiles s)" "referenceCount (cfg_of h s) = n" using count_of [OF assms] by simp_all
  have "filter (\<lambda>(k, c). k \<noteq> h) (map (\<lambda>(k, c). (k, if k = h then f c else c)) xs) = filter (\<lambda>(k, c). k \<noteq> h) xs"
    for f and xs :: "(ptr \<times> cfg_file) list" by (induction xs) auto
  then show ?thesis
    using cfg_of_upd [OF h(1), where n = "cg_allocs s" and f = "\<lambda>c. c\<lparr>referenceCount := referenceCount c - 1\<rparr>"] h(2)
    by (simp add: CONFIG_close_def cfg_run cfg_others_def)
qed

lemma count_upd:
  "map_of (configFiles s) h = Some c \<Longrightarrow> map_of (counts (exec (upd_cfg h f) s)) h = Some (referenceCount (f c))"
proof -
  have "map_of xs h = Some c \<Longrightarrow>
      map_of (map (\<lambda>(k, c). (k, referenceCount c)) (map (\<lambda>(k, c). (k, if k = h then f c else c)) xs)) h = Some (referenceCount (f c))"
    for xs by (induction xs) (auto split: if_splits)
  then show "map_of (configFiles s) h = Some c \<Longrightarrow> map_of (counts (exec (upd_cfg h f) s)) h = Some (referenceCount (f c))"
    by (simp add: counts_def run_upd_cfg)
qed

text \<open>The entry of a file that is read for the first time.\<close>

definition new_entry :: "u8 list \<Rightarrow> config \<Rightarrow> config" where
  "new_entry name s = s\<lparr>cg_allocs := cg_allocs s + 1, configFiles := configFiles s @
     [(cg_allocs s + 1, \<lparr>pFileName = name, sections = [], macros = [], referenceCount = 1\<rparr>)]\<rparr>"

lemma find_file_None: "(\<forall>(k, c) \<in> set xs. pFileName c \<noteq> name) \<Longrightarrow> find (\<lambda>(k, c). name = pFileName c) xs = None"
  by (induction xs) auto

lemma CONFIG_open_new:
  assumes "find (\<lambda>(k, c). name = pFileName c) (configFiles s) = None" and "\<not> cg_allocFail s (cg_allocs s)"
  shows "run_state (CONFIG_open fuel (Some name)) s =
    (case run_state (processFile fuel (cg_allocs s + 1) None name) (new_entry name s) of
       (Inl e, s') \<Rightarrow> (Inl e, exec (CONFIG_close (cg_allocs s + 1)) s')
     | (Inr _, s') \<Rightarrow> (Inr (cg_allocs s + 1), s'))"
  using assms by (simp add: CONFIG_open_def exec_result cfg_run new_entry_def split: sum.split)

lemma new_entry_facts:
  assumes "\<forall>(k, c) \<in> set (configFiles s). k \<le> cg_allocs s"
  shows "cfg_others (cg_allocs s + 1) (new_entry name s) = configFiles s"
    "map_of (counts (new_entry name s)) (cg_allocs s + 1) = Some 1"
    "sections (cfg_of (cg_allocs s + 1) (new_entry name s)) = []"
proof -
  have fresh: "map_of (configFiles s) (Suc (cg_allocs s)) = None" using assms by (fastforce simp: map_of_eq_None_iff)
  have "filter (\<lambda>(k, c). k \<noteq> Suc (cg_allocs s)) (configFiles s) = configFiles s" using assms by (fastforce simp: filter_id_conv)
  then show "cfg_others (cg_allocs s + 1) (new_entry name s) = configFiles s" by (simp add: cfg_others_def new_entry_def)
  show "map_of (counts (new_entry name s)) (cg_allocs s + 1) = Some 1"
    "sections (cfg_of (cg_allocs s + 1) (new_entry name s)) = []"
    using fresh by (simp_all add: counts_def new_entry_def map_of_map cfg_of_def map_add_def)
qed


section \<open>Examples\<close>

text \<open>The file \<open>a\<close> has the section \<open>S\<close> with \<open>k="v"\<close>; \<open>b\<close> includes itself.\<close>

definition example_sections :: "cfg_section list" where
  "example_sections = [\<lparr>pSectionName = [83], sec_parameters = [([107], [118])]\<rparr>]"

definition example_config :: config where
  "example_config = \<lparr>configFiles = [], nestCount = 0, maxNest = 2, cg_allocs = 0, cg_printed = [],
     cg_files = [[97] \<mapsto> config_text example_sections, [98] \<mapsto> [33, 105, 110, 99, 108, 117, 100, 101, 32, 98]],
     cg_getenv = Map.empty, cg_popen = Map.empty, cg_setup = (\<lambda>_ _. True), cg_allocFail = (\<lambda>_. False)\<rparr>"


lemma example_included: "result (CONFIG_open 4 (Some [98])) example_config = Inl UnsupportedOption"
  by code_simp

lemma example_opened: "result (CONFIG_open 1 (Some [97])) example_config = Inr 1"
  by code_simp


section \<open>Properties\<close>

text \<open>
  C23. A file that consists of sections with quoted values is read as those sections, in their order: after
  \<^verbatim>\<open>CONFIG_open\<close> the entry of the file holds them, and \<^verbatim>\<open>CONFIG_getString\<close> delivers the first value with
  the name that any section with the name of the section has, whatever the case of the letters, and
  fails when there is none. The lines fit the buffer, and memory is not used up.
\<close>

theorem config_read:
  assumes "\<forall>x \<in> set ss. plain_section x" "cg_files s name = Some (config_text ss)"
    and "\<forall>(k, c) \<in> set (configFiles s). k \<le> cg_allocs s \<and> pFileName c \<noteq> name"
    and "\<forall>n. \<not> cg_allocFail s n" "0 < fuel"
  shows "\<exists>h s'. run_state (CONFIG_open fuel (Some name)) s = (Inr h, s') \<and> sections (cfg_of h s') = ss \<and>
    (\<forall>sec ty. CONFIG_getString h sec ty s' =
       (case find (\<lambda>(n, v). OS_strcasecmp_eq ty n)
           (concat (map sec_parameters (filter (\<lambda>x. OS_strcasecmp_eq sec (pSectionName x)) ss))) of
          None \<Rightarrow> Inl Fail | Some (n, v) \<Rightarrow> Inr v))"
proof -
  let ?h = "cg_allocs s + 1"
  obtain f where fuel: "fuel = Suc f" using assms(5) by (cases fuel) simp_all
  have "find (\<lambda>(k, c). name = pFileName c) (configFiles s) = None" using assms(3) by (intro find_file_None) auto
  note open_run = CONFIG_open_new [OF this, of fuel]
  have "\<forall>(k, c) \<in> set (configFiles s). k \<le> cg_allocs s" using assms(3) by auto
  note entry = new_entry_facts [OF this, of name]
  have "cfg_reading ?h (new_entry name s)" using assms(4) by (simp add: cfg_reading_def new_entry_def)
  from sections_run [OF this assms(1), where inc = "processFile f ?h" and sec = None] obtain s' where s':
    "run_state (cfg_lines (processFile f ?h) ?h None (map (\<lambda>l. l @ [10]) (config_lines ss))) (new_entry name s) = (Inr (), s')"
    "sections (cfg_of ?h s') = ss" using entry(3) by auto
  have "cg_files (new_entry name s) name = Some (config_text ss)" using assms(2) by (simp add: new_entry_def)
  then have "run_state (processFile fuel ?h None name) (new_entry name s) = (Inr (), s')"
    using s'(1) config_file_lines [OF assms(1)] by (simp add: fuel exec_result cfg_run CONFIG_MAX_PARAMETER_LEN_def)
  then show ?thesis using open_run assms(4) s'(2)
    by (simp add: CONFIG_getString_def findParameter_def find_parameter_find)
qed

theorem config_read_witness:
  "\<exists>h s'. run_state (CONFIG_open 1 (Some [97])) example_config = (Inr h, s') \<and>
     CONFIG_getString h [115] [75] s' = Inr [118]"
proof -
  have "\<forall>x \<in> set example_sections. plain_section x"
    by (simp add: example_sections_def plain_section_def plain_param_def trimmed_text_def isspace_def stripWhiteSpace_def)
  from config_read [OF this, of example_config "[97]" 1]
  obtain h s' where r: "run_state (CONFIG_open 1 (Some [97])) example_config = (Inr h, s')" and
    "\<forall>sec ty. CONFIG_getString h sec ty s' =
       (case find (\<lambda>(n, v). OS_strcasecmp_eq ty n)
           (concat (map sec_parameters (filter (\<lambda>x. OS_strcasecmp_eq sec (pSectionName x)) example_sections))) of
          None \<Rightarrow> Inl Fail | Some (n, v) \<Rightarrow> Inr v)"
    by (auto simp: example_config_def)
  then have "CONFIG_getString h [115] [75] s' = Inr [118]"
    by (simp add: example_sections_def OS_strcasecmp_eq_def tolower_def)
  then show ?thesis using r by blast
qed



text \<open>
  C25. Opening and closing leave nothing behind: when \<^verbatim>\<open>CONFIG_open\<close> fails, the queue of open files is as it was,
  and when it delivers a handle, \<^verbatim>\<open>CONFIG_close\<close> of it restores the queue, whether the
  file was in use or has been read.
\<close>

theorem config_close_open:
  assumes "distinct (map fst (configFiles s))"
    and "\<forall>(k, c) \<in> set (configFiles s). k \<le> cg_allocs s \<and> referenceCount c \<noteq> 0"
  shows "case run_state (CONFIG_open fuel pName) s of
      (Inl e, s') \<Rightarrow> configFiles s' = configFiles s
    | (Inr h, s') \<Rightarrow> configFiles (exec (CONFIG_close h) s') = configFiles s"
proof (cases pName)
  case None
  then show ?thesis by (simp add: CONFIG_open_def exec_result run_RC_cfg)
next
  case (Some name)
  note name = Some
  show ?thesis
  proof (cases "find (\<lambda>(k, c). name = pFileName c) (configFiles s)")
    case None
    show ?thesis
    proof (cases "cg_allocFail s (cg_allocs s)")
      case True
      then show ?thesis by (simp add: name None CONFIG_open_def exec_result cfg_run)
    next
      case False
      let ?h = "cg_allocs s + 1" and ?m = "processFile fuel (cg_allocs s + 1) None name"
      have "\<forall>(k, c) \<in> set (configFiles s). k \<le> cg_allocs s" using assms(2) by auto
      note entry = new_entry_facts [OF this, of name]
      note w = staysD [OF stays_file, of ?h fuel None name "new_entry name s"]
      have "configFiles (exec (CONFIG_close ?h) (exec ?m (new_entry name s))) = configFiles s"
        using run_CONFIG_close [of "exec ?m (new_entry name s)" ?h 1] w entry by simp
      then show ?thesis unfolding name CONFIG_open_new [OF None False]
        by (simp add: exec_result split: sum.split)
    qed
  next
    case (Some p)
    obtain h c where p: "p = (h, c)" by (cases p)
    have hc: "(h, c) \<in> set (configFiles s)" using Some p by (auto simp: find_Some_iff in_set_conv_nth)
    then have c: "map_of (configFiles s) h = Some c" "referenceCount c \<noteq> 0" using assms by (auto intro: map_of_is_SomeI)
    let ?s = "exec (upd_cfg h (\<lambda>c. c\<lparr>referenceCount := referenceCount c + 1\<rparr>)) s"
    have "referenceCount c + 1 \<noteq> 1" using c(2) by simp
    then have "configFiles (exec (CONFIG_close h) ?s) = configFiles s"
      using run_CONFIG_close [OF count_upd [OF c(1)]] by (simp add: run_upd_cfg comp_def case_prod_beta if_distrib cong: if_cong, intro map_idI) auto
    then show ?thesis using name Some p by (simp add: CONFIG_open_def exec_result cfg_run)
  qed
qed

theorem config_close_open_witness:
  "configFiles (exec (CONFIG_open 4 (Some [98])) example_config) = [] \<and>
   configFiles (exec (CONFIG_close 1) (exec (CONFIG_open 1 (Some [97])) example_config)) = []"
proof -
  have start: "configFiles example_config = []" by (simp add: example_config_def)
  then show ?thesis
    using config_close_open [of example_config 4 "Some [98]"] config_close_open [of example_config 1 "Some [97]"]
    unfolding exec_result prod.case example_included example_opened by simp
qed

end
