(* ===== verification/Spec2Isabelle.thy ===== *)
theory Spec2Isabelle
  imports Lib_Properties Ber_Properties Ua_Properties Nvm_Properties Cfg_Properties
begin

text \<open>
  Verification of the ESROS protocol engine of EMSD (RFC 2188, Efficient Short Remote Operations),
  of the encoding of EMSD messages (RFC 2524) by ASN.1 tables, of the core of the EMSD user agent, and
  of the libraries these are built on. The C sources are under \<^verbatim>\<open>src/src\<close>, the engine in
  \<^verbatim>\<open>esros/erop_eng\<close>, the tables in \<^verbatim>\<open>emsd/emsd\<close>, the user agent in \<^verbatim>\<open>emsd/ua/uacore\<close>, the libraries
  in \<^verbatim>\<open>multiocp\<close>.

  The program. A user binds a service access point and invokes operations at a peer. Every
  operation is an invocation, a finite state machine with its data (\<^verbatim>\<open>InvokeInfo\<close>): an
  invoker at the side that asks, a performer at the other, each with a 3-way handshake (invoke,
  result, acknowledgement) or a 2-way handshake. PDUs travel in UDP datagrams; lost ones are sent
  again on a timer, from a copy kept as a second view of the same buffer. The user's functions are
  called from tasks of a cooperative scheduler. Reference numbers identify an invocation to the
  peer, and stay in use for a while after its end.

  The octets that an operation carries are an EMSD PDU, in the basic encoding rules. A tree of
  table entries says where in a C structure the elements of a PDU are (\<^verbatim>\<open>ASN_newTableEntry\<close>, called
  by one compile function for every type of PDU and part); one formatter and one parser interpret
  the tree. They work on buffers, which are lists of segments of strings: the formatter prepends
  octets and whole strings, from the last element to the first; the parser takes octets and chunks.

  The user agent submits messages for a shell and delivers those that arrive. Every message is an
  operation with a machine: the submission formats the message, cuts it into segments when it is too
  long for one request, and waits for each result; the performer collects the segments of a
  delivery, parses the message and hands it to the shell. An operation carries a list of what
  must be freed with it, and belongs to one of two pools that bound how many there are. What must
  survive the program is in a block of memory that is kept in a file: groups of allocations
  (transactions) by handle, which move when one of them is freed.

  The theories, from the bottom, and the code they model:

  \<^item> Prelude: the machine types and the state monad with its rules (\<open>keeps\<close>, \<open>triple\<close>).
  \<^item> Qu (\<^verbatim>\<open>queue.c\<close>, \<^verbatim>\<open>sf_qu.c\<close>): doubly linked rings on a heap of links, and the proof
    that they implement lists. The other theories use lists for queues.
  \<^item> Du (\<^verbatim>\<open>du.c\<close>): data units, with the invariant that counts the views of every buffer.
  \<^item> Fsm (\<^verbatim>\<open>fsm.c\<close>, \<^verbatim>\<open>trnsdgrm.c\<close>): the interpreter of transition diagrams.
  \<^item> Sch (\<^verbatim>\<open>schsel.c\<close>): the scheduler; Tmr (\<^verbatim>\<open>tmr.c\<close>, \<^verbatim>\<open>tmrunix.h\<close>): the timers; Sap
    (\<^verbatim>\<open>sap.c\<close>, \<^verbatim>\<open>sapcmp.c\<close>, \<^verbatim>\<open>bs.c\<close>): comparison of addresses.
  \<^item> Erop_State: the state of the engine and the primitives of its handlers. Erop_Ref and
    Erop_Keep (\<^verbatim>\<open>invoke.c\<close>, \<^verbatim>\<open>keep.c\<close>): reference numbers and the PDUs kept. Erop_Tmr
    (\<^verbatim>\<open>tmr_if.c\<close>), Erop_Pdu (\<^verbatim>\<open>pduout.c\<close>), Erop_UserOut (\<^verbatim>\<open>userout.c\<close>).
  \<^item> Erop_Invoker (\<^verbatim>\<open>invokact.c\<close>, \<^verbatim>\<open>invact2.c\<close>) and Erop_Performer (\<^verbatim>\<open>perfact.c\<close>,
    \<^verbatim>\<open>perfact2.c\<close>): the actions of the machines, one definition per C function. Erop_Diagrams
    (\<^verbatim>\<open>clinvktd.c\<close>, \<^verbatim>\<open>clinvtd2.c\<close>, \<^verbatim>\<open>clperftd.c\<close>, \<^verbatim>\<open>clpertd2.c\<close>): the tables.
  \<^item> Erop_Engine (\<^verbatim>\<open>erop_sap.c\<close>, \<^verbatim>\<open>userin.c\<close>, \<^verbatim>\<open>pduin.c\<close>, \<^verbatim>\<open>lowerind.c\<close>,
    \<^verbatim>\<open>udp_if.c\<close>): what the user, the network, the timers and the scheduler call.
    Erop_Conf (\<^verbatim>\<open>conffunc.c\<close>): the configuration.
  \<^item> Erop_Inv, Erop_Run, Erop_Reach: the locales \<open>engine_inv\<close>, \<open>engine_all\<close> and
    \<open>engine_steps\<close> carry a property of the state from the primitives through the actions, the
    machines and all steps; they are interpreted on the invariants of the engine.
  \<^item> Erop_Outcome, Erop_Steps: the engine as a transition system (\<open>estep\<close>, \<open>reachable\<close>: requests,
    arrivals, tasks, timers and changes of the environment in any order), and that an invocation
    has at most one outcome. Erop_Retrans, Erop_Request: the life of a request that nobody answers.
    Erop_Codec: the encoding of PDUs. Erop_Dup: duplicates. Erop_Edge: the ends of the engine.
  \<^item> Strfunc (\<^verbatim>\<open>strfunc.c\<close>) and Buf (\<^verbatim>\<open>buf.c\<close>): strings and buffers on the memory \<open>omem\<close>;
    Buf_Octets shows that they are lists of octets. Asn (\<^verbatim>\<open>asn.c\<close>, \<^verbatim>\<open>asnber.c\<close>): the table
    entries, \<^verbatim>\<open>asn_berFormat\<close> and \<^verbatim>\<open>asn_berParse\<close> with what they call.
  \<^item> Asn_Format: the value of a structure under a table (\<open>val_of\<close>) and its encoding \<open>ber\<close>, which the
    formatter prepends. Asn_Read: the interface \<open>octet_source\<close> between buffers and parsing, and a
    calculus for reading. Asn_Value, Asn_Bcd, Asn_Strings, Asn_Parse: when a tag decides what comes
    (\<open>tags_ok\<close>), when a value is within the limits (\<open>fits\<close>) and the places are apart
    (\<open>arranged\<close>), and that the parser then reads what the formatter wrote. Asn_Safe: what the parser
    writes for any input. Asn_Layout: computable checks of these conditions on a table.
  \<^item> Emsd_Structs (\<^verbatim>\<open>emsd.h\<close>), Emsd_V1_1 (\<^verbatim>\<open>envcomp1.c\<close>, \<^verbatim>\<open>ipmcomp1.c\<close>, \<^verbatim>\<open>prbcomp1.c\<close>,
    \<^verbatim>\<open>rptcomp1.c\<close>, \<^verbatim>\<open>errcomp1.c\<close>) and Emsd_V1_0 (the same for version 1.0): the structures and
    all compile functions. Emsd_Tables: the trees of version 1.1 satisfy the conditions.
  \<^item> Ua_State (\<^verbatim>\<open>uacore.h\<close>, \<^verbatim>\<open>ua.h\<close>): the state of the user agent. Ua_Alloc (\<^verbatim>\<open>emsdalloc.c\<close>,
    \<^verbatim>\<open>emsdcomp.c\<close>): structures and tables. Ua_Subr (\<^verbatim>\<open>msgid.c\<close>, \<^verbatim>\<open>oper.c\<close>, \<^verbatim>\<open>uadup.c\<close>, \<^verbatim>\<open>uasubr.c\<close>):
    identifiers, operations, duplicates, requests. Ua_Shell (\<^verbatim>\<open>fromsh.c\<close>, \<^verbatim>\<open>tosh.c\<close>): messages from and
    to the shell. Ua_Pre (\<^verbatim>\<open>upreproc.c\<close>), Ua_Submit (\<^verbatim>\<open>submit.c\<close>), Ua_Perform (\<^verbatim>\<open>uperform.c\<close>): the
    predicates, actions and tables of the two machines. Ua_Event (\<^verbatim>\<open>esroevt.c\<close>, \<^verbatim>\<open>ua.c\<close>): all inputs,
    and the states that they reach (\<open>ua_reachable\<close>).
  \<^item> Mem_Grow: what the memory operations leave alone. Ua_Frame: the locales \<open>ua_basic\<close>, \<open>ua_neutral\<close> and
    \<open>ua_frame\<close>, which carry a property from single updates to programs. Ua_Inv and Ua_Reach: the
    invariant of operations, pools, machines and outcomes. Ua_Machines: the locales \<open>ua_still\<close> and
    \<open>ua_every\<close> for properties of the machines. Buf_Share and Ua_Segments: buffers that share
    strings, and the cutting and joining of messages. Ua_Verify: message identifiers and their queues.
    Ua_Demo, Ua_Properties: a concrete user agent, and the properties of this part.
  \<^item> Sbm (\<^verbatim>\<open>sbm.c\<close>): memory in one block, as octets by address with its header and table in it. Sbm_Inv:
    well-formed blocks (\<open>sbm_ok\<close>), the map from handles to contents that a block stands for (\<open>sbm_abs\<close>), and
    freeing. Sbm_Trans: a transaction from its beginning to its end. Sbm_Run: the steps of a client
    (\<open>sbm_step\<close>), which are steps of a store (\<open>store_step\<close>), and the search by type. Nvm (\<^verbatim>\<open>nvm.c\<close>,
    \<^verbatim>\<open>os_bsd.c\<close>): the block in a file. Nvm_Run: what the file holds in every run (\<open>nvm_run\<close>), with programs that stop.
    Sbm_Queue: the queues in the block are those of the user agent. Nvm_Properties: the properties.
  \<^item> Cfg (\<^verbatim>\<open>config.c\<close>): configuration files. Cfg_Read: that reading them ends (\<open>nests\<close>), that more fuel
    changes nothing (\<open>fuel_same\<close>), what is read from a file of sections (\<open>config_text\<close>), and what a
    program leaves of the other files (\<open>stays_in\<close>). Cfg_Properties: the properties.
  \<^item> Demo: concrete states on which the theorems are applied. Lib_Properties and Ber_Properties: the
    properties of the libraries and of the encoding. This theory: the properties of the engine.

  The model. A handler is a program in the state monad over the record \<open>est\<close>, which holds the
  global variables, the invocations and access points by address, the data units, the scheduler,
  the timers and the environment. Everything the outside decides is in the environment: which
  calls of \<^verbatim>\<open>malloc\<close> and \<^verbatim>\<open>sendto\<close> fail, the clock, and what the sockets deliver; the
  properties hold for all environments. A call of \<^verbatim>\<open>abort\<close> or \<^verbatim>\<open>EH_fatal\<close> ends the
  process: the state does not change after it. Calls into the user's functions are recorded with
  their arguments. Addresses are natural numbers; those of released invocations are not used again.
  The configuration of the default build is modelled (\<^verbatim>\<open>FIXED_TIMERS\<close>, without
  \<^verbatim>\<open>AUTHENTICATE_DOMAIN\<close>, tracing and exception messages).

  The strings, the buffers and the encoding are functions in the state monad that deliver a return
  code or a result, on a memory of data areas (by block and offset), strings, segments and buffers.
  The C structures are a memory of their own, one map for every type of member, by address; the
  layout is that of 32-bit pointers and longs, as \<^verbatim>\<open>OS_Uint32\<close> is an \<^verbatim>\<open>unsigned long\<close>. A table entry is
  a value; that a failing call leaves the tag of a choice in its entry is not followed. What C
  leaves undefined (an empty tree where an entry is needed) is the code \<open>Undefined\<close>. The theorems about
  formatting and parsing assume that no allocation fails.

  The user agent is a program over the record \<open>ua\<close>: the memory, operations and machines by address,
  the queues as lists, the scheduler and timers. What the remote operations service, the shell and
  the clock answer comes from an environment; calls of the shell are recorded. Data units are lists of
  octets; the areas of their views are blocks that the environment may overwrite after the
  indication. Using a block after it was freed is marked (\<open>u_undefined\<close>), and so is reading what was
  not initialised; the invariants hold up to that point.

  Bounds and fuel. \<open>TMR_processQueue\<close> is a loop whose handlers can start new timers: it has fuel,
  and C17 shows that one round per due timer is enough. The scheduler's loop has the bound of the
  code, 201 tasks. Integers that can wrap in the code are words, or have the conversion written
  out (\<open>to_short\<close>, \<open>to_byte\<close>, \<open>u16\<close>); C39 is about the clock. The loop over the chunks of a string has
  the length of the string as fuel, since every chunk has an octet, and the search for a segment
  that is not empty the number of segments. The loop of \<^verbatim>\<open>SBM_freeTrans\<close> that takes entries from the table
  has their number as fuel, since every round takes one. The inclusion of configuration files has
  a depth as fuel; C24 shows that the limit of the code, an \<open>int\<close>, is enough, and that more
  changes nothing.

  A configuration file is a list of octets, read in lines as \<^verbatim>\<open>fgets\<close> delivers them with the buffer of the
  code; files, environment variables, commands and settings are an environment. Texts have no
  octet 0. A value that overflows its buffer is kept at its length, so C23 is about values that fit.

  The block memory is modelled on its octets; pointers are integers, as differences of them are
  stored. The abstract store says nothing of places: a handle, a type and the octets. The file system
  is a map from names to octets, with what can fail; a write of the file is done as a whole or ends
  the program, so a file that is written in part is not considered. The theorem on freeing needs that
  less than 65536 octets lie behind the freed data, where the code casts to 16 bits; adding to a
  transaction (\<^verbatim>\<open>SBM_addToTrans\<close>) is modelled but is not among the steps of a client, since it breaks
  the block when the table has no free entry (\<open>addToTrans_breaks\<close>).

  Not modelled: the shells that connect the engine to other processes, the mail servers of EMSD,
  the shells and the delivery control of its user agent (\<^verbatim>\<open>DELIVERY_CONTROL\<close> is defined for Windows only), the printing of tables and strings, the return of the compile functions when a
  table entry cannot be allocated, the end of the 16 characters of \<^verbatim>\<open>bcdToString\<close>, the management agent, traces and exception messages, the other ports of the
  libraries, the creation of diagrams and machines (taken to succeed), interrupts (the atomic
  sections of the code protect the queues against them), and the lifetime of octets outside the
  buffers: reading behind the end of a PDU delivers the cells that follow it. Bit strings and
  parts of type \<^verbatim>\<open>ASN_Type_Buffer\<close> are modelled, but C3 is not about them: the former do not arrive
  as they were sent, the latter are sent without a tag.
\<close>

unbundle bit_operations_syntax

section \<open>The life of an invocation\<close>

text \<open>
  C1. A request that is accepted and never answered is sent once and then again exactly
  \<^verbatim>\<open>retransmitCount\<close> times, always with the same octets: the control information of an
  \<^verbatim>\<open>INVOKE\<close> PDU with one reference number, and the user's data. After the last retransmission and
  the last timer the user is told, once, that the peer does not respond; after the reference
  number timer the release of the invocation is scheduled, and no timer is left.
\<close>

theorem unanswered_request:
  fixes userRef :: nat and rem :: u8 and ts :: T_SapSel and ns :: N_SapAddr and opv enc :: int
  assumes "good_req sel par s" and "e_timerQ s = []" and "availSchInfo (e_sch s) > 1"
    and "to_short (retransmitCount (e_cfg s)) = int n"
  shows "let s' = (fireFirst ^^ (n + 3)) (exec (EROP_invokeReq userRef sel rem ts ns opv enc par) s) in
    (\<exists>r. 0 \<le> r \<and> r < totalRefNumbers (e_refs s) \<and>
      sent (e_env s') = sent (e_env s) @
        replicate (Suc n) (ts, ns, invokePci rem r opv enc @ DU_bytes par (e_du s), True)) \<and>
    e_timerQ s' = [] \<and> curState (e_invoke s' (e_next s)) = Some lsfsm_sCLInvokerStart \<and>
    sch_active (e_sch s') = sch_active (e_sch s) @
      [\<lparr>si_task = erop_scheduledFailureIndT (e_next s) userRef ESRO_FailureUserNotResponding,
         si_event = SCH_PSEUDO_EVENT\<rparr>,
       \<lparr>si_task = erop_relInvokeT (e_next s), si_event = SCH_PSEUDO_EVENT\<rparr>]"
  using invokeReq_unanswered [OF assms, where userRef = userRef and rem = rem and ts = ts and ns = ns
    and opv = opv and enc = enc]
  by (auto simp: Let_def)

theorem unanswered_request_witness:
  "\<exists>r. sent (e_env ((fireFirst ^^ 6) (exec (EROP_invokeReq 42 7 3 demo_addr demo_addr 5 2 20) demo))) =
     replicate 4 (demo_addr, demo_addr, invokePci 3 r 5 2 @ [252, 253, 254, 255], True)"
proof -
  have "to_short (retransmitCount (e_cfg demo)) = int 3" "e_timerQ demo = []" "availSchInfo (e_sch demo) > 1"
    by (simp_all add: demo_fields demo_cfg_def to_short_small)
  then have "let s' = (fireFirst ^^ (3 + 3)) (exec (EROP_invokeReq 42 7 3 demo_addr demo_addr 5 2 20) demo) in
    (\<exists>r. 0 \<le> r \<and> r < totalRefNumbers (e_refs demo) \<and>
      sent (e_env s') = sent (e_env demo) @
        replicate (Suc 3) (demo_addr, demo_addr, invokePci 3 r 5 2 @ DU_bytes 20 (e_du demo), True))"
    using unanswered_request [OF demo_good, where n = 3 and userRef = 42 and rem = 3 and ts = demo_addr
      and ns = demo_addr and opv = 5 and enc = 2] unfolding Let_def by blast
  then show ?thesis
    by (auto simp: Let_def demo_fields demo_size)
qed

text \<open>
  C2. In every reachable state, whatever the order of the user's calls, the arrivals, the tasks,
  the timers and the failures of the environment, an invoker machine has at most one outcome (a
  result, an error or a failure), counting those delivered to the user and those that wait for the
  scheduler; and none while it waits for its answer.
\<close>

theorem one_outcome:
  assumes "reachable s" and "curState (e_invoke s m) = Some q" and "invokerSt q"
  shows "length (filter (outUpcall m) (upcalls (e_env s))) \<le> 1 \<and> outs m s \<le> 1 \<and>
    (waiting q \<and> \<not> e_aborted s \<longrightarrow> outs m s = 0)"
proof -
  have "outs m s \<le> 1" "waiting q \<and> \<not> e_aborted s \<longrightarrow> outs m s = 0"
    using reachable_outcome [OF assms(1)] assms(2,3) by (auto simp: outcome_inv_def)
  then show ?thesis
    by (auto simp: outs_def)
qed

theorem one_outcome_witness:
  "length (filter (outUpcall 101) (upcalls (e_env
     (exec (EROP_invokeReq 42 7 3 demo_addr demo_addr 5 2 20) demo)))) \<le> 1"
proof -
  let ?s = "exec (EROP_invokeReq 42 7 3 demo_addr demo_addr 5 2 20) demo"
  have "reachable ?s"
    by (rule reachable.step [OF demo_reachable estep.invokeReq])
  moreover have "curState (e_invoke ?s 101) = Some lsfsm_sInvokePduSent"
    using invokeReq_sent(2) [OF demo_good, where userRef = 42 and rem = 3 and ts = demo_addr
      and ns = demo_addr and opv = 5 and enc = 2]
    by (auto simp: req_sent_def sending_def demo_fields)
  ultimately show ?thesis
    using one_outcome [of ?s 101 lsfsm_sInvokePduSent] by (simp add: invokerSt_def)
qed

text \<open>
  C8. A request for a bound access point, with data that are not too long, a free reference number
  and working resources, succeeds: one datagram is sent to the peer that was named, with the
  control information and the user's octets; the PDU is kept, the machine waits for the answer,
  and its retransmission timer is queued.
\<close>

theorem request_sent:
  fixes userRef :: nat and rem :: u8 and ts :: T_SapSel and ns :: N_SapAddr and opv enc :: int
  assumes "good_req sel par s"
  shows "result (EROP_invokeReq userRef sel rem ts ns opv enc par) s = (SUCCESS, Some (e_next s)) \<and>
    (\<exists>r. 0 \<le> r \<and> r < totalRefNumbers (e_refs s) \<and>
      req_sent userRef ts ns (invokePci rem r opv enc @ DU_bytes par (e_du s)) s
        (exec (EROP_invokeReq userRef sel rem ts ns opv enc par) s))"
  using invokeReq_sent [OF assms] by blast

theorem request_sent_witness:
  "result (EROP_invokeReq 42 7 3 demo_addr demo_addr 5 2 20) demo = (SUCCESS, Some 101)"
  using request_sent [OF demo_good, of 42 3 demo_addr demo_addr 5 2] by (simp add: demo_fields)

section \<open>Arrivals\<close>

text \<open>
  C9. A duplicate of an \<^verbatim>\<open>INVOKE\<close> PDU, one that comes from the same address with the same
  reference number for an invocation that exists and is not at its end, creates no invocation, is
  not indicated to the user again and confirms nothing; the machine stays where it is.
\<close>

theorem duplicate_invoke:
  fixes ts :: T_SapSel
  assumes "holds_pdu du (invokePci sel r opv enc) octets s"
    and "sel < 16" "0 \<le> opv" "opv < 64" "0 \<le> enc" "enc < 4" "0 \<le> r" "r < 256"
    and "result (erop_getSapInfo sel) s = sap" "sap \<noteq> NULL"
    and "find (\<lambda>j. invokeRefNu (e_invoke s j) = r \<and> N_sapAddrCmp (remNsapAddr (e_invoke s j)) ns = 0)
      (invokeSeq (e_sap s sap)) = Some m"
    and "m \<noteq> NULL" "curState (e_invoke s m) = Some q" "performing q"
  shows "let s' = exec (lower_dataInd ts ns du) s in
    pending s' = pending s \<and> sch_runq (e_sch s') = sch_runq (e_sch s) \<and>
    upcalls (e_env s') = upcalls (e_env s) \<and> e_live s' = e_live s \<and>
    (e_aborted s' \<or> curState (e_invoke s' m) = Some q)"
  using dataInd_dup [OF assms, of ts] by (auto simp: hushed_def Let_def)

theorem duplicate_invoke_witness:
  "e_live (exec (lower_dataInd demo_addr demo_addr 20) demo_perf) = {50} \<and>
   upcalls (e_env (exec (lower_dataInd demo_addr demo_addr 20) demo_perf)) = []"
  using duplicate_invoke [OF demo_perf_pdu, where sap = 100 and ns = demo_addr and m = 50
      and q = lsfsm_sInvokePduReceived and ts = demo_addr]
  by (simp add: demo_perf_fields demo_fields demo_perf_inv_def demo_inv_def N_sapAddrCmp_refl performing_def
      Let_def demo_addr_def)

text \<open>
  C22. What \<^verbatim>\<open>erop_inPdu\<close> reads from a PDU that \<^verbatim>\<open>erop_invokePdu\<close> built are the
  values it was built from, all within the width of their fields; what is left of the data unit are
  the octets of the user. It goes on to look for the invocation.
\<close>

theorem invoke_pdu_roundtrip:
  assumes "\<not> e_aborted s" "du \<noteq> NULL" "0 \<le> DU_size du (e_du s)"
    and "sel < 16" "0 \<le> opv" "opv < 64" "0 \<le> enc" "enc < 4" "0 \<le> r" "r < 256"
  shows "let s1 = exec (erop_invokePdu sel r opv enc du) s;
      s2 = read_pdu du 3 (\<lambda>p. p\<lparr>pd_pdutype := INVOKE_PDU, pd_toESROSap := sel,
        pd_fromESROSap := sel - 1, pd_invokeRefNu := r, pd_operationValue := opv, pd_encodingType := enc\<rparr>) s1
    in exec (erop_inPdu du) s1 = exec (inPdu_find du) s2 \<and>
      result (erop_inPdu du) s1 = result (inPdu_find du) s2 \<and> DU_bytes du (e_du s2) = DU_bytes du (e_du s)"
proof -
  let ?s1 = "exec (erop_invokePdu sel r opv enc du) s"
  have "\<not> e_aborted ?s1"
    using assms(1,2) by (simp add: erop_invokePdu_def putPci_def NM_incCounter_def est_run)
  then have "holds_pdu du (invokePci sel r opv enc) (DU_bytes du (e_du s)) ?s1"
    using assms(2) erop_invokePdu_bytes(2) [OF assms(1-3)] by (simp add: holds_pdu_def)
  from read_invoke [OF this assms(4-10)] show ?thesis
    by (simp add: Let_def)
qed

theorem invoke_pdu_roundtrip_witness:
  "let s1 = exec (erop_invokePdu 7 200 33 2 20) demo;
     s2 = read_pdu 20 3 (\<lambda>p. p\<lparr>pd_pdutype := 0, pd_toESROSap := 7, pd_fromESROSap := 6,
       pd_invokeRefNu := 200, pd_operationValue := 33, pd_encodingType := 2\<rparr>) s1
   in exec (erop_inPdu 20) s1 = exec (inPdu_find 20) s2"
  using invoke_pdu_roundtrip [of demo 20 7 33 2 200] by (simp add: demo_fields demo_size Let_def)

text \<open>The same for the PDU that carries a result.\<close>

theorem result_pdu_roundtrip:
  assumes "\<not> e_aborted s" "du \<noteq> NULL" "0 \<le> DU_size du (e_du s)" and "0 \<le> enc" "enc < 4" "0 \<le> r" "r < 256"
  shows "let s1 = exec (erop_resultPdu r enc du) s;
      s2 = read_pdu du 2 (\<lambda>p. p\<lparr>pd_pdutype := RESULT_PDU, pd_encodingType := enc, pd_invokeRefNu := r\<rparr>) s1
    in exec (erop_inPdu du) s1 = exec (inPdu_find du) s2 \<and>
      result (erop_inPdu du) s1 = result (inPdu_find du) s2 \<and> DU_bytes du (e_du s2) = DU_bytes du (e_du s)"
proof -
  let ?s1 = "exec (erop_resultPdu r enc du) s"
  have "\<not> e_aborted ?s1"
    using assms(1,2) by (simp add: erop_resultPdu_def putPci_def NM_incCounter_def est_run)
  then have "holds_pdu du (resultPci r enc) (DU_bytes du (e_du s)) ?s1"
    using assms(2) erop_resultPdu_bytes(2) [OF assms(1-3)] by (simp add: holds_pdu_def)
  from read_result [OF this assms(4-7)] show ?thesis
    by (simp add: Let_def)
qed

theorem result_pdu_roundtrip_witness:
  "let s1 = exec (erop_resultPdu 200 3 20) demo;
     s2 = read_pdu 20 2 (\<lambda>p. p\<lparr>pd_pdutype := 1, pd_encodingType := 3, pd_invokeRefNu := 200\<rparr>) s1
   in exec (erop_inPdu 20) s1 = exec (inPdu_find 20) s2"
  using result_pdu_roundtrip [of demo 20 3 200] by (simp add: demo_fields demo_size Let_def)

text \<open>And for the PDU that carries an error.\<close>

theorem error_pdu_roundtrip:
  assumes "\<not> e_aborted s" "du \<noteq> NULL" "0 \<le> DU_size du (e_du s)"
    and "0 \<le> enc" "enc < 4" "0 \<le> r" "r < 256" "0 \<le> e" "e < 256"
  shows "let s1 = exec (erop_errorPdu r enc e du) s;
      s2 = read_pdu du 3 (\<lambda>p. p\<lparr>pd_pdutype := ERROR_PDU, pd_encodingType := enc,
        pd_invokeRefNu := r, pd_errorValue := e\<rparr>) s1
    in exec (erop_inPdu du) s1 = exec (inPdu_find du) s2 \<and>
      result (erop_inPdu du) s1 = result (inPdu_find du) s2 \<and> DU_bytes du (e_du s2) = DU_bytes du (e_du s)"
proof -
  let ?s1 = "exec (erop_errorPdu r enc e du) s"
  have "\<not> e_aborted ?s1"
    using assms(1,2) by (simp add: erop_errorPdu_def putPci_def NM_incCounter_def est_run)
  then have "holds_pdu du (errorPci r enc e) (DU_bytes du (e_du s)) ?s1"
    using assms(2) erop_errorPdu_bytes(2) [OF assms(1-3)] by (simp add: holds_pdu_def)
  from read_error [OF this assms(4-9)] show ?thesis
    by (simp add: Let_def)
qed

theorem error_pdu_roundtrip_witness:
  "let s1 = exec (erop_errorPdu 200 3 77 20) demo;
     s2 = read_pdu 20 3 (\<lambda>p. p\<lparr>pd_pdutype := 2, pd_encodingType := 3, pd_invokeRefNu := 200,
       pd_errorValue := 77\<rparr>) s1
   in exec (erop_inPdu 20) s1 = exec (inPdu_find 20) s2"
  using error_pdu_roundtrip [of demo 20 3 200 77] by (simp add: demo_fields demo_size Let_def)

text \<open>
  An acknowledgement and a failure PDU are read before their invocation is looked up: the
  reference number (and the reason) of the octets that \<^verbatim>\<open>erop_ackPdu\<close> and
  \<^verbatim>\<open>erop_failurePdu\<close> write are what the lookup finds in \<^verbatim>\<open>erop_pdu\<close>.
\<close>

theorem ack_failure_read:
  assumes "0 \<le> r" "r < 256"
  shows "(holds_pdu du (ackPci r) [] s \<longrightarrow> exec (erop_inPdu du) s = exec (do {
        invoke \<leftarrow> erop_getInvoke;
        if invoke = NULL then inPdu_ignore du else inPdu_rest du 2 invoke
      }) (s\<lparr>e_pdu := (e_pdu s)\<lparr>pd_data := NULL, pd_badpdu := False, pd_pdutype := ACK_PDU,
        pd_invokeRefNu := r\<rparr>\<rparr>)) \<and>
    (holds_pdu du (failurePci r reason) [] s \<longrightarrow> exec (erop_inPdu du) s = exec (do {
        invoke \<leftarrow> erop_getInvoke;
        if invoke = NULL then inPdu_ignore du else inPdu_rest du 3 invoke
      }) (s\<lparr>e_pdu := (e_pdu s)\<lparr>pd_data := NULL, pd_badpdu := False, pd_pdutype := FAILURE_PDU,
        pd_invokeRefNu := r, pd_failureValue := uint reason\<rparr>\<rparr>))"
  using read_ack [OF _ assms] read_failure [OF _ assms] by blast

theorem ack_failure_read_witness:
  "exec (erop_inPdu 20) (demo\<lparr>e_du := (e_du demo)\<lparr>
       bufs := (bufs demo_du)(10 := (bufs demo_du 10)\<lparr>b_mem := (\<lambda>_. 9)(1021 := 4, 1022 := 9, 1023 := 1)\<rparr>),
       views := (views demo_du)(20 := (views demo_du 20)\<lparr>v_addr := 1021\<rparr>)\<rparr>\<rparr>) =
   exec (do {
        invoke \<leftarrow> erop_getInvoke;
        if invoke = NULL then inPdu_ignore 20 else inPdu_rest 20 3 invoke
      }) (let s = demo\<lparr>e_du := (e_du demo)\<lparr>
       bufs := (bufs demo_du)(10 := (bufs demo_du 10)\<lparr>b_mem := (\<lambda>_. 9)(1021 := 4, 1022 := 9, 1023 := 1)\<rparr>),
       views := (views demo_du)(20 := (views demo_du 20)\<lparr>v_addr := 1021\<rparr>)\<rparr>\<rparr>
     in s\<lparr>e_pdu := (e_pdu s)\<lparr>pd_data := NULL, pd_badpdu := False, pd_pdutype := FAILURE_PDU,
        pd_invokeRefNu := 9, pd_failureValue := 1\<rparr>\<rparr>)"
proof -
  let ?s = "demo\<lparr>e_du := (e_du demo)\<lparr>
       bufs := (bufs demo_du)(10 := (bufs demo_du 10)\<lparr>b_mem := (\<lambda>_. 9)(1021 := 4, 1022 := 9, 1023 := 1)\<rparr>),
       views := (views demo_du)(20 := (views demo_du 20)\<lparr>v_addr := 1021\<rparr>)\<rparr>\<rparr>"
  have "failurePci 9 1 = [4, 9, 1]"
    by (simp add: failurePci_def to_byte_def)
  moreover have "DU_bytes 20 (e_du ?s) = [4, 9, 1]"
    by (simp add: demo_fields demo_du_def DU_bytes_def DU_size_def DU_data_def DU_get_def upt_rec)
  ultimately have "holds_pdu 20 (failurePci 9 1) [] ?s"
    by (simp add: holds_pdu_def demo_fields)
  then show ?thesis
    using ack_failure_read [of 9 20 ?s 1] by (simp add: Let_def)
qed

section \<open>Timers, tasks and machines\<close>



text \<open>
  C19. In every reachable state the queue of timers is ordered by their times, and the tables of
  reference numbers are as \<^verbatim>\<open>erop_refInit\<close> left them but for their entries: the next number to
  try is one of those of the tables.
\<close>

theorem reachable_timers_refs:
  assumes "reachable s"
  shows "tmr_sorted (e_timerQ s) \<and> refs_wf (e_refs s)"
proof
  show "tmr_sorted (e_timerQ s)"
    by (rule ordered.keep_reachable [OF assms]) (simp add: engine_init_def tmr_sorted_def)
  show "refs_wf (e_refs s)"
    by (rule refs.keep_reachable [OF assms]) (simp add: engine_init_def)
qed

theorem reachable_timers_refs_witness:
  "tmr_sorted (e_timerQ demo) \<and> refs_wf (e_refs demo)"
  by (rule reachable_timers_refs [OF demo_reachable])



text \<open>
  C21. Only the rows of the diagrams that the protocol intends to be heard (an answer, a failure
  or the end of the waiting for an invoker, the first \<^verbatim>\<open>INVOKE\<close> PDU and the acknowledgement or
  failure for a performer) schedule an indication or a confirmation: for every other event in
  every state the tasks for the user, the calls to the user and the set of invocations stay.
\<close>

theorem quiet_rows:
  assumes "curState (e_invoke s m) = Some q" and "\<not> loud q e"
  shows "let s' = exec (runMachine m e) s in pending s' = pending s \<and>
    sch_runq (e_sch s') = sch_runq (e_sch s) \<and> upcalls (e_env s') = upcalls (e_env s) \<and>
    e_live s' = e_live s"
  using runMachine_hushed [OF assms] by (simp add: hushed_def Let_def)

theorem quiet_rows_witness:
  "pending (exec (runMachine 50 lsfsm_EvtPduAck) demo_perf) = pending demo_perf"
  using quiet_rows [of demo_perf 50 lsfsm_sInvokePduReceived lsfsm_EvtPduAck]
  by (simp add: demo_perf_fields demo_perf_inv_def loud_def Let_def)

text \<open>
  C18. Every machine runs through its diagram in one direction: an event leaves it where it is,
  takes it further, or back to its start when its course ends (the reference number timer has
  expired, or a performer gives up on its user). It never changes its diagram, and the states of
  the other machines do not change.
\<close>

theorem machine_course:
  assumes "m \<noteq> NULL" "curState (e_invoke s m) = Some q" and "\<not> e_aborted (exec (runMachine m e) s)"
  shows "let s' = exec (runMachine m e) s in result (runMachine m e) s = SUCCESS \<and>
    (\<exists>q'. curState (e_invoke s' m) = Some q' \<and> diagOf q' = diagOf q \<and>
      (q' = q \<or> stage q < stage q' \<or> stage q' = 0 \<and> ends_course q e)) \<and>
    (\<forall>m'. m' \<noteq> m \<longrightarrow> curState (e_invoke s' m') = curState (e_invoke s m'))"
  using runMachine_course [OF assms] next_st_course [of q e] runMachine_effect(1) [OF assms(1,2), of e]
  by (simp add: Let_def)

theorem machine_course_witness:
  "result (runMachine 50 lsfsm_EvtPduAck) demo_perf = SUCCESS"
proof -
  have "exec (runMachine 50 lsfsm_EvtPduAck) demo_perf =
      exec (setCurState 50 (Some lsfsm_sInvokePduReceived)) demo_perf"
    by (subst runMachine_effect(2) [where q = lsfsm_sInvokePduReceived])
      (simp_all add: demo_perf_fields demo_perf_inv_def next_st_def act_defs tr_badEventIgnore_def run_simps)
  then have "\<not> e_aborted (exec (runMachine 50 lsfsm_EvtPduAck) demo_perf)"
    by (simp add: demo_perf_fields)
  then show ?thesis
    using machine_course [of 50 demo_perf lsfsm_sInvokePduReceived lsfsm_EvtPduAck]
    by (simp add: demo_perf_fields demo_perf_inv_def Let_def)
qed

text \<open>
  C27. Cancelling a timer of a machine by its name, or all its timers, takes exactly those timers
  of that machine out of the queue, and leaves all others and their order as they are.
\<close>

theorem timers_cancelled:
  assumes "\<not> e_aborted s" and "tmrQu_ok m s"
  shows "e_timerQ (exec (erop_tmrCancel m erop_allTimer) s) =
      filter (\<lambda>t. td_invoke (tm_data t) \<noteq> m) (e_timerQ s) \<and>
    tmrQu (e_invoke (exec (erop_tmrCancel m erop_allTimer) s) m) = [] \<and>
    (name \<noteq> erop_allTimer \<longrightarrow> e_timerQ (exec (erop_tmrCancel m name) s) =
      filter (\<lambda>t. \<not> (td_invoke (tm_data t) = m \<and> td_name (tm_data t) = name)) (e_timerQ s))"
  using tmrCancel_all [OF assms] tmrCancel_named [OF assms] by blast

theorem timers_cancelled_witness: "e_timerQ (exec (erop_tmrCancel 50 erop_allTimer) demo_perf) = []"
  using timers_cancelled [of demo_perf 50]
  by (simp add: demo_perf_fields tmrQu_ok_def demo_perf_inv_def)

section \<open>What the engine does not do\<close>



text \<open>
  C29. Unbinding an access point releases only the first of its invocations: the others stay in
  use, although their access point is gone, and the call reports success.
\<close>

theorem unbind_releases_first:
  assumes "\<not> e_aborted s" and "result (erop_getSapInfo sel) s = sap" "sap \<noteq> NULL"
    and "invokeSeq (e_sap s sap) = m # ms" "m \<noteq> NULL"
  shows "result (EROP_sapUnbind sel) s = SUCCESS \<and> e_live (exec (EROP_sapUnbind sel) s) = e_live s - {m} \<and>
    e_sapSeq (exec (EROP_sapUnbind sel) s) = removeAll sap (e_sapSeq s)"
  using sapUnbind_releases_first [OF assms] by blast

theorem unbind_releases_first_witness:
  "let s = demo_perf\<lparr>e_live := {50, 51},
         e_sap := (e_sap demo_perf)(100 := \<lparr>sapSel = 7, functionalUnit = 3, invokeSeq = [50, 51]\<rparr>)\<rparr>
   in e_live (exec (EROP_sapUnbind 7) s) = {51}"
  using unbind_releases_first [of "demo_perf\<lparr>e_live := {50, 51},
      e_sap := (e_sap demo_perf)(100 := \<lparr>sapSel = 7, functionalUnit = 3, invokeSeq = [50, 51]\<rparr>)\<rparr>" 7 100 50 "[51]"]
  by (simp add: demo_perf_fields demo_fields Let_def erop_getSapInfo_def est_run demo_perf_def insert_Diff_if)

text \<open>
  C30. A receive that fails takes the receiving task with it: when a buffer was there but
  \<^verbatim>\<open>recvfrom\<close> returned an error, no task is queued, so nothing is received any more. When there
  is no buffer the task is queued again.
\<close>

theorem receive_failure:
  assumes "\<not> e_aborted s"
  shows "(fst (DU_alloc (e_pool s) MAXBFSZ (e_du s)) \<noteq> NULL \<and>
      (\<forall>x xs. inbox (e_env s) \<noteq> Some x # xs) \<longrightarrow>
        result udp_receive s = FAIL \<and> e_sch (exec udp_receive s) = e_sch s) \<and>
    (fst (DU_alloc (e_pool s) MAXBFSZ (e_du s)) = NULL \<and> availSchInfo (e_sch s) \<noteq> 0 \<longrightarrow>
      sch_active (e_sch (exec udp_receive s)) =
        sch_active (e_sch s) @ [\<lparr>si_task = udp_receiveT, si_event = e_sock s\<rparr>])"
  using udp_receive_fails [OF assms] udp_receive_no_buffer [OF assms] by blast

theorem receive_failure_witness:
  "let s = demo\<lparr>e_du := demo_du\<lparr>pools := (\<lambda>_. \<lparr>p_bufFreeList = 11, p_size = 20000, p_count = 1\<rparr>)\<rparr>,
       e_env := (e_env demo)\<lparr>inbox := [None]\<rparr>\<rparr>
   in e_sch (exec udp_receive s) = e_sch demo"
proof -
  let ?s = "demo\<lparr>e_du := demo_du\<lparr>pools := (\<lambda>_. \<lparr>p_bufFreeList = 11, p_size = 20000, p_count = 1\<rparr>)\<rparr>,
       e_env := (e_env demo)\<lparr>inbox := [None]\<rparr>\<rparr>"
  have "fst (DU_alloc (e_pool ?s) MAXBFSZ (e_du ?s)) \<noteq> NULL"
    by (simp add: DU_alloc_def demo_fields demo_du_def Let_def)
  then show ?thesis
    using receive_failure [of ?s] by (simp add: demo_fields Let_def)
qed

text \<open>
  An error indication reaches the user with its third and fourth argument exchanged: the
  error value of the PDU is passed where the user's function takes the encoding type, and the
  encoding type where it takes the error value.
\<close>

theorem error_indication_swapped:
  assumes "\<not> e_aborted s" and "\<not> memFail (e_env s) (memCount (e_env s))" and "availSchInfo (e_sch s) \<noteq> 0"
  shows "let s1 = exec (erop_errorInd m userRef enc err d) s;
      s2 = exec (dispatch (si_task (last (sch_active (e_sch s1))))) s1
    in upcalls (e_env s2) = upcalls (e_env s) @ [UerrorInd m userRef err enc d]"
  using assms
  by (simp add: erop_errorInd_def est_run SF_memGet_effect sch_submit_effect erop_scheduledErrorInd_def
      Erop_UserOut.upcall_def du_free_def Let_def)

theorem error_indication_swapped_witness:
  "let s1 = exec (erop_errorInd 50 42 2 77 NULL) demo;
       s2 = exec (dispatch (si_task (last (sch_active (e_sch s1))))) s1
   in upcalls (e_env s2) = [UerrorInd 50 42 77 2 NULL]"
  using error_indication_swapped [of demo 50 42 2 77 NULL] by (simp add: demo_fields demo_defs)

text \<open>
  Once the process has died (\<^verbatim>\<open>abort\<close> or \<^verbatim>\<open>EH_fatal\<close>) no step changes it: only the
  outside goes on.
\<close>

theorem dead_is_final:
  assumes "estep s s'" and "e_aborted s"
  shows "s' = s \<or> (\<exists>f g c i. s' = s\<lparr>e_env := (e_env s)\<lparr>memFail := f, sendFail := g, osClock := c, inbox := i\<rparr>\<rparr>)"
  by (rule estep_dead [OF assms])

theorem dead_is_final_witness:
  "exec (EROP_sapBind 3 2) (demo\<lparr>e_aborted := True\<rparr>) = demo\<lparr>e_aborted := True\<rparr> \<or>
   (\<exists>f g c i. exec (EROP_sapBind 3 2) (demo\<lparr>e_aborted := True\<rparr>) =
     (demo\<lparr>e_aborted := True\<rparr>)\<lparr>e_env := (e_env demo)\<lparr>memFail := f, sendFail := g, osClock := c, inbox := i\<rparr>\<rparr>)"
  using dead_is_final [OF estep.sapBind, of "demo\<lparr>e_aborted := True\<rparr>" 3 2] by simp

end
